(* ===== verification/Prelude.thy ===== *)
theory Prelude
  imports Main "HOL-Library.Word"
begin

unbundle bit_operations_syntax

text \<open>
  Shared vocabulary of the development: Go's byte slices, errors and fixed-width integers,
  and the error-and-state monad in which every reader and decoder of the code is written.

  \<^item> A Go \<open>[]byte\<close> is a list of \<open>8 word\<close>. Go's \<open>int\<close> (64 bits) is \<open>int\<close>; where an
    operation of the code can leave the 32 or 64 bit range the wrap-around is written out
    with \<open>s32\<close>, \<open>u32\<close> and \<open>s64\<close>.
  \<^item> A Go error is a value of \<open>goerr\<close>: a message with its formatted integer arguments, a
    message wrapping another error (\<open>%w\<close>), the two end-of-stream errors of package io, or a
    run-time panic. Panics are values too, so that "never panics" is a statement about results.
  \<^item> A Go method that mutates its receiver and returns \<open>(value, error)\<close> is a function
    \<open>'s \<Rightarrow> (goerr + 'a) \<times> 's\<close>: the receiver after the call is always returned, also when
    the call failed.
\<close>

named_theorems gost_simps \<open>unfolding rules of the error-and-state monad\<close>
named_theorems mono_intros \<open>readers that never move a cursor backwards\<close>

section \<open>Errors and the error-and-state monad\<close>

type_synonym byte = "8 word"

datatype goerr =
    Err string "int list"
  | Wrap string "int list" goerr
  | IoEOF
  | IoUnexpectedEOF
  | Panic string

type_synonym ('s, 'a) gost = "'s \<Rightarrow> (goerr + 'a) \<times> 's"

definition ret :: "'a \<Rightarrow> ('s, 'a) gost" where
  "ret x s = (Inr x, s)"

definition fail :: "goerr \<Rightarrow> ('s, 'a) gost" where
  "fail e s = (Inl e, s)"

definition bnd :: "('s, 'a) gost \<Rightarrow> ('a \<Rightarrow> ('s, 'b) gost) \<Rightarrow> ('s, 'b) gost" where
  "bnd m f s = (case m s of (Inl e, s') \<Rightarrow> (Inl e, s') | (Inr x, s') \<Rightarrow> f x s')"

text \<open>\<open>fmt.Errorf("msg: %w", err)\<close>; a panic is not an error and passes through.\<close>

fun wrap_err :: "string \<Rightarrow> int list \<Rightarrow> goerr \<Rightarrow> goerr" where
  "wrap_err msg args (Panic p) = Panic p"
| "wrap_err msg args e = Wrap msg args e"

definition wrapped :: "string \<Rightarrow> int list \<Rightarrow> ('s, 'a) gost \<Rightarrow> ('s, 'a) gost" where
  "wrapped msg args m s =
     (case m s of (Inl e, s') \<Rightarrow> (Inl (wrap_err msg args e), s') | (Inr x, s') \<Rightarrow> (Inr x, s'))"

text \<open>\<open>errors.Is(err, io.EOF)\<close> looks through wrapped errors.\<close>

fun is_eof :: "goerr \<Rightarrow> bool" where
  "is_eof IoEOF = True"
| "is_eof (Wrap msg args e) = is_eof e"
| "is_eof _ = False"

fun is_panic :: "goerr \<Rightarrow> bool" where
  "is_panic (Panic p) = True"
| "is_panic _ = False"

lemma ret_simp [simp, gost_simps]: "ret x s = (Inr x, s)"
  by (simp add: ret_def)

lemma fail_simp [simp, gost_simps]: "fail e s = (Inl e, s)"
  by (simp add: fail_def)

lemma bnd_Inr [simp]: "m s = (Inr x, s') \<Longrightarrow> bnd m f s = f x s'"
  by (simp add: bnd_def)

lemma bnd_Inl [simp]: "m s = (Inl e, s') \<Longrightarrow> bnd m f s = (Inl e, s')"
  by (simp add: bnd_def)

lemma wrapped_Inr [simp]: "m s = (Inr x, s') \<Longrightarrow> wrapped msg args m s = (Inr x, s')"
  by (simp add: wrapped_def)

lemma wrapped_Inl [simp]:
  "m s = (Inl e, s') \<Longrightarrow> wrapped msg args m s = (Inl (wrap_err msg args e), s')"
  by (simp add: wrapped_def)

lemma wrapped_Inr_iff: "wrapped msg args m s = (Inr x, s') \<longleftrightarrow> m s = (Inr x, s')"
  by (auto simp: wrapped_def split: prod.splits sum.splits)

lemma bnd_eq_Inr:
  "bnd m f s = (Inr y, s'') \<longleftrightarrow> (\<exists>x s'. m s = (Inr x, s') \<and> f x s' = (Inr y, s''))"
  by (auto simp: bnd_def split: prod.splits sum.splits)

lemma bnd_ret [simp]: "bnd (ret x) f = f x"
  by (rule ext) (simp add: bnd_def)

lemma bnd_assoc: "bnd (bnd m f) g = bnd m (\<lambda>x. bnd (f x) g)"
  by (rule ext) (auto simp: bnd_def split: prod.splits sum.splits)

lemma wrapped_bnd:
  "wrapped msg args (bnd m f) = bnd (wrapped msg args m) (\<lambda>x. wrapped msg args (f x))"
  by (rule ext) (auto simp: bnd_def wrapped_def split: prod.splits sum.splits)

lemma wrapped_ret [simp]: "wrapped msg args (ret x) = ret x"
  by (rule ext) (simp add: wrapped_def)

lemma bnd_cong [fundef_cong]:
  assumes "m s = m' s'" and "\<And>x t. m' s' = (Inr x, t) \<Longrightarrow> f x t = f' x t"
  shows "bnd m f s = bnd m' f' s'"
  using assms by (auto simp: bnd_def split: prod.splits sum.splits)

lemma wrapped_cong [fundef_cong]:
  "m s = m' s' \<Longrightarrow> wrapped msg args m s = wrapped msg args m' s'"
  by (simp add: wrapped_def)

text \<open>The same for code without state: \<open>x, err := f(); if err != nil { return err }\<close>.\<close>

definition attempt :: "goerr + 'a \<Rightarrow> ('a \<Rightarrow> goerr + 'b) \<Rightarrow> goerr + 'b" where
  "attempt r f = (case r of Inl e \<Rightarrow> Inl e | Inr x \<Rightarrow> f x)"

definition wrap_res :: "string \<Rightarrow> int list \<Rightarrow> goerr + 'a \<Rightarrow> goerr + 'a" where
  "wrap_res msg args r = (case r of Inl e \<Rightarrow> Inl (wrap_err msg args e) | Inr x \<Rightarrow> Inr x)"

lemma attempt_simps [simp]: "attempt (Inl e) f = Inl e" "attempt (Inr x) f = f x"
  by (simp_all add: attempt_def)

lemma attempt_Inr [simp]: "attempt r Inr = r"
  by (cases r) simp_all

lemma wrap_res_simps [simp]:
  "wrap_res msg args (Inl e) = Inl (wrap_err msg args e)" "wrap_res msg args (Inr x) = Inr x"
  by (simp_all add: wrap_res_def)

lemma attempt_eq_Inr: "attempt r f = Inr y \<longleftrightarrow> (\<exists>x. r = Inr x \<and> f x = Inr y)"
  by (cases r) auto

lemma wrap_res_eq_Inr [simp]: "wrap_res msg args r = Inr y \<longleftrightarrow> r = Inr y"
  by (cases r) auto

lemma attempt_cong [fundef_cong]: "r = r' \<Longrightarrow> (\<And>x. r' = Inr x \<Longrightarrow> f x = f' x) \<Longrightarrow> attempt r f = attempt r' f'"
  by (cases r') auto

section \<open>Loops\<close>

text \<open>
  \<open>for_range i n body\<close> is \<open>for j := i; j < i + n; j++\<close> with a body that may fail; the
  results are collected in order. Go's \<open>range n\<close> runs no iteration for a negative \<open>n\<close>.
\<close>

fun for_range :: "nat \<Rightarrow> nat \<Rightarrow> (nat \<Rightarrow> ('s, 'a) gost) \<Rightarrow> ('s, 'a list) gost" where
  "for_range i 0 body s = (Inr [], s)"
| "for_range i (Suc n) body s =
     bnd (body i) (\<lambda>x. bnd (for_range (Suc i) n body) (\<lambda>xs. ret (x # xs))) s"

lemma for_range_length: "for_range i n body s = (Inr xs, s') \<Longrightarrow> length xs = n"
  by (induction i n body s arbitrary: xs s' rule: for_range.induct) (auto simp: bnd_eq_Inr)

section \<open>Readers that keep a relation between the state before and after\<close>

text \<open>
  \<open>keeps R m\<close>: whatever \<open>m\<close> returns, the state afterwards is related to the state before.
  With a reflexive and transitive \<open>R\<close> it composes along \<open>bnd\<close>; the components use it to
  show that a reader only moves its cursor forwards, which is why their loops terminate.
\<close>

definition keeps :: "('s \<Rightarrow> 's \<Rightarrow> bool) \<Rightarrow> ('s, 'a) gost \<Rightarrow> bool" where
  "keeps R m \<longleftrightarrow> (\<forall>s. R s (snd (m s)))"

lemma keepsI: "(\<And>s r s'. m s = (r, s') \<Longrightarrow> R s s') \<Longrightarrow> keeps R m"
  unfolding keeps_def by (metis prod.collapse)

lemma keepsD: "keeps R m \<Longrightarrow> m s = (r, s') \<Longrightarrow> R s s'"
  by (metis keeps_def snd_conv)

lemma keeps_bnd:
  assumes "transp R" and "keeps R m" and "\<And>x. keeps R (f x)"
  shows "keeps R (bnd m f)"
proof (rule keepsI)
  fix s r s'
  assume run: "bnd m f s = (r, s')"
  obtain q t where q: "m s = (q, t)" by fastforce
  have step: "R s t" using assms(2) q by (rule keepsD)
  show "R s s'"
  proof (cases q)
    case (Inl e)
    with run q step show ?thesis by simp
  next
    case (Inr x)
    with run q have "f x t = (r, s')" by simp
    then have "R t s'" using assms(3) keepsD by metis
    with step assms(1) show ?thesis by (blast dest: transpD)
  qed
qed

lemma keeps_if [mono_intros]: "keeps R m \<Longrightarrow> keeps R k \<Longrightarrow> keeps R (if b then m else k)"
  by simp

lemma keeps_case_prod [mono_intros]:
  "(\<And>x y. keeps R (f x y)) \<Longrightarrow> keeps R (case p of (x, y) \<Rightarrow> f x y)"
  by (cases p) simp

lemma keeps_wrapped: "keeps R m \<Longrightarrow> keeps R (wrapped msg args m)"
  by (rule keepsI) (auto simp: wrapped_def split: prod.splits sum.splits dest: keepsD)

lemma keeps_ret: "reflp R \<Longrightarrow> keeps R (ret x)"
  by (rule keepsI) (auto dest: reflpD)

lemma keeps_fail: "reflp R \<Longrightarrow> keeps R (fail e)"
  by (rule keepsI) (auto dest: reflpD)

lemma keeps_for_range:
  assumes "reflp R" and "transp R" and "\<And>j. keeps R (body j)"
  shows "keeps R (for_range i n body)"
proof (induction n arbitrary: i)
  case 0
  show ?case using assms(1) by (auto intro: keepsI dest: reflpD)
next
  case (Suc n)
  have "for_range i (Suc n) body =
      bnd (body i) (\<lambda>x. bnd (for_range (Suc i) n body) (\<lambda>xs. ret (x # xs)))"
    by (rule ext) simp
  moreover have "keeps R \<dots>"
    by (intro keeps_bnd assms Suc.IH keeps_ret)
  ultimately show ?case by simp
qed

section \<open>What a reader returns\<close>

definition yields :: "('s, 'a) gost \<Rightarrow> ('a \<Rightarrow> bool) \<Rightarrow> bool" where
  "yields m P \<longleftrightarrow> (\<forall>s x s'. m s = (Inr x, s') \<longrightarrow> P x)"

lemma yieldsI: "(\<And>s x s'. m s = (Inr x, s') \<Longrightarrow> P x) \<Longrightarrow> yields m P"
  by (auto simp: yields_def)

lemma yieldsD: "yields m P \<Longrightarrow> m s = (Inr x, s') \<Longrightarrow> P x"
  by (auto simp: yields_def)

lemma yields_bnd: "yields m P \<Longrightarrow> (\<And>x. P x \<Longrightarrow> yields (f x) Q) \<Longrightarrow> yields (bnd m f) Q"
  unfolding yields_def bnd_eq_Inr by metis

lemma yields_wrapped: "yields m P \<Longrightarrow> yields (wrapped msg args m) P"
  by (auto simp: yields_def wrapped_Inr_iff)

lemma yields_ret: "P x \<Longrightarrow> yields (ret x) P"
  by (simp add: yields_def)

lemma yields_fail: "yields (fail e) P"
  by (simp add: yields_def)

lemma yields_if: "(b \<Longrightarrow> yields m P) \<Longrightarrow> (\<not> b \<Longrightarrow> yields k P) \<Longrightarrow> yields (if b then m else k) P"
  by simp

lemma yields_for_range:
  assumes "\<And>j. yields (body j) P"
  shows "yields (for_range i n body) (\<lambda>xs. length xs = n \<and> list_all P xs)"
proof (rule yieldsI)
  fix s xs s'
  show "for_range i n body s = (Inr xs, s') \<Longrightarrow> length xs = n \<and> list_all P xs"
    by (induction n arbitrary: i s xs) (auto simp: bnd_eq_Inr dest: yieldsD [OF assms])
qed

section \<open>Errors that are not io.EOF itself\<close>

definition not_bare_eof :: "('s, 'a) gost \<Rightarrow> bool" where
  "not_bare_eof m \<longleftrightarrow> (\<forall>s. fst (m s) \<noteq> Inl IoEOF)"

lemma nbe_wrapped: "not_bare_eof (wrapped msg args m)"
proof -
  have "wrap_err msg args e \<noteq> IoEOF" for e by (cases e) auto
  then show ?thesis by (auto simp: not_bare_eof_def wrapped_def split: prod.splits sum.splits)
qed

lemma nbe_bnd: "not_bare_eof m \<Longrightarrow> (\<And>x. not_bare_eof (f x)) \<Longrightarrow> not_bare_eof (bnd m f)"
  unfolding not_bare_eof_def bnd_def
  by (auto split: prod.splits sum.splits) (metis fst_conv)

lemma nbe_ret: "not_bare_eof (ret x)"
  by (simp add: not_bare_eof_def)

lemma nbe_fail: "e \<noteq> IoEOF \<Longrightarrow> not_bare_eof (fail e)"
  by (simp add: not_bare_eof_def)

lemma nbe_if: "not_bare_eof m \<Longrightarrow> not_bare_eof k \<Longrightarrow> not_bare_eof (if b then m else k)"
  by simp

lemma nbe_case_prod: "(\<And>x y. not_bare_eof (f x y)) \<Longrightarrow> not_bare_eof (case p of (x, y) \<Rightarrow> f x y)"
  by (cases p) simp

lemma nbe_for_range: "(\<And>j. not_bare_eof (body j)) \<Longrightarrow> not_bare_eof (for_range i n body)"
proof (induction n arbitrary: i)
  case 0
  show ?case by (simp add: not_bare_eof_def)
next
  case (Suc n)
  have "for_range i (Suc n) body =
      bnd (body i) (\<lambda>x. bnd (for_range (Suc i) n body) (\<lambda>xs. ret (x # xs)))"
    by (rule ext) simp
  with Suc show ?case by (auto intro: nbe_bnd nbe_ret)
qed

section \<open>Simulation between two readers\<close>

text \<open>
  \<open>sim R m m'\<close>: from related states the two readers both return the same value, in related
  states, or both fail (with a panic in both or in neither). It composes along \<open>bnd\<close>; the
  components use it to compare a streaming decoder with the decoder of a buffer.
\<close>

fun same_outcome :: "('s \<Rightarrow> 't \<Rightarrow> bool) \<Rightarrow> (goerr + 'a) \<times> 's \<Rightarrow> (goerr + 'a) \<times> 't \<Rightarrow> bool" where
  "same_outcome R (Inr x, s) (Inr y, t) = (x = y \<and> R s t)"
| "same_outcome R (Inl e, s) (Inl e', t) = (is_panic e = is_panic e')"
| "same_outcome R _ _ = False"

definition sim :: "('s \<Rightarrow> 't \<Rightarrow> bool) \<Rightarrow> ('s, 'a) gost \<Rightarrow> ('t, 'a) gost \<Rightarrow> bool" where
  "sim R m m' \<longleftrightarrow> (\<forall>s t. R s t \<longrightarrow> same_outcome R (m s) (m' t))"

lemma simI: "(\<And>s t. R s t \<Longrightarrow> same_outcome R (m s) (m' t)) \<Longrightarrow> sim R m m'"
  by (simp add: sim_def)

lemma simD: "sim R m m' \<Longrightarrow> R s t \<Longrightarrow> same_outcome R (m s) (m' t)"
  by (simp add: sim_def)

lemma same_outcome_cases:
  assumes "same_outcome R p q"
  obtains (ok) x s t where "p = (Inr x, s)" and "q = (Inr x, t)" and "R s t"
    | (err) e s e' t where "p = (Inl e, s)" and "q = (Inl e', t)" and "is_panic e = is_panic e'"
  using assms by (cases p; cases q; cases "fst p"; cases "fst q") auto

lemma is_panic_wrap [simp]: "is_panic (wrap_err msg args e) = is_panic e"
  by (cases e) auto

lemma sim_bnd:
  assumes "sim R m m'" and "\<And>x. sim R (f x) (f' x)"
  shows "sim R (bnd m f) (bnd m' f')"
proof (rule simI)
  fix s t
  assume "R s t"
  with assms(1) have "same_outcome R (m s) (m' t)" by (rule simD)
  then show "same_outcome R (bnd m f s) (bnd m' f' t)"
    by (cases rule: same_outcome_cases) (auto intro: simD [OF assms(2)])
qed

lemma sim_bnd_ok:
  assumes "sim R m m'" and "\<And>s x s'. m s = (Inr x, s') \<Longrightarrow> sim R (f x) (f' x)"
  shows "sim R (bnd m f) (bnd m' f')"
proof (rule simI)
  fix s t
  assume "R s t"
  with assms(1) have "same_outcome R (m s) (m' t)" by (rule simD)
  then show "same_outcome R (bnd m f s) (bnd m' f' t)"
    by (cases rule: same_outcome_cases) (auto intro: simD [OF assms(2)])
qed

lemma sim_wrapped: "sim R m m' \<Longrightarrow> sim R (wrapped msg args m) (wrapped msg' args' m')"
  by (rule simI) (auto elim!: same_outcome_cases dest!: simD)

lemma sim_ret: "sim R (ret x) (ret x)"
  by (rule simI) simp

lemma sim_fail: "is_panic e = is_panic e' \<Longrightarrow> sim R (fail e) (fail e')"
  by (rule simI) simp

lemma sim_if: "sim R m m' \<Longrightarrow> sim R k k' \<Longrightarrow> sim R (if b then m else k) (if b then m' else k')"
  by simp

lemma sim_for_range:
  assumes "\<And>j. sim R (body j) (body' j)"
  shows "sim R (for_range i n body) (for_range i n body')"
proof (induction n arbitrary: i)
  case 0
  show ?case by (rule simI) simp
next
  case (Suc n)
  have "for_range i (Suc n) b =
      bnd (b i) (\<lambda>x. bnd (for_range (Suc i) n b) (\<lambda>xs. ret (x # xs)))"
    for b :: "nat \<Rightarrow> ('s, 'a) gost"
    by (rule ext) simp
  moreover have "for_range i (Suc n) b =
      bnd (b i) (\<lambda>x. bnd (for_range (Suc i) n b) (\<lambda>xs. ret (x # xs)))"
    for b :: "nat \<Rightarrow> ('t, 'a) gost"
    by (rule ext) simp
  moreover have "sim R (bnd (body i) (\<lambda>x. bnd (for_range (Suc i) n body) (\<lambda>xs. ret (x # xs))))
      (bnd (body' i) (\<lambda>x. bnd (for_range (Suc i) n body') (\<lambda>xs. ret (x # xs))))"
    by (intro sim_bnd assms Suc.IH sim_ret)
  ultimately show ?case by simp
qed

section \<open>Fixed-width integers\<close>

definition s32 :: "int \<Rightarrow> int" where "s32 x = signed_take_bit 31 x"

definition s64 :: "int \<Rightarrow> int" where "s64 x = signed_take_bit 63 x"

definition u32 :: "int \<Rightarrow> int" where "u32 x = take_bit 32 x"

text \<open>Go's division and remainder by a positive number round towards zero.\<close>

definition go_div :: "int \<Rightarrow> int \<Rightarrow> int" where
  "go_div a b = (if a < 0 then - ((- a) div b) else a div b)"

definition go_mod :: "int \<Rightarrow> int \<Rightarrow> int" where
  "go_mod a b = a - b * go_div a b"

lemma go_div_nonneg [simp]: "0 \<le> a \<Longrightarrow> go_div a b = a div b"
  by (simp add: go_div_def)

lemma go_mod_nonneg [simp]: "0 \<le> a \<Longrightarrow> go_mod a b = a mod b"
  by (simp add: go_mod_def minus_mult_div_eq_mod)

lemma go_div_mono: "a \<le> a' \<Longrightarrow> 0 < b \<Longrightarrow> go_div a b \<le> go_div a' b"
proof -
  assume "a \<le> a'" "0 < b"
  moreover have "- (- a div b) \<le> 0" if "a < 0" using that \<open>0 < b\<close> by (simp add: pos_imp_zdiv_nonneg_iff)
  moreover have "0 \<le> a' div b" if "0 \<le> a'" using that \<open>0 < b\<close> by (simp add: pos_imp_zdiv_nonneg_iff)
  moreover have "- a' div b \<le> - a div b" using \<open>a \<le> a'\<close> \<open>0 < b\<close> by (intro zdiv_mono1) simp_all
  ultimately show ?thesis unfolding go_div_def
    by (cases "a < 0"; cases "a' < 0") (auto simp: zdiv_mono1)
qed

definition in_s32 :: "int \<Rightarrow> bool" where
  "in_s32 v \<longleftrightarrow> - (2 ^ 31) \<le> v \<and> v < 2 ^ 31"

lemma s32_id [simp]: "in_s32 v \<Longrightarrow> s32 v = v"
  by (simp add: s32_def in_s32_def signed_take_bit_int_eq_self)

lemma in_s32_s32 [simp]: "in_s32 (s32 v)"
  unfolding s32_def in_s32_def
  using signed_take_bit_int_greater_eq_minus_exp [of 31 v]
    signed_take_bit_int_less_exp [of 31 v] by simp

lemma s32_u32 [simp]: "s32 (u32 v) = s32 v"
  by (simp add: s32_def u32_def signed_take_bit_take_bit)

lemma u32_id: "0 \<le> v \<Longrightarrow> v < 2 ^ 32 \<Longrightarrow> u32 v = v"
  by (simp add: u32_def take_bit_int_eq_self)

lemma s32_cong: "a mod 2 ^ 32 = b mod 2 ^ 32 \<Longrightarrow> s32 a = s32 b"
  by (simp add: s32_def signed_take_bit_eq_iff_take_bit_eq take_bit_eq_mod)

lemma or_disjoint_add:
  fixes a b :: int
  assumes "0 \<le> a" and "a < 2 ^ n"
  shows "a OR push_bit n b = a + 2 ^ n * b"
proof -
  have "take_bit n a = a" using assms by (simp add: take_bit_int_eq_self)
  then have "\<not> bit a k \<or> \<not> bit (push_bit n b) k" for k
    by (metis bit_push_bit_iff bit_take_bit_iff not_le)
  then have "a OR push_bit n b = a + push_bit n b" by (rule disjunctive_add [symmetric])
  then show ?thesis by (simp add: push_bit_eq_mult mult.commute)
qed

text \<open>Go's conversion \<open>byte(x)\<close>.\<close>

definition byte_of :: "int \<Rightarrow> byte" where
  "byte_of x = word_of_int x"

lemma uint_byte_of [simp]: "uint (byte_of x) = x mod 256"
  by (simp add: byte_of_def uint_word_of_int)

lemma byte_of_uint [simp]: "byte_of (uint b) = b"
  by (simp add: byte_of_def)

lemma uint_byte_bounds [simp]: "0 \<le> uint (b :: byte)" "uint (b :: byte) < 256"
  using uint_bounded [of b] by simp_all

text \<open>Testing one bit of a byte.\<close>

lemma byte_flags:
  "b AND 0x80 = 0 \<longleftrightarrow> even (uint (b :: byte) div 128)"
  "b AND 0x40 = 0 \<longleftrightarrow> even (uint b div 64)"
  "b AND 0x20 = 0 \<longleftrightarrow> even (uint b div 32)"
proof -
  have "b AND 2 ^ n = 0 \<longleftrightarrow> even (uint b div 2 ^ n)" if "n < 8" for n
  proof -
    have "bit b n = bit (uint b) n" using that by (simp add: bit_uint_iff)
    then show ?thesis by (simp add: and_exp_eq_0_iff_not_bit bit_iff_odd [of "uint b"])
  qed
  from this [of 7] this [of 6] this [of 5] show
    "b AND 0x80 = 0 \<longleftrightarrow> even (uint (b :: byte) div 128)"
    "b AND 0x40 = 0 \<longleftrightarrow> even (uint b div 64)"
    "b AND 0x20 = 0 \<longleftrightarrow> even (uint b div 32)"
    by simp_all
qed

section \<open>Big-endian integers\<close>

text \<open>\<open>binary.BigEndian.AppendUint32\<close> / \<open>PutUint32\<close> and \<open>binary.BigEndian.Uint32\<close>.\<close>

definition put_be32 :: "int \<Rightarrow> byte list" where
  "put_be32 x = map byte_of [x div 2 ^ 24, x div 2 ^ 16, x div 2 ^ 8, x]"

definition get_be32 :: "byte list \<Rightarrow> int" where
  "get_be32 b = foldl (\<lambda>acc w. 256 * acc + uint w) 0 (take 4 b)"

lemma length_put_be32 [simp]: "length (put_be32 x) = 4"
  by (simp add: put_be32_def)

lemma get_put_be32 [simp]: "get_be32 (put_be32 x @ r) = u32 x"
proof -
  have *: "x mod 4294967296 = x mod 256 + 256 * (x div 256 mod 256)
      + 65536 * (x div 65536 mod 256) + 16777216 * (x div 16777216 mod 256)"
    using zmod_zmult2_eq [of 256 x 256] zmod_zmult2_eq [of 256 x 65536]
      zmod_zmult2_eq [of 256 x 16777216]
    by simp
  show ?thesis
    by (simp add: get_be32_def put_be32_def u32_def take_bit_eq_mod *
        algebra_simps)
qed

lemma get_put_be32_nil [simp]: "get_be32 (put_be32 x) = u32 x"
  using get_put_be32 [of x "[]"] by simp

section \<open>Lists\<close>

text \<open>\<open>bytes.Cut(b, []byte{0})\<close> and \<open>bytes.IndexByte(b, 0)\<close>: the bytes before the first NUL.\<close>

fun cut_nul :: "byte list \<Rightarrow> (byte list \<times> byte list) option" where
  "cut_nul [] = None"
| "cut_nul (b # bs) =
     (if b = 0 then Some ([], bs)
      else (case cut_nul bs of None \<Rightarrow> None | Some (x, y) \<Rightarrow> Some (b # x, y)))"

lemma cut_nul_append [simp]:
  "0 \<notin> set s \<Longrightarrow> cut_nul (s @ 0 # rest) = Some (s, rest)"
  by (induction s) auto

lemma cut_nul_SomeD: "cut_nul bs = Some (x, y) \<Longrightarrow> bs = x @ 0 # y \<and> 0 \<notin> set x"
proof (induction bs arbitrary: x)
  case Nil
  then show ?case by simp
next
  case (Cons b bs)
  show ?case
  proof (cases "b = 0")
    case True
    with Cons.prems show ?thesis by simp
  next
    case False
    then obtain x' where "cut_nul bs = Some (x', y)" "x = b # x'"
      using Cons.prems by (cases "cut_nul bs") auto
    with Cons.IH False show ?thesis by simp
  qed
qed

lemma cut_nul_None_iff: "cut_nul bs = None \<longleftrightarrow> 0 \<notin> set bs"
  by (induction bs) (auto split: option.splits)

text \<open>A fixed-size, zero-padded field: \<open>var f [n]byte; copy(f[:], s)\<close>.\<close>

definition pad_field :: "nat \<Rightarrow> byte list \<Rightarrow> byte list" where
  "pad_field n s = take n s @ replicate (n - length s) 0"

lemma length_pad_field [simp]: "length (pad_field n s) = n"
  by (simp add: pad_field_def)

lemma cut_nul_pad_field:
  assumes "length s < n" and "0 \<notin> set s"
  shows "cut_nul (pad_field n s) = Some (s, replicate (n - length s - 1) 0)"
proof -
  obtain k where k: "n - length s = Suc k" using assms(1) by (cases "n - length s") auto
  then have "pad_field n s = s @ 0 # replicate k 0"
    using assms(1) by (simp add: pad_field_def)
  with assms(2) k show ?thesis by simp
qed

text \<open>A Go string literal converted to \<open>[]byte\<close>.\<close>

definition bytes_of :: "string \<Rightarrow> byte list" where
  "bytes_of s = map of_char s"

section \<open>Results compared up to the error\<close>

text \<open>Both computations succeed with the same value, or both fail (both panic or neither).\<close>

fun same_result :: "goerr + 'a \<Rightarrow> goerr + 'a \<Rightarrow> bool" where
  "same_result (Inr x) (Inr y) = (x = y)"
| "same_result (Inl e) (Inl e') = (is_panic e = is_panic e')"
| "same_result _ _ = False"

end
