(* ===== verification/Varint.thy ===== *)
theory Varint
  imports Prelude
begin

text \<open>
  The variable-length integer codec. The codec used for in-memory buffers is the third-party
  package github.com/teeworlds-go/varint, which is not part of the repository: it is the
  parameter \<open>varint_lib\<close> of every definition that uses it, and the locale \<open>varint_contract\<close>
  states what the code relies on. The streaming reader \<open>readVarint\<close> of
  record/teehistorian/stream.go is the repository's own and is modelled here; its comment
  promises that it mirrors the wire format of that package exactly, which is the locale
  \<open>varint_mirror\<close>. Both locales are interpreted on a codec whose decoder is \<open>readVarint\<close>.
\<close>

section \<open>The third-party codec and its contract\<close>

record varint_lib =
  Varint :: "byte list \<Rightarrow> int \<times> int"
  AppendVarint :: "byte list \<Rightarrow> int \<Rightarrow> byte list"

abbreviation encv :: "varint_lib \<Rightarrow> int \<Rightarrow> byte list" where
  "encv L v \<equiv> AppendVarint L [] v"

locale varint_contract =
  fixes L :: varint_lib
  assumes append_varint: "AppendVarint L dst v = dst @ encv L v"
    and decode_encode: "in_s32 v \<Longrightarrow> Varint L (encv L v @ rest) = (v, int (length (encv L v)))"
    and encode_nonempty: "in_s32 v \<Longrightarrow> encv L v \<noteq> []"
    and decode_consumes: "Varint L bs = (v, n) \<Longrightarrow> 0 < n \<Longrightarrow> n \<le> int (length bs) \<and> in_s32 v"
begin

lemma encode_length: "in_s32 v \<Longrightarrow> 0 < length (encv L v)"
  using encode_nonempty by simp

lemma encode_injective:
  assumes "in_s32 v" and "in_s32 w" and "encv L v @ r = encv L w @ r'"
  shows "v = w"
  using assms decode_encode [of v r] decode_encode [of w r'] by simp

end

section \<open>readVarint: the streaming decoder\<close>

text \<open>\<open>io.ByteReader.ReadByte\<close> on a stream that ends: the state is the unread bytes.\<close>

definition read_byte :: "(byte list, byte) gost" where
  "read_byte bs = (case bs of [] \<Rightarrow> (Inl IoEOF, []) | b # bs' \<Rightarrow> (Inr b, bs'))"

text \<open>
  The continuation loop \<open>for i := range maxCont\<close>; \<open>k\<close> is \<open>maxCont - i\<close>. An end of stream
  inside the varint is reported as \<open>io.ErrUnexpectedEOF\<close>.
\<close>

fun read_cont :: "nat \<Rightarrow> int \<Rightarrow> int \<Rightarrow> (byte list, int) gost" where
  "read_cont 0 sgn_bit value bs = (Inr (value XOR (- sgn_bit)), bs)"
| "read_cont (Suc k) sgn_bit value bs =
     (let i = 3 - k in
      case bs of
        [] \<Rightarrow> (Inl IoUnexpectedEOF, [])
      | b # bs' \<Rightarrow>
          if i = 3 \<and> 15 < b then (Inl (Err ''teehistorian: varint overflows int32'' []), bs')
          else
            (let value' = value OR push_bit (6 + 7 * i) (uint (b AND 127)) in
             if b < 128 then (Inr (value' XOR (- sgn_bit)), bs')
             else read_cont k sgn_bit value' bs'))"

definition readVarint :: "(byte list, int) gost" where
  "readVarint = bnd read_byte (\<lambda>b.
     let sgn_bit = uint (drop_bit 6 b AND 1); value = uint (b AND 63) in
     if b < 128 then ret (value XOR (- sgn_bit)) else read_cont 4 sgn_bit value)"

lemma read_byte_keeps: "keeps (\<lambda>s t. length t \<le> length s) read_byte"
  by (rule keepsI) (auto simp: read_byte_def split: list.splits)

lemma read_cont_shrinks: "read_cont k sb v bs = (r, bs') \<Longrightarrow> length bs' \<le> length bs"
proof (induction k sb v bs rule: read_cont.induct)
  case (1 sb v bs)
  then show ?case by simp
next
  case (2 k sb v bs)
  show ?case
  proof (cases bs)
    case Nil
    with "2.prems" show ?thesis by simp
  next
    case (Cons b bs1)
    with "2.prems" "2.IH" [OF refl Cons] show ?thesis
      by (fastforce simp: Let_def split: if_splits)
  qed
qed

text \<open>A varint that is read consumes at least its first byte.\<close>

lemma readVarint_Inr_shrinks: "readVarint bs = (Inr v, bs') \<Longrightarrow> length bs' < length bs"
  by (cases bs)
    (auto simp: readVarint_def bnd_def read_byte_def Let_def split: if_splits
      dest!: read_cont_shrinks)

lemma readVarint_shrinks: "readVarint bs = (r, bs') \<Longrightarrow> length bs' \<le> length bs"
  by (cases bs)
    (auto simp: readVarint_def bnd_def read_byte_def Let_def split: if_splits
      dest!: read_cont_shrinks)

lemma readVarint_Nil [simp]: "readVarint [] = (Inl IoEOF, [])"
  by (simp add: readVarint_def bnd_def read_byte_def)

text \<open>A clean end of stream is reported only before the first byte.\<close>

lemma read_cont_not_eof: "read_cont k sb v bs = (Inl e, bs') \<Longrightarrow> \<not> is_eof e"
proof (induction k sb v bs rule: read_cont.induct)
  case (1 sb v bs)
  then show ?case by simp
next
  case (2 k sb v bs)
  show ?case
  proof (cases bs)
    case Nil
    with "2.prems" show ?thesis by auto
  next
    case (Cons b bs1)
    with "2.prems" "2.IH" [OF refl Cons] show ?thesis
      by (auto simp: Let_def split: if_splits)
  qed
qed

lemma readVarint_eof_iff:
  "(\<exists>e bs'. readVarint bs = (Inl e, bs') \<and> is_eof e) \<longleftrightarrow> bs = []"
  by (cases bs)
    (auto simp: readVarint_def bnd_def read_byte_def Let_def split: if_splits
      dest: read_cont_not_eof)

lemma read_cont_no_panic: "read_cont k sb v bs = (Inl e, bs') \<Longrightarrow> \<not> is_panic e"
proof (induction k sb v bs rule: read_cont.induct)
  case (1 sb v bs)
  then show ?case by simp
next
  case (2 k sb v bs)
  show ?case
  proof (cases bs)
    case Nil
    with "2.prems" show ?thesis by auto
  next
    case (Cons b bs1)
    with "2.prems" "2.IH" [OF refl Cons] show ?thesis
      by (auto simp: Let_def split: if_splits)
  qed
qed

lemma readVarint_no_panic: "readVarint bs = (Inl e, bs') \<Longrightarrow> \<not> is_panic e"
  by (cases bs)
    (auto simp: readVarint_def bnd_def read_byte_def Let_def split: if_splits
      dest: read_cont_no_panic)

lemma read_cont_suffix: "read_cont k sb v bs = (r, bs') \<Longrightarrow> \<exists>x. bs = x @ bs'"
proof (induction k sb v bs rule: read_cont.induct)
  case (1 sb v bs)
  then show ?case by simp
next
  case (2 k sb v bs)
  show ?case
  proof (cases bs)
    case Nil
    with "2.prems" show ?thesis by auto
  next
    case (Cons b bs1)
    with "2.prems" "2.IH" [OF refl Cons] show ?thesis
      by (fastforce simp: Let_def split: if_splits intro: exI [of _ "[b]"] exI [of _ "b # _"])
  qed
qed

lemma readVarint_suffix:
  assumes "readVarint bs = (r, bs')"
  shows "drop (length bs - length bs') bs = bs'"
proof -
  have "\<exists>x. bs = x @ bs'"
    using assms
    by (cases bs)
      (fastforce simp: readVarint_def bnd_def read_byte_def Let_def split: if_splits
        dest: read_cont_suffix intro: exI [of _ "[_]"] exI [of _ "_ # _"])+
  then show ?thesis by auto
qed

section \<open>The wire format, and the codec on which the contracts are interpreted\<close>

text \<open>
  The encoder of the wire format of SPEC.md (ESDDDDDD EDDDDDDD ...): six data bits, the sign
  bit and the continuation bit in the first byte, then seven data bits and a continuation bit.
\<close>

fun wire_tail :: "int \<Rightarrow> byte list" where
  "wire_tail v =
     (if v < 128 then [byte_of v]
      else byte_of (v mod 128 + 128) # wire_tail (v div 128))"

declare wire_tail.simps [simp del]

definition wire_encode :: "int \<Rightarrow> byte list" where
  "wire_encode num =
     (let sgn_bit = (if num < 0 then 1 else 0); v = num XOR (- sgn_bit) in
      if v < 64 then [byte_of (v + 64 * sgn_bit)]
      else byte_of (v mod 64 + 64 * sgn_bit + 128) # wire_tail (v div 64))"

definition wire_decode :: "byte list \<Rightarrow> int \<times> int" where
  "wire_decode bs =
     (case readVarint bs of
        (Inr v, bs') \<Rightarrow> (v, int (length bs) - int (length bs'))
      | (Inl e, bs') \<Rightarrow> (0, 0))"

definition wire_lib :: varint_lib where
  "wire_lib = \<lparr>Varint = wire_decode, AppendVarint = (\<lambda>dst v. dst @ wire_encode v)\<rparr>"

section \<open>The wire codec satisfies the contracts\<close>

lemma uint_and_mask_127: "uint (b AND 127 :: byte) = uint b mod 128"
  using take_bit_eq_mask [of 7 "uint b"]
  by (simp add: uint_and take_bit_eq_mod mask_eq_exp_minus_1)

lemma uint_and_mask_63: "uint (b AND 63 :: byte) = uint b mod 64"
  using take_bit_eq_mask [of 6 "uint b"]
  by (simp add: uint_and take_bit_eq_mod mask_eq_exp_minus_1)

lemma uint_sign_bit: "uint (drop_bit 6 b AND 1 :: byte) = uint b div 64 mod 2"
proof -
  have "uint (drop_bit 6 b AND 1) = uint (drop_bit 6 b) AND 1" by (simp only: uint_and uint_1)
  also have "uint (drop_bit 6 b) = uint b div 64"
    by (simp only: unsigned_drop_bit_eq) (simp add: drop_bit_eq_div take_bit_int_eq_self)
  finally show ?thesis by (simp add: and_one_eq)
qed

lemma read_cont_wire_tail:
  assumes "0 < k" "k \<le> 4" "0 \<le> v" "v < 2 ^ (7 * k - 3)"
    and "0 \<le> acc" "acc < 2 ^ (6 + 7 * (4 - k))"
  shows "read_cont k sb acc (wire_tail v @ rest) =
    (Inr ((acc + 2 ^ (6 + 7 * (4 - k)) * v) XOR (- sb)), rest)"
  using assms
proof (induction k arbitrary: acc v)
  case 0
  then show ?case by simp
next
  case (Suc k)
  let ?i = "3 - k"
  have i: "4 - Suc k = ?i" by simp
  have add: "acc OR push_bit (6 + 7 * ?i) x = acc + 2 ^ (6 + 7 * ?i) * x" for x
    using Suc.prems(5,6) by (intro or_disjoint_add) (simp_all add: i)
  show ?case
  proof (cases "v < 128")
    case True
    have small: "?i = 3 \<Longrightarrow> v < 16" using Suc.prems by (cases k) auto
    have u: "uint (byte_of v :: byte) = v" using True Suc.prems by simp
    show ?thesis
      using True small Suc.prems(3)
      by (subst wire_tail.simps)
        (auto simp: Let_def add i uint_and_mask_127 u word_less_def)
  next
    case False
    then have k: "0 < k" using Suc.prems by (cases k) auto
    define w where "w = v mod 128"
    have w: "0 \<le> w" "w < 128" by (simp_all add: w_def)
    have u: "uint (byte_of (w + 128) :: byte) = w + 128" using w by simp
    have e: "6 + 7 * (4 - k) = (6 + 7 * ?i) + 7" using k Suc.prems(2) by simp
    have bound: "v div 128 < 2 ^ (7 * k - 3)"
    proof -
      have "7 * Suc k - 3 = (7 * k - 3) + 7" using k by simp
      then have "(2 :: int) ^ (7 * Suc k - 3) = 2 ^ (7 * k - 3) * 128"
        by (simp only: power_add) simp
      then have "v < 2 ^ (7 * k - 3) * 128" using Suc.prems(4) by simp
      then show ?thesis by (simp add: div_less_iff_less_mult)
    qed
    let ?a = "acc + 2 ^ (6 + 7 * ?i) * w"
    have "?a < 2 ^ (6 + 7 * (4 - k))"
    proof -
      have "2 ^ (6 + 7 * ?i) * w \<le> 2 ^ (6 + 7 * ?i) * (127 :: int)"
        using w by (intro mult_left_mono) simp_all
      moreover have "acc < 2 ^ (6 + 7 * ?i)" using Suc.prems(6) by (simp add: i)
      ultimately have "acc + 2 ^ (6 + 7 * ?i) * w < 2 ^ (6 + 7 * ?i) * 128" by linarith
      then show ?thesis unfolding e by (simp only: power_add) simp
    qed
    moreover have "0 \<le> ?a" using Suc.prems(5) w by simp
    ultimately have IH: "read_cont k sb ?a (wire_tail (v div 128) @ rest) =
        (Inr ((?a + 2 ^ (6 + 7 * (4 - k)) * (v div 128)) XOR (- sb)), rest)"
      using k Suc.prems(2,3) bound by (intro Suc.IH) simp_all
    have sum: "?a + 2 ^ (6 + 7 * (4 - k)) * (v div 128) = acc + 2 ^ (6 + 7 * ?i) * v"
    proof -
      define q where "q = v div 128"
      have v: "v = w + 128 * q" by (simp add: w_def q_def)
      show ?thesis unfolding e power_add q_def [symmetric] by (simp add: v algebra_simps)
    qed
    have "?i \<noteq> 3" using k by simp
    moreover have "(w + 128) mod 128 = w" using w by simp
    ultimately show ?thesis
      using False w IH sum
      by (subst wire_tail.simps)
        (simp add: Let_def add i uint_and_mask_127 u word_less_def w_def [symmetric])
  qed
qed

lemma readVarint_wire_encode:
  assumes "in_s32 v"
  shows "readVarint (wire_encode v @ rest) = (Inr v, rest)"
proof -
  define sb where "sb = (if v < 0 then 1 else 0 :: int)"
  define w where "w = v XOR (- sb)"
  have w: "w = (if v < 0 then - v - 1 else v)"
    by (simp add: w_def sb_def not_int_def)
  have bound: "0 \<le> w" "w < 2 ^ 31" using assms by (auto simp: w in_s32_def)
  have undo: "w XOR (- sb) = v" by (simp add: w_def xor.assoc)
  have sb: "sb = 0 \<or> sb = 1" by (simp add: sb_def)
  have enc: "wire_encode v = (if w < 64 then [byte_of (w + 64 * sb)]
      else byte_of (w mod 64 + 64 * sb + 128) # wire_tail (w div 64))"
    by (simp add: wire_encode_def sb_def w_def Let_def)
  show ?thesis
  proof (cases "w < 64")
    case True
    then have u: "uint (byte_of (w + 64 * sb) :: byte) = w + 64 * sb"
      using sb bound by auto
    have "(w + 64 * sb) div 64 mod 2 = sb" "(w + 64 * sb) mod 64 = w"
      using True sb bound by auto
    with True sb bound undo show ?thesis
      by (auto simp: enc readVarint_def bnd_def read_byte_def Let_def uint_sign_bit
          uint_and_mask_63 u word_less_def)
  next
    case False
    let ?b = "w mod 64 + 64 * sb + 128"
    have u: "uint (byte_of ?b :: byte) = ?b"
      using sb by (auto intro!: mod_pos_pos_trivial order_less_le_trans [of "w mod 64" 64])
    have b: "?b = w mod 64 + 64 * (sb + 2)" by simp
    have "?b div 64 = sb + 2 + w mod 64 div 64" unfolding b by (rule div_mult_self2) simp
    then have m1: "?b div 64 mod 2 = sb" using sb by auto
    have m2: "?b mod 64 = w mod 64" unfolding b by (simp only: mod_mult_self2 mod_mod_trivial)
    note m = m1 m2
    have big: "\<not> (byte_of ?b :: byte) < 128" using sb by (auto simp add: word_less_def u simp del: uint_byte_of)
    have "w div 64 < 2 ^ 25" using bound by (simp add: div_less_iff_less_mult)
    then have "read_cont 4 sb (w mod 64) (wire_tail (w div 64) @ rest) =
        (Inr ((w mod 64 + 2 ^ (6 + 7 * (4 - 4)) * (w div 64)) XOR (- sb)), rest)"
      using bound by (intro read_cont_wire_tail) (simp_all add: pos_imp_zdiv_nonneg_iff)
    moreover have "w mod 64 + 2 ^ (6 + 7 * (4 - 4)) * (w div 64) = w" by simp
    ultimately have "read_cont 4 sb (w mod 64) (wire_tail (w div 64) @ rest) = (Inr v, rest)"
      using undo by simp
    with False big show ?thesis
      by (simp add: enc readVarint_def bnd_def read_byte_def Let_def uint_sign_bit
          uint_and_mask_63 u m del: uint_byte_of)
  qed
qed

lemma wire_encode_nonempty: "wire_encode v \<noteq> []"
  by (simp add: wire_encode_def Let_def)

text \<open>Whatever \<open>readVarint\<close> decodes is a 32-bit integer, also from non-canonical input.\<close>

lemma xor_sign_in_s32:
  "0 \<le> a \<Longrightarrow> a < 2 ^ 31 \<Longrightarrow> sb = 0 \<or> sb = 1 \<Longrightarrow> in_s32 (a XOR (- sb))"
  by (auto simp: in_s32_def not_int_def)

lemma read_cont_in_s32:
  assumes "k \<le> 4" "0 \<le> acc" "acc < 2 ^ (6 + 7 * (4 - k))" "acc < 2 ^ 31"
    and "sb = 0 \<or> sb = 1" and "read_cont k sb acc bs = (Inr v, bs')"
  shows "in_s32 v"
  using assms
proof (induction k sb acc bs rule: read_cont.induct)
  case (1 sb acc bs)
  then show ?case by (auto intro: xor_sign_in_s32)
next
  case (2 k sb acc bs)
  let ?i = "3 - k"
  obtain b bs1 where bs: "bs = b # bs1" using "2.prems"(6) by (cases bs) auto
  define g where "g = uint (b AND 127)"
  define acc' where "acc' = acc OR push_bit (6 + 7 * ?i) g"
  have i: "4 - Suc k = ?i" by simp
  have acc': "acc' = acc + 2 ^ (6 + 7 * ?i) * g"
    unfolding acc'_def using "2.prems"(2,3) by (intro or_disjoint_add) (simp_all add: i)
  have g: "0 \<le> g" "g < 128" by (simp_all add: g_def uint_and_mask_127)
  have ok: "\<not> (?i = 3 \<and> 15 < b)" using "2.prems"(6) by (auto simp: bs Let_def)
  have g15: "g \<le> 15" if "?i = 3"
  proof -
    have "uint b \<le> 15" using ok that by (simp add: word_less_def)
    then show ?thesis by (simp add: g_def uint_and_mask_127)
  qed
  have lt: "acc' < 2 ^ (6 + 7 * ?i) * (g + 1)"
    using "2.prems"(3) by (simp add: acc' i distrib_left)
  have i': "4 - k = ?i + 1" using "2.prems"(1) by simp
  have "2 ^ (6 + 7 * ?i) * (g + 1) \<le> 2 ^ (6 + 7 * ?i) * 128"
    using g by (intro mult_left_mono) simp_all
  with lt have "acc' < 2 ^ (6 + 7 * ?i) * 128" by (rule order_less_le_trans)
  then have lim1: "acc' < 2 ^ (6 + 7 * (4 - k))" by (simp add: i' power_add)
  have lim2: "acc' < 2 ^ 31"
  proof (cases "k = 0")
    case True
    with lt g15 show ?thesis by simp
  next
    case False
    then have "(2 :: int) ^ (6 + 7 * (4 - k)) \<le> 2 ^ 27"
      by (intro power_increasing) simp_all
    with lim1 show ?thesis by simp
  qed
  have lim3: "0 \<le> acc'" using "2.prems"(2) g by (simp add: acc')
  note lim = lim1 lim2 lim3
  show ?case
  proof (cases "b < 128")
    case True
    with "2.prems"(6) ok have "v = acc' XOR (- sb)"
      by (auto simp: bs Let_def acc'_def g_def)
    with lim "2.prems"(5) show ?thesis by (auto intro: xor_sign_in_s32)
  next
    case False
    with "2.prems"(6) ok have "read_cont k sb acc' bs1 = (Inr v, bs')"
      by (auto simp: bs Let_def acc'_def g_def)
    with "2.IH" [OF refl bs ok] lim "2.prems"(1,5) False show ?thesis
      by (simp add: acc'_def g_def)
  qed
qed

lemma readVarint_in_s32:
  assumes "readVarint bs = (Inr v, bs')"
  shows "in_s32 v"
proof (cases bs)
  case Nil
  with assms show ?thesis by simp
next
  case (Cons b bs1)
  define sb where "sb = uint (drop_bit 6 b AND 1 :: byte)"
  define a where "a = uint (b AND 63 :: byte)"
  have sb: "sb = 0 \<or> sb = 1" unfolding sb_def uint_sign_bit by linarith
  have a: "0 \<le> a" "a < 64" by (simp_all add: a_def uint_and_mask_63)
  have run: "readVarint bs =
      (if b < 128 then (Inr (a XOR (- sb)), bs1) else read_cont 4 sb a bs1)"
    by (simp add: readVarint_def bnd_def read_byte_def Let_def Cons a_def sb_def)
  show ?thesis
  proof (cases "b < 128")
    case True
    with run assms a sb show ?thesis by (auto intro: xor_sign_in_s32)
  next
    case False
    with run assms have "read_cont 4 sb a bs1 = (Inr v, bs')" by simp
    from read_cont_in_s32 [OF _ _ _ _ sb this] a show ?thesis by simp
  qed
qed

locale varint_mirror = varint_contract +
  assumes mirrors: "Varint L bs =
    (case readVarint bs of
       (Inr v, bs') \<Rightarrow> (v, int (length bs) - int (length bs'))
     | (Inl e, bs') \<Rightarrow> (fst (Varint L bs), snd (Varint L bs)))"
    and mirrors_error: "readVarint bs = (Inl e, bs') \<Longrightarrow> snd (Varint L bs) \<le> 0"
begin

lemma mirror_Inr:
  "readVarint bs = (Inr v, bs') \<Longrightarrow> Varint L bs = (v, int (length bs) - int (length bs'))"
  using mirrors [of bs] by simp

lemma mirror_iff: "0 < snd (Varint L bs) \<longleftrightarrow> (\<exists>v bs'. readVarint bs = (Inr v, bs'))"
proof
  assume pos: "0 < snd (Varint L bs)"
  obtain r bs' where run: "readVarint bs = (r, bs')" by fastforce
  with pos mirrors_error show "\<exists>v bs'. readVarint bs = (Inr v, bs')"
    by (cases r) fastforce+
next
  assume "\<exists>v bs'. readVarint bs = (Inr v, bs')"
  then obtain v bs' where run: "readVarint bs = (Inr v, bs')" by blast
  from mirror_Inr [OF run] readVarint_Inr_shrinks [OF run] show "0 < snd (Varint L bs)" by simp
qed

end

interpretation wire: varint_mirror wire_lib
proof
  fix dst v rest bs n e bs'
  show "AppendVarint wire_lib dst v = dst @ encv wire_lib v"
    by (simp add: wire_lib_def)
  show "in_s32 v \<Longrightarrow> Varint wire_lib (encv wire_lib v @ rest) =
      (v, int (length (encv wire_lib v)))"
    by (simp add: wire_lib_def wire_decode_def readVarint_wire_encode)
  show "in_s32 v \<Longrightarrow> encv wire_lib v \<noteq> []"
    by (simp add: wire_lib_def wire_encode_nonempty)
  show "Varint wire_lib bs = (v, n) \<Longrightarrow> 0 < n \<Longrightarrow> n \<le> int (length bs) \<and> in_s32 v"
    by (auto simp: wire_lib_def wire_decode_def readVarint_in_s32
        split: prod.splits sum.splits)
  show "Varint wire_lib bs =
    (case readVarint bs of
       (Inr v, bs') \<Rightarrow> (v, int (length bs) - int (length bs'))
     | (Inl e, bs') \<Rightarrow> (fst (Varint wire_lib bs), snd (Varint wire_lib bs)))"
    by (auto simp: wire_lib_def wire_decode_def split: prod.splits sum.splits)
  show "readVarint bs = (Inl e, bs') \<Longrightarrow> snd (Varint wire_lib bs) \<le> 0"
    by (simp add: wire_lib_def wire_decode_def)
qed

end
