(* ===== verification/Packer.thy ===== *)
theory Packer
  imports Varint
begin

text \<open>
  Package packer: the \<open>Unpacker\<close> cursor with its reads, string sanitization, and the
  \<open>Append\<close>/\<open>Pack\<close> functions. The varint codec is the parameter \<open>L\<close>.

  Slice bounds: the code slices \<open>u.data[u.idx:]\<close>, which panics when the cursor is past the
  end. \<open>uwf\<close> says it never is, and every operation keeps it.
\<close>

section \<open>The cursor\<close>

record unpacker =
  udata :: "byte list"
  uidx :: nat

definition uwf :: "unpacker \<Rightarrow> bool" where
  "uwf u \<longleftrightarrow> uidx u \<le> length (udata u)"

definition NewUnpacker :: "byte list \<Rightarrow> unpacker" where
  "NewUnpacker d = \<lparr>udata = d, uidx = 0\<rparr>"

definition Reset :: "byte list \<Rightarrow> unpacker \<Rightarrow> unpacker" where
  "Reset d u = u\<lparr>udata := d, uidx := 0\<rparr>"

definition ResetView :: "byte list \<Rightarrow> unpacker \<Rightarrow> unpacker" where
  "ResetView d u = u\<lparr>udata := d, uidx := 0\<rparr>"

definition USize :: "unpacker \<Rightarrow> int" where
  "USize u = int (length (udata u))"

definition RemainingSize :: "unpacker \<Rightarrow> int" where
  "RemainingSize u = int (length (udata u)) - int (uidx u)"

definition RemainingData :: "unpacker \<Rightarrow> byte list" where
  "RemainingData u = drop (uidx u) (udata u)"

definition Rest :: "unpacker \<Rightarrow> byte list \<times> unpacker" where
  "Rest u = (drop (uidx u) (udata u), u\<lparr>uidx := length (udata u)\<rparr>)"

section \<open>Reads\<close>

definition NextByte :: "(unpacker, byte) gost" where
  "NextByte u =
     (if RemainingSize u < 1 then (Inl (Err ''packer: not enough data for NextByte'' []), u)
      else (Inr (udata u ! uidx u), u\<lparr>uidx := uidx u + 1\<rparr>))"

definition NextRaw :: "int \<Rightarrow> (unpacker, byte list) gost" where
  "NextRaw sz u =
     (if sz < 0 then (Inl (Err ''packer: NextRaw negative size %d'' [sz]), u)
      else if int (uidx u) + sz > int (length (udata u)) then
        (Inl (Err ''packer: NextRaw needs %d bytes, only %d available''
                [sz, RemainingSize u]), u)
      else (Inr (take (nat sz) (drop (uidx u) (udata u))), u\<lparr>uidx := uidx u + nat sz\<rparr>))"

definition NextInt :: "varint_lib \<Rightarrow> (unpacker, int) gost" where
  "NextInt L u =
     (if RemainingSize u < 1 then (Inl (Err ''packer: not enough data for NextInt'' []), u)
      else
        (let (val, n) = Varint L (drop (uidx u) (udata u)) in
         if n \<le> 0 then (Inl (Err ''packer: failed to unpack int'' []), u)
         else (Inr val, u\<lparr>uidx := uidx u + nat n\<rparr>)))"

definition SanitizeDefault :: int where "SanitizeDefault = 1"
definition SanitizeCC :: int where "SanitizeCC = 2"
definition SanitizeSkipWhitespaces :: int where "SanitizeSkipWhitespaces = 4"

definition has_flag :: "int \<Rightarrow> int \<Rightarrow> bool" where
  "has_flag flags f \<longleftrightarrow> flags AND f \<noteq> 0"

text \<open>The scan that decides whether a string has to be rebuilt.\<close>

fun needs_work :: "int \<Rightarrow> byte list \<Rightarrow> bool" where
  "needs_work flags [] = False"
| "needs_work flags (b # bs) =
     (if b < 32 then
        (if has_flag flags SanitizeCC then True
         else if has_flag flags SanitizeDefault \<and> b \<noteq> 13 \<and> b \<noteq> 10 \<and> b \<noteq> 9 then True
         else needs_work flags bs)
      else needs_work flags bs)"

definition sanitize_byte :: "int \<Rightarrow> byte \<Rightarrow> byte" where
  "sanitize_byte flags b =
     (if has_flag flags SanitizeCC then (if b < 32 then 32 else b)
      else if has_flag flags SanitizeDefault then
        (if b < 32 \<and> b \<noteq> 13 \<and> b \<noteq> 10 \<and> b \<noteq> 9 then 32 else b)
      else b)"

text \<open>The rebuilding loop; \<open>skipping\<close> is true until the first non-whitespace byte.\<close>

fun sanitize_loop :: "int \<Rightarrow> bool \<Rightarrow> byte list \<Rightarrow> byte list" where
  "sanitize_loop flags skipping [] = []"
| "sanitize_loop flags skipping (b # bs) =
     (if skipping \<and> (b = 32 \<or> b = 9 \<or> b = 10) then sanitize_loop flags True bs
      else sanitize_byte flags b # sanitize_loop flags False bs)"

definition NextStringSanitized :: "int \<Rightarrow> (unpacker, byte list) gost" where
  "NextStringSanitized flags u =
     (if length (udata u) < uidx u then (Inl (Panic ''slice bounds out of range''), u)
      else case cut_nul (drop (uidx u) (udata u)) of
        None \<Rightarrow> (Inl (Err ''packer: unterminated string'' []), u)
      | Some (raw, _) \<Rightarrow>
          (let u' = u\<lparr>uidx := uidx u + length raw + 1\<rparr>;
               skipping = has_flag flags SanitizeSkipWhitespaces in
           if \<not> (skipping \<or> needs_work flags raw) then (Inr raw, u')
           else (Inr (sanitize_loop flags skipping raw), u')))"

definition NextString :: "(unpacker, byte list) gost" where
  "NextString = NextStringSanitized SanitizeDefault"

definition NextMsgAndSys :: "varint_lib \<Rightarrow> (unpacker, int \<times> bool) gost" where
  "NextMsgAndSys L = bnd (NextInt L) (\<lambda>raw. ret (drop_bit 1 raw, raw AND 1 \<noteq> 0))"

section \<open>Packing\<close>

definition clamp32 :: "int \<Rightarrow> int" where
  "clamp32 num =
     (if num > 0x7FFFFFFF then 0x7FFFFFFF else if num < - 0x80000000 then - 0x80000000 else num)"

definition AppendInt :: "varint_lib \<Rightarrow> byte list \<Rightarrow> int \<Rightarrow> byte list" where
  "AppendInt L dst num = AppendVarint L dst (clamp32 num)"

definition AppendStr :: "byte list \<Rightarrow> byte list \<Rightarrow> byte list" where
  "AppendStr dst s = (dst @ s) @ [0]"

definition AppendBool :: "varint_lib \<Rightarrow> byte list \<Rightarrow> bool \<Rightarrow> byte list" where
  "AppendBool L dst v = (if v then AppendInt L dst 1 else AppendInt L dst 0)"

definition AppendMsgID :: "varint_lib \<Rightarrow> byte list \<Rightarrow> int \<Rightarrow> bool \<Rightarrow> byte list" where
  "AppendMsgID L dst msgID system =
     (let i = s64 (push_bit 1 msgID) in AppendInt L dst (if system then i OR 1 else i))"

definition PackInt :: "varint_lib \<Rightarrow> int \<Rightarrow> byte list" where
  "PackInt L num = AppendInt L [] num"

definition PackString :: "byte list \<Rightarrow> byte list" where
  "PackString s = AppendStr [] s"

definition PackBool :: "varint_lib \<Rightarrow> bool \<Rightarrow> byte list" where
  "PackBool L v = AppendBool L [] v"

definition PackMsgID :: "varint_lib \<Rightarrow> int \<Rightarrow> bool \<Rightarrow> byte list" where
  "PackMsgID L msgID system = AppendMsgID L [] msgID system"

definition UnpackInt :: "varint_lib \<Rightarrow> byte list \<Rightarrow> goerr + int" where
  "UnpackInt L d =
     (let (val, n) = Varint L d in
      if n \<le> 0 then Inl (Err ''packer: failed to unpack int'' []) else Inr val)"

text \<open>
  \<open>CalculateUUID\<close>: a version 3 UUID over the Teeworlds namespace; \<open>md5\<close> is crypto/md5.
\<close>

definition TeeworldsNamespace :: "byte list" where
  "TeeworldsNamespace =
     [0xe0, 0x5d, 0xda, 0xaa, 0xc4, 0xe6, 0x4c, 0xfb, 0xb6, 0x42, 0x5d, 0x48, 0xe8, 0x0c, 0x00, 0x29]"

definition CalculateUUID :: "(byte list \<Rightarrow> byte list) \<Rightarrow> byte list \<Rightarrow> byte list" where
  "CalculateUUID md5 name =
     (let uuid = pad_field 16 (md5 (TeeworldsNamespace @ name));
          uuid6 = uuid[6 := ((uuid ! 6) AND 0x0f) OR 0x30] in
      uuid6[8 := ((uuid6 ! 8) AND 0x3f) OR 0x80])"

section \<open>Cursor positions\<close>

text \<open>\<open>at_pos pre post\<close>: \<open>pre\<close> has been read, \<open>post\<close> is still to come.\<close>

definition at_pos :: "byte list \<Rightarrow> byte list \<Rightarrow> unpacker" where
  "at_pos pre post = \<lparr>udata = pre @ post, uidx = length pre\<rparr>"

lemma NewUnpacker_at_pos: "NewUnpacker d = at_pos [] d"
  by (simp add: NewUnpacker_def at_pos_def)

lemma ResetView_at_pos: "ResetView d u = at_pos [] d"
  by (cases u) (simp add: ResetView_def at_pos_def)

lemma uwf_at_pos [simp]: "uwf (at_pos pre post)"
  by (simp add: uwf_def at_pos_def)

lemma uwf_obtain:
  assumes "uwf u"
  obtains pre where "u = at_pos pre (RemainingData u)"
proof
  show "u = at_pos (take (uidx u) (udata u)) (RemainingData u)"
    using assms by (cases u) (simp add: uwf_def at_pos_def RemainingData_def)
qed

lemma RemainingSize_at_pos [simp]: "RemainingSize (at_pos pre post) = int (length post)"
  by (simp add: RemainingSize_def at_pos_def)

lemma RemainingData_at_pos [simp]: "RemainingData (at_pos pre post) = post"
  by (simp add: RemainingData_def at_pos_def)

lemma NextByte_at_pos [simp]:
  "NextByte (at_pos pre (b # post)) = (Inr b, at_pos (pre @ [b]) post)"
  by (simp add: NextByte_def RemainingSize_def at_pos_def)

lemma NextRaw_at_pos [simp]:
  "n = int (length x) \<Longrightarrow> NextRaw n (at_pos pre (x @ post)) = (Inr x, at_pos (pre @ x) post)"
  by (simp add: NextRaw_def at_pos_def)

lemma NextRaw_at_pos_nil [simp]: "NextRaw 0 (at_pos pre post) = (Inr [], at_pos pre post)"
  by (simp add: NextRaw_def at_pos_def)

lemma needs_work_0 [simp]: "\<not> needs_work 0 bs"
  by (induction bs) (auto simp: has_flag_def)

lemma NextStringSanitized_0_at_pos [simp]:
  "0 \<notin> set s \<Longrightarrow> NextStringSanitized 0 (at_pos pre (s @ 0 # post)) =
     (Inr s, at_pos (pre @ s @ [0]) post)"
  by (simp add: NextStringSanitized_def at_pos_def has_flag_def Let_def)

lemma clamp32_id [simp]: "in_s32 v \<Longrightarrow> clamp32 v = v"
  by (simp add: clamp32_def in_s32_def)

lemma in_s32_clamp32 [simp]: "in_s32 (clamp32 v)"
  by (simp add: clamp32_def in_s32_def)

section \<open>Every read moves the cursor forwards only\<close>

definition ufwd :: "unpacker \<Rightarrow> unpacker \<Rightarrow> bool" where
  "ufwd u u' \<longleftrightarrow> udata u' = udata u \<and> uidx u \<le> uidx u'"

definition ukeep :: "unpacker \<Rightarrow> unpacker \<Rightarrow> bool" where
  "ukeep u u' \<longleftrightarrow> udata u' = udata u \<and> uidx u \<le> uidx u' \<and> (uwf u \<longrightarrow> uwf u')"

lemma ufwd_reflp [simp]: "reflp ufwd" and ufwd_transp [simp]: "transp ufwd"
  by (auto simp: ufwd_def intro!: reflpI transpI)

lemma ukeep_reflp [simp]: "reflp ukeep" and ukeep_transp [simp]: "transp ukeep"
  by (auto simp: ukeep_def uwf_def intro!: reflpI transpI)

lemma NextByte_fwd [mono_intros]: "keeps ufwd NextByte"
  by (rule keepsI) (auto simp: NextByte_def ufwd_def split: if_splits)

lemma NextRaw_fwd [mono_intros]: "keeps ufwd (NextRaw n)"
  by (rule keepsI) (auto simp: NextRaw_def ufwd_def split: if_splits)

lemma NextInt_fwd [mono_intros]: "keeps ufwd (NextInt L)"
  by (rule keepsI) (auto simp: NextInt_def ufwd_def split: if_splits prod.splits)

lemma NextStringSanitized_fwd [mono_intros]: "keeps ufwd (NextStringSanitized flags)"
  by (rule keepsI)
    (auto simp: NextStringSanitized_def ufwd_def Let_def split: if_splits option.splits)

lemma ufwd_bnd [mono_intros]:
  "keeps ufwd m \<Longrightarrow> (\<And>x. keeps ufwd (f x)) \<Longrightarrow> keeps ufwd (bnd m f)"
  by (rule keeps_bnd) simp_all

lemma ufwd_ret [mono_intros]: "keeps ufwd (ret x)"
  by (rule keeps_ret) simp

lemma ufwd_fail [mono_intros]: "keeps ufwd (fail e)"
  by (rule keeps_fail) simp

lemmas ufwd_wrapped [mono_intros] = keeps_wrapped [of ufwd]

text \<open>A successful varint read makes progress: the loops over a buffer terminate.\<close>

lemma NextInt_progress:
  "NextInt L u = (Inr v, u') \<Longrightarrow> udata u' = udata u \<and> uidx u < uidx u' \<and> uidx u < length (udata u)"
  by (auto simp: NextInt_def RemainingSize_def split: if_splits prod.splits)

lemma NextByte_keep: "keeps ukeep NextByte"
  by (rule keepsI) (auto simp: NextByte_def ukeep_def uwf_def RemainingSize_def split: if_splits)

lemma NextRaw_keep: "keeps ukeep (NextRaw n)"
  by (rule keepsI) (auto simp: NextRaw_def ukeep_def uwf_def split: if_splits)

lemma NextStringSanitized_keep: "keeps ukeep (NextStringSanitized flags)"
proof (rule keepsI)
  fix u r u'
  assume run: "NextStringSanitized flags u = (r, u')"
  show "ukeep u u'"
  proof (cases "cut_nul (drop (uidx u) (udata u))")
    case None
    with run show ?thesis
      by (auto simp: NextStringSanitized_def ukeep_def split: if_splits)
  next
    case (Some p)
    obtain x y where p: "p = (x, y)" by fastforce
    with Some have "drop (uidx u) (udata u) = x @ 0 # y" by (auto dest: cut_nul_SomeD)
    then have "length (drop (uidx u) (udata u)) = length (x @ 0 # y)" by (rule arg_cong)
    with Some p run show ?thesis
      by (auto simp: NextStringSanitized_def ukeep_def uwf_def Let_def split: if_splits)
  qed
qed

context varint_contract begin

lemma AppendInt_eq: "AppendInt L dst v = dst @ encv L (clamp32 v)"
  unfolding AppendInt_def by (rule append_varint)

lemma NextInt_at_pos [simp]:
  "in_s32 v \<Longrightarrow> NextInt L (at_pos pre (encv L v @ post)) = (Inr v, at_pos (pre @ encv L v) post)"
  using encode_nonempty [of v] decode_encode [of v post]
  by (cases "encv L v") (auto simp add: NextInt_def RemainingSize_def at_pos_def)

lemma NextInt_keep: "keeps ukeep (NextInt L)"
proof (rule keepsI)
  fix u r u'
  assume "NextInt L u = (r, u')"
  then show "ukeep u u'"
    using decode_consumes [of "drop (uidx u) (udata u)"]
    by (auto simp: NextInt_def ukeep_def uwf_def RemainingSize_def
        split: if_splits prod.splits)
qed

lemma NextInt_in_s32: "NextInt L u = (Inr v, u') \<Longrightarrow> in_s32 v"
  using decode_consumes [of "drop (uidx u) (udata u)"]
  by (auto simp: NextInt_def split: if_splits prod.splits)

end

section \<open>Steps of a cursor\<close>

text \<open>One rule per read of the package, whatever it returns.\<close>

inductive unpacker_step :: "varint_lib \<Rightarrow> unpacker \<Rightarrow> unpacker \<Rightarrow> bool" for L where
  next_byte: "unpacker_step L u (snd (NextByte u))"
| next_raw: "unpacker_step L u (snd (NextRaw n u))"
| next_int: "unpacker_step L u (snd (NextInt L u))"
| next_string: "unpacker_step L u (snd (NextStringSanitized flags u))"
| next_msg: "unpacker_step L u (snd (NextMsgAndSys L u))"
| rest: "unpacker_step L u (snd (Rest u))"

context varint_contract begin

lemma NextMsgAndSys_keep: "keeps ukeep (NextMsgAndSys L)"
  unfolding NextMsgAndSys_def
  by (intro keeps_bnd NextInt_keep keeps_ret) simp_all

lemma step_keep: "unpacker_step L u u' \<Longrightarrow> uwf u \<Longrightarrow> udata u' = udata u \<and> uwf u'"
proof (induction rule: unpacker_step.induct)
  case (rest u)
  then show ?case by (simp add: Rest_def uwf_def)
qed (use NextByte_keep NextRaw_keep NextInt_keep NextStringSanitized_keep NextMsgAndSys_keep
      in \<open>auto simp: keeps_def ukeep_def\<close>)

lemma steps_keep: "(unpacker_step L)\<^sup>*\<^sup>* u u' \<Longrightarrow> uwf u \<Longrightarrow> udata u' = udata u \<and> uwf u'"
  by (induction rule: rtranclp_induct) (auto dest: step_keep)

lemma NextMsgAndSys_at_pos:
  assumes "- (2 ^ 30) \<le> msgID" and "msgID < 2 ^ 30"
  shows "NextMsgAndSys L (at_pos pre (AppendMsgID L [] msgID system @ post)) =
    (Inr (msgID, system), at_pos (pre @ AppendMsgID L [] msgID system) post)"
proof -
  define i where "i = (if system then 2 * msgID + 1 else 2 * msgID)"
  have s: "s64 (msgID * 2) = 2 * msgID"
    using assms by (simp add: s64_def signed_take_bit_int_eq_self)
  have o: "2 * msgID OR 1 = 2 * msgID + 1"
    by (rule disjunctive_add [symmetric]) (auto simp: bit_double_iff bit_1_iff)
  have r: "in_s32 i" using assms by (simp add: i_def in_s32_def)
  have "AppendMsgID L [] msgID system = encv L i"
    using clamp32_id [OF r] by (auto simp add: AppendMsgID_def s o AppendInt_eq i_def)
  with r show ?thesis
    by (simp add: NextMsgAndSys_def i_def and_one_eq drop_bit_eq_div)
qed

end

interpretation wire_packer: varint_contract wire_lib
  by unfold_locales

section \<open>Sanitized strings\<close>

lemma sanitize_id: "\<not> needs_work flags raw \<Longrightarrow> sanitize_loop flags False raw = raw"
  by (induction raw) (auto simp: sanitize_byte_def split: if_splits)

lemma sanitize_loop_CC:
  "has_flag flags SanitizeCC \<Longrightarrow> b \<in> set (sanitize_loop flags k raw) \<Longrightarrow> 32 \<le> b"
  by (induction flags k raw rule: sanitize_loop.induct)
    (auto simp: sanitize_byte_def not_less split: if_splits)

lemma sanitize_loop_default:
  "has_flag flags SanitizeDefault \<Longrightarrow> b \<in> set (sanitize_loop flags k raw) \<Longrightarrow>
     32 \<le> b \<or> b = 13 \<or> b = 10 \<or> b = 9"
  by (induction flags k raw rule: sanitize_loop.induct)
    (auto simp: sanitize_byte_def not_less split: if_splits)

lemma sanitize_loop_nonzero: "0 \<notin> set raw \<Longrightarrow> 0 \<notin> set (sanitize_loop flags k raw)"
  by (induction flags k raw rule: sanitize_loop.induct) (auto simp: sanitize_byte_def)

lemma sanitize_byte_idem: "sanitize_byte flags (sanitize_byte flags b) = sanitize_byte flags b"
  by (auto simp: sanitize_byte_def)

lemma sanitize_loop_False: "sanitize_loop flags False raw = map (sanitize_byte flags) raw"
  by (induction raw) auto

lemma NextStringSanitized_eq:
  assumes "uwf u"
  shows "NextStringSanitized flags u =
    (case cut_nul (RemainingData u) of
       None \<Rightarrow> (Inl (Err ''packer: unterminated string'' []), u)
     | Some (raw, _) \<Rightarrow>
         (Inr (sanitize_loop flags (has_flag flags SanitizeSkipWhitespaces) raw),
          u\<lparr>uidx := uidx u + length raw + 1\<rparr>))"
  using assms
  by (auto simp: NextStringSanitized_def uwf_def RemainingData_def Let_def sanitize_id
      split: option.splits)

section \<open>Properties\<close>

text \<open>
  An integer packed with \<open>AppendInt\<close> at the end of any buffer, and followed by any
  bytes, is read back by \<open>NextInt\<close> clamped to the 32-bit range, and the cursor stops exactly
  after its encoding.
\<close>

theorem int_roundtrip:
  assumes "varint_contract L"
  shows "NextInt L \<lparr>udata = AppendInt L pre num @ post, uidx = length pre\<rparr> =
    (Inr (max (- (2 ^ 31)) (min (2 ^ 31 - 1) num)),
     \<lparr>udata = AppendInt L pre num @ post, uidx = length (AppendInt L pre num)\<rparr>)"
proof -
  have "clamp32 num = max (- (2 ^ 31)) (min (2 ^ 31 - 1) num)" by (simp add: clamp32_def)
  with varint_contract.NextInt_at_pos [OF assms in_s32_clamp32, of pre num post] show ?thesis
    by (simp add: varint_contract.AppendInt_eq [OF assms] at_pos_def)
qed

theorem int_roundtrip_witness:
  "NextInt wire_lib \<lparr>udata = AppendInt wire_lib [7] (- 70000) @ [1, 2], uidx = length [7 :: byte]\<rparr> =
    (Inr (max (- (2 ^ 31)) (min (2 ^ 31 - 1) (- 70000))),
     \<lparr>udata = AppendInt wire_lib [7] (- 70000) @ [1, 2],
      uidx = length (AppendInt wire_lib [7] (- 70000))\<rparr>)"
  by (rule int_roundtrip [OF wire.varint_contract_axioms])

text \<open>
  A message id of 31 bits packed with its system flag by \<open>AppendMsgID\<close> is read back by
  \<open>NextMsgAndSys\<close> with the same flag, whatever follows.
\<close>

theorem msg_id_roundtrip:
  assumes "varint_contract L" and "- (2 ^ 30) \<le> msgID" and "msgID < 2 ^ 30"
  shows "NextMsgAndSys L (NewUnpacker (PackMsgID L msgID system @ post)) =
    (Inr (msgID, system),
     \<lparr>udata = PackMsgID L msgID system @ post, uidx = length (PackMsgID L msgID system)\<rparr>)"
  using varint_contract.NextMsgAndSys_at_pos [OF assms, of "[]" system post]
  by (simp add: PackMsgID_def NewUnpacker_at_pos) (simp add: at_pos_def)

theorem msg_id_roundtrip_witness:
  "NextMsgAndSys wire_lib (NewUnpacker (PackMsgID wire_lib 27 True @ [9])) =
    (Inr (27, True),
     \<lparr>udata = PackMsgID wire_lib 27 True @ [9], uidx = length (PackMsgID wire_lib 27 True)\<rparr>)"
  by (rule msg_id_roundtrip [OF wire.varint_contract_axioms]) simp_all

text \<open>
  Every state an \<open>Unpacker\<close> reaches through any sequence of reads, failed ones included,
  still holds the same buffer and a cursor inside it: the slices of the reads never go out of
  bounds.
\<close>

theorem unpacker_reachable:
  assumes "varint_contract L" and "(unpacker_step L)\<^sup>*\<^sup>* (NewUnpacker d) u"
  shows "udata u = d \<and> uidx u \<le> length d"
  using varint_contract.steps_keep [OF assms]
  by (auto simp add: NewUnpacker_def uwf_def)

theorem unpacker_reachable_witness:
  "(unpacker_step wire_lib)\<^sup>*\<^sup>* (NewUnpacker [1, 2, 3]) (snd (NextRaw 2 (NewUnpacker [1, 2, 3])))
   \<and> udata (snd (NextRaw 2 (NewUnpacker [1, 2, 3]))) = [1, 2, 3]
   \<and> uidx (snd (NextRaw 2 (NewUnpacker [1, 2, 3]))) \<le> length [1 :: byte, 2, 3]"
proof -
  have run: "(unpacker_step wire_lib)\<^sup>*\<^sup>* (NewUnpacker [1, 2, 3])
      (snd (NextRaw 2 (NewUnpacker [1, 2, 3])))"
    by (intro r_into_rtranclp unpacker_step.next_raw)
  with unpacker_reachable [OF wire.varint_contract_axioms run] show ?thesis by simp
qed

text \<open>
  The fast path of \<open>NextStringSanitized\<close>, which returns the raw bytes when a scan finds
  nothing to change, agrees with the byte-by-byte rebuild in every case, and consumes the
  string with its terminator.
\<close>

theorem sanitize_fast_path:
  assumes "uwf u"
  shows "NextStringSanitized flags u =
    (case cut_nul (RemainingData u) of
       None \<Rightarrow> (Inl (Err ''packer: unterminated string'' []), u)
     | Some (raw, _) \<Rightarrow>
         (Inr (sanitize_loop flags (has_flag flags SanitizeSkipWhitespaces) raw),
          u\<lparr>uidx := uidx u + length raw + 1\<rparr>))"
  using assms by (rule NextStringSanitized_eq)

theorem sanitize_fast_path_witness:
  "NextStringSanitized SanitizeCC (NewUnpacker [65, 7, 0, 66]) =
     (Inr [65, 32], \<lparr>udata = [65, 7, 0, 66], uidx = 3\<rparr>)"
  using sanitize_fast_path [of "NewUnpacker [65, 7, 0, 66]" SanitizeCC]
  by (simp add: NewUnpacker_def uwf_def RemainingData_def has_flag_def sanitize_byte_def
      SanitizeCC_def SanitizeSkipWhitespaces_def)

text \<open>
  A string returned under \<open>SanitizeCC\<close> has no control byte, one returned under
  \<open>SanitizeDefault\<close> none but CR, LF and TAB; and without whitespace skipping a sanitized
  string is stable: packed again, it is read back unchanged.
\<close>

theorem sanitized_string:
  assumes "NextStringSanitized flags u = (Inr s, u')" and "uwf u"
  shows "(has_flag flags SanitizeCC \<longrightarrow> (\<forall>b \<in> set s. 32 \<le> b))
    \<and> (has_flag flags SanitizeDefault \<longrightarrow> (\<forall>b \<in> set s. 32 \<le> b \<or> b = 13 \<or> b = 10 \<or> b = 9))
    \<and> (\<not> has_flag flags SanitizeSkipWhitespaces \<longrightarrow>
        fst (NextStringSanitized flags (NewUnpacker (PackString s @ post))) = Inr s)"
proof -
  obtain raw y where cut: "cut_nul (RemainingData u) = Some (raw, y)"
    and s: "s = sanitize_loop flags (has_flag flags SanitizeSkipWhitespaces) raw"
    using assms by (auto simp: NextStringSanitized_eq split: option.splits)
  have "0 \<notin> set s" using cut_nul_SomeD [OF cut] by (simp add: s sanitize_loop_nonzero)
  then have "cut_nul (RemainingData (NewUnpacker (PackString s @ post))) = Some (s, post)"
    by (simp add: PackString_def AppendStr_def NewUnpacker_def RemainingData_def)
  moreover have "uwf (NewUnpacker (PackString s @ post))" by (simp add: NewUnpacker_def uwf_def)
  ultimately have "\<not> has_flag flags SanitizeSkipWhitespaces \<Longrightarrow>
      fst (NextStringSanitized flags (NewUnpacker (PackString s @ post))) = Inr s"
    by (simp add: NextStringSanitized_eq s sanitize_loop_False sanitize_byte_idem o_def)
  with s show ?thesis by (auto dest: sanitize_loop_CC sanitize_loop_default)
qed

theorem sanitized_string_witness:
  "fst (NextStringSanitized SanitizeCC (NewUnpacker (PackString [65, 32] @ [1]))) = Inr [65, 32]"
proof -
  have "NextStringSanitized SanitizeCC (NewUnpacker [65, 7, 0]) =
      (Inr [65, 32], \<lparr>udata = [65, 7, 0], uidx = 3\<rparr>)"
    by (simp add: NextStringSanitized_def NewUnpacker_def has_flag_def sanitize_byte_def
        SanitizeCC_def SanitizeSkipWhitespaces_def Let_def)
  from sanitized_string [OF this, of "[1]"] show ?thesis
    by (simp add: NewUnpacker_def uwf_def has_flag_def SanitizeCC_def SanitizeSkipWhitespaces_def)
qed

end
