(* ===== verification/Stream.thy ===== *)
theory Stream
  imports Packer
begin

text \<open>
  The parts of packages io and bufio that the streaming decoders use, over a stream given by
  its unread bytes, and their simulation by the reads of an \<open>Unpacker\<close> over a buffer that
  holds the same bytes.
\<close>

section \<open>Reads from a stream\<close>

text \<open>\<open>io.ReadFull\<close> into a buffer of \<open>n\<close> bytes.\<close>

definition ReadFull :: "nat \<Rightarrow> (byte list, byte list) gost" where
  "ReadFull n bs =
     (if n \<le> length bs then (Inr (take n bs), drop n bs)
      else (Inl (if bs = [] then IoEOF else IoUnexpectedEOF), []))"

text \<open>\<open>(*bufio.Reader).ReadBytes(0)\<close>: the bytes up to and including the first NUL.\<close>

definition ReadBytes0 :: "(byte list, byte list) gost" where
  "ReadBytes0 bs =
     (case cut_nul bs of None \<Rightarrow> (Inl IoEOF, []) | Some (x, y) \<Rightarrow> (Inr (x @ [0]), y))"

lemma ReadFull_append [simp]: "n = length x \<Longrightarrow> ReadFull n (x @ r) = (Inr x, r)"
  by (simp add: ReadFull_def)

lemma ReadFull_all [simp]: "n = length x \<Longrightarrow> ReadFull n x = (Inr x, [])"
  by (simp add: ReadFull_def)

lemma ReadBytes0_append [simp]: "0 \<notin> set s \<Longrightarrow> ReadBytes0 (s @ 0 # r) = (Inr (s @ [0]), r)"
  by (simp add: ReadBytes0_def)

lemma read_byte_Cons [simp]: "read_byte (b # bs) = (Inr b, bs)"
  by (simp add: read_byte_def)

section \<open>Streams never grow\<close>

definition sfwd :: "byte list \<Rightarrow> byte list \<Rightarrow> bool" where
  "sfwd s t \<longleftrightarrow> length t \<le> length s"

lemma sfwd_reflp [simp]: "reflp sfwd" and sfwd_transp [simp]: "transp sfwd"
  by (auto simp: sfwd_def intro!: reflpI transpI)

lemma ReadFull_sfwd [mono_intros]: "keeps sfwd (ReadFull n)"
  by (rule keepsI) (auto simp: ReadFull_def sfwd_def split: if_splits)

lemma ReadBytes0_sfwd [mono_intros]: "keeps sfwd ReadBytes0"
  by (rule keepsI) (auto simp: ReadBytes0_def sfwd_def split: option.splits dest!: cut_nul_SomeD)

lemma readVarint_sfwd [mono_intros]: "keeps sfwd readVarint"
  by (rule keepsI) (auto simp: sfwd_def dest: readVarint_shrinks)

lemma read_byte_sfwd [mono_intros]: "keeps sfwd read_byte"
  by (rule keepsI) (auto simp: read_byte_def sfwd_def split: list.splits)

lemma sfwd_bnd [mono_intros]:
  "keeps sfwd m \<Longrightarrow> (\<And>x. keeps sfwd (f x)) \<Longrightarrow> keeps sfwd (bnd m f)"
  by (rule keeps_bnd) simp_all

lemma sfwd_ret [mono_intros]: "keeps sfwd (ret x)"
  by (rule keeps_ret) simp

lemma sfwd_fail [mono_intros]: "keeps sfwd (fail e)"
  by (rule keeps_fail) simp

lemmas sfwd_wrapped [mono_intros] = keeps_wrapped [of sfwd]

section \<open>A buffer and a stream with the same unread bytes\<close>

definition same_rest :: "unpacker \<Rightarrow> byte list \<Rightarrow> bool" where
  "same_rest u bs \<longleftrightarrow> uwf u \<and> RemainingData u = bs"

lemma same_rest_obtain:
  assumes "same_rest u bs"
  obtains pre where "u = at_pos pre bs"
  using assms uwf_obtain unfolding same_rest_def by metis

lemma same_rest_at_pos [simp]: "same_rest (at_pos pre bs) bs' \<longleftrightarrow> bs' = bs"
  by (auto simp: same_rest_def)

lemma sim_NextByte: "sim same_rest NextByte read_byte"
proof (rule simI)
  fix u bs
  assume "same_rest u bs"
  then obtain pre where "u = at_pos pre bs" by (rule same_rest_obtain)
  then show "same_outcome same_rest (NextByte u) (read_byte bs)"
    by (cases bs) (simp_all add: read_byte_def, simp add: NextByte_def)
qed

lemma sim_NextRaw: "sim same_rest (NextRaw (int n)) (ReadFull n)"
proof (rule simI)
  fix u bs
  assume "same_rest u bs"
  then obtain pre where u: "u = at_pos pre bs" by (rule same_rest_obtain)
  show "same_outcome same_rest (NextRaw (int n) u) (ReadFull n bs)"
  proof (cases "n \<le> length bs")
    case True
    then have "NextRaw (int n) (at_pos pre (take n bs @ drop n bs)) =
        (Inr (take n bs), at_pos (pre @ take n bs) (drop n bs))"
      by (intro NextRaw_at_pos) simp
    with True u show ?thesis by (simp add: ReadFull_def)
  next
    case False
    with u show ?thesis by (auto simp: ReadFull_def NextRaw_def at_pos_def)
  qed
qed

lemma sim_NextString:
  "sim same_rest (NextStringSanitized 0) (bnd ReadBytes0 (\<lambda>raw. ret (take (length raw - 1) raw)))"
proof (rule simI)
  fix u bs
  assume "same_rest u bs"
  then obtain pre where u: "u = at_pos pre bs" by (rule same_rest_obtain)
  show "same_outcome same_rest (NextStringSanitized 0 u)
      (bnd ReadBytes0 (\<lambda>raw. ret (take (length raw - 1) raw)) bs)"
  proof (cases "cut_nul bs")
    case None
    with u show ?thesis
      by (simp add: NextStringSanitized_def ReadBytes0_def at_pos_def bnd_def)
  next
    case (Some p)
    obtain x y where p: "p = (x, y)" by fastforce
    with Some have "bs = x @ 0 # y" "0 \<notin> set x" by (auto dest: cut_nul_SomeD)
    with u show ?thesis by (simp add: bnd_def)
  qed
qed

context varint_mirror begin

lemma sim_NextInt: "sim same_rest (NextInt L) readVarint"
proof (rule simI)
  fix u bs
  assume "same_rest u bs"
  then obtain pre where u: "u = at_pos pre bs" by (rule same_rest_obtain)
  obtain r bs' where run: "readVarint bs = (r, bs')" by fastforce
  show "same_outcome same_rest (NextInt L u) (readVarint bs)"
  proof (cases r)
    case (Inl e)
    then have "snd (Varint L bs) \<le> 0" using run mirrors_error by simp
    moreover have "\<not> is_panic e" using run Inl readVarint_no_panic by simp
    ultimately show ?thesis
      using u run Inl by (auto simp: NextInt_def at_pos_def split: prod.splits)
  next
    case (Inr v)
    with run have run': "readVarint bs = (Inr v, bs')" by simp
    have n: "nat (int (length bs) - int (length bs')) = length bs - length bs'" by linarith
    from mirror_Inr [OF run'] readVarint_Inr_shrinks [OF run'] readVarint_suffix [OF run']
    show ?thesis
      using u run'
      by (auto simp: NextInt_def at_pos_def RemainingSize_def same_rest_def uwf_def
          RemainingData_def n)
  qed
qed

end

section \<open>Writers\<close>

text \<open>
  An \<open>io.Writer\<close> is a parameter \<open>W\<close>, the effect of its \<open>Write\<close>. The locale states what
  "the concatenation of the writes" means for a writer that does not fail; it is interpreted
  on \<open>bytes.Buffer\<close>, whose \<open>Write\<close> appends.
\<close>

type_synonym 'w writer = "byte list \<Rightarrow> ('w, int) gost"

definition buffer_write :: "byte list writer" where
  "buffer_write b w = (Inr (int (length b)), w @ b)"

locale sink =
  fixes W :: "'w writer" and content :: "'w \<Rightarrow> byte list"
  assumes write_ok: "\<exists>w'. W b w = (Inr (int (length b)), w') \<and> content w' = content w @ b"
begin

lemma writeE:
  obtains w' where "W b w = (Inr (int (length b)), w')" and "content w' = content w @ b"
  using write_ok by blast

lemma write_twice:
  "\<exists>w'. bnd (W a) (\<lambda>_. W b) w = (Inr (int (length b)), w') \<and> content w' = content w @ a @ b"
proof -
  obtain w1 where 1: "W a w = (Inr (int (length a)), w1)" "content w1 = content w @ a"
    by (rule writeE)
  obtain w2 where 2: "W b w1 = (Inr (int (length b)), w2)" "content w2 = content w1 @ b"
    by (rule writeE)
  from 1 2 show ?thesis by simp
qed

end

interpretation buffer: sink buffer_write "\<lambda>w. w"
  by unfold_locales (simp add: buffer_write_def)

end
