(* ===== verification/Chunk.thy ===== *)
theory Chunk
  imports Stream
begin

text \<open>
  packet/chunk.go: the chunk header, its two unpackers and the splitting of a packet payload
  into chunks. \<open>split\<close> is 4 for protocol 0.6 and 6 for 0.7.
\<close>

section \<open>Headers\<close>

definition chunkFlagVital :: int where "chunkFlagVital = 1"
definition chunkFlagResend :: int where "chunkFlagResend = 2"

record chunk_flags =
  Vital :: bool
  Resend :: bool

record chunk_header =
  Flags :: chunk_flags
  Size :: int
  Seq :: int

record chunk =
  Header :: chunk_header
  Data :: "byte list"

definition zero_header :: chunk_header where
  "zero_header = \<lparr>Flags = \<lparr>Vital = False, Resend = False\<rparr>, Size = 0, Seq = 0\<rparr>"

definition flag_bits :: "chunk_flags \<Rightarrow> int" where
  "flag_bits f =
     (let v = (if Resend f then 0 OR chunkFlagResend else 0) in
      if Vital f then v OR chunkFlagVital else v)"

definition HeaderSize :: "chunk_header \<Rightarrow> nat" where
  "HeaderSize h = (if Vital (Flags h) then 3 else 2)"

definition sizeLowMask :: "nat \<Rightarrow> int" where
  "sizeLowMask split = push_bit split 1 - 1"

definition chunk_pack :: "chunk_header \<Rightarrow> nat \<Rightarrow> byte list" where
  "chunk_pack h split =
     (let data0 = push_bit 6 (byte_of (flag_bits (Flags h) AND 3))
                  OR byte_of (drop_bit split (Size h) AND 0x3F);
          data1 = byte_of (Size h AND sizeLowMask split) in
      if Vital (Flags h) then
        [data0,
         data1 OR byte_of (drop_bit 2 (Seq h) AND NOT (sizeLowMask split) AND 0xFF),
         byte_of (Seq h AND 0xFF)]
      else [data0, data1])"

text \<open>\<open>Unpack\<close> writes the flags and the size before the third byte is read.\<close>

definition set_flags_size :: "byte \<Rightarrow> byte \<Rightarrow> nat \<Rightarrow> chunk_header \<Rightarrow> chunk_header" where
  "set_flags_size raw0 raw1 split h =
     (let flagBits = drop_bit 6 raw0 AND 3 in
      h\<lparr>Flags := \<lparr>Vital = (flagBits AND 1 \<noteq> 0), Resend = (flagBits AND 2 \<noteq> 0)\<rparr>,
        Size := push_bit split (uint (raw0 AND 0x3F)) OR (uint raw1 AND sizeLowMask split)\<rparr>)"

definition unpacked_seq :: "byte \<Rightarrow> byte \<Rightarrow> nat \<Rightarrow> int" where
  "unpacked_seq raw1 b split =
     push_bit 2 (uint raw1 AND NOT (sizeLowMask split) AND 0xFF) OR uint b"

definition chunk_unpack :: "nat \<Rightarrow> chunk_header \<Rightarrow> (unpacker, chunk_header) gost" where
  "chunk_unpack split h =
     bnd (wrapped ''chunk header: %w'' [] (NextRaw 2)) (\<lambda>raw.
       let h' = set_flags_size (raw ! 0) (raw ! 1) split h in
       if Vital (Flags h') then
         bnd (wrapped ''chunk header vital seq: %w'' [] NextByte) (\<lambda>b.
           ret (h'\<lparr>Seq := unpacked_seq (raw ! 1) b split\<rparr>))
       else ret h')"

definition chunk_unpack_raw :: "nat \<Rightarrow> chunk_header \<Rightarrow> byte list \<Rightarrow> goerr + chunk_header" where
  "chunk_unpack_raw split h d =
     (if length d < 2 then
        Inl (Err ''chunk header: need at least 2 bytes, got %d'' [int (length d)])
      else
        (let h' = set_flags_size (d ! 0) (d ! 1) split h in
         if Vital (Flags h') then
           (if length d < 3 then
              Inl (Err ''chunk header: need 3 bytes for vital, got %d'' [int (length d)])
            else Inr (h'\<lparr>Seq := unpacked_seq (d ! 1) (d ! 2) split\<rparr>))
         else Inr h'))"

section \<open>Splitting a payload\<close>

lemma chunk_unpack_fwd [mono_intros]: "keeps ufwd (chunk_unpack split h)"
  unfolding chunk_unpack_def Let_def
  by (intro mono_intros)

lemma NextRaw_2_progress: "NextRaw 2 u = (Inr raw, u') \<Longrightarrow> ufwd u u' \<and> uidx u < uidx u'
    \<and> uidx u' \<le> length (udata u)"
  by (auto simp: NextRaw_def ufwd_def split: if_splits)

lemma chunk_unpack_progress:
  assumes "chunk_unpack split h u = (Inr h', u')"
  shows "udata u' = udata u \<and> uidx u < uidx u'"
proof -
  obtain raw v where raw: "NextRaw 2 u = (Inr raw, v)"
    and rest: "(let h' = set_flags_size (raw ! 0) (raw ! 1) split h in
       if Vital (Flags h') then
         bnd (wrapped ''chunk header vital seq: %w'' [] NextByte) (\<lambda>b.
           ret (h'\<lparr>Seq := unpacked_seq (raw ! 1) b split\<rparr>))
       else ret h') v = (Inr h', u')"
    using assms by (auto simp: chunk_unpack_def bnd_eq_Inr wrapped_Inr_iff)
  from rest have "ufwd v u'"
    using keepsD [OF NextByte_fwd]
    by (auto simp: Let_def bnd_eq_Inr wrapped_Inr_iff ufwd_def split: if_splits)
  with NextRaw_2_progress [OF raw] show ?thesis by (auto simp: ufwd_def)
qed

function unpack_loop :: "nat \<Rightarrow> unpacker \<Rightarrow> chunk list" where
  "unpack_loop split u =
     (if RemainingSize u > 0 then
        (case chunk_unpack split zero_header u of
           (Inl e, u1) \<Rightarrow> []
         | (Inr hdr, u1) \<Rightarrow>
             if Size hdr \<le> 0 \<or> Size hdr > RemainingSize u1 then
               (let (d, u2) = Rest u1 in
                if length d > 0 then [\<lparr>Header = hdr, Data = d\<rparr>] else [])
             else
               (case NextRaw (Size hdr) u1 of
                  (Inl e, u2) \<Rightarrow> []
                | (Inr d, u2) \<Rightarrow> \<lparr>Header = hdr, Data = d\<rparr> # unpack_loop split u2))
      else [])"
  by pat_completeness auto
termination
proof (relation "measure (\<lambda>(split, u). length (udata u) - uidx u)", goal_cases)
  case 1
  show ?case by simp
next
  case (2 split u r u1 hdr r2 u2 d)
  then have "chunk_unpack split zero_header u = (Inr hdr, u1)" by simp
  from chunk_unpack_progress [OF this] 2 keepsD [OF NextRaw_fwd, of "Size hdr" u1 "Inr d" u2]
  show ?case by (auto simp: RemainingSize_def ufwd_def)
qed

declare unpack_loop.simps [simp del]

definition UnpackChunks :: "byte list \<Rightarrow> nat \<Rightarrow> chunk list" where
  "UnpackChunks payload split = unpack_loop split (NewUnpacker payload)"

section \<open>The header round trip, bit by bit\<close>

lemma bit_byte_of [simp]: "bit (byte_of x) n \<longleftrightarrow> n < 8 \<and> bit x n"
  by (simp add: byte_of_def bit_word_of_int_iff)

lemma bit_uint_byte [simp]: "bit (uint (b :: byte)) n \<longleftrightarrow> bit b n"
  by (auto simp: bit_uint_iff dest: bit_imp_le_length)

lemma mask_int:
  "(0xFF :: int) = mask 8" "(0x3F :: int) = mask 6" "(3 :: int) = mask 2"
  "sizeLowMask split = mask split"
  by (simp_all add: mask_eq_exp_minus_1 sizeLowMask_def)

lemma mask_byte: "(0x3F :: byte) = mask 6"
  by (simp add: mask_eq_exp_minus_1)

lemma byte_bit_lt8: "bit (b :: byte) n \<Longrightarrow> n < 8"
  using bit_imp_le_length [of b n] by simp

lemma flag_test_1: "(drop_bit 6 (w :: byte) AND 3) AND 1 \<noteq> 0 \<longleftrightarrow> bit w 6"
proof -
  have "(drop_bit 6 w AND 3) AND 1 = drop_bit 6 w AND 2 ^ 0" by (simp only: and.assoc) simp
  then show ?thesis by (simp only: and_exp_eq_0_iff_not_bit bit_drop_bit_eq o_def) simp
qed

lemma flag_test_2: "(drop_bit 6 (w :: byte) AND 3) AND 2 \<noteq> 0 \<longleftrightarrow> bit w 7"
proof -
  have "(drop_bit 6 w AND 3) AND 2 = drop_bit 6 w AND 2 ^ 1" by (simp only: and.assoc) simp
  then show ?thesis by (simp only: and_exp_eq_0_iff_not_bit bit_drop_bit_eq o_def) simp
qed

lemma bit_flag_bits:
  "bit (flag_bits f) 0 \<longleftrightarrow> Vital f" "bit (flag_bits f) (Suc 0) \<longleftrightarrow> Resend f"
  by (auto simp: flag_bits_def chunkFlagVital_def chunkFlagResend_def Let_def bit_simps)

definition pack0 :: "chunk_header \<Rightarrow> nat \<Rightarrow> byte" where
  "pack0 h split = push_bit 6 (byte_of (flag_bits (Flags h) AND 3))
     OR byte_of (drop_bit split (Size h) AND 0x3F)"

definition pack1 :: "chunk_header \<Rightarrow> nat \<Rightarrow> byte" where
  "pack1 h split =
     (if Vital (Flags h) then
        byte_of (Size h AND sizeLowMask split)
        OR byte_of (drop_bit 2 (Seq h) AND NOT (sizeLowMask split) AND 0xFF)
      else byte_of (Size h AND sizeLowMask split))"

lemma chunk_pack_eq:
  "chunk_pack h split = pack0 h split # pack1 h split #
     (if Vital (Flags h) then [byte_of (Seq h AND 0xFF)] else [])"
  by (simp add: chunk_pack_def pack0_def pack1_def Let_def)

lemma bit_pack0: "bit (pack0 h split) n \<longleftrightarrow> n < 8 \<and>
    (if n < 6 then bit (Size h) (split + n) else bit (flag_bits (Flags h)) (n - 6))"
  unfolding pack0_def mask_int
  by (auto simp: bit_simps)

lemma bit_pack1: "split \<le> 8 \<Longrightarrow> bit (pack1 h split) n \<longleftrightarrow> n < 8 \<and>
    (if n < split then bit (Size h) n else Vital (Flags h) \<and> bit (Seq h) (n + 2))"
  unfolding pack1_def mask_int
  by (auto simp: bit_simps add.commute)

lemma int_bit_bound: "0 \<le> (x :: int) \<Longrightarrow> x < 2 ^ k \<Longrightarrow> bit x n \<Longrightarrow> n < k"
  by (metis bit_take_bit_iff take_bit_int_eq_self)

lemma unpacked_size:
  assumes "split \<le> 8" "0 \<le> Size h" "Size h < 2 ^ (split + 6)"
  shows "push_bit split (uint (pack0 h split AND 0x3F)) OR
    (uint (pack1 h split) AND sizeLowMask split) = Size h"
  unfolding mask_int mask_byte
proof (rule bit_eqI)
  fix n
  show "bit (push_bit split (uint (pack0 h split AND mask 6)) OR
      (uint (pack1 h split) AND mask split)) n \<longleftrightarrow> bit (Size h) n"
    using assms int_bit_bound [OF assms(2,3), of n]
    by (auto simp: bit_simps bit_pack0 bit_pack1)
qed

text \<open>
  The sequence number is recovered when its bits from \<open>split + 2\<close> on do not reach bit 10:
  for \<open>split = 4\<close> bits 6 and 7 are carried twice, once in each byte.
\<close>

lemma unpacked_seq_eq:
  assumes "split \<le> 6" "0 \<le> Seq h" "Seq h < 2 ^ 10" "Vital (Flags h)"
  shows "unpacked_seq (pack1 h split) (byte_of (Seq h AND 0xFF)) split = Seq h"
  unfolding unpacked_seq_def mask_int
proof (rule bit_eqI)
  fix n
  show "bit (push_bit 2 (uint (pack1 h split) AND NOT (mask split) AND mask 8) OR
      uint (byte_of (Seq h AND mask 8))) n \<longleftrightarrow> bit (Seq h) n"
    using assms int_bit_bound [OF assms(2,3), of n]
    by (cases n; cases "n - 1")
      (auto simp: bit_simps bit_pack1 simp del: uint_byte_of)
qed

definition wf_header :: "nat \<Rightarrow> chunk_header \<Rightarrow> bool" where
  "wf_header split h \<longleftrightarrow> 0 \<le> Size h \<and> Size h < 2 ^ (split + 6) \<and>
     (if Vital (Flags h) then 0 \<le> Seq h \<and> Seq h < 2 ^ 10 else Seq h = 0)"

lemma set_flags_size_pack:
  assumes "split \<le> 6" "wf_header split h"
  shows "set_flags_size (pack0 h split) (pack1 h split) split g =
    g\<lparr>Flags := Flags h, Size := Size h\<rparr>"
proof -
  have "\<lparr>Vital = bit (pack0 h split) 6, Resend = bit (pack0 h split) 7\<rparr> = Flags h"
    by (simp add: bit_pack0 bit_flag_bits)
  moreover have "push_bit split (uint (pack0 h split AND 0x3F)) OR
      (uint (pack1 h split) AND sizeLowMask split) = Size h"
    using assms by (intro unpacked_size) (simp_all add: wf_header_def)
  ultimately show ?thesis
    unfolding set_flags_size_def Let_def by (simp only: flag_test_1 flag_test_2)
qed

lemma chunk_unpack_pack:
  assumes "split \<le> 6" "wf_header split h"
  shows "chunk_unpack split zero_header (at_pos pre (chunk_pack h split @ post)) =
    (Inr h, at_pos (pre @ chunk_pack h split) post)"
proof -
  let ?raw = "[pack0 h split, pack1 h split]"
  have raw: "NextRaw 2 (at_pos pre (?raw @ rest)) = (Inr ?raw, at_pos (pre @ ?raw) rest)" for rest
    by (rule NextRaw_at_pos) simp
  have flags: "set_flags_size (pack0 h split) (pack1 h split) split zero_header =
      zero_header\<lparr>Flags := Flags h, Size := Size h\<rparr>"
    using assms by (rule set_flags_size_pack)
  show ?thesis
  proof (cases "Vital (Flags h)")
    case True
    have "unpacked_seq (pack1 h split) (byte_of (Seq h AND 0xFF)) split = Seq h"
      using assms True by (intro unpacked_seq_eq) (simp_all add: wf_header_def)
    with True raw [of "byte_of (Seq h AND 0xFF) # post"] flags show ?thesis
      by (simp add: chunk_pack_eq chunk_unpack_def Let_def zero_header_def)
  next
    case False
    with assms raw [of post] flags show ?thesis
      by (cases h) (simp add: chunk_pack_eq chunk_unpack_def Let_def zero_header_def wf_header_def)
  qed
qed

text \<open>Both unpackers read the same header from the same bytes.\<close>

lemma chunk_unpack_raw_agrees:
  assumes "chunk_unpack_raw split h d = Inr h'"
  shows "fst (chunk_unpack split h (NewUnpacker d)) = Inr h'"
proof -
  obtain a b r where d: "d = a # b # r"
    using assms by (cases d; cases "tl d") (auto simp: chunk_unpack_raw_def)
  have raw: "NextRaw 2 (NewUnpacker d) = (Inr [a, b], at_pos [a, b] r)"
    using NextRaw_at_pos [of 2 "[a, b]" "[]" r] by (simp add: d NewUnpacker_at_pos)
  show ?thesis
    using assms raw
    by (cases r) (auto simp: chunk_unpack_raw_def chunk_unpack_def d Let_def split: if_splits)
qed

section \<open>Splitting a payload\<close>

definition chunk_bytes :: "nat \<Rightarrow> chunk \<Rightarrow> byte list" where
  "chunk_bytes split c = chunk_pack (Header c) split @ Data c"

definition wf_chunk :: "nat \<Rightarrow> chunk \<Rightarrow> bool" where
  "wf_chunk split c \<longleftrightarrow> wf_header split (Header c) \<and> Data c \<noteq> []
     \<and> Size (Header c) = int (length (Data c))"

lemma unpack_loop_chunks:
  assumes "split \<le> 6" and "\<forall>c \<in> set cs. wf_chunk split c"
  shows "unpack_loop split (at_pos pre (concat (map (chunk_bytes split) cs))) = cs"
  using assms(2)
proof (induction cs arbitrary: pre)
  case Nil
  show ?case by (simp add: unpack_loop.simps)
next
  case (Cons c cs)
  let ?h = "chunk_pack (Header c) split" and ?rest = "concat (map (chunk_bytes split) cs)"
  have wf: "wf_chunk split c" using Cons.prems by simp
  have hdr: "chunk_unpack split zero_header (at_pos pre (?h @ Data c @ ?rest)) =
      (Inr (Header c), at_pos (pre @ ?h) (Data c @ ?rest))"
    using assms(1) wf by (intro chunk_unpack_pack) (simp_all add: wf_chunk_def)
  have body: "NextRaw (Size (Header c)) (at_pos (pre @ ?h) (Data c @ ?rest)) =
      (Inr (Data c), at_pos ((pre @ ?h) @ Data c) ?rest)"
    using wf by (intro NextRaw_at_pos) (simp add: wf_chunk_def)
  have IH: "unpack_loop split (at_pos ((pre @ ?h) @ Data c) ?rest) = cs"
    using Cons by simp
  have pos: "0 < int (length ?h) + (int (length (Data c)) + int (length ?rest))"
    using wf by (cases "Data c") (auto simp: wf_chunk_def)
  show ?case
    using hdr body IH wf
    by (subst unpack_loop.simps) (simp add: chunk_bytes_def wf_chunk_def pos)
qed

lemma chunk_unpack_advance:
  assumes "chunk_unpack split h u = (Inr h', u')" and "uwf u"
  shows "uidx u' = uidx u + HeaderSize h' \<and> udata u' = udata u \<and> uwf u'"
proof -
  obtain raw v where raw: "NextRaw 2 u = (Inr raw, v)"
    and rest: "(let h' = set_flags_size (raw ! 0) (raw ! 1) split h in
       if Vital (Flags h') then
         bnd (wrapped ''chunk header vital seq: %w'' [] NextByte) (\<lambda>b.
           ret (h'\<lparr>Seq := unpacked_seq (raw ! 1) b split\<rparr>))
       else ret h') v = (Inr h', u')"
    using assms(1) by (auto simp: chunk_unpack_def bnd_eq_Inr wrapped_Inr_iff)
  from raw have v: "uidx v = uidx u + 2" "udata v = udata u" "uwf v"
    using assms(2) by (auto simp: NextRaw_def uwf_def split: if_splits)
  with rest show ?thesis
    by (auto simp: Let_def bnd_eq_Inr wrapped_Inr_iff HeaderSize_def NextByte_def
        RemainingSize_def uwf_def split: if_splits)
qed

definition chunk_cost :: "chunk \<Rightarrow> nat" where
  "chunk_cost c = HeaderSize (Header c) + length (Data c)"

definition exact_size :: "chunk \<Rightarrow> bool" where
  "exact_size c \<longleftrightarrow> int (length (Data c)) = Size (Header c)"

lemma unpack_loop_bounds:
  "uwf u \<Longrightarrow> sum_list (map chunk_cost (unpack_loop split u)) \<le> length (udata u) - uidx u
    \<and> (\<forall>c \<in> set (unpack_loop split u). Data c \<noteq> [])
    \<and> (\<forall>c \<in> set (butlast (unpack_loop split u)). exact_size c)"
proof (induction split u rule: unpack_loop.induct)
  case (1 split u)
  show ?case
  proof (cases "RemainingSize u > 0 \<and> (\<exists>hdr u1. chunk_unpack split zero_header u = (Inr hdr, u1))")
    case False
    then have "unpack_loop split u = []"
      by (subst unpack_loop.simps) (auto split: prod.splits sum.splits)
    then show ?thesis by simp
  next
    case True
    then obtain hdr u1 where pos: "RemainingSize u > 0"
      and hdr: "chunk_unpack split zero_header u = (Inr hdr, u1)" by blast
    note adv = chunk_unpack_advance [OF hdr "1.prems"]
    show ?thesis
    proof (cases "Size hdr \<le> 0 \<or> Size hdr > RemainingSize u1")
      case True
      then have "unpack_loop split u =
          (let d = drop (uidx u1) (udata u1) in
           if length d > 0 then [\<lparr>Header = hdr, Data = d\<rparr>] else [])"
        using pos hdr by (subst unpack_loop.simps) (simp add: Rest_def)
      with adv show ?thesis by (auto simp: Let_def chunk_cost_def uwf_def)
    next
      case False
      define d where "d = take (nat (Size hdr)) (drop (uidx u1) (udata u1))"
      define u2 where "u2 = u1\<lparr>uidx := uidx u1 + nat (Size hdr)\<rparr>"
      have body: "NextRaw (Size hdr) u1 = (Inr d, u2)"
        using False by (simp add: NextRaw_def RemainingSize_def d_def u2_def)
      have len: "length d = nat (Size hdr)"
        using False adv by (auto simp add: d_def RemainingSize_def uwf_def min_def)
      have d: "int (length d) = Size hdr" "uidx u2 = uidx u1 + length d" "udata u2 = udata u1"
          "uwf u2" "d \<noteq> []"
        using False adv len by (auto simp: u2_def RemainingSize_def uwf_def)
      have eq: "unpack_loop split u = \<lparr>Header = hdr, Data = d\<rparr> # unpack_loop split u2"
        using False pos hdr body by (subst unpack_loop.simps) simp
      from "1.IH" [OF pos hdr [symmetric] refl False body [symmetric] refl d(4)] d adv
      show ?thesis
        unfolding eq by (auto simp: chunk_cost_def exact_size_def uwf_def)
    qed
  qed
qed

section \<open>Properties\<close>

text \<open>
  C36: A payload that is the concatenation of packed headers and their data, for either
  protocol's split, is taken apart by \<open>UnpackChunks\<close> into exactly those chunks (sizes up to
  \<open>2 ^ (split + 6) - 1\<close>, sequence numbers below 1024).
\<close>

theorem chunks_roundtrip:
  assumes "split \<le> 6" and "\<forall>c \<in> set cs. wf_chunk split c"
  shows "UnpackChunks (concat (map (chunk_bytes split) cs)) split = cs"
  using unpack_loop_chunks [OF assms, of "[]"]
  by (simp add: UnpackChunks_def NewUnpacker_at_pos)

definition sample_chunk :: chunk where
  "sample_chunk = \<lparr>Header = \<lparr>Flags = \<lparr>Vital = True, Resend = False\<rparr>, Size = 2, Seq = 777\<rparr>,
     Data = [10, 20]\<rparr>"

theorem chunks_roundtrip_witness:
  "UnpackChunks (concat (map (chunk_bytes 4) [sample_chunk, sample_chunk])) 4 =
    [sample_chunk, sample_chunk]"
  by (rule chunks_roundtrip)
    (simp_all add: wf_chunk_def wf_header_def sample_chunk_def)

text \<open>
  On any payload, hostile ones included, the chunks and their headers together are no
  longer than the payload, none is empty, and every chunk but the last has exactly the size
  its header announces.
\<close>

theorem chunks_bounds:
  "sum_list (map chunk_cost (UnpackChunks payload split)) \<le> length payload
    \<and> (\<forall>c. c \<in> set (UnpackChunks payload split) \<longrightarrow> Data c \<noteq> [])
    \<and> (\<forall>c. c \<in> set (butlast (UnpackChunks payload split)) \<longrightarrow> exact_size c)"
  using unpack_loop_bounds [of "NewUnpacker payload" split]
  by (auto simp: UnpackChunks_def NewUnpacker_def uwf_def)

theorem chunks_bounds_witness:
  "sum_list (map chunk_cost (UnpackChunks [0x40] 4)) \<le> 1"
  using chunks_bounds [of "[0x40]" 4] by simp

text \<open>
  Protocol 0.6 headers (\<open>split = 4\<close>) carry a 10-bit sequence number although the header
  comment speaks of 12 bits: bits 6 and 7 are sent twice and bit 10 not at all, so sequence
  number 1024 is unpacked as 0.
\<close>

theorem split4_seq_is_10_bits:
  "fst (chunk_unpack 4 zero_header (NewUnpacker
      (chunk_pack \<lparr>Flags = \<lparr>Vital = True, Resend = False\<rparr>, Size = 1, Seq = 1024\<rparr> 4))) =
    Inr \<lparr>Flags = \<lparr>Vital = True, Resend = False\<rparr>, Size = 1, Seq = 0\<rparr>"
  by code_simp

end
