(* ===== verification/Headers.thy ===== *)
theory Headers
  imports Chunk
begin

text \<open>
  net6/header.go and net7/header.go: the packet headers of the two protocols. A token is its
  four bytes (\<open>packet.Token\<close>).
\<close>

section \<open>Protocol 0.6\<close>

record flags6 =
  f6_compression :: bool
  f6_resend :: bool
  f6_connless :: bool
  f6_control :: bool
  f6_token :: bool

record header6 =
  h6_flags :: flags6
  h6_ack :: int
  h6_num_chunks :: int
  h6_token :: "byte list"

definition flagCompression6 :: byte where "flagCompression6 = push_bit 7 1"
definition flagResend6 :: byte where "flagResend6 = push_bit 6 1"
definition flagConnless6 :: byte where "flagConnless6 = push_bit 5 1"
definition flagControl6 :: byte where "flagControl6 = push_bit 4 1"
definition flagToken6 :: byte where "flagToken6 = push_bit 3 1"

definition header6_size :: "header6 \<Rightarrow> nat" where
  "header6_size h = (if f6_token (h6_flags h) then 7 else 3)"

definition flags6_byte :: "flags6 \<Rightarrow> byte" where
  "flags6_byte f =
     (let a = (if f6_compression f then 0 OR flagCompression6 else 0);
          b = (if f6_resend f then a OR flagResend6 else a);
          c = (if f6_connless f then b OR flagConnless6 else b);
          d = (if f6_control f then c OR flagControl6 else c) in
      if f6_token f then d OR flagToken6 else d)"

definition header6_pack :: "header6 \<Rightarrow> byte list" where
  "header6_pack h =
     (let b0 = (flags6_byte (h6_flags h) AND 0xFC) OR byte_of (drop_bit 8 (h6_ack h) AND 3);
          b1 = byte_of (h6_ack h AND 0xFF);
          b2 = byte_of (h6_num_chunks h) in
      if f6_token (h6_flags h) then [b0, b1, b2] @ take 4 (h6_token h) else [b0, b1, b2])"

definition flags6_unpack :: "byte \<Rightarrow> flags6" where
  "flags6_unpack b =
     \<lparr>f6_compression = (b AND flagCompression6 \<noteq> 0),
      f6_resend = (b AND flagResend6 \<noteq> 0),
      f6_connless = (b AND flagConnless6 \<noteq> 0),
      f6_control = (b AND flagControl6 \<noteq> 0),
      f6_token = (b AND flagToken6 \<noteq> 0)\<rparr>"

text \<open>\<open>Unpack\<close> overwrites the receiver; without the token flag its token is left as it was.\<close>

definition header6_unpack :: "header6 \<Rightarrow> byte list \<Rightarrow> goerr option \<times> header6" where
  "header6_unpack h d =
     (if length d < 3 then
        (Some (Err ''packet06: header too short: %d bytes'' [int (length d)]), h)
      else
        (let h' = h\<lparr>h6_flags := flags6_unpack (d ! 0),
                    h6_ack := push_bit 8 (uint (d ! 0 AND 3)) OR uint (d ! 1),
                    h6_num_chunks := uint (d ! 2)\<rparr> in
         if f6_token (h6_flags h') then
           (if length d < 7 then
              (Some (Err ''packet06: token flag set but header too short: %d bytes''
                       [int (length d)]), h')
            else (None, h'\<lparr>h6_token := take 4 (drop 3 d)\<rparr>))
         else (None, h')))"

section \<open>Protocol 0.7\<close>

record flags7 =
  f7_connless :: bool
  f7_compression :: bool
  f7_resend :: bool
  f7_control :: bool

record header7 =
  h7_flags :: flags7
  h7_ack :: int
  h7_num_chunks :: int
  h7_token :: "byte list"
  h7_response_token :: "byte list"

definition flagControl7 :: int where "flagControl7 = 1"
definition flagResend7 :: int where "flagResend7 = 2"
definition flagCompression7 :: int where "flagCompression7 = 4"
definition flagConnless7 :: int where "flagConnless7 = 8"
definition HeaderSize7 :: nat where "HeaderSize7 = 7"
definition HeaderSizeConnless7 :: nat where "HeaderSizeConnless7 = 9"

definition flags7_int :: "flags7 \<Rightarrow> int" where
  "flags7_int f =
     (let a = (if f7_control f then 0 OR flagControl7 else 0);
          b = (if f7_resend f then a OR flagResend7 else a) in
      if f7_compression f then b OR flagCompression7 else b)"

definition header7_pack :: "header7 \<Rightarrow> byte list" where
  "header7_pack h =
     (if f7_connless (h7_flags h) then
        [byte_of ((push_bit 2 flagConnless7 AND 0xFC) OR (1 AND 3))]
          @ take 4 (h7_token h) @ take 4 (h7_response_token h)
      else
        [byte_of ((push_bit 2 (flags7_int (h7_flags h)) AND 0xFC)
                  OR (drop_bit 8 (h7_ack h) AND 3)),
         byte_of (h7_ack h AND 0xFF),
         byte_of (h7_num_chunks h)] @ take 4 (h7_token h))"

definition flags7_unpack :: "byte list \<Rightarrow> goerr + flags7" where
  "flags7_unpack d =
     (if length d = 0 then Inl (Err ''packet07: empty header for flags'' [])
      else
        (let bits = uint (drop_bit 2 (d ! 0)) in
         Inr \<lparr>f7_connless = (bits AND flagConnless7 \<noteq> 0),
              f7_compression = (bits AND flagCompression7 \<noteq> 0),
              f7_resend = (bits AND flagResend7 \<noteq> 0),
              f7_control = (bits AND flagControl7 \<noteq> 0)\<rparr>))"

definition header7_unpack :: "header7 \<Rightarrow> byte list \<Rightarrow> goerr option \<times> header7" where
  "header7_unpack h d =
     (if length d < HeaderSize7 then
        (Some (Err ''packet07: header too short: %d bytes'' [int (length d)]), h)
      else
        (case flags7_unpack d of
           Inl e \<Rightarrow> (Some e, h)
         | Inr f \<Rightarrow>
             (None, h\<lparr>h7_flags := f,
                      h7_ack := push_bit 8 (uint (d ! 0 AND 3)) OR uint (d ! 1),
                      h7_num_chunks := uint (d ! 2),
                      h7_token := take 4 (drop 3 d)\<rparr>)))"

section \<open>Round trips\<close>

lemma ack_roundtrip:
  fixes b0 :: byte
  assumes "0 \<le> a" "a < 2 ^ 10" and hi: "\<And>n. n < 2 \<Longrightarrow> bit b0 n \<longleftrightarrow> bit a (n + 8)"
  shows "push_bit 8 (uint (b0 AND 3)) OR uint (byte_of (a AND 0xFF)) = a"
proof (rule bit_eqI)
  fix n
  have three: "(3 :: byte) = mask 2" by (simp add: mask_eq_exp_minus_1)
  have "bit a n \<Longrightarrow> n < 10" using assms(1,2) int_bit_bound [of a 10 n] by simp
  then show "bit (push_bit 8 (uint (b0 AND 3)) OR uint (byte_of (a AND 0xFF))) n = bit a n"
    unfolding three mask_int using hi [of "n - 8"]
    by (auto simp: bit_simps simp del: uint_byte_of)
qed

lemma flag6_bits:
  "b AND flagCompression6 \<noteq> 0 \<longleftrightarrow> bit b 7" "b AND flagResend6 \<noteq> 0 \<longleftrightarrow> bit b 6"
  "b AND flagConnless6 \<noteq> 0 \<longleftrightarrow> bit b 5" "b AND flagControl6 \<noteq> 0 \<longleftrightarrow> bit b 4"
  "b AND flagToken6 \<noteq> 0 \<longleftrightarrow> bit b 3"
  unfolding flagCompression6_def flagResend6_def flagConnless6_def flagControl6_def
    flagToken6_def push_bit_of_1
  by (simp_all only: and_exp_eq_0_iff_not_bit not_not)

lemma bit_or_flag:
  "bit (if c then x OR push_bit k 1 else (x :: byte)) n \<longleftrightarrow> bit x n \<or> c \<and> n = k \<and> k < 8"
  by (auto simp: bit_or_iff bit_exp_iff)

lemma bit_flags6_byte:
  "bit (flags6_byte f) n \<longleftrightarrow>
     n = 7 \<and> f6_compression f \<or> n = 6 \<and> f6_resend f \<or> n = 5 \<and> f6_connless f
     \<or> n = 4 \<and> f6_control f \<or> n = 3 \<and> f6_token f"
  unfolding flags6_byte_def flagCompression6_def flagResend6_def flagConnless6_def
    flagControl6_def flagToken6_def Let_def bit_or_flag bit_0_eq
  by auto

definition wf_header6 :: "header6 \<Rightarrow> bool" where
  "wf_header6 h \<longleftrightarrow> 0 \<le> h6_ack h \<and> h6_ack h < 1024 \<and> 0 \<le> h6_num_chunks h
     \<and> h6_num_chunks h < 256 \<and> length (h6_token h) = 4"

lemma mask_byte_more: "(0xFC :: byte) = NOT (mask 2)" "(3 :: byte) = mask 2"
  by (simp_all add: mask_eq_exp_minus_1)

definition byte0_6 :: "header6 \<Rightarrow> byte" where
  "byte0_6 h = (flags6_byte (h6_flags h) AND 0xFC) OR byte_of (drop_bit 8 (h6_ack h) AND 3)"

lemma bit_byte0_6:
  "bit (byte0_6 h) n \<longleftrightarrow> n < 8 \<and>
     (if n < 2 then bit (h6_ack h) (n + 8) else bit (flags6_byte (h6_flags h)) n)"
  unfolding byte0_6_def mask_byte_more mask_int
  by (auto simp: bit_simps bit_flags6_byte add.commute)

lemma flags6_unpack_byte0: "flags6_unpack (byte0_6 h) = h6_flags h"
  unfolding flags6_unpack_def flag6_bits
  by (simp add: bit_byte0_6 bit_flags6_byte)

section \<open>Properties\<close>

lemma header6_unpack_pack:
  assumes "wf_header6 h"
  shows "header6_unpack g (header6_pack h @ payload) =
    (None, h\<lparr>h6_token := if f6_token (h6_flags h) then h6_token h else h6_token g\<rparr>)"
proof -
  let ?b1 = "byte_of (h6_ack h AND 0xFF)" and ?b2 = "byte_of (h6_num_chunks h)"
  have pack: "header6_pack h =
      byte0_6 h # ?b1 # ?b2 # (if f6_token (h6_flags h) then h6_token h else [])"
    using assms by (simp add: header6_pack_def byte0_6_def Let_def wf_header6_def)
  have ack: "push_bit 8 (uint (byte0_6 h AND 3)) OR uint ?b1 = h6_ack h"
    using assms by (intro ack_roundtrip) (simp_all add: wf_header6_def bit_byte0_6)
  have num: "uint ?b2 = h6_num_chunks h" using assms by (simp add: wf_header6_def)
  have tok: "length (h6_token h) = 4" using assms by (simp add: wf_header6_def)
  have eq: "header6_unpack g (byte0_6 h # ?b1 # ?b2 # rest) =
      (let h' = g\<lparr>h6_flags := h6_flags h, h6_ack := h6_ack h, h6_num_chunks := h6_num_chunks h\<rparr>
       in if f6_token (h6_flags h) then
            (if length rest < 4 then
               (Some (Err ''packet06: token flag set but header too short: %d bytes''
                        [int (length rest) + 3]), h')
             else (None, h'\<lparr>h6_token := take 4 rest\<rparr>))
          else (None, h'))" for rest
    unfolding header6_unpack_def Let_def
    using ack num by (simp add: flags6_unpack_byte0 del: uint_byte_of)
  have r1: "g\<lparr>h6_flags := h6_flags h, h6_ack := h6_ack h, h6_num_chunks := h6_num_chunks h,
      h6_token := h6_token h\<rparr> = h"
    by (rule header6.equality) simp_all
  have r2: "g\<lparr>h6_flags := h6_flags h, h6_ack := h6_ack h, h6_num_chunks := h6_num_chunks h\<rparr> =
      h\<lparr>h6_token := h6_token g\<rparr>"
    by (rule header6.equality) simp_all
  show ?thesis
    unfolding pack using tok by (simp add: eq Let_def r1 r2)
qed

definition sample_header6 :: header6 where
  "sample_header6 = \<lparr>h6_flags = \<lparr>f6_compression = True, f6_resend = False, f6_connless = False,
     f6_control = True, f6_token = True\<rparr>, h6_ack = 1000, h6_num_chunks = 3,
     h6_token = [1, 2, 3, 4]\<rparr>"

text \<open>
  The 0.6 header: unpacking what \<open>Pack\<close> produced, with any payload behind it, restores
  flags, ack, chunk count and, when the token flag is set, the token; without the token flag
  the receiver's token is not touched.
\<close>

theorem header6_roundtrip:
  assumes "wf_header6 h"
  shows "header6_unpack g (header6_pack h @ payload) =
    (None, h\<lparr>h6_token := if f6_token (h6_flags h) then h6_token h else h6_token g\<rparr>)"
  using assms by (rule header6_unpack_pack)

theorem header6_roundtrip_witness:
  "header6_unpack (sample_header6\<lparr>h6_token := [0, 0, 0, 0]\<rparr>) (header6_pack sample_header6 @ [99]) =
    (None, sample_header6)"
  using header6_roundtrip [of sample_header6 "sample_header6\<lparr>h6_token := [0, 0, 0, 0]\<rparr>" "[99]"]
  by (simp add: sample_header6_def wf_header6_def)

definition wf_header7 :: "header7 \<Rightarrow> bool" where
  "wf_header7 h \<longleftrightarrow> 0 \<le> h7_ack h \<and> h7_ack h < 1024 \<and> 0 \<le> h7_num_chunks h
     \<and> h7_num_chunks h < 256 \<and> length (h7_token h) = 4"

lemma bit_flags7_int:
  "bit (flags7_int f) n \<longleftrightarrow> n = 0 \<and> f7_control f \<or> n = 1 \<and> f7_resend f \<or> n = 2 \<and> f7_compression f"
proof -
  have c: "flagControl7 = push_bit 0 1" "flagResend7 = push_bit 1 1"
    "flagCompression7 = push_bit 2 1"
    by (simp_all add: flagControl7_def flagResend7_def flagCompression7_def)
  have b: "bit (if c then x OR push_bit k 1 else (x :: int)) n \<longleftrightarrow> bit x n \<or> c \<and> n = k" for c x k
    by (auto simp: bit_or_iff bit_exp_iff)
  show ?thesis unfolding flags7_int_def c Let_def b bit_0_eq by auto
qed

lemma flag7_bits:
  "x AND flagControl7 \<noteq> 0 \<longleftrightarrow> bit x 0" "x AND flagResend7 \<noteq> 0 \<longleftrightarrow> bit x 1"
  "x AND flagCompression7 \<noteq> 0 \<longleftrightarrow> bit x 2" "x AND flagConnless7 \<noteq> 0 \<longleftrightarrow> bit x 3"
proof -
  have c: "flagControl7 = 2 ^ 0" "flagResend7 = 2 ^ 1" "flagCompression7 = 2 ^ 2"
    "flagConnless7 = 2 ^ 3"
    by (simp_all add: flagControl7_def flagResend7_def flagCompression7_def flagConnless7_def)
  show "x AND flagControl7 \<noteq> 0 \<longleftrightarrow> bit x 0" "x AND flagResend7 \<noteq> 0 \<longleftrightarrow> bit x 1"
    "x AND flagCompression7 \<noteq> 0 \<longleftrightarrow> bit x 2" "x AND flagConnless7 \<noteq> 0 \<longleftrightarrow> bit x 3"
    unfolding c by (simp_all only: and_exp_eq_0_iff_not_bit not_not)
qed

definition byte0_7 :: "header7 \<Rightarrow> byte" where
  "byte0_7 h = byte_of ((push_bit 2 (flags7_int (h7_flags h)) AND 0xFC)
     OR (drop_bit 8 (h7_ack h) AND 3))"

lemma bit_byte0_7:
  "bit (byte0_7 h) n \<longleftrightarrow> n < 8 \<and>
     (if n < 2 then bit (h7_ack h) (n + 8) else bit (flags7_int (h7_flags h)) (n - 2))"
proof -
  have m: "(0xFC :: int) = mask 8 AND NOT (mask 2)" by (simp add: mask_eq_exp_minus_1)
  show ?thesis unfolding byte0_7_def m mask_int(3) by (auto simp: bit_simps add.commute)
qed

lemma header7_unpack_pack:
  assumes "wf_header7 h" and "\<not> f7_connless (h7_flags h)"
  shows "header7_unpack g (header7_pack h @ payload) =
    (None, h\<lparr>h7_response_token := h7_response_token g\<rparr>)"
proof -
  let ?b1 = "byte_of (h7_ack h AND 0xFF)" and ?b2 = "byte_of (h7_num_chunks h)"
  have pack: "header7_pack h = byte0_7 h # ?b1 # ?b2 # h7_token h"
    using assms by (simp add: header7_pack_def byte0_7_def wf_header7_def)
  have ack: "push_bit 8 (uint (byte0_7 h AND 3)) OR uint ?b1 = h7_ack h"
    using assms by (intro ack_roundtrip) (simp_all add: wf_header7_def bit_byte0_7)
  have num: "uint ?b2 = h7_num_chunks h" using assms by (simp add: wf_header7_def)
  have flags: "flags7_unpack (byte0_7 h # rest) = Inr (h7_flags h)" for rest
    unfolding flags7_unpack_def Let_def flag7_bits
    using assms(2) by (simp add: bit_drop_bit_eq bit_byte0_7 bit_flags7_int)
  have tok: "length (h7_token h) = 4" using assms by (simp add: wf_header7_def)
  have r: "g\<lparr>h7_flags := h7_flags h, h7_ack := h7_ack h, h7_num_chunks := h7_num_chunks h,
      h7_token := h7_token h\<rparr> = h\<lparr>h7_response_token := h7_response_token g\<rparr>"
    by (rule header7.equality) simp_all
  show ?thesis
    unfolding pack header7_unpack_def HeaderSize7_def
    using tok ack num r by (simp add: flags del: uint_byte_of)
qed

definition sample_header7 :: header7 where
  "sample_header7 = \<lparr>h7_flags = \<lparr>f7_connless = False, f7_compression = True, f7_resend = False,
     f7_control = True\<rparr>, h7_ack = 513, h7_num_chunks = 255, h7_token = [9, 8, 7, 6],
     h7_response_token = [0, 0, 0, 0]\<rparr>"

text \<open>
  The 0.7 header of a connected packet: unpacking what \<open>Pack\<close> produced restores flags,
  ack, chunk count and token, whatever the payload; the response token is left alone.
\<close>

theorem header7_roundtrip:
  assumes "wf_header7 h" and "\<not> f7_connless (h7_flags h)"
  shows "header7_unpack g (header7_pack h @ payload) =
    (None, h\<lparr>h7_response_token := h7_response_token g\<rparr>)"
  using assms by (rule header7_unpack_pack)

theorem header7_roundtrip_witness:
  "header7_unpack sample_header7 (header7_pack sample_header7 @ [1, 2]) = (None, sample_header7)"
  using header7_roundtrip [of sample_header7 sample_header7 "[1, 2]"]
  by (simp add: sample_header7_def wf_header7_def)

text \<open>
  The header sizes the code announces (\<open>Size\<close> in 0.6, 7 bytes in 0.7, 9 for connless
  packets) are the lengths that \<open>Pack\<close> produces.
\<close>

theorem header_sizes:
  assumes "length (h6_token h) = 4" and "length (h7_token g) = 4"
    and "length (h7_response_token g) = 4"
  shows "length (header6_pack h) = header6_size h
    \<and> length (header7_pack g) =
        (if f7_connless (h7_flags g) then HeaderSizeConnless7 else HeaderSize7)"
  using assms
  by (simp add: header6_pack_def header6_size_def header7_pack_def Let_def HeaderSizeConnless7_def
      HeaderSize7_def)

theorem header_sizes_witness:
  "length (header6_pack sample_header6) = header6_size sample_header6"
  using header_sizes [of sample_header6 sample_header7]
  by (simp add: sample_header6_def sample_header7_def)

end
