(* ===== verification/Input.thy ===== *)
theory Input
  imports Packer
begin

text \<open>
  packet/input.go: the player input, its validating setters and the conversions from and to
  the ten raw integers of the wire. The typed fields are Go \<open>int\<close>s with named constants.
\<close>

section \<open>The input and its setters\<close>

record player_input =
  Direction :: int
  TargetX :: int
  TargetY :: int
  Jump :: int
  Fire :: int
  Hook :: int
  PlayerFlags :: int
  WantedWeapon :: int
  NextWeapon :: int
  PrevWeapon :: int

definition zero_input :: player_input where
  "zero_input = \<lparr>Direction = 0, TargetX = 0, TargetY = 0, Jump = 0, Fire = 0, Hook = 0,
     PlayerFlags = 0, WantedWeapon = 0, NextWeapon = 0, PrevWeapon = 0\<rparr>"

definition playerFlagAll :: int where
  "playerFlagAll = 1 OR 2 OR 4 OR 8 OR 16"

definition InputFields :: nat where "InputFields = 10"

definition EmptyInputSize :: nat where "EmptyInputSize = InputFields * 4"

definition EmptyInput :: "byte list" where "EmptyInput = replicate InputFields 0"

definition SetDirection :: "int \<Rightarrow> (player_input, unit) gost" where
  "SetDirection v p =
     (if v < - 1 \<or> v > 1 then (Inl (Err ''direction %d out of range [-1, 1]'' [v]), p)
      else (Inr (), p\<lparr>Direction := v\<rparr>))"

definition SetJump :: "int \<Rightarrow> (player_input, unit) gost" where
  "SetJump v p =
     (if v < 0 \<or> v > 1 then (Inl (Err ''jump %d out of range [0, 1]'' [v]), p)
      else (Inr (), p\<lparr>Jump := v\<rparr>))"

definition SetHook :: "int \<Rightarrow> (player_input, unit) gost" where
  "SetHook v p =
     (if v < 0 \<or> v > 1 then (Inl (Err ''hook %d out of range [0, 1]'' [v]), p)
      else (Inr (), p\<lparr>Hook := v\<rparr>))"

definition SetPlayerFlags :: "int \<Rightarrow> (player_input, unit) gost" where
  "SetPlayerFlags v p =
     (if v < 0 \<or> v AND NOT playerFlagAll \<noteq> 0 then
        (Inl (Err ''player flags %d contain invalid bits'' [v]), p)
      else (Inr (), p\<lparr>PlayerFlags := v\<rparr>))"

definition SetWantedWeapon :: "int \<Rightarrow> (player_input, unit) gost" where
  "SetWantedWeapon v p =
     (if v < 0 \<or> v > 6 then (Inl (Err ''wanted weapon %d out of range [0, 6]'' [v]), p)
      else (Inr (), p\<lparr>WantedWeapon := v\<rparr>))"

definition SetNextWeapon :: "int \<Rightarrow> (player_input, unit) gost" where
  "SetNextWeapon v p =
     (if v < 0 \<or> v > 1 then (Inl (Err ''next weapon %d out of range [0, 1]'' [v]), p)
      else (Inr (), p\<lparr>NextWeapon := v\<rparr>))"

definition SetPrevWeapon :: "int \<Rightarrow> (player_input, unit) gost" where
  "SetPrevWeapon v p =
     (if v < 0 \<or> v > 1 then (Inl (Err ''prev weapon %d out of range [0, 1]'' [v]), p)
      else (Inr (), p\<lparr>PrevWeapon := v\<rparr>))"

definition SetFire :: "int \<Rightarrow> (player_input, unit) gost" where
  "SetFire v p =
     (if v < 0 then (Inl (Err ''fire count %d must be non-negative'' [v]), p)
      else (Inr (), p\<lparr>Fire := v\<rparr>))"

definition SetTarget :: "int \<Rightarrow> int \<Rightarrow> player_input \<Rightarrow> player_input" where
  "SetTarget x y p = p\<lparr>TargetX := x, TargetY := y\<rparr>"

section \<open>Raw integers\<close>

text \<open>The Go argument is an array \<open>[10]int\<close>: a list of length 10.\<close>

definition NewPlayerInputFromRaw :: "int list \<Rightarrow> goerr + player_input" where
  "NewPlayerInputFromRaw f =
     (case bnd (SetDirection (f ! 0)) (\<lambda>_ p.
        bnd (SetJump (f ! 3)) (\<lambda>_.
        bnd (SetFire (f ! 4)) (\<lambda>_.
        bnd (SetHook (f ! 5)) (\<lambda>_.
        bnd (SetPlayerFlags (f ! 6)) (\<lambda>_.
        bnd (SetWantedWeapon (f ! 7)) (\<lambda>_.
        bnd (SetNextWeapon (f ! 8)) (\<lambda>_.
        SetPrevWeapon (f ! 9)))))))
        (SetTarget (f ! 1) (f ! 2) p)) zero_input of
      (Inl e, p) \<Rightarrow> Inl e
    | (Inr _, p) \<Rightarrow> Inr p)"

definition UnsafePlayerInputFromRaw :: "int list \<Rightarrow> player_input" where
  "UnsafePlayerInputFromRaw f =
     \<lparr>Direction = f ! 0, TargetX = f ! 1, TargetY = f ! 2, Jump = f ! 3, Fire = f ! 4,
      Hook = f ! 5, PlayerFlags = f ! 6, WantedWeapon = f ! 7, NextWeapon = f ! 8,
      PrevWeapon = f ! 9\<rparr>"

definition Raw :: "player_input \<Rightarrow> int list" where
  "Raw p =
     [Direction p, TargetX p, TargetY p, Jump p, Fire p, Hook p, PlayerFlags p,
      WantedWeapon p, NextWeapon p, PrevWeapon p]"

lemma length_Raw [simp]: "length (Raw p) = 10"
  by (simp add: Raw_def)

lemma Unsafe_Raw [simp]: "UnsafePlayerInputFromRaw (Raw p) = p"
  by (simp add: UnsafePlayerInputFromRaw_def Raw_def)

lemma list_of_10:
  assumes "length f = 10"
  shows "f = [f ! 0, f ! 1, f ! 2, f ! 3, f ! 4, f ! 5, f ! 6, f ! 7, f ! 8, f ! 9]"
  using assms by (intro nth_equalityI) (auto simp: less_Suc_eq numeral_eq_Suc)

lemma Raw_Unsafe [simp]: "length f = 10 \<Longrightarrow> Raw (UnsafePlayerInputFromRaw f) = f"
  by (simp only: UnsafePlayerInputFromRaw_def Raw_def player_input.simps list_of_10 [symmetric])

definition valid_input :: "player_input \<Rightarrow> bool" where
  "valid_input p \<longleftrightarrow>
     Direction p \<in> {- 1..1} \<and> Jump p \<in> {0..1} \<and> 0 \<le> Fire p \<and> Hook p \<in> {0..1}
     \<and> PlayerFlags p \<in> {0..31} \<and> WantedWeapon p \<in> {0..6} \<and> NextWeapon p \<in> {0..1}
     \<and> PrevWeapon p \<in> {0..1}"

lemma player_flags_ok: "(v < 0 \<or> v AND NOT playerFlagAll \<noteq> 0) \<longleftrightarrow> \<not> (0 \<le> v \<and> v \<le> 31)"
proof -
  have m: "playerFlagAll = mask 5" by (simp add: playerFlagAll_def mask_eq_exp_minus_1)
  have "v AND NOT (mask 5) = 0 \<longleftrightarrow> take_bit 5 v = v"
    by (auto simp: bit_eq_iff bit_simps)
  also have "\<dots> \<longleftrightarrow> 0 \<le> v \<and> v < 32"
    by (simp add: take_bit_int_eq_self_iff)
  finally show ?thesis unfolding m by auto
qed

lemma from_raw_iff:
  assumes "length f = 10"
  shows "NewPlayerInputFromRaw f = Inr p \<longleftrightarrow>
    p = UnsafePlayerInputFromRaw f \<and> valid_input (UnsafePlayerInputFromRaw f)"
proof -
  have flags: "f ! 6 AND NOT playerFlagAll = 0 \<longleftrightarrow> f ! 6 \<le> 31" if "\<not> f ! 6 < 0"
    using player_flags_ok [of "f ! 6"] that by auto
  show ?thesis
    unfolding NewPlayerInputFromRaw_def SetDirection_def SetJump_def SetFire_def SetHook_def
      SetPlayerFlags_def SetWantedWeapon_def SetNextWeapon_def SetPrevWeapon_def SetTarget_def
      bnd_def
    by (auto simp: flags zero_input_def UnsafePlayerInputFromRaw_def valid_input_def)
qed

section \<open>Properties\<close>

text \<open>
  \<open>NewPlayerInputFromRaw\<close> accepts ten integers exactly when the input they denote is
  valid, and then returns the same input as the unchecked conversion; otherwise it fails.
\<close>

theorem input_from_raw:
  assumes "length f = 10"
  shows "NewPlayerInputFromRaw f = Inr p \<longleftrightarrow>
    p = UnsafePlayerInputFromRaw f \<and> valid_input (UnsafePlayerInputFromRaw f)"
  using assms by (rule from_raw_iff)

theorem input_from_raw_witness:
  "NewPlayerInputFromRaw [1, - 200, 40, 1, 7, 0, 5, 3, 0, 0] =
    Inr (UnsafePlayerInputFromRaw [1, - 200, 40, 1, 7, 0, 5, 3, 0, 0])"
  by (subst input_from_raw)
    (simp_all add: valid_input_def UnsafePlayerInputFromRaw_def)

text \<open>
  Every valid input survives the way through its ten raw integers and the checked
  conversion back.
\<close>

theorem input_raw_roundtrip:
  assumes "valid_input p"
  shows "NewPlayerInputFromRaw (Raw p) = Inr p"
  using assms by (simp add: from_raw_iff)

theorem input_raw_roundtrip_witness:
  "NewPlayerInputFromRaw (Raw (zero_input\<lparr>TargetX := - 70000, Fire := 3\<rparr>)) =
    Inr (zero_input\<lparr>TargetX := - 70000, Fire := 3\<rparr>)"
  by (rule input_raw_roundtrip) (simp add: valid_input_def zero_input_def)

end
