(* ===== verification/SnapDelta.thy ===== *)
theory SnapDelta
  imports Packer "HOL-Library.Mapping" "HOL-Library.AList_Mapping"
begin

text \<open>
  packet/snap.go: delta decompression of snapshots and the snapshot storage.

  The pooled scratch of \<open>applyDelta\<close> is cleared between calls except for two buffers; one of
  them, the delta-field buffer \<open>df\<close>, is read as well as written, so its content on entry is an
  argument of the model and its content on exit a result. The other retained buffers
  (\<open>flat\<close>, \<open>upds\<close>) are truncated on entry.
\<close>

section \<open>Data\<close>

record snap_item =
  TypeID :: int
  ID :: int
  Fields :: "int list"

record snapshot =
  Tick :: int
  Items :: "snap_item list"

record snap_storage =
  Snaps :: "(int, snapshot) mapping"
  MaxSnaps :: int
  LastTick :: int
  ItemSizeFn :: "(int \<Rightarrow> int) option"

record upd_meta =
  um_type :: int
  um_id :: int
  um_off :: nat
  um_size :: nat

type_synonym item_key = "int \<times> int"

definition item_key :: "snap_item \<Rightarrow> item_key" where
  "item_key it = (TypeID it, ID it)"

definition DefaultMaxSnaps :: int where "DefaultMaxSnaps = 16"
definition MinMaxSnaps :: int where "MinMaxSnaps = 3"

definition WithMaxSnaps :: "int \<Rightarrow> snap_storage \<Rightarrow> snap_storage" where
  "WithMaxSnaps n ss =
     (if n \<le> 0 then ss\<lparr>MaxSnaps := DefaultMaxSnaps\<rparr>
      else if n < MinMaxSnaps then ss\<lparr>MaxSnaps := MinMaxSnaps\<rparr>
      else ss\<lparr>MaxSnaps := n\<rparr>)"

text \<open>A nil option (None) is ignored.\<close>

definition NewSnapStorage ::
    "(int \<Rightarrow> int) option \<Rightarrow> (snap_storage \<Rightarrow> snap_storage) option list \<Rightarrow> snap_storage" where
  "NewSnapStorage itemSizeFn opts =
     foldl (\<lambda>ss opt. case opt of None \<Rightarrow> ss | Some f \<Rightarrow> f ss)
       \<lparr>Snaps = Mapping.empty, MaxSnaps = DefaultMaxSnaps, LastTick = 0, ItemSizeFn = itemSizeFn\<rparr>
       opts"

section \<open>applyDelta\<close>

text \<open>
  The state of the decoding loops: the scratch unpacker and the delta-field buffer.
\<close>

type_synonym scratch = "unpacker \<times> int list"

definition on_u :: "(unpacker, 'a) gost \<Rightarrow> (scratch, 'a) gost" where
  "on_u m sc = (case m (fst sc) of (r, u') \<Rightarrow> (r, (u', snd sc)))"

text \<open>
  \<open>deltaBuf n\<close>: a fresh zeroed buffer when the retained one is too small, otherwise its first
  \<open>n\<close> elements as they are. Slicing with a negative length panics.
\<close>

definition deltaBuf :: "int \<Rightarrow> (scratch, unit) gost" where
  "deltaBuf n sc =
     (let df = (if int (length (snd sc)) < n then replicate (nat n) 0 else snd sc) in
      if n < 0 then (Inl (Panic ''slice bounds out of range''), (fst sc, df))
      else (Inr (), (fst sc, df)))"

text \<open>
  The field loop \<open>for f := 0; f < size; f++\<close>, with \<open>k = size - f\<close> iterations to go; the first
  read error ends the loop and is dropped.
\<close>

fun read_fields :: "varint_lib \<Rightarrow> nat \<Rightarrow> nat \<Rightarrow> scratch \<Rightarrow> scratch" where
  "read_fields L f 0 sc = sc"
| "read_fields L f (Suc k) sc =
     (case on_u (NextInt L) sc of
        (Inl e, sc') \<Rightarrow> sc'
      | (Inr v, sc') \<Rightarrow> read_fields L (Suc f) k (fst sc', (snd sc')[f := v]))"

text \<open>The absolute fields of one item: base plus delta, a missing base field being 0.\<close>

definition absolute :: "int list \<Rightarrow> nat \<Rightarrow> int list \<Rightarrow> int list" where
  "absolute baseFields sz df =
     map (\<lambda>f. s64 ((if f < length baseFields then baseFields ! f else 0) + df ! f)) [0..<sz]"

definition decode_update ::
    "varint_lib \<Rightarrow> (int \<Rightarrow> int) option \<Rightarrow> (item_key \<rightharpoonup> int list) \<Rightarrow> nat \<Rightarrow>
     (scratch, int \<times> int \<times> int list) gost" where
  "decode_update L itemSizeFn baseMap i =
     bnd (wrapped ''updated type %d: %w'' [int i] (on_u (NextInt L))) (\<lambda>typeID.
     bnd (wrapped ''updated id %d: %w'' [int i] (on_u (NextInt L))) (\<lambda>i_d.
     let size0 = (case itemSizeFn of None \<Rightarrow> - 1 | Some fn \<Rightarrow> fn typeID) in
     bnd (if size0 < 0 then
            wrapped ''updated size %d (type %d): %w'' [int i, typeID] (on_u (NextInt L))
          else ret size0) (\<lambda>sz.
     bnd (deltaBuf sz) (\<lambda>_ sc.
       let sc' = read_fields L 0 (nat sz) sc;
           baseFields = (case baseMap (typeID, i_d) of None \<Rightarrow> [] | Some fs \<Rightarrow> fs) in
       (Inr (typeID, i_d, absolute baseFields (nat sz) (snd sc')), sc')))))"

text \<open>Pass 1 accumulates all fields in one flat buffer and one \<open>updMeta\<close> per item.\<close>

fun pass1 ::
    "varint_lib \<Rightarrow> (int \<Rightarrow> int) option \<Rightarrow> (item_key \<rightharpoonup> int list) \<Rightarrow> nat \<Rightarrow> nat \<Rightarrow>
     int list \<Rightarrow> upd_meta list \<Rightarrow> (scratch, int list \<times> upd_meta list) gost" where
  "pass1 L itemSizeFn baseMap i 0 flat upds sc = (Inr (flat, upds), sc)"
| "pass1 L itemSizeFn baseMap i (Suc k) flat upds sc =
     bnd (decode_update L itemSizeFn baseMap i) (\<lambda>(typeID, i_d, fs).
       pass1 L itemSizeFn baseMap (Suc i) k (flat @ fs)
         (upds @ [\<lparr>um_type = typeID, um_id = i_d, um_off = length flat,
                   um_size = length fs\<rparr>])) sc"

text \<open>Pass 2: replace the fields of an item already in the result, or append a new item.\<close>

definition merge_update ::
    "int list \<Rightarrow> (item_key \<rightharpoonup> nat) \<times> snap_item list \<Rightarrow> upd_meta \<Rightarrow>
     (item_key \<rightharpoonup> nat) \<times> snap_item list" where
  "merge_update backing st ud =
     (let (idx, items) = st;
          fields = take (um_size ud) (drop (um_off ud) backing);
          k = (um_type ud, um_id ud) in
      case idx k of
        Some j \<Rightarrow> (idx, items[j := (items ! j)\<lparr>Fields := fields\<rparr>])
      | None \<Rightarrow> (idx(k \<mapsto> length items),
                 items @ [\<lparr>TypeID = um_type ud, ID = um_id ud, Fields = fields\<rparr>]))"

definition base_map :: "snap_item list \<Rightarrow> item_key \<rightharpoonup> int list" where
  "base_map items = foldl (\<lambda>m it. m(item_key it \<mapsto> Fields it)) Map.empty items"

definition carry_forward ::
    "item_key set \<Rightarrow> snap_item list \<Rightarrow> (item_key \<rightharpoonup> nat) \<times> snap_item list" where
  "carry_forward deleted items =
     foldl (\<lambda>(idx, its) it.
        if item_key it \<in> deleted then (idx, its)
        else (idx(item_key it \<mapsto> length its), its @ [it])) (Map.empty, []) items"

definition split_key :: "int \<Rightarrow> item_key" where
  "split_key key = (drop_bit 16 key AND 0xFFFF, key AND 0xFFFF)"

definition decode_delta ::
    "varint_lib \<Rightarrow> (int \<Rightarrow> int) option \<Rightarrow> snapshot \<Rightarrow> int \<Rightarrow> (scratch, snapshot) gost" where
  "decode_delta L itemSizeFn base tick =
     bnd (wrapped ''numDeleted: %w'' [] (on_u (NextInt L))) (\<lambda>numDeleted.
     bnd (wrapped ''numUpdated: %w'' [] (on_u (NextInt L))) (\<lambda>numUpdated.
     bnd (wrapped ''unused: %w'' [] (on_u (NextInt L))) (\<lambda>_.
     bnd (for_range 0 (nat numDeleted) (\<lambda>i.
            wrapped ''deleted key %d: %w'' [int i] (on_u (NextInt L)))) (\<lambda>keys.
     let deleted = set (map split_key keys);
         st = carry_forward deleted (Items base) in
     bnd (pass1 L itemSizeFn (base_map (Items base)) 0 (nat numUpdated) [] []) (\<lambda>(flat, upds).
     ret \<lparr>Tick = tick, Items = snd (foldl (merge_update flat) st upds)\<rparr>)))))"

definition applyDelta ::
    "varint_lib \<Rightarrow> snapshot \<Rightarrow> int \<Rightarrow> byte list \<Rightarrow> (int \<Rightarrow> int) option \<Rightarrow> int list \<Rightarrow>
     (goerr + snapshot) \<times> int list" where
  "applyDelta L base tick d itemSizeFn df =
     (if d = [] then (Inr \<lparr>Tick = tick, Items = Items base\<rparr>, df)
      else (case decode_delta L itemSizeFn base tick (NewUnpacker d, df) of
              (r, sc) \<Rightarrow> (r, snd sc)))"

section \<open>ProcessSnap\<close>

definition purge_below :: "int \<Rightarrow> (int, snapshot) mapping \<Rightarrow> (int, snapshot) mapping" where
  "purge_below limit m = Mapping.filter (\<lambda>t _. \<not> t < limit) m"

definition ProcessSnap ::
    "varint_lib \<Rightarrow> int \<Rightarrow> int \<Rightarrow> byte list \<Rightarrow> snap_storage \<times> int list \<Rightarrow>
     (goerr + snapshot) \<times> (snap_storage \<times> int list)" where
  "ProcessSnap L tick deltaTick d st =
     (let (ss, df) = st;
          baseTick = tick - deltaTick;
          base0 = (if deltaTick \<ge> 0 then Mapping.lookup (Snaps ss) baseTick else None);
          base = (case base0 of None \<Rightarrow> \<lparr>Tick = baseTick, Items = []\<rparr> | Some b \<Rightarrow> b) in
      case applyDelta L base tick d (ItemSizeFn ss) df of
        (Inl e, df') \<Rightarrow> (Inl (wrap_err ''snap: apply delta: %w'' [] e), (ss, df'))
      | (Inr snap, df') \<Rightarrow>
          (let s1 = Mapping.update tick snap (Snaps ss);
               s2 = (if deltaTick \<ge> 0 then purge_below baseTick s1 else s1);
               s3 = (if int (Mapping.size s2) > MaxSnaps ss
                     then purge_below (tick - MaxSnaps ss) s2 else s2) in
           (Inr snap, (ss\<lparr>Snaps := s3, LastTick := tick\<rparr>, df'))))"

section \<open>The result as a map from item keys to fields\<close>

definition snap_map :: "snap_item list \<Rightarrow> item_key \<rightharpoonup> int list" where
  "snap_map items = map_of (map (\<lambda>it. (item_key it, Fields it)) items)"

definition distinct_keys :: "snap_item list \<Rightarrow> bool" where
  "distinct_keys items \<longleftrightarrow> distinct (map item_key items)"

definition wf_snapshot :: "snapshot \<Rightarrow> bool" where
  "wf_snapshot s \<longleftrightarrow> distinct_keys (Items s)"

text \<open>The index maps each key to the position of its item.\<close>

definition idx_ok :: "(item_key \<rightharpoonup> nat) \<times> snap_item list \<Rightarrow> bool" where
  "idx_ok st \<longleftrightarrow> (case st of (idx, its) \<Rightarrow> distinct_keys its \<and>
     (\<forall>k j. idx k = Some j \<longleftrightarrow> j < length its \<and> item_key (its ! j) = k))"

lemma snap_map_nth:
  "distinct_keys its \<Longrightarrow> j < length its \<Longrightarrow> snap_map its (item_key (its ! j)) = Some (Fields (its ! j))"
  by (auto simp: snap_map_def distinct_keys_def o_def intro!: map_of_is_SomeI
      image_eqI [of _ _ "its ! j"])

lemma snap_map_None_iff: "snap_map its k = None \<longleftrightarrow> k \<notin> item_key ` set its"
  by (simp add: snap_map_def map_of_eq_None_iff image_image)

lemma snap_map_snoc:
  "snap_map its (item_key it) = None \<Longrightarrow>
     snap_map (its @ [it]) = (snap_map its)(item_key it \<mapsto> Fields it)"
  by (auto simp: snap_map_def map_of_append map_add_def fun_eq_iff split: option.splits)

lemma idx_ok_None:
  assumes "idx_ok (idx, its)"
  shows "idx k = None \<longleftrightarrow> k \<notin> item_key ` set its"
proof -
  have ok: "idx k = Some j \<longleftrightarrow> j < length its \<and> item_key (its ! j) = k" for j
    using assms by (cases k) (simp add: idx_ok_def)
  show ?thesis
  proof (cases "idx k")
    case None
    then have "\<And>j. j < length its \<Longrightarrow> item_key (its ! j) \<noteq> k" using ok by simp
    then have "\<forall>x \<in> set its. item_key x \<noteq> k" by (simp add: all_set_conv_all_nth)
    with None show ?thesis by auto
  next
    case (Some j)
    then have "j < length its" "item_key (its ! j) = k" using ok by simp_all
    with Some show ?thesis by auto
  qed
qed

lemma idx_ok_snoc:
  assumes ok: "idx_ok (idx, its)" and new: "idx (item_key it) = None"
  shows "idx_ok (idx(item_key it \<mapsto> length its), its @ [it])"
proof -
  have "item_key it \<notin> item_key ` set its" using ok new idx_ok_None by blast
  moreover have "\<And>j. j < length its \<Longrightarrow> item_key (its ! j) \<noteq> item_key it"
    using calculation by (metis image_eqI nth_mem)
  ultimately show ?thesis
    using ok unfolding idx_ok_def distinct_keys_def
    by (auto simp: nth_append less_Suc_eq)
qed

lemma merge_update_ok:
  assumes "idx_ok (idx, its)" and "merge_update backing (idx, its) ud = (idx', its')"
  shows "idx_ok (idx', its')
    \<and> snap_map its' = (snap_map its)((um_type ud, um_id ud) \<mapsto>
        take (um_size ud) (drop (um_off ud) backing))"
proof -
  let ?k = "(um_type ud, um_id ud)" and ?fs = "take (um_size ud) (drop (um_off ud) backing)"
  show ?thesis
  proof (cases "idx ?k")
    case None
    let ?it = "\<lparr>TypeID = um_type ud, ID = um_id ud, Fields = ?fs\<rparr>"
    have key: "item_key ?it = ?k" by (simp add: item_key_def)
    have "idx' = idx(?k \<mapsto> length its)" "its' = its @ [?it]"
      using assms(2) None by (simp_all add: merge_update_def Let_def)
    moreover have "snap_map its (item_key ?it) = None"
      using idx_ok_None [OF assms(1)] None by (simp add: key snap_map_None_iff)
    ultimately show ?thesis
      using idx_ok_snoc [of idx its ?it] snap_map_snoc [of its ?it] assms(1) None
      by (simp add: key del: fun_upd_apply)
  next
    case (Some j)
    have j: "j < length its" "item_key (its ! j) = ?k"
      using assms(1) Some by (auto simp: idx_ok_def)
    have its': "idx' = idx" "its' = its[j := (its ! j)\<lparr>Fields := ?fs\<rparr>]"
      using assms(2) Some by (simp_all add: merge_update_def Let_def)
    have keys: "map item_key its' = map item_key its"
      unfolding its' using j(1) by (intro nth_equalityI) (auto simp: nth_list_update item_key_def)
    then have key_nth: "\<And>i. i < length its \<Longrightarrow> item_key (its' ! i) = item_key (its ! i)"
      by (metis its'(2) length_list_update nth_map)
    have ok: "idx_ok (idx', its')"
      using assms(1) keys key_nth by (auto simp: idx_ok_def distinct_keys_def its'(1))
        (metis its'(2) length_list_update key_nth)+
    have "snap_map its' k = ((snap_map its)(?k \<mapsto> ?fs)) k" for k
    proof (cases "k \<in> item_key ` set its")
      case False
      then have "snap_map its k = None" "k \<noteq> ?k"
        using j nth_mem by (force simp: snap_map_None_iff)+
      moreover have "item_key ` set its' = item_key ` set its" using keys by (metis list.set_map)
      ultimately have "snap_map its' k = None" using False by (simp add: snap_map_None_iff)
      with \<open>snap_map its k = None\<close> \<open>k \<noteq> ?k\<close> show ?thesis by simp
    next
      case True
      then obtain i where i: "i < length its" "item_key (its ! i) = k"
        by (auto simp: in_set_conv_nth)
      have l: "length its' = length its" by (simp add: its')
      have "snap_map its' k = Some (Fields (its' ! i))"
        using snap_map_nth [of its' i] ok i l key_nth by (simp add: idx_ok_def)
      moreover have "snap_map its k = Some (Fields (its ! i))"
        using snap_map_nth [of its i] assms(1) i by (simp add: idx_ok_def)
      moreover have "i = j \<longleftrightarrow> k = ?k"
      proof -
        have "idx k = Some i" using assms(1) i by (cases k) (simp add: idx_ok_def)
        then show ?thesis using Some i j by auto
      qed
      ultimately show ?thesis
        using i by (auto simp: its' nth_list_update)
    qed
    with ok show ?thesis by auto
  qed
qed

lemma merge_updates_ok:
  assumes "idx_ok st"
  shows "idx_ok (foldl (merge_update backing) st upds)
    \<and> snap_map (snd (foldl (merge_update backing) st upds)) =
      foldl (\<lambda>m ud. m((um_type ud, um_id ud) \<mapsto> take (um_size ud) (drop (um_off ud) backing)))
        (snap_map (snd st)) upds"
  using assms
proof (induction upds arbitrary: st)
  case Nil
  then show ?case by simp
next
  case (Cons ud upds)
  obtain idx its idx' its' where st: "st = (idx, its)"
    and m: "merge_update backing (idx, its) ud = (idx', its')" by fastforce
  from merge_update_ok [OF _ m] Cons.prems Cons.IH [of "(idx', its')"] show ?case
    by (simp add: st m)
qed

lemma carry_forward_ok:
  assumes "distinct_keys items"
  shows "idx_ok (carry_forward deleted items)
    \<and> snd (carry_forward deleted items) = filter (\<lambda>it. item_key it \<notin> deleted) items"
proof -
  let ?step = "\<lambda>(idx, its) it. if item_key it \<in> deleted then (idx, its)
        else (idx(item_key it \<mapsto> length its), its @ [it])"
  have "idx_ok (idx, its) \<Longrightarrow> distinct_keys items \<Longrightarrow>
      item_key ` set its \<inter> item_key ` set items = {} \<Longrightarrow>
      idx_ok (foldl ?step (idx, its) items) \<and>
      snd (foldl ?step (idx, its) items) = its @ filter (\<lambda>it. item_key it \<notin> deleted) items"
    for idx its
  proof (induction items arbitrary: idx its)
    case Nil
    then show ?case by simp
  next
    case (Cons it items)
    have new: "idx (item_key it) = None" using Cons.prems by (simp add: idx_ok_None)
    have rest: "distinct_keys items" "item_key it \<notin> item_key ` set items"
      using Cons.prems(2) by (auto simp: distinct_keys_def)
    show ?case
    proof (cases "item_key it \<in> deleted")
      case True
      with Cons.IH [OF Cons.prems(1) rest(1)] Cons.prems(3) show ?thesis by auto
    next
      case False
      have "item_key ` set (its @ [it]) \<inter> item_key ` set items = {}"
        using Cons.prems(3) rest by auto
      from Cons.IH [OF idx_ok_snoc [OF Cons.prems(1) new] rest(1) this] False show ?thesis
        by (simp del: fun_upd_apply)
    qed
  qed
  from this [of Map.empty "[]"] assms show ?thesis
    by (simp add: carry_forward_def idx_ok_def distinct_keys_def)
qed

lemma snap_map_filter:
  assumes "distinct_keys items"
  shows "snap_map (filter (\<lambda>it. item_key it \<notin> deleted) items) = snap_map items |` (- deleted)"
proof
  fix k
  show "snap_map (filter (\<lambda>it. item_key it \<notin> deleted) items) k = (snap_map items |` (- deleted)) k"
    using assms
    by (induction items) (auto simp: snap_map_def distinct_keys_def restrict_map_def)
qed

lemma base_map_eq: "distinct_keys items \<Longrightarrow> base_map items = snap_map items"
proof -
  have "foldl (\<lambda>m it. m(item_key it \<mapsto> Fields it)) m items = m ++ snap_map items"
    if "distinct_keys items" for m
    using that
  proof (induction items arbitrary: m)
    case Nil
    then show ?case by (simp add: snap_map_def)
  next
    case (Cons it items)
    then have n: "snap_map items (item_key it) = None" "distinct_keys items"
      by (auto simp: snap_map_None_iff distinct_keys_def)
    have "m(item_key it \<mapsto> Fields it) ++ snap_map items =
        m ++ (snap_map items)(item_key it \<mapsto> Fields it)"
      using n by (auto simp: map_add_def split: option.splits)
    with Cons.IH [OF n(2)] show ?case by (simp add: snap_map_def del: fun_upd_apply)
  qed
  then show "distinct_keys items \<Longrightarrow> base_map items = snap_map items"
    by (simp add: base_map_def)
qed

lemma applyDelta_wf:
  assumes "wf_snapshot base" and "applyDelta L base tick d sz df = (Inr snap, df')"
  shows "wf_snapshot snap \<and> Tick snap = tick"
proof (cases "d = []")
  case True
  with assms show ?thesis by (auto simp: applyDelta_def wf_snapshot_def)
next
  case False
  then obtain sc where "decode_delta L sz base tick (NewUnpacker d, df) = (Inr snap, sc)"
    using assms(2) by (auto simp: applyDelta_def split: prod.splits)
  then obtain keys flat upds where
      snap: "snap = \<lparr>Tick = tick,
        Items = snd (foldl (merge_update flat)
          (carry_forward (set (map split_key keys)) (Items base)) upds)\<rparr>"
    by (fastforce simp: decode_delta_def bnd_eq_Inr wrapped_Inr_iff Let_def)
  have "idx_ok (carry_forward (set (map split_key keys)) (Items base))"
    using carry_forward_ok assms(1) by (simp add: wf_snapshot_def)
  from merge_updates_ok [OF this, of flat upds] show ?thesis
    by (simp add: snap wf_snapshot_def idx_ok_def split: prod.splits)
qed

section \<open>Decoding a complete delta\<close>

text \<open>
  The wire form of a delta: deleted keys, then each updated item with its type, id, the field
  count when the item-size function does not know the type, and the field deltas.
\<close>

record upd_item =
  ui_type :: int
  ui_id :: int
  ui_delta :: "int list"

definition known_size :: "(int \<Rightarrow> int) option \<Rightarrow> int \<Rightarrow> int" where
  "known_size sz t = (case sz of None \<Rightarrow> - 1 | Some fn \<Rightarrow> fn t)"

definition encode_upd :: "varint_lib \<Rightarrow> (int \<Rightarrow> int) option \<Rightarrow> upd_item \<Rightarrow> byte list" where
  "encode_upd L sz u =
     encv L (ui_type u) @ encv L (ui_id u)
     @ (if known_size sz (ui_type u) < 0 then encv L (int (length (ui_delta u))) else [])
     @ concat (map (encv L) (ui_delta u))"

definition encode_delta ::
    "varint_lib \<Rightarrow> (int \<Rightarrow> int) option \<Rightarrow> int list \<Rightarrow> upd_item list \<Rightarrow> byte list" where
  "encode_delta L sz dels ups =
     encv L (int (length dels)) @ encv L (int (length ups)) @ encv L 0
     @ concat (map (encv L) dels) @ concat (map (encode_upd L sz) ups)"

definition wf_upd :: "(int \<Rightarrow> int) option \<Rightarrow> upd_item \<Rightarrow> bool" where
  "wf_upd sz u \<longleftrightarrow> in_s32 (ui_type u) \<and> in_s32 (ui_id u) \<and> (\<forall>v \<in> set (ui_delta u). in_s32 v)
     \<and> length (ui_delta u) < 2 ^ 31
     \<and> (known_size sz (ui_type u) < 0 \<or> known_size sz (ui_type u) = int (length (ui_delta u)))"

definition wf_delta :: "(int \<Rightarrow> int) option \<Rightarrow> int list \<Rightarrow> upd_item list \<Rightarrow> bool" where
  "wf_delta sz dels ups \<longleftrightarrow> (\<forall>k \<in> set dels. in_s32 k) \<and> length dels < 2 ^ 31
     \<and> (\<forall>u \<in> set ups. wf_upd sz u) \<and> length ups < 2 ^ 31"

definition upd_fields :: "(item_key \<rightharpoonup> int list) \<Rightarrow> upd_item \<Rightarrow> int list" where
  "upd_fields m u =
     absolute (case m (ui_type u, ui_id u) of None \<Rightarrow> [] | Some fs \<Rightarrow> fs)
       (length (ui_delta u)) (ui_delta u)"

text \<open>The specification: drop the deleted items, then set each updated item's fields.\<close>

definition apply_spec ::
    "(item_key \<rightharpoonup> int list) \<Rightarrow> int list \<Rightarrow> upd_item list \<Rightarrow> item_key \<rightharpoonup> int list" where
  "apply_spec m dels ups =
     foldl (\<lambda>m' u. m'((ui_type u, ui_id u) \<mapsto> upd_fields m u))
       (m |` (- set (map split_key dels))) ups"

lemma absolute_cong: "take n df = delta \<Longrightarrow> length delta = n \<Longrightarrow> absolute b n df = absolute b n delta"
  by (auto simp: absolute_def)

lemma length_absolute [simp]: "length (absolute b n df) = n"
  by (simp add: absolute_def)

context varint_contract begin

lemma on_u_NextInt [simp]:
  "in_s32 v \<Longrightarrow> on_u (NextInt L) (at_pos pre (encv L v @ post), df) =
     (Inr v, (at_pos (pre @ encv L v) post, df))"
  by (simp add: on_u_def)

lemma read_fields_all:
  "(\<forall>v \<in> set vs. in_s32 v) \<Longrightarrow> f + length vs \<le> length df \<Longrightarrow>
     \<exists>pre' df'. read_fields L f (length vs) (at_pos pre (concat (map (encv L) vs) @ post), df) =
       (at_pos pre' post, df') \<and> length df' = length df \<and> take f df' = take f df
       \<and> take (length vs) (drop f df') = vs"
proof (induction vs arbitrary: f pre df)
  case Nil
  then show ?case by auto
next
  case (Cons v vs)
  let ?df = "df[f := v]"
  from Cons.IH [of "Suc f" ?df "pre @ encv L v"] Cons.prems obtain pre' df' where
    IH: "read_fields L (Suc f) (length vs)
        (at_pos (pre @ encv L v) (concat (map (encv L) vs) @ post), ?df) = (at_pos pre' post, df')"
      "length df' = length df" "take (Suc f) df' = take (Suc f) ?df"
      "take (length vs) (drop (Suc f) df') = vs"
    by auto
  have f: "f < length df" using Cons.prems by simp
  have "df' ! f = v"
    using IH(3) f by (metis lessI nth_take nth_list_update_eq)
  then have "drop f df' = v # drop (Suc f) df'"
    using f IH(2) by (metis Cons_nth_drop_Suc)
  moreover have "take f df' = take f df"
    using IH(3) by (metis (no_types, lifting) le_add2 min.absorb1 plus_1_eq_Suc take_take
        take_update_cancel order_refl)
  ultimately show ?case
    using IH Cons.prems by auto
qed

lemma decode_update_encoded:
  assumes "wf_upd sz u"
  shows "\<exists>pre' df'. decode_update L sz m i (at_pos pre (encode_upd L sz u @ post), df) =
    (Inr (ui_type u, ui_id u, upd_fields m u), (at_pos pre' post, df'))"
proof -
  let ?n = "length (ui_delta u)"
  let ?d = "concat (map (encv L) (ui_delta u))"
  define df1 where "df1 = (if int (length df) < int ?n then replicate ?n 0 else df)"
  have len: "?n \<le> length df1" by (simp add: df1_def)
  have buf: "deltaBuf (int ?n) (v, df) = (Inr (), (v, df1))" for v
    by (simp add: deltaBuf_def df1_def Let_def)
  have small: "in_s32 (int ?n)" using assms by (simp add: wf_upd_def in_s32_def)
  have abs: "absolute b ?n df' = absolute b ?n (ui_delta u)" if "take ?n df' = ui_delta u" for b df'
    using that by (rule absolute_cong) simp
  have run: "\<exists>pre' df'. read_fields L 0 ?n (at_pos p (?d @ post), df1) = (at_pos pre' post, df')
      \<and> take ?n df' = ui_delta u" for p
    using read_fields_all [of "ui_delta u" 0 df1 p post] assms len by (auto simp: wf_upd_def)
  have ids: "in_s32 (ui_type u)" "in_s32 (ui_id u)" using assms by (simp_all add: wf_upd_def)
  show ?thesis
  proof (cases "known_size sz (ui_type u) < 0")
    case True
    let ?p = "pre @ encv L (ui_type u) @ encv L (ui_id u) @ encv L (int ?n)"
    from run [of ?p] obtain pre' df' where
      r: "read_fields L 0 ?n (at_pos ?p (?d @ post), df1) = (at_pos pre' post, df')"
      and t: "take ?n df' = ui_delta u" by blast
    show ?thesis
      using True ids small r abs [OF t]
      by (intro exI [of _ pre'] exI [of _ df'])
        (simp add: decode_update_def encode_upd_def known_size_def Let_def buf upd_fields_def)
  next
    case False
    then have s: "known_size sz (ui_type u) = int ?n" using assms by (simp add: wf_upd_def)
    let ?p = "pre @ encv L (ui_type u) @ encv L (ui_id u)"
    from run [of ?p] obtain pre' df' where
      r: "read_fields L 0 ?n (at_pos ?p (?d @ post), df1) = (at_pos pre' post, df')"
      and t: "take ?n df' = ui_delta u" by blast
    show ?thesis
      using False s ids r abs [OF t]
      by (intro exI [of _ pre'] exI [of _ df'])
        (simp add: decode_update_def encode_upd_def known_size_def Let_def buf upd_fields_def)
  qed
qed

text \<open>Pass 1 on a complete delta, and what pass 2 makes of its metadata.\<close>

lemma pass1_encoded:
  assumes "\<forall>u \<in> set ups. wf_upd sz u"
  shows "\<exists>fl metas sc'. pass1 L sz m i (length ups) flat upds
      (at_pos pre (concat (map (encode_upd L sz) ups) @ post), df) =
        (Inr (flat @ fl, upds @ metas), sc') \<and>
      map (\<lambda>ud. ((um_type ud, um_id ud), take (um_size ud) (drop (um_off ud) (flat @ fl)))) metas =
      map (\<lambda>u. ((ui_type u, ui_id u), upd_fields m u)) ups"
  using assms
proof (induction ups arbitrary: i flat upds pre df)
  case Nil
  then show ?case by (intro exI [of _ "[]"]) auto
next
  case (Cons u ups)
  let ?rest = "concat (map (encode_upd L sz) ups) @ post"
  let ?fs = "upd_fields m u"
  let ?meta = "\<lparr>um_type = ui_type u, um_id = ui_id u, um_off = length flat, um_size = length ?fs\<rparr>"
  from decode_update_encoded [of sz u m i pre ?rest df] Cons.prems obtain pre' df' where
    d: "decode_update L sz m i (at_pos pre (encode_upd L sz u @ ?rest), df) =
        (Inr (ui_type u, ui_id u, ?fs), (at_pos pre' ?rest, df'))" by auto
  from Cons.IH [of "Suc i" "flat @ ?fs" "upds @ [?meta]" pre' df'] Cons.prems obtain fl metas sc' where
    IH: "pass1 L sz m (Suc i) (length ups) (flat @ ?fs) (upds @ [?meta]) (at_pos pre' ?rest, df') =
        (Inr (flat @ ?fs @ fl, upds @ ?meta # metas), sc')"
      "map (\<lambda>ud. ((um_type ud, um_id ud), take (um_size ud) (drop (um_off ud) (flat @ ?fs @ fl)))) metas =
       map (\<lambda>u. ((ui_type u, ui_id u), upd_fields m u)) ups"
    by auto
  show ?case
    using d IH
    by (intro exI [of _ "?fs @ fl"] exI [of _ "?meta # metas"] exI [of _ sc']) simp
qed

lemma for_range_keys:
  "(\<forall>k \<in> set dels. in_s32 k) \<Longrightarrow>
     \<exists>pre'. for_range i (length dels) (\<lambda>i. wrapped msg [int i] (on_u (NextInt L)))
       (at_pos pre (concat (map (encv L) dels) @ post), df) = (Inr dels, (at_pos pre' post, df))"
proof (induction dels arbitrary: i pre)
  case Nil
  then show ?case by auto
next
  case (Cons k dels)
  from Cons.IH [of "Suc i" "pre @ encv L k"] Cons.prems show ?case by auto
qed

lemma applyDelta_encoded:
  assumes "wf_snapshot base" and "wf_delta sz dels ups"
  shows "\<exists>snap df'. applyDelta L base tick (encode_delta L sz dels ups) sz df = (Inr snap, df')
    \<and> Tick snap = tick \<and> snap_map (Items snap) = apply_spec (snap_map (Items base)) dels ups"
proof -
  let ?m = "base_map (Items base)" and ?del = "set (map split_key dels)"
  let ?ups = "concat (map (encode_upd L sz) ups)"
  have s: "in_s32 (int (length dels))" "in_s32 (int (length ups))" "in_s32 0"
    using assms(2) by (auto simp: wf_delta_def in_s32_def)
  let ?p = "encv L (int (length dels)) @ encv L (int (length ups)) @ encv L 0"
  obtain pre' where keys: "for_range 0 (length dels)
      (\<lambda>i. wrapped ''deleted key %d: %w'' [int i] (on_u (NextInt L)))
      (at_pos ?p (concat (map (encv L) dels) @ ?ups @ []), df) =
      (Inr dels, (at_pos pre' (?ups @ []), df))"
    using for_range_keys [of dels 0 "''deleted key %d: %w''" ?p "?ups @ []" df] assms(2)
    by (auto simp: wf_delta_def)
  obtain fl metas sc' where p1: "pass1 L sz ?m 0 (length ups) [] [] (at_pos pre' (?ups @ []), df) =
        (Inr (fl, metas), sc')"
      and metas: "map (\<lambda>ud. ((um_type ud, um_id ud), take (um_size ud) (drop (um_off ud) fl))) metas =
        map (\<lambda>u. ((ui_type u, ui_id u), upd_fields ?m u)) ups"
    using pass1_encoded [of ups sz ?m 0 "[]" "[]" pre' "[]" df] assms(2) by (auto simp: wf_delta_def)
  define items where "items = snd (foldl (merge_update fl) (carry_forward ?del (Items base)) metas)"
  have run: "decode_delta L sz base tick (NewUnpacker (encode_delta L sz dels ups), df) =
      (Inr \<lparr>Tick = tick, Items = items\<rparr>, sc')"
    using s keys p1
    by (simp add: decode_delta_def encode_delta_def NewUnpacker_at_pos Let_def items_def)
  have fold: "foldl (\<lambda>m ud. m((um_type ud, um_id ud) \<mapsto> take (um_size ud) (drop (um_off ud) fl))) m0 metas =
      foldl (\<lambda>m' u. m'((ui_type u, ui_id u) \<mapsto> upd_fields ?m u)) m0 ups" for m0
  proof -
    have "foldl (\<lambda>m (k, fs). m(k \<mapsto> fs)) m0
        (map (\<lambda>ud. ((um_type ud, um_id ud), take (um_size ud) (drop (um_off ud) fl))) metas) =
      foldl (\<lambda>m (k, fs). m(k \<mapsto> fs)) m0 (map (\<lambda>u. ((ui_type u, ui_id u), upd_fields ?m u)) ups)"
      unfolding metas ..
    then show ?thesis by (simp add: foldl_map)
  qed
  have dk: "distinct_keys (Items base)" using assms(1) by (simp add: wf_snapshot_def)
  have "snap_map items = apply_spec (snap_map (Items base)) dels ups"
    using merge_updates_ok [of "carry_forward ?del (Items base)" fl metas]
      carry_forward_ok [OF dk, of ?del]
    by (simp add: items_def fold apply_spec_def snap_map_filter [OF dk] base_map_eq [OF dk])
  moreover have "encode_delta L sz dels ups \<noteq> []"
    using s encode_nonempty by (simp add: encode_delta_def)
  ultimately show ?thesis using run by (simp add: applyDelta_def)
qed

end

section \<open>The storage invariant\<close>

definition wf_storage :: "snap_storage \<Rightarrow> bool" where
  "wf_storage ss \<longleftrightarrow> (\<forall>t s. Mapping.lookup (Snaps ss) t = Some s \<longrightarrow> wf_snapshot s \<and> Tick s = t)
     \<and> finite (Mapping.keys (Snaps ss)) \<and> MinMaxSnaps \<le> MaxSnaps ss"

lemma lookup_purge_below [simp]:
  "Mapping.lookup (purge_below l m) t = (if t < l then None else Mapping.lookup m t)"
  by (simp add: purge_below_def lookup_filter split: option.splits)

lemma keys_purge_below [simp]: "Mapping.keys (purge_below l m) = Mapping.keys m - {..<l}"
  by (auto simp: keys_dom_lookup split: if_splits)

lemma ProcessSnap_Inr:
  assumes "ProcessSnap L tick deltaTick d (ss, df) = (Inr snap, (ss', df'))"
  obtains base s2 where "applyDelta L base tick d (ItemSizeFn ss) df = (Inr snap, df')"
    and "base = (case (if deltaTick \<ge> 0 then Mapping.lookup (Snaps ss) (tick - deltaTick) else None) of
          None \<Rightarrow> \<lparr>Tick = tick - deltaTick, Items = []\<rparr> | Some b \<Rightarrow> b)"
    and "s2 = (if deltaTick \<ge> 0 then purge_below (tick - deltaTick) (Mapping.update tick snap (Snaps ss))
          else Mapping.update tick snap (Snaps ss))"
    and "ss' = ss\<lparr>LastTick := tick, Snaps :=
          (if int (Mapping.size s2) > MaxSnaps ss then purge_below (tick - MaxSnaps ss) s2 else s2)\<rparr>"
  using assms by (auto simp: ProcessSnap_def Let_def split: prod.splits sum.splits)

lemma wf_snapshot_base:
  "wf_storage ss \<Longrightarrow> wf_snapshot (case (if deltaTick \<ge> 0 then Mapping.lookup (Snaps ss) bt else None) of
     None \<Rightarrow> \<lparr>Tick = bt, Items = []\<rparr> | Some b \<Rightarrow> b)"
  by (auto simp: wf_storage_def wf_snapshot_def distinct_keys_def split: option.splits if_splits)

lemma ProcessSnap_wf:
  assumes "wf_storage ss" and "ProcessSnap L tick deltaTick d (ss, df) = (Inr snap, (ss', df'))"
  shows "wf_storage ss'"
proof -
  from assms(2) obtain base s2 where
    ap: "applyDelta L base tick d (ItemSizeFn ss) df = (Inr snap, df')"
    and base: "base = (case (if deltaTick \<ge> 0 then Mapping.lookup (Snaps ss) (tick - deltaTick) else None) of
          None \<Rightarrow> \<lparr>Tick = tick - deltaTick, Items = []\<rparr> | Some b \<Rightarrow> b)"
    and s2: "s2 = (if deltaTick \<ge> 0 then purge_below (tick - deltaTick) (Mapping.update tick snap (Snaps ss))
          else Mapping.update tick snap (Snaps ss))"
    and ss': "ss' = ss\<lparr>LastTick := tick, Snaps :=
          (if int (Mapping.size s2) > MaxSnaps ss then purge_below (tick - MaxSnaps ss) s2 else s2)\<rparr>"
    by (rule ProcessSnap_Inr)
  have "wf_snapshot snap \<and> Tick snap = tick"
    by (intro applyDelta_wf [OF _ ap]) (unfold base, rule wf_snapshot_base [OF assms(1)])
  with assms(1) show ?thesis
    by (auto simp: wf_storage_def ss' s2 lookup_update' split: if_splits)
qed

lemma card_int_interval_bound: "S \<subseteq> {a..b} \<Longrightarrow> int (card S) \<le> max 0 (b - a + 1)" for a :: int
  using card_mono [of "{a..b}" S] by auto

section \<open>Properties\<close>

text \<open>
  C35: Applying a completely encoded delta to a base snapshot gives, whatever the pooled
  buffers held before, exactly the snapshot the delta describes: deleted items are gone, the
  fields of every updated item are the base fields (0 where missing) plus the deltas, all other
  items are carried over.
\<close>

theorem applyDelta_correct:
  assumes "varint_contract L" and "wf_snapshot base" and "wf_delta sz dels ups"
  shows "\<exists>snap df'. applyDelta L base tick (encode_delta L sz dels ups) sz df = (Inr snap, df')
    \<and> Tick snap = tick \<and> snap_map (Items snap) = apply_spec (snap_map (Items base)) dels ups"
  using assms by (rule varint_contract.applyDelta_encoded)

theorem applyDelta_correct_witness:
  "\<exists>snap df'. applyDelta wire_lib \<lparr>Tick = 4, Items = [\<lparr>TypeID = 1, ID = 2, Fields = [10, 20]\<rparr>]\<rparr> 6
      (encode_delta wire_lib None [] [\<lparr>ui_type = 1, ui_id = 2, ui_delta = [5, - 3]\<rparr>]) None []
      = (Inr snap, df')
    \<and> Tick snap = 6 \<and> snap_map (Items snap) (1, 2) = Some [15, 17]"
proof -
  let ?b = "\<lparr>Tick = 4, Items = [\<lparr>TypeID = 1, ID = 2, Fields = [10, 20]\<rparr>]\<rparr>"
  let ?u = "\<lparr>ui_type = 1, ui_id = 2, ui_delta = [5, - 3]\<rparr>"
  have "wf_snapshot ?b" by (simp add: wf_snapshot_def distinct_keys_def)
  moreover have "wf_delta None [] [?u]"
    by (simp add: wf_delta_def wf_upd_def in_s32_def known_size_def)
  moreover have "apply_spec (snap_map (Items ?b)) [] [?u] (1, 2) = Some [15, 17]"
    by (simp add: apply_spec_def upd_fields_def snap_map_def item_key_def absolute_def s64_def
        upt_rec)
  ultimately show ?thesis
    using applyDelta_correct [OF wire.varint_contract_axioms, of ?b None "[]" "[?u]" 6 "[]"]
    by metis
qed

text \<open>
  Whatever bytes a server sends, a successful \<open>ProcessSnap\<close> keeps the storage well
  formed: every stored snapshot has at most one item per (type, id) and is filed under its own
  tick, the new one included.
\<close>

theorem ProcessSnap_keeps_storage:
  assumes "wf_storage ss" and "ProcessSnap L tick deltaTick d (ss, df) = (Inr snap, (ss', df'))"
  shows "wf_storage ss' \<and> Mapping.lookup (Snaps ss') tick = Some snap \<and> LastTick ss' = tick"
proof -
  have "Mapping.lookup (Snaps ss') tick = Some snap \<and> LastTick ss' = tick"
    using assms
    by (auto simp: ProcessSnap_def wf_storage_def MinMaxSnaps_def lookup_update' Let_def
        split: prod.splits sum.splits)
  with ProcessSnap_wf [OF assms] show ?thesis by simp
qed

definition fresh_storage :: snap_storage where
  "fresh_storage = NewSnapStorage None [Some (WithMaxSnaps 4), None]"

theorem ProcessSnap_keeps_storage_witness:
  "wf_storage (fst (snd (ProcessSnap wire_lib 10 (- 1) [] (fresh_storage, []))))"
proof -
  let ?s = "\<lparr>Tick = 10, Items = []\<rparr>"
  have run: "ProcessSnap wire_lib 10 (- 1) [] (fresh_storage, []) =
      (Inr ?s, (fresh_storage\<lparr>Snaps := Mapping.update 10 ?s Mapping.empty, LastTick := 10\<rparr>, []))"
    by (simp add: ProcessSnap_def applyDelta_def fresh_storage_def NewSnapStorage_def
        WithMaxSnaps_def MinMaxSnaps_def DefaultMaxSnaps_def Mapping.size_def Let_def)
  have wf: "wf_storage fresh_storage"
    by (simp add: wf_storage_def fresh_storage_def NewSnapStorage_def WithMaxSnaps_def
        MinMaxSnaps_def DefaultMaxSnaps_def)
  from ProcessSnap_keeps_storage [OF wf run] show ?thesis by (simp add: run)
qed

text \<open>
  C37: While the ticks a server sends do not go backwards, the storage never holds more than
  \<open>MaxSnaps + 1\<close> snapshots, and after a delta snapshot nothing older than its base.
\<close>

theorem snapshot_retention:
  assumes "wf_storage ss" and "\<forall>t \<in> Mapping.keys (Snaps ss). t \<le> tick"
    and "ProcessSnap L tick deltaTick d (ss, df) = (Inr snap, (ss', df'))"
    and "int (Mapping.size (Snaps ss)) \<le> MaxSnaps ss + 1"
  shows "int (Mapping.size (Snaps ss')) \<le> MaxSnaps ss' + 1
    \<and> (deltaTick \<ge> 0 \<longrightarrow> (\<forall>t \<in> Mapping.keys (Snaps ss'). tick - deltaTick \<le> t))"
proof -
  from assms(3) obtain s2 where
    s2: "s2 = (if deltaTick \<ge> 0 then purge_below (tick - deltaTick) (Mapping.update tick snap (Snaps ss))
          else Mapping.update tick snap (Snaps ss))"
    and ss': "ss' = ss\<lparr>LastTick := tick, Snaps :=
          (if int (Mapping.size s2) > MaxSnaps ss then purge_below (tick - MaxSnaps ss) s2 else s2)\<rparr>"
    by (rule ProcessSnap_Inr)
  have le: "Mapping.keys s2 \<subseteq> {..tick}" using assms(2) by (auto simp: s2 keys_purge_below split: if_splits)
  have "int (Mapping.size (Snaps ss')) \<le> MaxSnaps ss + 1"
  proof (cases "int (Mapping.size s2) > MaxSnaps ss")
    case True
    then have "Mapping.keys (Snaps ss') \<subseteq> {tick - MaxSnaps ss..tick}"
      using le by (auto simp: ss' keys_purge_below)
    from card_int_interval_bound [OF this] assms(1) show ?thesis
      by (simp add: wf_storage_def MinMaxSnaps_def Mapping.size_def)
  next
    case False
    then show ?thesis by (simp add: ss')
  qed
  moreover have "deltaTick \<ge> 0 \<Longrightarrow> t \<in> Mapping.keys (Snaps ss') \<Longrightarrow> tick - deltaTick \<le> t" for t
    by (auto simp: ss' s2 keys_purge_below split: if_splits)
  ultimately show ?thesis by (simp add: ss')
qed

theorem snapshot_retention_witness:
  "Mapping.size (Snaps (fst (snd (ProcessSnap wire_lib 10 4 [] (fresh_storage, []))))) \<le> 5"
proof -
  let ?s = "\<lparr>Tick = 10, Items = []\<rparr>"
  have one: "card ({10 :: int} - {..<6}) \<le> 1"
    using card_mono [of "{10 :: int}" "{10} - {..<6}"] by simp
  have run: "ProcessSnap wire_lib 10 4 [] (fresh_storage, []) =
      (Inr ?s, (fresh_storage\<lparr>Snaps := purge_below 6 (Mapping.update 10 ?s Mapping.empty),
        LastTick := 10\<rparr>, []))"
    using one by (simp add: ProcessSnap_def applyDelta_def fresh_storage_def NewSnapStorage_def
        WithMaxSnaps_def MinMaxSnaps_def DefaultMaxSnaps_def Mapping.size_def Let_def)
  have wf: "wf_storage fresh_storage" "Mapping.keys (Snaps fresh_storage) = {}" "MaxSnaps fresh_storage = 4"
    by (simp_all add: wf_storage_def fresh_storage_def NewSnapStorage_def WithMaxSnaps_def
        MinMaxSnaps_def DefaultMaxSnaps_def)
  from snapshot_retention [OF wf(1) _ run] wf show ?thesis by (simp add: run Mapping.size_def)
qed

text \<open>
  A delta that ends in the middle of an item's fields is accepted, and the missing deltas
  are whatever a previous decode left in the pooled buffer: the same bytes against the same base
  give different snapshots.
\<close>

theorem truncated_delta_reads_stale_buffer:
  "fst (applyDelta wire_lib \<lparr>Tick = 0, Items = []\<rparr> 1 [0, 1, 0, 5, 7, 2] None [0, 0]) =
     Inr \<lparr>Tick = 1, Items = [\<lparr>TypeID = 5, ID = 7, Fields = [0, 0]\<rparr>]\<rparr>
   \<and> fst (applyDelta wire_lib \<lparr>Tick = 0, Items = []\<rparr> 1 [0, 1, 0, 5, 7, 2] None [41, 42]) =
     Inr \<lparr>Tick = 1, Items = [\<lparr>TypeID = 5, ID = 7, Fields = [41, 42]\<rparr>]\<rparr>"
  by code_simp

text \<open>
  An updated item of a type without a known size whose announced field count is negative
  makes the decoder slice with a negative length: a snapshot of six bytes is enough to panic.
\<close>

theorem negative_field_count_panics:
  "fst (ProcessSnap wire_lib 1 (- 1) [0, 1, 0, 5, 7, 64] (fresh_storage, [])) =
    Inl (Panic ''slice bounds out of range'')"
  by code_simp

end
