(* ===== verification/Teehistorian.thy ===== *)
theory Teehistorian
  imports Stream Input
begin

text \<open>
  record/teehistorian: the in-memory parser and writer (teehistorian.go), the streaming
  decoder and encoder (stream.go) and the tick replay (ticks.go).

  Parameters: the varint codec \<open>L\<close>, \<open>md5\<close> (crypto/md5, used for the file magic), \<open>view\<close>
  (json.Unmarshal into the typed header fields, which the code calls best effort: its result
  is carried along and never consulted) and the writers. Counts and sizes read from a file
  are 32-bit, so a Go \<open>int\<close> sum over the records of a file is modelled by \<open>int\<close>.
\<close>

section \<open>Files and records\<close>

type_synonym md5 = "byte list \<Rightarrow> byte list"

definition Magic :: "md5 \<Rightarrow> byte list" where
  "Magic md5 = CalculateUUID md5 (bytes_of ''teehistorian@ddnet.tw'')"

definition MarkerFinish :: int where "MarkerFinish = 1"
definition MarkerTickSkip :: int where "MarkerTickSkip = 2"
definition MarkerPlayerNew :: int where "MarkerPlayerNew = 3"
definition MarkerPlayerOld :: int where "MarkerPlayerOld = 4"
definition MarkerInputDiff :: int where "MarkerInputDiff = 5"
definition MarkerInputNew :: int where "MarkerInputNew = 6"
definition MarkerMessage :: int where "MarkerMessage = 7"
definition MarkerJoin :: int where "MarkerJoin = 8"
definition MarkerDrop :: int where "MarkerDrop = 9"
definition MarkerConsoleCommand :: int where "MarkerConsoleCommand = 10"
definition MarkerEx :: int where "MarkerEx = 11"

lemmas marker_defs = MarkerFinish_def MarkerTickSkip_def MarkerPlayerNew_def MarkerPlayerOld_def
  MarkerInputDiff_def MarkerInputNew_def MarkerMessage_def MarkerJoin_def MarkerDrop_def
  MarkerConsoleCommand_def MarkerEx_def

record 'v header =
  hraw :: "byte list"
  hview :: 'v

datatype trecord =
    TickSkip int
  | PlayerNew int int int
  | PlayerOld int
  | PlayerDiff int int int
  | InputNew int player_input
  | InputDiff int player_input
  | Message int "byte list"
  | Join int
  | Drop int "byte list"
  | ConsoleCommand int int "byte list" "byte list list"
  | Ex "byte list" "byte list"
  | Finish

record 'v tfile =
  Header :: "'v header"
  Records :: "trecord list"
  source :: "byte list"

section \<open>Parsing\<close>

definition nextInts :: "varint_lib \<Rightarrow> nat \<Rightarrow> (unpacker, int list) gost" where
  "nextInts L n = for_range 0 n (\<lambda>_. NextInt L)"

text \<open>\<open>make([]string, num)\<close> panics for a negative length.\<close>

definition make_slice :: "int \<Rightarrow> ('s, nat) gost" where
  "make_slice num =
     (if num < 0 then fail (Panic ''makeslice: len out of range'') else ret (nat num))"

definition readRecord :: "varint_lib \<Rightarrow> int \<Rightarrow> (unpacker, trecord) gost" where
  "readRecord L n =
     (if n \<ge> 0 then
        bnd (wrapped ''teehistorian: player_diff'' [] (nextInts L 2)) (\<lambda>v.
        ret (PlayerDiff n (v ! 0) (v ! 1)))
      else if - n = MarkerFinish then ret Finish
      else if - n = MarkerTickSkip then
        bnd (wrapped ''teehistorian: tick_skip'' [] (NextInt L)) (\<lambda>dt. ret (TickSkip dt))
      else if - n = MarkerPlayerNew then
        bnd (wrapped ''teehistorian: player_new'' [] (nextInts L 3)) (\<lambda>v.
        ret (PlayerNew (v ! 0) (v ! 1) (v ! 2)))
      else if - n = MarkerPlayerOld then
        bnd (wrapped ''teehistorian: player_old'' [] (NextInt L)) (\<lambda>cid. ret (PlayerOld cid))
      else if - n = MarkerInputDiff \<or> - n = MarkerInputNew then
        bnd (wrapped ''teehistorian: input cid'' [] (NextInt L)) (\<lambda>cid.
        bnd (wrapped ''teehistorian: input body'' [] (nextInts L InputFields)) (\<lambda>arr.
        let pi = UnsafePlayerInputFromRaw arr in
        if - n = MarkerInputNew then ret (InputNew cid pi) else ret (InputDiff cid pi)))
      else if - n = MarkerMessage then
        bnd (wrapped ''teehistorian: message head'' [] (nextInts L 2)) (\<lambda>head.
        bnd (wrapped ''teehistorian: message body'' [] (NextRaw (head ! 1))) (\<lambda>raw.
        ret (Message (head ! 0) raw)))
      else if - n = MarkerJoin then
        bnd (wrapped ''teehistorian: join'' [] (NextInt L)) (\<lambda>cid. ret (Join cid))
      else if - n = MarkerDrop then
        bnd (wrapped ''teehistorian: drop cid'' [] (NextInt L)) (\<lambda>cid.
        bnd (wrapped ''teehistorian: drop reason'' [] (NextStringSanitized 0)) (\<lambda>reason.
        ret (Drop cid reason)))
      else if - n = MarkerConsoleCommand then
        bnd (wrapped ''teehistorian: ccmd head'' [] (nextInts L 2)) (\<lambda>head.
        bnd (wrapped ''teehistorian: ccmd cmd'' [] (NextStringSanitized 0)) (\<lambda>cmd.
        bnd (wrapped ''teehistorian: ccmd numargs'' [] (NextInt L)) (\<lambda>num.
        bnd (make_slice num) (\<lambda>k.
        bnd (for_range 0 k (\<lambda>i.
          wrapped ''teehistorian: ccmd arg %d'' [int i] (NextStringSanitized 0))) (\<lambda>args.
        ret (ConsoleCommand (head ! 0) (head ! 1) cmd args))))))
      else if - n = MarkerEx then
        bnd (wrapped ''teehistorian: ex uuid'' [] (NextRaw 16)) (\<lambda>raw.
        bnd (wrapped ''teehistorian: ex size'' [] (NextInt L)) (\<lambda>sz.
        bnd (wrapped ''teehistorian: ex data'' [] (NextRaw sz)) (\<lambda>dat.
        ret (Ex (pad_field 16 raw) dat))))
      else fail (Err ''teehistorian: unknown marker %d'' [- n]))"

lemma nextInts_fwd [mono_intros]: "keeps ufwd (nextInts L n)"
  unfolding nextInts_def by (intro keeps_for_range mono_intros) simp_all

lemma make_slice_fwd [mono_intros]: "keeps ufwd (make_slice n)"
  by (simp add: make_slice_def mono_intros)

lemma args_fwd [mono_intros]:
  "keeps ufwd (for_range 0 k (\<lambda>i. wrapped m [int i] (NextStringSanitized 0)))"
  by (intro keeps_for_range mono_intros) simp_all

lemma readRecord_fwd [mono_intros]: "keeps ufwd (readRecord L n)"
  unfolding readRecord_def Let_def by (intro mono_intros)

function parseBody :: "varint_lib \<Rightarrow> (unpacker, trecord list) gost" where
  "parseBody L u =
     (if RemainingSize u > 0 then
        (case bnd (wrapped ''teehistorian: read marker'' [] (NextInt L)) (readRecord L) u of
           (Inl e, u') \<Rightarrow> (Inl e, u')
         | (Inr rec, u') \<Rightarrow>
             if rec = Finish then (Inr [rec], u')
             else bnd (parseBody L) (\<lambda>rs. ret (rec # rs)) u')
      else (Inr [], u))"
  by auto
termination
proof (relation "measure (\<lambda>(L, u). length (udata u) - uidx u)", goal_cases)
  case 1
  show ?case by simp
next
  case (2 L u r u' rec)
  then have "bnd (wrapped ''teehistorian: read marker'' [] (NextInt L)) (readRecord L) u =
      (Inr rec, u')"
    by simp
  then obtain n t where n: "NextInt L u = (Inr n, t)" and r: "readRecord L n t = (Inr rec, u')"
    by (auto simp: bnd_eq_Inr wrapped_Inr_iff)
  from keepsD [OF readRecord_fwd r] NextInt_progress [OF n] show ?case
    by (auto simp: ufwd_def)
qed

declare parseBody.simps [simp del]

definition Parse :: "md5 \<Rightarrow> varint_lib \<Rightarrow> (byte list \<Rightarrow> 'v) \<Rightarrow> byte list \<Rightarrow> goerr + 'v tfile" where
  "Parse md5 L view d =
     (if length d < length (Magic md5) then Inl (Err ''teehistorian: too short for magic'' [])
      else if take (length (Magic md5)) d \<noteq> Magic md5 then
        Inl (Err ''teehistorian: bad magic'' [])
      else case cut_nul (drop (length (Magic md5)) d) of
        None \<Rightarrow> Inl (Err ''teehistorian: unterminated JSON header'' [])
      | Some (before, after) \<Rightarrow>
          (case parseBody L (NewUnpacker after) of
             (Inl e, _) \<Rightarrow> Inl e
           | (Inr rs, _) \<Rightarrow>
               Inr \<lparr>Header = \<lparr>hraw = before, hview = view before\<rparr>, Records = rs, source = d\<rparr>))"

section \<open>Writing\<close>

definition appendMarker :: "varint_lib \<Rightarrow> byte list \<Rightarrow> int \<Rightarrow> byte list" where
  "appendMarker L b m = AppendInt L b (- m)"

definition appendInput :: "varint_lib \<Rightarrow> byte list \<Rightarrow> player_input \<Rightarrow> byte list" where
  "appendInput L b inp = foldl (AppendInt L) b (Raw inp)"

fun writeRecord :: "varint_lib \<Rightarrow> byte list \<Rightarrow> trecord \<Rightarrow> byte list" where
  "writeRecord L b (PlayerDiff cid dx dy) =
     AppendInt L (AppendInt L (AppendInt L b cid) dx) dy"
| "writeRecord L b (TickSkip dt) = AppendInt L (appendMarker L b MarkerTickSkip) dt"
| "writeRecord L b (PlayerNew cid x y) =
     AppendInt L (AppendInt L (AppendInt L (appendMarker L b MarkerPlayerNew) cid) x) y"
| "writeRecord L b (PlayerOld cid) = AppendInt L (appendMarker L b MarkerPlayerOld) cid"
| "writeRecord L b (InputNew cid inp) =
     appendInput L (AppendInt L (appendMarker L b MarkerInputNew) cid) inp"
| "writeRecord L b (InputDiff cid diff) =
     appendInput L (AppendInt L (appendMarker L b MarkerInputDiff) cid) diff"
| "writeRecord L b (Message cid msg) =
     AppendInt L (AppendInt L (appendMarker L b MarkerMessage) cid) (int (length msg)) @ msg"
| "writeRecord L b (Join cid) = AppendInt L (appendMarker L b MarkerJoin) cid"
| "writeRecord L b (Drop cid reason) =
     AppendStr (AppendInt L (appendMarker L b MarkerDrop) cid) reason"
| "writeRecord L b (ConsoleCommand cid flag_mask cmd args) =
     foldl AppendStr
       (AppendInt L
         (AppendStr (AppendInt L (AppendInt L (appendMarker L b MarkerConsoleCommand) cid)
            flag_mask) cmd)
         (int (length args)))
       args"
| "writeRecord L b (Ex uuid dat) =
     AppendInt L (appendMarker L b MarkerEx @ uuid) (int (length dat)) @ dat"
| "writeRecord L b Finish = appendMarker L b MarkerFinish"

definition file_bytes :: "md5 \<Rightarrow> varint_lib \<Rightarrow> 'v tfile \<Rightarrow> byte list" where
  "file_bytes md5 L f =
     foldl (writeRecord L) ((([] @ Magic md5) @ hraw (Header f)) @ [0]) (Records f)"

definition WriteTo :: "md5 \<Rightarrow> varint_lib \<Rightarrow> 'w writer \<Rightarrow> 'v tfile \<Rightarrow> ('w, int) gost" where
  "WriteTo md5 L W f = W (file_bytes md5 L f)"

section \<open>The streaming decoder and encoder\<close>

record 'v decoder =
  dr :: "byte list"
  dhdr :: "'v header"
  ddone :: bool

text \<open>Reading through the receiver: \<open>d.r\<close> is the only field a read changes.\<close>

definition on_r :: "(byte list, 'a) gost \<Rightarrow> ('v decoder, 'a) gost" where
  "on_r m d = (case m (dr d) of (r, bs) \<Rightarrow> (r, d\<lparr>dr := bs\<rparr>))"

definition NewDecoder :: "md5 \<Rightarrow> (byte list \<Rightarrow> 'v) \<Rightarrow> byte list \<Rightarrow> goerr + 'v decoder" where
  "NewDecoder md5 view bs =
     (case bnd (wrapped ''teehistorian: read magic'' [] (ReadFull 16)) (\<lambda>magic.
        if magic \<noteq> Magic md5 then fail (Err ''teehistorian: bad magic'' [])
        else wrapped ''teehistorian: read header'' [] ReadBytes0) bs of
        (Inl e, _) \<Rightarrow> Inl e
      | (Inr hdr, bs') \<Rightarrow>
          (let hdr_json = take (length hdr - 1) hdr in
           Inr \<lparr>dr = bs', dhdr = \<lparr>hraw = hdr_json, hview = view hdr_json\<rparr>, ddone = False\<rparr>))"

definition readInt2 :: "(byte list, int \<times> int) gost" where
  "readInt2 = bnd readVarint (\<lambda>a. bnd readVarint (\<lambda>b. ret (a, b)))"

definition readRaw :: "int \<Rightarrow> (byte list, byte list) gost" where
  "readRaw sz =
     (if sz < 0 then fail (Err ''teehistorian: negative length %d'' [sz])
      else if sz = 0 then ret []
      else ReadFull (nat sz))"

definition readString :: "(byte list, byte list) gost" where
  "readString = bnd ReadBytes0 (\<lambda>raw. ret (take (length raw - 1) raw))"

definition decodeRecord :: "int \<Rightarrow> (byte list, trecord) gost" where
  "decodeRecord n =
     (if n \<ge> 0 then
        bnd (wrapped ''teehistorian: player_diff'' [] readInt2) (\<lambda>(dx, dy).
        ret (PlayerDiff n dx dy))
      else if - n = MarkerFinish then ret Finish
      else if - n = MarkerTickSkip then
        bnd (wrapped ''teehistorian: tick_skip'' [] readVarint) (\<lambda>dt. ret (TickSkip dt))
      else if - n = MarkerPlayerNew then
        bnd (wrapped ''teehistorian: player_new'' [] readVarint) (\<lambda>cid.
        bnd (wrapped ''teehistorian: player_new'' [] readInt2) (\<lambda>(x, y).
        ret (PlayerNew cid x y)))
      else if - n = MarkerPlayerOld then
        bnd (wrapped ''teehistorian: player_old'' [] readVarint) (\<lambda>cid. ret (PlayerOld cid))
      else if - n = MarkerInputDiff \<or> - n = MarkerInputNew then
        bnd (wrapped ''teehistorian: input cid'' [] readVarint) (\<lambda>cid.
        bnd (for_range 0 InputFields (\<lambda>_.
          wrapped ''teehistorian: input body'' [] readVarint)) (\<lambda>arr.
        let pi = UnsafePlayerInputFromRaw arr in
        if - n = MarkerInputNew then ret (InputNew cid pi) else ret (InputDiff cid pi)))
      else if - n = MarkerMessage then
        bnd (wrapped ''teehistorian: message head'' [] readInt2) (\<lambda>(cid, sz).
        bnd (wrapped ''teehistorian: message body'' [] (readRaw sz)) (\<lambda>msg.
        ret (Message cid msg)))
      else if - n = MarkerJoin then
        bnd (wrapped ''teehistorian: join'' [] readVarint) (\<lambda>cid. ret (Join cid))
      else if - n = MarkerDrop then
        bnd (wrapped ''teehistorian: drop cid'' [] readVarint) (\<lambda>cid.
        bnd (wrapped ''teehistorian: drop reason'' [] readString) (\<lambda>reason.
        ret (Drop cid reason)))
      else if - n = MarkerConsoleCommand then
        bnd (wrapped ''teehistorian: ccmd head'' [] readInt2) (\<lambda>(cid, flag_mask).
        bnd (wrapped ''teehistorian: ccmd cmd'' [] readString) (\<lambda>cmd.
        bnd (wrapped ''teehistorian: ccmd numargs'' [] readVarint) (\<lambda>num.
        bnd (make_slice num) (\<lambda>k.
        bnd (for_range 0 k (\<lambda>i.
          wrapped ''teehistorian: ccmd arg %d'' [int i] readString)) (\<lambda>args.
        ret (ConsoleCommand cid flag_mask cmd args))))))
      else if - n = MarkerEx then
        bnd (wrapped ''teehistorian: ex uuid'' [] (ReadFull 16)) (\<lambda>uuid.
        bnd (wrapped ''teehistorian: ex size'' [] readVarint) (\<lambda>sz.
        bnd (wrapped ''teehistorian: ex data'' [] (readRaw sz)) (\<lambda>dat.
        ret (Ex uuid dat))))
      else fail (Err ''teehistorian: unknown marker %d'' [- n]))"

definition Next :: "('v decoder, trecord) gost" where
  "Next d =
     (if ddone d then (Inl IoEOF, d)
      else case on_r readVarint d of
        (Inl e, d') \<Rightarrow>
          if is_eof e then (Inl IoEOF, d'\<lparr>ddone := True\<rparr>)
          else (Inl (wrap_err ''teehistorian: read marker'' [] e), d')
      | (Inr n, d') \<Rightarrow>
          (case on_r (decodeRecord n) d' of
             (Inl e, d'') \<Rightarrow> (Inl e, d'')
           | (Inr rec, d'') \<Rightarrow>
               (Inr rec, if rec = Finish then d''\<lparr>ddone := True\<rparr> else d'')))"

record 'w encoder =
  ew :: 'w
  ebuf :: "byte list"

definition NewEncoder :: "md5 \<Rightarrow> 'w writer \<Rightarrow> 'w \<Rightarrow> 'v header \<Rightarrow> goerr + 'w encoder" where
  "NewEncoder md5 W w h =
     (case W ((([] @ Magic md5) @ hraw h) @ [0]) w of
        (Inl e, w') \<Rightarrow> Inl e
      | (Inr _, w') \<Rightarrow> Inr \<lparr>ew = w', ebuf = []\<rparr>)"

definition Write :: "varint_lib \<Rightarrow> 'w writer \<Rightarrow> trecord \<Rightarrow> ('w encoder, unit) gost" where
  "Write L W rec enc =
     (let enc' = enc\<lparr>ebuf := writeRecord L [] rec\<rparr> in
      case W (ebuf enc') (ew enc') of
        (Inl e, w') \<Rightarrow> (Inl e, enc'\<lparr>ew := w'\<rparr>)
      | (Inr _, w') \<Rightarrow> (Inr (), enc'\<lparr>ew := w'\<rparr>))"

section \<open>What is written is read back\<close>

text \<open>
  The records that the format can carry: 32-bit integers, strings without NUL, a 16-byte UUID,
  and a client id that is not negative in a position difference (a negative leading integer is
  a marker).
\<close>

fun record_ok :: "trecord \<Rightarrow> bool" where
  "record_ok (PlayerDiff cid dx dy) \<longleftrightarrow> 0 \<le> cid \<and> in_s32 cid \<and> in_s32 dx \<and> in_s32 dy"
| "record_ok (TickSkip dt) \<longleftrightarrow> in_s32 dt"
| "record_ok (PlayerNew cid x y) \<longleftrightarrow> in_s32 cid \<and> in_s32 x \<and> in_s32 y"
| "record_ok (PlayerOld cid) \<longleftrightarrow> in_s32 cid"
| "record_ok (InputNew cid inp) \<longleftrightarrow> in_s32 cid \<and> list_all in_s32 (Raw inp)"
| "record_ok (InputDiff cid inp) \<longleftrightarrow> in_s32 cid \<and> list_all in_s32 (Raw inp)"
| "record_ok (Message cid msg) \<longleftrightarrow> in_s32 cid \<and> in_s32 (int (length msg))"
| "record_ok (Join cid) \<longleftrightarrow> in_s32 cid"
| "record_ok (Drop cid reason) \<longleftrightarrow> in_s32 cid \<and> 0 \<notin> set reason"
| "record_ok (ConsoleCommand cid flag_mask cmd args) \<longleftrightarrow>
     in_s32 cid \<and> in_s32 flag_mask \<and> 0 \<notin> set cmd \<and> in_s32 (int (length args)) \<and>
     list_all (\<lambda>a. 0 \<notin> set a) args"
| "record_ok (Ex uuid dat) \<longleftrightarrow> length uuid = 16 \<and> in_s32 (int (length dat))"
| "record_ok Finish \<longleftrightarrow> True"

text \<open>Reading stops after the first \<open>Finish\<close>.\<close>

fun until_finish :: "trecord list \<Rightarrow> trecord list" where
  "until_finish [] = []"
| "until_finish (r # rs) = (if r = Finish then [Finish] else r # until_finish rs)"

lemma length_Magic [simp]: "length (Magic md5) = 16"
  by (simp add: Magic_def CalculateUUID_def Let_def)

lemma foldl_AppendStr: "foldl AppendStr b xs = b @ concat (map (\<lambda>s. s @ [0]) xs)"
  by (induction xs arbitrary: b) (simp_all add: AppendStr_def)

lemma strings_at_pos [simp]:
  "list_all (\<lambda>a. 0 \<notin> set a) xs \<Longrightarrow>
   for_range i (length xs) (\<lambda>i. wrapped m [int i] (NextStringSanitized 0))
     (at_pos pre (concat (map (\<lambda>s. s @ [0]) xs) @ post)) =
   (Inr xs, at_pos (pre @ concat (map (\<lambda>s. s @ [0]) xs)) post)"
  by (induction xs arbitrary: i pre) simp_all

lemma make_slice_int [simp]: "make_slice (int n) s = (Inr n, s)"
  by (simp add: make_slice_def)

lemma in_s32_markers [simp]:
  "in_s32 1" "in_s32 0" "in_s32 (- 1)" "in_s32 (- 2)" "in_s32 (- 3)" "in_s32 (- 4)" "in_s32 (- 5)" "in_s32 (- 6)"
  "in_s32 (- 7)" "in_s32 (- 8)" "in_s32 (- 9)" "in_s32 (- 10)" "in_s32 (- 11)"
  by (simp_all add: in_s32_def)

context varint_contract begin

lemma foldl_AppendInt:
  "foldl (AppendInt L) b xs = b @ concat (map (\<lambda>v. encv L (clamp32 v)) xs)"
  by (induction xs arbitrary: b) (simp_all add: AppendInt_eq)

lemma concat_clamp:
  "list_all in_s32 xs \<Longrightarrow> concat (map (\<lambda>v. encv L (clamp32 v)) xs) = concat (map (encv L) xs)"
  by (induction xs) simp_all

lemma ints_at_pos:
  "list_all in_s32 xs \<Longrightarrow>
   for_range i (length xs) (\<lambda>_. NextInt L) (at_pos pre (concat (map (encv L) xs) @ post)) =
   (Inr xs, at_pos (pre @ concat (map (encv L) xs)) post)"
  by (induction xs arbitrary: i pre) simp_all

lemma nextInts_at_pos:
  "n = length xs \<Longrightarrow> list_all in_s32 xs \<Longrightarrow>
   nextInts L n (at_pos pre (concat (map (encv L) xs) @ post)) =
   (Inr xs, at_pos (pre @ concat (map (encv L) xs)) post)"
  by (simp add: nextInts_def ints_at_pos)

lemma nextInts_2 [simp]:
  "in_s32 a \<Longrightarrow> in_s32 b \<Longrightarrow> nextInts L 2 (at_pos pre (encv L a @ encv L b @ post)) =
   (Inr [a, b], at_pos (pre @ encv L a @ encv L b) post)"
  using nextInts_at_pos [of 2 "[a, b]"] by simp

lemma nextInts_3 [simp]:
  "in_s32 a \<Longrightarrow> in_s32 b \<Longrightarrow> in_s32 c \<Longrightarrow>
   nextInts L 3 (at_pos pre (encv L a @ encv L b @ encv L c @ post)) =
   (Inr [a, b, c], at_pos (pre @ encv L a @ encv L b @ encv L c) post)"
  using nextInts_at_pos [of 3 "[a, b, c]"] by simp

lemma nextInts_input [simp]:
  "list_all in_s32 (Raw p) \<Longrightarrow>
   nextInts L InputFields (at_pos pre (concat (map (encv L) (Raw p)) @ post)) =
   (Inr (Raw p), at_pos (pre @ concat (map (encv L) (Raw p))) post)"
  by (rule nextInts_at_pos) (simp_all add: InputFields_def)

lemma writeRecord_append: "writeRecord L b r = b @ writeRecord L [] r"
  by (cases r)
    (simp_all add: appendMarker_def appendInput_def AppendInt_eq AppendStr_def foldl_AppendStr
      foldl_AppendInt)

lemma foldl_writeRecord:
  "foldl (writeRecord L) b rs = b @ concat (map (writeRecord L []) rs)"
  by (induction rs arbitrary: b) (simp_all add: writeRecord_append [of "_ @ _"], metis append.assoc writeRecord_append)

lemma readRecord_writeRecord:
  "record_ok r \<Longrightarrow>
   bnd (wrapped m [] (NextInt L)) (readRecord L) (at_pos pre (writeRecord L [] r @ post)) =
   (Inr r, at_pos (pre @ writeRecord L [] r) post)"
  by (cases r)
    (simp_all add: appendMarker_def appendInput_def AppendInt_eq AppendStr_def foldl_AppendStr
      foldl_AppendInt concat_clamp readRecord_def marker_defs Let_def pad_field_def)

lemma writeRecord_nonempty: "writeRecord L [] r \<noteq> []"
  by (cases r)
    (simp_all add: appendMarker_def appendInput_def AppendInt_eq AppendStr_def foldl_AppendStr
      foldl_AppendInt encode_nonempty marker_defs)

lemma parseBody_written:
  "list_all record_ok rs \<Longrightarrow>
   fst (parseBody L (at_pos pre (concat (map (writeRecord L []) rs)))) = Inr (until_finish rs)"
proof (induction rs arbitrary: pre)
  case Nil
  show ?case by (subst parseBody.simps) simp
next
  case (Cons r rs)
  then have ok: "record_ok r" "list_all record_ok rs" by simp_all
  note step = readRecord_writeRecord [OF ok(1), of _ pre "concat (map (writeRecord L []) rs)"]
  have "fst (parseBody L (at_pos (pre @ writeRecord L [] r) (concat (map (writeRecord L []) rs)))) =
      Inr (until_finish rs)"
    by (rule Cons.IH [OF ok(2)])
  then obtain t where rec: "parseBody L (at_pos (pre @ writeRecord L [] r)
      (concat (map (writeRecord L []) rs))) = (Inr (until_finish rs), t)"
    by (metis prod.collapse)
  have "0 < int (length (writeRecord L [] r)) + int (length (concat (map (writeRecord L []) rs)))"
    using writeRecord_nonempty [of r] by (simp add: add_pos_nonneg)
  then have "parseBody L (at_pos pre (concat (map (writeRecord L []) (r # rs)))) =
      (if r = Finish then (Inr [r], at_pos (pre @ writeRecord L [] r) (concat (map (writeRecord L []) rs)))
       else (Inr (r # until_finish rs), t))"
    by (subst parseBody.simps) (simp add: step rec)
  then show ?case by simp
qed

lemma Parse_written:
  assumes "0 \<notin> set h" and "list_all record_ok rs"
  shows "Parse md5 L view (Magic md5 @ h @ [0] @ concat (map (writeRecord L []) rs)) =
    Inr \<lparr>Header = \<lparr>hraw = h, hview = view h\<rparr>, Records = until_finish rs,
         source = Magic md5 @ h @ [0] @ concat (map (writeRecord L []) rs)\<rparr>"
  using assms parseBody_written [OF assms(2), of "[]"]
  by (auto simp: Parse_def NewUnpacker_at_pos split: prod.splits)

end

section \<open>The streaming decoder agrees with the parser\<close>

text \<open>
  The client's loop over \<open>Next\<close>: the records up to the error \<open>io.EOF\<close> itself, or the first
  other error.
\<close>

lemma on_r_Inr: "on_r m d = (Inr x, d') \<longleftrightarrow> (\<exists>bs. m (dr d) = (Inr x, bs) \<and> d' = d\<lparr>dr := bs\<rparr>)"
  by (auto simp: on_r_def split: prod.splits)

lemma readInt2_sfwd [mono_intros]: "keeps sfwd readInt2"
  unfolding readInt2_def by (intro mono_intros)

lemma readRaw_sfwd [mono_intros]: "keeps sfwd (readRaw n)"
  by (simp add: readRaw_def mono_intros)

lemma readString_sfwd [mono_intros]: "keeps sfwd readString"
  unfolding readString_def by (intro mono_intros)

lemma make_slice_sfwd [mono_intros]: "keeps sfwd (make_slice n)"
  by (simp add: make_slice_def mono_intros)

lemma for_range_sfwd [mono_intros]:
  "(\<And>j. keeps sfwd (body j)) \<Longrightarrow> keeps sfwd (for_range i n body)"
  by (rule keeps_for_range) simp_all

lemma decodeRecord_sfwd: "keeps sfwd (decodeRecord n)"
  unfolding decodeRecord_def Let_def by (intro mono_intros)

lemma Next_shrinks:
  assumes "Next d = (Inr r, d')"
  shows "length (dr d') < length (dr d)"
proof -
  obtain n d1 where n: "on_r readVarint d = (Inr n, d1)"
    using assms by (auto simp: Next_def split: if_splits prod.splits sum.splits)
  obtain d2 where r: "on_r (decodeRecord n) d1 = (Inr r, d2)" and "dr d' = dr d2"
    using assms n by (auto simp: Next_def split: if_splits prod.splits sum.splits)
  with n readVarint_Inr_shrinks keepsD [OF decodeRecord_sfwd] show ?thesis
    by (fastforce simp: on_r_Inr sfwd_def)
qed

function decodeAll :: "'v decoder \<Rightarrow> goerr + trecord list" where
  "decodeAll d =
     (case Next d of
        (Inl e, d') \<Rightarrow> if e = IoEOF then Inr [] else Inl e
      | (Inr r, d') \<Rightarrow> (case decodeAll d' of Inl e \<Rightarrow> Inl e | Inr rs \<Rightarrow> Inr (r # rs)))"
  by auto
termination
  by (relation "measure (\<lambda>d. length (dr d))") (auto dest: Next_shrinks [OF sym])

declare decodeAll.simps [simp del]

lemma decodeAll_eof: "fst (Next d) = Inl IoEOF \<Longrightarrow> decodeAll d = Inr []"
  by (subst decodeAll.simps, cases "Next d") simp

text \<open>Every error of a record body is wrapped, so it is never \<open>io.EOF\<close> itself.\<close>

lemma decodeRecord_nbe: "not_bare_eof (decodeRecord n)"
  unfolding decodeRecord_def make_slice_def Let_def
  by (intro nbe_bnd nbe_wrapped nbe_ret nbe_fail nbe_for_range nbe_if nbe_case_prod) simp_all

lemma readRaw_eq: "readRaw sz = (if sz < 0 then fail (Err ''teehistorian: negative length %d'' [sz]) else ReadFull (nat sz))"
  by (rule ext) (simp add: readRaw_def ReadFull_def)

context varint_mirror begin

lemma sim_readRaw: "sim same_rest (NextRaw sz) (readRaw sz)"
proof (cases "sz < 0")
  case True
  then show ?thesis by (auto intro!: simI simp: NextRaw_def readRaw_def)
next
  case False
  with sim_NextRaw [of "nat sz"] show ?thesis by (simp add: readRaw_eq)
qed

lemma nextInts_2_eq: "nextInts L 2 = bnd (NextInt L) (\<lambda>a. bnd (NextInt L) (\<lambda>b. ret [a, b]))"
  by (rule ext) (simp add: nextInts_def numeral_eq_Suc bnd_def split: prod.splits sum.splits)

lemma nextInts_3_eq: "nextInts L 3 =
    bnd (NextInt L) (\<lambda>a. bnd (NextInt L) (\<lambda>b. bnd (NextInt L) (\<lambda>c. ret [a, b, c])))"
  by (rule ext) (simp add: nextInts_def numeral_eq_Suc bnd_def split: prod.splits sum.splits)

lemmas sim_rules = sim_bnd sim_wrapped sim_ret sim_fail sim_NextInt sim_readRaw sim_for_range
  sim_NextString [folded readString_def]

lemma sim_int2:
  assumes "\<And>a b. sim same_rest (f [a, b]) (g (a, b))"
  shows "sim same_rest (bnd (wrapped m x (nextInts L 2)) f) (bnd (wrapped m' x' readInt2) g)"
  unfolding nextInts_2_eq readInt2_def wrapped_bnd bnd_assoc
  by (intro sim_rules) (simp add: assms)

lemma sim_int3:
  assumes "\<And>a b c. sim same_rest (f [a, b, c]) (g a (b, c))"
  shows "sim same_rest (bnd (wrapped m x (nextInts L 3)) f)
    (bnd (wrapped m' x' readVarint) (\<lambda>a. bnd (wrapped m' x' readInt2) (g a)))"
  unfolding nextInts_3_eq readInt2_def wrapped_bnd bnd_assoc
  by (intro sim_rules) (simp add: assms)

lemma sim_input:
  "sim same_rest (wrapped m x (nextInts L k)) (for_range 0 k (\<lambda>_. wrapped m' x' readVarint))"
proof (rule simI)
  fix u bs
  assume "same_rest u bs"
  moreover have "sim same_rest (nextInts L k) (for_range 0 k (\<lambda>_. wrapped m' x' readVarint))"
  proof -
    have "sim same_rest (NextInt L) (wrapped m' x' readVarint)"
      using sim_NextInt by (auto intro!: simI elim!: same_outcome_cases dest!: simD)
    then show ?thesis unfolding nextInts_def by (rule sim_for_range)
  qed
  ultimately show "same_outcome same_rest (wrapped m x (nextInts L k) u)
      (for_range 0 k (\<lambda>_. wrapped m' x' readVarint) bs)"
    by (auto elim!: same_outcome_cases dest!: simD)
qed

lemma sim_make_slice: "sim same_rest (make_slice n) (make_slice n)"
  by (simp add: make_slice_def sim_ret sim_fail)

lemma sim_uuid:
  assumes "\<And>uuid. sim same_rest (f uuid) (g uuid)"
  shows "sim same_rest (bnd (wrapped m x (NextRaw 16)) (\<lambda>raw. f (pad_field 16 raw)))
    (bnd (wrapped m' x' (ReadFull 16)) g)"
proof (rule sim_bnd_ok)
  show "sim same_rest (wrapped m x (NextRaw 16)) (wrapped m' x' (ReadFull 16))"
    using sim_NextRaw [of 16] by (intro sim_wrapped) simp
  fix s raw s'
  assume "wrapped m x (NextRaw 16) s = (Inr raw, s')"
  then have "length raw = 16" by (auto simp: wrapped_Inr_iff NextRaw_def split: if_splits)
  then show "sim same_rest (f (pad_field 16 raw)) (g raw)"
    using assms by (simp add: pad_field_def)
qed

lemma sim_readRecord: "sim same_rest (readRecord L n) (decodeRecord n)"
  unfolding readRecord_def decodeRecord_def Let_def
  by (intro sim_if sim_int2 sim_int3 sim_input sim_make_slice sim_uuid sim_rules)
    (auto intro!: sim_rules sim_make_slice)

lemma decodeAll_parseBody:
  "same_rest u (dr d) \<Longrightarrow> \<not> ddone d \<Longrightarrow> same_result (fst (parseBody L u)) (decodeAll d)"
proof (induction "length (dr d)" arbitrary: u d rule: less_induct)
  case less
  let ?body = "bnd (wrapped ''teehistorian: read marker'' [] (NextInt L)) (readRecord L) u"
  from less.prems(1) obtain pre where u: "u = at_pos pre (dr d)" by (rule same_rest_obtain)
  show ?case
  proof (cases "dr d = []")
    case True
    then have "parseBody L u = (Inr [], u)" by (subst parseBody.simps) (simp add: u)
    moreover from True less.prems(2) have "fst (Next d) = Inl IoEOF"
      by (simp add: Next_def on_r_def)
    then have "decodeAll d = Inr []" by (rule decodeAll_eof)
    ultimately show ?thesis by simp
  next
    case False
    then have pos: "0 < RemainingSize u" by (simp add: u)
    from less.prems(1) sim_NextInt have "same_outcome same_rest (NextInt L u) (readVarint (dr d))"
      by (blast dest: simD)
    then show ?thesis
    proof (cases rule: same_outcome_cases)
      case (err e s e' t)
      then have "\<not> is_eof e'" using False readVarint_eof_iff by metis
      moreover have "wrap_err m [] e' \<noteq> IoEOF" for m by (cases e') auto
      ultimately have "decodeAll d = Inl (wrap_err ''teehistorian: read marker'' [] e')"
        using err less.prems(2) by (subst decodeAll.simps) (simp add: Next_def on_r_def)
      then show ?thesis using err pos by (subst parseBody.simps) simp
    next
      case (ok n u1 bs1)
      have "same_outcome same_rest (readRecord L n u1) (decodeRecord n bs1)"
        using sim_readRecord ok(3) by (rule simD)
      then show ?thesis
      proof (cases rule: same_outcome_cases)
        case (err e s e' t)
        have "e' \<noteq> IoEOF" using decodeRecord_nbe [of n] err(2) by (metis fst_conv not_bare_eof_def)
        then have "decodeAll d = Inl e'"
          using ok err less.prems(2) by (subst decodeAll.simps) (simp add: Next_def on_r_def)
        then show ?thesis using ok err pos by (subst parseBody.simps) simp
      next
        case (ok rec u2 bs2)
        define d2 where "d2 = (if rec = Finish then d\<lparr>dr := bs2, ddone := True\<rparr> else d\<lparr>dr := bs2\<rparr>)"
        have step: "Next d = (Inr rec, d2)"
          using ok \<open>readVarint (dr d) = (Inr n, bs1)\<close> less.prems(2)
          by (simp add: Next_def on_r_def d2_def)
        then have dec: "decodeAll d = (case decodeAll d2 of Inl e \<Rightarrow> Inl e | Inr rs \<Rightarrow> Inr (rec # rs))"
          by (subst decodeAll.simps) simp
        have par: "parseBody L u = (if rec = Finish then (Inr [rec], u2)
            else bnd (parseBody L) (\<lambda>rs. ret (rec # rs)) u2)"
          using ok \<open>NextInt L u = (Inr n, u1)\<close> pos by (subst parseBody.simps) simp
        show ?thesis
        proof (cases "rec = Finish")
          case True
          then have "decodeAll d2 = Inr []"
            by (intro decodeAll_eof) (simp add: Next_def d2_def)
          with True dec par show ?thesis by simp
        next
          case False
          have "same_result (fst (parseBody L u2)) (decodeAll d2)"
            using Next_shrinks [OF step] ok(3) False less.prems(2)
            by (intro less.hyps) (simp_all add: d2_def)
          with False dec par show ?thesis
            by (cases "fst (parseBody L u2)"; cases "decodeAll d2") (auto simp: bnd_def split: prod.splits)
        qed
      qed
    qed
  qed
qed

lemma streaming_file:
  "same_result (map_sum id (\<lambda>f. (Header f, Records f)) (Parse md5 L view d))
     (case NewDecoder md5 view d of
        Inl e \<Rightarrow> Inl e
      | Inr dec \<Rightarrow> (case decodeAll dec of Inl e \<Rightarrow> Inl e | Inr rs \<Rightarrow> Inr (dhdr dec, rs)))"
proof (cases "length d < 16 \<or> take 16 d \<noteq> Magic md5")
  case True
  then show ?thesis by (auto simp: Parse_def NewDecoder_def ReadFull_def bnd_def wrapped_def)
next
  case False
  show ?thesis
  proof (cases "cut_nul (drop 16 d)")
    case None
    with False show ?thesis
      by (simp add: Parse_def NewDecoder_def ReadFull_def ReadBytes0_def bnd_def wrapped_def)
  next
    case (Some p)
    obtain h b where p: "p = (h, b)" by fastforce
    let ?dec = "\<lparr>dr = b, dhdr = \<lparr>hraw = h, hview = view h\<rparr>, ddone = False\<rparr>"
    have new: "NewDecoder md5 view d = Inr ?dec"
      using False Some p by (simp add: NewDecoder_def ReadFull_def ReadBytes0_def bnd_def wrapped_def)
    have "same_result (fst (parseBody L (NewUnpacker b))) (decodeAll ?dec)"
      by (rule decodeAll_parseBody) (simp_all add: NewUnpacker_at_pos)
    then show ?thesis
      using False Some p new
      by (cases "fst (parseBody L (NewUnpacker b))"; cases "decodeAll ?dec")
        (auto simp: Parse_def split: prod.splits)
  qed
qed

end

section \<open>Every file that parses can be written and parsed again\<close>

lemma yields_NextRaw: "yields (NextRaw n) (\<lambda>x. int (length x) = n)"
  by (rule yieldsI) (auto simp: NextRaw_def split: if_splits)

lemma yields_NextString: "yields (NextStringSanitized 0) (\<lambda>s. 0 \<notin> set s)"
  by (rule yieldsI)
    (auto simp: NextStringSanitized_def Let_def has_flag_def split: if_splits option.splits
      dest!: cut_nul_SomeD)

lemma yields_make_slice: "yields (make_slice n) (\<lambda>k. int k = n)"
  by (rule yieldsI) (auto simp: make_slice_def split: if_splits)

context varint_contract begin

lemma yields_NextInt: "yields (NextInt L) in_s32"
  by (rule yieldsI) (rule NextInt_in_s32)

lemma yields_nextInts: "yields (nextInts L n) (\<lambda>v. length v = n \<and> list_all in_s32 v)"
  unfolding nextInts_def by (rule yields_for_range) (rule yields_NextInt)

lemmas yields_base =
  yields_bnd [OF yields_wrapped [OF yields_NextInt]]
  yields_bnd [OF yields_wrapped [OF yields_nextInts]]
  yields_bnd [OF yields_wrapped [OF yields_NextRaw]]
  yields_bnd [OF yields_wrapped [OF yields_NextString]]
  yields_bnd [OF yields_make_slice]
  yields_bnd [OF yields_for_range [OF yields_wrapped [OF yields_NextString]]]
  yields_if yields_ret yields_fail

lemma readRecord_ok: "in_s32 n \<Longrightarrow> yields (readRecord L n) record_ok"
  unfolding readRecord_def Let_def
  by (intro yields_base) (auto simp: list_all_length InputFields_def)

lemma parseBody_ok:
  "parseBody L u = (Inr rs, u') \<Longrightarrow> list_all record_ok rs \<and> until_finish rs = rs"
proof (induction "length (udata u) - uidx u" arbitrary: u rs rule: less_induct)
  case less
  show ?case
  proof (cases "RemainingSize u > 0")
    case False
    with less.prems show ?thesis by (subst (asm) parseBody.simps) simp
  next
    case True
    then obtain n u1 r u2 where n: "NextInt L u = (Inr n, u1)"
      and r: "readRecord L n u1 = (Inr r, u2)"
      and rs: "(if r = Finish then (Inr [r], u2) else bnd (parseBody L) (\<lambda>rs. ret (r # rs)) u2) =
        (Inr rs, u')"
      using less.prems
      by (subst (asm) parseBody.simps)
        (auto simp: bnd_eq_Inr wrapped_Inr_iff split: prod.splits sum.splits)
    have ok: "record_ok r"
      using yieldsD [OF readRecord_ok [OF NextInt_in_s32 [OF n]] r] .
    have "length (udata u2) - uidx u2 < length (udata u) - uidx u"
      using NextInt_progress [OF n] keepsD [OF readRecord_fwd r] by (auto simp: ufwd_def)
    with less.hyps [of u2] ok rs show ?thesis by (auto simp: bnd_eq_Inr split: if_splits)
  qed
qed

lemma Parse_Inr:
  assumes "Parse md5 L view d = Inr f"
  shows "hview (Header f) = view (hraw (Header f)) \<and> source f = d \<and> 0 \<notin> set (hraw (Header f)) \<and>
    list_all record_ok (Records f) \<and> until_finish (Records f) = Records f"
  using assms parseBody_ok
  by (fastforce simp: Parse_def split: if_splits option.splits prod.splits sum.splits
      dest: cut_nul_SomeD)

lemma file_bytes_eq:
  "file_bytes md5 L f =
     Magic md5 @ hraw (Header f) @ [0] @ concat (map (writeRecord L []) (Records f))"
  by (simp add: file_bytes_def foldl_writeRecord)

end

text \<open>\<open>make([]string, num)\<close> with a count of the file that is negative.\<close>

context varint_contract begin

lemma negative_count_record:
  assumes "in_s32 cid" "in_s32 flag_mask" "in_s32 num" "0 \<notin> set cmd" "num < 0"
  shows "fst (bnd (wrapped m [] (NextInt L)) (readRecord L)
      (at_pos pre (encv L (- MarkerConsoleCommand) @ encv L cid @ encv L flag_mask @
        (cmd @ [0]) @ encv L num))) = Inl (Panic ''makeslice: len out of range'')"
  using assms NextInt_at_pos [of num _ "[]"]
  by (simp add: readRecord_def marker_defs make_slice_def)

lemma negative_count_body:
  assumes "list_all record_ok rs" and "Finish \<notin> set rs"
    and "\<And>m pre. fst (bnd (wrapped m [] (NextInt L)) (readRecord L) (at_pos pre bad)) = Inl e"
    and "bad \<noteq> []"
  shows "fst (parseBody L (at_pos pre (concat (map (writeRecord L []) rs) @ bad))) = Inl e"
  using assms(1,2)
proof (induction rs arbitrary: pre)
  case Nil
  obtain u where "bnd (wrapped ''teehistorian: read marker'' [] (NextInt L)) (readRecord L)
      (at_pos pre bad) = (Inl e, u)"
    using assms(3) by (metis prod.collapse)
  with assms(4) show ?case by (subst parseBody.simps) simp
next
  case (Cons r rs)
  then have ok: "record_ok r" "list_all record_ok rs" "Finish \<notin> set rs" "r \<noteq> Finish" by auto
  note step = readRecord_writeRecord [OF ok(1), of _ pre "concat (map (writeRecord L []) rs) @ bad"]
  obtain t where rec: "parseBody L (at_pos (pre @ writeRecord L [] r)
      (concat (map (writeRecord L []) rs) @ bad)) = (Inl e, t)"
    using Cons.IH [OF ok(2,3)] by (metis prod.collapse)
  have "0 < int (length (writeRecord L [] r)) + x" if "0 \<le> x" for x
    using writeRecord_nonempty [of r] that by (simp add: add_pos_nonneg)
  then show ?case using ok(4) by (subst parseBody.simps) (simp add: step rec)
qed

end

section \<open>The streaming encoder\<close>

fun write_all :: "varint_lib \<Rightarrow> 'w writer \<Rightarrow> trecord list \<Rightarrow> ('w encoder, unit) gost" where
  "write_all L W [] enc = (Inr (), enc)"
| "write_all L W (r # rs) enc = bnd (Write L W r) (\<lambda>_. write_all L W rs) enc"

context sink begin

lemma Write_content:
  "\<exists>enc'. Write L W r enc = (Inr (), enc') \<and> content (ew enc') = content (ew enc) @ writeRecord L [] r"
  by (rule writeE [of "writeRecord L [] r" "ew enc"]) (simp add: Write_def)

lemma write_all_content:
  "\<exists>enc'. write_all L W rs enc = (Inr (), enc') \<and>
     content (ew enc') = content (ew enc) @ concat (map (writeRecord L []) rs)"
proof (induction rs arbitrary: enc)
  case Nil
  show ?case by simp
next
  case (Cons r rs)
  obtain e1 where 1: "Write L W r enc = (Inr (), e1)"
    "content (ew e1) = content (ew enc) @ writeRecord L [] r"
    using Write_content by blast
  with Cons [of e1] show ?case by auto
qed

lemma NewEncoder_content:
  "\<exists>enc. NewEncoder md5 W w h = Inr enc \<and> content (ew enc) = content w @ Magic md5 @ hraw h @ [0]"
  by (rule writeE [of "(([] @ Magic md5) @ hraw h) @ [0]" w]) (simp add: NewEncoder_def)

end

section \<open>Properties\<close>

text \<open>
  C33: Round trip of a teehistorian file. A file whose header has no NUL byte and whose records
  are representable, written by \<open>WriteTo\<close>, is read back by \<open>Parse\<close>: the same header and the
  same records up to and including the first \<open>Finish\<close>.
\<close>

theorem written_file_parses:
  assumes "varint_contract L" and "0 \<notin> set (hraw (Header f))" and "list_all record_ok (Records f)"
  shows "Parse md5 L view (file_bytes md5 L f) =
    Inr \<lparr>Header = \<lparr>hraw = hraw (Header f), hview = view (hraw (Header f))\<rparr>,
         Records = until_finish (Records f), source = file_bytes md5 L f\<rparr>"
  unfolding varint_contract.file_bytes_eq [OF assms(1)]
  by (rule varint_contract.Parse_written [OF assms])

definition sample_file :: "unit tfile" where
  "sample_file =
     \<lparr>Header = \<lparr>hraw = [123, 125], hview = ()\<rparr>,
      Records = [TickSkip 4, PlayerNew 0 (- 5) 70000, Message 3 [0, 1],
        ConsoleCommand 0 1 [104] [[105], []], Ex (replicate 16 9) [], Finish],
      source = []\<rparr>"

lemma sample_file_ok:
  "0 \<notin> set (hraw (Header sample_file))" "list_all record_ok (Records sample_file)"
  by (simp_all add: sample_file_def in_s32_def)

theorem written_file_parses_witness:
  "Parse (\<lambda>_. []) wire_lib (\<lambda>_. ()) (file_bytes (\<lambda>_. []) wire_lib sample_file) =
    Inr \<lparr>Header = \<lparr>hraw = hraw (Header sample_file), hview = ()\<rparr>,
         Records = until_finish (Records sample_file),
         source = file_bytes (\<lambda>_. []) wire_lib sample_file\<rparr>"
  by (rule written_file_parses [OF wire.varint_contract_axioms sample_file_ok])

text \<open>
  Rewriting is stable. Whatever bytes \<open>Parse\<close> accepts, canonically encoded or not, the
  parsed file written by \<open>WriteTo\<close> parses again to the same header and records.
\<close>

theorem rewrite_stable:
  assumes "varint_contract L" and "Parse md5 L view d = Inr f"
  shows "Parse md5 L view (file_bytes md5 L f) = Inr (f\<lparr>source := file_bytes md5 L f\<rparr>)"
proof -
  obtain h v rs src where f: "f = \<lparr>Header = \<lparr>hraw = h, hview = v\<rparr>, Records = rs, source = src\<rparr>"
    by (metis (full_types) header.cases tfile.cases)
  have "v = view h" "0 \<notin> set h" "list_all record_ok rs" "until_finish rs = rs"
    using varint_contract.Parse_Inr [OF assms] by (simp_all add: f)
  with varint_contract.Parse_written [OF assms(1), of h rs md5 view] show ?thesis
    unfolding varint_contract.file_bytes_eq [OF assms(1)] by (simp add: f)
qed

theorem rewrite_stable_witness:
  "Parse (\<lambda>_. []) wire_lib (\<lambda>_. ()) (file_bytes (\<lambda>_. []) wire_lib
      \<lparr>Header = \<lparr>hraw = [123], hview = ()\<rparr>, Records = [], source = Magic (\<lambda>_. []) @ [123, 0]\<rparr>) =
    Inr \<lparr>Header = \<lparr>hraw = [123], hview = ()\<rparr>, Records = [], source = Magic (\<lambda>_. []) @ [123, 0]\<rparr>"
proof -
  have "Parse (\<lambda>_. []) wire_lib (\<lambda>_. ()) (Magic (\<lambda>_. []) @ [123, 0]) =
      Inr \<lparr>Header = \<lparr>hraw = [123], hview = ()\<rparr>, Records = [], source = Magic (\<lambda>_. []) @ [123, 0]\<rparr>"
    by (simp add: Parse_def NewUnpacker_at_pos, subst parseBody.simps) simp
  from rewrite_stable [OF wire.varint_contract_axioms this] show ?thesis
    by (simp add: file_bytes_def)
qed

text \<open>
  C32: The streaming decoder agrees with the in-memory parser on every input: \<open>NewDecoder\<close> and
  the loop over \<open>Next\<close> until \<open>io.EOF\<close> give the header and records of \<open>Parse\<close>, or both fail
  (and panic on the same inputs).
\<close>

theorem streaming_equals_parse:
  assumes "varint_mirror L"
  shows "same_result (map_sum id (\<lambda>f. (Header f, Records f)) (Parse md5 L view d))
     (case NewDecoder md5 view d of
        Inl e \<Rightarrow> Inl e
      | Inr dec \<Rightarrow> (case decodeAll dec of Inl e \<Rightarrow> Inl e | Inr rs \<Rightarrow> Inr (dhdr dec, rs)))"
  using assms by (rule varint_mirror.streaming_file)

theorem streaming_equals_parse_witness:
  "same_result (map_sum id (\<lambda>f. (Header f, Records f))
       (Parse (\<lambda>_. []) wire_lib (\<lambda>_. ()) (file_bytes (\<lambda>_. []) wire_lib sample_file)))
     (case NewDecoder (\<lambda>_. []) (\<lambda>_. ()) (file_bytes (\<lambda>_. []) wire_lib sample_file) of
        Inl e \<Rightarrow> Inl e
      | Inr dec \<Rightarrow> (case decodeAll dec of Inl e \<Rightarrow> Inl e | Inr rs \<Rightarrow> Inr (dhdr dec, rs)))"
  by (rule streaming_equals_parse [OF wire.varint_mirror_axioms])

text \<open>
  The streaming encoder writes the same bytes as \<open>WriteTo\<close>: on a writer that appends,
  \<open>NewEncoder\<close> followed by one \<open>Write\<close> per record leaves the content that one \<open>WriteTo\<close>
  leaves.
\<close>

theorem encoder_equals_WriteTo:
  assumes "sink W content" and "varint_contract L"
  shows "\<exists>enc enc' w' n. NewEncoder md5 W w (Header f) = Inr enc
    \<and> write_all L W (Records f) enc = (Inr (), enc')
    \<and> WriteTo md5 L W f w = (Inr n, w') \<and> n = int (length (file_bytes md5 L f))
    \<and> content (ew enc') = content w' \<and> content w' = content w @ file_bytes md5 L f"
proof -
  obtain enc where enc: "NewEncoder md5 W w (Header f) = Inr enc"
    "content (ew enc) = content w @ Magic md5 @ hraw (Header f) @ [0]"
    using sink.NewEncoder_content [OF assms(1)] by blast
  obtain enc' where enc': "write_all L W (Records f) enc = (Inr (), enc')"
    "content (ew enc') = content (ew enc) @ concat (map (writeRecord L []) (Records f))"
    using sink.write_all_content [OF assms(1)] by blast
  obtain w' where "WriteTo md5 L W f w = (Inr (int (length (file_bytes md5 L f))), w')"
    "content w' = content w @ file_bytes md5 L f"
    unfolding WriteTo_def by (rule sink.writeE [OF assms(1)])
  with enc enc' show ?thesis by (simp add: varint_contract.file_bytes_eq [OF assms(2)])
qed

theorem encoder_equals_WriteTo_witness:
  "\<exists>enc enc' w' n. NewEncoder (\<lambda>_. []) buffer_write [] (Header sample_file) = Inr enc
    \<and> write_all wire_lib buffer_write (Records sample_file) enc = (Inr (), enc')
    \<and> WriteTo (\<lambda>_. []) wire_lib buffer_write sample_file [] = (Inr n, w')
    \<and> n = int (length (file_bytes (\<lambda>_. []) wire_lib sample_file))
    \<and> ew enc' = w' \<and> w' = [] @ file_bytes (\<lambda>_. []) wire_lib sample_file"
  by (rule encoder_equals_WriteTo [OF buffer.sink_axioms wire.varint_contract_axioms])

text \<open>
  A console command record with a negative argument count makes \<open>Parse\<close> panic, wherever it
  stands among representable records: the count is passed to \<open>make\<close> unchecked.
\<close>

theorem negative_argument_count_panics:
  assumes "varint_contract L" and "0 \<notin> set h" and "list_all record_ok rs" and "Finish \<notin> set rs"
    and "list_all in_s32 [cid, flag_mask, num]" and "0 \<notin> set cmd" and "num < 0"
  shows "Parse md5 L view (Magic md5 @ h @ [0] @ concat (map (writeRecord L []) rs) @
      encv L (- MarkerConsoleCommand) @ encv L cid @ encv L flag_mask @ (cmd @ [0]) @ encv L num) =
    Inl (Panic ''makeslice: len out of range'')"
proof -
  let ?bad = "encv L (- MarkerConsoleCommand) @ encv L cid @ encv L flag_mask @ (cmd @ [0]) @ encv L num"
  have "fst (parseBody L (at_pos [] (concat (map (writeRecord L []) rs) @ ?bad))) =
      Inl (Panic ''makeslice: len out of range'')"
    using assms
    by (intro varint_contract.negative_count_body varint_contract.negative_count_record) auto
  then show ?thesis
    using assms(2) by (auto simp: Parse_def NewUnpacker_at_pos split: prod.splits)
qed

theorem negative_argument_count_panics_witness:
  "Parse (\<lambda>_. []) wire_lib (\<lambda>_. ()) (Magic (\<lambda>_. []) @ [123] @ [0] @
      concat (map (writeRecord wire_lib []) [Join 2]) @ encv wire_lib (- MarkerConsoleCommand)
      @ encv wire_lib 0 @ encv wire_lib 1 @ ([104] @ [0]) @ encv wire_lib (- 1)) =
    Inl (Panic ''makeslice: len out of range'')"
  by (rule negative_argument_count_panics [OF wire.varint_contract_axioms])
    (simp_all add: in_s32_def)

end
