(* ===== verification/TeeTicks.thy ===== *)
theory TeeTicks
  imports Teehistorian
begin

text \<open>
  record/teehistorian/ticks.go: \<open>(*File).Ticks\<close> replays the records and calls \<open>yield\<close> once per
  game tick. The callback is a parameter over an accumulator of the caller; it answers whether
  to go on. The maps handed out are copies, so here simply values.

  The abstract description first gives every record its tick (\<open>stamp\<close>), then says what the
  world is at a tick: all records stamped up to it, applied in order (\<open>replayed\<close>).
\<close>

section \<open>The replay\<close>

record player_state =
  px :: int
  py :: int

type_synonym positions = "int \<rightharpoonup> player_state"
type_synonym inputs = "int \<rightharpoonup> player_input"
type_synonym 'a yield = "int \<Rightarrow> positions \<Rightarrow> inputs \<Rightarrow> 'a \<Rightarrow> bool \<times> 'a"

record 'a ticks =
  pos :: positions
  input :: inputs
  tick :: int
  lastCid :: int
  dirty :: bool
  acc :: 'a

definition emit :: "'a yield \<Rightarrow> 'a ticks \<Rightarrow> bool \<times> 'a ticks" where
  "emit yield st =
     (case yield (tick st) (pos st) (input st) (acc st) of (go, a) \<Rightarrow> (go, st\<lparr>acc := a\<rparr>))"

definition boundaryAt :: "'a yield \<Rightarrow> int \<Rightarrow> 'a ticks \<Rightarrow> bool \<times> 'a ticks" where
  "boundaryAt yield cid st =
     (if dirty st \<and> cid \<le> lastCid st then
        (case emit yield st of
           (False, st') \<Rightarrow> (False, st')
         | (True, st') \<Rightarrow>
             (True, st'\<lparr>tick := tick st' + 1, dirty := False\<rparr>\<lparr>lastCid := cid, dirty := True\<rparr>))
      else (True, st\<lparr>lastCid := cid, dirty := True\<rparr>))"

text \<open>A missing key of a Go map reads as the zero value.\<close>

definition pos_at :: "positions \<Rightarrow> int \<Rightarrow> player_state" where
  "pos_at m cid = (case m cid of None \<Rightarrow> \<lparr>px = 0, py = 0\<rparr> | Some p \<Rightarrow> p)"

definition input_at :: "inputs \<Rightarrow> int \<Rightarrow> player_input" where
  "input_at m cid = (case m cid of None \<Rightarrow> zero_input | Some i \<Rightarrow> i)"

definition add_diff :: "player_input \<Rightarrow> player_input \<Rightarrow> player_input" where
  "add_diff prev diff = UnsafePlayerInputFromRaw (map2 (+) (Raw prev) (Raw diff))"

fun tick_record :: "'a yield \<Rightarrow> trecord \<Rightarrow> 'a ticks \<Rightarrow> bool \<times> 'a ticks" where
  "tick_record yield (TickSkip dt) st =
     (case (if dirty st then emit yield st else (True, st)) of
        (False, st') \<Rightarrow> (False, st')
      | (True, st') \<Rightarrow> (True, st'\<lparr>tick := tick st' + (dt + 1), lastCid := - 1, dirty := False\<rparr>))"
| "tick_record yield (PlayerNew cid x y) st =
     (case boundaryAt yield cid st of
        (False, st') \<Rightarrow> (False, st')
      | (True, st') \<Rightarrow> (True, st'\<lparr>pos := (pos st')(cid \<mapsto> \<lparr>px = x, py = y\<rparr>)\<rparr>))"
| "tick_record yield (PlayerDiff cid dx dy) st =
     (case boundaryAt yield cid st of
        (False, st') \<Rightarrow> (False, st')
      | (True, st') \<Rightarrow>
          (let p = pos_at (pos st') cid in
           (True, st'\<lparr>pos := (pos st')(cid \<mapsto> \<lparr>px = px p + dx, py = py p + dy\<rparr>)\<rparr>)))"
| "tick_record yield (PlayerOld cid) st =
     (case boundaryAt yield cid st of
        (False, st') \<Rightarrow> (False, st')
      | (True, st') \<Rightarrow> (True, st'\<lparr>pos := (pos st')(cid := None)\<rparr>))"
| "tick_record yield (InputNew cid inp) st =
     (True, st\<lparr>input := (input st)(cid \<mapsto> inp), dirty := True\<rparr>)"
| "tick_record yield (InputDiff cid diff) st =
     (True, st\<lparr>input := (input st)(cid \<mapsto> add_diff (input_at (input st) cid) diff), dirty := True\<rparr>)"
| "tick_record yield r st = (True, st)"

fun ticks_loop :: "'a yield \<Rightarrow> trecord list \<Rightarrow> 'a ticks \<Rightarrow> bool \<times> 'a ticks" where
  "ticks_loop yield [] st = (True, st)"
| "ticks_loop yield (r # rs) st =
     (case tick_record yield r st of
        (False, st') \<Rightarrow> (False, st')
      | (True, st') \<Rightarrow> ticks_loop yield rs st')"

definition ticks_flush :: "'a yield \<Rightarrow> bool \<times> 'a ticks \<Rightarrow> 'a" where
  "ticks_flush yield res =
     (case res of
        (False, st) \<Rightarrow> acc st
      | (True, st) \<Rightarrow> if dirty st then acc (snd (emit yield st)) else acc st)"

definition Ticks :: "'v tfile \<Rightarrow> 'a yield \<Rightarrow> 'a \<Rightarrow> 'a" where
  "Ticks f yield a =
     ticks_flush yield (ticks_loop yield (Records f)
       \<lparr>pos = (\<lambda>_. None), input = (\<lambda>_. None), tick = 0, lastCid = - 1, dirty = False, acc = a\<rparr>)"

section \<open>The abstract description\<close>

fun player_of :: "trecord \<Rightarrow> int option" where
  "player_of (PlayerNew cid x y) = Some cid"
| "player_of (PlayerDiff cid dx dy) = Some cid"
| "player_of (PlayerOld cid) = Some cid"
| "player_of _ = None"

fun is_input :: "trecord \<Rightarrow> bool" where
  "is_input (InputNew cid i) = True"
| "is_input (InputDiff cid i) = True"
| "is_input _ = False"

fun skip_of :: "trecord \<Rightarrow> int option" where
  "skip_of (TickSkip dt) = Some dt"
| "skip_of _ = None"

text \<open>
  The tick of every record that changes the world: a skip of \<open>dt\<close> ends the current tick and
  moves on by \<open>dt + 1\<close>; a player record whose client id does not increase starts the next
  tick when anything has happened in the current one.
\<close>

fun stamp :: "int \<Rightarrow> int \<Rightarrow> bool \<Rightarrow> trecord list \<Rightarrow> (int \<times> trecord) list" where
  "stamp t last_cid d [] = []"
| "stamp t last_cid d (r # rs) =
     (case skip_of r of
        Some dt \<Rightarrow> stamp (t + (dt + 1)) (- 1) False rs
      | None \<Rightarrow>
          (case player_of r of
             Some cid \<Rightarrow>
               (let t' = (if d \<and> cid \<le> last_cid then t + 1 else t) in
                (t', r) # stamp t' cid True rs)
           | None \<Rightarrow>
               if is_input r then (t, r) # stamp t last_cid True rs
               else stamp t last_cid d rs))"

type_synonym world = "positions \<times> inputs"

fun apply_record :: "trecord \<Rightarrow> world \<Rightarrow> world" where
  "apply_record (PlayerNew cid x y) (p, i) = (p(cid \<mapsto> \<lparr>px = x, py = y\<rparr>), i)"
| "apply_record (PlayerDiff cid dx dy) (p, i) =
     (p(cid \<mapsto> \<lparr>px = px (pos_at p cid) + dx, py = py (pos_at p cid) + dy\<rparr>), i)"
| "apply_record (PlayerOld cid) (p, i) = (p(cid := None), i)"
| "apply_record (InputNew cid inp) (p, i) = (p, i(cid \<mapsto> inp))"
| "apply_record (InputDiff cid diff) (p, i) = (p, i(cid \<mapsto> add_diff (input_at i cid) diff))"
| "apply_record _ w = w"

text \<open>The world after all records stamped up to \<open>t\<close>, and the ticks at which anything happened.\<close>

definition world_at :: "world \<Rightarrow> (int \<times> trecord) list \<Rightarrow> int \<Rightarrow> world" where
  "world_at w S t = fold (\<lambda>(_, r). apply_record r) (filter (\<lambda>(s, _). s \<le> t) S) w"

definition replayed :: "trecord list \<Rightarrow> (int \<times> world) list" where
  "replayed rs =
     (let S = stamp 0 (- 1) False rs in
      map (\<lambda>t. (t, world_at (\<lambda>_. None, \<lambda>_. None) S t)) (remdups_adj (map fst S)))"

text \<open>The callback sees the list in order until it answers \<open>False\<close>.\<close>

fun feed :: "'a yield \<Rightarrow> 'a \<Rightarrow> (int \<times> world) list \<Rightarrow> 'a" where
  "feed yield a [] = a"
| "feed yield a ((t, p, i) # es) =
     (case yield t p i a of (go, a') \<Rightarrow> if go then feed yield a' es else a')"

definition skips_forward :: "trecord list \<Rightarrow> bool" where
  "skips_forward rs \<longleftrightarrow> list_all (\<lambda>r. case skip_of r of Some dt \<Rightarrow> 0 \<le> dt | None \<Rightarrow> True) rs"

lemma skips_forward_Cons [simp]:
  "skips_forward (r # rs) \<longleftrightarrow> (\<forall>dt. skip_of r = Some dt \<longrightarrow> 0 \<le> dt) \<and> skips_forward rs"
  by (simp add: skips_forward_def split: option.splits)

section \<open>The replay implements the description\<close>

text \<open>The pending emissions of a state, given the stamped records that are still to come.\<close>

fun groups :: "world \<Rightarrow> (int \<times> trecord) list \<Rightarrow> (int \<times> world) list" where
  "groups w [] = []"
| "groups w ((t, r) # S) =
     (let w' = apply_record r w in
      if S = [] \<or> fst (hd S) \<noteq> t then (t, w') # groups w' S else groups w' S)"

definition world_of :: "'a ticks \<Rightarrow> world" where
  "world_of st = (pos st, input st)"

definition pending :: "'a ticks \<Rightarrow> (int \<times> trecord) list \<Rightarrow> (int \<times> world) list" where
  "pending st S =
     (if dirty st \<and> (S = [] \<or> fst (hd S) \<noteq> tick st) then [(tick st, world_of st)] else []) @
     groups (world_of st) S"

lemma stamp_ge:
  "skips_forward rs \<Longrightarrow> (s, r) \<in> set (stamp t c d rs) \<Longrightarrow> t \<le> s"
proof (induction rs arbitrary: t c d)
  case Nil
  then show ?case by simp
next
  case (Cons x rs)
  then have IH: "(s, r) \<in> set (stamp t' c' d' rs) \<Longrightarrow> t' \<le> s" for t' c' d' by simp
  from Cons.prems show ?case
    by (cases x) (auto simp: Let_def dest!: IH split: if_splits)
qed

lemma stamp_hd_ge: "skips_forward rs \<Longrightarrow> stamp t c d rs \<noteq> [] \<Longrightarrow> t \<le> fst (hd (stamp t c d rs))"
  using stamp_ge [of rs _ _ t c d] by (metis hd_in_set prod.collapse)

lemma sorted_stamp: "skips_forward rs \<Longrightarrow> sorted (map fst (stamp t c d rs))"
proof (induction rs arbitrary: t c d)
  case Nil
  show ?case by simp
next
  case (Cons x rs)
  then have "sorted (map fst (stamp t' c' d' rs))" for t' c' d' by simp
  with Cons.prems show ?case
    by (cases x) (auto simp: Let_def dest: stamp_ge)
qed

lemma groups_world_at:
  "sorted (map fst S) \<Longrightarrow> groups w S = map (\<lambda>t. (t, world_at w S t)) (remdups_adj (map fst S))"
proof (induction S arbitrary: w)
  case Nil
  show ?case by simp
next
  case (Cons p S)
  obtain t r where p: "p = (t, r)" by fastforce
  from Cons.prems have sorted: "sorted (map fst S)" and ge: "\<forall>s \<in> fst ` set S. t \<le> s"
    by (simp_all add: p)
  let ?w = "apply_record r w"
  have IH: "groups ?w S = map (\<lambda>t. (t, world_at ?w S t)) (remdups_adj (map fst S))"
    by (rule Cons.IH [OF sorted])
  have later: "world_at w (p # S) s = world_at ?w S s" if "s \<in> fst ` set S" for s
    using ge that by (auto simp: world_at_def p)
  show ?case
  proof (cases S)
    case Nil
    then show ?thesis by (simp add: p world_at_def)
  next
    case (Cons q S')
    obtain t' r' where q: "q = (t', r')" by fastforce
    have "filter (\<lambda>(s, _). s \<le> t) S = []" if "t' \<noteq> t"
      using sorted ge that unfolding Cons q by (fastforce simp: filter_empty_conv)
    then have now: "world_at w (p # S) t = ?w" if "t' \<noteq> t"
      using that by (simp add: world_at_def p)
    have eq: "map (\<lambda>s. (s, world_at w (p # S) s)) (remdups_adj (map fst S)) =
        map (\<lambda>s. (s, world_at ?w S s)) (remdups_adj (map fst S))"
      using later by simp
    have "groups w (p # S) = (if t' \<noteq> t then (t, ?w) # groups ?w S else groups ?w S)"
      by (simp add: p Cons q Let_def)
    moreover have "remdups_adj (map fst (p # S)) =
        (if t' \<noteq> t then t # remdups_adj (map fst S) else remdups_adj (map fst S))"
      by (simp add: p Cons q)
    ultimately show ?thesis using now eq IH by simp
  qed
qed

lemma feed_emit:
  "feed yield (acc st) ((tick st, world_of st) # es) =
     (if fst (emit yield st) then feed yield (acc (snd (emit yield st))) es
      else acc (snd (emit yield st)))"
  by (simp add: world_of_def emit_def split: prod.splits)

lemma emit_keeps [simp]:
  "tick (snd (emit yield st)) = tick st" "world_of (snd (emit yield st)) = world_of st"
  "lastCid (snd (emit yield st)) = lastCid st" "dirty (snd (emit yield st)) = dirty st"
  by (simp_all add: emit_def world_of_def split: prod.splits)

definition set_world :: "world \<Rightarrow> 'a ticks \<Rightarrow> 'a ticks" where
  "set_world w st = st\<lparr>pos := fst w, input := snd w\<rparr>"

lemma set_world_simps [simp]:
  "world_of (set_world w st) = w" "tick (set_world w st) = tick st" "acc (set_world w st) = acc st"
  "lastCid (set_world w st) = lastCid st" "dirty (set_world w st) = dirty st"
  by (simp_all add: set_world_def world_of_def)

lemma world_of_updates [simp]:
  "world_of (st\<lparr>tick := t\<rparr>) = world_of st" "world_of (st\<lparr>lastCid := c\<rparr>) = world_of st"
  "world_of (st\<lparr>dirty := d\<rparr>) = world_of st" "world_of (st\<lparr>acc := a\<rparr>) = world_of st"
  by (simp_all add: world_of_def)

lemma player_record:
  "player_of r = Some cid \<Longrightarrow> tick_record yield r st =
     (case boundaryAt yield cid st of
        (False, st') \<Rightarrow> (False, st')
      | (True, st') \<Rightarrow> (True, set_world (apply_record r (world_of st')) st'))"
  by (cases r)
    (auto simp: set_world_def world_of_def Let_def split: prod.splits bool.splits)

lemma input_record:
  "is_input r \<Longrightarrow> tick_record yield r st =
     (True, set_world (apply_record r (world_of st)) (st\<lparr>dirty := True\<rparr>))"
  by (cases r) (auto simp: set_world_def world_of_def)

lemma skip_record: "skip_of r = Some dt \<longleftrightarrow> r = TickSkip dt"
  by (cases r) auto

lemma other_record:
  "skip_of r = None \<Longrightarrow> player_of r = None \<Longrightarrow> \<not> is_input r \<Longrightarrow> tick_record yield r st = (True, st)"
  by (cases r) auto

lemma pending_step:
  "dirty st \<Longrightarrow> world_of st = apply_record r w \<Longrightarrow> pending st S = groups w ((tick st, r) # S)"
  by (simp add: pending_def Let_def)

lemma pending_dirty:
  "pending st S = (if dirty st \<and> (S = [] \<or> fst (hd S) \<noteq> tick st)
     then (tick st, world_of st) # groups (world_of st) S else groups (world_of st) S)"
  by (simp add: pending_def)

lemma boundary_cases:
  "boundaryAt yield cid st =
     (if dirty st \<and> cid \<le> lastCid st then
        (if fst (emit yield st) then
           (True, (snd (emit yield st))\<lparr>tick := tick st + 1, lastCid := cid, dirty := True\<rparr>)
         else (False, snd (emit yield st)))
      else (True, st\<lparr>lastCid := cid, dirty := True\<rparr>))"
  using emit_keeps(1) [of yield st]
  by (cases "emit yield st") (auto simp: boundaryAt_def split: bool.splits)

lemma ticks_flush_False [simp]: "ticks_flush yield (False, st) = acc st"
  by (simp add: ticks_flush_def)

lemma skip_cases:
  "tick_record yield (TickSkip dt) st =
     (let go = \<not> dirty st \<or> fst (emit yield st);
          st' = if dirty st then snd (emit yield st) else st in
      (go, if go then st'\<lparr>tick := tick st + (dt + 1), lastCid := - 1, dirty := False\<rparr> else st'))"
  using emit_keeps(1) [of yield st]
  by (cases "emit yield st") (auto simp: Let_def split: bool.splits)

lemma loop_feeds:
  "skips_forward rs \<Longrightarrow>
   ticks_flush yield (ticks_loop yield rs st) =
     feed yield (acc st) (pending st (stamp (tick st) (lastCid st) (dirty st) rs))"
proof (induction rs arbitrary: st)
  case Nil
  show ?case
    using feed_emit [of yield st "[]"]
    by (auto simp: ticks_flush_def pending_def)
next
  case (Cons r rs)
  then have fwd: "skips_forward rs" by simp
  note IH = Cons.IH [OF fwd]
  let ?e = "snd (emit yield st)"
  consider (skip) dt where "skip_of r = Some dt" | (player) cid where "player_of r = Some cid"
    | (inp) "is_input r" | (other) "skip_of r = None" "player_of r = None" "\<not> is_input r"
    by fastforce
  then show ?case
  proof cases
    case skip
    then have r: "r = TickSkip dt" and "0 \<le> dt" using Cons.prems by (simp_all add: skip_record)
    let ?S = "stamp (tick st + (dt + 1)) (- 1) False rs"
    have "?S = [] \<or> fst (hd ?S) \<noteq> tick st"
      using stamp_hd_ge [OF fwd, of "tick st + (dt + 1)"] \<open>0 \<le> dt\<close> by fastforce
    then have "pending st ?S = (if dirty st then (tick st, world_of st) # groups (world_of st) ?S
        else groups (world_of st) ?S)"
      by (simp add: pending_dirty)
    then show ?thesis
      by (auto simp: r skip_cases Let_def IH feed_emit pending_dirty simp del: tick_record.simps)
  next
    case player
    then have "skip_of r = None" by (cases r) auto
    with player show ?thesis
      by (auto simp: player_record boundary_cases Let_def feed_emit IH
          pending_step [where r = r and w = "world_of st"] pending_dirty)
  next
    case inp
    then have "skip_of r = None" "player_of r = None" by (cases r; auto)+
    with inp show ?thesis
      by (simp add: input_record IH pending_step [where r = r and w = "world_of st"])
        (simp add: pending_dirty)
  next
    case other
    then show ?thesis by (simp add: other_record IH)
  qed
qed

section \<open>Properties\<close>

text \<open>
  C34: When no skip goes backwards, \<open>Ticks\<close> hands to its callback, in order and until the
  callback answers \<open>False\<close>, exactly the ticks at which a record changed the world, each with
  the world after all the records stamped up to it; the ticks are strictly increasing.
\<close>

theorem ticks_replay:
  assumes "skips_forward (Records f)"
  shows "Ticks f yield a = feed yield a (replayed (Records f))
    \<and> sorted_wrt (<) (map fst (replayed (Records f)))"
proof
  let ?S = "stamp 0 (- 1) False (Records f)"
  have "Ticks f yield a = feed yield a (groups (\<lambda>_. None, \<lambda>_. None) ?S)"
    by (simp add: Ticks_def loop_feeds [OF assms] pending_def world_of_def)
  then show "Ticks f yield a = feed yield a (replayed (Records f))"
    by (simp add: groups_world_at [OF sorted_stamp [OF assms]] replayed_def Let_def)
  have "sorted_wrt (<) (remdups_adj xs)" if "sorted xs" for xs :: "int list"
    using that by (induction xs rule: remdups_adj.induct) (auto simp: less_le)
  then show "sorted_wrt (<) (map fst (replayed (Records f)))"
    by (simp add: replayed_def Let_def o_def sorted_stamp [OF assms])
qed

text \<open>Two players in one tick, an implicit next tick, and a skip; the callback keeps the ticks.\<close>

theorem ticks_replay_witness:
  "Ticks \<lparr>Header = \<lparr>hraw = [], hview = ()\<rparr>,
      Records = [PlayerNew 0 1 1, PlayerNew 1 5 5, PlayerDiff 0 2 3, TickSkip 9, PlayerOld 1],
      source = []\<rparr> (\<lambda>t p i a. (True, a @ [(t, map_option px (p 0), map_option px (p 1))])) [] =
    [(0, Some 1, Some 5), (1, Some 3, Some 5), (11, Some 3, None)]"
proof -
  let ?f = "\<lparr>Header = \<lparr>hraw = [], hview = ()\<rparr>,
      Records = [PlayerNew 0 1 1, PlayerNew 1 5 5, PlayerDiff 0 2 3, TickSkip 9, PlayerOld 1],
      source = []\<rparr>"
  have "skips_forward (Records ?f)" by (simp add: skips_forward_def)
  from ticks_replay [OF this, of "\<lambda>t p i a. (True, a @ [(t, map_option px (p 0), map_option px (p 1))])" "[]"]
  show ?thesis by (simp add: replayed_def world_at_def Let_def pos_at_def)
qed

end
