(* ===== verification/Huffman.thy ===== *)
theory Huffman
  imports Prelude
begin

text \<open>
  The third-party package github.com/teeworlds-go/huffman/v2 is not part of the repository: it
  is the parameter \<open>huff_lib\<close>. \<open>huffman_inverse\<close> is its documented contract: what \<open>Compress\<close>
  produces is not empty (it ends with the end-of-file symbol) and decompresses to the input.
\<close>

record huff_lib =
  Compress :: "byte list \<Rightarrow> goerr + byte list"
  Decompress :: "byte list \<Rightarrow> goerr + byte list"

definition huffman_inverse :: "huff_lib \<Rightarrow> bool" where
  "huffman_inverse H \<longleftrightarrow>
     (\<forall>bs c. Compress H bs = Inr c \<longrightarrow> c \<noteq> [] \<and> Decompress H c = Inr bs)"

lemma huffman_inverseD:
  "huffman_inverse H \<Longrightarrow> Compress H bs = Inr c \<Longrightarrow> c \<noteq> [] \<and> Decompress H c = Inr bs"
  by (auto simp: huffman_inverse_def)

text \<open>
  A code with that contract, for the witnesses: every byte is a symbol of eight bits, followed
  by an end-of-file byte.
\<close>

definition plain_huffman :: huff_lib where
  "plain_huffman =
     \<lparr>Compress = (\<lambda>bs. Inr (bs @ [0])),
      Decompress = (\<lambda>c. if c = [] then Inl (Err ''huffman: unexpected end of data'' []) else Inr (butlast c))\<rparr>"

lemma plain_huffman_inverse: "huffman_inverse plain_huffman"
  by (simp add: huffman_inverse_def plain_huffman_def)

end
