(* ===== verification/Ghost.thy ===== *)
theory Ghost
  imports Stream Huffman
begin

text \<open>
  record/ghost: the ghost file format (ghost.go) and its streaming decoder and encoder
  (stream.go). The varint codec \<open>L\<close> and the huffman codec \<open>H\<close> are parameters. An \<open>int32\<close>
  field is an \<open>int\<close> kept in range by \<open>s32\<close>, Go's conversion.
\<close>

section \<open>The header\<close>

definition GMagic :: "byte list" where
  "GMagic = map byte_of [0x54, 0x57, 0x47, 0x48, 0x4F, 0x53, 0x54, 0]"

definition GVersion :: byte where "GVersion = 6"
definition MinVersion :: byte where "MinVersion = 4"
definition MaxItemSize :: int where "MaxItemSize = 128"
definition NumItemsPerChunk :: nat where "NumItemsPerChunk = 50"
definition MaxChunkSize :: int where "MaxChunkSize = MaxItemSize * int NumItemsPerChunk"
definition MaxNameLength :: nat where "MaxNameLength = 16"
definition MapNameLength :: nat where "MapNameLength = 64"
definition Sha256Size :: nat where "Sha256Size = 32"

record gheader =
  Version :: byte
  Owner :: "byte list"
  Map :: "byte list"
  MapCRC :: "byte list"
  NumTicks :: int
  Time :: int
  MapSha256 :: "byte list"

definition nulString :: "byte list \<Rightarrow> goerr + byte list" where
  "nulString b =
     (case cut_nul b of
        None \<Rightarrow> Inl (Err ''missing NUL terminator'' [])
      | Some (before, _) \<Rightarrow> Inr before)"

definition base_size :: nat where
  "base_size = length GMagic + 1 + MaxNameLength + MapNameLength + 4 + 4 + 4"

text \<open>\<open>data[p : p+n]\<close> for a slice that is long enough.\<close>

definition slice :: "byte list \<Rightarrow> nat \<Rightarrow> nat \<Rightarrow> byte list" where
  "slice d p n = take n (drop p d)"

definition parseHeader :: "byte list \<Rightarrow> goerr + gheader \<times> nat" where
  "parseHeader d =
     (if length d < base_size then
        Inl (Wrap ''ghost: too short for header'' [] IoUnexpectedEOF)
      else if take (length GMagic) d \<noteq> GMagic then Inl (Err ''ghost: bad magic'' [])
      else
        (let version = d ! 8 in
         if version < MinVersion \<or> version > GVersion then
           Inl (Err ''ghost: unsupported version %d'' [uint version])
         else
           attempt (wrap_res ''ghost: owner'' [] (nulString (slice d 9 MaxNameLength))) (\<lambda>owner.
           attempt (wrap_res ''ghost: map'' [] (nulString (slice d 25 MapNameLength))) (\<lambda>mapName.
           let h = \<lparr>Version = version, Owner = owner, Map = mapName, MapCRC = slice d 89 4,
                    NumTicks = get_be32 (slice d 93 4), Time = get_be32 (slice d 97 4),
                    MapSha256 = replicate Sha256Size 0\<rparr>;
               p = 101 in
           if version \<ge> 6 then
             (if length d < p + Sha256Size then
                Inl (Wrap ''ghost: too short for map sha256'' [] IoUnexpectedEOF)
              else Inr (h\<lparr>MapSha256 := slice d p Sha256Size\<rparr>, p + Sha256Size))
           else Inr (h, p)))))"

definition appendHeader :: "byte list \<Rightarrow> gheader \<Rightarrow> byte list" where
  "appendHeader b h =
     (let b = b @ GMagic;
          b = b @ [Version h];
          b = b @ pad_field MaxNameLength (Owner h);
          b = b @ pad_field MapNameLength (Map h);
          b = b @ MapCRC h;
          b = b @ put_be32 (NumTicks h);
          b = b @ put_be32 (Time h) in
      if Version h \<ge> 6 then b @ MapSha256 h else b)"

section \<open>Items\<close>

record character_no_tick =
  cX :: int
  cY :: int
  VelX :: int
  VelY :: int
  Angle :: int
  cDirection :: int
  Weapon :: int
  HookState :: int
  HookX :: int
  HookY :: int
  AttackTick :: int

datatype gchunk =
    Skin "int list" int int int
  | CharacterNoTick character_no_tick
  | Character character_no_tick int
  | StartTick int
  | Raw int "int list"

definition TypeSkin :: int where "TypeSkin = 0"
definition TypeCharacterNoTick :: int where "TypeCharacterNoTick = 1"
definition TypeCharacter :: int where "TypeCharacter = 2"
definition TypeStartTick :: int where "TypeStartTick = 3"

lemmas type_defs = TypeSkin_def TypeCharacterNoTick_def TypeCharacter_def TypeStartTick_def

fun dataType :: "gchunk \<Rightarrow> int" where
  "dataType (Skin s u b f) = TypeSkin"
| "dataType (CharacterNoTick c) = TypeCharacterNoTick"
| "dataType (Character c t) = TypeCharacter"
| "dataType (StartTick t) = TypeStartTick"
| "dataType (Raw typ vs) = typ"

definition no_tick_fields :: "character_no_tick \<Rightarrow> int list" where
  "no_tick_fields c =
     map s32 [cX c, cY c, VelX c, VelY c, Angle c, cDirection c, Weapon c, HookState c,
       HookX c, HookY c, AttackTick c]"

text \<open>The Go type of the skin is \<open>[6]int\<close>.\<close>

fun chunk_fields :: "gchunk \<Rightarrow> int list" where
  "chunk_fields (Skin s u b f) =
     map s32 [s ! 0, s ! 1, s ! 2, s ! 3, s ! 4, s ! 5, u, b, f]"
| "chunk_fields (CharacterNoTick c) = no_tick_fields c"
| "chunk_fields (Character c t) = no_tick_fields c @ [s32 t]"
| "chunk_fields (StartTick t) = [s32 t]"
| "chunk_fields (Raw typ vs) = vs"

definition characterNoTickFromFields :: "int list \<Rightarrow> character_no_tick" where
  "characterNoTickFromFields f =
     \<lparr>cX = f ! 0, cY = f ! 1, VelX = f ! 2, VelY = f ! 3, Angle = f ! 4, cDirection = f ! 5,
      Weapon = f ! 6, HookState = f ! 7, HookX = f ! 8, HookY = f ! 9, AttackTick = f ! 10\<rparr>"

definition chunkFromFields :: "int \<Rightarrow> int list \<Rightarrow> gchunk" where
  "chunkFromFields typ f =
     (if typ = TypeSkin \<and> length f = 9 then
        Skin [f ! 0, f ! 1, f ! 2, f ! 3, f ! 4, f ! 5] (f ! 6) (f ! 7) (f ! 8)
      else if typ = TypeCharacterNoTick \<and> length f = 11 then
        CharacterNoTick (characterNoTickFromFields f)
      else if typ = TypeCharacter \<and> length f = 12 then
        Character (characterNoTickFromFields (take 11 f)) (f ! 11)
      else if typ = TypeStartTick \<and> length f = 1 then StartTick (f ! 0)
      else Raw typ f)"

section \<open>Physical chunks\<close>

function unpack_ints_loop :: "varint_lib \<Rightarrow> unpacker \<Rightarrow> goerr + int list" where
  "unpack_ints_loop L u =
     (if RemainingSize u > 0 then
        (case NextInt L u of
           (Inl e, u') \<Rightarrow> Inl e
         | (Inr v, u') \<Rightarrow> attempt (unpack_ints_loop L u') (\<lambda>out. Inr (s32 v # out)))
      else Inr [])"
  by auto
termination
  by (relation "measure (\<lambda>(L, u). length (udata u) - uidx u)")
    (auto dest: NextInt_progress [OF sym])

declare unpack_ints_loop.simps [simp del]

definition unpackInts :: "varint_lib \<Rightarrow> byte list \<Rightarrow> goerr + int list" where
  "unpackInts L d = unpack_ints_loop L (NewUnpacker d)"

definition splitChunk :: "byte list \<Rightarrow> goerr + int \<times> int \<times> byte list \<times> byte list" where
  "splitChunk body =
     (if length body < 4 then Inl (Wrap ''ghost: chunk header truncated'' [] IoUnexpectedEOF)
      else
        (let typ = uint (body ! 0); numItems = uint (body ! 1);
             sz = push_bit 8 (uint (body ! 2)) OR uint (body ! 3) in
         if sz \<le> 0 \<or> sz > MaxChunkSize then Inl (Err ''ghost: invalid chunk size %d'' [sz])
         else if int (length body) < 4 + sz then
           Inl (Wrap ''ghost: chunk data truncated'' [] IoUnexpectedEOF)
         else Inr (typ, numItems, slice body 4 (nat sz), drop (4 + nat sz) body)))"

text \<open>The items after the first are differences to their predecessor, modulo \<open>2 ^ 32\<close>.\<close>

fun undiff :: "nat \<Rightarrow> nat \<Rightarrow> int list \<Rightarrow> int list \<Rightarrow> int list list" where
  "undiff fpi 0 prev ints = []"
| "undiff fpi (Suc n) prev ints =
     (let cur = map2 (\<lambda>p r. s32 (u32 p + u32 r)) prev (take fpi ints) in
      cur # undiff fpi n cur (drop fpi ints))"

definition decodePhysicalChunk ::
  "varint_lib \<Rightarrow> huff_lib \<Rightarrow> int \<Rightarrow> int \<Rightarrow> byte list \<Rightarrow> goerr + gchunk list" where
  "decodePhysicalChunk L H typ numItems payload =
     (if numItems \<le> 0 then Inl (Err ''ghost: invalid item count %d'' [numItems])
      else
        attempt (wrap_res ''ghost: huffman decompress'' [] (Decompress H payload)) (\<lambda>huff.
        attempt (wrap_res ''ghost: intpack decompress'' [] (unpackInts L huff)) (\<lambda>ints.
        if length ints = 0 \<or> int (length ints) mod numItems \<noteq> 0 then
          Inl (Err ''ghost: %d fields not divisible by %d items'' [int (length ints), numItems])
        else
          (let fpi = length ints div nat numItems in
           if int fpi * 4 > MaxItemSize then
             Inl (Err ''ghost: item too large: %d bytes'' [int fpi * 4])
           else
             (let first = take fpi ints in
              Inr (map (chunkFromFields typ)
                (first # undiff fpi (nat numItems - 1) first (drop fpi ints))))))))"

text \<open>Indexing \<open>prev[j]\<close> panics when an item has more fields than its predecessor.\<close>

fun diff_item :: "int list \<Rightarrow> int list \<Rightarrow> goerr + int list" where
  "diff_item [] prev = Inr []"
| "diff_item (c # cur) [] = Inl (Panic ''index out of range'')"
| "diff_item (c # cur) (p # prev) = attempt (diff_item cur prev) (\<lambda>ds. Inr (s32 (u32 c - u32 p) # ds))"

fun diff_items :: "int list \<Rightarrow> int list list \<Rightarrow> goerr + int list" where
  "diff_items prev [] = Inr []"
| "diff_items prev (cur # items) =
     attempt (diff_item cur prev) (\<lambda>ds. attempt (diff_items cur items) (\<lambda>rest. Inr (ds @ rest)))"

definition appendPhysicalChunk ::
  "varint_lib \<Rightarrow> huff_lib \<Rightarrow> byte list \<Rightarrow> int \<Rightarrow> int list list \<Rightarrow> goerr + byte list" where
  "appendPhysicalChunk L H b typ items =
     (case items of
        [] \<Rightarrow> Inr b
      | item0 # items1 \<Rightarrow>
          attempt (diff_items item0 items1) (\<lambda>ds.
          let ints = item0 @ ds; packed = foldl (AppendInt L) [] ints in
          attempt (wrap_res ''ghost: huffman compress'' [] (Compress H packed)) (\<lambda>comp.
          if int (length comp) > MaxChunkSize then
            Inl (Err ''ghost: compressed chunk too large: %d bytes'' [int (length comp)])
          else
            Inr ((b @ [byte_of typ, byte_of (int (length items)),
              byte_of (drop_bit 8 (int (length comp))), byte_of (int (length comp) AND 0xff)])
              @ comp))))"

section \<open>Files\<close>

record gfile =
  GHeader :: gheader
  Chunks :: "gchunk list"

function parse_chunks :: "varint_lib \<Rightarrow> huff_lib \<Rightarrow> byte list \<Rightarrow> goerr + gchunk list" where
  "parse_chunks L H body =
     (if length body > 0 then
        (case splitChunk body of
           Inl e \<Rightarrow> Inl e
         | Inr (typ, numItems, payload, rest) \<Rightarrow>
             attempt (decodePhysicalChunk L H typ numItems payload) (\<lambda>chunks.
             attempt (parse_chunks L H rest) (\<lambda>chunks1. Inr (chunks @ chunks1))))
      else Inr [])"
  by auto
termination
  by (relation "measure (\<lambda>(L, H, body). length body)")
    (auto simp: splitChunk_def Let_def split: if_splits)

declare parse_chunks.simps [simp del]

definition GParse :: "varint_lib \<Rightarrow> huff_lib \<Rightarrow> byte list \<Rightarrow> goerr + gfile" where
  "GParse L H d =
     attempt (parseHeader d) (\<lambda>(hdr, n).
     attempt (parse_chunks L H (drop n d)) (\<lambda>chunks.
     Inr \<lparr>GHeader = hdr, Chunks = chunks\<rparr>))"

fun take_run :: "int \<Rightarrow> nat \<Rightarrow> gchunk list \<Rightarrow> int list list \<times> gchunk list" where
  "take_run typ k [] = ([], [])"
| "take_run typ k (c # cs) =
     (if 0 < k \<and> dataType c = typ then
        (let (items, rest) = take_run typ (k - 1) cs in (chunk_fields c # items, rest))
      else ([], c # cs))"

lemma take_run_rest: "length (snd (take_run typ k cs)) \<le> length cs"
  by (induction "typ" k cs rule: take_run.induct) (auto split: prod.split)

lemma take_run_Cons:
  "take_run (dataType c) NumItemsPerChunk (c # cs) = (items, rest) \<Longrightarrow> length rest \<le> length cs"
  using take_run_rest [of "dataType c" 49 cs]
  by (auto simp: NumItemsPerChunk_def split: prod.splits)

function write_chunks ::
  "varint_lib \<Rightarrow> huff_lib \<Rightarrow> byte list \<Rightarrow> gchunk list \<Rightarrow> goerr + byte list" where
  "write_chunks L H b [] = Inr b"
| "write_chunks L H b (c # cs) =
     (let typ = dataType c; (items, rest) = take_run typ NumItemsPerChunk (c # cs) in
      attempt (appendPhysicalChunk L H b typ items) (\<lambda>b'. write_chunks L H b' rest))"
  by pat_completeness auto
termination
  by (relation "measure (\<lambda>(L, H, b, cs). length cs)")
    (simp_all del: take_run.simps add: less_Suc_eq_le take_run_Cons [OF sym])

declare write_chunks.simps [simp del]

definition gfile_bytes :: "varint_lib \<Rightarrow> huff_lib \<Rightarrow> gfile \<Rightarrow> goerr + byte list" where
  "gfile_bytes L H f = write_chunks L H (appendHeader [] (GHeader f)) (Chunks f)"

definition GWriteTo :: "varint_lib \<Rightarrow> huff_lib \<Rightarrow> 'w writer \<Rightarrow> gfile \<Rightarrow> ('w, int) gost" where
  "GWriteTo L H W f w =
     (case gfile_bytes L H f of Inl e \<Rightarrow> (Inl e, w) | Inr b \<Rightarrow> W b w)"

section \<open>The streaming decoder and encoder\<close>

definition unexpected :: "goerr \<Rightarrow> goerr" where
  "unexpected e = (if is_eof e then IoUnexpectedEOF else e)"

definition on_err :: "(goerr \<Rightarrow> goerr) \<Rightarrow> ('s, 'a) gost \<Rightarrow> ('s, 'a) gost" where
  "on_err f m s = (case m s of (Inl e, s') \<Rightarrow> (Inl (f e), s') | (Inr x, s') \<Rightarrow> (Inr x, s'))"

text \<open>Code without state inside a reader.\<close>

definition liftr :: "goerr + 'a \<Rightarrow> ('s, 'a) gost" where
  "liftr r s = (r, s)"

definition readHeader :: "(byte list, gheader) gost" where
  "readHeader =
     bnd (wrapped ''ghost: read header'' [] (on_err unexpected (ReadFull base_size))) (\<lambda>buf.
     bnd (if buf ! length GMagic \<ge> 6 then
            bnd (wrapped ''ghost: read map sha256'' [] (on_err unexpected (ReadFull Sha256Size)))
              (\<lambda>sha. ret (buf @ sha))
          else ret buf) (\<lambda>buf.
     bnd (liftr (parseHeader buf)) (\<lambda>(hdr, n). ret hdr)))"

record gdecoder =
  gr :: "byte list"
  ghdr :: gheader
  gpending :: "gchunk list"
  gidx :: nat
  gdone :: bool

definition GNewDecoder :: "byte list \<Rightarrow> goerr + gdecoder" where
  "GNewDecoder bs =
     (case readHeader bs of
        (Inl e, _) \<Rightarrow> Inl e
      | (Inr hdr, bs') \<Rightarrow>
          Inr \<lparr>gr = bs', ghdr = hdr, gpending = [], gidx = 0, gdone = False\<rparr>)"

definition readChunk :: "varint_lib \<Rightarrow> huff_lib \<Rightarrow> (gdecoder, unit) gost" where
  "readChunk L H d =
     (case ReadFull 4 (gr d) of
        (Inl e, bs) \<Rightarrow>
          if is_eof e then (Inl IoEOF, d\<lparr>gr := bs, gdone := True\<rparr>)
          else (Inl (wrap_err ''ghost: chunk header'' [] (unexpected e)), d\<lparr>gr := bs\<rparr>)
      | (Inr head, bs) \<Rightarrow>
          (let typ = uint (head ! 0); numItems = uint (head ! 1);
               sz = push_bit 8 (uint (head ! 2)) OR uint (head ! 3) in
           if sz \<le> 0 \<or> sz > MaxChunkSize then
             (Inl (Err ''ghost: invalid chunk size %d'' [sz]), d\<lparr>gr := bs\<rparr>)
           else
             (case ReadFull (nat sz) bs of
                (Inl e, bs') \<Rightarrow> (Inl (wrap_err ''ghost: chunk data'' [] (unexpected e)), d\<lparr>gr := bs'\<rparr>)
              | (Inr payload, bs') \<Rightarrow>
                  (case decodePhysicalChunk L H typ numItems payload of
                     Inl e \<Rightarrow> (Inl e, d\<lparr>gr := bs'\<rparr>)
                   | Inr chunks \<Rightarrow> (Inr (), d\<lparr>gr := bs', gpending := chunks, gidx := 0\<rparr>)))))"

lemma readChunk_shrinks: "readChunk L H d = (Inr (), d') \<Longrightarrow> length (gr d') < length (gr d)"
  by (auto simp: readChunk_def ReadFull_def Let_def split: if_splits sum.splits)

function GNext :: "varint_lib \<Rightarrow> huff_lib \<Rightarrow> (gdecoder, gchunk) gost" where
  "GNext L H d =
     (if gidx d \<ge> length (gpending d) then
        (if gdone d then (Inl IoEOF, d)
         else case readChunk L H d of
           (Inl e, d') \<Rightarrow> (Inl e, d')
         | (Inr _, d') \<Rightarrow> GNext L H d')
      else (Inr (gpending d ! gidx d), d\<lparr>gidx := gidx d + 1\<rparr>))"
  by auto
termination
  by (relation "measure (\<lambda>(L, H, d). length (gr d))") (auto dest: readChunk_shrinks [OF sym])

declare GNext.simps [simp del]

record 'w gencoder =
  gew :: 'w
  gtyp :: int
  gitems :: "int list list"

definition flush :: "varint_lib \<Rightarrow> huff_lib \<Rightarrow> 'w writer \<Rightarrow> ('w gencoder, unit) gost" where
  "flush L H W enc =
     (if length (gitems enc) = 0 then (Inr (), enc)
      else case appendPhysicalChunk L H [] (gtyp enc) (gitems enc) of
        Inl e \<Rightarrow> (Inl e, enc)
      | Inr b \<Rightarrow>
          (case W b (gew enc) of
             (Inl e, w) \<Rightarrow> (Inl e, enc\<lparr>gitems := [], gew := w\<rparr>)
           | (Inr _, w) \<Rightarrow> (Inr (), enc\<lparr>gitems := [], gew := w\<rparr>)))"

definition GNewEncoder :: "'w writer \<Rightarrow> 'w \<Rightarrow> gheader \<Rightarrow> goerr + 'w gencoder" where
  "GNewEncoder W w h =
     (case W (appendHeader [] h) w of
        (Inl e, w') \<Rightarrow> Inl e
      | (Inr _, w') \<Rightarrow> Inr \<lparr>gew = w', gtyp = 0, gitems = []\<rparr>)"

definition GWrite ::
  "varint_lib \<Rightarrow> huff_lib \<Rightarrow> 'w writer \<Rightarrow> gchunk \<Rightarrow> ('w gencoder, unit) gost" where
  "GWrite L H W c =
     bnd (\<lambda>enc. if length (gitems enc) > 0 \<and>
              (dataType c \<noteq> gtyp enc \<or> length (gitems enc) \<ge> NumItemsPerChunk)
            then flush L H W enc else (Inr (), enc))
       (\<lambda>_ enc. (Inr (), enc\<lparr>gtyp := dataType c, gitems := gitems enc @ [chunk_fields c]\<rparr>))"

definition GClose :: "varint_lib \<Rightarrow> huff_lib \<Rightarrow> 'w writer \<Rightarrow> ('w gencoder, unit) gost" where
  "GClose L H W = flush L H W"

section \<open>Differences undo\<close>

lemma s32_diff_undo: "in_s32 c \<Longrightarrow> s32 (u32 p + u32 (s32 (u32 c - u32 p))) = c"
proof -
  assume c: "in_s32 c"
  have "(u32 p + u32 (s32 (u32 c - u32 p))) mod 2 ^ 32 = c mod 2 ^ 32"
  proof -
    have "u32 (s32 x) = take_bit 32 x" for x
      by (simp add: u32_def s32_def take_bit_signed_take_bit)
    then show ?thesis by (simp add: u32_def take_bit_eq_mod mod_simps)
  qed
  then show ?thesis using c by (metis s32_cong s32_id)
qed

lemma diff_item_eq:
  "length cur = length prev \<Longrightarrow>
   diff_item cur prev = Inr (map2 (\<lambda>c p. s32 (u32 c - u32 p)) cur prev)"
  by (induction cur prev rule: list_induct2) simp_all

lemma undiff_item:
  "length cur = length prev \<Longrightarrow> list_all in_s32 cur \<Longrightarrow>
   map2 (\<lambda>p r. s32 (u32 p + u32 r)) prev (map2 (\<lambda>c p. s32 (u32 c - u32 p)) cur prev) = cur"
  by (induction cur prev rule: list_induct2) (simp_all add: s32_diff_undo)

lemma diff_items_undo:
  "list_all (\<lambda>it. length it = length prev \<and> list_all in_s32 it) items \<Longrightarrow>
   \<exists>ds. diff_items prev items = Inr ds \<and> length ds = length prev * length items \<and>
     list_all in_s32 ds \<and> undiff (length prev) (length items) prev ds = items"
proof (induction items arbitrary: prev)
  case Nil
  show ?case by simp
next
  case (Cons cur items)
  let ?d = "map2 (\<lambda>c p. s32 (u32 c - u32 p)) cur prev"
  from Cons.prems have len: "length cur = length prev" and cur: "list_all in_s32 cur"
    and "list_all (\<lambda>it. length it = length cur \<and> list_all in_s32 it) items" by simp_all
  then obtain ds where ds: "diff_items cur items = Inr ds"
    "length ds = length cur * length items" "list_all in_s32 ds"
    "undiff (length cur) (length items) cur ds = items"
    using Cons.IH [of cur] by blast
  have "list_all in_s32 ?d" by (auto simp: list_all_iff)
  with ds len undiff_item [OF len cur] show ?case
    by (intro exI [of _ "?d @ ds"]) (simp add: diff_item_eq Let_def)
qed

section \<open>Reading back a physical chunk\<close>

lemma byte_of_high_low:
  assumes "0 \<le> n" and "n < 65536"
  shows "push_bit 8 (uint (byte_of (drop_bit 8 n))) OR uint (byte_of (n AND 0xff)) = n"
proof -
  have and_ff: "n AND 0xff = n mod 256"
    using take_bit_eq_mask [of 8 n] by (simp add: take_bit_eq_mod mask_eq_exp_minus_1)
  have "uint (byte_of (n AND 0xff)) OR push_bit 8 (uint (byte_of (drop_bit 8 n))) =
      uint (byte_of (n AND 0xff)) + 2 ^ 8 * uint (byte_of (drop_bit 8 n))"
    by (intro or_disjoint_add) (simp_all add: and_ff)
  also have "\<dots> = n" using assms by (simp add: and_ff drop_bit_eq_div)
  finally show ?thesis by (simp only: or.commute)
qed

lemma splitChunk_written:
  assumes "0 \<le> typ" "typ < 256" "0 \<le> n" "n < 256" "payload \<noteq> []" "int (length payload) \<le> MaxChunkSize"
  shows "splitChunk ([byte_of typ, byte_of n, byte_of (drop_bit 8 (int (length payload))),
      byte_of (int (length payload) AND 0xff)] @ payload @ rest) = Inr (typ, n, payload, rest)"
proof -
  have "int (length payload) < 65536"
    using assms(6) by (simp add: MaxChunkSize_def MaxItemSize_def NumItemsPerChunk_def)
  then have "push_bit 8 (uint (byte_of (drop_bit 8 (int (length payload))))) OR
      uint (byte_of (int (length payload) AND 0xff)) = int (length payload)"
    by (intro byte_of_high_low) simp_all
  with assms show ?thesis
    unfolding splitChunk_def by (simp add: Let_def slice_def del: uint_byte_of)
      (simp add: numeral_eq_Suc)
qed

context varint_contract begin

lemma unpack_ints_written:
  "list_all in_s32 xs \<Longrightarrow> unpack_ints_loop L (at_pos pre (concat (map (encv L) xs))) = Inr xs"
proof (induction xs arbitrary: pre)
  case Nil
  show ?case by (subst unpack_ints_loop.simps) simp
next
  case (Cons x xs)
  then have "0 < length (encv L x)" using encode_length by simp
  then have "0 < int (length (encv L x)) + y" if "0 \<le> y" for y using that by linarith
  with Cons show ?case by (subst unpack_ints_loop.simps) simp
qed

lemma packed_ints:
  "list_all in_s32 xs \<Longrightarrow> foldl (AppendInt L) b xs = b @ concat (map (encv L) xs)"
  by (induction xs arbitrary: b) (simp_all add: AppendInt_eq)

lemma physical_chunk:
  assumes H: "huffman_inverse H"
    and run: "appendPhysicalChunk L H b typ items = Inr b'"
    and items: "items \<noteq> []" "length items \<le> NumItemsPerChunk"
    and each: "list_all (\<lambda>it. length it = fpi \<and> list_all in_s32 it) items"
    and fpi: "0 < fpi" "fpi \<le> 32" and ty: "0 \<le> typ" "typ < 256"
  shows "\<exists>c payload. b' = b @ c \<and> c \<noteq> [] \<and>
    (\<forall>rest. splitChunk (c @ rest) = Inr (typ, int (length items), payload, rest)) \<and>
    decodePhysicalChunk L H typ (int (length items)) payload =
      Inr (map (chunkFromFields typ) items)"
proof -
  obtain it0 its where it: "items = it0 # its" using items(1) by (cases items) auto
  have len0: "length it0 = fpi" and s0: "list_all in_s32 it0"
    and eachs: "list_all (\<lambda>it. length it = length it0 \<and> list_all in_s32 it) its"
    using each by (simp_all add: it)
  from diff_items_undo [OF eachs] obtain ds where ds: "diff_items it0 its = Inr ds"
    "length ds = fpi * length its" "list_all in_s32 ds"
    "undiff fpi (length its) it0 ds = its" by (auto simp: len0)
  let ?ints = "it0 @ ds"
  obtain comp where comp: "Compress H (concat (map (encv L) ?ints)) = Inr comp"
    and small: "int (length comp) \<le> MaxChunkSize"
    and b': "b' = b @ [byte_of typ, byte_of (int (length items)),
      byte_of (drop_bit 8 (int (length comp))), byte_of (int (length comp) AND 0xff)] @ comp"
    using run ds s0
    by (auto simp: appendPhysicalChunk_def it Let_def packed_ints [of ?ints "[]", simplified]
        attempt_eq_Inr split: if_splits)
  have dec: "Decompress H comp = Inr (concat (map (encv L) ?ints))" and ne: "comp \<noteq> []"
    using huffman_inverseD [OF H comp] by auto
  have n: "0 \<le> int (length items)" "int (length items) < 256"
    using items(2) by (simp_all add: NumItemsPerChunk_def)
  have len: "length ?ints = fpi * length items" using ds(2) by (simp add: len0 it)
  have "unpackInts L (concat (map (encv L) ?ints)) = Inr ?ints"
    using unpack_ints_written [of ?ints "[]"] s0 ds(3) by (simp add: unpackInts_def NewUnpacker_at_pos)
  moreover have "length ?ints div nat (int (length items)) = fpi"
    using items(1) by (simp only: len nat_int) simp
  moreover have "int (length ?ints) mod int (length items) = 0" by (simp only: len) simp
  moreover have "?ints \<noteq> []" using len0 fpi(1) by auto
  moreover have "int fpi * 4 \<le> MaxItemSize" using fpi(2) by (simp add: MaxItemSize_def)
  moreover have "take fpi ?ints # undiff fpi (nat (int (length items)) - 1) (take fpi ?ints) (drop fpi ?ints) = items"
    using ds(4) len0 unfolding nat_int by (simp add: it)
  moreover have "0 < int (length items)" using items(1) by simp
  ultimately have "decodePhysicalChunk L H typ (int (length items)) comp =
      Inr (map (chunkFromFields typ) items)"
    using dec unfolding decodePhysicalChunk_def Let_def by (simp del: take_append drop_append length_append)
  moreover have "\<forall>rest. splitChunk (([byte_of typ, byte_of (int (length items)),
      byte_of (drop_bit 8 (int (length comp))), byte_of (int (length comp) AND 0xff)] @ comp) @ rest) =
      Inr (typ, int (length items), comp, rest)"
    using splitChunk_written [OF ty n ne small] by simp
  ultimately show ?thesis using b' by blast
qed

end

section \<open>Files that the format can carry\<close>

definition header_ok :: "gheader \<Rightarrow> bool" where
  "header_ok h \<longleftrightarrow> MinVersion \<le> Version h \<and> Version h \<le> GVersion \<and>
     length (Owner h) < MaxNameLength \<and> 0 \<notin> set (Owner h) \<and>
     length (Map h) < MapNameLength \<and> 0 \<notin> set (Map h) \<and> length (MapCRC h) = 4 \<and>
     0 \<le> NumTicks h \<and> NumTicks h < 2 ^ 32 \<and> 0 \<le> Time h \<and> Time h < 2 ^ 32 \<and>
     length (MapSha256 h) = Sha256Size \<and>
     (Version h < 6 \<longrightarrow> MapSha256 h = replicate Sha256Size 0)"

text \<open>An item of an unrecognised layout is kept as \<open>Raw\<close>; of a recognised one it is typed.\<close>

definition no_tick_ok :: "character_no_tick \<Rightarrow> bool" where
  "no_tick_ok c \<longleftrightarrow> list_all in_s32 [cX c, cY c, VelX c, VelY c, Angle c, cDirection c, Weapon c,
     HookState c, HookX c, HookY c, AttackTick c]"

fun chunk_ok :: "gchunk \<Rightarrow> bool" where
  "chunk_ok (Skin s u b f) \<longleftrightarrow> length s = 6 \<and> list_all in_s32 s \<and> in_s32 u \<and> in_s32 b \<and> in_s32 f"
| "chunk_ok (CharacterNoTick c) \<longleftrightarrow> no_tick_ok c"
| "chunk_ok (Character c t) \<longleftrightarrow> no_tick_ok c \<and> in_s32 t"
| "chunk_ok (StartTick t) \<longleftrightarrow> in_s32 t"
| "chunk_ok (Raw ty vs) \<longleftrightarrow> 0 \<le> ty \<and> ty < 256 \<and> list_all in_s32 vs \<and> vs \<noteq> [] \<and> length vs \<le> 32 \<and>
     (ty, length vs) \<notin> {(0, 9), (1, 11), (2, 12), (3, 1)}"

text \<open>Neighbours of one type have the same number of fields.\<close>

fun uniform :: "gchunk list \<Rightarrow> bool" where
  "uniform (c # d # cs) \<longleftrightarrow>
     (dataType c = dataType d \<longrightarrow> length (chunk_fields c) = length (chunk_fields d)) \<and> uniform (d # cs)"
| "uniform _ \<longleftrightarrow> True"

lemma list_of_6: "length s = 6 \<Longrightarrow> [s ! 0, s ! 1, s ! 2, s ! 3, s ! 4, s ! 5] = s"
  by (rule nth_equalityI) (auto simp: less_Suc_eq numeral_eq_Suc)

lemma list_all_nth6: "length s = 6 \<Longrightarrow> list_all in_s32 s \<Longrightarrow>
    in_s32 (s ! 0) \<and> in_s32 (s ! Suc 0) \<and> in_s32 (s ! 2) \<and> in_s32 (s ! 3) \<and> in_s32 (s ! 4) \<and> in_s32 (s ! 5)"
  by (simp add: list_all_length)

lemma chunk_okD:
  assumes "chunk_ok c"
  shows "chunkFromFields (dataType c) (chunk_fields c) = c" "list_all in_s32 (chunk_fields c)"
    "0 < length (chunk_fields c)" "length (chunk_fields c) \<le> 32"
    "0 \<le> dataType c" "dataType c < 256"
proof -
  show "chunkFromFields (dataType c) (chunk_fields c) = c"
    using assms list_of_6
    by (cases c) (auto simp: chunkFromFields_def type_defs no_tick_ok_def no_tick_fields_def
        characterNoTickFromFields_def list_all_nth6)
qed (use assms in \<open>cases c; auto simp: type_defs no_tick_fields_def list_all_nth6\<close>)+

lemma parseHeader_written:
  assumes "header_ok h"
  shows "parseHeader (appendHeader [] h @ body) = Inr (h, length (appendHeader [] h))"
proof -
  define tail where "tail = (if Version h \<ge> 6 then MapSha256 h else []) @ body"
  define d where "d = appendHeader [] h @ body"
  have len: "length (MapCRC h) = 4" "length GMagic = 8"
    using assms by (simp_all add: header_ok_def GMagic_def)
  have d: "d = GMagic @ [Version h] @ pad_field 16 (Owner h) @ pad_field 64 (Map h) @ MapCRC h @
      put_be32 (NumTicks h) @ put_be32 (Time h) @ tail"
    by (simp add: d_def appendHeader_def tail_def MaxNameLength_def MapNameLength_def)
  have parts: "take 8 d = GMagic" "d ! 8 = Version h" "slice d 9 16 = pad_field 16 (Owner h)"
    "slice d 25 64 = pad_field 64 (Map h)" "slice d 89 4 = MapCRC h"
    "slice d 93 4 = put_be32 (NumTicks h)" "slice d 97 4 = put_be32 (Time h)" "drop 101 d = tail"
    by (simp_all add: d slice_def nth_append len)
  have bs: "\<not> length d < base_size"
    by (simp add: d base_size_def len MaxNameLength_def MapNameLength_def)
  have names: "nulString (pad_field 16 (Owner h)) = Inr (Owner h)"
    "nulString (pad_field 64 (Map h)) = Inr (Map h)"
    using assms by (simp_all add: header_ok_def nulString_def cut_nul_pad_field MaxNameLength_def MapNameLength_def)
  have sha: "Version h \<ge> 6 \<Longrightarrow> slice d 101 32 = MapSha256 h \<and> \<not> length d < 101 + 32"
    using assms parts(8) by (simp add: header_ok_def slice_def tail_def Sha256Size_def) (simp add: d len tail_def)
  have size: "length (appendHeader [] h) = 101 + (if Version h \<ge> 6 then 32 else 0)"
    using assms by (simp add: appendHeader_def header_ok_def Let_def len MaxNameLength_def MapNameLength_def Sha256Size_def)
  have v: "\<not> (Version h < MinVersion \<or> Version h > GVersion)"
    using assms by (auto simp: header_ok_def)
  have be: "get_be32 (put_be32 (NumTicks h)) = NumTicks h" "get_be32 (put_be32 (Time h)) = Time h"
    using assms by (simp_all add: header_ok_def u32_id)
  have low: "Version h < 6 \<Longrightarrow> MapSha256 h = replicate 32 0"
    using assms by (simp add: header_ok_def Sha256Size_def)
  have "parseHeader d = Inr (h, length (appendHeader [] h))"
    unfolding parseHeader_def len parts MaxNameLength_def MapNameLength_def Sha256Size_def Let_def names be
    using bs v sha low size by (cases h) (auto simp: not_le)
  then show ?thesis by (simp add: d_def)
qed

lemma take_run_split:
  "take_run ty k cs = (items, rest) \<Longrightarrow>
   \<exists>run. cs = run @ rest \<and> items = map chunk_fields run \<and> length run \<le> k \<and>
     (\<forall>c \<in> set run. dataType c = ty)"
proof (induction ty k cs arbitrary: items rule: take_run.induct)
  case (1 ty k)
  then show ?case by simp
next
  case (2 ty k c cs)
  show ?case
  proof (cases "0 < k \<and> dataType c = ty")
    case True
    then obtain items' where r: "take_run ty (k - 1) cs = (items', rest)"
      and items: "items = chunk_fields c # items'"
      using "2.prems" by (auto split: prod.splits)
    obtain run where "cs = run @ rest" "items' = map chunk_fields run" "length run \<le> k - 1"
      "\<forall>c \<in> set run. dataType c = ty" using "2.IH" [OF True r] by blast
    with True items show ?thesis by (intro exI [of _ "c # run"]) auto
  next
    case False
    with "2.prems" show ?thesis by auto
  qed
qed

lemma uniform_append: "uniform (run @ rest) \<Longrightarrow> uniform rest"
  by (induction run rule: induct_list012) (auto elim: uniform.elims)

lemma uniform_run:
  "uniform (c # run @ rest) \<Longrightarrow> \<forall>d \<in> set run. dataType d = dataType c \<Longrightarrow>
   \<forall>d \<in> set run. length (chunk_fields d) = length (chunk_fields c)"
  by (induction run arbitrary: c) (auto simp: uniform.simps)

context varint_contract begin

lemma written_chunks_parse:
  assumes H: "huffman_inverse H"
  shows "write_chunks L H b cs = Inr out \<Longrightarrow> list_all chunk_ok cs \<Longrightarrow> uniform cs \<Longrightarrow>
    \<exists>body. out = b @ body \<and> parse_chunks L H body = Inr cs"
proof (induction "length cs" arbitrary: b cs rule: less_induct)
  case less
  show ?case
  proof (cases cs)
    case Nil
    with less.prems show ?thesis
      by (subst parse_chunks.simps) (simp add: write_chunks.simps)
  next
    case (Cons c cs')
    obtain items rest where tr: "take_run (dataType c) NumItemsPerChunk (c # cs') = (items, rest)"
      by fastforce
    obtain run where run: "c # cs' = run @ rest" "items = map chunk_fields run"
      "length run \<le> NumItemsPerChunk" "\<forall>d \<in> set run. dataType d = dataType c"
      using take_run_split [OF tr] by blast
    have "items \<noteq> []" using tr by (auto simp: NumItemsPerChunk_def split: prod.splits)
    then obtain run' where run': "run = c # run'" using run(1,2) by (cases run) auto
    obtain b1 where ap: "appendPhysicalChunk L H b (dataType c) items = Inr b1"
      and wr: "write_chunks L H b1 rest = Inr out"
      using less.prems(1) tr by (auto simp: Cons write_chunks.simps attempt_eq_Inr)
    have ok: "list_all chunk_ok run" "list_all chunk_ok rest" "chunk_ok c"
      using less.prems(2) run(1) run' by (auto simp: Cons)
    have un: "uniform (c # run' @ rest)" using less.prems(3) run(1) run' by (simp add: Cons)
    have "\<forall>d \<in> set run'. dataType d = dataType c"
      using run(4) unfolding run' by (metis list.set_intros(2))
    from uniform_run [OF un this] have "\<forall>d \<in> set run. length (chunk_fields d) = length (chunk_fields c)"
      unfolding run' by (metis set_ConsD)
    then have each: "list_all (\<lambda>it. length it = length (chunk_fields c) \<and> list_all in_s32 it) items"
      using ok(1) chunk_okD(2) by (auto simp: run(2) list_all_iff)
    obtain ph payload where ph: "b1 = b @ ph" "ph \<noteq> []"
      "\<forall>rest. splitChunk (ph @ rest) = Inr (dataType c, int (length items), payload, rest)"
      "decodePhysicalChunk L H (dataType c) (int (length items)) payload =
        Inr (map (chunkFromFields (dataType c)) items)"
      using physical_chunk [OF H ap \<open>items \<noteq> []\<close> _ each] run(2,3) chunk_okD [OF ok(3)] by auto
    have "map (chunkFromFields (dataType c)) items = run"
    proof -
      have "chunkFromFields (dataType c) (chunk_fields d) = d" if "d \<in> set run" for d
        using that ok(1) run(4) chunk_okD(1) [of d] by (metis list_all_iff)
      then show ?thesis by (simp add: run(2) map_idI)
    qed
    moreover have "length rest < length cs"
      using arg_cong [OF run(1), of length] by (simp add: Cons run')
    then obtain body where "out = b1 @ body" "parse_chunks L H body = Inr rest"
      using less.hyps [OF _ wr ok(2)] uniform_append [of "c # run'"] un by auto
    ultimately show ?thesis
      using ph run(1)
      by (intro exI [of _ "ph @ body"]) (subst parse_chunks.simps, simp add: Cons)
  qed
qed

end

section \<open>The streaming decoder agrees with the parser\<close>

lemma GNext_progress:
  "GNext L H d = (Inr c, d') \<Longrightarrow>
   length (gr d') < length (gr d) \<or>
   gr d' = gr d \<and> gpending d' = gpending d \<and> gidx d' = gidx d + 1 \<and> gidx d < length (gpending d)"
proof (induction L H d rule: GNext.induct)
  case (1 L H d)
  show ?case
  proof (cases "gidx d \<ge> length (gpending d) \<and> \<not> gdone d")
    case True
    then obtain d1 where d1: "readChunk L H d = (Inr (), d1)" and rest: "GNext L H d1 = (Inr c, d')"
      using "1.prems" by (subst (asm) GNext.simps) (auto split: prod.splits sum.splits)
    from "1.IH" [OF _ _ d1 [symmetric] _ rest] True readChunk_shrinks [OF d1] show ?thesis by auto
  next
    case False
    with "1.prems" show ?thesis by (subst (asm) GNext.simps) (auto split: if_splits)
  qed
qed

function gdecodeAll :: "varint_lib \<Rightarrow> huff_lib \<Rightarrow> gdecoder \<Rightarrow> goerr + gchunk list" where
  "gdecodeAll L H d =
     (case GNext L H d of
        (Inl e, d') \<Rightarrow> if e = IoEOF then Inr [] else Inl e
      | (Inr c, d') \<Rightarrow> attempt (gdecodeAll L H d') (\<lambda>cs. Inr (c # cs)))"
  by auto
termination
  by (relation "measures [\<lambda>(L, H, d). length (gr d), \<lambda>(L, H, d). length (gpending d) - gidx d]")
    (auto dest!: GNext_progress [OF sym])

declare gdecodeAll.simps [simp del]

lemma wrap_err_not_eof [simp]: "wrap_err m a e \<noteq> IoEOF"
  by (cases e) auto

lemma decodePhysicalChunk_error: "decodePhysicalChunk L H ty n p = Inl e \<Longrightarrow> e \<noteq> IoEOF"
  unfolding decodePhysicalChunk_def
  by (cases "Decompress H p")
    (auto simp: attempt_def wrap_res_def Let_def split: if_splits sum.splits)

lemma decodePhysicalChunk_nonempty: "decodePhysicalChunk L H ty n p = Inr cs \<Longrightarrow> cs \<noteq> []"
  unfolding decodePhysicalChunk_def by (auto simp: attempt_eq_Inr Let_def split: if_splits)

lemma readChunk_splitChunk:
  assumes "gr d \<noteq> []"
  shows "case splitChunk (gr d) of
      Inl e \<Rightarrow> \<not> is_panic e \<and> (\<exists>e' d'. readChunk L H d = (Inl e', d') \<and> e' \<noteq> IoEOF \<and> \<not> is_panic e')
    | Inr (ty, n, payload, rest) \<Rightarrow>
        length rest < length (gr d) \<and>
        readChunk L H d =
          (case decodePhysicalChunk L H ty n payload of
             Inl e \<Rightarrow> (Inl e, d\<lparr>gr := rest\<rparr>)
           | Inr chunks \<Rightarrow> (Inr (), d\<lparr>gr := rest, gpending := chunks, gidx := 0\<rparr>))"
proof (cases "length (gr d) < 4")
  case True
  with assms show ?thesis by (simp add: splitChunk_def readChunk_def ReadFull_def unexpected_def)
next
  case False
  then obtain b0 b1 b2 b3 bs where gr: "gr d = b0 # b1 # b2 # b3 # bs"
    by (auto simp: not_less numeral_eq_Suc Suc_le_length_iff)
  define sz where "sz = push_bit 8 (uint b2) OR uint b3"
  have head: "take 4 (gr d) = [b0, b1, b2, b3]" "drop 4 (gr d) = bs" "length (gr d) = 4 + length bs"
    by (simp_all add: gr numeral_eq_Suc)
  show ?thesis
  proof (cases "sz \<le> 0 \<or> sz > MaxChunkSize")
    case True
    with head False show ?thesis
      by (simp add: splitChunk_def readChunk_def ReadFull_def gr sz_def Let_def)
  next
    case False
    then have n: "nat sz \<le> length bs \<longleftrightarrow> \<not> int (length (gr d)) < 4 + sz" by (auto simp: head)
    have parts: "slice (gr d) 4 k = take k bs" "drop (4 + k) (gr d) = drop k bs" for k
      using head(2) by (simp_all add: slice_def add.commute [of 4] flip: drop_drop)
    have spl: "splitChunk (gr d) =
        (if nat sz \<le> length bs then Inr (uint b0, uint b1, take (nat sz) bs, drop (nat sz) bs)
         else Inl (Wrap ''ghost: chunk data truncated'' [] IoUnexpectedEOF))"
      unfolding n splitChunk_def Let_def parts using False head(3) by (simp add: gr sz_def)
    have "readChunk L H d =
        (case ReadFull (nat sz) bs of
           (Inl e, bs') \<Rightarrow> (Inl (wrap_err ''ghost: chunk data'' [] (unexpected e)), d\<lparr>gr := bs'\<rparr>)
         | (Inr payload, bs') \<Rightarrow>
             (case decodePhysicalChunk L H (uint b0) (uint b1) payload of
                Inl e \<Rightarrow> (Inl e, d\<lparr>gr := bs'\<rparr>)
              | Inr chunks \<Rightarrow> (Inr (), d\<lparr>gr := bs', gpending := chunks, gidx := 0\<rparr>)))"
      unfolding readChunk_def using False head by (simp add: ReadFull_def Let_def sz_def)
    with spl show ?thesis
      by (auto simp: ReadFull_def unexpected_def head(3) split: sum.splits)
  qed
qed

lemma gdecodeAll_parse:
  "\<not> gdone d \<Longrightarrow> gidx d \<le> length (gpending d) \<Longrightarrow>
   same_result
     (attempt (parse_chunks L H (gr d)) (\<lambda>cs. Inr (drop (gidx d) (gpending d) @ cs)))
     (gdecodeAll L H d)"
proof (induction L H d rule: gdecodeAll.induct)
  case (1 L H d)
  have cons: "same_result r s \<Longrightarrow> same_result (attempt r (\<lambda>cs. Inr (c # cs))) (attempt s (\<lambda>cs. Inr (c # cs)))"
    for r s :: "goerr + gchunk list" and c by (cases r; cases s) auto
  have two: "attempt (attempt r (\<lambda>cs. Inr (xs @ cs))) (\<lambda>cs. Inr (c # cs)) = attempt r (\<lambda>cs. Inr ((c # xs) @ cs))"
    for r :: "goerr + gchunk list" and xs c by (cases r) auto
  show ?case
  proof (cases "gidx d < length (gpending d)")
    case True
    let ?c = "gpending d ! gidx d" and ?d = "d\<lparr>gidx := gidx d + 1\<rparr>"
    have nx: "GNext L H d = (Inr ?c, ?d)" using True by (subst GNext.simps) simp
    have "drop (gidx d) (gpending d) = ?c # drop (gidx d + 1) (gpending d)"
      using True by (simp add: Cons_nth_drop_Suc)
    moreover have "same_result (attempt (parse_chunks L H (gr ?d)) (\<lambda>cs. Inr (drop (gidx ?d) (gpending ?d) @ cs)))
        (gdecodeAll L H ?d)"
      using "1.IH" [OF nx [symmetric] refl] "1.prems" True by simp
    then have "same_result (attempt (parse_chunks L H (gr d))
        (\<lambda>cs. Inr ((?c # drop (gidx d + 1) (gpending d)) @ cs))) (gdecodeAll L H d)"
      unfolding two [symmetric] by (subst gdecodeAll.simps) (simp add: nx cons)
    ultimately show ?thesis by simp
  next
    case False
    then have at_end: "gidx d = length (gpending d)" using "1.prems"(2) by simp
    have un: "GNext L H d = (case readChunk L H d of (Inl e, d') \<Rightarrow> (Inl e, d') | (Inr _, d') \<Rightarrow> GNext L H d')"
      using at_end "1.prems"(1) by (subst GNext.simps) simp
    show ?thesis
    proof (cases "gr d = []")
      case True
      then have "fst (GNext L H d) = Inl IoEOF" by (simp add: un readChunk_def ReadFull_def)
      then have "gdecodeAll L H d = Inr []" by (subst gdecodeAll.simps) (cases "GNext L H d", simp)
      with True at_end show ?thesis by (subst parse_chunks.simps) simp
    next
      case ne: False
      show ?thesis
      proof (cases "splitChunk (gr d)")
        case (Inl e)
        with readChunk_splitChunk [OF ne, of L H] obtain e' d' where
          "readChunk L H d = (Inl e', d')" "e' \<noteq> IoEOF" "\<not> is_panic e'" "\<not> is_panic e" by auto
        with Inl ne show ?thesis
          by (subst parse_chunks.simps, subst gdecodeAll.simps) (simp add: un)
      next
        case (Inr p)
        obtain ty n payload rest where p: "p = (ty, n, payload, rest)" by (cases p)
        let ?dec = "decodePhysicalChunk L H ty n payload"
        let ?d1 = "\<lambda>cs. d\<lparr>gr := rest, gpending := cs, gidx := 0\<rparr>"
        have rd: "readChunk L H d = (case ?dec of Inl e \<Rightarrow> (Inl e, d\<lparr>gr := rest\<rparr>)
            | Inr chunks \<Rightarrow> (Inr (), ?d1 chunks))"
          using readChunk_splitChunk [OF ne, of L H] by (simp add: Inr p)
        have pc: "parse_chunks L H (gr d) = attempt ?dec (\<lambda>cs. attempt (parse_chunks L H rest) (\<lambda>cs1. Inr (cs @ cs1)))"
          using ne by (subst parse_chunks.simps) (simp add: Inr p)
        show ?thesis
        proof (cases ?dec)
          case (Inl e)
          with rd pc at_end decodePhysicalChunk_error [OF Inl] show ?thesis
            by (subst gdecodeAll.simps) (simp add: un)
        next
          case (Inr cs)
          then obtain c cs' where cs: "cs = c # cs'"
            using decodePhysicalChunk_nonempty [OF Inr] by (cases cs) auto
          let ?d2 = "(?d1 cs)\<lparr>gidx := 1\<rparr>"
          have nx: "GNext L H d = (Inr c, ?d2)"
            using rd by (simp add: un Inr, subst GNext.simps) (simp add: cs)
          have "same_result (attempt (parse_chunks L H rest) (\<lambda>cs1. Inr (cs' @ cs1))) (gdecodeAll L H ?d2)"
            using "1.IH" [OF nx [symmetric] refl] "1.prems"(1) by (simp add: cs)
          then have "same_result (attempt (parse_chunks L H rest) (\<lambda>cs1. Inr ((c # cs') @ cs1))) (gdecodeAll L H d)"
            unfolding two [symmetric] by (subst gdecodeAll.simps) (simp add: nx cons)
          moreover have "attempt (parse_chunks L H (gr d)) (\<lambda>cs. Inr (drop (gidx d) (gpending d) @ cs)) =
              attempt (parse_chunks L H rest) (\<lambda>cs1. Inr ((c # cs') @ cs1))"
            using at_end by (cases "parse_chunks L H rest") (simp_all add: pc Inr cs)
          ultimately show ?thesis by simp
        qed
      qed
    qed
  qed
qed

lemma parseHeader_no_panic: "parseHeader d = Inl e \<Longrightarrow> \<not> is_panic e"
  by (auto simp: parseHeader_def Let_def attempt_def wrap_res_def nulString_def
      split: if_splits sum.splits option.splits)

lemma base_size_eq: "base_size = 101"
  by (simp add: base_size_def GMagic_def MaxNameLength_def MapNameLength_def)

text \<open>The header depends only on its own bytes.\<close>

lemma parseHeader_take:
  assumes "101 \<le> k" "k \<le> length d" "d ! 8 < 6 \<or> 133 \<le> k"
  shows "parseHeader (take k d) = parseHeader d"
proof -
  have len: "length GMagic = 8" by (simp add: GMagic_def)
  have sl: "slice (take k d) p n = slice d p n" if "p + n \<le> k" for p n
    using that by (simp add: slice_def drop_take min_def)
  have parts: "take 8 (take k d) = take 8 d" "(take k d) ! 8 = d ! 8"
    "slice (take k d) 9 16 = slice d 9 16" "slice (take k d) 25 64 = slice d 25 64"
    "slice (take k d) 89 4 = slice d 89 4" "slice (take k d) 93 4 = slice d 93 4"
    "slice (take k d) 97 4 = slice d 97 4" "length (take k d) = k"
    "\<not> k < 101" "\<not> length d < 101"
    using assms by (simp_all add: sl min_def)
  have sha: "133 \<le> k \<Longrightarrow> slice (take k d) 101 32 = slice d 101 32" by (simp add: sl)
  show ?thesis
    unfolding parseHeader_def base_size_eq len parts MaxNameLength_def MapNameLength_def Sha256Size_def
    using assms sha by (auto simp: parts Let_def attempt_def split: sum.splits)
qed

lemma parseHeader_size:
  "parseHeader d = Inr (h, n) \<Longrightarrow> 101 \<le> length d \<and> n = (if d ! 8 < 6 then 101 else 133) \<and> n \<le> length d"
  by (auto simp: parseHeader_def base_size_eq Let_def attempt_eq_Inr Sha256Size_def not_le not_less
      split: if_splits)

lemma readHeader_parseHeader:
  "case parseHeader bs of
     Inl e \<Rightarrow> (\<exists>e' s. readHeader bs = (Inl e', s) \<and> \<not> is_panic e')
   | Inr (h, n) \<Rightarrow> readHeader bs = (Inr h, drop n bs)"
proof (cases "length bs < 101")
  case True
  then have "parseHeader bs = Inl (Wrap ''ghost: too short for header'' [] IoUnexpectedEOF)"
    by (simp add: parseHeader_def base_size_eq)
  with True show ?thesis
    by (simp add: readHeader_def bnd_def wrapped_def on_err_def ReadFull_def base_size_eq unexpected_def)
next
  case False
  have len: "length GMagic = 8" by (simp add: GMagic_def)
  have buf: "ReadFull base_size bs = (Inr (take 101 bs), drop 101 bs)" "take 101 bs ! 8 = bs ! 8"
    using False by (simp_all add: ReadFull_def base_size_eq)
  show ?thesis
  proof (cases "bs ! 8 < 6")
    case True
    have rd: "readHeader bs = (case parseHeader bs of Inl e \<Rightarrow> (Inl e, drop 101 bs)
        | Inr (h, n) \<Rightarrow> (Inr h, drop 101 bs))"
      using False True parseHeader_take [of 101 bs]
      by (simp add: readHeader_def bnd_def wrapped_def on_err_def buf len not_le liftr_def split: sum.splits)
    show ?thesis
      using True parseHeader_no_panic [of bs] parseHeader_size [of bs]
      by (auto simp: rd split: sum.splits)
  next
    case v6: False
    show ?thesis
    proof (cases "133 \<le> length bs")
      case True
      have "ReadFull Sha256Size (drop 101 bs) = (Inr (take 32 (drop 101 bs)), drop 133 bs)"
        using True by (simp add: ReadFull_def Sha256Size_def)
      moreover have "take 101 bs @ take 32 (drop 101 bs) = take 133 bs"
        using take_add [of 101 32 bs] by simp
      ultimately have rd: "readHeader bs = (case parseHeader bs of Inl e \<Rightarrow> (Inl e, drop 133 bs)
          | Inr (h, n) \<Rightarrow> (Inr h, drop 133 bs))"
        using v6 True parseHeader_take [of 133 bs]
        by (simp add: readHeader_def bnd_def wrapped_def on_err_def buf len not_less liftr_def split: sum.splits)
      show ?thesis
        using v6 parseHeader_no_panic [of bs] parseHeader_size [of bs]
        by (auto simp: rd split: sum.splits)
    next
      case short: False
      then have "\<not> (\<exists>h n. parseHeader bs = Inr (h, n))" using v6 parseHeader_size by fastforce
      then obtain e where "parseHeader bs = Inl e" by (metis sumE surj_pair)
      moreover have "fst (ReadFull Sha256Size (drop 101 bs)) \<in> {Inl IoEOF, Inl IoUnexpectedEOF}"
        using short by (simp add: ReadFull_def Sha256Size_def) arith
      then have "\<exists>e' s. readHeader bs = (Inl e', s) \<and> \<not> is_panic e'"
        using v6 by (cases "ReadFull Sha256Size (drop 101 bs)")
          (auto simp: readHeader_def bnd_def wrapped_def on_err_def buf len not_less unexpected_def)
      ultimately show ?thesis by simp
    qed
  qed
qed

lemma streaming_ghost:
  "same_result (GParse L H d)
     (attempt (GNewDecoder d) (\<lambda>dec. attempt (gdecodeAll L H dec) (\<lambda>cs. Inr \<lparr>GHeader = ghdr dec, Chunks = cs\<rparr>)))"
proof (cases "parseHeader d")
  case (Inl e)
  with readHeader_parseHeader [of d] parseHeader_no_panic [OF Inl] show ?thesis
    by (auto simp: GParse_def GNewDecoder_def)
next
  case (Inr p)
  obtain h n where p: "p = (h, n)" by fastforce
  let ?dec = "\<lparr>gr = drop n d, ghdr = h, gpending = [], gidx = 0, gdone = False\<rparr>"
  have "GNewDecoder d = Inr ?dec"
    using readHeader_parseHeader [of d] by (simp add: GNewDecoder_def Inr p)
  moreover have "same_result (attempt (parse_chunks L H (drop n d)) Inr) (gdecodeAll L H ?dec)"
    using gdecodeAll_parse [of ?dec L H] by simp
  ultimately show ?thesis
    by (cases "parse_chunks L H (drop n d)"; cases "gdecodeAll L H ?dec")
      (simp_all add: GParse_def Inr p)
qed

section \<open>The streaming encoder writes the same bytes\<close>

fun gwrite_all ::
  "varint_lib \<Rightarrow> huff_lib \<Rightarrow> 'w writer \<Rightarrow> gchunk list \<Rightarrow> ('w gencoder, unit) gost" where
  "gwrite_all L H W [] enc = GClose L H W enc"
| "gwrite_all L H W (c # cs) enc = bnd (GWrite L H W c) (\<lambda>_. gwrite_all L H W cs) enc"

lemma appendPhysicalChunk_prefix:
  "appendPhysicalChunk L H b ty items = map_sum id ((@) b) (appendPhysicalChunk L H [] ty items)"
  by (cases items; cases "diff_items (hd items) (tl items)";
      cases "Compress H (foldl (AppendInt L) [] (hd items @ projr (diff_items (hd items) (tl items))))")
    (auto simp: appendPhysicalChunk_def Let_def)

lemma write_chunks_prefix:
  "write_chunks L H b cs = map_sum id ((@) b) (write_chunks L H [] cs)"
proof (induction "length cs" arbitrary: b cs rule: less_induct)
  case less
  show ?case
  proof (cases cs)
    case Nil
    then show ?thesis by (simp add: write_chunks.simps)
  next
    case (Cons c cs')
    obtain items rest where tr: "take_run (dataType c) NumItemsPerChunk (c # cs') = (items, rest)"
      by fastforce
    have IH: "write_chunks L H x rest = map_sum id ((@) x) (write_chunks L H [] rest)" for x
      by (rule less.hyps) (use take_run_Cons [OF tr] in \<open>simp add: Cons\<close>)
    show ?thesis
    proof (cases "appendPhysicalChunk L H [] (dataType c) items")
      case (Inl e)
      then show ?thesis
        by (simp add: Cons write_chunks.simps tr del: take_run.simps)
          (simp add: appendPhysicalChunk_prefix [of L H b])
    next
      case (Inr x)
      then have "appendPhysicalChunk L H b (dataType c) items = Inr (b @ x)"
        by (simp add: appendPhysicalChunk_prefix [of L H b])
      with Inr IH [of "b @ x"] IH [of x] show ?thesis
        by (cases "write_chunks L H [] rest")
          (simp_all add: Cons write_chunks.simps tr del: take_run.simps)
    qed
  qed
qed

lemma take_run_run:
  "\<forall>c \<in> set run. dataType c = ty \<Longrightarrow> length run \<le> k \<Longrightarrow>
   (cs = [] \<or> dataType (hd cs) \<noteq> ty \<or> length run = k) \<Longrightarrow>
   take_run ty k (run @ cs) = (map chunk_fields run, cs)"
  by (induction run arbitrary: k) (cases cs; force)+

lemma write_chunks_run:
  assumes "run \<noteq> []" "\<forall>c \<in> set run. dataType c = ty" "length run \<le> NumItemsPerChunk"
    and "cs = [] \<or> dataType (hd cs) \<noteq> ty \<or> length run = NumItemsPerChunk"
  shows "write_chunks L H [] (run @ cs) =
    attempt (appendPhysicalChunk L H [] ty (map chunk_fields run))
      (\<lambda>b. map_sum id ((@) b) (write_chunks L H [] cs))"
proof -
  obtain r0 run' where run: "run = r0 # run'" "dataType r0 = ty" using assms(1,2) by (cases run) auto
  have "write_chunks L H [] (run @ cs) =
      attempt (appendPhysicalChunk L H [] ty (map chunk_fields run)) (\<lambda>b. write_chunks L H b cs)"
    using take_run_run [OF assms(2-4)]
    by (simp add: run write_chunks.simps del: take_run.simps)
  then show ?thesis by (simp only: write_chunks_prefix [of L H _ cs, symmetric])
qed

context sink begin

lemma flush_content:
  assumes "gitems enc \<noteq> []" and "appendPhysicalChunk L H [] (gtyp enc) (gitems enc) = Inr b"
  shows "\<exists>w. flush L H W enc = (Inr (), enc\<lparr>gitems := [], gew := w\<rparr>) \<and> content w = content (gew enc) @ b"
proof -
  obtain w where "W b (gew enc) = (Inr (int (length b)), w)" "content w = content (gew enc) @ b"
    by (rule writeE)
  with assms show ?thesis by (intro exI [of _ w]) (simp add: flush_def)
qed

lemma gwrite_all_content:
  "write_chunks L H [] (run @ cs) = Inr out \<Longrightarrow>
   gitems enc = map chunk_fields run \<Longrightarrow> \<forall>c \<in> set run. dataType c = gtyp enc \<Longrightarrow>
   length run \<le> NumItemsPerChunk \<Longrightarrow>
   \<exists>enc'. gwrite_all L H W cs enc = (Inr (), enc') \<and> content (gew enc') = content (gew enc) @ out"
proof (induction cs arbitrary: run enc out)
  case Nil
  show ?case
  proof (cases "run = []")
    case True
    with Nil.prems show ?thesis by (simp add: GClose_def flush_def write_chunks.simps)
  next
    case False
    note eq = write_chunks_run [OF False Nil.prems(3,4), of "[]" L H, simplified]
    have "appendPhysicalChunk L H [] (gtyp enc) (gitems enc) = Inr out"
      using Nil.prems(1,2) by (simp add: eq write_chunks.simps)
    with flush_content [of enc] Nil.prems(2) False show ?thesis
      by (fastforce simp: GClose_def)
  qed
next
  case (Cons c cs)
  have full_eq: "length run \<ge> NumItemsPerChunk \<longleftrightarrow> length run = NumItemsPerChunk"
    using Cons.prems(4) by auto
  show ?case
  proof (cases "run \<noteq> [] \<and> (dataType c \<noteq> gtyp enc \<or> length run = NumItemsPerChunk)")
    case True
    then have "write_chunks L H [] (run @ c # cs) =
        attempt (appendPhysicalChunk L H [] (gtyp enc) (map chunk_fields run))
          (\<lambda>b. map_sum id ((@) b) (write_chunks L H [] (c # cs)))"
      using Cons.prems(3,4) by (intro write_chunks_run) auto
    with Cons.prems(1) have "attempt (appendPhysicalChunk L H [] (gtyp enc) (map chunk_fields run))
          (\<lambda>b. map_sum id ((@) b) (write_chunks L H [] (c # cs))) = Inr out"
      by simp
    then obtain b out' where b: "appendPhysicalChunk L H [] (gtyp enc) (gitems enc) = Inr b"
      and out': "write_chunks L H [] ([c] @ cs) = Inr out'" and out: "out = b @ out'"
      using Cons.prems(2)
      by (cases "write_chunks L H [] (c # cs)") (auto simp: attempt_eq_Inr)
    obtain w where w: "flush L H W enc = (Inr (), enc\<lparr>gitems := [], gew := w\<rparr>)"
      "content w = content (gew enc) @ b"
      using flush_content [OF _ b] Cons.prems(2) True by auto
    let ?enc = "enc\<lparr>gitems := [chunk_fields c], gew := w, gtyp := dataType c\<rparr>"
    have "GWrite L H W c enc = (Inr (), ?enc)"
      using True w Cons.prems(2) by (simp add: GWrite_def bnd_def full_eq)
    moreover have "\<exists>enc'. gwrite_all L H W cs ?enc = (Inr (), enc') \<and>
        content (gew enc') = content (gew ?enc) @ out'"
      by (rule Cons.IH [OF out']) (simp_all add: NumItemsPerChunk_def)
    ultimately show ?thesis using out w(2) by auto
  next
    case False
    let ?enc = "enc\<lparr>gitems := gitems enc @ [chunk_fields c], gtyp := dataType c\<rparr>"
    have gw: "GWrite L H W c enc = (Inr (), ?enc)"
      using False Cons.prems(2) by (auto simp: GWrite_def bnd_def full_eq)
    have fits: "length (run @ [c]) \<le> NumItemsPerChunk"
      using False Cons.prems(4) by (auto simp: NumItemsPerChunk_def)
    have "\<exists>enc'. gwrite_all L H W cs ?enc = (Inr (), enc') \<and>
        content (gew enc') = content (gew ?enc) @ out"
      using Cons.prems False fits by (intro Cons.IH [of "run @ [c]"]) auto
    with gw show ?thesis by simp
  qed
qed

end

section \<open>Properties\<close>

text \<open>
  Round trip of a ghost file. When \<open>WriteTo\<close> produces bytes for a file with a
  representable header and items, in which neighbours of one type have the same number of
  fields, \<open>Parse\<close> reads back the same file: fixed header, grouping into physical chunks,
  differences modulo \<open>2 ^ 32\<close>, integer packing and compression all undo.
\<close>

theorem written_ghost_parses:
  assumes "varint_contract L" and "huffman_inverse H" and "header_ok (GHeader f)"
    and "list_all chunk_ok (Chunks f)" and "uniform (Chunks f)" and "gfile_bytes L H f = Inr d"
  shows "GParse L H d = Inr f"
proof -
  obtain body where d: "d = appendHeader [] (GHeader f) @ body"
    and body: "parse_chunks L H body = Inr (Chunks f)"
    using varint_contract.written_chunks_parse [OF assms(1,2) _ assms(4,5)] assms(6)
    unfolding gfile_bytes_def by blast
  then show ?thesis
    by (simp add: GParse_def parseHeader_written [OF assms(3)])
qed

definition sample_ghost :: gfile where
  "sample_ghost =
     \<lparr>GHeader = \<lparr>Version = 6, Owner = [65], Map = [66, 67], MapCRC = [0, 0, 0, 0], NumTicks = 2,
        Time = 70000, MapSha256 = replicate 32 7\<rparr>,
      Chunks = [StartTick 5, Raw 9 [1, - 2], Raw 9 [2147483647, 4]]\<rparr>"

lemma sample_ghost_writes:
  "case gfile_bytes wire_lib plain_huffman sample_ghost of Inl e \<Rightarrow> False | Inr d \<Rightarrow> True"
  by code_simp

theorem written_ghost_parses_witness:
  "GParse wire_lib plain_huffman (projr (gfile_bytes wire_lib plain_huffman sample_ghost)) = Inr sample_ghost"
proof -
  have "gfile_bytes wire_lib plain_huffman sample_ghost =
      Inr (projr (gfile_bytes wire_lib plain_huffman sample_ghost))"
    using sample_ghost_writes by (auto split: sum.splits)
  moreover have "header_ok (GHeader sample_ghost)" "list_all chunk_ok (Chunks sample_ghost)"
    "uniform (Chunks sample_ghost)"
    by (simp_all add: sample_ghost_def header_ok_def in_s32_def MinVersion_def GVersion_def
        MaxNameLength_def MapNameLength_def Sha256Size_def type_defs)
  ultimately show ?thesis
    using written_ghost_parses [OF wire.varint_contract_axioms plain_huffman_inverse] by blast
qed

text \<open>
  The streaming decoder of ghost files agrees with \<open>Parse\<close> on every input: the header and
  the items of \<open>Next\<close> until \<open>io.EOF\<close> are those of \<open>Parse\<close>, or both fail.
\<close>

theorem ghost_streaming_equals_parse:
  "same_result (GParse L H d)
     (attempt (GNewDecoder d) (\<lambda>dec.
      attempt (gdecodeAll L H dec) (\<lambda>cs. Inr \<lparr>GHeader = ghdr dec, Chunks = cs\<rparr>)))"
  by (rule streaming_ghost)

text \<open>
  The streaming encoder of ghost files writes the bytes of \<open>WriteTo\<close>: whenever \<open>WriteTo\<close>
  succeeds on a writer that appends, \<open>NewEncoder\<close>, one \<open>Write\<close> per item and \<open>Close\<close> succeed
  and leave the same content.
\<close>

theorem ghost_encoder_equals_WriteTo:
  assumes "sink W content" and "gfile_bytes L H f = Inr d"
  shows "\<exists>enc enc' w' n. GNewEncoder W w (GHeader f) = Inr enc
    \<and> gwrite_all L H W (Chunks f) enc = (Inr (), enc')
    \<and> GWriteTo L H W f w = (Inr n, w')
    \<and> content (gew enc') = content w' \<and> content w' = content w @ d"
proof -
  let ?h = "appendHeader [] (GHeader f)"
  obtain w1 where w1: "W ?h w = (Inr (int (length ?h)), w1)" "content w1 = content w @ ?h"
    by (rule sink.writeE [OF assms(1)])
  let ?enc = "\<lparr>gew = w1, gtyp = 0, gitems = []\<rparr>"
  obtain body where body: "write_chunks L H [] (Chunks f) = Inr body" "d = ?h @ body"
    using assms(2) write_chunks_prefix [of L H ?h "Chunks f"]
    by (cases "write_chunks L H [] (Chunks f)") (auto simp: gfile_bytes_def)
  obtain enc' where "gwrite_all L H W (Chunks f) ?enc = (Inr (), enc')"
    "content (gew enc') = content w1 @ body"
    using sink.gwrite_all_content [OF assms(1), of L H "[]" "Chunks f" body ?enc] body(1) by auto
  moreover obtain w' where "W d w = (Inr (int (length d)), w')" "content w' = content w @ d"
    by (rule sink.writeE [OF assms(1)])
  ultimately show ?thesis
    using w1 body(2) assms(2) by (simp add: GNewEncoder_def GWriteTo_def)
qed

text \<open>
  A file that \<open>Parse\<close> accepts can make \<open>WriteTo\<close> panic: items of one type keep their own
  number of fields when they come from different physical chunks, but \<open>WriteTo\<close> groups by type
  alone and differences an item against a shorter predecessor.
\<close>

theorem rewrite_can_panic:
  assumes "varint_contract L" and "huffman_inverse H" and "header_ok h"
    and "chunk_ok (Raw ty a)" and "chunk_ok (Raw ty b)" and "length a < length b"
    and "appendPhysicalChunk L H (appendHeader [] h) ty [a] = Inr d1"
    and "appendPhysicalChunk L H d1 ty [b] = Inr d"
  shows "\<exists>f. GParse L H d = Inr f \<and> gfile_bytes L H f = Inl (Panic ''index out of range'')"
proof -
  let ?f = "\<lparr>GHeader = h, Chunks = [Raw ty a, Raw ty b]\<rparr>"
  note one = varint_contract.physical_chunk [OF assms(1,2)]
  note oka = chunk_okD [OF assms(4), simplified] and okb = chunk_okD [OF assms(5), simplified]
  obtain ca pa where a: "d1 = appendHeader [] h @ ca" "ca \<noteq> []"
    "\<forall>rest. splitChunk (ca @ rest) = Inr (ty, 1, pa, rest)"
    "decodePhysicalChunk L H ty 1 pa = Inr [Raw ty a]"
    using one [OF assms(7), of "length a"] oka by (auto simp: NumItemsPerChunk_def)
  obtain cb pb where b: "d = d1 @ cb" "cb \<noteq> []"
    "\<forall>rest. splitChunk (cb @ rest) = Inr (ty, 1, pb, rest)"
    "decodePhysicalChunk L H ty 1 pb = Inr [Raw ty b]"
    using one [OF assms(8), of "length b"] okb by (auto simp: NumItemsPerChunk_def)
  have "parse_chunks L H [] = Inr []" by (subst parse_chunks.simps) simp
  then have "parse_chunks L H cb = Inr [Raw ty b]"
    using b(2,4) spec [OF b(3), of "[]"] by (subst parse_chunks.simps) simp
  then have "parse_chunks L H (ca @ cb) = Inr [Raw ty a, Raw ty b]"
    using a(2-4) by (subst parse_chunks.simps) simp
  then have "GParse L H d = Inr ?f"
    by (simp add: GParse_def a(1) b(1) parseHeader_written [OF assms(3)])
  moreover have "diff_item b a = Inl (Panic ''index out of range'')"
    using assms(6) by (induction b a rule: diff_item.induct) simp_all
  then have "gfile_bytes L H ?f = Inl (Panic ''index out of range'')"
    by (simp add: gfile_bytes_def write_chunks.simps NumItemsPerChunk_def appendPhysicalChunk_def)
  ultimately show ?thesis by blast
qed

theorem rewrite_can_panic_witness:
  "\<exists>f. GParse wire_lib plain_huffman
      ((appendHeader [] (GHeader sample_ghost) @ [9, 1, 0, 2, 1, 0]) @ [9, 1, 0, 3, 1, 2, 0]) = Inr f
    \<and> gfile_bytes wire_lib plain_huffman f = Inl (Panic ''index out of range'')"
proof (rule rewrite_can_panic [OF wire.varint_contract_axioms plain_huffman_inverse])
  show "header_ok (GHeader sample_ghost)"
    by (simp add: sample_ghost_def header_ok_def MinVersion_def GVersion_def
        MaxNameLength_def MapNameLength_def Sha256Size_def)
  show "chunk_ok (Raw 9 [1])" "chunk_ok (Raw 9 [1, 2])" "length [1 :: int] < length [1 :: int, 2]"
    by (simp_all add: in_s32_def)
  have "appendPhysicalChunk wire_lib plain_huffman [] 9 [[1]] = Inr [9, 1, 0, 2, 1, 0]"
    "appendPhysicalChunk wire_lib plain_huffman [] 9 [[1, 2]] = Inr [9, 1, 0, 3, 1, 2, 0]"
    by code_simp+
  then show "appendPhysicalChunk wire_lib plain_huffman (appendHeader [] (GHeader sample_ghost)) 9 [[1]] =
      Inr (appendHeader [] (GHeader sample_ghost) @ [9, 1, 0, 2, 1, 0])"
    "appendPhysicalChunk wire_lib plain_huffman
        (appendHeader [] (GHeader sample_ghost) @ [9, 1, 0, 2, 1, 0]) 9 [[1, 2]] =
      Inr ((appendHeader [] (GHeader sample_ghost) @ [9, 1, 0, 2, 1, 0]) @ [9, 1, 0, 3, 1, 2, 0])"
    by (simp_all add: appendPhysicalChunk_prefix [of _ _ "appendHeader _ _"]
        appendPhysicalChunk_prefix [of _ _ "appendHeader _ _ @ _"])
qed

theorem ghost_encoder_equals_WriteTo_witness:
  "\<exists>enc enc' w' n. GNewEncoder buffer_write [] (GHeader sample_ghost) = Inr enc
    \<and> gwrite_all wire_lib plain_huffman buffer_write (Chunks sample_ghost) enc = (Inr (), enc')
    \<and> GWriteTo wire_lib plain_huffman buffer_write sample_ghost [] = (Inr n, w')
    \<and> gew enc' = w'
    \<and> w' = [] @ projr (gfile_bytes wire_lib plain_huffman sample_ghost)"
proof -
  have "gfile_bytes wire_lib plain_huffman sample_ghost =
      Inr (projr (gfile_bytes wire_lib plain_huffman sample_ghost))"
    using sample_ghost_writes by (auto split: sum.splits)
  from ghost_encoder_equals_WriteTo [OF buffer.sink_axioms this] show ?thesis .
qed

end
