(* ===== verification/Demo.thy ===== *)
theory Demo
  imports Stream Huffman
begin

text \<open>
  record/demo: the demo file format (demo.go) and its streaming decoder and encoder
  (stream.go). The varint codec \<open>L\<close> and the huffman codec \<open>H\<close> are parameters.
\<close>

section \<open>The preamble\<close>

definition DMagic :: "byte list" where
  "DMagic = map byte_of [0x54, 0x57, 0x44, 0x45, 0x4D, 0x4F, 0]"

definition versionOld :: int where "versionOld = 3"
definition versionTickCompression :: byte where "versionTickCompression = 5"
definition versionSha256 :: int where "versionSha256 = 6"
definition headerSize :: nat where "headerSize = 176"
definition maxTimelineMarkers :: nat where "maxTimelineMarkers = 64"
definition timelineSize :: nat where "timelineSize = 4 + maxTimelineMarkers * 4"
definition sha256DigestSize :: nat where "sha256DigestSize = 32"

definition sha256ExtensionUUID :: "byte list" where
  "sha256ExtensionUUID = map byte_of
     [0x6b, 0xe6, 0xda, 0x4a, 0xce, 0xbd, 0x38, 0x0c,
      0x9b, 0x5b, 0x12, 0x89, 0xc8, 0x42, 0xd7, 0x80]"

record dheader =
  Version :: byte
  NetVersion :: "byte list"
  MapName :: "byte list"
  MapSize :: int
  MapCrc :: int
  Type :: "byte list"
  Length :: int
  Timestamp :: "byte list"
  TimelineMarkers :: "int list"
  Sha256 :: "byte list option"
  MapData :: "byte list"

definition cstr :: "byte list \<Rightarrow> byte list" where
  "cstr b = (case cut_nul b of Some (before, _) \<Rightarrow> before | None \<Rightarrow> b)"

text \<open>\<open>b[p:q]\<close>\<close>

definition between :: "byte list \<Rightarrow> nat \<Rightarrow> nat \<Rightarrow> byte list" where
  "between b p q = take (q - p) (drop p b)"

definition parseFixedHeader :: "byte list \<Rightarrow> goerr + dheader" where
  "parseFixedHeader b =
     (if length b < headerSize then
        Inl (Err ''demo: header needs %d bytes, have %d'' [int headerSize, int (length b)])
      else if between b 0 7 \<noteq> DMagic then Inl (Err ''demo: bad magic'' [])
      else
        Inr \<lparr>Version = b ! 7, NetVersion = cstr (between b 8 72), MapName = cstr (between b 72 136),
             MapSize = get_be32 (between b 136 140), MapCrc = get_be32 (between b 140 144),
             Type = cstr (between b 144 152), Length = get_be32 (between b 152 156),
             Timestamp = cstr (between b 156 176),
             TimelineMarkers = [], Sha256 = None, MapData = []\<rparr>)"

definition marshalFixedHeader :: "dheader \<Rightarrow> byte list" where
  "marshalFixedHeader h =
     DMagic @ [Version h] @ pad_field 64 (NetVersion h) @ pad_field 64 (MapName h) @
     put_be32 (MapSize h) @ put_be32 (MapCrc h) @ pad_field 8 (Type h) @
     put_be32 (Length h) @ pad_field 20 (Timestamp h)"

definition parseTimeline :: "byte list \<Rightarrow> int list" where
  "parseTimeline b =
     (let num = min (get_be32 (between b 0 4)) (int maxTimelineMarkers) in
      map (\<lambda>i. s32 (get_be32 (between b (4 + i * 4) (8 + i * 4)))) [0..<nat num])"

definition appendTimeline :: "byte list \<Rightarrow> int list \<Rightarrow> byte list" where
  "appendTimeline b markers =
     (let num = min (length markers) maxTimelineMarkers in
      (b @ put_be32 (int num)) @
      concat (map (\<lambda>i. if i < num then put_be32 (markers ! i) else [0, 0, 0, 0])
        [0..<maxTimelineMarkers]))"

definition marshalPreamble :: "dheader \<Rightarrow> byte list" where
  "marshalPreamble h =
     (let b = [] @ marshalFixedHeader h;
          b = (if uint (Version h) > versionOld then appendTimeline b (TimelineMarkers h) else b);
          b = (case Sha256 h of
                 Some d \<Rightarrow>
                   if uint (Version h) \<ge> versionSha256 then (b @ sha256ExtensionUUID) @ d else b
               | None \<Rightarrow> b) in
      b @ MapData h)"

section \<open>Chunks\<close>

datatype dchunk =
    TickMarker int bool
  | DataChunk int "byte list"

record dfile =
  DHeader :: dheader
  DChunks :: "dchunk list"

definition decompressDataChunk :: "huff_lib \<Rightarrow> int \<Rightarrow> byte list \<Rightarrow> goerr + dchunk" where
  "decompressDataChunk H ty compressed =
     attempt (wrap_res ''demo: decompress chunk'' [] (Decompress H compressed)) (\<lambda>d.
     Inr (DataChunk ty d))"

text \<open>\<open>(DataChunk).Ints\<close> unpacks the payload.\<close>

function ints_loop :: "varint_lib \<Rightarrow> unpacker \<Rightarrow> goerr + int list" where
  "ints_loop L u =
     (if RemainingSize u > 0 then
        (case NextInt L u of
           (Inl e, u') \<Rightarrow> Inl (wrap_err ''demo: unpack int'' [] e)
         | (Inr v, u') \<Rightarrow> attempt (ints_loop L u') (\<lambda>out. Inr (v # out)))
      else Inr [])"
  by auto
termination
  by (relation "measure (\<lambda>(L, u). length (udata u) - uidx u)")
    (auto dest: NextInt_progress [OF sym])

declare ints_loop.simps [simp del]

definition Ints :: "varint_lib \<Rightarrow> byte list \<Rightarrow> goerr + int list" where
  "Ints L d = ints_loop L (NewUnpacker d)"

definition tickDelta :: "byte \<Rightarrow> byte \<Rightarrow> int \<times> bool" where
  "tickDelta b version =
     (if version < versionTickCompression \<and> uint b AND 0x3f \<noteq> 0 then (uint b AND 0x3f, False)
      else if b AND 0x20 \<noteq> 0 then (uint b AND 0x1f, False)
      else (0, True))"

text \<open>The forward cursor \<open>sliceReader\<close>; its caller threads the running tick beside it.\<close>

record slice_reader =
  sdata :: "byte list"
  spos :: nat

definition remaining :: "slice_reader \<Rightarrow> int" where
  "remaining c = int (length (sdata c)) - int (spos c)"

definition sbyte :: "(slice_reader, byte) gost" where
  "sbyte c =
     (if spos c \<ge> length (sdata c) then (Inl IoUnexpectedEOF, c)
      else (Inr (sdata c ! spos c), c\<lparr>spos := spos c + 1\<rparr>))"

definition snext :: "int \<Rightarrow> (slice_reader, byte list) gost" where
  "snext n c =
     (if n < 0 then (Inl (Err ''demo: negative length %d'' [n]), c)
      else if int (spos c) + n > int (length (sdata c)) then (Inl IoUnexpectedEOF, c)
      else (Inr (between (sdata c) (spos c) (spos c + nat n)), c\<lparr>spos := spos c + nat n\<rparr>))"

definition on_cursor :: "('s, 'a) gost \<Rightarrow> ('s \<times> int, 'a) gost" where
  "on_cursor m st = (case m (fst st) of (r, c) \<Rightarrow> (r, (c, snd st)))"

definition get_prev :: "('s \<times> int, int) gost" where
  "get_prev st = (Inr (snd st), st)"

definition set_prev :: "int \<Rightarrow> ('s \<times> int, unit) gost" where
  "set_prev t st = (Inr (), (fst st, t))"

definition lift_res :: "goerr + 'a \<Rightarrow> ('s, 'a) gost" where
  "lift_res r s = (r, s)"

definition chunk_size :: "byte \<Rightarrow> int" where
  "chunk_size b = uint b AND 0x1f"

text \<open>\<open>readChunk\<close> after its leading byte.\<close>

definition readChunk_body :: "huff_lib \<Rightarrow> byte \<Rightarrow> byte \<Rightarrow> (slice_reader \<times> int, dchunk) gost" where
  "readChunk_body H version b =
    (if b AND 0x80 \<noteq> 0 then
       (let keyframe = (b AND 0x40 \<noteq> 0); (delta, absolute) = tickDelta b version in
        if absolute then
          bnd (wrapped ''demo: tick marker'' [] (on_cursor (snext 4))) (\<lambda>raw.
          let tick = s32 (get_be32 raw) in
          bnd (set_prev tick) (\<lambda>_. ret (TickMarker tick keyframe)))
        else
          bnd get_prev (\<lambda>prev.
          if prev < 0 then fail (Err ''demo: tick delta before initial tick'' [])
          else
            (let tick = prev + delta in
             bnd (set_prev tick) (\<lambda>_. ret (TickMarker tick keyframe)))))
     else
       (let ty = drop_bit 5 (uint b AND 0x60) in
        bnd (if chunk_size b = 30 then
               bnd (wrapped ''demo: chunk size'' [] (on_cursor (snext 1))) (\<lambda>s. ret (uint (s ! 0)))
             else if chunk_size b = 31 then
               bnd (wrapped ''demo: chunk size'' [] (on_cursor (snext 2))) (\<lambda>s.
               ret (push_bit 8 (uint (s ! 1)) OR uint (s ! 0)))
             else ret (chunk_size b)) (\<lambda>sz.
        bnd (wrapped ''demo: chunk payload'' [] (on_cursor (snext sz))) (\<lambda>payload.
        lift_res (decompressDataChunk H ty payload)))))"

definition readChunk :: "huff_lib \<Rightarrow> byte \<Rightarrow> (slice_reader \<times> int, dchunk) gost" where
  "readChunk H version = bnd (on_cursor sbyte) (readChunk_body H version)"

text \<open>Every chunk consumes its leading byte, so the loop over the chunks ends.\<close>

definition cfwd :: "slice_reader \<times> int \<Rightarrow> slice_reader \<times> int \<Rightarrow> bool" where
  "cfwd s t \<longleftrightarrow> sdata (fst t) = sdata (fst s) \<and> spos (fst s) \<le> spos (fst t)"

lemma cfwd_reflp [simp]: "reflp cfwd" and cfwd_transp [simp]: "transp cfwd"
  by (auto simp: cfwd_def intro!: reflpI transpI)

lemma cfwd_rules [mono_intros]:
  "keeps cfwd (on_cursor (snext n))" "keeps cfwd get_prev" "keeps cfwd (set_prev t)"
  "keeps cfwd (lift_res r)" "keeps cfwd (ret x)" "keeps cfwd (fail e)"
  by (rule keepsI, auto simp: on_cursor_def snext_def get_prev_def set_prev_def lift_res_def
      cfwd_def split: prod.splits if_splits)+

lemma cfwd_bnd [mono_intros]:
  "keeps cfwd m \<Longrightarrow> (\<And>x. keeps cfwd (f x)) \<Longrightarrow> keeps cfwd (bnd m f)"
  by (rule keeps_bnd) simp_all

lemmas cfwd_wrapped [mono_intros] = keeps_wrapped [of cfwd]

lemma readChunk_body_fwd: "keeps cfwd (readChunk_body H version b)"
  unfolding readChunk_body_def Let_def by (auto intro!: mono_intros split: prod.split)

lemma readChunk_progress:
  assumes "readChunk H version st = (Inr ch, st')"
  shows "sdata (fst st') = sdata (fst st) \<and> spos (fst st) < spos (fst st') \<and>
    spos (fst st) < length (sdata (fst st))"
proof -
  obtain b st1 where 1: "on_cursor sbyte st = (Inr b, st1)"
    and 2: "readChunk_body H version b st1 = (Inr ch, st')"
    using assms unfolding readChunk_def bnd_eq_Inr by blast
  from keepsD [OF readChunk_body_fwd 2] 1 show ?thesis
    by (auto simp: on_cursor_def sbyte_def cfwd_def split: if_splits)
qed

section \<open>Reading and writing files\<close>

function read_chunks :: "huff_lib \<Rightarrow> byte \<Rightarrow> slice_reader \<times> int \<Rightarrow> goerr + dchunk list" where
  "read_chunks H version st =
     (if remaining (fst st) > 0 then
        (case readChunk H version st of
           (Inl e, st') \<Rightarrow> Inl e
         | (Inr ch, st') \<Rightarrow> attempt (read_chunks H version st') (\<lambda>chs. Inr (ch # chs)))
      else Inr [])"
  by auto
termination
  by (relation "measure (\<lambda>(H, version, st). length (sdata (fst st)) - spos (fst st))")
    (auto dest!: readChunk_progress [OF sym])

declare read_chunks.simps [simp del]

definition parse_sha256 :: "byte list \<Rightarrow> dheader \<Rightarrow> nat \<Rightarrow> goerr + dheader \<times> nat" where
  "parse_sha256 d h pos =
     (if uint (Version h) \<ge> versionSha256 \<and> length d \<ge> pos + 16
         \<and> between d pos (pos + 16) = sha256ExtensionUUID then
        (let pos = pos + 16 in
         if length d < pos + sha256DigestSize then Inl (Err ''demo: truncated SHA256 digest'' [])
         else Inr (h\<lparr>Sha256 := Some (between d pos (pos + sha256DigestSize))\<rparr>, pos + sha256DigestSize))
      else Inr (h, pos))"

definition parse_timeline_block :: "byte list \<Rightarrow> dheader \<Rightarrow> nat \<Rightarrow> goerr + dheader \<times> nat" where
  "parse_timeline_block d h pos =
     (if uint (Version h) > versionOld then
        (if length d < pos + timelineSize then Inl (Err ''demo: truncated timeline markers'' [])
         else Inr (h\<lparr>TimelineMarkers := parseTimeline (between d pos (pos + timelineSize))\<rparr>,
                   pos + timelineSize))
      else Inr (h, pos))"

definition DParse :: "huff_lib \<Rightarrow> byte list \<Rightarrow> goerr + dfile" where
  "DParse H d =
     (if length d < headerSize then Inl (Err ''demo: too short for header'' [])
      else
        attempt (parseFixedHeader (between d 0 headerSize)) (\<lambda>h.
        attempt (parse_timeline_block d h headerSize) (\<lambda>(h, pos).
        attempt (parse_sha256 d h pos) (\<lambda>(h, pos).
        let end = int pos + MapSize h in
        if MapSize h < 0 \<or> end < int pos \<or> end > int (length d) then
          Inl (Err ''demo: map size %d exceeds file'' [MapSize h])
        else
          (let h = h\<lparr>MapData := between d pos (nat end)\<rparr> in
           attempt (read_chunks H (Version h) (\<lparr>sdata = d, spos = nat end\<rparr>, - 1)) (\<lambda>chs.
           Inr \<lparr>DHeader = h, DChunks = chs\<rparr>))))))"

text \<open>The writer threads the running tick; an absolute marker carries its keyframe flag.\<close>

definition appendTickMarker :: "byte list \<Rightarrow> int \<Rightarrow> bool \<Rightarrow> int \<Rightarrow> byte list \<times> int" where
  "appendTickMarker b tick keyframe last_tick =
     (if last_tick = - 1 \<or> tick - last_tick > 0x1f \<or> keyframe then
        (let head = (0x80 :: byte); head = (if keyframe then head OR 0x40 else head) in
         ((b @ [head]) @ put_be32 tick, tick))
      else (b @ [byte_of ((0x80 OR 0x20) OR (tick - last_tick))], tick))"

definition appendDataChunk :: "huff_lib \<Rightarrow> byte list \<Rightarrow> int \<Rightarrow> byte list \<Rightarrow> goerr + byte list" where
  "appendDataChunk H b ty d =
     attempt (wrap_res ''demo: compress chunk'' [] (Compress H d)) (\<lambda>payload.
     let sz = int (length payload); head = byte_of (push_bit 5 (ty AND 3));
         b = (if sz < 30 then b @ [head OR byte_of sz]
              else if sz < 256 then b @ [head OR 30, byte_of (sz AND 0xff)]
              else b @ [head OR 31, byte_of (sz AND 0xff), byte_of (drop_bit 8 sz)]) in
     Inr (b @ payload))"

fun appendChunk :: "huff_lib \<Rightarrow> byte list \<Rightarrow> dchunk \<Rightarrow> int \<Rightarrow> (goerr + byte list) \<times> int" where
  "appendChunk H b (TickMarker tick keyframe) prev =
     (case appendTickMarker b tick keyframe prev of (b', prev') \<Rightarrow> (Inr b', prev'))"
| "appendChunk H b (DataChunk ty d) prev = (appendDataChunk H b ty d, prev)"

fun write_dchunks :: "huff_lib \<Rightarrow> byte list \<Rightarrow> dchunk list \<Rightarrow> int \<Rightarrow> goerr + byte list" where
  "write_dchunks H b [] prev = Inr b"
| "write_dchunks H b (ch # chs) prev =
     (case appendChunk H b ch prev of
        (Inl e, prev') \<Rightarrow> Inl e
      | (Inr b', prev') \<Rightarrow> write_dchunks H b' chs prev')"

definition dfile_bytes :: "huff_lib \<Rightarrow> dfile \<Rightarrow> goerr + byte list" where
  "dfile_bytes H f = write_dchunks H (marshalPreamble (DHeader f)) (DChunks f) (- 1)"

definition DWriteTo :: "huff_lib \<Rightarrow> 'w writer \<Rightarrow> dfile \<Rightarrow> ('w, int) gost" where
  "DWriteTo H W f w = (case dfile_bytes H f of Inl e \<Rightarrow> (Inl e, w) | Inr b \<Rightarrow> W b w)"

section \<open>The streaming decoder and encoder\<close>

record ddecoder =
  dr :: "byte list"
  dhdr :: dheader
  dprevTick :: int
  ddone :: bool

text \<open>
  Reading the preamble from a stream; \<open>Peek\<close> fails when fewer bytes are left, and
  \<open>io.CopyN\<close> reports a stream that is too short as \<open>io.EOF\<close>.
\<close>

definition CopyN :: "nat \<Rightarrow> (byte list, byte list) gost" where
  "CopyN n bs = (if n \<le> length bs then (Inr (take n bs), drop n bs) else (Inl IoEOF, []))"

definition read_timeline :: "dheader \<Rightarrow> (byte list, dheader) gost" where
  "read_timeline h =
     (if uint (Version h) > versionOld then
        bnd (wrapped ''demo: read timeline markers'' [] (ReadFull timelineSize)) (\<lambda>tl.
        ret (h\<lparr>TimelineMarkers := parseTimeline tl\<rparr>))
      else ret h)"

definition read_sha256 :: "dheader \<Rightarrow> (byte list, dheader) gost" where
  "read_sha256 h bs =
     (if uint (Version h) \<ge> versionSha256 \<and> length bs \<ge> 16 \<and> take 16 bs = sha256ExtensionUUID then
        bnd (wrapped ''demo: read SHA256 digest'' [] (ReadFull sha256DigestSize)) (\<lambda>d.
        ret (h\<lparr>Sha256 := Some d\<rparr>)) (drop 16 bs)
      else (Inr h, bs))"

definition read_map :: "dheader \<Rightarrow> (byte list, dheader) gost" where
  "read_map h =
     bnd (wrapped ''demo: read map data'' [] (CopyN (nat (MapSize h)))) (\<lambda>m.
     ret (h\<lparr>MapData := m\<rparr>))"

definition read_preamble :: "(byte list, dheader) gost" where
  "read_preamble =
     bnd (wrapped ''demo: read header'' [] (ReadFull headerSize)) (\<lambda>head.
     bnd (lift_res (parseFixedHeader head)) (\<lambda>h.
     bnd (read_timeline h) (\<lambda>h. bnd (read_sha256 h) read_map)))"

definition DNewDecoder :: "byte list \<Rightarrow> goerr + ddecoder" where
  "DNewDecoder bs =
     (case read_preamble bs of
        (Inl e, _) \<Rightarrow> Inl e
      | (Inr h, bs') \<Rightarrow> Inr \<lparr>dr = bs', dhdr = h, dprevTick = - 1, ddone = False\<rparr>)"

definition on_dr :: "(byte list, 'a) gost \<Rightarrow> (ddecoder, 'a) gost" where
  "on_dr m d = (case m (dr d) of (r, bs) \<Rightarrow> (r, d\<lparr>dr := bs\<rparr>))"

definition put_prev :: "int \<Rightarrow> (ddecoder, unit) gost" where
  "put_prev t d = (Inr (), d\<lparr>dprevTick := t\<rparr>)"

definition decodeChunk :: "huff_lib \<Rightarrow> byte \<Rightarrow> (ddecoder, dchunk) gost" where
  "decodeChunk H b =
     (if b AND 0x80 \<noteq> 0 then
        (let keyframe = (b AND 0x40 \<noteq> 0) in
         bnd (\<lambda>d. (Inr (tickDelta b (Version (dhdr d))), d)) (\<lambda>(delta, absolute).
         if absolute then
           bnd (wrapped ''demo: tick marker'' [] (on_dr (ReadFull 4))) (\<lambda>raw.
           let tick = s32 (get_be32 raw) in
           bnd (put_prev tick) (\<lambda>_. ret (TickMarker tick keyframe)))
         else
           bnd (\<lambda>d. (Inr (dprevTick d), d)) (\<lambda>prev.
           if prev < 0 then fail (Err ''demo: tick delta before initial tick'' [])
           else
             (let tick = prev + delta in
              bnd (put_prev tick) (\<lambda>_. ret (TickMarker tick keyframe))))))
      else
        (let ty = drop_bit 5 (uint b AND 0x60) in
         bnd (if chunk_size b = 30 then
                bnd (wrapped ''demo: chunk size'' [] (on_dr read_byte)) (\<lambda>s. ret (uint s))
              else if chunk_size b = 31 then
                bnd (wrapped ''demo: chunk size'' [] (on_dr (ReadFull 2))) (\<lambda>s.
                ret (push_bit 8 (uint (s ! 1)) OR uint (s ! 0)))
              else ret (chunk_size b)) (\<lambda>sz.
         bnd (wrapped ''demo: chunk payload'' [] (on_dr (ReadFull (nat sz)))) (\<lambda>payload.
         lift_res (decompressDataChunk H ty payload)))))"

definition DNext :: "huff_lib \<Rightarrow> (ddecoder, dchunk) gost" where
  "DNext H d =
     (if ddone d then (Inl IoEOF, d)
      else case on_dr read_byte d of
        (Inl e, d') \<Rightarrow>
          if is_eof e then (Inl IoEOF, d'\<lparr>ddone := True\<rparr>)
          else (Inl (wrap_err ''demo: read chunk header'' [] e), d')
      | (Inr b, d') \<Rightarrow> decodeChunk H b d')"

record 'w dencoder =
  dew :: 'w
  deprevTick :: int
  debuf :: "byte list"

definition DNewEncoder :: "'w writer \<Rightarrow> 'w \<Rightarrow> dheader \<Rightarrow> goerr + 'w dencoder" where
  "DNewEncoder W w h =
     (case W (marshalPreamble h) w of
        (Inl e, w') \<Rightarrow> Inl e
      | (Inr _, w') \<Rightarrow> Inr \<lparr>dew = w', deprevTick = - 1, debuf = []\<rparr>)"

definition DWrite :: "huff_lib \<Rightarrow> 'w writer \<Rightarrow> dchunk \<Rightarrow> ('w dencoder, unit) gost" where
  "DWrite H W ch enc =
     (case appendChunk H [] ch (deprevTick enc) of
        (Inl e, prev') \<Rightarrow> (Inl e, enc\<lparr>deprevTick := prev'\<rparr>)
      | (Inr buf, prev') \<Rightarrow>
          (case W buf (dew enc) of
             (Inl e, w) \<Rightarrow> (Inl e, enc\<lparr>deprevTick := prev', debuf := buf, dew := w\<rparr>)
           | (Inr _, w) \<Rightarrow> (Inr (), enc\<lparr>deprevTick := prev', debuf := buf, dew := w\<rparr>)))"

section \<open>The streaming decoder agrees with the parser\<close>

text \<open>\<open>cursor_at pre post\<close>: \<open>pre\<close> has been read, \<open>post\<close> is still to come.\<close>

definition cursor_at :: "byte list \<Rightarrow> byte list \<Rightarrow> slice_reader" where
  "cursor_at pre post = \<lparr>sdata = pre @ post, spos = length pre\<rparr>"

lemma remaining_at [simp]: "remaining (cursor_at pre post) = int (length post)"
  by (simp add: remaining_def cursor_at_def)

lemma sbyte_at [simp]:
  "sbyte (cursor_at pre (b # post)) = (Inr b, cursor_at (pre @ [b]) post)"
  "sbyte (cursor_at pre []) = (Inl IoUnexpectedEOF, cursor_at pre [])"
  by (simp_all add: sbyte_def cursor_at_def)

lemma snext_at:
  "0 \<le> n \<Longrightarrow> snext n (cursor_at pre post) =
     (if nat n \<le> length post
      then (Inr (take (nat n) post), cursor_at (pre @ take (nat n) post) (drop (nat n) post))
      else (Inl IoUnexpectedEOF, cursor_at pre post))"
  by (auto simp: snext_def cursor_at_def between_def)

lemma on_cursor_pair [simp]: "on_cursor m (c, p) = (case m c of (r, c') \<Rightarrow> (r, (c', p)))"
  by (simp add: on_cursor_def)

definition dsame :: "dheader \<Rightarrow> slice_reader \<times> int \<Rightarrow> ddecoder \<Rightarrow> bool" where
  "dsame h st d \<longleftrightarrow>
     (\<exists>pre. st = (cursor_at pre (dr d), dprevTick d)) \<and> \<not> ddone d \<and> dhdr d = h"

lemma sim_sbyte: "sim (dsame h) (on_cursor sbyte) (on_dr read_byte)"
proof (rule simI)
  fix st d
  assume "dsame h st d"
  then show "same_outcome (dsame h) (on_cursor sbyte st) (on_dr read_byte d)"
    by (cases "dr d") (auto simp: dsame_def on_dr_def read_byte_def)
qed

lemma sim_snext: "0 \<le> n \<Longrightarrow> sim (dsame h) (on_cursor (snext n)) (on_dr (ReadFull (nat n)))"
  by (rule simI) (auto simp: dsame_def on_dr_def ReadFull_def snext_at)

lemma sim_snext1:
  "sim (dsame h) (bnd (wrapped m [] (on_cursor (snext 1))) (\<lambda>s. ret (uint (s ! 0))))
     (bnd (wrapped m' [] (on_dr read_byte)) (\<lambda>s. ret (uint s)))"
proof (rule simI)
  fix st d
  assume "dsame h st d"
  then show "same_outcome (dsame h) (bnd (wrapped m [] (on_cursor (snext 1))) (\<lambda>s. ret (uint (s ! 0))) st)
      (bnd (wrapped m' [] (on_dr read_byte)) (\<lambda>s. ret (uint s)) d)"
    by (cases "dr d") (auto simp: dsame_def on_dr_def read_byte_def snext_at bnd_def wrapped_def)
qed

lemma sim_prev:
  "sim (dsame h) get_prev (\<lambda>d. (Inr (dprevTick d), d))" "sim (dsame h) (set_prev t) (put_prev t)"
  by (rule simI, auto simp: get_prev_def set_prev_def put_prev_def dsame_def)+

lemma sim_lift: "sim R (lift_res r) (lift_res r)"
  by (rule simI) (cases r; simp add: lift_res_def)

lemma sim_version:
  "sim (dsame h) m (f (tickDelta b (Version h))) \<Longrightarrow>
   sim (dsame h) m (bnd (\<lambda>d. (Inr (tickDelta b (Version (dhdr d))), d)) f)"
  unfolding sim_def by (auto simp: dsame_def)

lemma chunk_size_nonneg: "0 \<le> chunk_size b"
  by (simp add: chunk_size_def)

lemma sim_body: "sim (dsame h) (readChunk_body H (Version h) b) (decodeChunk H b)"
proof -
  have sz: "0 \<le> sz"
    if "(if chunk_size b = 30 then bnd (wrapped m [] (on_cursor (snext 1))) (\<lambda>s. ret (uint (s ! 0)))
        else if chunk_size b = 31 then bnd (wrapped m [] (on_cursor (snext 2)))
          (\<lambda>s. ret (push_bit 8 (uint (s ! 1)) OR uint (s ! 0)))
        else ret (chunk_size b)) s = (Inr sz, s')" for sz m s s'
    using that chunk_size_nonneg [of b] by (auto simp: bnd_eq_Inr split: if_splits)
  show ?thesis
    unfolding readChunk_body_def decodeChunk_def Let_def
    by (intro sim_if sim_version sim_bnd_ok [of _ _ _ "\<lambda>sz. bnd (_ sz) _"])
      (auto intro!: sim_bnd sim_wrapped sim_ret sim_fail sim_if sim_lift sim_prev sim_snext1
        sim_snext [of 4, simplified] sim_snext [of 2, simplified] sim_snext
        split: prod.split dest!: sz)
qed

text \<open>The client's loop over \<open>Next\<close>, until the error \<open>io.EOF\<close> itself.\<close>

definition dfwd :: "ddecoder \<Rightarrow> ddecoder \<Rightarrow> bool" where
  "dfwd s t \<longleftrightarrow> length (dr t) \<le> length (dr s)"

lemma dfwd_reflp [simp]: "reflp dfwd" and dfwd_transp [simp]: "transp dfwd"
  by (auto simp: dfwd_def intro!: reflpI transpI)

lemma dfwd_rules [mono_intros]:
  "keeps dfwd (on_dr (ReadFull n))" "keeps dfwd (on_dr read_byte)" "keeps dfwd (put_prev t)"
  "keeps dfwd (lift_res r)" "keeps dfwd (ret x)" "keeps dfwd (fail e)"
  "keeps dfwd (\<lambda>d. (Inr (g d), d))"
  by (rule keepsI, auto simp: on_dr_def ReadFull_def read_byte_def put_prev_def lift_res_def
      dfwd_def split: prod.splits if_splits list.splits)+

lemma dfwd_bnd [mono_intros]:
  "keeps dfwd m \<Longrightarrow> (\<And>x. keeps dfwd (f x)) \<Longrightarrow> keeps dfwd (bnd m f)"
  by (rule keeps_bnd) simp_all

lemmas dfwd_wrapped [mono_intros] = keeps_wrapped [of dfwd]

lemma decodeChunk_fwd: "keeps dfwd (decodeChunk H b)"
  unfolding decodeChunk_def Let_def by (auto intro!: mono_intros split: prod.split)

lemma DNext_cases:
  "DNext H d =
     (if ddone d then (Inl IoEOF, d)
      else case dr d of
        [] \<Rightarrow> (Inl IoEOF, d\<lparr>dr := [], ddone := True\<rparr>)
      | b # bs \<Rightarrow> decodeChunk H b (d\<lparr>dr := bs\<rparr>))"
  by (simp add: DNext_def on_dr_def read_byte_def split: list.splits)

lemma DNext_shrinks: "DNext H d = (Inr ch, d') \<Longrightarrow> length (dr d') < length (dr d)"
  using keepsD [OF decodeChunk_fwd]
  by (fastforce simp: DNext_cases dfwd_def split: if_splits list.splits)

function ddecodeAll :: "huff_lib \<Rightarrow> ddecoder \<Rightarrow> goerr + dchunk list" where
  "ddecodeAll H d =
     (case DNext H d of
        (Inl e, d') \<Rightarrow> if e = IoEOF then Inr [] else Inl e
      | (Inr ch, d') \<Rightarrow> attempt (ddecodeAll H d') (\<lambda>chs. Inr (ch # chs)))"
  by auto
termination
  by (relation "measure (\<lambda>(H, d). length (dr d))") (auto dest: DNext_shrinks [OF sym])

declare ddecodeAll.simps [simp del]

lemma nbe_lift: "r \<noteq> Inl IoEOF \<Longrightarrow> not_bare_eof (lift_res r)"
  by (simp add: not_bare_eof_def lift_res_def)

lemma decompress_not_eof: "decompressDataChunk H ty p \<noteq> Inl IoEOF"
proof -
  have "wrap_err m [] e \<noteq> IoEOF" for m e by (cases e) auto
  then show ?thesis by (cases "Decompress H p") (auto simp: decompressDataChunk_def)
qed

lemma nbe_state: "not_bare_eof (\<lambda>d. (Inr (g d), d))" "not_bare_eof (put_prev t)"
  by (simp_all add: not_bare_eof_def put_prev_def)

lemma decodeChunk_nbe: "not_bare_eof (decodeChunk H b)"
  unfolding decodeChunk_def Let_def
  by (auto intro!: nbe_bnd nbe_wrapped nbe_ret nbe_fail nbe_lift nbe_state decompress_not_eof
      split: prod.split)

lemma ddecodeAll_read_chunks:
  "dsame h st d \<Longrightarrow> same_result (read_chunks H (Version h) st) (ddecodeAll H d)"
proof (induction "length (dr d)" arbitrary: st d rule: less_induct)
  case less
  from less.prems obtain pre where st: "st = (cursor_at pre (dr d), dprevTick d)"
    and nd: "\<not> ddone d" and hd: "dhdr d = h"
    by (auto simp: dsame_def)
  show ?case
  proof (cases "dr d")
    case Nil
    then show ?thesis
      using nd by (subst read_chunks.simps, subst ddecodeAll.simps) (simp add: st DNext_cases)
  next
    case (Cons b bs)
    let ?st = "(cursor_at (pre @ [b]) bs, dprevTick d)" and ?d = "d\<lparr>dr := bs\<rparr>"
    have rd: "readChunk H (Version h) st = readChunk_body H (Version h) b ?st"
      by (simp add: readChunk_def st Cons)
    have nx: "DNext H d = decodeChunk H b ?d" using nd by (simp add: DNext_cases Cons)
    have rem: "remaining (fst st) > 0" by (simp add: st Cons)
    have "dsame h ?st ?d" using nd hd by (auto simp: dsame_def)
    with sim_body have "same_outcome (dsame h) (readChunk_body H (Version h) b ?st) (decodeChunk H b ?d)"
      by (rule simD)
    then show ?thesis
    proof (cases rule: same_outcome_cases)
      case (ok ch st' d')
      have "length (dr d') < length (dr d)"
        using DNext_shrinks nx ok(2) by metis
      from less.hyps [OF this ok(3)] show ?thesis
        using ok rd nx rem
        by (subst read_chunks.simps, subst ddecodeAll.simps)
          (cases "read_chunks H (Version h) st'"; cases "ddecodeAll H d'"; simp)
    next
      case (err e s e' t)
      have "e' \<noteq> IoEOF" using decodeChunk_nbe [of H b] err(2) by (metis fst_conv not_bare_eof_def)
      with err rd nx rem show ?thesis
        by (subst read_chunks.simps, subst ddecodeAll.simps) simp
    qed
  qed
qed

text \<open>
  The preamble: the parser works with a position in the file, the decoder with the unread
  bytes. They agree when both fail, or give the same header and stop at the same place.
\<close>

fun agrees :: "byte list \<Rightarrow> goerr + dheader \<times> nat \<Rightarrow> (goerr + dheader) \<times> byte list \<Rightarrow> bool" where
  "agrees d (Inl e) (Inl e', bs) = (\<not> is_panic e \<and> \<not> is_panic e')"
| "agrees d (Inr (h, pos)) (Inr h', bs) = (h' = h \<and> pos \<le> length d \<and> bs = drop pos d)"
| "agrees d _ _ = False"

lemma agrees_bnd:
  assumes "agrees d r (m s)"
    and "\<And>h pos. pos \<le> length d \<Longrightarrow> agrees d (f (h, pos)) (g h (drop pos d))"
  shows "agrees d (attempt r f) (bnd m g s)"
  using assms by (cases r; cases "m s"; cases "fst (m s)") (auto simp: bnd_def)

lemma timeline_agrees:
  "pos \<le> length d \<Longrightarrow> agrees d (parse_timeline_block d h pos) (read_timeline h (drop pos d))"
  by (auto simp: parse_timeline_block_def read_timeline_def bnd_def wrapped_def ReadFull_def
      between_def add.commute not_le not_less)

lemma sha_agrees:
  "pos \<le> length d \<Longrightarrow> agrees d (parse_sha256 d h pos) (read_sha256 h (drop pos d))"
  by (auto simp: parse_sha256_def read_sha256_def bnd_def wrapped_def ReadFull_def between_def
      Let_def add.commute sha256DigestSize_def)

lemma get_be32_nonneg: "0 \<le> get_be32 b"
proof -
  have "0 \<le> acc \<Longrightarrow> 0 \<le> foldl (\<lambda>acc w. 256 * acc + uint w) acc xs" for acc :: int and xs :: "byte list"
    by (induction xs arbitrary: acc) simp_all
  then show ?thesis by (simp add: get_be32_def)
qed

definition parse_map :: "byte list \<Rightarrow> dheader \<times> nat \<Rightarrow> goerr + dheader \<times> nat" where
  "parse_map d = (\<lambda>(h, pos).
     if MapSize h < 0 \<or> int pos + MapSize h < int pos \<or> int pos + MapSize h > int (length d) then
       Inl (Err ''demo: map size %d exceeds file'' [MapSize h])
     else Inr (h\<lparr>MapData := between d pos (nat (int pos + MapSize h))\<rparr>, nat (int pos + MapSize h)))"

definition parse_preamble :: "byte list \<Rightarrow> goerr + dheader \<times> nat" where
  "parse_preamble d =
     (if length d < headerSize then Inl (Err ''demo: too short for header'' [])
      else
        attempt (parseFixedHeader (between d 0 headerSize)) (\<lambda>h.
        attempt (parse_timeline_block d h headerSize) (\<lambda>(h, pos).
        attempt (parse_sha256 d h pos) (parse_map d))))"

lemma DParse_eq:
  "DParse H d = attempt (parse_preamble d) (\<lambda>(h, pos).
     attempt (read_chunks H (Version h) (\<lparr>sdata = d, spos = pos\<rparr>, - 1)) (\<lambda>chs.
     Inr \<lparr>DHeader = h, DChunks = chs\<rparr>))"
  by (auto simp: DParse_def parse_preamble_def parse_map_def attempt_def Let_def
      split: sum.splits prod.splits)

lemma map_agrees:
  "pos \<le> length d \<Longrightarrow> 0 \<le> MapSize h \<Longrightarrow> agrees d (parse_map d (h, pos)) (read_map h (drop pos d))"
  by (auto simp: parse_map_def read_map_def bnd_def wrapped_def CopyN_def between_def
      nat_add_distrib add.commute)

lemma parse_blocks_MapSize:
  "parse_timeline_block d h pos = Inr (h', pos') \<Longrightarrow> MapSize h' = MapSize h"
  "parse_sha256 d h pos = Inr (h', pos') \<Longrightarrow> MapSize h' = MapSize h"
  by (auto simp: parse_timeline_block_def parse_sha256_def Let_def split: if_splits)

lemma agrees_bnd':
  assumes "agrees d r (m s)"
    and "\<And>h pos. r = Inr (h, pos) \<Longrightarrow> pos \<le> length d \<Longrightarrow> agrees d (f (h, pos)) (g h (drop pos d))"
  shows "agrees d (attempt r f) (bnd m g s)"
  using assms by (cases r; cases "m s"; cases "fst (m s)") (auto simp: bnd_def)

lemma preamble_agrees: "agrees d (parse_preamble d) (read_preamble d)"
proof (cases "length d < headerSize")
  case True
  then show ?thesis
    by (simp add: parse_preamble_def read_preamble_def ReadFull_def bnd_def wrapped_def)
next
  case False
  have head: "ReadFull headerSize d = (Inr (between d 0 headerSize), drop headerSize d)"
    using False by (simp add: ReadFull_def between_def)
  show ?thesis
  proof (cases "parseFixedHeader (between d 0 headerSize)")
    case (Inl e)
    then have "\<not> is_panic e" by (auto simp: parseFixedHeader_def split: if_splits)
    with Inl False show ?thesis
      by (simp add: parse_preamble_def read_preamble_def head bnd_def wrapped_def lift_res_def)
  next
    case (Inr h)
    then have nn: "0 \<le> MapSize h"
      by (auto simp: parseFixedHeader_def get_be32_nonneg split: if_splits)
    have pos: "headerSize \<le> length d" using False by simp
    have rp: "read_preamble d = bnd (read_timeline h) (\<lambda>h. bnd (read_sha256 h) read_map) (drop headerSize d)"
      by (simp add: read_preamble_def head Inr lift_res_def)
    have pp: "parse_preamble d = attempt (parse_timeline_block d h headerSize)
        (\<lambda>(h, pos). attempt (parse_sha256 d h pos) (parse_map d))"
      using False by (simp add: parse_preamble_def Inr)
    have last: "agrees d (parse_map d (h2, p2)) (read_map h2 (drop p2 d))"
      if "parse_timeline_block d h headerSize = Inr (h1, p1)" "parse_sha256 d h1 p1 = Inr (h2, p2)"
        "p2 \<le> length d" for h1 p1 h2 p2
      using that nn by (intro map_agrees) (simp_all add: parse_blocks_MapSize)
    show ?thesis
      unfolding rp pp
    proof (rule agrees_bnd')
      show "agrees d (parse_timeline_block d h headerSize) (read_timeline h (drop headerSize d))"
        using pos by (rule timeline_agrees)
      fix h1 p1
      assume t: "parse_timeline_block d h headerSize = Inr (h1, p1)" and p1: "p1 \<le> length d"
      show "agrees d ((\<lambda>(h, pos). attempt (parse_sha256 d h pos) (parse_map d)) (h1, p1))
          (bnd (read_sha256 h1) read_map (drop p1 d))"
        unfolding prod.case
        by (rule agrees_bnd', rule sha_agrees [OF p1], rule last [OF t])
    qed
  qed
qed

lemma streaming_demo:
  "same_result (DParse H d)
     (attempt (DNewDecoder d) (\<lambda>dec. attempt (ddecodeAll H dec) (\<lambda>chs.
      Inr \<lparr>DHeader = dhdr dec, DChunks = chs\<rparr>)))"
proof (cases "parse_preamble d")
  case (Inl e)
  with preamble_agrees [of d] show ?thesis
    by (cases "read_preamble d"; cases "fst (read_preamble d)") (auto simp: DParse_eq DNewDecoder_def)
next
  case (Inr p)
  obtain h pos where p: "p = (h, pos)" by fastforce
  let ?dec = "\<lparr>dr = drop pos d, dhdr = h, dprevTick = - 1, ddone = False\<rparr>"
  from preamble_agrees [of d] have rd: "read_preamble d = (Inr h, drop pos d)" and pos: "pos \<le> length d"
    by (cases "read_preamble d"; cases "fst (read_preamble d)"; auto simp: Inr p)+
  then have "DNewDecoder d = Inr ?dec" by (simp add: DNewDecoder_def)
  moreover have "dsame h (\<lparr>sdata = d, spos = pos\<rparr>, - 1) ?dec"
    using pos by (auto simp: dsame_def cursor_at_def intro: exI [of _ "take pos d"])
  then have "same_result (read_chunks H (Version h) (\<lparr>sdata = d, spos = pos\<rparr>, - 1)) (ddecodeAll H ?dec)"
    by (rule ddecodeAll_read_chunks)
  ultimately show ?thesis
    by (cases "read_chunks H (Version h) (\<lparr>sdata = d, spos = pos\<rparr>, - 1)"; cases "ddecodeAll H ?dec")
      (simp_all add: DParse_eq Inr p)
qed

section \<open>What is written is read back: chunks\<close>

text \<open>
  A marker without a keyframe may not go back in time once a tick has been written: the
  difference is stored in five bits.
\<close>

fun chunk_fits :: "huff_lib \<Rightarrow> int \<Rightarrow> dchunk \<Rightarrow> bool" where
  "chunk_fits H prev (TickMarker t keyframe) \<longleftrightarrow>
     in_s32 t \<and> (prev = - 1 \<or> keyframe \<or> t - prev > 31 \<or> 0 \<le> prev \<and> prev \<le> t)"
| "chunk_fits H prev (DataChunk ty d) \<longleftrightarrow>
     0 \<le> ty \<and> ty < 4 \<and> (case Compress H d of Inl e \<Rightarrow> True | Inr c \<Rightarrow> length c < 65536)"

fun chunks_fit :: "huff_lib \<Rightarrow> int \<Rightarrow> dchunk list \<Rightarrow> bool" where
  "chunks_fit H prev [] \<longleftrightarrow> True"
| "chunks_fit H prev (ch # chs) \<longleftrightarrow>
     chunk_fits H prev ch \<and> chunks_fit H (case ch of TickMarker t k \<Rightarrow> t | _ \<Rightarrow> prev) chs"

lemma low_bits: "x AND 63 = x mod 64" "x AND 31 = x mod 32" "x AND 3 = x mod 4" for x :: int
  using take_bit_eq_mask [of 6 x] take_bit_eq_mask [of 5 x] take_bit_eq_mask [of 2 x]
  by (simp_all add: take_bit_eq_mod mask_eq_exp_minus_1)

lemma compressed_head:
  assumes "0 \<le> d" "d \<le> 31"
  shows "byte_of ((0x80 OR 0x20) OR d) AND 0x80 \<noteq> 0" "byte_of ((0x80 OR 0x20) OR d) AND 0x40 = 0"
    "tickDelta (byte_of ((0x80 OR 0x20) OR d)) version =
      (if version < versionTickCompression then 32 + d else d, False)"
proof -
  have "(0x80 OR 0x20) OR d = d OR push_bit 5 5" by (simp add: or.commute)
  also have "\<dots> = d + 160" using or_disjoint_add [of d 5 5] assms by simp
  finally have u: "uint (byte_of ((0x80 OR 0x20) OR d)) = d + 160" using assms by simp
  have q: "(d + 160) div 128 = 1" "(d + 160) div 64 = 2" "(d + 160) div 32 = 5"
    "(d + 160) mod 64 = 32 + d" "(d + 160) mod 32 = d"
    using assms by (simp_all add: div_pos_geq mod_pos_geq)
  show "byte_of ((0x80 OR 0x20) OR d) AND 0x80 \<noteq> 0" "byte_of ((0x80 OR 0x20) OR d) AND 0x40 = 0"
    "tickDelta (byte_of ((0x80 OR 0x20) OR d)) version =
      (if version < versionTickCompression then 32 + d else d, False)"
    using assms unfolding tickDelta_def byte_flags u low_bits q by auto
qed

text \<open>The head of a data chunk: the type in bits 5 and 6, the size or its escape below.\<close>

lemma data_head:
  assumes "0 \<le> ty" "ty < 4" "0 \<le> n" "n < 32"
  defines "b \<equiv> byte_of (push_bit 5 (ty AND 3)) OR byte_of n"
  shows "b AND 0x80 = 0" "drop_bit 5 (uint b AND 0x60) = ty" "chunk_size b = n"
proof -
  have t: "ty AND 3 = ty"
    using take_bit_eq_mask [of 2 ty] assms(1,2) by (simp add: take_bit_int_eq_self mask_eq_exp_minus_1)
  have "uint b = (push_bit 5 ty mod 256) OR (n mod 256)" by (simp add: b_def t uint_or)
  also have "\<dots> = n OR push_bit 5 ty"
    using assms by (simp add: push_bit_eq_mult or.commute)
  also have "\<dots> = n + 32 * ty" using or_disjoint_add [of n 5 ty] assms by simp
  finally have u: "uint b = n + 32 * ty" .
  show "chunk_size b = n" unfolding chunk_size_def u low_bits using assms(3,4) by simp
  have "drop_bit 5 (uint b AND 0x60) = drop_bit 5 (uint b) AND 3" by (simp add: drop_bit_and)
  also have "drop_bit 5 (uint b) = ty" unfolding u using assms(3,4) by (simp add: drop_bit_eq_div)
  finally show "drop_bit 5 (uint b AND 0x60) = ty" using t by simp
  show "b AND 0x80 = 0" unfolding byte_flags u using assms(1-4) by simp
qed

lemma between_full [simp]: "between b 0 (length b) = b"
  by (simp add: between_def)

lemma on_cursor_snext_at:
  "n = int (length x) \<Longrightarrow>
   on_cursor (snext n) (cursor_at pre (x @ post), p) = (Inr x, (cursor_at (pre @ x) post, p))"
  by (simp add: snext_at)

lemma on_cursor_sbyte_at:
  "on_cursor sbyte (cursor_at pre (b # post), p) = (Inr b, (cursor_at (pre @ [b]) post, p))"
  by simp

lemmas at_cursor = on_cursor_snext_at on_cursor_sbyte_at

lemma tick_marker_read:
  assumes "chunk_fits H prev (TickMarker t k)" and "\<not> version < versionTickCompression"
    and "appendTickMarker b t k prev = (b', prev')"
  shows "prev' = t \<and> (\<exists>c. b' = b @ c \<and> c \<noteq> [] \<and>
    (\<forall>pre post. readChunk H version (cursor_at pre (c @ post), prev) =
      (Inr (TickMarker t k), (cursor_at (pre @ c) post, t))))"
proof (cases "prev = - 1 \<or> t - prev > 31 \<or> k")
  case True
  let ?head = "if k then 0xC0 else (0x80 :: byte)"
  have b': "b' = b @ (?head # put_be32 t)" "prev' = t"
    using assms(3) True by (auto simp: appendTickMarker_def)
  have "readChunk H version (cursor_at pre ((?head # put_be32 t) @ post), prev) =
      (Inr (TickMarker t k), (cursor_at (pre @ ?head # put_be32 t) post, t))" for pre post
    using assms(1)
    by (simp add: readChunk_def readChunk_body_def tickDelta_def at_cursor set_prev_def Let_def del: on_cursor_pair)
  with b' show ?thesis by blast
next
  case False
  then have d: "0 \<le> t - prev" "t - prev \<le> 31" and pos: "0 \<le> prev" and k: "\<not> k"
    using assms(1) by auto
  let ?head = "byte_of ((0x80 OR 0x20) OR (t - prev))"
  have b': "b' = b @ [?head]" "prev' = t"
    using assms(3) False by (auto simp: appendTickMarker_def)
  note h = compressed_head [OF d]
  have "readChunk H version (cursor_at pre (?head # post), prev) =
      (Inr (TickMarker t k), (cursor_at (pre @ [?head]) post, t))" for pre post
    using assms(2) pos k
    by (simp add: readChunk_def readChunk_body_def h Let_def get_prev_def set_prev_def del: or_numerals)
  with b' show ?thesis by auto
qed

lemma data_chunk_read:
  assumes H: "huffman_inverse H" and fits: "chunk_fits H prev (DataChunk ty d)"
    and run: "appendDataChunk H b ty d = Inr b'"
  shows "\<exists>c. b' = b @ c \<and> c \<noteq> [] \<and>
    (\<forall>pre post. readChunk H version (cursor_at pre (c @ post), p) =
      (Inr (DataChunk ty d), (cursor_at (pre @ c) post, p)))"
proof -
  obtain comp where comp: "Compress H d = Inr comp" and ty: "0 \<le> ty" "ty < 4"
    using run fits by (auto simp: appendDataChunk_def attempt_eq_Inr)
  have small: "length comp < 65536" using fits comp by simp
  have dec: "decompressDataChunk H ty comp = Inr (DataChunk ty d)"
    using huffman_inverseD [OF H comp] by (simp add: decompressDataChunk_def)
  define sz where "sz = int (length comp)"
  define head where "head n = byte_of (push_bit 5 (ty AND 3)) OR byte_of n" for n
  note hd = data_head [OF ty, folded head_def]
  have lo: "uint (byte_of (sz AND 0xff)) = sz mod 256"
    using take_bit_eq_mask [of 8 sz] by (simp add: take_bit_eq_mod mask_eq_exp_minus_1)
  have two: "push_bit 8 (uint (byte_of (drop_bit 8 sz))) OR uint (byte_of (sz AND 0xff)) = sz"
  proof -
    have "uint (byte_of (sz AND 0xff)) OR push_bit 8 (uint (byte_of (drop_bit 8 sz))) =
        sz mod 256 + 2 ^ 8 * uint (byte_of (drop_bit 8 sz))"
      unfolding lo by (rule or_disjoint_add) simp_all
    also have "\<dots> = sz" using small by (simp add: sz_def drop_bit_eq_div)
    finally show ?thesis by (simp only: or.commute)
  qed
  have body: "readChunk H version (cursor_at pre (e @ comp @ post), p) =
      (Inr (DataChunk ty d), (cursor_at (pre @ e @ comp) post, p))"
    if e: "e = (if sz < 30 then [head sz] else if sz < 256 then [head 30, byte_of (sz AND 0xff)]
      else [head 31, byte_of (sz AND 0xff), byte_of (drop_bit 8 sz)])" for e pre post
  proof -
    consider "sz < 30" | "30 \<le> sz" "sz < 256" | "256 \<le> sz" by linarith
    then show ?thesis
    proof cases
      case 1
      with hd [of sz] e show ?thesis
        by (simp add: sz_def readChunk_def readChunk_body_def Let_def at_cursor dec lift_res_def del: on_cursor_pair)
    next
      case 2
      with hd [of 30] e lo on_cursor_snext_at [of 1 "[byte_of (sz AND 0xff)]"] show ?thesis
        by (simp add: readChunk_def readChunk_body_def Let_def at_cursor(2) on_cursor_snext_at [OF sz_def] dec
            lift_res_def del: uint_byte_of on_cursor_pair)
    next
      case 3
      with hd [of 31] e two on_cursor_snext_at [of 2 "[byte_of (sz AND 0xff), byte_of (drop_bit 8 sz)]"]
      show ?thesis
        by (simp add: readChunk_def readChunk_body_def Let_def at_cursor(2) on_cursor_snext_at [OF sz_def] dec
            lift_res_def del: uint_byte_of on_cursor_pair)
    qed
  qed
  have "b' = b @ (if sz < 30 then [head sz] else if sz < 256 then [head 30, byte_of (sz AND 0xff)]
      else [head 31, byte_of (sz AND 0xff), byte_of (drop_bit 8 sz)]) @ comp"
  proof -
    have "byte_of 30 = (30 :: byte)" "byte_of 31 = (31 :: byte)" by (simp_all add: byte_of_def)
    then show ?thesis
      using run by (auto simp: appendDataChunk_def comp Let_def sz_def head_def)
  qed
  with body [OF refl] huffman_inverseD [OF H comp] show ?thesis by fastforce
qed

lemma chunks_read:
  assumes H: "huffman_inverse H" and v: "\<not> version < versionTickCompression"
  shows "write_dchunks H b chs prev = Inr out \<Longrightarrow> chunks_fit H prev chs \<Longrightarrow>
    \<exists>body. out = b @ body \<and>
      (\<forall>pre. read_chunks H version (cursor_at pre body, prev) = Inr chs)"
proof (induction chs arbitrary: b prev)
  case Nil
  then show ?case by (subst read_chunks.simps) simp
next
  case (Cons ch chs)
  obtain b1 prev1 where ap: "appendChunk H b ch prev = (Inr b1, prev1)"
    and wr: "write_dchunks H b1 chs prev1 = Inr out"
    using Cons.prems(1) by (auto split: prod.splits sum.splits)
  have "prev1 = (case ch of TickMarker t k \<Rightarrow> t | _ \<Rightarrow> prev) \<and> (\<exists>c. b1 = b @ c \<and> c \<noteq> [] \<and>
    (\<forall>pre post. readChunk H version (cursor_at pre (c @ post), prev) =
      (Inr ch, (cursor_at (pre @ c) post, prev1))))"
  proof (cases ch)
    case (TickMarker t k)
    with ap Cons.prems(2) tick_marker_read [OF _ v, of H prev t k b b1 prev1] show ?thesis
      by (auto split: prod.splits)
  next
    case (DataChunk ty d)
    with ap Cons.prems(2) data_chunk_read [OF H, of prev ty d b b1 version prev] show ?thesis by auto
  qed
  then obtain c where c: "b1 = b @ c" "c \<noteq> []" "prev1 = (case ch of TickMarker t k \<Rightarrow> t | _ \<Rightarrow> prev)"
    "\<And>pre post. readChunk H version (cursor_at pre (c @ post), prev) =
      (Inr ch, (cursor_at (pre @ c) post, prev1))" by blast
  then obtain body where body: "out = b1 @ body"
    "\<And>pre. read_chunks H version (cursor_at pre body, prev1) = Inr chs"
    using Cons.IH [OF wr] Cons.prems(2) by auto
  have "read_chunks H version (cursor_at pre (c @ body), prev) = Inr (ch # chs)" for pre
  proof -
    have "0 < int (length c) + int (length body)" using c(2) by (simp add: add_pos_nonneg)
    then show ?thesis by (subst read_chunks.simps) (simp add: c(4) body(2))
  qed
  with c(1) body(1) show ?case by auto
qed

section \<open>What is written is read back: the preamble\<close>

definition fixed_ok :: "dheader \<Rightarrow> bool" where
  "fixed_ok h \<longleftrightarrow>
     length (NetVersion h) \<le> 64 \<and> 0 \<notin> set (NetVersion h) \<and>
     length (MapName h) \<le> 64 \<and> 0 \<notin> set (MapName h) \<and>
     length (Type h) \<le> 8 \<and> 0 \<notin> set (Type h) \<and>
     length (Timestamp h) \<le> 20 \<and> 0 \<notin> set (Timestamp h) \<and>
     0 \<le> MapCrc h \<and> MapCrc h < 2 ^ 32 \<and> 0 \<le> Length h \<and> Length h < 2 ^ 32 \<and>
     MapSize h = int (length (MapData h)) \<and> MapSize h < 2 ^ 32"

definition markers_ok :: "dheader \<Rightarrow> bool" where
  "markers_ok h \<longleftrightarrow> length (TimelineMarkers h) \<le> maxTimelineMarkers \<and> list_all in_s32 (TimelineMarkers h)"

text \<open>
  Without a digest the map, or what follows a short map, must not look like the extension:
  the format has no other way to tell them apart.
\<close>

definition digest_ok :: "dheader \<Rightarrow> byte list \<Rightarrow> bool" where
  "digest_ok h rest \<longleftrightarrow>
     (case Sha256 h of
        Some x \<Rightarrow> 6 \<le> uint (Version h) \<and> length x = 32
      | None \<Rightarrow> uint (Version h) < 6 \<or> take 16 (MapData h @ rest) \<noteq> sha256ExtensionUUID)"

lemma cstr_pad_field: "length s \<le> n \<Longrightarrow> 0 \<notin> set s \<Longrightarrow> cstr (pad_field n s) = s"
proof (cases "length s = n")
  case True
  assume "0 \<notin> set s"
  then have "cut_nul s = None" by (simp add: cut_nul_None_iff)
  with True show ?thesis by (simp add: cstr_def pad_field_def)
next
  case False
  assume "length s \<le> n" "0 \<notin> set s"
  with False show ?thesis by (simp add: cstr_def cut_nul_pad_field)
qed

lemma fixed_header_written:
  assumes "fixed_ok h"
  shows "length (marshalFixedHeader h) = 176"
    "parseFixedHeader (marshalFixedHeader h) = Inr (h\<lparr>TimelineMarkers := [], Sha256 := None, MapData := []\<rparr>)"
proof -
  have magic: "length DMagic = 7" by (simp add: DMagic_def)
  show len: "length (marshalFixedHeader h) = 176" by (simp add: marshalFixedHeader_def magic)
  define d where "d = marshalFixedHeader h"
  have d: "d = DMagic @ [Version h] @ pad_field 64 (NetVersion h) @ pad_field 64 (MapName h) @
     put_be32 (MapSize h) @ put_be32 (MapCrc h) @ pad_field 8 (Type h) @
     put_be32 (Length h) @ pad_field 20 (Timestamp h)"
    by (simp add: d_def marshalFixedHeader_def)
  have parts: "between d 0 7 = DMagic" "d ! 7 = Version h" "between d 8 72 = pad_field 64 (NetVersion h)"
    "between d 72 136 = pad_field 64 (MapName h)" "between d 136 140 = put_be32 (MapSize h)"
    "between d 140 144 = put_be32 (MapCrc h)" "between d 144 152 = pad_field 8 (Type h)"
    "between d 152 156 = put_be32 (Length h)" "between d 156 176 = pad_field 20 (Timestamp h)"
    by (simp_all add: d between_def nth_append magic)
  have be: "u32 (MapSize h) = MapSize h" "u32 (MapCrc h) = MapCrc h" "u32 (Length h) = Length h"
    using assms by (simp_all add: fixed_ok_def u32_id)
  have "parseFixedHeader d = Inr (h\<lparr>TimelineMarkers := [], Sha256 := None, MapData := []\<rparr>)"
    using assms be len [folded d_def]
    by (cases h) (simp add: parseFixedHeader_def parts headerSize_def cstr_pad_field fixed_ok_def)
  then show "parseFixedHeader (marshalFixedHeader h) =
      Inr (h\<lparr>TimelineMarkers := [], Sha256 := None, MapData := []\<rparr>)"
    by (simp add: d_def)
qed

lemma concat_block:
  "\<forall>x \<in> set xs. length x = n \<Longrightarrow> i < length xs \<Longrightarrow> take n (drop (n * i) (concat xs)) = xs ! i"
proof (induction xs arbitrary: i)
  case Nil
  then show ?case by simp
next
  case (Cons x xs)
  then show ?case by (cases i) simp_all
qed

lemma length_concat_block: "\<forall>x \<in> set xs. length x = n \<Longrightarrow> length (concat xs) = n * length xs"
  by (induction xs) simp_all

lemma timeline_written:
  assumes "markers_ok h"
  shows "\<exists>tl. length tl = timelineSize \<and> (\<forall>b. appendTimeline b (TimelineMarkers h) = b @ tl) \<and>
    parseTimeline tl = TimelineMarkers h"
proof -
  let ?ms = "TimelineMarkers h"
  let ?bl = "map (\<lambda>i. if i < length ?ms then put_be32 (?ms ! i) else [0, 0, 0, 0]) [0..<64]"
  let ?tl = "put_be32 (int (length ?ms)) @ concat ?bl"
  have len: "length ?ms \<le> 64" using assms by (simp add: markers_ok_def maxTimelineMarkers_def)
  have four: "\<forall>x \<in> set ?bl. length x = 4" by auto
  have "get_be32 (between ?tl 0 4) = int (length ?ms)"
    using len by (simp add: between_def u32_id)
  moreover have "s32 (get_be32 (between ?tl (4 + i * 4) (8 + i * 4))) = ?ms ! i" if "i < length ?ms" for i
  proof -
    have "between ?tl (4 + i * 4) (8 + i * 4) = take 4 (drop (4 * i) (concat ?bl))"
      by (simp add: between_def mult.commute)
    also have "\<dots> = put_be32 (?ms ! i)"
      using concat_block [OF four, of i] that len by simp
    finally show ?thesis
      using assms that by (simp add: markers_ok_def list_all_length)
  qed
  ultimately have "parseTimeline ?tl = ?ms"
    using len by (auto simp: parseTimeline_def maxTimelineMarkers_def min_def intro!: nth_equalityI)
  moreover have "length ?tl = timelineSize"
    using length_concat_block [OF four] by (simp add: timelineSize_def maxTimelineMarkers_def)
  moreover have "appendTimeline b ?ms = b @ ?tl" for b
    using len by (simp add: appendTimeline_def maxTimelineMarkers_def min_def Let_def)
  ultimately show ?thesis by blast
qed

lemma preamble_written:
  assumes fixed: "fixed_ok h" and markers: "markers_ok h" and digest: "digest_ok h rest"
    and v: "3 < uint (Version h)"
  shows "parse_preamble (marshalPreamble h @ rest) = Inr (h, length (marshalPreamble h))"
proof -
  obtain tl where tl: "length tl = timelineSize" "\<And>b. appendTimeline b (TimelineMarkers h) = b @ tl"
    "parseTimeline tl = TimelineMarkers h"
    using timeline_written [OF markers] by blast
  let ?f = "marshalFixedHeader h"
  let ?h0 = "h\<lparr>TimelineMarkers := [], Sha256 := None, MapData := []\<rparr>"
  let ?h1 = "h\<lparr>Sha256 := None, MapData := []\<rparr>"
  define ext where "ext = (case Sha256 h of None \<Rightarrow> [] | Some x \<Rightarrow> sha256ExtensionUUID @ x)"
  have pre: "marshalPreamble h = ?f @ tl @ ext @ MapData h"
    using digest v by (auto simp: marshalPreamble_def versionOld_def tl(2) ext_def Let_def
        digest_ok_def versionSha256_def split: option.splits)
  define d where "d = marshalPreamble h @ rest"
  have d: "d = ?f @ tl @ ext @ MapData h @ rest" by (simp add: d_def pre)
  note f = fixed_header_written [OF fixed]
  have uuid: "length sha256ExtensionUUID = 16" by (simp add: sha256ExtensionUUID_def)
  have 1: "parseFixedHeader (between d 0 headerSize) = Inr ?h0"
    using f by (simp add: between_def d headerSize_def)
  have 2: "parse_timeline_block d ?h0 headerSize = Inr (?h1, headerSize + timelineSize)"
    using v f(1) tl(1,3) by (simp add: parse_timeline_block_def versionOld_def between_def d headerSize_def)
  have 3: "parse_sha256 d ?h1 (headerSize + timelineSize) =
      Inr (h\<lparr>MapData := []\<rparr>, headerSize + timelineSize + length ext)"
  proof (cases "Sha256 h")
    case None
    then have "between d (headerSize + timelineSize) (headerSize + timelineSize + 16) = take 16 (MapData h @ rest)"
      using f(1) tl(1) by (simp add: between_def d headerSize_def ext_def)
    with None digest show ?thesis
      by (cases h) (auto simp: parse_sha256_def digest_ok_def versionSha256_def ext_def)
  next
    case (Some x)
    with digest have x: "length x = 32" "6 \<le> uint (Version h)" by (simp_all add: digest_ok_def)
    have "between d (headerSize + timelineSize) (headerSize + timelineSize + 16) = sha256ExtensionUUID"
      "between d (headerSize + timelineSize + 16) (headerSize + timelineSize + 48) = x"
      using f(1) tl(1) Some x uuid by (simp_all add: between_def d headerSize_def ext_def)
    with Some x f(1) tl(1) uuid show ?thesis
      by (cases h) (simp add: parse_sha256_def versionSha256_def sha256DigestSize_def ext_def Let_def d headerSize_def)
  qed
  have size: "length (marshalPreamble h) = headerSize + timelineSize + length ext + length (MapData h)"
    using f(1) tl(1) by (simp add: pre headerSize_def)
  have 4: "parse_map d (h\<lparr>MapData := []\<rparr>, headerSize + timelineSize + length ext) = Inr (h, length (marshalPreamble h))"
  proof -
    have ms: "MapSize h = int (length (MapData h))" using fixed by (simp add: fixed_ok_def)
    have "between d (headerSize + timelineSize + length ext) (length (marshalPreamble h)) = MapData h"
      using f(1) tl(1) by (simp add: between_def d size headerSize_def)
    moreover have "nat (int (headerSize + timelineSize + length ext) + MapSize h) = length (marshalPreamble h)"
      by (simp add: ms size nat_add_distrib)
    moreover have "int (headerSize + timelineSize + length ext) + MapSize h \<le> int (length d)"
      by (simp add: d_def size ms)
    ultimately show ?thesis using ms by (cases h) (simp add: parse_map_def)
  qed
  have "\<not> length d < headerSize" using f(1) by (simp add: d headerSize_def)
  with 1 2 3 4 show ?thesis by (simp add: parse_preamble_def d_def)
qed

section \<open>The streaming encoder\<close>

fun dwrite_all :: "huff_lib \<Rightarrow> 'w writer \<Rightarrow> dchunk list \<Rightarrow> ('w dencoder, unit) gost" where
  "dwrite_all H W [] enc = (Inr (), enc)"
| "dwrite_all H W (ch # chs) enc = bnd (DWrite H W ch) (\<lambda>_. dwrite_all H W chs) enc"

lemma appendChunk_prefix:
  "appendChunk H b ch prev =
     map_prod (map_sum id ((@) b)) id (appendChunk H [] ch prev)"
proof (cases ch)
  case (TickMarker t k)
  then show ?thesis by (simp add: appendTickMarker_def Let_def)
next
  case (DataChunk ty d)
  then show ?thesis
    by (cases "Compress H d") (simp_all add: appendDataChunk_def Let_def)
qed

lemma write_dchunks_prefix:
  "write_dchunks H b chs prev = map_sum id ((@) b) (write_dchunks H [] chs prev)"
proof (induction chs arbitrary: b prev)
  case Nil
  show ?case by simp
next
  case (Cons ch chs)
  obtain r prev1 where r: "appendChunk H [] ch prev = (r, prev1)" by fastforce
  show ?case
  proof (cases r)
    case (Inl e)
    with r appendChunk_prefix [of H b ch prev] show ?thesis by simp
  next
    case (Inr x)
    with r appendChunk_prefix [of H b ch prev] Cons.IH [of "b @ x" prev1] Cons.IH [of x prev1]
    show ?thesis by (cases "write_dchunks H [] chs prev1") simp_all
  qed
qed

context sink begin

lemma dwrite_all_content:
  "write_dchunks H [] chs (deprevTick enc) = Inr out \<Longrightarrow>
   \<exists>enc'. dwrite_all H W chs enc = (Inr (), enc') \<and> content (dew enc') = content (dew enc) @ out"
proof (induction chs arbitrary: enc out)
  case Nil
  then show ?case by simp
next
  case (Cons ch chs)
  obtain b prev1 where ap: "appendChunk H [] ch (deprevTick enc) = (Inr b, prev1)"
    and wr: "write_dchunks H b chs prev1 = Inr out"
    using Cons.prems by (auto split: prod.splits sum.splits)
  then obtain out' where out': "write_dchunks H [] chs prev1 = Inr out'" "out = b @ out'"
    using write_dchunks_prefix [of H b chs prev1] by (cases "write_dchunks H [] chs prev1") auto
  obtain w where w: "W b (dew enc) = (Inr (int (length b)), w)" "content w = content (dew enc) @ b"
    by (rule writeE)
  let ?enc = "enc\<lparr>deprevTick := prev1, debuf := b, dew := w\<rparr>"
  have "DWrite H W ch enc = (Inr (), ?enc)" using ap w(1) by (simp add: DWrite_def)
  with Cons.IH [of ?enc out'] out' w(2) show ?case by auto
qed

end

section \<open>Properties\<close>

text \<open>
  Round trip of a demo file of version 5 or later. When the preamble fits its fixed
  fields, ticks do not go back without a keyframe and \<open>WriteTo\<close> produces bytes, \<open>Parse\<close> reads
  back the same header, timeline markers, digest, map and chunks.
\<close>

theorem written_demo_parses:
  assumes "huffman_inverse H" and "dfile_bytes H f = Inr (marshalPreamble (DHeader f) @ body)"
    and "fixed_ok (DHeader f)" and "markers_ok (DHeader f)" and "digest_ok (DHeader f) body"
    and "5 \<le> uint (Version (DHeader f))" and "chunks_fit H (- 1) (DChunks f)"
  shows "DParse H (marshalPreamble (DHeader f) @ body) = Inr f"
proof -
  let ?h = "DHeader f" and ?p = "marshalPreamble (DHeader f)"
  have v: "\<not> Version ?h < versionTickCompression"
    using assms(6) by (simp add: versionTickCompression_def word_less_def)
  have "\<exists>b. ?p @ body = ?p @ b \<and>
      (\<forall>pre. read_chunks H (Version ?h) (cursor_at pre b, - 1) = Inr (DChunks f))"
    using chunks_read [OF assms(1) v _ assms(7)] assms(2) unfolding dfile_bytes_def by blast
  then have "read_chunks H (Version ?h) (cursor_at ?p body, - 1) = Inr (DChunks f)" by auto
  moreover have "parse_preamble (?p @ body) = Inr (?h, length ?p)"
    using assms(3-6) by (intro preamble_written) simp_all
  ultimately show ?thesis by (cases f) (simp add: DParse_eq cursor_at_def)
qed

definition sample_demo :: dfile where
  "sample_demo =
     \<lparr>DHeader = \<lparr>Version = 6, NetVersion = [48, 46, 54], MapName = [109], MapSize = 2, MapCrc = 7,
        Type = [99], Length = 1, Timestamp = [50], TimelineMarkers = [5, - 1],
        Sha256 = Some (replicate 32 3), MapData = [1, 2]\<rparr>,
      DChunks = [TickMarker 10 True, DataChunk 1 [5, 6], TickMarker 12 False, DataChunk 3 []]\<rparr>"

lemma sample_demo_ok:
  "dfile_bytes plain_huffman sample_demo =
     Inr (marshalPreamble (DHeader sample_demo) @ [192, 0, 0, 0, 10, 35, 5, 6, 0, 162, 97, 0])"
  "fixed_ok (DHeader sample_demo)" "markers_ok (DHeader sample_demo)"
  "digest_ok (DHeader sample_demo) body" "5 \<le> uint (Version (DHeader sample_demo))"
  "chunks_fit plain_huffman (- 1) (DChunks sample_demo)"
proof -
  have "write_dchunks plain_huffman [] (DChunks sample_demo) (- 1) =
      Inr [192, 0, 0, 0, 10, 35, 5, 6, 0, 162, 97, 0]"
    by code_simp
  then show "dfile_bytes plain_huffman sample_demo =
     Inr (marshalPreamble (DHeader sample_demo) @ [192, 0, 0, 0, 10, 35, 5, 6, 0, 162, 97, 0])"
    by (simp add: dfile_bytes_def write_dchunks_prefix [of _ "marshalPreamble _"])
qed (simp_all add: sample_demo_def fixed_ok_def markers_ok_def digest_ok_def maxTimelineMarkers_def
      in_s32_def plain_huffman_def)

theorem written_demo_parses_witness:
  "DParse plain_huffman
     (marshalPreamble (DHeader sample_demo) @ [192, 0, 0, 0, 10, 35, 5, 6, 0, 162, 97, 0]) =
   Inr sample_demo"
  by (rule written_demo_parses [OF plain_huffman_inverse]) (rule sample_demo_ok)+

text \<open>
  The streaming decoder of demo files agrees with \<open>Parse\<close> on every input: the preamble and
  the chunks of \<open>Next\<close> until \<open>io.EOF\<close> are those of \<open>Parse\<close>, or both fail.
\<close>

theorem demo_streaming_equals_parse:
  "same_result (DParse H d)
     (attempt (DNewDecoder d) (\<lambda>dec. attempt (ddecodeAll H dec) (\<lambda>chs.
      Inr \<lparr>DHeader = dhdr dec, DChunks = chs\<rparr>)))"
  by (rule streaming_demo)

text \<open>
  The streaming encoder of demo files writes the bytes of \<open>WriteTo\<close> on a writer that
  appends, whenever \<open>WriteTo\<close> succeeds.
\<close>

theorem demo_encoder_equals_WriteTo:
  assumes "sink W content" and "dfile_bytes H f = Inr d"
  shows "\<exists>enc enc' w' n. DNewEncoder W w (DHeader f) = Inr enc
    \<and> dwrite_all H W (DChunks f) enc = (Inr (), enc')
    \<and> DWriteTo H W f w = (Inr n, w')
    \<and> content (dew enc') = content w' \<and> content w' = content w @ d"
proof -
  let ?p = "marshalPreamble (DHeader f)"
  obtain w1 where w1: "W ?p w = (Inr (int (length ?p)), w1)" "content w1 = content w @ ?p"
    by (rule sink.writeE [OF assms(1)])
  let ?enc = "\<lparr>dew = w1, deprevTick = - 1, debuf = []\<rparr>"
  obtain body where body: "write_dchunks H [] (DChunks f) (- 1) = Inr body" "d = ?p @ body"
    using assms(2) write_dchunks_prefix [of H ?p "DChunks f" "- 1"]
    by (cases "write_dchunks H [] (DChunks f) (- 1)") (auto simp: dfile_bytes_def)
  obtain enc' where "dwrite_all H W (DChunks f) ?enc = (Inr (), enc')"
    "content (dew enc') = content w1 @ body"
    using sink.dwrite_all_content [OF assms(1), of H "DChunks f" ?enc body] body(1) by auto
  moreover obtain w' where "W d w = (Inr (int (length d)), w')" "content w' = content w @ d"
    by (rule sink.writeE [OF assms(1)])
  ultimately show ?thesis
    using w1 body(2) assms(2) by (simp add: DNewEncoder_def DWriteTo_def)
qed

theorem demo_encoder_equals_WriteTo_witness:
  "\<exists>enc enc' w' n. DNewEncoder buffer_write [] (DHeader sample_demo) = Inr enc
    \<and> dwrite_all plain_huffman buffer_write (DChunks sample_demo) enc = (Inr (), enc')
    \<and> DWriteTo plain_huffman buffer_write sample_demo [] = (Inr n, w') \<and> dew enc' = w'
    \<and> w' = [] @ (marshalPreamble (DHeader sample_demo) @ [192, 0, 0, 0, 10, 35, 5, 6, 0, 162, 97, 0])"
  by (rule demo_encoder_equals_WriteTo [OF buffer.sink_axioms sample_demo_ok(1)])

text \<open>
  A demo of version 4, which \<open>Parse\<close> accepts, is not preserved by \<open>WriteTo\<close>: markers are
  always written in the compressed form of version 5, whose flag bit a version 4 reader takes as
  part of the difference. Two ticks \<open>t\<close> and \<open>t + d\<close> with \<open>d\<close> at most 31 are read back as \<open>t\<close>
  and \<open>t + d + 32\<close>.
\<close>

theorem version4_ticks_shift:
  assumes "fixed_ok (DHeader f)" and "markers_ok (DHeader f)" and "Sha256 (DHeader f) = None"
    and "uint (Version (DHeader f)) = 4" and "DChunks f = [TickMarker t False, TickMarker (t + d) False]"
    and "0 \<le> t" and "t < 2 ^ 31" and "0 \<le> d" and "d \<le> 31"
  shows "\<exists>bs. dfile_bytes H f = Inr bs \<and>
    DParse H bs = Inr (f\<lparr>DChunks := [TickMarker t False, TickMarker (t + d + 32) False]\<rparr>)"
proof -
  let ?h = "DHeader f" and ?p = "marshalPreamble (DHeader f)"
  let ?head = "byte_of ((0x80 OR 0x20) OR d)"
  let ?body = "(0x80 # put_be32 t) @ [?head]"
  have t: "in_s32 t" using assms(6,7) by (simp add: in_s32_def)
  have bytes: "dfile_bytes H f = Inr (?p @ ?body)"
    using assms(5,6,8,9)
    by (simp add: dfile_bytes_def write_dchunks_prefix [of _ "marshalPreamble _"] appendTickMarker_def
        add.commute [of t] del: or_numerals)
  have v: "Version ?h < versionTickCompression"
    using assms(4) by (simp add: versionTickCompression_def word_less_def)
  have r1: "readChunk H (Version ?h) (cursor_at pre ((0x80 # put_be32 t) @ post), - 1) =
      (Inr (TickMarker t False), (cursor_at (pre @ 0x80 # put_be32 t) post, t))" for pre post
    using t by (simp add: readChunk_def readChunk_body_def tickDelta_def at_cursor set_prev_def Let_def
        del: on_cursor_pair)
  have r2: "readChunk H (Version ?h) (cursor_at pre [?head], t) =
      (Inr (TickMarker (t + d + 32) False), (cursor_at (pre @ [?head]) [], t + d + 32))" for pre
    using v assms(6) on_cursor_sbyte_at [of pre ?head "[]"]
    by (simp add: readChunk_def readChunk_body_def compressed_head [OF assms(8,9)] Let_def get_prev_def
        set_prev_def del: or_numerals on_cursor_pair)
  have nil: "read_chunks H (Version ?h) (cursor_at pre [], p) = Inr []" for pre p
    by (subst read_chunks.simps) simp
  have "read_chunks H (Version ?h) (cursor_at ?p ?body, - 1) =
      Inr [TickMarker t False, TickMarker (t + d + 32) False]"
    using r1 [of ?p "[?head]"] r2 nil
    by (subst read_chunks.simps, simp del: or_numerals) (subst read_chunks.simps, simp del: or_numerals)
  moreover have "parse_preamble (?p @ ?body) = Inr (?h, length ?p)"
    using assms(1-4) by (intro preamble_written) (simp_all add: digest_ok_def)
  ultimately have "DParse H (?p @ ?body) = Inr (f\<lparr>DChunks := [TickMarker t False, TickMarker (t + d + 32) False]\<rparr>)"
    by (cases f) (simp add: DParse_eq cursor_at_def)
  with bytes show ?thesis by blast
qed

theorem version4_ticks_shift_witness:
  "\<exists>bs. dfile_bytes plain_huffman
      \<lparr>DHeader = (DHeader sample_demo)\<lparr>Version := 4, Sha256 := None\<rparr>,
       DChunks = [TickMarker 7 False, TickMarker (7 + 3) False]\<rparr> = Inr bs \<and>
    DParse plain_huffman bs = Inr (\<lparr>DHeader = (DHeader sample_demo)\<lparr>Version := 4, Sha256 := None\<rparr>,
       DChunks = [TickMarker 7 False, TickMarker (7 + 3) False]\<rparr>
      \<lparr>DChunks := [TickMarker 7 False, TickMarker (7 + 3 + 32) False]\<rparr>)"
  by (rule version4_ticks_shift)
    (simp_all add: sample_demo_def fixed_ok_def markers_ok_def maxTimelineMarkers_def in_s32_def)

end
