(* ===== verification/Helpers.thy ===== *)
theory Helpers
  imports Chunk
begin

text \<open>
  packet/helpers.go: the integer stream codec around the third-party varint, C strings, the
  scanners that walk the chunks of a payload by offset, and the map change message. The
  scanners repeat the header arithmetic of chunk.go inline; they are related to
  \<open>UnpackChunks\<close> here.
\<close>

section \<open>Integer streams and strings\<close>

definition le32 :: "int \<Rightarrow> byte list" where
  "le32 x = map byte_of [x, x div 2 ^ 8, x div 2 ^ 16, x div 2 ^ 24]"

definition get_le32 :: "byte list \<Rightarrow> int" where
  "get_le32 b = uint (b ! 0) + 2 ^ 8 * uint (b ! 1) + 2 ^ 16 * uint (b ! 2) + 2 ^ 24 * uint (b ! 3)"

text \<open>\<open>dst\<close> is written in place: the result is the number of bytes and the buffer after.\<close>

function varint_decompress_loop ::
  "varint_lib \<Rightarrow> byte list \<Rightarrow> nat \<Rightarrow> byte list \<Rightarrow> nat \<Rightarrow> int \<times> byte list" where
  "varint_decompress_loop L src srcPos dst dstPos =
     (if srcPos < length src \<and> dstPos + 4 \<le> length dst then
        (let (val, n) = Varint L (drop srcPos src) in
         if n \<le> 0 then (- 1, dst)
         else
           varint_decompress_loop L src (srcPos + nat n)
             (take dstPos dst @ le32 (s32 val) @ drop (dstPos + 4) dst) (dstPos + 4))
      else (int dstPos, dst))"
  by auto
termination
  by (relation "measure (\<lambda>(L, src, srcPos, dst, dstPos). length src - srcPos)") auto

declare varint_decompress_loop.simps [simp del]

definition VarintDecompress :: "varint_lib \<Rightarrow> byte list \<Rightarrow> byte list \<Rightarrow> int \<times> byte list" where
  "VarintDecompress L src dst = varint_decompress_loop L src 0 dst 0"

function varint_compress_loop :: "varint_lib \<Rightarrow> byte list \<Rightarrow> nat \<Rightarrow> byte list \<Rightarrow> byte list" where
  "varint_compress_loop L src i out =
     (if i + 4 \<le> length src then
        varint_compress_loop L src (i + 4) (AppendVarint L out (s32 (get_le32 (take 4 (drop i src)))))
      else out)"
  by auto
termination
  by (relation "measure (\<lambda>(L, src, i, out). length src - i)") auto

declare varint_compress_loop.simps [simp del]

definition VarintCompress :: "varint_lib \<Rightarrow> byte list \<Rightarrow> byte list" where
  "VarintCompress L src = varint_compress_loop L src 0 []"

definition ReadInt32LE :: "byte list \<Rightarrow> int" where
  "ReadInt32LE b = s32 (get_le32 b)"

fun CString :: "byte list \<Rightarrow> byte list" where
  "CString [] = []"
| "CString (c # b) = (if c = 0 then [] else c # CString b)"

section \<open>Scanning a payload by offset\<close>

definition MaxSequence :: int where "MaxSequence = push_bit 10 1"

definition scan_vital :: "byte \<Rightarrow> bool" where
  "scan_vital b0 \<longleftrightarrow> (drop_bit 6 b0 AND 3) AND 1 \<noteq> 0"

definition scan_size :: "byte \<Rightarrow> byte \<Rightarrow> nat \<Rightarrow> int" where
  "scan_size b0 b1 split = push_bit split (uint (b0 AND 0x3F)) OR (uint b1 AND sizeLowMask split)"

definition scan_hdrSize :: "byte \<Rightarrow> nat" where
  "scan_hdrSize b0 = (if scan_vital b0 then 3 else 2)"

fun count_vital_loop :: "byte list \<Rightarrow> nat \<Rightarrow> int \<Rightarrow> nat \<Rightarrow> nat \<Rightarrow> int" where
  "count_vital_loop payload 0 ack offset split = ack"
| "count_vital_loop payload (Suc k) ack offset split =
     (if offset < length payload then
        (if offset + 2 > length payload then ack
         else
           (let b0 = payload ! offset; b1 = payload ! (offset + 1);
                sq = unpacked_seq b1 (payload ! (offset + 2)) split;
                ack' = (if scan_vital b0 \<and> offset + 3 \<le> length payload
                        then (if sq = (ack + 1) mod MaxSequence then sq else ack) else ack) in
            count_vital_loop payload k ack' (offset + (scan_hdrSize b0 + nat (scan_size b0 b1 split))) split))
      else ack)"

definition CountVitalChunks :: "byte list \<Rightarrow> int \<Rightarrow> int \<Rightarrow> nat \<Rightarrow> int" where
  "CountVitalChunks payload numChunks currentAck split =
     count_vital_loop payload (nat numChunks) currentAck 0 split"

text \<open>The message id is read from one byte: six bits and the sign, the continuation bit unread.\<close>

definition first_byte_msg :: "byte \<Rightarrow> int" where
  "first_byte_msg b = (let r = uint (b AND 0x3F) in if b AND 0x40 \<noteq> 0 then NOT r else r)"

function contains_loop :: "byte list \<Rightarrow> int \<Rightarrow> bool \<Rightarrow> nat \<Rightarrow> nat \<Rightarrow> bool" where
  "contains_loop payload targetMsgID wantSystem offset split =
     (if offset < length payload then
        (if offset + 2 > length payload then False
         else
           (let b0 = payload ! offset; b1 = payload ! (offset + 1); hdr = scan_hdrSize b0 in
            if offset + hdr \<ge> length payload then False
            else
              (let raw = first_byte_msg (payload ! (offset + hdr)) in
               if (raw AND 1 \<noteq> 0) = wantSystem \<and> drop_bit 1 raw = targetMsgID then True
               else
                 contains_loop payload targetMsgID wantSystem
                   (offset + (hdr + nat (scan_size b0 b1 split))) split)))
      else False)"
  by auto
termination
  by (relation "measure (\<lambda>(payload, targetMsgID, wantSystem, offset, split). length payload - offset)")
    (auto simp: scan_hdrSize_def)

declare contains_loop.simps [simp del]

definition containsMsg :: "byte list \<Rightarrow> int \<Rightarrow> bool \<Rightarrow> nat \<Rightarrow> bool" where
  "containsMsg payload targetMsgID wantSystem split =
     contains_loop payload targetMsgID wantSystem 0 split"

definition ContainsSysMsg :: "byte list \<Rightarrow> int \<Rightarrow> nat \<Rightarrow> bool" where
  "ContainsSysMsg payload msgID split = containsMsg payload msgID True split"

definition ContainsGameMsg :: "byte list \<Rightarrow> int \<Rightarrow> nat \<Rightarrow> bool" where
  "ContainsGameMsg payload msgID split = containsMsg payload msgID False split"

text \<open>
  What one chunk's data contributes to the extractors: the rest of a system message with the
  target id. \<open>ExtractSysMsgPayload\<close> takes an empty rest, \<open>ExtractAllSysMsgPayloads\<close> skips it.
\<close>

definition sys_msg_rest :: "varint_lib \<Rightarrow> int \<Rightarrow> byte list \<Rightarrow> unpacker option" where
  "sys_msg_rest L targetMsgID dat =
     (case NextInt L (NewUnpacker dat) of
        (Inl e, u) \<Rightarrow> None
      | (Inr msgRaw, u) \<Rightarrow>
          if msgRaw AND 1 \<noteq> 0 \<and> drop_bit 1 msgRaw = targetMsgID then Some u else None)"

function extract_loop :: "varint_lib \<Rightarrow> byte list \<Rightarrow> int \<Rightarrow> nat \<Rightarrow> nat \<Rightarrow> byte list option" where
  "extract_loop L payload targetMsgID offset split =
     (if offset < length payload then
        (if offset + 2 > length payload then None
         else
           (let b0 = payload ! offset; b1 = payload ! (offset + 1); hdr = scan_hdrSize b0;
                sz = scan_size b0 b1 split; dataStart = offset + hdr; dataEnd = dataStart + nat sz;
                found = (if dataStart < length payload \<and> dataEnd \<le> length payload \<and> sz > 0
                         then sys_msg_rest L targetMsgID (take (nat sz) (drop dataStart payload))
                         else None) in
            case found of
              Some u \<Rightarrow>
                (if RemainingSize u > 0
                 then (case NextRaw (RemainingSize u) u of (Inr raw, _) \<Rightarrow> Some raw | (Inl e, _) \<Rightarrow> None)
                 else Some [])
            | None \<Rightarrow> extract_loop L payload targetMsgID (offset + (hdr + nat sz)) split))
      else None)"
  by auto
termination
  by (relation "measure (\<lambda>(L, payload, targetMsgID, offset, split). length payload - offset)")
    (auto simp: scan_hdrSize_def)

declare extract_loop.simps [simp del]

definition ExtractSysMsgPayload :: "varint_lib \<Rightarrow> byte list \<Rightarrow> int \<Rightarrow> nat \<Rightarrow> byte list option" where
  "ExtractSysMsgPayload L payload targetMsgID split = extract_loop L payload targetMsgID 0 split"

function extract_all_loop ::
  "varint_lib \<Rightarrow> byte list \<Rightarrow> int \<Rightarrow> nat \<Rightarrow> nat \<Rightarrow> byte list list" where
  "extract_all_loop L payload targetMsgID offset split =
     (if offset < length payload then
        (if offset + 2 > length payload then []
         else
           (let b0 = payload ! offset; b1 = payload ! (offset + 1); hdr = scan_hdrSize b0;
                sz = scan_size b0 b1 split; dataStart = offset + hdr; dataEnd = dataStart + nat sz;
                found = (if dataStart < length payload \<and> dataEnd \<le> length payload \<and> sz > 0
                         then sys_msg_rest L targetMsgID (take (nat sz) (drop dataStart payload))
                         else None);
                out = (case found of
                         None \<Rightarrow> []
                       | Some u \<Rightarrow>
                           if RemainingSize u > 0 then
                             (case NextRaw (RemainingSize u) u of (Inr raw, _) \<Rightarrow> [raw] | (Inl e, _) \<Rightarrow> [])
                           else []) in
            out @ extract_all_loop L payload targetMsgID (offset + (hdr + nat sz)) split))
      else [])"
  by auto
termination
  by (relation "measure (\<lambda>(L, payload, targetMsgID, offset, split). length payload - offset)")
    (auto simp: scan_hdrSize_def)

declare extract_all_loop.simps [simp del]

definition ExtractAllSysMsgPayloads ::
  "varint_lib \<Rightarrow> byte list \<Rightarrow> int \<Rightarrow> nat \<Rightarrow> byte list list" where
  "ExtractAllSysMsgPayloads L payload targetMsgID split =
     extract_all_loop L payload targetMsgID 0 split"

section \<open>The map change message\<close>

record map_info =
  Name :: "byte list"
  CRC :: int
  MSize :: int
  NumChunksPerRequest :: int
  Sha256 :: "byte list"

text \<open>The DDNet fields are optional: reading stops silently at the first that is missing.\<close>

definition ParseMapChangePayload :: "varint_lib \<Rightarrow> byte list \<Rightarrow> goerr + map_info" where
  "ParseMapChangePayload L d =
     (case bnd (wrapped ''map_change: name'' [] NextString) (\<lambda>name.
           bnd (wrapped ''map_change: crc'' [] (NextInt L)) (\<lambda>crc.
           bnd (wrapped ''map_change: size'' [] (NextInt L)) (\<lambda>sz.
           ret \<lparr>Name = name, CRC = crc, MSize = sz, NumChunksPerRequest = 0, Sha256 = replicate 32 0\<rparr>)))
           (NewUnpacker d) of
        (Inl e, u) \<Rightarrow> Inl e
      | (Inr info, u) \<Rightarrow>
          (case NextInt L u of
             (Inl e, _) \<Rightarrow> Inr info
           | (Inr perReq, u1) \<Rightarrow>
               (let info1 = info\<lparr>NumChunksPerRequest := perReq\<rparr> in
                case bnd (NextInt L) (\<lambda>_. NextRaw 32) u1 of
                  (Inl e, _) \<Rightarrow> Inr info1
                | (Inr raw, _) \<Rightarrow> Inr (info1\<lparr>Sha256 := pad_field 32 raw\<rparr>))))"

section \<open>The integer stream round trip\<close>

lemma byte_of_s32:
  "byte_of (s32 x) = byte_of x" "byte_of (s32 x div 2 ^ 8) = byte_of (x div 2 ^ 8)"
  "byte_of (s32 x div 2 ^ 16) = byte_of (x div 2 ^ 16)" "byte_of (s32 x div 2 ^ 24) = byte_of (x div 2 ^ 24)"
proof -
  have "byte_of (s32 x div 2 ^ k) = byte_of (x div 2 ^ k)" if "k \<le> 24" for k
  proof (rule bit_word_eqI)
    fix n
    assume "n < LENGTH(8)"
    with that have "min 31 (k + n) = k + n" by simp
    then show "bit (byte_of (s32 x div 2 ^ k)) n \<longleftrightarrow> bit (byte_of (x div 2 ^ k)) n"
      by (simp add: byte_of_def bit_word_of_int_iff s32_def bit_signed_take_bit_iff bit_drop_bit_eq
          flip: drop_bit_eq_div)
  qed
  from this [of 0] this [of 8] this [of 16] this [of 24] show
    "byte_of (s32 x) = byte_of x" "byte_of (s32 x div 2 ^ 8) = byte_of (x div 2 ^ 8)"
    "byte_of (s32 x div 2 ^ 16) = byte_of (x div 2 ^ 16)" "byte_of (s32 x div 2 ^ 24) = byte_of (x div 2 ^ 24)"
    by simp_all
qed

lemma le32_get_le32: "le32 (s32 (get_le32 [a, b, c, d])) = [a, b, c, d]"
proof -
  let ?v = "get_le32 [a, b, c, d]"
  have v: "?v = uint a + 256 * (uint b + 256 * (uint c + 256 * uint d))"
    by (simp add: get_le32_def)
  have step: "(uint x + 256 * y) div 256 = y" "byte_of (uint x + 256 * y) = x" for x :: byte and y
    using uint_byte_bounds [of x] by simp_all (simp add: word_uint_eq_iff)
  have q: "?v div 256 = uint b + 256 * (uint c + 256 * uint d)" unfolding v by (rule step(1))
  have q2: "?v div 256 div 256 = uint c + 256 * uint d" unfolding q by (rule step(1))
  have q3: "?v div 256 div 256 div 256 = uint d" unfolding q2 using step(1) [of c "uint d"] by simp
  have e: "x div 2 ^ 8 = x div 256" "x div 2 ^ 16 = x div 256 div 256"
    "x div 2 ^ 24 = x div 256 div 256 div 256" for x :: int
    by (simp_all add: zdiv_zmult2_eq [symmetric])
  have "byte_of ?v = a" unfolding v by (rule step(2))
  moreover have "byte_of (?v div 256) = b" unfolding q by (rule step(2))
  moreover have "byte_of (?v div 256 div 256) = c" unfolding q2 by (rule step(2))
  moreover have "byte_of (?v div 256 div 256 div 256) = d" unfolding q3 by simp
  ultimately show ?thesis unfolding le32_def list.map byte_of_s32 unfolding e by simp
qed

fun words_of :: "byte list \<Rightarrow> int list" where
  "words_of (a # b # c # d # r) = s32 (get_le32 [a, b, c, d]) # words_of r"
| "words_of _ = []"

lemma words_of_le32: "length src mod 4 = 0 \<Longrightarrow> concat (map le32 (words_of src)) = src"
  by (induction src rule: words_of.induct) (simp_all add: le32_get_le32)

lemma words_of_s32: "list_all in_s32 (words_of src)"
  by (induction src rule: words_of.induct) simp_all

lemma length_le32 [simp]: "length (le32 x) = 4"
  by (simp add: le32_def)

context varint_contract begin

lemma compress_words:
  "varint_compress_loop L (pre @ src) (length pre) out = out @ concat (map (encv L) (words_of src))"
proof (induction src arbitrary: pre out rule: words_of.induct)
  case (1 a b c d r)
  have "varint_compress_loop L (pre @ a # b # c # d # r) (length pre) out =
      varint_compress_loop L ((pre @ [a, b, c, d]) @ r) (length (pre @ [a, b, c, d]))
        (out @ encv L (s32 (get_le32 [a, b, c, d])))"
    by (subst varint_compress_loop.simps) (simp add: append_varint [of out] numeral_eq_Suc)
  with "1.IH" [of "pre @ [a, b, c, d]"] show ?case by simp
qed (subst varint_compress_loop.simps, simp)+

lemma decompress_words:
  "list_all in_s32 xs \<Longrightarrow> 4 * length xs \<le> length dst \<Longrightarrow>
   varint_decompress_loop L (pre @ concat (map (encv L) xs)) (length pre) (done @ dst) (length done) =
     (int (length done + 4 * length xs), done @ concat (map le32 xs) @ drop (4 * length xs) dst)"
proof (induction xs arbitrary: pre dst "done")
  case Nil
  show ?case by (subst varint_decompress_loop.simps) simp
next
  case (Cons x xs)
  then have x: "in_s32 x" "list_all in_s32 xs" "4 * length xs \<le> length (drop 4 dst)" "4 \<le> length dst"
    by simp_all
  have ne: "length pre < length (pre @ concat (map (encv L) (x # xs)))"
    using encode_length [OF x(1)] by simp
  have "varint_decompress_loop L (pre @ concat (map (encv L) (x # xs))) (length pre) (done @ dst) (length done) =
      varint_decompress_loop L ((pre @ encv L x) @ concat (map (encv L) xs)) (length (pre @ encv L x))
        ((done @ le32 x) @ drop 4 dst) (length (done @ le32 x))"
    using x ne decode_encode [OF x(1), of "concat (map (encv L) xs)"] encode_length [OF x(1)]
    by (subst varint_decompress_loop.simps) (simp add: add.commute)
  with Cons.IH [OF x(2,3), of "pre @ encv L x" "done @ le32 x"] show ?case by (simp add: add.commute)
qed

end

section \<open>The scanners on well-formed payloads\<close>

lemma scan_header: "scan_vital b0 = Vital (Flags (set_flags_size b0 b1 split g))"
    "scan_size b0 b1 split = Size (set_flags_size b0 b1 split g)"
  by (simp_all add: scan_vital_def scan_size_def set_flags_size_def Let_def)

lemma scan_chunk:
  assumes "split \<le> 6" "wf_chunk split c" and p_def: "p = pre @ chunk_bytes split c @ rest"
  shows "scan_vital (p ! length pre) = Vital (Flags (Header c))"
    "scan_size (p ! length pre) (p ! (length pre + 1)) split = int (length (Data c))"
    "scan_hdrSize (p ! length pre) = HeaderSize (Header c)"
    "Vital (Flags (Header c)) \<Longrightarrow>
      unpacked_seq (p ! (length pre + 1)) (p ! (length pre + 2)) split = Seq (Header c)"
    "length pre + HeaderSize (Header c) + length (Data c) \<le> length p"
    "take (length (Data c)) (drop (length pre + HeaderSize (Header c)) p) = Data c"
    "p ! (length pre + HeaderSize (Header c)) = hd (Data c)"
proof -
  have wf: "wf_header split (Header c)" "Data c \<noteq> []" "Size (Header c) = int (length (Data c))"
    using assms(2) by (simp_all add: wf_chunk_def)
  have len: "length (chunk_pack (Header c) split) = HeaderSize (Header c)"
    by (simp add: chunk_pack_eq HeaderSize_def)
  have b: "p ! length pre = pack0 (Header c) split" "p ! (length pre + 1) = pack1 (Header c) split"
    "Vital (Flags (Header c)) \<Longrightarrow> p ! (length pre + 2) = byte_of (Seq (Header c) AND 0xFF)"
    by (simp_all add: p_def chunk_bytes_def chunk_pack_eq nth_append)
  show "scan_vital (p ! length pre) = Vital (Flags (Header c))"
    "scan_size (p ! length pre) (p ! (length pre + 1)) split = int (length (Data c))"
    unfolding b scan_header [where g = zero_header and split = split and ?b1.0 = "pack1 (Header c) split"]
      set_flags_size_pack [OF assms(1) wf(1)]
    by (simp_all add: wf(3))
  then show "scan_hdrSize (p ! length pre) = HeaderSize (Header c)"
    by (simp add: scan_hdrSize_def HeaderSize_def)
  show "unpacked_seq (p ! (length pre + 1)) (p ! (length pre + 2)) split = Seq (Header c)"
    if "Vital (Flags (Header c))"
    using that wf(1) unfolding b(2) b(3) [OF that]
    by (intro unpacked_seq_eq assms(1)) (simp_all add: wf_header_def)
  show "length pre + HeaderSize (Header c) + length (Data c) \<le> length p"
    "take (length (Data c)) (drop (length pre + HeaderSize (Header c)) p) = Data c"
    "p ! (length pre + HeaderSize (Header c)) = hd (Data c)"
    using wf(2) by (simp_all add: p_def chunk_bytes_def len nth_append hd_conv_nth)
qed

definition vital_ack :: "int \<Rightarrow> chunk \<Rightarrow> int" where
  "vital_ack ack c =
     (if Vital (Flags (Header c)) \<and> Seq (Header c) = (ack + 1) mod MaxSequence
      then Seq (Header c) else ack)"

text \<open>The system message in a chunk: the bytes after its id.\<close>

definition sys_payload :: "varint_lib \<Rightarrow> int \<Rightarrow> chunk \<Rightarrow> byte list option" where
  "sys_payload L msgID c = map_option RemainingData (sys_msg_rest L msgID (Data c))"

text \<open>The message a chunk carries, as the sessions read it.\<close>

definition has_msg :: "varint_lib \<Rightarrow> int \<Rightarrow> bool \<Rightarrow> chunk \<Rightarrow> bool" where
  "has_msg L msgID sys c \<longleftrightarrow> fst (NextMsgAndSys L (NewUnpacker (Data c))) = Inr (msgID, sys)"

abbreviation payload_of :: "nat \<Rightarrow> chunk list \<Rightarrow> byte list" where
  "payload_of split cs \<equiv> concat (map (chunk_bytes split) cs)"

lemma chunk_hdr_le: "HeaderSize h \<ge> 2"
  by (simp add: HeaderSize_def)

lemma count_vital_chunks:
  assumes "split \<le> 6"
  shows "list_all (wf_chunk split) cs \<Longrightarrow>
    count_vital_loop (pre @ payload_of split cs) k ack (length pre) split = foldl vital_ack ack (take k cs)"
proof (induction cs arbitrary: pre k ack)
  case Nil
  show ?case by (cases k) simp_all
next
  case (Cons c cs)
  show ?case
  proof (cases k)
    case 0
    then show ?thesis by simp
  next
    case (Suc k')
    let ?p = "pre @ payload_of split (c # cs)"
    have wf: "wf_chunk split c" using Cons.prems by simp
    have p: "?p = pre @ chunk_bytes split c @ payload_of split cs" by simp
    note sc = scan_chunk [OF assms wf p]
    have len: "length (chunk_bytes split c) = HeaderSize (Header c) + length (Data c)"
      by (simp add: chunk_bytes_def chunk_pack_eq HeaderSize_def)
    have next_pos: "length pre + (HeaderSize (Header c) + nat (int (length (Data c)))) =
        length (pre @ chunk_bytes split c)"
      using len by simp
    have "count_vital_loop ?p k ack (length pre) split =
        count_vital_loop ?p k' (vital_ack ack c) (length (pre @ chunk_bytes split c)) split"
      using sc(1-5) chunk_hdr_le [of "Header c"] unfolding Suc next_pos [symmetric]
      by (auto simp: Let_def vital_ack_def HeaderSize_def simp del: append_assoc length_append)
    also have "\<dots> = foldl vital_ack (vital_ack ack c) (take k' cs)"
      using Cons.IH [of "pre @ chunk_bytes split c"] Cons.prems by simp
    finally show ?thesis by (simp add: Suc)
  qed
qed

context varint_contract begin

lemma sys_msg_rest_wf:
  assumes "sys_msg_rest L msgID dat = Some u"
  shows "NextRaw (RemainingSize u) u = (Inr (RemainingData u), u\<lparr>uidx := length (udata u)\<rparr>)"
    "RemainingSize u = int (length (RemainingData u))"
proof -
  obtain raw where "NextInt L (NewUnpacker dat) = (Inr raw, u)"
    using assms by (auto simp: sys_msg_rest_def split: prod.splits sum.splits if_splits)
  from keepsD [OF NextInt_keep this] have "uidx u \<le> length (udata u)"
    by (auto simp: ukeep_def uwf_def NewUnpacker_def)
  then show "NextRaw (RemainingSize u) u = (Inr (RemainingData u), u\<lparr>uidx := length (udata u)\<rparr>)"
    "RemainingSize u = int (length (RemainingData u))"
    by (auto simp: NextRaw_def RemainingSize_def RemainingData_def of_nat_diff nat_diff_distrib')
qed

lemma extract_all_chunks:
  assumes "split \<le> 6"
  shows "list_all (wf_chunk split) cs \<Longrightarrow>
    extract_all_loop L (pre @ payload_of split cs) msgID (length pre) split =
    filter (\<lambda>x. x \<noteq> []) (List.map_filter (sys_payload L msgID) cs)"
proof (induction cs arbitrary: pre)
  case Nil
  show ?case by (subst extract_all_loop.simps) (simp add: List.map_filter_def)
next
  case (Cons c cs)
  let ?p = "pre @ payload_of split (c # cs)"
  have wf: "wf_chunk split c" "0 < length (Data c)" using Cons.prems by (simp_all add: wf_chunk_def)
  have p: "?p = pre @ chunk_bytes split c @ payload_of split cs" by simp
  note sc = scan_chunk [OF assms wf(1) p]
  have len: "length (chunk_bytes split c) = HeaderSize (Header c) + length (Data c)"
    by (simp add: chunk_bytes_def chunk_pack_eq HeaderSize_def)
  then have next_pos: "length (pre @ chunk_bytes split c) =
      length pre + (HeaderSize (Header c) + length (Data c))" by simp
  have IH: "extract_all_loop L ?p msgID (length pre + (HeaderSize (Header c) + length (Data c))) split =
      filter (\<lambda>x. x \<noteq> []) (List.map_filter (sys_payload L msgID) cs)"
    using Cons.IH [of "pre @ chunk_bytes split c"] Cons.prems next_pos by simp
  have guards: "length pre < length ?p" "\<not> length ?p < length pre + 2"
    "length pre + HeaderSize (Header c) < length ?p"
    "length pre + HeaderSize (Header c) + nat (int (length (Data c))) \<le> length ?p"
    using sc(5) wf(2) chunk_hdr_le [of "Header c"] by linarith+
  show ?case
  proof (cases "sys_msg_rest L msgID (Data c)")
    case None
    then have "sys_payload L msgID c = None" by (simp add: sys_payload_def)
    with None show ?thesis
      using guards sc(2,3,6) wf(2) IH
      by (subst extract_all_loop.simps) (simp add: Let_def List.map_filter_simps del: append_assoc length_append concat.simps map_append list.map)
  next
    case (Some u)
    note w = sys_msg_rest_wf [OF Some]
    have "sys_payload L msgID c = Some (RemainingData u)" by (simp add: sys_payload_def Some)
    with Some show ?thesis
      using guards sc(2,3,6) wf(2) IH w
      by (subst extract_all_loop.simps) (simp add: Let_def List.map_filter_simps del: append_assoc length_append concat.simps map_append list.map)
  qed
qed

lemma extract_chunks:
  assumes "split \<le> 6"
  shows "list_all (wf_chunk split) cs \<Longrightarrow>
    extract_loop L (pre @ payload_of split cs) msgID (length pre) split =
    (case List.map_filter (sys_payload L msgID) cs of [] \<Rightarrow> None | x # _ \<Rightarrow> Some x)"
proof (induction cs arbitrary: pre)
  case Nil
  show ?case by (subst extract_loop.simps) (simp add: List.map_filter_def)
next
  case (Cons c cs)
  let ?p = "pre @ payload_of split (c # cs)"
  have wf: "wf_chunk split c" "0 < length (Data c)" using Cons.prems by (simp_all add: wf_chunk_def)
  have p: "?p = pre @ chunk_bytes split c @ payload_of split cs" by simp
  note sc = scan_chunk [OF assms wf(1) p]
  have len: "length (chunk_bytes split c) = HeaderSize (Header c) + length (Data c)"
    by (simp add: chunk_bytes_def chunk_pack_eq HeaderSize_def)
  then have next_pos: "length (pre @ chunk_bytes split c) =
      length pre + (HeaderSize (Header c) + length (Data c))" by simp
  have IH: "extract_loop L ?p msgID (length pre + (HeaderSize (Header c) + length (Data c))) split =
      (case List.map_filter (sys_payload L msgID) cs of [] \<Rightarrow> None | x # _ \<Rightarrow> Some x)"
    using Cons.IH [of "pre @ chunk_bytes split c"] Cons.prems next_pos by simp
  have guards: "length pre < length ?p" "\<not> length ?p < length pre + 2"
    "length pre + HeaderSize (Header c) < length ?p"
    "length pre + HeaderSize (Header c) + nat (int (length (Data c))) \<le> length ?p"
    using sc(5) wf(2) chunk_hdr_le [of "Header c"] by linarith+
  show ?case
  proof (cases "sys_msg_rest L msgID (Data c)")
    case None
    then have "sys_payload L msgID c = None" by (simp add: sys_payload_def)
    with None show ?thesis
      using guards sc(2,3,6) wf(2) IH
      by (subst extract_loop.simps) (simp add: Let_def List.map_filter_simps del: append_assoc length_append concat.simps map_append list.map)
  next
    case (Some u)
    note w = sys_msg_rest_wf [OF Some]
    have "sys_payload L msgID c = Some (RemainingData u)" by (simp add: sys_payload_def Some)
    with Some show ?thesis
      using guards sc(2,3,6) wf(2) w
      by (subst extract_loop.simps) (simp add: Let_def List.map_filter_simps del: append_assoc length_append concat.simps map_append list.map)
  qed
qed

end

context varint_mirror begin

lemma first_byte_msg_eq:
  assumes "b < 128"
  shows "fst (NextInt L (NewUnpacker (b # r))) = Inr (first_byte_msg b)"
proof -
  define s where "s = uint (drop_bit 6 b AND 1 :: byte)"
  have rv: "readVarint (b # r) = (Inr (uint (b AND 63) XOR (- s)), r)"
    using assms by (simp add: readVarint_def bnd_def read_byte_def Let_def s_def)
  have "s = uint b div 64 mod 2" unfolding s_def by (rule uint_sign_bit)
  then have "(b AND 0x40 \<noteq> 0) = (s = 1)" "s = 0 \<or> s = 1" unfolding byte_flags by presburger+
  then have "uint (b AND 63) XOR (- s) = first_byte_msg b"
    by (auto simp: first_byte_msg_def)
  with mirror_Inr [OF rv] show ?thesis by (simp add: NextInt_def NewUnpacker_def RemainingSize_def)
qed

lemma has_msg_first:
  assumes "Data c \<noteq> []" and "hd (Data c) < 128"
  shows "has_msg L msgID sys c \<longleftrightarrow>
    (first_byte_msg (hd (Data c)) AND 1 \<noteq> 0) = sys \<and> drop_bit 1 (first_byte_msg (hd (Data c))) = msgID"
proof -
  obtain b r where d: "Data c = b # r" using assms(1) by (cases "Data c") auto
  obtain u where "NextInt L (NewUnpacker (b # r)) = (Inr (first_byte_msg b), u)"
    using first_byte_msg_eq [of b r] assms(2) d by (metis list.sel(1) prod.collapse)
  then show ?thesis by (auto simp: has_msg_def NextMsgAndSys_def d)
qed

lemma contains_chunks:
  assumes "split \<le> 6"
  shows "list_all (\<lambda>c. wf_chunk split c \<and> hd (Data c) < 128) cs \<Longrightarrow>
    contains_loop (pre @ payload_of split cs) msgID sys (length pre) split =
    list_ex (has_msg L msgID sys) cs"
proof (induction cs arbitrary: pre)
  case Nil
  show ?case by (subst contains_loop.simps) simp
next
  case (Cons c cs)
  let ?p = "pre @ payload_of split (c # cs)"
  have wf: "wf_chunk split c" "0 < length (Data c)" "Data c \<noteq> []" "hd (Data c) < 128"
    using Cons.prems by (simp_all add: wf_chunk_def)
  have p: "?p = pre @ chunk_bytes split c @ payload_of split cs" by simp
  note sc = scan_chunk [OF assms wf(1) p]
  have len: "length (pre @ chunk_bytes split c) = length pre + (HeaderSize (Header c) + length (Data c))"
    by (simp add: chunk_bytes_def chunk_pack_eq HeaderSize_def)
  have IH: "contains_loop ?p msgID sys (length pre + (HeaderSize (Header c) + length (Data c))) split =
      list_ex (has_msg L msgID sys) cs"
    using Cons.IH [of "pre @ chunk_bytes split c"] Cons.prems len by simp
  have guards: "length pre < length ?p" "\<not> length ?p < length pre + 2"
    "\<not> length ?p \<le> length pre + HeaderSize (Header c)"
    using sc(5) wf(2) chunk_hdr_le [of "Header c"] by linarith+
  show ?case
    using guards sc(2,3,7) IH has_msg_first [OF wf(3,4), of msgID sys]
    by (subst contains_loop.simps)
      (simp add: Let_def del: append_assoc length_append concat.simps map_append list.map)
qed

end

section \<open>Properties\<close>

text \<open>
  Round trip of an integer stream: a buffer of whole little-endian 32-bit integers packed
  by \<open>VarintCompress\<close> is written back by \<open>VarintDecompress\<close> to the front of any large enough
  buffer, which is otherwise unchanged.
\<close>

theorem varint_stream_roundtrip:
  assumes "varint_contract L" and "length src mod 4 = 0" and "length src \<le> length dst"
  shows "VarintDecompress L (VarintCompress L src) dst = (int (length src), src @ drop (length src) dst)"
proof -
  have l: "4 * length (words_of src) = length src"
    using arg_cong [OF words_of_le32 [OF assms(2)], of length]
    by (simp add: length_concat o_def sum_list_triv)
  have "VarintCompress L src = concat (map (encv L) (words_of src))"
    using varint_contract.compress_words [OF assms(1), of "[]" src "[]"]
    by (simp add: VarintCompress_def)
  then show ?thesis
    using varint_contract.decompress_words [OF assms(1) words_of_s32, of src dst "[]" "[]"]
      assms(3) words_of_le32 [OF assms(2)] l
    by (simp add: VarintDecompress_def)
qed

theorem varint_stream_roundtrip_witness:
  "VarintDecompress wire_lib (VarintCompress wire_lib [1, 2, 3, 0xFF]) [0, 0, 0, 0, 9] =
    (int (length [1 :: byte, 2, 3, 0xFF]), [1, 2, 3, 0xFF] @ drop (length [1 :: byte, 2, 3, 0xFF]) [0, 0, 0, 0, 9])"
  by (rule varint_stream_roundtrip [OF wire.varint_contract_axioms]) simp_all

text \<open>
  The acknowledgement scan agrees with the chunks \<open>UnpackChunks\<close> finds: on a payload of
  well-formed chunks \<open>CountVitalChunks\<close> advances over the first \<open>numChunks\<close> of them, taking
  the sequence number of a vital chunk exactly when it is the next one modulo 1024, so that
  resent and out-of-order chunks are not acknowledged.
\<close>

theorem count_vital_agrees:
  assumes "split \<le> 6" and "list_all (wf_chunk split) cs"
  shows "CountVitalChunks (payload_of split cs) numChunks ack split =
    foldl (\<lambda>ack c. if Vital (Flags (Header c)) \<and> Seq (Header c) = (ack + 1) mod 1024
                   then Seq (Header c) else ack)
      ack (take (nat numChunks) (UnpackChunks (payload_of split cs) split))"
proof -
  have "UnpackChunks (payload_of split cs) split = cs"
    using unpack_loop_chunks [OF assms(1), of cs "[]"] assms(2)
    by (simp add: UnpackChunks_def NewUnpacker_at_pos list_all_iff)
  moreover have "(\<lambda>ack c. if Vital (Flags (Header c)) \<and> Seq (Header c) = (ack + 1) mod 1024
      then Seq (Header c) else ack) = vital_ack"
    by (intro ext) (simp add: vital_ack_def MaxSequence_def)
  ultimately show ?thesis
    using count_vital_chunks [OF assms, of "[]"] by (simp add: CountVitalChunks_def)
qed

theorem count_vital_agrees_witness:
  "CountVitalChunks (payload_of 4 [sample_chunk, sample_chunk]) 2 776 4 =
    foldl (\<lambda>ack c. if Vital (Flags (Header c)) \<and> Seq (Header c) = (ack + 1) mod 1024
                   then Seq (Header c) else ack)
      776 (take (nat 2) (UnpackChunks (payload_of 4 [sample_chunk, sample_chunk]) 4))"
  by (rule count_vital_agrees) (simp_all add: wf_chunk_def wf_header_def sample_chunk_def)

text \<open>
  The offset scanners find the messages that \<open>UnpackChunks\<close> and \<open>NextMsgAndSys\<close> find, on a
  payload of well-formed chunks: \<open>ExtractAllSysMsgPayloads\<close> returns the non-empty bodies of all
  matching system messages in order, \<open>ExtractSysMsgPayload\<close> the first body, and the one-byte
  test of \<open>containsMsg\<close> is exact when every message id fits one byte.
\<close>

theorem scanners_agree:
  assumes "varint_mirror L" and "split \<le> 6" and "list_all (wf_chunk split) cs"
  shows "UnpackChunks (payload_of split cs) split = cs
    \<and> ExtractAllSysMsgPayloads L (payload_of split cs) msgID split =
        filter (\<lambda>x. x \<noteq> []) (List.map_filter (sys_payload L msgID) cs)
    \<and> ExtractSysMsgPayload L (payload_of split cs) msgID split =
        (case List.map_filter (sys_payload L msgID) cs of [] \<Rightarrow> None | x # _ \<Rightarrow> Some x)
    \<and> (list_all (\<lambda>c. hd (Data c) < 128) cs \<longrightarrow>
        containsMsg (payload_of split cs) msgID sys split = list_ex (has_msg L msgID sys) cs)"
proof (intro conjI impI)
  have c: "varint_contract L" using assms(1) by (rule varint_mirror.axioms(1))
  show "UnpackChunks (payload_of split cs) split = cs"
    using unpack_loop_chunks [OF assms(2), of cs "[]"] assms(3)
    by (simp add: UnpackChunks_def NewUnpacker_at_pos list_all_iff)
  show "ExtractAllSysMsgPayloads L (payload_of split cs) msgID split =
      filter (\<lambda>x. x \<noteq> []) (List.map_filter (sys_payload L msgID) cs)"
    using varint_contract.extract_all_chunks [OF c assms(2,3), of "[]"]
    by (simp add: ExtractAllSysMsgPayloads_def)
  show "ExtractSysMsgPayload L (payload_of split cs) msgID split =
      (case List.map_filter (sys_payload L msgID) cs of [] \<Rightarrow> None | x # _ \<Rightarrow> Some x)"
    using varint_contract.extract_chunks [OF c assms(2,3), of "[]"]
    by (simp add: ExtractSysMsgPayload_def)
  show "containsMsg (payload_of split cs) msgID sys split = list_ex (has_msg L msgID sys) cs"
    if "list_all (\<lambda>c. hd (Data c) < 128) cs"
    using varint_mirror.contains_chunks [OF assms(1,2), of cs "[]"] assms(3) that
    by (simp add: containsMsg_def list_all_iff)
qed

theorem scanners_agree_witness:
  "UnpackChunks (payload_of 4 [sample_chunk]) 4 = [sample_chunk]
    \<and> ExtractSysMsgPayload wire_lib (payload_of 4 [sample_chunk]) 5 4 =
        (case List.map_filter (sys_payload wire_lib 5) [sample_chunk] of [] \<Rightarrow> None | x # _ \<Rightarrow> Some x)"
  using scanners_agree [OF wire.varint_mirror_axioms, of 4 "[sample_chunk]" 5]
  by (simp add: wf_chunk_def wf_header_def sample_chunk_def)

text \<open>
  The condition on one-byte ids is needed: the test ignores the continuation bit of the varint,
  so a game message with id 40 is taken for one with id 8.
\<close>

lemma contains_ignores_continuation:
  "fst (NextMsgAndSys wire_lib (NewUnpacker [0x90, 1])) = Inr (40, False)"
  "ContainsGameMsg [0, 2, 0x90, 1] 8 4"
  by code_simp+

end
