(* ===== verification/Events.thy ===== *)
theory Events
  imports SnapDelta Helpers
begin

text \<open>
  packet/events_server.go, packet/event.go, packet/capabilities.go: the events a session delivers.

  The event structs are grouped by the sections of the file, one datatype per group and one
  constructor per struct, its arguments in the order of the struct's fields; \<open>event\<close> is their sum;
  a field a composite literal of the code leaves out is written as its zero value. Strings are byte
  lists, \<open>Weapon\<close> and \<open>Emoticon\<close> are the integers they are defined as. \<open>SendEvent\<close> is the
  delivery of an event on a bounded channel, given by its queued events and its capacity.
\<close>

datatype vote_option_op = VoteOptionClear | VoteOptionAdd | VoteOptionRemove

datatype rcon_cmd_op = RconCmdAdd | RconCmdRemove

record server_capabilities =
  sc_Version :: int
  sc_DDNet :: bool
  sc_ChatTimeoutCode :: bool
  sc_AnyPlayerFlag :: bool
  sc_PingEx :: bool
  sc_AllowDummy :: bool
  sc_SyncWeaponInput :: bool

datatype chat_event =
    EventChat int int "byte list"
  | EventServerMsg "byte list"
  | EventWhisper int int "byte list"
  | EventBroadcast "byte list"
  | EventMotd "byte list"
  | EventKill int int int int
  | EventEmoticon int int
  | EventWeaponPickup int
  | EventSoundGlobal int
  | EventTuneParams "int list"
  | EventVoteSet int "byte list" "byte list"
  | EventVoteStatus int int int int
  | EventVoteOption vote_option_op "byte list"
  | EventYourVote int

datatype rcon_event =
    EventRconLine "byte list"
  | EventRconAuth bool int
  | EventRconCmd rcon_cmd_op "byte list" "byte list" "byte list"
  | EventServerError "byte list"
  | EventTeamsState "(int, int) mapping"
  | EventKillMsgTeam int int
  | EventCommandInfo "byte list" "byte list" "byte list"
  | EventCommandInfoRemove "byte list"
  | EventChangeInfoCooldown int
  | EventMapSoundGlobal int

datatype roster_event =
    EventPlayerJoin int "byte list" "byte list" int "byte list" int
  | EventPlayerLeave int "byte list"
  | EventSkinChange int "byte list"
  | EventTeamSet int int bool
  | EventGameInfo int int int int
  | EventGameMsg int "int list"
  | EventServerSettings bool int bool bool bool int

datatype motion_event =
    EventPlayerEnterSight int int int
  | EventPlayerLeaveSight int
  | EventHookedBy int
  | EventWeaponChange int
  | EventPlayerMove int int int
  | EventPlayerJump int
  | EventPlayerDir int int
  | EventPlayerAttack int int
  | EventPlayerWeapon int int
  | EventPlayerHook int int int
  | EventPlayerEmote int int
  | EventPlayerHP int int int

datatype world_event =
    EventExplosion int int
  | EventSpawn int int
  | EventDeath int int int
  | EventHammerHit int int
  | EventSoundWorld int int int
  | EventProjectileFired int int int int int int
  | EventLaserFired int int int int int
  | EventDamageInd int int int
  | EventFinish int

datatype ext_event =
    EventFreeze int bool int
  | EventPlayerFlags int int
  | EventJumpsChange int int int
  | EventPlayerAuth int int
  | EventPlayerAfk int bool
  | EventSpecChar int int int

datatype game_event =
    EventRoundState int
  | EventScoreChange int int
  | EventFlag int int int int
  | EventSpecTarget int int

datatype core_event =
    EventSnapshot snapshot
  | EventMapChange map_info
  | EventClose "byte list"
  | EventRaceFinish int bool
  | EventCheckpoint int
  | EventRecord int int
  | EventInputTiming int int
  | EventServerCapabilities server_capabilities

datatype event =
    Chat chat_event
  | Rcon rcon_event
  | Roster roster_event
  | Motion motion_event
  | World world_event
  | Ext ext_event
  | Game game_event
  | Core core_event


section \<open>Capabilities\<close>

definition ServerCapFlagDDNet :: int where "ServerCapFlagDDNet = 1"
definition ServerCapFlagChatTimeoutCode :: int where "ServerCapFlagChatTimeoutCode = 2"
definition ServerCapFlagAnyPlayerFlag :: int where "ServerCapFlagAnyPlayerFlag = 4"
definition ServerCapFlagPingEx :: int where "ServerCapFlagPingEx = 8"
definition ServerCapFlagAllowDummy :: int where "ServerCapFlagAllowDummy = 16"
definition ServerCapFlagSyncWeaponInput :: int where "ServerCapFlagSyncWeaponInput = 32"

definition no_capabilities :: server_capabilities where
  "no_capabilities = \<lparr>sc_Version = 0, sc_DDNet = False, sc_ChatTimeoutCode = False,
     sc_AnyPlayerFlag = False, sc_PingEx = False, sc_AllowDummy = False, sc_SyncWeaponInput = False\<rparr>"

definition ParseServerCapabilities :: "int \<Rightarrow> int \<Rightarrow> server_capabilities" where
  "ParseServerCapabilities version flags =
     \<lparr>sc_Version = version,
      sc_DDNet = has_flag flags ServerCapFlagDDNet,
      sc_ChatTimeoutCode = has_flag flags ServerCapFlagChatTimeoutCode,
      sc_AnyPlayerFlag = has_flag flags ServerCapFlagAnyPlayerFlag,
      sc_PingEx = has_flag flags ServerCapFlagPingEx,
      sc_AllowDummy = has_flag flags ServerCapFlagAllowDummy,
      sc_SyncWeaponInput = has_flag flags ServerCapFlagSyncWeaponInput\<rparr>"

section \<open>Delivery\<close>

text \<open>
  \<open>SendEvent\<close> on a channel of capacity \<open>c\<close> holding \<open>q\<close>, oldest first, when no other goroutine
  takes a turn between its selects: a send succeeds when there is room, a receive drops the head.
\<close>

definition chan_send :: "nat \<Rightarrow> 'e \<Rightarrow> 'e list \<Rightarrow> 'e list option" where
  "chan_send c ev q = (if length q < c then Some (q @ [ev]) else None)"

definition SendEvent :: "nat \<Rightarrow> 'e \<Rightarrow> 'e list \<Rightarrow> 'e list" where
  "SendEvent c ev q =
     (case chan_send c ev q of
        Some q' \<Rightarrow> q'
      | None \<Rightarrow>
          (case chan_send c ev (tl q) of Some q' \<Rightarrow> q' | None \<Rightarrow> tl q))"

text \<open>With no reader, the channel holds the latest events, as many as it has room for.\<close>

lemma SendEvent_latest:
  assumes "0 < c"
  shows "SendEvent c ev (drop (length evs - c) evs) = drop (length (evs @ [ev]) - c) (evs @ [ev])"
proof (cases "length evs < c")
  case True
  then show ?thesis by (simp add: SendEvent_def chan_send_def)
next
  case False
  then have c: "c \<le> length evs" by simp
  have tl: "tl (drop n evs) = drop (Suc n) evs" for n by (simp add: drop_Suc tl_drop)
  from c have "Suc (length evs) - c = Suc (length evs - c)" by simp
  with c assms show ?thesis by (simp add: SendEvent_def chan_send_def tl)
qed

lemma fold_SendEvent: "0 < c \<Longrightarrow> fold (SendEvent c) evs [] = drop (length evs - c) evs"
proof (induction evs rule: rev_induct)
  case Nil
  show ?case by simp
next
  case (snoc ev evs)
  then have "fold (SendEvent c) (evs @ [ev]) [] = SendEvent c ev (drop (length evs - c) evs)"
    by simp
  also have "\<dots> = drop (length (evs @ [ev]) - c) (evs @ [ev])"
    using snoc.prems by (rule SendEvent_latest)
  finally show ?case .
qed

end
