(* ===== verification/SnapObjs.thy ===== *)
theory SnapObjs
  imports Events "HOL-Library.Finite_Map"
begin

unbundle bit_operations_syntax

text \<open>
  packet/snapobj.go, net6/snap_decode.go, net7/snap_decode.go, net6/snap.go, net7/snap.go and
  net6/clientinfo.go: the protocol-neutral content of a snapshot and the two decoders into it.

  A decoder is a fold of one step per item, in item order; the \<open>continue\<close> of a short item is the
  unchanged result. Go maps are finite maps, so a later item with the same key replaces an earlier
  one. The size guards keep every field index in range.
\<close>

section \<open>Object types and sizes\<close>

definition ObjPlayerInput6 :: int where "ObjPlayerInput6 = 1"
definition ObjProjectile6 :: int where "ObjProjectile6 = 2"
definition ObjLaser6 :: int where "ObjLaser6 = 3"
definition ObjPickup6 :: int where "ObjPickup6 = 4"
definition ObjFlag6 :: int where "ObjFlag6 = 5"
definition ObjGameInfo6 :: int where "ObjGameInfo6 = 6"
definition ObjGameData6 :: int where "ObjGameData6 = 7"
definition ObjCharacterCore6 :: int where "ObjCharacterCore6 = 8"
definition ObjCharacter6 :: int where "ObjCharacter6 = 9"
definition ObjPlayerInfo6 :: int where "ObjPlayerInfo6 = 10"
definition ObjClientInfo6 :: int where "ObjClientInfo6 = 11"
definition ObjSpectatorInfo6 :: int where "ObjSpectatorInfo6 = 12"
definition ObjCommon6 :: int where "ObjCommon6 = 13"
definition ObjExplosion6 :: int where "ObjExplosion6 = 14"
definition ObjSpawn6 :: int where "ObjSpawn6 = 15"
definition ObjHammerHit6 :: int where "ObjHammerHit6 = 16"
definition ObjDeath6 :: int where "ObjDeath6 = 17"
definition ObjSoundGlobal6 :: int where "ObjSoundGlobal6 = 18"
definition ObjSoundWorld6 :: int where "ObjSoundWorld6 = 19"
definition ObjDamageIndicator6 :: int where "ObjDamageIndicator6 = 20"

definition ObjPlayerInput7 :: int where "ObjPlayerInput7 = 1"
definition ObjProjectile7 :: int where "ObjProjectile7 = 2"
definition ObjLaser7 :: int where "ObjLaser7 = 3"
definition ObjPickup7 :: int where "ObjPickup7 = 4"
definition ObjFlag7 :: int where "ObjFlag7 = 5"
definition ObjGameData7 :: int where "ObjGameData7 = 6"
definition ObjGameDataTeam7 :: int where "ObjGameDataTeam7 = 7"
definition ObjGameDataFlag7 :: int where "ObjGameDataFlag7 = 8"
definition ObjCharacterCore7 :: int where "ObjCharacterCore7 = 9"
definition ObjCharacter7 :: int where "ObjCharacter7 = 10"
definition ObjPlayerInfo7 :: int where "ObjPlayerInfo7 = 11"
definition ObjSpectatorInfo7 :: int where "ObjSpectatorInfo7 = 12"
definition ObjDeClientInfo7 :: int where "ObjDeClientInfo7 = 13"
definition ObjDeGameInfo7 :: int where "ObjDeGameInfo7 = 14"
definition ObjDeTuneParams7 :: int where "ObjDeTuneParams7 = 15"
definition ObjCommon7 :: int where "ObjCommon7 = 16"
definition ObjExplosion7 :: int where "ObjExplosion7 = 17"
definition ObjSpawn7 :: int where "ObjSpawn7 = 18"
definition ObjHammerHit7 :: int where "ObjHammerHit7 = 19"
definition ObjDeath7 :: int where "ObjDeath7 = 20"
definition ObjSoundWorld7 :: int where "ObjSoundWorld7 = 21"
definition ObjDamage7 :: int where "ObjDamage7 = 22"

lemmas obj_ids =
  ObjPlayerInput6_def
  ObjProjectile6_def
  ObjLaser6_def
  ObjPickup6_def
  ObjFlag6_def
  ObjGameInfo6_def
  ObjGameData6_def
  ObjCharacterCore6_def
  ObjCharacter6_def
  ObjPlayerInfo6_def
  ObjClientInfo6_def
  ObjSpectatorInfo6_def
  ObjCommon6_def
  ObjExplosion6_def
  ObjSpawn6_def
  ObjHammerHit6_def
  ObjDeath6_def
  ObjSoundGlobal6_def
  ObjSoundWorld6_def
  ObjDamageIndicator6_def
  ObjPlayerInput7_def
  ObjProjectile7_def
  ObjLaser7_def
  ObjPickup7_def
  ObjFlag7_def
  ObjGameData7_def
  ObjGameDataTeam7_def
  ObjGameDataFlag7_def
  ObjCharacterCore7_def
  ObjCharacter7_def
  ObjPlayerInfo7_def
  ObjSpectatorInfo7_def
  ObjDeClientInfo7_def
  ObjDeGameInfo7_def
  ObjDeTuneParams7_def
  ObjCommon7_def
  ObjExplosion7_def
  ObjSpawn7_def
  ObjHammerHit7_def
  ObjDeath7_def
  ObjSoundWorld7_def
  ObjDamage7_def

definition SizePlayerInput6 :: nat where "SizePlayerInput6 = 10"
definition SizeProjectile6 :: nat where "SizeProjectile6 = 6"
definition SizeLaser6 :: nat where "SizeLaser6 = 5"
definition SizePickup6 :: nat where "SizePickup6 = 4"
definition SizeFlag6 :: nat where "SizeFlag6 = 3"
definition SizeGameInfo6 :: nat where "SizeGameInfo6 = 8"
definition SizeGameData6 :: nat where "SizeGameData6 = 4"
definition SizeCharacterCore6 :: nat where "SizeCharacterCore6 = 15"
definition SizeCharacter6 :: nat where "SizeCharacter6 = 22"
definition SizePlayerInfo6 :: nat where "SizePlayerInfo6 = 5"
definition SizeClientInfo6 :: nat where "SizeClientInfo6 = 17"
definition SizeSpectatorInfo6 :: nat where "SizeSpectatorInfo6 = 3"
definition SizeCommon6 :: nat where "SizeCommon6 = 2"
definition SizeExplosion6 :: nat where "SizeExplosion6 = 2"
definition SizeSpawn6 :: nat where "SizeSpawn6 = 2"
definition SizeHammerHit6 :: nat where "SizeHammerHit6 = 2"
definition SizeDeath6 :: nat where "SizeDeath6 = 3"
definition SizeSoundGlobal6 :: nat where "SizeSoundGlobal6 = 3"
definition SizeSoundWorld6 :: nat where "SizeSoundWorld6 = 3"
definition SizeDamageIndicator6 :: nat where "SizeDamageIndicator6 = 3"

lemmas sizes6 =
  SizePlayerInput6_def
  SizeProjectile6_def
  SizeLaser6_def
  SizePickup6_def
  SizeFlag6_def
  SizeGameInfo6_def
  SizeGameData6_def
  SizeCharacterCore6_def
  SizeCharacter6_def
  SizePlayerInfo6_def
  SizeClientInfo6_def
  SizeSpectatorInfo6_def
  SizeCommon6_def
  SizeExplosion6_def
  SizeSpawn6_def
  SizeHammerHit6_def
  SizeDeath6_def
  SizeSoundGlobal6_def
  SizeSoundWorld6_def
  SizeDamageIndicator6_def

definition SnapItemSize6 :: "int \<Rightarrow> int" where
  "SnapItemSize6 typeID =
     (if typeID = ObjPlayerInput6 then int SizePlayerInput6 else
     (if typeID = ObjProjectile6 then int SizeProjectile6 else
     (if typeID = ObjLaser6 then int SizeLaser6 else
     (if typeID = ObjPickup6 then int SizePickup6 else
     (if typeID = ObjFlag6 then int SizeFlag6 else
     (if typeID = ObjGameInfo6 then int SizeGameInfo6 else
     (if typeID = ObjGameData6 then int SizeGameData6 else
     (if typeID = ObjCharacterCore6 then int SizeCharacterCore6 else
     (if typeID = ObjCharacter6 then int SizeCharacter6 else
     (if typeID = ObjPlayerInfo6 then int SizePlayerInfo6 else
     (if typeID = ObjClientInfo6 then int SizeClientInfo6 else
     (if typeID = ObjSpectatorInfo6 then int SizeSpectatorInfo6 else
     (if typeID = ObjCommon6 then int SizeCommon6 else
     (if typeID = ObjExplosion6 then int SizeExplosion6 else
     (if typeID = ObjSpawn6 then int SizeSpawn6 else
     (if typeID = ObjHammerHit6 then int SizeHammerHit6 else
     (if typeID = ObjDeath6 then int SizeDeath6 else
     (if typeID = ObjSoundGlobal6 then int SizeSoundGlobal6 else
     (if typeID = ObjSoundWorld6 then int SizeSoundWorld6 else
     (if typeID = ObjDamageIndicator6 then int SizeDamageIndicator6 else - 1))))))))))))))))))))"

definition SizePlayerInput7 :: nat where "SizePlayerInput7 = 10"
definition SizeProjectile7 :: nat where "SizeProjectile7 = 6"
definition SizeLaser7 :: nat where "SizeLaser7 = 5"
definition SizePickup7 :: nat where "SizePickup7 = 3"
definition SizeFlag7 :: nat where "SizeFlag7 = 3"
definition SizeGameData7 :: nat where "SizeGameData7 = 3"
definition SizeGameDataTeam7 :: nat where "SizeGameDataTeam7 = 2"
definition SizeGameDataFlag7 :: nat where "SizeGameDataFlag7 = 4"
definition SizeCharacterCore7 :: nat where "SizeCharacterCore7 = 15"
definition SizeCharacter7 :: nat where "SizeCharacter7 = 22"
definition SizePlayerInfo7 :: nat where "SizePlayerInfo7 = 3"
definition SizeSpectatorInfo7 :: nat where "SizeSpectatorInfo7 = 4"
definition SizeDeClientInfo7 :: nat where "SizeDeClientInfo7 = 8"
definition SizeDeGameInfo7 :: nat where "SizeDeGameInfo7 = 5"
definition SizeDeTuneParams7 :: nat where "SizeDeTuneParams7 = 1"
definition SizeCommon7 :: nat where "SizeCommon7 = 2"
definition SizeExplosion7 :: nat where "SizeExplosion7 = 2"
definition SizeSpawn7 :: nat where "SizeSpawn7 = 2"
definition SizeHammerHit7 :: nat where "SizeHammerHit7 = 2"
definition SizeDeath7 :: nat where "SizeDeath7 = 3"
definition SizeSoundWorld7 :: nat where "SizeSoundWorld7 = 3"
definition SizeDamage7 :: nat where "SizeDamage7 = 7"

lemmas sizes7 =
  SizePlayerInput7_def
  SizeProjectile7_def
  SizeLaser7_def
  SizePickup7_def
  SizeFlag7_def
  SizeGameData7_def
  SizeGameDataTeam7_def
  SizeGameDataFlag7_def
  SizeCharacterCore7_def
  SizeCharacter7_def
  SizePlayerInfo7_def
  SizeSpectatorInfo7_def
  SizeDeClientInfo7_def
  SizeDeGameInfo7_def
  SizeDeTuneParams7_def
  SizeCommon7_def
  SizeExplosion7_def
  SizeSpawn7_def
  SizeHammerHit7_def
  SizeDeath7_def
  SizeSoundWorld7_def
  SizeDamage7_def

definition SnapItemSize7 :: "int \<Rightarrow> int" where
  "SnapItemSize7 typeID =
     (if typeID = ObjPlayerInput7 then int SizePlayerInput7 else
     (if typeID = ObjProjectile7 then int SizeProjectile7 else
     (if typeID = ObjLaser7 then int SizeLaser7 else
     (if typeID = ObjPickup7 then int SizePickup7 else
     (if typeID = ObjFlag7 then int SizeFlag7 else
     (if typeID = ObjGameData7 then int SizeGameData7 else
     (if typeID = ObjGameDataTeam7 then int SizeGameDataTeam7 else
     (if typeID = ObjGameDataFlag7 then int SizeGameDataFlag7 else
     (if typeID = ObjCharacterCore7 then int SizeCharacterCore7 else
     (if typeID = ObjCharacter7 then int SizeCharacter7 else
     (if typeID = ObjPlayerInfo7 then int SizePlayerInfo7 else
     (if typeID = ObjSpectatorInfo7 then int SizeSpectatorInfo7 else
     (if typeID = ObjDeClientInfo7 then int SizeDeClientInfo7 else
     (if typeID = ObjDeGameInfo7 then int SizeDeGameInfo7 else
     (if typeID = ObjDeTuneParams7 then int SizeDeTuneParams7 else
     (if typeID = ObjCommon7 then int SizeCommon7 else
     (if typeID = ObjExplosion7 then int SizeExplosion7 else
     (if typeID = ObjSpawn7 then int SizeSpawn7 else
     (if typeID = ObjHammerHit7 then int SizeHammerHit7 else
     (if typeID = ObjDeath7 then int SizeDeath7 else
     (if typeID = ObjSoundWorld7 then int SizeSoundWorld7 else
     (if typeID = ObjDamage7 then int SizeDamage7 else - 1))))))))))))))))))))))"

section \<open>The neutral objects\<close>

record character =
  ch_Tick :: int
  ch_X :: int
  ch_Y :: int
  ch_VelX :: int
  ch_VelY :: int
  ch_Angle :: int
  ch_Direction :: int
  ch_Jumped :: int
  ch_HookedPlayer :: int
  ch_HookState :: int
  ch_HookTick :: int
  ch_HookX :: int
  ch_HookY :: int
  ch_HookDx :: int
  ch_HookDy :: int
  ch_PlayerFlags :: int
  ch_Health :: int
  ch_Armor :: int
  ch_AmmoCount :: int
  ch_Weapon :: int
  ch_Emote :: int
  ch_AttackTick :: int

record player =
  pl_ClientID :: int
  pl_Local :: bool
  pl_Team :: int
  pl_Score :: int
  pl_Latency :: int
  pl_PlayerFlags :: int

record pickup =
  pk_X :: int
  pk_Y :: int
  pk_Type :: int
  pk_Subtype :: int

record flag =
  fl_X :: int
  fl_Y :: int
  fl_Team :: int

record laser =
  la_ID :: int
  la_X :: int
  la_Y :: int
  la_FromX :: int
  la_FromY :: int
  la_StartTick :: int

record projectile =
  pj_ID :: int
  pj_X :: int
  pj_Y :: int
  pj_VelX :: int
  pj_VelY :: int
  pj_Type :: int
  pj_StartTick :: int

record spectator_info =
  si_SpectatorID :: int
  si_X :: int
  si_Y :: int

record game_info =
  gi_GameFlags :: int
  gi_GameStateFlags :: int
  gi_RoundStartTick :: int
  gi_WarmupTimer :: int
  gi_ScoreLimit :: int
  gi_TimeLimit :: int
  gi_RoundNum :: int
  gi_RoundCurrent :: int
  gi_GameStateEndTick :: int

record game_data =
  gd_TeamscoreRed :: int
  gd_TeamscoreBlue :: int
  gd_FlagCarrierRed :: int
  gd_FlagCarrierBlue :: int

record snap_objects =
  so_Tick :: int
  so_Characters :: "(int, character) fmap"
  so_Players :: "(int, player) fmap"
  so_Projectiles :: "projectile list"
  so_Lasers :: "laser list"
  so_Pickups :: "pickup list"
  so_Flags :: "flag list"
  so_GameInfo :: game_info
  so_GameData :: game_data
  so_HasGameInfo :: bool
  so_HasGameData :: bool
  so_HasSpectator :: bool
  so_Spectator :: spectator_info
  so_Events :: "event list"

definition zero_game_info :: game_info where
  "zero_game_info = \<lparr>gi_GameFlags = 0, gi_GameStateFlags = 0, gi_RoundStartTick = 0, gi_WarmupTimer = 0,
     gi_ScoreLimit = 0, gi_TimeLimit = 0, gi_RoundNum = 0, gi_RoundCurrent = 0, gi_GameStateEndTick = 0\<rparr>"

definition empty_objects :: "int \<Rightarrow> snap_objects" where
  "empty_objects tick = \<lparr>so_Tick = tick, so_Characters = fmempty, so_Players = fmempty,
     so_Projectiles = [], so_Lasers = [], so_Pickups = [], so_Flags = [],
     so_GameInfo = zero_game_info,
     so_GameData = \<lparr>gd_TeamscoreRed = 0, gd_TeamscoreBlue = 0, gd_FlagCarrierRed = 0, gd_FlagCarrierBlue = 0\<rparr>,
     so_HasGameInfo = False, so_HasGameData = False, so_HasSpectator = False,
     so_Spectator = \<lparr>si_SpectatorID = 0, si_X = 0, si_Y = 0\<rparr>, so_Events = []\<rparr>"

section \<open>Decoding 0.6 snapshots\<close>

definition character6 :: "int list \<Rightarrow> character" where
  "character6 f = \<lparr>ch_Tick = f ! 0, ch_X = f ! 1, ch_Y = f ! 2, ch_VelX = f ! 3,
      ch_VelY = f ! 4, ch_Angle = f ! 5, ch_Direction = f ! 6, ch_Jumped = f ! 7,
      ch_HookedPlayer = f ! 8, ch_HookState = f ! 9, ch_HookTick = f ! 10, ch_HookX = f ! 11,
      ch_HookY = f ! 12, ch_HookDx = f ! 13, ch_HookDy = f ! 14, ch_PlayerFlags = f ! 15,
      ch_Health = f ! 16, ch_Armor = f ! 17, ch_AmmoCount = f ! 18, ch_Weapon = f ! 19,
      ch_Emote = f ! 20, ch_AttackTick = f ! 21\<rparr>"

definition player6 :: "int list \<Rightarrow> player" where
  "player6 f = \<lparr>pl_ClientID = f ! 1, pl_Local = f ! 0 \<noteq> 0, pl_Team = f ! 2, pl_Score = f ! 3,
     pl_Latency = f ! 4, pl_PlayerFlags = 0\<rparr>"

definition projectile_of :: "int \<Rightarrow> int list \<Rightarrow> projectile" where
  "projectile_of i f = \<lparr>pj_ID = i, pj_X = f ! 0, pj_Y = f ! 1, pj_VelX = f ! 2, pj_VelY = f ! 3,
     pj_Type = f ! 4, pj_StartTick = f ! 5\<rparr>"

definition laser_of :: "int \<Rightarrow> int list \<Rightarrow> laser" where
  "laser_of i f = \<lparr>la_ID = i, la_X = f ! 0, la_Y = f ! 1, la_FromX = f ! 2, la_FromY = f ! 3,
     la_StartTick = f ! 4\<rparr>"

definition game_info6 :: "int list \<Rightarrow> game_info" where
  "game_info6 f = \<lparr>gi_GameFlags = f ! 0, gi_GameStateFlags = f ! 1, gi_RoundStartTick = f ! 2,
     gi_WarmupTimer = f ! 3, gi_ScoreLimit = f ! 4, gi_TimeLimit = f ! 5, gi_RoundNum = f ! 6,
     gi_RoundCurrent = f ! 7, gi_GameStateEndTick = 0\<rparr>"

definition add_event :: "event \<Rightarrow> snap_objects \<Rightarrow> snap_objects" where
  "add_event ev out = out\<lparr>so_Events := so_Events out @ [ev]\<rparr>"

definition decode_event6 :: "snap_item \<Rightarrow> snap_objects \<Rightarrow> snap_objects" where
  "decode_event6 it out =
    (let f = Fields it in
     if TypeID it = ObjExplosion6 then
       (if SizeExplosion6 \<le> length f then add_event (World (EventExplosion (f ! 0) (f ! 1))) out else out) else
     if TypeID it = ObjSpawn6 then
       (if SizeSpawn6 \<le> length f then add_event (World (EventSpawn (f ! 0) (f ! 1))) out else out) else
     if TypeID it = ObjHammerHit6 then
       (if SizeHammerHit6 \<le> length f then add_event (World (EventHammerHit (f ! 0) (f ! 1))) out else out) else
     if TypeID it = ObjDeath6 then
       (if SizeDeath6 \<le> length f then add_event (World (EventDeath (f ! 0) (f ! 1) (f ! 2))) out else out) else
     if TypeID it = ObjSoundWorld6 then
       (if SizeSoundWorld6 \<le> length f then add_event (World (EventSoundWorld (f ! 0) (f ! 1) (f ! 2))) out else out) else
     if TypeID it = ObjDamageIndicator6 then
       (if SizeDamageIndicator6 \<le> length f then add_event (World (EventDamageInd (f ! 0) (f ! 1) (f ! 2))) out else out) else out)"

definition decode_item6 :: "snap_item \<Rightarrow> snap_objects \<Rightarrow> snap_objects" where
  "decode_item6 it out =
    (let f = Fields it in
     if TypeID it = ObjCharacter6 then
       (if length f < SizeCharacter6 then out
        else out\<lparr>so_Characters := fmupd (ID it) (character6 f) (so_Characters out)\<rparr>) else
     if TypeID it = ObjPlayerInfo6 then
       (if length f < SizePlayerInfo6 then out
        else out\<lparr>so_Players := fmupd (f ! 1) (player6 f) (so_Players out)\<rparr>) else
     if TypeID it = ObjProjectile6 then
       (if length f < SizeProjectile6 then out
        else out\<lparr>so_Projectiles := so_Projectiles out @ [projectile_of (ID it) f]\<rparr>) else
     if TypeID it = ObjLaser6 then
       (if length f < SizeLaser6 then out
        else out\<lparr>so_Lasers := so_Lasers out @ [laser_of (ID it) f]\<rparr>) else
     if TypeID it = ObjPickup6 then
       (if length f < SizePickup6 then out
        else out\<lparr>so_Pickups := so_Pickups out @
              [\<lparr>pk_X = f ! 0, pk_Y = f ! 1, pk_Type = f ! 2, pk_Subtype = f ! 3\<rparr>]\<rparr>) else
     if TypeID it = ObjFlag6 then
       (if length f < SizeFlag6 then out
        else out\<lparr>so_Flags := so_Flags out @ [\<lparr>fl_X = f ! 0, fl_Y = f ! 1, fl_Team = f ! 2\<rparr>]\<rparr>) else
     if TypeID it = ObjGameInfo6 then
       (if length f < SizeGameInfo6 then out
        else out\<lparr>so_GameInfo := game_info6 f, so_HasGameInfo := True\<rparr>) else
     if TypeID it = ObjGameData6 then
       (if length f < SizeGameData6 then out
        else out\<lparr>so_GameData := \<lparr>gd_TeamscoreRed = f ! 0, gd_TeamscoreBlue = f ! 1,
               gd_FlagCarrierRed = f ! 2, gd_FlagCarrierBlue = f ! 3\<rparr>, so_HasGameData := True\<rparr>) else
     if TypeID it = ObjSpectatorInfo6 then
       (if length f < SizeSpectatorInfo6 then out
        else out\<lparr>so_Spectator := \<lparr>si_SpectatorID = f ! 0, si_X = f ! 1, si_Y = f ! 2\<rparr>,
               so_HasSpectator := True\<rparr>) else
     decode_event6 it out)"

definition DecodeSnap6 :: "snapshot \<Rightarrow> snap_objects" where
  "DecodeSnap6 snap = fold decode_item6 (Items snap) (empty_objects (Tick snap))"

section \<open>Decoding 0.7 snapshots\<close>

definition spec7Freeview :: int where "spec7Freeview = 0"
definition specFreeview6 :: int where "specFreeview6 = - 1"

definition powerupHealth :: int where "powerupHealth = 0"
definition powerupArmor :: int where "powerupArmor = 1"
definition powerupWeapon :: int where "powerupWeapon = 2"
definition powerupNinja :: int where "powerupNinja = 3"

definition weaponHammer :: int where "weaponHammer = 0"
definition weaponGun :: int where "weaponGun = 1"
definition weaponShotgun :: int where "weaponShotgun = 2"
definition weaponGrenade :: int where "weaponGrenade = 3"
definition weaponLaser :: int where "weaponLaser = 4"
definition weaponNinja :: int where "weaponNinja = 5"

lemmas canonical_defs =
  powerupHealth_def powerupArmor_def powerupWeapon_def powerupNinja_def
  weaponHammer_def weaponGun_def weaponShotgun_def weaponGrenade_def weaponLaser_def weaponNinja_def

definition pickupType7ToCanonical :: "int \<Rightarrow> int \<times> int" where
  "pickupType7ToCanonical type7 =
     (if type7 = 0 then (powerupHealth, 0)
      else if type7 = 1 then (powerupArmor, 0)
      else if type7 = 2 then (powerupWeapon, weaponGrenade)
      else if type7 = 3 then (powerupWeapon, weaponShotgun)
      else if type7 = 4 then (powerupWeapon, weaponLaser)
      else if type7 = 6 then (powerupWeapon, weaponGun)
      else if type7 = 7 then (powerupWeapon, weaponHammer)
      else if type7 = 5 then (powerupNinja, weaponNinja)
      else (powerupWeapon, 0))"

definition character7 :: "int list \<Rightarrow> character" where
  "character7 f = \<lparr>ch_Tick = f ! 0, ch_X = f ! 1, ch_Y = f ! 2, ch_VelX = f ! 3,
      ch_VelY = f ! 4, ch_Angle = f ! 5, ch_Direction = f ! 6, ch_Jumped = f ! 7,
      ch_HookedPlayer = f ! 8, ch_HookState = f ! 9, ch_HookTick = f ! 10, ch_HookX = f ! 11,
      ch_HookY = f ! 12, ch_HookDx = f ! 13, ch_HookDy = f ! 14, ch_PlayerFlags = 0,
      ch_Health = f ! 15, ch_Armor = f ! 16, ch_AmmoCount = f ! 17, ch_Weapon = f ! 18,
      ch_Emote = f ! 19, ch_AttackTick = f ! 20\<rparr>"

definition player7 :: "int \<Rightarrow> int list \<Rightarrow> player" where
  "player7 i f = \<lparr>pl_ClientID = i, pl_Local = False, pl_Team = 0, pl_Score = f ! 1,
     pl_Latency = f ! 2, pl_PlayerFlags = f ! 0\<rparr>"

definition decode_event7 :: "snap_item \<Rightarrow> snap_objects \<Rightarrow> snap_objects" where
  "decode_event7 it out =
    (let f = Fields it in
     if TypeID it = ObjExplosion7 then
       (if SizeExplosion7 \<le> length f then add_event (World (EventExplosion (f ! 0) (f ! 1))) out else out) else
     if TypeID it = ObjSpawn7 then
       (if SizeSpawn7 \<le> length f then add_event (World (EventSpawn (f ! 0) (f ! 1))) out else out) else
     if TypeID it = ObjHammerHit7 then
       (if SizeHammerHit7 \<le> length f then add_event (World (EventHammerHit (f ! 0) (f ! 1))) out else out) else
     if TypeID it = ObjDeath7 then
       (if SizeDeath7 \<le> length f then add_event (World (EventDeath (f ! 0) (f ! 1) (f ! 2))) out else out) else
     if TypeID it = ObjSoundWorld7 then
       (if SizeSoundWorld7 \<le> length f then add_event (World (EventSoundWorld (f ! 0) (f ! 1) (f ! 2))) out else out) else
     if TypeID it = ObjDamage7 then
       (if SizeDamage7 \<le> length f then add_event (World (EventDamageInd (f ! 0) (f ! 1) (f ! 3))) out else out) else out)"

definition decode_item7 :: "snap_item \<Rightarrow> snap_objects \<Rightarrow> snap_objects" where
  "decode_item7 it out =
    (let f = Fields it in
     if TypeID it = ObjCharacter7 then
       (if length f < SizeCharacter7 then out
        else out\<lparr>so_Characters := fmupd (ID it) (character7 f) (so_Characters out)\<rparr>) else
     if TypeID it = ObjPlayerInfo7 then
       (if length f < SizePlayerInfo7 then out
        else out\<lparr>so_Players := fmupd (ID it) (player7 (ID it) f) (so_Players out)\<rparr>) else
     if TypeID it = ObjProjectile7 then
       (if length f < SizeProjectile7 then out
        else out\<lparr>so_Projectiles := so_Projectiles out @ [projectile_of (ID it) f]\<rparr>) else
     if TypeID it = ObjLaser7 then
       (if length f < SizeLaser7 then out
        else out\<lparr>so_Lasers := so_Lasers out @ [laser_of (ID it) f]\<rparr>) else
     if TypeID it = ObjPickup7 then
       (if length f < SizePickup7 then out
        else out\<lparr>so_Pickups := so_Pickups out @
              [\<lparr>pk_X = f ! 0, pk_Y = f ! 1, pk_Type = fst (pickupType7ToCanonical (f ! 2)),
                pk_Subtype = snd (pickupType7ToCanonical (f ! 2))\<rparr>]\<rparr>) else
     if TypeID it = ObjFlag7 then
       (if length f < SizeFlag7 then out
        else out\<lparr>so_Flags := so_Flags out @ [\<lparr>fl_X = f ! 0, fl_Y = f ! 1, fl_Team = f ! 2\<rparr>]\<rparr>) else
     if TypeID it = ObjGameData7 then
       (if length f < SizeGameData7 then out
        else out\<lparr>so_GameInfo := zero_game_info\<lparr>gi_RoundStartTick := f ! 0,
               gi_GameStateFlags := f ! 1, gi_GameStateEndTick := f ! 2\<rparr>, so_HasGameInfo := True\<rparr>) else
     if TypeID it = ObjGameDataTeam7 then
       (if length f < SizeGameDataTeam7 then out
        else out\<lparr>so_GameData := (so_GameData out)\<lparr>gd_TeamscoreRed := f ! 0,
               gd_TeamscoreBlue := f ! 1\<rparr>\<rparr>) else
     if TypeID it = ObjGameDataFlag7 then
       (if length f < SizeGameDataFlag7 then out
        else out\<lparr>so_GameData := (so_GameData out)\<lparr>gd_FlagCarrierRed := f ! 0,
               gd_FlagCarrierBlue := f ! 1\<rparr>, so_HasGameData := True\<rparr>) else
     if TypeID it = ObjSpectatorInfo7 then
       (if length f < SizeSpectatorInfo7 then out
        else out\<lparr>so_Spectator := \<lparr>si_SpectatorID = (if f ! 0 = spec7Freeview then specFreeview6 else f ! 1),
               si_X = f ! 2, si_Y = f ! 3\<rparr>, so_HasSpectator := True\<rparr>) else
     decode_event7 it out)"

definition DecodeSnap7 :: "snapshot \<Rightarrow> snap_objects" where
  "DecodeSnap7 snap = fold decode_item7 (Items snap) (empty_objects (Tick snap))"

section \<open>Client info (0.6)\<close>

definition clientInfoNameInts :: nat where "clientInfoNameInts = 4"
definition clientInfoClanInts :: nat where "clientInfoClanInts = 3"
definition clientInfoCountryIdx :: nat where "clientInfoCountryIdx = 7"
definition clientInfoSkinInts :: nat where "clientInfoSkinInts = 6"
definition clientInfoNameStart :: nat where "clientInfoNameStart = 0"
definition clientInfoClanStart :: nat where "clientInfoClanStart = 4"
definition clientInfoSkinStart :: nat where "clientInfoSkinStart = 8"

lemmas client_info_consts =
  clientInfoNameInts_def clientInfoClanInts_def clientInfoCountryIdx_def clientInfoSkinInts_def
  clientInfoNameStart_def clientInfoClanStart_def clientInfoSkinStart_def

text \<open>The four characters of an int, in order; a character value 0 ends the string.\<close>

definition int_chars :: "int \<Rightarrow> int list" where
  "int_chars v = map (\<lambda>shift. (drop_bit shift v AND 255) - 128) [24, 16, 8, 0]"

definition IntsToStr :: "int list \<Rightarrow> byte list" where
  "IntsToStr ints = map byte_of (takeWhile (\<lambda>ch. ch \<noteq> 0) (concat (map int_chars ints)))"

record client_info =
  ci_Name :: "byte list"
  ci_Clan :: "byte list"
  ci_Country :: int
  ci_Skin :: "byte list"

definition sub_ints :: "int list \<Rightarrow> nat \<Rightarrow> nat \<Rightarrow> int list" where
  "sub_ints f start n = take n (drop start f)"

definition SkinInts :: "int list \<Rightarrow> int list \<times> bool" where
  "SkinInts fs =
     (if length fs < SizeClientInfo6 then (replicate clientInfoSkinInts 0, False)
      else (sub_ints fs clientInfoSkinStart clientInfoSkinInts, True))"

definition DecodeClientInfo :: "int list \<Rightarrow> client_info" where
  "DecodeClientInfo fs =
     (if length fs < SizeClientInfo6 then \<lparr>ci_Name = [], ci_Clan = [], ci_Country = 0, ci_Skin = []\<rparr>
      else \<lparr>ci_Name = IntsToStr (sub_ints fs clientInfoNameStart clientInfoNameInts),
            ci_Clan = IntsToStr (sub_ints fs clientInfoClanStart clientInfoClanInts),
            ci_Country = fs ! clientInfoCountryIdx,
            ci_Skin = IntsToStr (sub_ints fs clientInfoSkinStart clientInfoSkinInts)\<rparr>)"

end
