(* ===== verification/SnapWire.thy ===== *)
theory SnapWire
  imports SnapObjs
begin

text \<open>
  The two decoders against one reference: a list of neutral entities, what each protocol puts on the
  wire for an entity (the member orders of the generated 0.6 and 0.7 protocols, as the comments of
  net6/snap_decode.go and net7/snap_decode.go give them), and \<open>put\<close>, the direct meaning of an entity.
  The wire forms are written with the numbers of the protocols, none of the decoders' own tables.
  Decoding the 0.6 items gives that meaning, decoding the 0.7 items gives it up to the fields the 0.7
  objects do not carry.
\<close>

section \<open>Entities\<close>

datatype pickup_kind = Health | Armor | Grenade | Shotgun | Laser | Ninja | Gun | Hammer | Unlisted nat

datatype entity =
    Char int character
  | Info int player
  | Proj projectile
  | Beam laser
  | Item int int int pickup_kind
  | Carried int int int int
  | Rules int game_info
  | Carriers int game_data
  | View int spectator_info
  | Effect int world_event
  | Junk snap_item

definition core_fields :: "character \<Rightarrow> int list" where
  "core_fields c = [ch_Tick c, ch_X c, ch_Y c, ch_VelX c, ch_VelY c, ch_Angle c, ch_Direction c,
     ch_Jumped c, ch_HookedPlayer c, ch_HookState c, ch_HookTick c, ch_HookX c, ch_HookY c,
     ch_HookDx c, ch_HookDy c]"

definition tail_fields :: "character \<Rightarrow> int list" where
  "tail_fields c = [ch_Health c, ch_Armor c, ch_AmmoCount c, ch_Weapon c, ch_Emote c, ch_AttackTick c]"

definition projectile_fields :: "projectile \<Rightarrow> int list" where
  "projectile_fields p = [pj_X p, pj_Y p, pj_VelX p, pj_VelY p, pj_Type p, pj_StartTick p]"

definition laser_fields :: "laser \<Rightarrow> int list" where
  "laser_fields l = [la_X l, la_Y l, la_FromX l, la_FromY l, la_StartTick l]"

fun effect6 :: "int \<Rightarrow> world_event \<Rightarrow> snap_item list" where
  "effect6 i (EventExplosion x y) = [\<lparr>TypeID = 14, ID = i, Fields = [x, y]\<rparr>]"
| "effect6 i (EventSpawn x y) = [\<lparr>TypeID = 15, ID = i, Fields = [x, y]\<rparr>]"
| "effect6 i (EventHammerHit x y) = [\<lparr>TypeID = 16, ID = i, Fields = [x, y]\<rparr>]"
| "effect6 i (EventDeath x y c) = [\<lparr>TypeID = 17, ID = i, Fields = [x, y, c]\<rparr>]"
| "effect6 i (EventSoundWorld x y s) = [\<lparr>TypeID = 19, ID = i, Fields = [x, y, s]\<rparr>]"
| "effect6 i (EventDamageInd x y a) = [\<lparr>TypeID = 20, ID = i, Fields = [x, y, a]\<rparr>]"
| "effect6 i _ = []"

fun effect7 :: "int \<Rightarrow> world_event \<Rightarrow> snap_item list" where
  "effect7 i (EventExplosion x y) = [\<lparr>TypeID = 17, ID = i, Fields = [x, y]\<rparr>]"
| "effect7 i (EventSpawn x y) = [\<lparr>TypeID = 18, ID = i, Fields = [x, y]\<rparr>]"
| "effect7 i (EventHammerHit x y) = [\<lparr>TypeID = 19, ID = i, Fields = [x, y]\<rparr>]"
| "effect7 i (EventDeath x y c) = [\<lparr>TypeID = 20, ID = i, Fields = [x, y, c]\<rparr>]"
| "effect7 i (EventSoundWorld x y s) = [\<lparr>TypeID = 21, ID = i, Fields = [x, y, s]\<rparr>]"
| "effect7 i (EventDamageInd x y a) =
     [\<lparr>TypeID = 22, ID = i, Fields = [x, y, 0, a, 0, 0, 0]\<rparr>]"
| "effect7 i _ = []"

text \<open>
  Pickups: 0.7 numbers the kinds, 0.6 has a powerup kind and, for weapons and the ninja, the weapon.
\<close>

fun pickup_type7 :: "pickup_kind \<Rightarrow> int" where
  "pickup_type7 Health = 0"
| "pickup_type7 Armor = 1"
| "pickup_type7 Grenade = 2"
| "pickup_type7 Shotgun = 3"
| "pickup_type7 Laser = 4"
| "pickup_type7 Ninja = 5"
| "pickup_type7 Gun = 6"
| "pickup_type7 Hammer = 7"
| "pickup_type7 (Unlisted n) = 8 + int n"

fun pickup_split6 :: "pickup_kind \<Rightarrow> int \<times> int" where
  "pickup_split6 Health = (0, 0)"
| "pickup_split6 Armor = (1, 0)"
| "pickup_split6 Hammer = (2, 0)"
| "pickup_split6 Gun = (2, 1)"
| "pickup_split6 Shotgun = (2, 2)"
| "pickup_split6 Grenade = (2, 3)"
| "pickup_split6 Laser = (2, 4)"
| "pickup_split6 Ninja = (3, 5)"
| "pickup_split6 (Unlisted n) = (2, 0)"

text \<open>
  How many fields an item of a type that is decoded has at least. \<open>Junk\<close> is an item of another type,
  or one that is cut off before the last field.
\<close>

definition layout6 :: "int \<Rightarrow> nat option" where
  "layout6 = map_of [(2, 6), (3, 5), (4, 4), (5, 3), (6, 8), (7, 4), (9, 22), (10, 5), (12, 3), (14, 2), (15, 2),
     (16, 2), (17, 3), (19, 3), (20, 3)]"

definition layout7 :: "int \<Rightarrow> nat option" where
  "layout7 = map_of [(2, 6), (3, 5), (4, 3), (5, 3), (6, 3), (7, 2), (8, 4), (10, 22), (11, 3), (12, 4), (17, 2),
     (18, 2), (19, 2), (20, 3), (21, 3), (22, 7)]"

definition is_junk :: "(int \<Rightarrow> nat option) \<Rightarrow> snap_item \<Rightarrow> bool" where
  "is_junk layout it = (case layout (TypeID it) of None \<Rightarrow> True | Some n \<Rightarrow> length (Fields it) < n)"

fun items6 :: "entity \<Rightarrow> snap_item list" where
  "items6 (Char i c) = [\<lparr>TypeID = 9, ID = i,
      Fields = core_fields c @ ch_PlayerFlags c # tail_fields c\<rparr>]"
| "items6 (Info i p) = [\<lparr>TypeID = 10, ID = i,
      Fields = [(if pl_Local p then 1 else 0), pl_ClientID p, pl_Team p, pl_Score p, pl_Latency p]\<rparr>]"
| "items6 (Proj p) = [\<lparr>TypeID = 2, ID = pj_ID p, Fields = projectile_fields p\<rparr>]"
| "items6 (Beam l) = [\<lparr>TypeID = 3, ID = la_ID l, Fields = laser_fields l\<rparr>]"
| "items6 (Item i x y t) = [\<lparr>TypeID = 4, ID = i,
      Fields = [x, y, fst (pickup_split6 t), snd (pickup_split6 t)]\<rparr>]"
| "items6 (Carried i x y t) = [\<lparr>TypeID = 5, ID = i, Fields = [x, y, t]\<rparr>]"
| "items6 (Rules i g) = [\<lparr>TypeID = 6, ID = i,
      Fields = [gi_GameFlags g, gi_GameStateFlags g, gi_RoundStartTick g, gi_WarmupTimer g,
                gi_ScoreLimit g, gi_TimeLimit g, gi_RoundNum g, gi_RoundCurrent g]\<rparr>]"
| "items6 (Carriers i d) = [\<lparr>TypeID = 7, ID = i,
      Fields = [gd_TeamscoreRed d, gd_TeamscoreBlue d, gd_FlagCarrierRed d, gd_FlagCarrierBlue d]\<rparr>]"
| "items6 (View i v) = [\<lparr>TypeID = 12, ID = i,
      Fields = [si_SpectatorID v, si_X v, si_Y v]\<rparr>]"
| "items6 (Effect i e) = effect6 i e"
| "items6 (Junk it) = (if is_junk layout6 it then [it] else [])"

fun items7 :: "entity \<Rightarrow> snap_item list" where
  "items7 (Char i c) = [\<lparr>TypeID = 10, ID = i, Fields = core_fields c @ tail_fields c @ [0]\<rparr>]"
| "items7 (Info i p) = [\<lparr>TypeID = 11, ID = pl_ClientID p,
      Fields = [pl_PlayerFlags p, pl_Score p, pl_Latency p]\<rparr>]"
| "items7 (Proj p) = [\<lparr>TypeID = 2, ID = pj_ID p, Fields = projectile_fields p\<rparr>]"
| "items7 (Beam l) = [\<lparr>TypeID = 3, ID = la_ID l, Fields = laser_fields l\<rparr>]"
| "items7 (Item i x y t) = [\<lparr>TypeID = 4, ID = i, Fields = [x, y, pickup_type7 t]\<rparr>]"
| "items7 (Carried i x y t) = [\<lparr>TypeID = 5, ID = i, Fields = [x, y, t]\<rparr>]"
| "items7 (Rules i g) = [\<lparr>TypeID = 6, ID = i,
      Fields = [gi_RoundStartTick g, gi_GameStateFlags g, gi_GameStateEndTick g]\<rparr>]"
| "items7 (Carriers i d) =
     [\<lparr>TypeID = 7, ID = i, Fields = [gd_TeamscoreRed d, gd_TeamscoreBlue d]\<rparr>,
      \<lparr>TypeID = 8, ID = i, Fields = [gd_FlagCarrierRed d, gd_FlagCarrierBlue d, 0, 0]\<rparr>]"
| "items7 (View i v) = [\<lparr>TypeID = 12, ID = i,
      Fields = (if si_SpectatorID v = -1 then [0, 0] else [1, si_SpectatorID v]) @ [si_X v, si_Y v]\<rparr>]"
| "items7 (Effect i e) = effect7 i e"
| "items7 (Junk it) = (if is_junk layout7 it then [it] else [])"

section \<open>Meaning\<close>

fun has_effect :: "world_event \<Rightarrow> bool" where
  "has_effect (EventExplosion _ _) = True"
| "has_effect (EventSpawn _ _) = True"
| "has_effect (EventHammerHit _ _) = True"
| "has_effect (EventDeath _ _ _) = True"
| "has_effect (EventSoundWorld _ _ _) = True"
| "has_effect (EventDamageInd _ _ _) = True"
| "has_effect _ = False"

fun put :: "entity \<Rightarrow> snap_objects \<Rightarrow> snap_objects" where
  "put (Char i c) out = out\<lparr>so_Characters := fmupd i c (so_Characters out)\<rparr>"
| "put (Info i p) out = out\<lparr>so_Players := fmupd (pl_ClientID p) p (so_Players out)\<rparr>"
| "put (Proj p) out = out\<lparr>so_Projectiles := so_Projectiles out @ [p]\<rparr>"
| "put (Beam l) out = out\<lparr>so_Lasers := so_Lasers out @ [l]\<rparr>"
| "put (Item i x y t) out = out\<lparr>so_Pickups := so_Pickups out @ [\<lparr>pk_X = x, pk_Y = y,
     pk_Type = fst (pickup_split6 t), pk_Subtype = snd (pickup_split6 t)\<rparr>]\<rparr>"
| "put (Carried i x y t) out = out\<lparr>so_Flags := so_Flags out @ [\<lparr>fl_X = x, fl_Y = y, fl_Team = t\<rparr>]\<rparr>"
| "put (Rules i g) out = out\<lparr>so_GameInfo := g, so_HasGameInfo := True\<rparr>"
| "put (Carriers i d) out = out\<lparr>so_GameData := d, so_HasGameData := True\<rparr>"
| "put (View i v) out = out\<lparr>so_Spectator := v, so_HasSpectator := True\<rparr>"
| "put (Effect i e) out = (if has_effect e then add_event (World e) out else out)"
| "put (Junk it) out = out"

definition objects :: "int \<Rightarrow> entity list \<Rightarrow> snap_objects" where
  "objects tick es = fold put es (empty_objects tick)"

text \<open>What each protocol carries of an entity.\<close>

fun carried6 :: "entity \<Rightarrow> entity" where
  "carried6 (Info i p) = Info i (p\<lparr>pl_PlayerFlags := 0\<rparr>)"
| "carried6 (Rules i g) = Rules i (g\<lparr>gi_GameStateEndTick := 0\<rparr>)"
| "carried6 e = e"

fun carried7 :: "entity \<Rightarrow> entity" where
  "carried7 (Char i c) = Char i (c\<lparr>ch_PlayerFlags := 0\<rparr>)"
| "carried7 (Info i p) = Info i (p\<lparr>pl_Local := False, pl_Team := 0\<rparr>)"
| "carried7 (Rules i g) = Rules i (zero_game_info\<lparr>gi_RoundStartTick := gi_RoundStartTick g,
     gi_GameStateFlags := gi_GameStateFlags g, gi_GameStateEndTick := gi_GameStateEndTick g\<rparr>)"
| "carried7 e = e"

definition render6 :: "int \<Rightarrow> entity list \<Rightarrow> snapshot" where
  "render6 tick es = \<lparr>Tick = tick, Items = concat (map items6 es)\<rparr>"

definition render7 :: "int \<Rightarrow> entity list \<Rightarrow> snapshot" where
  "render7 tick es = \<lparr>Tick = tick, Items = concat (map items7 es)\<rparr>"

section \<open>One entity\<close>

lemmas wire_fields = core_fields_def tail_fields_def projectile_fields_def laser_fields_def

lemma wire_lengths [simp]:
  "length (core_fields c) = 15" "length (tail_fields c) = 6"
  "length (projectile_fields p) = 6" "length (laser_fields l) = 5"
  by (simp_all add: wire_fields laser_fields_def)

lemma fields_inverse [simp]:
  "character6 (core_fields c @ ch_PlayerFlags c # tail_fields c) = c"
  "character7 (core_fields c @ tail_fields c @ [0]) = c\<lparr>ch_PlayerFlags := 0\<rparr>"
  "projectile_of (pj_ID p) (projectile_fields p) = p"
  "laser_of (la_ID l) (laser_fields l) = l"
  by (cases c, cases p, cases l,
      simp add: wire_fields laser_fields_def character6_def character7_def projectile_of_def laser_of_def)+

lemma player_inverse [simp]:
  "player6 [if pl_Local p then 1 else 0, pl_ClientID p, pl_Team p, pl_Score p, pl_Latency p] =
     p\<lparr>pl_PlayerFlags := 0\<rparr>"
  "player7 (pl_ClientID p) [pl_PlayerFlags p, pl_Score p, pl_Latency p] =
     p\<lparr>pl_Local := False, pl_Team := 0\<rparr>"
  by (cases p, simp add: player6_def player7_def)+

lemma game_inverse [simp]:
  "game_info6 [gi_GameFlags g, gi_GameStateFlags g, gi_RoundStartTick g, gi_WarmupTimer g,
     gi_ScoreLimit g, gi_TimeLimit g, gi_RoundNum g, gi_RoundCurrent g] = g\<lparr>gi_GameStateEndTick := 0\<rparr>"
  "\<lparr>gd_TeamscoreRed = gd_TeamscoreRed d, gd_TeamscoreBlue = gd_TeamscoreBlue d,
    gd_FlagCarrierRed = gd_FlagCarrierRed d, gd_FlagCarrierBlue = gd_FlagCarrierBlue d\<rparr> = d"
  "\<lparr>si_SpectatorID = si_SpectatorID v, si_X = si_X v, si_Y = si_Y v\<rparr> = v"
  by (cases g, cases d, cases v, simp add: game_info6_def)+

lemma junk6:
  assumes "is_junk layout6 it"
  shows "decode_item6 it out = out"
proof (cases "TypeID it \<in> {2, 3, 4, 5, 6, 7, 9, 10, 12, 14, 15, 16, 17, 19, 20}")
  case True
  then show ?thesis using assms
    by (elim insertE emptyE)
      (simp_all add: is_junk_def layout6_def decode_item6_def decode_event6_def obj_ids sizes6)
next
  case False
  then show ?thesis by (simp add: decode_item6_def decode_event6_def obj_ids)
qed

lemma junk7:
  assumes "is_junk layout7 it"
  shows "decode_item7 it out = out"
proof (cases "TypeID it \<in> {2, 3, 4, 5, 6, 7, 8, 10, 11, 12, 17, 18, 19, 20, 21, 22}")
  case True
  then show ?thesis using assms
    by (elim insertE emptyE)
      (simp_all add: is_junk_def layout7_def decode_item7_def decode_event7_def obj_ids sizes7)
next
  case False
  then show ?thesis by (simp add: decode_item7_def decode_event7_def obj_ids)
qed

lemma pickup_canonical: "pickupType7ToCanonical (pickup_type7 k) = pickup_split6 k"
  by (cases k) (simp_all add: pickupType7ToCanonical_def canonical_defs)

lemma decode_entity6: "fold decode_item6 (items6 e) out = put (carried6 e) out"
proof (cases e)
  case (Effect i w)
  then show ?thesis
    by (cases w) (simp_all add: decode_item6_def decode_event6_def obj_ids sizes6)
next
  case (Junk it)
  then show ?thesis by (simp add: junk6)
qed (simp_all add: decode_item6_def obj_ids sizes6 split del: if_split)

lemma carriers_in_two_parts:
  "out\<lparr>so_GameData := (so_GameData out)\<lparr>gd_TeamscoreRed := gd_TeamscoreRed d,
     gd_TeamscoreBlue := gd_TeamscoreBlue d, gd_FlagCarrierRed := gd_FlagCarrierRed d,
     gd_FlagCarrierBlue := gd_FlagCarrierBlue d\<rparr>, so_HasGameData := True\<rparr> =
   out\<lparr>so_GameData := d, so_HasGameData := True\<rparr>"
  by (cases d, cases "so_GameData out") simp

lemma decode_entity7: "fold decode_item7 (items7 e) out = put (carried7 e) out"
proof (cases e)
  case (Effect i w)
  then show ?thesis
    by (cases w) (simp_all add: decode_item7_def decode_event7_def obj_ids sizes7)
next
  case (View i v)
  then show ?thesis
    by (cases v) (simp add: decode_item7_def obj_ids sizes7 spec7Freeview_def specFreeview6_def)
next
  case (Junk it)
  then show ?thesis by (simp add: junk7)
qed (simp_all add: decode_item7_def obj_ids sizes7 carriers_in_two_parts pickup_canonical split del: if_split)

lemma decode_entities6:
  "fold decode_item6 (concat (map items6 es)) out = fold put (map carried6 es) out"
  by (induction es arbitrary: out) (simp_all add: decode_entity6)

lemma decode_entities7:
  "fold decode_item7 (concat (map items7 es)) out = fold put (map carried7 es) out"
  by (induction es arbitrary: out) (simp_all add: decode_entity7)

lemma decoded_entities:
  "DecodeSnap6 (render6 tick es) = objects tick (map carried6 es)"
  "DecodeSnap7 (render7 tick es) = objects tick (map carried7 es)"
  by (simp_all add: DecodeSnap6_def DecodeSnap7_def render6_def render7_def objects_def
      decode_entities6 decode_entities7)

text \<open>
  C38: Whatever entities a tick holds, decoding its 0.6 snapshot gives them back, and decoding its 0.7
  snapshot gives them back, each up to exactly the fields its protocol does not carry (0.6: the
  player flags of PlayerInfo and the end tick of the game state; 0.7: the player flags of
  characters, the local mark and team of players, and the 0.6-only rules); pickups of every kind
  come out alike, free view too, and items that are cut short or of an unknown type are skipped
  without disturbing the others.
\<close>

theorem decoders_agree:
  "DecodeSnap6 (render6 tick es) = objects tick (map carried6 es) \<and>
   DecodeSnap7 (render7 tick es) = objects tick (map carried7 es)"
  by (simp add: decoded_entities)

section \<open>What a decoder returns\<close>

text \<open>A table of a decoder is decided by the last item of its kind under the key.\<close>

lemma decode_event6_tables [simp]:
  "so_Characters (decode_event6 it out) = so_Characters out"
  "so_Players (decode_event6 it out) = so_Players out"
  by (simp_all add: decode_event6_def add_event_def Let_def)

lemma decode_event7_tables [simp]:
  "so_Characters (decode_event7 it out) = so_Characters out"
  "so_Players (decode_event7 it out) = so_Players out"
  by (simp_all add: decode_event7_def add_event_def Let_def)

lemma decode_item6_Characters:
  "so_Characters (decode_item6 it out) =
     (if TypeID it = ObjCharacter6 \<and> SizeCharacter6 \<le> length (Fields it)
      then fmupd (ID it) (character6 (Fields it)) (so_Characters out) else so_Characters out)"
  by (simp add: decode_item6_def Let_def)

lemma decode_item6_Players:
  "so_Players (decode_item6 it out) =
     (if TypeID it = ObjPlayerInfo6 \<and> SizePlayerInfo6 \<le> length (Fields it)
      then fmupd (Fields it ! 1) (player6 (Fields it)) (so_Players out) else so_Players out)"
  by (simp add: decode_item6_def Let_def obj_ids)

lemma decode_item7_Players:
  "so_Players (decode_item7 it out) =
     (if TypeID it = ObjPlayerInfo7 \<and> SizePlayerInfo7 \<le> length (Fields it)
      then fmupd (ID it) (player7 (ID it) (Fields it)) (so_Players out) else so_Players out)"
  by (simp add: decode_item7_def Let_def obj_ids)

definition keyed_players :: "snap_objects \<Rightarrow> bool" where
  "keyed_players out \<longleftrightarrow> fmpred (\<lambda>k p. pl_ClientID p = k) (so_Players out)"

lemma keyed_players_empty [simp]: "keyed_players (empty_objects tick)"
  by (simp add: keyed_players_def empty_objects_def)

lemma keyed_players_step:
  assumes "keyed_players out"
  shows "keyed_players (decode_item6 it out)" "keyed_players (decode_item7 it out)"
  using assms
  by (auto simp: keyed_players_def decode_item6_Players decode_item7_Players player6_def player7_def
      split: if_splits)

lemma keyed_players_fold:
  "keyed_players out \<Longrightarrow> keyed_players (fold decode_item6 its out)"
  "keyed_players out \<Longrightarrow> keyed_players (fold decode_item7 its out)"
  by (induction its arbitrary: out) (simp_all add: keyed_players_step)

lemma DecodeSnap_keyed: "keyed_players (DecodeSnap6 snap)" "keyed_players (DecodeSnap7 snap)"
  by (simp_all add: DecodeSnap6_def DecodeSnap7_def keyed_players_fold)

section \<open>Packed names\<close>

text \<open>
  The inverse of \<open>IntsToStr\<close>: four characters per int, each offset by 128, zero characters after
  the end, the low bit of the last int cleared.
\<close>

definition pack_chars :: "byte \<Rightarrow> byte \<Rightarrow> byte \<Rightarrow> byte \<Rightarrow> int" where
  "pack_chars a b c d =
     (((uint a + 128) mod 256 * 256 + (uint b + 128) mod 256) * 256 + (uint c + 128) mod 256) * 256 +
       (uint d + 128) mod 256"

fun pack4 :: "byte list \<Rightarrow> int list" where
  "pack4 (a # b # c # d # r) = pack_chars a b c d # pack4 r"
| "pack4 _ = []"

definition StrToInts :: "nat \<Rightarrow> byte list \<Rightarrow> int list" where
  "StrToInts n s =
     (let v = pack4 (s @ replicate (4 * n - length s) 0)
      in map s32 (butlast v @ [2 * (last v div 2)]))"

definition char_int :: "byte \<Rightarrow> int" where
  "char_int b = (uint b + 128) mod 256 - 128"

lemma char_int [simp]: "byte_of (char_int b) = b" "char_int b = 0 \<longleftrightarrow> b = 0"
proof -
  have "(char_int b) mod 256 = uint b"
    unfolding char_int_def by (simp add: mod_diff_left_eq)
  then show 1: "byte_of (char_int b) = b"
    by (metis byte_of_uint uint_byte_of word_uint_eqI)
  show "char_int b = 0 \<longleftrightarrow> b = 0"
  proof
    assume "char_int b = 0"
    with 1 show "b = 0" by (simp add: byte_of_def)
  qed (simp add: char_int_def)
qed

text \<open>Only the low 32 bits of an int are read.\<close>

lemma and_255: "x AND 255 = x mod (256 :: int)"
  using take_bit_eq_mask [of 8 x] by (simp add: take_bit_eq_mod mask_eq_exp_minus_1)

lemma s32_byte: "n + 8 \<le> 32 \<Longrightarrow> drop_bit n (s32 v) AND 255 = (v div 2 ^ n) mod 256"
proof -
  assume n: "n + 8 \<le> 32"
  have "take_bit 8 (drop_bit n (s32 v)) = take_bit 8 (drop_bit n v)"
  proof (rule bit_eqI)
    fix k
    have "min 31 (n + k) = n + k" if "k < 8" using that n by simp
    then show "bit (take_bit 8 (drop_bit n (s32 v))) k = bit (take_bit 8 (drop_bit n v)) k"
      by (cases "k < 8") (simp_all add: bit_take_bit_iff bit_drop_bit_eq s32_def bit_signed_take_bit_iff)
  qed
  then show ?thesis by (simp add: and_255 take_bit_eq_mod drop_bit_eq_div)
qed

lemma int_chars_pack: "int_chars (s32 (pack_chars a b c d)) = map char_int [a, b, c, d]"
proof -
  have base: "(x * 256 + y) div 256 = x \<and> (x * 256 + y) mod 256 = y"
    if "0 \<le> y" "y < 256" for x y :: int using that by simp
  define A where "A = (uint a + 128) mod 256"
  define B where "B = (uint b + 128) mod 256"
  define C where "C = (uint c + 128) mod 256"
  define D where "D = (uint d + 128) mod 256"
  have r: "0 \<le> A" "A < 256" "0 \<le> B" "B < 256" "0 \<le> C" "C < 256" "0 \<le> D" "D < 256"
    by (simp_all add: A_def B_def C_def D_def)
  define v where "v = ((A * 256 + B) * 256 + C) * 256 + D"
  have q8: "v div 256 = (A * 256 + B) * 256 + C" using r by (simp add: v_def base)
  have q16: "v div 65536 = A * 256 + B"
    using zdiv_zmult2_eq [of 256 v 256] q8 r by (simp add: base)
  have q24: "v div 16777216 = A" using zdiv_zmult2_eq [of 256 v 65536] q16 r by (simp add: base)
  have "v mod 256 = D" "v div 256 mod 256 = C" "v div 65536 mod 256 = B" "v div 16777216 mod 256 = A"
    unfolding q8 q16 q24 using r by (simp_all only: v_def base mod_pos_pos_trivial)
  then have "int_chars (s32 v) = [A - 128, B - 128, C - 128, D - 128]"
    using s32_byte [of 0 v] s32_byte [of 8 v] s32_byte [of 16 v] s32_byte [of 24 v]
    by (simp add: int_chars_def)
  then show ?thesis by (simp add: v_def pack_chars_def A_def B_def C_def D_def char_int_def)
qed

lemma chars_pack4:
  "4 dvd length bs \<Longrightarrow> concat (map int_chars (map s32 (pack4 bs))) = map char_int bs"
proof (induction bs rule: pack4.induct)
  case (1 a b c d r)
  have "4 dvd length r" using 1(2) by (simp add: dvd_def) presburger
  from 1(1) [OF this] show ?case by (simp add: int_chars_pack)
qed (auto simp: dvd_def, presburger+)

lemma pack4_last:
  "4 dvd length bs \<Longrightarrow> bs \<noteq> [] \<Longrightarrow> last bs = 0 \<Longrightarrow> pack4 bs \<noteq> [] \<and> even (last (pack4 bs))"
proof (induction bs rule: pack4.induct)
  case (1 a b c d r)
  have "4 dvd length r" using 1(2) by (simp add: dvd_def) presburger
  then show ?case using 1 by (cases "r = []") (auto simp: pack_chars_def)
qed (auto simp: dvd_def, presburger+)

lemma takeWhile_padded:
  "0 \<notin> set s \<Longrightarrow> 0 < k \<Longrightarrow>
     takeWhile (\<lambda>ch. ch \<noteq> 0) (map char_int (s @ replicate k 0)) = map char_int s"
  by (induction s) (auto simp: takeWhile_eq_Nil_iff hd_map Suc_le_eq gr0_conv_Suc)

text \<open>
  A name without NUL that leaves room for its terminator survives the 0.6 packing: decoding the
  ints (as the signed 32-bit values a snapshot carries) gives the bytes of the name.
\<close>

theorem names_roundtrip:
  assumes "length s < 4 * n" "0 \<notin> set s"
  shows "IntsToStr (StrToInts n s) = s"
proof -
  let ?k = "4 * n - length s"
  let ?bs = "s @ replicate ?k 0"
  have k: "0 < ?k" and len: "4 dvd length ?bs" using assms by auto
  have "?bs \<noteq> []" "last ?bs = 0" using k by (simp_all add: last_append)
  with len have "pack4 ?bs \<noteq> []" "even (last (pack4 ?bs))" using pack4_last by blast+
  then have "butlast (pack4 ?bs) @ [2 * (last (pack4 ?bs) div 2)] = pack4 ?bs" by simp
  then have "StrToInts n s = map s32 (pack4 ?bs)" by (simp only: StrToInts_def Let_def)
  then have "concat (map int_chars (StrToInts n s)) = map char_int ?bs"
    using chars_pack4 [OF len] by simp
  then show ?thesis
    using takeWhile_padded [OF assms(2) k] by (simp add: IntsToStr_def comp_def)
qed

theorem names_roundtrip_witness: "IntsToStr (StrToInts 4 [110, 97, 109, 101]) = [110, 97, 109, 101]"
  by (rule names_roundtrip) simp_all

end
