(* ===== verification/ClientSnap.thy ===== *)
theory ClientSnap
  imports SnapWire
begin

text \<open>
  client/snap.go: the state a client keeps of the snapshots it has seen, and the events it derives by
  comparing each snapshot with the one before.

  Go leaves the order of a \<open>range\<close> over a map open, so the loops over maps take the order from
  \<open>rng\<close>: the loop number and the key set give the keys in the order they are visited. Maps are values:
  the two character maps swap roles at every snapshot and are never the same map, so reusing the
  cleared older one is building a new one. \<open>time.Now()\<close> is the argument \<open>now\<close>, in nanoseconds; the
  zero time is \<open>None\<close>. The object UUIDs are digests of names, so the ext objects take \<open>md5\<close>.
\<close>

section \<open>Ranging over maps\<close>

type_synonym go_range = "nat \<Rightarrow> int fset \<Rightarrow> int list"

definition visits_all :: "go_range \<Rightarrow> bool" where
  "visits_all rng \<longleftrightarrow> (\<forall>n S. distinct (rng n S) \<and> set (rng n S) = fset S)"

definition for_keys :: "go_range \<Rightarrow> nat \<Rightarrow> (int, 'v) fmap \<Rightarrow> (int \<Rightarrow> 'v \<Rightarrow> 'e list) \<Rightarrow> 'e list" where
  "for_keys rng n m body =
     concat (map (\<lambda>k. case fmlookup m k of None \<Rightarrow> [] | Some v \<Rightarrow> body k v) (rng n (fmdom m)))"

section \<open>State\<close>

definition GameStateFlagGameOver :: int where "GameStateFlagGameOver = 1"
definition GameStateFlagSuddenDeath :: int where "GameStateFlagSuddenDeath = 2"
definition GameStateFlagPaused :: int where "GameStateFlagPaused = 4"
definition GameStateFlagRaceTime :: int where "GameStateFlagRaceTime = 8"
definition DefaultMoveEventThreshold :: int where "DefaultMoveEventThreshold = 16"
definition tickDuration :: int where "tickDuration = 20 * 1000000"
definition offsetUUIDType :: int where "offsetUUIDType = 0x4000"
definition exPlayerFlagAfk :: int where "exPlayerFlagAfk = 1"

record game_info_state =
  gs_GameFlags :: int
  gs_GameStateFlags :: int
  gs_RoundStartTick :: int
  gs_WarmupTimer :: int
  gs_ScoreLimit :: int
  gs_TimeLimit :: int
  gs_RoundNum :: int
  gs_RoundCurrent :: int

record race_time =
  rt_Active :: bool
  rt_TickBased :: int
  rt_WallClock :: int
  rt_StartedAt :: "int option"
  rt_TickAtStart :: int
  rt_CurrentTick :: int
  rt_Finished :: bool
  rt_FinishTime :: int
  rt_CheckpointDiff :: int

record dd_char_state =
  dc_flags :: int
  dc_freezeEnd :: int
  dc_freezeStart :: int
  dc_jumps :: int
  dc_jumpedTotal :: int

record dd_player_state =
  dp_flags :: int
  dp_authLevel :: int

record snap_state =
  lastTick :: int
  lastSnapTime :: int
  localCID :: int
  own_character :: character
  characters :: "(int, character) fmap"
  prevCharacters :: "(int, character) fmap"
  lastSnap :: "snapshot option"
  objs :: snap_objects
  decode_fn :: "(snapshot \<Rightarrow> snap_objects) option"
  is07 :: bool
  moveEventThreshold :: int
  prevProjectiles :: "int fset"
  prevLasers :: "int fset"
  projectiles :: "(int, projectile) fmap"
  gameInfo :: game_info_state
  raceTime :: race_time
  prevGameState :: int
  gameStateInit :: bool
  prevScores :: "(int, int) fmap"
  prevTeams :: "(int, int) fmap"
  prevFlagRed :: int
  prevFlagBlue :: int
  flagInit :: bool
  prevSpecTarget :: int
  specInit :: bool
  prevClientIDs :: "int fset"
  prevSkins :: "(int, int list) fmap"
  rosterInit :: bool
  prevDDChar :: "(int, dd_char_state) fmap"
  prevDDPlayer :: "(int, dd_player_state) fmap"
  prevSpecChar :: "(int, int \<times> int) fmap"

definition zero_character :: character where
  "zero_character = character6 (replicate 22 0)"

definition zero_game_info_state :: game_info_state where
  "zero_game_info_state = \<lparr>gs_GameFlags = 0, gs_GameStateFlags = 0, gs_RoundStartTick = 0,
     gs_WarmupTimer = 0, gs_ScoreLimit = 0, gs_TimeLimit = 0, gs_RoundNum = 0, gs_RoundCurrent = 0\<rparr>"

definition zero_race_time :: race_time where
  "zero_race_time = \<lparr>rt_Active = False, rt_TickBased = 0, rt_WallClock = 0, rt_StartedAt = None,
     rt_TickAtStart = 0, rt_CurrentTick = 0, rt_Finished = False, rt_FinishTime = 0, rt_CheckpointDiff = 0\<rparr>"

text \<open>The zero value of the struct.\<close>

definition zero_snap_state :: snap_state where
  "zero_snap_state = \<lparr>lastTick = 0, lastSnapTime = 0, localCID = 0, own_character = zero_character,
     characters = fmempty, prevCharacters = fmempty, lastSnap = None, objs = empty_objects 0,
     decode_fn = None, is07 = False, moveEventThreshold = 0, prevProjectiles = {||}, prevLasers = {||},
     projectiles = fmempty, gameInfo = zero_game_info_state, raceTime = zero_race_time,
     prevGameState = 0, gameStateInit = False, prevScores = fmempty, prevTeams = fmempty,
     prevFlagRed = 0, prevFlagBlue = 0, flagInit = False, prevSpecTarget = 0, specInit = False,
     prevClientIDs = {||}, prevSkins = fmempty, rosterInit = False, prevDDChar = fmempty,
     prevDDPlayer = fmempty, prevSpecChar = fmempty\<rparr>"

section \<open>Race time\<close>

definition race_active :: "snap_state \<Rightarrow> bool" where
  "race_active ss \<longleftrightarrow> has_flag (gs_GameStateFlags (gameInfo ss)) GameStateFlagRaceTime"

definition updateRaceTime :: "int \<Rightarrow> int \<Rightarrow> snap_state \<Rightarrow> snap_state" where
  "updateRaceTime now gameTick ss =
     (let wasActive = rt_Active (raceTime ss);
          rt = (raceTime ss)\<lparr>rt_CurrentTick := gameTick\<rparr>
      in if race_active ss then
           let raceTicks = max (s64 (gameTick + gs_WarmupTimer (gameInfo ss))) 0;
               rt = rt\<lparr>rt_TickBased := s64 (raceTicks * tickDuration), rt_Active := True\<rparr>
           in if \<not> wasActive then
                ss\<lparr>raceTime := rt\<lparr>rt_StartedAt := Some now, rt_TickAtStart := gameTick, rt_Finished := False,
                     rt_FinishTime := 0, rt_CheckpointDiff := 0\<rparr>\<rparr>
              else ss\<lparr>raceTime := rt\<rparr>
         else if wasActive then ss\<lparr>raceTime := rt\<lparr>rt_Active := False\<rparr>\<rparr>
         else ss\<lparr>raceTime := rt\<rparr>)"

definition sub_time :: "int \<Rightarrow> int \<Rightarrow> int" where
  "sub_time a b = max (- (2 ^ 63)) (min (2 ^ 63 - 1) (a - b))"

definition raceTimeState :: "int \<Rightarrow> snap_state \<Rightarrow> race_time" where
  "raceTimeState now ss =
     (let rt = raceTime ss in
      if rt_Active rt \<and> \<not> rt_Finished rt then
        (case rt_StartedAt rt of None \<Rightarrow> rt | Some t \<Rightarrow> rt\<lparr>rt_WallClock := sub_time now t\<rparr>)
      else rt)"

definition centis :: "int \<Rightarrow> int" where
  "centis t = s64 (s64 (t * 10) * 1000000)"

definition setDDRaceTime :: "int \<Rightarrow> int \<Rightarrow> bool \<Rightarrow> snap_state \<Rightarrow> snap_state" where
  "setDDRaceTime timeCentis checkCentis finish ss =
     (let rt = (raceTime ss)\<lparr>rt_TickBased := centis timeCentis\<rparr>;
          rt = (if finish then rt\<lparr>rt_Finished := True, rt_FinishTime := centis timeCentis\<rparr> else rt)
      in ss\<lparr>raceTime := rt\<lparr>rt_CheckpointDiff := centis checkCentis\<rparr>\<rparr>)"

section \<open>Taking in a snapshot\<close>

definition set_local :: "go_range \<Rightarrow> snap_objects \<Rightarrow> int \<Rightarrow> int" where
  "set_local rng o0 cid =
     fold (\<lambda>k cid. case fmlookup (so_Players o0) k of
                     None \<Rightarrow> cid
                   | Some p \<Rightarrow> if pl_Local p then pl_ClientID p else cid)
       (rng 6 (fmdom (so_Players o0))) cid"

definition game_info_state_of :: "game_info \<Rightarrow> game_info_state" where
  "game_info_state_of g = \<lparr>gs_GameFlags = gi_GameFlags g, gs_GameStateFlags = gi_GameStateFlags g,
     gs_RoundStartTick = gi_RoundStartTick g, gs_WarmupTimer = gi_WarmupTimer g,
     gs_ScoreLimit = gi_ScoreLimit g, gs_TimeLimit = gi_TimeLimit g, gs_RoundNum = gi_RoundNum g,
     gs_RoundCurrent = gi_RoundCurrent g\<rparr>"

definition overlay_flags :: "(int, player) fmap \<Rightarrow> int \<Rightarrow> character \<Rightarrow> character" where
  "overlay_flags players i c =
     (case fmlookup players i of None \<Rightarrow> c | Some p \<Rightarrow> c\<lparr>ch_PlayerFlags := pl_PlayerFlags p\<rparr>)"

definition new_characters :: "bool \<Rightarrow> snap_objects \<Rightarrow> (int, character) fmap" where
  "new_characters seven o0 =
     (if seven then fmmap_keys (overlay_flags (so_Players o0)) (so_Characters o0) else so_Characters o0)"

definition take_game_info :: "int \<Rightarrow> snapshot \<Rightarrow> snap_state \<Rightarrow> snap_state" where
  "take_game_info now snap ss =
     (if so_HasGameInfo (objs ss) then
        updateRaceTime now (Tick snap) (ss\<lparr>gameInfo := game_info_state_of (so_GameInfo (objs ss))\<rparr>)
      else ss)"

definition set_own :: "snap_state \<Rightarrow> snap_state" where
  "set_own ss =
     (case fmlookup (characters ss) (localCID ss) of
        None \<Rightarrow> ss
      | Some c \<Rightarrow> ss\<lparr>own_character := c\<rparr>)"

definition updateFromSnap :: "go_range \<Rightarrow> int \<Rightarrow> snapshot \<Rightarrow> snap_state \<Rightarrow> snap_state" where
  "updateFromSnap rng now snap ss =
     (let o0 = objs ss;
          ss = take_game_info now snap (ss\<lparr>localCID := set_local rng o0 (localCID ss)\<rparr>)
      in set_own (ss\<lparr>prevCharacters := characters ss, characters := new_characters (is07 ss) o0\<rparr>))"

definition processSnapshot :: "go_range \<Rightarrow> int \<Rightarrow> snapshot \<Rightarrow> snap_state \<Rightarrow> snap_state" where
  "processSnapshot rng now snap ss =
     (let ss = ss\<lparr>lastTick := Tick snap, lastSnapTime := now, lastSnap := Some snap\<rparr>;
          decode = (case decode_fn ss of None \<Rightarrow> DecodeSnap6 | Some d \<Rightarrow> d)
      in updateFromSnap rng now snap (ss\<lparr>objs := decode snap\<rparr>))"

section \<open>Character events\<close>

type_synonym chars = "(int, character) fmap"

definition enter_events :: "go_range \<Rightarrow> chars \<Rightarrow> chars \<Rightarrow> event list" where
  "enter_events rng cur prev =
     for_keys rng 0 cur (\<lambda>i c.
       if fmlookup prev i = None then [Motion (EventPlayerEnterSight i (ch_X c) (ch_Y c))] else [])"

definition leave_events :: "go_range \<Rightarrow> chars \<Rightarrow> chars \<Rightarrow> event list" where
  "leave_events rng cur prev =
     for_keys rng 1 prev (\<lambda>i _. if fmlookup cur i = None then [Motion (EventPlayerLeaveSight i)] else [])"

definition hooked_events :: "go_range \<Rightarrow> int \<Rightarrow> chars \<Rightarrow> chars \<Rightarrow> event list" where
  "hooked_events rng cid cur prev =
     for_keys rng 2 cur (\<lambda>i c.
       if i = cid \<or> ch_HookedPlayer c \<noteq> cid then []
       else case fmlookup prev i of
              Some p \<Rightarrow> if ch_HookedPlayer p = cid then [] else [Motion (EventHookedBy i)]
            | None \<Rightarrow> [Motion (EventHookedBy i)])"

definition weapon_events :: "int \<Rightarrow> chars \<Rightarrow> chars \<Rightarrow> event list" where
  "weapon_events cid cur prev =
     (case (fmlookup cur cid, fmlookup prev cid) of
        (Some c, Some p) \<Rightarrow>
          if ch_Weapon p \<noteq> ch_Weapon c then [Motion (EventWeaponChange (ch_Weapon c))] else []
      | _ \<Rightarrow> [])"

definition abs_int :: "int \<Rightarrow> int" where
  "abs_int v = (if v < 0 then - v else v)"

text \<open>The changes of one character that is in both snapshots.\<close>

definition motion_of :: "int \<Rightarrow> int \<Rightarrow> int \<Rightarrow> character \<Rightarrow> character \<Rightarrow> motion_event list" where
  "motion_of threshold cid i c p =
     (let dx = ch_X c - ch_X p; dy = ch_Y c - ch_Y p in
      (if abs_int dx + abs_int dy \<ge> threshold then [EventPlayerMove i (ch_X c) (ch_Y c)] else []) @
      (if ch_Jumped c AND NOT (ch_Jumped p) \<noteq> 0 then [EventPlayerJump i] else []) @
      (if ch_Direction c \<noteq> ch_Direction p then [EventPlayerDir i (ch_Direction c)] else []) @
      (if ch_AttackTick c > ch_AttackTick p then [EventPlayerAttack i (ch_Weapon c)] else []) @
      (if i \<noteq> cid \<and> ch_Weapon c \<noteq> ch_Weapon p then [EventPlayerWeapon i (ch_Weapon c)] else []) @
      (if ch_HookState c \<noteq> ch_HookState p \<or> ch_HookedPlayer c \<noteq> ch_HookedPlayer p
       then [EventPlayerHook i (ch_HookState c) (ch_HookedPlayer c)] else []) @
      (if ch_Emote c \<noteq> ch_Emote p then [EventPlayerEmote i (ch_Emote c)] else []))"

definition move_threshold :: "snap_state \<Rightarrow> int" where
  "move_threshold ss =
     (if moveEventThreshold ss \<le> 0 then DefaultMoveEventThreshold else moveEventThreshold ss)"

definition motion_events :: "go_range \<Rightarrow> snap_state \<Rightarrow> event list" where
  "motion_events rng ss =
     for_keys rng 3 (characters ss) (\<lambda>i c.
       case fmlookup (prevCharacters ss) i of
         None \<Rightarrow> []
       | Some p \<Rightarrow> map Motion (motion_of (move_threshold ss) (localCID ss) i c p))"

definition character_events :: "go_range \<Rightarrow> snap_state \<Rightarrow> event list" where
  "character_events rng ss =
     enter_events rng (characters ss) (prevCharacters ss) @
     leave_events rng (characters ss) (prevCharacters ss) @
     hooked_events rng (localCID ss) (characters ss) (prevCharacters ss) @
     weapon_events (localCID ss) (characters ss) (prevCharacters ss) @
     motion_events rng ss"

section \<open>Transient objects\<close>

definition fired :: "int fset \<Rightarrow> projectile \<Rightarrow> event list" where
  "fired seen p =
     (if pj_ID p |\<in>| seen then []
      else [World (EventProjectileFired (pj_X p) (pj_Y p) (pj_VelX p) (pj_VelY p) (pj_Type p) (- 1))])"

definition laser_fired :: "int fset \<Rightarrow> laser \<Rightarrow> event list" where
  "laser_fired seen l =
     (if la_ID l |\<in>| seen then []
      else [World (EventLaserFired (la_FromX l) (la_FromY l) (la_X l) (la_Y l) (- 1))])"

definition deriveTransient :: "snap_state \<Rightarrow> event list \<times> snap_state" where
  "deriveTransient ss =
     (case lastSnap ss of
        None \<Rightarrow> ([], ss)
      | Some _ \<Rightarrow>
          (let o0 = objs ss in
           (so_Events o0 @
            concat (map (fired (prevProjectiles ss)) (so_Projectiles o0)) @
            concat (map (laser_fired (prevLasers ss)) (so_Lasers o0)),
            ss\<lparr>prevProjectiles := fset_of_list (map pj_ID (so_Projectiles o0)),
               prevLasers := fset_of_list (map la_ID (so_Lasers o0)),
               projectiles := fold (\<lambda>p. fmupd (pj_ID p) p) (so_Projectiles o0) fmempty\<rparr>)))"

section \<open>Game, roster and spectator events\<close>

definition round_events :: "snap_state \<Rightarrow> event list" where
  "round_events ss =
     (if gameStateInit ss \<and> gs_GameStateFlags (gameInfo ss) \<noteq> prevGameState ss
      then [Game (EventRoundState (gs_GameStateFlags (gameInfo ss)))] else [])"

definition score_events :: "go_range \<Rightarrow> snap_state \<Rightarrow> event list" where
  "score_events rng ss =
     for_keys rng 4 (so_Players (objs ss)) (\<lambda>i p.
       (case fmlookup (prevScores ss) i of
          Some s \<Rightarrow> if s \<noteq> pl_Score p then [Game (EventScoreChange i (pl_Score p))] else []
        | None \<Rightarrow> []) @
       (case fmlookup (prevTeams ss) i of
          Some tm \<Rightarrow> if tm \<noteq> pl_Team p then [Roster (EventTeamSet i (pl_Team p) False)] else []
        | None \<Rightarrow> []))"

definition flag_events :: "snap_state \<Rightarrow> event list" where
  "flag_events ss =
     (let red = gd_FlagCarrierRed (so_GameData (objs ss));
          blue = gd_FlagCarrierBlue (so_GameData (objs ss)) in
      if so_HasGameData (objs ss) \<and> flagInit ss then
        (if red \<noteq> prevFlagRed ss then [Game (EventFlag 0 red 0 0)] else []) @
        (if blue \<noteq> prevFlagBlue ss then [Game (EventFlag 1 blue 0 0)] else [])
      else [])"

definition keep_flags :: "snap_state \<Rightarrow> snap_state" where
  "keep_flags ss =
     (if so_HasGameData (objs ss) then
        ss\<lparr>prevFlagRed := gd_FlagCarrierRed (so_GameData (objs ss)),
           prevFlagBlue := gd_FlagCarrierBlue (so_GameData (objs ss)), flagInit := True\<rparr>
      else ss)"

type_synonym roster = "int fset \<times> (int, int list) fmap"

definition roster_event_of :: "snap_state \<Rightarrow> snap_item \<Rightarrow> event list" where
  "roster_event_of ss it =
     (let skin = fst (SkinInts (Fields it)); ci = DecodeClientInfo (Fields it) in
      if ID it |\<notin>| prevClientIDs ss then
        [Roster (EventPlayerJoin (ID it) (ci_Name ci) (ci_Clan ci) (ci_Country ci) (ci_Skin ci) 0)]
      else case fmlookup (prevSkins ss) (ID it) of
             Some s \<Rightarrow> if s \<noteq> skin then [Roster (EventSkinChange (ID it) (ci_Skin ci))] else []
           | None \<Rightarrow> [])"

definition client_items :: "snapshot \<Rightarrow> snap_item list" where
  "client_items snap = filter (\<lambda>it. TypeID it = ObjClientInfo6) (Items snap)"

definition roster_of :: "snap_item list \<Rightarrow> roster" where
  "roster_of its =
     (fset_of_list (map ID its), fold (\<lambda>it. fmupd (ID it) (fst (SkinInts (Fields it)))) its fmempty)"

definition deriveRoster06 :: "go_range \<Rightarrow> snapshot \<Rightarrow> snap_state \<Rightarrow> event list \<times> snap_state" where
  "deriveRoster06 rng snap ss =
     (let its = client_items snap; (ids, skins) = roster_of its in
      (concat (map (roster_event_of ss) its) @
       (if rosterInit ss then
          concat (map (\<lambda>i. if i |\<in>| ids then [] else [Roster (EventPlayerLeave i [])])
            (rng 5 (prevClientIDs ss)))
        else []),
       ss\<lparr>prevClientIDs := ids, prevSkins := skins, rosterInit := True\<rparr>))"

definition spectator_events :: "snap_state \<Rightarrow> event list \<times> snap_state" where
  "spectator_events ss =
     (if so_HasSpectator (objs ss) then
        let target = si_SpectatorID (so_Spectator (objs ss)) in
        ((if specInit ss \<and> target \<noteq> prevSpecTarget ss
          then [Game (EventSpecTarget (localCID ss) target)] else []),
         ss\<lparr>prevSpecTarget := target, specInit := True\<rparr>)
      else ([], ss))"

definition deriveGame :: "go_range \<Rightarrow> snap_state \<Rightarrow> event list \<times> snap_state" where
  "deriveGame rng ss =
     (case lastSnap ss of
        None \<Rightarrow> ([], ss)
      | Some snap \<Rightarrow>
          (let ev1 = round_events ss;
               ss = ss\<lparr>prevGameState := gs_GameStateFlags (gameInfo ss), gameStateInit := True\<rparr>;
               ev2 = score_events rng ss;
               ss = ss\<lparr>prevScores := fmmap pl_Score (so_Players (objs ss)),
                       prevTeams := fmmap pl_Team (so_Players (objs ss))\<rparr>;
               ev3 = flag_events ss;
               ss = keep_flags ss;
               (ev4, ss) = (if is07 ss then ([], ss) else deriveRoster06 rng snap ss);
               (ev5, ss) = spectator_events ss
           in (ev1 @ ev2 @ ev3 @ ev4 @ ev5, ss)))"

section \<open>DDNet ext objects\<close>

definition uuidDDNetCharacter :: "(byte list \<Rightarrow> byte list) \<Rightarrow> byte list" where
  "uuidDDNetCharacter md5 = CalculateUUID md5 (bytes_of ''character@netobj.ddnet.tw'')"

definition uuidDDNetPlayer :: "(byte list \<Rightarrow> byte list) \<Rightarrow> byte list" where
  "uuidDDNetPlayer md5 = CalculateUUID md5 (bytes_of ''player@netobj.ddnet.tw'')"

definition uuidSpecChar :: "(byte list \<Rightarrow> byte list) \<Rightarrow> byte list" where
  "uuidSpecChar md5 = CalculateUUID md5 (bytes_of ''spec-char@netobj.ddnet.tw'')"

definition uuidFinish :: "(byte list \<Rightarrow> byte list) \<Rightarrow> byte list" where
  "uuidFinish md5 = CalculateUUID md5 (bytes_of ''finish@netevent.ddnet.org'')"

definition uuidFromFields :: "int list \<Rightarrow> byte list" where
  "uuidFromFields f = concat (map (\<lambda>i. put_be32 (u32 (s32 (f ! i)))) [0, 1, 2, 3])"

definition diffDDChar :: "int \<Rightarrow> int list \<Rightarrow> snap_state \<Rightarrow> ext_event list \<times> snap_state" where
  "diffDDChar cid f ss =
     (if length f < 8 then ([], ss)
      else
        (let cur = \<lparr>dc_flags = f ! 0, dc_freezeEnd = f ! 1, dc_freezeStart = f ! 7, dc_jumps = f ! 2,
                     dc_jumpedTotal = f ! 5\<rparr>;
             ss' = ss\<lparr>prevDDChar := fmupd cid cur (prevDDChar ss)\<rparr>
         in case fmlookup (prevDDChar ss) cid of
              None \<Rightarrow> ([], ss')
            | Some prev \<Rightarrow>
                ((if dc_freezeEnd cur \<noteq> dc_freezeEnd prev \<or> dc_freezeStart cur \<noteq> dc_freezeStart prev
                  then [EventFreeze cid (dc_freezeEnd cur > lastTick ss \<or> dc_freezeEnd cur = - 1)
                          (dc_freezeEnd cur)] else []) @
                 (if dc_flags cur \<noteq> dc_flags prev then [EventPlayerFlags cid (dc_flags cur)] else []) @
                 (if dc_jumps cur \<noteq> dc_jumps prev \<or> dc_jumpedTotal cur \<noteq> dc_jumpedTotal prev
                  then [EventJumpsChange cid (dc_jumps cur) (dc_jumpedTotal cur)] else []), ss')))"

definition diffDDPlayer :: "int \<Rightarrow> int list \<Rightarrow> snap_state \<Rightarrow> ext_event list \<times> snap_state" where
  "diffDDPlayer cid f ss =
     (if length f < 2 then ([], ss)
      else
        (let cur = \<lparr>dp_flags = f ! 0, dp_authLevel = f ! 1\<rparr>;
             ss' = ss\<lparr>prevDDPlayer := fmupd cid cur (prevDDPlayer ss)\<rparr>
         in case fmlookup (prevDDPlayer ss) cid of
              None \<Rightarrow> ([], ss')
            | Some prev \<Rightarrow>
                ((if dp_authLevel cur \<noteq> dp_authLevel prev
                  then [EventPlayerAuth cid (dp_authLevel cur)] else []) @
                 (if dp_flags cur AND exPlayerFlagAfk \<noteq> dp_flags prev AND exPlayerFlagAfk
                  then [EventPlayerAfk cid (has_flag (dp_flags cur) exPlayerFlagAfk)] else []), ss')))"

definition diffSpecChar :: "int \<Rightarrow> int list \<Rightarrow> snap_state \<Rightarrow> ext_event list \<times> snap_state" where
  "diffSpecChar cid f ss =
     (if length f < 2 then ([], ss)
      else
        (let pos = (f ! 0, f ! 1);
             ss' = ss\<lparr>prevSpecChar := fmupd cid pos (prevSpecChar ss)\<rparr>
         in if fmlookup (prevSpecChar ss) cid = Some pos then ([], ss')
            else ([EventSpecChar cid (fst pos) (snd pos)], ss')))"

definition ext_markers :: "snap_item list \<Rightarrow> (int, byte list) fmap" where
  "ext_markers its =
     fold (\<lambda>it m. if TypeID it = 0 \<and> offsetUUIDType \<le> ID it \<and> 4 \<le> length (Fields it)
                   then fmupd (ID it) (uuidFromFields (Fields it)) m else m) its fmempty"

definition ext_item ::
    "(byte list \<Rightarrow> byte list) \<Rightarrow> (int, byte list) fmap \<Rightarrow> snap_item \<Rightarrow>
     event list \<times> snap_state \<Rightarrow> event list \<times> snap_state" where
  "ext_item md5 markers it = (\<lambda>(evs, ss).
     if TypeID it < offsetUUIDType then (evs, ss)
     else case fmlookup markers (TypeID it) of
       None \<Rightarrow> (evs, ss)
     | Some uuid \<Rightarrow>
         if uuid = uuidDDNetCharacter md5 then
           (case diffDDChar (ID it) (Fields it) ss of (es, ss') \<Rightarrow> (evs @ map Ext es, ss'))
         else if uuid = uuidDDNetPlayer md5 then
           (case diffDDPlayer (ID it) (Fields it) ss of (es, ss') \<Rightarrow> (evs @ map Ext es, ss'))
         else if uuid = uuidSpecChar md5 then
           (case diffSpecChar (ID it) (Fields it) ss of (es, ss') \<Rightarrow> (evs @ map Ext es, ss'))
         else if uuid = uuidFinish md5 then (evs @ [World (EventFinish (ID it))], ss)
         else (evs, ss))"

definition deriveExt :: "(byte list \<Rightarrow> byte list) \<Rightarrow> snap_state \<Rightarrow> event list \<times> snap_state" where
  "deriveExt md5 ss =
     (case lastSnap ss of
        None \<Rightarrow> ([], ss)
      | Some snap \<Rightarrow>
          (let markers = ext_markers (Items snap) in
           if markers = fmempty then ([], ss)
           else fold (ext_item md5 markers) (Items snap) ([], ss)))"

section \<open>All events of a snapshot\<close>

definition deriveEvents ::
    "go_range \<Rightarrow> (byte list \<Rightarrow> byte list) \<Rightarrow> snap_state \<Rightarrow> event list \<times> snap_state" where
  "deriveEvents rng md5 ss =
     (let ev1 = character_events rng ss;
          (ev2, ss) = deriveTransient ss;
          (ev3, ss) = deriveGame rng ss;
          (ev4, ss) = deriveExt md5 ss
      in (ev1 @ ev2 @ ev3 @ ev4, ss))"

end
