(* ===== verification/Registry.thy ===== *)
theory Registry
  imports ClientSnap
begin

text \<open>
  client/players.go and the snapshot path of client/client.go: the registry of players, its feed from
  derived events, and what a run of snapshots makes of it.

  The registry is the finite map \<open>c.players\<close>; a nil map is the empty one. \<open>cid\<close> is
  \<open>c.snap.localCID\<close>. The run \<open>observed\<close> starts at \<open>Connect\<close> and has one step per delivered snapshot.
\<close>

section \<open>The registry\<close>

record player_record =
  ps_ClientID :: int
  ps_Name :: "byte list"
  ps_Clan :: "byte list"
  ps_Country :: int
  ps_Skin :: "byte list"
  ps_Team :: int
  ps_Score :: int
  ps_Local :: bool
  ps_Present :: bool

type_synonym registry = "(int, player_record) fmap"

definition zero_player :: player_record where
  "zero_player = \<lparr>ps_ClientID = 0, ps_Name = [], ps_Clan = [], ps_Country = 0, ps_Skin = [],
     ps_Team = 0, ps_Score = 0, ps_Local = False, ps_Present = False\<rparr>"

definition upsertPlayer ::
    "int \<Rightarrow> int \<Rightarrow> byte list \<Rightarrow> byte list \<Rightarrow> int \<Rightarrow> byte list \<Rightarrow> int \<Rightarrow> registry \<Rightarrow> registry" where
  "upsertPlayer cid i nm clan country skin tm reg =
     (let p = (case fmlookup reg i of None \<Rightarrow> zero_player | Some p \<Rightarrow> p) in
      fmupd i (p\<lparr>ps_ClientID := i, ps_Name := nm, ps_Clan := clan, ps_Country := country, ps_Skin := skin,
                 ps_Team := tm, ps_Local := i = cid, ps_Present := True\<rparr>) reg)"

definition removePlayer :: "int \<Rightarrow> registry \<Rightarrow> registry" where
  "removePlayer i reg = fmdrop i reg"

text \<open>The record a score or team change works on.\<close>

definition known_or_minimal :: "int \<Rightarrow> int \<Rightarrow> registry \<Rightarrow> player_record" where
  "known_or_minimal cid i reg =
     (case fmlookup reg i of
        None \<Rightarrow> zero_player\<lparr>ps_ClientID := i, ps_Present := True, ps_Local := i = cid\<rparr>
      | Some p \<Rightarrow> p)"

definition setPlayerScore :: "int \<Rightarrow> int \<Rightarrow> int \<Rightarrow> registry \<Rightarrow> registry" where
  "setPlayerScore cid i score reg = fmupd i ((known_or_minimal cid i reg)\<lparr>ps_Score := score\<rparr>) reg"

definition setPlayerTeam :: "int \<Rightarrow> int \<Rightarrow> int \<Rightarrow> registry \<Rightarrow> registry" where
  "setPlayerTeam cid i tm reg = fmupd i ((known_or_minimal cid i reg)\<lparr>ps_Team := tm\<rparr>) reg"

definition setPlayerSkin :: "int \<Rightarrow> byte list \<Rightarrow> registry \<Rightarrow> registry" where
  "setPlayerSkin i skin reg =
     (case fmlookup reg i of None \<Rightarrow> reg | Some p \<Rightarrow> fmupd i (p\<lparr>ps_Skin := skin\<rparr>) reg)"

fun applyToRegistry :: "int \<Rightarrow> event \<Rightarrow> registry \<Rightarrow> registry" where
  "applyToRegistry cid (Roster (EventPlayerJoin i nm clan country skin tm)) =
     upsertPlayer cid i nm clan country skin tm"
| "applyToRegistry cid (Roster (EventPlayerLeave i _)) = removePlayer i"
| "applyToRegistry cid (Game (EventScoreChange i score)) = setPlayerScore cid i score"
| "applyToRegistry cid (Roster (EventTeamSet i tm _)) = setPlayerTeam cid i tm"
| "applyToRegistry cid (Roster (EventSkinChange i skin)) = setPlayerSkin i skin"
| "applyToRegistry cid _ = (\<lambda>reg. reg)"

definition PlayerOf :: "int \<Rightarrow> registry \<Rightarrow> player_record option" where
  "PlayerOf i reg = fmlookup reg i"

record player_view =
  pv_State :: player_record
  pv_Character :: character
  pv_HasCharacter :: bool

definition Players :: "go_range \<Rightarrow> chars \<Rightarrow> registry \<Rightarrow> player_view list" where
  "Players rng chs reg =
     for_keys rng 7 reg (\<lambda>i p.
       case fmlookup chs i of
         None \<Rightarrow> [\<lparr>pv_State = p, pv_Character = zero_character, pv_HasCharacter = False\<rparr>]
       | Some c \<Rightarrow> [\<lparr>pv_State = p, pv_Character = c, pv_HasCharacter = True\<rparr>])"

definition RosterOf :: "go_range \<Rightarrow> registry \<Rightarrow> player_record list" where
  "RosterOf rng reg = for_keys rng 8 reg (\<lambda>_ p. [p])"

definition clearPlayers :: registry where
  "clearPlayers = fmempty"

section \<open>The client\<close>

text \<open>The snapshot state of a new connection (client/client.go, Connect).\<close>

definition connect_snap :: "int \<Rightarrow> bool \<Rightarrow> int \<Rightarrow> snap_state" where
  "connect_snap now seven threshold =
     zero_snap_state\<lparr>lastSnapTime := now, localCID := - 1,
       decode_fn := Some (if seven then DecodeSnap7 else DecodeSnap6), is07 := seven,
       moveEventThreshold := threshold\<rparr>"

text \<open>
  A delivered snapshot (client/client.go, handleEvent): \<open>lid\<close> is what the session answers to
  \<open>LocalID\<close>. The result is the derived events, the new state and the new registry.
\<close>

definition learn_local :: "int \<Rightarrow> snap_state \<Rightarrow> snap_state" where
  "learn_local lid ss = (if 0 \<le> lid then ss\<lparr>localCID := lid\<rparr> else ss)"

definition handle_snapshot ::
    "go_range \<Rightarrow> (byte list \<Rightarrow> byte list) \<Rightarrow> int \<Rightarrow> int \<Rightarrow> snapshot \<Rightarrow> snap_state \<times> registry \<Rightarrow>
     event list \<times> snap_state \<times> registry" where
  "handle_snapshot rng md5 now lid snap = (\<lambda>(ss, reg).
     let (evs, ss) = deriveEvents rng md5 (processSnapshot rng now snap (learn_local lid ss)) in
     (evs, ss, fold (applyToRegistry (localCID ss)) evs reg))"

section \<open>Ranging\<close>

lemma visits_allD:
  assumes "visits_all rng"
  shows "set (rng n S) = fset S" "distinct (rng n S)"
  using assms by (simp_all add: visits_all_def)

lemma in_for_keys:
  assumes "visits_all rng"
  shows "x \<in> set (for_keys rng n m body) \<longleftrightarrow> (\<exists>k v. fmlookup m k = Some v \<and> x \<in> set (body k v))"
proof -
  have "x \<in> set (for_keys rng n m body) \<longleftrightarrow>
      (\<exists>k\<in>fset (fmdom m). x \<in> set (case fmlookup m k of None \<Rightarrow> [] | Some v \<Rightarrow> body k v))"
    using assms by (simp add: for_keys_def visits_allD)
  also have "\<dots> \<longleftrightarrow> (\<exists>k v. fmlookup m k = Some v \<and> x \<in> set (body k v))" (is "?l \<longleftrightarrow> ?r")
  proof
    assume ?r
    then obtain k v where "fmlookup m k = Some v" "x \<in> set (body k v)" by blast
    then show ?l by (intro bexI [of _ k]) (simp_all add: fmdomI)
  next
    assume ?l
    then obtain k where "x \<in> set (case fmlookup m k of None \<Rightarrow> [] | Some v \<Rightarrow> body k v)" by blast
    then show ?r by (cases "fmlookup m k") auto
  qed
  finally show ?thesis .
qed

lemma for_keys_nil: "(\<And>k v. fmlookup m k = Some v \<Longrightarrow> body k v = []) \<Longrightarrow> for_keys rng n m body = []"
  by (auto simp: for_keys_def split: option.splits)

text \<open>Which sight events a list of events holds, and what a consumer that follows them sees.\<close>

fun see :: "event \<Rightarrow> int fset \<Rightarrow> int fset" where
  "see (Motion (EventPlayerEnterSight i _ _)) S = finsert i S"
| "see (Motion (EventPlayerLeaveSight i)) S = S |-| {|i|}"
| "see _ S = S"

fun sight :: "event \<Rightarrow> bool" where
  "sight (Motion (EventPlayerEnterSight _ _ _)) = True"
| "sight (Motion (EventPlayerLeaveSight _)) = True"
| "sight _ = False"

text \<open>The events that touch the registry.\<close>

fun registry_event :: "event \<Rightarrow> bool" where
  "registry_event (Roster (EventPlayerJoin _ _ _ _ _ _)) = True"
| "registry_event (Roster (EventPlayerLeave _ _)) = True"
| "registry_event (Game (EventScoreChange _ _)) = True"
| "registry_event (Roster (EventTeamSet _ _ _)) = True"
| "registry_event (Roster (EventSkinChange _ _)) = True"
| "registry_event _ = False"

lemma not_sight: "\<not> sight e \<Longrightarrow> see e S = S"
  by (cases "(e, S)" rule: see.cases) auto

lemma not_registry_event: "\<not> registry_event e \<Longrightarrow> applyToRegistry cid e reg = reg"
  by (cases "(cid, e)" rule: applyToRegistry.cases) auto

lemma fold_see_silent: "filter sight evs = [] \<Longrightarrow> fold see evs S = S"
  by (induction evs arbitrary: S) (auto simp: not_sight split: if_splits)

lemma fold_registry_filter:
  "fold (applyToRegistry cid) evs reg = fold (applyToRegistry cid) (filter registry_event evs) reg"
  by (induction evs arbitrary: reg) (auto simp: not_registry_event)

section \<open>Kinds of derived events\<close>

fun outer :: "event \<Rightarrow> bool" where
  "outer (World _) = True"
| "outer (Ext _) = True"
| "outer _ = False"

fun from_motion :: "event \<Rightarrow> bool" where
  "from_motion (Motion _) = True"
| "from_motion _ = False"

lemma outer_quiet: "outer e \<Longrightarrow> \<not> sight e" "outer e \<Longrightarrow> \<not> registry_event e"
  by (cases e; simp)+

lemma from_motion_quiet: "from_motion e \<Longrightarrow> \<not> registry_event e"
  by (cases e) simp_all

lemma filter_none: "list_all (\<lambda>x. \<not> P x) xs \<Longrightarrow> filter P xs = []"
  by (simp add: list_all_iff)

lemma list_all_mono_quiet:
  "list_all outer evs \<Longrightarrow> list_all (\<lambda>e. \<not> sight e) evs"
  "list_all outer evs \<Longrightarrow> list_all (\<lambda>e. \<not> registry_event e) evs"
  "list_all from_motion evs \<Longrightarrow> list_all (\<lambda>e. \<not> registry_event e) evs"
  by (auto simp: list_all_iff outer_quiet from_motion_quiet)

lemma for_keys_all:
  "(\<And>k v. fmlookup m k = Some v \<Longrightarrow> list_all P (body k v)) \<Longrightarrow> list_all P (for_keys rng n m body)"
proof -
  assume *: "\<And>k v. fmlookup m k = Some v \<Longrightarrow> list_all P (body k v)"
  have "list_all P (case fmlookup m k of None \<Rightarrow> [] | Some v \<Rightarrow> body k v)" for k
    using * by (cases "fmlookup m k") simp_all
  then show ?thesis by (auto simp: for_keys_def list_all_iff)
qed

lemma motion_of_quiet: "list_all (\<lambda>m. \<not> sight (Motion m)) (motion_of th cid i c p)"
  by (simp add: motion_of_def Let_def)

lemma motion_events_quiet: "list_all (\<lambda>e. \<not> sight e) (motion_events rng ss)"
  unfolding motion_events_def
  using motion_of_quiet by (intro for_keys_all) (auto simp: list_all_iff split: option.splits)

lemma hooked_events_quiet: "list_all (\<lambda>e. \<not> sight e) (hooked_events rng cid cur prev)"
  unfolding hooked_events_def by (intro for_keys_all) (auto split: option.splits)

lemma weapon_events_quiet: "list_all (\<lambda>e. \<not> sight e) (weapon_events cid cur prev)"
  by (simp add: weapon_events_def split: option.splits)

lemma character_events_motion: "list_all from_motion (character_events rng ss)"
  unfolding character_events_def enter_events_def leave_events_def hooked_events_def motion_events_def
  by (simp add: weapon_events_def split: option.splits)
    (intro conjI allI impI for_keys_all; auto simp: list_all_iff split: option.splits)

lemma enter_events_sight: "list_all sight (enter_events rng cur prev)"
  unfolding enter_events_def by (intro for_keys_all) simp

lemma leave_events_sight: "list_all sight (leave_events rng cur prev)"
  unfolding leave_events_def by (intro for_keys_all) simp

lemma filter_all: "list_all P xs \<Longrightarrow> filter P xs = xs"
  by (simp add: list_all_iff)

lemma character_events_sight:
  "filter sight (character_events rng ss) =
     enter_events rng (characters ss) (prevCharacters ss) @
     leave_events rng (characters ss) (prevCharacters ss)"
  by (simp add: character_events_def filter_none motion_events_quiet hooked_events_quiet
      weapon_events_quiet filter_all enter_events_sight leave_events_sight)

lemma deriveTransient_outer:
  "list_all outer (so_Events (objs ss)) \<Longrightarrow> list_all outer (fst (deriveTransient ss))"
  by (auto simp: deriveTransient_def Let_def list_all_iff fired_def laser_fired_def split: option.splits)

lemma score_events_quiet: "list_all (\<lambda>e. \<not> sight e) (score_events rng ss)"
  unfolding score_events_def by (intro for_keys_all) (auto split: option.splits)

lemma roster_event_of_quiet: "list_all (\<lambda>e. \<not> sight e) (roster_event_of ss it)"
  by (auto simp: roster_event_of_def Let_def split: option.splits)

lemma deriveRoster06_quiet: "list_all (\<lambda>e. \<not> sight e) (fst (deriveRoster06 rng snap ss))"
  using roster_event_of_quiet
  by (auto simp: deriveRoster06_def Let_def list_all_iff split: prod.splits)

text \<open>What \<open>deriveGame\<close> emits does not depend on what it has stored by then.\<close>

lemma game_updates [simp]:
  "score_events rng (ss\<lparr>prevGameState := a, gameStateInit := b\<rparr>) = score_events rng ss"
  "flag_events (ss\<lparr>prevGameState := a, gameStateInit := b, prevScores := c, prevTeams := d\<rparr>) = flag_events ss"
  by (simp_all add: score_events_def flag_events_def Let_def)

definition game_stored :: "snap_state \<Rightarrow> snap_state" where
  "game_stored ss = keep_flags (ss\<lparr>prevGameState := gs_GameStateFlags (gameInfo ss), gameStateInit := True,
     prevScores := fmmap pl_Score (so_Players (objs ss)), prevTeams := fmmap pl_Team (so_Players (objs ss))\<rparr>)"

lemma game_stored_keeps [simp]:
  "prevClientIDs (game_stored ss) = prevClientIDs ss" "prevSkins (game_stored ss) = prevSkins ss"
  "rosterInit (game_stored ss) = rosterInit ss" "is07 (game_stored ss) = is07 ss"
  "objs (game_stored ss) = objs ss" "specInit (game_stored ss) = specInit ss"
  "prevSpecTarget (game_stored ss) = prevSpecTarget ss" "localCID (game_stored ss) = localCID ss"
  "characters (game_stored ss) = characters ss" "prevCharacters (game_stored ss) = prevCharacters ss"
  "decode_fn (game_stored ss) = decode_fn ss" "lastSnap (game_stored ss) = lastSnap ss"
  "prevScores (game_stored ss) = fmmap pl_Score (so_Players (objs ss))"
  "prevTeams (game_stored ss) = fmmap pl_Team (so_Players (objs ss))"
  by (simp_all add: game_stored_def keep_flags_def)

lemma roster_event_of_stored [simp]: "roster_event_of (game_stored ss) = roster_event_of ss"
  by (simp add: roster_event_of_def fun_eq_iff Let_def)

definition roster_events :: "go_range \<Rightarrow> snapshot \<Rightarrow> snap_state \<Rightarrow> event list" where
  "roster_events rng snap ss = (if is07 ss then [] else fst (deriveRoster06 rng snap ss))"

lemma deriveGame_events:
  assumes "lastSnap ss = Some snap"
  shows "fst (deriveGame rng ss) =
    round_events ss @ score_events rng ss @ flag_events ss @ roster_events rng snap ss @
    fst (spectator_events ss)"
proof -
  have "fst (spectator_events (snd (deriveRoster06 rng snap (game_stored ss)))) = fst (spectator_events ss)"
    by (auto simp: spectator_events_def deriveRoster06_def Let_def split: prod.split)
  moreover have "fst (spectator_events (game_stored ss)) = fst (spectator_events ss)"
    by (simp add: spectator_events_def Let_def)
  moreover have "fst (deriveRoster06 rng snap (game_stored ss)) = fst (deriveRoster06 rng snap ss)"
    by (simp add: deriveRoster06_def Let_def split: prod.split)
  ultimately show ?thesis
    using assms
    by (simp add: deriveGame_def Let_def roster_events_def case_prod_beta flip: game_stored_def)
qed

lemma deriveGame_state:
  assumes "lastSnap ss = Some snap"
  shows "snd (deriveGame rng ss) =
    snd (spectator_events
      (if is07 ss then game_stored ss else snd (deriveRoster06 rng snap (game_stored ss))))"
  using assms
  by (simp add: deriveGame_def Let_def case_prod_beta flip: game_stored_def)

lemma deriveGame_quiet:
  assumes "lastSnap ss = Some snap"
  shows "list_all (\<lambda>e. \<not> sight e) (fst (deriveGame rng ss))"
  by (simp add: deriveGame_events [OF assms] score_events_quiet round_events_def flag_events_def Let_def
      roster_events_def deriveRoster06_quiet spectator_events_def)

section \<open>The state a snapshot leaves\<close>

lemma deriveTransient_keeps [simp]:
  "characters (snd (deriveTransient ss)) = characters ss"
  "prevCharacters (snd (deriveTransient ss)) = prevCharacters ss"
  "prevClientIDs (snd (deriveTransient ss)) = prevClientIDs ss"
  "prevSkins (snd (deriveTransient ss)) = prevSkins ss"
  "prevScores (snd (deriveTransient ss)) = prevScores ss"
  "prevTeams (snd (deriveTransient ss)) = prevTeams ss"
  "rosterInit (snd (deriveTransient ss)) = rosterInit ss"
  "localCID (snd (deriveTransient ss)) = localCID ss"
  "decode_fn (snd (deriveTransient ss)) = decode_fn ss"
  "is07 (snd (deriveTransient ss)) = is07 ss"
  "objs (snd (deriveTransient ss)) = objs ss"
  "lastSnap (snd (deriveTransient ss)) = lastSnap ss"
  by (simp_all add: deriveTransient_def Let_def split: option.splits)

lemma spectator_keeps [simp]:
  "characters (snd (spectator_events ss)) = characters ss"
  "prevClientIDs (snd (spectator_events ss)) = prevClientIDs ss"
  "prevSkins (snd (spectator_events ss)) = prevSkins ss"
  "prevScores (snd (spectator_events ss)) = prevScores ss"
  "prevTeams (snd (spectator_events ss)) = prevTeams ss"
  "rosterInit (snd (spectator_events ss)) = rosterInit ss"
  "localCID (snd (spectator_events ss)) = localCID ss"
  "decode_fn (snd (spectator_events ss)) = decode_fn ss"
  "is07 (snd (spectator_events ss)) = is07 ss"
  "lastSnap (snd (spectator_events ss)) = lastSnap ss"
  by (simp_all add: spectator_events_def Let_def)

lemma roster06_keeps [simp]:
  "characters (snd (deriveRoster06 rng snap ss)) = characters ss"
  "prevClientIDs (snd (deriveRoster06 rng snap ss)) = fst (roster_of (client_items snap))"
  "prevSkins (snd (deriveRoster06 rng snap ss)) = snd (roster_of (client_items snap))"
  "prevScores (snd (deriveRoster06 rng snap ss)) = prevScores ss"
  "prevTeams (snd (deriveRoster06 rng snap ss)) = prevTeams ss"
  "rosterInit (snd (deriveRoster06 rng snap ss))"
  "localCID (snd (deriveRoster06 rng snap ss)) = localCID ss"
  "decode_fn (snd (deriveRoster06 rng snap ss)) = decode_fn ss"
  "is07 (snd (deriveRoster06 rng snap ss)) = is07 ss"
  by (simp_all add: deriveRoster06_def Let_def case_prod_beta)

text \<open>The ext objects only touch their own tables.\<close>

definition ext_tables :: "snap_state \<Rightarrow> snap_state \<Rightarrow> bool" where
  "ext_tables ss ss' \<longleftrightarrow> (\<exists>a b c. ss' = ss\<lparr>prevDDChar := a, prevDDPlayer := b, prevSpecChar := c\<rparr>)"

lemma ext_tables_refl [simp]: "ext_tables ss ss"
  unfolding ext_tables_def
  by (rule exI [of _ "prevDDChar ss"], rule exI [of _ "prevDDPlayer ss"], rule exI [of _ "prevSpecChar ss"]) simp

lemma ext_tables_trans: "ext_tables s t \<Longrightarrow> ext_tables t u \<Longrightarrow> ext_tables s u"
  unfolding ext_tables_def by (elim exE) (simp, blast)

lemma ext_tables_updates:
  "ext_tables ss (ss\<lparr>prevDDChar := a\<rparr>)" "ext_tables ss (ss\<lparr>prevDDPlayer := b\<rparr>)"
  "ext_tables ss (ss\<lparr>prevSpecChar := c\<rparr>)"
proof -
  have 1: "ss\<lparr>prevDDChar := a\<rparr> = ss\<lparr>prevDDChar := a, prevDDPlayer := prevDDPlayer ss, prevSpecChar := prevSpecChar ss\<rparr>"
    by simp
  have 2: "ss\<lparr>prevDDPlayer := b\<rparr> = ss\<lparr>prevDDChar := prevDDChar ss, prevDDPlayer := b, prevSpecChar := prevSpecChar ss\<rparr>"
    by simp
  have 3: "ss\<lparr>prevSpecChar := c\<rparr> = ss\<lparr>prevDDChar := prevDDChar ss, prevDDPlayer := prevDDPlayer ss, prevSpecChar := c\<rparr>"
    by simp
  show "ext_tables ss (ss\<lparr>prevDDChar := a\<rparr>)" "ext_tables ss (ss\<lparr>prevDDPlayer := b\<rparr>)"
    "ext_tables ss (ss\<lparr>prevSpecChar := c\<rparr>)"
    unfolding ext_tables_def using 1 2 3 by blast+
qed

lemma diff_ext_tables:
  "ext_tables ss (snd (diffDDChar cid f ss))" "ext_tables ss (snd (diffDDPlayer cid f ss))"
  "ext_tables ss (snd (diffSpecChar cid f ss))"
  by (simp_all add: diffDDChar_def diffDDPlayer_def diffSpecChar_def Let_def ext_tables_updates
      split: option.split)

lemma ext_item_step:
  "ext_tables (snd p) (snd (ext_item md5 markers it p))"
  "list_all outer (fst p) \<Longrightarrow> list_all outer (fst (ext_item md5 markers it p))"
  by (cases p; auto simp: ext_item_def list_all_iff case_prod_beta diff_ext_tables split: option.split)+

lemma ext_items:
  "ext_tables (snd p) (snd (fold (ext_item md5 markers) its p))"
  "list_all outer (fst p) \<Longrightarrow> list_all outer (fst (fold (ext_item md5 markers) its p))"
proof (induction its arbitrary: p)
  case (Cons it its)
  {
    case 1
    show ?case using ext_tables_trans [OF ext_item_step(1) Cons.IH(1)] by simp
  next
    case 2
    from ext_item_step(2) [OF this] show ?case using Cons.IH(2) by simp
  }
qed simp_all

lemma deriveExt_tables: "ext_tables ss (snd (deriveExt md5 ss))"
  using ext_items(1) [of "([], ss)"] by (simp add: deriveExt_def Let_def split: option.split)

lemma deriveExt_outer: "list_all outer (fst (deriveExt md5 ss))"
  using ext_items(2) [of "([], ss)"] by (simp add: deriveExt_def Let_def split: option.split)

lemma deriveExt_keeps [simp]:
  "characters (snd (deriveExt md5 ss)) = characters ss"
  "prevClientIDs (snd (deriveExt md5 ss)) = prevClientIDs ss"
  "prevSkins (snd (deriveExt md5 ss)) = prevSkins ss"
  "prevScores (snd (deriveExt md5 ss)) = prevScores ss"
  "prevTeams (snd (deriveExt md5 ss)) = prevTeams ss"
  "rosterInit (snd (deriveExt md5 ss)) = rosterInit ss"
  "localCID (snd (deriveExt md5 ss)) = localCID ss"
  "decode_fn (snd (deriveExt md5 ss)) = decode_fn ss"
  "is07 (snd (deriveExt md5 ss)) = is07 ss"
  using deriveExt_tables [of ss md5] by (auto simp: ext_tables_def)

lemma updateRaceTime_keeps [simp]:
  "characters (updateRaceTime now tk ss) = characters ss"
  "prevClientIDs (updateRaceTime now tk ss) = prevClientIDs ss"
  "prevSkins (updateRaceTime now tk ss) = prevSkins ss"
  "prevScores (updateRaceTime now tk ss) = prevScores ss"
  "prevTeams (updateRaceTime now tk ss) = prevTeams ss"
  "rosterInit (updateRaceTime now tk ss) = rosterInit ss"
  "localCID (updateRaceTime now tk ss) = localCID ss"
  "decode_fn (updateRaceTime now tk ss) = decode_fn ss"
  "is07 (updateRaceTime now tk ss) = is07 ss"
  "objs (updateRaceTime now tk ss) = objs ss"
  "lastSnap (updateRaceTime now tk ss) = lastSnap ss"
  by (simp_all add: updateRaceTime_def Let_def)

lemma take_game_info_keeps [simp]:
  "characters (take_game_info now snap ss) = characters ss"
  "prevClientIDs (take_game_info now snap ss) = prevClientIDs ss"
  "prevSkins (take_game_info now snap ss) = prevSkins ss"
  "prevScores (take_game_info now snap ss) = prevScores ss"
  "prevTeams (take_game_info now snap ss) = prevTeams ss"
  "rosterInit (take_game_info now snap ss) = rosterInit ss"
  "localCID (take_game_info now snap ss) = localCID ss"
  "decode_fn (take_game_info now snap ss) = decode_fn ss"
  "is07 (take_game_info now snap ss) = is07 ss"
  "objs (take_game_info now snap ss) = objs ss"
  "lastSnap (take_game_info now snap ss) = lastSnap ss"
  by (simp_all add: take_game_info_def)

lemma set_own_keeps [simp]:
  "characters (set_own ss) = characters ss"
  "prevClientIDs (set_own ss) = prevClientIDs ss"
  "prevSkins (set_own ss) = prevSkins ss"
  "prevScores (set_own ss) = prevScores ss"
  "prevTeams (set_own ss) = prevTeams ss"
  "rosterInit (set_own ss) = rosterInit ss"
  "localCID (set_own ss) = localCID ss"
  "decode_fn (set_own ss) = decode_fn ss"
  "is07 (set_own ss) = is07 ss"
  "objs (set_own ss) = objs ss"
  "lastSnap (set_own ss) = lastSnap ss"
  "prevCharacters (set_own ss) = prevCharacters ss"
  by (simp_all add: set_own_def split: option.split)

definition decoded :: "snap_state \<Rightarrow> snapshot \<Rightarrow> snap_objects" where
  "decoded ss snap = (case decode_fn ss of None \<Rightarrow> DecodeSnap6 | Some d \<Rightarrow> d) snap"

lemma processSnapshot_keeps [simp]:
  "characters (processSnapshot rng now snap ss) = new_characters (is07 ss) (decoded ss snap)"
  "prevCharacters (processSnapshot rng now snap ss) = characters ss"
  "prevClientIDs (processSnapshot rng now snap ss) = prevClientIDs ss"
  "prevSkins (processSnapshot rng now snap ss) = prevSkins ss"
  "prevScores (processSnapshot rng now snap ss) = prevScores ss"
  "prevTeams (processSnapshot rng now snap ss) = prevTeams ss"
  "rosterInit (processSnapshot rng now snap ss) = rosterInit ss"
  "decode_fn (processSnapshot rng now snap ss) = decode_fn ss"
  "is07 (processSnapshot rng now snap ss) = is07 ss"
  "objs (processSnapshot rng now snap ss) = decoded ss snap"
  "lastSnap (processSnapshot rng now snap ss) = Some snap"
  by (simp_all add: processSnapshot_def updateFromSnap_def Let_def decoded_def)

lemma learn_local_keeps [simp]:
  "characters (learn_local lid ss) = characters ss"
  "prevClientIDs (learn_local lid ss) = prevClientIDs ss"
  "prevSkins (learn_local lid ss) = prevSkins ss"
  "prevScores (learn_local lid ss) = prevScores ss"
  "prevTeams (learn_local lid ss) = prevTeams ss"
  "rosterInit (learn_local lid ss) = rosterInit ss"
  "decode_fn (learn_local lid ss) = decode_fn ss"
  "is07 (learn_local lid ss) = is07 ss"
  "decoded (learn_local lid ss) = decoded ss"
  by (simp_all add: learn_local_def decoded_def fun_eq_iff)

section \<open>Sight\<close>

lemma deriveEvents_events:
  "fst (deriveEvents rng md5 ss) =
     character_events rng ss @ fst (deriveTransient ss) @
     fst (deriveGame rng (snd (deriveTransient ss))) @
     fst (deriveExt md5 (snd (deriveGame rng (snd (deriveTransient ss)))))"
  "snd (deriveEvents rng md5 ss) = snd (deriveExt md5 (snd (deriveGame rng (snd (deriveTransient ss)))))"
  by (simp_all add: deriveEvents_def Let_def case_prod_beta)

text \<open>Both decoders only emit events of world objects.\<close>

definition outer_only :: "snap_objects \<Rightarrow> bool" where
  "outer_only out \<longleftrightarrow> list_all outer (so_Events out)"

lemma outer_only_if [simp]: "outer_only (if b then x else y) = (if b then outer_only x else outer_only y)"
  by simp

lemma outer_only_updates [simp]:
  "outer_only (out\<lparr>so_Characters := a\<rparr>) = outer_only out" "outer_only (out\<lparr>so_Players := b\<rparr>) = outer_only out"
  "outer_only (out\<lparr>so_Projectiles := c\<rparr>) = outer_only out" "outer_only (out\<lparr>so_Lasers := d\<rparr>) = outer_only out"
  "outer_only (out\<lparr>so_Pickups := e\<rparr>) = outer_only out" "outer_only (out\<lparr>so_Flags := f\<rparr>) = outer_only out"
  "outer_only (out\<lparr>so_GameInfo := g, so_HasGameInfo := h\<rparr>) = outer_only out"
  "outer_only (out\<lparr>so_GameData := i\<rparr>) = outer_only out"
  "outer_only (out\<lparr>so_GameData := i, so_HasGameData := h\<rparr>) = outer_only out"
  "outer_only (out\<lparr>so_Spectator := j, so_HasSpectator := h\<rparr>) = outer_only out"
  "outer_only (add_event (World w) out) = outer_only out"
  by (simp_all add: outer_only_def add_event_def)

lemma decode_item_outer:
  "outer_only (decode_item6 it out) = outer_only out"
  "outer_only (decode_item7 it out) = outer_only out"
  unfolding decode_item6_def decode_event6_def decode_item7_def decode_event7_def Let_def
  by (simp_all cong: if_cong split del: if_split)

lemma DecodeSnap_outer:
  "list_all outer (so_Events (DecodeSnap6 snap))" "list_all outer (so_Events (DecodeSnap7 snap))"
proof -
  have "outer_only (fold decode_item6 its out) = outer_only out"
    "outer_only (fold decode_item7 its out) = outer_only out" for its out
    by (induction its arbitrary: out) (simp_all add: decode_item_outer)
  then show "list_all outer (so_Events (DecodeSnap6 snap))" "list_all outer (so_Events (DecodeSnap7 snap))"
    unfolding outer_only_def by (simp_all add: DecodeSnap6_def DecodeSnap7_def empty_objects_def)
qed

definition decoder_of :: "bool \<Rightarrow> (snapshot \<Rightarrow> snap_objects) option" where
  "decoder_of seven = Some (if seven then DecodeSnap7 else DecodeSnap6)"

lemma decoded_outer:
  "decode_fn ss = decoder_of seven \<Longrightarrow> list_all outer (so_Events (decoded ss snap))"
  by (simp add: decoded_def decoder_of_def DecodeSnap_outer)

lemma processed_sight:
  assumes "decode_fn ss = decoder_of seven"
  shows "filter sight (fst (deriveEvents rng md5 (processSnapshot rng now snap ss))) =
    enter_events rng (new_characters (is07 ss) (decoded ss snap)) (characters ss) @
    leave_events rng (new_characters (is07 ss) (decoded ss snap)) (characters ss)"
proof -
  let ?ss = "processSnapshot rng now snap ss"
  have "list_all outer (fst (deriveTransient ?ss))"
    using decoded_outer [OF assms] by (intro deriveTransient_outer) simp
  then show ?thesis
    by (simp add: deriveEvents_events character_events_sight filter_none deriveGame_quiet
        list_all_mono_quiet deriveExt_outer)
qed

lemma fold_see_filter: "fold see evs S = fold see (filter sight evs) S"
  by (induction evs arbitrary: S) (auto simp: not_sight)

lemma fmlookup_None: "fmlookup m k = None \<longleftrightarrow> k |\<notin>| fmdom m"
  by (auto intro: fmdom_notI dest: fmdom_notD)

text \<open>What the visit of one key does to the visible set.\<close>

lemma see_enter_key:
  "fold see (case fmlookup cur k of None \<Rightarrow> [] | Some c \<Rightarrow>
     if fmlookup prev k = None then [Motion (EventPlayerEnterSight k (ch_X c) (ch_Y c))] else []) S =
   (if k |\<in>| fmdom cur |-| fmdom prev then finsert k S else S)"
  by (cases "fmlookup cur k"; cases "fmlookup prev k") (simp_all add: fmdom_notI fmdomI)

lemma see_leave_key:
  "fold see (case fmlookup prev k of None \<Rightarrow> [] | Some c \<Rightarrow>
     if fmlookup cur k = None then [Motion (EventPlayerLeaveSight k)] else []) S =
   (if k |\<in>| fmdom prev |-| fmdom cur then S |-| {|k|} else S)"
  by (cases "fmlookup cur k"; cases "fmlookup prev k") (simp_all add: fmdom_notI fmdomI)

lemma fold_inserts: "fold (\<lambda>k S. if k |\<in>| A then finsert k S else S) ks S = S |\<union>| (A |\<inter>| fset_of_list ks)"
  by (induction ks arbitrary: S) auto

lemma fold_removes: "fold (\<lambda>k S. if k |\<in>| A then S |-| {|k|} else S) ks S = S |-| (A |\<inter>| fset_of_list ks)"
  by (induction ks arbitrary: S) auto

lemma fold_concat_map: "fold f (concat (map g ks)) S = fold (\<lambda>k. fold f (g k)) ks S"
  by (induction ks arbitrary: S) simp_all

lemma fset_of_visits: "visits_all rng \<Longrightarrow> fset_of_list (rng n A) = A"
  by (auto simp: fset_of_list_elem visits_allD)

lemma see_enters:
  assumes "visits_all rng"
  shows "fold see (enter_events rng cur prev) S = S |\<union>| (fmdom cur |-| fmdom prev)"
  unfolding enter_events_def for_keys_def fold_concat_map see_enter_key fold_inserts fset_of_visits [OF assms]
  by auto

lemma see_leaves:
  assumes "visits_all rng"
  shows "fold see (leave_events rng cur prev) S = S |-| (fmdom prev |-| fmdom cur)"
  unfolding leave_events_def for_keys_def fold_concat_map see_leave_key fold_removes fset_of_visits [OF assms]
  by auto

lemma see_processed:
  assumes "decode_fn ss = decoder_of seven" "visits_all rng"
  shows "fold see (fst (deriveEvents rng md5 (processSnapshot rng now snap ss))) (fmdom (characters ss)) =
    fmdom (new_characters (is07 ss) (decoded ss snap))"
  using assms
  by (subst fold_see_filter) (auto simp: processed_sight see_enters see_leaves)

lemma deriveEvents_keeps:
  assumes "lastSnap ss = Some snap"
  shows "characters (snd (deriveEvents rng md5 ss)) = characters ss"
    "localCID (snd (deriveEvents rng md5 ss)) = localCID ss"
    "decode_fn (snd (deriveEvents rng md5 ss)) = decode_fn ss"
    "is07 (snd (deriveEvents rng md5 ss)) = is07 ss"
    "prevClientIDs (snd (deriveEvents rng md5 ss)) =
       (if is07 ss then prevClientIDs ss else fst (roster_of (client_items snap)))"
    "prevSkins (snd (deriveEvents rng md5 ss)) =
       (if is07 ss then prevSkins ss else snd (roster_of (client_items snap)))"
    "prevScores (snd (deriveEvents rng md5 ss)) = fmmap pl_Score (so_Players (objs ss))"
    "prevTeams (snd (deriveEvents rng md5 ss)) = fmmap pl_Team (so_Players (objs ss))"
    "rosterInit (snd (deriveEvents rng md5 ss)) \<longleftrightarrow> (if is07 ss then rosterInit ss else True)"
  using assms by (simp_all add: deriveEvents_events deriveGame_state)

section \<open>Runs\<close>

text \<open>
  \<open>observed md5 seven ok evs ss reg\<close>: since \<open>Connect\<close> the client has been delivered snapshots, each of
  them \<open>ok\<close>, has derived the events \<open>evs\<close> from them and is now in state \<open>ss\<close> with registry \<open>reg\<close>.
\<close>

inductive observed ::
    "(byte list \<Rightarrow> byte list) \<Rightarrow> bool \<Rightarrow> (snapshot \<Rightarrow> bool) \<Rightarrow> event list \<Rightarrow> snap_state \<Rightarrow> registry \<Rightarrow> bool"
  for md5 seven ok where
  connect: "observed md5 seven ok [] (connect_snap now seven threshold) clearPlayers"
| snapshot: "observed md5 seven ok evs ss reg \<Longrightarrow> visits_all rng \<Longrightarrow> ok snap \<Longrightarrow>
    handle_snapshot rng md5 now lid snap (ss, reg) = (new, ss', reg') \<Longrightarrow>
    observed md5 seven ok (evs @ new) ss' reg'"

lemma handle_snapshot_eq:
  "handle_snapshot rng md5 now lid snap (ss, reg) =
     (let p = deriveEvents rng md5 (processSnapshot rng now snap (learn_local lid ss)) in
      (fst p, snd p, fold (applyToRegistry (localCID (snd p))) (fst p) reg))"
  by (simp add: handle_snapshot_def case_prod_beta Let_def)

lemma observed_protocol:
  "observed md5 seven ok evs ss reg \<Longrightarrow> decode_fn ss = decoder_of seven \<and> is07 ss = seven"
proof (induction rule: observed.induct)
  case (connect now threshold)
  then show ?case by (simp add: connect_snap_def decoder_of_def)
next
  case (snapshot evs ss reg rng snap now lid new ss' reg')
  then show ?case by (auto simp: handle_snapshot_eq Let_def deriveEvents_keeps)
qed

end
