(* ===== verification/Roster.thy ===== *)
theory Roster
  imports Registry
begin

text \<open>
  The 0.6 registry over a run: it holds the clients of the latest snapshot, each with the skin of its
  latest client info, whatever the order Go visits its maps in. Also the places where the derived
  events do not say what their documentation says.
\<close>

section \<open>Snapshots with a roster\<close>

text \<open>
  What a server sends: at most one item per type and id, whole client infos, and a client info for
  every player with a scoreboard entry.
\<close>

definition rostered :: "snapshot \<Rightarrow> bool" where
  "rostered snap \<longleftrightarrow>
     distinct (map ID (client_items snap)) \<and>
     (\<forall>it\<in>set (client_items snap). SizeClientInfo6 \<le> length (Fields it)) \<and>
     fmdom (so_Players (DecodeSnap6 snap)) |\<subseteq>| fset_of_list (map ID (client_items snap))"

lemma roster_of_ids: "fst (roster_of its) = fset_of_list (map ID its)"
  by (simp add: roster_of_def)

lemma roster_of_skins:
  "distinct (map ID its) \<Longrightarrow> it \<in> set its \<Longrightarrow>
     fmlookup (snd (roster_of its)) (ID it) = Some (fst (SkinInts (Fields it)))"
  by (induction its rule: rev_induct) (auto simp: roster_of_def)

lemma lastSnap_keeps:
  "lastSnap ss = Some snap \<Longrightarrow> lastSnap (snd (deriveEvents rng md5 ss)) = Some snap"
proof -
  have "lastSnap (snd (deriveExt md5 s)) = lastSnap s" for s
    using deriveExt_tables [of s md5] by (auto simp: ext_tables_def)
  moreover have "lastSnap (snd (deriveRoster06 rng snap s)) = lastSnap s" for s
    by (simp add: deriveRoster06_def Let_def case_prod_beta)
  ultimately show "lastSnap ss = Some snap \<Longrightarrow> ?thesis"
    by (simp add: deriveEvents_events deriveGame_state)
qed

section \<open>What one snapshot does to the registry\<close>

definition skin_of :: "registry \<Rightarrow> int \<Rightarrow> byte list option" where
  "skin_of reg k = map_option ps_Skin (fmlookup reg k)"

definition item_skin :: "snap_item \<Rightarrow> byte list" where
  "item_skin it = ci_Skin (DecodeClientInfo (Fields it))"

lemma item_skin:
  "SizeClientInfo6 \<le> length (Fields it) \<Longrightarrow> item_skin it = IntsToStr (fst (SkinInts (Fields it)))"
  by (simp add: item_skin_def DecodeClientInfo_def SkinInts_def)

text \<open>Score and team changes of known players.\<close>

fun score_change :: "(int \<Rightarrow> byte list option) \<Rightarrow> event \<Rightarrow> bool" where
  "score_change f (Game (EventScoreChange i _)) = (f i \<noteq> None)"
| "score_change f (Roster (EventTeamSet i _ _)) = (f i \<noteq> None)"
| "score_change f _ = False"

lemma known_skin: "skin_of reg i \<noteq> None \<Longrightarrow> Some (ps_Skin (known_or_minimal cid i reg)) = skin_of reg i"
  by (auto simp: skin_of_def known_or_minimal_def)

lemma skin_of_fmupd: "skin_of (fmupd i p reg) = (skin_of reg)(i \<mapsto> ps_Skin p)"
  by (simp add: skin_of_def fun_eq_iff)

lemma score_change_skin: "score_change (skin_of reg) e \<Longrightarrow> skin_of (applyToRegistry cid e reg) = skin_of reg"
  using known_skin [of reg _ cid]
  by (cases "(skin_of reg, e)" rule: score_change.cases)
    (auto simp: skin_of_fmupd setPlayerScore_def setPlayerTeam_def fun_eq_iff)

lemma score_changes_skin:
  "list_all (score_change (skin_of reg)) evs \<Longrightarrow> skin_of (fold (applyToRegistry cid) evs reg) = skin_of reg"
proof (induction evs arbitrary: reg)
  case (Cons e evs)
  then have "skin_of (applyToRegistry cid e reg) = skin_of reg" by (simp add: score_change_skin)
  with Cons show ?case by simp
qed simp

lemma score_events_changes:
  assumes "fmdom (prevScores ss) |\<subseteq>| fmdom reg" "fmdom (prevTeams ss) |\<subseteq>| fmdom reg"
  shows "list_all (score_change (skin_of reg)) (score_events rng ss)"
proof -
  have "\<exists>p. fmlookup reg k = Some p" if "fmlookup (prevScores ss) k = Some s \<or> fmlookup (prevTeams ss) k = Some s" for k s
    using that assms by (metis fmdomE fmdomI fsubsetD)
  then show ?thesis unfolding score_events_def
    by (intro for_keys_all) (auto simp: skin_of_def split: option.split)
qed

lemma score_events_registry: "list_all registry_event (score_events rng ss)"
  unfolding score_events_def by (intro for_keys_all) (auto split: option.split)

text \<open>The join and skin events of one client info.\<close>

definition follows :: "snap_state \<Rightarrow> (int \<Rightarrow> byte list option) \<Rightarrow> int \<Rightarrow> bool" where
  "follows ss f k \<longleftrightarrow>
     (k |\<in>| prevClientIDs ss \<longrightarrow> (\<exists>s. fmlookup (prevSkins ss) k = Some s \<and> f k = Some (IntsToStr s)))"

lemma roster_event_skin:
  assumes "follows ss (skin_of reg) (ID it)" "SizeClientInfo6 \<le> length (Fields it)"
  shows "skin_of (fold (applyToRegistry cid) (roster_event_of ss it) reg) = (skin_of reg)(ID it \<mapsto> item_skin it)"
proof (cases "ID it |\<in>| prevClientIDs ss")
  case False
  then show ?thesis
    by (simp add: roster_event_of_def Let_def skin_of_def item_skin_def upsertPlayer_def fun_eq_iff)
next
  case True
  then obtain s where s: "fmlookup (prevSkins ss) (ID it) = Some s" "skin_of reg (ID it) = Some (IntsToStr s)"
    using assms(1) by (auto simp: follows_def)
  show ?thesis
  proof (cases "s = fst (SkinInts (Fields it))")
    case True
    with s assms(2) \<open>ID it |\<in>| prevClientIDs ss\<close> show ?thesis
      by (auto simp: roster_event_of_def Let_def item_skin)
  next
    case False
    with s \<open>ID it |\<in>| prevClientIDs ss\<close> show ?thesis
      by (auto simp: roster_event_of_def Let_def skin_of_def setPlayerSkin_def item_skin_def fun_eq_iff)
  qed
qed

lemma roster_events_skin:
  assumes "distinct (map ID its)" "\<forall>it\<in>set its. SizeClientInfo6 \<le> length (Fields it)"
    "\<forall>it\<in>set its. follows ss (skin_of reg) (ID it)"
  shows "skin_of (fold (applyToRegistry cid) (concat (map (roster_event_of ss) its)) reg) =
    (\<lambda>k. case find (\<lambda>it. ID it = k) its of None \<Rightarrow> skin_of reg k | Some it \<Rightarrow> Some (item_skin it))"
  using assms
proof (induction its arbitrary: reg)
  case (Cons it its)
  let ?reg = "fold (applyToRegistry cid) (roster_event_of ss it) reg"
  have upd: "skin_of ?reg = (skin_of reg)(ID it \<mapsto> item_skin it)"
    using Cons.prems by (simp add: roster_event_skin)
  have ne: "ID j \<noteq> ID it" if "j \<in> set its" for j
    using that Cons.prems(1) by (auto simp flip: in_set_conv_nth) (metis imageI)
  then have none: "find (\<lambda>i. ID i = ID it) its = None" by (auto simp: find_None_iff)
  have "\<forall>j\<in>set its. follows ss (skin_of ?reg) (ID j)"
    using Cons.prems(3) ne unfolding upd by (simp add: follows_def)
  with Cons have "skin_of (fold (applyToRegistry cid) (concat (map (roster_event_of ss) its)) ?reg) =
    (\<lambda>k. case find (\<lambda>i. ID i = k) its of None \<Rightarrow> skin_of ?reg k | Some i \<Rightarrow> Some (item_skin i))"
    by simp
  then show ?case using none by (auto simp: upd fun_eq_iff split: option.split)
qed simp

lemma roster_events_registry: "list_all registry_event (concat (map (roster_event_of ss) its))"
  by (auto simp: list_all_iff roster_event_of_def Let_def split: if_splits option.splits)

definition leaves :: "int fset \<Rightarrow> int list \<Rightarrow> event list" where
  "leaves ids ks = concat (map (\<lambda>i. if i |\<in>| ids then [] else [Roster (EventPlayerLeave i [])]) ks)"

lemma leaves_registry: "list_all registry_event (leaves ids ks)"
  by (simp add: leaves_def list_all_iff)

lemma leaves_skin:
  "skin_of (fold (applyToRegistry cid) (leaves ids ks) reg) =
     (\<lambda>k. if k \<in> set ks \<and> k |\<notin>| ids then None else skin_of reg k)"
  by (induction ks arbitrary: reg) (auto simp: leaves_def skin_of_def removePlayer_def fun_eq_iff)

section \<open>The run\<close>

definition current_skins :: "snapshot \<Rightarrow> int \<Rightarrow> byte list option" where
  "current_skins snap k = map_option item_skin (find (\<lambda>it. ID it = k) (client_items snap))"

definition registry_ok :: "snap_state \<Rightarrow> registry \<Rightarrow> bool" where
  "registry_ok ss reg \<longleftrightarrow>
     fmdom reg = prevClientIDs ss \<and> (\<forall>k. follows ss (skin_of reg) k) \<and>
     fmdom (prevScores ss) |\<subseteq>| prevClientIDs ss \<and> fmdom (prevTeams ss) |\<subseteq>| prevClientIDs ss \<and>
     (rosterInit ss \<or> prevClientIDs ss = {||})"

lemma derived_registry_events:
  assumes "lastSnap ss = Some snap" "\<not> is07 ss" "list_all outer (so_Events (objs ss))"
  shows "filter registry_event (fst (deriveEvents rng md5 ss)) =
    score_events rng ss @ concat (map (roster_event_of ss) (client_items snap)) @
    (if rosterInit ss then leaves (fst (roster_of (client_items snap))) (rng 5 (prevClientIDs ss)) else [])"
proof -
  let ?t = "snd (deriveTransient ss)"
  have none: "filter registry_event (round_events ?t) = []" "filter registry_event (flag_events ?t) = []"
    "filter registry_event (fst (spectator_events ?t)) = []"
    by (simp_all add: round_events_def flag_events_def spectator_events_def Let_def)
  have "roster_event_of ?t = roster_event_of ss" by (simp add: roster_event_of_def fun_eq_iff Let_def)
  moreover have "score_events rng ?t = score_events rng ss" by (simp add: score_events_def)
  moreover have "roster_events rng snap ?t =
      concat (map (roster_event_of ss) (client_items snap)) @
      (if rosterInit ss then leaves (fst (roster_of (client_items snap))) (rng 5 (prevClientIDs ss)) else [])"
    using assms(2)
    using calculation(1)
    by (simp add: roster_events_def deriveRoster06_def Let_def case_prod_beta leaves_def)
  moreover have "list_all outer (fst (deriveTransient ss))" using assms(3) by (rule deriveTransient_outer)
  ultimately show ?thesis
    using assms(1)
    by (simp add: deriveEvents_events deriveGame_events filter_none list_all_mono_quiet deriveExt_outer
        character_events_motion none filter_all score_events_registry roster_events_registry leaves_registry)
qed

lemma registry_step:
  assumes "registry_ok ss reg" "decode_fn ss = decoder_of False" "\<not> is07 ss"
    and "rostered snap" "visits_all rng"
    and "handle_snapshot rng md5 now lid snap (ss, reg) = (new, ss', reg')"
  shows "registry_ok ss' reg'" "skin_of reg' = current_skins snap" "lastSnap ss' = Some snap"
proof -
  let ?p = "processSnapshot rng now snap (learn_local lid ss)"
  let ?its = "client_items snap"
  let ?cid = "localCID ss'"
  have ss': "ss' = snd (deriveEvents rng md5 ?p)"
    and reg': "reg' = fold (applyToRegistry ?cid) (fst (deriveEvents rng md5 ?p)) reg"
    using assms(6) by (auto simp: handle_snapshot_eq Let_def)
  have dec: "decoded ss snap = DecodeSnap6 snap" using assms(2) by (simp add: decoded_def decoder_of_def)
  have ros: "distinct (map ID ?its)" "\<forall>it\<in>set ?its. SizeClientInfo6 \<le> length (Fields it)"
    "fmdom (so_Players (DecodeSnap6 snap)) |\<subseteq>| fset_of_list (map ID ?its)"
    using assms(4) by (simp_all add: rostered_def)
  let ?leave = "if rosterInit ss then leaves (fst (roster_of ?its)) (rng 5 (prevClientIDs ss)) else []"
  let ?reg1 = "fold (applyToRegistry ?cid) (score_events rng ?p) reg"
  let ?reg2 = "fold (applyToRegistry ?cid) (concat (map (roster_event_of ?p) ?its)) ?reg1"
  have run: "reg' = fold (applyToRegistry ?cid) ?leave ?reg2"
    unfolding reg' using assms(3)
    by (subst fold_registry_filter) (simp add: derived_registry_events dec DecodeSnap_outer)
  have s1: "skin_of ?reg1 = skin_of reg"
    using assms(1) by (intro score_changes_skin score_events_changes) (simp_all add: registry_ok_def)
  have "follows ?p f k = follows ss f k" for f k by (simp add: follows_def)
  then have "\<forall>it\<in>set ?its. follows ?p (skin_of ?reg1) (ID it)"
    using assms(1) by (simp add: registry_ok_def s1)
  from roster_events_skin [OF ros(1,2) this, of ?cid]
  have s2: "skin_of ?reg2 =
      (\<lambda>k. case find (\<lambda>it. ID it = k) ?its of None \<Rightarrow> skin_of reg k | Some it \<Rightarrow> Some (item_skin it))"
    by (simp only: s1)
  define r where "r = ?reg2"
  define f where "f = (\<lambda>k. case find (\<lambda>it. ID it = k) ?its of None \<Rightarrow> skin_of reg k | Some it \<Rightarrow> Some (item_skin it))"
  have "reg' = fold (applyToRegistry ?cid) ?leave r" unfolding r_def by (rule run)
  moreover have "skin_of r = f" unfolding r_def f_def by (rule s2)
  ultimately have "skin_of reg' =
      (\<lambda>k. if rosterInit ss \<and> k |\<in>| prevClientIDs ss \<and> k |\<notin>| fset_of_list (map ID ?its) then None else f k)"
    using visits_allD(1) [OF assms(5)]
    by (cases "rosterInit ss") (simp_all add: leaves_skin roster_of_ids fun_eq_iff)
  note sk = this
  have out: "skin_of reg k = None" if "k |\<notin>| prevClientIDs ss" for k
    using that assms(1) by (auto simp: skin_of_def registry_ok_def dest: fmdom_notD)
  have init: "rosterInit ss \<or> prevClientIDs ss = {||}" using assms(1) by (simp add: registry_ok_def)
  show skins: "skin_of reg' = current_skins snap"
  proof (rule ext)
    fix k
    show "skin_of reg' k = current_skins snap k"
    proof (cases "find (\<lambda>it. ID it = k) ?its")
      case None
      then have "k |\<notin>| fset_of_list (map ID ?its)" by (auto simp: find_None_iff fset_of_list_elem)
      with None sk out init show ?thesis
        by (cases "k |\<in>| prevClientIDs ss") (auto simp: f_def current_skins_def)
    next
      case (Some it)
      then have "k |\<in>| fset_of_list (map ID ?its)" by (auto simp: find_Some_iff fset_of_list_elem)
      with Some sk show ?thesis by (simp add: f_def current_skins_def)
    qed
  qed
  show "lastSnap ss' = Some snap" by (simp add: ss' lastSnap_keeps)
  have ids: "prevClientIDs ss' = fset_of_list (map ID ?its)"
    "prevSkins ss' = snd (roster_of ?its)" "rosterInit ss'"
    "prevScores ss' = fmmap pl_Score (so_Players (DecodeSnap6 snap))"
    "prevTeams ss' = fmmap pl_Team (so_Players (DecodeSnap6 snap))"
    using assms(3) by (simp_all add: ss' deriveEvents_keeps roster_of_ids dec)
  have "follows ss' (skin_of reg') k" for k
    unfolding follows_def
  proof
    assume "k |\<in>| prevClientIDs ss'"
    then obtain it where it: "find (\<lambda>it. ID it = k) ?its = Some it" "it \<in> set ?its" "ID it = k"
      unfolding ids by (cases "find (\<lambda>it. ID it = k) ?its")
        (auto simp: find_None_iff find_Some_iff fset_of_list_elem)
    with roster_of_skins [OF ros(1) it(2)] ros(2)
    show "\<exists>s. fmlookup (prevSkins ss') k = Some s \<and> skin_of reg' k = Some (IntsToStr s)"
      by (auto simp: ids skins current_skins_def item_skin)
  qed
  moreover have "fmdom reg' = prevClientIDs ss'"
  proof (rule fset_eqI)
    fix k
    have "k |\<in>| fmdom reg' \<longleftrightarrow> skin_of reg' k \<noteq> None" by (simp add: skin_of_def fmdom_notI fmlookup_None)
    then show "k |\<in>| fmdom reg' \<longleftrightarrow> k |\<in>| prevClientIDs ss'"
      by (auto simp: skins current_skins_def ids find_None_iff fset_of_list_elem)
  qed
  ultimately show "registry_ok ss' reg'" using ros(3) by (simp add: registry_ok_def ids)
qed

lemma observed_registry:
  "observed md5 False rostered evs ss reg \<Longrightarrow>
     registry_ok ss reg \<and> (\<forall>snap. lastSnap ss = Some snap \<longrightarrow> skin_of reg = current_skins snap)"
proof (induction rule: observed.induct)
  case (connect now threshold)
  then show ?case
    by (simp add: registry_ok_def connect_snap_def zero_snap_state_def clearPlayers_def follows_def)
next
  case (snapshot evs ss reg rng snap now lid new ss' reg')
  from observed_protocol [OF snapshot.hyps(1)] snapshot.IH snapshot.hyps
  show ?case using registry_step [of ss reg snap rng md5 now lid new ss' reg'] by auto
qed

lemma fmdom_skin_of: "k |\<in>| fmdom reg \<longleftrightarrow> skin_of reg k \<noteq> None"
  by (simp add: skin_of_def fmlookup_None)

text \<open>
  C40: After any run of 0.6 snapshots that each carry a client info for every scoreboard entry, the
  registry holds exactly the clients of the latest snapshot, and the skin it gives for each is the
  skin of that client's latest client info.
\<close>

theorem registry_follows_roster:
  assumes "observed md5 False rostered evs ss reg" "lastSnap ss = Some snap"
  shows "fmdom reg = fset_of_list (map ID (client_items snap)) \<and>
    (\<lambda>k. map_option ps_Skin (fmlookup reg k)) =
    (\<lambda>k. map_option (\<lambda>it. ci_Skin (DecodeClientInfo (Fields it)))
            (find (\<lambda>it. ID it = k) (client_items snap)))"
proof -
  have "skin_of reg = current_skins snap" using observed_registry assms by blast
  moreover have "fmdom reg = fset_of_list (map ID (client_items snap))"
    using \<open>skin_of reg = current_skins snap\<close>
    by (intro fset_eqI)
      (auto simp: fmdom_skin_of current_skins_def find_None_iff fset_of_list_elem)
  moreover have skin: "(\<lambda>it. ci_Skin (DecodeClientInfo (Fields it))) = item_skin"
    by (simp add: item_skin_def fun_eq_iff)
  ultimately show ?thesis unfolding skin by (simp add: skin_of_def current_skins_def fun_eq_iff)
qed

definition in_order :: go_range where
  "in_order n S = sorted_list_of_fset S"

lemma in_order [simp]: "visits_all in_order"
  by (simp add: visits_all_def in_order_def sorted_list_of_fset.rep_eq)

definition one_client :: snapshot where
  "one_client = \<lparr>Tick = 7, Items =
     [\<lparr>TypeID = ObjClientInfo6, ID = 3, Fields = replicate 17 0\<rparr>,
      \<lparr>TypeID = ObjCharacter6, ID = 3, Fields = replicate 22 0\<rparr>]\<rparr>"

lemma one_client_ok [simp]: "rostered one_client"
  by (simp add: rostered_def one_client_def client_items_def obj_ids sizes6 DecodeSnap6_def decode_item6_def
      decode_event6_def empty_objects_def)

lemma one_client_run:
  "\<exists>evs ss reg. observed (\<lambda>b. b) False rostered evs ss reg \<and> lastSnap ss = Some one_client \<and>
     fmdom (characters ss) = {|3|}"
proof -
  let ?ss = "connect_snap 0 False 16"
  obtain new ss' reg' where
    h: "handle_snapshot in_order (\<lambda>b. b) 0 (- 1) one_client (?ss, clearPlayers) = (new, ss', reg')"
    using prod_cases3 by blast
  have "observed (\<lambda>b. b) False rostered [] ?ss clearPlayers" by (rule observed.connect)
  from observed.snapshot [OF this in_order one_client_ok h]
  have "observed (\<lambda>b. b) False rostered ([] @ new) ss' reg'" .
  moreover have "lastSnap ss' = Some one_client"
    using h by (auto simp: handle_snapshot_eq Let_def lastSnap_keeps)
  moreover have "fmdom (characters ss') = {|3|}"
    using h by (auto simp: handle_snapshot_eq Let_def deriveEvents_keeps new_characters_def connect_snap_def
        zero_snap_state_def decoded_def one_client_def DecodeSnap6_def decode_item6_def decode_event6_def
        empty_objects_def obj_ids sizes6)
  ultimately show ?thesis by blast
qed

theorem registry_follows_roster_witness:
  "\<exists>evs ss reg. observed (\<lambda>b. b) False rostered evs ss reg \<and> fmdom reg = {|3|}"
proof -
  obtain evs ss reg where run: "observed (\<lambda>b. b) False rostered evs ss reg" "lastSnap ss = Some one_client"
    using one_client_run by blast
  from registry_follows_roster [OF run] have "fmdom reg = {|3|}"
    by (simp add: one_client_def client_items_def obj_ids)
  with run(1) show ?thesis by blast
qed

text \<open>
  C39: A consumer that adds a player on every EnterSight event and drops it on every LeaveSight event
  knows, after any number of snapshots on either protocol and whatever the order Go visits its maps in,
  exactly the players with a character in the latest snapshot.
\<close>

theorem sight_events_track_characters:
  assumes "observed md5 seven ok evs ss reg"
  shows "fold see evs {||} = fmdom (characters ss)"
  using assms
proof (induction rule: observed.induct)
  case (connect now threshold)
  then show ?case by (simp add: connect_snap_def zero_snap_state_def)
next
  case (snapshot evs ss reg rng snap now lid new ss' reg')
  let ?ss = "learn_local lid ss"
  have "decode_fn ?ss = decoder_of seven" using observed_protocol [OF snapshot.hyps(1)] by simp
  from see_processed [OF this snapshot.hyps(2)] snapshot.IH snapshot.hyps(4) show ?case
    by (auto simp: handle_snapshot_eq Let_def deriveEvents_keeps)
qed

theorem sight_events_track_characters_witness:
  "\<exists>evs ss reg. observed (\<lambda>b. b) False rostered evs ss reg \<and> fold see evs {||} = {|3|}"
proof -
  obtain evs ss reg where run: "observed (\<lambda>b. b) False rostered evs ss reg" "fmdom (characters ss) = {|3|}"
    using one_client_run by blast
  from sight_events_track_characters [OF run(1)] run show ?thesis by auto
qed

section \<open>Where the events differ from their documentation\<close>

text \<open>
  \<open>OnPlayerMove\<close> promises an event once a tee has moved the threshold "since the last reported
  position"; the difference is taken to the previous snapshot, so a tee that stays below the
  threshold per snapshot is never reported, however far it gets.
\<close>

definition walked :: "int \<Rightarrow> character" where
  "walked k = zero_character\<lparr>ch_X := 15 * k\<rparr>"

lemma slow_walk_never_reported:
  "motion_of DefaultMoveEventThreshold cid i (walked (k + 1)) (walked k) = [] \<and>
   ch_X (walked (k + n)) - ch_X (walked k) = 15 * n"
  by (simp add: motion_of_def walked_def abs_int_def DefaultMoveEventThreshold_def zero_character_def
      character6_def algebra_simps)

text \<open>
  While the local id is unknown (\<open>-1\<close>, which is also the "nobody" of \<open>m_HookedPlayer\<close>), every tee
  that enters sight hooking nobody is reported as hooking the local tee.
\<close>

lemma unknown_local_is_hooked:
  assumes "visits_all rng" "localCID ss = - 1"
    and "fmlookup (characters ss) i = Some c" "ch_HookedPlayer c = - 1" "i \<noteq> - 1"
    and "fmlookup (prevCharacters ss) i = None"
  shows "Motion (EventHookedBy i) \<in> set (fst (deriveEvents rng md5 ss))"
proof -
  have "Motion (EventHookedBy i) \<in> set (hooked_events rng (- 1) (characters ss) (prevCharacters ss))"
    unfolding hooked_events_def in_for_keys [OF assms(1)]
    using assms(3-6) by (intro exI [of _ i] exI [of _ c]) simp
  then show ?thesis using assms(2) by (simp add: deriveEvents_events character_events_def)
qed

text \<open>A join "preserves any existing Score/Team"; the team is replaced by that of the event.\<close>

lemma join_replaces_team:
  assumes "fmlookup reg i = Some p"
  shows "map_option (\<lambda>q. (ps_Team q, ps_Score q))
      (fmlookup (applyToRegistry cid (Roster (EventPlayerJoin i nm clan country skin tm)) reg) i) =
    Some (tm, ps_Score p)"
  using assms by (simp add: upsertPlayer_def)

text \<open>A client that is renamed and keeps its skin causes no event, so the registry keeps the old name.\<close>

lemma rename_not_reported:
  assumes "ID it |\<in>| prevClientIDs ss" "fmlookup (prevSkins ss) (ID it) = Some (fst (SkinInts (Fields it)))"
  shows "roster_event_of ss it = []"
  using assms by (simp add: roster_event_of_def Let_def)

section \<open>Parity\<close>

lemma put_tables:
  "so_Characters (put e out) =
     (case e of Char i c \<Rightarrow> fmupd i c (so_Characters out) | _ \<Rightarrow> so_Characters out)"
  "so_Players (put e out) =
     (case e of Info i p \<Rightarrow> fmupd (pl_ClientID p) p (so_Players out) | _ \<Rightarrow> so_Players out)"
  by (simp_all add: add_event_def split: entity.split)

definition no_flags :: "character \<Rightarrow> character" where
  "no_flags c = c\<lparr>ch_PlayerFlags := 0\<rparr>"

definition no_local :: "player \<Rightarrow> player" where
  "no_local p = p\<lparr>pl_Local := False, pl_Team := 0\<rparr>"

lemma put_carried:
  "so_Characters (put (carried6 e) out) =
     (case e of Char i c \<Rightarrow> fmupd i c (so_Characters out) | _ \<Rightarrow> so_Characters out)"
  "so_Characters (put (carried7 e) out) =
     (case e of Char i c \<Rightarrow> fmupd i (no_flags c) (so_Characters out) | _ \<Rightarrow> so_Characters out)"
  "so_Players (put (carried7 e) out) =
     (case e of Info i p \<Rightarrow> fmupd (pl_ClientID p) (no_local p) (so_Players out) | _ \<Rightarrow> so_Players out)"
  unfolding no_flags_def no_local_def
  by (simp_all add: add_event_def split: entity.split)

lemma carried_tables:
  assumes "so_Characters out6 = so_Characters out"
    and "so_Characters out7 = fmmap no_flags (so_Characters out)"
    and "so_Players out7 = fmmap no_local (so_Players out)"
  shows "so_Characters (fold put (map carried6 es) out6) = so_Characters (fold put es out) \<and>
    so_Characters (fold put (map carried7 es) out7) = fmmap no_flags (so_Characters (fold put es out)) \<and>
    so_Players (fold put (map carried7 es) out7) = fmmap no_local (so_Players (fold put es out))"
  using assms
proof (induction es arbitrary: out out6 out7)
  case (Cons e es)
  have "so_Characters (put (carried6 e) out6) = so_Characters (put e out)"
    "so_Characters (put (carried7 e) out7) = fmmap no_flags (so_Characters (put e out))"
    "so_Players (put (carried7 e) out7) = fmmap no_local (so_Players (put e out))"
    using Cons.prems unfolding put_carried unfolding put_tables
    by (simp_all add: fmmap_fmupd split: entity.split)
  from Cons.IH [OF this] show ?case by simp
qed simp

text \<open>
  The overlay makes the protocols agree: when every character of a tick belongs to a player whose
  flags it carries, a client on 0.7 ends up with the same characters, flags included, as a client on
  0.6 that takes in the same tick.
\<close>

theorem characters_agree_on_both_protocols:
  assumes "decode_fn s6 = Some DecodeSnap6" "\<not> is07 s6" "decode_fn s7 = Some DecodeSnap7" "is07 s7"
    and "fmrel_on_fset (fmdom (so_Characters (objects tick es)))
           (\<lambda>c p. pl_PlayerFlags p = ch_PlayerFlags c)
           (so_Characters (objects tick es)) (so_Players (objects tick es))"
  shows "characters (processSnapshot rng7 now7 (render7 tick es) s7) =
    characters (processSnapshot rng6 now6 (render6 tick es) s6)"
proof -
  let ?o = "objects tick es"
  have tables: "so_Characters (objects tick (map carried6 es)) = so_Characters ?o"
    "so_Characters (objects tick (map carried7 es)) = fmmap no_flags (so_Characters ?o)"
    "so_Players (objects tick (map carried7 es)) = fmmap no_local (so_Players ?o)"
    using carried_tables [of "empty_objects tick" "empty_objects tick" "empty_objects tick" es]
    by (simp_all add: objects_def empty_objects_def)
  have "fmmap_keys (overlay_flags (so_Players (objects tick (map carried7 es))))
      (so_Characters (objects tick (map carried7 es))) = so_Characters ?o"
  proof (rule fmap_ext)
    fix i
    show "fmlookup (fmmap_keys (overlay_flags (so_Players (objects tick (map carried7 es))))
      (so_Characters (objects tick (map carried7 es)))) i = fmlookup (so_Characters ?o) i"
    proof (cases "fmlookup (so_Characters ?o) i")
      case (Some c)
      then have "rel_option (\<lambda>c p. pl_PlayerFlags p = ch_PlayerFlags c)
          (fmlookup (so_Characters ?o) i) (fmlookup (so_Players ?o) i)"
        using fmrel_on_fsetD [OF fmdomI [OF Some] assms(5)] by simp
      with Some obtain p where "fmlookup (so_Players ?o) i = Some p" "pl_PlayerFlags p = ch_PlayerFlags c"
        by (auto simp: option_rel_Some1)
      with Some show ?thesis by (simp add: tables overlay_flags_def no_flags_def no_local_def)
    qed (simp add: tables)
  qed
  then show ?thesis
    using assms(1-4) decoded_entities [of tick es]
    by (simp add: new_characters_def decoded_def tables(1))
qed

theorem characters_agree_on_both_protocols_witness:
  "characters (processSnapshot in_order 1 (render7 5 [Char 2 zero_character, Info 2 (player6 [1, 2, 0, 4, 9])])
      (connect_snap 0 True 0)) =
   characters (processSnapshot in_order 1 (render6 5 [Char 2 zero_character, Info 2 (player6 [1, 2, 0, 4, 9])])
      (connect_snap 0 False 0))"
  by (rule characters_agree_on_both_protocols)
    (simp_all add: connect_snap_def objects_def empty_objects_def player6_def zero_character_def
      character6_def fmrel_on_fset_alt_def)

end
