(* ===== verification/Conn.thy ===== *)
theory Conn
  imports Prelude
begin

text \<open>
  network/conn.go: sending and receiving on the UDP socket, and the receive that retransmits.

  The outside world is a script. \<open>inbox\<close> lists what the next receives meet: the time that passes
  and then a datagram, the expiry of the read deadline, an I/O error, or the end of the caller's
  context; the end is not consumed, it only comes to lie in the past, and a script that is used up
  counts as an expired context (every caller bounds its context). \<open>send_faults\<close> lists the results of the next writes, which
  succeed once it is used up. \<open>outbox\<close> collects the datagrams written. \<open>clock\<close> is the time in
  nanoseconds; it passes in receives only.
\<close>

datatype net_event = Arrive "byte list" | Silence | IoFail goerr | CtxEnd goerr

record conn_state =
  inbox :: "(int \<times> net_event) list"
  outbox :: "byte list list"
  send_faults :: "goerr option list"
  clock :: int

definition MaxPacketSize :: nat where "MaxPacketSize = 1400"

definition timeout_error :: goerr where "timeout_error = Err ''i/o timeout'' []"

definition deadline_error :: goerr where "deadline_error = Err ''context deadline exceeded'' []"

text \<open>
  \<open>packet.IsTimeout\<close>: the error chain holds a network error that is a timeout. The error of a read
  deadline is one, and so is \<open>context.DeadlineExceeded\<close>.
\<close>

fun IsTimeout :: "goerr \<Rightarrow> bool" where
  "IsTimeout (Wrap msg args e) = IsTimeout e"
| "IsTimeout e = (e = timeout_error \<or> e = deadline_error)"

definition ctx_ends :: "net_event \<Rightarrow> bool" where
  "ctx_ends ev = (case ev of CtxEnd e \<Rightarrow> True | _ \<Rightarrow> False)"

definition ctx_over :: "int \<times> net_event \<Rightarrow> bool" where
  "ctx_over x \<longleftrightarrow> fst x \<le> 0 \<and> ctx_ends (snd x)"

definition ctx_err :: "('z) conn_state_scheme \<Rightarrow> goerr option" where
  "ctx_err c =
     (case inbox c of
        [] \<Rightarrow> Some deadline_error
      | (d, ev) # rest \<Rightarrow>
          (case ev of CtxEnd e \<Rightarrow> if ctx_over (d, ev) then Some e else None | _ \<Rightarrow> None))"

text \<open>\<open>SendRaw\<close>: one write; a failed write sends nothing.\<close>

definition SendRaw :: "byte list \<Rightarrow> ('z conn_state_scheme, unit) gost" where
  "SendRaw d c =
     (case send_faults c of
        [] \<Rightarrow> (Inr (), c\<lparr>outbox := outbox c @ [d]\<rparr>)
      | None # fs \<Rightarrow> (Inr (), c\<lparr>outbox := outbox c @ [d], send_faults := fs\<rparr>)
      | Some e # fs \<Rightarrow> (Inl e, c\<lparr>send_faults := fs\<rparr>))"

text \<open>A send whose error the code drops: \<open>_ = f()\<close>.\<close>

definition dropped :: "('s, 'a) gost \<Rightarrow> ('s, unit) gost" where
  "dropped m s = (Inr (), snd (m s))"

text \<open>One read of \<open>RecvContext\<close>: the datagram is cut at the size of the buffer.\<close>

definition take_event :: "int \<Rightarrow> (int \<times> net_event) list \<Rightarrow> 'z conn_state_scheme \<Rightarrow> 'z conn_state_scheme" where
  "take_event d rest c = c\<lparr>inbox := rest, clock := clock c + d\<rparr>"

definition end_ctx :: "int \<Rightarrow> goerr \<Rightarrow> (int \<times> net_event) list \<Rightarrow> 'z conn_state_scheme \<Rightarrow> 'z conn_state_scheme" where
  "end_ctx d e rest c = c\<lparr>inbox := (0, CtxEnd e) # rest, clock := clock c + d\<rparr>"

definition RecvContext :: "('z conn_state_scheme, byte list) gost" where
  "RecvContext c =
     (case inbox c of
        [] \<Rightarrow> (Inl deadline_error, c)
      | (d, ev) # rest \<Rightarrow>
          (case ev of
             Arrive bs \<Rightarrow> (Inr (take MaxPacketSize bs), take_event d rest c)
           | Silence \<Rightarrow> (Inl timeout_error, take_event d rest c)
           | IoFail e \<Rightarrow> (Inl e, take_event d rest c)
           | CtxEnd e \<Rightarrow> (Inl e, end_ctx d e rest c)))"

text \<open>
  \<open>RecvResending\<close>: the loop over the script; an expired interval retransmits and waits again,
  any other error ends it.
\<close>

fun recv_resending ::
    "('z conn_state_scheme, unit) gost \<Rightarrow> (int \<times> net_event) list \<Rightarrow> ('z conn_state_scheme, byte list) gost" where
  "recv_resending resend [] c = (Inl deadline_error, c)"
| "recv_resending resend ((d, ev) # rest) c =
     (case ev of
        CtxEnd e \<Rightarrow> (Inl e, end_ctx d e rest c)
      | Arrive bs \<Rightarrow> (Inr (take MaxPacketSize bs), take_event d rest c)
      | Silence \<Rightarrow> bnd resend (\<lambda>_. recv_resending resend rest) (take_event d rest c)
      | IoFail e \<Rightarrow>
          if IsTimeout e then bnd resend (\<lambda>_. recv_resending resend rest) (take_event d rest c)
          else (Inl e, take_event d rest c))"

definition RecvResending :: "('z conn_state_scheme, unit) gost \<Rightarrow> ('z conn_state_scheme, byte list) gost" where
  "RecvResending resend c = recv_resending resend (inbox c) c"

section \<open>What a receive does to the script\<close>

lemma RecvContext_Inr:
  "RecvContext c = (Inr bs, c') \<Longrightarrow>
    \<exists>d raw rest. inbox c = (d, Arrive raw) # rest \<and> bs = take MaxPacketSize raw \<and> c' = take_event d rest c"
  by (auto simp: RecvContext_def split: list.splits net_event.splits)

lemma recv_resending_inbox:
  "recv_resending resend evs c = (Inr bs, c') \<Longrightarrow> length (inbox c') < length evs"
proof (induction resend evs c arbitrary: bs c' rule: recv_resending.induct)
  case (1 resend c)
  then show ?case by simp
next
  case (2 resend d ev rest c)
  from "2.prems" show ?case
    by (auto simp: take_event_def bnd_eq_Inr split: net_event.splits if_splits
        dest!: "2.IH")
qed

lemma RecvResending_inbox: "RecvResending resend c = (Inr bs, c') \<Longrightarrow> length (inbox c') < length (inbox c)"
  unfolding RecvResending_def by (rule recv_resending_inbox)

text \<open>
  A relation kept by the retransmission and by the passing of events is kept by the whole receive:
  \<open>R\<close> is typically "the datagrams sent since then are copies of these".
\<close>

definition event_stable :: "('z conn_state_scheme \<Rightarrow> 'z conn_state_scheme \<Rightarrow> bool) \<Rightarrow> bool" where
  "event_stable R \<longleftrightarrow> (\<forall>c d e rest. R c (take_event d rest c) \<and> R c (end_ctx d e rest c))"

lemma recv_resending_keeps:
  assumes "reflp R" and "transp R" and es: "event_stable R" and rs: "keeps R resend"
  shows "keeps R (recv_resending resend evs)"
proof (induction evs)
  case Nil
  show ?case using assms(1) by (auto intro: keepsI dest: reflpD)
next
  case (Cons x rest)
  obtain d ev where x: "x = (d, ev)" by fastforce
  have "keeps R (bnd resend (\<lambda>_. recv_resending resend rest))"
    using assms(2) rs Cons.IH by (rule keeps_bnd)
  moreover have st: "R c (take_event d rest c)" "R c (end_ctx d e rest c)" for c e
    using es by (simp_all add: event_stable_def)
  ultimately have "R c (snd (bnd resend (\<lambda>_. recv_resending resend rest) (take_event d rest c)))" for c
    using assms(2) unfolding keeps_def by (meson transpD)
  with st show ?case
    unfolding keeps_def x by (auto split: net_event.splits)
qed

lemma RecvResending_keeps:
  "reflp R \<Longrightarrow> transp R \<Longrightarrow> event_stable R \<Longrightarrow> keeps R resend \<Longrightarrow> keeps R (RecvResending resend)"
  by (rule keepsI) (metis RecvResending_def keepsD recv_resending_keeps)

lemma RecvContext_keeps: "reflp R \<Longrightarrow> event_stable R \<Longrightarrow> keeps R RecvContext"
  by (rule keepsI)
    (auto simp: RecvContext_def event_stable_def reflpD split: list.splits net_event.splits)

end
