(* ===== verification/Session.thy ===== *)
theory Session
  imports Conn Events Input
begin

text \<open>
  The state and the operations the sessions of net6 and net7 have in common; the two packages
  declare them twice, and the theories Session6 and Session7 instantiate them. Mutexes and atomics
  are left out: the model runs one goroutine. Strings are byte lists, a parsed map is a value of
  the type \<open>'m\<close> of the third-party package twmap.

  \<open>s_dfbuf\<close> is the delta-field buffer of the pooled decoder scratch (see SnapDelta),
  \<open>s_eventCh\<close> the queued events of the reader's channel and \<open>s_chanCap\<close> its capacity.
\<close>

section \<open>State\<close>

record snap_assembly =
  sa_Tick :: int
  sa_DeltaTick :: int
  sa_NumParts :: int
  sa_Received :: int
  sa_Parts :: "byte list list"

record 'm session = conn_state +
  s_clientToken :: "byte list"
  s_serverToken :: "byte list"
  s_ack :: int
  s_sequence :: int
  s_lastAckedSnap :: int
  s_mapInfo :: map_info
  s_parsed :: "'m option"
  s_caps :: server_capabilities
  s_snaps :: snap_storage
  s_dfbuf :: "int list"
  s_snapAssembly :: "snap_assembly option"
  s_eventCh :: "event list"
  s_chanCap :: nat

definition DefaultEventChanSize :: nat where "DefaultEventChanSize = 128"

definition eventChanSizeOrDefault :: "int \<Rightarrow> nat" where
  "eventChanSizeOrDefault n = (if n \<le> 0 then DefaultEventChanSize else nat n)"

section \<open>Events, sequence numbers\<close>

definition emit_event :: "event \<Rightarrow> (('m, 'z) session_scheme, unit) gost" where
  "emit_event ev s = (Inr (), s\<lparr>s_eventCh := SendEvent (s_chanCap s) ev (s_eventCh s)\<rparr>)"

fun emit_all :: "event list \<Rightarrow> (('m, 'z) session_scheme, unit) gost" where
  "emit_all [] = ret ()"
| "emit_all (ev # evs) = bnd (emit_event ev) (\<lambda>_. emit_all evs)"

text \<open>A decoder's result delivered; the panic of a decoder is the panic of the caller.\<close>

definition deliver :: "goerr + event list \<Rightarrow> (('m, 'z) session_scheme, unit) gost" where
  "deliver r = (case r of Inl e \<Rightarrow> fail e | Inr evs \<Rightarrow> emit_all evs)"

definition NextSeq :: "(('m, 'z) session_scheme, int) gost" where
  "NextSeq s = (let q = (s_sequence s + 1) mod MaxSequence in (Inr q, s\<lparr>s_sequence := q\<rparr>))"

section \<open>Snapshots\<close>

text \<open>
  \<open>sendAck\<close> is the session's \<open>sendAckPacket\<close>. \<open>ackSnap\<close> acknowledges forwards only; its
  compare-and-swap succeeds at once when no other goroutine writes.
\<close>

definition ackSnap ::
    "(int \<Rightarrow> (('m, 'z) session_scheme, unit) gost) \<Rightarrow> int \<Rightarrow> (('m, 'z) session_scheme, unit) gost" where
  "ackSnap sendAck tick s =
     (if tick \<le> s_lastAckedSnap s then (Inr (), s)
      else sendAck tick (s\<lparr>s_lastAckedSnap := tick\<rparr>))"

text \<open>\<open>s.reader.snaps.ProcessSnap\<close>; a panic in it is the caller's panic.\<close>

definition session_ProcessSnap ::
    "varint_lib \<Rightarrow> int \<Rightarrow> int \<Rightarrow> byte list \<Rightarrow> (('m, 'z) session_scheme, snapshot) gost" where
  "session_ProcessSnap L tick deltaTick d s =
     (case ProcessSnap L tick deltaTick d (s_snaps s, s_dfbuf s) of
        (r, (ss, df)) \<Rightarrow> (r, s\<lparr>s_snaps := ss, s_dfbuf := df\<rparr>))"

text \<open>
  The common tail: decompress; on an error log and return, otherwise acknowledge and deliver.
  \<open>after\<close> is what the caller does when it succeeded.
\<close>

definition take_snap ::
    "varint_lib \<Rightarrow> (int \<Rightarrow> (('m, 'z) session_scheme, unit) gost) \<Rightarrow> int \<Rightarrow> int \<Rightarrow> byte list \<Rightarrow>
     (('m, 'z) session_scheme, unit) gost \<Rightarrow> (('m, 'z) session_scheme, unit) gost" where
  "take_snap L sendAck tick deltaTick d after s =
     (case session_ProcessSnap L tick deltaTick d s of
        (Inl e, s') \<Rightarrow> if is_panic e then (Inl e, s') else (Inr (), s')
      | (Inr snap, s') \<Rightarrow>
          bnd (ackSnap sendAck tick) (\<lambda>_. bnd (emit_event (Core (EventSnapshot snap))) (\<lambda>_. after)) s')"

text \<open>The header of a message read with the reader's unpacker; an error ends the handler.\<close>

definition with_body ::
    "(unpacker, 'a) gost \<Rightarrow> byte list \<Rightarrow> ('a \<Rightarrow> ('s, unit) gost) \<Rightarrow> ('s, unit) gost" where
  "with_body m d f s =
     (case fst (m (NewUnpacker d)) of
        Inl e \<Rightarrow> if is_panic e then (Inl e, s) else (Inr (), s)
      | Inr x \<Rightarrow> f x s)"

definition snap_single ::
    "varint_lib \<Rightarrow> (int \<Rightarrow> (('m, 'z) session_scheme, unit) gost) \<Rightarrow> byte list \<Rightarrow>
     (('m, 'z) session_scheme, unit) gost" where
  "snap_single L sendAck d =
     with_body
       (bnd (NextInt L) (\<lambda>tick. bnd (NextInt L) (\<lambda>deltaTick. bnd (NextInt L) (\<lambda>crc.
        bnd (NextInt L) (\<lambda>partSize. bnd (NextRaw partSize) (\<lambda>snapData.
        ret (tick, deltaTick, snapData)))))))
       d (\<lambda>(tick, deltaTick, snapData). take_snap L sendAck tick deltaTick snapData (ret ()))"

definition snap_empty ::
    "varint_lib \<Rightarrow> (int \<Rightarrow> (('m, 'z) session_scheme, unit) gost) \<Rightarrow> byte list \<Rightarrow>
     (('m, 'z) session_scheme, unit) gost" where
  "snap_empty L sendAck d =
     with_body
       (bnd (NextInt L) (\<lambda>tick. bnd (NextInt L) (\<lambda>deltaTick. ret (tick, deltaTick))))
       d (\<lambda>(tick, deltaTick). take_snap L sendAck tick deltaTick [] (ret ()))"

text \<open>
  \<open>make([][]byte, numParts)\<close> panics for a negative count. The assembly is a pointer: the parts
  stored in it stay when the assembled snapshot does not decode.
\<close>

definition new_assembly :: "int \<Rightarrow> int \<Rightarrow> int \<Rightarrow> goerr + snap_assembly" where
  "new_assembly tick deltaTick numParts =
     (if numParts < 0 then Inl (Panic ''makeslice: len out of range'')
      else Inr \<lparr>sa_Tick = tick, sa_DeltaTick = deltaTick, sa_NumParts = numParts, sa_Received = 0,
                sa_Parts = replicate (nat numParts) []\<rparr>)"

definition current_assembly ::
    "int \<Rightarrow> int \<Rightarrow> int \<Rightarrow> (('m, 'z) session_scheme, snap_assembly) gost" where
  "current_assembly tick deltaTick numParts s =
     (let fresh = (case new_assembly tick deltaTick numParts of
                     Inl e \<Rightarrow> (Inl e, s)
                   | Inr asm \<Rightarrow> (Inr asm, s\<lparr>s_snapAssembly := Some asm\<rparr>)) in
      case s_snapAssembly s of
        None \<Rightarrow> fresh
      | Some asm \<Rightarrow>
          if sa_Tick asm \<noteq> tick \<or> sa_NumParts asm \<noteq> numParts then fresh else (Inr asm, s))"

definition store_part :: "int \<Rightarrow> int \<Rightarrow> byte list \<Rightarrow> snap_assembly \<Rightarrow> snap_assembly" where
  "store_part partIndex numParts snapData asm =
     (if partIndex \<ge> 0 \<and> partIndex < numParts
      then asm\<lparr>sa_Parts := (sa_Parts asm)[nat partIndex := snapData], sa_Received := sa_Received asm + 1\<rparr>
      else asm)"

definition drop_assembly :: "(('m, 'z) session_scheme, unit) gost" where
  "drop_assembly s = (Inr (), s\<lparr>s_snapAssembly := None\<rparr>)"

definition assemble ::
    "varint_lib \<Rightarrow> (int \<Rightarrow> (('m, 'z) session_scheme, unit) gost) \<Rightarrow> int \<Rightarrow> int \<Rightarrow> int \<Rightarrow> int \<Rightarrow> byte list \<Rightarrow>
     (('m, 'z) session_scheme, unit) gost" where
  "assemble L sendAck tick deltaTick numParts partIndex snapData =
     bnd (current_assembly tick deltaTick numParts) (\<lambda>asm0 s.
       let asm = store_part partIndex numParts snapData asm0;
           s1 = s\<lparr>s_snapAssembly := Some asm\<rparr> in
       if sa_Received asm = numParts
       then take_snap L sendAck tick deltaTick (concat (sa_Parts asm)) drop_assembly s1
       else (Inr (), s1))"

definition snap_multi ::
    "varint_lib \<Rightarrow> (int \<Rightarrow> (('m, 'z) session_scheme, unit) gost) \<Rightarrow> byte list \<Rightarrow>
     (('m, 'z) session_scheme, unit) gost" where
  "snap_multi L sendAck d =
     with_body
       (bnd (NextInt L) (\<lambda>tick. bnd (NextInt L) (\<lambda>deltaTick. bnd (NextInt L) (\<lambda>numParts.
        bnd (NextInt L) (\<lambda>partIndex. bnd (NextInt L) (\<lambda>crc. bnd (NextInt L) (\<lambda>partSize.
        bnd (NextRaw partSize) (\<lambda>snapData.
        ret (tick, deltaTick, numParts, partIndex, snapData)))))))))
       d (\<lambda>(tick, deltaTick, numParts, partIndex, snapData).
         if numParts = 1 then take_snap L sendAck tick deltaTick snapData (ret ())
         else assemble L sendAck tick deltaTick numParts partIndex snapData)"

section \<open>Maps and capabilities\<close>

definition set_map_info :: "map_info \<Rightarrow> ('m, 'z) session_scheme \<Rightarrow> ('m, 'z) session_scheme" where
  "set_map_info info s = s\<lparr>s_mapInfo := info, s_parsed := None\<rparr>"

definition process_map_change ::
    "varint_lib \<Rightarrow> byte list \<Rightarrow> (('m, 'z) session_scheme, unit) gost" where
  "process_map_change L msgData s =
     (case ParseMapChangePayload L msgData of
        Inl e \<Rightarrow> if is_panic e then (Inl e, s) else (Inr (), s)
      | Inr info \<Rightarrow> emit_event (Core (EventMapChange info)) (set_map_info info s))"

section \<open>The reader's loop\<close>

fun for_chunks :: "(byte list \<Rightarrow> ('s, unit) gost) \<Rightarrow> chunk list \<Rightarrow> ('s, unit) gost" where
  "for_chunks body [] = ret ()"
| "for_chunks body (c # cs) = bnd (body (Data c)) (\<lambda>_. for_chunks body cs)"

definition keepaliveInterval :: int where "keepaliveInterval = 2000000000"
definition reackInterval :: int where "reackInterval = 500000000"

text \<open>
  The reason of the closing event is the error text, or the rest of the close packet;
  \<open>err_text\<close> is the rendering of an error (\<open>err.Error()\<close>).
\<close>

definition close_event :: "byte list \<Rightarrow> (('m, 'z) session_scheme, unit) gost" where
  "close_event reason = emit_event (Core (EventClose reason))"

section \<open>Decimal numbers\<close>

text \<open>\<open>fmt.Sprintf("%d", n)\<close>.\<close>

fun nat_digits :: "nat \<Rightarrow> byte list" where
  "nat_digits n = (if n < 10 then [] else nat_digits (n div 10)) @ [byte_of (int (48 + n mod 10))]"

declare nat_digits.simps [simp del]

definition decimal :: "int \<Rightarrow> byte list" where
  "decimal v = (if v < 0 then bytes_of ''-'' @ nat_digits (nat (- v)) else nat_digits (nat v))"

section \<open>Logging in: options\<close>

record login_config =
  lc_Skin :: "byte list"
  lc_Country :: int
  lc_Password :: "byte list"

definition DefaultName :: "byte list" where "DefaultName = bytes_of ''nameless tee''"
definition DefaultSkin :: "byte list" where "DefaultSkin = bytes_of ''default''"
definition DefaultCountry :: int where "DefaultCountry = - 1"

definition WithLoginSkin :: "byte list \<Rightarrow> login_config \<Rightarrow> login_config" where
  "WithLoginSkin skin c = c\<lparr>lc_Skin := skin\<rparr>"

definition WithLoginCountry :: "int \<Rightarrow> login_config \<Rightarrow> login_config" where
  "WithLoginCountry country c = c\<lparr>lc_Country := country\<rparr>"

definition WithLoginPassword :: "byte list \<Rightarrow> login_config \<Rightarrow> login_config" where
  "WithLoginPassword password c = c\<lparr>lc_Password := password\<rparr>"

definition ApplyLoginOptions :: "(login_config \<Rightarrow> login_config) option list \<Rightarrow> login_config" where
  "ApplyLoginOptions opts =
     foldl (\<lambda>c opt. case opt of None \<Rightarrow> c | Some f \<Rightarrow> f c)
       \<lparr>lc_Skin = DefaultSkin, lc_Country = DefaultCountry, lc_Password = []\<rparr> opts"

text \<open>\<open>ServerClosedError\<close>: the reason's bytes are the arguments.\<close>

definition server_closed_error :: "byte list \<Rightarrow> goerr" where
  "server_closed_error reason = Err ''packet: server sent CTRL_CLOSE: %s'' (map uint reason)"

text \<open>\<open>serverClosed\<close>, with the id of the close message of the protocol.\<close>

definition closed_reason :: "int \<Rightarrow> byte list \<Rightarrow> byte list option" where
  "closed_reason closeID payload =
     (if payload \<noteq> [] \<and> payload ! 0 = byte_of closeID then
        Some (if length payload > 1 then drop 1 payload else [])
      else None)"

end
