(* ===== verification/MsgFields.thy ===== *)
theory MsgFields
  imports Headers Helpers
begin

text \<open>
  What the message builders of net6 and net7 have in common: a message is a packed id followed by
  fields. \<open>field\<close> and \<open>message_bytes\<close> are the wire format of a message; \<open>read_like\<close> reads a
  field the way the decoders of the other side do. A chunk with one message and a packet with one
  chunk complete the frame.
\<close>

section \<open>Byte buffers\<close>

text \<open>\<open>copy(dst[off:], src)\<close> on a buffer long enough for \<open>src\<close>.\<close>

definition copy_at :: "byte list \<Rightarrow> nat \<Rightarrow> byte list \<Rightarrow> byte list" where
  "copy_at dst off src = take off dst @ src @ drop (off + length src) dst"

lemma length_copy_at [simp]: "off + length src \<le> length dst \<Longrightarrow> length (copy_at dst off src) = length dst"
  by (simp add: copy_at_def)

section \<open>Messages as fields\<close>

datatype field = FInt int | FStr "byte list" | FBool bool | FRaw "byte list"

fun enc_field :: "varint_lib \<Rightarrow> field \<Rightarrow> byte list" where
  "enc_field L (FInt v) = PackInt L v"
| "enc_field L (FStr s) = PackString s"
| "enc_field L (FBool b) = PackBool L b"
| "enc_field L (FRaw bs) = bs"

definition message_bytes :: "varint_lib \<Rightarrow> int \<Rightarrow> bool \<Rightarrow> field list \<Rightarrow> byte list" where
  "message_bytes L i_d sys fs = PackMsgID L i_d sys @ concat (map (enc_field L) fs)"

text \<open>A field the reader gets back as it was sent: 32-bit integers, strings that need no sanitizing.\<close>

fun clean_field :: "field \<Rightarrow> bool" where
  "clean_field (FInt v) = in_s32 v"
| "clean_field (FStr s) = (0 \<notin> set s \<and> \<not> needs_work SanitizeDefault s)"
| "clean_field (FBool b) = True"
| "clean_field (FRaw bs) = True"

fun read_like :: "varint_lib \<Rightarrow> field \<Rightarrow> (unpacker, field) gost" where
  "read_like L (FInt v) = bnd (NextInt L) (\<lambda>x. ret (FInt x))"
| "read_like L (FStr s) = bnd NextString (\<lambda>x. ret (FStr x))"
| "read_like L (FBool b) = bnd (NextInt L) (\<lambda>x. ret (FBool (x \<noteq> 0)))"
| "read_like L (FRaw bs) = bnd (NextRaw (int (length bs))) (\<lambda>x. ret (FRaw x))"

fun read_all_like :: "varint_lib \<Rightarrow> field list \<Rightarrow> (unpacker, field list) gost" where
  "read_all_like L [] = ret []"
| "read_all_like L (f # fs) = bnd (read_like L f) (\<lambda>x. bnd (read_all_like L fs) (\<lambda>xs. ret (x # xs)))"

definition read_message ::
    "varint_lib \<Rightarrow> field list \<Rightarrow> (unpacker, (int \<times> bool) \<times> field list) gost" where
  "read_message L fs = bnd (NextMsgAndSys L) (\<lambda>h. bnd (read_all_like L fs) (\<lambda>xs. ret (h, xs)))"

lemma NextString_at_pos:
  assumes "0 \<notin> set s" and "\<not> needs_work SanitizeDefault s"
  shows "NextString (at_pos pre (s @ 0 # post)) = (Inr s, at_pos (pre @ s @ [0]) post)"
  using assms
  by (simp add: NextString_def NextStringSanitized_def at_pos_def has_flag_def Let_def
      SanitizeDefault_def SanitizeSkipWhitespaces_def)

context varint_contract begin

lemma PackInt_eq: "in_s32 v \<Longrightarrow> PackInt L v = encv L v"
  by (simp add: PackInt_def AppendInt_eq)

lemma PackBool_eq: "PackBool L b = encv L (if b then 1 else 0)"
  by (simp add: PackBool_def AppendBool_def AppendInt_eq in_s32_def clamp32_def)

lemma read_like_enc:
  assumes "clean_field f"
  shows "read_like L f (at_pos pre (enc_field L f @ post)) = (Inr f, at_pos (pre @ enc_field L f) post)"
proof (cases f)
  case (FInt v)
  with assms show ?thesis by (simp add: PackInt_eq)
next
  case (FStr s)
  with assms show ?thesis
    using NextString_at_pos [of s pre post] by (simp add: PackString_def AppendStr_def)
next
  case (FBool b)
  then show ?thesis by (simp add: PackBool_eq in_s32_def)
next
  case (FRaw bs)
  then show ?thesis by simp
qed

lemma read_all_like_enc:
  "list_all clean_field fs \<Longrightarrow>
    read_all_like L fs (at_pos pre (concat (map (enc_field L) fs) @ post)) =
      (Inr fs, at_pos (pre @ concat (map (enc_field L) fs)) post)"
  by (induction fs arbitrary: pre) (simp_all add: read_like_enc)

lemma read_message_bytes:
  assumes "list_all clean_field fs" and "0 \<le> i_d" and "i_d < 2 ^ 30"
  shows "read_message L fs (NewUnpacker (message_bytes L i_d sys fs @ post)) =
    (Inr ((i_d, sys), fs), at_pos (message_bytes L i_d sys fs) post)"
  using assms NextMsgAndSys_at_pos [of i_d "[]" sys "concat (map (enc_field L) fs) @ post"]
    read_all_like_enc [of fs "AppendMsgID L [] i_d sys" post]
  by (simp add: read_message_def message_bytes_def NewUnpacker_at_pos PackMsgID_def)

end

section \<open>One message in a chunk\<close>

definition vital_chunk :: "byte list \<Rightarrow> int \<Rightarrow> chunk" where
  "vital_chunk payload sq =
     \<lparr>Header = \<lparr>Flags = \<lparr>Vital = True, Resend = False\<rparr>, Size = int (length payload), Seq = sq\<rparr>,
      Data = payload\<rparr>"

definition plain_chunk :: "byte list \<Rightarrow> chunk" where
  "plain_chunk payload =
     \<lparr>Header = \<lparr>Flags = \<lparr>Vital = False, Resend = False\<rparr>, Size = int (length payload), Seq = 0\<rparr>,
      Data = payload\<rparr>"

lemma wf_vital_chunk:
  assumes "payload \<noteq> []" and "length payload < 2 ^ (split + 6)" and "0 \<le> sq" and "sq < 1024"
  shows "wf_chunk split (vital_chunk payload sq)"
  using assms by (simp add: wf_chunk_def wf_header_def vital_chunk_def) 

lemma wf_plain_chunk:
  assumes "payload \<noteq> []" and "length payload < 2 ^ (split + 6)"
  shows "wf_chunk split (plain_chunk payload)"
  using assms by (simp add: wf_chunk_def wf_header_def plain_chunk_def)

lemma message_bytes_nonempty:
  assumes "varint_contract L"
  shows "message_bytes L i_d sys fs \<noteq> []"
proof -
  have "AppendInt L [] v \<noteq> []" for v
    using varint_contract.encode_nonempty [OF assms, of "clamp32 v"]
      varint_contract.AppendInt_eq [OF assms, of "[]" v] by simp
  then show ?thesis
    by (simp add: message_bytes_def PackMsgID_def AppendMsgID_def Let_def)
qed

end
