(* ===== verification/Messages6.thy ===== *)
theory Messages6
  imports MsgFields Input
begin

text \<open>
  net6/constants.go, net6/messages.go, net6/builder.go: the message ids, the message builders and
  the packet builders of protocol 0.6. A Go string is its bytes; \<open>rnd\<close> stands for the sixteen
  bytes crypto/rand delivers and \<open>md5\<close> for crypto/md5.
\<close>

section \<open>Constants\<close>

definition MaxClients6 :: int where "MaxClients6 = 16"
definition Split6 :: nat where "Split6 = 4"

definition NetVersion6 :: "byte list" where
  "NetVersion6 = bytes_of ''0.6 626fce9a778df4d4''"

definition DDNetVersion :: int where "DDNetVersion = 19070"

definition DDNetVersionStr :: "byte list" where
  "DDNetVersionStr = bytes_of ''DDNet 19.0.7 (tw-protocol/go)''"

definition MsgCtrlKeepAlive6 :: int where "MsgCtrlKeepAlive6 = 0"
definition MsgCtrlConnect6 :: int where "MsgCtrlConnect6 = 1"
definition MsgCtrlConnectAccept6 :: int where "MsgCtrlConnectAccept6 = 2"
definition MsgCtrlAccept6 :: int where "MsgCtrlAccept6 = 3"
definition MsgCtrlClose6 :: int where "MsgCtrlClose6 = 4"
definition MsgSysEx6 :: int where "MsgSysEx6 = 0"
definition MsgSysInfo6 :: int where "MsgSysInfo6 = 1"
definition MsgSysMapChange6 :: int where "MsgSysMapChange6 = 2"
definition MsgSysMapData6 :: int where "MsgSysMapData6 = 3"
definition MsgSysConReady6 :: int where "MsgSysConReady6 = 4"
definition MsgSysSnap6 :: int where "MsgSysSnap6 = 5"
definition MsgSysSnapEmpty6 :: int where "MsgSysSnapEmpty6 = 6"
definition MsgSysSnapSingle6 :: int where "MsgSysSnapSingle6 = 7"
definition MsgSysSnapSmall6 :: int where "MsgSysSnapSmall6 = 8"
definition MsgSysInputTiming6 :: int where "MsgSysInputTiming6 = 9"
definition MsgSysRconAuthStatus6 :: int where "MsgSysRconAuthStatus6 = 10"
definition MsgSysRconLine6 :: int where "MsgSysRconLine6 = 11"
definition MsgSysAuthChallenge6 :: int where "MsgSysAuthChallenge6 = 12"
definition MsgSysAuthResult6 :: int where "MsgSysAuthResult6 = 13"
definition MsgSysReady6 :: int where "MsgSysReady6 = 14"
definition MsgSysEnterGame6 :: int where "MsgSysEnterGame6 = 15"
definition MsgSysInput6 :: int where "MsgSysInput6 = 16"
definition MsgSysRconCmd6 :: int where "MsgSysRconCmd6 = 17"
definition MsgSysRconAuth6 :: int where "MsgSysRconAuth6 = 18"
definition MsgSysRequestMapData6 :: int where "MsgSysRequestMapData6 = 19"
definition MsgSysAuthStart6 :: int where "MsgSysAuthStart6 = 20"
definition MsgSysAuthResponse6 :: int where "MsgSysAuthResponse6 = 21"
definition MsgSysPing6 :: int where "MsgSysPing6 = 22"
definition MsgSysPingReply6 :: int where "MsgSysPingReply6 = 23"
definition MsgSysError6 :: int where "MsgSysError6 = 24"
definition MsgSysRconCmdAdd6 :: int where "MsgSysRconCmdAdd6 = 25"
definition MsgSysRconCmdRem6 :: int where "MsgSysRconCmdRem6 = 26"
definition MsgGameSvMotd6 :: int where "MsgGameSvMotd6 = 1"
definition MsgGameSvBroadcast6 :: int where "MsgGameSvBroadcast6 = 2"
definition MsgGameSvChat6 :: int where "MsgGameSvChat6 = 3"
definition MsgGameSvKillMsg6 :: int where "MsgGameSvKillMsg6 = 4"
definition MsgGameSvSoundGlobal6 :: int where "MsgGameSvSoundGlobal6 = 5"
definition MsgGameSvTuneParams6 :: int where "MsgGameSvTuneParams6 = 6"
definition MsgGameSvExtraProjectile6 :: int where "MsgGameSvExtraProjectile6 = 7"
definition MsgGameSvReadyToEnter6 :: int where "MsgGameSvReadyToEnter6 = 8"
definition MsgGameSvWeaponPickup6 :: int where "MsgGameSvWeaponPickup6 = 9"
definition MsgGameSvEmoticon6 :: int where "MsgGameSvEmoticon6 = 10"
definition MsgGameSvVoteClearOptions6 :: int where "MsgGameSvVoteClearOptions6 = 11"
definition MsgGameSvVoteOptionListAdd6 :: int where "MsgGameSvVoteOptionListAdd6 = 12"
definition MsgGameSvVoteOptionAdd6 :: int where "MsgGameSvVoteOptionAdd6 = 13"
definition MsgGameSvVoteOptionRemove6 :: int where "MsgGameSvVoteOptionRemove6 = 14"
definition MsgGameSvVoteSet6 :: int where "MsgGameSvVoteSet6 = 15"
definition MsgGameSvVoteStatus6 :: int where "MsgGameSvVoteStatus6 = 16"
definition MsgGameClSay6 :: int where "MsgGameClSay6 = 17"
definition MsgGameClSetTeam6 :: int where "MsgGameClSetTeam6 = 18"
definition MsgGameClSetSpectatorMode6 :: int where "MsgGameClSetSpectatorMode6 = 19"
definition MsgGameClStartInfo6 :: int where "MsgGameClStartInfo6 = 20"
definition MsgGameClChangeInfo6 :: int where "MsgGameClChangeInfo6 = 21"
definition MsgGameClKill6 :: int where "MsgGameClKill6 = 22"
definition MsgGameClEmoticon6 :: int where "MsgGameClEmoticon6 = 23"
definition MsgGameClVote6 :: int where "MsgGameClVote6 = 24"
definition MsgGameClCallVote6 :: int where "MsgGameClCallVote6 = 25"
definition MsgGameSvDDRaceTimeLegacy6 :: int where "MsgGameSvDDRaceTimeLegacy6 = 26"
definition MsgGameSvRecordLegacy6 :: int where "MsgGameSvRecordLegacy6 = 27"
definition TeamWhisperSend6 :: int where "TeamWhisperSend6 = 2"
definition TeamWhisperRecv6 :: int where "TeamWhisperRecv6 = 3"

lemmas msg_ids6 = MsgCtrlKeepAlive6_def MsgCtrlConnect6_def MsgCtrlConnectAccept6_def
  MsgCtrlAccept6_def MsgCtrlClose6_def MsgSysEx6_def MsgSysInfo6_def MsgSysMapChange6_def
  MsgSysMapData6_def MsgSysConReady6_def MsgSysSnap6_def MsgSysSnapEmpty6_def
  MsgSysSnapSingle6_def MsgSysSnapSmall6_def MsgSysInputTiming6_def MsgSysRconAuthStatus6_def
  MsgSysRconLine6_def MsgSysAuthChallenge6_def MsgSysAuthResult6_def MsgSysReady6_def
  MsgSysEnterGame6_def MsgSysInput6_def MsgSysRconCmd6_def MsgSysRconAuth6_def
  MsgSysRequestMapData6_def MsgSysAuthStart6_def MsgSysAuthResponse6_def MsgSysPing6_def
  MsgSysPingReply6_def MsgSysError6_def MsgSysRconCmdAdd6_def MsgSysRconCmdRem6_def
  MsgGameSvMotd6_def MsgGameSvBroadcast6_def MsgGameSvChat6_def MsgGameSvKillMsg6_def
  MsgGameSvSoundGlobal6_def MsgGameSvTuneParams6_def MsgGameSvExtraProjectile6_def
  MsgGameSvReadyToEnter6_def MsgGameSvWeaponPickup6_def MsgGameSvEmoticon6_def
  MsgGameSvVoteClearOptions6_def MsgGameSvVoteOptionListAdd6_def MsgGameSvVoteOptionAdd6_def
  MsgGameSvVoteOptionRemove6_def MsgGameSvVoteSet6_def MsgGameSvVoteStatus6_def MsgGameClSay6_def
  MsgGameClSetTeam6_def MsgGameClSetSpectatorMode6_def MsgGameClStartInfo6_def
  MsgGameClChangeInfo6_def MsgGameClKill6_def MsgGameClEmoticon6_def MsgGameClVote6_def
  MsgGameClCallVote6_def MsgGameSvDDRaceTimeLegacy6_def MsgGameSvRecordLegacy6_def
  TeamWhisperSend6_def TeamWhisperRecv6_def

section \<open>Control messages\<close>

definition CtrlConnect6 :: "byte list \<Rightarrow> byte list" where
  "CtrlConnect6 clientToken =
     (let d = (replicate (1 + 512) 0)[0 := byte_of MsgCtrlConnect6] in copy_at d 5 clientToken)"

definition CtrlConnectAccept6 :: "byte list \<Rightarrow> byte list" where
  "CtrlConnectAccept6 serverToken =
     (let d = (replicate 5 0)[0 := byte_of MsgCtrlConnectAccept6] in copy_at d 1 serverToken)"

definition CtrlKeepAlive6 :: "byte list" where
  "CtrlKeepAlive6 = [byte_of MsgCtrlKeepAlive6]"

definition CtrlClose6 :: "byte list \<Rightarrow> byte list" where
  "CtrlClose6 reason =
     (let d = [byte_of MsgCtrlClose6] in if reason \<noteq> [] then d @ PackString reason else d)"

section \<open>System messages\<close>

definition SysInfo6 :: "varint_lib \<Rightarrow> byte list \<Rightarrow> byte list \<Rightarrow> byte list" where
  "SysInfo6 L version password =
     PackMsgID L MsgSysInfo6 True @ PackString version @ PackString password"

definition clientVerUUID :: "(byte list \<Rightarrow> byte list) \<Rightarrow> byte list" where
  "clientVerUUID md5 = CalculateUUID md5 (bytes_of ''clientver@ddnet.tw'')"

definition connUUID :: "byte list \<Rightarrow> byte list" where
  "connUUID rnd =
     (let c = pad_field 16 rnd; c6 = c[6 := ((c ! 6) AND 0x0f) OR 0x40] in
      c6[8 := ((c6 ! 8) AND 0x3f) OR 0x80])"

definition SysClientVer :: "varint_lib \<Rightarrow> (byte list \<Rightarrow> byte list) \<Rightarrow> byte list \<Rightarrow> byte list" where
  "SysClientVer L md5 rnd =
     PackMsgID L MsgSysEx6 True @ clientVerUUID md5 @ connUUID rnd @ PackInt L DDNetVersion
       @ PackString DDNetVersionStr"

definition SysReady6 :: "varint_lib \<Rightarrow> byte list" where
  "SysReady6 L = PackMsgID L MsgSysReady6 True"

definition SysEnterGame6 :: "varint_lib \<Rightarrow> byte list" where
  "SysEnterGame6 L = PackMsgID L MsgSysEnterGame6 True"

definition SysInput6 :: "varint_lib \<Rightarrow> int \<Rightarrow> int \<Rightarrow> int \<Rightarrow> byte list \<Rightarrow> byte list" where
  "SysInput6 L ackGameTick predTick inputSize inputData =
     (let d0 = AppendMsgID L [] MsgSysInput6 True;
          d1 = AppendInt L d0 ackGameTick;
          d2 = AppendInt L d1 predTick;
          d3 = AppendInt L d2 inputSize in
      d3 @ inputData)"

definition SysPing6 :: "varint_lib \<Rightarrow> byte list" where
  "SysPing6 L = PackMsgID L MsgSysPing6 True"

definition SysPingReply6 :: "varint_lib \<Rightarrow> byte list" where
  "SysPingReply6 L = PackMsgID L MsgSysPingReply6 True"

definition SysRconAuth6 :: "varint_lib \<Rightarrow> byte list \<Rightarrow> byte list" where
  "SysRconAuth6 L password =
     PackMsgID L MsgSysRconAuth6 True @ PackString [] @ PackString password @ PackInt L 1"

definition SysRconCmd6 :: "varint_lib \<Rightarrow> byte list \<Rightarrow> byte list" where
  "SysRconCmd6 L cmd = PackMsgID L MsgSysRconCmd6 True @ PackString cmd"

definition SysRequestMapData6 :: "varint_lib \<Rightarrow> int \<Rightarrow> byte list" where
  "SysRequestMapData6 L chunkIdx = PackMsgID L MsgSysRequestMapData6 True @ PackInt L chunkIdx"

section \<open>Game messages\<close>

definition GameClSay6 :: "varint_lib \<Rightarrow> bool \<Rightarrow> byte list \<Rightarrow> byte list" where
  "GameClSay6 L team message =
     PackMsgID L MsgGameClSay6 False @ PackBool L team @ PackString message"

definition GameClStartInfo6 ::
    "varint_lib \<Rightarrow> byte list \<Rightarrow> byte list \<Rightarrow> int \<Rightarrow> byte list \<Rightarrow> bool \<Rightarrow> int \<Rightarrow> int \<Rightarrow> byte list" where
  "GameClStartInfo6 L name clan country skin useCustomColor colorBody colorFeet =
     PackMsgID L MsgGameClStartInfo6 False @ PackString name @ PackString clan @ PackInt L country
       @ PackString skin @ PackBool L useCustomColor @ PackInt L colorBody @ PackInt L colorFeet"

definition GameClSetTeam6 :: "varint_lib \<Rightarrow> int \<Rightarrow> byte list" where
  "GameClSetTeam6 L team = PackMsgID L MsgGameClSetTeam6 False @ PackInt L team"

definition GameClKill6 :: "varint_lib \<Rightarrow> byte list" where
  "GameClKill6 L = PackMsgID L MsgGameClKill6 False"

definition GameClEmoticon6 :: "varint_lib \<Rightarrow> int \<Rightarrow> byte list" where
  "GameClEmoticon6 L emoticon = PackMsgID L MsgGameClEmoticon6 False @ PackInt L emoticon"

definition GameClVote6 :: "varint_lib \<Rightarrow> int \<Rightarrow> byte list" where
  "GameClVote6 L vote = PackMsgID L MsgGameClVote6 False @ PackInt L vote"

definition GameClCallVote6 :: "varint_lib \<Rightarrow> byte list \<Rightarrow> byte list \<Rightarrow> byte list \<Rightarrow> byte list" where
  "GameClCallVote6 L voteType v reason =
     PackMsgID L MsgGameClCallVote6 False @ PackString voteType @ PackString v @ PackString reason"

definition GameClSetSpectatorMode6 :: "varint_lib \<Rightarrow> int \<Rightarrow> byte list" where
  "GameClSetSpectatorMode6 L spectatorID =
     PackMsgID L MsgGameClSetSpectatorMode6 False @ PackInt L spectatorID"

definition GameClChangeInfo6 ::
    "varint_lib \<Rightarrow> byte list \<Rightarrow> byte list \<Rightarrow> int \<Rightarrow> byte list \<Rightarrow> bool \<Rightarrow> int \<Rightarrow> int \<Rightarrow> byte list" where
  "GameClChangeInfo6 L name clan country skin useCustomColor colorBody colorFeet =
     PackMsgID L MsgGameClChangeInfo6 False @ PackString name @ PackString clan @ PackInt L country
       @ PackString skin @ PackBool L useCustomColor @ PackInt L colorBody @ PackInt L colorFeet"

section \<open>Chunks and packets\<close>

definition WrapVitalChunk6 :: "byte list \<Rightarrow> int \<Rightarrow> byte list" where
  "WrapVitalChunk6 payload sq =
     chunk_pack \<lparr>Flags = \<lparr>Vital = True, Resend = False\<rparr>, Size = int (length payload), Seq = sq\<rparr> Split6
       @ payload"

definition WrapChunk6 :: "byte list \<Rightarrow> byte list" where
  "WrapChunk6 payload =
     chunk_pack \<lparr>Flags = \<lparr>Vital = False, Resend = False\<rparr>, Size = int (length payload), Seq = 0\<rparr> Split6
       @ payload"

definition no_flags6 :: flags6 where
  "no_flags6 = \<lparr>f6_compression = False, f6_resend = False, f6_connless = False,
     f6_control = False, f6_token = False\<rparr>"

definition zero_token :: "byte list" where "zero_token = replicate 4 0"

definition BuildCtrlPacket6 :: "byte list \<Rightarrow> int \<Rightarrow> byte list \<Rightarrow> byte list" where
  "BuildCtrlPacket6 token ack payload =
     header6_pack \<lparr>h6_flags = no_flags6\<lparr>f6_control := True, f6_token := True\<rparr>, h6_ack = ack,
       h6_num_chunks = 0, h6_token = token\<rparr> @ payload"

definition BuildCtrlPacketNoToken :: "int \<Rightarrow> byte list \<Rightarrow> byte list" where
  "BuildCtrlPacketNoToken ack payload =
     header6_pack \<lparr>h6_flags = no_flags6\<lparr>f6_control := True\<rparr>, h6_ack = ack,
       h6_num_chunks = 0, h6_token = zero_token\<rparr> @ payload"

definition BuildConnect6 :: "byte list \<Rightarrow> byte list" where
  "BuildConnect6 clientToken = BuildCtrlPacketNoToken 0 (CtrlConnect6 clientToken)"

definition BuildKeepAlive6 :: "byte list \<Rightarrow> int \<Rightarrow> byte list" where
  "BuildKeepAlive6 token ack = BuildCtrlPacket6 token ack CtrlKeepAlive6"

definition BuildClose6 :: "byte list \<Rightarrow> int \<Rightarrow> byte list \<Rightarrow> byte list" where
  "BuildClose6 token ack reason = BuildCtrlPacket6 token ack (CtrlClose6 reason)"

definition BuildChunkPacket6 :: "byte list \<Rightarrow> int \<Rightarrow> int \<Rightarrow> bool \<Rightarrow> byte list \<Rightarrow> byte list" where
  "BuildChunkPacket6 token ack numChunks compressed chunkData =
     header6_pack \<lparr>h6_flags = no_flags6\<lparr>f6_token := True, f6_compression := compressed\<rparr>, h6_ack = ack,
       h6_num_chunks = numChunks, h6_token = token\<rparr> @ chunkData"

definition BuildInfoPacket6 :: "varint_lib \<Rightarrow> byte list \<Rightarrow> int \<Rightarrow> int \<Rightarrow> byte list" where
  "BuildInfoPacket6 L token ack sq =
     BuildChunkPacket6 token ack 1 False (WrapVitalChunk6 (SysInfo6 L NetVersion6 []) sq)"

definition BuildReadyPacket6 :: "varint_lib \<Rightarrow> byte list \<Rightarrow> int \<Rightarrow> int \<Rightarrow> byte list" where
  "BuildReadyPacket6 L token ack sq =
     BuildChunkPacket6 token ack 1 False (WrapVitalChunk6 (SysReady6 L) sq)"

definition BuildEnterGamePacket6 :: "varint_lib \<Rightarrow> byte list \<Rightarrow> int \<Rightarrow> int \<Rightarrow> byte list" where
  "BuildEnterGamePacket6 L token ack sq =
     BuildChunkPacket6 token ack 1 False (WrapVitalChunk6 (SysEnterGame6 L) sq)"

definition BuildStartInfoPacket6 ::
    "varint_lib \<Rightarrow> byte list \<Rightarrow> int \<Rightarrow> int \<Rightarrow> byte list \<Rightarrow> byte list \<Rightarrow> byte list \<Rightarrow> int \<Rightarrow> byte list" where
  "BuildStartInfoPacket6 L token ack sq name clan skin country =
     BuildChunkPacket6 token ack 1 False
       (WrapVitalChunk6 (GameClStartInfo6 L name clan country skin True 65408 65408) sq)"

section \<open>The messages a client sends\<close>

text \<open>One constructor per builder, with the fields its message carries on the wire.\<close>

datatype client_msg6 =
    CInfo6 "byte list" "byte list"
  | CClientVer6
  | CReady6
  | CEnterGame6
  | CInput6 int int int "byte list"
  | CPing6
  | CPingReply6
  | CRconAuth6 "byte list"
  | CRconCmd6 "byte list"
  | CRequestMapData6 int
  | CSay6 bool "byte list"
  | CStartInfo6 "byte list" "byte list" int "byte list" bool int int
  | CSetTeam6 int
  | CKill6
  | CEmoticon6 int
  | CVote6 int
  | CCallVote6 "byte list" "byte list" "byte list"
  | CSetSpectatorMode6 int
  | CChangeInfo6 "byte list" "byte list" int "byte list" bool int int

fun build_msg6 :: "varint_lib \<Rightarrow> (byte list \<Rightarrow> byte list) \<Rightarrow> byte list \<Rightarrow> client_msg6 \<Rightarrow> byte list" where
  "build_msg6 L md5 rnd (CInfo6 a0 a1) = SysInfo6 L a0 a1"
| "build_msg6 L md5 rnd CClientVer6 = SysClientVer L md5 rnd"
| "build_msg6 L md5 rnd CReady6 = SysReady6 L"
| "build_msg6 L md5 rnd CEnterGame6 = SysEnterGame6 L"
| "build_msg6 L md5 rnd (CInput6 a0 a1 a2 a3) = SysInput6 L a0 a1 a2 a3"
| "build_msg6 L md5 rnd CPing6 = SysPing6 L"
| "build_msg6 L md5 rnd CPingReply6 = SysPingReply6 L"
| "build_msg6 L md5 rnd (CRconAuth6 a0) = SysRconAuth6 L a0"
| "build_msg6 L md5 rnd (CRconCmd6 a0) = SysRconCmd6 L a0"
| "build_msg6 L md5 rnd (CRequestMapData6 a0) = SysRequestMapData6 L a0"
| "build_msg6 L md5 rnd (CSay6 a0 a1) = GameClSay6 L a0 a1"
| "build_msg6 L md5 rnd (CStartInfo6 a0 a1 a2 a3 a4 a5 a6) = GameClStartInfo6 L a0 a1 a2 a3 a4 a5 a6"
| "build_msg6 L md5 rnd (CSetTeam6 a0) = GameClSetTeam6 L a0"
| "build_msg6 L md5 rnd CKill6 = GameClKill6 L"
| "build_msg6 L md5 rnd (CEmoticon6 a0) = GameClEmoticon6 L a0"
| "build_msg6 L md5 rnd (CVote6 a0) = GameClVote6 L a0"
| "build_msg6 L md5 rnd (CCallVote6 a0 a1 a2) = GameClCallVote6 L a0 a1 a2"
| "build_msg6 L md5 rnd (CSetSpectatorMode6 a0) = GameClSetSpectatorMode6 L a0"
| "build_msg6 L md5 rnd (CChangeInfo6 a0 a1 a2 a3 a4 a5 a6) = GameClChangeInfo6 L a0 a1 a2 a3 a4 a5 a6"

fun msg_shape6 :: "(byte list \<Rightarrow> byte list) \<Rightarrow> byte list \<Rightarrow> client_msg6 \<Rightarrow> int \<times> bool \<times> field list" where
  "msg_shape6 md5 rnd (CInfo6 a0 a1) =
     (MsgSysInfo6, True, [FStr a0, FStr a1])"
| "msg_shape6 md5 rnd CClientVer6 =
     (MsgSysEx6, True, [FRaw (clientVerUUID md5), FRaw (connUUID rnd), FInt DDNetVersion,
        FStr DDNetVersionStr])"
| "msg_shape6 md5 rnd CReady6 =
     (MsgSysReady6, True, [])"
| "msg_shape6 md5 rnd CEnterGame6 =
     (MsgSysEnterGame6, True, [])"
| "msg_shape6 md5 rnd (CInput6 a0 a1 a2 a3) =
     (MsgSysInput6, True, [FInt a0, FInt a1, FInt a2, FRaw a3])"
| "msg_shape6 md5 rnd CPing6 =
     (MsgSysPing6, True, [])"
| "msg_shape6 md5 rnd CPingReply6 =
     (MsgSysPingReply6, True, [])"
| "msg_shape6 md5 rnd (CRconAuth6 a0) =
     (MsgSysRconAuth6, True, [FStr [], FStr a0, FInt 1])"
| "msg_shape6 md5 rnd (CRconCmd6 a0) =
     (MsgSysRconCmd6, True, [FStr a0])"
| "msg_shape6 md5 rnd (CRequestMapData6 a0) =
     (MsgSysRequestMapData6, True, [FInt a0])"
| "msg_shape6 md5 rnd (CSay6 a0 a1) =
     (MsgGameClSay6, False, [FBool a0, FStr a1])"
| "msg_shape6 md5 rnd (CStartInfo6 a0 a1 a2 a3 a4 a5 a6) =
     (MsgGameClStartInfo6, False, [FStr a0, FStr a1, FInt a2, FStr a3, FBool a4, FInt a5, FInt a6])"
| "msg_shape6 md5 rnd (CSetTeam6 a0) =
     (MsgGameClSetTeam6, False, [FInt a0])"
| "msg_shape6 md5 rnd CKill6 =
     (MsgGameClKill6, False, [])"
| "msg_shape6 md5 rnd (CEmoticon6 a0) =
     (MsgGameClEmoticon6, False, [FInt a0])"
| "msg_shape6 md5 rnd (CVote6 a0) =
     (MsgGameClVote6, False, [FInt a0])"
| "msg_shape6 md5 rnd (CCallVote6 a0 a1 a2) =
     (MsgGameClCallVote6, False, [FStr a0, FStr a1, FStr a2])"
| "msg_shape6 md5 rnd (CSetSpectatorMode6 a0) =
     (MsgGameClSetSpectatorMode6, False, [FInt a0])"
| "msg_shape6 md5 rnd (CChangeInfo6 a0 a1 a2 a3 a4 a5 a6) =
     (MsgGameClChangeInfo6, False, [FStr a0, FStr a1, FInt a2, FStr a3, FBool a4, FInt a5, FInt a6])"

text \<open>Every builder writes its id and its fields in order.\<close>

lemma build_msg6_eq:
  assumes "varint_contract L" and "msg_shape6 md5 rnd m = (i_d, sys, fs)"
  shows "build_msg6 L md5 rnd m = message_bytes L i_d sys fs"
  using assms(2)
  by (cases m) (auto simp: message_bytes_def SysInfo6_def SysClientVer_def SysReady6_def SysEnterGame6_def
      SysInput6_def SysPing6_def SysPingReply6_def SysRconAuth6_def SysRconCmd6_def
      SysRequestMapData6_def GameClSay6_def GameClStartInfo6_def GameClSetTeam6_def GameClKill6_def
      GameClEmoticon6_def GameClVote6_def GameClCallVote6_def GameClSetSpectatorMode6_def
      GameClChangeInfo6_def PackMsgID_def PackInt_def
      varint_contract.AppendInt_eq [OF assms(1)] varint_contract.AppendInt_eq [OF assms(1), of "[]"])

lemma msg_shape6_id: "msg_shape6 md5 rnd m = (i_d, sys, fs) \<Longrightarrow> 0 \<le> i_d \<and> i_d < 32"
  by (cases m) (auto simp: msg_ids6)

end
