(* ===== verification/ServerEvents6.thy ===== *)
theory ServerEvents6
  imports Messages6 Events
begin

text \<open>
  net6/events.go, net6/events_ex.go and the message decoders of net6/reader.go: what each server
  message of protocol 0.6 emits. A decoder is the function from the message body to the list of
  emitted events; \<open>md5\<close> is crypto/md5, with which the ids of the extended messages are computed.
  \<open>storeCapabilities\<close> also writes the session: see the theory of the reader.
\<close>

section \<open>Running a decoder on a message body\<close>

text \<open>An error of a read ends the decoder silently; a panic would not be silent.\<close>

definition run_decoder :: "(unpacker, 'a list) gost \<Rightarrow> byte list \<Rightarrow> goerr + 'a list" where
  "run_decoder m d =
     (case fst (m (NewUnpacker d)) of
        Inr evs \<Rightarrow> Inr evs
      | Inl e \<Rightarrow> if is_panic e then Inl e else Inr [])"

text \<open>\<open>for { v, err := u.NextInt(); if err != nil { break }; ... }\<close>: all integers up to the end.\<close>

function raw_ints :: "varint_lib \<Rightarrow> unpacker \<Rightarrow> int list" where
  "raw_ints L u =
     (case NextInt L u of (Inl e, u') \<Rightarrow> [] | (Inr v, u') \<Rightarrow> v # raw_ints L u')"
  by auto
termination
  by (relation "measure (\<lambda>(L, u). length (udata u) - uidx u)") (auto dest!: sym [THEN NextInt_progress])

declare raw_ints.simps [simp del]

section \<open>Game messages\<close>

definition processChat6 :: "varint_lib \<Rightarrow> byte list \<Rightarrow> goerr + event list" where
  "processChat6 L = run_decoder
     (bnd (NextInt L) (\<lambda>team. bnd (NextInt L) (\<lambda>cid. bnd NextString (\<lambda>msg.
      ret [if team = TeamWhisperRecv6 then Chat (EventWhisper cid (- 1) msg)
           else if team = TeamWhisperSend6 then Chat (EventWhisper (- 1) cid msg)
           else if cid = - 1 then Chat (EventServerMsg msg)
           else Chat (EventChat team cid msg)]))))"

definition processBroadcast6 :: "byte list \<Rightarrow> goerr + event list" where
  "processBroadcast6 = run_decoder (bnd NextString (\<lambda>txt. ret [Chat (EventBroadcast txt)]))"

definition processMotd6 :: "byte list \<Rightarrow> goerr + event list" where
  "processMotd6 = run_decoder (bnd NextString (\<lambda>txt. ret [Chat (EventMotd txt)]))"

definition processKillMsg6 :: "varint_lib \<Rightarrow> byte list \<Rightarrow> goerr + event list" where
  "processKillMsg6 L = run_decoder
     (bnd (NextInt L) (\<lambda>killer. bnd (NextInt L) (\<lambda>victim. bnd (NextInt L) (\<lambda>weapon.
      bnd (NextInt L) (\<lambda>modeSpecial. ret [Chat (EventKill killer victim weapon modeSpecial)])))))"

definition processSoundGlobal6 :: "varint_lib \<Rightarrow> byte list \<Rightarrow> goerr + event list" where
  "processSoundGlobal6 L = run_decoder
     (bnd (NextInt L) (\<lambda>soundID. ret [Chat (EventSoundGlobal soundID)]))"

definition processTuneParams6 :: "varint_lib \<Rightarrow> byte list \<Rightarrow> goerr + event list" where
  "processTuneParams6 L d = Inr [Chat (EventTuneParams (map s32 (raw_ints L (NewUnpacker d))))]"

definition processWeaponPickup6 :: "varint_lib \<Rightarrow> byte list \<Rightarrow> goerr + event list" where
  "processWeaponPickup6 L = run_decoder
     (bnd (NextInt L) (\<lambda>weapon. ret [Chat (EventWeaponPickup weapon)]))"

definition processEmoticon6 :: "varint_lib \<Rightarrow> byte list \<Rightarrow> goerr + event list" where
  "processEmoticon6 L = run_decoder
     (bnd (NextInt L) (\<lambda>cid. bnd (NextInt L) (\<lambda>emoticon. ret [Chat (EventEmoticon cid emoticon)])))"

definition processVoteSet6 :: "varint_lib \<Rightarrow> byte list \<Rightarrow> goerr + event list" where
  "processVoteSet6 L = run_decoder
     (bnd (NextInt L) (\<lambda>timeout. bnd NextString (\<lambda>desc. bnd NextString (\<lambda>reason.
      ret [Chat (EventVoteSet timeout desc reason)]))))"

definition processVoteStatus6 :: "varint_lib \<Rightarrow> byte list \<Rightarrow> goerr + event list" where
  "processVoteStatus6 L = run_decoder
     (bnd (NextInt L) (\<lambda>yes. bnd (NextInt L) (\<lambda>no. bnd (NextInt L) (\<lambda>pass.
      bnd (NextInt L) (\<lambda>total. ret [Chat (EventVoteStatus yes no pass total)])))))"

definition processVoteOptionAdd6 :: "byte list \<Rightarrow> goerr + event list" where
  "processVoteOptionAdd6 =
     run_decoder (bnd NextString (\<lambda>desc. ret [Chat (EventVoteOption VoteOptionAdd desc)]))"

definition processVoteOptionRemove6 :: "byte list \<Rightarrow> goerr + event list" where
  "processVoteOptionRemove6 =
     run_decoder (bnd NextString (\<lambda>desc. ret [Chat (EventVoteOption VoteOptionRemove desc)]))"

definition processVoteClearOptions6 :: "goerr + event list" where
  "processVoteClearOptions6 = Inr [Chat (EventVoteOption VoteOptionClear [])]"

text \<open>The loop \<open>for range n\<close>: the options read before a failing one have been emitted.\<close>

fun vote_options6 :: "nat \<Rightarrow> (unpacker, event list) gost" where
  "vote_options6 0 u = (Inr [], u)"
| "vote_options6 (Suc k) u =
     (case NextString u of
        (Inl e, u') \<Rightarrow> if is_panic e then (Inl e, u') else (Inr [], u')
      | (Inr desc, u') \<Rightarrow>
          bnd (vote_options6 k) (\<lambda>evs. ret (Chat (EventVoteOption VoteOptionAdd desc) # evs)) u')"

definition processVoteOptionListAdd6 :: "varint_lib \<Rightarrow> byte list \<Rightarrow> goerr + event list" where
  "processVoteOptionListAdd6 L = run_decoder (bnd (NextInt L) (\<lambda>n. vote_options6 (nat n)))"

definition processDDRaceTime6 :: "varint_lib \<Rightarrow> byte list \<Rightarrow> goerr + event list" where
  "processDDRaceTime6 L = run_decoder
     (bnd (NextInt L) (\<lambda>timeCentis. bnd (NextInt L) (\<lambda>checkCentis. bnd (NextInt L) (\<lambda>finishVal.
      let fin = (finishVal \<noteq> 0) in
      ret ((if fin \<or> timeCentis \<noteq> 0 then [Core (EventRaceFinish timeCentis fin)] else [])
         @ (if checkCentis \<noteq> 0 then [Core (EventCheckpoint checkCentis)] else []))))))"

definition processRecord6 :: "varint_lib \<Rightarrow> byte list \<Rightarrow> goerr + event list" where
  "processRecord6 L = run_decoder
     (bnd (NextInt L) (\<lambda>serverBest. bnd (NextInt L) (\<lambda>playerBest.
      ret [Core (EventRecord serverBest playerBest)])))"

definition processInputTiming6 :: "varint_lib \<Rightarrow> byte list \<Rightarrow> goerr + event list" where
  "processInputTiming6 L = run_decoder
     (bnd (NextInt L) (\<lambda>intendedTick. bnd (NextInt L) (\<lambda>timeLeft.
      ret [Core (EventInputTiming intendedTick timeLeft)])))"

section \<open>System messages\<close>

definition processRconLine6 :: "byte list \<Rightarrow> goerr + event list" where
  "processRconLine6 = run_decoder (bnd NextString (\<lambda>line. ret [Rcon (EventRconLine line)]))"

definition processRconAuthStatus6 :: "varint_lib \<Rightarrow> byte list \<Rightarrow> goerr + event list" where
  "processRconAuthStatus6 L = run_decoder
     (bnd (NextInt L) (\<lambda>authed. ret [Rcon (EventRconAuth (authed \<noteq> 0) authed)]))"

definition processRconCmdAdd6 :: "byte list \<Rightarrow> goerr + event list" where
  "processRconCmdAdd6 = run_decoder
     (bnd NextString (\<lambda>name. bnd NextString (\<lambda>help. bnd NextString (\<lambda>params.
      ret [Rcon (EventRconCmd RconCmdAdd name help params)]))))"

definition processRconCmdRem6 :: "byte list \<Rightarrow> goerr + event list" where
  "processRconCmdRem6 = run_decoder
     (bnd NextString (\<lambda>name. ret [Rcon (EventRconCmd RconCmdRemove name [] [])]))"

definition processServerError6 :: "byte list \<Rightarrow> goerr + event list" where
  "processServerError6 = run_decoder (bnd NextString (\<lambda>msg. ret [Rcon (EventServerError msg)]))"

section \<open>Extended messages\<close>

definition uuidSvTeamsState :: "(byte list \<Rightarrow> byte list) \<Rightarrow> byte list" where
  "uuidSvTeamsState md5 = CalculateUUID md5 (bytes_of ''teamsstate@netmsg.ddnet.tw'')"
definition uuidSvDDRaceTime :: "(byte list \<Rightarrow> byte list) \<Rightarrow> byte list" where
  "uuidSvDDRaceTime md5 = CalculateUUID md5 (bytes_of ''ddrace-time@netmsg.ddnet.tw'')"
definition uuidSvRecord :: "(byte list \<Rightarrow> byte list) \<Rightarrow> byte list" where
  "uuidSvRecord md5 = CalculateUUID md5 (bytes_of ''record@netmsg.ddnet.tw'')"
definition uuidSvKillMsgTeam :: "(byte list \<Rightarrow> byte list) \<Rightarrow> byte list" where
  "uuidSvKillMsgTeam md5 = CalculateUUID md5 (bytes_of ''killmsgteam@netmsg.ddnet.tw'')"
definition uuidSvYourVote :: "(byte list \<Rightarrow> byte list) \<Rightarrow> byte list" where
  "uuidSvYourVote md5 = CalculateUUID md5 (bytes_of ''yourvote@netmsg.ddnet.org'')"
definition uuidSvRaceFinish :: "(byte list \<Rightarrow> byte list) \<Rightarrow> byte list" where
  "uuidSvRaceFinish md5 = CalculateUUID md5 (bytes_of ''racefinish@netmsg.ddnet.org'')"
definition uuidSvCommandInfo :: "(byte list \<Rightarrow> byte list) \<Rightarrow> byte list" where
  "uuidSvCommandInfo md5 = CalculateUUID md5 (bytes_of ''commandinfo@netmsg.ddnet.org'')"
definition uuidSvCommandInfoRemove :: "(byte list \<Rightarrow> byte list) \<Rightarrow> byte list" where
  "uuidSvCommandInfoRemove md5 = CalculateUUID md5 (bytes_of ''commandinfo-remove@netmsg.ddnet.org'')"
definition uuidSvChangeInfoCooldown :: "(byte list \<Rightarrow> byte list) \<Rightarrow> byte list" where
  "uuidSvChangeInfoCooldown md5 = CalculateUUID md5 (bytes_of ''change-info-cooldown@netmsg.ddnet.org'')"
definition uuidSvMapSoundGlobal :: "(byte list \<Rightarrow> byte list) \<Rightarrow> byte list" where
  "uuidSvMapSoundGlobal md5 = CalculateUUID md5 (bytes_of ''map-sound-global@netmsg.ddnet.org'')"
definition uuidCapabilities6 :: "(byte list \<Rightarrow> byte list) \<Rightarrow> byte list" where
  "uuidCapabilities6 md5 = CalculateUUID md5 (bytes_of ''capabilities@ddnet.tw'')"

text \<open>One team per client id; a client in no team is left out.\<close>

definition teams_of :: "int list \<Rightarrow> (int, int) mapping" where
  "teams_of vs =
     foldl (\<lambda>m (cid, v). if v \<noteq> 0 then Mapping.update (int cid) v m else m) Mapping.empty
       (enumerate 0 vs)"

definition processExTeamsState :: "varint_lib \<Rightarrow> byte list \<Rightarrow> goerr + event list" where
  "processExTeamsState L d =
     Inr [Rcon (EventTeamsState (teams_of (raw_ints L (NewUnpacker d))))]"

definition processExKillMsgTeam :: "varint_lib \<Rightarrow> byte list \<Rightarrow> goerr + event list" where
  "processExKillMsgTeam L = run_decoder
     (bnd (NextInt L) (\<lambda>team. bnd (NextInt L) (\<lambda>fst_id. ret [Rcon (EventKillMsgTeam team fst_id)])))"

definition processExYourVote :: "varint_lib \<Rightarrow> byte list \<Rightarrow> goerr + event list" where
  "processExYourVote L = run_decoder (bnd (NextInt L) (\<lambda>voted. ret [Chat (EventYourVote voted)]))"

definition processExRaceFinish :: "varint_lib \<Rightarrow> byte list \<Rightarrow> goerr + event list" where
  "processExRaceFinish L = run_decoder
     (bnd (NextInt L) (\<lambda>_. bnd (NextInt L) (\<lambda>timeCentis.
      ret [Core (EventRaceFinish timeCentis True)])))"

definition processExCommandInfo :: "byte list \<Rightarrow> goerr + event list" where
  "processExCommandInfo = run_decoder
     (bnd NextString (\<lambda>name. bnd NextString (\<lambda>args. bnd NextString (\<lambda>help.
      ret [Rcon (EventCommandInfo name help args)]))))"

definition processExCommandInfoRemove :: "byte list \<Rightarrow> goerr + event list" where
  "processExCommandInfoRemove =
     run_decoder (bnd NextString (\<lambda>name. ret [Rcon (EventCommandInfoRemove name)]))"

definition processExChangeInfoCooldown :: "varint_lib \<Rightarrow> byte list \<Rightarrow> goerr + event list" where
  "processExChangeInfoCooldown L = run_decoder
     (bnd (NextInt L) (\<lambda>waitUntil. ret [Rcon (EventChangeInfoCooldown waitUntil)]))"

definition processExMapSoundGlobal :: "varint_lib \<Rightarrow> byte list \<Rightarrow> goerr + event list" where
  "processExMapSoundGlobal L = run_decoder
     (bnd (NextInt L) (\<lambda>soundID. ret [Rcon (EventMapSoundGlobal soundID)]))"

text \<open>The body of the capabilities message; None when \<open>storeCapabilities\<close> reports failure.\<close>

definition capabilities_of :: "varint_lib \<Rightarrow> byte list \<Rightarrow> server_capabilities option" where
  "capabilities_of L body =
     (case NextInt L (NewUnpacker body) of
        (Inl e, u) \<Rightarrow> None
      | (Inr version, u) \<Rightarrow>
          if version \<le> 0 then None
          else (case NextInt L u of
                  (Inl e, _) \<Rightarrow> None
                | (Inr flags, _) \<Rightarrow> Some (ParseServerCapabilities version flags)))"

end
