(* ===== verification/Session6.thy ===== *)
theory Session6
  imports Session ServerEvents6 SnapObjs Huffman
begin

text \<open>
  net6/session.go and net6/reader.go: the session of protocol 0.6 with its senders, its packet
  parser, the dispatch of received chunks and the reader's loop. The handshake and the login are in
  Login6, the map download in MapDownload.
\<close>

section \<open>State\<close>

record 'm session6 = "'m session" +
  s6_securityToken :: "byte list"

definition securityTokenMagic :: "byte list" where
  "securityTokenMagic = bytes_of ''TKEN''"

definition SecurityTokenUnknown :: "byte list" where
  "SecurityTokenUnknown = [0xFF, 0xFF, 0xFF, 0xFF]"

definition HasSecurityToken :: "('m, 'z) session6_scheme \<Rightarrow> bool" where
  "HasSecurityToken s \<longleftrightarrow> s6_securityToken s \<noteq> SecurityTokenUnknown"

definition appendSecurityToken :: "byte list \<Rightarrow> ('m, 'z) session6_scheme \<Rightarrow> byte list" where
  "appendSecurityToken pkt s = (if HasSecurityToken s then pkt @ s6_securityToken s else pkt)"

definition stripSecurityToken :: "('m, 'z) session6_scheme \<Rightarrow> byte list \<Rightarrow> byte list" where
  "stripSecurityToken s payload =
     (if HasSecurityToken s \<and> length payload \<ge> 4 then take (length payload - 4) payload else payload)"

section \<open>Sending\<close>

definition sendPacket6 :: "byte list \<Rightarrow> (('m, 'z) session6_scheme, unit) gost" where
  "sendPacket6 pkt s = SendRaw (appendSecurityToken pkt s) s"

definition SendCtrl6 :: "byte list \<Rightarrow> (('m, 'z) session6_scheme, unit) gost" where
  "SendCtrl6 payload s = sendPacket6 (BuildCtrlPacketNoToken (s_ack s) payload) s"

definition session_chunk_packet6 :: "int \<Rightarrow> byte list \<Rightarrow> ('m, 'z) session6_scheme \<Rightarrow> byte list" where
  "session_chunk_packet6 numChunks chunkData s =
     (let hdr = \<lparr>h6_flags = no_flags6, h6_ack = s_ack s, h6_num_chunks = numChunks,
                 h6_token = zero_token\<rparr>;
          pkt = header6_pack hdr @ chunkData in
      appendSecurityToken pkt s)"

definition SendChunks6 :: "int \<Rightarrow> byte list \<Rightarrow> (('m, 'z) session6_scheme, unit) gost" where
  "SendChunks6 numChunks chunkData s = SendRaw (session_chunk_packet6 numChunks chunkData s) s"

definition SendVitalMsg6 :: "byte list \<Rightarrow> (('m, 'z) session6_scheme, unit) gost" where
  "SendVitalMsg6 payload = bnd NextSeq (\<lambda>sq. SendChunks6 1 (WrapVitalChunk6 payload sq))"

definition SendNonVitalMsg6 :: "byte list \<Rightarrow> (('m, 'z) session6_scheme, unit) gost" where
  "SendNonVitalMsg6 payload = SendChunks6 1 (WrapChunk6 payload)"

definition SendKeepAlive6 :: "(('m, 'z) session6_scheme, unit) gost" where
  "SendKeepAlive6 = SendCtrl6 CtrlKeepAlive6"

definition SendInput6 ::
    "varint_lib \<Rightarrow> int \<Rightarrow> int \<Rightarrow> int \<Rightarrow> byte list \<Rightarrow> (('m, 'z) session6_scheme, unit) gost" where
  "SendInput6 L tick predTick inputSize inputData s =
     (let tick' = (if s_lastAckedSnap s > tick then s_lastAckedSnap s else tick) in
      SendNonVitalMsg6 (SysInput6 L tick' predTick inputSize inputData) s)"

definition SendChat6 :: "varint_lib \<Rightarrow> byte list \<Rightarrow> (('m, 'z) session6_scheme, unit) gost" where
  "SendChat6 L msg = SendVitalMsg6 (GameClSay6 L False msg)"

definition SendChatTeam6 :: "varint_lib \<Rightarrow> bool \<Rightarrow> byte list \<Rightarrow> (('m, 'z) session6_scheme, unit) gost" where
  "SendChatTeam6 L team msg = SendVitalMsg6 (GameClSay6 L team msg)"

definition SendWhisper6 :: "varint_lib \<Rightarrow> int \<Rightarrow> byte list \<Rightarrow> (('m, 'z) session6_scheme, unit) gost" where
  "SendWhisper6 L toID msg =
     SendVitalMsg6 (GameClSay6 L False (bytes_of ''/whisper '' @ decimal toID @ bytes_of '' '' @ msg))"

definition SendKill6 :: "varint_lib \<Rightarrow> (('m, 'z) session6_scheme, unit) gost" where
  "SendKill6 L = SendVitalMsg6 (GameClKill6 L)"

definition SendRconAuth6 :: "varint_lib \<Rightarrow> byte list \<Rightarrow> (('m, 'z) session6_scheme, unit) gost" where
  "SendRconAuth6 L password = SendVitalMsg6 (SysRconAuth6 L password)"

definition SendRconCmd6 :: "varint_lib \<Rightarrow> byte list \<Rightarrow> (('m, 'z) session6_scheme, unit) gost" where
  "SendRconCmd6 L cmd = SendVitalMsg6 (SysRconCmd6 L cmd)"

definition SendEmoticon6 :: "varint_lib \<Rightarrow> int \<Rightarrow> (('m, 'z) session6_scheme, unit) gost" where
  "SendEmoticon6 L e = SendVitalMsg6 (GameClEmoticon6 L e)"

definition SendSetTeam6 :: "varint_lib \<Rightarrow> int \<Rightarrow> (('m, 'z) session6_scheme, unit) gost" where
  "SendSetTeam6 L team = SendVitalMsg6 (GameClSetTeam6 L team)"

definition SendSpectate6 :: "varint_lib \<Rightarrow> int \<Rightarrow> (('m, 'z) session6_scheme, unit) gost" where
  "SendSpectate6 L spectatorID = SendVitalMsg6 (GameClSetSpectatorMode6 L spectatorID)"

definition SendVote6 :: "varint_lib \<Rightarrow> bool \<Rightarrow> (('m, 'z) session6_scheme, unit) gost" where
  "SendVote6 L approve = SendVitalMsg6 (GameClVote6 L (if approve then 1 else - 1))"

definition SendCallVote6 ::
    "varint_lib \<Rightarrow> byte list \<Rightarrow> byte list \<Rightarrow> byte list \<Rightarrow> (('m, 'z) session6_scheme, unit) gost" where
  "SendCallVote6 L voteType v reason = SendVitalMsg6 (GameClCallVote6 L voteType v reason)"

text \<open>\<open>Close\<close> up to the closing of the socket.\<close>

definition Close6 :: "(('m, 'z) session6_scheme, unit) gost" where
  "Close6 s =
     dropped (SendRaw (appendSecurityToken (BuildCtrlPacketNoToken (s_ack s) [byte_of MsgCtrlClose6]) s)) s"

section \<open>Receiving\<close>

definition zero_header6 :: header6 where
  "zero_header6 = \<lparr>h6_flags = no_flags6, h6_ack = 0, h6_num_chunks = 0, h6_token = zero_token\<rparr>"

text \<open>A nil payload is None. Compression is undone before the token is stripped.\<close>

definition parsePayload6 ::
    "huff_lib \<Rightarrow> ('m, 'z) session6_scheme \<Rightarrow> byte list \<Rightarrow> goerr + header6 \<times> byte list option" where
  "parsePayload6 H s resp =
     (case header6_unpack zero_header6 resp of
        (Some e, hdr) \<Rightarrow> Inl e
      | (None, hdr) \<Rightarrow>
          (let payloadStart = header6_size hdr in
           if payloadStart \<ge> length resp then Inr (hdr, None)
           else
             (let payload = drop payloadStart resp;
                  payload' =
                    (if f6_compression (h6_flags hdr) \<and> \<not> f6_control (h6_flags hdr) then
                       (case Decompress H payload of Inr d \<Rightarrow> d | Inl e \<Rightarrow> payload)
                     else payload) in
              Inr (hdr, Some (stripSecurityToken s payload')))))"

definition recvAndParsePayload6 ::
    "huff_lib \<Rightarrow> (('m, 'z) session6_scheme, header6 \<times> byte list option) gost" where
  "recvAndParsePayload6 H = bnd RecvContext (\<lambda>resp s. (parsePayload6 H s resp, s))"

definition RecvAndAck6 :: "huff_lib \<Rightarrow> (('m, 'z) session6_scheme, header6 \<times> byte list option) gost" where
  "RecvAndAck6 H =
     bnd (recvAndParsePayload6 H) (\<lambda>(hdr, payload) s.
       case payload of
         None \<Rightarrow> (Inr (hdr, payload), s)
       | Some p \<Rightarrow>
           if h6_num_chunks hdr > 0
           then (Inr (hdr, payload), s\<lparr>s_ack := CountVitalChunks p (h6_num_chunks hdr) (s_ack s) Split6\<rparr>)
           else (Inr (hdr, payload), s))"

section \<open>Acknowledging snapshots\<close>

definition sendAckPacket6 :: "varint_lib \<Rightarrow> int \<Rightarrow> (('m, 'z) session6_scheme, unit) gost" where
  "sendAckPacket6 L tick s =
     (let inputMsg = SysInput6 L tick (s64 (tick + 1)) (int EmptyInputSize) EmptyInput;
          chunkData = WrapChunk6 inputMsg;
          hdr = \<lparr>h6_flags = no_flags6, h6_ack = s_ack s, h6_num_chunks = 1, h6_token = zero_token\<rparr>;
          pkt = appendSecurityToken (header6_pack hdr @ chunkData) s in
      dropped (SendRaw pkt) s)"

definition ackSnap6 :: "varint_lib \<Rightarrow> int \<Rightarrow> (('m, 'z) session6_scheme, unit) gost" where
  "ackSnap6 L = ackSnap (sendAckPacket6 L)"

definition forceAckSnap6 :: "varint_lib \<Rightarrow> int \<Rightarrow> (('m, 'z) session6_scheme, unit) gost" where
  "forceAckSnap6 L tick = sendAckPacket6 L tick"

definition processSnapSingle6 :: "varint_lib \<Rightarrow> byte list \<Rightarrow> (('m, 'z) session6_scheme, unit) gost" where
  "processSnapSingle6 L = snap_single L (sendAckPacket6 L)"

definition processSnapEmpty6 :: "varint_lib \<Rightarrow> byte list \<Rightarrow> (('m, 'z) session6_scheme, unit) gost" where
  "processSnapEmpty6 L = snap_empty L (sendAckPacket6 L)"

definition processSnapMulti6 :: "varint_lib \<Rightarrow> byte list \<Rightarrow> (('m, 'z) session6_scheme, unit) gost" where
  "processSnapMulti6 L = snap_multi L (sendAckPacket6 L)"

section \<open>Extended messages\<close>

definition storeCapabilities6 ::
    "varint_lib \<Rightarrow> byte list \<Rightarrow> ('m, 'z) session6_scheme \<Rightarrow> server_capabilities option \<times> ('m, 'z) session6_scheme" where
  "storeCapabilities6 L body s =
     (case capabilities_of L body of
        None \<Rightarrow> (None, s)
      | Some caps \<Rightarrow> (Some caps, s\<lparr>s_caps := caps\<rparr>))"

definition processExCapabilities :: "varint_lib \<Rightarrow> byte list \<Rightarrow> (('m, 'z) session6_scheme, unit) gost" where
  "processExCapabilities L d s =
     (case storeCapabilities6 L d s of
        (None, s') \<Rightarrow> (Inr (), s')
      | (Some caps, s') \<Rightarrow> emit_event (Core (EventServerCapabilities caps)) s')"

definition maybeParseCapabilities6 ::
    "varint_lib \<Rightarrow> (byte list \<Rightarrow> byte list) \<Rightarrow> byte list \<Rightarrow> ('m, 'z) session6_scheme \<Rightarrow> ('m, 'z) session6_scheme" where
  "maybeParseCapabilities6 L md5 exPayload s =
     (if length exPayload < 16 then s
      else if take 16 exPayload \<noteq> uuidCapabilities6 md5 then s
      else snd (storeCapabilities6 L (drop 16 exPayload) s))"

definition processEx6 ::
    "varint_lib \<Rightarrow> (byte list \<Rightarrow> byte list) \<Rightarrow> byte list \<Rightarrow> (('m, 'z) session6_scheme, unit) gost" where
  "processEx6 L md5 d =
     (if length d < 16 then ret ()
      else
        (let uuid = take 16 d; body = drop 16 d in
         if uuid = uuidSvTeamsState md5 then deliver (processExTeamsState L body)
         else if uuid = uuidSvDDRaceTime md5 then deliver (processDDRaceTime6 L body)
         else if uuid = uuidSvRecord md5 then deliver (processRecord6 L body)
         else if uuid = uuidSvKillMsgTeam md5 then deliver (processExKillMsgTeam L body)
         else if uuid = uuidSvYourVote md5 then deliver (processExYourVote L body)
         else if uuid = uuidSvRaceFinish md5 then deliver (processExRaceFinish L body)
         else if uuid = uuidSvCommandInfo md5 then deliver (processExCommandInfo body)
         else if uuid = uuidSvCommandInfoRemove md5 then deliver (processExCommandInfoRemove body)
         else if uuid = uuidSvChangeInfoCooldown md5 then deliver (processExChangeInfoCooldown L body)
         else if uuid = uuidSvMapSoundGlobal md5 then deliver (processExMapSoundGlobal L body)
         else if uuid = uuidCapabilities6 md5 then processExCapabilities L body
         else ret ()))"

section \<open>Dispatch\<close>

definition process_sys6 ::
    "varint_lib \<Rightarrow> (byte list \<Rightarrow> byte list) \<Rightarrow> int \<Rightarrow> byte list \<Rightarrow> (('m, 'z) session6_scheme, unit) gost" where
  "process_sys6 L md5 msgID msgData =
     (if msgID = MsgSysSnapSingle6 then processSnapSingle6 L msgData
      else if msgID = MsgSysSnapEmpty6 then processSnapEmpty6 L msgData
      else if msgID = MsgSysSnap6 then processSnapMulti6 L msgData
      else if msgID = MsgSysPing6 then dropped (SendVitalMsg6 (SysPingReply6 L))
      else if msgID = MsgSysInputTiming6 then deliver (processInputTiming6 L msgData)
      else if msgID = MsgSysEx6 then processEx6 L md5 msgData
      else if msgID = MsgSysRconLine6 then deliver (processRconLine6 msgData)
      else if msgID = MsgSysRconAuthStatus6 then deliver (processRconAuthStatus6 L msgData)
      else if msgID = MsgSysRconCmdAdd6 then deliver (processRconCmdAdd6 msgData)
      else if msgID = MsgSysRconCmdRem6 then deliver (processRconCmdRem6 msgData)
      else if msgID = MsgSysError6 then deliver (processServerError6 msgData)
      else if msgID = MsgSysMapChange6 then process_map_change L msgData
      else ret ())"

definition process_game6 :: "varint_lib \<Rightarrow> int \<Rightarrow> byte list \<Rightarrow> goerr + event list" where
  "process_game6 L msgID msgData =
     (if msgID = MsgGameSvChat6 then processChat6 L msgData
      else if msgID = MsgGameSvBroadcast6 then processBroadcast6 msgData
      else if msgID = MsgGameSvMotd6 then processMotd6 msgData
      else if msgID = MsgGameSvKillMsg6 then processKillMsg6 L msgData
      else if msgID = MsgGameSvSoundGlobal6 then processSoundGlobal6 L msgData
      else if msgID = MsgGameSvTuneParams6 then processTuneParams6 L msgData
      else if msgID = MsgGameSvWeaponPickup6 then processWeaponPickup6 L msgData
      else if msgID = MsgGameSvEmoticon6 then processEmoticon6 L msgData
      else if msgID = MsgGameSvVoteSet6 then processVoteSet6 L msgData
      else if msgID = MsgGameSvVoteStatus6 then processVoteStatus6 L msgData
      else if msgID = MsgGameSvVoteOptionAdd6 then processVoteOptionAdd6 msgData
      else if msgID = MsgGameSvVoteOptionRemove6 then processVoteOptionRemove6 msgData
      else if msgID = MsgGameSvVoteOptionListAdd6 then processVoteOptionListAdd6 L msgData
      else if msgID = MsgGameSvVoteClearOptions6 then processVoteClearOptions6
      else if msgID = MsgGameSvDDRaceTimeLegacy6 then processDDRaceTime6 L msgData
      else if msgID = MsgGameSvRecordLegacy6 then processRecord6 L msgData
      else Inr [])"

text \<open>The id of a message is read from its first byte (\<open>first_byte_msg\<close>), not as a varint.\<close>

definition process_chunk6 ::
    "varint_lib \<Rightarrow> (byte list \<Rightarrow> byte list) \<Rightarrow> byte list \<Rightarrow> (('m, 'z) session6_scheme, unit) gost" where
  "process_chunk6 L md5 d =
     (if length d < 1 then ret ()
      else
        (let msgRaw = first_byte_msg (d ! 0);
             sys = (msgRaw AND 1 \<noteq> 0);
             msgID = drop_bit 1 msgRaw;
             msgData = drop 1 d in
         if sys then process_sys6 L md5 msgID msgData
         else deliver (process_game6 L msgID msgData)))"

definition processPayload6 ::
    "varint_lib \<Rightarrow> (byte list \<Rightarrow> byte list) \<Rightarrow> byte list \<Rightarrow> (('m, 'z) session6_scheme, unit) gost" where
  "processPayload6 L md5 payload = for_chunks (process_chunk6 L md5) (UnpackChunks payload Split6)"

section \<open>The reader's loop\<close>

text \<open>The periodic sends at the top of an iteration; the result holds the two new timestamps.\<close>

definition periodic6 ::
    "varint_lib \<Rightarrow> int \<Rightarrow> int \<Rightarrow> (('m, 'z) session6_scheme, int \<times> int) gost" where
  "periodic6 L lastSend lastReack s =
     (let (lastSend', s1) =
            (if clock s - lastSend > keepaliveInterval
             then (clock s, snd (dropped SendKeepAlive6 s)) else (lastSend, s)) in
      if clock s1 - lastReack > reackInterval then
        (Inr (lastSend', clock s1),
         if s_lastAckedSnap s1 > 0 then snd (forceAckSnap6 L (s_lastAckedSnap s1) s1) else s1)
      else (Inr (lastSend', lastReack), s1))"

text \<open>
  What one received packet does; the result says whether the loop goes on. The receive's deadline
  is the reader's 50 ms, so an expired wait is an iteration without a packet.
\<close>

definition read_packet6 ::
    "varint_lib \<Rightarrow> (byte list \<Rightarrow> byte list) \<Rightarrow> (goerr \<Rightarrow> byte list) \<Rightarrow>
     goerr + header6 \<times> byte list option \<Rightarrow> (('m, 'z) session6_scheme, bool) gost" where
  "read_packet6 L md5 err_text r =
     (case r of
        Inl e \<Rightarrow>
          if IsTimeout e then ret True
          else bnd (close_event (err_text e)) (\<lambda>_. ret False)
      | Inr (hdr, None) \<Rightarrow> ret True
      | Inr (hdr, Some payload) \<Rightarrow>
          if f6_control (h6_flags hdr) \<and> payload \<noteq> [] \<and> payload ! 0 = byte_of MsgCtrlClose6 then
            bnd (close_event (if length payload > 1 then drop 1 payload else [])) (\<lambda>_. ret False)
          else bnd (processPayload6 L md5 payload) (\<lambda>_. ret True))"

text \<open>
  The loop over the script: \<open>evs\<close> is what is left of the inbox. \<open>ctx.Done\<close> is tested at the top
  of an iteration; a context that ends during the wait makes the receive fail.
\<close>

fun read_loop6 ::
    "varint_lib \<Rightarrow> huff_lib \<Rightarrow> (byte list \<Rightarrow> byte list) \<Rightarrow> (goerr \<Rightarrow> byte list) \<Rightarrow> int \<Rightarrow> int \<Rightarrow>
     (int \<times> net_event) list \<Rightarrow> (('m, 'z) session6_scheme, unit) gost" where
  "read_loop6 L H md5 err_text lastSend lastReack [] s = (Inr (), s)"
| "read_loop6 L H md5 err_text lastSend lastReack ((d, ev) # evs) s =
     (if ctx_over (d, ev) then (Inr (), s)
      else
        bnd (periodic6 L lastSend lastReack) (\<lambda>(lastSend', lastReack') s1.
          let (r, s2) = RecvAndAck6 H s1;
              lastSend'' = (case r of Inl e \<Rightarrow> lastSend' | Inr _ \<Rightarrow> clock s2) in
          bnd (read_packet6 L md5 err_text r) (\<lambda>go.
            if go \<and> \<not> ctx_ends ev then read_loop6 L H md5 err_text lastSend'' lastReack' evs
            else ret ()) s2) s)"

definition readLoop6 ::
    "varint_lib \<Rightarrow> huff_lib \<Rightarrow> (byte list \<Rightarrow> byte list) \<Rightarrow> (goerr \<Rightarrow> byte list) \<Rightarrow>
     (('m, 'z) session6_scheme, unit) gost" where
  "readLoop6 L H md5 err_text s = read_loop6 L H md5 err_text (clock s) (clock s) (inbox s) s"

text \<open>\<open>StartReader\<close> up to the start of the goroutine.\<close>

definition StartReader6 :: "int \<Rightarrow> int \<Rightarrow> ('m, 'z) session6_scheme \<Rightarrow> ('m, 'z) session6_scheme" where
  "StartReader6 snapStorageSize eventChanSize s =
     s\<lparr>s_eventCh := [], s_chanCap := eventChanSizeOrDefault eventChanSize,
       s_snaps := NewSnapStorage (Some SnapItemSize6) [Some (WithMaxSnaps snapStorageSize)]\<rparr>"

end
