(* ===== verification/Messages7.thy ===== *)
theory Messages7
  imports Messages6
begin

text \<open>
  net7/constants.go, net7/messages.go, net7/builder.go: the message ids, the message builders and
  the packet builders of protocol 0.7.
\<close>

section \<open>Constants\<close>

definition MaxClients7 :: int where "MaxClients7 = 64"
definition ClientVersion7 :: int where "ClientVersion7 = 0x0705"
definition Split7 :: nat where "Split7 = 6"

definition NetVersion7 :: "byte list" where
  "NetVersion7 = bytes_of ''0.7 802f1be60a05665f''"

definition AntiReflectionSize :: nat where "AntiReflectionSize = 508"
definition TokenEmpty :: "byte list" where "TokenEmpty = replicate 4 0xFF"

definition MsgCtrlKeepAlive7 :: int where "MsgCtrlKeepAlive7 = 0"
definition MsgCtrlConnect7 :: int where "MsgCtrlConnect7 = 1"
definition MsgCtrlAccept7 :: int where "MsgCtrlAccept7 = 2"
definition MsgCtrlClose7 :: int where "MsgCtrlClose7 = 4"
definition MsgCtrlToken7 :: int where "MsgCtrlToken7 = 5"
definition MsgSysEx7 :: int where "MsgSysEx7 = 0"
definition MsgSysInfo7 :: int where "MsgSysInfo7 = 1"
definition MsgSysMapChange7 :: int where "MsgSysMapChange7 = 2"
definition MsgSysMapData7 :: int where "MsgSysMapData7 = 3"
definition MsgSysServerInfo7 :: int where "MsgSysServerInfo7 = 4"
definition MsgSysConReady7 :: int where "MsgSysConReady7 = 5"
definition MsgSysSnap7 :: int where "MsgSysSnap7 = 6"
definition MsgSysSnapEmpty7 :: int where "MsgSysSnapEmpty7 = 7"
definition MsgSysSnapSingle7 :: int where "MsgSysSnapSingle7 = 8"
definition MsgSysSnapSmall7 :: int where "MsgSysSnapSmall7 = 9"
definition MsgSysInputTiming7 :: int where "MsgSysInputTiming7 = 10"
definition MsgSysRconAuthOn7 :: int where "MsgSysRconAuthOn7 = 11"
definition MsgSysRconAuthOff7 :: int where "MsgSysRconAuthOff7 = 12"
definition MsgSysRconLine7 :: int where "MsgSysRconLine7 = 13"
definition MsgSysRconCmdAdd7 :: int where "MsgSysRconCmdAdd7 = 14"
definition MsgSysRconCmdRem7 :: int where "MsgSysRconCmdRem7 = 15"
definition MsgSysAuthChallenge7 :: int where "MsgSysAuthChallenge7 = 16"
definition MsgSysAuthResult7 :: int where "MsgSysAuthResult7 = 17"
definition MsgSysReady7 :: int where "MsgSysReady7 = 18"
definition MsgSysEnterGame7 :: int where "MsgSysEnterGame7 = 19"
definition MsgSysInput7 :: int where "MsgSysInput7 = 20"
definition MsgSysRconCmd7 :: int where "MsgSysRconCmd7 = 21"
definition MsgSysRconAuth7 :: int where "MsgSysRconAuth7 = 22"
definition MsgSysRequestMapData7 :: int where "MsgSysRequestMapData7 = 23"
definition MsgSysAuthStart7 :: int where "MsgSysAuthStart7 = 24"
definition MsgSysAuthResponse7 :: int where "MsgSysAuthResponse7 = 25"
definition MsgSysPing7 :: int where "MsgSysPing7 = 26"
definition MsgSysPingReply7 :: int where "MsgSysPingReply7 = 27"
definition MsgSysError7 :: int where "MsgSysError7 = 28"
definition MsgSysMaplistEntryAdd7 :: int where "MsgSysMaplistEntryAdd7 = 29"
definition MsgSysMaplistEntryRem7 :: int where "MsgSysMaplistEntryRem7 = 30"
definition MsgGameSvMotd7 :: int where "MsgGameSvMotd7 = 1"
definition MsgGameSvBroadcast7 :: int where "MsgGameSvBroadcast7 = 2"
definition MsgGameSvChat7 :: int where "MsgGameSvChat7 = 3"
definition MsgGameSvTeam7 :: int where "MsgGameSvTeam7 = 4"
definition MsgGameSvKillMsg7 :: int where "MsgGameSvKillMsg7 = 5"
definition MsgGameSvTuneParams7 :: int where "MsgGameSvTuneParams7 = 6"
definition MsgGameSvExtraProjectile7 :: int where "MsgGameSvExtraProjectile7 = 7"
definition MsgGameSvReadyToEnter7 :: int where "MsgGameSvReadyToEnter7 = 8"
definition MsgGameSvWeaponPickup7 :: int where "MsgGameSvWeaponPickup7 = 9"
definition MsgGameSvEmoticon7 :: int where "MsgGameSvEmoticon7 = 10"
definition MsgGameSvVoteClearOptions7 :: int where "MsgGameSvVoteClearOptions7 = 11"
definition MsgGameSvVoteOptionListAdd7 :: int where "MsgGameSvVoteOptionListAdd7 = 12"
definition MsgGameSvVoteOptionAdd7 :: int where "MsgGameSvVoteOptionAdd7 = 13"
definition MsgGameSvVoteOptionRemove7 :: int where "MsgGameSvVoteOptionRemove7 = 14"
definition MsgGameSvVoteSet7 :: int where "MsgGameSvVoteSet7 = 15"
definition MsgGameSvVoteStatus7 :: int where "MsgGameSvVoteStatus7 = 16"
definition MsgGameSvServerSettings7 :: int where "MsgGameSvServerSettings7 = 17"
definition MsgGameSvClientInfo7 :: int where "MsgGameSvClientInfo7 = 18"
definition MsgGameSvGameInfo7 :: int where "MsgGameSvGameInfo7 = 19"
definition MsgGameSvClientDrop7 :: int where "MsgGameSvClientDrop7 = 20"
definition MsgGameSvGameMsg7 :: int where "MsgGameSvGameMsg7 = 21"
definition MsgGameDeClientEnter7 :: int where "MsgGameDeClientEnter7 = 22"
definition MsgGameDeClientLeave7 :: int where "MsgGameDeClientLeave7 = 23"
definition MsgGameClSay7 :: int where "MsgGameClSay7 = 24"
definition MsgGameClSetTeam7 :: int where "MsgGameClSetTeam7 = 25"
definition MsgGameClSetSpectatorMode7 :: int where "MsgGameClSetSpectatorMode7 = 26"
definition MsgGameClStartInfo7 :: int where "MsgGameClStartInfo7 = 27"
definition MsgGameClKill7 :: int where "MsgGameClKill7 = 28"
definition MsgGameClReadyChange7 :: int where "MsgGameClReadyChange7 = 29"
definition MsgGameClEmoticon7 :: int where "MsgGameClEmoticon7 = 30"
definition MsgGameClVote7 :: int where "MsgGameClVote7 = 31"
definition MsgGameClCallVote7 :: int where "MsgGameClCallVote7 = 32"
definition MsgGameSvSkinChange7 :: int where "MsgGameSvSkinChange7 = 33"
definition MsgGameClSkinChange7 :: int where "MsgGameClSkinChange7 = 34"
definition MsgGameSvRaceFinish7 :: int where "MsgGameSvRaceFinish7 = 35"
definition MsgGameSvCheckpoint7 :: int where "MsgGameSvCheckpoint7 = 36"
definition MsgGameSvCommandInfo7 :: int where "MsgGameSvCommandInfo7 = 37"
definition MsgGameSvCommandInfoRemove7 :: int where "MsgGameSvCommandInfoRemove7 = 38"
definition MsgGameClCommand7 :: int where "MsgGameClCommand7 = 39"

lemmas msg_ids7 = MsgCtrlKeepAlive7_def MsgCtrlConnect7_def MsgCtrlAccept7_def MsgCtrlClose7_def
  MsgCtrlToken7_def MsgSysEx7_def MsgSysInfo7_def MsgSysMapChange7_def MsgSysMapData7_def
  MsgSysServerInfo7_def MsgSysConReady7_def MsgSysSnap7_def MsgSysSnapEmpty7_def
  MsgSysSnapSingle7_def MsgSysSnapSmall7_def MsgSysInputTiming7_def MsgSysRconAuthOn7_def
  MsgSysRconAuthOff7_def MsgSysRconLine7_def MsgSysRconCmdAdd7_def MsgSysRconCmdRem7_def
  MsgSysAuthChallenge7_def MsgSysAuthResult7_def MsgSysReady7_def MsgSysEnterGame7_def
  MsgSysInput7_def MsgSysRconCmd7_def MsgSysRconAuth7_def MsgSysRequestMapData7_def
  MsgSysAuthStart7_def MsgSysAuthResponse7_def MsgSysPing7_def MsgSysPingReply7_def
  MsgSysError7_def MsgSysMaplistEntryAdd7_def MsgSysMaplistEntryRem7_def MsgGameSvMotd7_def
  MsgGameSvBroadcast7_def MsgGameSvChat7_def MsgGameSvTeam7_def MsgGameSvKillMsg7_def
  MsgGameSvTuneParams7_def MsgGameSvExtraProjectile7_def MsgGameSvReadyToEnter7_def
  MsgGameSvWeaponPickup7_def MsgGameSvEmoticon7_def MsgGameSvVoteClearOptions7_def
  MsgGameSvVoteOptionListAdd7_def MsgGameSvVoteOptionAdd7_def MsgGameSvVoteOptionRemove7_def
  MsgGameSvVoteSet7_def MsgGameSvVoteStatus7_def MsgGameSvServerSettings7_def
  MsgGameSvClientInfo7_def MsgGameSvGameInfo7_def MsgGameSvClientDrop7_def MsgGameSvGameMsg7_def
  MsgGameDeClientEnter7_def MsgGameDeClientLeave7_def MsgGameClSay7_def MsgGameClSetTeam7_def
  MsgGameClSetSpectatorMode7_def MsgGameClStartInfo7_def MsgGameClKill7_def
  MsgGameClReadyChange7_def MsgGameClEmoticon7_def MsgGameClVote7_def MsgGameClCallVote7_def
  MsgGameSvSkinChange7_def MsgGameClSkinChange7_def MsgGameSvRaceFinish7_def
  MsgGameSvCheckpoint7_def MsgGameSvCommandInfo7_def MsgGameSvCommandInfoRemove7_def
  MsgGameClCommand7_def

section \<open>Control messages\<close>

definition CtrlToken :: "byte list \<Rightarrow> bool \<Rightarrow> byte list" where
  "CtrlToken responseToken withPadding =
     (let d = [byte_of MsgCtrlToken7] @ responseToken in
      if withPadding then d @ replicate AntiReflectionSize 0 else d)"

definition CtrlConnect7 :: "byte list \<Rightarrow> byte list" where
  "CtrlConnect7 responseToken =
     (let d = (replicate (1 + 4 + AntiReflectionSize) 0)[0 := byte_of MsgCtrlConnect7] in
      copy_at d 1 responseToken)"

definition CtrlAccept7 :: "byte list" where
  "CtrlAccept7 = [byte_of MsgCtrlAccept7]"

definition CtrlKeepAlive7 :: "byte list" where
  "CtrlKeepAlive7 = [byte_of MsgCtrlKeepAlive7]"

definition CtrlClose7 :: "byte list \<Rightarrow> byte list" where
  "CtrlClose7 reason =
     (let d = [byte_of MsgCtrlClose7] in if reason \<noteq> [] then d @ PackString reason else d)"

section \<open>System messages\<close>

definition SysInfo7 :: "varint_lib \<Rightarrow> byte list \<Rightarrow> byte list \<Rightarrow> byte list" where
  "SysInfo7 L version password =
     PackMsgID L MsgSysInfo7 True @ PackString version @ PackString password"

definition SysReady7 :: "varint_lib \<Rightarrow> byte list" where
  "SysReady7 L = PackMsgID L MsgSysReady7 True"

definition SysEnterGame7 :: "varint_lib \<Rightarrow> byte list" where
  "SysEnterGame7 L = PackMsgID L MsgSysEnterGame7 True"

definition SysInput7 :: "varint_lib \<Rightarrow> int \<Rightarrow> int \<Rightarrow> int \<Rightarrow> byte list \<Rightarrow> byte list" where
  "SysInput7 L ackGameTick predTick inputSize inputData =
     (let d0 = AppendMsgID L [] MsgSysInput7 True;
          d1 = AppendInt L d0 ackGameTick;
          d2 = AppendInt L d1 predTick;
          d3 = AppendInt L d2 inputSize in
      d3 @ inputData)"

definition SysPing7 :: "varint_lib \<Rightarrow> byte list" where
  "SysPing7 L = PackMsgID L MsgSysPing7 True"

definition SysPingReply7 :: "varint_lib \<Rightarrow> byte list" where
  "SysPingReply7 L = PackMsgID L MsgSysPingReply7 True"

definition SysRconAuth7 :: "varint_lib \<Rightarrow> byte list \<Rightarrow> byte list" where
  "SysRconAuth7 L password =
     PackMsgID L MsgSysRconAuth7 True @ PackString password"

definition SysRconCmd7 :: "varint_lib \<Rightarrow> byte list \<Rightarrow> byte list" where
  "SysRconCmd7 L cmd = PackMsgID L MsgSysRconCmd7 True @ PackString cmd"

definition SysRequestMapData7 :: "varint_lib \<Rightarrow> byte list" where
  "SysRequestMapData7 L = PackMsgID L MsgSysRequestMapData7 True"

section \<open>Game messages\<close>

definition GameClSay7 :: "varint_lib \<Rightarrow> bool \<Rightarrow> byte list \<Rightarrow> byte list" where
  "GameClSay7 L team message =
     PackMsgID L MsgGameClSay7 False @ PackBool L team @ PackString message"

definition GameClSetTeam7 :: "varint_lib \<Rightarrow> int \<Rightarrow> byte list" where
  "GameClSetTeam7 L team = PackMsgID L MsgGameClSetTeam7 False @ PackInt L team"

definition GameClKill7 :: "varint_lib \<Rightarrow> byte list" where
  "GameClKill7 L = PackMsgID L MsgGameClKill7 False"

definition GameClEmoticon7 :: "varint_lib \<Rightarrow> int \<Rightarrow> byte list" where
  "GameClEmoticon7 L emoticon = PackMsgID L MsgGameClEmoticon7 False @ PackInt L emoticon"

definition GameClVote7 :: "varint_lib \<Rightarrow> int \<Rightarrow> byte list" where
  "GameClVote7 L vote = PackMsgID L MsgGameClVote7 False @ PackInt L vote"

definition GameClCallVote7 :: "varint_lib \<Rightarrow> byte list \<Rightarrow> byte list \<Rightarrow> byte list \<Rightarrow> byte list" where
  "GameClCallVote7 L voteType v reason =
     PackMsgID L MsgGameClCallVote7 False @ PackString voteType @ PackString v @ PackString reason
       @ PackInt L 0"

definition GameClSetSpectatorMode7 :: "varint_lib \<Rightarrow> int \<Rightarrow> byte list" where
  "GameClSetSpectatorMode7 L spectatorID =
     (let mode = (if spectatorID \<ge> 0 then 2 else 0) in
      PackMsgID L MsgGameClSetSpectatorMode7 False @ PackInt L mode @ PackInt L spectatorID)"

text \<open>The three arrays have length six.\<close>

definition GameClStartInfo7 ::
    "varint_lib \<Rightarrow> byte list \<Rightarrow> byte list \<Rightarrow> int \<Rightarrow> byte list list \<Rightarrow> bool list \<Rightarrow> int list \<Rightarrow> byte list" where
  "GameClStartInfo7 L name clan country skinParts useCustomColors colorBody =
     PackMsgID L MsgGameClStartInfo7 False @ PackString name @ PackString clan @ PackInt L country
       @ concat (map (\<lambda>i. PackString (skinParts ! i)) [0..<6])
       @ concat (map (\<lambda>i. PackBool L (useCustomColors ! i)) [0..<6])
       @ concat (map (\<lambda>i. PackInt L (colorBody ! i)) [0..<6])"

section \<open>Chunks and packets\<close>

definition WrapVitalChunk7 :: "byte list \<Rightarrow> int \<Rightarrow> byte list" where
  "WrapVitalChunk7 payload sq =
     chunk_pack \<lparr>Flags = \<lparr>Vital = True, Resend = False\<rparr>, Size = int (length payload), Seq = sq\<rparr> Split7
       @ payload"

definition WrapChunk7 :: "byte list \<Rightarrow> byte list" where
  "WrapChunk7 payload =
     chunk_pack \<lparr>Flags = \<lparr>Vital = False, Resend = False\<rparr>, Size = int (length payload), Seq = 0\<rparr> Split7
       @ payload"

definition no_flags7 :: flags7 where
  "no_flags7 = \<lparr>f7_connless = False, f7_compression = False, f7_resend = False, f7_control = False\<rparr>"

definition BuildCtrlPacket7 :: "byte list \<Rightarrow> int \<Rightarrow> byte list \<Rightarrow> byte list" where
  "BuildCtrlPacket7 token ack payload =
     header7_pack \<lparr>h7_flags = no_flags7\<lparr>f7_control := True\<rparr>, h7_ack = ack, h7_num_chunks = 0,
       h7_token = token, h7_response_token = zero_token\<rparr> @ payload"

definition BuildTokenRequest :: "byte list \<Rightarrow> byte list" where
  "BuildTokenRequest clientToken = BuildCtrlPacket7 TokenEmpty 0 (CtrlToken clientToken True)"

definition BuildConnect7 :: "byte list \<Rightarrow> byte list \<Rightarrow> byte list" where
  "BuildConnect7 serverToken clientToken = BuildCtrlPacket7 serverToken 0 (CtrlConnect7 clientToken)"

definition BuildKeepAlive7 :: "byte list \<Rightarrow> int \<Rightarrow> byte list" where
  "BuildKeepAlive7 token ack = BuildCtrlPacket7 token ack CtrlKeepAlive7"

definition BuildClose7 :: "byte list \<Rightarrow> int \<Rightarrow> byte list \<Rightarrow> byte list" where
  "BuildClose7 token ack reason = BuildCtrlPacket7 token ack (CtrlClose7 reason)"

definition BuildChunkPacket7 :: "byte list \<Rightarrow> int \<Rightarrow> int \<Rightarrow> bool \<Rightarrow> byte list \<Rightarrow> byte list" where
  "BuildChunkPacket7 token ack numChunks compressed chunkData =
     header7_pack \<lparr>h7_flags = no_flags7\<lparr>f7_compression := compressed\<rparr>, h7_ack = ack,
       h7_num_chunks = numChunks, h7_token = token, h7_response_token = zero_token\<rparr> @ chunkData"

definition BuildInfoPacket7 :: "varint_lib \<Rightarrow> byte list \<Rightarrow> int \<Rightarrow> int \<Rightarrow> byte list" where
  "BuildInfoPacket7 L token ack sq =
     BuildChunkPacket7 token ack 1 False (WrapVitalChunk7 (SysInfo7 L NetVersion7 []) sq)"

definition BuildReadyPacket7 :: "varint_lib \<Rightarrow> byte list \<Rightarrow> int \<Rightarrow> int \<Rightarrow> byte list" where
  "BuildReadyPacket7 L token ack sq =
     BuildChunkPacket7 token ack 1 False (WrapVitalChunk7 (SysReady7 L) sq)"

definition BuildEnterGamePacket7 :: "varint_lib \<Rightarrow> byte list \<Rightarrow> int \<Rightarrow> int \<Rightarrow> byte list" where
  "BuildEnterGamePacket7 L token ack sq =
     BuildChunkPacket7 token ack 1 False (WrapVitalChunk7 (SysEnterGame7 L) sq)"

definition default_skin_parts :: "byte list list" where
  "default_skin_parts =
     (let standard = bytes_of ''standard'' in [standard, [], [], standard, standard, standard])"

definition BuildStartInfoPacket7 ::
    "varint_lib \<Rightarrow> byte list \<Rightarrow> int \<Rightarrow> int \<Rightarrow> byte list \<Rightarrow> byte list \<Rightarrow> int \<Rightarrow> byte list" where
  "BuildStartInfoPacket7 L token ack sq name clan country =
     (let useCustom = [True, False, False, True, True, False];
          colors = [65408, 0, 0, 65408, 65408, 0] in
      BuildChunkPacket7 token ack 1 False
        (WrapVitalChunk7 (GameClStartInfo7 L name clan country default_skin_parts useCustom colors) sq))"

section \<open>The messages a client sends\<close>

text \<open>One constructor per builder, with the fields its message carries on the wire.\<close>

datatype client_msg7 =
    CInfo7 "byte list" "byte list"
  | CReady7
  | CEnterGame7
  | CInput7 int int int "byte list"
  | CPing7
  | CPingReply7
  | CRconAuth7 "byte list"
  | CRconCmd7 "byte list"
  | CRequestMapData7
  | CSay7 bool "byte list"
  | CStartInfo7 "byte list" "byte list" int "byte list list" "bool list" "int list"
  | CSetTeam7 int
  | CKill7
  | CEmoticon7 int
  | CVote7 int
  | CCallVote7 "byte list" "byte list" "byte list"
  | CSetSpectatorMode7 int

fun build_msg7 :: "varint_lib \<Rightarrow> client_msg7 \<Rightarrow> byte list" where
  "build_msg7 L (CInfo7 a0 a1) = SysInfo7 L a0 a1"
| "build_msg7 L CReady7 = SysReady7 L"
| "build_msg7 L CEnterGame7 = SysEnterGame7 L"
| "build_msg7 L (CInput7 a0 a1 a2 a3) = SysInput7 L a0 a1 a2 a3"
| "build_msg7 L CPing7 = SysPing7 L"
| "build_msg7 L CPingReply7 = SysPingReply7 L"
| "build_msg7 L (CRconAuth7 a0) = SysRconAuth7 L a0"
| "build_msg7 L (CRconCmd7 a0) = SysRconCmd7 L a0"
| "build_msg7 L CRequestMapData7 = SysRequestMapData7 L"
| "build_msg7 L (CSay7 a0 a1) = GameClSay7 L a0 a1"
| "build_msg7 L (CStartInfo7 a0 a1 a2 a3 a4 a5) = GameClStartInfo7 L a0 a1 a2 a3 a4 a5"
| "build_msg7 L (CSetTeam7 a0) = GameClSetTeam7 L a0"
| "build_msg7 L CKill7 = GameClKill7 L"
| "build_msg7 L (CEmoticon7 a0) = GameClEmoticon7 L a0"
| "build_msg7 L (CVote7 a0) = GameClVote7 L a0"
| "build_msg7 L (CCallVote7 a0 a1 a2) = GameClCallVote7 L a0 a1 a2"
| "build_msg7 L (CSetSpectatorMode7 a0) = GameClSetSpectatorMode7 L a0"

fun msg_shape7 :: "client_msg7 \<Rightarrow> int \<times> bool \<times> field list" where
  "msg_shape7 (CInfo7 a0 a1) =
     (MsgSysInfo7, True, [FStr a0, FStr a1])"
| "msg_shape7 CReady7 =
     (MsgSysReady7, True, [])"
| "msg_shape7 CEnterGame7 =
     (MsgSysEnterGame7, True, [])"
| "msg_shape7 (CInput7 a0 a1 a2 a3) =
     (MsgSysInput7, True, [FInt a0, FInt a1, FInt a2, FRaw a3])"
| "msg_shape7 CPing7 =
     (MsgSysPing7, True, [])"
| "msg_shape7 CPingReply7 =
     (MsgSysPingReply7, True, [])"
| "msg_shape7 (CRconAuth7 a0) =
     (MsgSysRconAuth7, True, [FStr a0])"
| "msg_shape7 (CRconCmd7 a0) =
     (MsgSysRconCmd7, True, [FStr a0])"
| "msg_shape7 CRequestMapData7 =
     (MsgSysRequestMapData7, True, [])"
| "msg_shape7 (CSay7 a0 a1) =
     (MsgGameClSay7, False, [FBool a0, FStr a1])"
| "msg_shape7 (CStartInfo7 a0 a1 a2 a3 a4 a5) =
     (MsgGameClStartInfo7, False, [FStr a0, FStr a1, FInt a2] @ map (\<lambda>i. FStr (a3 ! i)) [0..<6]
        @ map (\<lambda>i. FBool (a4 ! i)) [0..<6] @ map (\<lambda>i. FInt (a5 ! i)) [0..<6])"
| "msg_shape7 (CSetTeam7 a0) =
     (MsgGameClSetTeam7, False, [FInt a0])"
| "msg_shape7 CKill7 =
     (MsgGameClKill7, False, [])"
| "msg_shape7 (CEmoticon7 a0) =
     (MsgGameClEmoticon7, False, [FInt a0])"
| "msg_shape7 (CVote7 a0) =
     (MsgGameClVote7, False, [FInt a0])"
| "msg_shape7 (CCallVote7 a0 a1 a2) =
     (MsgGameClCallVote7, False, [FStr a0, FStr a1, FStr a2, FInt 0])"
| "msg_shape7 (CSetSpectatorMode7 a0) =
     (MsgGameClSetSpectatorMode7, False, [FInt (if a0 \<ge> 0 then 2 else 0), FInt a0])"

text \<open>Every builder writes its id and its fields in order.\<close>

lemma build_msg7_eq:
  assumes "varint_contract L" and "msg_shape7 m = (i_d, sys, fs)"
  shows "build_msg7 L m = message_bytes L i_d sys fs"
  using assms(2)
  by (cases m) (auto simp: message_bytes_def SysInfo7_def SysReady7_def SysEnterGame7_def
      SysInput7_def SysPing7_def SysPingReply7_def SysRconAuth7_def SysRconCmd7_def
      SysRequestMapData7_def GameClSay7_def GameClStartInfo7_def GameClSetTeam7_def GameClKill7_def
      GameClEmoticon7_def GameClVote7_def GameClCallVote7_def GameClSetSpectatorMode7_def  PackMsgID_def PackInt_def Let_def o_def
      varint_contract.AppendInt_eq [OF assms(1)] varint_contract.AppendInt_eq [OF assms(1), of "[]"])

lemma msg_shape7_id: "msg_shape7 m = (i_d, sys, fs) \<Longrightarrow> 0 \<le> i_d \<and> i_d < 33"
  by (cases m) (auto simp: msg_ids7)

end
