(* ===== verification/ServerEvents7.thy ===== *)
theory ServerEvents7
  imports Messages7 ServerEvents6
begin

text \<open>
  net7/events.go and the message decoders of net7/reader.go: what each server message of protocol
  0.7 emits, in the same events as 0.6.
\<close>

section \<open>Game messages\<close>

definition chatModeNone :: int where "chatModeNone = 0"
definition chatModeAll :: int where "chatModeAll = 1"
definition chatModeTeam :: int where "chatModeTeam = 2"
definition chatModeWhisper :: int where "chatModeWhisper = 3"

definition processMotd7 :: "byte list \<Rightarrow> goerr + event list" where
  "processMotd7 = run_decoder (bnd NextString (\<lambda>txt. ret [Chat (EventMotd txt)]))"

definition processRconLine7 :: "byte list \<Rightarrow> goerr + event list" where
  "processRconLine7 = run_decoder (bnd NextString (\<lambda>line. ret [Rcon (EventRconLine line)]))"

definition uuidCapabilities7 :: "(byte list \<Rightarrow> byte list) \<Rightarrow> byte list" where
  "uuidCapabilities7 md5 = CalculateUUID md5 (bytes_of ''capabilities@ddnet.tw'')"

definition processBroadcast7 :: "byte list \<Rightarrow> goerr + event list" where
  "processBroadcast7 = run_decoder (bnd NextString (\<lambda>txt. ret [Chat (EventBroadcast txt)]))"

definition processChat7 :: "varint_lib \<Rightarrow> byte list \<Rightarrow> goerr + event list" where
  "processChat7 L = run_decoder
     (bnd (NextInt L) (\<lambda>mode. bnd (NextInt L) (\<lambda>cid. bnd (NextInt L) (\<lambda>target. bnd NextString (\<lambda>msg.
      ret [if mode = chatModeWhisper then Chat (EventWhisper cid target msg)
           else if cid < 0 \<or> mode = chatModeNone then Chat (EventServerMsg msg)
           else Chat (EventChat (if mode = chatModeTeam then 1 else 0) cid msg)])))))"

definition processTeam7 :: "varint_lib \<Rightarrow> byte list \<Rightarrow> goerr + event list" where
  "processTeam7 L = run_decoder
     (bnd (NextInt L) (\<lambda>cid. bnd (NextInt L) (\<lambda>team. bnd (NextInt L) (\<lambda>silent.
      ret [Roster (EventTeamSet cid team (silent \<noteq> 0))]))))"

definition processKillMsg7 :: "varint_lib \<Rightarrow> byte list \<Rightarrow> goerr + event list" where
  "processKillMsg7 L = run_decoder
     (bnd (NextInt L) (\<lambda>killer. bnd (NextInt L) (\<lambda>victim. bnd (NextInt L) (\<lambda>weapon.
      bnd (NextInt L) (\<lambda>modeSpecial. ret [Chat (EventKill killer victim weapon modeSpecial)])))))"

definition processTuneParams7 :: "varint_lib \<Rightarrow> byte list \<Rightarrow> goerr + event list" where
  "processTuneParams7 L d = Inr [Chat (EventTuneParams (map s32 (raw_ints L (NewUnpacker d))))]"

definition processWeaponPickup7 :: "varint_lib \<Rightarrow> byte list \<Rightarrow> goerr + event list" where
  "processWeaponPickup7 L = run_decoder
     (bnd (NextInt L) (\<lambda>weapon. ret [Chat (EventWeaponPickup weapon)]))"

definition processEmoticon7 :: "varint_lib \<Rightarrow> byte list \<Rightarrow> goerr + event list" where
  "processEmoticon7 L = run_decoder
     (bnd (NextInt L) (\<lambda>cid. bnd (NextInt L) (\<lambda>emoticon. ret [Chat (EventEmoticon cid emoticon)])))"

definition processVoteSet7 :: "varint_lib \<Rightarrow> byte list \<Rightarrow> goerr + event list" where
  "processVoteSet7 L = run_decoder
     (bnd (NextInt L) (\<lambda>_. bnd (NextInt L) (\<lambda>_. bnd (NextInt L) (\<lambda>timeout.
      bnd NextString (\<lambda>desc. bnd NextString (\<lambda>reason.
      ret [Chat (EventVoteSet timeout desc reason)]))))))"

definition processVoteStatus7 :: "varint_lib \<Rightarrow> byte list \<Rightarrow> goerr + event list" where
  "processVoteStatus7 L = run_decoder
     (bnd (NextInt L) (\<lambda>yes. bnd (NextInt L) (\<lambda>no. bnd (NextInt L) (\<lambda>pass.
      bnd (NextInt L) (\<lambda>total. ret [Chat (EventVoteStatus yes no pass total)])))))"

definition processVoteOptionAdd7 :: "byte list \<Rightarrow> goerr + event list" where
  "processVoteOptionAdd7 =
     run_decoder (bnd NextString (\<lambda>desc. ret [Chat (EventVoteOption VoteOptionAdd desc)]))"

definition processVoteOptionRemove7 :: "byte list \<Rightarrow> goerr + event list" where
  "processVoteOptionRemove7 =
     run_decoder (bnd NextString (\<lambda>desc. ret [Chat (EventVoteOption VoteOptionRemove desc)]))"

definition processVoteClearOptions7 :: "goerr + event list" where
  "processVoteClearOptions7 = Inr [Chat (EventVoteOption VoteOptionClear [])]"

definition processServerSettings7 :: "varint_lib \<Rightarrow> byte list \<Rightarrow> goerr + event list" where
  "processServerSettings7 L = run_decoder
     (bnd (NextInt L) (\<lambda>kickVote. bnd (NextInt L) (\<lambda>kickMin. bnd (NextInt L) (\<lambda>specVote.
      bnd (NextInt L) (\<lambda>teamLock. bnd (NextInt L) (\<lambda>teamBalance. bnd (NextInt L) (\<lambda>playerSlots.
      ret [Roster (EventServerSettings (kickVote \<noteq> 0) kickMin (specVote \<noteq> 0) (teamLock \<noteq> 0)
             (teamBalance \<noteq> 0) playerSlots)])))))))"

text \<open>
  \<open>Sv_ClientInfo\<close>: the id and the local mark come first, and a set mark is stored before the rest
  is read, whatever becomes of it. \<open>client_info_mark\<close> is what is stored.
\<close>

definition client_info_mark :: "varint_lib \<Rightarrow> byte list \<Rightarrow> int option" where
  "client_info_mark L d =
     (case bnd (NextInt L) (\<lambda>cid. bnd (NextInt L) (\<lambda>loc. ret (cid, loc))) (NewUnpacker d) of
        (Inl e, u) \<Rightarrow> None
      | (Inr (cid, loc), u) \<Rightarrow> if loc \<noteq> 0 then Some cid else None)"

definition client_info_event :: "varint_lib \<Rightarrow> byte list \<Rightarrow> goerr + event list" where
  "client_info_event L = run_decoder
     (bnd (NextInt L) (\<lambda>cid. bnd (NextInt L) (\<lambda>loc. bnd (NextInt L) (\<lambda>team.
      bnd NextString (\<lambda>name. bnd NextString (\<lambda>clan. bnd (NextInt L) (\<lambda>country.
      bnd (for_range 0 6 (\<lambda>i. NextString)) (\<lambda>parts.
      ret [Roster (EventPlayerJoin cid name clan country (parts ! 0) team)]))))))))"

definition processClientDrop7 :: "varint_lib \<Rightarrow> byte list \<Rightarrow> goerr + event list" where
  "processClientDrop7 L = run_decoder
     (bnd (NextInt L) (\<lambda>cid. bnd NextString (\<lambda>reason. ret [Roster (EventPlayerLeave cid reason)])))"

definition processGameInfo7 :: "varint_lib \<Rightarrow> byte list \<Rightarrow> goerr + event list" where
  "processGameInfo7 L = run_decoder
     (bnd (NextInt L) (\<lambda>gameFlags. bnd (NextInt L) (\<lambda>scoreLimit. bnd (NextInt L) (\<lambda>timeLimit.
      ret [Roster (EventGameInfo gameFlags 0 scoreLimit timeLimit)]))))"

definition processGameMsg7 :: "varint_lib \<Rightarrow> byte list \<Rightarrow> goerr + event list" where
  "processGameMsg7 L d =
     (let params = map s32 (raw_ints L (NewUnpacker d)) in
      Inr [Roster (if params \<noteq> [] then EventGameMsg (hd params) (tl params)
                   else EventGameMsg 0 params)])"

definition processSkinChange7 :: "varint_lib \<Rightarrow> byte list \<Rightarrow> goerr + event list" where
  "processSkinChange7 L = run_decoder
     (bnd (NextInt L) (\<lambda>cid. bnd NextString (\<lambda>skin. ret [Roster (EventSkinChange cid skin)])))"

definition processCommandInfo7 :: "byte list \<Rightarrow> goerr + event list" where
  "processCommandInfo7 = run_decoder
     (bnd NextString (\<lambda>name. bnd NextString (\<lambda>help. bnd NextString (\<lambda>args.
      ret [Rcon (EventCommandInfo name help args)]))))"

definition processCommandInfoRemove7 :: "byte list \<Rightarrow> goerr + event list" where
  "processCommandInfoRemove7 =
     run_decoder (bnd NextString (\<lambda>name. ret [Rcon (EventCommandInfoRemove name)]))"

section \<open>Decoders of the reader\<close>

definition processRaceFinish7 :: "varint_lib \<Rightarrow> byte list \<Rightarrow> goerr + event list" where
  "processRaceFinish7 L = run_decoder
     (bnd (NextInt L) (\<lambda>timeCentis. bnd (NextInt L) (\<lambda>_. bnd (NextInt L) (\<lambda>_.
      ret [Core (EventRaceFinish timeCentis True)]))))"

definition processCheckpoint7 :: "varint_lib \<Rightarrow> byte list \<Rightarrow> goerr + event list" where
  "processCheckpoint7 L = run_decoder
     (bnd (NextInt L) (\<lambda>diff. ret [Core (EventCheckpoint diff)]))"

definition processInputTiming7 :: "varint_lib \<Rightarrow> byte list \<Rightarrow> goerr + event list" where
  "processInputTiming7 L = run_decoder
     (bnd (NextInt L) (\<lambda>intendedTick. bnd (NextInt L) (\<lambda>timeLeft.
      ret [Core (EventInputTiming intendedTick timeLeft)])))"

end
