(* ===== verification/Session7.thy ===== *)
theory Session7
  imports Session6 ServerEvents7
begin

text \<open>
  net7/session.go and net7/reader.go: the session of protocol 0.7 with its senders, its packet
  parser, the dispatch of received chunks and the reader's loop. Every packet carries the server's
  token in its header; there is no security token.
\<close>

section \<open>State\<close>

record 'm session7 = "'m session" +
  s7_localClientID :: int
  s7_loginMapData :: "byte list"

section \<open>Sending\<close>

definition SendCtrl7 :: "byte list \<Rightarrow> (('m, 'z) session7_scheme, unit) gost" where
  "SendCtrl7 payload s = SendRaw (BuildCtrlPacket7 (s_serverToken s) (s_ack s) payload) s"

definition session_header7 :: "int \<Rightarrow> ('m, 'z) session7_scheme \<Rightarrow> header7" where
  "session_header7 numChunks s =
     \<lparr>h7_flags = no_flags7, h7_ack = s_ack s, h7_num_chunks = numChunks, h7_token = s_serverToken s,
      h7_response_token = zero_token\<rparr>"

definition session_chunk_packet7 :: "int \<Rightarrow> byte list \<Rightarrow> ('m, 'z) session7_scheme \<Rightarrow> byte list" where
  "session_chunk_packet7 numChunks chunkData s =
     header7_pack (session_header7 numChunks s) @ chunkData"

definition SendChunks7 :: "int \<Rightarrow> byte list \<Rightarrow> (('m, 'z) session7_scheme, unit) gost" where
  "SendChunks7 numChunks chunkData s = SendRaw (session_chunk_packet7 numChunks chunkData s) s"

definition SendResendRequest :: "(('m, 'z) session7_scheme, unit) gost" where
  "SendResendRequest s =
     SendRaw (header7_pack ((session_header7 0 s)\<lparr>h7_flags := no_flags7\<lparr>f7_resend := True\<rparr>\<rparr>)) s"

definition SendVitalMsg7 :: "byte list \<Rightarrow> (('m, 'z) session7_scheme, unit) gost" where
  "SendVitalMsg7 payload = bnd NextSeq (\<lambda>sq. SendChunks7 1 (WrapVitalChunk7 payload sq))"

definition SendNonVitalMsg7 :: "byte list \<Rightarrow> (('m, 'z) session7_scheme, unit) gost" where
  "SendNonVitalMsg7 payload = SendChunks7 1 (WrapChunk7 payload)"

definition SendKeepAlive7 :: "(('m, 'z) session7_scheme, unit) gost" where
  "SendKeepAlive7 = SendCtrl7 CtrlKeepAlive7"

definition SendInput7 ::
    "varint_lib \<Rightarrow> int \<Rightarrow> int \<Rightarrow> int \<Rightarrow> byte list \<Rightarrow> (('m, 'z) session7_scheme, unit) gost" where
  "SendInput7 L tick predTick inputSize inputData s =
     (let tick' = (if s_lastAckedSnap s > tick then s_lastAckedSnap s else tick) in
      SendNonVitalMsg7 (SysInput7 L tick' predTick inputSize inputData) s)"

definition SendChat7 :: "varint_lib \<Rightarrow> byte list \<Rightarrow> (('m, 'z) session7_scheme, unit) gost" where
  "SendChat7 L msg = SendVitalMsg7 (GameClSay7 L False msg)"

definition SendChatTeam7 :: "varint_lib \<Rightarrow> bool \<Rightarrow> byte list \<Rightarrow> (('m, 'z) session7_scheme, unit) gost" where
  "SendChatTeam7 L team msg = SendVitalMsg7 (GameClSay7 L team msg)"

definition SendWhisper7 :: "varint_lib \<Rightarrow> int \<Rightarrow> byte list \<Rightarrow> (('m, 'z) session7_scheme, unit) gost" where
  "SendWhisper7 L toID msg =
     SendVitalMsg7 (GameClSay7 L False (bytes_of ''/whisper '' @ decimal toID @ bytes_of '' '' @ msg))"

definition SendKill7 :: "varint_lib \<Rightarrow> (('m, 'z) session7_scheme, unit) gost" where
  "SendKill7 L = SendVitalMsg7 (GameClKill7 L)"

definition SendRconAuth7 :: "varint_lib \<Rightarrow> byte list \<Rightarrow> (('m, 'z) session7_scheme, unit) gost" where
  "SendRconAuth7 L password = SendVitalMsg7 (SysRconAuth7 L password)"

definition SendRconCmd7 :: "varint_lib \<Rightarrow> byte list \<Rightarrow> (('m, 'z) session7_scheme, unit) gost" where
  "SendRconCmd7 L cmd = SendVitalMsg7 (SysRconCmd7 L cmd)"

definition SendEmoticon7 :: "varint_lib \<Rightarrow> int \<Rightarrow> (('m, 'z) session7_scheme, unit) gost" where
  "SendEmoticon7 L e = SendVitalMsg7 (GameClEmoticon7 L e)"

definition SendSetTeam7 :: "varint_lib \<Rightarrow> int \<Rightarrow> (('m, 'z) session7_scheme, unit) gost" where
  "SendSetTeam7 L team = SendVitalMsg7 (GameClSetTeam7 L team)"

definition SendSpectate7 :: "varint_lib \<Rightarrow> int \<Rightarrow> (('m, 'z) session7_scheme, unit) gost" where
  "SendSpectate7 L spectatorID = SendVitalMsg7 (GameClSetSpectatorMode7 L spectatorID)"

definition SendVote7 :: "varint_lib \<Rightarrow> bool \<Rightarrow> (('m, 'z) session7_scheme, unit) gost" where
  "SendVote7 L approve = SendVitalMsg7 (GameClVote7 L (if approve then 1 else - 1))"

definition SendCallVote7 ::
    "varint_lib \<Rightarrow> byte list \<Rightarrow> byte list \<Rightarrow> byte list \<Rightarrow> (('m, 'z) session7_scheme, unit) gost" where
  "SendCallVote7 L voteType v reason = SendVitalMsg7 (GameClCallVote7 L voteType v reason)"

text \<open>\<open>Close\<close> up to the closing of the socket.\<close>

definition Close7 :: "(('m, 'z) session7_scheme, unit) gost" where
  "Close7 s =
     dropped (SendRaw (BuildCtrlPacket7 (s_serverToken s) (s_ack s) [byte_of MsgCtrlClose7])) s"

section \<open>Receiving\<close>

definition zero_header7 :: header7 where
  "zero_header7 = \<lparr>h7_flags = no_flags7, h7_ack = 0, h7_num_chunks = 0, h7_token = zero_token,
     h7_response_token = zero_token\<rparr>"

text \<open>Control packets are decompressed as well here.\<close>

definition parsePayload7 ::
    "huff_lib \<Rightarrow> byte list \<Rightarrow> goerr + header7 \<times> byte list option" where
  "parsePayload7 H resp =
     (case header7_unpack zero_header7 resp of
        (Some e, hdr) \<Rightarrow> Inl e
      | (None, hdr) \<Rightarrow>
          (if HeaderSize7 \<ge> length resp then Inr (hdr, None)
           else
             (let payload = drop HeaderSize7 resp;
                  payload' =
                    (if f7_compression (h7_flags hdr) then
                       (case Decompress H payload of Inr d \<Rightarrow> d | Inl e \<Rightarrow> payload)
                     else payload) in
              Inr (hdr, Some payload'))))"

definition recvAndParsePayload7 ::
    "huff_lib \<Rightarrow> (('m, 'z) session7_scheme, header7 \<times> byte list option) gost" where
  "recvAndParsePayload7 H = bnd RecvContext (\<lambda>resp s. (parsePayload7 H resp, s))"

definition RecvAndAck7 :: "huff_lib \<Rightarrow> (('m, 'z) session7_scheme, header7 \<times> byte list option) gost" where
  "RecvAndAck7 H =
     bnd (recvAndParsePayload7 H) (\<lambda>(hdr, payload) s.
       case payload of
         None \<Rightarrow> (Inr (hdr, payload), s)
       | Some p \<Rightarrow>
           if h7_num_chunks hdr > 0
           then (Inr (hdr, payload), s\<lparr>s_ack := CountVitalChunks p (h7_num_chunks hdr) (s_ack s) Split7\<rparr>)
           else (Inr (hdr, payload), s))"

section \<open>Acknowledging snapshots\<close>

definition sendAckPacket7 :: "varint_lib \<Rightarrow> int \<Rightarrow> (('m, 'z) session7_scheme, unit) gost" where
  "sendAckPacket7 L tick s =
     (let inputMsg = SysInput7 L tick (s64 (tick + 1)) (int EmptyInputSize) EmptyInput;
          chunkData = WrapChunk7 inputMsg;
          pkt = header7_pack (session_header7 1 s) @ chunkData in
      dropped (SendRaw pkt) s)"

definition ackSnap7 :: "varint_lib \<Rightarrow> int \<Rightarrow> (('m, 'z) session7_scheme, unit) gost" where
  "ackSnap7 L = ackSnap (sendAckPacket7 L)"

definition forceAckSnap7 :: "varint_lib \<Rightarrow> int \<Rightarrow> (('m, 'z) session7_scheme, unit) gost" where
  "forceAckSnap7 L tick = sendAckPacket7 L tick"

definition processSnapSingle7 :: "varint_lib \<Rightarrow> byte list \<Rightarrow> (('m, 'z) session7_scheme, unit) gost" where
  "processSnapSingle7 L = snap_single L (sendAckPacket7 L)"

definition processSnapEmpty7 :: "varint_lib \<Rightarrow> byte list \<Rightarrow> (('m, 'z) session7_scheme, unit) gost" where
  "processSnapEmpty7 L = snap_empty L (sendAckPacket7 L)"

definition processSnapMulti7 :: "varint_lib \<Rightarrow> byte list \<Rightarrow> (('m, 'z) session7_scheme, unit) gost" where
  "processSnapMulti7 L = snap_multi L (sendAckPacket7 L)"

section \<open>Capabilities and the local client\<close>

definition storeCapabilities7 ::
    "varint_lib \<Rightarrow> byte list \<Rightarrow> ('m, 'z) session7_scheme \<Rightarrow> server_capabilities option \<times> ('m, 'z) session7_scheme" where
  "storeCapabilities7 L body s =
     (case capabilities_of L body of
        None \<Rightarrow> (None, s)
      | Some caps \<Rightarrow> (Some caps, s\<lparr>s_caps := caps\<rparr>))"

definition maybeParseCapabilities7 ::
    "varint_lib \<Rightarrow> (byte list \<Rightarrow> byte list) \<Rightarrow> byte list \<Rightarrow> ('m, 'z) session7_scheme \<Rightarrow> ('m, 'z) session7_scheme" where
  "maybeParseCapabilities7 L md5 exPayload s =
     (if length exPayload < 16 then s
      else if take 16 exPayload \<noteq> uuidCapabilities7 md5 then s
      else snd (storeCapabilities7 L (drop 16 exPayload) s))"

definition processClientInfo7 :: "varint_lib \<Rightarrow> byte list \<Rightarrow> (('m, 'z) session7_scheme, unit) gost" where
  "processClientInfo7 L d s =
     deliver (client_info_event L d)
       (case client_info_mark L d of None \<Rightarrow> s | Some cid \<Rightarrow> s\<lparr>s7_localClientID := cid\<rparr>)"

section \<open>Dispatch\<close>

definition process_sys7 :: "varint_lib \<Rightarrow> int \<Rightarrow> byte list \<Rightarrow> (('m, 'z) session7_scheme, unit) gost" where
  "process_sys7 L msgID msgData =
     (if msgID = MsgSysSnapSingle7 then processSnapSingle7 L msgData
      else if msgID = MsgSysSnapEmpty7 then processSnapEmpty7 L msgData
      else if msgID = MsgSysSnap7 then processSnapMulti7 L msgData
      else if msgID = MsgSysPing7 then dropped (SendVitalMsg7 (SysPingReply7 L))
      else if msgID = MsgSysInputTiming7 then deliver (processInputTiming7 L msgData)
      else if msgID = MsgSysMapChange7 then process_map_change L msgData
      else if msgID = MsgSysRconAuthOn7 then emit_event (Rcon (EventRconAuth True 1))
      else if msgID = MsgSysRconAuthOff7 then emit_event (Rcon (EventRconAuth False 0))
      else if msgID = MsgSysRconLine7 then deliver (processRconLine7 msgData)
      else ret ())"

text \<open>The game messages whose handlers only emit_event; \<open>Sv_ClientInfo\<close> also writes the local id.\<close>

definition process_game_events7 :: "varint_lib \<Rightarrow> int \<Rightarrow> byte list \<Rightarrow> goerr + event list" where
  "process_game_events7 L msgID msgData =
     (if msgID = MsgGameSvMotd7 then processMotd7 msgData
      else if msgID = MsgGameSvBroadcast7 then processBroadcast7 msgData
      else if msgID = MsgGameSvChat7 then processChat7 L msgData
      else if msgID = MsgGameSvTeam7 then processTeam7 L msgData
      else if msgID = MsgGameSvKillMsg7 then processKillMsg7 L msgData
      else if msgID = MsgGameSvTuneParams7 then processTuneParams7 L msgData
      else if msgID = MsgGameSvWeaponPickup7 then processWeaponPickup7 L msgData
      else if msgID = MsgGameSvEmoticon7 then processEmoticon7 L msgData
      else if msgID = MsgGameSvVoteSet7 then processVoteSet7 L msgData
      else if msgID = MsgGameSvVoteStatus7 then processVoteStatus7 L msgData
      else if msgID = MsgGameSvVoteOptionAdd7 then processVoteOptionAdd7 msgData
      else if msgID = MsgGameSvVoteOptionRemove7 then processVoteOptionRemove7 msgData
      else if msgID = MsgGameSvVoteClearOptions7 then processVoteClearOptions7
      else if msgID = MsgGameSvServerSettings7 then processServerSettings7 L msgData
      else if msgID = MsgGameSvClientDrop7 then processClientDrop7 L msgData
      else if msgID = MsgGameSvGameInfo7 then processGameInfo7 L msgData
      else if msgID = MsgGameSvGameMsg7 then processGameMsg7 L msgData
      else if msgID = MsgGameSvSkinChange7 then processSkinChange7 L msgData
      else if msgID = MsgGameSvCommandInfo7 then processCommandInfo7 msgData
      else if msgID = MsgGameSvCommandInfoRemove7 then processCommandInfoRemove7 msgData
      else if msgID = MsgGameSvRaceFinish7 then processRaceFinish7 L msgData
      else if msgID = MsgGameSvCheckpoint7 then processCheckpoint7 L msgData
      else Inr [])"

definition process_game7 :: "varint_lib \<Rightarrow> int \<Rightarrow> byte list \<Rightarrow> (('m, 'z) session7_scheme, unit) gost" where
  "process_game7 L msgID msgData =
     (if msgID = MsgGameSvClientInfo7 then processClientInfo7 L msgData
      else deliver (process_game_events7 L msgID msgData))"

definition process_chunk7 :: "varint_lib \<Rightarrow> byte list \<Rightarrow> (('m, 'z) session7_scheme, unit) gost" where
  "process_chunk7 L d =
     (if length d < 1 then ret ()
      else
        (let msgRaw = first_byte_msg (d ! 0);
             sys = (msgRaw AND 1 \<noteq> 0);
             msgID = drop_bit 1 msgRaw;
             msgData = drop 1 d in
         if sys then process_sys7 L msgID msgData else process_game7 L msgID msgData))"

definition processPayload7 :: "varint_lib \<Rightarrow> byte list \<Rightarrow> (('m, 'z) session7_scheme, unit) gost" where
  "processPayload7 L payload = for_chunks (process_chunk7 L) (UnpackChunks payload Split7)"

section \<open>The reader's loop\<close>

text \<open>The periodic sends at the top of an iteration; the result holds the two new timestamps.\<close>

definition periodic7 ::
    "varint_lib \<Rightarrow> int \<Rightarrow> int \<Rightarrow> (('m, 'z) session7_scheme, int \<times> int) gost" where
  "periodic7 L lastSend lastReack s =
     (let (lastSend', s1) =
            (if clock s - lastSend > keepaliveInterval
             then (clock s, snd (dropped SendKeepAlive7 s)) else (lastSend, s)) in
      if clock s1 - lastReack > reackInterval then
        (Inr (lastSend', clock s1),
         if s_lastAckedSnap s1 > 0 then snd (forceAckSnap7 L (s_lastAckedSnap s1) s1) else s1)
      else (Inr (lastSend', lastReack), s1))"

text \<open>
  What one received packet does; the result says whether the loop goes on. The receive's deadline
  is the reader's 50 ms, so an expired wait is an iteration without a packet.
\<close>

definition read_packet7 ::
    "varint_lib \<Rightarrow> (goerr \<Rightarrow> byte list) \<Rightarrow>
     goerr + header7 \<times> byte list option \<Rightarrow> (('m, 'z) session7_scheme, bool) gost" where
  "read_packet7 L err_text r =
     (case r of
        Inl e \<Rightarrow>
          if IsTimeout e then ret True
          else bnd (close_event (err_text e)) (\<lambda>_. ret False)
      | Inr (hdr, None) \<Rightarrow> ret True
      | Inr (hdr, Some payload) \<Rightarrow>
          if f7_control (h7_flags hdr) \<and> payload \<noteq> [] \<and> payload ! 0 = byte_of MsgCtrlClose7 then
            bnd (close_event (if length payload > 1 then drop 1 payload else [])) (\<lambda>_. ret False)
          else bnd (processPayload7 L payload) (\<lambda>_. ret True))"

text \<open>
  The loop over the script: \<open>evs\<close> is what is left of the inbox. \<open>ctx.Done\<close> is tested at the top
  of an iteration; a context that ends during the wait makes the receive fail.
\<close>

fun read_loop7 ::
    "varint_lib \<Rightarrow> huff_lib \<Rightarrow> (goerr \<Rightarrow> byte list) \<Rightarrow> int \<Rightarrow> int \<Rightarrow>
     (int \<times> net_event) list \<Rightarrow> (('m, 'z) session7_scheme, unit) gost" where
  "read_loop7 L H err_text lastSend lastReack [] s = (Inr (), s)"
| "read_loop7 L H err_text lastSend lastReack ((d, ev) # evs) s =
     (if ctx_over (d, ev) then (Inr (), s)
      else
        bnd (periodic7 L lastSend lastReack) (\<lambda>(lastSend', lastReack') s1.
          let (r, s2) = RecvAndAck7 H s1;
              lastSend'' = (case r of Inl e \<Rightarrow> lastSend' | Inr _ \<Rightarrow> clock s2) in
          bnd (read_packet7 L err_text r) (\<lambda>go.
            if go \<and> \<not> ctx_ends ev then read_loop7 L H err_text lastSend'' lastReack' evs
            else ret ()) s2) s)"

definition readLoop7 ::
    "varint_lib \<Rightarrow> huff_lib \<Rightarrow> (goerr \<Rightarrow> byte list) \<Rightarrow>
     (('m, 'z) session7_scheme, unit) gost" where
  "readLoop7 L H err_text s = read_loop7 L H err_text (clock s) (clock s) (inbox s) s"

text \<open>\<open>StartReader\<close> up to the start of the goroutine.\<close>

definition StartReader7 :: "int \<Rightarrow> int \<Rightarrow> ('m, 'z) session7_scheme \<Rightarrow> ('m, 'z) session7_scheme" where
  "StartReader7 snapStorageSize eventChanSize s =
     s\<lparr>s_eventCh := [], s_chanCap := eventChanSizeOrDefault eventChanSize,
       s_snaps := NewSnapStorage (Some SnapItemSize7) [Some (WithMaxSnaps snapStorageSize)]\<rparr>"

end
