(* ===== verification/Reader.thy ===== *)
theory Reader
  imports Session7
begin

text \<open>
  What the reader's snapshot path needs of the session that owns it, and what it guarantees: the
  interface \<open>snap_reader\<close>, interpreted on the sessions of both protocols. Its central fact is that
  acknowledgements go forwards only.
\<close>

section \<open>The first message of a packet\<close>

lemma UnpackChunks_first:
  assumes "split \<le> 6" and "wf_chunk split c"
  shows "\<exists>cs. UnpackChunks (chunk_bytes split c @ rest) split = c # cs"
proof -
  have w: "wf_header split (Header c)" "Data c \<noteq> []" "Size (Header c) = int (length (Data c))"
    using assms(2) by (simp_all add: wf_chunk_def)
  have hdr: "chunk_unpack split zero_header (at_pos [] (chunk_bytes split c @ rest)) =
      (Inr (Header c), at_pos (chunk_pack (Header c) split) (Data c @ rest))"
    using chunk_unpack_pack [OF assms(1) w(1), of "[]" "Data c @ rest"] by (simp add: chunk_bytes_def)
  have body: "NextRaw (Size (Header c)) (at_pos pre (Data c @ rest)) =
      (Inr (Data c), at_pos (pre @ Data c) rest)" for pre
    using w(3) by (intro NextRaw_at_pos) simp
  have "0 < length (Data c)" using w(2) by simp
  then have "0 < int (length (chunk_bytes split c)) + int (length rest)"
    unfolding chunk_bytes_def length_append by linarith
  then show ?thesis
    using hdr body w(2,3) unfolding UnpackChunks_def NewUnpacker_at_pos
    by (subst unpack_loop.simps) simp
qed

text \<open>
  The other side's view of a packet: the tick an INPUT message acknowledges, when the first message
  behind a header of \<open>n\<close> bytes is one.
\<close>

definition input_tick :: "varint_lib \<Rightarrow> nat \<Rightarrow> nat \<Rightarrow> int \<Rightarrow> byte list \<Rightarrow> int option" where
  "input_tick L n split inputID pkt =
     (case UnpackChunks (drop n pkt) split of
        [] \<Rightarrow> None
      | c # cs \<Rightarrow>
          (case fst (read_message L [FInt 0] (NewUnpacker (Data c))) of
             Inr ((i_d, sys), [FInt t]) \<Rightarrow> if i_d = inputID \<and> sys then Some t else None
           | _ \<Rightarrow> None))"

definition input_tick6 :: "varint_lib \<Rightarrow> byte list \<Rightarrow> int option" where
  "input_tick6 L = input_tick L 3 Split6 MsgSysInput6"

definition input_tick7 :: "varint_lib \<Rightarrow> byte list \<Rightarrow> int option" where
  "input_tick7 L = input_tick L HeaderSize7 Split7 MsgSysInput7"

context varint_contract begin

lemma input_tick_input:
  assumes "split \<le> 6" and "wf_chunk split c" and "length h = n" and "0 \<le> i_d" "i_d < 2 ^ 30" "in_s32 t"
    and "Data c = message_bytes L i_d True (FInt t # fs)"
  shows "input_tick L n split i_d (h @ chunk_bytes split c @ rest) = Some t"
proof -
  obtain cs where u: "UnpackChunks (chunk_bytes split c @ rest) split = c # cs"
    using UnpackChunks_first [OF assms(1,2)] by blast
  have "read_message L [FInt t] (NewUnpacker (message_bytes L i_d True [FInt t]
      @ concat (map (enc_field L) fs))) = (Inr ((i_d, True), [FInt t]),
        at_pos (message_bytes L i_d True [FInt t]) (concat (map (enc_field L) fs)))"
    using assms(4-6) by (intro read_message_bytes) simp_all
  then have "fst (read_message L [FInt 0] (NewUnpacker (Data c))) = Inr ((i_d, True), [FInt t])"
    by (simp add: read_message_def assms(7) message_bytes_def)
  with u assms(3) show ?thesis by (simp add: input_tick_def)
qed

lemma input_tick_other:
  assumes "split \<le> 6" and "wf_chunk split c" and "length h = n" and "0 \<le> i_d" "i_d < 2 ^ 30"
    and "Data c = message_bytes L i_d sys fs" and "(i_d, sys) \<noteq> (k, True)"
  shows "input_tick L n split k (h @ chunk_bytes split c @ rest) = None"
proof -
  obtain cs where u: "UnpackChunks (chunk_bytes split c @ rest) split = c # cs"
    using UnpackChunks_first [OF assms(1,2)] by blast
  have "NextMsgAndSys L (NewUnpacker (Data c)) =
      (Inr (i_d, sys), at_pos (PackMsgID L i_d sys) (concat (map (enc_field L) fs)))"
    using NextMsgAndSys_at_pos [of i_d "[]" sys "concat (map (enc_field L) fs)"] assms(4,5)
    by (simp add: assms(6) message_bytes_def PackMsgID_def NewUnpacker_at_pos)
  then have "fst (read_message L [FInt 0] (NewUnpacker (Data c))) = Inr (i, xs) \<Longrightarrow> i = (i_d, sys)" for i xs
    by (auto simp: read_message_def bnd_def split: prod.splits sum.splits)
  with u assms(3,7) show ?thesis
    by (auto simp: input_tick_def split: sum.splits prod.splits list.splits field.splits)
qed

end

section \<open>Acknowledging forwards\<close>

text \<open>
  \<open>ack_mono tick_of\<close>: the server's token is kept and only datagrams were added to the outbox; the
  ticks they acknowledge start at the last acknowledged one, do not decrease and end at the new one, which is a 32-bit
  integer when the old one was. A token has four bytes (the Go type is an array).
\<close>

definition ack_mono ::
    "(byte list \<Rightarrow> int option) \<Rightarrow> ('m, 'z) session_scheme \<Rightarrow> ('m, 'z) session_scheme \<Rightarrow> bool" where
  "ack_mono tick_of s s' \<longleftrightarrow> s_serverToken s' = s_serverToken s \<and>
     (in_s32 (s_lastAckedSnap s) \<longrightarrow> in_s32 (s_lastAckedSnap s')) \<and>
     (length (s_serverToken s) = 4 \<longrightarrow>
       (\<exists>pk. outbox s' = outbox s @ pk \<and>
         sorted (s_lastAckedSnap s # List.map_filter tick_of pk @ [s_lastAckedSnap s'])))"

lemma ack_mono_same:
  "outbox s' = outbox s \<Longrightarrow> s_lastAckedSnap s' = s_lastAckedSnap s \<Longrightarrow> s_serverToken s' = s_serverToken s \<Longrightarrow>
    ack_mono tick_of s s'"
  by (simp add: ack_mono_def List.map_filter_simps)

lemma sorted_glue:
  fixes a b c :: int
  assumes "sorted (a # p @ [b])" and "sorted (b # q @ [c])"
  shows "sorted (a # (p @ q) @ [c])"
  using assms by (fastforce simp: sorted_append intro: order_trans)

lemma ack_mono_trans:
  assumes st: "ack_mono tick_of s t" and tu: "ack_mono tick_of t u"
  shows "ack_mono tick_of s u"
proof -
  have "\<exists>pk. outbox u = outbox s @ pk \<and>
      sorted (s_lastAckedSnap s # List.map_filter tick_of pk @ [s_lastAckedSnap u])"
    if len: "length (s_serverToken s) = 4"
  proof -
    have len': "length (s_serverToken t) = 4" using st len by (simp add: ack_mono_def)
    obtain p where p: "outbox t = outbox s @ p"
        "sorted (s_lastAckedSnap s # List.map_filter tick_of p @ [s_lastAckedSnap t])"
      using st len unfolding ack_mono_def by blast
    obtain q where q: "outbox u = outbox t @ q"
        "sorted (s_lastAckedSnap t # List.map_filter tick_of q @ [s_lastAckedSnap u])"
      using tu len' unfolding ack_mono_def by blast
    have "sorted (s_lastAckedSnap s # (List.map_filter tick_of p @ List.map_filter tick_of q) @ [s_lastAckedSnap u])"
      using p(2) q(2) by (rule sorted_glue)
    moreover have "List.map_filter tick_of (p @ q) = List.map_filter tick_of p @ List.map_filter tick_of q"
      by (simp add: List.map_filter_def)
    ultimately show ?thesis using p(1) q(1) by (metis append_assoc)
  qed
  moreover have "s_serverToken u = s_serverToken s"
    and "in_s32 (s_lastAckedSnap s) \<longrightarrow> in_s32 (s_lastAckedSnap u)"
    using st tu by (simp_all add: ack_mono_def)
  ultimately show ?thesis unfolding ack_mono_def by blast
qed

lemma ack_mono_reflp [simp]: "reflp (ack_mono tick_of)"
  by (rule reflpI) (intro ack_mono_same refl)

lemma ack_mono_transp [simp]: "transp (ack_mono tick_of)"
  by (rule transpI) (rule ack_mono_trans)

text \<open>What a handler leaves alone: the script, the clock, the channel's capacity, the packet ack.\<close>

definition link :: "('m, 'z) session_scheme \<Rightarrow> (int \<times> net_event) list \<times> int \<times> nat \<times> int" where
  "link s = (inbox s, clock s, s_chanCap s, s_ack s)"

definition ack_quiet ::
    "(byte list \<Rightarrow> int option) \<Rightarrow> ('m, 'z) session_scheme \<Rightarrow> ('m, 'z) session_scheme \<Rightarrow> bool" where
  "ack_quiet tick_of s s' \<longleftrightarrow> ack_mono tick_of s s' \<and> link s' = link s"

lemma ack_quiet_same:
  "outbox s' = outbox s \<Longrightarrow> s_lastAckedSnap s' = s_lastAckedSnap s \<Longrightarrow> s_serverToken s' = s_serverToken s \<Longrightarrow>
    inbox s' = inbox s \<Longrightarrow> clock s' = clock s \<Longrightarrow> s_chanCap s' = s_chanCap s \<Longrightarrow> s_ack s' = s_ack s \<Longrightarrow>
    ack_quiet tick_of s s'"
  by (simp add: ack_quiet_def link_def ack_mono_same)

lemma ack_quiet_trans: "ack_quiet tick_of s t \<Longrightarrow> ack_quiet tick_of t u \<Longrightarrow> ack_quiet tick_of s u"
  by (auto simp: ack_quiet_def intro: ack_mono_trans)

lemma ack_quiet_reflp [simp]: "reflp (ack_quiet tick_of)"
  by (simp add: reflpI ack_quiet_same)

lemma ack_quiet_transp [simp]: "transp (ack_quiet tick_of)"
  by (rule transpI) (rule ack_quiet_trans)

lemma ack_bnd: "keeps (ack_quiet tick_of) m \<Longrightarrow> (\<And>x. keeps (ack_quiet tick_of) (f x)) \<Longrightarrow>
    keeps (ack_quiet tick_of) (bnd m f)"
  by (rule keeps_bnd) simp_all

lemma ack_ret: "keeps (ack_quiet tick_of) (ret x)"
  by (rule keeps_ret) simp

lemma ack_fail: "keeps (ack_quiet tick_of) (fail e)"
  by (rule keeps_fail) simp

lemma ack_emit: "keeps (ack_quiet tick_of) (emit_event ev)"
  by (rule keepsI) (auto simp: emit_event_def intro: ack_quiet_same)

lemma ack_emit_all: "keeps (ack_quiet tick_of) (emit_all evs)"
proof (induction evs)
  case Nil
  show ?case unfolding emit_all.simps by (rule ack_ret)
next
  case (Cons ev evs)
  then show ?case unfolding emit_all.simps by (intro ack_bnd ack_emit)
qed

lemma ack_deliver: "keeps (ack_quiet tick_of) (deliver r)"
  by (cases r) (simp_all add: deliver_def ack_fail ack_emit_all)

lemma ack_drop_assembly: "keeps (ack_quiet tick_of) drop_assembly"
  by (rule keepsI) (auto simp: drop_assembly_def intro: ack_quiet_same)

lemma ack_NextSeq: "keeps (ack_quiet tick_of) NextSeq"
  by (rule keepsI) (auto simp: NextSeq_def Let_def intro: ack_quiet_same)

lemma ack_process_map_change: "keeps (ack_quiet tick_of) (process_map_change L d)"
  by (rule keepsI)
    (auto simp: process_map_change_def set_map_info_def emit_event_def split: sum.splits if_splits intro: ack_quiet_same)

lemma keeps_with_body:
  assumes "yields m P" and "\<And>x. P x \<Longrightarrow> keeps R (f x)" and "reflp R"
  shows "keeps R (with_body m d f)"
proof (rule keepsI)
  fix s r s'
  assume run: "with_body m d f s = (r, s')"
  obtain q u where q: "m (NewUnpacker d) = (q, u)" by fastforce
  show "R s s'"
  proof (cases q)
    case (Inl e)
    with run q assms(3) show ?thesis by (auto simp: with_body_def reflpD split: if_splits)
  next
    case (Inr x)
    then have "keeps R (f x)" using assms(1,2) q by (auto dest: yieldsD)
    with run q Inr show ?thesis by (auto simp: with_body_def dest: keepsD)
  qed
qed

section \<open>The interface of the snapshot path\<close>

text \<open>
  \<open>sendAck\<close> writes at most one datagram, changes nothing else, and what it writes acknowledges
  the given tick to whoever reads it with \<open>tick_of\<close>.
\<close>

locale snap_reader = varint_contract +
  fixes sendAck :: "int \<Rightarrow> (('m, 'z) session_scheme, unit) gost"
    and tick_of :: "byte list \<Rightarrow> int option"
  assumes sends: "\<exists>pk fs. sendAck t s = (Inr (), s\<lparr>outbox := outbox s @ pk, send_faults := fs\<rparr>)
      \<and> (pk = [] \<or> (\<exists>p. pk = [p] \<and> (in_s32 t \<and> length (s_serverToken s) = 4 \<longrightarrow> tick_of p = Some t)))"
begin

lemma ack_resend:
  assumes "in_s32 (s_lastAckedSnap s)"
  shows "ack_quiet tick_of s (snd (sendAck (s_lastAckedSnap s) s))"
  using sends [of "s_lastAckedSnap s" s] assms
  by (auto simp: ack_quiet_def ack_mono_def link_def List.map_filter_simps)

lemma ack_ackSnap:
  assumes "in_s32 t"
  shows "keeps (ack_quiet tick_of) (ackSnap sendAck t)"
proof (rule keepsI)
  fix s s' :: "('m, 'z) session_scheme" and r
  assume run: "ackSnap sendAck t s = (r, s')"
  show "ack_quiet tick_of s s'"
  proof (cases "t \<le> s_lastAckedSnap s")
    case True
    with run show ?thesis by (simp add: ackSnap_def ack_quiet_same)
  next
    case False
    with run have "sendAck t (s\<lparr>s_lastAckedSnap := t\<rparr>) = (r, s')" by (simp add: ackSnap_def)
    with sends [of t "s\<lparr>s_lastAckedSnap := t\<rparr>"] assms False show ?thesis
      by (auto simp: ack_quiet_def ack_mono_def link_def List.map_filter_simps)
  qed
qed

lemma ack_take_snap:
  assumes "in_s32 t" and "keeps (ack_quiet tick_of) after"
  shows "keeps (ack_quiet tick_of) (take_snap L sendAck t dt d after)"
proof (rule keepsI)
  fix s s' :: "('m, 'z) session_scheme" and r
  assume run: "take_snap L sendAck t dt d after s = (r, s')"
  obtain q s1 where q: "session_ProcessSnap L t dt d s = (q, s1)" by fastforce
  then have s1: "ack_quiet tick_of s s1"
    by (auto simp: session_ProcessSnap_def split: prod.splits intro: ack_quiet_same)
  have tail: "keeps (ack_quiet tick_of)
      (bnd (ackSnap sendAck t) (\<lambda>_. bnd (emit_event (Core (EventSnapshot snap))) (\<lambda>_. after)))" for snap
    by (intro ack_bnd ack_ackSnap ack_emit assms)
  show "ack_quiet tick_of s s'"
  proof (cases q)
    case (Inl e)
    with run q s1 show ?thesis by (auto simp: take_snap_def split: if_splits)
  next
    case (Inr snap)
    with run q have "ack_quiet tick_of s1 s'"
      using keepsD [OF tail [of snap]] by (simp add: take_snap_def)
    with s1 show ?thesis by (rule ack_quiet_trans)
  qed
qed

lemma yields_tick2: "yields (bnd (NextInt L) (\<lambda>tick. bnd (NextInt L) (\<lambda>dt. f tick dt)))
    (\<lambda>x. \<exists>tick dt. in_s32 tick \<and> P tick dt x)" if "\<And>tick dt. yields (f tick dt) (P tick dt)"
  unfolding yields_def bnd_eq_Inr by (metis NextInt_in_s32 that yieldsD)

lemma ack_snap_single: "keeps (ack_quiet tick_of) (snap_single L sendAck d)"
  unfolding snap_single_def
  by (rule keeps_with_body [where P = "\<lambda>(tick, dt, b). in_s32 tick"])
    (auto simp: yields_def bnd_eq_Inr dest: NextInt_in_s32 intro!: ack_take_snap ack_ret)

lemma ack_snap_empty: "keeps (ack_quiet tick_of) (snap_empty L sendAck d)"
  unfolding snap_empty_def
  by (rule keeps_with_body [where P = "\<lambda>(tick, dt). in_s32 tick"])
    (auto simp: yields_def bnd_eq_Inr dest: NextInt_in_s32 intro!: ack_take_snap ack_ret)

lemma ack_current_assembly: "keeps (ack_quiet tick_of) (current_assembly t dt n)"
  by (rule keepsI)
    (auto simp: current_assembly_def Let_def split: option.splits sum.splits if_splits intro: ack_quiet_same)

lemma ack_assemble:
  assumes "in_s32 t"
  shows "keeps (ack_quiet tick_of) (assemble L sendAck t dt n i d)"
  unfolding assemble_def
proof (intro ack_bnd ack_current_assembly keepsI)
  fix asm0 r and s s' :: "('m, 'z) session_scheme"
  let ?s1 = "s\<lparr>s_snapAssembly := Some (store_part i n d asm0)\<rparr>"
  assume run: "(let asm = store_part i n d asm0; s1 = s\<lparr>s_snapAssembly := Some asm\<rparr> in
      if sa_Received asm = n then take_snap L sendAck t dt (concat (sa_Parts asm)) drop_assembly s1
      else (Inr (), s1)) = (r, s')"
  have s1: "ack_quiet tick_of s ?s1" by (simp add: ack_quiet_same)
  have "ack_quiet tick_of ?s1 s' \<or> s' = ?s1"
    using run keepsD [OF ack_take_snap [OF assms ack_drop_assembly]]
    by (auto simp: Let_def split: if_splits)
  with s1 show "ack_quiet tick_of s s'" by (auto dest: ack_quiet_trans)
qed

lemma ack_snap_multi: "keeps (ack_quiet tick_of) (snap_multi L sendAck d)"
  unfolding snap_multi_def
  by (rule keeps_with_body [where P = "\<lambda>(tick, dt, n, i, b). in_s32 tick"])
    (auto simp: yields_def bnd_eq_Inr dest: NextInt_in_s32 intro!: ack_take_snap ack_assemble ack_ret)

end

section \<open>Both sessions provide it\<close>

lemma SendRaw_sends: "\<exists>pk fs. dropped (SendRaw p) s = (Inr (), s\<lparr>outbox := outbox s @ pk, send_faults := fs\<rparr>)
    \<and> (pk = [] \<or> pk = [p])"
proof (cases "send_faults s")
  case Nil
  then have "dropped (SendRaw p) s = (Inr (), s\<lparr>outbox := outbox s @ [p], send_faults := []\<rparr>)"
    by (simp add: dropped_def SendRaw_def)
  then show ?thesis by blast
next
  case (Cons f fs)
  then have "dropped (SendRaw p) s =
      (Inr (), s\<lparr>outbox := outbox s @ (if f = None then [p] else []), send_faults := fs\<rparr>)"
    by (cases f) (simp_all add: dropped_def SendRaw_def)
  moreover have "(if f = None then [p] else []) = [] \<or> (if f = None then [p] else []) = [p]" by simp
  ultimately show ?thesis by blast
qed

lemma length_header6 [simp]: "length (header6_pack \<lparr>h6_flags = no_flags6, h6_ack = a, h6_num_chunks = n, h6_token = t\<rparr>) = 3"
  by (simp add: header6_pack_def no_flags6_def)

lemma WrapChunk6_eq: "WrapChunk6 payload = chunk_bytes Split6 (plain_chunk payload)"
  by (simp add: WrapChunk6_def chunk_bytes_def plain_chunk_def)

lemma WrapVitalChunk6_eq: "WrapVitalChunk6 payload sq = chunk_bytes Split6 (vital_chunk payload sq)"
  by (simp add: WrapVitalChunk6_def chunk_bytes_def vital_chunk_def)

lemma WrapChunk7_eq: "WrapChunk7 payload = chunk_bytes Split7 (plain_chunk payload)"
  by (simp add: WrapChunk7_def chunk_bytes_def plain_chunk_def)

lemma WrapVitalChunk7_eq: "WrapVitalChunk7 payload sq = chunk_bytes Split7 (vital_chunk payload sq)"
  by (simp add: WrapVitalChunk7_def chunk_bytes_def vital_chunk_def)

lemma appendSecurityToken_eq: "\<exists>tok. appendSecurityToken pkt s = pkt @ tok"
  by (auto simp: appendSecurityToken_def)

text \<open>The codec's encodings are short: five bytes hold every 32-bit integer.\<close>

locale varint_short = varint_contract +
  assumes encode_short: "in_s32 v \<Longrightarrow> length (encv L v) \<le> 5"
begin

lemma length_AppendInt: "length (AppendInt L dst v) \<le> length dst + 5"
  using encode_short [OF in_s32_clamp32, of v] by (simp add: AppendInt_eq)

lemma length_PackMsgID: "length (PackMsgID L i_d sys) \<le> 5"
  using length_AppendInt [of "[]"] by (simp add: PackMsgID_def AppendMsgID_def Let_def)

lemma length_SysInput6: "length (SysInput6 L t pt sz d) \<le> 20 + length d"
  using length_AppendInt [of "AppendInt L (AppendInt L (AppendMsgID L [] MsgSysInput6 True) t) pt" sz]
    length_AppendInt [of "AppendInt L (AppendMsgID L [] MsgSysInput6 True) t" pt]
    length_AppendInt [of "AppendMsgID L [] MsgSysInput6 True" t] length_PackMsgID [of MsgSysInput6 True]
  by (simp add: SysInput6_def PackMsgID_def)

lemma length_SysInput7: "length (SysInput7 L t pt sz d) \<le> 20 + length d"
  using length_AppendInt [of "AppendInt L (AppendInt L (AppendMsgID L [] MsgSysInput7 True) t) pt" sz]
    length_AppendInt [of "AppendInt L (AppendMsgID L [] MsgSysInput7 True) t" pt]
    length_AppendInt [of "AppendMsgID L [] MsgSysInput7 True" t] length_PackMsgID [of MsgSysInput7 True]
  by (simp add: SysInput7_def PackMsgID_def)

lemma SysInput6_bytes: "SysInput6 L t pt sz d = message_bytes L MsgSysInput6 True [FInt t, FInt pt, FInt sz, FRaw d]"
  by (simp add: SysInput6_def message_bytes_def PackMsgID_def PackInt_def AppendInt_eq)

lemma SysInput7_bytes: "SysInput7 L t pt sz d = message_bytes L MsgSysInput7 True [FInt t, FInt pt, FInt sz, FRaw d]"
  by (simp add: SysInput7_def message_bytes_def PackMsgID_def PackInt_def AppendInt_eq)

text \<open>Every input packet shows its tick, with or without the trailing security token.\<close>

lemma input_packet6_tick:
  assumes "in_s32 t" and "length d \<le> 900"
  shows "input_tick6 L (appendSecurityToken (header6_pack
      \<lparr>h6_flags = no_flags6, h6_ack = a, h6_num_chunks = n, h6_token = tok\<rparr>
        @ WrapChunk6 (SysInput6 L t pt sz d)) s) = Some t"
proof -
  let ?p = "SysInput6 L t pt sz d"
  have b: "?p = message_bytes L MsgSysInput6 True (FInt t # [FInt pt, FInt sz, FRaw d])"
    by (rule SysInput6_bytes)
  have "?p \<noteq> []" using message_bytes_nonempty [OF varint_contract_axioms] unfolding b by blast
  moreover have "length ?p < 2 ^ (Split6 + 6)"
    using length_SysInput6 [of t pt sz d] assms(2) by (simp add: Split6_def)
  ultimately have w: "wf_chunk Split6 (plain_chunk ?p)" by (rule wf_plain_chunk)
  obtain tl where "appendSecurityToken (header6_pack
      \<lparr>h6_flags = no_flags6, h6_ack = a, h6_num_chunks = n, h6_token = tok\<rparr> @ WrapChunk6 ?p) s =
      header6_pack \<lparr>h6_flags = no_flags6, h6_ack = a, h6_num_chunks = n, h6_token = tok\<rparr>
        @ chunk_bytes Split6 (plain_chunk ?p) @ tl"
    using appendSecurityToken_eq [of "header6_pack
      \<lparr>h6_flags = no_flags6, h6_ack = a, h6_num_chunks = n, h6_token = tok\<rparr> @ WrapChunk6 ?p" s]
    by (auto simp: WrapChunk6_eq)
  then show ?thesis
    using input_tick_input [OF _ w, of _ 3 MsgSysInput6 t] assms(1) b
    by (simp add: input_tick6_def Split6_def plain_chunk_def msg_ids6)
qed

lemma length_header7 [simp]: "length (header7_pack (session_header7 n s)) = HeaderSize7"
  if "length (s_serverToken s) = 4"
  using that by (simp add: header7_pack_def session_header7_def no_flags7_def HeaderSize7_def)

lemma input_packet7_tick:
  assumes "in_s32 t" and "length d \<le> 900" and "length (s_serverToken s) = 4"
  shows "input_tick7 L (header7_pack (session_header7 n s) @ WrapChunk7 (SysInput7 L t pt sz d)) = Some t"
proof -
  let ?p = "SysInput7 L t pt sz d"
  have b: "?p = message_bytes L MsgSysInput7 True (FInt t # [FInt pt, FInt sz, FRaw d])"
    by (rule SysInput7_bytes)
  have "?p \<noteq> []" using message_bytes_nonempty [OF varint_contract_axioms] unfolding b by blast
  moreover have "length ?p < 2 ^ (Split7 + 6)"
    using length_SysInput7 [of t pt sz d] assms(2) by (simp add: Split7_def)
  ultimately have w: "wf_chunk Split7 (plain_chunk ?p)" by (rule wf_plain_chunk)
  show ?thesis
    using input_tick_input [OF _ w, of "header7_pack (session_header7 n s)" HeaderSize7 MsgSysInput7 t
        "[FInt pt, FInt sz, FRaw d]" "[]"] assms(1,3) b
    by (simp add: input_tick7_def Split7_def plain_chunk_def msg_ids7 WrapChunk7_eq)
qed

text \<open>Any other message shows no tick.\<close>

lemma vital_packet6_tick:
  assumes "msg_shape6 md5 rnd m = (i_d, sys, fs)" and "(i_d, sys) \<noteq> (MsgSysInput6, True)"
    and "length (build_msg6 L md5 rnd m) < 1024" and "0 \<le> sq" and "sq < 1024"
  shows "input_tick6 L (appendSecurityToken (header6_pack
      \<lparr>h6_flags = no_flags6, h6_ack = a, h6_num_chunks = n, h6_token = tok\<rparr>
        @ WrapVitalChunk6 (build_msg6 L md5 rnd m) sq) s) = None"
proof -
  let ?p = "build_msg6 L md5 rnd m"
  let ?h = "header6_pack \<lparr>h6_flags = no_flags6, h6_ack = a, h6_num_chunks = n, h6_token = tok\<rparr>"
  have b: "?p = message_bytes L i_d sys fs" using varint_contract_axioms assms(1) by (rule build_msg6_eq)
  have "?p \<noteq> []" using message_bytes_nonempty [OF varint_contract_axioms] unfolding b by blast
  then have w: "wf_chunk Split6 (vital_chunk ?p sq)"
    using assms(3-5) by (intro wf_vital_chunk) (simp_all add: Split6_def)
  obtain tl where "appendSecurityToken (?h @ WrapVitalChunk6 ?p sq) s =
      ?h @ chunk_bytes Split6 (vital_chunk ?p sq) @ tl"
    using appendSecurityToken_eq [of "?h @ WrapVitalChunk6 ?p sq" s] by (auto simp: WrapVitalChunk6_eq)
  then show ?thesis
    using input_tick_other [OF _ w, of ?h 3 i_d sys fs MsgSysInput6 tl] assms(2) b msg_shape6_id [OF assms(1)]
    by (simp add: input_tick6_def Split6_def vital_chunk_def)
qed

lemma vital_packet7_tick:
  assumes "msg_shape7 m = (i_d, sys, fs)" and "(i_d, sys) \<noteq> (MsgSysInput7, True)"
    and "length (build_msg7 L m) < 4096" and "0 \<le> sq" and "sq < 1024"
    and "length (s_serverToken s) = 4"
  shows "input_tick7 L (header7_pack (session_header7 n s) @ WrapVitalChunk7 (build_msg7 L m) sq) = None"
proof -
  let ?p = "build_msg7 L m"
  have b: "?p = message_bytes L i_d sys fs" using varint_contract_axioms assms(1) by (rule build_msg7_eq)
  have "?p \<noteq> []" using message_bytes_nonempty [OF varint_contract_axioms] unfolding b by blast
  then have w: "wf_chunk Split7 (vital_chunk ?p sq)"
    using assms(3-5) by (intro wf_vital_chunk) (simp_all add: Split7_def)
  then show ?thesis
    using input_tick_other [OF _ w, of "header7_pack (session_header7 n s)" HeaderSize7 i_d sys fs MsgSysInput7 "[]"]
      assms(2,6) b msg_shape7_id [OF assms(1)]
    by (simp add: input_tick7_def Split7_def vital_chunk_def WrapVitalChunk7_eq)
qed

lemma snap_reader_6: "snap_reader L (sendAckPacket6 L) (input_tick6 L)"
proof
  fix t and s :: "('m, 'z) session6_scheme"
  let ?p = "appendSecurityToken (header6_pack \<lparr>h6_flags = no_flags6, h6_ack = s_ack s, h6_num_chunks = 1,
      h6_token = zero_token\<rparr> @ WrapChunk6 (SysInput6 L t (s64 (t + 1)) (int EmptyInputSize) EmptyInput)) s"
  have "in_s32 t \<Longrightarrow> input_tick6 L ?p = Some t"
    by (rule input_packet6_tick) (simp_all add: EmptyInput_def InputFields_def)
  moreover have "sendAckPacket6 L t s = dropped (SendRaw ?p) s" by (simp add: sendAckPacket6_def)
  ultimately show "\<exists>pk fs. sendAckPacket6 L t s = (Inr (), s\<lparr>outbox := outbox s @ pk, send_faults := fs\<rparr>)
      \<and> (pk = [] \<or> (\<exists>p. pk = [p] \<and> (in_s32 t \<and> length (s_serverToken s) = 4 \<longrightarrow> input_tick6 L p = Some t)))"
    using SendRaw_sends [of ?p s] by metis
qed

lemma snap_reader_7: "snap_reader L (sendAckPacket7 L) (input_tick7 L)"
proof
  fix t and s :: "('m, 'z) session7_scheme"
  let ?p = "header7_pack (session_header7 1 s)
      @ WrapChunk7 (SysInput7 L t (s64 (t + 1)) (int EmptyInputSize) EmptyInput)"
  have "in_s32 t \<Longrightarrow> length (s_serverToken s) = 4 \<Longrightarrow> input_tick7 L ?p = Some t"
    by (rule input_packet7_tick) (simp_all add: EmptyInput_def InputFields_def)
  moreover have "sendAckPacket7 L t s = dropped (SendRaw ?p) s" by (simp add: sendAckPacket7_def)
  ultimately show "\<exists>pk fs. sendAckPacket7 L t s = (Inr (), s\<lparr>outbox := outbox s @ pk, send_faults := fs\<rparr>)
      \<and> (pk = [] \<or> (\<exists>p. pk = [p] \<and> (in_s32 t \<and> length (s_serverToken s) = 4 \<longrightarrow> input_tick7 L p = Some t)))"
    using SendRaw_sends [of ?p s] by metis
qed

end

text \<open>The wire codec's encodings are short.\<close>

lemma length_wire_tail: "v < 128 ^ Suc n \<Longrightarrow> length (wire_tail v) \<le> Suc n"
proof (induction n arbitrary: v)
  case 0
  then show ?case by (subst wire_tail.simps) simp
next
  case (Suc n)
  show ?case
  proof (cases "v < 128")
    case True
    then show ?thesis by (subst wire_tail.simps) simp
  next
    case False
    have "v div 128 < 128 ^ Suc n" using Suc.prems by simp
    with Suc.IH False show ?thesis by (subst wire_tail.simps) simp
  qed
qed

lemma wire_encode_short:
  assumes "in_s32 v"
  shows "length (wire_encode v) \<le> 5"
proof -
  define x where "x = v XOR (- (if v < 0 then 1 else 0))"
  have "x = (if v < 0 then - v - 1 else v)" by (auto simp: x_def not_int_def xor.right_neutral)
  then have "x < 2 ^ 31" using assms by (auto simp: in_s32_def)
  then have "x div 64 < 128 ^ Suc 3" by simp
  then have "length (wire_tail (x div 64)) \<le> 4" using length_wire_tail [of "x div 64" 3] by simp
  then show ?thesis unfolding wire_encode_def Let_def x_def [symmetric] by simp
qed

interpretation wire_short: varint_short wire_lib
  by unfold_locales (simp add: wire_lib_def wire_encode_short)

interpretation reader6: snap_reader wire_lib "sendAckPacket6 wire_lib" "input_tick6 wire_lib"
  by (rule wire_short.snap_reader_6)

interpretation reader7: snap_reader wire_lib "sendAckPacket7 wire_lib" "input_tick7 wire_lib"
  by (rule wire_short.snap_reader_7)

end
