(* ===== verification/Acks.thy ===== *)
theory Acks
  imports Reader
begin

text \<open>
  The life of a session after its login as a state machine: packets are processed, inputs and
  messages are sent, the latest snapshot is acknowledged again. Its safety property is that the
  ticks the session acknowledges never go backwards.
\<close>

section \<open>The handlers acknowledge forwards\<close>

named_theorems ack_intros \<open>operations that keep the order of acknowledgements\<close>

lemma keeps_dropped: "keeps R m \<Longrightarrow> keeps R (dropped m)"
  by (auto simp: keeps_def dropped_def)

lemma SendRaw_ack:
  assumes "length (s_serverToken s) = 4 \<Longrightarrow>
      tick_of p = None \<or> (\<exists>t. tick_of p = Some t \<and> t = s_lastAckedSnap s)"
  shows "ack_quiet tick_of s (snd (SendRaw p s))"
  using assms
  by (auto simp: ack_quiet_def ack_mono_def link_def SendRaw_def List.map_filter_simps split: list.splits option.splits)

lemma ack_for_chunks: "(\<And>d. keeps (ack_quiet tick_of) (body d)) \<Longrightarrow> keeps (ack_quiet tick_of) (for_chunks body cs)"
proof (induction cs)
  case Nil
  show ?case unfolding for_chunks.simps by (rule ack_ret)
next
  case (Cons c cs)
  then show ?case unfolding for_chunks.simps by (intro ack_bnd) simp_all
qed

lemmas [ack_intros] = ack_ret ack_fail ack_emit ack_deliver ack_process_map_change keeps_dropped keeps_if

context varint_short begin

lemma ack_SendVitalMsg6:
  assumes "msg_shape6 md5 rnd m = (i_d, sys, fs)" and "(i_d, sys) \<noteq> (MsgSysInput6, True)"
    and "length (build_msg6 L md5 rnd m) < 1024"
  shows "keeps (ack_quiet (input_tick6 L)) (SendVitalMsg6 (build_msg6 L md5 rnd m))"
proof (rule keepsI)
  fix s r s'
  assume run: "SendVitalMsg6 (build_msg6 L md5 rnd m) s = (r, s')"
  let ?q = "(s_sequence s + 1) mod MaxSequence"
  have q: "0 \<le> ?q" "?q < 1024" by (simp_all add: MaxSequence_def)
  let ?s = "s\<lparr>s_sequence := ?q\<rparr>"
  let ?p = "session_chunk_packet6 1 (WrapVitalChunk6 (build_msg6 L md5 rnd m) ?q) ?s"
  have s': "s' = snd (SendRaw ?p ?s)"
    using run by (simp add: SendVitalMsg6_def bnd_def NextSeq_def Let_def SendChunks6_def)
  have "input_tick6 L ?p = None"
    using vital_packet6_tick [OF assms q] by (simp add: session_chunk_packet6_def)
  then have "ack_quiet (input_tick6 L) ?s s'" unfolding s' by (intro SendRaw_ack) simp
  moreover have "ack_quiet (input_tick6 L) s ?s" by (rule ack_quiet_same) simp_all
  ultimately show "ack_quiet (input_tick6 L) s s'" by (blast intro: ack_quiet_trans)
qed

lemma ack_SendVitalMsg7:
  assumes "msg_shape7 m = (i_d, sys, fs)" and "(i_d, sys) \<noteq> (MsgSysInput7, True)"
    and "length (build_msg7 L m) < 4096"
  shows "keeps (ack_quiet (input_tick7 L)) (SendVitalMsg7 (build_msg7 L m))"
proof (rule keepsI)
  fix s r s'
  assume run: "SendVitalMsg7 (build_msg7 L m) s = (r, s')"
  let ?q = "(s_sequence s + 1) mod MaxSequence"
  have q: "0 \<le> ?q" "?q < 1024" by (simp_all add: MaxSequence_def)
  let ?s = "s\<lparr>s_sequence := ?q\<rparr>"
  let ?p = "session_chunk_packet7 1 (WrapVitalChunk7 (build_msg7 L m) ?q) ?s"
  have s': "s' = snd (SendRaw ?p ?s)"
    using run by (simp add: SendVitalMsg7_def bnd_def NextSeq_def Let_def SendChunks7_def)
  have "length (s_serverToken ?s) = 4 \<Longrightarrow> input_tick7 L ?p = None"
    using vital_packet7_tick [OF assms q, of ?s] by (simp add: session_chunk_packet7_def)
  then have "ack_quiet (input_tick7 L) ?s s'" unfolding s' by (intro SendRaw_ack) simp
  moreover have "ack_quiet (input_tick7 L) s ?s" by (rule ack_quiet_same) simp_all
  ultimately show "ack_quiet (input_tick7 L) s s'" by (blast intro: ack_quiet_trans)
qed

lemma ack_pong6: "keeps (ack_quiet (input_tick6 L)) (SendVitalMsg6 (SysPingReply6 L))"
  using ack_SendVitalMsg6 [of undefined undefined CPingReply6] length_PackMsgID [of MsgSysPingReply6 True]
  by (simp add: msg_ids6 SysPingReply6_def)

lemma ack_pong7: "keeps (ack_quiet (input_tick7 L)) (SendVitalMsg7 (SysPingReply7 L))"
  using ack_SendVitalMsg7 [of CPingReply7] length_PackMsgID [of MsgSysPingReply7 True]
  by (simp add: msg_ids7 SysPingReply7_def)

text \<open>An input that is not ahead of the last acknowledged snapshot is clamped to it.\<close>

lemma ack_SendInput6:
  assumes "tick \<le> s_lastAckedSnap s" and "in_s32 (s_lastAckedSnap s)" and "length d \<le> 900"
  shows "ack_quiet (input_tick6 L) s (snd (SendInput6 L tick pt sz d s))"
proof -
  have "(if s_lastAckedSnap s > tick then s_lastAckedSnap s else tick) = s_lastAckedSnap s"
    using assms(1) by simp
  then have "SendInput6 L tick pt sz d s = SendRaw (session_chunk_packet6 1
      (WrapChunk6 (SysInput6 L (s_lastAckedSnap s) pt sz d)) s) s"
    by (simp add: SendInput6_def SendNonVitalMsg6_def SendChunks6_def)
  moreover have "input_tick6 L (session_chunk_packet6 1
      (WrapChunk6 (SysInput6 L (s_lastAckedSnap s) pt sz d)) s) = Some (s_lastAckedSnap s)"
    unfolding session_chunk_packet6_def Let_def using assms(2,3) by (rule input_packet6_tick)
  ultimately show ?thesis by (simp add: SendRaw_ack)
qed

lemma ack_SendInput7:
  assumes "tick \<le> s_lastAckedSnap s" and "in_s32 (s_lastAckedSnap s)" and "length d \<le> 900"
  shows "ack_quiet (input_tick7 L) s (snd (SendInput7 L tick pt sz d s))"
proof -
  have "(if s_lastAckedSnap s > tick then s_lastAckedSnap s else tick) = s_lastAckedSnap s"
    using assms(1) by simp
  then have "SendInput7 L tick pt sz d s = SendRaw (session_chunk_packet7 1
      (WrapChunk7 (SysInput7 L (s_lastAckedSnap s) pt sz d)) s) s"
    by (simp add: SendInput7_def SendNonVitalMsg7_def SendChunks7_def)
  moreover have "input_tick7 L (session_chunk_packet7 1
      (WrapChunk7 (SysInput7 L (s_lastAckedSnap s) pt sz d)) s) = Some (s_lastAckedSnap s)"
    if "length (s_serverToken s) = 4"
    unfolding session_chunk_packet7_def using assms(2,3) that by (rule input_packet7_tick)
  ultimately show ?thesis by (simp add: SendRaw_ack)
qed

lemma ack_processEx6: "keeps (ack_quiet (input_tick6 L)) (processEx6 L md5 d)"
proof -
  have "keeps (ack_quiet (input_tick6 L)) (processExCapabilities L b)" for b
    by (rule keepsI) (auto simp: processExCapabilities_def storeCapabilities6_def emit_event_def
        split: option.splits intro: ack_quiet_same)
  then show ?thesis unfolding processEx6_def Let_def by (intro ack_intros)
qed

lemma ack_processPayload6: "keeps (ack_quiet (input_tick6 L)) (processPayload6 L md5 p)"
  unfolding processPayload6_def process_chunk6_def process_sys6_def Let_def
    processSnapSingle6_def processSnapEmpty6_def processSnapMulti6_def
  by (intro ack_for_chunks ack_intros ack_pong6 ack_processEx6
      snap_reader.ack_snap_single [OF snap_reader_6] snap_reader.ack_snap_empty [OF snap_reader_6]
      snap_reader.ack_snap_multi [OF snap_reader_6])

lemma ack_processPayload7: "keeps (ack_quiet (input_tick7 L)) (processPayload7 L p)"
proof -
  have ci: "keeps (ack_quiet (input_tick7 L)) (processClientInfo7 L d)" for d
  proof (rule keepsI)
    fix s r s'
    assume run: "processClientInfo7 L d s = (r, s')"
    let ?s = "case client_info_mark L d of None \<Rightarrow> s | Some cid \<Rightarrow> s\<lparr>s7_localClientID := cid\<rparr>"
    have "ack_quiet (input_tick7 L) s ?s" by (auto intro: ack_quiet_same split: option.splits)
    moreover have "ack_quiet (input_tick7 L) ?s s'"
      using run keepsD [OF ack_deliver, of "client_info_event L d" ?s r s'] by (simp add: processClientInfo7_def)
    ultimately show "ack_quiet (input_tick7 L) s s'" by (rule ack_quiet_trans)
  qed
  show ?thesis
    unfolding processPayload7_def process_chunk7_def process_sys7_def process_game7_def Let_def
      processSnapSingle7_def processSnapEmpty7_def processSnapMulti7_def
    by (intro ack_for_chunks ack_intros ack_pong7 ci
        snap_reader.ack_snap_single [OF snap_reader_7] snap_reader.ack_snap_empty [OF snap_reader_7]
        snap_reader.ack_snap_multi [OF snap_reader_7])
qed

end

section \<open>Steps of a session\<close>

text \<open>
  What happens to a session between login and close: a packet is received (\<open>Receives\<close>) or its payload
  processed, an input or a message is sent, the last snapshot is acknowledged again. A message of 0.6
  comes with the random bytes it is built from.
\<close>

datatype 'msg deed =
    Receives
  | Processes "byte list"
  | Inputs int int int "byte list"
  | Reacks
  | Sends 'msg

fun perform6 ::
    "varint_lib \<Rightarrow> huff_lib \<Rightarrow> (byte list \<Rightarrow> byte list) \<Rightarrow> (byte list \<times> client_msg6) deed \<Rightarrow>
     ('m, 'z) session6_scheme \<Rightarrow> ('m, 'z) session6_scheme" where
  "perform6 L H md5 Receives s = snd (RecvAndAck6 H s)"
| "perform6 L H md5 (Processes p) s = snd (processPayload6 L md5 p s)"
| "perform6 L H md5 (Inputs tick pt sz d) s = snd (SendInput6 L tick pt sz d s)"
| "perform6 L H md5 Reacks s = snd (forceAckSnap6 L (s_lastAckedSnap s) s)"
| "perform6 L H md5 (Sends (rnd, m)) s = snd (SendVitalMsg6 (build_msg6 L md5 rnd m) s)"

fun perform7 ::
    "varint_lib \<Rightarrow> huff_lib \<Rightarrow> client_msg7 deed \<Rightarrow> ('m, 'z) session7_scheme \<Rightarrow> ('m, 'z) session7_scheme" where
  "perform7 L H Receives s = snd (RecvAndAck7 H s)"
| "perform7 L H (Processes p) s = snd (processPayload7 L p s)"
| "perform7 L H (Inputs tick pt sz d) s = snd (SendInput7 L tick pt sz d s)"
| "perform7 L H Reacks s = snd (forceAckSnap7 L (s_lastAckedSnap s) s)"
| "perform7 L H (Sends m) s = snd (SendVitalMsg7 (build_msg7 L m) s)"

definition live6 ::
    "varint_lib \<Rightarrow> huff_lib \<Rightarrow> (byte list \<Rightarrow> byte list) \<Rightarrow> ('m, 'z) session6_scheme \<Rightarrow> ('m, 'z) session6_scheme \<Rightarrow> bool" where
  "live6 L H md5 s s' \<longleftrightarrow> (\<exists>a. s' = perform6 L H md5 a s)"

definition live7 ::
    "varint_lib \<Rightarrow> huff_lib \<Rightarrow> ('m, 'z) session7_scheme \<Rightarrow> ('m, 'z) session7_scheme \<Rightarrow> bool" where
  "live7 L H s s' \<longleftrightarrow> (\<exists>a. s' = perform7 L H a s)"

lemma payload6: "live6 L H md5 s (snd (processPayload6 L md5 p s))"
  unfolding live6_def by (metis perform6.simps(2))

text \<open>
  What is sent fits a chunk, and the tick of an input its 32 bits. Inputs are sent by \<open>SendInput\<close>,
  never as vital messages.
\<close>

fun is_input6 :: "client_msg6 \<Rightarrow> bool" where
  "is_input6 (CInput6 _ _ _ _) \<longleftrightarrow> True"
| "is_input6 _ \<longleftrightarrow> False"

fun is_input7 :: "client_msg7 \<Rightarrow> bool" where
  "is_input7 (CInput7 _ _ _ _) \<longleftrightarrow> True"
| "is_input7 _ \<longleftrightarrow> False"

lemma msg_shape6_input: "msg_shape6 md5 rnd m = (MsgSysInput6, True, fs) \<Longrightarrow> is_input6 m"
  by (cases m) (simp_all add: msg_ids6)

lemma msg_shape7_input: "msg_shape7 m = (MsgSysInput7, True, fs) \<Longrightarrow> is_input7 m"
  by (cases m) (simp_all add: msg_ids7)

fun fits6 :: "varint_lib \<Rightarrow> (byte list \<Rightarrow> byte list) \<Rightarrow> (byte list \<times> client_msg6) deed \<Rightarrow> bool" where
  "fits6 L md5 (Inputs tick pt sz d) \<longleftrightarrow> in_s32 tick \<and> length d \<le> 900"
| "fits6 L md5 (Sends (rnd, m)) \<longleftrightarrow> \<not> is_input6 m \<and> length (build_msg6 L md5 rnd m) < 1024"
| "fits6 L md5 _ \<longleftrightarrow> True"

fun fits7 :: "varint_lib \<Rightarrow> client_msg7 deed \<Rightarrow> bool" where
  "fits7 L (Inputs tick pt sz d) \<longleftrightarrow> in_s32 tick \<and> length d \<le> 900"
| "fits7 L (Sends m) \<longleftrightarrow> \<not> is_input7 m \<and> length (build_msg7 L m) < 4096"
| "fits7 L _ \<longleftrightarrow> True"

text \<open>The ticks of the inputs that were ahead of every snapshot acknowledged until then.\<close>

definition runs_ahead :: "'msg deed \<Rightarrow> ('m, 'z) session_scheme \<Rightarrow> int list" where
  "runs_ahead a s = (case a of Inputs tick pt sz d \<Rightarrow> if s_lastAckedSnap s < tick then [tick] else [] | _ \<Rightarrow> [])"

fun ahead :: "('msg deed \<Rightarrow> ('m, 'z) session_scheme \<Rightarrow> ('m, 'z) session_scheme) \<Rightarrow> 'msg deed list \<Rightarrow>
    ('m, 'z) session_scheme \<Rightarrow> int list" where
  "ahead perform [] s = []"
| "ahead perform (a # as) s = runs_ahead a s @ ahead perform as (perform a s)"

text \<open>
  \<open>ack_over tick_of A\<close>: like \<open>ack_mono\<close>, but the ticks of \<open>A\<close> may be undercut by later ones.
\<close>

definition ack_over ::
    "(byte list \<Rightarrow> int option) \<Rightarrow> int set \<Rightarrow> ('m, 'z) session_scheme \<Rightarrow> ('m, 'z) session_scheme \<Rightarrow> bool" where
  "ack_over tick_of A s s' \<longleftrightarrow> s_serverToken s' = s_serverToken s \<and>
     (in_s32 (s_lastAckedSnap s) \<longrightarrow> in_s32 (s_lastAckedSnap s')) \<and>
     (length (s_serverToken s) = 4 \<longrightarrow> s_lastAckedSnap s \<le> s_lastAckedSnap s' \<and>
       (\<exists>pk. outbox s' = outbox s @ pk \<and>
         sorted_wrt (\<lambda>x y. x \<le> y \<or> x \<in> A) (List.map_filter tick_of pk) \<and>
         (\<forall>t \<in> set (List.map_filter tick_of pk). s_lastAckedSnap s \<le> t \<and> (t \<le> s_lastAckedSnap s' \<or> t \<in> A))))"

lemma ack_mono_over:
  assumes "ack_mono tick_of s s'"
  shows "ack_over tick_of A s s'"
proof -
  have "sorted_wrt (\<lambda>x y. x \<le> y \<or> x \<in> A) ts" if "sorted ts" for ts :: "int list"
    using that by (rule sorted_wrt_mono_rel [rotated]) simp
  then show ?thesis using assms by (fastforce simp: ack_mono_def ack_over_def sorted_append)
qed

lemma ack_over_trans:
  assumes st: "ack_over tick_of A s t" and tu: "ack_over tick_of B t u"
  shows "ack_over tick_of (A \<union> B) s u"
proof -
  have "s_lastAckedSnap s \<le> s_lastAckedSnap u \<and> (\<exists>pk. outbox u = outbox s @ pk \<and>
      sorted_wrt (\<lambda>x y. x \<le> y \<or> x \<in> A \<union> B) (List.map_filter tick_of pk) \<and>
      (\<forall>t \<in> set (List.map_filter tick_of pk). s_lastAckedSnap s \<le> t \<and> (t \<le> s_lastAckedSnap u \<or> t \<in> A \<union> B)))"
    if len: "length (s_serverToken s) = 4"
  proof -
    have len': "length (s_serverToken t) = 4" using st len by (simp add: ack_over_def)
    let ?ticks = "List.map_filter tick_of"
    obtain p where p: "s_lastAckedSnap s \<le> s_lastAckedSnap t" "outbox t = outbox s @ p"
        "sorted_wrt (\<lambda>x y. x \<le> y \<or> x \<in> A) (?ticks p)"
        "\<forall>x \<in> set (?ticks p). s_lastAckedSnap s \<le> x \<and> (x \<le> s_lastAckedSnap t \<or> x \<in> A)"
      using st len unfolding ack_over_def by blast
    obtain q where q: "s_lastAckedSnap t \<le> s_lastAckedSnap u" "outbox u = outbox t @ q"
        "sorted_wrt (\<lambda>x y. x \<le> y \<or> x \<in> B) (?ticks q)"
        "\<forall>x \<in> set (?ticks q). s_lastAckedSnap t \<le> x \<and> (x \<le> s_lastAckedSnap u \<or> x \<in> B)"
      using tu len' unfolding ack_over_def by blast
    have "sorted_wrt (\<lambda>x y. x \<le> y \<or> x \<in> A \<union> B) (?ticks p)" "sorted_wrt (\<lambda>x y. x \<le> y \<or> x \<in> A \<union> B) (?ticks q)"
      using p(3) q(3) by (auto elim: sorted_wrt_mono_rel [rotated])
    moreover have "?ticks (p @ q) = ?ticks p @ ?ticks q" by (simp add: List.map_filter_def)
    ultimately show ?thesis using p(1,2,4) q(1,2,4)
      by (intro conjI exI [of _ "p @ q"]) (force simp: sorted_wrt_append)+
  qed
  then show ?thesis using st tu unfolding ack_over_def by auto
qed

lemma ack_RecvAndAck6: "keeps (ack_mono tick_of) (RecvAndAck6 H)"
  by (rule keepsI)
    (auto simp: RecvAndAck6_def recvAndParsePayload6_def bnd_def RecvContext_def take_event_def end_ctx_def
      split: list.splits net_event.splits sum.splits option.splits if_splits intro!: ack_mono_same)

lemma ack_RecvAndAck7: "keeps (ack_mono tick_of) (RecvAndAck7 H)"
  by (rule keepsI)
    (auto simp: RecvAndAck7_def recvAndParsePayload7_def bnd_def RecvContext_def take_event_def end_ctx_def
      split: list.splits net_event.splits sum.splits option.splits if_splits intro!: ack_mono_same)

context varint_short begin

text \<open>An input that is ahead is sent under its own tick.\<close>

lemma ahead_SendInput6:
  assumes "s_lastAckedSnap s < tick" and "in_s32 tick" and "length d \<le> 900"
  shows "ack_over (input_tick6 L) {tick} s (snd (SendInput6 L tick pt sz d s))"
proof -
  let ?p = "session_chunk_packet6 1 (WrapChunk6 (SysInput6 L tick pt sz d)) s"
  have "SendInput6 L tick pt sz d s = SendRaw ?p s"
    using assms(1) by (simp add: SendInput6_def SendNonVitalMsg6_def SendChunks6_def)
  moreover have "input_tick6 L ?p = Some tick"
    unfolding session_chunk_packet6_def Let_def using assms(2,3) by (rule input_packet6_tick)
  ultimately show ?thesis using assms(1)
    by (auto simp: ack_over_def SendRaw_def List.map_filter_simps split: list.splits option.splits)
qed

lemma ahead_SendInput7:
  assumes "s_lastAckedSnap s < tick" and "in_s32 tick" and "length d \<le> 900"
  shows "ack_over (input_tick7 L) {tick} s (snd (SendInput7 L tick pt sz d s))"
proof -
  let ?p = "session_chunk_packet7 1 (WrapChunk7 (SysInput7 L tick pt sz d)) s"
  have "SendInput7 L tick pt sz d s = SendRaw ?p s"
    using assms(1) by (simp add: SendInput7_def SendNonVitalMsg7_def SendChunks7_def)
  moreover have "length (s_serverToken s) = 4 \<Longrightarrow> input_tick7 L ?p = Some tick"
    unfolding session_chunk_packet7_def using assms(2,3) by (intro input_packet7_tick)
  ultimately show ?thesis using assms(1)
    by (auto simp: ack_over_def SendRaw_def List.map_filter_simps split: list.splits option.splits)
qed

lemma perform6_ack:
  assumes "fits6 L md5 a" and "in_s32 (s_lastAckedSnap s)"
  shows "ack_over (input_tick6 L) (set (runs_ahead a s)) s (perform6 L H md5 a s)"
proof (cases a)
  case Receives
  have "ack_mono (input_tick6 L) s (perform6 L H md5 a s)"
    using keepsD [OF ack_RecvAndAck6] Receives by (metis perform6.simps(1) prod.collapse)
  then show ?thesis by (rule ack_mono_over)
next
  case (Processes p)
  have "ack_quiet (input_tick6 L) s (perform6 L H md5 a s)"
    using keepsD [OF ack_processPayload6] Processes by (metis perform6.simps(2) prod.collapse)
  then show ?thesis by (simp add: ack_quiet_def ack_mono_over)
next
  case (Inputs tick pt sz d)
  show ?thesis
  proof (cases "s_lastAckedSnap s < tick")
    case True
    with Inputs assms ahead_SendInput6 [of s tick d pt sz] show ?thesis by (simp add: runs_ahead_def)
  next
    case False
    with Inputs assms ack_SendInput6 [of tick s d pt sz] show ?thesis by (simp add: ack_quiet_def ack_mono_over)
  qed
next
  case Reacks
  then show ?thesis using snap_reader.ack_resend [OF snap_reader_6 assms(2)]
    by (simp add: forceAckSnap6_def ack_quiet_def ack_mono_over)
next
  case (Sends x)
  obtain rnd m where x: "x = (rnd, m)" by fastforce
  obtain i sys fs where "msg_shape6 md5 rnd m = (i, sys, fs)" by (cases "msg_shape6 md5 rnd m") auto
  with Sends x assms(1) have "keeps (ack_quiet (input_tick6 L)) (SendVitalMsg6 (build_msg6 L md5 rnd m))"
    by (intro ack_SendVitalMsg6 [of md5 rnd m i sys fs]) (auto dest: msg_shape6_input)
  then have "ack_quiet (input_tick6 L) s (perform6 L H md5 a s)"
    using Sends x by (metis keepsD perform6.simps(5) prod.collapse)
  then show ?thesis by (simp add: ack_quiet_def ack_mono_over)
qed

lemma perform7_ack:
  assumes "fits7 L a" and "in_s32 (s_lastAckedSnap s)"
  shows "ack_over (input_tick7 L) (set (runs_ahead a s)) s (perform7 L H a s)"
proof (cases a)
  case Receives
  have "ack_mono (input_tick7 L) s (perform7 L H a s)"
    using keepsD [OF ack_RecvAndAck7] Receives by (metis perform7.simps(1) prod.collapse)
  then show ?thesis by (rule ack_mono_over)
next
  case (Processes p)
  have "ack_quiet (input_tick7 L) s (perform7 L H a s)"
    using keepsD [OF ack_processPayload7] Processes by (metis perform7.simps(2) prod.collapse)
  then show ?thesis by (simp add: ack_quiet_def ack_mono_over)
next
  case (Inputs tick pt sz d)
  show ?thesis
  proof (cases "s_lastAckedSnap s < tick")
    case True
    with Inputs assms ahead_SendInput7 [of s tick d pt sz] show ?thesis by (simp add: runs_ahead_def)
  next
    case False
    with Inputs assms ack_SendInput7 [of tick s d pt sz] show ?thesis by (simp add: ack_quiet_def ack_mono_over)
  qed
next
  case Reacks
  then show ?thesis using snap_reader.ack_resend [OF snap_reader_7 assms(2)]
    by (simp add: forceAckSnap7_def ack_quiet_def ack_mono_over)
next
  case (Sends m)
  obtain i sys fs where "msg_shape7 m = (i, sys, fs)" by (cases "msg_shape7 m") auto
  with Sends assms(1) have "keeps (ack_quiet (input_tick7 L)) (SendVitalMsg7 (build_msg7 L m))"
    by (intro ack_SendVitalMsg7 [of m i sys fs]) (auto dest: msg_shape7_input)
  then have "ack_quiet (input_tick7 L) s (perform7 L H a s)"
    using Sends by (metis keepsD perform7.simps(5) prod.collapse)
  then show ?thesis by (simp add: ack_quiet_def ack_mono_over)
qed

text \<open>Along any run: the relation composes, the tick stays in range.\<close>

lemma run6_ack:
  assumes "list_all (fits6 L md5) as" and "in_s32 (s_lastAckedSnap s)"
  shows "ack_over (input_tick6 L) (set (ahead (perform6 L H md5) as s)) s (fold (perform6 L H md5) as s)"
  using assms
proof (induction as arbitrary: s)
  case Nil
  then show ?case by (simp add: ack_mono_over ack_mono_same)
next
  case (Cons a as)
  have a: "ack_over (input_tick6 L) (set (runs_ahead a s)) s (perform6 L H md5 a s)"
    using Cons.prems by (intro perform6_ack) simp_all
  then have "in_s32 (s_lastAckedSnap (perform6 L H md5 a s))" using Cons.prems(2) by (simp add: ack_over_def)
  with Cons have "ack_over (input_tick6 L) (set (ahead (perform6 L H md5) as (perform6 L H md5 a s)))
      (perform6 L H md5 a s) (fold (perform6 L H md5) as (perform6 L H md5 a s))" by simp
  from ack_over_trans [OF a this] show ?case by simp
qed

lemma run7_ack:
  assumes "list_all (fits7 L) as" and "in_s32 (s_lastAckedSnap s)"
  shows "ack_over (input_tick7 L) (set (ahead (perform7 L H) as s)) s (fold (perform7 L H) as s)"
  using assms
proof (induction as arbitrary: s)
  case Nil
  then show ?case by (simp add: ack_mono_over ack_mono_same)
next
  case (Cons a as)
  have a: "ack_over (input_tick7 L) (set (runs_ahead a s)) s (perform7 L H a s)"
    using Cons.prems by (intro perform7_ack) simp_all
  then have "in_s32 (s_lastAckedSnap (perform7 L H a s))" using Cons.prems(2) by (simp add: ack_over_def)
  with Cons have "ack_over (input_tick7 L) (set (ahead (perform7 L H) as (perform7 L H a s)))
      (perform7 L H a s) (fold (perform7 L H) as (perform7 L H a s))" by simp
  from ack_over_trans [OF a this] show ?case by simp
qed

end

section \<open>Sample sessions\<close>

definition sample_session6 :: "unit session6" where
  "sample_session6 =
     \<lparr>inbox = [], outbox = [], send_faults = [], clock = 0, s_clientToken = [1, 2, 3, 4],
      s_serverToken = [5, 6, 7, 8], s_ack = 0, s_sequence = 0, s_lastAckedSnap = 0,
      s_mapInfo = \<lparr>Name = [], CRC = 0, MSize = 0, NumChunksPerRequest = 0, Sha256 = replicate 32 0\<rparr>,
      s_parsed = None, s_caps = no_capabilities,
      s_snaps = NewSnapStorage (Some SnapItemSize6) [], s_dfbuf = [], s_snapAssembly = None,
      s_eventCh = [], s_chanCap = DefaultEventChanSize, s6_securityToken = SecurityTokenUnknown\<rparr>"

definition sample_session7 :: "unit session7" where
  "sample_session7 =
     \<lparr>inbox = [], outbox = [], send_faults = [], clock = 0, s_clientToken = [1, 2, 3, 4],
      s_serverToken = [5, 6, 7, 8], s_ack = 0, s_sequence = 0, s_lastAckedSnap = 0,
      s_mapInfo = \<lparr>Name = [], CRC = 0, MSize = 0, NumChunksPerRequest = 0, Sha256 = replicate 32 0\<rparr>,
      s_parsed = None, s_caps = no_capabilities,
      s_snaps = NewSnapStorage (Some SnapItemSize7) [], s_dfbuf = [], s_snapAssembly = None,
      s_eventCh = [], s_chanCap = DefaultEventChanSize, s7_localClientID = - 1, s7_loginMapData = []\<rparr>"

text \<open>The chunk of an empty snapshot (id 6 and 7) of tick 5 against nothing.\<close>

definition sample_snap6 :: "byte list" where
  "sample_snap6 = WrapChunk6 (message_bytes wire_lib MsgSysSnapEmpty6 True [FInt 5, FInt (- 1)])"

definition sample_snap7 :: "byte list" where
  "sample_snap7 = WrapChunk7 (message_bytes wire_lib MsgSysSnapEmpty7 True [FInt 5, FInt (- 1)])"

section \<open>Properties\<close>

text \<open>
  C1: Acknowledgements go backwards only behind a caller who ran ahead. Whatever packets a 0.6
  session processes and whatever inputs and messages it sends, in any order, as long as what it sends
  fits a chunk and the tick of an input its 32 bits: of the ticks its packets acknowledge, read from the datagrams the way a server reads them, a
  tick is undercut by a later one only if it is that of an input ahead of every snapshot acknowledged
  until then, which \<open>SendInput\<close> does not clamp; every other one is at most the last snapshot
  acknowledged, and none is negative. Lost and failed writes included.
\<close>

theorem acks_never_regress6:
  assumes "varint_short L" and "list_all (fits6 L md5) as"
    and "outbox s = []" and "s_lastAckedSnap s = 0" and "length (s_serverToken s) = 4"
  shows "sorted_wrt (\<lambda>x y. x \<le> y \<or> x \<in> set (ahead (perform6 L H md5) as s))
      (List.map_filter (input_tick6 L) (outbox (fold (perform6 L H md5) as s)))
    \<and> (\<forall>t \<in> set (List.map_filter (input_tick6 L) (outbox (fold (perform6 L H md5) as s))).
         0 \<le> t \<and> (t \<le> s_lastAckedSnap (fold (perform6 L H md5) as s) \<or> t \<in> set (ahead (perform6 L H md5) as s)))"
  using varint_short.run6_ack [OF assms(1,2), of s H] assms(3-5)
  by (auto simp: ack_over_def in_s32_def)

text \<open>A run of a 0.6 session: a snapshot of tick 5, an input behind it, one ahead, the next snapshot.\<close>

definition sample_run6 :: "(byte list \<times> client_msg6) deed list" where
  "sample_run6 = [Processes sample_snap6, Inputs 3 4 0 [], Inputs 9 10 0 [],
     Processes (WrapChunk6 (message_bytes wire_lib MsgSysSnapEmpty6 True [FInt 7, FInt (- 1)]))]"

theorem acks_never_regress6_witness:
  "sorted_wrt (\<lambda>x y. x \<le> y \<or> x \<in> set (ahead (perform6 wire_lib plain_huffman (\<lambda>b. b)) sample_run6 sample_session6))
     (List.map_filter (input_tick6 wire_lib) (outbox (fold (perform6 wire_lib plain_huffman (\<lambda>b. b)) sample_run6 sample_session6)))"
proof -
  have "list_all (fits6 wire_lib (\<lambda>b. b)) sample_run6" by (simp add: sample_run6_def in_s32_def)
  from acks_never_regress6 [OF wire_short.varint_short_axioms this, of sample_session6 plain_huffman] show ?thesis
    by (simp add: sample_session6_def)
qed

text \<open>The input ahead is undercut by the acknowledgement of the next snapshot.\<close>

lemma ack_undercut:
  "List.map_filter (input_tick6 wire_lib) (outbox (fold (perform6 wire_lib plain_huffman (\<lambda>b. b)) sample_run6 sample_session6)) =
     [5, 5, 9, 7]"
  by code_simp

text \<open>
  The same for a 0.7 session, whose packets carry the server's token in the header.
\<close>

theorem acks_never_regress7:
  assumes "varint_short L" and "list_all (fits7 L) as"
    and "outbox s = []" and "s_lastAckedSnap s = 0" and "length (s_serverToken s) = 4"
  shows "sorted_wrt (\<lambda>x y. x \<le> y \<or> x \<in> set (ahead (perform7 L H) as s))
      (List.map_filter (input_tick7 L) (outbox (fold (perform7 L H) as s)))
    \<and> (\<forall>t \<in> set (List.map_filter (input_tick7 L) (outbox (fold (perform7 L H) as s))).
         0 \<le> t \<and> (t \<le> s_lastAckedSnap (fold (perform7 L H) as s) \<or> t \<in> set (ahead (perform7 L H) as s)))"
  using varint_short.run7_ack [OF assms(1,2), of s H] assms(3-5)
  by (auto simp: ack_over_def in_s32_def)

theorem acks_never_regress7_witness:
  "sorted_wrt (\<lambda>x y. x \<le> y \<or> x \<in> set (ahead (perform7 wire_lib plain_huffman) [Processes sample_snap7] sample_session7))
     (List.map_filter (input_tick7 wire_lib) (outbox (fold (perform7 wire_lib plain_huffman) [Processes sample_snap7] sample_session7)))"
proof -
  have "list_all (fits7 wire_lib) [Processes sample_snap7]" by simp
  from acks_never_regress7 [OF wire_short.varint_short_axioms this, of sample_session7 plain_huffman] show ?thesis
    by (simp add: sample_session7_def)
qed

end
