(* ===== verification/Delivery.thy ===== *)
theory Delivery
  imports Acks
begin

text \<open>
  What the handlers of received messages do to the part of a session its consumer sees: the event
  channel, and the script and the clock behind it. The locale \<open>event_rel\<close> is the interface: a
  relation that only looks at this view, composes, and allows some events to be queued and the
  sequence number to move within its range, is kept by every handler that queues no other event.
\<close>

definition view :: "('m, 'z) session_scheme \<Rightarrow>
    ((int \<times> net_event) list \<times> int \<times> nat \<times> int) \<times> event list \<times> int \<times> byte list \<times> byte list" where
  "view s = (link s, s_eventCh s, s_sequence s, s_clientToken s, s_serverToken s)"

definition calm :: "(event \<Rightarrow> bool) \<Rightarrow> goerr + event list \<Rightarrow> bool" where
  "calm ok r \<longleftrightarrow> (\<forall>evs. r = Inr evs \<longrightarrow> (\<forall>ev \<in> set evs. ok ev))"

lemma calm_run_decoder:
  assumes "yields m (\<lambda>evs. \<forall>ev \<in> set evs. ok ev)"
  shows "calm ok (run_decoder m d)"
proof -
  obtain p u where p: "m (NewUnpacker d) = (p, u)" by fastforce
  with assms have "p = Inr evs \<Longrightarrow> \<forall>ev \<in> set evs. ok ev" for evs
    by (auto dest: yieldsD)
  with p show ?thesis by (auto simp: calm_def run_decoder_def split: sum.splits if_splits)
qed

lemma yields_tail: "(\<And>x. yields (f x) Q) \<Longrightarrow> yields (bnd m f) Q"
  unfolding yields_def bnd_eq_Inr by metis

lemmas calm_steps = calm_run_decoder yields_tail yields_ret

lemma calm_any: "(\<And>ev. ok ev) \<Longrightarrow> calm ok r"
  by (simp add: calm_def)

lemma keeps_snd: "keeps R m \<Longrightarrow> R s (snd (m s))"
  by (simp add: keeps_def)

section \<open>The interface\<close>

locale event_rel =
  fixes R :: "('m, 'z) session_scheme \<Rightarrow> ('m, 'z) session_scheme \<Rightarrow> bool" and ok :: "event \<Rightarrow> bool"
  assumes same_view: "view s' = view s \<Longrightarrow> R s s'"
    and trans: "R s t \<Longrightarrow> R t u \<Longrightarrow> R s u"
    and emits: "ok ev \<Longrightarrow> R s (s\<lparr>s_eventCh := SendEvent (s_chanCap s) ev (s_eventCh s)\<rparr>)"
    and seqs: "0 \<le> q \<Longrightarrow> q < MaxSequence \<Longrightarrow> R s (s\<lparr>s_sequence := q\<rparr>)"
begin

lemma R_transp: "transp R" and R_reflp: "reflp R"
  by (blast intro: transpI trans) (blast intro: reflpI same_view)

lemma rel_bnd: "keeps R m \<Longrightarrow> (\<And>x. keeps R (f x)) \<Longrightarrow> keeps R (bnd m f)"
  by (rule keeps_bnd [OF R_transp])

lemma rel_ret: "keeps R (ret x)" and rel_fail: "keeps R (fail e)"
  by (rule keeps_ret [OF R_reflp]) (rule keeps_fail [OF R_reflp])

lemma rel_emit: "ok ev \<Longrightarrow> keeps R (emit_event ev)"
  by (rule keepsI) (auto simp: emit_event_def intro: emits)

lemma rel_emit_all: "\<forall>ev \<in> set evs. ok ev \<Longrightarrow> keeps R (emit_all evs)"
proof (induction evs)
  case Nil
  show ?case unfolding emit_all.simps by (rule rel_ret)
next
  case (Cons ev evs)
  then show ?case unfolding emit_all.simps by (intro rel_bnd rel_emit) simp_all
qed

lemma rel_deliver: "calm ok r \<Longrightarrow> keeps R (deliver r)"
  by (cases r) (simp_all add: deliver_def calm_def rel_fail rel_emit_all)

lemma rel_SendRaw: "keeps R (dropped (SendRaw p))"
  by (rule keepsI) (auto simp: dropped_def SendRaw_def view_def link_def intro!: same_view
      split: list.splits option.splits)

lemma rel_view:
  assumes "keeps R m" and "view s1 = view s" and "m s1 = (r, s')"
  shows "R s s'"
  using keepsD [OF assms(1,3)] same_view [OF assms(2)] by (blast intro: trans)

lemma rel_ackSnap:
  assumes "\<And>t. keeps R (sendAck t)"
  shows "keeps R (ackSnap sendAck t)"
proof (rule keepsI)
  fix s s' :: "('m, 'z) session_scheme" and r
  assume run: "ackSnap sendAck t s = (r, s')"
  show "R s s'"
  proof (cases "t \<le> s_lastAckedSnap s")
    case True
    with run show ?thesis by (simp add: ackSnap_def same_view)
  next
    case False
    with run have "sendAck t (s\<lparr>s_lastAckedSnap := t\<rparr>) = (r, s')" by (simp add: ackSnap_def)
    then show ?thesis by (intro rel_view [OF assms]) (simp_all add: view_def link_def)
  qed
qed

lemma rel_take_snap:
  assumes "\<And>t. keeps R (sendAck t)" and "keeps R after" and "\<And>snap. ok (Core (EventSnapshot snap))"
  shows "keeps R (take_snap L sendAck t dt d after)"
proof (rule keepsI)
  fix s s' :: "('m, 'z) session_scheme" and r
  assume run: "take_snap L sendAck t dt d after s = (r, s')"
  obtain q s1 where q: "session_ProcessSnap L t dt d s = (q, s1)" by fastforce
  then have s1: "view s1 = view s"
    by (auto simp: session_ProcessSnap_def view_def link_def split: prod.splits)
  have tail: "keeps R
      (bnd (ackSnap sendAck t) (\<lambda>_. bnd (emit_event (Core (EventSnapshot snap))) (\<lambda>_. after)))" for snap
    by (intro rel_bnd rel_ackSnap rel_emit assms)
  show "R s s'"
  proof (cases q)
    case (Inl e)
    with run q s1 show ?thesis by (auto simp: take_snap_def intro: same_view split: if_splits)
  next
    case (Inr snap)
    with run q show ?thesis using rel_view [OF tail [of snap] s1] by (simp add: take_snap_def)
  qed
qed

lemma rel_with_body: "(\<And>x. keeps R (f x)) \<Longrightarrow> keeps R (with_body m d f)"
  by (rule keeps_with_body [where P = "\<lambda>_. True"]) (simp_all add: yields_def R_reflp)

lemma rel_drop_assembly: "keeps R drop_assembly"
  by (rule keepsI) (auto simp: drop_assembly_def view_def link_def intro: same_view)

lemma rel_current_assembly: "keeps R (current_assembly t dt n)"
  by (rule keepsI)
    (auto simp: current_assembly_def Let_def view_def link_def split: option.splits sum.splits if_splits
      intro!: same_view)

lemma rel_assemble:
  assumes "\<And>t. keeps R (sendAck t)" and "\<And>snap. ok (Core (EventSnapshot snap))"
  shows "keeps R (assemble L sendAck t dt n i d)"
  unfolding assemble_def
proof (intro rel_bnd rel_current_assembly keepsI)
  fix asm0 r and s s' :: "('m, 'z) session_scheme"
  let ?s1 = "s\<lparr>s_snapAssembly := Some (store_part i n d asm0)\<rparr>"
  assume run: "(let asm = store_part i n d asm0; s1 = s\<lparr>s_snapAssembly := Some asm\<rparr> in
      if sa_Received asm = n then take_snap L sendAck t dt (concat (sa_Parts asm)) drop_assembly s1
      else (Inr (), s1)) = (r, s')"
  have v: "view ?s1 = view s" by (simp add: view_def link_def)
  show "R s s'"
    using run rel_view [OF rel_take_snap [OF assms(1) rel_drop_assembly assms(2)] v] same_view [OF v]
    by (auto simp: Let_def split: if_splits)
qed

lemma rel_snaps:
  assumes "\<And>t. keeps R (sendAck t)" and "\<And>snap. ok (Core (EventSnapshot snap))"
  shows "keeps R (snap_single L sendAck d)" "keeps R (snap_empty L sendAck d)" "keeps R (snap_multi L sendAck d)"
  unfolding snap_single_def snap_empty_def snap_multi_def
  by (intro rel_with_body keeps_case_prod keeps_if rel_take_snap rel_assemble rel_ret assms)+

lemma rel_process_map_change:
  assumes "\<And>info. ok (Core (EventMapChange info))"
  shows "keeps R (process_map_change L d)"
proof (rule keepsI)
  fix s s' :: "('m, 'z) session_scheme" and r
  assume run: "process_map_change L d s = (r, s')"
  show "R s s'"
  proof (cases "ParseMapChangePayload L d")
    case (Inl e)
    with run show ?thesis by (auto simp: process_map_change_def intro: same_view split: if_splits)
  next
    case (Inr info)
    with run have "emit_event (Core (EventMapChange info)) (set_map_info info s) = (r, s')"
      by (simp add: process_map_change_def)
    moreover have "view (set_map_info info s) = view s" by (simp add: view_def link_def set_map_info_def)
    ultimately show ?thesis by (intro rel_view [OF rel_emit [OF assms]])
  qed
qed

lemma rel_for_chunks: "(\<And>d. keeps R (body d)) \<Longrightarrow> keeps R (for_chunks body cs)"
proof (induction cs)
  case Nil
  show ?case unfolding for_chunks.simps by (rule rel_ret)
next
  case (Cons c cs)
  then show ?case unfolding for_chunks.simps by (intro rel_bnd) simp_all
qed

lemmas rel_intros = keeps_if rel_ret rel_fail rel_emit rel_deliver rel_SendRaw rel_snaps rel_process_map_change

end

section \<open>Ids read from one byte\<close>

lemma first_byte_id_range: "- 32 \<le> drop_bit 1 (first_byte_msg b)" "drop_bit 1 (first_byte_msg b) < 32"
proof -
  define r where "r = uint (b AND 0x3F)"
  have "r = uint b mod 64" unfolding r_def by (rule uint_and_mask_63)
  then have "0 \<le> r" "r < 64" by simp_all
  moreover have "first_byte_msg b = r \<or> first_byte_msg b = - r - 1"
    by (simp add: first_byte_msg_def r_def Let_def not_int_def)
  ultimately have "- 64 \<le> first_byte_msg b \<and> first_byte_msg b < 64" by linarith
  then show "- 32 \<le> drop_bit 1 (first_byte_msg b)" "drop_bit 1 (first_byte_msg b) < 32"
    unfolding drop_bit_eq_div by simp_all linarith+
qed

section \<open>The handlers of protocol 0.6\<close>

text \<open>All events of 0.6 are allowed here; the relation is one of the view alone.\<close>

locale reader_rel6 = event_rel R ok
  for R :: "('m, 'z) session6_scheme \<Rightarrow> ('m, 'z) session6_scheme \<Rightarrow> bool" and ok +
  assumes ok_any: "ok ev"
begin

lemma rel_SendVitalMsg6: "keeps R (dropped (SendVitalMsg6 m))"
proof (rule keepsI)
  fix s s' :: "('m, 'z) session6_scheme" and r
  assume run: "dropped (SendVitalMsg6 m) s = (r, s')"
  let ?s = "s\<lparr>s_sequence := (s_sequence s + 1) mod MaxSequence\<rparr>"
  have "dropped (SendRaw (session_chunk_packet6 1 (WrapVitalChunk6 m (s_sequence ?s)) ?s)) ?s = (r, s')"
    using run by (auto simp: dropped_def SendVitalMsg6_def bnd_def NextSeq_def Let_def SendChunks6_def)
  then have "R ?s s'" by (rule keepsD [OF rel_SendRaw])
  moreover have "R s ?s" by (rule seqs) (simp_all add: MaxSequence_def)
  ultimately show "R s s'" by (blast intro: trans)
qed

lemma rel_sendAckPacket6: "keeps R (sendAckPacket6 L t)"
  by (rule keepsI) (simp only: sendAckPacket6_def Let_def, metis keeps_snd rel_SendRaw snd_conv)

lemma rel_processExCapabilities: "keeps R (processExCapabilities L d)"
proof (rule keepsI)
  fix s s' :: "('m, 'z) session6_scheme" and r
  assume run: "processExCapabilities L d s = (r, s')"
  show "R s s'"
  proof (cases "capabilities_of L d")
    case None
    with run show ?thesis by (auto simp: processExCapabilities_def storeCapabilities6_def intro: same_view)
  next
    case (Some caps)
    with run have "emit_event (Core (EventServerCapabilities caps)) (s\<lparr>s_caps := caps\<rparr>) = (r, s')"
      by (simp add: processExCapabilities_def storeCapabilities6_def)
    then show ?thesis by (intro rel_view [OF rel_emit [OF ok_any]]) (simp_all add: view_def link_def)
  qed
qed

lemma rel_processEx6: "keeps R (processEx6 L md5 d)"
  unfolding processEx6_def Let_def
  by (intro rel_intros rel_processExCapabilities calm_any ok_any)

lemma rel_processPayload6: "keeps R (processPayload6 L md5 p)"
  unfolding processPayload6_def process_chunk6_def process_sys6_def Let_def
    processSnapSingle6_def processSnapEmpty6_def processSnapMulti6_def
  by (intro rel_for_chunks rel_intros rel_SendVitalMsg6 rel_sendAckPacket6 rel_processEx6 calm_any ok_any)

end

section \<open>The handlers of protocol 0.7\<close>

text \<open>
  Five events whose messages have ids that do not fit the byte the dispatcher reads; every other
  event is allowed.
\<close>

fun late_event :: "event \<Rightarrow> bool" where
  "late_event (Core (EventRaceFinish t f)) = True"
| "late_event (Core (EventCheckpoint d)) = True"
| "late_event (Rcon (EventCommandInfo n h a)) = True"
| "late_event (Rcon (EventCommandInfoRemove n)) = True"
| "late_event (Roster (EventSkinChange c k)) = True"
| "late_event _ = False"

locale reader_rel7 = event_rel R ok
  for R :: "('m, 'z) session7_scheme \<Rightarrow> ('m, 'z) session7_scheme \<Rightarrow> bool" and ok +
  assumes ok_early: "\<not> late_event ev \<Longrightarrow> ok ev"
begin

lemma calm_texts7: "calm ok (processMotd7 d)" "calm ok (processBroadcast7 d)" "calm ok (processVoteOptionAdd7 d)"
    "calm ok (processVoteOptionRemove7 d)" "calm ok (processRconLine7 d)"
  unfolding processMotd7_def processBroadcast7_def processVoteOptionAdd7_def processVoteOptionRemove7_def
    processRconLine7_def
  by (intro calm_steps; simp add: ok_early)+

lemma calm_ints7: "calm ok (processTeam7 L d)" "calm ok (processKillMsg7 L d)" "calm ok (processWeaponPickup7 L d)"
    "calm ok (processEmoticon7 L d)" "calm ok (processVoteSet7 L d)" "calm ok (processVoteStatus7 L d)"
    "calm ok (processServerSettings7 L d)" "calm ok (processClientDrop7 L d)" "calm ok (processGameInfo7 L d)"
    "calm ok (processChat7 L d)" "calm ok (processInputTiming7 L d)" "calm ok (client_info_event L d)"
  unfolding processTeam7_def processKillMsg7_def processWeaponPickup7_def processEmoticon7_def
    processVoteSet7_def processVoteStatus7_def processServerSettings7_def processClientDrop7_def
    processGameInfo7_def processChat7_def processInputTiming7_def client_info_event_def
  by (intro calm_steps; simp add: ok_early)+

lemma calm_values7: "calm ok (processTuneParams7 L d)" "calm ok processVoteClearOptions7" "calm ok (processGameMsg7 L d)"
  by (simp_all add: calm_def processTuneParams7_def processVoteClearOptions7_def processGameMsg7_def Let_def ok_early)

lemma calm_game_events7:
  assumes "msgID < 32"
  shows "calm ok (process_game_events7 L msgID d)"
proof -
  have "msgID \<noteq> MsgGameSvSkinChange7" "msgID \<noteq> MsgGameSvCommandInfo7"
      "msgID \<noteq> MsgGameSvCommandInfoRemove7" "msgID \<noteq> MsgGameSvRaceFinish7" "msgID \<noteq> MsgGameSvCheckpoint7"
    using assms by (simp_all add: msg_ids7)
  moreover have "calm ok (Inr [])" by (simp add: calm_def)
  ultimately show ?thesis
    unfolding process_game_events7_def by (simp add: calm_texts7 calm_ints7 calm_values7)
qed

lemma rel_SendVitalMsg7: "keeps R (dropped (SendVitalMsg7 m))"
proof (rule keepsI)
  fix s s' :: "('m, 'z) session7_scheme" and r
  assume run: "dropped (SendVitalMsg7 m) s = (r, s')"
  let ?s = "s\<lparr>s_sequence := (s_sequence s + 1) mod MaxSequence\<rparr>"
  have "dropped (SendRaw (session_chunk_packet7 1 (WrapVitalChunk7 m (s_sequence ?s)) ?s)) ?s = (r, s')"
    using run by (auto simp: dropped_def SendVitalMsg7_def bnd_def NextSeq_def Let_def SendChunks7_def)
  then have "R ?s s'" by (rule keepsD [OF rel_SendRaw])
  moreover have "R s ?s" by (rule seqs) (simp_all add: MaxSequence_def)
  ultimately show "R s s'" by (blast intro: trans)
qed

lemma rel_sendAckPacket7: "keeps R (sendAckPacket7 L t)"
  by (rule keepsI) (simp only: sendAckPacket7_def Let_def, metis keeps_snd rel_SendRaw snd_conv)

lemma rel_client_info: "keeps R (processClientInfo7 L d)"
proof (rule keepsI)
  fix s s' :: "('m, 'z) session7_scheme" and r
  let ?s = "case client_info_mark L d of None \<Rightarrow> s | Some cid \<Rightarrow> s\<lparr>s7_localClientID := cid\<rparr>"
  assume "processClientInfo7 L d s = (r, s')"
  then have "deliver (client_info_event L d) ?s = (r, s')" by (simp add: processClientInfo7_def)
  moreover have "view ?s = view s" by (simp add: view_def link_def split: option.splits)
  ultimately show "R s s'" using rel_view [OF rel_deliver [OF calm_ints7(12)]] by blast
qed

lemma rel_process_chunk7: "keeps R (process_chunk7 L d)"
proof -
  have "keeps R (process_sys7 L msgID b)" for msgID b
    unfolding process_sys7_def processSnapSingle7_def processSnapEmpty7_def processSnapMulti7_def
    by (intro rel_intros rel_SendVitalMsg7 rel_sendAckPacket7 calm_ints7 calm_texts7; simp add: ok_early)
  moreover have "keeps R (process_game7 L (drop_bit 1 (first_byte_msg b)) x)" for b x
    unfolding process_game7_def
    by (intro keeps_if rel_client_info rel_deliver calm_game_events7 first_byte_id_range(2))
  ultimately show ?thesis
    unfolding process_chunk7_def Let_def by (intro keeps_if rel_ret)
qed

lemma rel_processPayload7: "keeps R (processPayload7 L p)"
  unfolding processPayload7_def by (intro rel_for_chunks rel_process_chunk7)

end

end
