(* ===== verification/Dispatch.thy ===== *)
theory Dispatch
  imports Delivery
begin

text \<open>
  What the dispatch of received chunks can and cannot do: which messages of protocol 0.7 are never
  recognised, how the parts of a snapshot are put together, and how the reader's loop ends.
\<close>

section \<open>Messages of 0.7 the reader never sees\<close>

definition no_late :: "('m, 'z) session_scheme \<Rightarrow> ('m, 'z) session_scheme \<Rightarrow> bool" where
  "no_late s s' \<longleftrightarrow> (\<forall>ev \<in> set (s_eventCh s'). late_event ev \<longrightarrow> ev \<in> set (s_eventCh s))"

lemma set_SendEvent: "x \<in> set (SendEvent c ev q) \<Longrightarrow> x = ev \<or> x \<in> set q"
  by (cases q) (auto simp: SendEvent_def chan_send_def split: option.splits if_splits)

interpretation late7: reader_rel7 no_late "\<lambda>ev. \<not> late_event ev"
  by unfold_locales (auto simp: no_late_def view_def dest: set_SendEvent)

section \<open>The channel the consumer reads\<close>

text \<open>
  \<open>typed\<close>: what the Go types and the wire format promise of a session: tokens of four bytes, ten-bit
  sequence numbers in both directions, a channel within its capacity. \<open>chan_rel\<close>: a handler leaves the
  script, the clock and the capacity alone and keeps \<open>typed\<close>.
\<close>

definition typed :: "('m, 'z) session_scheme \<Rightarrow> bool" where
  "typed s \<longleftrightarrow> length (s_clientToken s) = 4 \<and> length (s_serverToken s) = 4 \<and>
     s_sequence s \<in> {0..<MaxSequence} \<and> s_ack s \<in> {0..<MaxSequence} \<and>
     length (s_eventCh s) \<le> s_chanCap s"

definition chan_rel :: "('m, 'z) session_scheme \<Rightarrow> ('m, 'z) session_scheme \<Rightarrow> bool" where
  "chan_rel s s' \<longleftrightarrow> link s' = link s \<and>
     (length (s_eventCh s) \<le> s_chanCap s \<longrightarrow> length (s_eventCh s') \<le> s_chanCap s') \<and>
     (typed s \<longrightarrow> typed s')"

lemma length_SendEvent: "length q \<le> c \<Longrightarrow> length (SendEvent c ev q) \<le> c"
  by (auto simp: SendEvent_def chan_send_def split: option.splits if_splits)

lemma last_SendEvent: "length q \<le> c \<Longrightarrow> 0 < c \<Longrightarrow> SendEvent c ev q \<noteq> [] \<and> last (SendEvent c ev q) = ev"
  by (cases q) (auto simp: SendEvent_def chan_send_def)

interpretation chan: event_rel chan_rel "\<lambda>ev. True"
  by unfold_locales (auto simp: chan_rel_def view_def link_def typed_def length_SendEvent)

interpretation chan6: reader_rel6 chan_rel "\<lambda>ev. True"
  by unfold_locales simp

interpretation chan7: reader_rel7 chan_rel "\<lambda>ev. True"
  by unfold_locales simp

section \<open>How the loop ends\<close>

text \<open>The consumer has been told: the last event of the channel is the closing one.\<close>

definition told :: "('m, 'z) session_scheme \<Rightarrow> bool" where
  "told s \<longleftrightarrow> s_eventCh s \<noteq> [] \<and> (\<exists>reason. last (s_eventCh s) = Core (EventClose reason))"

text \<open>The caller has ended it: its context is over.\<close>

definition ended :: "('m, 'z) session_scheme \<Rightarrow> bool" where
  "ended s \<longleftrightarrow> inbox s = [] \<or> ctx_over (hd (inbox s))"

lemma close_event_told:
  assumes "length (s_eventCh s) \<le> s_chanCap s" and "0 < s_chanCap s" and "close_event reason s = (r, s')"
  shows "r = Inr () \<and> told s'"
  using assms last_SendEvent [OF assms(1,2)]
  by (auto simp: close_event_def emit_event_def told_def)

text \<open>One receive consumes exactly one event of the script, or leaves the end of the context there.\<close>

definition past :: "int \<times> net_event \<Rightarrow> (int \<times> net_event) list \<Rightarrow> (int \<times> net_event) list" where
  "past x rest = (case snd x of CtxEnd e \<Rightarrow> (0, CtxEnd e) # rest | _ \<Rightarrow> rest)"

lemma RecvContext_past:
  "inbox s = x # rest \<Longrightarrow> inbox (snd (RecvContext s)) = past x rest"
  by (cases x) (auto simp: RecvContext_def past_def take_event_def end_ctx_def split: net_event.splits)

lemma RecvContext_chan:
  "RecvContext s = (r, s') \<Longrightarrow> s_eventCh s' = s_eventCh s \<and> s_chanCap s' = s_chanCap s"
  by (auto simp: RecvContext_def take_event_def end_ctx_def split: list.splits net_event.splits)

lemma RecvAndAck6_past:
  assumes "inbox s = x # rest" and "RecvAndAck6 H s = (r, s')"
  shows "inbox s' = past x rest" "s_eventCh s' = s_eventCh s" "s_chanCap s' = s_chanCap s"
proof -
  obtain q s1 where q: "RecvContext s = (q, s1)" by fastforce
  then have s1: "inbox s1 = past x rest" "s_eventCh s1 = s_eventCh s" "s_chanCap s1 = s_chanCap s"
    using RecvContext_past [OF assms(1)] RecvContext_chan [OF q] by simp_all
  have "inbox s' = inbox s1 \<and> s_eventCh s' = s_eventCh s1 \<and> s_chanCap s' = s_chanCap s1"
    using assms(2) q
    by (auto simp: RecvAndAck6_def recvAndParsePayload6_def bnd_def
        split: sum.splits option.splits if_splits prod.splits)
  with s1 show "inbox s' = past x rest" "s_eventCh s' = s_eventCh s" "s_chanCap s' = s_chanCap s" by simp_all
qed

lemma RecvAndAck7_past:
  assumes "inbox s = x # rest" and "RecvAndAck7 H s = (r, s')"
  shows "inbox s' = past x rest" "s_eventCh s' = s_eventCh s" "s_chanCap s' = s_chanCap s"
proof -
  obtain q s1 where q: "RecvContext s = (q, s1)" by fastforce
  then have s1: "inbox s1 = past x rest" "s_eventCh s1 = s_eventCh s" "s_chanCap s1 = s_chanCap s"
    using RecvContext_past [OF assms(1)] RecvContext_chan [OF q] by simp_all
  have "inbox s' = inbox s1 \<and> s_eventCh s' = s_eventCh s1 \<and> s_chanCap s' = s_chanCap s1"
    using assms(2) q
    by (auto simp: RecvAndAck7_def recvAndParsePayload7_def bnd_def
        split: sum.splits option.splits if_splits prod.splits)
  with s1 show "inbox s' = past x rest" "s_eventCh s' = s_eventCh s" "s_chanCap s' = s_chanCap s" by simp_all
qed

lemma periodic6_chan:
  fixes s :: "('m, 'z) session6_scheme"
  shows "chan_rel s (snd (periodic6 L ls lr s)) \<and> (\<exists>p. fst (periodic6 L ls lr s) = Inr p)"
proof -
  have a: "chan_rel v (snd (dropped SendKeepAlive6 v))" for v :: "('m, 'z) session6_scheme"
  proof -
    have "dropped SendKeepAlive6 v =
        dropped (SendRaw (appendSecurityToken (BuildCtrlPacketNoToken (s_ack v) CtrlKeepAlive6) v)) v"
      by (simp add: dropped_def SendKeepAlive6_def SendCtrl6_def sendPacket6_def)
    then show ?thesis by (simp only: keeps_snd [OF chan.rel_SendRaw])
  qed
  have f: "chan_rel v (snd (forceAckSnap6 L t v))" for v :: "('m, 'z) session6_scheme" and t
    unfolding forceAckSnap6_def by (rule keeps_snd [OF chan6.rel_sendAckPacket6])
  show ?thesis
    using a [of s] f [where v = s and t = "s_lastAckedSnap s"] chan.trans [OF a f] chan.same_view [of s s]
    by (simp add: periodic6_def Let_def)
qed

text \<open>An error of a handler is its panic; otherwise the loop goes on, or the consumer has been told.\<close>

lemma closing_end:
  assumes "length (s_eventCh s) \<le> s_chanCap s" and "0 < s_chanCap s"
    and "bnd (close_event reason) (\<lambda>_. ret False) s = (q, s')"
  shows "q = Inr False \<and> told s'"
proof -
  obtain u s1 where u: "close_event reason s = (u, s1)" by fastforce
  with close_event_told [OF assms(1,2)] have "u = Inr () \<and> told s1" .
  with u assms(3) show ?thesis by (simp add: bnd_def)
qed

lemma keeps_true:
  assumes "keeps R m" and "bnd m (\<lambda>_. ret True) s = (q, s')"
  shows "(\<exists>e. q = Inl e) \<or> (q = Inr True \<and> R s s')"
proof -
  obtain u s1 where u: "m s = (u, s1)" by fastforce
  with assms(1) have "R s s1" by (rule keepsD)
  with u assms(2) show ?thesis by (cases u) (auto simp: bnd_def)
qed

lemma read_packet6_end:
  assumes ok: "length (s_eventCh s) \<le> s_chanCap s" "0 < s_chanCap s"
    and run: "read_packet6 L md5 err_text r s = (q, s')"
  shows "(\<exists>e. q = Inl e) \<or> (q = Inr False \<and> told s') \<or> (q = Inr True \<and> chan_rel s s')"
proof -
  have same: "chan_rel s s" by (rule chan.same_view) simp
  consider (err) e where "r = Inl e" | (empty) hdr where "r = Inr (hdr, None)"
    | (pkt) hdr p where "r = Inr (hdr, Some p)"
    by (cases r) (auto split: prod.splits, metis option.exhaust prod.exhaust)
  then show ?thesis
  proof cases
    case (err e)
    with run same closing_end [OF ok, of "err_text e" q s'] show ?thesis
      by (auto simp: read_packet6_def split: if_splits)
  next
    case (empty hdr)
    with run same show ?thesis by (simp add: read_packet6_def)
  next
    case (pkt hdr p)
    with run keeps_true [OF chan6.rel_processPayload6, of L md5 p s q s']
      closing_end [OF ok, of "if length p > 1 then drop 1 p else []" q s'] show ?thesis
      by (auto simp: read_packet6_def split: if_splits)
  qed
qed

lemma read_loop6_end:
  assumes "inbox s = evs" and "length (s_eventCh s) \<le> s_chanCap s" and "0 < s_chanCap s"
    and "read_loop6 L H md5 err_text ls lr evs s = (r, s')"
  shows "(\<exists>e. r = Inl e) \<or> ended s' \<or> told s'"
  using assms
proof (induction evs arbitrary: s ls lr)
  case Nil
  then show ?case by (auto simp: ended_def)
next
  case (Cons x evs)
  obtain d ev where x: "x = (d, ev)" by fastforce
  show ?case
  proof (cases "ctx_over x")
    case True
    with Cons.prems x show ?thesis by (auto simp: ended_def)
  next
    case False
    obtain p s1 where p: "periodic6 L ls lr s = (Inr p, s1)" "chan_rel s s1"
      using periodic6_chan [of s L ls lr] by (metis prod.collapse)
    obtain ls' lr' where lr: "p = (ls', lr')" by fastforce
    from p(2) Cons.prems have s1: "inbox s1 = x # evs" "length (s_eventCh s1) \<le> s_chanCap s1" "0 < s_chanCap s1"
      by (auto simp: chan_rel_def link_def)
    obtain pk s2 where pk: "RecvAndAck6 H s1 = (pk, s2)" by fastforce
    note s2 = RecvAndAck6_past [OF s1(1) pk]
    obtain go s3 where go: "read_packet6 L md5 err_text pk s2 = (go, s3)" by fastforce
    have rp: "(\<exists>e. go = Inl e) \<or> (go = Inr False \<and> told s3) \<or> (go = Inr True \<and> chan_rel s2 s3)"
      using s1 s2 by (intro read_packet6_end [OF _ _ go]) simp_all
    let ?ls = "case pk of Inl e \<Rightarrow> ls' | Inr _ \<Rightarrow> clock s2"
    have run: "(case go of Inl e \<Rightarrow> (Inl e, s3)
        | Inr g \<Rightarrow> if g \<and> \<not> ctx_ends ev then read_loop6 L H md5 err_text ?ls lr' evs s3 else (Inr (), s3)) = (r, s')"
      using Cons.prems(4) False p(1) lr pk go
      by (auto simp: x bnd_def split: sum.splits if_splits)
    from rp show ?thesis
    proof (elim disjE conjE)
      assume t: "go = Inr True" and c: "chan_rel s2 s3"
      then have s3: "inbox s3 = past x evs" "length (s_eventCh s3) \<le> s_chanCap s3" "0 < s_chanCap s3"
        using s1 s2 by (auto simp: chan_rel_def link_def)
      show ?thesis
      proof (cases "ctx_ends ev")
        case True
        then have "ended s3" using s3(1) x by (auto simp: ended_def past_def ctx_ends_def ctx_over_def split: net_event.splits)
        with run t True show ?thesis by auto
      next
        case False
        then have "inbox s3 = evs" using s3(1) x by (auto simp: past_def ctx_ends_def split: net_event.splits)
        with run t False s3 Cons.IH show ?thesis by simp
      qed
    qed (use run in auto)
  qed
qed

lemma periodic7_chan:
  fixes s :: "('m, 'z) session7_scheme"
  shows "chan_rel s (snd (periodic7 L ls lr s)) \<and> (\<exists>p. fst (periodic7 L ls lr s) = Inr p)"
proof -
  have a: "chan_rel v (snd (dropped SendKeepAlive7 v))" for v :: "('m, 'z) session7_scheme"
  proof -
    have "dropped SendKeepAlive7 v =
        dropped (SendRaw (BuildCtrlPacket7 (s_serverToken v) (s_ack v) CtrlKeepAlive7)) v"
      by (simp add: dropped_def SendKeepAlive7_def SendCtrl7_def)
    then show ?thesis by (simp only: keeps_snd [OF chan.rel_SendRaw])
  qed
  have f: "chan_rel v (snd (forceAckSnap7 L t v))" for v :: "('m, 'z) session7_scheme" and t
    unfolding forceAckSnap7_def by (rule keeps_snd [OF chan7.rel_sendAckPacket7])
  show ?thesis
    using a [of s] f [where v = s and t = "s_lastAckedSnap s"] chan.trans [OF a f] chan.same_view [of s s]
    by (simp add: periodic7_def Let_def)
qed

lemma read_packet7_end:
  assumes ok: "length (s_eventCh s) \<le> s_chanCap s" "0 < s_chanCap s"
    and run: "read_packet7 L err_text r s = (q, s')"
  shows "(\<exists>e. q = Inl e) \<or> (q = Inr False \<and> told s') \<or> (q = Inr True \<and> chan_rel s s')"
proof -
  have same: "chan_rel s s" by (rule chan.same_view) simp
  consider (err) e where "r = Inl e" | (empty) hdr where "r = Inr (hdr, None)"
    | (pkt) hdr p where "r = Inr (hdr, Some p)"
    by (cases r) (auto split: prod.splits, metis option.exhaust prod.exhaust)
  then show ?thesis
  proof cases
    case (err e)
    with run same closing_end [OF ok, of "err_text e" q s'] show ?thesis
      by (auto simp: read_packet7_def split: if_splits)
  next
    case (empty hdr)
    with run same show ?thesis by (simp add: read_packet7_def)
  next
    case (pkt hdr p)
    with run keeps_true [OF chan7.rel_processPayload7, of L p s q s']
      closing_end [OF ok, of "if length p > 1 then drop 1 p else []" q s'] show ?thesis
      by (auto simp: read_packet7_def split: if_splits)
  qed
qed

lemma read_loop7_end:
  assumes "inbox s = evs" and "length (s_eventCh s) \<le> s_chanCap s" and "0 < s_chanCap s"
    and "read_loop7 L H err_text ls lr evs s = (r, s')"
  shows "(\<exists>e. r = Inl e) \<or> ended s' \<or> told s'"
  using assms
proof (induction evs arbitrary: s ls lr)
  case Nil
  then show ?case by (auto simp: ended_def)
next
  case (Cons x evs)
  obtain d ev where x: "x = (d, ev)" by fastforce
  show ?case
  proof (cases "ctx_over x")
    case True
    with Cons.prems x show ?thesis by (auto simp: ended_def)
  next
    case False
    obtain p s1 where p: "periodic7 L ls lr s = (Inr p, s1)" "chan_rel s s1"
      using periodic7_chan [of s L ls lr] by (metis prod.collapse)
    obtain ls' lr' where lr: "p = (ls', lr')" by fastforce
    from p(2) Cons.prems have s1: "inbox s1 = x # evs" "length (s_eventCh s1) \<le> s_chanCap s1" "0 < s_chanCap s1"
      by (auto simp: chan_rel_def link_def)
    obtain pk s2 where pk: "RecvAndAck7 H s1 = (pk, s2)" by fastforce
    note s2 = RecvAndAck7_past [OF s1(1) pk]
    obtain go s3 where go: "read_packet7 L err_text pk s2 = (go, s3)" by fastforce
    have rp: "(\<exists>e. go = Inl e) \<or> (go = Inr False \<and> told s3) \<or> (go = Inr True \<and> chan_rel s2 s3)"
      using s1 s2 by (intro read_packet7_end [OF _ _ go]) simp_all
    let ?ls = "case pk of Inl e \<Rightarrow> ls' | Inr _ \<Rightarrow> clock s2"
    have run: "(case go of Inl e \<Rightarrow> (Inl e, s3)
        | Inr g \<Rightarrow> if g \<and> \<not> ctx_ends ev then read_loop7 L H err_text ?ls lr' evs s3 else (Inr (), s3)) = (r, s')"
      using Cons.prems(4) False p(1) lr pk go
      by (auto simp: x bnd_def split: sum.splits if_splits)
    from rp show ?thesis
    proof (elim disjE conjE)
      assume t: "go = Inr True" and c: "chan_rel s2 s3"
      then have s3: "inbox s3 = past x evs" "length (s_eventCh s3) \<le> s_chanCap s3" "0 < s_chanCap s3"
        using s1 s2 by (auto simp: chan_rel_def link_def)
      show ?thesis
      proof (cases "ctx_ends ev")
        case True
        then have "ended s3" using s3(1) x by (auto simp: ended_def past_def ctx_ends_def ctx_over_def split: net_event.splits)
        with run t True show ?thesis by auto
      next
        case False
        then have "inbox s3 = evs" using s3(1) x by (auto simp: past_def ctx_ends_def split: net_event.splits)
        with run t False s3 Cons.IH show ?thesis by simp
      qed
    qed (use run in auto)
  qed
qed


section \<open>Samples\<close>

text \<open>A server that closes the connection, more traffic behind it.\<close>

definition closing_session6 :: "unit session6" where
  "closing_session6 = sample_session6\<lparr>inbox :=
     [(5, Arrive (BuildCtrlPacketNoToken 0 [byte_of MsgCtrlClose6])), (5, Silence)]\<rparr>"

definition closing_session7 :: "unit session7" where
  "closing_session7 = sample_session7\<lparr>inbox :=
     [(5, Arrive (BuildCtrlPacket7 [1, 2, 3, 4] 0 [byte_of MsgCtrlClose7])), (5, Silence)]\<rparr>"

section \<open>Properties\<close>

text \<open>
  The 0.7 reader can never report a finished race, a checkpoint, a changed skin or a console
  command: whatever packet it processes, it queues none of these events, because the ids of their
  messages (33 and above) need two bytes and the dispatcher reads only the first.
\<close>

theorem race_messages_unreachable7:
  "set (filter late_event (s_eventCh (snd (processPayload7 L p s)))) \<subseteq> set (s_eventCh s)"
  using late7.rel_processPayload7 [of L p] by (auto simp: keeps_def no_late_def)

text \<open>What becomes of them: a race finish is reported as a chat message, a removed command as tuning.\<close>

lemma race_finish_becomes_chat7:
  "s_eventCh (snd (process_chunk7 wire_lib
     (message_bytes wire_lib MsgGameSvRaceFinish7 False [FInt 3, FInt 4200, FInt 0, FInt 0])
     sample_session7)) = [Chat (EventChat 0 3 [])]"
  by code_simp

text \<open>
  C4: The reader's loop does not stop silently. When \<open>readLoop\<close> of a 0.6 session returns, its
  context is over or the last event of its channel is the closing event; only a panic ends it
  otherwise. The channel holds at most its capacity when the loop starts.
\<close>

theorem readLoop6_tells:
  assumes "length (s_eventCh s) \<le> s_chanCap s" and "0 < s_chanCap s"
    and "readLoop6 L H md5 err_text s = (Inr (), s')"
  shows "ended s' \<or> told s'"
  using read_loop6_end [OF refl assms(1,2) assms(3) [unfolded readLoop6_def]] by simp

theorem readLoop6_tells_witness:
  "told (snd (readLoop6 wire_lib plain_huffman (\<lambda>b. b) (\<lambda>e. []) closing_session6))"
proof -
  let ?s' = "snd (readLoop6 wire_lib plain_huffman (\<lambda>b. b) (\<lambda>e. []) closing_session6)"
  have "fst (readLoop6 wire_lib plain_huffman (\<lambda>b. b) (\<lambda>e. []) closing_session6) = Inr ()" by code_simp
  then have "readLoop6 wire_lib plain_huffman (\<lambda>b. b) (\<lambda>e. []) closing_session6 = (Inr (), ?s')"
    by (metis prod.collapse)
  then have "ended ?s' \<or> told ?s'"
    by (rule readLoop6_tells [rotated 2]) (simp_all add: closing_session6_def sample_session6_def DefaultEventChanSize_def)
  moreover have "\<not> ended ?s'" by code_simp
  ultimately show ?thesis by simp
qed

text \<open>
  The same for the loop of a 0.7 session.
\<close>

theorem readLoop7_tells:
  assumes "length (s_eventCh s) \<le> s_chanCap s" and "0 < s_chanCap s"
    and "readLoop7 L H err_text s = (Inr (), s')"
  shows "ended s' \<or> told s'"
  using read_loop7_end [OF refl assms(1,2) assms(3) [unfolded readLoop7_def]] by simp

theorem readLoop7_tells_witness:
  "told (snd (readLoop7 wire_lib plain_huffman (\<lambda>e. []) closing_session7))"
proof -
  let ?s' = "snd (readLoop7 wire_lib plain_huffman (\<lambda>e. []) closing_session7)"
  have "fst (readLoop7 wire_lib plain_huffman (\<lambda>e. []) closing_session7) = Inr ()" by code_simp
  then have "readLoop7 wire_lib plain_huffman (\<lambda>e. []) closing_session7 = (Inr (), ?s')"
    by (metis prod.collapse)
  then have "ended ?s' \<or> told ?s'"
    by (rule readLoop7_tells [rotated 2]) (simp_all add: closing_session7_def sample_session7_def DefaultEventChanSize_def)
  moreover have "\<not> ended ?s'" by code_simp
  ultimately show ?thesis by simp
qed

end
