(* ===== verification/Assembly.thy ===== *)
theory Assembly
  imports Dispatch
begin

text \<open>
  How the parts of a large snapshot are put together: in whatever order they arrive, the snapshot
  is decoded from the parts in their order once the last of them is in; a part received twice
  counts twice.
\<close>

section \<open>The message of a part\<close>

text \<open>The body a server writes behind the id of its SNAP message.\<close>

definition part_body ::
    "varint_lib \<Rightarrow> int \<Rightarrow> int \<Rightarrow> int \<Rightarrow> int \<Rightarrow> int \<Rightarrow> byte list \<Rightarrow> byte list" where
  "part_body L tick deltaTick numParts partIndex crc d =
     concat (map (enc_field L)
       [FInt tick, FInt deltaTick, FInt numParts, FInt partIndex, FInt crc, FInt (int (length d)), FRaw d])"

context varint_contract begin

lemma snap_multi_part:
  assumes "in_s32 t" "in_s32 dt" "in_s32 n" "in_s32 i" "in_s32 crc" "in_s32 (int (length d))"
  shows "snap_multi L sendAck (part_body L t dt n i crc d) =
    (if n = 1 then take_snap L sendAck t dt d (ret ()) else assemble L sendAck t dt n i d)"
proof -
  have raw: "NextRaw (int (length d)) (at_pos pre d) = (Inr d, at_pos (pre @ d) [])" for pre
    using NextRaw_at_pos [of "int (length d)" d pre "[]"] by simp
  show ?thesis
    by (rule ext)
      (simp add: snap_multi_def part_body_def with_body_def bnd_def NewUnpacker_at_pos PackInt_eq assms raw)
qed

text \<open>A negative number of parts makes the handler panic, unless an assembly of that size is open.\<close>

lemma negative_parts:
  assumes "in_s32 t" "in_s32 dt" "in_s32 n" "in_s32 i" "in_s32 crc" "in_s32 (int (length d))"
    and "n < 0" and "s_snapAssembly s = None"
  shows "snap_multi L sendAck (part_body L t dt n i crc d) s = (Inl (Panic ''makeslice: len out of range''), s)"
  unfolding snap_multi_part [OF assms(1-6)] using assms(7,8)
  by (simp add: assemble_def bnd_def current_assembly_def new_assembly_def)

end

section \<open>Any order\<close>

text \<open>The assembly after the parts \<open>js\<close> of \<open>n\<close>.\<close>

definition assembly_of :: "int \<Rightarrow> int \<Rightarrow> nat \<Rightarrow> (nat \<Rightarrow> byte list) \<Rightarrow> nat list \<Rightarrow> snap_assembly" where
  "assembly_of t dt n part js =
     \<lparr>sa_Tick = t, sa_DeltaTick = dt, sa_NumParts = int n, sa_Received = int (length js),
      sa_Parts = map (\<lambda>i. if i \<in> set js then part i else []) [0..<n]\<rparr>"

definition open_assembly :: "snap_assembly \<Rightarrow> ('m, 'z) session_scheme \<Rightarrow> ('m, 'z) session_scheme" where
  "open_assembly asm s = s\<lparr>s_snapAssembly := Some asm\<rparr>"

lemma store_next_part:
  assumes "j < n" and "j \<notin> set js"
  shows "store_part (int j) (int n) (part j) (assembly_of t dt n part js) = assembly_of t dt n part (js @ [j])"
proof -
  have "(map (\<lambda>i. if i \<in> set js then part i else []) [0..<n])[j := part j] =
      map (\<lambda>i. if i \<in> set (js @ [j]) then part i else []) [0..<n]"
    using assms by (intro nth_equalityI) (auto simp: nth_list_update)
  with assms show ?thesis by (simp add: store_part_def assembly_of_def)
qed

lemma current_assembly_open:
  "current_assembly t dt (int n) (open_assembly (assembly_of t dt n part js) s) =
    (Inr (assembly_of t dt n part js), open_assembly (assembly_of t dt n part js) s)"
  by (simp add: current_assembly_def open_assembly_def assembly_of_def Let_def)

lemma current_assembly_fresh:
  assumes "\<And>asm. s_snapAssembly s = Some asm \<Longrightarrow> sa_Tick asm \<noteq> t"
  shows "current_assembly t dt (int n) s =
    (Inr (assembly_of t dt n part []), open_assembly (assembly_of t dt n part []) s)"
proof -
  have "new_assembly t dt (int n) = Inr (assembly_of t dt n part [])"
    by (simp add: new_assembly_def assembly_of_def map_replicate_const)
  with assms show ?thesis
    by (auto simp: current_assembly_def open_assembly_def Let_def split: option.splits)
qed

text \<open>One part into an assembly that has \<open>js\<close>: the last one decodes.\<close>

lemma assemble_step:
  assumes "current_assembly t dt (int n) s = (Inr (assembly_of t dt n part js), s1)"
    and "s1 = open_assembly (assembly_of t dt n part js) s0" and "j < n" and "j \<notin> set js"
  shows "assemble L sendAck t dt (int n) (int j) (part j) s =
    (let s2 = open_assembly (assembly_of t dt n part (js @ [j])) s0 in
     if Suc (length js) = n
     then take_snap L sendAck t dt (concat (sa_Parts (assembly_of t dt n part (js @ [j])))) drop_assembly s2
     else (Inr (), s2))"
  using assms(1,2) store_next_part [OF assms(3,4), of part t dt]
  by (auto simp: assemble_def bnd_def Let_def open_assembly_def assembly_of_def)

lemma take_part:
  assumes "distinct (js @ [j])" and "j < n"
    and "s = (if js = [] then s0 else open_assembly (assembly_of t dt n part js) s0)"
    and "\<And>asm. s_snapAssembly s0 = Some asm \<Longrightarrow> sa_Tick asm \<noteq> t"
  shows "assemble L sendAck t dt (int n) (int j) (part j) s =
    (let s2 = open_assembly (assembly_of t dt n part (js @ [j])) s0 in
     if Suc (length js) = n
     then take_snap L sendAck t dt (concat (sa_Parts (assembly_of t dt n part (js @ [j])))) drop_assembly s2
     else (Inr (), s2))"
proof -
  have "current_assembly t dt (int n) s =
      (Inr (assembly_of t dt n part js), open_assembly (assembly_of t dt n part js) s0)"
    using assms(3,4) current_assembly_open current_assembly_fresh [OF assms(4)] by (cases js) simp_all
  then show ?thesis using assms(1,2) by (intro assemble_step) simp_all
qed

lemma for_chunks_append:
  "for_chunks body (cs @ ds) = bnd (for_chunks body cs) (\<lambda>_. for_chunks body ds)"
  by (induction cs) (simp_all add: bnd_def fun_eq_iff split: prod.splits sum.splits)

lemma for_chunks_one: "for_chunks body [c] = body (Data c)"
  by (rule ext) (simp add: bnd_def split: prod.splits sum.splits)

text \<open>All parts but the last, by induction from the end.\<close>

lemma take_parts:
  assumes body: "\<And>j. j < n \<Longrightarrow> body (Data (msg j)) = assemble L sendAck t dt (int n) (int j) (part j)"
    and fresh: "\<And>asm. s_snapAssembly s = Some asm \<Longrightarrow> sa_Tick asm \<noteq> t"
  shows "distinct js \<Longrightarrow> set js \<subseteq> {0..<n} \<Longrightarrow> length js < n \<Longrightarrow>
    for_chunks body (map msg js) s =
      (Inr (), if js = [] then s else open_assembly (assembly_of t dt n part js) s)"
proof (induction js rule: rev_induct)
  case Nil
  then show ?case by simp
next
  case (snoc j js)
  have "for_chunks body (map msg js) s =
      (Inr (), if js = [] then s else open_assembly (assembly_of t dt n part js) s)"
    using snoc.prems by (intro snoc.IH) simp_all
  moreover have "assemble L sendAck t dt (int n) (int j) (part j)
      (if js = [] then s else open_assembly (assembly_of t dt n part js) s) =
      (let s2 = open_assembly (assembly_of t dt n part (js @ [j])) s in
       if Suc (length js) = n
       then take_snap L sendAck t dt (concat (sa_Parts (assembly_of t dt n part (js @ [j])))) drop_assembly s2
       else (Inr (), s2))"
    using snoc.prems by (intro take_part [OF _ _ refl fresh]) simp_all
  then have "body (Data (msg j)) (if js = [] then s else open_assembly (assembly_of t dt n part js) s) =
      (Inr (), open_assembly (assembly_of t dt n part (js @ [j])) s)"
    using snoc.prems body [of j] by (simp only: Let_def) simp
  ultimately show ?case by (simp add: for_chunks_append bnd_def)
qed

lemma full_assembly:
  assumes "set js = {0..<n}"
  shows "sa_Parts (assembly_of t dt n part js) = map part [0..<n]"
  using assms by (simp add: assembly_of_def)

lemma reassemble:
  assumes body: "\<And>j. j < n \<Longrightarrow> body (Data (msg j)) = assemble L sendAck t dt (int n) (int j) (part j)"
    and fresh: "\<And>asm. s_snapAssembly s = Some asm \<Longrightarrow> sa_Tick asm \<noteq> t"
    and js: "distinct js" "set js = {0..<n}" "0 < n"
  shows "for_chunks body (map msg js) s =
    take_snap L sendAck t dt (concat (map part [0..<n])) drop_assembly (open_assembly (assembly_of t dt n part js) s)"
proof -
  have "js \<noteq> []" using js by auto
  then obtain ks k where ks: "js = ks @ [k]" by (meson rev_exhaust)
  have len: "length js = n" using js distinct_card by fastforce
  have k: "k < n" using js ks by auto
  have "for_chunks body (map msg ks) s =
      (Inr (), if ks = [] then s else open_assembly (assembly_of t dt n part ks) s)"
    using js ks len by (intro take_parts [OF body fresh]) auto
  moreover have "assemble L sendAck t dt (int n) (int k) (part k)
      (if ks = [] then s else open_assembly (assembly_of t dt n part ks) s) =
      (let s2 = open_assembly (assembly_of t dt n part (ks @ [k])) s in
       if Suc (length ks) = n
       then take_snap L sendAck t dt (concat (sa_Parts (assembly_of t dt n part (ks @ [k])))) drop_assembly s2
       else (Inr (), s2))"
    using js ks k by (intro take_part [OF _ _ refl fresh]) simp_all
  then have "body (Data (msg k)) (if ks = [] then s else open_assembly (assembly_of t dt n part ks) s) =
      take_snap L sendAck t dt (concat (sa_Parts (assembly_of t dt n part js))) drop_assembly
        (open_assembly (assembly_of t dt n part js) s)"
    using ks len body [OF k] by (simp only: Let_def) simp
  ultimately show ?thesis
    by (simp add: ks for_chunks_append bnd_def)
      (auto simp: full_assembly js(2) ks [symmetric] split: prod.splits sum.splits)
qed

text \<open>A copy of a part counts as another part: of two parts, the first twice is the whole.\<close>

lemma duplicate_part_completes:
  assumes "s_snapAssembly s = None"
  shows "bnd (assemble L sendAck t dt 2 0 d) (\<lambda>_. assemble L sendAck t dt 2 0 d) s =
    take_snap L sendAck t dt d drop_assembly (open_assembly
      \<lparr>sa_Tick = t, sa_DeltaTick = dt, sa_NumParts = 2, sa_Received = 2, sa_Parts = [d, []]\<rparr> s)"
  using assms
  by (simp add: assemble_def bnd_def current_assembly_def new_assembly_def store_part_def open_assembly_def
      Let_def numeral_2_eq_2)

section \<open>Properties\<close>

definition sample_part :: "nat \<Rightarrow> chunk" where
  "sample_part j = plain_chunk (part_body wire_lib 5 (- 1) 2 (int j) 0 [byte_of (int j)])"

text \<open>
  C2: The parts of a snapshot may arrive in any order. The SNAP messages of the parts 0 to n - 1 of a
  tick, received in any order and each once, have the effect of decoding the concatenation of the
  parts in their order, once the last one is in: the snapshot is acknowledged, delivered, and the
  assembly closed.
\<close>

theorem snapshot_parts_any_order6:
  assumes "varint_contract L" and "in_s32 t" and "in_s32 dt" and "2 \<le> n" and "in_s32 (int n)"
    and "distinct js" and "set js = {0..<n}"
    and "\<And>j. in_s32 (int (length (part j))) \<and> in_s32 (crc j)"
    and "\<And>j. Data (msg j) = part_body L t dt (int n) (int j) (crc j) (part j)"
    and "\<And>asm. s_snapAssembly s = Some asm \<Longrightarrow> sa_Tick asm \<noteq> t"
  shows "for_chunks (processSnapMulti6 L) (map msg js) s =
    take_snap L (sendAckPacket6 L) t dt (concat (map part [0..<n])) drop_assembly
      (open_assembly (assembly_of t dt n part js) s)"
proof (rule reassemble)
  fix j
  assume "j < n"
  then have "in_s32 (int j)" using assms(5) by (simp add: in_s32_def)
  then show "processSnapMulti6 L (Data (msg j)) = assemble L (sendAckPacket6 L) t dt (int n) (int j) (part j)"
    using assms(2-5,8) unfolding processSnapMulti6_def assms(9)
    by (subst varint_contract.snap_multi_part [OF assms(1)]) simp_all
qed (use assms in auto)

theorem snapshot_parts_any_order6_witness:
  "for_chunks (processSnapMulti6 wire_lib) (map sample_part [1, 0]) sample_session6 =
    take_snap wire_lib (sendAckPacket6 wire_lib) 5 (- 1) [0, 1] drop_assembly
      (open_assembly (assembly_of 5 (- 1) 2 (\<lambda>j. [byte_of (int j)]) [1, 0]) sample_session6)"
proof -
  have "for_chunks (processSnapMulti6 wire_lib) (map sample_part [1, 0]) sample_session6 =
    take_snap wire_lib (sendAckPacket6 wire_lib) 5 (- 1) (concat (map (\<lambda>j. [byte_of (int j)]) [0..<2])) drop_assembly
      (open_assembly (assembly_of 5 (- 1) 2 (\<lambda>j. [byte_of (int j)]) [1, 0]) sample_session6)"
    by (rule snapshot_parts_any_order6 [OF wire.varint_contract_axioms, where crc = "\<lambda>_. 0"])
      (auto simp: in_s32_def sample_part_def plain_chunk_def sample_session6_def)
  moreover have "concat (map (\<lambda>j. [byte_of (int j)]) [0..<2]) = [0, 1]" by code_simp
  ultimately show ?thesis by simp
qed

end
