(* ===== verification/Typed.thy ===== *)
theory Typed
  imports Assembly
begin

text \<open>
  The type invariant of a session: its tokens keep their four bytes, its sequence and
  acknowledgement numbers their ten bits, its channel its capacity, whatever it receives and sends.
  It is what the packing of packet headers relies on.
\<close>

lemma count_vital_range:
  "0 \<le> ack \<Longrightarrow> ack < MaxSequence \<Longrightarrow>
    0 \<le> count_vital_loop p k ack off split \<and> count_vital_loop p k ack off split < MaxSequence"
  by (induction p k ack off split rule: count_vital_loop.induct) (simp_all add: Let_def MaxSequence_def)

lemma CountVitalChunks_range:
  "0 \<le> ack \<Longrightarrow> ack < MaxSequence \<Longrightarrow>
    0 \<le> CountVitalChunks p k ack split \<and> CountVitalChunks p k ack split < MaxSequence"
  by (simp add: CountVitalChunks_def count_vital_range)

lemma typed_SendRaw: "typed (snd (SendRaw p s)) = typed s"
  by (auto simp: SendRaw_def typed_def split: list.splits option.splits)

lemma typed_NextSeq: "typed s \<Longrightarrow> typed (s\<lparr>s_sequence := (s_sequence s + 1) mod MaxSequence\<rparr>)"
  by (simp add: typed_def MaxSequence_def)

lemma typed_RecvContext: "RecvContext s = (r, s') \<Longrightarrow> typed s \<Longrightarrow> typed s'"
  by (auto simp: RecvContext_def take_event_def end_ctx_def typed_def split: list.splits net_event.splits)

lemma typed_ack: "typed s \<Longrightarrow> typed (s\<lparr>s_ack := CountVitalChunks p k (s_ack s) split\<rparr>)"
  using CountVitalChunks_range [of "s_ack s" p k split] by (simp add: typed_def)

lemma typed_RecvAndAck6:
  assumes "RecvAndAck6 H s = (r, s')" and "typed s"
  shows "typed s'"
proof -
  obtain q s1 where q: "RecvContext s = (q, s1)" by fastforce
  with assms(2) have "typed s1" by (blast intro: typed_RecvContext)
  with assms(1) q typed_ack [of s1] show ?thesis
    by (auto simp: RecvAndAck6_def recvAndParsePayload6_def bnd_def
        split: sum.splits option.splits if_splits prod.splits)
qed

lemma typed_RecvAndAck7:
  assumes "RecvAndAck7 H s = (r, s')" and "typed s"
  shows "typed s'"
proof -
  obtain q s1 where q: "RecvContext s = (q, s1)" by fastforce
  with assms(2) have "typed s1" by (blast intro: typed_RecvContext)
  with assms(1) q typed_ack [of s1] show ?thesis
    by (auto simp: RecvAndAck7_def recvAndParsePayload7_def bnd_def
        split: sum.splits option.splits if_splits prod.splits)
qed

lemma live6_typed:
  assumes "live6 L H md5 s s'" and "typed s"
  shows "typed s'"
proof -
  obtain a where s': "s' = perform6 L H md5 a s" using assms(1) by (auto simp: live6_def)
  have rel: "keeps chan_rel m \<Longrightarrow> typed (snd (m s))" for m :: "(('a, 'b) session6_scheme, 'c) gost"
    using assms(2) by (metis chan_rel_def keepsD prod.collapse)
  show ?thesis
  proof (cases a)
    case Receives
    then show ?thesis using s' assms(2) by (metis perform6.simps(1) prod.collapse typed_RecvAndAck6)
  next
    case (Processes p)
    then show ?thesis using s' rel [OF chan6.rel_processPayload6] by simp
  next
    case (Inputs tick pt sz d)
    then show ?thesis using s' assms(2)
      by (simp add: SendInput6_def SendNonVitalMsg6_def SendChunks6_def Let_def typed_SendRaw)
  next
    case Reacks
    then show ?thesis using s' rel [OF chan6.rel_sendAckPacket6] by (simp add: forceAckSnap6_def)
  next
    case (Sends x)
    then show ?thesis using s' typed_NextSeq [OF assms(2)]
      by (cases x) (simp add: SendVitalMsg6_def bnd_def NextSeq_def Let_def SendChunks6_def typed_SendRaw)
  qed
qed

lemma live7_typed:
  assumes "live7 L H s s'" and "typed s"
  shows "typed s'"
proof -
  obtain a where s': "s' = perform7 L H a s" using assms(1) by (auto simp: live7_def)
  have rel: "keeps chan_rel m \<Longrightarrow> typed (snd (m s))" for m :: "(('a, 'b) session7_scheme, 'c) gost"
    using assms(2) by (metis chan_rel_def keepsD prod.collapse)
  show ?thesis
  proof (cases a)
    case Receives
    then show ?thesis using s' assms(2) by (metis perform7.simps(1) prod.collapse typed_RecvAndAck7)
  next
    case (Processes p)
    then show ?thesis using s' rel [OF chan7.rel_processPayload7] by simp
  next
    case (Inputs tick pt sz d)
    then show ?thesis using s' assms(2)
      by (simp add: SendInput7_def SendNonVitalMsg7_def SendChunks7_def Let_def typed_SendRaw)
  next
    case Reacks
    then show ?thesis using s' rel [OF chan7.rel_sendAckPacket7] by (simp add: forceAckSnap7_def)
  next
    case (Sends x)
    then show ?thesis using s' typed_NextSeq [OF assms(2)]
      by (simp add: SendVitalMsg7_def bnd_def NextSeq_def Let_def SendChunks7_def typed_SendRaw)
  qed
qed

lemma run6_typed: "(live6 L H md5)\<^sup>*\<^sup>* s s' \<Longrightarrow> typed s \<Longrightarrow> typed s'"
  by (induction rule: rtranclp_induct) (blast intro: live6_typed)+

lemma run7_typed: "(live7 L H)\<^sup>*\<^sup>* s s' \<Longrightarrow> typed s \<Longrightarrow> typed s'"
  by (induction rule: rtranclp_induct) (blast intro: live7_typed)+

lemma chunk_packet6_header:
  assumes "typed s"
  shows "header6_unpack zero_header6 (session_chunk_packet6 1 d s) =
    (None, zero_header6\<lparr>h6_ack := s_ack s, h6_num_chunks := 1\<rparr>)"
proof -
  let ?h = "\<lparr>h6_flags = no_flags6, h6_ack = s_ack s, h6_num_chunks = 1, h6_token = zero_token\<rparr>"
  have "wf_header6 ?h" using assms by (simp add: wf_header6_def typed_def MaxSequence_def zero_token_def)
  from header6_unpack_pack [OF this] show ?thesis
    by (simp add: session_chunk_packet6_def Let_def appendSecurityToken_def zero_header6_def no_flags6_def)
qed

lemma chunk_packet7_header:
  assumes "typed s"
  shows "header7_unpack zero_header7 (session_chunk_packet7 1 d s) =
    (None, (session_header7 1 s)\<lparr>h7_response_token := zero_token\<rparr>)"
proof -
  have "wf_header7 (session_header7 1 s)"
    using assms by (simp add: wf_header7_def session_header7_def typed_def MaxSequence_def)
  from header7_unpack_pack [OF this] show ?thesis
    by (simp add: session_chunk_packet7_def session_header7_def zero_header7_def no_flags7_def)
qed

section \<open>Properties\<close>

text \<open>
  C3: A session stays well typed. Whatever a 0.6 session receives and sends, its tokens keep four
  bytes, its sequence and acknowledgement numbers ten bits and its channel its capacity; so the
  header of every packet it then builds reads back with its acknowledgement number.
\<close>

theorem session_stays_typed6:
  assumes "(live6 L H md5)\<^sup>*\<^sup>* s s'" and "typed s"
  shows "typed s' \<and> header6_unpack zero_header6 (session_chunk_packet6 1 d s') =
    (None, zero_header6\<lparr>h6_ack := s_ack s', h6_num_chunks := 1\<rparr>)"
  using run6_typed [OF assms] chunk_packet6_header by blast

theorem session_stays_typed6_witness:
  "typed (snd (processPayload6 wire_lib (\<lambda>b. b) sample_snap6 sample_session6))"
proof -
  let ?s = "snd (processPayload6 wire_lib (\<lambda>b. b) sample_snap6 sample_session6)"
  have "live6 wire_lib plain_huffman (\<lambda>b. b) sample_session6 ?s" by (rule payload6)
  then have "(live6 wire_lib plain_huffman (\<lambda>b. b))\<^sup>*\<^sup>* sample_session6 ?s" by blast
  moreover have "typed sample_session6"
    by (simp add: typed_def sample_session6_def MaxSequence_def DefaultEventChanSize_def)
  ultimately show ?thesis by (blast dest: session_stays_typed6)
qed

end
