(* ===== verification/Login6.thy ===== *)
theory Login6
  imports Typed
begin

text \<open>
  net6/session.go: the handshake and the login of protocol 0.6, a dialogue over a lossy network in
  which every step is retransmitted until the other side has answered it. The retransmitting
  receive is RecvResending (Conn); the two waiting loops end because every round consumes an event
  of the script.
\<close>

section \<open>Handshake\<close>

definition connect_payload6 :: "byte list \<Rightarrow> byte list" where
  "connect_payload6 clientToken =
     (let d = (replicate (1 + 512) 0)[0 := byte_of MsgCtrlConnect6];
          d1 = copy_at d 1 securityTokenMagic in
      copy_at d1 5 clientToken)"

definition accept_payload6 :: "byte list \<Rightarrow> byte list" where
  "accept_payload6 token = copy_at ((replicate (1 + 4) 0)[0 := byte_of MsgCtrlAccept6]) 1 token"

definition connect_packet6 :: "('m, 'z) session6_scheme \<Rightarrow> byte list" where
  "connect_packet6 s = BuildCtrlPacketNoToken 0 (connect_payload6 (s_clientToken s))"

text \<open>What the accept packet holds: a DDNet security token behind the magic, or a server token.\<close>

definition take_tokens6 :: "byte list \<Rightarrow> ('m, 'z) session6_scheme \<Rightarrow> ('m, 'z) session6_scheme" where
  "take_tokens6 payload s =
     (if length payload \<ge> 1 + 4 + 4 \<and> take 4 (drop 1 payload) = securityTokenMagic then
        s\<lparr>s_serverToken := take 4 (drop 5 payload), s6_securityToken := take 4 (drop 5 payload)\<rparr>
      else if length payload \<ge> 5 then s\<lparr>s_serverToken := take 4 (drop 1 payload)\<rparr>
      else s)"

definition take_accept6 :: "byte list \<Rightarrow> (('m, 'z) session6_scheme, unit) gost" where
  "take_accept6 resp s =
     (case header6_unpack zero_header6 resp of
        (Some e, hdr) \<Rightarrow> (Inl (wrap_err ''session06: unpack connect accept header'' [] e), s)
      | (None, hdr) \<Rightarrow>
          (let payloadStart = header6_size hdr in
           if length resp < payloadStart + 1 then
             (Inl (Err ''session06: connect accept too short'' [int (length resp)]), s)
           else if resp ! payloadStart \<noteq> byte_of MsgCtrlConnectAccept6 then
             (Inl (Err ''session06: expected CONNECTACCEPT'' [uint (resp ! payloadStart)]), s)
           else
             (let s1 = take_tokens6 (drop payloadStart resp) s in
              if HasSecurityToken s1 then
                wrapped ''session06: send accept'' []
                  (SendRaw (BuildCtrlPacketNoToken 0 (accept_payload6 (s6_securityToken s1)))) s1
              else (Inr (), s1))))"

definition Handshake6 :: "(('m, 'z) session6_scheme, unit) gost" where
  "Handshake6 s =
     (let sendConnect = SendRaw (connect_packet6 s) in
      bnd (wrapped ''session06: send connect'' [] sendConnect) (\<lambda>_.
      bnd (wrapped ''session06: recv connect accept'' [] (RecvResending sendConnect)) take_accept6) s)"

section \<open>Waiting for the server\<close>

text \<open>
  One received packet while waiting for the map change: an error ends the login, True ends the
  wait, False goes on.
\<close>

definition store_map_change ::
    "varint_lib \<Rightarrow> byte list \<Rightarrow> ('m, 'z) session_scheme \<Rightarrow> ('m, 'z) session_scheme" where
  "store_map_change L d s = (case ParseMapChangePayload L d of Inr info \<Rightarrow> set_map_info info s | Inl e \<Rightarrow> s)"

definition map_change_packet6 ::
    "huff_lib \<Rightarrow> varint_lib \<Rightarrow> (byte list \<Rightarrow> byte list) \<Rightarrow> byte list \<Rightarrow> (('m, 'z) session6_scheme, bool) gost" where
  "map_change_packet6 H L md5 resp s =
     (case parsePayload6 H s resp of
        Inl e \<Rightarrow> (Inr False, s)
      | Inr (hdr, None) \<Rightarrow> (Inr False, s)
      | Inr (hdr, Some payload) \<Rightarrow>
          if f6_control (h6_flags hdr) then
            (case closed_reason MsgCtrlClose6 payload of
               Some reason \<Rightarrow> (Inl (server_closed_error reason), s)
             | None \<Rightarrow> (Inr False, s))
          else
            (let s1 = s\<lparr>s_ack := CountVitalChunks payload (h6_num_chunks hdr) (s_ack s) Split6\<rparr>;
                 s2 = fold (maybeParseCapabilities6 L md5)
                        (ExtractAllSysMsgPayloads L payload MsgSysEx6 Split6) s1 in
             case ExtractSysMsgPayload L payload MsgSysMapChange6 Split6 of
               Some d \<Rightarrow> (Inr True, store_map_change L d s2)
             | None \<Rightarrow> (Inr False, s2)))"

definition con_ready_packet6 :: "huff_lib \<Rightarrow> byte list \<Rightarrow> (('m, 'z) session6_scheme, bool) gost" where
  "con_ready_packet6 H resp s =
     (case parsePayload6 H s resp of
        Inl e \<Rightarrow> (Inr False, s)
      | Inr (hdr, None) \<Rightarrow> (Inr False, s)
      | Inr (hdr, Some payload) \<Rightarrow>
          if f6_control (h6_flags hdr) then
            (case closed_reason MsgCtrlClose6 payload of
               Some reason \<Rightarrow> (Inl (server_closed_error reason), s)
             | None \<Rightarrow> (Inr False, s))
          else
            (Inr (ContainsSysMsg payload MsgSysConReady6 Split6),
             s\<lparr>s_ack := CountVitalChunks payload (h6_num_chunks hdr) (s_ack s) Split6\<rparr>))"

text \<open>Handling a packet leaves the connection and the tokens alone.\<close>

definition wire_of :: "('m, 'z) session_scheme \<Rightarrow> (int \<times> net_event) list \<times> byte list list \<times> goerr option list \<times> int \<times> int" where
  "wire_of s = (inbox s, outbox s, send_faults s, clock s, s_sequence s)"

lemma wire_maybeParse6: "wire_of (maybeParseCapabilities6 L md5 ex s) = wire_of s"
  and token_maybeParse6: "s6_securityToken (maybeParseCapabilities6 L md5 ex s) = s6_securityToken s"
  by (simp_all add: maybeParseCapabilities6_def storeCapabilities6_def wire_of_def split: option.splits)

lemma wire_fold_maybeParse6:
  "wire_of (fold (maybeParseCapabilities6 L md5) exs s) = wire_of s \<and>
    s6_securityToken (fold (maybeParseCapabilities6 L md5) exs s) = s6_securityToken s"
  by (induction exs arbitrary: s) (simp_all add: wire_maybeParse6 token_maybeParse6)

lemma map_change_packet6_wire:
  assumes "map_change_packet6 H L md5 resp s = (r, s')"
  shows "wire_of s' = wire_of s \<and> s6_securityToken s' = s6_securityToken s"
proof -
  have ack: "wire_of (s\<lparr>s_ack := a\<rparr>) = wire_of s" for a by (simp add: wire_of_def)
  have store: "wire_of (store_map_change L d u) = wire_of u \<and>
      s6_securityToken (store_map_change L d u) = s6_securityToken u" for d and u :: "('a, 'b) session6_scheme"
    by (simp add: store_map_change_def set_map_info_def wire_of_def split: sum.splits)
  show ?thesis
    using assms
    by (auto simp: map_change_packet6_def Let_def ack store wire_fold_maybeParse6 split: sum.splits prod.splits option.splits if_splits)
qed

lemma con_ready_packet6_wire:
  "con_ready_packet6 H resp s = (r, s') \<Longrightarrow> wire_of s' = wire_of s \<and> s6_securityToken s' = s6_securityToken s"
  by (auto simp: con_ready_packet6_def wire_of_def split: sum.splits prod.splits option.splits if_splits)

function recvUntilMapChange6 ::
    "huff_lib \<Rightarrow> varint_lib \<Rightarrow> (byte list \<Rightarrow> byte list) \<Rightarrow> (('m, 'z) session6_scheme, unit) gost \<Rightarrow>
     (('m, 'z) session6_scheme, unit) gost" where
  "recvUntilMapChange6 H L md5 resend s =
     (case RecvResending resend s of
        (Inl e, s1) \<Rightarrow> (Inl (wrap_err ''session06: recv waiting for map_change'' [] e), s1)
      | (Inr resp, s1) \<Rightarrow>
          (case map_change_packet6 H L md5 resp s1 of
             (Inl e, s2) \<Rightarrow> (Inl e, s2)
           | (Inr stop, s2) \<Rightarrow>
               if stop then (Inr (), s2) else recvUntilMapChange6 H L md5 resend s2))"
  by pat_completeness auto
termination
  by (relation "measure (\<lambda>(H, L, md5, resend, s). length (inbox s))")
    (auto simp: wire_of_def dest!: RecvResending_inbox [OF sym] map_change_packet6_wire [OF sym])

function recvUntilConReady6 ::
    "huff_lib \<Rightarrow> (('m, 'z) session6_scheme, unit) gost \<Rightarrow> (('m, 'z) session6_scheme, unit) gost" where
  "recvUntilConReady6 H resend s =
     (case RecvResending resend s of
        (Inl e, s1) \<Rightarrow> (Inl (wrap_err ''session06: recv waiting for con_ready'' [] e), s1)
      | (Inr resp, s1) \<Rightarrow>
          (case con_ready_packet6 H resp s1 of
             (Inl e, s2) \<Rightarrow> (Inl e, s2)
           | (Inr stop, s2) \<Rightarrow>
               if stop then (Inr (), s2) else recvUntilConReady6 H resend s2))"
  by pat_completeness auto
termination
  by (relation "measure (\<lambda>(H, resend, s). length (inbox s))")
    (auto simp: wire_of_def dest!: RecvResending_inbox [OF sym] con_ready_packet6_wire [OF sym])

declare recvUntilMapChange6.simps [simp del] recvUntilConReady6.simps [simp del]

definition RecvUntilMapChange6 ::
    "huff_lib \<Rightarrow> varint_lib \<Rightarrow> (byte list \<Rightarrow> byte list) \<Rightarrow> (('m, 'z) session6_scheme, unit) gost" where
  "RecvUntilMapChange6 H L md5 = recvUntilMapChange6 H L md5 (ret ())"

section \<open>Login\<close>

definition Login6 ::
    "huff_lib \<Rightarrow> varint_lib \<Rightarrow> (byte list \<Rightarrow> byte list) \<Rightarrow> byte list \<Rightarrow> byte list \<Rightarrow> byte list \<Rightarrow>
     (login_config \<Rightarrow> login_config) option list \<Rightarrow> (('m, 'z) session6_scheme, unit) gost" where
  "Login6 H L md5 rnd name clan opts =
     (let cfg = ApplyLoginOptions opts in
      bnd Handshake6 (\<lambda>_.
      bnd NextSeq (\<lambda>sqVer. bnd NextSeq (\<lambda>sqInfo.
        let combined = WrapVitalChunk6 (SysClientVer L md5 rnd) sqVer
              @ WrapVitalChunk6 (SysInfo6 L NetVersion6 (lc_Password cfg)) sqInfo;
            sendInfo = SendChunks6 2 combined in
        bnd (wrapped ''session06: send clientver+info'' [] sendInfo) (\<lambda>_.
        bnd (recvUntilMapChange6 H L md5 sendInfo) (\<lambda>_.
        bnd NextSeq (\<lambda>sqReady.
          let sendReady = SendChunks6 1 (WrapVitalChunk6 (SysReady6 L) sqReady) in
          bnd (wrapped ''session06: send ready'' [] sendReady) (\<lambda>_.
          bnd (recvUntilConReady6 H sendReady) (\<lambda>_.
          bnd NextSeq (\<lambda>sqStart.
          bnd (wrapped ''session06: send startinfo'' [] (SendChunks6 1 (WrapVitalChunk6
                (GameClStartInfo6 L name clan (lc_Country cfg) (lc_Skin cfg) True 65408 65408) sqStart))) (\<lambda>_.
          bnd NextSeq (\<lambda>sqEnter.
            wrapped ''session06: send entergame'' []
              (SendChunks6 1 (WrapVitalChunk6 (SysEnterGame6 L) sqEnter))))))))))))))"

section \<open>What a login writes\<close>

text \<open>
  \<open>resent n c s s'\<close>: between the two states only copies of the packet with the chunks \<open>c\<close> were
  written, each with the acknowledgement number of its moment.
\<close>

definition is_copy6 :: "int \<Rightarrow> byte list \<Rightarrow> byte list \<Rightarrow> byte list \<Rightarrow> bool" where
  "is_copy6 n c token p \<longleftrightarrow>
     (\<exists>u :: unit session6. s6_securityToken u = token \<and> p = session_chunk_packet6 n c u)"

definition resent6 :: "int \<Rightarrow> byte list \<Rightarrow> ('m, 'z) session6_scheme \<Rightarrow> ('m, 'z) session6_scheme \<Rightarrow> bool" where
  "resent6 n c s s' \<longleftrightarrow> s_sequence s' = s_sequence s \<and> s6_securityToken s' = s6_securityToken s \<and>
     (\<exists>ps. outbox s' = outbox s @ ps \<and> list_all (is_copy6 n c (s6_securityToken s)) ps)"

lemma is_copy6_packet: "is_copy6 n c (s6_securityToken s) (session_chunk_packet6 n c s)"
proof -
  let ?u = "sample_session6\<lparr>s_ack := s_ack s, s6_securityToken := s6_securityToken s\<rparr>"
  have "session_chunk_packet6 n c s = session_chunk_packet6 n c ?u"
    by (simp add: session_chunk_packet6_def Let_def appendSecurityToken_def HasSecurityToken_def)
  moreover have "s6_securityToken ?u = s6_securityToken s" by simp
  ultimately show ?thesis unfolding is_copy6_def by blast
qed

lemma resent6_same:
  "outbox s' = outbox s \<Longrightarrow> s_sequence s' = s_sequence s \<Longrightarrow> s6_securityToken s' = s6_securityToken s \<Longrightarrow>
    resent6 n c s s'"
  by (simp add: resent6_def)

lemma resent6_trans: "resent6 n c s t \<Longrightarrow> resent6 n c t u \<Longrightarrow> resent6 n c s u"
  by (auto simp: resent6_def)

lemma resent6_stable: "reflp (resent6 n c)" "transp (resent6 n c)" "event_stable (resent6 n c)"
  by (auto intro: reflpI resent6_same transpI resent6_trans simp: event_stable_def take_event_def end_ctx_def)

lemma SendChunks6_resent: "keeps (resent6 n c) (SendChunks6 n c)"
  using is_copy6_packet
  by (intro keepsI) (auto simp: SendChunks6_def SendRaw_def resent6_def split: list.splits option.splits)

lemma SendChunks6_Inr:
  "SendChunks6 n c s = (Inr (), s') \<Longrightarrow> outbox s' = outbox s @ [session_chunk_packet6 n c s] \<and>
    s_sequence s' = s_sequence s \<and> s6_securityToken s' = s6_securityToken s"
  by (auto simp: SendChunks6_def SendRaw_def split: list.splits option.splits)

lemma recvUntilMapChange6_resent:
  "recvUntilMapChange6 H L md5 (SendChunks6 n c) s = (r, s') \<Longrightarrow> resent6 n c s s'"
proof (induction "length (inbox s)" arbitrary: s rule: less_induct)
  case less
  obtain q s1 where q: "RecvResending (SendChunks6 n c) s = (q, s1)" by fastforce
  then have 1: "resent6 n c s s1"
    by (rule keepsD [OF RecvResending_keeps [OF resent6_stable SendChunks6_resent]])
  show ?case
  proof (cases q)
    case (Inl e)
    with less.prems q 1 show ?thesis by (simp add: recvUntilMapChange6.simps)
  next
    case (Inr resp)
    obtain v s2 where v: "map_change_packet6 H L md5 resp s1 = (v, s2)" by fastforce
    note w = map_change_packet6_wire [OF v]
    then have 2: "resent6 n c s1 s2" by (simp add: resent6_same wire_of_def)
    have "length (inbox s2) < length (inbox s)"
      using RecvResending_inbox q Inr w by (fastforce simp: wire_of_def)
    with less q Inr v 1 2 show ?thesis
      by (auto simp: recvUntilMapChange6.simps [of H L md5 "SendChunks6 n c" s] intro: resent6_trans split: sum.splits if_splits)
  qed
qed

lemma recvUntilConReady6_resent:
  "recvUntilConReady6 H (SendChunks6 n c) s = (r, s') \<Longrightarrow> resent6 n c s s'"
proof (induction "length (inbox s)" arbitrary: s rule: less_induct)
  case less
  obtain q s1 where q: "RecvResending (SendChunks6 n c) s = (q, s1)" by fastforce
  then have 1: "resent6 n c s s1"
    by (rule keepsD [OF RecvResending_keeps [OF resent6_stable SendChunks6_resent]])
  show ?case
  proof (cases q)
    case (Inl e)
    with less.prems q 1 show ?thesis by (simp add: recvUntilConReady6.simps)
  next
    case (Inr resp)
    obtain v s2 where v: "con_ready_packet6 H resp s1 = (v, s2)" by fastforce
    note w = con_ready_packet6_wire [OF v]
    then have 2: "resent6 n c s1 s2" by (simp add: resent6_same wire_of_def)
    have "length (inbox s2) < length (inbox s)"
      using RecvResending_inbox q Inr w by (fastforce simp: wire_of_def)
    with less q Inr v 1 2 show ?thesis
      by (auto simp: recvUntilConReady6.simps [of H "SendChunks6 n c" s] intro: resent6_trans split: sum.splits if_splits)
  qed
qed

text \<open>One step of the dialogue: the packet, then its retransmissions.\<close>

lemma step6:
  assumes "SendChunks6 n c s = (Inr (), s1)" and "resent6 n c s1 s2"
  shows "\<exists>ps. outbox s2 = outbox s @ ps \<and> ps \<noteq> [] \<and> list_all (is_copy6 n c (s6_securityToken s)) ps \<and>
    s_sequence s2 = s_sequence s \<and> s6_securityToken s2 = s6_securityToken s"
  using SendChunks6_Inr [OF assms(1)] assms(2) is_copy6_packet [of n c s]
  by (auto simp: resent6_def)

text \<open>The handshake: copies of the connect packet, then the accept packet when there is a token.\<close>

definition connects :: "byte list \<Rightarrow> ('m, 'z) session6_scheme \<Rightarrow> ('m, 'z) session6_scheme \<Rightarrow> bool" where
  "connects p s s' \<longleftrightarrow> s_sequence s' = s_sequence s \<and> s6_securityToken s' = s6_securityToken s \<and>
     (\<exists>k. outbox s' = outbox s @ replicate k p)"

lemma connects_stable: "reflp (connects p)" "transp (connects p)" "event_stable (connects p)"
proof -
  show "reflp (connects p)" by (rule reflpI) (auto simp: connects_def intro: exI [of _ 0])
  show "transp (connects p)"
    by (rule transpI) (auto simp: connects_def replicate_add [symmetric])
  show "event_stable (connects p)"
    by (auto simp: event_stable_def connects_def take_event_def end_ctx_def intro: exI [of _ 0])
qed

lemma SendRaw_connects: "keeps (connects p) (SendRaw p)"
proof (rule keepsI)
  fix s s' :: "('a, 'b) session6_scheme" and r
  assume "SendRaw p s = (r, s')"
  then have "(outbox s' = outbox s @ replicate 0 p \<or> outbox s' = outbox s @ replicate 1 p) \<and>
      s_sequence s' = s_sequence s \<and> s6_securityToken s' = s6_securityToken s"
    by (auto simp: SendRaw_def split: list.splits option.splits)
  then show "connects p s s'" unfolding connects_def by metis
qed

lemma take_accept6_Inr:
  assumes "take_accept6 resp s = (Inr (), s')"
  shows "outbox s' = outbox s @ (if HasSecurityToken s'
      then [BuildCtrlPacketNoToken 0 (accept_payload6 (s6_securityToken s'))] else []) \<and> s_sequence s' = s_sequence s"
proof -
  have k: "outbox (take_tokens6 d s) = outbox s \<and> s_sequence (take_tokens6 d s) = s_sequence s" for d
    by (simp add: take_tokens6_def)
  show ?thesis
    using assms k
    by (auto simp: take_accept6_def Let_def wrapped_Inr_iff SendRaw_def HasSecurityToken_def
        split: option.splits prod.splits if_splits list.splits)
qed

lemma Handshake6_Inr:
  assumes "Handshake6 s = (Inr (), s')"
  shows "\<exists>k. outbox s' = outbox s @ replicate (Suc k) (connect_packet6 s) @ (if HasSecurityToken s'
      then [BuildCtrlPacketNoToken 0 (accept_payload6 (s6_securityToken s'))] else []) \<and> s_sequence s' = s_sequence s"
proof -
  let ?p = "connect_packet6 s"
  obtain s1 resp s2 where s1: "SendRaw ?p s = (Inr (), s1)"
    and s2: "RecvResending (SendRaw ?p) s1 = (Inr resp, s2)" and s': "take_accept6 resp s2 = (Inr (), s')"
    using assms by (auto simp: Handshake6_def Let_def bnd_eq_Inr wrapped_Inr_iff)
  have o1: "outbox s1 = outbox s @ [?p] \<and> s_sequence s1 = s_sequence s"
    using s1 by (auto simp: SendRaw_def split: list.splits option.splits)
  have "connects ?p s1 s2"
    using s2 by (rule keepsD [OF RecvResending_keeps [OF connects_stable SendRaw_connects]])
  then obtain k where o2: "outbox s2 = outbox s1 @ replicate k ?p \<and> s_sequence s2 = s_sequence s1"
    by (auto simp: connects_def)
  from o1 o2 take_accept6_Inr [OF s'] show ?thesis by (intro exI [of _ k]) simp
qed


text \<open>The chunks of the four steps, by the sequence number the login starts from.\<close>

definition after_seq :: "int \<Rightarrow> nat \<Rightarrow> int" where
  "after_seq q n = (q + int n) mod MaxSequence"

lemma NextSeq_after: "NextSeq s = (Inr sq, s') \<longleftrightarrow>
    sq = (s_sequence s + 1) mod MaxSequence \<and> s' = s\<lparr>s_sequence := sq\<rparr>"
  by (auto simp: NextSeq_def Let_def)

definition info_chunks6 ::
    "varint_lib \<Rightarrow> (byte list \<Rightarrow> byte list) \<Rightarrow> byte list \<Rightarrow> login_config \<Rightarrow> int \<Rightarrow> byte list" where
  "info_chunks6 L md5 rnd cfg q =
     WrapVitalChunk6 (SysClientVer L md5 rnd) (after_seq q 1) @
     WrapVitalChunk6 (SysInfo6 L NetVersion6 (lc_Password cfg)) (after_seq q 2)"

definition start_chunk6 :: "varint_lib \<Rightarrow> byte list \<Rightarrow> byte list \<Rightarrow> login_config \<Rightarrow> int \<Rightarrow> byte list" where
  "start_chunk6 L name clan cfg q =
     WrapVitalChunk6 (GameClStartInfo6 L name clan (lc_Country cfg) (lc_Skin cfg) True 65408 65408) (after_seq q 4)"

lemma after_seq_step: "(after_seq q n + 1) mod MaxSequence = after_seq q (Suc n)"
  by (simp add: after_seq_def MaxSequence_def mod_simps add.commute add.left_commute)

lemma after_seq_1: "(q + 1) mod MaxSequence = after_seq q (Suc 0)"
  by (simp add: after_seq_def)

lemma Login6_phases:
  assumes "Login6 H L md5 rnd name clan opts s = (Inr (), s')"
  shows "\<exists>cs is rs st en k. outbox s' = outbox s @ cs @ is @ rs @ [st, en] \<and>
      cs = replicate (Suc k) (connect_packet6 s) @ (if HasSecurityToken s'
        then [BuildCtrlPacketNoToken 0 (accept_payload6 (s6_securityToken s'))] else []) \<and>
      is \<noteq> [] \<and> list_all (is_copy6 2 (info_chunks6 L md5 rnd (ApplyLoginOptions opts) (s_sequence s)) (s6_securityToken s')) is \<and>
      rs \<noteq> [] \<and> list_all (is_copy6 1 (WrapVitalChunk6 (SysReady6 L) (after_seq (s_sequence s) 3)) (s6_securityToken s')) rs \<and>
      is_copy6 1 (start_chunk6 L name clan (ApplyLoginOptions opts) (s_sequence s)) (s6_securityToken s') st \<and>
      is_copy6 1 (WrapVitalChunk6 (SysEnterGame6 L) (after_seq (s_sequence s) 5)) (s6_securityToken s') en \<and>
      s_sequence s' = after_seq (s_sequence s) 5"
proof -
  let ?q = "s_sequence s" and ?cfg = "ApplyLoginOptions opts"
  let ?sq = "after_seq ?q"
  obtain s1 s2 s3 s4 s5 s6 where hs: "Handshake6 s = (Inr (), s1)"
    and s2: "SendChunks6 2 (info_chunks6 L md5 rnd ?cfg (s_sequence s1)) (s1\<lparr>s_sequence := after_seq (s_sequence s1) 2\<rparr>) = (Inr (), s2)"
    and s3: "recvUntilMapChange6 H L md5 (SendChunks6 2 (info_chunks6 L md5 rnd ?cfg (s_sequence s1))) s2 = (Inr (), s3)"
    and s4: "SendChunks6 1 (WrapVitalChunk6 (SysReady6 L) ((s_sequence s3 + 1) mod MaxSequence))
        (s3\<lparr>s_sequence := (s_sequence s3 + 1) mod MaxSequence\<rparr>) = (Inr (), s4)"
    and s5: "recvUntilConReady6 H (SendChunks6 1 (WrapVitalChunk6 (SysReady6 L) ((s_sequence s3 + 1) mod MaxSequence))) s4 = (Inr (), s5)"
    and s6: "SendChunks6 1 (WrapVitalChunk6 (GameClStartInfo6 L name clan (lc_Country ?cfg) (lc_Skin ?cfg) True 65408 65408)
          ((s_sequence s5 + 1) mod MaxSequence)) (s5\<lparr>s_sequence := (s_sequence s5 + 1) mod MaxSequence\<rparr>) = (Inr (), s6)"
    and s7: "SendChunks6 1 (WrapVitalChunk6 (SysEnterGame6 L) ((s_sequence s6 + 1) mod MaxSequence))
        (s6\<lparr>s_sequence := (s_sequence s6 + 1) mod MaxSequence\<rparr>) = (Inr (), s')"
    using assms unfolding Login6_def Let_def bnd_eq_Inr wrapped_Inr_iff NextSeq_after
    by (auto simp: info_chunks6_def after_seq_def MaxSequence_def mod_simps add.commute)
  obtain k where hk: "outbox s1 = outbox s @ replicate (Suc k) (connect_packet6 s) @ (if HasSecurityToken s1
      then [BuildCtrlPacketNoToken 0 (accept_payload6 (s6_securityToken s1))] else [])" "s_sequence s1 = ?q"
    using Handshake6_Inr [OF hs] by blast
  obtain iss where i: "outbox s3 = outbox s1 @ iss" "iss \<noteq> []"
      "list_all (is_copy6 2 (info_chunks6 L md5 rnd ?cfg ?q) (s6_securityToken s1)) iss"
      "s_sequence s3 = ?sq 2" "s6_securityToken s3 = s6_securityToken s1"
    using step6 [OF s2 recvUntilMapChange6_resent [OF s3]] hk(2) by auto
  obtain rss where r: "outbox s5 = outbox s3 @ rss" "rss \<noteq> []"
      "list_all (is_copy6 1 (WrapVitalChunk6 (SysReady6 L) (?sq 3)) (s6_securityToken s1)) rss"
      "s_sequence s5 = ?sq 3" "s6_securityToken s5 = s6_securityToken s1"
    using step6 [OF s4 recvUntilConReady6_resent [OF s5]] i(4,5) by (auto simp: after_seq_step numeral_3_eq_3 numeral_2_eq_2)
  have a: "outbox s6 = outbox s5 @ [session_chunk_packet6 1 (start_chunk6 L name clan ?cfg ?q) (s5\<lparr>s_sequence := ?sq 4\<rparr>)]"
      "s_sequence s6 = ?sq 4" "s6_securityToken s6 = s6_securityToken s1"
    using SendChunks6_Inr [OF s6] r(4,5) by (simp_all add: start_chunk6_def after_seq_step)
  have e: "outbox s' = outbox s6 @ [session_chunk_packet6 1 (WrapVitalChunk6 (SysEnterGame6 L) (?sq 5)) (s6\<lparr>s_sequence := ?sq 5\<rparr>)]"
      "s_sequence s' = ?sq 5" "s6_securityToken s' = s6_securityToken s1"
    using SendChunks6_Inr [OF s7] a(2,3) by (simp_all add: after_seq_step)
  have tok: "HasSecurityToken s1 = HasSecurityToken s'" using e(3) by (simp add: HasSecurityToken_def)
  have st: "is_copy6 1 (start_chunk6 L name clan ?cfg ?q) (s6_securityToken s')
      (session_chunk_packet6 1 (start_chunk6 L name clan ?cfg ?q) (s5\<lparr>s_sequence := ?sq 4\<rparr>))"
    using is_copy6_packet [of 1 _ "s5\<lparr>s_sequence := ?sq 4\<rparr>"] r(5) e(3) by simp
  have en: "is_copy6 1 (WrapVitalChunk6 (SysEnterGame6 L) (?sq 5)) (s6_securityToken s')
      (session_chunk_packet6 1 (WrapVitalChunk6 (SysEnterGame6 L) (?sq 5)) (s6\<lparr>s_sequence := ?sq 5\<rparr>))"
    using is_copy6_packet [of 1 _ "s6\<lparr>s_sequence := ?sq 5\<rparr>"] a(3) e(3) by simp
  show ?thesis
    by (rule exI [of _ "replicate (Suc k) (connect_packet6 s) @ (if HasSecurityToken s'
        then [BuildCtrlPacketNoToken 0 (accept_payload6 (s6_securityToken s'))] else [])"],
      rule exI [of _ iss], rule exI [of _ rss], rule exI, rule exI, rule exI [of _ k], intro conjI)
      (use hk i r a e tok st en in simp_all)
qed


section \<open>The dialogue as a specification\<close>

text \<open>
  The packets of a login, abstracted from how often each had to be repeated: connects, the accept
  packet when the server gave a security token, copies of CLIENTVER and INFO, copies of READY, then
  STARTINFO and ENTERGAME, under consecutive sequence numbers.
\<close>

definition login_dialogue6 ::
    "varint_lib \<Rightarrow> (byte list \<Rightarrow> byte list) \<Rightarrow> byte list \<Rightarrow> byte list \<Rightarrow> byte list \<Rightarrow> login_config \<Rightarrow>
     byte list \<Rightarrow> int \<Rightarrow> byte list \<Rightarrow> byte list list \<Rightarrow> bool" where
  "login_dialogue6 L md5 rnd name clan cfg connect q token pkts \<longleftrightarrow>
     (\<exists>cs is rs st en k. pkts = cs @ is @ rs @ [st, en] \<and>
        cs = replicate (Suc k) connect @ (if token \<noteq> SecurityTokenUnknown
          then [BuildCtrlPacketNoToken 0 (accept_payload6 token)] else []) \<and>
        is \<noteq> [] \<and> list_all (is_copy6 2 (info_chunks6 L md5 rnd cfg q) token) is \<and>
        rs \<noteq> [] \<and> list_all (is_copy6 1 (WrapVitalChunk6 (SysReady6 L) (after_seq q 3)) token) rs \<and>
        is_copy6 1 (start_chunk6 L name clan cfg q) token st \<and>
        is_copy6 1 (WrapVitalChunk6 (SysEnterGame6 L) (after_seq q 5)) token en)"

section \<open>Rejection\<close>

lemma SendChunks6_ok:
  "send_faults s = [] \<Longrightarrow>
    \<exists>s'. SendChunks6 n c s = (Inr (), s') \<and> send_faults s' = [] \<and> s6_securityToken s' = s6_securityToken s"
  by (simp add: SendChunks6_def SendRaw_def)

lemma parsePayload6_token:
  "s6_securityToken s' = s6_securityToken s \<Longrightarrow> parsePayload6 H s' resp = parsePayload6 H s resp"
  by (simp add: parsePayload6_def stripSecurityToken_def HasSecurityToken_def Let_def split: prod.splits option.splits)

text \<open>
  What the server says while the client waits: \<open>close_of\<close> is the reason of a close packet, and
  \<open>undecided\<close> holds of everything that neither closes the session nor lets the client in: silence,
  packets that do not parse, control packets, chunks without CON_READY, the map change among them.
\<close>

definition close_of :: "huff_lib \<Rightarrow> ('m, 'z) session6_scheme \<Rightarrow> byte list \<Rightarrow> byte list option" where
  "close_of H s bs =
     (case parsePayload6 H s (take MaxPacketSize bs) of
        Inr (hdr, Some payload) \<Rightarrow> if f6_control (h6_flags hdr) then closed_reason MsgCtrlClose6 payload else None
      | _ \<Rightarrow> None)"

definition lets_in :: "huff_lib \<Rightarrow> ('m, 'z) session6_scheme \<Rightarrow> byte list \<Rightarrow> bool" where
  "lets_in H s bs =
     (case parsePayload6 H s (take MaxPacketSize bs) of
        Inr (hdr, Some payload) \<Rightarrow> \<not> f6_control (h6_flags hdr) \<and> ContainsSysMsg payload MsgSysConReady6 Split6
      | _ \<Rightarrow> False)"

fun undecided :: "huff_lib \<Rightarrow> ('m, 'z) session6_scheme \<Rightarrow> int \<times> net_event \<Rightarrow> bool" where
  "undecided H s (d, Silence) \<longleftrightarrow> True"
| "undecided H s (d, Arrive bs) \<longleftrightarrow> close_of H s bs = None \<and> \<not> lets_in H s bs"
| "undecided H s _ \<longleftrightarrow> False"

lemma undecided_token:
  assumes "s6_securityToken s' = s6_securityToken s"
  shows "close_of H s' = close_of H s" "lets_in H s' = lets_in H s" "undecided H s' = undecided H s"
proof -
  show c: "close_of H s' = close_of H s" "lets_in H s' = lets_in H s"
    by (simp_all add: fun_eq_iff close_of_def lets_in_def parsePayload6_token [OF assms])
  show "undecided H s' = undecided H s"
  proof
    fix x
    show "undecided H s' x = undecided H s x" using c by (cases "(H, s', x)" rule: undecided.cases) simp_all
  qed
qed

lemma close_of_taken: "close_of H (take_event d rest s) = close_of H s"
  by (rule undecided_token) (simp add: take_event_def)

text \<open>A packet of the wait for the map change, and one of the wait for CON_READY.\<close>

lemma map_change_packet6_close:
  "close_of H s bs = Some reason \<Longrightarrow>
    map_change_packet6 H L md5 (take MaxPacketSize bs) s = (Inl (server_closed_error reason), s)"
  by (auto simp: close_of_def map_change_packet6_def split: sum.splits prod.splits option.splits if_splits)

lemma map_change_packet6_undecided:
  assumes "close_of H s bs = None"
  obtains stop s' where "map_change_packet6 H L md5 (take MaxPacketSize bs) s = (Inr stop, s')"
proof -
  have "\<exists>stop s'. map_change_packet6 H L md5 (take MaxPacketSize bs) s = (Inr stop, s')"
    using assms by (auto simp: close_of_def map_change_packet6_def Let_def split: sum.splits prod.splits option.splits if_splits)
  with that show ?thesis by blast
qed

lemma con_ready_packet6_close:
  "close_of H s bs = Some reason \<Longrightarrow> con_ready_packet6 H (take MaxPacketSize bs) s = (Inl (server_closed_error reason), s)"
  by (auto simp: close_of_def con_ready_packet6_def split: sum.splits prod.splits option.splits if_splits)

lemma con_ready_packet6_undecided:
  assumes "close_of H s bs = None" "\<not> lets_in H s bs"
  obtains s' where "con_ready_packet6 H (take MaxPacketSize bs) s = (Inr False, s')"
  using assms that
  by (auto simp: close_of_def lets_in_def con_ready_packet6_def split: sum.splits prod.splits option.splits if_splits)

text \<open>What a wait has consumed is gone from the script; a retransmission does not touch it.\<close>

lemma RecvResending_arrive:
  "inbox s = (d, Arrive bs) # rest \<Longrightarrow> RecvResending resend s = (Inr (take MaxPacketSize bs), take_event d rest s)"
  by (simp add: RecvResending_def)

lemma RecvResending_silence:
  assumes "inbox s = (d, Silence) # rest" and "send_faults s = []"
  obtains s' where "RecvResending (SendChunks6 n c) s = RecvResending (SendChunks6 n c) s'"
    "inbox s' = rest" "send_faults s' = []" "s6_securityToken s' = s6_securityToken s"
proof -
  let ?s = "take_event d rest s"
  obtain s' where s': "SendChunks6 n c ?s = (Inr (), s')" "inbox s' = rest" "send_faults s' = []"
      "s6_securityToken s' = s6_securityToken s"
    using assms by (simp add: SendChunks6_def SendRaw_def take_event_def)
  moreover have "RecvResending (SendChunks6 n c) s = RecvResending (SendChunks6 n c) s'"
    using assms(1) s'(1,2) by (simp add: RecvResending_def bnd_def)
  ultimately show ?thesis using that by blast
qed

lemma recvUntilConReady6_closed:
  assumes "inbox s = pre @ (d, Arrive resp) # rest" and "list_all (undecided H s) pre"
    and "send_faults s = []" and "close_of H s resp = Some reason"
  shows "fst (recvUntilConReady6 H (SendChunks6 n c) s) = Inl (server_closed_error reason)"
  using assms
proof (induction pre arbitrary: s)
  case Nil
  then show ?case
    by (simp add: close_of_taken recvUntilConReady6.simps [of H _ s] RecvResending_arrive con_ready_packet6_close)
next
  case (Cons x pre)
  obtain e ev where x: "x = (e, ev)" by fastforce
  show ?case
  proof (cases ev)
    case Silence
    then obtain s' where s': "RecvResending (SendChunks6 n c) s = RecvResending (SendChunks6 n c) s'"
        "inbox s' = pre @ (d, Arrive resp) # rest" "send_faults s' = []" "s6_securityToken s' = s6_securityToken s"
      using RecvResending_silence [of s e "pre @ (d, Arrive resp) # rest"] Cons.prems(1,3) x by auto
    then have "fst (recvUntilConReady6 H (SendChunks6 n c) s') = Inl (server_closed_error reason)"
      using Cons.prems by (intro Cons.IH) (simp_all add: undecided_token [OF s'(4)])
    then show ?thesis by (simp add: recvUntilConReady6.simps [of H _ s] recvUntilConReady6.simps [of H _ s'] s'(1))
  next
    case (Arrive bs)
    let ?s = "take_event e (pre @ (d, Arrive resp) # rest) s"
    have tk: "s6_securityToken ?s = s6_securityToken s" by (simp add: take_event_def)
    have "close_of H ?s bs = None" "\<not> lets_in H ?s bs"
      using Cons.prems(2) x Arrive by (simp_all add: undecided_token [OF tk])
    then obtain s' where s': "con_ready_packet6 H (take MaxPacketSize bs) ?s = (Inr False, s')"
      by (rule con_ready_packet6_undecided)
    have w: "wire_of s' = wire_of ?s" "s6_securityToken s' = s6_securityToken s"
      using con_ready_packet6_wire [OF s'] tk by simp_all
    then have "fst (recvUntilConReady6 H (SendChunks6 n c) s') = Inl (server_closed_error reason)"
      using Cons.prems by (intro Cons.IH) (simp_all add: undecided_token [OF w(2)] wire_of_def take_event_def)
    then show ?thesis
      using Cons.prems(1) x Arrive s' by (simp add: recvUntilConReady6.simps [of H _ s] RecvResending_arrive)
  qed (use Cons.prems(2) x in auto)
qed

text \<open>The wait for the map change reports the close, or ends before it with the map change.\<close>

lemma recvUntilMapChange6_closed:
  assumes "inbox s = pre @ (d, Arrive resp) # rest" and "list_all (undecided H s) pre"
    and "send_faults s = []" and "close_of H s resp = Some reason"
  shows "fst (recvUntilMapChange6 H L md5 (SendChunks6 n c) s) = Inl (server_closed_error reason) \<or>
    (\<exists>s' pre'. recvUntilMapChange6 H L md5 (SendChunks6 n c) s = (Inr (), s') \<and>
       inbox s' = pre' @ (d, Arrive resp) # rest \<and> list_all (undecided H s) pre' \<and>
       send_faults s' = [] \<and> s6_securityToken s' = s6_securityToken s)"
  using assms
proof (induction pre arbitrary: s)
  case Nil
  then show ?case
    by (simp add: close_of_taken recvUntilMapChange6.simps [of H _ _ _ s] RecvResending_arrive map_change_packet6_close)
next
  case (Cons x pre)
  let ?wait = "recvUntilMapChange6 H L md5 (SendChunks6 n c)"
  let ?claim = "\<lambda>s. fst (?wait s) = Inl (server_closed_error reason) \<or>
    (\<exists>s' pre'. ?wait s = (Inr (), s') \<and>
       inbox s' = pre' @ (d, Arrive resp) # rest \<and> list_all (undecided H s) pre' \<and>
       send_faults s' = [] \<and> s6_securityToken s' = s6_securityToken s)"
  obtain e ev where x: "x = (e, ev)" by fastforce
  show ?case
  proof (cases ev)
    case Silence
    then obtain s' where s': "RecvResending (SendChunks6 n c) s = RecvResending (SendChunks6 n c) s'"
        "inbox s' = pre @ (d, Arrive resp) # rest" "send_faults s' = []" "s6_securityToken s' = s6_securityToken s"
      using RecvResending_silence [of s e "pre @ (d, Arrive resp) # rest"] Cons.prems(1,3) x by auto
    then have "?claim s'"
      using Cons.prems by (intro Cons.IH) (simp_all add: undecided_token [OF s'(4)])
    moreover have "?wait s = ?wait s'"
      by (simp add: recvUntilMapChange6.simps [of H _ _ _ s] recvUntilMapChange6.simps [of H _ _ _ s'] s'(1))
    ultimately show ?thesis by (simp add: undecided_token [OF s'(4)] s'(4))
  next
    case (Arrive bs)
    let ?s = "take_event e (pre @ (d, Arrive resp) # rest) s"
    have tk: "s6_securityToken ?s = s6_securityToken s" by (simp add: take_event_def)
    have "close_of H ?s bs = None"
      using Cons.prems(2) x Arrive by (simp add: undecided_token [OF tk])
    then obtain stop s' where s': "map_change_packet6 H L md5 (take MaxPacketSize bs) ?s = (Inr stop, s')"
      by (rule map_change_packet6_undecided)
    have w: "wire_of s' = wire_of ?s" "s6_securityToken s' = s6_securityToken s"
      using map_change_packet6_wire [OF s'] tk by simp_all
    then have i: "inbox s' = pre @ (d, Arrive resp) # rest" "send_faults s' = []"
      using Cons.prems(3) by (simp_all add: wire_of_def take_event_def)
    have step: "?wait s = (if stop then (Inr (), s') else ?wait s')"
      using Cons.prems(1) x Arrive s' by (simp add: recvUntilMapChange6.simps [of H _ _ _ s] RecvResending_arrive)
    show ?thesis
    proof (cases stop)
      case True
      with step i w(2) Cons.prems(2) show ?thesis by auto
    next
      case False
      have "?claim s'"
        using Cons.prems i by (intro Cons.IH) (simp_all add: undecided_token [OF w(2)])
      with False step show ?thesis by (simp add: undecided_token [OF w(2)] w(2))
    qed
  qed (use Cons.prems(2) x in auto)
qed

text \<open>
  A login the server has accepted and then closes, before or after its map change, ends with the
  error that carries the server's reason.
\<close>

lemma NextSeq_step:
  obtains sq s' where "NextSeq s = (Inr sq, s')" "inbox s' = inbox s" "send_faults s' = send_faults s"
    "s6_securityToken s' = s6_securityToken (s :: ('m, 'z) session6_scheme)"
  by (simp add: NextSeq_def Let_def)

lemma SendChunks6_step:
  assumes "send_faults s = []"
  obtains s' where "wrapped what args (SendChunks6 n c) s = (Inr (), s')" "inbox s' = inbox s" "send_faults s' = []"
    "s6_securityToken s' = s6_securityToken s"
  using assms by (simp add: wrapped_def SendChunks6_def SendRaw_def)

lemma Login6_closed:
  assumes hs: "Handshake6 s = (Inr (), s1)" and "send_faults s1 = []"
    and "inbox s1 = pre @ (d, Arrive resp) # rest" and "list_all (undecided H s1) pre"
    and "close_of H s1 resp = Some reason"
  shows "fst (Login6 H L md5 rnd name clan opts s) = Inl (server_closed_error reason)"
proof -
  obtain q2 s2 where s2: "NextSeq s1 = (Inr q2, s2)" "inbox s2 = inbox s1" "send_faults s2 = send_faults s1"
      "s6_securityToken s2 = s6_securityToken s1" by (rule NextSeq_step)
  obtain q3 s3 where s3: "NextSeq s2 = (Inr q3, s3)" "inbox s3 = inbox s2" "send_faults s3 = send_faults s2"
      "s6_securityToken s3 = s6_securityToken s2" by (rule NextSeq_step)
  let ?c = "WrapVitalChunk6 (SysClientVer L md5 rnd) q2 @
      WrapVitalChunk6 (SysInfo6 L NetVersion6 (lc_Password (ApplyLoginOptions opts))) q3"
  have "send_faults s3 = []" using s2 s3 assms(2) by simp
  then obtain s4 where s4: "wrapped ''session06: send clientver+info'' [] (SendChunks6 2 ?c) s3 = (Inr (), s4)"
      "inbox s4 = inbox s3" "send_faults s4 = []" "s6_securityToken s4 = s6_securityToken s3"
    by (rule SendChunks6_step)
  have tk: "s6_securityToken s4 = s6_securityToken s1" using s2 s3 s4 by simp
  have "fst (recvUntilMapChange6 H L md5 (SendChunks6 2 ?c) s4) = Inl (server_closed_error reason) \<or>
      (\<exists>s5 pre'. recvUntilMapChange6 H L md5 (SendChunks6 2 ?c) s4 = (Inr (), s5) \<and>
         inbox s5 = pre' @ (d, Arrive resp) # rest \<and> list_all (undecided H s4) pre' \<and>
         send_faults s5 = [] \<and> s6_securityToken s5 = s6_securityToken s4)"
    using s2 s3 s4 assms(3-5) by (intro recvUntilMapChange6_closed [of s4 pre d resp rest]) (simp_all add: undecided_token [OF tk])
  then consider (closed) s5 where "recvUntilMapChange6 H L md5 (SendChunks6 2 ?c) s4 = (Inl (server_closed_error reason), s5)"
    | (mapped) s5 pre' where "recvUntilMapChange6 H L md5 (SendChunks6 2 ?c) s4 = (Inr (), s5)"
        "inbox s5 = pre' @ (d, Arrive resp) # rest" "list_all (undecided H s4) pre'"
        "send_faults s5 = []" "s6_securityToken s5 = s6_securityToken s4"
    by (metis prod.collapse)
  then show ?thesis
  proof cases
    case closed
    then show ?thesis by (simp add: Login6_def Let_def bnd_def hs s2(1) s3(1) s4(1))
  next
    case mapped
    obtain q6 s6 where s6: "NextSeq s5 = (Inr q6, s6)" "inbox s6 = inbox s5" "send_faults s6 = send_faults s5"
        "s6_securityToken s6 = s6_securityToken s5" by (rule NextSeq_step)
    let ?r = "WrapVitalChunk6 (SysReady6 L) q6"
    have "send_faults s6 = []" using s6 mapped by simp
    then obtain s7 where s7: "wrapped ''session06: send ready'' [] (SendChunks6 1 ?r) s6 = (Inr (), s7)"
        "inbox s7 = inbox s6" "send_faults s7 = []" "s6_securityToken s7 = s6_securityToken s6"
      by (rule SendChunks6_step)
    have tk': "s6_securityToken s7 = s6_securityToken s4" using mapped s6 s7 by simp
    have "fst (recvUntilConReady6 H (SendChunks6 1 ?r) s7) = Inl (server_closed_error reason)"
      using mapped s6 s7 assms(5)
      by (intro recvUntilConReady6_closed [of s7 pre' d resp rest]) (simp_all add: undecided_token [OF tk'] undecided_token [OF tk])
    then obtain s8 where "recvUntilConReady6 H (SendChunks6 1 ?r) s7 = (Inl (server_closed_error reason), s8)"
      by (metis prod.collapse)
    then show ?thesis by (simp add: Login6_def Let_def bnd_def hs s2(1) s3(1) s4(1) mapped(1) s6(1) s7(1))
  qed
qed

text \<open>
  A close packet that answers CONNECT itself is not read as a close: the handshake wants its accept
  packet, so the reason the server gave is lost.
\<close>

lemma take_accept6_closed:
  assumes "header6_unpack zero_header6 q = (None, hdr)" and "header6_size hdr < length q"
    and "q ! header6_size hdr = byte_of MsgCtrlClose6"
  shows "take_accept6 q s = (Inl (Err ''session06: expected CONNECTACCEPT'' [MsgCtrlClose6]), s)"
proof -
  have "byte_of MsgCtrlClose6 \<noteq> byte_of MsgCtrlConnectAccept6" "uint (byte_of MsgCtrlClose6) = MsgCtrlClose6"
    by code_simp+
  with assms show ?thesis by (simp only: take_accept6_def Let_def prod.case option.case) simp
qed

lemma Handshake6_closed:
  assumes "inbox s = (d, Arrive resp) # rest" and "send_faults s = []"
    and "header6_unpack zero_header6 (take MaxPacketSize resp) = (None, hdr)"
    and "drop (header6_size hdr) (take MaxPacketSize resp) = byte_of MsgCtrlClose6 # reason"
  shows "fst (Handshake6 s) = Inl (Err ''session06: expected CONNECTACCEPT'' [MsgCtrlClose6])"
proof -
  let ?p = "SendRaw (connect_packet6 s)"
  obtain s1 where s1: "?p s = (Inr (), s1)" "inbox s1 = (d, Arrive resp) # rest"
    using assms(1,2) by (simp add: SendRaw_def)
  have "drop (header6_size hdr) (take MaxPacketSize resp) \<noteq> []" using assms(4) by simp
  then have l: "header6_size hdr < length (take MaxPacketSize resp)" by (simp only: drop_eq_Nil not_le)
  then have "take MaxPacketSize resp ! header6_size hdr = byte_of MsgCtrlClose6"
    using assms(4) by (metis Cons_nth_drop_Suc list.inject)
  with take_accept6_closed [OF assms(3) l, of "take_event d rest s1"] RecvResending_arrive [OF s1(2), of "?p"]
  show ?thesis by (simp add: Handshake6_def Let_def bnd_def wrapped_def s1(1))
qed

section \<open>Properties\<close>

text \<open>A server that accepts, loses the first INFO, sends its map and is ready.\<close>

definition server_packet6 :: "byte list \<Rightarrow> byte list" where
  "server_packet6 msg =
     header6_pack \<lparr>h6_flags = no_flags6, h6_ack = 0, h6_num_chunks = 1, h6_token = zero_token\<rparr>
       @ WrapVitalChunk6 msg 1 @ [9, 9, 9, 9]"

definition joining_session6 :: "unit session6" where
  "joining_session6 = sample_session6\<lparr>inbox :=
     [(3, Arrive (BuildCtrlPacketNoToken 0 (byte_of MsgCtrlConnectAccept6 # securityTokenMagic @ [9, 9, 9, 9]))),
      (500, Silence),
      (3, Arrive (server_packet6 (message_bytes wire_lib MsgSysMapChange6 True
         [FStr (bytes_of ''dm1''), FInt 1, FInt 2]))),
      (3, Arrive (server_packet6 (message_bytes wire_lib MsgSysConReady6 True [])))]\<rparr>"

text \<open>
  C20: A successful login wrote the login dialogue. When \<open>Login\<close> of a 0.6 session returns without an
  error, the datagrams it wrote are, in this order, copies of the connect packet, the accept packet
  when there is a security token, copies of CLIENTVER and INFO, copies of READY, STARTINFO and
  ENTERGAME; every retransmission carries the chunks of the original, with five consecutive
  sequence numbers in all, whatever the network lost.
\<close>

theorem login_writes_dialogue6:
  assumes "Login6 H L md5 rnd name clan opts s = (Inr (), s')"
  shows "\<exists>pkts. outbox s' = outbox s @ pkts \<and> s_sequence s' = after_seq (s_sequence s) 5 \<and>
    login_dialogue6 L md5 rnd name clan (ApplyLoginOptions opts) (connect_packet6 s) (s_sequence s)
      (s6_securityToken s') pkts"
  using Login6_phases [OF assms] unfolding login_dialogue6_def HasSecurityToken_def
  by (metis append_assoc)

theorem login_writes_dialogue6_witness:
  "length (outbox (snd (Login6 plain_huffman wire_lib (\<lambda>b. b) [] [97] [] [] joining_session6))) = 7 \<and>
   (\<exists>pkts. outbox (snd (Login6 plain_huffman wire_lib (\<lambda>b. b) [] [97] [] [] joining_session6)) = pkts \<and>
      login_dialogue6 wire_lib (\<lambda>b. b) [] [97] [] (ApplyLoginOptions []) (connect_packet6 joining_session6) 0
        [9, 9, 9, 9] pkts)"
proof -
  let ?s' = "snd (Login6 plain_huffman wire_lib (\<lambda>b. b) [] [97] [] [] joining_session6)"
  have f: "fst (Login6 plain_huffman wire_lib (\<lambda>b. b) [] [97] [] [] joining_session6) = Inr ()" 
    and n: "length (outbox ?s') = 7" and t: "s6_securityToken ?s' = [9, 9, 9, 9]" by code_simp+
  from f have "Login6 plain_huffman wire_lib (\<lambda>b. b) [] [97] [] [] joining_session6 = (Inr (), ?s')"
    by (metis prod.collapse)
  from login_writes_dialogue6 [OF this] n t show ?thesis
    by (simp add: joining_session6_def sample_session6_def)
qed

end
