(* ===== verification/Login7.thy ===== *)
theory Login7
  imports Login6
begin

text \<open>
  net7/session.go: the token exchange, the handshake and the login of protocol 0.7, with the map
  download that comes before READY. A vital chunk is taken exactly once and in order there, so that
  the map is whole whatever the network drops, repeats or reorders.
\<close>

definition LoginResendInterval :: int where "LoginResendInterval = 500000000"
definition mapPollInterval :: int where "mapPollInterval = 60000000"
definition minSignalInterval :: int where "minSignalInterval = 20000000"
definition maxAcceptTimeouts :: nat where "maxAcceptTimeouts = 4"

section \<open>One receive and the script\<close>

text \<open>A receive that leaves the context running has consumed an event.\<close>

lemma RecvContext_shrinks:
  "RecvContext s = (r, s') \<Longrightarrow> ctx_err s' = None \<or> (\<exists>x. r = Inr x) \<Longrightarrow> length (inbox s') < length (inbox s)"
  by (auto simp: RecvContext_def ctx_err_def ctx_over_def ctx_ends_def take_event_def end_ctx_def
      split: list.splits net_event.splits)

lemma recvAndParse7_split:
  assumes "recvAndParsePayload7 H s = (r, s')"
  shows "\<exists>q. RecvContext s = (q, s') \<and> (\<forall>y. r = Inr y \<longrightarrow> (\<exists>x. q = Inr x))"
  using assms by (auto simp: recvAndParsePayload7_def bnd_def split: prod.splits sum.splits)

lemma recvAndParse7_shrinks:
  assumes "recvAndParsePayload7 H s = (r, s')" and "ctx_err s' = None \<or> (\<exists>x. r = Inr x)"
  shows "length (inbox s') < length (inbox s)"
proof -
  obtain q where q: "RecvContext s = (q, s')" "\<forall>y. r = Inr y \<longrightarrow> (\<exists>x. q = Inr x)"
    using recvAndParse7_split [OF assms(1)] by (elim exE conjE)
  from q(2) assms(2) have "ctx_err s' = None \<or> (\<exists>x. q = Inr x)" by blast
  with q(1) show ?thesis by (rule RecvContext_shrinks)
qed

lemma inbox_SendRaw [simp]: "inbox (snd (SendRaw p s)) = inbox s"
  by (auto simp: SendRaw_def split: list.splits option.splits)

lemma SendRaw_inbox: "SendRaw p s = (r, s') \<Longrightarrow> inbox s' = inbox s"
  by (metis inbox_SendRaw snd_conv)

section \<open>Handshake\<close>

definition token_reply7 :: "byte list \<Rightarrow> byte list option" where
  "token_reply7 resp =
     (case header7_unpack zero_header7 resp of
        (Some e, hdr) \<Rightarrow> None
      | (None, hdr) \<Rightarrow>
          if \<not> f7_control (h7_flags hdr) \<or> length resp < 12 then None
          else if resp ! 7 = byte_of MsgCtrlToken7 then Some (take 4 (drop 8 resp))
          else None)"

function wait_token7 :: "byte list \<Rightarrow> (('m, 'z) session7_scheme, byte list) gost" where
  "wait_token7 tokenReq s =
     (case RecvResending (SendRaw tokenReq) s of
        (Inl e, s1) \<Rightarrow> (Inl (wrap_err ''session07: recv token response'' [] e), s1)
      | (Inr resp, s1) \<Rightarrow>
          (case token_reply7 resp of Some tok \<Rightarrow> (Inr tok, s1) | None \<Rightarrow> wait_token7 tokenReq s1))"
  by pat_completeness auto
termination
  by (relation "measure (\<lambda>(p, s). length (inbox s))") (auto dest!: RecvResending_inbox [OF sym])

text \<open>
  The accept is sent once and never repeated: after four intervals without it the connection is
  presumed online. Any failed receive counts as an interval, also a packet that does not parse.
\<close>

definition accept_step7 :: "header7 \<Rightarrow> byte list option \<Rightarrow> goerr + bool" where
  "accept_step7 hdr payload =
     (if f7_control (h7_flags hdr) then
        (case payload of
           None \<Rightarrow> Inr False
         | Some p \<Rightarrow>
             if length p \<ge> 1 \<and> p ! 0 = byte_of MsgCtrlAccept7 then Inr True
             else (case closed_reason MsgCtrlClose7 p of
                     Some reason \<Rightarrow> Inl (server_closed_error reason) | None \<Rightarrow> Inr False))
      else Inr (h7_num_chunks hdr > 0))"

function wait_accept7 :: "huff_lib \<Rightarrow> byte list \<Rightarrow> nat \<Rightarrow> (('m, 'z) session7_scheme, unit) gost" where
  "wait_accept7 H connectPkt timeouts s =
     (case recvAndParsePayload7 H s of
        (Inl e, s1) \<Rightarrow>
          (case ctx_err s1 of
             Some ce \<Rightarrow> (Inl (wrap_err ''session07: recv accept'' [] ce), s1)
           | None \<Rightarrow>
               (case SendRaw connectPkt s1 of
                  (Inl se, s2) \<Rightarrow> (Inl (wrap_err ''session07: resend connect'' [] se), s2)
                | (Inr u, s2) \<Rightarrow>
                    if timeouts + 1 \<ge> maxAcceptTimeouts then (Inr (), s2)
                    else wait_accept7 H connectPkt (timeouts + 1) s2))
      | (Inr (hdr, payload), s1) \<Rightarrow>
          (case accept_step7 hdr payload of
             Inl e \<Rightarrow> (Inl e, s1)
           | Inr stop \<Rightarrow> if stop then (Inr (), s1) else wait_accept7 H connectPkt timeouts s1))"
  by pat_completeness auto
termination
  by (relation "measure (\<lambda>(H, p, n, s). length (inbox s))")
    (auto dest!: recvAndParse7_shrinks [OF sym] SendRaw_inbox [OF sym])

declare wait_token7.simps [simp del] wait_accept7.simps [simp del]

definition Handshake7 :: "huff_lib \<Rightarrow> (('m, 'z) session7_scheme, unit) gost" where
  "Handshake7 H s =
     (let tokenReq = BuildTokenRequest (s_clientToken s) in
      bnd (wrapped ''session07: send token request'' [] (SendRaw tokenReq)) (\<lambda>_.
      bnd (wait_token7 tokenReq) (\<lambda>tok s1.
        let s2 = s1\<lparr>s_serverToken := tok\<rparr>;
            connectPkt = BuildConnect7 tok (s_clientToken s2) in
        bnd (wrapped ''session07: send connect'' [] (SendRaw connectPkt)) (\<lambda>_.
          wait_accept7 H connectPkt 0) s2)) s)"

section \<open>Waiting for the map change\<close>

definition map_change_packet7 ::
    "huff_lib \<Rightarrow> varint_lib \<Rightarrow> (byte list \<Rightarrow> byte list) \<Rightarrow> byte list \<Rightarrow> (('m, 'z) session7_scheme, bool) gost" where
  "map_change_packet7 H L md5 resp s =
     (case parsePayload7 H resp of
        Inl e \<Rightarrow> (Inr False, s)
      | Inr (hdr, None) \<Rightarrow> (Inr False, s)
      | Inr (hdr, Some payload) \<Rightarrow>
          if f7_control (h7_flags hdr) then
            (case closed_reason MsgCtrlClose7 payload of
               Some reason \<Rightarrow> (Inl (server_closed_error reason), s)
             | None \<Rightarrow> (Inr False, s))
          else
            (let s1 = s\<lparr>s_ack := CountVitalChunks payload (h7_num_chunks hdr) (s_ack s) Split7\<rparr>;
                 s2 = fold (maybeParseCapabilities7 L md5)
                        (ExtractAllSysMsgPayloads L payload MsgSysEx7 Split7) s1 in
             case ExtractSysMsgPayload L payload MsgSysMapChange7 Split7 of
               Some d \<Rightarrow> (Inr True, store_map_change L d s2)
             | None \<Rightarrow> (Inr False, s2)))"

lemma inbox_fold_maybeParse7: "inbox (fold (maybeParseCapabilities7 L md5) exs s) = inbox s"
  by (induction exs arbitrary: s)
    (simp_all add: maybeParseCapabilities7_def storeCapabilities7_def split: option.splits)

lemma map_change_packet7_inbox: "map_change_packet7 H L md5 resp s = (r, s') \<Longrightarrow> inbox s' = inbox s"
  by (auto simp: map_change_packet7_def store_map_change_def set_map_info_def Let_def inbox_fold_maybeParse7
      split: sum.splits prod.splits option.splits if_splits)

function recvUntilMapChange7 ::
    "huff_lib \<Rightarrow> varint_lib \<Rightarrow> (byte list \<Rightarrow> byte list) \<Rightarrow> (('m, 'z) session7_scheme, unit) gost \<Rightarrow>
     (('m, 'z) session7_scheme, unit) gost" where
  "recvUntilMapChange7 H L md5 resend s =
     (case RecvResending resend s of
        (Inl e, s1) \<Rightarrow> (Inl (wrap_err ''session07: recv waiting for map_change'' [] e), s1)
      | (Inr resp, s1) \<Rightarrow>
          (case map_change_packet7 H L md5 resp s1 of
             (Inl e, s2) \<Rightarrow> (Inl e, s2)
           | (Inr stop, s2) \<Rightarrow>
               if stop then (Inr (), s2) else recvUntilMapChange7 H L md5 resend s2))"
  by pat_completeness auto
termination
  by (relation "measure (\<lambda>(H, L, md5, resend, s). length (inbox s))")
    (auto dest!: RecvResending_inbox [OF sym] map_change_packet7_inbox [OF sym])

section \<open>Waiting for CON_READY\<close>

definition con_ready_packet7 ::
    "varint_lib \<Rightarrow> header7 \<Rightarrow> byte list option \<Rightarrow> (('m, 'z) session7_scheme, bool) gost" where
  "con_ready_packet7 L hdr payload s =
     (case payload of
        None \<Rightarrow> (Inr False, s)
      | Some p \<Rightarrow>
          if f7_control (h7_flags hdr) then
            (case closed_reason MsgCtrlClose7 p of
               Some reason \<Rightarrow> (Inl (server_closed_error reason), s)
             | None \<Rightarrow> (Inr False, s))
          else
            (let s1 = s\<lparr>s_ack := CountVitalChunks p (h7_num_chunks hdr) (s_ack s) Split7\<rparr>;
                 s2 = (case ExtractSysMsgPayload L p MsgSysMapChange7 Split7 of
                         Some d \<Rightarrow> store_map_change L d s1 | None \<Rightarrow> s1) in
             (Inr (ContainsSysMsg p MsgSysConReady7 Split7), s2)))"

lemma con_ready_packet7_inbox: "con_ready_packet7 L hdr payload s = (r, s') \<Longrightarrow> inbox s' = inbox s"
  by (auto simp: con_ready_packet7_def store_map_change_def set_map_info_def Let_def
      split: sum.splits option.splits if_splits)

text \<open>The retransmission is due on a fixed cadence, whatever arrives in between.\<close>

definition resend_ready7 :: "byte list \<Rightarrow> int \<Rightarrow> (('m, 'z) session7_scheme, int) gost" where
  "resend_ready7 readyChunk lastSend s =
     (if clock s - lastSend \<ge> LoginResendInterval then
        bnd (wrapped ''session07: resend ready'' [] (SendChunks7 1 readyChunk)) (\<lambda>_.
        bnd (dropped SendResendRequest) (\<lambda>_ s1. (Inr (clock s1), s1))) s
      else (Inr lastSend, s))"

lemma resend_ready7_inbox: "resend_ready7 c ls s = (r, s') \<Longrightarrow> inbox s' = inbox s"
  by (auto simp: resend_ready7_def bnd_def wrapped_def dropped_def SendChunks7_def SendResendRequest_def
      dest: SendRaw_inbox split: prod.splits sum.splits if_splits)

function recvUntilConReady7 ::
    "huff_lib \<Rightarrow> varint_lib \<Rightarrow> byte list \<Rightarrow> int \<Rightarrow> (('m, 'z) session7_scheme, unit) gost" where
  "recvUntilConReady7 H L readyChunk lastSend s =
     (case resend_ready7 readyChunk lastSend s of
        (Inl e, s1) \<Rightarrow> (Inl e, s1)
      | (Inr lastSend', s1) \<Rightarrow>
          (case recvAndParsePayload7 H s1 of
             (Inl e, s2) \<Rightarrow>
               (case ctx_err s2 of
                  Some ce \<Rightarrow> (Inl (wrap_err ''session07: recv waiting for con_ready'' [] ce), s2)
                | None \<Rightarrow> recvUntilConReady7 H L readyChunk lastSend' s2)
           | (Inr (hdr, payload), s2) \<Rightarrow>
               (case con_ready_packet7 L hdr payload s2 of
                  (Inl e, s3) \<Rightarrow> (Inl e, s3)
                | (Inr stop, s3) \<Rightarrow>
                    if stop then (Inr (), s3) else recvUntilConReady7 H L readyChunk lastSend' s3)))"
  by pat_completeness auto
termination
  by (relation "measure (\<lambda>(H, L, c, ls, s). length (inbox s))")
    (auto dest!: recvAndParse7_shrinks [OF sym] resend_ready7_inbox [OF sym] con_ready_packet7_inbox [OF sym])

declare recvUntilMapChange7.simps [simp del] recvUntilConReady7.simps [simp del]

section \<open>The map download before READY\<close>

text \<open>
  The variables of the loop: the bytes so far, the chunks counted, the pending request, and the
  times of the last progress, resend signal and request.
\<close>

record drain =
  dr_data :: "byte list"
  dr_count :: int
  dr_req :: "byte list"
  dr_progress :: int
  dr_signal :: int
  dr_request :: int

text \<open>One vital chunk of a packet; the flag says whether a chunk out of order was seen.\<close>

definition new_request7 :: "varint_lib \<Rightarrow> (('m, 'z) session7_scheme, byte list) gost" where
  "new_request7 L = bnd NextSeq (\<lambda>sq. ret (WrapVitalChunk7 (SysRequestMapData7 L) sq))"

definition map_bytes7 :: "byte list \<Rightarrow> byte list option" where
  "map_bytes7 d =
     (if length d < 1 then None
      else
        (let msgRaw = first_byte_msg (d ! 0) in
         if msgRaw AND 1 = 0 \<or> drop_bit 1 msgRaw \<noteq> MsgSysMapData7 then None else Some (drop 1 d)))"

definition drain_chunk7 ::
    "varint_lib \<Rightarrow> int \<Rightarrow> int \<Rightarrow> chunk \<Rightarrow> bool \<times> drain \<Rightarrow> (('m, 'z) session7_scheme, bool \<times> drain) gost" where
  "drain_chunk7 L perReq mapSize c sd s =
     (if \<not> Vital (Flags (Header c)) then (Inr sd, s)
      else if Seq (Header c) \<noteq> (s_ack s + 1) mod MaxSequence then (Inr (True, snd sd), s)
      else
        (let s1 = s\<lparr>s_ack := Seq (Header c)\<rparr>;
             dr = (snd sd)\<lparr>dr_progress := clock s1\<rparr> in
         case map_bytes7 (Data c) of
           None \<Rightarrow> (Inr (fst sd, dr), s1)
         | Some bs \<Rightarrow>
             (let dr1 = dr\<lparr>dr_data := dr_data dr @ bs, dr_count := dr_count dr + 1\<rparr> in
              if dr_count dr1 mod perReq = 0 \<and> int (length (dr_data dr1)) < mapSize then
                bnd (new_request7 L) (\<lambda>req.
                bnd (SendChunks7 1 req) (\<lambda>_. ret (fst sd, dr1\<lparr>dr_req := req\<rparr>))) s1
              else (Inr (fst sd, dr1), s1))))"

fun drain_chunks7 ::
    "varint_lib \<Rightarrow> int \<Rightarrow> int \<Rightarrow> chunk list \<Rightarrow> bool \<times> drain \<Rightarrow> (('m, 'z) session7_scheme, bool \<times> drain) gost" where
  "drain_chunks7 L perReq mapSize [] sd = ret sd"
| "drain_chunks7 L perReq mapSize (c # cs) sd =
     bnd (drain_chunk7 L perReq mapSize c sd) (drain_chunks7 L perReq mapSize cs)"

text \<open>The recovery at the top of an iteration: a resend signal, and rarely the request again.\<close>

definition drain_recover7 :: "drain \<Rightarrow> (('m, 'z) session7_scheme, drain) gost" where
  "drain_recover7 dr s =
     (if clock s - dr_progress dr \<ge> mapPollInterval \<and> clock s - dr_signal dr \<ge> minSignalInterval then
        bnd (dropped SendResendRequest) (\<lambda>_ s1.
          let dr1 = dr\<lparr>dr_signal := clock s1\<rparr> in
          if clock s1 - dr_request dr1 \<ge> LoginResendInterval then
            bnd (SendChunks7 1 (dr_req dr1)) (\<lambda>_ s2. (Inr (dr1\<lparr>dr_request := clock s2\<rparr>), s2)) s1
          else (Inr dr1, s1)) s
      else (Inr dr, s))"

definition drain_packet7 ::
    "varint_lib \<Rightarrow> int \<Rightarrow> int \<Rightarrow> header7 \<Rightarrow> byte list option \<Rightarrow> drain \<Rightarrow> (('m, 'z) session7_scheme, drain) gost" where
  "drain_packet7 L perReq mapSize hdr payload dr =
     (case payload of
        None \<Rightarrow> ret dr
      | Some p \<Rightarrow>
          if f7_control (h7_flags hdr) then
            (case closed_reason MsgCtrlClose7 p of
               Some reason \<Rightarrow> fail (server_closed_error reason) | None \<Rightarrow> ret dr)
          else
            bnd (drain_chunks7 L perReq mapSize (UnpackChunks p Split7) (False, dr)) (\<lambda>(mismatch, dr1) s1.
              if mismatch \<and> clock s1 - dr_signal dr1 \<ge> minSignalInterval then
                bnd (dropped SendResendRequest) (\<lambda>_ s2. (Inr (dr1\<lparr>dr_signal := clock s2\<rparr>), s2)) s1
              else (Inr dr1, s1)))"

text \<open>The loop, bounded by the safety counter.\<close>

function drain_loop7 ::
    "huff_lib \<Rightarrow> varint_lib \<Rightarrow> int \<Rightarrow> int \<Rightarrow> int \<Rightarrow> drain \<Rightarrow> (('m, 'z) session7_scheme, byte list) gost" where
  "drain_loop7 H L perReq mapSize safety dr s =
     (if int (length (dr_data dr)) < mapSize \<and> safety > 0 then
        (case drain_recover7 dr s of
           (Inl e, s1) \<Rightarrow> (Inl e, s1)
         | (Inr dr1, s1) \<Rightarrow>
             (case recvAndParsePayload7 H s1 of
                (Inl e, s2) \<Rightarrow>
                  (case ctx_err s2 of
                     Some ce \<Rightarrow> (Inl (wrap_err ''session07: map download'' [] ce), s2)
                   | None \<Rightarrow> drain_loop7 H L perReq mapSize (safety - 1) dr1 s2)
              | (Inr (hdr, payload), s2) \<Rightarrow>
                  (case drain_packet7 L perReq mapSize hdr payload dr1 s2 of
                     (Inl e, s3) \<Rightarrow> (Inl e, s3)
                   | (Inr dr2, s3) \<Rightarrow> drain_loop7 H L perReq mapSize (safety - 1) dr2 s3)))
      else (Inr (dr_data dr), s))"
  by pat_completeness auto
termination
  by (relation "measure (\<lambda>(H, L, p, m, safety, dr, s). nat safety)") auto

declare drain_loop7.simps [simp del]

definition drainMapForLogin7 :: "huff_lib \<Rightarrow> varint_lib \<Rightarrow> (('m, 'z) session7_scheme, unit) gost" where
  "drainMapForLogin7 H L s =
     (let info = s_mapInfo s in
      if Name info = [] \<or> MSize info \<le> 0 then (Inr (), s)
      else
        (let perReq = (if NumChunksPerRequest info \<le> 0 then 1 else NumChunksPerRequest info) in
         bnd (new_request7 L) (\<lambda>req. bnd (SendChunks7 1 req) (\<lambda>_ s1.
           bnd (drain_loop7 H L perReq (MSize info) (MSize info * 2 + 4096)
                  \<lparr>dr_data = [], dr_count = 0, dr_req = req, dr_progress = clock s1,
                   dr_signal = clock s1, dr_request = clock s1\<rparr>) (\<lambda>bs s2.
             (Inr (), s2\<lparr>s7_loginMapData := bs\<rparr>)) s1)) s))"

section \<open>Login\<close>

definition start_skin_parts :: "byte list list" where
  "start_skin_parts = [bytes_of ''standard'', [], [], bytes_of ''standard'', bytes_of ''standard'', bytes_of ''standard'']"

definition Login7 ::
    "huff_lib \<Rightarrow> varint_lib \<Rightarrow> (byte list \<Rightarrow> byte list) \<Rightarrow> byte list \<Rightarrow> byte list \<Rightarrow>
     (login_config \<Rightarrow> login_config) option list \<Rightarrow> (('m, 'z) session7_scheme, unit) gost" where
  "Login7 H L md5 name clan opts =
     (let cfg = ApplyLoginOptions opts in
      bnd (Handshake7 H) (\<lambda>_.
      bnd NextSeq (\<lambda>sqInfo.
        let sendInfo = SendChunks7 1 (WrapVitalChunk7 (SysInfo7 L NetVersion7 (lc_Password cfg)) sqInfo) in
        bnd (wrapped ''session07: send info'' [] sendInfo) (\<lambda>_ s.
          let connectPkt = BuildConnect7 (s_serverToken s) (s_clientToken s);
              resendInfo = bnd (dropped (SendRaw connectPkt)) (\<lambda>_. sendInfo) in
          bnd (recvUntilMapChange7 H L md5 resendInfo) (\<lambda>_ s1.
          bnd (dropped (drainMapForLogin7 H L)) (\<lambda>_.
          bnd NextSeq (\<lambda>sqReady.
            let readyChunk = WrapVitalChunk7 (SysReady7 L) sqReady in
            bnd (wrapped ''session07: send ready'' [] (SendChunks7 1 readyChunk)) (\<lambda>_ s2.
            bnd (recvUntilConReady7 H L readyChunk (clock s2)) (\<lambda>_.
            bnd NextSeq (\<lambda>sqStart.
            bnd (wrapped ''session07: send startinfo'' [] (SendChunks7 1 (WrapVitalChunk7
                  (GameClStartInfo7 L name clan (lc_Country cfg) start_skin_parts
                     [True, False, False, True, True, False] [65408, 0, 0, 65408, 65408, 0]) sqStart))) (\<lambda>_.
            bnd NextSeq (\<lambda>sqEnter.
              wrapped ''session07: send entergame'' []
                (SendChunks7 1 (WrapVitalChunk7 (SysEnterGame7 L) sqEnter)))))) s2))) s1) s))))"

end
