(* ===== verification/Drain.thy ===== *)
theory Drain
  imports Login7
begin

text \<open>
  The map download of a 0.7 login against a server whose vital messages are a stream: each has the
  next sequence number and is repeated until it is acknowledged. Whatever the network loses, repeats
  and reorders, the downloaded bytes are a prefix of the map.
\<close>

section \<open>The server's stream\<close>

text \<open>
  \<open>v k\<close> is the data of the k-th vital chunk behind the acknowledgement \<open>a0\<close>. A chunk on the wire
  belongs to the stream and is not so far from the current position that its ten-bit number could be
  mistaken for another's.
\<close>

definition stream_seq :: "int \<Rightarrow> nat \<Rightarrow> int" where
  "stream_seq a0 k = (a0 + int k + 1) mod MaxSequence"

definition near :: "(nat \<Rightarrow> byte list) \<Rightarrow> int \<Rightarrow> nat \<Rightarrow> chunk \<Rightarrow> bool" where
  "near v a0 pos c \<longleftrightarrow> (Vital (Flags (Header c)) \<longrightarrow>
     (\<exists>k. k < pos + 1024 \<and> pos < k + 1024 \<and> Seq (Header c) = stream_seq a0 k \<and> Data c = v k))"

definition advance :: "int \<Rightarrow> chunk \<Rightarrow> nat \<Rightarrow> nat" where
  "advance a0 c pos =
     (if Vital (Flags (Header c)) \<and> Seq (Header c) = stream_seq a0 pos then Suc pos else pos)"

fun from_stream :: "(nat \<Rightarrow> byte list) \<Rightarrow> int \<Rightarrow> nat \<Rightarrow> chunk list \<Rightarrow> bool" where
  "from_stream v a0 pos [] = True"
| "from_stream v a0 pos (c # cs) = (near v a0 pos c \<and> from_stream v a0 (advance a0 c pos) cs)"

text \<open>The bytes of the map in the first \<open>n\<close> chunks.\<close>

definition map_stream7 :: "(nat \<Rightarrow> byte list) \<Rightarrow> nat \<Rightarrow> byte list" where
  "map_stream7 v n = concat (map (\<lambda>k. case map_bytes7 (v k) of Some bs \<Rightarrow> bs | None \<Rightarrow> []) [0..<n])"

text \<open>A script whose packets carry chunks of the stream; the position moves as chunks are taken.\<close>

fun honest7 :: "huff_lib \<Rightarrow> (nat \<Rightarrow> byte list) \<Rightarrow> int \<Rightarrow> nat \<Rightarrow> (int \<times> net_event) list \<Rightarrow> bool" where
  "honest7 H v a0 pos [] = True"
| "honest7 H v a0 pos ((d, ev) # rest) =
     (case ev of
        Arrive bs \<Rightarrow>
          (case parsePayload7 H (take MaxPacketSize bs) of
             Inr (hdr, Some p) \<Rightarrow>
               if f7_control (h7_flags hdr) then honest7 H v a0 pos rest
               else from_stream v a0 pos (UnpackChunks p Split7) \<and>
                 honest7 H v a0 (fold (advance a0) (UnpackChunks p Split7) pos) rest
           | _ \<Rightarrow> honest7 H v a0 pos rest)
      | _ \<Rightarrow> honest7 H v a0 pos rest)"

section \<open>The invariant\<close>

definition at_pos7 :: "(nat \<Rightarrow> byte list) \<Rightarrow> int \<Rightarrow> nat \<Rightarrow> drain \<Rightarrow> ('m, 'z) session_scheme \<Rightarrow> bool" where
  "at_pos7 v a0 pos dr s \<longleftrightarrow> s_ack s = (a0 + int pos) mod MaxSequence \<and> dr_data dr = map_stream7 v pos"

lemma stream_seq_next: "((a0 + int pos) mod MaxSequence + 1) mod MaxSequence = stream_seq a0 pos"
  by (simp add: stream_seq_def MaxSequence_def mod_simps)

lemma stream_seq_inj:
  assumes "stream_seq a0 k = stream_seq a0 pos" and "k < pos + 1024" and "pos < k + 1024"
  shows "k = pos"
proof -
  have "(a0 + int k + 1) mod 1024 = (a0 + int pos + 1) mod 1024"
    using assms(1) by (simp add: stream_seq_def MaxSequence_def)
  then have "1024 dvd ((a0 + int k + 1) - (a0 + int pos + 1))" by (simp add: mod_eq_dvd_iff)
  then have "1024 dvd (int k - int pos)" by simp
  moreover have "\<bar>int k - int pos\<bar> < 1024" using assms(2,3) by linarith
  ultimately have "int k - int pos = 0" by (meson abs_ge_zero dvd_imp_le_int not_le zdvd_not_zless dvd_abs_iff linorder_neqE_linordered_idom zero_less_abs_iff)
  then show ?thesis by simp
qed

lemma map_stream7_Suc:
  "map_stream7 v (Suc n) = map_stream7 v n @ (case map_bytes7 (v n) of Some bs \<Rightarrow> bs | None \<Rightarrow> [])"
  by (simp add: map_stream7_def)

lemma SendRaw_ack_inbox: "SendRaw p s = (r, s') \<Longrightarrow> s_ack s' = s_ack s \<and> inbox s' = inbox s"
  by (auto simp: SendRaw_def split: list.splits option.splits)

lemma SendChunks7_ack_inbox: "SendChunks7 n c s = (r, s') \<Longrightarrow> s_ack s' = s_ack s \<and> inbox s' = inbox s"
  unfolding SendChunks7_def by (rule SendRaw_ack_inbox)

lemma ResendRequest_ack_inbox:
  "dropped SendResendRequest s = (r, s') \<Longrightarrow> s_ack s' = s_ack s \<and> inbox s' = inbox s"
  by (auto simp: dropped_def SendResendRequest_def SendRaw_def split: list.splits option.splits)

lemma drain_chunk7_step:
  assumes run: "drain_chunk7 L perReq mapSize c (mm, dr) s = (Inr (mm', dr'), s')"
    and inv: "at_pos7 v a0 pos dr s" and near: "near v a0 pos c"
  shows "at_pos7 v a0 (advance a0 c pos) dr' s' \<and> inbox s' = inbox s"
proof -
  have ack: "(s_ack s + 1) mod MaxSequence = stream_seq a0 pos"
    using inv stream_seq_next by (simp add: at_pos7_def)
  show ?thesis
  proof (cases "Vital (Flags (Header c)) \<and> Seq (Header c) = stream_seq a0 pos")
    case False
    then show ?thesis using run inv ack by (auto simp: drain_chunk7_def advance_def at_pos7_def split: if_splits)
  next
    case True
    with near obtain k where "k < pos + 1024" "pos < k + 1024" "stream_seq a0 pos = stream_seq a0 k" "Data c = v k"
      by (auto simp: near_def)
    then have d: "Data c = v pos" using stream_seq_inj [of a0 k pos] by simp
    let ?s1 = "s\<lparr>s_ack := Seq (Header c)\<rparr>" and ?dr = "dr\<lparr>dr_progress := clock s\<rparr>"
    have a1: "s_ack ?s1 = (a0 + int (Suc pos)) mod MaxSequence" using True by (simp add: stream_seq_def add.commute add.left_commute)
    have adv: "advance a0 c pos = Suc pos" using True by (simp add: advance_def)
    show ?thesis
    proof (cases "map_bytes7 (v pos)")
      case None
      with run True ack d a1 adv inv show ?thesis
        by (auto simp: drain_chunk7_def at_pos7_def map_stream7_Suc Let_def)
    next
      case (Some bs)
      then have ms: "map_stream7 v (Suc pos) = dr_data dr @ bs" using inv by (simp add: at_pos7_def map_stream7_Suc)
      show ?thesis
        using run True ack d Some a1 adv
        by (auto simp: drain_chunk7_def at_pos7_def ms Let_def bnd_eq_Inr new_request7_def NextSeq_after
            dest!: SendChunks7_ack_inbox split: if_splits)
    qed
  qed
qed

lemma drain_chunks7_steps:
  assumes "drain_chunks7 L perReq mapSize cs (mm, dr) s = (Inr (mm', dr'), s')"
    and "at_pos7 v a0 pos dr s" and "from_stream v a0 pos cs"
  shows "at_pos7 v a0 (fold (advance a0) cs pos) dr' s' \<and> inbox s' = inbox s"
  using assms
proof (induction cs arbitrary: mm dr s pos)
  case Nil
  then show ?case by simp
next
  case (Cons c cs)
  obtain mm1 dr1 s1 where 1: "drain_chunk7 L perReq mapSize c (mm, dr) s = (Inr (mm1, dr1), s1)"
      "drain_chunks7 L perReq mapSize cs (mm1, dr1) s1 = (Inr (mm', dr'), s')"
    using Cons.prems(1) by (auto simp: bnd_eq_Inr)
  have "at_pos7 v a0 (advance a0 c pos) dr1 s1 \<and> inbox s1 = inbox s"
    using drain_chunk7_step [OF 1(1) Cons.prems(2)] Cons.prems(3) by simp
  with Cons.IH [OF 1(2)] Cons.prems(3) show ?case by auto
qed

lemma drain_recover7_step:
  assumes "drain_recover7 dr s = (Inr dr', s')" and "at_pos7 v a0 pos dr s"
  shows "at_pos7 v a0 pos dr' s' \<and> inbox s' = inbox s"
  using assms
  by (auto simp: drain_recover7_def at_pos7_def bnd_eq_Inr Let_def
      dest!: ResendRequest_ack_inbox SendChunks7_ack_inbox split: if_splits)

lemma drain_packet7_step:
  assumes run: "drain_packet7 L perReq mapSize hdr payload dr s = (Inr dr', s')" and inv: "at_pos7 v a0 pos dr s"
    and p: "\<And>p. payload = Some p \<Longrightarrow> \<not> f7_control (h7_flags hdr) \<Longrightarrow> from_stream v a0 pos (UnpackChunks p Split7)"
  shows "at_pos7 v a0 (case payload of None \<Rightarrow> pos | Some p \<Rightarrow>
      if f7_control (h7_flags hdr) then pos else fold (advance a0) (UnpackChunks p Split7) pos) dr' s' \<and>
    inbox s' = inbox s"
proof (cases payload)
  case None
  then show ?thesis using run inv by (simp add: drain_packet7_def)
next
  case (Some q)
  show ?thesis
  proof (cases "f7_control (h7_flags hdr)")
    case True
    then show ?thesis using run inv Some by (auto simp: drain_packet7_def split: option.splits)
  next
    case False
    obtain mm dr1 s1 where 1: "drain_chunks7 L perReq mapSize (UnpackChunks q Split7) (False, dr) s = (Inr (mm, dr1), s1)"
      and 2: "(if mm \<and> clock s1 - dr_signal dr1 \<ge> minSignalInterval then
                bnd (dropped SendResendRequest) (\<lambda>_ s2. (Inr (dr1\<lparr>dr_signal := clock s2\<rparr>), s2)) s1
              else (Inr dr1, s1)) = (Inr dr', s')"
      using run Some False by (auto simp: drain_packet7_def bnd_eq_Inr)
    note 3 = drain_chunks7_steps [OF 1 inv p [OF Some False]]
    with 2 Some False show ?thesis
      by (auto simp: at_pos7_def bnd_eq_Inr dest!: ResendRequest_ack_inbox split: if_splits)
  qed
qed

text \<open>The position after a received packet.\<close>

definition pos_after7 :: "int \<Rightarrow> nat \<Rightarrow> header7 \<Rightarrow> byte list option \<Rightarrow> nat" where
  "pos_after7 a0 pos hdr payload = (case payload of None \<Rightarrow> pos | Some p \<Rightarrow>
      if f7_control (h7_flags hdr) then pos else fold (advance a0) (UnpackChunks p Split7) pos)"

lemma honest_packet:
  assumes "recvAndParsePayload7 H s = (Inr (hdr, payload), s')" and "honest7 H v a0 pos (inbox s)"
  shows "s_ack s' = s_ack s \<and> length (inbox s) = Suc (length (inbox s')) \<and>
    honest7 H v a0 (pos_after7 a0 pos hdr payload) (inbox s') \<and>
    (\<forall>p. payload = Some p \<longrightarrow> \<not> f7_control (h7_flags hdr) \<longrightarrow> from_stream v a0 pos (UnpackChunks p Split7))"
proof -
  obtain resp where r: "RecvContext s = (Inr resp, s')" and pp: "parsePayload7 H resp = Inr (hdr, payload)"
    using assms(1) by (auto simp: recvAndParsePayload7_def bnd_eq_Inr)
  obtain d raw rest where i: "inbox s = (d, Arrive raw) # rest" "resp = take MaxPacketSize raw"
      "s' = take_event d rest s"
    using RecvContext_Inr [OF r] by blast
  then show ?thesis
    using assms(2) pp by (auto simp: take_event_def pos_after7_def split: option.splits if_splits)
qed

lemma RecvContext_gap:
  assumes "RecvContext s = (q, s')" and "ctx_err s' = None"
  shows "\<exists>d ev rest. inbox s = (d, ev) # rest \<and> s' = take_event d rest s \<and>
    (\<forall>raw. ev = Arrive raw \<longrightarrow> q = Inr (take MaxPacketSize raw))"
  using assms
  by (auto simp: RecvContext_def ctx_err_def ctx_over_def ctx_ends_def end_ctx_def take_event_def
      split: list.splits net_event.splits)

lemma honest_gap:
  assumes "recvAndParsePayload7 H s = (Inl e, s')" and "ctx_err s' = None" and "honest7 H v a0 pos (inbox s)"
  shows "s_ack s' = s_ack s \<and> length (inbox s) = Suc (length (inbox s')) \<and> honest7 H v a0 pos (inbox s')"
proof -
  obtain q where r: "RecvContext s = (q, s')" and pp: "\<forall>bs. q = Inr bs \<longrightarrow> parsePayload7 H bs = Inl e"
    using assms(1) by (auto simp: recvAndParsePayload7_def bnd_def split: prod.splits sum.splits)
  from RecvContext_gap [OF r assms(2)] obtain d ev rest where i: "inbox s = (d, ev) # rest"
    "s' = take_event d rest s" "\<forall>raw. ev = Arrive raw \<longrightarrow> q = Inr (take MaxPacketSize raw)" by blast
  have "honest7 H v a0 pos rest"
    using assms(3) i(3) pp unfolding i(1) by (auto split: net_event.splits)
  with i(1,2) show ?thesis by (simp add: take_event_def)
qed

text \<open>
  The loop: its bytes are a prefix of the map, and it stops when they are enough or when it has
  used up its safety counter, one event of the script for each unit.
\<close>

lemma drain_loop7_prefix:
  assumes "drain_loop7 H L perReq mapSize safety dr s = (Inr bs, s')"
    and "at_pos7 v a0 pos dr s" and "honest7 H v a0 pos (inbox s)"
  shows "\<exists>n. bs = map_stream7 v n \<and> s_ack s' = (a0 + int n) mod MaxSequence \<and>
    (mapSize \<le> int (length bs) \<or> safety + int (length (inbox s')) \<le> int (length (inbox s)))"
  using assms
proof (induction "nat safety" arbitrary: safety dr s pos rule: less_induct)
  case less
  show ?case
  proof (cases "int (length (dr_data dr)) < mapSize \<and> safety > 0")
    case False
    then have "bs = dr_data dr" "s' = s" using less.prems(1) by (auto simp: drain_loop7.simps)
    with False less.prems(2) show ?thesis by (auto simp: at_pos7_def)
  next
    case True
    obtain q s1 where q: "drain_recover7 dr s = (q, s1)" by fastforce
    with True less.prems(1) obtain dr1 where dr1: "q = Inr dr1"
      by (cases q) (auto simp: drain_loop7.simps [of H L perReq mapSize safety dr s])
    note 1 = drain_recover7_step [OF q [unfolded dr1] less.prems(2)]
    obtain r s2 where r: "recvAndParsePayload7 H s1 = (r, s2)" by fastforce
    have h1: "honest7 H v a0 pos (inbox s1)" using 1 less.prems(3) by simp
    have sm: "nat (safety - 1) < nat safety" using True by simp
    show ?thesis
    proof (cases r)
      case (Inl e)
      then have ce: "ctx_err s2 = None" and go: "drain_loop7 H L perReq mapSize (safety - 1) dr1 s2 = (Inr bs, s')"
        using True less.prems(1) q dr1 r
        by (auto simp: drain_loop7.simps [of H L perReq mapSize safety dr s] split: option.splits)
      note 2 = honest_gap [OF r [unfolded Inl] ce h1]
      have "at_pos7 v a0 pos dr1 s2" using 1 2 by (simp add: at_pos7_def)
      from less.hyps [OF sm go this] 2 show ?thesis using 1 by fastforce
    next
      case (Inr hp)
      obtain hdr payload where hp: "hp = (hdr, payload)" by fastforce
      obtain p s3 where p: "drain_packet7 L perReq mapSize hdr payload dr1 s2 = (p, s3)" by fastforce
      with True less.prems(1) q dr1 r Inr hp obtain dr2 where dr2: "p = Inr dr2"
        and go: "drain_loop7 H L perReq mapSize (safety - 1) dr2 s3 = (Inr bs, s')"
        by (cases p) (auto simp: drain_loop7.simps [of H L perReq mapSize safety dr s])
      note 2 = honest_packet [OF r [unfolded Inr hp] h1]
      have "at_pos7 v a0 pos dr1 s2" using 1 2 by (simp add: at_pos7_def)
      then have 3: "at_pos7 v a0 (pos_after7 a0 pos hdr payload) dr2 s3 \<and> inbox s3 = inbox s2"
        unfolding pos_after7_def using drain_packet7_step [OF p [unfolded dr2]] 2 by blast
      then have "at_pos7 v a0 (pos_after7 a0 pos hdr payload) dr2 s3"
        and "honest7 H v a0 (pos_after7 a0 pos hdr payload) (inbox s3)" using 2 by simp_all
      from less.hyps [OF sm go this] 1 2 3 show ?thesis by fastforce
    qed
  qed
qed

section \<open>A lossy download\<close>

text \<open>Two chunks of map data; the second arrives first, the first twice.\<close>

definition map_data7 :: "byte list \<Rightarrow> byte list" where
  "map_data7 bs = message_bytes wire_lib MsgSysMapData7 True [FRaw bs]"

definition data_packet7 :: "byte list \<Rightarrow> int \<Rightarrow> byte list" where
  "data_packet7 bs sq = header7_pack (session_header7 1 sample_session7) @ WrapVitalChunk7 (map_data7 bs) sq"

definition lossy_session7 :: "unit session7" where
  "lossy_session7 = sample_session7\<lparr>
     s_mapInfo := \<lparr>Name = [100], CRC = 0, MSize = 4, NumChunksPerRequest = 2, Sha256 = replicate 32 0\<rparr>,
     inbox := [(1, Arrive (data_packet7 [30, 40] 2)), (1, Arrive (data_packet7 [10, 20] 1)),
       (1, Arrive (data_packet7 [10, 20] 1)), (1, Silence), (1, Arrive (data_packet7 [30, 40] 2))]\<rparr>"

definition lossy_stream7 :: "nat \<Rightarrow> byte list" where
  "lossy_stream7 k = (if k = 0 then map_data7 [10, 20] else map_data7 [30, 40])"

lemma lossy_packet7_second:
  "parsePayload7 plain_huffman (take MaxPacketSize (data_packet7 [30, 40] 2)) =
    Inr ((session_header7 1 sample_session7), Some (WrapVitalChunk7 (map_data7 [30, 40]) 2))"
  by code_simp

lemma lossy_packet7_first:
  "parsePayload7 plain_huffman (take MaxPacketSize (data_packet7 [10, 20] 1)) =
    Inr ((session_header7 1 sample_session7), Some (WrapVitalChunk7 (map_data7 [10, 20]) 1))"
  by code_simp

lemma lossy_chunk7_second:
  "UnpackChunks (WrapVitalChunk7 (map_data7 [30, 40]) 2) Split7 = [vital_chunk (map_data7 [30, 40]) 2]"
  by code_simp

lemma lossy_chunk7_first:
  "UnpackChunks (WrapVitalChunk7 (map_data7 [10, 20]) 1) Split7 = [vital_chunk (map_data7 [10, 20]) 1]"
  by code_simp

lemmas lossy_packet7 = lossy_packet7_first lossy_packet7_second lossy_chunk7_first lossy_chunk7_second

lemma lossy_honest7: "honest7 plain_huffman lossy_stream7 0 0 (inbox lossy_session7)"
proof -
  have c: "Vital (Flags (Header (vital_chunk d q)))" "Seq (Header (vital_chunk d q)) = q" "Data (vital_chunk d q) = d" for d q
    by (simp_all add: vital_chunk_def)
  have near: "near lossy_stream7 0 pos (vital_chunk (map_data7 [10, 20]) 1)"
    "near lossy_stream7 0 pos (vital_chunk (map_data7 [30, 40]) 2)" if "pos \<le> 2" for pos
    unfolding near_def c stream_seq_def lossy_stream7_def MaxSequence_def
    by (intro impI exI [of _ 0]; use that in simp) (intro impI exI [of _ 1]; use that in simp)
  have adv: "advance 0 (vital_chunk (map_data7 [10, 20]) 1) pos = (if pos = 0 then 1 else pos)"
    "advance 0 (vital_chunk (map_data7 [30, 40]) 2) pos = (if pos = 1 then 2 else pos)" if "pos \<le> 2" for pos
    using that by (auto simp: advance_def c stream_seq_def MaxSequence_def)
  have h: "\<not> f7_control (h7_flags (session_header7 1 sample_session7))"
    by (simp add: session_header7_def no_flags7_def)
  show ?thesis
    by (simp add: lossy_session7_def lossy_packet7 near adv h)
qed

section \<open>Properties\<close>

text \<open>
  C19: The login download of protocol 0.7 reassembles the map. Against a server whose vital messages
  form a stream, whatever the network drops, duplicates and reorders: when \<open>drainMapForLogin\<close>
  succeeds, the stored bytes are the map data of the first n messages of the stream, each once and
  in order, the session acknowledges exactly these, and the bytes reach the announced size unless
  the safety counter (twice the size plus 4096 receives) is used up.
\<close>

theorem drain_reassembles_map7:
  assumes "drainMapForLogin7 H L s = (Inr (), s')"
    and "Name (s_mapInfo s) \<noteq> []" and "0 < MSize (s_mapInfo s)"
    and "s_ack s \<in> {0..<MaxSequence}" and "honest7 H v (s_ack s) 0 (inbox s)"
  shows "\<exists>n. s7_loginMapData s' = map_stream7 v n \<and> s_ack s' = (s_ack s + int n) mod MaxSequence \<and>
    (MSize (s_mapInfo s) \<le> int (length (s7_loginMapData s')) \<or>
     2 * MSize (s_mapInfo s) + 4096 + int (length (inbox s')) \<le> int (length (inbox s)))"
proof -
  let ?info = "s_mapInfo s"
  let ?perReq = "if NumChunksPerRequest ?info \<le> 0 then 1 else NumChunksPerRequest ?info"
  obtain req s1 bs s2 where s1: "s_ack s1 = s_ack s" "inbox s1 = inbox s"
    and loop: "drain_loop7 H L ?perReq (MSize ?info) (MSize ?info * 2 + 4096)
       \<lparr>dr_data = [], dr_count = 0, dr_req = req, dr_progress = clock s1,
        dr_signal = clock s1, dr_request = clock s1\<rparr> s1 = (Inr bs, s2)"
    and s': "s' = s2\<lparr>s7_loginMapData := bs\<rparr>"
    using assms(1-3)
    by (auto simp: drainMapForLogin7_def Let_def bnd_eq_Inr new_request7_def NextSeq_after dest!: SendChunks7_ack_inbox)
  have "at_pos7 v (s_ack s) 0 \<lparr>dr_data = [], dr_count = 0, dr_req = req, dr_progress = clock s1,
        dr_signal = clock s1, dr_request = clock s1\<rparr> s1"
    using assms(4) s1 by (simp add: at_pos7_def map_stream7_def)
  from drain_loop7_prefix [OF loop this] assms(5) s1 show ?thesis by (auto simp: s' mult.commute)
qed

theorem drain_reassembles_map7_witness:
  "s7_loginMapData (snd (drainMapForLogin7 plain_huffman wire_lib lossy_session7)) = [10, 20, 30, 40] \<and>
   (\<exists>n. s7_loginMapData (snd (drainMapForLogin7 plain_huffman wire_lib lossy_session7)) = map_stream7 lossy_stream7 n)"
proof -
  let ?s' = "snd (drainMapForLogin7 plain_huffman wire_lib lossy_session7)"
  have f: "fst (drainMapForLogin7 plain_huffman wire_lib lossy_session7) = Inr ()"
    and d: "s7_loginMapData ?s' = [10, 20, 30, 40]" by code_simp+
  from f have "drainMapForLogin7 plain_huffman wire_lib lossy_session7 = (Inr (), ?s')"
    by (metis prod.collapse)
  moreover have "s_ack lossy_session7 = 0" by (simp add: lossy_session7_def sample_session7_def)
  ultimately have "\<exists>n. s7_loginMapData ?s' = map_stream7 lossy_stream7 n"
    using drain_reassembles_map7 [of plain_huffman wire_lib lossy_session7 ?s' lossy_stream7] lossy_honest7
    by (auto simp: lossy_session7_def MaxSequence_def)
  with d show ?thesis by blast
qed

end
