(* ===== verification/MapCache.thy ===== *)
theory MapCache
  imports Session
begin

text \<open>
  packet/mapcache.go: the cache of parsed maps that sessions share, and the protocol its users
  follow (net6 and net7 DownloadMap, net7 SetMap): who asks first downloads, the others wait on a
  channel until the map is stored or the download failed. Each method body runs under the mutex, so
  the steps of the goroutines are the methods, with the wait split in two; a channel is a number,
  closed or not.
\<close>

section \<open>The cache\<close>

definition hex_digit :: "nat \<Rightarrow> byte" where
  "hex_digit n = byte_of (int (if n < 10 then 48 + n else 87 + n))"

definition hex_string :: "byte list \<Rightarrow> byte list" where
  "hex_string bs = concat (map (\<lambda>b. [hex_digit (unat b div 16), hex_digit (unat b mod 16)]) bs)"

definition mapCacheKey :: "byte list \<Rightarrow> byte list \<Rightarrow> byte list" where
  "mapCacheKey name sha256 = name @ bytes_of '':'' @ hex_string sha256"

record 'm map_cache =
  mc_maps :: "byte list \<rightharpoonup> 'm"
  mc_pending :: "byte list \<rightharpoonup> nat"
  mc_next :: nat
  mc_closed :: "nat list"

definition NewMapCache :: "'m map_cache" where
  "NewMapCache = \<lparr>mc_maps = Map.empty, mc_pending = Map.empty, mc_next = 0, mc_closed = []\<rparr>"

definition GetCached :: "byte list \<Rightarrow> 'm map_cache \<Rightarrow> 'm option" where
  "GetCached key c = mc_maps c key"

datatype 'm lookup = Hit 'm | Wait nat | Owner

definition GetOrWait :: "byte list \<Rightarrow> 'm map_cache \<Rightarrow> 'm lookup \<times> 'm map_cache" where
  "GetOrWait key c =
     (case mc_maps c key of
        Some m \<Rightarrow> (Hit m, c)
      | None \<Rightarrow>
          (case mc_pending c key of
             Some ch \<Rightarrow> (Wait ch, c)
           | None \<Rightarrow> (Owner, c\<lparr>mc_pending := (mc_pending c)(key \<mapsto> mc_next c), mc_next := Suc (mc_next c)\<rparr>)))"

text \<open>Behind the wait: the map, if there is one now.\<close>

definition after_wait :: "byte list \<Rightarrow> 'm map_cache \<Rightarrow> 'm option" where
  "after_wait key c = mc_maps c key"

definition close_pending :: "byte list \<Rightarrow> 'm map_cache \<Rightarrow> 'm map_cache" where
  "close_pending key c =
     c\<lparr>mc_pending := (mc_pending c)(key := None),
       mc_closed := (case mc_pending c key of Some ch \<Rightarrow> ch # mc_closed c | None \<Rightarrow> mc_closed c)\<rparr>"

definition PutMap :: "byte list \<Rightarrow> 'm \<Rightarrow> 'm map_cache \<Rightarrow> 'm map_cache" where
  "PutMap key m c = close_pending key (c\<lparr>mc_maps := (mc_maps c)(key \<mapsto> m)\<rparr>)"

definition PutFailed :: "byte list \<Rightarrow> 'm map_cache \<Rightarrow> 'm map_cache" where
  "PutFailed key c = close_pending key c"

text \<open>\<open>ParseAndPut\<close>: twmap's parser is a parameter.\<close>

definition ParseAndPut ::
    "(byte list \<Rightarrow> goerr + 'm) \<Rightarrow> byte list \<Rightarrow> byte list \<Rightarrow> ('m map_cache, 'm) gost" where
  "ParseAndPut parse key d c =
     (case parse d of
        Inl e \<Rightarrow> (Inl e, PutFailed key c)
      | Inr m \<Rightarrow> (Inr m, PutMap key m c))"

section \<open>Keys\<close>

lemma length_hex_string: "length (hex_string bs) = 2 * length bs"
  by (induction bs) (simp_all add: hex_string_def)

lemma hex_digit_inj: "a < 16 \<Longrightarrow> b < 16 \<Longrightarrow> hex_digit a = hex_digit b \<Longrightarrow> a = b"
proof -
  assume ab: "a < 16" "b < 16" and eq: "hex_digit a = hex_digit b"
  have u: "uint (hex_digit n) = int (if n < 10 then 48 + n else 87 + n)" if "n < 16" for n
    using that by (simp add: hex_digit_def)
  from eq u [OF ab(1)] u [OF ab(2)] have
    "int (if a < 10 then 48 + a else 87 + a) = int (if b < 10 then 48 + b else 87 + b)" by simp
  with ab show "a = b" by (simp split: if_splits)
qed

lemma hex_string_inj: "hex_string xs = hex_string ys \<Longrightarrow> xs = ys"
proof (induction xs arbitrary: ys)
  case Nil
  then show ?case by (cases ys) (simp_all add: hex_string_def)
next
  case (Cons x xs)
  then obtain y ys' where ys: "ys = y # ys'" by (cases ys) (simp_all add: hex_string_def)
  have "hex_digit (unat x div 16) = hex_digit (unat y div 16)" "hex_digit (unat x mod 16) = hex_digit (unat y mod 16)"
    and rest: "hex_string xs = hex_string ys'"
    using Cons.prems by (simp_all add: ys hex_string_def)
  then have "unat x div 16 = unat y div 16" "unat x mod 16 = unat y mod 16"
    using unsigned_less [of x, where 'a = nat] unsigned_less [of y, where 'a = nat]
    by (auto intro!: hex_digit_inj)
  then have "unat x = unat y" by (metis mod_mult_div_eq)
  then have "x = y" by (simp add: word_unat_eq_iff)
  with Cons.IH [OF rest] ys show ?case by simp
qed

text \<open>Two maps share a key only if they have the same name and the same digest.\<close>

lemma mapCacheKey_inj:
  assumes "length s = 32" and "length s' = 32" and "mapCacheKey n s = mapCacheKey n' s'"
  shows "n = n' \<and> s = s'"
proof -
  have "length (hex_string s) = length (hex_string s')" using assms(1,2) by (simp add: length_hex_string)
  then have "n = n'" "hex_string s = hex_string s'" using assms(3) by (auto simp: mapCacheKey_def)
  then show ?thesis by (simp add: hex_string_inj)
qed

section \<open>Goroutines\<close>

text \<open>
  What a user of the cache is doing about a key. \<open>use\<close> is one step of goroutine \<open>i\<close>; the flag \<open>fail_ok\<close>
  allows downloads to fail.
\<close>

datatype 'm worker =
    Resting
  | Waiting "byte list" nat
  | Fetching "byte list"
  | Finished "'m option"

type_synonym 'm world = "'m map_cache \<times> (nat \<Rightarrow> 'm worker)"

inductive use :: "bool \<Rightarrow> 'm world \<Rightarrow> 'm world \<Rightarrow> bool" for fail_ok where
  ask_hit: "w i = Resting \<Longrightarrow> GetOrWait k c = (Hit m, c') \<Longrightarrow> use fail_ok (c, w) (c', w(i := Finished (Some m)))"
| ask_wait: "w i = Resting \<Longrightarrow> GetOrWait k c = (Wait ch, c') \<Longrightarrow> use fail_ok (c, w) (c', w(i := Waiting k ch))"
| ask_own: "w i = Resting \<Longrightarrow> GetOrWait k c = (Owner, c') \<Longrightarrow> use fail_ok (c, w) (c', w(i := Fetching k))"
| woken_hit: "w i = Waiting k ch \<Longrightarrow> ch \<in> set (mc_closed c) \<Longrightarrow> after_wait k c = Some m \<Longrightarrow>
    use fail_ok (c, w) (c, w(i := Finished (Some m)))"
| woken_miss: "w i = Waiting k ch \<Longrightarrow> ch \<in> set (mc_closed c) \<Longrightarrow> after_wait k c = None \<Longrightarrow>
    use fail_ok (c, w) (c, w(i := Fetching k))"
| fetched: "w i = Fetching k \<Longrightarrow> use fail_ok (c, w) (PutMap k m c, w(i := Finished (Some m)))"
| failed: "w i = Fetching k \<Longrightarrow> fail_ok \<Longrightarrow> use fail_ok (c, w) (PutFailed k c, w(i := Finished None))"
| set_map: "use fail_ok (c, w) (PutMap k m c, w)"

text \<open>
  The invariant: channels are allocated once, an open channel that somebody waits on is pending for
  its key, and a pending channel has a downloader who will close it.
\<close>

definition sound_cache :: "'m map_cache \<Rightarrow> bool" where
  "sound_cache c \<longleftrightarrow>
     (\<forall>k ch. mc_pending c k = Some ch \<longrightarrow> ch < mc_next c \<and> ch \<notin> set (mc_closed c)) \<and>
     (\<forall>k k' ch. mc_pending c k = Some ch \<longrightarrow> mc_pending c k' = Some ch \<longrightarrow> k' = k) \<and>
     (\<forall>ch \<in> set (mc_closed c). ch < mc_next c)"

definition served :: "'m world \<Rightarrow> bool" where
  "served W \<longleftrightarrow> (\<forall>k ch. mc_pending (fst W) k = Some ch \<longrightarrow> (\<exists>i. snd W i = Fetching k))"

definition watched :: "'m world \<Rightarrow> bool" where
  "watched W \<longleftrightarrow> (\<forall>i k ch. snd W i = Waiting k ch \<longrightarrow> ch < mc_next (fst W) \<and>
     (ch \<notin> set (mc_closed (fst W)) \<longrightarrow> mc_pending (fst W) k = Some ch))"

definition sound_world :: "'m world \<Rightarrow> bool" where
  "sound_world W \<longleftrightarrow> sound_cache (fst W) \<and> served W \<and> watched W"

lemma sound_start: "sound_world (NewMapCache, \<lambda>i. Resting)"
  by (simp add: sound_world_def sound_cache_def served_def watched_def NewMapCache_def)

text \<open>Opening a channel, closing one.\<close>

definition open_pending :: "byte list \<Rightarrow> 'm map_cache \<Rightarrow> 'm map_cache" where
  "open_pending k c = c\<lparr>mc_pending := (mc_pending c)(k \<mapsto> mc_next c), mc_next := Suc (mc_next c)\<rparr>"

lemma GetOrWait_cases:
  "GetOrWait k c = (r, c') \<Longrightarrow>
    (case r of Hit m \<Rightarrow> mc_maps c k = Some m \<and> c' = c
     | Wait ch \<Rightarrow> mc_maps c k = None \<and> mc_pending c k = Some ch \<and> c' = c
     | Owner \<Rightarrow> mc_maps c k = None \<and> mc_pending c k = None \<and> c' = open_pending k c)"
  by (auto simp: GetOrWait_def open_pending_def split: option.splits)

lemma sound_open: "sound_cache c \<Longrightarrow> sound_cache (open_pending k c)"
  by (auto simp: sound_cache_def open_pending_def less_Suc_eq)

lemma sound_close: "sound_cache c \<Longrightarrow> sound_cache (close_pending k (c\<lparr>mc_maps := M\<rparr>))"
  by (auto simp: sound_cache_def close_pending_def split: option.splits if_splits)

lemma served_same:
  assumes "served (c, w)" and "\<And>j k'. w j = Fetching k' \<Longrightarrow> w' j = Fetching k'"
  shows "served (c, w')"
  using assms unfolding served_def by (metis fst_conv snd_conv)

lemma served_close:
  assumes "served (c, w)" and "\<And>j k'. w j = Fetching k' \<Longrightarrow> k' \<noteq> k \<Longrightarrow> w' j = Fetching k'"
  shows "served (close_pending k (c\<lparr>mc_maps := M\<rparr>), w')"
proof -
  have "\<exists>i. w' i = Fetching k'" if "k' \<noteq> k" "mc_pending c k' = Some ch" for k' ch
    using assms that unfolding served_def by (metis fst_conv snd_conv)
  then show ?thesis by (fastforce simp: served_def close_pending_def)
qed

lemma watched_same:
  assumes "watched (c, w)"
    and "\<And>j k' ch. w' j = Waiting k' ch \<Longrightarrow> w j = Waiting k' ch \<or> (ch < mc_next c \<and> mc_pending c k' = Some ch)"
  shows "watched (c, w')"
  using assms unfolding watched_def by (metis fst_conv snd_conv)

lemma watched_close:
  assumes "watched (c, w)" and "\<And>j k' ch. w' j = Waiting k' ch \<Longrightarrow> w j = Waiting k' ch"
  shows "watched (close_pending k (c\<lparr>mc_maps := M\<rparr>), w')"
proof -
  have "ch < mc_next c \<and> (ch \<notin> set (mc_closed c) \<longrightarrow> mc_pending c k' = Some ch)"
    if "w' j = Waiting k' ch" for j k' ch
    using assms(1) assms(2) [OF that] by (simp add: watched_def)
  then show ?thesis by (fastforce simp: watched_def close_pending_def split: option.splits)
qed

lemma watched_open:
  assumes "watched (c, w)" and "mc_pending c k = None" and "\<And>j k' ch. w' j = Waiting k' ch \<Longrightarrow> w j = Waiting k' ch"
  shows "watched (open_pending k c, w')"
proof -
  have "ch < mc_next c \<and> (ch \<notin> set (mc_closed c) \<longrightarrow> mc_pending c k' = Some ch)"
    if "w' j = Waiting k' ch" for j k' ch
    using assms(1) assms(3) [OF that] by (simp add: watched_def)
  with assms(2) show ?thesis by (fastforce simp: watched_def open_pending_def)
qed

lemma served_open:
  assumes "served (c, w)" and "\<And>j k'. w j = Fetching k' \<Longrightarrow> w' j = Fetching k'" and "w' i = Fetching k"
  shows "served (open_pending k c, w')"
proof -
  have "\<exists>i. w' i = Fetching k'" if "mc_pending c k' = Some ch" for k' ch
    using assms(1,2) that unfolding served_def by (metis fst_conv snd_conv)
  with assms(3) show ?thesis by (auto simp: served_def open_pending_def)
qed

lemma PutMap_close: "PutMap k m c = close_pending k (c\<lparr>mc_maps := (mc_maps c)(k \<mapsto> m)\<rparr>)"
  and PutFailed_close: "PutFailed k c = close_pending k (c\<lparr>mc_maps := mc_maps c\<rparr>)"
  by (simp_all add: PutMap_def PutFailed_def)

lemma sound_use:
  assumes "use f W W'" and "sound_world W"
  shows "sound_world W'"
  using assms(1)
proof cases
  case (ask_hit w i k c m c')
  with assms(2) GetOrWait_cases [OF ask_hit(4)] show ?thesis
    by (auto simp: sound_world_def intro!: served_same [of c w] watched_same [of c w] split: if_splits)
next
  case (ask_wait w i k c ch c')
  then have c': "c' = c" "mc_pending c k = Some ch" using GetOrWait_cases [OF ask_wait(4)] by simp_all
  have "ch < mc_next c" using assms(2) ask_wait(1) c'(2) by (simp add: sound_world_def sound_cache_def)
  with ask_wait c' assms(2) show ?thesis
    by (auto simp: sound_world_def intro!: served_same [of c w] watched_same [of c w] split: if_splits)
next
  case (ask_own w i k c c')
  then have c': "c' = open_pending k c" "mc_pending c k = None" using GetOrWait_cases [OF ask_own(4)] by simp_all
  with ask_own assms(2) show ?thesis
    by (auto simp: sound_world_def intro!: sound_open served_open [of c w _ i] watched_open [of c w] split: if_splits)
next
  case (woken_hit w i k ch c m)
  with assms(2) show ?thesis
    by (auto simp: sound_world_def intro!: served_same [of c w] watched_same [of c w] split: if_splits)
next
  case (woken_miss w i k ch c)
  with assms(2) show ?thesis
    by (auto simp: sound_world_def intro!: served_same [of c w] watched_same [of c w] split: if_splits)
next
  case (fetched w i k c m)
  with assms(2) show ?thesis
    by (auto simp: sound_world_def PutMap_close intro!: sound_close served_close [of c w] watched_close [of c w] split: if_splits)
next
  case (failed w i k c)
  have p: "(w(i := Finished None)) j = Fetching k'" if "w j = Fetching k'" "k' \<noteq> k" for j k'
    using failed(3) that by auto
  have "sound_cache (close_pending k (c\<lparr>mc_maps := mc_maps c\<rparr>))"
    using assms(2) failed(1) by (intro sound_close) (simp add: sound_world_def)
  moreover have "served (close_pending k (c\<lparr>mc_maps := mc_maps c\<rparr>), w(i := Finished None))"
    using assms(2) failed(1) by (intro served_close [of c w] p) (simp_all add: sound_world_def)
  moreover have "watched (close_pending k (c\<lparr>mc_maps := mc_maps c\<rparr>), w(i := Finished None))"
    using assms(2) failed(1) by (intro watched_close [of c w]) (auto simp: sound_world_def split: if_splits)
  ultimately show ?thesis unfolding failed(2) sound_world_def by (simp add: PutFailed_def)
next
  case (set_map c w k m)
  with assms(2) show ?thesis
    by (auto simp: sound_world_def PutMap_close intro!: sound_close served_close [of c w] watched_close [of c w])
qed


text \<open>Without failures: a downloader is registered, or its map is stored already; there is one per key.\<close>

definition one_each :: "'m world \<Rightarrow> bool" where
  "one_each W \<longleftrightarrow> (\<forall>k i j. snd W i = Fetching k \<longrightarrow> snd W j = Fetching k \<longrightarrow> i = j) \<and>
     (\<forall>k i. snd W i = Fetching k \<longrightarrow> mc_pending (fst W) k \<noteq> None \<or> mc_maps (fst W) k \<noteq> None) \<and>
     (\<forall>k i ch. snd W i = Waiting k ch \<longrightarrow> ch \<in> set (mc_closed (fst W)) \<longrightarrow> mc_maps (fst W) k \<noteq> None) \<and>
     (\<forall>k ch. mc_pending (fst W) k = Some ch \<longrightarrow> mc_maps (fst W) k = None)"


lemma one_start: "one_each (NewMapCache, \<lambda>i. Resting)"
  by (simp add: one_each_def NewMapCache_def)

lemma one_put:
  assumes "one_each (c, w)" and "sound_world (c, w)"
    and "\<And>j k'. w' j = Fetching k' \<Longrightarrow> w j = Fetching k'" and "\<And>j k' ch. w' j = Waiting k' ch \<Longrightarrow> w j = Waiting k' ch"
  shows "one_each (PutMap k m c, w')"
proof -
  have closed: "mc_maps (PutMap k m c) k' \<noteq> None"
    if "w' j = Waiting k' ch" "ch \<in> set (mc_closed (PutMap k m c))" for j k' ch
  proof (cases "ch \<in> set (mc_closed c)")
    case True
    then have "mc_maps c k' \<noteq> None" using assms(1) assms(4) [OF that(1)] by (auto simp: one_each_def)
    then show ?thesis by (simp add: PutMap_def close_pending_def)
  next
    case False
    then have "mc_pending c k = Some ch" using that(2) by (auto simp: PutMap_def close_pending_def split: option.splits)
    moreover have "mc_pending c k' = Some ch"
      using assms(2) assms(4) [OF that(1)] False by (auto simp: sound_world_def watched_def)
    ultimately have "k' = k" using assms(2) by (auto simp: sound_world_def sound_cache_def)
    then show ?thesis by (simp add: PutMap_def close_pending_def)
  qed
  have "mc_pending (PutMap k m c) k' \<noteq> None \<or> mc_maps (PutMap k m c) k' \<noteq> None" if "w' j = Fetching k'" for j k'
    using assms(1) assms(3) [OF that] by (auto simp: one_each_def PutMap_def close_pending_def)
  moreover have "i = j" if "w' i = Fetching k'" "w' j = Fetching k'" for i j k'
    using assms(1) assms(3) [OF that(1)] assms(3) [OF that(2)] by (simp add: one_each_def)
  moreover have "mc_maps (PutMap k m c) k' = None" if "mc_pending (PutMap k m c) k' = Some ch" for k' ch
    using assms(1) that by (auto simp: one_each_def PutMap_def close_pending_def split: if_splits)
  ultimately show ?thesis using closed unfolding one_each_def by (simp only: fst_conv snd_conv) blast
qed

lemma one_same:
  assumes "one_each (c, w)" and "\<And>j k'. w' j = Fetching k' \<Longrightarrow> w j = Fetching k'"
    and "\<And>j k' ch. w' j = Waiting k' ch \<Longrightarrow> w j = Waiting k' ch \<or> ch \<notin> set (mc_closed c)"
  shows "one_each (c, w')"
proof -
  have "i = j" if "w' i = Fetching k" "w' j = Fetching k" for i j k
    using assms(1) assms(2) [OF that(1)] assms(2) [OF that(2)] by (simp add: one_each_def)
  moreover have "mc_pending c k \<noteq> None \<or> mc_maps c k \<noteq> None" if "w' i = Fetching k" for i k
    using assms(1) assms(2) [OF that] unfolding one_each_def fst_conv snd_conv by blast
  moreover have "mc_maps c k \<noteq> None" if "w' i = Waiting k ch" "ch \<in> set (mc_closed c)" for i k ch
    using assms(1) assms(3) [OF that(1)] that(2) by (auto simp: one_each_def)
  moreover have "mc_maps c k = None" if "mc_pending c k = Some ch" for k ch
    using assms(1) that by (simp add: one_each_def)
  ultimately show ?thesis unfolding one_each_def by (simp only: fst_conv snd_conv) blast
qed

lemma one_use:
  assumes "use False W W'" and "one_each W" and "sound_world W"
  shows "one_each W'"
  using assms(1)
proof cases
  case (ask_hit w i k c m c')
  with assms(2) GetOrWait_cases [OF ask_hit(4)] show ?thesis
    by (auto intro!: one_same [of c w] split: if_splits)
next
  case (ask_wait w i k c ch c')
  then have c': "c' = c" "mc_pending c k = Some ch" using GetOrWait_cases [OF ask_wait(4)] by simp_all
  then have "ch \<notin> set (mc_closed c)" using assms(3) ask_wait(1) by (simp add: sound_world_def sound_cache_def)
  with ask_wait c' assms(2) show ?thesis by (auto intro!: one_same [of c w] split: if_splits)
next
  case (ask_own w i k c c')
  then have c': "c' = open_pending k c" "mc_maps c k = None" "mc_pending c k = None"
    using GetOrWait_cases [OF ask_own(4)] by simp_all
  have none: "w j \<noteq> Fetching k" for j using assms(2) ask_own(1) c'(2,3) by (auto simp: one_each_def)
  have old: "w j = Waiting k' ch \<Longrightarrow> ch \<in> set (mc_closed c) \<Longrightarrow> mc_maps c k' \<noteq> None"
    "w i = Fetching k' \<Longrightarrow> w j = Fetching k' \<Longrightarrow> i = j"
    "w j = Fetching k' \<Longrightarrow> mc_pending c k' \<noteq> None \<or> mc_maps c k' \<noteq> None"
    "mc_pending c k' = Some ch \<Longrightarrow> mc_maps c k' = None" for i j k' ch
    using assms(2) ask_own(1) by (auto simp: one_each_def)
  let ?w = "w(i := Fetching k)" and ?c = "open_pending k c"
  have a: "x = y" if "?w x = Fetching k'" "?w y = Fetching k'" for x y k'
    using none [of x] none [of y] old(2) [of x k' y] that by (auto split: if_splits)
  have b: "mc_pending ?c k' \<noteq> None \<or> mc_maps ?c k' \<noteq> None" if "?w x = Fetching k'" for x k'
    using old(3) [of x k'] that by (cases "x = i") (simp_all add: open_pending_def)
  have d: "mc_maps ?c k' \<noteq> None" if "?w x = Waiting k' ch" "ch \<in> set (mc_closed ?c)" for x k' ch
    using old(1) [of x k' ch] that by (simp add: open_pending_def split: if_splits)
  have e: "mc_maps ?c k' = None" if "mc_pending ?c k' = Some ch" for k' ch
    using old(4) [of k' ch] c'(2) that by (simp add: open_pending_def split: if_splits)
  show ?thesis unfolding ask_own(2) c'(1) one_each_def fst_conv snd_conv using a b d e by blast
next
  case (woken_hit w i k ch c m)
  with assms(2) show ?thesis by (auto intro!: one_same [of c w] split: if_splits)
next
  case (woken_miss w i k ch c)
  then have "mc_maps c k \<noteq> None" using assms(2) unfolding one_each_def woken_miss(1) fst_conv snd_conv by blast
  with woken_miss show ?thesis by (simp add: after_wait_def)
next
  case (fetched w i k c m)
  with assms(2,3) show ?thesis by (auto intro!: one_put [of c w] split: if_splits)
next
  case (set_map c w k m)
  with assms(2,3) show ?thesis by (auto intro!: one_put [of c w])
qed simp

lemma sound_run: "(use f)\<^sup>*\<^sup>* W W' \<Longrightarrow> sound_world W \<Longrightarrow> sound_world W'"
  by (induction rule: rtranclp_induct) (blast intro: sound_use)+

lemma one_run:
  "(use False)\<^sup>*\<^sup>* W W' \<Longrightarrow> one_each W \<Longrightarrow> sound_world W \<Longrightarrow> one_each W'"
proof (induction rule: rtranclp_induct)
  case (step V V')
  then show ?case using sound_run [OF step.hyps(1)] by (blast intro: one_use)
qed

section \<open>Properties\<close>

text \<open>
  C22: No waiter is forgotten. However any number of goroutines use the cache, downloads failing or
  not: when a goroutine waits on a channel that is not closed yet, the channel is the pending one of
  its key and some goroutine is downloading that key, whose end closes it.
\<close>

theorem no_waiter_forgotten:
  assumes "(use True)\<^sup>*\<^sup>* (NewMapCache, \<lambda>i. Resting) (c, w)"
    and "w i = Waiting k ch" and "ch \<notin> set (mc_closed c)"
  shows "mc_pending c k = Some ch \<and> (\<exists>j. w j = Fetching k) \<and>
    ch \<in> set (mc_closed (PutMap k m c)) \<and> ch \<in> set (mc_closed (PutFailed k c))"
proof -
  have "sound_world (c, w)" using sound_run [OF assms(1)] sound_start by blast
  then have "mc_pending c k = Some ch" "\<exists>j. w j = Fetching k"
    using assms(2,3) by (auto simp: sound_world_def watched_def served_def)
  then show ?thesis by (simp add: PutMap_def PutFailed_def close_pending_def)
qed

lemma two_users:
  "(use f)\<^sup>*\<^sup>* (NewMapCache, \<lambda>i. Resting)
    (open_pending [1] NewMapCache, (\<lambda>i. Resting)(0 := Fetching [1], 1 := Waiting [1] 0))"
proof (rule rtranclp_trans)
  show "(use f)\<^sup>*\<^sup>* (NewMapCache, \<lambda>i. Resting) (open_pending [1] NewMapCache, (\<lambda>i. Resting)(0 := Fetching [1]))"
    by (rule r_into_rtranclp, rule ask_own) (simp_all add: GetOrWait_def NewMapCache_def open_pending_def)
  show "(use f)\<^sup>*\<^sup>* (open_pending [1] NewMapCache, (\<lambda>i. Resting)(0 := Fetching [1]))
    (open_pending [1] NewMapCache, (\<lambda>i. Resting)(0 := Fetching [1], 1 := Waiting [1] 0))"
    by (rule r_into_rtranclp, rule ask_wait) (simp_all add: GetOrWait_def NewMapCache_def open_pending_def)
qed

theorem no_waiter_forgotten_witness:
  "(0::nat) \<in> set (mc_closed (PutFailed [1] (open_pending [1] (NewMapCache :: unit map_cache))))"
  using no_waiter_forgotten [OF two_users, where i = 1 and k = "[1]" and ch = 0 and m = "()"]
  by (simp add: open_pending_def NewMapCache_def)

text \<open>
  C23: As long as no download fails, every map is downloaded by one goroutine at a time and no waiter
  comes away without the map.
\<close>

theorem single_downloader:
  assumes "(use False)\<^sup>*\<^sup>* (NewMapCache, \<lambda>i. Resting) (c, w)"
  shows "(w i = Fetching k \<longrightarrow> w j = Fetching k \<longrightarrow> i = j) \<and>
    (w i = Waiting k ch \<longrightarrow> ch \<in> set (mc_closed c) \<longrightarrow> after_wait k c \<noteq> None)"
proof -
  have "one_each (c, w)" using one_run [OF assms one_start sound_start] .
  then show ?thesis by (simp add: one_each_def after_wait_def)
qed

theorem single_downloader_witness:
  "((\<lambda>i. Resting)(0 := Fetching [1], 1 := Waiting [1] 0) :: nat \<Rightarrow> unit worker) 1 \<noteq> Fetching [1]"
  using single_downloader [OF two_users, of 0 "[1]" 1] by simp

text \<open>After a failure the waiters all take themselves for the downloader, and none is registered.\<close>

lemma failure_wakes_many:
  assumes "w i = Fetching k" and "w j = Waiting k ch" and "w l = Waiting k ch" and "j \<noteq> l"
    and "mc_pending c k = Some ch" and "mc_maps c k = None"
  shows "\<exists>c'. (use True)\<^sup>*\<^sup>* (c, w) (c', w(i := Finished None, j := Fetching k, l := Fetching k)) \<and> mc_pending c' k = None"
proof -
  let ?c = "PutFailed k c"
  have c: "ch \<in> set (mc_closed ?c)" "mc_maps ?c k = None" "mc_pending ?c k = None"
    using assms(5,6) by (simp_all add: PutFailed_def close_pending_def)
  have n: "i \<noteq> j" "i \<noteq> l" using assms(1-3) by auto
  have "use True (c, w) (?c, w(i := Finished None))" using assms(1) by (rule failed) simp
  moreover have "use True (?c, w(i := Finished None)) (?c, w(i := Finished None, j := Fetching k))"
    using assms(2) n c by (intro woken_miss [where ch = ch]) (auto simp: after_wait_def)
  moreover have "use True (?c, w(i := Finished None, j := Fetching k)) (?c, w(i := Finished None, j := Fetching k, l := Fetching k))"
    using assms(3,4) n c by (intro woken_miss [where ch = ch]) (auto simp: after_wait_def)
  ultimately have "(use True)\<^sup>*\<^sup>* (c, w) (?c, w(i := Finished None, j := Fetching k, l := Fetching k))"
    by (meson converse_rtranclp_into_rtranclp rtranclp.rtrancl_refl)
  with c(3) show ?thesis by blast
qed

end
