(* ===== verification/MapDownload.thy ===== *)
theory MapDownload
  imports Drain MapCache
begin

text \<open>
  The map downloads of net6/session.go, net6/maphttp.go and net7/session.go: from the shared cache,
  over HTTP (0.6), over the connection. The state is a session and the cache, if one is shared. Parameters: twmap's
  parser \<open>parse\<close>; \<open>wake\<close>, what the other goroutines do to the cache while this one waits on a
  channel; the web server's replies. The progress callback is left out.
\<close>

type_synonym ('m, 's, 'a) mapst = "('s \<times> 'm map_cache option, 'a) gost"

section \<open>The cache in front\<close>

definition cache_key :: "map_info \<Rightarrow> byte list" where
  "cache_key info = mapCacheKey (Name info) (Sha256 info)"

text \<open>The map, if the cache has it now or after the wait.\<close>

definition cache_lookup ::
    "(nat \<Rightarrow> 'm map_cache \<Rightarrow> 'm map_cache) \<Rightarrow> byte list \<Rightarrow> 'm map_cache option \<Rightarrow>
     'm option \<times> 'm map_cache option" where
  "cache_lookup wake key cache =
     (case cache of
        None \<Rightarrow> (None, None)
      | Some c \<Rightarrow>
          (case GetOrWait key c of
             (Hit m, c1) \<Rightarrow> (Some m, Some c1)
           | (Wait ch, c1) \<Rightarrow> (let c2 = wake ch c1 in (after_wait key c2, Some c2))
           | (Owner, c1) \<Rightarrow> (None, Some c1)))"

text \<open>The parse and the cache's copy.\<close>

definition parse_map ::
    "(byte list \<Rightarrow> goerr + 'm) \<Rightarrow> byte list \<Rightarrow> byte list \<Rightarrow> ('m map_cache option, 'm) gost" where
  "parse_map parse key d cache =
     (case cache of
        None \<Rightarrow> (parse d, None)
      | Some c \<Rightarrow> (let (r, c1) = ParseAndPut parse key d c in (r, Some c1)))"

definition give_up :: "byte list \<Rightarrow> goerr \<Rightarrow> 'm map_cache option \<Rightarrow> 'm map_cache option" where
  "give_up key e cache = (if is_panic e then cache else map_option (PutFailed key) cache)"

definition store_parsed :: "'m \<Rightarrow> ('m, 'z) session_scheme \<Rightarrow> ('m, 'z) session_scheme" where
  "store_parsed m s = s\<lparr>s_parsed := Some m\<rparr>"

text \<open>\<open>finishMap\<close>; net7 has the same tail inline, with its own error text.\<close>

definition finish_map ::
    "string \<Rightarrow> (byte list \<Rightarrow> goerr + 'm) \<Rightarrow> map_info \<Rightarrow> byte list \<Rightarrow> ('m, ('m, 'z) session_scheme, 'm) mapst" where
  "finish_map msg parse info d = (\<lambda>(s, c).
     case parse_map parse (cache_key info) d c of
       (Inl e, c1) \<Rightarrow> (Inl (wrap_err msg (map uint (Name info)) e), (s, c1))
     | (Inr m, c1) \<Rightarrow> (Inr m, (store_parsed m s, c1)))"

section \<open>HTTP\<close>

text \<open>
  What one request meets: a transport error, or a status and what the body yields before it ends,
  with the error of a body that breaks off. \<open>web i rng\<close> is the request number \<open>i\<close>, with the offset of
  its Range header; the option before it is the caller's context, if it ended in the pause before
  the request. \<open>sha256\<close> is crypto/sha256.
\<close>

datatype http_reply = HttpFail goerr | HttpReply int "byte list" "goerr option"

type_synonym web = "nat \<Rightarrow> int option \<Rightarrow> goerr option \<times> http_reply"

definition httpMapAttempts :: nat where "httpMapAttempts = 4"

text \<open>\<open>io.ReadFull\<close> into a buffer of \<open>n\<close> bytes.\<close>

definition read_full :: "nat \<Rightarrow> byte list \<Rightarrow> goerr option \<Rightarrow> byte list \<times> goerr option" where
  "read_full n body brk =
     (if n \<le> length body then (take n body, None)
      else (body, Some (case brk of Some e \<Rightarrow> e | None \<Rightarrow> if body = [] then IoEOF else IoUnexpectedEOF)))"

text \<open>One request: an error that ends the download, or the bytes so far, the last error and whether to stop.\<close>

definition http_attempt ::
    "int \<Rightarrow> http_reply \<Rightarrow> byte list \<times> goerr option \<Rightarrow> goerr + (byte list \<times> goerr option) \<times> bool" where
  "http_attempt mapSize r st =
     (case r of
        HttpFail e \<Rightarrow> Inr ((fst st, Some e), False)
      | HttpReply status body brk \<Rightarrow>
          if status \<noteq> 200 \<and> status \<noteq> 206 then Inl (Err ''session06: http map: status'' [status])
          else
            (let d = (if status = 200 then [] else fst st);
                 remaining = mapSize - int (length d) in
             if remaining \<le> 0 then Inl (Err ''session06: http map oversize'' [int (length d), mapSize])
             else
               (let (buf, rerr) = read_full (nat remaining) body brk; d1 = d @ buf in
                if int (length d1) \<ge> mapSize then Inr ((d1, snd st), True)
                else Inr ((d1, rerr), False))))"

definition range_header :: "byte list \<Rightarrow> int option" where
  "range_header d = (if d = [] then None else Some (int (length d)))"

fun http_attempts :: "int \<Rightarrow> web \<Rightarrow> nat \<Rightarrow> byte list \<times> goerr option \<Rightarrow> goerr + byte list \<times> goerr option" where
  "http_attempts mapSize web 0 st = Inr st"
| "http_attempts mapSize web (Suc n) st =
     (let i = httpMapAttempts - Suc n; rng = range_header (fst st) in
      case (if i > 0 then fst (web i rng) else None) of
        Some e \<Rightarrow> Inl e
      | None \<Rightarrow>
          (case http_attempt mapSize (snd (web i rng)) st of
             Inl e \<Rightarrow> Inl e
           | Inr (st', stop) \<Rightarrow> if stop then Inr st' else http_attempts mapSize web n st'))"

text \<open>\<open>make([]byte, 0, info.Size)\<close> panics for a negative size.\<close>

definition httpDownloadMap ::
    "(byte list \<Rightarrow> byte list) \<Rightarrow> web \<Rightarrow> map_info \<Rightarrow> goerr + byte list" where
  "httpDownloadMap sha256 web info =
     (if MSize info < 0 then Inl (Panic ''makeslice: cap out of range'')
      else
        (case http_attempts (MSize info) web httpMapAttempts ([], None) of
           Inl e \<Rightarrow> Inl e
         | Inr (d, lastErr) \<Rightarrow>
             if int (length d) \<noteq> MSize info then
               Inl (Wrap ''session06: http map download'' []
                 (case lastErr of Some e \<Rightarrow> e | None \<Rightarrow> Err ''incomplete'' [int (length d), MSize info]))
             else if sha256 d \<noteq> Sha256 info then Inl (Err ''session06: http map sha256 mismatch'' [])
             else Inr d))"

section \<open>0.6 over the connection\<close>

definition udpMapChunkRetries :: nat where "udpMapChunkRetries = 3"

text \<open>The body of MAP_DATA; the checksum and the chunk index are read and ignored.\<close>

definition map_data_body6 :: "varint_lib \<Rightarrow> byte list \<Rightarrow> goerr + int \<times> byte list" where
  "map_data_body6 L d =
     fst ((bnd (wrapped ''map_data: last'' [] (NextInt L)) (\<lambda>lst.
           bnd (wrapped ''map_data: crc'' [] (NextInt L)) (\<lambda>_.
           bnd (wrapped ''map_data: chunk'' [] (NextInt L)) (\<lambda>_.
           bnd (wrapped ''map_data: chunkSize'' [] (NextInt L)) (\<lambda>chunkSize.
           bnd (wrapped ''map_data: data'' [chunkSize] (NextRaw chunkSize)) (\<lambda>chunkData.
           ret (lst, chunkData)))))))
         (NewUnpacker d))"

fun recv_map_chunk6 :: "nat \<Rightarrow> huff_lib \<Rightarrow> varint_lib \<Rightarrow> (('m, 'z) session6_scheme, int \<times> byte list) gost" where
  "recv_map_chunk6 0 H L s = (Inl (Err ''session06: did not receive MAP_DATA'' []), s)"
| "recv_map_chunk6 (Suc n) H L s =
     (case recvAndParsePayload6 H s of
        (Inl e, s1) \<Rightarrow> (Inl e, s1)
      | (Inr (hdr, None), s1) \<Rightarrow> recv_map_chunk6 n H L s1
      | (Inr (hdr, Some p), s1) \<Rightarrow>
          (let s2 = s1\<lparr>s_ack := CountVitalChunks p (h6_num_chunks hdr) (s_ack s1) Split6\<rparr> in
           case ExtractSysMsgPayload L p MsgSysMapData6 Split6 of
             None \<Rightarrow> recv_map_chunk6 n H L s2
           | Some d \<Rightarrow> (map_data_body6 L d, s2)))"

definition recvMapDataChunk6 :: "huff_lib \<Rightarrow> varint_lib \<Rightarrow> (('m, 'z) session6_scheme, int \<times> byte list) gost" where
  "recvMapDataChunk6 = recv_map_chunk6 20"

definition request_chunk6 :: "varint_lib \<Rightarrow> int \<Rightarrow> (('m, 'z) session6_scheme, unit) gost" where
  "request_chunk6 L chunkIdx =
     bnd NextSeq (\<lambda>sq. wrapped ''session06: request map data chunk'' [chunkIdx]
       (SendChunks6 1 (WrapVitalChunk6 (SysRequestMapData6 L chunkIdx) sq)))"

definition max_chunks6 :: "map_info \<Rightarrow> int" where
  "max_chunks6 info = go_div (MSize info) 896 + 2"

text \<open>
  The loop over the chunks: a failed receive asks for the same chunk again, up to three times in a
  row, unless the context is over.
\<close>

function udp_map6 ::
    "huff_lib \<Rightarrow> varint_lib \<Rightarrow> int \<Rightarrow> int \<Rightarrow> nat \<Rightarrow> byte list \<Rightarrow> (('m, 'z) session6_scheme, byte list) gost" where
  "udp_map6 H L maxChunks chunkIdx retries d s =
     (if chunkIdx < maxChunks then
        (case request_chunk6 L chunkIdx s of
           (Inl e, s1) \<Rightarrow> (Inl e, s1)
         | (Inr u, s1) \<Rightarrow>
             (case recvMapDataChunk6 H L s1 of
                (Inl e, s2) \<Rightarrow>
                  if \<not> is_panic e \<and> ctx_err s2 = None \<and> retries < udpMapChunkRetries
                  then udp_map6 H L maxChunks chunkIdx (retries + 1) d s2
                  else (Inl (wrap_err ''session06: recv map data chunk'' [chunkIdx] e), s2)
              | (Inr (lst, chunkData), s2) \<Rightarrow>
                  if lst \<noteq> 0 then (Inr (d @ chunkData), s2)
                  else udp_map6 H L maxChunks (chunkIdx + 1) 0 (d @ chunkData) s2))
      else (Inr d, s))"
  by pat_completeness auto
termination
  by (relation "measures [\<lambda>(H, L, m, i, r, d, s). nat (m - i), \<lambda>(H, L, m, i, r, d, s). udpMapChunkRetries - r]") auto

declare udp_map6.simps [simp del]

definition DownloadMap6 ::
    "huff_lib \<Rightarrow> varint_lib \<Rightarrow> (byte list \<Rightarrow> goerr + 'm) \<Rightarrow> (nat \<Rightarrow> 'm map_cache \<Rightarrow> 'm map_cache) \<Rightarrow>
     (map_info \<Rightarrow> goerr + byte list) option \<Rightarrow> ('m, ('m, 'z) session6_scheme, 'm) mapst" where
  "DownloadMap6 H L parse wake http = (\<lambda>(s, c).
     let info = s_mapInfo s in
     if Name info = [] then (Inl (Err ''session06: no map info'' []), (s, c))
     else
       (case cache_lookup wake (cache_key info) c of
          (Some m, c1) \<Rightarrow> (Inr m, (store_parsed m s, c1))
        | (None, c1) \<Rightarrow>
            (let udp = (case udp_map6 H L (max_chunks6 info) 0 0 [] s of
                          (Inl e, s1) \<Rightarrow> (Inl e, (s1, give_up (cache_key info) e c1))
                        | (Inr d, s1) \<Rightarrow> finish_map ''session06: parse map'' parse info d (s1, c1)) in
             case http of
               None \<Rightarrow> udp
             | Some fetch \<Rightarrow>
                 if Sha256 info = replicate 32 0 then udp
                 else
                   (case fetch info of
                      Inr d \<Rightarrow> finish_map ''session06: parse map'' parse info d (s, c1)
                    | Inl e \<Rightarrow> if is_panic e then (Inl e, (s, c1)) else udp))))"

definition SetMap6 :: "'m option \<Rightarrow> map_info \<Rightarrow> ('m, 'z) session6_scheme \<Rightarrow> ('m, 'z) session6_scheme" where
  "SetMap6 m info s = s\<lparr>s_mapInfo := info, s_parsed := m\<rparr>"

section \<open>0.7 over the connection\<close>

text \<open>The map bytes of a packet's chunks, in any order and however often they come.\<close>

definition packet_map_bytes7 :: "byte list \<Rightarrow> byte list list" where
  "packet_map_bytes7 p = List.map_filter (\<lambda>c. map_bytes7 (Data c)) (UnpackChunks p Split7)"

fun recv_map_chunks7 :: "nat \<Rightarrow> huff_lib \<Rightarrow> (('m, 'z) session7_scheme, byte list) gost" where
  "recv_map_chunks7 0 H s = (Inl (Err ''session07: did not receive MAP_DATA'' []), s)"
| "recv_map_chunks7 (Suc n) H s =
     (case recvAndParsePayload7 H s of
        (Inl e, s1) \<Rightarrow> (Inl e, s1)
      | (Inr (hdr, None), s1) \<Rightarrow> recv_map_chunks7 n H s1
      | (Inr (hdr, Some p), s1) \<Rightarrow>
          (let s2 = s1\<lparr>s_ack := CountVitalChunks p (h7_num_chunks hdr) (s_ack s1) Split7\<rparr> in
           if packet_map_bytes7 p \<noteq> [] then (Inr (concat (packet_map_bytes7 p)), s2)
           else recv_map_chunks7 n H s2))"

definition recvMapDataChunks7 :: "huff_lib \<Rightarrow> (('m, 'z) session7_scheme, byte list) gost" where
  "recvMapDataChunks7 = recv_map_chunks7 30"

definition request_window7 :: "varint_lib \<Rightarrow> (('m, 'z) session7_scheme, unit) gost" where
  "request_window7 L =
     bnd NextSeq (\<lambda>sq. wrapped ''session07: request map data'' []
       (SendChunks7 1 (WrapVitalChunk7 (SysRequestMapData7 L) sq)))"

function udp_map7 ::
    "huff_lib \<Rightarrow> varint_lib \<Rightarrow> int \<Rightarrow> int \<Rightarrow> byte list \<Rightarrow> (('m, 'z) session7_scheme, byte list) gost" where
  "udp_map7 H L mapSize requestsLeft d s =
     (if int (length d) < mapSize \<and> requestsLeft > 0 then
        (case request_window7 L s of
           (Inl e, s1) \<Rightarrow> (Inl e, s1)
         | (Inr u, s1) \<Rightarrow>
             (case recvMapDataChunks7 H s1 of
                (Inl e, s2) \<Rightarrow> (Inl (wrap_err ''session07: recv map data'' [] e), s2)
              | (Inr bs, s2) \<Rightarrow> udp_map7 H L mapSize (requestsLeft - 1) (d @ bs) s2))
      else (Inr d, s))"
  by pat_completeness auto
termination
  by (relation "measure (\<lambda>(H, L, m, n, d, s). nat n)") auto

declare udp_map7.simps [simp del]

definition DownloadMap7 ::
    "huff_lib \<Rightarrow> varint_lib \<Rightarrow> (byte list \<Rightarrow> goerr + 'm) \<Rightarrow> (nat \<Rightarrow> 'm map_cache \<Rightarrow> 'm map_cache) \<Rightarrow>
     ('m, ('m, 'z) session7_scheme, 'm) mapst" where
  "DownloadMap7 H L parse wake = (\<lambda>(s, c).
     let info = s_mapInfo s in
     if Name info = [] then (Inl (Err ''session07: no map info'' []), (s, c))
     else
       (case cache_lookup wake (cache_key info) c of
          (Some m, c1) \<Rightarrow> (Inr m, (store_parsed m s, c1))
        | (None, c1) \<Rightarrow>
            if s7_loginMapData s \<noteq> [] then
              finish_map ''session07: parse map'' parse info (s7_loginMapData s) (s\<lparr>s7_loginMapData := []\<rparr>, c1)
            else
              (case udp_map7 H L (MSize info) (go_div (MSize info) 768 + 2) [] s of
                 (Inl e, s1) \<Rightarrow> (Inl e, (s1, give_up (cache_key info) e c1))
               | (Inr d, s1) \<Rightarrow> finish_map ''session07: parse map'' parse info d (s1, c1))))"

definition SetMap7 :: "'m option \<Rightarrow> map_info \<Rightarrow> ('m, 'z) session7_scheme \<times> 'm map_cache option \<Rightarrow>
    ('m, 'z) session7_scheme \<times> 'm map_cache option" where
  "SetMap7 m info = (\<lambda>(s, c).
     (s\<lparr>s_mapInfo := info, s_parsed := m\<rparr>,
      case m of None \<Rightarrow> c | Some x \<Rightarrow> if Name info \<noteq> [] then map_option (PutMap (cache_key info) x) c else c))"

section \<open>HTTP: resuming never corrupts\<close>

text \<open>
  A server that has the map: it sends it whole or, when a range was asked for, from there; any
  transfer may break off anywhere, any request may fail.
\<close>

definition honest_reply :: "byte list \<Rightarrow> int option \<Rightarrow> http_reply \<Rightarrow> bool" where
  "honest_reply m rng r =
     (case r of
        HttpFail _ \<Rightarrow> True
      | HttpReply status body _ \<Rightarrow>
          (status = 200 \<and> take (length body) m = body) \<or>
          (status = 206 \<and> (\<exists>k. rng = Some k \<and> take (length body) (drop (nat k) m) = body)))"

definition complete_reply :: "byte list \<Rightarrow> int option \<Rightarrow> http_reply \<Rightarrow> bool" where
  "complete_reply m rng r =
     (case r of
        HttpFail _ \<Rightarrow> False
      | HttpReply status body _ \<Rightarrow> body = (if status = 200 then m else drop (nat (the rng)) m))"

text \<open>The bytes held between two requests: a proper prefix of the map.\<close>

definition partial_of :: "byte list \<Rightarrow> byte list \<Rightarrow> bool" where
  "partial_of m d \<longleftrightarrow> take (length d) m = d \<and> length d < length m"

lemma partial_append:
  assumes "take (length d) m = d" and "take (length b) (drop (length d) m) = b"
  shows "take (length (d @ b)) m = d @ b"
  using assms by (simp add: take_add)

lemma http_attempt_honest:
  assumes "partial_of m d" and "honest_reply m (range_header d) r"
  shows "\<exists>d' e. (http_attempt (int (length m)) r (d, e0) = Inr ((d', e), False) \<and> partial_of m d' \<and>
       \<not> complete_reply m (range_header d) r) \<or> http_attempt (int (length m)) r (d, e0) = Inr ((m, e), True)"
proof (cases r)
  case (HttpFail x)
  with assms show ?thesis by (simp add: http_attempt_def complete_reply_def)
next
  case (HttpReply status body brk)
  let ?d = "if status = 200 then [] else d"
  have st: "status = 200 \<or> status = 206" "take (length body) (drop (length ?d) m) = body"
    using assms(2) HttpReply by (auto simp: honest_reply_def range_header_def split: if_splits)
  have nd: "status = 206 \<longrightarrow> d \<noteq> []"
    using assms(2) HttpReply by (auto simp: honest_reply_def range_header_def split: if_splits)
  have d: "take (length ?d) m = ?d" "length ?d < length m" using assms(1) by (auto simp: partial_of_def)
  obtain buf e where buf: "read_full (length m - length ?d) body brk = (buf, e)" by fastforce
  have bb: "buf = body" using buf st(2)
    by (auto simp: read_full_def split: if_splits)
  have body: "length body \<le> length m - length ?d" using st(2) by (metis length_drop length_take min.cobounded2 min.commute)
  have p: "take (length (?d @ body)) m = ?d @ body" by (rule partial_append [OF d(1) st(2)])
  have rem: "nat (int (length m) - int (length ?d)) = length m - length ?d" "int (length m) - int (length ?d) > 0"
    using d(2) by auto
  have run: "http_attempt (int (length m)) r (d, e0) =
      Inr (if length (?d @ body) \<ge> length m then ((?d @ body, e0), True) else ((?d @ body, e), False))"
    using st(1) rem buf bb by (cases "status = 200") (simp_all add: http_attempt_def HttpReply)
  show ?thesis
  proof (cases "length (?d @ body) \<ge> length m")
    case True
    then have "?d @ body = m" using p by simp
    with True run show ?thesis by simp
  next
    case False
    then have "\<not> complete_reply m (range_header d) r"
      using HttpReply st(1) nd d by (auto simp: complete_reply_def range_header_def split: if_splits)
    with False p run show ?thesis by (auto simp: partial_of_def)
  qed
qed

definition honest_web :: "byte list \<Rightarrow> web \<Rightarrow> bool" where
  "honest_web m web \<longleftrightarrow> (\<forall>i rng. fst (web i rng) = None \<and> honest_reply m rng (snd (web i rng)))"

lemma http_attempts_honest:
  assumes "honest_web m web" and "partial_of m (fst st)" and "n \<le> httpMapAttempts"
  shows "\<exists>d e. http_attempts (int (length m)) web n st = Inr (d, e) \<and> (d = m \<or> partial_of m d) \<and>
    ((\<exists>i\<ge>httpMapAttempts - n. i < httpMapAttempts \<and> (\<forall>rng. complete_reply m rng (snd (web i rng)))) \<longrightarrow> d = m)"
  using assms(2,3)
proof (induction n arbitrary: st)
  case 0
  then show ?case by (cases st) auto
next
  case (Suc n)
  let ?i = "httpMapAttempts - Suc n" and ?r = "range_header (fst st)"
  obtain d e where st: "st = (d, e)" by fastforce
  have nc: "(if ?i > 0 then fst (web ?i ?r) else None) = None" and h: "honest_reply m ?r (snd (web ?i ?r))"
    using assms(1) by (auto simp: honest_web_def)
  note step = http_attempts.simps(2) Let_def nc option.case sum.case prod.case if_True if_False
  consider (stop) e1 where "http_attempt (int (length m)) (snd (web ?i ?r)) st = Inr ((m, e1), True)"
    | (go) d1 e1 where "http_attempt (int (length m)) (snd (web ?i ?r)) st = Inr ((d1, e1), False)"
        "partial_of m d1" "\<not> complete_reply m ?r (snd (web ?i ?r))"
    using http_attempt_honest [of m d "snd (web ?i ?r)" e] Suc.prems(1) h st by auto
  then show ?case
  proof cases
    case stop
    have "http_attempts (int (length m)) web (Suc n) st = Inr (m, e1)" by (simp only: step stop)
    then show ?thesis by blast
  next
    case go
    obtain d2 e2 where r: "http_attempts (int (length m)) web n (d1, e1) = Inr (d2, e2)" "d2 = m \<or> partial_of m d2"
      and c: "(\<exists>i\<ge>httpMapAttempts - n. i < httpMapAttempts \<and> (\<forall>rng. complete_reply m rng (snd (web i rng)))) \<Longrightarrow> d2 = m"
      using Suc.IH [of "(d1, e1)"] go(2) Suc.prems(2) by auto
    have "i \<ge> httpMapAttempts - n" if "i \<ge> ?i" "\<forall>rng. complete_reply m rng (snd (web i rng))" for i
      using that go(3) by (metis Suc_diff_Suc Suc_le_eq Suc.prems(2) le_neq_implies_less)
    with c have "(\<exists>i\<ge>?i. i < httpMapAttempts \<and> (\<forall>rng. complete_reply m rng (snd (web i rng)))) \<longrightarrow> d2 = m" by blast
    moreover have "http_attempts (int (length m)) web (Suc n) st = Inr (d2, e2)" by (simp only: step go(1) r(1))
    ultimately show ?thesis using r(2) by blast
  qed
qed

text \<open>
  C31: The HTTP download of a map resumes without corrupting it. Against a server that has the map,
  wherever its transfers break off and whether it honours the Range header or starts over, the
  bytes returned are the map whenever bytes are returned; and as soon as one of the four requests is
  answered in full, the download succeeds.
\<close>

theorem http_resume_exact:
  fixes digest :: "byte list \<Rightarrow> byte list"
  assumes "honest_web m web" and "m \<noteq> []" and "MSize info = int (length m)" and "digest m = Sha256 info"
  shows "(httpDownloadMap digest web info = Inr d \<longrightarrow> d = m) \<and>
    (i < httpMapAttempts \<longrightarrow> (\<forall>rng. complete_reply m rng (snd (web i rng))) \<longrightarrow>
       httpDownloadMap digest web info = Inr m)"
proof -
  obtain d' e where r: "http_attempts (int (length m)) web httpMapAttempts ([], None) = Inr (d', e)"
      "d' = m \<or> partial_of m d'"
    and c: "(\<exists>i\<ge>0. i < httpMapAttempts \<and> (\<forall>rng. complete_reply m rng (snd (web i rng)))) \<longrightarrow> d' = m"
    using http_attempts_honest [OF assms(1), of "([], None)" httpMapAttempts] assms(2)
    by (auto simp: partial_of_def)
  note r1 = r(1) [folded assms(3)]
  show ?thesis
  proof (cases "d' = m")
    case True
    with r1 assms(3,4) show ?thesis by (simp add: httpDownloadMap_def)
  next
    case False
    with r(2) have "length d' < length m" by (simp add: partial_of_def)
    with r1 assms(3) have "\<exists>x. httpDownloadMap digest web info = Inl x" by (simp add: httpDownloadMap_def)
    with c False show ?thesis by auto
  qed
qed

text \<open>A server that breaks off twice, ignores the range once, and completes the last transfer.\<close>

definition flaky_web :: "byte list \<Rightarrow> web" where
  "flaky_web m i rng = (None,
     (if i = 0 then HttpReply 200 (take 2 m) (Some IoUnexpectedEOF)
      else if i = 1 then HttpFail timeout_error
      else if i = 2 then HttpReply 200 (take 3 m) None
      else (case rng of None \<Rightarrow> HttpReply 200 m None | Some k \<Rightarrow> HttpReply 206 (drop (nat k) m) None)))"

definition flaky_info :: map_info where
  "flaky_info = \<lparr>Name = [97], CRC = 0, MSize = 4, NumChunksPerRequest = 0, Sha256 = [1, 2, 3, 4]\<rparr>"

theorem http_resume_exact_witness:
  "httpDownloadMap (\<lambda>d. d) (flaky_web [1, 2, 3, 4]) flaky_info = Inr [1, 2, 3, 4]"
proof -
  let ?m = "[1, 2, 3, 4] :: byte list"
  have h: "honest_web ?m (flaky_web ?m)"
    by (auto simp: honest_web_def flaky_web_def honest_reply_def split: option.splits)
  have c: "\<forall>rng. complete_reply ?m rng (snd (flaky_web ?m 3 rng))"
    by (auto simp: flaky_web_def complete_reply_def split: option.splits)
  have i: "MSize flaky_info = int (length ?m)" "?m = Sha256 flaky_info" "3 < httpMapAttempts" "?m \<noteq> []"
    by (simp_all add: flaky_info_def httpMapAttempts_def)
  show ?thesis
    using http_resume_exact [OF h i(4) i(1), of "\<lambda>d. d" "[]" 3] c i(2,3) by blast
qed

section \<open>The key is released\<close>

text \<open>
  No waiter is lost: a channel that the cache handed out is closed or pending. \<open>released\<close>: none is
  pending for the key, so that the channels of its downloads are all closed.
\<close>

definition no_orphan :: "'m map_cache \<Rightarrow> bool" where
  "no_orphan c \<longleftrightarrow> (\<forall>ch<mc_next c. ch \<in> set (mc_closed c) \<or> (\<exists>k. mc_pending c k = Some ch))"

definition released :: "byte list \<Rightarrow> 'm map_cache option \<Rightarrow> bool" where
  "released key cache = (case cache of None \<Rightarrow> True | Some c \<Rightarrow>
     mc_pending c key = None \<and>
     (\<forall>ch<mc_next c. ch \<in> set (mc_closed c) \<or> (\<exists>k. k \<noteq> key \<and> mc_pending c k = Some ch)))"

definition guarded :: "'m map_cache option \<Rightarrow> bool" where
  "guarded cache = (case cache of None \<Rightarrow> True | Some c \<Rightarrow> no_orphan c)"

lemma close_released:
  assumes "no_orphan c"
  shows "released key (Some (close_pending key (c\<lparr>mc_maps := M\<rparr>)))"
proof -
  have "ch \<in> set (mc_closed (close_pending key (c\<lparr>mc_maps := M\<rparr>))) \<or> (\<exists>k. k \<noteq> key \<and> mc_pending c k = Some ch)"
    if ch: "ch < mc_next c" for ch
  proof (cases "ch \<in> set (mc_closed c)")
    case True
    then show ?thesis by (simp add: close_pending_def split: option.split)
  next
    case False
    then obtain k where "mc_pending c k = Some ch" using assms ch by (auto simp: no_orphan_def)
    then show ?thesis by (cases "k = key") (auto simp: close_pending_def)
  qed
  moreover have "mc_next (close_pending key (c\<lparr>mc_maps := M\<rparr>)) = mc_next c" by (simp add: close_pending_def)
  moreover have "mc_pending (close_pending key (c\<lparr>mc_maps := M\<rparr>)) k = (if k = key then None else mc_pending c k)" for k
    by (simp add: close_pending_def)
  ultimately show ?thesis unfolding released_def by auto
qed

lemma Put_released: "no_orphan c \<Longrightarrow> released key (Some (PutMap key m c))" "no_orphan c \<Longrightarrow> released key (Some (PutFailed key c))"
  using close_released [of c key "mc_maps c"] close_released [of c key "(mc_maps c)(key \<mapsto> m)"]
  by (simp_all add: PutMap_def PutFailed_def)

lemma parse_map_released: "parse_map parse key d cache = (r, cache') \<Longrightarrow> guarded cache \<Longrightarrow> released key cache'"
  by (auto simp: parse_map_def guarded_def ParseAndPut_def Put_released Let_def released_def [of key None]
      split: option.splits sum.splits prod.splits)

lemma give_up_released: "\<not> is_panic e \<Longrightarrow> guarded cache \<Longrightarrow> released key (give_up key e cache)"
  by (cases cache) (simp_all add: give_up_def guarded_def Put_released released_def [of key None])

lemma finish_map_released:
  "finish_map msg parse info d (s, cache) = (r, (s', cache')) \<Longrightarrow> guarded cache \<Longrightarrow> released (cache_key info) cache'"
  by (auto simp: finish_map_def split: prod.splits sum.splits dest: parse_map_released)

lemma released_guarded: "released key cache \<Longrightarrow> guarded cache"
  by (auto simp: released_def guarded_def no_orphan_def split: option.splits)

text \<open>Nobody is downloading the map, so that the lookup finds it or claims it, and does not wait.\<close>

lemma cache_lookup_cases:
  assumes "released key cache" and "cache_lookup wake key cache = (m, cache')"
  shows "guarded cache' \<and> (m \<noteq> None \<longrightarrow> released key cache')"
proof (cases cache)
  case None
  with assms show ?thesis by (simp add: cache_lookup_def guarded_def released_def)
next
  case (Some c)
  have free: "mc_pending c key = None" using assms(1) Some by (simp add: released_def)
  show ?thesis
  proof (cases "mc_maps c key")
    case None
    have "no_orphan (c\<lparr>mc_pending := (mc_pending c)(key \<mapsto> mc_next c), mc_next := Suc (mc_next c)\<rparr>)"
      using released_guarded [OF assms(1)] free Some
      by (auto simp: guarded_def no_orphan_def less_Suc_eq split: if_splits) (metis option.distinct(1))+
    then show ?thesis using assms(2) Some None free
      by (auto simp: cache_lookup_def GetOrWait_def guarded_def)
  next
    case (Some x)
    then show ?thesis using assms \<open>cache = Some c\<close> released_guarded [OF assms(1)]
      by (auto simp: cache_lookup_def GetOrWait_def)
  qed
qed

lemma DownloadMap6_released:
  assumes "released (cache_key (s_mapInfo s)) cache" and "\<forall>e. r = Inl e \<longrightarrow> \<not> is_panic e"
    and "DownloadMap6 H L parse wake http (s, cache) = (r, (s', cache'))"
  shows "released (cache_key (s_mapInfo s)) cache'"
proof -
  obtain m c1 where l: "cache_lookup wake (cache_key (s_mapInfo s)) cache = (m, c1)" by fastforce
  note g = cache_lookup_cases [OF assms(1) l]
  show ?thesis using assms l g unfolding DownloadMap6_def
    by (auto simp: Let_def give_up_released split: if_splits prod.splits option.splits sum.splits
        dest: finish_map_released)
qed

lemma DownloadMap7_released:
  assumes "released (cache_key (s_mapInfo s)) cache" and "\<forall>e. r = Inl e \<longrightarrow> \<not> is_panic e"
    and "DownloadMap7 H L parse wake (s, cache) = (r, (s', cache'))"
  shows "released (cache_key (s_mapInfo s)) cache'"
proof -
  obtain m c1 where l: "cache_lookup wake (cache_key (s_mapInfo s)) cache = (m, c1)" by fastforce
  note g = cache_lookup_cases [OF assms(1) l]
  show ?thesis using assms l g unfolding DownloadMap7_def
    by (auto simp: Let_def give_up_released split: if_splits prod.splits option.splits sum.splits
        dest: finish_map_released)
qed

text \<open>
  C21: A map download never keeps the cache's key to itself and leaves nobody waiting. If nobody was
  downloading the map when the call began, then nobody is registered as its downloader when the
  call ends, whether it was served from the cache, downloaded, timed out or met a map that does not
  parse, a panic apart; and every channel the cache has handed out is closed, or belongs to a
  download of another map that is still registered, so that no session waits for a download that is
  over.
\<close>

theorem downloads_release_key:
  assumes "released (cache_key (s_mapInfo s)) cache" and "released (cache_key (s_mapInfo t)) cache"
    and "DownloadMap6 H L parse wake http (s, cache) = (r6, (s', cache6))" and "\<forall>e. r6 = Inl e \<longrightarrow> \<not> is_panic e"
    and "DownloadMap7 H L parse wake (t, cache) = (r7, (t', cache7))" and "\<forall>e. r7 = Inl e \<longrightarrow> \<not> is_panic e"
  shows "released (cache_key (s_mapInfo s)) cache6 \<and> released (cache_key (s_mapInfo t)) cache7"
  using DownloadMap6_released [OF assms(1,4,3)] DownloadMap7_released [OF assms(2,6,5)] by (rule conjI)

section \<open>0.6: how many requests\<close>

text \<open>
  The packets \<open>pkts\<close> ask for the chunks \<open>ks\<close>, each under the next sequence number.
\<close>

definition asks6 :: "varint_lib \<Rightarrow> int \<Rightarrow> byte list \<Rightarrow> int list \<Rightarrow> byte list list \<Rightarrow> bool" where
  "asks6 L q token ks pkts \<longleftrightarrow> length pkts = length ks \<and>
     (\<forall>j<length ks. is_copy6 1 (WrapVitalChunk6 (SysRequestMapData6 L (ks ! j)) (after_seq q (Suc j))) token (pkts ! j))"

lemma asks6_Nil: "asks6 L q token [] []"
  by (simp add: asks6_def)

lemma asks6_Cons:
  assumes "is_copy6 1 (WrapVitalChunk6 (SysRequestMapData6 L k) (after_seq q 1)) token p"
    and "asks6 L (after_seq q 1) token ks ps"
  shows "asks6 L q token (k # ks) (p # ps)"
proof -
  have "after_seq (after_seq q 1) (Suc j) = after_seq q (Suc (Suc j))" for j
    by (simp add: after_seq_def mod_simps add.commute add.left_commute)
  with assms show ?thesis by (auto simp: asks6_def nth_Cons split: nat.splits)
qed

lemma request_chunk6_writes:
  assumes "request_chunk6 L k s = (r, s1)"
  shows "(r = Inr () \<and> (\<exists>p. outbox s1 = outbox s @ [p] \<and> s_sequence s1 = after_seq (s_sequence s) 1 \<and>
      is_copy6 1 (WrapVitalChunk6 (SysRequestMapData6 L k) (after_seq (s_sequence s) 1)) (s6_securityToken s) p \<and>
      s6_securityToken s1 = s6_securityToken s)) \<or>
    ((\<exists>e. r = Inl e) \<and> outbox s1 = outbox s)"
proof -
  let ?q = "after_seq (s_sequence s) 1" and ?s = "s\<lparr>s_sequence := after_seq (s_sequence s) 1\<rparr>"
  let ?c = "WrapVitalChunk6 (SysRequestMapData6 L k) ?q"
  have n: "NextSeq s = (Inr ?q, ?s)" by (simp add: NextSeq_def after_seq_def Let_def)
  obtain x s2 where x: "SendChunks6 1 ?c ?s = (x, s2)" by fastforce
  show ?thesis
  proof (cases x)
    case (Inr u)
    with x have "SendChunks6 1 ?c ?s = (Inr (), s2)" by simp
    from SendChunks6_Inr [OF this] is_copy6_packet [of 1 ?c ?s] assms n x Inr
    show ?thesis by (auto simp: request_chunk6_def bnd_def wrapped_def)
  next
    case (Inl e)
    then have "outbox s2 = outbox s"
      using x by (auto simp: SendChunks6_def SendRaw_def split: list.splits option.splits)
    with assms n x Inl show ?thesis by (auto simp: request_chunk6_def bnd_def wrapped_def split: if_splits)
  qed
qed

lemma recv_map_chunk6_wire:
  "recv_map_chunk6 n H L s = (r, s') \<Longrightarrow> outbox s' = outbox s \<and> s_sequence s' = s_sequence s \<and>
     s6_securityToken s' = s6_securityToken s"
proof (induction n arbitrary: s)
  case 0
  then show ?case by simp
next
  case (Suc n)
  obtain x s1 where x: "recvAndParsePayload6 H s = (x, s1)" by fastforce
  then have "outbox s1 = outbox s \<and> s_sequence s1 = s_sequence s \<and> s6_securityToken s1 = s6_securityToken s"
    by (auto simp: recvAndParsePayload6_def bnd_def RecvContext_def take_event_def end_ctx_def
        split: list.splits net_event.splits sum.splits prod.splits)
  with Suc x show ?case
    by (auto simp: Let_def split: sum.splits prod.splits option.splits)
qed

text \<open>The chunks asked for, from \<open>i\<close> on: in order, without a gap, each a bounded number of times.\<close>

definition request_order :: "int \<Rightarrow> int \<Rightarrow> nat \<Rightarrow> int list \<Rightarrow> bool" where
  "request_order maxChunks i r ks \<longleftrightarrow> sorted ks \<and> (\<forall>k\<in>set ks. k < maxChunks \<and> {i..k} \<subseteq> set ks \<and> i \<le> k) \<and>
     count_list ks i \<le> Suc udpMapChunkRetries - r \<and> (\<forall>k. count_list ks k \<le> Suc udpMapChunkRetries)"

lemma request_order_Nil: "request_order m i r []"
  by (simp add: request_order_def)

lemma request_order_single: "i < m \<Longrightarrow> r \<le> udpMapChunkRetries \<Longrightarrow> request_order m i r [i]"
  by (auto simp: request_order_def)

lemma request_order_again:
  assumes "request_order m i (Suc r) ks" and "i < m" and "r < udpMapChunkRetries"
  shows "request_order m i r (i # ks)"
  using assms by (auto simp: request_order_def)

lemma request_order_next:
  assumes "request_order m (i + 1) 0 ks" and "i < m" and "r \<le> udpMapChunkRetries"
  shows "request_order m i r (i # ks)"
proof -
  have "i \<notin> set ks" using assms(1) by (fastforce simp: request_order_def)
  then have "count_list ks i = 0" by (simp add: count_list_0_iff)
  moreover have "{i..k} \<subseteq> insert i (set ks)" if "k \<in> set ks" for k
  proof
    fix x assume "x \<in> {i..k}"
    then have "x = i \<or> x \<in> {i + 1..k}" by auto
    moreover have "{i + 1..k} \<subseteq> set ks" using assms(1) that by (simp add: request_order_def)
    ultimately show "x \<in> insert i (set ks)" by auto
  qed
  ultimately show ?thesis using assms by (fastforce simp: request_order_def)
qed

definition asked6 :: "varint_lib \<Rightarrow> int \<Rightarrow> int \<Rightarrow> nat \<Rightarrow> ('m, 'z) session6_scheme \<Rightarrow> ('m, 'z) session6_scheme \<Rightarrow> bool" where
  "asked6 L maxChunks i r s s' \<longleftrightarrow> (\<exists>ks pkts. outbox s' = outbox s @ pkts \<and>
     asks6 L (s_sequence s) (s6_securityToken s) ks pkts \<and> request_order maxChunks i r ks)"

lemma asked6_Cons:
  assumes "asked6 L m i' r' s2 s'" and "\<And>ks. request_order m i' r' ks \<Longrightarrow> request_order m i r (i # ks)"
    and "outbox s2 = outbox s @ [p]" and "s_sequence s2 = after_seq (s_sequence s) 1"
    and "s6_securityToken s2 = s6_securityToken s"
    and "is_copy6 1 (WrapVitalChunk6 (SysRequestMapData6 L i) (after_seq (s_sequence s) 1)) (s6_securityToken s) p"
  shows "asked6 L m i r s s'"
proof -
  obtain ks pkts where k: "outbox s' = outbox s2 @ pkts" "asks6 L (s_sequence s2) (s6_securityToken s2) ks pkts"
      "request_order m i' r' ks"
    using assms(1) unfolding asked6_def by blast
  with assms(3-6) have "outbox s' = outbox s @ p # pkts" "asks6 L (s_sequence s) (s6_securityToken s) (i # ks) (p # pkts)"
    by (auto intro: asks6_Cons)
  with assms(2) [OF k(3)] show ?thesis unfolding asked6_def by blast
qed

lemma udp_map6_asks:
  "udp_map6 H L m i r d s = (x, s') \<Longrightarrow> r \<le> udpMapChunkRetries \<Longrightarrow> asked6 L m i r s s'"
proof (induction H L m i r d s rule: udp_map6.induct)
  case (1 H L m i r d s)
  have none: "asked6 L m i r s t" if "outbox t = outbox s" for t
    unfolding asked6_def using that asks6_Nil request_order_Nil by (metis append_Nil2)
  show ?case
  proof (cases "i < m")
    case False
    with 1(3) none show ?thesis by (simp add: udp_map6.simps)
  next
    case i: True
    obtain q s1 where q: "request_chunk6 L i s = (q, s1)" by fastforce
    show ?thesis
    proof (cases q)
      case (Inl e)
      with 1(3) i q none request_chunk6_writes [OF q] show ?thesis by (simp add: udp_map6.simps)
    next
      case (Inr u)
      obtain p where p: "outbox s1 = outbox s @ [p]" "s_sequence s1 = after_seq (s_sequence s) 1"
          "is_copy6 1 (WrapVitalChunk6 (SysRequestMapData6 L i) (after_seq (s_sequence s) 1)) (s6_securityToken s) p"
          "s6_securityToken s1 = s6_securityToken s"
        using request_chunk6_writes [OF q] Inr by auto
      obtain v s2 where v: "recvMapDataChunk6 H L s1 = (v, s2)" by fastforce
      note w = recv_map_chunk6_wire [OF v [unfolded recvMapDataChunk6_def]]
      have step: "asked6 L m i r s t" if "asked6 L m i' r' s2 t"
          "\<And>ks. request_order m i' r' ks \<Longrightarrow> request_order m i r (i # ks)" for i' r' t
        by (rule asked6_Cons [OF that]) (use p w in simp_all)
      have stop: "asked6 L m i r s s2"
        unfolding asked6_def using w p asks6_Cons [OF p(3) asks6_Nil] request_order_single [OF i 1(4)]
        by (intro exI [of _ "[i]"] exI [of _ "[p]"]) simp
      note eq = udp_map6.simps [of H L m i r d s]
      show ?thesis
      proof (cases v)
        case e: (Inl e)
        show ?thesis
        proof (cases "\<not> is_panic e \<and> ctx_err s2 = None \<and> r < udpMapChunkRetries")
          case True
          with 1(3) i q Inr v e have "udp_map6 H L m i (r + 1) d s2 = (x, s')" by (simp add: eq)
          with 1(1) i q Inr v e True have "asked6 L m i (Suc r) s2 s'" by fastforce
          then show ?thesis by (rule step) (rule request_order_again, use i True in simp_all)
        next
          case False
          with 1(3) i q Inr v e stop show ?thesis by (auto simp: eq)
        qed
      next
        case a: (Inr ans)
        obtain lst cd where ans: "ans = (lst, cd)" by fastforce
        show ?thesis
        proof (cases "lst = 0")
          case True
          with 1(3) i q Inr v a ans have "udp_map6 H L m (i + 1) 0 (d @ cd) s2 = (x, s')" by (simp add: eq)
          with 1(2) i q Inr v a ans True have "asked6 L m (i + 1) 0 s2 s'" by fastforce
          then show ?thesis by (rule step) (rule request_order_next, use i 1(4) in simp_all)
        next
          case False
          with 1(3) i q Inr v a ans stop show ?thesis by (auto simp: eq)
        qed
      qed
    qed
  qed
qed

lemma request_order_length: "request_order m 0 0 ks \<Longrightarrow> length ks \<le> 4 * nat m"
proof -
  assume r: "request_order m 0 0 ks"
  then have sub: "set ks \<subseteq> {0..<m}" by (auto simp: request_order_def)
  then have "length ks = (\<Sum>k\<in>{0..<m}. count_list ks k)" by (simp add: sum_count_set)
  also have "\<dots> \<le> (\<Sum>k\<in>{0..<m}. 4)"
    using r by (intro sum_mono) (auto simp: request_order_def udpMapChunkRetries_def)
  finally show ?thesis by simp
qed

lemma finish_map_outbox: "outbox (fst (snd (finish_map msg parse info d (s, cache)))) = outbox s"
  by (auto simp: finish_map_def store_parsed_def split: prod.splits sum.splits)

lemma DownloadMap6_asked:
  "asked6 L (max_chunks6 (s_mapInfo s)) 0 0 s (fst (snd (DownloadMap6 H L parse wake http (s, cache))))"
proof -
  let ?m = "max_chunks6 (s_mapInfo s)"
  have same: "asked6 L ?m 0 0 s t" if "outbox t = outbox u" "asked6 L ?m 0 0 s u" for t u
    using that by (simp add: asked6_def)
  have refl: "asked6 L ?m 0 0 s s"
    unfolding asked6_def using asks6_Nil request_order_Nil by (metis append_Nil2)
  have udp: "asked6 L ?m 0 0 s t" if "udp_map6 H L ?m 0 0 [] s = (x, t)" for x t
    by (rule udp_map6_asks [OF that]) simp
  show ?thesis
    unfolding DownloadMap6_def
    by (auto simp: Let_def store_parsed_def refl split: prod.splits option.splits sum.splits
        dest: udp intro: same [OF finish_map_outbox] same [OF _ refl])
qed

text \<open>
  C30: Whatever the server does, a 0.6 map download ends after a bounded number of requests: the
  datagrams it writes ask, each under the next sequence number, for the chunks 0, 1, 2 and so on,
  in order and without a gap, each chunk at most four times, none beyond the limit computed from the
  announced size; altogether at most four times that limit.
\<close>

theorem download_requests6:
  "\<exists>ks pkts. outbox (fst (snd (DownloadMap6 H L parse wake http (s, cache)))) = outbox s @ pkts \<and>
     asks6 L (s_sequence s) (s6_securityToken s) ks pkts \<and>
     request_order (max_chunks6 (s_mapInfo s)) 0 0 ks \<and>
     length pkts \<le> 4 * nat (max_chunks6 (s_mapInfo s))"
proof -
  obtain ks pkts where k: "outbox (fst (snd (DownloadMap6 H L parse wake http (s, cache)))) = outbox s @ pkts"
      "asks6 L (s_sequence s) (s6_securityToken s) ks pkts" "request_order (max_chunks6 (s_mapInfo s)) 0 0 ks"
    using DownloadMap6_asked [of L s H parse wake http cache] unfolding asked6_def by blast
  moreover from request_order_length [OF k(3)] k(2) have "length pkts \<le> 4 * nat (max_chunks6 (s_mapInfo s))"
    by (simp add: asks6_def)
  ultimately show ?thesis by blast
qed

section \<open>Answers are taken as they come\<close>

text \<open>
  The chunk index in an answer is not compared with the one asked for: whatever it is, the bytes are
  taken for the chunk that is due. After a retry, a late answer to the first request therefore
  fills the place of the next chunk.
\<close>

lemma any_index_taken:
  assumes "varint_contract L" and "in_s32 lst" and "in_s32 crc" and "in_s32 index" and "in_s32 (int (length raw))"
  shows "map_data_body6 L (encv L lst @ encv L crc @ encv L index @ encv L (int (length raw)) @ raw) = Inr (lst, raw)"
proof -
  note r = varint_contract.NextInt_at_pos [OF assms(1)]
  show ?thesis
    using NextRaw_at_pos [of "int (length raw)" raw _ "[]"] assms(2-)
    by (simp add: map_data_body6_def NewUnpacker_at_pos bnd_def wrapped_def ret_def r)
qed

definition answer6 ::
    "huff_lib \<Rightarrow> varint_lib \<Rightarrow> ('m, 'z) session6_scheme \<Rightarrow> int \<times> net_event \<Rightarrow> int \<Rightarrow> byte list \<Rightarrow> bool" where
  "answer6 H L s ev lst raw \<longleftrightarrow> (\<exists>t bs hdr p crc index. ev = (t, Arrive bs) \<and>
     parsePayload6 H s (take MaxPacketSize bs) = Inr (hdr, Some p) \<and>
     in_s32 lst \<and> in_s32 crc \<and> in_s32 index \<and> in_s32 (int (length raw)) \<and>
     ExtractSysMsgPayload L p MsgSysMapData6 Split6 =
       Some (encv L lst @ encv L crc @ encv L index @ encv L (int (length raw)) @ raw))"

text \<open>The next events answer with the given pieces, the last of them marked as the last.\<close>

fun answers6 ::
    "huff_lib \<Rightarrow> varint_lib \<Rightarrow> ('m, 'z) session6_scheme \<Rightarrow> (int \<times> net_event) list \<Rightarrow> byte list list \<Rightarrow> bool" where
  "answers6 H L s evs [] = False"
| "answers6 H L s evs (raw # raws) =
     (case evs of
        [] \<Rightarrow> False
      | ev # evs' \<Rightarrow>
          if raws = [] then (\<exists>lst. lst \<noteq> 0 \<and> answer6 H L s ev lst raw)
          else answer6 H L s ev 0 raw \<and> answers6 H L s evs' raws)"

lemma answer6_token:
  "s6_securityToken s' = s6_securityToken s \<Longrightarrow> answer6 H L s' ev lst raw = answer6 H L s ev lst raw"
  by (simp add: answer6_def parsePayload6_token [of s' s])

lemma answers6_token:
  "s6_securityToken s' = s6_securityToken s \<Longrightarrow> answers6 H L s' evs raws = answers6 H L s evs raws"
  by (induction raws arbitrary: evs) (simp_all add: answer6_token [of s' s] split: list.splits)

lemma recv_answer6:
  assumes "varint_contract L" and "answer6 H L s ev lst raw" and "inbox s = ev # evs"
  shows "\<exists>s'. recvMapDataChunk6 H L s = (Inr (lst, raw), s') \<and> inbox s' = evs \<and> send_faults s' = send_faults s \<and>
    s6_securityToken s' = s6_securityToken s"
proof -
  obtain n :: nat where n: "recvMapDataChunk6 H L = (recv_map_chunk6 (Suc n) H L :: (('a, 'b) session6_scheme, _) gost)"
    unfolding recvMapDataChunk6_def by (metis Suc_pred' zero_less_numeral)
  have tok: "parsePayload6 H (s\<lparr>inbox := evs, clock := c\<rparr>) b = parsePayload6 H s b" for c b
    by (rule parsePayload6_token) simp
  show ?thesis
    using assms any_index_taken [OF assms(1)]
    by (auto simp: n tok answer6_def recvAndParsePayload6_def bnd_def RecvContext_def take_event_def Let_def)
qed

lemma request_chunk6_ok:
  assumes "send_faults s = []"
  shows "\<exists>s'. request_chunk6 L k s = (Inr (), s') \<and> inbox s' = inbox s \<and> send_faults s' = [] \<and>
    s6_securityToken s' = s6_securityToken s"
  using assms by (simp add: request_chunk6_def NextSeq_def bnd_def wrapped_def SendChunks6_def SendRaw_def Let_def)

lemma udp_map6_collects:
  assumes "varint_contract L"
  shows "answers6 H L s (inbox s) raws \<Longrightarrow> send_faults s = [] \<Longrightarrow> int (length raws) \<le> m - i \<Longrightarrow>
    \<exists>s'. udp_map6 H L m i r d s = (Inr (d @ concat raws), s')"
proof (induction raws arbitrary: s i r d)
  case Nil
  then show ?case by simp
next
  case (Cons raw raws)
  from Cons.prems(1) obtain ev evs where ev: "inbox s = ev # evs" by (cases "inbox s") auto
  obtain s1 where s1: "request_chunk6 L i s = (Inr (), s1)" "inbox s1 = ev # evs" "send_faults s1 = []"
      "s6_securityToken s1 = s6_securityToken s"
    using request_chunk6_ok [OF Cons.prems(2), of L i] ev by auto
  obtain lst where lst: "answer6 H L s ev lst raw" "lst \<noteq> 0 \<longleftrightarrow> raws = []"
    using Cons.prems(1) ev by (auto split: if_splits)
  then have "answer6 H L s1 ev lst raw" using answer6_token [OF s1(4)] by simp
  from recv_answer6 [OF assms this s1(2)] obtain s2 where s2: "recvMapDataChunk6 H L s1 = (Inr (lst, raw), s2)"
      "inbox s2 = evs" "send_faults s2 = []" "s6_securityToken s2 = s6_securityToken s"
    using s1 by auto
  have i: "i < m" using Cons.prems(3) by simp
  show ?case
  proof (cases "raws = []")
    case True
    with lst i s1 s2 show ?thesis by (simp add: udp_map6.simps)
  next
    case False
    then have "answers6 H L s2 (inbox s2) raws"
      using Cons.prems(1) ev s2 answers6_token [OF s2(4)] by simp
    from Cons.IH [OF this s2(3), of "i + 1" 0 "d @ raw"] Cons.prems(3)
    obtain s' where "udp_map6 H L m (i + 1) 0 (d @ raw) s2 = (Inr ((d @ raw) @ concat raws), s')" by auto
    with False lst i s1 s2 show ?thesis by (simp add: udp_map6.simps [of H L m i])
  qed
qed

text \<open>
  C29: A 0.6 map download puts together what the server sends. When the requests are answered in
  turn, the last answer marked as such and within the limit computed from the announced size, the
  map returned is the parse of the pieces in the order in which they came, and the session and
  the cache hold it; the chunk index the answers carry plays no part.
\<close>

theorem download_assembles6:
  assumes "varint_contract L" and "answers6 H L s (inbox s) raws" and "send_faults s = []"
    and "int (length raws) \<le> max_chunks6 (s_mapInfo s)" and "Name (s_mapInfo s) \<noteq> []"
    and "parse (concat raws) = Inr x"
    and "mc_maps c (cache_key (s_mapInfo s)) = None" and "mc_pending c (cache_key (s_mapInfo s)) = None"
  shows "\<exists>s' c'. DownloadMap6 H L parse wake None (s, Some c) = (Inr x, (s', Some c')) \<and>
    s_parsed s' = Some x \<and> GetCached (cache_key (s_mapInfo s)) c' = Some x"
proof -
  obtain s1 where "udp_map6 H L (max_chunks6 (s_mapInfo s)) 0 0 [] s = (Inr (concat raws), s1)"
    using udp_map6_collects [OF assms(1,2,3), of "max_chunks6 (s_mapInfo s)" 0 0 "[]"] assms(4) by auto
  with assms(5-) show ?thesis
    by (simp add: DownloadMap6_def Let_def cache_lookup_def GetOrWait_def finish_map_def parse_map_def ParseAndPut_def
        store_parsed_def GetCached_def PutMap_def close_pending_def)
qed

text \<open>Both answers carry the index 0: the server's late answer passes for the next chunk.\<close>

definition answer_msg :: "int \<Rightarrow> byte list" where
  "answer_msg lst = message_bytes wire_lib MsgSysMapData6 True [FInt lst, FInt 7, FInt 0, FInt 1, FRaw [65]]"

definition downloading6 :: "unit session6" where
  "downloading6 = sample_session6\<lparr>s6_securityToken := [9, 9, 9, 9], s_mapInfo := flaky_info, inbox :=
     [(3, Arrive (server_packet6 (answer_msg 0))), (3, Arrive (server_packet6 (answer_msg 1)))]\<rparr>"

lemma sample_answer_parses:
  "parsePayload6 plain_huffman downloading6 (take MaxPacketSize (server_packet6 (answer_msg 0))) =
     Inr (\<lparr>h6_flags = no_flags6, h6_ack = 0, h6_num_chunks = 1, h6_token = zero_token\<rparr>, Some (WrapVitalChunk6 (answer_msg 0) 1))"
  "parsePayload6 plain_huffman downloading6 (take MaxPacketSize (server_packet6 (answer_msg 1))) =
     Inr (\<lparr>h6_flags = no_flags6, h6_ack = 0, h6_num_chunks = 1, h6_token = zero_token\<rparr>, Some (WrapVitalChunk6 (answer_msg 1) 1))"
  by code_simp+

lemma sample_answer_payload:
  "ExtractSysMsgPayload wire_lib (WrapVitalChunk6 (answer_msg 0) 1) MsgSysMapData6 Split6 =
     Some (encv wire_lib 0 @ encv wire_lib 7 @ encv wire_lib 0 @ encv wire_lib 1 @ [65])"
  "ExtractSysMsgPayload wire_lib (WrapVitalChunk6 (answer_msg 1) 1) MsgSysMapData6 Split6 =
     Some (encv wire_lib 1 @ encv wire_lib 7 @ encv wire_lib 0 @ encv wire_lib 1 @ [65])"
  by code_simp+

lemma sample_answers: "answers6 plain_huffman wire_lib downloading6 (inbox downloading6) [[65], [65]]"
proof -
  have "answer6 plain_huffman wire_lib downloading6 (3, Arrive (server_packet6 (answer_msg 0))) 0 [65]"
    unfolding answer6_def
    by (rule exI, rule exI, rule exI, rule exI, rule exI [of _ 7], rule exI [of _ 0], intro conjI,
        rule refl, rule sample_answer_parses(1), simp_all add: sample_answer_payload(1) in_s32_def)
  moreover have "answer6 plain_huffman wire_lib downloading6 (3, Arrive (server_packet6 (answer_msg 1))) 1 [65]"
    unfolding answer6_def
    by (rule exI, rule exI, rule exI, rule exI, rule exI [of _ 7], rule exI [of _ 0], intro conjI,
        rule refl, rule sample_answer_parses(2), simp_all add: sample_answer_payload(2) in_s32_def)
  ultimately show ?thesis by (auto simp: downloading6_def intro: exI [of _ 1])
qed

definition twice_A :: "byte list \<Rightarrow> goerr + unit" where
  "twice_A d = (if d = [65, 65] then Inr () else Inl IoEOF)"

theorem download_assembles6_witness:
  "fst (DownloadMap6 plain_huffman wire_lib twice_A (\<lambda>_ c. c) None (downloading6, Some NewMapCache)) = Inr ()"
proof -
  have w: "varint_contract wire_lib" by unfold_locales
  have s: "send_faults downloading6 = []" "s_mapInfo downloading6 = flaky_info"
    by (simp_all add: downloading6_def sample_session6_def)
  show ?thesis
    using download_assembles6 [OF w sample_answers s(1),
        of twice_A "()" NewMapCache "\<lambda>_ c. c"]
    by (auto simp: s(2) twice_A_def flaky_info_def max_chunks6_def go_div_def NewMapCache_def)
qed

section \<open>Witness of the release\<close>

definition silent6 :: "unit session6" where
  "silent6 = sample_session6\<lparr>s_mapInfo := flaky_info\<rparr>"

definition drained7 :: "unit session7" where
  "drained7 = sample_session7\<lparr>s_mapInfo := flaky_info, s7_loginMapData := [65]\<rparr>"

lemma silent6_fails: "case fst (DownloadMap6 plain_huffman wire_lib twice_A (\<lambda>_ c. c) None (silent6, Some NewMapCache)) of
    Inl e \<Rightarrow> \<not> is_panic e | Inr _ \<Rightarrow> False"
  by code_simp

lemma drained7_fails: "case fst (DownloadMap7 plain_huffman wire_lib twice_A (\<lambda>_ c. c) (drained7, Some NewMapCache)) of
    Inl e \<Rightarrow> \<not> is_panic e | Inr _ \<Rightarrow> False"
  by code_simp

theorem downloads_release_key_witness:
  "released (cache_key flaky_info) (snd (snd
     (DownloadMap6 plain_huffman wire_lib twice_A (\<lambda>_ c. c) None (silent6, Some NewMapCache)))) \<and>
   released (cache_key flaky_info) (snd (snd
     (DownloadMap7 plain_huffman wire_lib twice_A (\<lambda>_ c. c) (drained7, Some NewMapCache))))"
proof -
  have i: "s_mapInfo silent6 = flaky_info" "s_mapInfo drained7 = flaky_info"
    by (simp_all add: silent6_def drained7_def)
  have u: "released (cache_key flaky_info) (Some NewMapCache :: unit map_cache option)"
    by (simp add: released_def NewMapCache_def)
  obtain r6 s' c6 where 6: "DownloadMap6 plain_huffman wire_lib twice_A (\<lambda>_ c. c) None (silent6, Some NewMapCache) = (r6, (s', c6))"
    by (metis prod.collapse)
  obtain r7 t' c7 where 7: "DownloadMap7 plain_huffman wire_lib twice_A (\<lambda>_ c. c) (drained7, Some NewMapCache) = (r7, (t', c7))"
    by (metis prod.collapse)
  have "\<forall>e. r6 = Inl e \<longrightarrow> \<not> is_panic e" using silent6_fails 6 by (simp split: sum.splits)
  moreover have "\<forall>e. r7 = Inl e \<longrightarrow> \<not> is_panic e" using drained7_fails 7 by (simp split: sum.splits)
  ultimately show ?thesis
    using downloads_release_key [where s = silent6 and t = drained7, OF _ _ 6 _ 7] u 6 7 by (simp add: i)
qed

end
