(* ===== verification/Floats.thy ===== *)
theory Floats
  imports Prelude Complex_Main
begin

text \<open>
  The floating point numbers of Go, as rationals: \<open>float32\<close> and \<open>float64\<close> values are the rationals
  with at most 24 and 53 significant bits, and every operation rounds its exact result to the
  nearest of them, ties to even (no fused operations). Exponents are not bounded, so that overflow,
  subnormal numbers, infinities and NaN are outside the model, and so is the sign of zero.
  The locale \<open>rounding\<close> holds what the developments above use of a rounding.
\<close>

section \<open>Rounding\<close>

function bits :: "int \<Rightarrow> nat" where
  "bits n = (if n \<le> 0 then 0 else Suc (bits (n div 2)))"
  by pat_completeness auto
termination
  by (relation "measure nat") auto

declare bits.simps [simp del]

text \<open>The binary exponent of a positive number.\<close>

definition lg :: "rat \<Rightarrow> int" where
  "lg x = (let (n, d) = quotient_of x; k = int (bits n) - int (bits d) in
     if 2 powi k \<le> x then k else k - 1)"

definition round_even :: "rat \<Rightarrow> int" where
  "round_even x = (let f = \<lfloor>x\<rfloor>; r = x - of_int f in
     if r < 1 / 2 then f else if r > 1 / 2 then f + 1 else if even f then f else f + 1)"

definition ulp :: "nat \<Rightarrow> rat \<Rightarrow> rat" where
  "ulp p x = 2 powi (lg \<bar>x\<bar> - (int p - 1))"

definition rnd :: "nat \<Rightarrow> rat \<Rightarrow> rat" where
  "rnd p x = (if x = 0 then 0 else of_int (round_even (x / ulp p x)) * ulp p x)"

abbreviation f32 :: "rat \<Rightarrow> rat" where "f32 \<equiv> rnd 24"
abbreviation f64 :: "rat \<Rightarrow> rat" where "f64 \<equiv> rnd 53"

section \<open>Conversions to integers\<close>

definition trunc :: "rat \<Rightarrow> int" where
  "trunc x = (if x < 0 then \<lceil>x\<rceil> else \<lfloor>x\<rfloor>)"

text \<open>Out of range the result is the smallest integer, as on amd64.\<close>

definition to_int64 :: "rat \<Rightarrow> int" where
  "to_int64 x = (if - (2 ^ 63) \<le> trunc x \<and> trunc x < 2 ^ 63 then trunc x else - (2 ^ 63))"

section \<open>The exponent\<close>

lemma bits_bounds:
  assumes "n > 0"
  shows "2 ^ (bits n - 1) \<le> n" and "n < 2 ^ bits n" and "bits n > 0"
proof -
  have "2 ^ (bits n - 1) \<le> n \<and> n < 2 ^ bits n \<and> bits n > 0"
    using assms
  proof (induction n rule: bits.induct)
    case (1 n)
    show ?case
    proof (cases "n = 1")
      case True
      then show ?thesis by (simp add: bits.simps)
    next
      case False
      with 1 have ih: "2 ^ (bits (n div 2) - 1) \<le> n div 2" "n div 2 < 2 ^ bits (n div 2)" "bits (n div 2) > 0" by auto
      then have "bits n = Suc (bits (n div 2))" using 1(2) by (subst bits.simps) simp
      moreover have "2 * 2 ^ (bits (n div 2) - 1) = (2::int) ^ bits (n div 2)"
        using ih(3) by (cases "bits (n div 2)") simp_all
      moreover have "2 * (n div 2) \<le> n" "n < 2 * (n div 2 + 1)" by presburger+
      ultimately show ?thesis using ih(1,2) by simp
    qed
  qed
  then show "2 ^ (bits n - 1) \<le> n" "n < 2 ^ bits n" "bits n > 0" by simp_all
qed

lemma powi_less_D: "(2::rat) powi a < 2 powi b \<Longrightarrow> a < b"
  using power_int_increasing [of b a "2::rat"] by (cases "b \<le> a") auto

lemma lg_bounds:
  assumes "x > 0"
  shows "2 powi lg x \<le> x" and "x < 2 powi (lg x + 1)"
proof -
  obtain n d where q: "quotient_of x = (n, d)" by fastforce
  then have d: "d > 0" and x: "x = of_int n / of_int d"
    using quotient_of_denom_pos quotient_of_div by blast+
  then have n: "n > 0" using assms by (simp add: zero_less_divide_iff)
  let ?a = "bits n" and ?b = "bits d"
  let ?k = "int ?a - int ?b"
  note N = bits_bounds [OF n] and D = bits_bounds [OF d]
  have pos: "?a > 0" "?b > 0" using N(3) D(3) by simp_all
  note Nr = iffD2 [OF of_int_le_iff [where 'a = rat], OF N(1)] iffD2 [OF of_int_less_iff [where 'a = rat], OF N(2)]
    and Dr = iffD2 [OF of_int_le_iff [where 'a = rat], OF D(1)] iffD2 [OF of_int_less_iff [where 'a = rat], OF D(2)]
  have pow: "(2::rat) ^ m / 2 ^ l = 2 powi (int m - int l)" for m l
    by (simp add: power_int_diff)
  have "of_int n / of_int d < (2::rat) ^ ?a / 2 ^ (?b - 1)"
    using Nr Dr d n by (intro frac_less) simp_all
  also have "\<dots> = 2 powi (?k + 1)" using pos by (subst pow) (simp add: of_nat_diff algebra_simps)
  finally have up: "x < 2 powi (?k + 1)" using x by simp
  have "(2::rat) ^ (?a - 1) / 2 ^ ?b \<le> of_int n / of_int d"
    using Nr Dr d n by (intro frac_le) simp_all
  moreover have "(2::rat) ^ (?a - 1) / 2 ^ ?b = 2 powi (?k - 1)" using pos by (subst pow) (simp add: of_nat_diff algebra_simps)
  ultimately have lo: "2 powi (?k - 1) \<le> x" using x by simp
  show "2 powi lg x \<le> x" "x < 2 powi (lg x + 1)"
    using up lo by (auto simp: lg_def q Let_def not_le)
qed

lemma lg_unique:
  assumes "2 powi k \<le> x" and "x < 2 powi (k + 1)"
  shows "lg x = k"
proof -
  have x: "x > 0" using assms(1) by (rule less_le_trans [rotated]) simp
  have "2 powi lg x < (2::rat) powi (k + 1)" "2 powi k < (2::rat) powi (lg x + 1)"
    using lg_bounds [OF x] assms by (auto intro: le_less_trans)
  then show ?thesis by (auto dest!: powi_less_D)
qed

lemma lg_mono: "0 < x \<Longrightarrow> x \<le> y \<Longrightarrow> lg x \<le> lg y"
proof -
  assume "0 < x" "x \<le> y"
  then have "2 powi lg x < (2::rat) powi (lg y + 1)"
    using lg_bounds [of x] lg_bounds [of y] by (auto intro: le_less_trans)
  then show ?thesis by (auto dest!: powi_less_D)
qed

section \<open>Laws of the rounding\<close>

lemma round_even_bounds: "of_int (round_even x) \<le> x + 1 / 2" "x - 1 / 2 \<le> of_int (round_even x)"
  using floor_correct [of x] by (simp_all add: round_even_def Let_def, linarith+)

lemma round_even_of_int [simp]: "round_even (of_int n) = n"
  by (simp add: round_even_def)

lemma round_even_mono: "x \<le> y \<Longrightarrow> round_even x \<le> round_even y"
proof -
  assume xy: "x \<le> y"
  then have fl: "\<lfloor>x\<rfloor> \<le> \<lfloor>y\<rfloor>" by (rule floor_mono)
  have b: "\<lfloor>z\<rfloor> \<le> round_even z" "round_even z \<le> \<lfloor>z\<rfloor> + 1" for z
    by (auto simp: round_even_def Let_def)
  show ?thesis
  proof (cases "\<lfloor>x\<rfloor> = \<lfloor>y\<rfloor>")
    case True
    then show ?thesis using xy by (auto simp: round_even_def Let_def)
  next
    case False
    with fl have "\<lfloor>x\<rfloor> + 1 \<le> \<lfloor>y\<rfloor>" by simp
    with b(2) [of x] b(1) [of y] show ?thesis by linarith
  qed
qed

lemma round_even_minus: "round_even (- x) = - round_even x"
proof (cases "x \<in> \<int>")
  case True
  then obtain n where "x = of_int n" by (auto elim: Ints_cases)
  then show ?thesis using round_even_of_int [of "- n"] by simp
next
  case False
  then have "\<lfloor>- x\<rfloor> = - \<lfloor>x\<rfloor> - 1" by (simp add: floor_minus ceiling_altdef Ints_def) (metis False Ints_of_int)
  then show ?thesis by (auto simp: round_even_def Let_def)
qed

lemma ulp_pos [simp]: "ulp p x > 0"
  by (simp add: ulp_def)

lemma ulp_minus [simp]: "ulp p (- x) = ulp p x"
  by (simp add: ulp_def)

lemma rnd_0 [simp]: "rnd p 0 = 0"
  by (simp add: rnd_def)

lemma rnd_minus: "rnd p (- x) = - rnd p x"
  by (simp add: rnd_def round_even_minus)

text \<open>Multiples of the unit in the last place are exact.\<close>

lemma rnd_exact: "x = of_int m * ulp p x \<Longrightarrow> rnd p x = x"
  by (cases "x = 0") (simp add: rnd_def, metis rnd_def nonzero_mult_div_cancel_right round_even_of_int less_irrefl ulp_pos)

lemma scaled_bounds:
  assumes "x > 0" and "p > 0"
  shows "2 ^ (p - 1) \<le> x / ulp p x" and "x / ulp p x < 2 ^ p"
proof -
  have u: "ulp p x * 2 ^ (p - 1) = 2 powi lg x" "ulp p x * 2 ^ p = 2 powi (lg x + 1)"
    using assms by (simp_all add: ulp_def of_nat_diff flip: power_int_add power_int_of_nat)
  then show "2 ^ (p - 1) \<le> x / ulp p x" "x / ulp p x < 2 ^ p"
    using lg_bounds [OF assms(1)] by (simp_all add: pos_le_divide_eq pos_divide_less_eq mult.commute)
qed

lemma rnd_pos_bounds:
  assumes "x > 0" and "p > 0"
  shows "2 powi lg x \<le> rnd p x" and "rnd p x \<le> 2 powi (lg x + 1)"
proof -
  have u: "ulp p x * 2 ^ (p - 1) = 2 powi lg x" "ulp p x * 2 ^ p = 2 powi (lg x + 1)"
    using assms by (simp_all add: ulp_def of_nat_diff flip: power_int_add power_int_of_nat)
  have r: "rnd p x = ulp p x * of_int (round_even (x / ulp p x))" using assms by (simp add: rnd_def)
  have "round_even (of_int (2 ^ (p - 1))) \<le> round_even (x / ulp p x)"
    "round_even (x / ulp p x) \<le> round_even (of_int (2 ^ p))"
    using scaled_bounds [OF assms] by (auto intro!: round_even_mono)
  then have "(2 ^ (p - 1) :: int) \<le> round_even (x / ulp p x)" "round_even (x / ulp p x) \<le> 2 ^ p"
    by (simp_all only: round_even_of_int)
  then have "(of_int (2 ^ (p - 1)) :: rat) \<le> of_int (round_even (x / ulp p x))"
    "of_int (round_even (x / ulp p x)) \<le> (of_int (2 ^ p) :: rat)"
    by (simp_all only: of_int_le_iff)
  then show "2 powi lg x \<le> rnd p x" "rnd p x \<le> 2 powi (lg x + 1)"
    unfolding r u [symmetric] by (simp_all add: mult_left_mono less_imp_le)
qed

lemma rnd_nonneg: "p > 0 \<Longrightarrow> x \<ge> 0 \<Longrightarrow> rnd p x \<ge> 0"
proof (cases "x = 0")
  case False
  assume "p > 0" "x \<ge> 0"
  with False rnd_pos_bounds(1) [of x p] show ?thesis by (auto intro: order_trans [rotated])
qed simp

lemma rnd_mono_pos:
  assumes "0 < x" and "x \<le> y" and "p > 0"
  shows "rnd p x \<le> rnd p y"
proof (cases "lg x = lg y")
  case True
  then have u: "ulp p y = ulp p x" using assms by (simp add: ulp_def)
  have "round_even (x / ulp p x) \<le> round_even (y / ulp p x)"
    using assms by (intro round_even_mono divide_right_mono) (simp_all add: less_imp_le)
  then show ?thesis using assms u by (simp add: rnd_def mult_right_mono less_imp_le)
next
  case False
  then have "lg x + 1 \<le> lg y" using lg_mono [OF assms(1,2)] by simp
  then have "(2::rat) powi (lg x + 1) \<le> 2 powi lg y" by (rule power_int_increasing) simp
  then show ?thesis
    using rnd_pos_bounds(2) [OF assms(1,3)] rnd_pos_bounds(1) [of y p] assms by linarith
qed

lemma rnd_mono:
  assumes "x \<le> y" and "p > 0"
  shows "rnd p x \<le> rnd p y"
proof -
  consider "x > 0" | "x \<le> 0" "0 \<le> y" | "y < 0" using assms by linarith
  then show ?thesis
  proof cases
    case 1
    with assms show ?thesis by (intro rnd_mono_pos)
  next
    case 2
    with rnd_nonneg [of p y] rnd_nonneg [of p "- x"] assms(2) show ?thesis by (simp add: rnd_minus)
  next
    case 3
    with rnd_mono_pos [of "- y" "- x" p] assms show ?thesis by (simp add: rnd_minus)
  qed
qed

text \<open>Integers of at most \<open>p\<close> bits are exact.\<close>

lemma rnd_of_int:
  assumes "\<bar>n\<bar> \<le> 2 ^ p" and "p > 0"
  shows "rnd p (of_int n) = of_int n"
proof (cases "n = 0")
  case False
  let ?x = "of_int n :: rat"
  have x: "\<bar>?x\<bar> > 0" using False by simp
  have "of_int \<bar>n\<bar> \<le> (of_int (2 ^ p) :: rat)" using assms(1) by (simp only: of_int_le_iff)
  then have le: "\<bar>?x\<bar> \<le> 2 powi int p" by simp
  then have "2 powi lg \<bar>?x\<bar> < (2::rat) powi (int p + 1)"
    using lg_bounds(1) [OF x] power_int_strict_increasing [of "int p" "int p + 1" "2::rat"] by linarith
  then have l: "lg \<bar>?x\<bar> \<le> int p" by (auto dest: powi_less_D)
  show ?thesis
  proof (cases "lg \<bar>?x\<bar> = int p")
    case True
    then have "\<bar>?x\<bar> = 2 powi int p" using lg_bounds(1) [OF x] le by simp
    then have "of_int \<bar>n\<bar> = (of_int (2 ^ p) :: rat)" by simp
    then have "\<bar>n\<bar> = 2 ^ p" by (simp only: of_int_eq_iff)
    moreover have u: "ulp p ?x = 2" using True by (simp add: ulp_def)
    moreover have "(2::int) ^ p = 2 ^ (p - 1) * 2" using assms(2) by (cases p) simp_all
    ultimately have "n = 2 ^ (p - 1) * 2 \<or> n = - (2 ^ (p - 1)) * 2" by linarith
    then have "?x = of_int (2 ^ (p - 1)) * ulp p ?x \<or> ?x = of_int (- (2 ^ (p - 1))) * ulp p ?x"
      unfolding u by auto
    then show ?thesis by (metis rnd_exact)
  next
    case False
    with l have k: "int p - 1 - lg \<bar>?x\<bar> \<ge> 0" by simp
    have "of_int n * (2::rat) powi (int p - 1 - lg \<bar>?x\<bar>) * ulp p ?x = ?x"
      by (simp add: ulp_def mult.assoc flip: power_int_add)
    moreover have "(2::rat) powi (int p - 1 - lg \<bar>?x\<bar>) = of_int (2 ^ nat (int p - 1 - lg \<bar>?x\<bar>))"
      using k by (simp add: power_int_def)
    ultimately have "?x = of_int (n * 2 ^ nat (int p - 1 - lg \<bar>?x\<bar>)) * ulp p ?x" by simp
    then show ?thesis by (rule rnd_exact)
  qed
qed simp

text \<open>Scaling by a power of two is exact.\<close>

lemma lg_scale: "x > 0 \<Longrightarrow> lg (x * 2 powi k) = lg x + k"
  using lg_bounds [of x] by (intro lg_unique) (simp_all add: power_int_add mult.commute mult.left_commute)

lemma rnd_scale: "rnd p (x * 2 powi k) = rnd p x * 2 powi k"
proof (cases "x = 0")
  case False
  then have "lg \<bar>x * 2 powi k\<bar> = lg \<bar>x\<bar> + k" using lg_scale [of "\<bar>x\<bar>" k] by (simp add: abs_mult)
  then have "ulp p (x * 2 powi k) = ulp p x * 2 powi k"
    by (simp add: ulp_def power_int_add power_int_diff mult.commute mult.left_commute)
  with False show ?thesis by (simp add: rnd_def)
qed simp

section \<open>The interface\<close>

locale rounding =
  fixes r :: "rat \<Rightarrow> rat" and exact :: int
  assumes mono: "x \<le> y \<Longrightarrow> r x \<le> r y"
    and odd: "r (- x) = - r x"
    and ints: "\<bar>n\<bar> \<le> exact \<Longrightarrow> r (of_int n) = of_int n"
    and room: "1 \<le> exact"
begin

lemma zero [simp]: "r 0 = 0"
  using odd [of 0] by simp

lemma nonneg: "0 \<le> x \<Longrightarrow> 0 \<le> r x"
  using mono [of 0 x] by simp

lemma nonpos: "x \<le> 0 \<Longrightarrow> r x \<le> 0"
  using mono [of x 0] by simp

lemma above: "\<bar>n\<bar> \<le> exact \<Longrightarrow> of_int n \<le> x \<Longrightarrow> of_int n \<le> r x"
  using mono [of "of_int n" x] ints by simp

lemma below: "\<bar>n\<bar> \<le> exact \<Longrightarrow> x \<le> of_int n \<Longrightarrow> r x \<le> of_int n"
  using mono [of x "of_int n"] ints by simp

end

interpretation f32: rounding "rnd 24" "2 ^ 24"
  by unfold_locales (simp_all add: rnd_mono rnd_minus rnd_of_int)

interpretation f64: rounding "rnd 53" "2 ^ 53"
  by unfold_locales (simp_all add: rnd_mono rnd_minus rnd_of_int)

end
