(* ===== verification/GoStrings.thy ===== *)
theory GoStrings
  imports Prelude
begin

text \<open>
  What the source uses of the packages strings, strconv and net on byte strings: trimming white
  space, searching, decimal numbers, \<open>net.SplitHostPort\<close> and \<open>net.JoinHostPort\<close>.
  \<open>to_lower\<close> is \<open>strings.ToLower\<close> on ASCII; other bytes stay as they are.
\<close>

section \<open>Searching and trimming\<close>

definition to_lower :: "byte \<Rightarrow> byte" where
  "to_lower b = (if 65 \<le> b \<and> b \<le> 90 then b + 32 else b)"

definition starts_with :: "byte list \<Rightarrow> byte list \<Rightarrow> bool" where
  "starts_with p s \<longleftrightarrow> take (length p) s = p"

fun contains :: "byte list \<Rightarrow> byte list \<Rightarrow> bool" where
  "contains p [] = (p = [])"
| "contains p (x # xs) = (starts_with p (x # xs) \<or> contains p xs)"

lemma starts_with_length: "starts_with w s \<Longrightarrow> length w \<le> length s"
  by (metis starts_with_def length_take min.cobounded1)

lemma find_prefix:
  "find (\<lambda>w. w \<noteq> [] \<and> starts_with w s) ws = Some x \<Longrightarrow> 0 < length x \<and> 0 < length s"
  using starts_with_length by (fastforce simp: find_Some_iff)

text \<open>\<open>strings.TrimSpace\<close>: the white space of ASCII and of Unicode, in UTF-8.\<close>

definition white_space :: "byte list list" where
  "white_space = [[32], [9], [10], [11], [12], [13], [0xC2, 0x85], [0xC2, 0xA0], [0xE1, 0x9A, 0x80],
     [0xE2, 0x80, 0x80], [0xE2, 0x80, 0x81], [0xE2, 0x80, 0x82], [0xE2, 0x80, 0x83], [0xE2, 0x80, 0x84],
     [0xE2, 0x80, 0x85], [0xE2, 0x80, 0x86], [0xE2, 0x80, 0x87], [0xE2, 0x80, 0x88], [0xE2, 0x80, 0x89],
     [0xE2, 0x80, 0x8A], [0xE2, 0x80, 0xA8], [0xE2, 0x80, 0xA9], [0xE2, 0x80, 0xAF], [0xE2, 0x81, 0x9F],
     [0xE3, 0x80, 0x80]]"

function trim_front :: "byte list list \<Rightarrow> byte list \<Rightarrow> byte list" where
  "trim_front ws s =
     (case find (\<lambda>w. w \<noteq> [] \<and> starts_with w s) ws of
        None \<Rightarrow> s
      | Some w \<Rightarrow> trim_front ws (drop (length w) s))"
  by pat_completeness auto
termination
  by (relation "measure (\<lambda>(ws, s). length s)") (auto dest!: find_prefix)

declare trim_front.simps [simp del]

definition trim_space :: "byte list \<Rightarrow> byte list" where
  "trim_space s = rev (trim_front (map rev white_space) (rev (trim_front white_space s)))"

definition is_digit :: "byte \<Rightarrow> bool" where
  "is_digit b \<longleftrightarrow> 48 \<le> b \<and> b \<le> 57"

section \<open>Decimal numbers\<close>

definition digits_value :: "byte list \<Rightarrow> int" where
  "digits_value ds = foldl (\<lambda>n d. n * 10 + (uint d - 48)) 0 ds"

text \<open>How a number is written in decimal.\<close>

fun dec :: "nat \<Rightarrow> byte list" where
  "dec n = (if n < 10 then [of_nat (48 + n)] else dec (n div 10) @ [of_nat (48 + n mod 10)])"

declare dec.simps [simp del]

lemma digit_uint: "n < 10 \<Longrightarrow> uint (of_nat (48 + n) :: byte) = 48 + int n"
proof -
  assume "n < 10"
  then have "int (48 + n) mod 256 = int (48 + n)" by (intro mod_pos_pos_trivial) simp_all
  moreover have "uint (of_nat k :: byte) = int k mod 256" for k
    by (simp only: unsigned_of_nat take_bit_eq_mod of_nat_mod) simp
  ultimately show ?thesis by (simp only:)
qed

lemma is_digit_uint: "is_digit b \<longleftrightarrow> 48 \<le> uint b \<and> uint b \<le> 57"
  by (simp add: is_digit_def word_le_def)

lemma dec_digits: "list_all is_digit (dec n) \<and> dec n \<noteq> [] \<and> digits_value (dec n) = int n"
proof (induction n rule: dec.induct)
  case (1 n)
  have d: "is_digit (of_nat (48 + k))" "uint (of_nat (48 + k) :: byte) = 48 + int k" if "k < 10" for k
    using digit_uint [OF that] that by (simp_all add: is_digit_uint)
  show ?case
  proof (cases "n < 10")
    case True
    with d [OF True] show ?thesis by (subst (1 2 3) dec.simps) (simp add: digits_value_def)
  next
    case False
    have m: "n mod 10 < 10" by simp
    from False 1 d [OF m] show ?thesis
      by (subst (1 2 3) dec.simps) (auto simp: digits_value_def zmod_int zdiv_int)
  qed
qed

definition itoa :: "int \<Rightarrow> byte list" where
  "itoa n = (if n < 0 then 45 # dec (nat (- n)) else dec (nat n))"

text \<open>
  \<open>strconv.Atoi\<close>: an optional sign and digits. A number outside the range is an error that comes
  with the nearest number inside; the scan stops where the digits leave the range of uint64.
\<close>

datatype scanned = Malformed | TooLarge | Digits int

fun scan_digits :: "int \<Rightarrow> byte list \<Rightarrow> scanned" where
  "scan_digits n [] = Digits n"
| "scan_digits n (c # cs) =
     (if \<not> is_digit c then Malformed
      else if n * 10 + (uint c - 48) \<ge> 2 ^ 64 then TooLarge
      else scan_digits (n * 10 + (uint c - 48)) cs)"

definition syntax_error :: goerr where "syntax_error = Err ''invalid syntax'' []"
definition range_error :: goerr where "range_error = Err ''value out of range'' []"

definition atoi :: "byte list \<Rightarrow> int \<times> goerr option" where
  "atoi s =
     (let neg = (s \<noteq> [] \<and> hd s = 45);
          ds = (if s \<noteq> [] \<and> (hd s = 45 \<or> hd s = 43) then tl s else s) in
      if ds = [] then (0, Some syntax_error)
      else
        (case scan_digits 0 ds of
           Malformed \<Rightarrow> (0, Some syntax_error)
         | TooLarge \<Rightarrow> (if neg then - (2 ^ 63) else 2 ^ 63 - 1, Some range_error)
         | Digits n \<Rightarrow>
             if \<not> neg \<and> n \<ge> 2 ^ 63 then (2 ^ 63 - 1, Some range_error)
             else if neg \<and> n > 2 ^ 63 then (- (2 ^ 63), Some range_error)
             else (if neg then - n else n, None)))"

section \<open>Host and port\<close>

definition SplitHostPort :: "byte list \<Rightarrow> (byte list \<times> byte list) option" where
  "SplitHostPort s =
     (if 58 \<notin> set s then None
      else
        (let port = rev (takeWhile (\<lambda>c. c \<noteq> 58) (rev s));
             i = length s - length port - 1;
             e = length (takeWhile (\<lambda>c. c \<noteq> 93) s) in
         if s ! 0 = 91 then
           (if e = length s \<or> e + 1 \<noteq> i then None
            else if 91 \<in> set (drop 1 s) \<or> 93 \<in> set (drop (e + 1) s) then None
            else Some (take (e - 1) (drop 1 s), port))
         else if 58 \<in> set (take i s) \<or> 91 \<in> set s \<or> 93 \<in> set s then None
         else Some (take i s, port)))"

definition JoinHostPort :: "byte list \<Rightarrow> byte list \<Rightarrow> byte list" where
  "JoinHostPort host port =
     (if 58 \<in> set host then 91 # host @ [93, 58] @ port else host @ 58 # port)"

section \<open>Facts\<close>

lemma starts_with_append [simp]: "starts_with p (p @ s)"
  by (simp add: starts_with_def)

lemma contains_starts: "starts_with p s \<Longrightarrow> contains p s"
  by (cases s) (auto simp: starts_with_def)

lemma contains_prepend: "contains p s \<Longrightarrow> contains p (a @ s)"
  by (induction a) auto

text \<open>A text without a byte of the separator is on one side of it.\<close>

lemma contains_split:
  assumes "contains p (a @ x # b)" and "x \<notin> set p" and "p \<noteq> []"
  shows "contains p a \<or> contains p b"
  using assms(1)
proof (induction a)
  case Nil
  then show ?case using assms(2,3) by (cases p) (auto simp: starts_with_def)
next
  case (Cons y a)
  show ?case
  proof (cases "starts_with p (y # a @ x # b)")
    case True
    then have p: "take (length p) (y # a @ x # b) = p" by (simp add: starts_with_def)
    have "length p \<le> length (y # a)"
    proof (rule ccontr)
      assume "\<not> length p \<le> length (y # a)"
      then have "x \<in> set (take (length p) (y # a @ x # b))" by (cases "length p") (auto simp: take_Cons' split: if_splits)
      with p assms(2) show False by simp
    qed
    with p have "starts_with p (y # a)" by (simp add: starts_with_def take_Cons' split: if_splits)
    then show ?thesis by (simp add: contains_starts)
  next
    case False
    with Cons show ?thesis by auto
  qed
qed

lemma contains_digits:
  assumes "contains p (a @ ds @ b)" and "list_all is_digit ds" and "ds \<noteq> []" and "list_all (\<lambda>c. \<not> is_digit c) p" and "p \<noteq> []"
  shows "contains p a \<or> contains p b"
  using assms(1,2,3)
proof (induction ds arbitrary: a)
  case (Cons d ds)
  have "d \<notin> set p" using Cons.prems(2) assms(4) by (auto simp: list_all_iff)
  with Cons.prems(1) assms(5) have *: "contains p a \<or> contains p (ds @ b)"
    using contains_split [of p a d "ds @ b"] by simp
  show ?case
  proof (cases "ds = []")
    case False
    with * Cons.IH [of "[]"] Cons.prems show ?thesis using assms(5) by auto
  qed (use * in simp)
qed simp

lemma dec_is_digits: "c \<in> set (dec n) \<Longrightarrow> is_digit c"
  using dec_digits [of n] by (simp add: list_all_iff)

lemma scan_digits_value:
  assumes "list_all is_digit ds" and "0 \<le> n" and "foldl (\<lambda>n d. n * 10 + (uint d - 48)) n ds < 2 ^ 64"
  shows "scan_digits n ds = Digits (foldl (\<lambda>n d. n * 10 + (uint d - 48)) n ds)"
  using assms
proof (induction ds arbitrary: n)
  case (Cons d ds)
  have le: "m \<le> foldl (\<lambda>n d. n * 10 + (uint d - 48)) m xs" if "0 \<le> m" "list_all is_digit xs" for m and xs :: "byte list"
    using that
  proof (induction xs arbitrary: m)
    case (Cons x xs)
    then have "m \<le> m * 10 + (uint x - 48)" "0 \<le> m * 10 + (uint x - 48)" by (simp_all add: is_digit_uint)
    with Cons show ?case by fastforce
  qed simp
  have d: "0 \<le> n * 10 + (uint d - 48)" using Cons.prems by (simp add: is_digit_uint)
  then have "n * 10 + (uint d - 48) < 2 ^ 64"
    using le [of "n * 10 + (uint d - 48)" ds] Cons.prems by simp
  with Cons d show ?case by simp
qed simp

lemma atoi_dec: "int n < 2 ^ 63 \<Longrightarrow> atoi (dec n) = (int n, None)"
proof -
  assume n: "int n < 2 ^ 63"
  have dd: "list_all is_digit (dec n)" "dec n \<noteq> []" "foldl (\<lambda>n d. n * 10 + (uint d - 48)) 0 (dec n) = int n"
    using dec_digits [of n] by (simp_all add: digits_value_def)
  have "is_digit (hd (dec n))" using dd(1,2) by (cases "dec n") auto
  then have "hd (dec n) \<noteq> 45" "hd (dec n) \<noteq> 43" by (auto simp: is_digit_def)
  moreover have "scan_digits 0 (dec n) = Digits (int n)"
    using scan_digits_value [of "dec n" 0] dd n by simp
  ultimately show ?thesis using n dd(2) by (simp add: atoi_def)
qed

lemma atoi_neg: "int n \<le> 2 ^ 63 \<Longrightarrow> atoi (45 # dec n) = (- int n, None)"
  using dec_digits [of n] scan_digits_value [of "dec n" 0] by (simp add: atoi_def digits_value_def)

text \<open>Printing a machine integer and reading it back.\<close>

lemma atoi_itoa: "- (2 ^ 63) \<le> n \<Longrightarrow> n < 2 ^ 63 \<Longrightarrow> atoi (itoa n) = (n, None)"
  using atoi_dec [of "nat n"] atoi_neg [of "nat (- n)"] by (auto simp: itoa_def)

lemma itoa_chars: "c \<in> set (itoa n) \<Longrightarrow> is_digit c \<or> c = 45"
  using dec_is_digits by (auto simp: itoa_def split: if_splits)

lemma find_none: "(\<And>w. w \<in> set ws \<Longrightarrow> w \<noteq> [] \<Longrightarrow> \<not> starts_with w s) \<Longrightarrow> trim_front ws s = s"
proof -
  assume "\<And>w. w \<in> set ws \<Longrightarrow> w \<noteq> [] \<Longrightarrow> \<not> starts_with w s"
  then have "find (\<lambda>w. w \<noteq> [] \<and> starts_with w s) ws = None" by (auto simp: find_None_iff)
  then show ?thesis by (subst trim_front.simps) simp
qed

lemma trim_front_plain: "33 \<le> c \<Longrightarrow> c < 128 \<Longrightarrow> trim_front white_space (c # s) = c # s"
  by (rule find_none) (auto simp: white_space_def starts_with_def word_le_def word_less_def)

lemma trim_back_plain: "33 \<le> c \<Longrightarrow> c < 128 \<Longrightarrow> trim_front (map rev white_space) (c # s) = c # s"
  by (rule find_none) (auto simp: white_space_def starts_with_def word_le_def word_less_def)

text \<open>Nothing is cut off a text that begins and ends with printable ASCII.\<close>

lemma trim_space_plain:
  assumes "s \<noteq> []" and "33 \<le> hd s" "hd s < 128" and "33 \<le> last s" "last s < 128"
  shows "trim_space s = s"
proof -
  have "trim_front white_space s = s" using assms by (cases s) (simp_all add: trim_front_plain)
  moreover have "rev s = last s # rev (butlast s)" using assms(1) by (metis append_butlast_last_id rev_eq_Cons_iff rev_rev_ident)
  then have "trim_front (map rev white_space) (rev s) = rev s" using trim_back_plain [OF assms(4,5)] by metis
  ultimately show ?thesis by (simp add: trim_space_def)
qed

text \<open>Splitting inverts joining; a host with a colon is an IPv6 address and stands in brackets.\<close>

lemma after_last: "58 \<notin> set port \<Longrightarrow> rev (takeWhile (\<lambda>c. c \<noteq> 58) (rev (pre @ (58 :: byte) # port))) = port"
  by (simp add: takeWhile_append)

lemma split_join:
  assumes "91 \<notin> set host" "93 \<notin> set host" and "58 \<notin> set port" "91 \<notin> set port" "93 \<notin> set port"
  shows "SplitHostPort (JoinHostPort host port) = Some (host, port)"
proof (cases "58 \<in> set host")
  case False
  let ?s = "host @ 58 # port"
  have first: "?s ! 0 \<noteq> 91" using assms(1) by (cases host) auto
  have "SplitHostPort ?s = Some (host, port)"
    unfolding SplitHostPort_def after_last [OF assms(3)] Let_def using False first assms by simp
  with False show ?thesis by (simp add: JoinHostPort_def)
next
  case True
  let ?s = "91 # host @ [93, 58] @ port"
  have s: "?s = (91 # host @ [93]) @ 58 # port" by simp
  have port: "rev (takeWhile (\<lambda>c. c \<noteq> 58) (rev ?s)) = port" unfolding s by (rule after_last [OF assms(3)])
  have e: "length (takeWhile (\<lambda>c. c \<noteq> 93) ?s) = length host + 1"
  proof -
    have "takeWhile (\<lambda>c. c \<noteq> 93) (host @ 93 # xs) = host" for xs
      using assms(2) by (metis (mono_tags, lifting) append_Nil2 takeWhile.simps(2) takeWhile_append2)
    then show ?thesis by simp
  qed
  have "SplitHostPort ?s = Some (host, port)"
    unfolding SplitHostPort_def port e Let_def using assms by simp
  with True show ?thesis by (simp add: JoinHostPort_def)
qed

end
