(* ===== verification/Backoff.thy ===== *)
theory Backoff
  imports Session Floats GoStrings
begin

text \<open>
  client/backoff.go and the reconnection part of client/reconnect.go: the retry schedule, the
  reconnect policy, the classification of a close reason, the cooldown and the reconnect loop.
  Durations are nanoseconds. The loop runs over a script of wake-ups; \<open>reconnect\<close>, the client's
  \<open>Reconnect\<close>, and the random source are parameters here.
\<close>

abbreviation second :: int where "second \<equiv> 1000000000"
abbreviation minute :: int where "minute \<equiv> 60000000000"

section \<open>ExponentialBackoff\<close>

record backoff =
  bo_base :: int
  bo_max :: int
  bo_factor :: rat
  bo_cur :: int

definition NewExponentialBackoff :: "int \<Rightarrow> rat \<Rightarrow> int \<Rightarrow> backoff" where
  "NewExponentialBackoff base factor mx =
     (let base1 = (if base \<le> 0 then second else base);
          factor1 = (if factor < 1 then 2 else factor);
          max1 = (if mx < base1 then base1 else mx) in
      \<lparr>bo_base = base1, bo_max = max1, bo_factor = factor1, bo_cur = base1\<rparr>)"

definition DefaultBackoff :: backoff where
  "DefaultBackoff = NewExponentialBackoff (3 * second) 2 (60 * minute)"

definition NextDelay :: "backoff \<Rightarrow> int \<times> backoff" where
  "NextDelay b =
     (let nxt = to_int64 (f64 (f64 (of_int (bo_cur b)) * bo_factor b)) in
      (bo_cur b, b\<lparr>bo_cur := if nxt > bo_max b \<or> nxt \<le> 0 then bo_max b else nxt\<rparr>))"

definition ResetDelay :: "backoff \<Rightarrow> backoff" where
  "ResetDelay b = b\<lparr>bo_cur := bo_base b\<rparr>"

section \<open>ReconnectPolicy\<close>

text \<open>The backoff is an interface value that may be nil.\<close>

record 'b reconnect_policy =
  rp_enabled :: bool
  rp_maxAttempts :: int
  rp_backoff :: "'b option"
  rp_resumeWithTimeout :: bool

definition DefaultReconnectPolicy :: "backoff reconnect_policy" where
  "DefaultReconnectPolicy =
     \<lparr>rp_enabled = True, rp_maxAttempts = 0, rp_backoff = Some DefaultBackoff, rp_resumeWithTimeout = True\<rparr>"

definition NewReconnectPolicy ::
    "(backoff reconnect_policy \<Rightarrow> backoff reconnect_policy) option list \<Rightarrow> backoff reconnect_policy" where
  "NewReconnectPolicy opts =
     (let p = foldl (\<lambda>p opt. case opt of None \<Rightarrow> p | Some f \<Rightarrow> f p) DefaultReconnectPolicy opts in
      case rp_backoff p of None \<Rightarrow> p\<lparr>rp_backoff := Some DefaultBackoff\<rparr> | Some _ \<Rightarrow> p)"

definition WithMaxAttempts :: "int \<Rightarrow> 'b reconnect_policy \<Rightarrow> 'b reconnect_policy" where
  "WithMaxAttempts n p = p\<lparr>rp_maxAttempts := n\<rparr>"

definition WithBackoff :: "'b option \<Rightarrow> 'b reconnect_policy \<Rightarrow> 'b reconnect_policy" where
  "WithBackoff b p = (case b of None \<Rightarrow> p | Some x \<Rightarrow> p\<lparr>rp_backoff := Some x\<rparr>)"

definition WithResumeTimeout :: "bool \<Rightarrow> 'b reconnect_policy \<Rightarrow> 'b reconnect_policy" where
  "WithResumeTimeout resume p = p\<lparr>rp_resumeWithTimeout := resume\<rparr>"

section \<open>Close reasons\<close>

datatype disconnect_kind =
    DisconnectKindClosed
  | DisconnectKindKicked
  | DisconnectKindBanned
  | DisconnectKindTimedOut
  | DisconnectKindShuttingDown
  | DisconnectKindFull
  | DisconnectKindFlooded
  | DisconnectKindWrongPassword
  | DisconnectKindUnknown

fun kind_string :: "disconnect_kind \<Rightarrow> string" where
  "kind_string DisconnectKindClosed = ''closed''"
| "kind_string DisconnectKindKicked = ''kicked''"
| "kind_string DisconnectKindBanned = ''banned''"
| "kind_string DisconnectKindTimedOut = ''timed_out''"
| "kind_string DisconnectKindShuttingDown = ''shutting_down''"
| "kind_string DisconnectKindFull = ''full''"
| "kind_string DisconnectKindFlooded = ''flooded''"
| "kind_string DisconnectKindWrongPassword = ''wrong_password''"
| "kind_string DisconnectKindUnknown = ''unknown''"

record disconnect_reason =
  dr_Kind :: disconnect_kind
  dr_Text :: "byte list"
  dr_BanDuration :: int

text \<open>The first match of \<open>for (\d+) minute\<close>: its digits.\<close>

definition match_minutes :: "byte list \<Rightarrow> byte list option" where
  "match_minutes s =
     (if starts_with (bytes_of ''for '') s then
        (let r = drop 4 s; ds = takeWhile is_digit r in
         if ds \<noteq> [] \<and> starts_with (bytes_of '' minute'') (dropWhile is_digit r) then Some ds else None)
      else None)"

fun find_minutes :: "byte list \<Rightarrow> byte list option" where
  "find_minutes [] = None"
| "find_minutes (x # xs) = (case match_minutes (x # xs) of Some ds \<Rightarrow> Some ds | None \<Rightarrow> find_minutes xs)"

text \<open>\<open>strconv.Atoi\<close> of a string of digits: an error outside the range of int.\<close>

definition atoi_digits :: "byte list \<Rightarrow> int option" where
  "atoi_digits ds = (if digits_value ds < 2 ^ 63 then Some (digits_value ds) else None)"

definition ban_duration :: "byte list \<Rightarrow> int" where
  "ban_duration low =
     (case find_minutes low of
        None \<Rightarrow> 0
      | Some ds \<Rightarrow> (case atoi_digits ds of None \<Rightarrow> 0 | Some mins \<Rightarrow> s64 (mins * minute)))"

definition NewDisconnectReason :: "byte list \<Rightarrow> disconnect_reason" where
  "NewDisconnectReason raw =
     (let low = map to_lower (trim_space raw);
          has = (\<lambda>p. contains (bytes_of p) low);
          reason = (\<lambda>k. \<lparr>dr_Kind = k, dr_Text = raw, dr_BanDuration = 0\<rparr>) in
      if low = [] then reason DisconnectKindClosed
      else if has ''wrong password'' \<or> has ''no password'' then reason DisconnectKindWrongPassword
      else if has ''too many connection'' \<or> has ''stressing'' then reason DisconnectKindFlooded
      else if has ''banned'' then (reason DisconnectKindBanned)\<lparr>dr_BanDuration := ban_duration low\<rparr>
      else if has ''kicked'' then reason DisconnectKindKicked
      else if has ''shutdown'' \<or> has ''shutting down'' \<or> has ''restart'' then reason DisconnectKindShuttingDown
      else if has ''full'' then reason DisconnectKindFull
      else if has ''timeout'' \<or> has ''timed out'' then reason DisconnectKindTimedOut
      else reason DisconnectKindUnknown)"

section \<open>The reconnect loop\<close>

definition floodCooldown :: int where "floodCooldown = 60 * second"

definition reconnectCooldown :: "disconnect_reason \<Rightarrow> int" where
  "reconnectCooldown r =
     (if dr_Kind r \<in> {DisconnectKindFlooded, DisconnectKindBanned, DisconnectKindFull}
      then (if dr_BanDuration r > floodCooldown then dr_BanDuration r else floodCooldown)
      else 0)"

text \<open>
  What ends a wait: the context, the close signal, or the timer; then whether the client is being
  closed or the context is over. A script that is used up leaves the loop waiting.
\<close>

datatype wake = CtxDone | CloseSignal | TimerFired bool

datatype loop_end = Cancelled | Connected | GaveUp | StillWaiting

definition next_wait :: "('b \<Rightarrow> int \<times> 'b) \<Rightarrow> disconnect_reason \<Rightarrow> 'b \<Rightarrow> int \<times> 'b" where
  "next_wait nxt r b =
     (let (d, b') = nxt b; cd = reconnectCooldown r in (if cd > d then cd else d, b'))"

text \<open>The waits it made, how it ended, and the client afterwards.\<close>

fun reconnect_attempts ::
    "('b \<Rightarrow> int \<times> 'b) \<Rightarrow> ('s \<Rightarrow> disconnect_reason) \<Rightarrow> ('s, unit) gost \<Rightarrow> int \<Rightarrow> int \<Rightarrow> wake list \<Rightarrow> 'b \<Rightarrow> 's \<Rightarrow>
     int list \<times> loop_end \<times> 's" where
  "reconnect_attempts nxt disc reconnect maxAttempts n [] b s =
     (if maxAttempts = 0 \<or> n < maxAttempts then ([fst (next_wait nxt (disc s) b)], StillWaiting, s)
      else ([], GaveUp, s))"
| "reconnect_attempts nxt disc reconnect maxAttempts n (w # ws) b s =
     (if maxAttempts = 0 \<or> n < maxAttempts then
        (let (delay, b') = next_wait nxt (disc s) b in
         case w of
           CtxDone \<Rightarrow> ([delay], Cancelled, s)
         | CloseSignal \<Rightarrow> ([delay], Cancelled, s)
         | TimerFired ended \<Rightarrow>
             if ended then ([delay], Cancelled, s)
             else
               (case reconnect s of
                  (Inr u, s') \<Rightarrow> ([delay], Connected, s')
                | (Inl e, s') \<Rightarrow>
                    (let (ds, r) = reconnect_attempts nxt disc reconnect maxAttempts (n + 1) ws b' s' in
                     (delay # ds, r))))
      else ([], GaveUp, s))"

definition reconnectLoop ::
    "('b \<Rightarrow> int \<times> 'b) \<Rightarrow> ('b \<Rightarrow> 'b) \<Rightarrow> ('s \<Rightarrow> disconnect_reason) \<Rightarrow> ('s \<Rightarrow> 's) \<Rightarrow> ('s, unit) gost \<Rightarrow>
     'b reconnect_policy \<Rightarrow> 'b \<Rightarrow> wake list \<Rightarrow> 's \<Rightarrow> int list \<times> loop_end \<times> 's" where
  "reconnectLoop nxt rst disc resetCode reconnect pol b ws s =
     reconnect_attempts nxt disc reconnect (rp_maxAttempts pol) 0 ws (rst b)
       (if rp_resumeWithTimeout pol then s else resetCode s)"

section \<open>Timeout codes\<close>

definition timeoutCodeAlphabet :: "byte list" where
  "timeoutCodeAlphabet = bytes_of ''abcdefghijklmnopqrstuvwxyzABCDEFGHIJKLMNOPQRSTUVWXYZ0123456789''"

text \<open>The random source gives 16 bytes or fails.\<close>

definition generateTimeoutCode :: "byte list option \<Rightarrow> byte list" where
  "generateTimeoutCode rnd16 =
     (case rnd16 of
        None \<Rightarrow> bytes_of ''twclientfallback''
      | Some bs \<Rightarrow> map (\<lambda>b. timeoutCodeAlphabet ! (unat b mod length timeoutCodeAlphabet)) bs)"

section \<open>The schedule a loop relies on\<close>

text \<open>
  The interface \<open>Backoff\<close>: what \<open>Next\<close> and \<open>Reset\<close> promise the loop. The delays rise, within
  the cap, and a reset starts over with the smallest.
\<close>

locale backoff_schedule =
  fixes nxt :: "'b \<Rightarrow> int \<times> 'b" and rst :: "'b \<Rightarrow> 'b" and inv :: "'b \<Rightarrow> bool" and cap :: "'b \<Rightarrow> int"
  assumes inv_rst: "inv b \<Longrightarrow> inv (rst b)"
    and inv_nxt: "inv b \<Longrightarrow> inv (snd (nxt b))"
    and positive: "inv b \<Longrightarrow> 0 < fst (nxt b)"
    and rising: "inv b \<Longrightarrow> fst (nxt b) \<le> fst (nxt (snd (nxt b)))"
    and capped: "inv b \<Longrightarrow> fst (nxt b) \<le> cap b"
    and cap_nxt: "cap (snd (nxt b)) = cap b"
    and first: "inv b \<Longrightarrow> fst (nxt (rst b)) \<le> fst (nxt b)"
begin

text \<open>The delay before attempt \<open>j\<close>.\<close>

definition delay_at :: "nat \<Rightarrow> 'b \<Rightarrow> int" where
  "delay_at j b = fst (nxt (((snd \<circ> nxt) ^^ j) b))"

lemma inv_at: "inv b \<Longrightarrow> inv (((snd \<circ> nxt) ^^ j) b)"
  by (induction j) (simp_all add: inv_nxt)

lemma delay_rises: "inv b \<Longrightarrow> i \<le> j \<Longrightarrow> delay_at i b \<le> delay_at j b"
proof (induction j)
  case (Suc j)
  then show ?case using rising [OF inv_at [of b j]] by (auto simp: delay_at_def le_Suc_eq)
qed simp

lemma delay_bounds: "inv b \<Longrightarrow> 0 < delay_at j b \<and> delay_at j b \<le> cap b"
proof -
  assume i: "inv b"
  have "cap (((snd \<circ> nxt) ^^ j) b) = cap b" by (induction j) (simp_all add: cap_nxt)
  with positive [OF inv_at [OF i, of j]] capped [OF inv_at [OF i, of j]] show ?thesis by (simp add: delay_at_def)
qed

lemma delay_Suc: "delay_at (Suc j) b = delay_at j (snd (nxt b))"
  by (simp add: delay_at_def funpow_swap1)

text \<open>Every wait of the loop is at least the schedule's.\<close>

lemma waits_ge:
  "reconnect_attempts nxt disc reconnect m n ws b s = (ds, e, t) \<Longrightarrow> j < length ds \<Longrightarrow> delay_at j b \<le> ds ! j"
proof (induction ws arbitrary: n b s ds e t j)
  case Nil
  then show ?case by (auto simp: next_wait_def delay_at_def Let_def split: if_splits prod.splits)
next
  case (Cons w ws)
  obtain d b' where d: "next_wait nxt (disc s) b = (d, b')" by fastforce
  then have h: "delay_at 0 b \<le> d" "b' = snd (nxt b)"
    by (auto simp: next_wait_def delay_at_def Let_def split: prod.splits if_splits)
  show ?case
  proof (cases j)
    case 0
    with Cons.prems d h show ?thesis by (auto simp: Let_def split: if_splits wake.splits prod.splits sum.splits)
  next
    case (Suc i)
    with Cons.prems d h show ?thesis
      by (auto simp: Let_def delay_Suc intro!: Cons.IH split: if_splits wake.splits prod.splits sum.splits)
  qed
qed

end

section \<open>The exponential schedule\<close>

definition valid_backoff :: "backoff \<Rightarrow> bool" where
  "valid_backoff b \<longleftrightarrow> 0 < bo_base b \<and> bo_base b \<le> bo_cur b \<and> bo_cur b \<le> bo_max b \<and> bo_max b \<le> 2 ^ 53 \<and>
     1 \<le> bo_factor b"

lemma NewExponentialBackoff_valid: "mx \<le> 2 ^ 53 \<Longrightarrow> base \<le> 2 ^ 53 \<Longrightarrow> valid_backoff (NewExponentialBackoff base factor mx)"
  by (auto simp: valid_backoff_def NewExponentialBackoff_def Let_def)

lemma NextDelay_rises:
  assumes "valid_backoff b"
  shows "bo_cur b \<le> bo_cur (snd (NextDelay b)) \<and> bo_cur (snd (NextDelay b)) \<le> bo_max b"
proof -
  have c: "\<bar>bo_cur b\<bar> \<le> 2 ^ 53" "bo_cur b > 0" using assms by (auto simp: valid_backoff_def)
  let ?p = "f64 (f64 (of_int (bo_cur b)) * bo_factor b)"
  have "of_int (bo_cur b) * 1 \<le> (of_int (bo_cur b) * bo_factor b :: rat)"
    using assms c(2) by (intro mult_left_mono) (auto simp: valid_backoff_def)
  then have "of_int (bo_cur b) \<le> ?p"
    using f64.above [OF c(1)] f64.ints [OF c(1)] by simp
  then have t: "bo_cur b \<le> trunc ?p" using c(2)
    by (auto simp: trunc_def le_floor_iff le_ceiling_iff)
  then have "bo_cur b \<le> to_int64 ?p \<or> to_int64 ?p \<le> 0" using c by (auto simp: to_int64_def)
  then show ?thesis using assms c(2) by (auto simp: NextDelay_def Let_def valid_backoff_def)
qed

interpretation expo: backoff_schedule NextDelay ResetDelay valid_backoff bo_max
proof unfold_locales
  fix b
  show "valid_backoff b \<Longrightarrow> valid_backoff (snd (NextDelay b))"
    using NextDelay_rises [of b] by (auto simp: valid_backoff_def NextDelay_def Let_def)
  show "valid_backoff b \<Longrightarrow> fst (NextDelay b) \<le> fst (NextDelay (snd (NextDelay b)))"
    using NextDelay_rises [of b] by (simp add: NextDelay_def Let_def)
qed (auto simp: valid_backoff_def ResetDelay_def NextDelay_def Let_def)

section \<open>Flood safety\<close>

lemma default_schedule:
  "expo.delay_at 0 DefaultBackoff = 3 * second" "expo.delay_at 1 DefaultBackoff = 6 * second"
  "expo.delay_at 2 DefaultBackoff = 12 * second" "expo.delay_at 3 DefaultBackoff = 24 * second"
proof -
  have "map (\<lambda>b. fst (NextDelay b)) (let b1 = snd (NextDelay DefaultBackoff); b2 = snd (NextDelay b1) in
      [DefaultBackoff, b1, b2, snd (NextDelay b2)]) = [3 * second, 6 * second, 12 * second, 24 * second]"
    by code_simp
  then show "expo.delay_at 0 DefaultBackoff = 3 * second" "expo.delay_at 1 DefaultBackoff = 6 * second"
    "expo.delay_at 2 DefaultBackoff = 12 * second" "expo.delay_at 3 DefaultBackoff = 24 * second"
    by (simp_all add: expo.delay_at_def Let_def numeral_2_eq_2 numeral_3_eq_3)
qed

lemma default_valid: "valid_backoff DefaultBackoff" "ResetDelay DefaultBackoff = DefaultBackoff"
  by (simp_all add: DefaultBackoff_def NewExponentialBackoff_def valid_backoff_def ResetDelay_def)

text \<open>
  C28: The default reconnect schedule keeps clear of a server's connection flood limit. In any run
  of the reconnect loop, however short, every wait is at least three seconds, and any four
  consecutive attempts span more than twenty seconds, whatever the attempts meet and however often
  they fail.
\<close>

theorem default_backoff_flood_safe:
  assumes "reconnectLoop NextDelay ResetDelay disc resetCode reconnect pol DefaultBackoff ws s = (ds, e, t)"
  shows "list_all (\<lambda>d. 3 * second \<le> d) ds \<and>
    (\<forall>i. i + 3 < length ds \<longrightarrow> ds ! (i + 1) + ds ! (i + 2) + ds ! (i + 3) > 20 * second)"
proof -
  have w: "expo.delay_at j DefaultBackoff \<le> ds ! j" if "j < length ds" for j
    using expo.waits_ge [OF assms(1) [unfolded reconnectLoop_def default_valid]] that by simp
  note rise = expo.delay_rises [OF default_valid(1)]
  have "20 * second < ds ! (i + 1) + ds ! (i + 2) + ds ! (i + 3)" if "i + 3 < length ds" for i
  proof -
    have "6 * second \<le> ds ! (i + 1)" "12 * second \<le> ds ! (i + 2)" "24 * second \<le> ds ! (i + 3)"
      using w [of "i + 1"] w [of "i + 2"] w [of "i + 3"] rise [of 1 "i + 1"] rise [of 2 "i + 2"] rise [of 3 "i + 3"]
        default_schedule that by simp_all
    then show ?thesis by simp
  qed
  moreover have "3 * second \<le> ds ! j" if "j < length ds" for j
    using w [OF that] rise [of 0 j] default_schedule(1) by simp
  ultimately show ?thesis by (auto simp: list_all_length)
qed

definition plain_drop :: disconnect_reason where
  "plain_drop = \<lparr>dr_Kind = DisconnectKindTimedOut, dr_Text = [], dr_BanDuration = 0\<rparr>"

lemma default_steps:
  "NextDelay DefaultBackoff = (3 * second, DefaultBackoff\<lparr>bo_cur := 6 * second\<rparr>)"
  "NextDelay (DefaultBackoff\<lparr>bo_cur := 6 * second\<rparr>) = (6 * second, DefaultBackoff\<lparr>bo_cur := 12 * second\<rparr>)"
  "NextDelay (DefaultBackoff\<lparr>bo_cur := 12 * second\<rparr>) = (12 * second, DefaultBackoff\<lparr>bo_cur := 24 * second\<rparr>)"
  "NextDelay (DefaultBackoff\<lparr>bo_cur := 24 * second\<rparr>) = (24 * second, DefaultBackoff\<lparr>bo_cur := 48 * second\<rparr>)"
  "NextDelay (DefaultBackoff\<lparr>bo_cur := 48 * second\<rparr>) = (48 * second, DefaultBackoff\<lparr>bo_cur := 96 * second\<rparr>)"
  by code_simp+

theorem default_backoff_flood_safe_witness:
  "fst (reconnectLoop NextDelay ResetDelay (\<lambda>_. plain_drop) (\<lambda>s. s) (\<lambda>s. (Inl IoEOF, s)) DefaultReconnectPolicy
     DefaultBackoff (replicate 4 (TimerFired False)) ()) = [3 * second, 6 * second, 12 * second, 24 * second, 48 * second] \<and>
   (6 + 12 + 24) * second > 20 * second"
proof -
  let ?run = "reconnectLoop NextDelay ResetDelay (\<lambda>_. plain_drop) (\<lambda>s. s) (\<lambda>s. (Inl IoEOF, s)) DefaultReconnectPolicy
     DefaultBackoff (replicate 4 (TimerFired False)) ()"
  have r: "fst ?run = [3 * second, 6 * second, 12 * second, 24 * second, 48 * second]"
    by (simp add: reconnectLoop_def default_valid default_steps [simplified] next_wait_def plain_drop_def reconnectCooldown_def
        DefaultReconnectPolicy_def eval_nat_numeral)
  obtain e t where "?run = ([3 * second, 6 * second, 12 * second, 24 * second, 48 * second], e, t)"
    using r by (metis prod.collapse)
  from default_backoff_flood_safe [OF this] show ?thesis unfolding r by (simp add: spec [of _ 0])
qed

section \<open>Ban messages\<close>

definition ban_message :: "nat \<Rightarrow> byte list \<Rightarrow> byte list" where
  "ban_message n reason =
     bytes_of ''You have been banned for '' @ dec n @ bytes_of '' minutes ('' @ reason @ bytes_of '')''"

lemma find_skip: "x \<noteq> 102 \<Longrightarrow> find_minutes (x # xs) = find_minutes xs"
  by (auto simp: match_minutes_def starts_with_def bytes_of_def of_char_def split: option.splits)

lemma match_here:
  assumes "list_all is_digit ds" and "ds \<noteq> []"
  shows "match_minutes (bytes_of ''for '' @ ds @ bytes_of '' minute'' @ rest) = Some ds"
proof -
  have "takeWhile is_digit (ds @ bytes_of '' minute'' @ rest) = ds"
    "dropWhile is_digit (ds @ bytes_of '' minute'' @ rest) = bytes_of '' minute'' @ rest"
    using assms(1) by (auto simp: list_all_iff bytes_of_def is_digit_def)
  moreover have "length (bytes_of ''for '') = 4" by (simp add: bytes_of_def)
  ultimately show ?thesis
    using assms(2) by (simp add: match_minutes_def Let_def)
qed

lemma find_here: "match_minutes s = Some ds \<Longrightarrow> find_minutes s = Some ds"
  by (cases s) (simp_all add: match_minutes_def starts_with_def bytes_of_def)

lemma find_ban:
  assumes "list_all is_digit ds" and "ds \<noteq> []"
  shows "find_minutes (bytes_of ''you have been banned for '' @ ds @ bytes_of '' minute'' @ rest) = Some ds"
proof -
  have "bytes_of ''you have been banned for '' = bytes_of ''you have been banned '' @ bytes_of ''for ''"
    by (simp add: bytes_of_def)
  moreover have "find_minutes (bytes_of ''you have been banned '' @ s) = find_minutes s" for s
    by (simp add: bytes_of_def of_char_def find_skip del: find_minutes.simps)
  ultimately show ?thesis using find_here [OF match_here [OF assms]] by simp
qed

lemma lower_digits: "list_all is_digit ds \<Longrightarrow> map to_lower ds = ds"
  by (induction ds) (auto simp: to_lower_def is_digit_uint word_le_def)

lemma lower_ban:
  "map to_lower (ban_message n reason) =
     bytes_of ''you have been banned for '' @ dec n @ bytes_of '' minute'' @ bytes_of ''s ('' @ map to_lower reason @ bytes_of '')''"
  using dec_digits [of n] by (simp add: ban_message_def bytes_of_def of_char_def to_lower_def lower_digits)

lemma trim_ban: "trim_space (ban_message n reason) = ban_message n reason"
  by (rule trim_space_plain) (simp_all add: ban_message_def bytes_of_def of_char_def)

text \<open>A needle of letters and blanks is found in the message only if it is in the reason.\<close>

lemma contains_ban:
  assumes "contains p (map to_lower (ban_message n reason))"
    and "list_all (\<lambda>c. \<not> is_digit c \<and> c \<noteq> 40 \<and> c \<noteq> 41) p" and "p \<noteq> []"
  shows "contains p (bytes_of ''you have been banned for '') \<or> contains p (bytes_of '' minutes '') \<or>
    contains p (map to_lower reason)"
proof -
  have np: "40 \<notin> set p" "41 \<notin> set p" "list_all (\<lambda>c. \<not> is_digit c) p"
    using assms(2) by (auto simp: list_all_iff)
  have low: "map to_lower (ban_message n reason) =
      bytes_of ''you have been banned for '' @ dec n @ (bytes_of '' minutes '' @ 40 # (map to_lower reason @ 41 # []))"
    by (simp add: lower_ban bytes_of_def of_char_def)
  from assms(1) have "contains p (bytes_of ''you have been banned for '') \<or>
      contains p (bytes_of '' minutes '' @ 40 # (map to_lower reason @ 41 # []))"
    unfolding low using contains_digits np(3) assms(3) dec_digits by blast
  then show ?thesis
    using contains_split [OF _ np(1) assms(3)] contains_split [OF _ np(2) assms(3), of "map to_lower reason" "[]"] assms(3)
    by fastforce
qed

text \<open>
  A ban message is understood. The reason text a DDNet server sends with a ban of so many
  minutes is classified as a ban, its duration is the number of minutes in the message, exactly and for
  every number of minutes a duration can hold, and the text is kept verbatim; the administrator's
  own words decide only if they spell one of the four phrases that are looked for first.
\<close>

theorem ban_message_understood:
  assumes "int n * minute < 2 ^ 63"
    and "\<not> contains (bytes_of ''wrong password'') (map to_lower reason)"
    and "\<not> contains (bytes_of ''no password'') (map to_lower reason)"
    and "\<not> contains (bytes_of ''too many connection'') (map to_lower reason)"
    and "\<not> contains (bytes_of ''stressing'') (map to_lower reason)"
  shows "NewDisconnectReason (ban_message n reason) =
    \<lparr>dr_Kind = DisconnectKindBanned, dr_Text = ban_message n reason, dr_BanDuration = int n * minute\<rparr>"
proof -
  let ?low = "map to_lower (ban_message n reason)"
  have no: "\<not> contains (bytes_of p) ?low"
    if "\<not> contains (bytes_of p) (map to_lower reason)" "p \<noteq> []"
      "list_all (\<lambda>c. \<not> is_digit c \<and> c \<noteq> 40 \<and> c \<noteq> 41) (bytes_of p)"
      "\<not> contains (bytes_of p) (bytes_of ''you have been banned for '')" "\<not> contains (bytes_of p) (bytes_of '' minutes '')"
    for p
    using contains_ban [of "bytes_of p" n reason] that by (auto simp: bytes_of_def)
  have "\<not> contains (bytes_of ''wrong password'') ?low" by (rule no [OF assms(2)]) code_simp+
  moreover have "\<not> contains (bytes_of ''no password'') ?low" by (rule no [OF assms(3)]) code_simp+
  moreover have "\<not> contains (bytes_of ''too many connection'') ?low" by (rule no [OF assms(4)]) code_simp+
  moreover have "\<not> contains (bytes_of ''stressing'') ?low" by (rule no [OF assms(5)]) code_simp+
  moreover have "contains (bytes_of ''banned'') ?low"
  proof -
    have "?low = bytes_of ''you have been '' @ bytes_of ''banned'' @ (bytes_of '' for '' @ dec n @ bytes_of '' minute''
        @ bytes_of ''s ('' @ map to_lower reason @ bytes_of '')'')"
      unfolding lower_ban by (simp add: bytes_of_def)
    then show ?thesis by (metis contains_prepend contains_starts starts_with_append)
  qed
  moreover have "?low \<noteq> []" by (simp add: lower_ban bytes_of_def)
  moreover have "ban_duration ?low = int n * minute"
  proof -
    have "find_minutes ?low = Some (dec n)" unfolding lower_ban by (rule find_ban) (use dec_digits in auto)
    moreover have "int n < 2 ^ 63" "- (2 ^ 63) \<le> int n * minute" using assms(1) by simp_all
    ultimately show ?thesis
      using assms(1) dec_digits [of n] by (simp add: ban_duration_def atoi_digits_def s64_def signed_take_bit_int_eq_self)
  qed
  ultimately show ?thesis
    unfolding NewDisconnectReason_def trim_ban Let_def by (simp only: if_False if_True simp_thms) simp
qed

theorem ban_message_understood_witness:
  "NewDisconnectReason (ban_message 5 (bytes_of ''cheating'')) =
    \<lparr>dr_Kind = DisconnectKindBanned, dr_Text = ban_message 5 (bytes_of ''cheating''), dr_BanDuration = 5 * minute\<rparr>"
proof -
  have "NewDisconnectReason (ban_message 5 (bytes_of ''cheating'')) =
    \<lparr>dr_Kind = DisconnectKindBanned, dr_Text = ban_message 5 (bytes_of ''cheating''), dr_BanDuration = int 5 * minute\<rparr>"
    by (rule ban_message_understood) code_simp+
  then show ?thesis by simp
qed

text \<open>The phrase of a rate ban comes first: the stated duration is lost, and with it the longer cooldown.\<close>

lemma rate_ban_duration_lost:
  "reconnectCooldown (NewDisconnectReason (ban_message 30 (bytes_of ''Stressing network''))) = floodCooldown"
  by code_simp

text \<open>Sixty seconds are the least wait after a refusal.\<close>

lemma refusal_waits: "dr_Kind r \<in> {DisconnectKindFlooded, DisconnectKindBanned, DisconnectKindFull} \<Longrightarrow>
    floodCooldown \<le> fst (next_wait nxt r b)"
  by (auto simp: next_wait_def reconnectCooldown_def Let_def split: prod.splits)

end
