(* ===== verification/Physics.thy ===== *)
theory Physics
  imports Floats
begin

text \<open>
  The package physics: vectors, tunings, collision, the tick of one tee and of a set of tees. Every
  \<open>float32\<close> operation rounds (theory Floats); the square root goes through \<open>float64\<close>, correctly
  rounded; \<open>math.Pow\<close> is the parameter \<open>pow\<close>. A pointer to a peer is its index in the set.
\<close>

section \<open>Square root\<close>

function isqrt :: "int \<Rightarrow> int" where
  "isqrt n = (if n \<le> 0 then 0 else (let r = 2 * isqrt (n div 4) in if (r + 1) * (r + 1) \<le> n then r + 1 else r))"
  by pat_completeness auto
termination
  by (relation "measure nat") auto

declare isqrt.simps [simp del]

text \<open>\<open>math.Sqrt\<close>: the integer root of a scaled argument, with a sticky half bit, rounded once.\<close>

definition sqrt64 :: "rat \<Rightarrow> rat" where
  "sqrt64 q =
     (if q \<le> 0 then 0
      else
        (let k = 60 - lg q div 2; y = q * 2 powi (2 * k); n = isqrt \<lfloor>y\<rfloor>;
             r = (if of_int (n * n) = y then of_int n else of_int n + 1 / 2) in
         f64 r * 2 powi (- k)))"

section \<open>Vectors\<close>

record vec2 =
  vx :: rat
  vy :: rat

definition mk :: "rat \<Rightarrow> rat \<Rightarrow> vec2" where "mk x y = \<lparr>vx = x, vy = y\<rparr>"

definition vadd :: "vec2 \<Rightarrow> vec2 \<Rightarrow> vec2" where "vadd a b = mk (f32 (vx a + vx b)) (f32 (vy a + vy b))"
definition vsub :: "vec2 \<Rightarrow> vec2 \<Rightarrow> vec2" where "vsub a b = mk (f32 (vx a - vx b)) (f32 (vy a - vy b))"
definition vscale :: "vec2 \<Rightarrow> rat \<Rightarrow> vec2" where "vscale a s = mk (f32 (vx a * s)) (f32 (vy a * s))"

definition dot :: "vec2 \<Rightarrow> vec2 \<Rightarrow> rat" where
  "dot a b = f32 (f32 (vx a * vx b) + f32 (vy a * vy b))"

definition vlength :: "vec2 \<Rightarrow> rat" where
  "vlength v = f32 (sqrt64 (f32 (f32 (vx v * vx v) + f32 (vy v * vy v))))"

definition distance :: "vec2 \<Rightarrow> vec2 \<Rightarrow> rat" where
  "distance a b = vlength (vsub a b)"

definition vnormalize :: "vec2 \<Rightarrow> vec2" where
  "vnormalize v =
     (let d = vlength v in
      if d = 0 then mk 0 0 else (let l = f32 (1 / d) in mk (f32 (vx v * l)) (f32 (vy v * l))))"

definition mix :: "vec2 \<Rightarrow> vec2 \<Rightarrow> rat \<Rightarrow> vec2" where
  "mix a b t =
     mk (f32 (vx a + f32 (f32 (vx b - vx a) * t))) (f32 (vy a + f32 (f32 (vy b - vy a) * t)))"

definition closestPointOnLine :: "vec2 \<Rightarrow> vec2 \<Rightarrow> vec2 \<Rightarrow> vec2 option" where
  "closestPointOnLine a b p =
     (let ab = vsub b a; sq = dot ab ab in
      if sq \<le> 0 then None
      else
        (let t = f32 (dot (vsub p a) ab / sq); t' = (if t < 0 then 0 else if t > 1 then 1 else t) in
         Some (vadd a (vscale ab t'))))"

definition saturatedAdd :: "rat \<Rightarrow> rat \<Rightarrow> rat \<Rightarrow> rat \<Rightarrow> rat" where
  "saturatedAdd mn mx current modifier =
     (if modifier < 0 then
        (if current < mn then current
         else (let c = f32 (current + modifier) in if c < mn then mn else c))
      else
        (if current > mx then current
         else (let c = f32 (current + modifier) in if c > mx then mx else c)))"

definition velocityRamp :: "(rat \<Rightarrow> rat \<Rightarrow> rat) \<Rightarrow> rat \<Rightarrow> rat \<Rightarrow> rat \<Rightarrow> rat \<Rightarrow> rat" where
  "velocityRamp pow val start rng curvature =
     (if val < start then 1 else f32 (f64 (1 / pow curvature (f32 (f32 (val - start) / rng)))))"

section \<open>Input, tuning, configuration\<close>

record phys_input =
  in_Direction :: int
  in_TargetX :: int
  in_TargetY :: int
  in_Jump :: bool
  in_Hook :: bool
  in_FireGrenade :: bool
  in_JumpTick :: int

record tuning =
  Gravity :: rat
  GroundControlSpeed :: rat
  GroundControlAccel :: rat
  GroundFriction :: rat
  AirControlSpeed :: rat
  AirControlAccel :: rat
  AirFriction :: rat
  GroundJumpImpulse :: rat
  AirJumpImpulse :: rat
  HookLength :: rat
  HookFireSpeed :: rat
  HookDragAccel :: rat
  HookDragSpeed :: rat
  VelrampStart :: rat
  VelrampRange :: rat
  VelrampCurvature :: rat
  GrenadeSpeed :: rat
  GrenadeCurvature :: rat
  GrenadeLifetime :: rat
  ExplosionStrength :: rat
  GunSpeed :: rat
  GunCurvature :: rat
  ShotgunSpeed :: rat
  ShotgunCurvature :: rat

definition DefaultTuning :: tuning where
  "DefaultTuning = \<lparr>Gravity = 1 / 2, GroundControlSpeed = 10, GroundControlAccel = 2, GroundFriction = 1 / 2,
     AirControlSpeed = 5, AirControlAccel = 3 / 2, AirFriction = f32 (95 / 100),
     GroundJumpImpulse = f32 (132 / 10), AirJumpImpulse = 12,
     HookLength = 380, HookFireSpeed = 80, HookDragAccel = 3, HookDragSpeed = 15,
     VelrampStart = 550, VelrampRange = 2000, VelrampCurvature = f32 (14 / 10),
     GrenadeSpeed = 1000, GrenadeCurvature = 7, GrenadeLifetime = 2, ExplosionStrength = 6,
     GunSpeed = 2200, GunCurvature = 125 / 100, ShotgunSpeed = 2750, ShotgunCurvature = 125 / 100\<rparr>"

definition WeaponGun :: int where "WeaponGun = 2"
definition WeaponShotgun :: int where "WeaponShotgun = 3"
definition WeaponGrenade :: int where "WeaponGrenade = 4"
definition TickSpeed :: rat where "TickSpeed = 50"
definition PhysicalSize :: rat where "PhysicalSize = 28"
definition DefaultJumps :: int where "DefaultJumps = 2"
definition TileSize :: int where "TileSize = 32"
definition HookRetracted :: int where "HookRetracted = -1"
definition HookIdle :: int where "HookIdle = 0"
definition HookRetractStart :: int where "HookRetractStart = 1"
definition HookRetractEnd :: int where "HookRetractEnd = 3"
definition HookFlying :: int where "HookFlying = 4"
definition HookGrabbed :: int where "HookGrabbed = 5"

definition ProjectilePos :: "tuning \<Rightarrow> vec2 \<Rightarrow> vec2 \<Rightarrow> int \<Rightarrow> rat \<Rightarrow> vec2" where
  "ProjectilePos t start dir weapon time =
     (let (curvature, speed) =
        (if weapon = WeaponGrenade then (GrenadeCurvature t, GrenadeSpeed t)
         else if weapon = WeaponShotgun then (ShotgunCurvature t, ShotgunSpeed t)
         else (GunCurvature t, GunSpeed t));
          st = f32 (speed * time) in
      mk (f32 (vx start + f32 (vx dir * st)))
         (f32 (f32 (vy start + f32 (vy dir * st)) + f32 (f32 (f32 (curvature / 10000) * st) * st))))"

record world_config =
  IsVanilla :: bool
  IsDDRace :: bool
  PredictWeapons :: bool
  PredictFreeze :: bool
  PredictTiles :: bool
  PredictDDRace :: bool

definition DefaultWorldConfig :: world_config where
  "DefaultWorldConfig = \<lparr>IsVanilla = True, IsDDRace = False, PredictWeapons = True, PredictFreeze = False,
     PredictTiles = False, PredictDDRace = False\<rparr>"

definition DDRaceWorldConfig :: world_config where
  "DDRaceWorldConfig = \<lparr>IsVanilla = False, IsDDRace = True, PredictWeapons = True, PredictFreeze = True,
     PredictTiles = True, PredictDDRace = True\<rparr>"

section \<open>Collision\<close>

text \<open>The predicates over tiles; all but the first may be nil.\<close>

record collision =
  col_Solid :: "int \<Rightarrow> int \<Rightarrow> bool"
  col_NoHook :: "(int \<Rightarrow> int \<Rightarrow> bool) option"
  col_HookThrough :: "(int \<Rightarrow> int \<Rightarrow> bool) option"
  col_Freeze :: "(int \<Rightarrow> int \<Rightarrow> bool) option"

definition roundToInt :: "rat \<Rightarrow> int" where
  "roundToInt f = (if f > 0 then to_int64 (f32 (f + 1 / 2)) else to_int64 (f32 (f - 1 / 2)))"

definition tileOf :: "int \<Rightarrow> int" where
  "tileOf world = go_div world TileSize"

definition CheckPoint :: "collision \<Rightarrow> rat \<Rightarrow> rat \<Rightarrow> bool" where
  "CheckPoint c x y = col_Solid c (tileOf (roundToInt x)) (tileOf (roundToInt y))"

definition tile_flag :: "(int \<Rightarrow> int \<Rightarrow> bool) option \<Rightarrow> rat \<Rightarrow> rat \<Rightarrow> bool" where
  "tile_flag f x y = (case f of None \<Rightarrow> False | Some p \<Rightarrow> p (tileOf (roundToInt x)) (tileOf (roundToInt y)))"

definition checkNoHook :: "collision \<Rightarrow> rat \<Rightarrow> rat \<Rightarrow> bool" where
  "checkNoHook c x y = tile_flag (col_NoHook c) x y"

definition col_Frozen :: "collision \<Rightarrow> rat \<Rightarrow> rat \<Rightarrow> bool" where
  "col_Frozen c x y = tile_flag (col_Freeze c) x y"

definition hookThroughAt :: "collision \<Rightarrow> rat \<Rightarrow> rat \<Rightarrow> bool" where
  "hookThroughAt c x y = tile_flag (col_HookThrough c) x y"

definition TestBox :: "collision \<Rightarrow> vec2 \<Rightarrow> rat \<Rightarrow> rat \<Rightarrow> bool" where
  "TestBox c pos w h =
     (let w' = f32 (w * (1 / 2)); h' = f32 (h * (1 / 2)) in
      CheckPoint c (f32 (vx pos - w')) (f32 (vy pos - h')) \<or>
      CheckPoint c (f32 (vx pos + w')) (f32 (vy pos - h')) \<or>
      CheckPoint c (f32 (vx pos - w')) (f32 (vy pos + h')) \<or>
      CheckPoint c (f32 (vx pos + w')) (f32 (vy pos + h')))"

text \<open>One step of \<open>MoveBox\<close>: position, velocity, grounded.\<close>

definition box_step ::
    "collision \<Rightarrow> rat \<Rightarrow> rat \<Rightarrow> rat \<Rightarrow> vec2 \<times> vec2 \<times> bool \<Rightarrow> vec2 \<times> vec2 \<times> bool" where
  "box_step c fr w h st = (case st of (p, v, grounded) \<Rightarrow>
     let np = vadd p (vscale v fr) in
     if TestBox c np w h then
       (let hitY = TestBox c (mk (vx p) (vy np)) w h;
            g1 = (if hitY \<and> vy v > 0 then True else grounded);
            np1 = (if hitY then mk (vx np) (vy p) else np);
            v1 = (if hitY then mk (vx v) 0 else v);
            hitX = TestBox c (mk (vx np1) (vy p)) w h;
            np2 = (if hitX then mk (vx p) (vy np1) else np1);
            v2 = (if hitX then mk 0 (vy v1) else v1) in
        if \<not> hitY \<and> \<not> hitX then (p, mk 0 0, if vy v2 > 0 then True else g1)
        else (np2, v2, g1))
     else (np, v, grounded))"

fun box_steps ::
    "nat \<Rightarrow> collision \<Rightarrow> rat \<Rightarrow> rat \<Rightarrow> rat \<Rightarrow> vec2 \<times> vec2 \<times> bool \<Rightarrow> vec2 \<times> vec2 \<times> bool" where
  "box_steps 0 c fr w h st = st"
| "box_steps (Suc n) c fr w h st = box_steps n c fr w h (box_step c fr w h st)"

definition MoveBox :: "collision \<Rightarrow> vec2 \<Rightarrow> vec2 \<Rightarrow> rat \<Rightarrow> rat \<Rightarrow> vec2 \<times> vec2 \<times> bool" where
  "MoveBox c pos vel w h =
     (let ds = vlength vel in
      if ds \<le> f32 (1 / 100000) then (pos, vel, False)
      else
        (let mx = to_int64 ds; fr = f32 (1 / f32 (of_int (mx + 1))) in
         box_steps (nat (mx + 1)) c fr w h (pos, vel, False)))"

text \<open>The walk along a segment: the first blocked point.\<close>

definition walk_line :: "(vec2 \<Rightarrow> bool) \<Rightarrow> vec2 \<Rightarrow> vec2 \<Rightarrow> vec2 option" where
  "walk_line blocked p0 p1 =
     (let n = to_int64 (distance p0 p1) + 1 in
      find blocked (map (\<lambda>i. mix p0 p1 (f32 (f32 (of_int i) / f32 (of_int n)))) [0..n]))"

definition IntersectLine :: "collision \<Rightarrow> vec2 \<Rightarrow> vec2 \<Rightarrow> bool \<times> vec2 \<times> bool" where
  "IntersectLine c p0 p1 =
     (case walk_line (\<lambda>p. CheckPoint c (vx p) (vy p)) p0 p1 of
        Some p \<Rightarrow> (True, p, checkNoHook c (vx p) (vy p))
      | None \<Rightarrow> (False, p1, False))"

definition IntersectLineHook :: "collision \<Rightarrow> vec2 \<Rightarrow> vec2 \<Rightarrow> bool \<times> vec2 \<times> bool" where
  "IntersectLineHook c p0 p1 =
     (case walk_line (\<lambda>p. CheckPoint c (vx p) (vy p) \<and> \<not> hookThroughAt c (vx p) (vy p)) p0 p1 of
        Some p \<Rightarrow> (True, p, checkNoHook c (vx p) (vy p))
      | None \<Rightarrow> (False, p1, False))"

section \<open>One tee\<close>

record grenade =
  g_start :: vec2
  g_dir :: vec2
  g_age :: int

record core =
  Pos :: vec2
  Vel :: vec2
  c_Direction :: int
  c_Angle :: int
  Jumped :: int
  Jumps :: int
  JumpedTotal :: int
  HookState :: int
  HookPos :: vec2
  HookDir :: vec2
  HookTick :: int
  HookedPlayer :: int
  c_grenades :: "grenade list"
  c_prevFire :: bool
  c_col :: collision
  c_tun :: tuning
  c_cfg :: world_config

text \<open>\<open>NewCore\<close> on a collision model; a nil one is replaced by the solid world, see MapView.\<close>

definition NewCore :: "collision \<Rightarrow> vec2 \<Rightarrow> core" where
  "NewCore col pos = \<lparr>Pos = pos, Vel = mk 0 0, c_Direction = 0, c_Angle = 0, Jumped = 0, Jumps = DefaultJumps,
     JumpedTotal = 0, HookState = HookIdle, HookPos = mk 0 0, HookDir = mk 0 0, HookTick = 0, HookedPlayer = -1,
     c_grenades = [], c_prevFire = False, c_col = col, c_tun = DefaultTuning, c_cfg = DefaultWorldConfig\<rparr>"

definition SetTuning :: "tuning \<Rightarrow> core \<Rightarrow> core" where "SetTuning t c = c\<lparr>c_tun := t\<rparr>"
definition SetWorldConfig :: "world_config \<Rightarrow> core \<Rightarrow> core" where "SetWorldConfig cfg c = c\<lparr>c_cfg := cfg\<rparr>"

definition Frozen :: "core \<Rightarrow> bool" where
  "Frozen c \<longleftrightarrow> PredictFreeze (c_cfg c) \<and> col_Frozen (c_col c) (vx (Pos c)) (vy (Pos c))"

definition Grounded :: "core \<Rightarrow> bool" where
  "Grounded c =
     (let half = PhysicalSize / 2; y = f32 (f32 (vy (Pos c) + half) + 5) in
      CheckPoint (c_col c) (f32 (vx (Pos c) + half)) y \<or> CheckPoint (c_col c) (f32 (vx (Pos c) - half)) y)"

definition frozen_input :: "core \<Rightarrow> phys_input \<Rightarrow> phys_input" where
  "frozen_input c i =
     (if Frozen c then i\<lparr>in_Direction := 0, in_Jump := False, in_Hook := False, in_FireGrenade := False\<rparr> else i)"

definition land :: "core \<Rightarrow> core" where
  "land c = c\<lparr>Jumped := Jumped c AND NOT 2, JumpedTotal := 0\<rparr>"

definition set_vy :: "rat \<Rightarrow> core \<Rightarrow> core" where "set_vy y c = c\<lparr>Vel := mk (vx (Vel c)) y\<rparr>"
definition set_vx :: "rat \<Rightarrow> core \<Rightarrow> core" where "set_vx x c = c\<lparr>Vel := mk x (vy (Vel c))\<rparr>"

definition jump_edge :: "bool \<Rightarrow> phys_input \<Rightarrow> core \<Rightarrow> core" where
  "jump_edge grounded i c =
     (if in_Jump i then
        (if Jumped c AND 1 = 0 then
           (if grounded \<and> (Jumped c AND 2 = 0 \<or> Jumps c \<noteq> 0) then
              (set_vy (- GroundJumpImpulse (c_tun c)) c)
                \<lparr>Jumped := (if Jumps c > 1 then Jumped c OR 1 else Jumped c OR 3), JumpedTotal := 0\<rparr>
            else if Jumped c AND 2 = 0 then
              (set_vy (- AirJumpImpulse (c_tun c)) c)\<lparr>Jumped := Jumped c OR 3, JumpedTotal := JumpedTotal c + 1\<rparr>
            else c)
         else c)
      else c\<lparr>Jumped := Jumped c AND NOT 1\<rparr>)"

definition hook_edge :: "vec2 \<Rightarrow> phys_input \<Rightarrow> core \<Rightarrow> core" where
  "hook_edge targetDir i c =
     (if in_Hook i then
        (if HookState c = HookIdle then
           c\<lparr>HookState := HookFlying, HookPos := vadd (Pos c) (vscale targetDir 42), HookDir := targetDir, HookTick := 0\<rparr>
         else c)
      else c\<lparr>HookState := HookIdle, HookPos := Pos c, HookedPlayer := -1\<rparr>)"

definition horizontal :: "bool \<Rightarrow> core \<Rightarrow> core" where
  "horizontal grounded c =
     (let t = c_tun c;
          maxSpeed = (if grounded then GroundControlSpeed t else AirControlSpeed t);
          accel = (if grounded then GroundControlAccel t else AirControlAccel t);
          friction = (if grounded then GroundFriction t else AirFriction t) in
      if c_Direction c < 0 then set_vx (saturatedAdd (- maxSpeed) maxSpeed (vx (Vel c)) (- accel)) c
      else if c_Direction c > 0 then set_vx (saturatedAdd (- maxSpeed) maxSpeed (vx (Vel c)) accel) c
      else set_vx (f32 (vx (Vel c) * friction)) c)"

definition posAt :: "tuning \<Rightarrow> grenade \<Rightarrow> int \<Rightarrow> vec2" where
  "posAt tun g age =
     (let t = f32 (f32 (f32 (of_int age) / TickSpeed) * GrenadeSpeed tun) in
      mk (f32 (vx (g_start g) + f32 (vx (g_dir g) * t)))
         (f32 (f32 (vy (g_start g) + f32 (vy (g_dir g) * t)) +
            f32 (f32 (f32 (GrenadeCurvature tun / 10000) * t) * t))))"

definition clamp01 :: "rat \<Rightarrow> rat" where
  "clamp01 v = (if v < 0 then 0 else if v > 1 then 1 else v)"

text \<open>One grenade: what is kept of it and the tee after a possible explosion.\<close>

definition tick_grenade :: "grenade \<Rightarrow> core \<Rightarrow> grenade list \<times> core" where
  "tick_grenade g c =
     (let p0 = posAt (c_tun c) g (g_age g); g1 = g\<lparr>g_age := g_age g + 1\<rparr>; p1 = posAt (c_tun c) g1 (g_age g1);
          (hit, hp, _) = IntersectLineHook (c_col c) p0 p1;
          expired = f32 (of_int (g_age g1)) \<ge> f32 (GrenadeLifetime (c_tun c) * TickSpeed) in
      if \<not> hit \<and> \<not> expired then ([g1], c)
      else
        (let ep = (if hit then hp else p1); diff = vsub (Pos c) ep; l = vlength diff in
         if l > 135 then ([], c)
         else
           (let forceDir = (if l > 0 then vnormalize diff else mk 0 1);
                fall = f32 (1 - clamp01 (f32 (f32 (l - 48) / 87))) in
            ([], c\<lparr>Vel := vadd (Vel c) (vscale forceDir (f32 (f32 (ExplosionStrength (c_tun c) * fall) * 2)))\<rparr>))))"

fun tick_grenades :: "grenade list \<Rightarrow> core \<Rightarrow> grenade list \<times> core" where
  "tick_grenades [] c = ([], c)"
| "tick_grenades (g # gs) c =
     (let (k, c1) = tick_grenade g c; (ks, c2) = tick_grenades gs c1 in (k @ ks, c2))"

definition tickGrenades :: "core \<Rightarrow> core" where
  "tickGrenades c = (let (keep, c1) = tick_grenades (c_grenades c) c in c1\<lparr>c_grenades := keep\<rparr>)"

definition fire_grenade :: "vec2 \<Rightarrow> phys_input \<Rightarrow> core \<Rightarrow> core" where
  "fire_grenade targetDir i c =
     (let c1 = (if PredictWeapons (c_cfg c) \<and> in_FireGrenade i \<and> \<not> c_prevFire c then
          (let d = (if vx targetDir = 0 \<and> vy targetDir = 0 then mk 1 0 else targetDir) in
           c\<lparr>c_grenades := c_grenades c @ [\<lparr>g_start = vadd (Pos c) (vscale d 21), g_dir = d, g_age = 0\<rparr>]\<rparr>)
        else c) in
      c1\<lparr>c_prevFire := in_FireGrenade i\<rparr>)"

section \<open>The hook\<close>

text \<open>
  \<open>peers\<close> are the positions of the tees of the set, \<open>self\<close> the index of this one; a single core has
  none. The search for the closest hookable peer, with the distance of the last one grabbed.
\<close>

definition grab_peer :: "vec2 \<Rightarrow> nat \<times> vec2 \<Rightarrow> core \<times> rat \<Rightarrow> core \<times> rat" where
  "grab_peer newPos = (\<lambda>(i, o_pos) (c, grabDist).
     case closestPointOnLine (HookPos c) newPos o_pos of
       None \<Rightarrow> (c, grabDist)
     | Some cp \<Rightarrow>
         if distance o_pos cp < 30 \<and> (HookedPlayer c = -1 \<or> distance (HookPos c) o_pos < grabDist) then
           (c\<lparr>HookState := HookGrabbed, HookedPlayer := int i\<rparr>, distance (HookPos c) o_pos)
         else (c, grabDist))"

definition others :: "vec2 list \<Rightarrow> nat \<Rightarrow> (nat \<times> vec2) list" where
  "others peers self = filter (\<lambda>(i, _). i \<noteq> self) (enumerate 0 peers)"

definition fly_hook :: "vec2 list \<Rightarrow> nat \<Rightarrow> core \<Rightarrow> core" where
  "fly_hook peers self c =
     (let np0 = vadd (HookPos c) (vscale (HookDir c) (HookFireSpeed (c_tun c)));
          far = distance (Pos c) np0 > HookLength (c_tun c);
          c1 = (if far then c\<lparr>HookState := HookRetractStart\<rparr> else c);
          np1 = (if far then vadd (Pos c) (vscale (vnormalize (vsub np0 (Pos c))) (HookLength (c_tun c))) else np0);
          (hit, hp, noHook) = IntersectLineHook (c_col c) (HookPos c) np1;
          np2 = (if hit then hp else np1);
          c2 = fst (fold (grab_peer np2) (others peers self) (c1, 0));
          c3 = (if HookState c2 = HookFlying then
                  (if hit \<and> \<not> noHook then c2\<lparr>HookState := HookGrabbed\<rparr>
                   else if hit \<and> noHook then c2\<lparr>HookState := HookRetractStart\<rparr>
                   else c2)
                else c2) in
      c3\<lparr>HookPos := np2\<rparr>)"

definition peer_at :: "vec2 list \<Rightarrow> int \<Rightarrow> vec2 option" where
  "peer_at peers i = (if i < 0 \<or> i \<ge> int (length peers) then None else Some (peers ! nat i))"

definition drag_hook :: "core \<Rightarrow> core" where
  "drag_hook c =
     (let hv = vscale (vnormalize (vsub (HookPos c) (Pos c))) (HookDragAccel (c_tun c));
          hy = (if vy hv > 0 then f32 (vy hv * f32 (3 / 10)) else vy hv);
          hx = (if (vx hv < 0 \<and> c_Direction c < 0) \<or> (vx hv > 0 \<and> c_Direction c > 0)
                then f32 (vx hv * f32 (95 / 100)) else f32 (vx hv * (75 / 100)));
          newVel = vadd (Vel c) (mk hx hy) in
      if vlength newVel < HookDragSpeed (c_tun c) \<or> vlength newVel < vlength (Vel c)
      then c\<lparr>Vel := newVel\<rparr> else c)"

definition hold_hook :: "vec2 list \<Rightarrow> core \<Rightarrow> core" where
  "hold_hook peers c =
     (let c1 =
        (if HookedPlayer c \<noteq> -1 then
           (case peer_at peers (HookedPlayer c) of
              Some p \<Rightarrow> c\<lparr>HookPos := p\<rparr>
            | None \<Rightarrow> c\<lparr>HookedPlayer := -1, HookState := HookRetracted, HookPos := Pos c\<rparr>)
         else if distance (HookPos c) (Pos c) > 46 then drag_hook c
         else c) in
      c1\<lparr>HookTick := HookTick c1 + 1\<rparr>)"

definition tickHook :: "vec2 list \<Rightarrow> nat \<Rightarrow> core \<Rightarrow> core" where
  "tickHook peers self c =
     (let c1 =
        (if HookState c = HookIdle then c\<lparr>HookPos := Pos c\<rparr>
         else if HookState c \<ge> HookRetractStart \<and> HookState c < HookRetractEnd then c\<lparr>HookState := HookState c + 1\<rparr>
         else if HookState c = HookRetractEnd then c\<lparr>HookState := HookRetracted\<rparr>
         else if HookState c = HookFlying then fly_hook peers self c
         else c) in
      if HookState c1 = HookGrabbed then hold_hook peers c1 else c1)"

section \<open>A tick\<close>

definition clamp_speed :: "core \<Rightarrow> core" where
  "clamp_speed c = (if vlength (Vel c) > 6000 then c\<lparr>Vel := vscale (vnormalize (Vel c)) 6000\<rparr> else c)"

definition Tick :: "vec2 list \<Rightarrow> nat \<Rightarrow> phys_input \<Rightarrow> core \<Rightarrow> core" where
  "Tick peers self inp c0 =
     (let grounded = Grounded c0;
          i = frozen_input c0 inp;
          c1 = (if grounded then land c0 else c0);
          targetDir = vnormalize (mk (f32 (of_int (in_TargetX i))) (f32 (of_int (in_TargetY i))));
          c2 = set_vy (f32 (vy (Vel c1) + Gravity (c_tun c1))) c1;
          c3 = c2\<lparr>c_Direction := in_Direction i\<rparr>;
          c4 = jump_edge grounded i c3;
          c5 = hook_edge targetDir i c4;
          c6 = horizontal grounded c5;
          c7 = tickHook peers self c6;
          c8 = fire_grenade targetDir i c7;
          c9 = tickGrenades c8 in
      clamp_speed c9)"

definition MoveCore :: "(rat \<Rightarrow> rat \<Rightarrow> rat) \<Rightarrow> core \<Rightarrow> core" where
  "MoveCore pow c =
     (let t = c_tun c;
          ramp = velocityRamp pow (f32 (vlength (Vel c) * TickSpeed)) (VelrampStart t) (VelrampRange t) (VelrampCurvature t);
          v = mk (f32 (vx (Vel c) * ramp)) (vy (Vel c));
          (p1, v1, grounded) = MoveBox (c_col c) (Pos c) v PhysicalSize PhysicalSize;
          c1 = c\<lparr>Vel := mk (f32 (vx v1 * f32 (1 / ramp))) (vy v1)\<rparr>;
          c2 = (if grounded then land c1 else c1) in
      c2\<lparr>Pos := p1\<rparr>)"

definition quantize :: "core \<Rightarrow> core" where
  "quantize c = c\<lparr>Pos := mk (f32 (of_int (roundToInt (vx (Pos c))))) (f32 (of_int (roundToInt (vy (Pos c))))),
     Vel := mk (f32 (f32 (of_int (roundToInt (f32 (vx (Vel c) * 256)))) / 256))
               (f32 (f32 (of_int (roundToInt (f32 (vy (Vel c) * 256)))) / 256))\<rparr>"

definition Step :: "(rat \<Rightarrow> rat \<Rightarrow> rat) \<Rightarrow> phys_input \<Rightarrow> core \<Rightarrow> core" where
  "Step pow i c = quantize (MoveCore pow (Tick [] 0 i c))"

definition QuantizedPos :: "core \<Rightarrow> int \<times> int" where
  "QuantizedPos c = (roundToInt (vx (Pos c)), roundToInt (vy (Pos c)))"

section \<open>A set of tees\<close>

text \<open>What tee \<open>i\<close> does to tee \<open>j\<close> and to itself.\<close>

definition push_apart :: "rat \<Rightarrow> vec2 \<Rightarrow> core \<Rightarrow> core" where
  "push_apart ds dir c =
     (if ds < 35 then
        (let a = f32 (f32 (406 / 10) - ds);
             velocity = (if vlength (Vel c) > f32 (1 / 10000)
                         then f32 (1 - f32 (f32 (dot (vnormalize (Vel c)) dir + 1) / 2)) else 1 / 2);
             v = vadd (Vel c) (vscale dir (f32 (a * f32 (velocity * (75 / 100))))) in
         c\<lparr>Vel := vscale v (f32 (85 / 100))\<rparr>)
      else c)"

definition drag_vel :: "rat \<Rightarrow> rat \<Rightarrow> rat \<Rightarrow> vec2 \<Rightarrow> vec2 \<Rightarrow> vec2" where
  "drag_vel drag hookAccel k dir v =
     mk (saturatedAdd (- drag) drag (vx v) (f32 (f32 (hookAccel * vx dir) * k)))
        (saturatedAdd (- drag) drag (vy v) (f32 (f32 (hookAccel * vy dir) * k)))"

definition pair_step :: "nat \<Rightarrow> nat \<Rightarrow> core list \<Rightarrow> core list" where
  "pair_step i j cs =
     (if i = j then cs
      else
        (let ds = distance (Pos (cs ! i)) (Pos (cs ! j)) in
         if ds \<le> 0 then cs
         else
           (let dir = vnormalize (vsub (Pos (cs ! i)) (Pos (cs ! j)));
                c = push_apart ds dir (cs ! i); cs1 = cs[i := c] in
            if HookedPlayer c = int j \<and> ds > 42 then
              (let hookAccel = f32 (HookDragAccel (c_tun c) * f32 (ds / HookLength (c_tun c)));
                   drag = HookDragSpeed (c_tun c);
                   oth = cs1 ! j;
                   oth1 = oth\<lparr>Vel := drag_vel drag hookAccel (3 / 2) dir (Vel oth)\<rparr>;
                   c1 = c\<lparr>Vel := drag_vel drag (- hookAccel) (1 / 4) dir (Vel c)\<rparr> in
               cs1[j := oth1, i := c1])
            else cs1)))"

definition tickDeferredCollision :: "nat \<Rightarrow> core list \<Rightarrow> core list" where
  "tickDeferredCollision i cs = fold (pair_step i) [0..<length cs] cs"

definition tick_one :: "phys_input list \<Rightarrow> nat \<Rightarrow> core list \<Rightarrow> core list" where
  "tick_one inputs i cs =
     tickDeferredCollision i (cs[i := Tick (map Pos cs) i (inputs ! i) (cs ! i)])"

text \<open>Fewer inputs than tees are an index out of range.\<close>

definition WorldStep :: "(rat \<Rightarrow> rat \<Rightarrow> rat) \<Rightarrow> core list \<Rightarrow> phys_input list \<Rightarrow> goerr + core list" where
  "WorldStep pow cs inputs =
     (if length inputs < length cs then Inl (Panic ''index out of range'')
      else
        Inr (map (quantize \<circ> MoveCore pow) (fold (tick_one inputs) [0..<length cs] cs)))"

section \<open>Lemmas\<close>

lemma mk_sel [simp]: "vx (mk x y) = x" "vy (mk x y) = y" "mk (vx p) (vy p) = p"
  by (simp_all add: mk_def)

lemma isqrt_bounds: "0 \<le> n \<Longrightarrow> isqrt n * isqrt n \<le> n \<and> n < (isqrt n + 1) * (isqrt n + 1) \<and> 0 \<le> isqrt n"
proof (induction n rule: isqrt.induct)
  case (1 n)
  show ?case
  proof (cases "n = 0")
    case True
    then show ?thesis by (simp add: isqrt.simps)
  next
    case False
    let ?r = "isqrt (n div 4)"
    have ih: "?r * ?r \<le> n div 4" "n div 4 < (?r + 1) * (?r + 1)" "0 \<le> ?r" using 1 False by auto
    have q: "4 * (n div 4) \<le> n" "n < 4 * (n div 4) + 4" by presburger+
    have lo: "2 * ?r * (2 * ?r) \<le> n" using ih(1) q(1) by (simp add: algebra_simps)
    have "n div 4 + 1 \<le> (?r + 1) * (?r + 1)" using ih(2) by simp
    then have hi: "n < (2 * ?r + 2) * (2 * ?r + 2)" using q(2) by (simp add: algebra_simps)
    show ?thesis using False 1(2) ih(3) lo hi by (subst (1 2 3 4 5) isqrt.simps) (auto simp: Let_def algebra_simps)
  qed
qed

lemma saturatedAdd_bounds:
  "mn \<le> cur \<Longrightarrow> cur \<le> mx \<Longrightarrow> mn \<le> mx \<Longrightarrow> f32 cur = cur \<Longrightarrow>
    mn \<le> saturatedAdd mn mx cur m \<and> saturatedAdd mn mx cur m \<le> mx"
proof -
  assume a: "mn \<le> cur" "cur \<le> mx" "mn \<le> mx" "f32 cur = cur"
  have "m \<le> 0 \<Longrightarrow> f32 (cur + m) \<le> cur" "0 \<le> m \<Longrightarrow> cur \<le> f32 (cur + m)"
    using f32.mono [of "cur + m" cur] f32.mono [of cur "cur + m"] a(4) by simp_all
  with a show ?thesis by (cases "m < 0") (auto simp: saturatedAdd_def Let_def)
qed

section \<open>No tee enters a wall\<close>

lemma box_step_free:
  assumes "\<not> TestBox c p w h"
  shows "\<not> TestBox c (fst (box_step c fr w h (p, v, g))) w h"
  using assms by (auto simp: box_step_def Let_def)

lemma box_steps_free:
  "\<not> TestBox c (fst st) w h \<Longrightarrow> \<not> TestBox c (fst (box_steps n c fr w h st)) w h"
proof (induction n arbitrary: st)
  case (Suc n)
  then show ?case using box_step_free [of c "fst st" w h fr "fst (snd st)" "snd (snd st)"] by simp
qed simp

lemma MoveBox_free: "\<not> TestBox c p w h \<Longrightarrow> MoveBox c p v w h = (p', v', g) \<Longrightarrow> \<not> TestBox c p' w h"
  using box_steps_free [of c "(p, v, False)" w h] by (auto simp: MoveBox_def Let_def split: if_splits) (metis fst_conv)

text \<open>
  C25: Moving never takes a tee into a wall. Whatever its velocity, the tuning and the map, a
  tee whose box overlaps no solid tile overlaps none after the move of a tick.
\<close>

theorem move_stays_free:
  assumes "\<not> TestBox (c_col c) (Pos c) PhysicalSize PhysicalSize"
  shows "\<not> TestBox (c_col c) (Pos (MoveCore pow c)) PhysicalSize PhysicalSize"
  using assms by (auto simp: MoveCore_def Let_def land_def dest: MoveBox_free split: prod.splits)

text \<open>A room whose floor begins at tile row 3.\<close>

definition room :: collision where
  "room = \<lparr>col_Solid = (\<lambda>tx ty. 3 \<le> ty), col_NoHook = None, col_HookThrough = None, col_Freeze = None\<rparr>"

definition falling :: core where
  "falling = (NewCore room (mk 50 60))\<lparr>Vel := mk 0 40\<rparr>"

lemma falling_free: "\<not> TestBox (c_col falling) (Pos falling) PhysicalSize PhysicalSize"
  by code_simp

theorem move_stays_free_witness:
  "\<not> TestBox room (Pos (MoveCore (\<lambda>_ _. 1) falling)) PhysicalSize PhysicalSize"
  using move_stays_free [OF falling_free] by (simp add: falling_def NewCore_def)

section \<open>A set of one\<close>

lemma drag_keeps: "HookedPlayer (drag_hook c) = HookedPlayer c" "Jumped (drag_hook c) = Jumped c"
    "JumpedTotal (drag_hook c) = JumpedTotal c" "c_col (drag_hook c) = c_col c" "c_tun (drag_hook c) = c_tun c"
  by (simp_all add: drag_hook_def Let_def)

lemma single_peer:
  assumes "HookedPlayer c = -1"
  shows "tickHook [p] 0 c = tickHook [] 0 c \<and> HookedPlayer (tickHook [] 0 c) = -1"
proof -
  have o: "others [p] 0 = []" "others [] 0 = []" by (simp_all add: others_def)
  have f: "fly_hook [p] 0 c = fly_hook [] 0 c" "HookedPlayer (fly_hook [] 0 c) = -1"
    using assms by (auto simp: fly_hook_def o Let_def split: prod.splits)
  have h: "hold_hook [p] x = hold_hook [] x" "HookedPlayer (hold_hook [] x) = -1" if "HookedPlayer x = -1" for x
    using that by (simp_all add: hold_hook_def Let_def drag_keeps)
  define c1 where "c1 = (if HookState c = HookIdle then c\<lparr>HookPos := Pos c\<rparr>
         else if HookState c \<ge> HookRetractStart \<and> HookState c < HookRetractEnd then c\<lparr>HookState := HookState c + 1\<rparr>
         else if HookState c = HookRetractEnd then c\<lparr>HookState := HookRetracted\<rparr>
         else if HookState c = HookFlying then fly_hook [] 0 c
         else c)"
  have c1: "HookedPlayer c1 = -1" using assms f(2) by (simp add: c1_def)
  have t: "tickHook ps 0 c = (if HookState c1 = HookGrabbed then hold_hook ps c1 else c1)"
    if "fly_hook ps 0 c = fly_hook [] 0 c" for ps
    unfolding tickHook_def Let_def that c1_def [symmetric] by (rule refl)
  show ?thesis using t [OF f(1)] t [OF refl] h [OF c1] c1 by simp
qed

lemma HookedPlayer_steps [simp]:
  "HookedPlayer (land c) = HookedPlayer c" "HookedPlayer (set_vy y c) = HookedPlayer c"
  "HookedPlayer (set_vx x c) = HookedPlayer c" "HookedPlayer (horizontal g c) = HookedPlayer c"
  "HookedPlayer (jump_edge g i c) = HookedPlayer c"
  by (auto simp: land_def set_vy_def set_vx_def horizontal_def jump_edge_def Let_def)

lemma hook_edge_single: "HookedPlayer c = -1 \<Longrightarrow> HookedPlayer (hook_edge t i c) = -1"
  by (auto simp: hook_edge_def)

lemma Tick_single:
  "HookedPlayer c = -1 \<Longrightarrow> Tick [p] 0 i c = Tick [] 0 i c"
  by (simp add: Tick_def Let_def single_peer hook_edge_single)

text \<open>
  A world of one tee is the single tee. Stepping a set that holds one tee, which has no player on
  its hook, is the step of that tee alone: the interaction of tees adds nothing.
\<close>

theorem world_of_one:
  assumes "HookedPlayer c = -1"
  shows "WorldStep pow [c] [i] = Inr [Step pow i c]"
  using Tick_single [OF assms, of "Pos c" i]
  by (simp add: WorldStep_def Step_def tick_one_def tickDeferredCollision_def pair_step_def)

theorem world_of_one_witness:
  "WorldStep (\<lambda>_ _. 1) [falling] [i] = Inr [Step (\<lambda>_ _. 1) i falling]"
  by (rule world_of_one) (simp add: falling_def NewCore_def)

section \<open>Jumps\<close>

definition jump_view :: "core \<Rightarrow> int \<times> int" where
  "jump_view c = (Jumped c, JumpedTotal c)"

lemma jump_view_steps [simp]:
  "jump_view (set_vy y c) = jump_view c" "jump_view (set_vx x c) = jump_view c"
  "jump_view (hook_edge t i c) = jump_view c" "jump_view (horizontal g c) = jump_view c"
  "jump_view (fire_grenade t i c) = jump_view c" "jump_view (clamp_speed c) = jump_view c"
  "jump_view (c\<lparr>c_Direction := d\<rparr>) = jump_view c"
  by (auto simp: jump_view_def set_vy_def set_vx_def hook_edge_def horizontal_def fire_grenade_def clamp_speed_def Let_def)

lemma jump_view_grab: "jump_view (fst (fold (grab_peer n) xs (c, d))) = jump_view c"
proof (induction xs arbitrary: c d)
  case (Cons x xs)
  obtain c1 d1 where g: "grab_peer n x (c, d) = (c1, d1)" by fastforce
  then have "jump_view c1 = jump_view c"
    by (auto simp: grab_peer_def jump_view_def split: prod.splits option.splits if_splits)
  with g Cons show ?case by simp
qed simp

lemma jump_view_hook: "jump_view (tickHook peers self c) = jump_view c"
proof -
  have "jump_view (fly_hook peers self x) = jump_view x" for x
    using jump_view_grab unfolding jump_view_def fly_hook_def
    by (auto simp: Let_def split: prod.splits)
  moreover have "jump_view (hold_hook peers x) = jump_view x" for x
    by (simp add: jump_view_def hold_hook_def drag_keeps Let_def split: option.split)
  ultimately show ?thesis by (auto simp: tickHook_def Let_def) (simp_all add: jump_view_def)
qed

lemma jump_view_grenades: "jump_view (tickGrenades c) = jump_view c"
proof -
  have one: "jump_view (snd (tick_grenade g x)) = jump_view x" for g x
    by (auto simp: tick_grenade_def jump_view_def Let_def split: prod.splits)
  have "jump_view (snd (tick_grenades gs x)) = jump_view x" for gs x
    by (induction gs x rule: tick_grenades.induct) (auto simp: one Let_def split: prod.splits, metis one snd_conv)
  then show ?thesis by (auto simp: tickGrenades_def jump_view_def split: prod.splits) (metis fst_conv snd_conv)+
qed

lemma jump_view_air:
  "jump_view (jump_edge False i c) =
     (if in_Jump i then if Jumped c AND 1 = 0 \<and> Jumped c AND 2 = 0 then (Jumped c OR 3, JumpedTotal c + 1) else jump_view c
      else (Jumped c AND NOT 1, JumpedTotal c))"
  by (auto simp: jump_edge_def jump_view_def set_vy_def)

lemma Tick_air:
  assumes "\<not> Grounded c"
  shows "\<exists>i'. jump_view (Tick peers self i c) = jump_view (jump_edge False i' c)"
proof -
  have e: "jump_view (jump_edge False i' (x\<lparr>c_Direction := d\<rparr>)) = jump_view (jump_edge False i' c)"
    if "jump_view x = jump_view c" for x d i'
    using that unfolding jump_view_air by (auto simp: jump_view_def)
  show ?thesis
    using assms e [of "set_vy y c" for y] unfolding Tick_def Let_def
    by (simp only: jump_view_steps jump_view_grenades jump_view_hook if_False) blast
qed

lemma air_bit: "(j::int) AND 2 = 0 \<longleftrightarrow> \<not> bit j 1"
  using and_exp_eq_0_iff_not_bit [of j 1] by simp

lemma air_bit_or: "(j OR 3 :: int) AND 2 \<noteq> 0"
  by (simp add: air_bit bit_or_iff)

lemma air_bit_release: "(j AND NOT 1 :: int) AND 2 = 0 \<longleftrightarrow> j AND 2 = 0"
  by (simp add: air_bit bit_and_iff bit_not_iff)

text \<open>A tick in the air: an air jump needs the bit clear and sets it.\<close>

lemma Tick_air_jumps:
  assumes "\<not> Grounded c"
  shows "(JumpedTotal (Tick peers self i c) = JumpedTotal c \<and> (Jumped (Tick peers self i c) AND 2 = 0 \<longleftrightarrow> Jumped c AND 2 = 0)) \<or>
    (JumpedTotal (Tick peers self i c) = JumpedTotal c + 1 \<and> Jumped c AND 2 = 0 \<and> Jumped (Tick peers self i c) AND 2 \<noteq> 0)"
proof -
  obtain i' where j: "jump_view (Tick peers self i c) = jump_view (jump_edge False i' c)"
    using Tick_air [OF assms] by blast
  from j [unfolded jump_view_air] show ?thesis
    using air_bit_or air_bit_release [of "Jumped c"] by (auto simp: jump_view_def split: if_splits)
qed

definition move_lands :: "(rat \<Rightarrow> rat \<Rightarrow> rat) \<Rightarrow> core \<Rightarrow> bool" where
  "move_lands pow c =
     (let t = c_tun c;
          ramp = velocityRamp pow (f32 (vlength (Vel c) * TickSpeed)) (VelrampStart t) (VelrampRange t) (VelrampCurvature t) in
      snd (snd (MoveBox (c_col c) (Pos c) (mk (f32 (vx (Vel c) * ramp)) (vy (Vel c))) PhysicalSize PhysicalSize)))"

lemma Step_air_view: "\<not> move_lands pow c \<Longrightarrow> jump_view (quantize (MoveCore pow c)) = jump_view c"
  by (auto simp: quantize_def MoveCore_def move_lands_def jump_view_def Let_def split: prod.splits)

fun airborne :: "(rat \<Rightarrow> rat \<Rightarrow> rat) \<Rightarrow> phys_input list \<Rightarrow> core \<Rightarrow> bool" where
  "airborne pow [] c = True"
| "airborne pow (i # is) c =
     (\<not> Grounded c \<and> \<not> move_lands pow (Tick [] 0 i c) \<and> airborne pow is (Step pow i c))"

text \<open>
  C26: One jump in the air. As long as a tee neither stands on the ground nor lands, any
  sequence of inputs gives it at most one air jump, and none when the air jump is already used.
\<close>

theorem one_air_jump:
  assumes "airborne pow is c"
  shows "JumpedTotal (fold (Step pow) is c) \<le> JumpedTotal c + (if Jumped c AND 2 = 0 then 1 else 0)"
  using assms
proof (induction "is" arbitrary: c)
  case (Cons i ks)
  have "jump_view (Step pow i c) = jump_view (Tick [] 0 i c)"
    using Cons.prems by (simp add: Step_def Step_air_view)
  then have s: "Jumped (Step pow i c) = Jumped (Tick [] 0 i c)" "JumpedTotal (Step pow i c) = JumpedTotal (Tick [] 0 i c)"
    by (simp_all add: jump_view_def)
  have "JumpedTotal (fold (Step pow) ks (Step pow i c)) \<le>
      JumpedTotal (Step pow i c) + (if Jumped (Step pow i c) AND 2 = 0 then 1 else 0)"
    using Cons by simp
  then show ?case
    using Tick_air_jumps [of c "[]" 0 i] Cons.prems unfolding s by (auto split: if_splits)
qed simp

definition coasting :: phys_input where
  "coasting = \<lparr>in_Direction = 0, in_TargetX = 0, in_TargetY = 0, in_Jump = False, in_Hook = False,
     in_FireGrenade = False, in_JumpTick = 0\<rparr>"

definition hovering :: core where
  "hovering = NewCore room (mk 50 (-100))"

lemma coast_values:
  "\<not> Grounded hovering" "Vel (Tick [] 0 coasting hovering) = mk 0 (1 / 2)"
  "Pos (Tick [] 0 coasting hovering) = mk 50 (-100)"
  by code_simp+

definition surroundings :: "core \<Rightarrow> collision \<times> tuning" where
  "surroundings c = (c_col c, c_tun c)"

lemma surroundings_steps [simp]:
  "surroundings (set_vy y c) = surroundings c" "surroundings (set_vx x c) = surroundings c"
  "surroundings (hook_edge t i c) = surroundings c" "surroundings (horizontal g c) = surroundings c"
  "surroundings (jump_edge g i c) = surroundings c" "surroundings (land c) = surroundings c"
  "surroundings (fire_grenade t i c) = surroundings c" "surroundings (clamp_speed c) = surroundings c"
  "surroundings (c\<lparr>c_Direction := d\<rparr>) = surroundings c"
  by (auto simp: surroundings_def set_vy_def set_vx_def hook_edge_def horizontal_def jump_edge_def land_def
      fire_grenade_def clamp_speed_def Let_def)

lemma surroundings_grab: "surroundings (fst (fold (grab_peer n) xs (c, d))) = surroundings c"
proof (induction xs arbitrary: c d)
  case (Cons x xs)
  obtain c1 d1 where g: "grab_peer n x (c, d) = (c1, d1)" by fastforce
  then have "surroundings c1 = surroundings c"
    by (auto simp: grab_peer_def surroundings_def split: prod.splits option.splits if_splits)
  with g Cons show ?case by simp
qed simp

lemma surroundings_hook: "surroundings (tickHook peers self c) = surroundings c"
proof -
  have "surroundings (fly_hook peers self x) = surroundings x" for x
    using surroundings_grab unfolding surroundings_def fly_hook_def
    by (auto simp: Let_def split: prod.splits)
  moreover have "surroundings (hold_hook peers x) = surroundings x" for x
    by (simp add: surroundings_def hold_hook_def drag_keeps Let_def split: option.split)
  ultimately show ?thesis by (auto simp: tickHook_def Let_def) (simp_all add: surroundings_def)
qed

lemma surroundings_grenades: "surroundings (tickGrenades c) = surroundings c"
proof -
  have one: "surroundings (snd (tick_grenade g x)) = surroundings x" for g x
    by (auto simp: tick_grenade_def surroundings_def Let_def split: prod.splits)
  have "surroundings (snd (tick_grenades gs x)) = surroundings x" for gs x
    by (induction gs x rule: tick_grenades.induct) (auto simp: one Let_def split: prod.splits, metis one snd_conv)
  then show ?thesis by (auto simp: tickGrenades_def surroundings_def split: prod.splits) (metis fst_conv snd_conv)+
qed

text \<open>A tick changes neither the map nor the tuning it runs under.\<close>

lemma surroundings_if: "surroundings x = s \<Longrightarrow> surroundings y = s \<Longrightarrow> surroundings (if b then x else y) = s"
  by simp

lemma Tick_surroundings: "surroundings (Tick peers self i c) = surroundings c"
  unfolding Tick_def Let_def surroundings_steps surroundings_grenades surroundings_hook
  by (rule surroundings_if refl | simp only: surroundings_steps surroundings_grenades surroundings_hook)+

lemma coasting_ramp:
  "velocityRamp (\<lambda>_ _. 1) (f32 (vlength (mk 0 (1 / 2)) * TickSpeed)) (VelrampStart DefaultTuning)
      (VelrampRange DefaultTuning) (VelrampCurvature DefaultTuning) = 1"
  by code_simp

lemma coasting_box:
  "vlength (mk 0 (1 / 2)) = 1 / 2" "(1 / 2 :: rat) \<le> f32 (1 / 100000) \<longleftrightarrow> False" "to_int64 (1 / 2) = 0" "f32 1 = 1" "f32 0 = 0"
  "box_step room 1 28 28 (mk 50 (-100), mk 0 (1 / 2), False) = (mk 50 (- 199 / 2), mk 0 (1 / 2), False)"
  by code_simp+

lemma coasting_lands:
  "\<not> snd (snd (MoveBox room (mk 50 (-100)) (mk (f32 (vx (mk 0 (1 / 2)) * 1)) (vy (mk 0 (1 / 2)))) PhysicalSize PhysicalSize))"
proof -
  have v: "mk (f32 (vx (mk 0 (1 / 2)) * 1)) (vy (mk 0 (1 / 2))) = mk 0 (1 / 2)" by code_simp
  have n: "box_steps (nat (0 + 1)) room (f32 (1 / f32 (rat_of_int (0 + 1)))) 28 28 st = box_step room 1 28 28 st" for st
    by (simp add: coasting_box(4))
  show ?thesis
    unfolding v MoveBox_def PhysicalSize_def Let_def coasting_box(1,2,3) if_False n coasting_box(6) by simp
qed

lemma hovering_airborne: "airborne (\<lambda>_ _. 1) [coasting] hovering"
proof -
  have s: "c_col (Tick [] 0 coasting hovering) = room" "c_tun (Tick [] 0 coasting hovering) = DefaultTuning"
    using Tick_surroundings [of "[]" 0 coasting hovering] by (simp_all add: surroundings_def hovering_def NewCore_def)
  have "\<not> move_lands (\<lambda>_ _. 1) (Tick [] 0 coasting hovering)"
    unfolding move_lands_def Let_def s coast_values(2,3) coasting_ramp by (rule coasting_lands)
  then show ?thesis using coast_values(1) by simp
qed

theorem one_air_jump_witness:
  "JumpedTotal (fold (Step (\<lambda>_ _. 1)) [coasting] hovering) \<le> 1"
  using one_air_jump [OF hovering_airborne] by (simp add: hovering_def NewCore_def)

end
