(* ===== verification/MapView.thy ===== *)
theory MapView
  imports Physics
begin

text \<open>
  client/mapview.go and physics/collision_map.go: the two views of a parsed map. A map of the
  library twmap is what the code reads of it, groups of layers; its tile numbers, \<open>IsSolid\<close> and
  \<open>GameLayers\<close> are parameters. A tile is the one field that is read of it; a nil slice is \<open>None\<close>.
\<close>

section \<open>What is read of a map\<close>

datatype layer_kind =
  LayerKindGame | LayerKindFront | LayerKindTele | LayerKindSpeedup | LayerKindSwitch | LayerKindTune | OtherKind

record layer =
  l_Kind :: layer_kind
  l_Width :: int
  l_Height :: int
  l_Tiles :: "int list option"
  l_TeleTiles :: "int list option"
  l_SpeedupTiles :: "int list option"
  l_SwitchTiles :: "int list option"
  l_TuneTiles :: "int list option"

type_synonym tw_map = "layer list list"

record tw_lib =
  tw_TileSolid :: int
  tw_TileDeath :: int
  tw_TileUnhookable :: int
  tw_TileThroughCut :: int
  tw_TileThrough :: int
  tw_TileFreeze :: int
  tw_TileDeepFreeze :: int
  tw_TileStart :: int
  tw_TileFinish :: int
  tw_TileCP :: int
  tw_TileCPF :: int
  tw_TileTimeCheckFirst :: int
  tw_TileTimeCheckLast :: int
  tw_IsSolid :: "int \<Rightarrow> bool"
  tw_GameLayers :: "tw_map \<Rightarrow> layer list"

definition slice :: "'a list option \<Rightarrow> 'a list" where
  "slice s = (case s of None \<Rightarrow> [] | Some xs \<Rightarrow> xs)"

section \<open>The view of the client\<close>

datatype tile_class =
  ClassAir | ClassSolid | ClassUnhook | ClassHookThrough | ClassDeath | ClassFreeze | ClassTele | ClassSpeedup | ClassSwitch

record map_view =
  mv_w :: int
  mv_h :: int
  mv_game :: "int list option"
  mv_front :: "int list option"
  mv_tele :: "int list option"
  mv_speedup :: "int list option"
  mv_switch :: "int list option"
  mv_tune :: "int list option"

definition empty_view :: map_view where
  "empty_view = \<lparr>mv_w = 0, mv_h = 0, mv_game = None, mv_front = None, mv_tele = None, mv_speedup = None,
     mv_switch = None, mv_tune = None\<rparr>"

definition view_layer :: "layer \<Rightarrow> map_view \<Rightarrow> map_view" where
  "view_layer l v = (case l_Kind l of
       LayerKindGame \<Rightarrow>
         if mv_game v = None then v\<lparr>mv_w := l_Width l, mv_h := l_Height l, mv_game := l_Tiles l\<rparr> else v
     | LayerKindFront \<Rightarrow> v\<lparr>mv_front := l_Tiles l\<rparr>
     | LayerKindTele \<Rightarrow> v\<lparr>mv_tele := l_TeleTiles l\<rparr>
     | LayerKindSpeedup \<Rightarrow> v\<lparr>mv_speedup := l_SpeedupTiles l\<rparr>
     | LayerKindSwitch \<Rightarrow> v\<lparr>mv_switch := l_SwitchTiles l\<rparr>
     | LayerKindTune \<Rightarrow> v\<lparr>mv_tune := l_TuneTiles l\<rparr>
     | OtherKind \<Rightarrow> v)"

definition NewMapView :: "tw_map option \<Rightarrow> map_view" where
  "NewMapView m = (case m of None \<Rightarrow> empty_view | Some groups \<Rightarrow> fold view_layer (concat groups) empty_view)"

definition inBounds :: "map_view \<Rightarrow> int \<Rightarrow> int \<Rightarrow> bool" where
  "inBounds v tx ty \<longleftrightarrow> tx \<ge> 0 \<and> ty \<ge> 0 \<and> tx < mv_w v \<and> ty < mv_h v"

text \<open>The tile of a layer, \<open>None\<close> out of the bounds of the map and past the end of the layer.\<close>

definition layer_tile :: "map_view \<Rightarrow> 'a list option \<Rightarrow> int \<Rightarrow> int \<Rightarrow> 'a option" where
  "layer_tile v tiles tx ty =
     (if \<not> inBounds v tx ty then None
      else
        (let idx = ty * mv_w v + tx in
         if idx \<ge> int (length (slice tiles)) then None else Some (slice tiles ! nat idx)))"

definition gameID :: "tw_lib \<Rightarrow> map_view \<Rightarrow> int \<Rightarrow> int \<Rightarrow> int" where
  "gameID lib v tx ty = (case layer_tile v (mv_game v) tx ty of None \<Rightarrow> tw_TileSolid lib | Some t \<Rightarrow> t)"

definition TileID :: "tw_lib \<Rightarrow> map_view \<Rightarrow> int \<Rightarrow> int \<Rightarrow> int" where
  "TileID lib v tx ty = gameID lib v tx ty"

definition Checkpoint :: "tw_lib \<Rightarrow> map_view \<Rightarrow> int \<Rightarrow> int \<Rightarrow> bool" where
  "Checkpoint lib v tx ty =
     (let i = TileID lib v tx ty in
      i = tw_TileCP lib \<or> i = tw_TileCPF lib \<or> (i \<ge> tw_TileTimeCheckFirst lib \<and> i \<le> tw_TileTimeCheckLast lib))"

definition Solid :: "tw_lib \<Rightarrow> map_view \<Rightarrow> int \<Rightarrow> int \<Rightarrow> bool" where
  "Solid lib v tx ty = tw_IsSolid lib (gameID lib v tx ty)"

definition Unhook :: "tw_lib \<Rightarrow> map_view \<Rightarrow> int \<Rightarrow> int \<Rightarrow> bool" where
  "Unhook lib v tx ty \<longleftrightarrow> gameID lib v tx ty = tw_TileUnhookable lib"

definition Death :: "tw_lib \<Rightarrow> map_view \<Rightarrow> int \<Rightarrow> int \<Rightarrow> bool" where
  "Death lib v tx ty \<longleftrightarrow> gameID lib v tx ty = tw_TileDeath lib"

definition Finish :: "tw_lib \<Rightarrow> map_view \<Rightarrow> int \<Rightarrow> int \<Rightarrow> bool" where
  "Finish lib v tx ty \<longleftrightarrow> gameID lib v tx ty = tw_TileFinish lib"

definition Start :: "tw_lib \<Rightarrow> map_view \<Rightarrow> int \<Rightarrow> int \<Rightarrow> bool" where
  "Start lib v tx ty \<longleftrightarrow> gameID lib v tx ty = tw_TileStart lib"

definition Freeze :: "tw_lib \<Rightarrow> map_view \<Rightarrow> int \<Rightarrow> int \<Rightarrow> bool" where
  "Freeze lib v tx ty =
     (let i = gameID lib v tx ty in i = tw_TileFreeze lib \<or> i = tw_TileDeepFreeze lib)"

definition HookThrough :: "tw_lib \<Rightarrow> map_view \<Rightarrow> int \<Rightarrow> int \<Rightarrow> bool" where
  "HookThrough lib v tx ty =
     (case layer_tile v (mv_front v) tx ty of
        None \<Rightarrow> False
      | Some i \<Rightarrow> i = tw_TileThroughCut lib \<or> i = tw_TileThrough lib)"

definition Tele :: "map_view \<Rightarrow> int \<Rightarrow> int \<Rightarrow> bool" where
  "Tele v tx ty = (case layer_tile v (mv_tele v) tx ty of None \<Rightarrow> False | Some i \<Rightarrow> i \<noteq> 0)"

definition Speedup :: "map_view \<Rightarrow> int \<Rightarrow> int \<Rightarrow> bool" where
  "Speedup v tx ty = (case layer_tile v (mv_speedup v) tx ty of None \<Rightarrow> False | Some i \<Rightarrow> i \<noteq> 0)"

definition Switch :: "map_view \<Rightarrow> int \<Rightarrow> int \<Rightarrow> bool" where
  "Switch v tx ty = (case layer_tile v (mv_switch v) tx ty of None \<Rightarrow> False | Some i \<Rightarrow> i \<noteq> 0)"

definition TuneZone :: "map_view \<Rightarrow> int \<Rightarrow> int \<Rightarrow> int" where
  "TuneZone v tx ty = (case layer_tile v (mv_tune v) tx ty of None \<Rightarrow> 0 | Some i \<Rightarrow> i)"

definition view_IsDDRace :: "tw_lib \<Rightarrow> map_view \<Rightarrow> bool" where
  "view_IsDDRace lib v \<longleftrightarrow>
     mv_tele v \<noteq> None \<or> mv_speedup v \<noteq> None \<or> mv_switch v \<noteq> None \<or> mv_tune v \<noteq> None \<or>
     list_ex (\<lambda>i. i = tw_TileFreeze lib \<or> i = tw_TileDeepFreeze lib) (slice (mv_game v))"

definition view_Tile :: "tw_lib \<Rightarrow> map_view \<Rightarrow> int \<Rightarrow> int \<Rightarrow> tile_class" where
  "view_Tile lib v tx ty =
     (if \<not> inBounds v tx ty then ClassSolid
      else if Unhook lib v tx ty then ClassUnhook
      else if Solid lib v tx ty then ClassSolid
      else if Death lib v tx ty then ClassDeath
      else if Freeze lib v tx ty then ClassFreeze
      else if HookThrough lib v tx ty then ClassHookThrough
      else if Tele v tx ty then ClassTele
      else if Speedup v tx ty then ClassSpeedup
      else if Switch v tx ty then ClassSwitch
      else ClassAir)"

text \<open>A negative capacity is a panic of \<open>make\<close>.\<close>

definition Window :: "tw_lib \<Rightarrow> map_view \<Rightarrow> int \<Rightarrow> int \<Rightarrow> int \<Rightarrow> int \<Rightarrow> goerr + tile_class list" where
  "Window lib v cx cy halfW halfH =
     (let w = 2 * halfW + 1; h = 2 * halfH + 1 in
      if w * h < 0 then Inl (Panic ''makeslice: cap out of range'')
      else
        Inr (concat (map (\<lambda>ty. map (\<lambda>tx. view_Tile lib v tx ty) [cx - halfW..cx + halfW])
               [cy - halfH..cy + halfH])))"

section \<open>The view of the physics\<close>

definition tileThroughCut :: int where "tileThroughCut = 5"
definition tileThroughAll :: int where "tileThroughAll = 6"

definition game_tile :: "tw_lib \<Rightarrow> int list \<Rightarrow> int \<Rightarrow> int \<Rightarrow> int \<Rightarrow> int \<Rightarrow> int" where
  "game_tile lib tiles w h tx ty =
     (if tx < 0 \<or> ty < 0 \<or> tx \<ge> w \<or> ty \<ge> h then tw_TileSolid lib
      else
        (let idx = ty * w + tx in
         if idx \<ge> int (length tiles) then tw_TileSolid lib else tiles ! nat idx))"

text \<open>The query of a front layer; one with fewer tiles than its size says panics.\<close>

definition front_query :: "layer \<Rightarrow> int \<Rightarrow> int \<Rightarrow> goerr + bool" where
  "front_query front tx ty =
     (if tx < 0 \<or> ty < 0 \<or> tx \<ge> l_Width front \<or> ty \<ge> l_Height front then Inr False
      else
        (let idx = ty * l_Width front + tx in
         if idx \<ge> int (length (slice (l_Tiles front))) then Inl (Panic ''index out of range'')
         else
           (let i = slice (l_Tiles front) ! nat idx in Inr (i = tileThroughCut \<or> i = tileThroughAll))))"

text \<open>
  \<open>NewCollision\<close>. The predicate of the record holds the front queries that return; theorem
  \<open>whole_front\<close> says which do.
\<close>

definition NewCollision :: "tw_lib \<Rightarrow> tw_map option \<Rightarrow> collision" where
  "NewCollision lib m =
     (let (tiles, w, h) =
        (case m of
           None \<Rightarrow> ([], 0, 0)
         | Some groups \<Rightarrow>
             (case tw_GameLayers lib groups of
                [] \<Rightarrow> ([], 0, 0)
              | gl # _ \<Rightarrow> (slice (l_Tiles gl), l_Width gl, l_Height gl)));
          at_tile = game_tile lib tiles w h in
      \<lparr>col_Solid = (\<lambda>tx ty. tw_IsSolid lib (at_tile tx ty)),
       col_NoHook = Some (\<lambda>tx ty. at_tile tx ty = tw_TileUnhookable lib),
       col_HookThrough =
         (case m of
            None \<Rightarrow> None
          | Some groups \<Rightarrow>
              map_option (\<lambda>front tx ty. front_query front tx ty = Inr True)
                (find (\<lambda>l. l_Kind l = LayerKindFront \<and> l_Width l \<noteq> 0) (concat groups))),
       col_Freeze = Some (\<lambda>tx ty. at_tile tx ty = tw_TileFreeze lib \<or> at_tile tx ty = tw_TileDeepFreeze lib)\<rparr>)"

section \<open>Lemmas\<close>

definition whole :: "layer \<Rightarrow> bool" where
  "whole l \<longleftrightarrow> int (length (slice (l_Tiles l))) = l_Width l * l_Height l"

lemma cell_index:
  "0 \<le> tx \<Longrightarrow> 0 \<le> ty \<Longrightarrow> tx < w \<Longrightarrow> ty < h \<Longrightarrow> 0 \<le> ty * w + tx \<and> ty * w + tx < w * (h::int)"
proof -
  assume a: "0 \<le> tx" "0 \<le> ty" "tx < w" "ty < h"
  have "ty * w + tx < (ty + 1) * w" using a by (simp add: algebra_simps)
  also have "\<dots> \<le> h * w" using a by (intro mult_right_mono) auto
  finally show ?thesis using a by (simp add: mult.commute)
qed

lemma whole_front: "whole l \<Longrightarrow> \<exists>b. front_query l tx ty = Inr b"
  using cell_index [of tx ty "l_Width l" "l_Height l"]
  by (cases "tx < 0 \<or> ty < 0 \<or> tx \<ge> l_Width l \<or> ty \<ge> l_Height l") (auto simp: front_query_def whole_def Let_def)

lemma short_front_panics:
  "front_query \<lparr>l_Kind = LayerKindFront, l_Width = 1, l_Height = 1, l_Tiles = None, l_TeleTiles = None,
     l_SpeedupTiles = None, l_SwitchTiles = None, l_TuneTiles = None\<rparr> 0 0 = Inl (Panic ''index out of range'')"
  by (simp add: front_query_def slice_def)

lemma gameID_game_tile: "gameID lib v tx ty = game_tile lib (slice (mv_game v)) (mv_w v) (mv_h v) tx ty"
  by (auto simp: gameID_def game_tile_def layer_tile_def inBounds_def Let_def)

section \<open>The two views agree\<close>

definition is_game :: "layer \<Rightarrow> bool" where "is_game l \<longleftrightarrow> l_Kind l = LayerKindGame"

definition first_game :: "tw_map \<Rightarrow> layer option" where "first_game m = find is_game (concat m)"

lemma view_keeps_game:
  "mv_game v \<noteq> None \<Longrightarrow>
     mv_game (fold view_layer ls v) = mv_game v \<and> mv_w (fold view_layer ls v) = mv_w v \<and>
     mv_h (fold view_layer ls v) = mv_h v"
proof (induction ls arbitrary: v)
  case (Cons l ls)
  have "mv_game (view_layer l v) = mv_game v \<and> mv_w (view_layer l v) = mv_w v \<and> mv_h (view_layer l v) = mv_h v"
    using Cons.prems by (auto simp: view_layer_def split: layer_kind.split)
  with Cons show ?case by simp
qed simp

lemma view_of_layers:
  assumes "\<forall>l\<in>set ls. is_game l \<longrightarrow> l_Tiles l \<noteq> None" "mv_game v = None"
  shows "(mv_game (fold view_layer ls v), mv_w (fold view_layer ls v), mv_h (fold view_layer ls v)) =
    (case find is_game ls of None \<Rightarrow> (None, mv_w v, mv_h v) | Some l \<Rightarrow> (l_Tiles l, l_Width l, l_Height l))"
  using assms
proof (induction ls arbitrary: v)
  case (Cons l ls)
  show ?case
  proof (cases "is_game l")
    case True
    then have "view_layer l v = v\<lparr>mv_w := l_Width l, mv_h := l_Height l, mv_game := l_Tiles l\<rparr>"
      using Cons.prems(2) by (simp add: view_layer_def is_game_def)
    with True Cons.prems view_keeps_game [of "view_layer l v" ls] show ?thesis by simp
  next
    case False
    then have "mv_game (view_layer l v) = None \<and> mv_w (view_layer l v) = mv_w v \<and> mv_h (view_layer l v) = mv_h v"
      using Cons.prems(2) by (auto simp: view_layer_def is_game_def split: layer_kind.split)
    with False Cons show ?thesis by (simp cong: option.case_cong)
  qed
qed simp

text \<open>What \<open>GameLayers\<close> documents: the game layers of the map, in order.\<close>

definition lists_game_layers :: "tw_lib \<Rightarrow> bool" where
  "lists_game_layers lib \<longleftrightarrow> (\<forall>m. tw_GameLayers lib m = filter is_game (concat m))"

lemma find_filter: "find P xs = (case filter P xs of [] \<Rightarrow> None | x # _ \<Rightarrow> Some x)"
  by (induction xs) auto

lemma at_tile_gameID:
  assumes "lists_game_layers lib" "\<forall>l\<in>set (concat m). is_game l \<longrightarrow> l_Tiles l \<noteq> None"
  shows "(case (case tw_GameLayers lib m of [] \<Rightarrow> ([], 0, 0)
      | gl # _ \<Rightarrow> (slice (l_Tiles gl), l_Width gl, l_Height gl)) of (tiles, w, h) \<Rightarrow> game_tile lib tiles w h) =
    gameID lib (NewMapView (Some m))"
proof -
  have g: "tw_GameLayers lib m = filter is_game (concat m)" using assms(1) by (simp add: lists_game_layers_def)
  have e: "mv_game empty_view = None" "mv_w empty_view = 0" "mv_h empty_view = 0" by (simp_all add: empty_view_def)
  have "NewMapView (Some m) = fold view_layer (concat m) empty_view" by (simp add: NewMapView_def)
  then have v: "(mv_game (NewMapView (Some m)), mv_w (NewMapView (Some m)), mv_h (NewMapView (Some m))) =
     (case filter is_game (concat m) of [] \<Rightarrow> (None, 0, 0) | l # _ \<Rightarrow> (l_Tiles l, l_Width l, l_Height l))"
    using view_of_layers [OF assms(2) e(1)] by (simp add: e find_filter split: list.split)
  show ?thesis
    unfolding g using v by (cases "filter is_game (concat m)") (auto simp: fun_eq_iff gameID_game_tile slice_def)
qed

text \<open>
  C24: The prediction and the map view see the same map. For every map whose game layers
  hold tiles, the collision model of the physics and the view offered to observers agree on every
  tile, inside the map and outside of it: which are solid, which the hook cannot hold, and which
  freeze.
\<close>

theorem views_agree:
  assumes "lists_game_layers lib" "\<forall>l\<in>set (concat m). is_game l \<longrightarrow> l_Tiles l \<noteq> None"
  shows "col_Solid (NewCollision lib (Some m)) tx ty = Solid lib (NewMapView (Some m)) tx ty \<and>
    col_NoHook (NewCollision lib (Some m)) = Some (Unhook lib (NewMapView (Some m))) \<and>
    col_Freeze (NewCollision lib (Some m)) = Some (Freeze lib (NewMapView (Some m)))"
  using at_tile_gameID [OF assms]
  by (auto simp: NewCollision_def Solid_def Unhook_def Freeze_def Let_def fun_eq_iff split: prod.splits)

text \<open>A floor under a row of air, and the numbers of its tiles.\<close>

definition small_lib :: tw_lib where
  "small_lib = \<lparr>tw_TileSolid = 1, tw_TileDeath = 2, tw_TileUnhookable = 3, tw_TileThroughCut = 5, tw_TileThrough = 6,
     tw_TileFreeze = 9, tw_TileDeepFreeze = 12, tw_TileStart = 33, tw_TileFinish = 34, tw_TileCP = 64, tw_TileCPF = 65,
     tw_TileTimeCheckFirst = 35, tw_TileTimeCheckLast = 59, tw_IsSolid = (\<lambda>i. i = 1 \<or> i = 3),
     tw_GameLayers = (\<lambda>m. filter is_game (concat m))\<rparr>"

definition small_layer :: layer where
  "small_layer = \<lparr>l_Kind = LayerKindGame, l_Width = 2, l_Height = 2, l_Tiles = Some [0, 9, 1, 3], l_TeleTiles = None,
     l_SpeedupTiles = None, l_SwitchTiles = None, l_TuneTiles = None\<rparr>"

lemma small_lists: "lists_game_layers small_lib"
  by (simp add: lists_game_layers_def small_lib_def)

theorem views_agree_witness:
  "Freeze small_lib (NewMapView (Some [[small_layer]])) 1 0 \<and>
   col_Freeze (NewCollision small_lib (Some [[small_layer]])) = Some (Freeze small_lib (NewMapView (Some [[small_layer]])))"
proof
  show "Freeze small_lib (NewMapView (Some [[small_layer]])) 1 0" by code_simp
  show "col_Freeze (NewCollision small_lib (Some [[small_layer]])) = Some (Freeze small_lib (NewMapView (Some [[small_layer]])))"
    using views_agree [OF small_lists, of "[[small_layer]]" 0 0] by (simp add: small_layer_def)
qed

section \<open>The window\<close>

lemma nth_rows:
  assumes "\<And>r. r \<in> set rows \<Longrightarrow> length r = w" "i < length rows" "j < w"
  shows "concat rows ! (i * w + j) = rows ! i ! j"
  using assms
proof (induction rows arbitrary: i)
  case (Cons r rows)
  show ?case
  proof (cases i)
    case 0
    then show ?thesis using Cons.prems by (simp add: nth_append)
  next
    case (Suc k)
    have "length r = w" using Cons.prems(1) by simp
    then have "concat (r # rows) ! (i * w + j) = concat rows ! (k * w + j)" using Suc by (simp add: nth_append)
    also have "\<dots> = rows ! k ! j" using Cons.prems Suc by (intro Cons.IH) auto
    finally show ?thesis using Suc by simp
  qed
qed simp

lemma length_rows: "(\<And>r. r \<in> set rows \<Longrightarrow> length r = w) \<Longrightarrow> length (concat rows) = length rows * w"
  by (induction rows) auto

lemma nth_upto_int: "j < nat (b - a + 1) \<Longrightarrow> [a..b] ! j = a + int j"
  by (subst nth_upto) auto

text \<open>
  The observation window. For half sizes that are not negative the window always has
  \<open>(2 halfW + 1) (2 halfH + 1)\<close> cells; the cell of row \<open>i\<close> and column \<open>j\<close> is the class of the tile
  \<open>j\<close> to the right and \<open>i\<close> below of the corner, and it is solid wherever the window leaves the map.
\<close>

theorem window_cells:
  assumes "0 \<le> halfW" "0 \<le> halfH" "i < nat (2 * halfH + 1)" "j < nat (2 * halfW + 1)"
  shows "\<exists>cells. Window lib v cx cy halfW halfH = Inr cells \<and>
    length cells = nat (2 * halfH + 1) * nat (2 * halfW + 1) \<and>
    cells ! (i * nat (2 * halfW + 1) + j) =
      (if inBounds v (cx - halfW + int j) (cy - halfH + int i)
       then view_Tile lib v (cx - halfW + int j) (cy - halfH + int i) else ClassSolid)"
proof -
  let ?row = "\<lambda>ty. map (\<lambda>tx. view_Tile lib v tx ty) [cx - halfW..cx + halfW]"
  let ?rows = "map ?row [cy - halfH..cy + halfH]"
  have len: "\<And>r. r \<in> set ?rows \<Longrightarrow> length r = nat (2 * halfW + 1)" by auto
  have n: "length ?rows = nat (2 * halfH + 1)" by simp
  have "0 \<le> (2 * halfW + 1) * (2 * halfH + 1)" using assms(1,2) by simp
  then have win: "Window lib v cx cy halfW halfH = Inr (concat ?rows)"
    by (simp add: Window_def Let_def not_less)
  have "concat ?rows ! (i * nat (2 * halfW + 1) + j) = ?rows ! i ! j"
    using assms(3,4) n by (intro nth_rows len) auto
  also have "\<dots> = view_Tile lib v (cx - halfW + int j) (cy - halfH + int i)"
    using assms(3,4) by (simp add: nth_upto_int)
  finally have c: "concat ?rows ! (i * nat (2 * halfW + 1) + j) =
      (if inBounds v (cx - halfW + int j) (cy - halfH + int i)
       then view_Tile lib v (cx - halfW + int j) (cy - halfH + int i) else ClassSolid)"
    by (simp add: view_Tile_def)
  have "length (concat ?rows) = nat (2 * halfH + 1) * nat (2 * halfW + 1)"
    using length_rows [of ?rows, OF len] n by simp
  with win c show ?thesis by blast
qed

theorem window_cells_witness:
  "\<exists>cells. Window small_lib (NewMapView (Some [[small_layer]])) 0 0 1 1 = Inr cells \<and> length cells = 9 \<and>
     cells ! 4 = ClassAir \<and> cells ! 0 = ClassSolid"
proof -
  let ?v = "NewMapView (Some [[small_layer]])"
  have t: "view_Tile small_lib ?v 0 0 = ClassAir" "inBounds ?v 0 0" "\<not> inBounds ?v (-1) (-1)" by code_simp+
  have a: "(0::int) \<le> 1" "(1::nat) < nat (2 * 1 + 1)" "(0::nat) < nat (2 * 1 + 1)" by simp_all
  from window_cells [OF a(1) a(1) a(2) a(2), of small_lib ?v 0 0] window_cells [OF a(1) a(1) a(3) a(3), of small_lib ?v 0 0] t
  show ?thesis by auto
qed

lemma negative_window_panics:
  "0 \<le> halfW \<Longrightarrow> halfH < 0 \<Longrightarrow> Window lib v cx cy halfW halfH = Inl (Panic ''makeslice: cap out of range'')"
  by (simp add: Window_def Let_def mult_pos_neg)

text \<open>The truncation of a small negative coordinate is column 0 of the map, not the border.\<close>

lemma tileOf_negative: "-32 < x \<Longrightarrow> x < 0 \<Longrightarrow> tileOf x = 0"
  by (simp add: tileOf_def go_div_def TileSize_def)

end
