(* ===== verification/PredTime.thy ===== *)
theory PredTime
  imports Input Floats
begin

text \<open>
  client/prediction.go and client/predicted_time.go: the ring of sent inputs and the predicted
  clock, a port of the smooth clock of Teeworlds. Times are nanoseconds of the monotonic clock,
  whose reading is the argument \<open>now\<close>; mutexes are left out. Ticks are 32 bits wide, so that no
  time leaves the 64 bits of Go's \<open>int64\<close>.
\<close>

section \<open>The ring of inputs\<close>

definition DefaultPredInputRingSize :: int where "DefaultPredInputRingSize = 256"
definition MinPredInputRingSize :: int where "MinPredInputRingSize = 8"

definition clampPredInputRingSize :: "int \<Rightarrow> int" where
  "clampPredInputRingSize n =
     (if n \<le> 0 then DefaultPredInputRingSize else if n < MinPredInputRingSize then MinPredInputRingSize else n)"

record pred_input =
  pi_tick :: int
  pi_input :: player_input
  pi_set :: bool

type_synonym input_ring = "pred_input list"

definition empty_slot :: pred_input where
  "empty_slot = \<lparr>pi_tick = 0, pi_input = zero_input, pi_set = False\<rparr>"

definition configure_ring :: "int \<Rightarrow> input_ring" where
  "configure_ring n = replicate (nat (clampPredInputRingSize n)) empty_slot"

definition ensureRing :: "input_ring \<Rightarrow> input_ring" where
  "ensureRing ring = (if ring = [] then replicate (nat DefaultPredInputRingSize) empty_slot else ring)"

definition ring_index :: "input_ring \<Rightarrow> int \<Rightarrow> int" where
  "ring_index ring tick = go_mod tick (int (length ring))"

definition record_input :: "int \<Rightarrow> player_input \<Rightarrow> input_ring \<Rightarrow> input_ring" where
  "record_input predTick inp ring =
     (if predTick \<le> 0 then ring
      else
        (let r = ensureRing ring in
         r[nat (ring_index r predTick) := \<lparr>pi_tick = predTick, pi_input = inp, pi_set = True\<rparr>]))"

text \<open>A negative tick is a negative index: a panic.\<close>

definition get_input :: "int \<Rightarrow> (input_ring, player_input option) gost" where
  "get_input tick ring =
     (let r = ensureRing ring; i = ring_index r tick in
      if i < 0 then (Inl (Panic ''index out of range''), r)
      else
        (let slot = r ! nat i in
         (Inr (if pi_set slot \<and> pi_tick slot = tick then Some (pi_input slot) else None), r)))"

section \<open>The smooth clock\<close>

definition timeFreq :: int where "timeFreq = 1000000000"
definition ServerTickSpeed :: int where "ServerTickSpeed = 50"
definition predictionMarginMs :: int where "predictionMarginMs = 10"
definition ExtraInputLead :: int where "ExtraInputLead = 1"

text \<open>The array of two adjust speeds is a pair of fields.\<close>

record smooth_time =
  sm_snap :: int
  sm_current :: int
  sm_target :: int
  sm_adjust0 :: rat
  sm_adjust1 :: rat
  sm_spikeCounter :: int

definition zero_smooth :: smooth_time where
  "zero_smooth = \<lparr>sm_snap = 0, sm_current = 0, sm_target = 0, sm_adjust0 = 0, sm_adjust1 = 0, sm_spikeCounter = 0\<rparr>"

definition smooth_Init :: "int \<Rightarrow> int \<Rightarrow> smooth_time \<Rightarrow> smooth_time" where
  "smooth_Init now target s =
     s\<lparr>sm_snap := now, sm_current := target, sm_target := target,
       sm_adjust0 := f64 (3 / 10), sm_adjust1 := f64 (3 / 10), sm_spikeCounter := 0\<rparr>"

definition smooth_Get :: "int \<Rightarrow> smooth_time \<Rightarrow> int" where
  "smooth_Get now s =
     (let c = sm_current s + (now - sm_snap s); t = sm_target s + (now - sm_snap s);
          adjust = (if t > c then sm_adjust1 s else sm_adjust0 s);
          a = f64 (f64 (f64 (of_int (now - sm_snap s)) / f64 (of_int timeFreq)) * adjust);
          a' = (if a > 1 then 1 else a) in
      c + to_int64 (f64 (f64 (of_int (t - c)) * a')))"

definition smooth_UpdateInt :: "int \<Rightarrow> int \<Rightarrow> smooth_time \<Rightarrow> smooth_time" where
  "smooth_UpdateInt now target s =
     s\<lparr>sm_current := smooth_Get now s, sm_snap := now, sm_target := target\<rparr>"

definition adjust_of :: "bool \<Rightarrow> smooth_time \<Rightarrow> rat" where
  "adjust_of up s = (if up then sm_adjust1 s else sm_adjust0 s)"

definition set_adjust :: "bool \<Rightarrow> rat \<Rightarrow> smooth_time \<Rightarrow> smooth_time" where
  "set_adjust up x s = (if up then s\<lparr>sm_adjust1 := x\<rparr> else s\<lparr>sm_adjust0 := x\<rparr>)"

text \<open>\<open>up\<close> is \<open>dir = 1\<close>.\<close>

definition smooth_Update :: "int \<Rightarrow> int \<Rightarrow> int \<Rightarrow> bool \<Rightarrow> smooth_time \<Rightarrow> smooth_time" where
  "smooth_Update now target timeLeftMs up s =
     (let (s1, updateTimer) =
        (if timeLeftMs < 0 then
           (let isSpike = timeLeftMs < -50;
                s0 = (if isSpike then s\<lparr>sm_spikeCounter := min 50 (sm_spikeCounter s + 5)\<rparr> else s) in
            if isSpike \<and> sm_spikeCounter s0 < 15 then (s0, False)
            else if adjust_of up s0 < 30 then (set_adjust up (f64 (adjust_of up s0 * 2)) s0, True)
            else (s0, True))
         else
           (let s0 = (if sm_spikeCounter s > 0 then s\<lparr>sm_spikeCounter := sm_spikeCounter s - 1\<rparr> else s);
                x = f64 (adjust_of up s0 * f64 (95 / 100)) in
            (set_adjust up (if x < 2 then 2 else x) s0, True))) in
      if updateTimer then smooth_UpdateInt now target s1 else s1)"

section \<open>PredictedTime\<close>

definition DefaultInputTimingRingSize :: int where "DefaultInputTimingRingSize = 200"
definition MinInputTimingRingSize :: int where "MinInputTimingRingSize = 16"

definition clampInputTimingRingSize :: "int \<Rightarrow> int" where
  "clampInputTimingRingSize n =
     (if n \<le> 0 then DefaultInputTimingRingSize else if n < MinInputTimingRingSize then MinInputTimingRingSize else n)"

record input_record =
  ir_tick :: int
  ir_predictedTime :: int
  ir_time :: int

definition zero_record :: input_record where
  "zero_record = \<lparr>ir_tick = 0, ir_predictedTime = 0, ir_time = 0\<rparr>"

record predicted_time =
  pt_st :: smooth_time
  pt_initialized :: bool
  pt_snaps :: int
  pt_ackTick :: int
  pt_predTick :: int
  pt_inputs :: "input_record list"
  pt_cur :: nat

definition zero_predicted_time :: predicted_time where
  "zero_predicted_time = \<lparr>pt_st = zero_smooth, pt_initialized = False, pt_snaps = 0, pt_ackTick = 0,
     pt_predTick = 0, pt_inputs = [], pt_cur = 0\<rparr>"

definition configure_time :: "int \<Rightarrow> predicted_time \<Rightarrow> predicted_time" where
  "configure_time n p = p\<lparr>pt_inputs := replicate (nat (clampInputTimingRingSize n)) zero_record\<rparr>"

definition ensure_time_ring :: "predicted_time \<Rightarrow> predicted_time" where
  "ensure_time_ring p =
     (if pt_inputs p = [] then p\<lparr>pt_inputs := replicate (nat DefaultInputTimingRingSize) zero_record\<rparr> else p)"

definition OnSnapshot :: "int \<Rightarrow> int \<Rightarrow> predicted_time \<Rightarrow> predicted_time" where
  "OnSnapshot now tick p =
     (let p1 = (if tick > pt_ackTick p then p\<lparr>pt_ackTick := tick\<rparr> else p);
          p2 = p1\<lparr>pt_snaps := pt_snaps p1 + 1\<rparr> in
      if \<not> pt_initialized p2 \<and> pt_snaps p2 \<ge> 2 then
        p2\<lparr>pt_st := (smooth_Init now (go_div (tick * timeFreq) ServerTickSpeed) (pt_st p2))\<lparr>sm_adjust1 := 1000\<rparr>,
           pt_predTick := tick, pt_initialized := True\<rparr>
      else p2)"

definition AckTick :: "predicted_time \<Rightarrow> int" where
  "AckTick p = pt_ackTick p"

definition predicted_tick :: "int \<Rightarrow> int" where
  "predicted_tick predNow = go_div (predNow * ServerTickSpeed) timeFreq + 1 + ExtraInputLead"

definition PredTick :: "int \<Rightarrow> predicted_time \<Rightarrow> int" where
  "PredTick now p = (if \<not> pt_initialized p then 0 else predicted_tick (smooth_Get now (pt_st p)))"

text \<open>The tick to send with the tick to acknowledge, or nothing.\<close>

definition NextInput :: "int \<Rightarrow> predicted_time \<Rightarrow> (int \<times> int) option \<times> predicted_time" where
  "NextInput now p =
     (if \<not> pt_initialized p then (None, p)
      else
        (let predNow = smooth_Get now (pt_st p); newPred = predicted_tick predNow in
         if newPred \<le> pt_predTick p then (None, p)
         else
           (let p1 = ensure_time_ring (p\<lparr>pt_predTick := newPred\<rparr>);
                p2 = p1\<lparr>pt_inputs := (pt_inputs p1)[pt_cur p1 :=
                      \<lparr>ir_tick = newPred, ir_predictedTime = predNow, ir_time = now\<rparr>],
                      pt_cur := (pt_cur p1 + 1) mod length (pt_inputs p1)\<rparr> in
            (Some (newPred, pt_ackTick p2), p2))))"

definition adjust_target :: "int \<Rightarrow> int \<Rightarrow> input_record \<Rightarrow> int" where
  "adjust_target now timeLeftMs r =
     ir_predictedTime r + (now - ir_time r) -
       to_int64 (f64 (f64 (f64 (of_int (timeLeftMs - predictionMarginMs)) / 1000) * f64 (of_int timeFreq)))"

definition AdjustTime :: "int \<Rightarrow> int \<Rightarrow> int \<Rightarrow> predicted_time \<Rightarrow> predicted_time" where
  "AdjustTime now intendedTick timeLeftMs p =
     (if \<not> pt_initialized p then p
      else
        (case find (\<lambda>r. ir_tick r = intendedTick) (pt_inputs p) of
           None \<Rightarrow> p
         | Some r \<Rightarrow> p\<lparr>pt_st := smooth_Update now (adjust_target now timeLeftMs r) timeLeftMs True (pt_st p)\<rparr>))"

definition ResetTime :: "predicted_time \<Rightarrow> predicted_time" where
  "ResetTime p = p\<lparr>pt_st := zero_smooth, pt_initialized := False, pt_snaps := 0, pt_ackTick := 0, pt_predTick := 0,
     pt_inputs := replicate (length (pt_inputs p)) zero_record, pt_cur := 0\<rparr>"

section \<open>The ring keeps the latest inputs\<close>

text \<open>What the prediction needs of the store of inputs: the latest ticks are found, nothing else is.\<close>

locale input_window =
  fixes put :: "int \<Rightarrow> 'i \<Rightarrow> 'r \<Rightarrow> 'r" and look :: "int \<Rightarrow> 'r \<Rightarrow> 'i option" and window :: "'r \<Rightarrow> int" and ok :: "'r \<Rightarrow> bool"
  assumes ok_put: "ok r \<Longrightarrow> ok (put t i r)"
    and window_put: "ok r \<Longrightarrow> window (put t i r) = window r"
    and look_put: "ok r \<Longrightarrow> 0 < t \<Longrightarrow> look t (put t i r) = Some i"
    and look_other: "ok r \<Longrightarrow> 0 < t \<Longrightarrow> 0 < u \<Longrightarrow> \<not> window r dvd t - u \<Longrightarrow> look u (put t i r) = look u r"
    and look_evicted: "ok r \<Longrightarrow> 0 < t \<Longrightarrow> 0 < u \<Longrightarrow> t \<noteq> u \<Longrightarrow> window r dvd t - u \<Longrightarrow> look u (put t i r) = None"
begin

definition put_all :: "(int \<Rightarrow> 'i) \<Rightarrow> int list \<Rightarrow> 'r \<Rightarrow> 'r" where
  "put_all f ts r = fold (\<lambda>t. put t (f t)) ts r"

lemma put_all_ok: "ok r \<Longrightarrow> ok (put_all f ts r) \<and> window (put_all f ts r) = window r"
  by (induction ts arbitrary: r) (simp_all add: put_all_def ok_put window_put)

lemma look_kept:
  assumes "ok r" and "\<forall>u\<in>set ts. t < u \<and> u < t + window r" and "0 < t"
  shows "look t (put_all f ts r) = look t r"
  using assms(1,2)
proof (induction ts arbitrary: r)
  case (Cons u ts)
  have "\<not> window r dvd u - t" using Cons.prems(2) by (auto dest: zdvd_imp_le)
  with Cons.prems assms(3) have "look t (put u (f u) r) = look t r" by (intro look_other) auto
  with Cons show ?case by (simp add: put_all_def ok_put window_put)
qed (simp add: put_all_def)

text \<open>Every recorded tick less than a window behind the last is found.\<close>

lemma look_recorded:
  assumes "ok r" and "sorted_wrt (<) ts" and "\<forall>u\<in>set ts. 0 < u" and "t \<in> set ts" and "last ts < t + window r"
  shows "look t (put_all f ts r) = Some (f t)"
proof -
  obtain as bs where ts: "ts = as @ t # bs" using assms(4) by (meson split_list)
  then have bs: "\<forall>u\<in>set bs. t < u" using assms(2) by (auto simp: sorted_wrt_append)
  have "\<forall>u\<in>set bs. u \<le> last ts"
  proof
    fix u assume "u \<in> set bs"
    then obtain cs ds where "bs = cs @ u # ds" by (meson split_list)
    with ts assms(2) show "u \<le> last ts" by (cases "ds = []") (auto simp: sorted_wrt_append less_imp_le)
  qed
  with bs assms(5) have win: "\<forall>u\<in>set bs. t < u \<and> u < t + window r" by fastforce
  let ?r = "put_all f as r"
  have okr: "ok ?r" "window ?r = window r" using put_all_ok assms(1) by auto
  have "put_all f ts r = put_all f bs (put t (f t) ?r)" by (simp add: put_all_def ts)
  moreover have "look t (put_all f bs (put t (f t) ?r)) = look t (put t (f t) ?r)"
    using win assms(3,4) okr by (intro look_kept) (auto simp: ok_put window_put)
  moreover have "look t (put t (f t) ?r) = Some (f t)" using okr assms(3,4) by (intro look_put) auto
  ultimately show ?thesis by simp
qed

end

definition ring_look :: "int \<Rightarrow> input_ring \<Rightarrow> player_input option" where
  "ring_look t ring = (case fst (get_input t ring) of Inr i \<Rightarrow> i | Inl e \<Rightarrow> None)"

lemma get_input_look: "0 < t \<Longrightarrow> get_input t ring = (Inr (ring_look t ring), ensureRing ring)"
  by (simp add: ring_look_def get_input_def ring_index_def Let_def ensureRing_def DefaultPredInputRingSize_def not_less)

lemma record_length: "length (record_input t i ring) = (if t \<le> 0 then length ring else length (ensureRing ring))"
  by (simp add: record_input_def Let_def)

lemma mod_eq_dvd: "0 < n \<Longrightarrow> (a::int) mod n = b mod n \<longleftrightarrow> n dvd a - b"
  by (simp add: mod_eq_dvd_iff)

interpretation pred_ring: input_window record_input ring_look "\<lambda>r. int (length r)" "\<lambda>r. r \<noteq> []"
proof unfold_locales
  fix r :: input_ring and t u :: int and i
  assume r: "r \<noteq> []"
  then have e: "ensureRing r = r" and n: "0 < int (length r)" by (simp_all add: ensureRing_def)
  note defs = record_input_def get_input_def ring_look_def ring_index_def Let_def e
  show "record_input t i r \<noteq> []" using r e by (simp add: record_input_def Let_def)
  show "int (length (record_input t i r)) = int (length r)" using e by (simp add: record_length)
  have e2: "ensureRing (r[k := x]) = r[k := x]" for k x using r by (simp add: ensureRing_def)
  have idx: "nat (t mod int (length r)) < length r" "0 \<le> t mod int (length r)" for t
    using pos_mod_bound [OF n, of t] pos_mod_sign [OF n, of t] by linarith+
  have same: "nat (t mod int (length r)) = nat (u mod int (length r)) \<longleftrightarrow> int (length r) dvd t - u"
    using mod_eq_dvd [OF n, of t u] idx(2) [of t] idx(2) [of u] by (auto simp: nat_eq_iff2)
  show "0 < t \<Longrightarrow> ring_look t (record_input t i r) = Some i"
    using idx [of t] by (simp add: defs e2 not_less)
  show "ring_look u (record_input t i r) = ring_look u r"
    if "0 < t" "0 < u" "\<not> int (length r) dvd t - u"
    using that idx [of t] idx [of u] same by (simp add: defs e2 not_less nth_list_update)
  show "ring_look u (record_input t i r) = None"
    if "0 < t" "0 < u" "t \<noteq> u" "int (length r) dvd t - u"
    using that idx [of t] idx [of u] same by (simp add: defs e2 not_less nth_list_update)
qed

text \<open>
  The prediction finds the inputs it has to replay. After any sequence of inputs sent for
  increasing ticks, the ring returns for every tick less than its size behind the latest the input
  that was sent for it, and the read panics for no such tick.
\<close>

theorem sent_inputs_found:
  assumes "sorted_wrt (<) ts" and "0 < hd ts" and "t \<in> set ts" and "last ts < t + clampPredInputRingSize n"
  shows "fst (get_input t (fold (\<lambda>t. record_input t (f t)) ts (configure_ring n))) = Inr (Some (f t))"
proof -
  have c: "0 < clampPredInputRingSize n" by (simp add: clampPredInputRingSize_def DefaultPredInputRingSize_def MinPredInputRingSize_def)
  have pos: "\<forall>u\<in>set ts. 0 < u" using assms(1,2) by (cases ts) auto
  have "ring_look t (pred_ring.put_all f ts (configure_ring n)) = Some (f t)"
    using c assms(1,3,4) pos by (intro pred_ring.look_recorded) (simp_all add: configure_ring_def)
  with pos assms(3) show ?thesis by (simp add: get_input_look pred_ring.put_all_def)
qed

theorem sent_inputs_found_witness:
  "fst (get_input 3 (fold (\<lambda>t. record_input t (zero_input\<lparr>Fire := t\<rparr>)) [1, 2, 3, 9, 10] (configure_ring 8))) =
    Inr (Some (zero_input\<lparr>Fire := 3\<rparr>))"
  by (rule sent_inputs_found) (simp_all add: clampPredInputRingSize_def MinPredInputRingSize_def)

section \<open>The clock\<close>

lemma trunc_between: "0 \<le> x \<Longrightarrow> x \<le> of_int n \<Longrightarrow> 0 \<le> trunc x \<and> trunc x \<le> n"
  by (simp add: trunc_def floor_le_iff le_floor_iff)

lemma trunc_minus: "trunc (- x) = - trunc x"
  by (simp add: trunc_def ceiling_minus floor_minus)

lemma scaled_step:
  assumes "\<bar>d\<bar> \<le> 2 ^ 53" and "0 \<le> a" and "a \<le> 1"
  shows "min 0 d \<le> to_int64 (f64 (f64 (of_int d) * a)) \<and> to_int64 (f64 (f64 (of_int d) * a)) \<le> max 0 d"
proof -
  have ex: "f64 (of_int d) = of_int d" using f64.ints [OF assms(1)] .
  have main: "0 \<le> trunc (f64 (of_int k * a)) \<and> trunc (f64 (of_int k * a)) \<le> k" if "0 \<le> k" "k \<le> 2 ^ 53" for k :: int
  proof (rule trunc_between)
    show "0 \<le> f64 (of_int k * a)" using that assms(2) by (intro f64.nonneg) simp
    have "of_int k * a \<le> of_int k" using that assms(3) mult_left_mono [of a 1 "of_int k"] by simp
    then show "f64 (of_int k * a) \<le> of_int k" using that by (intro f64.below) simp_all
  qed
  show ?thesis
  proof (cases "0 \<le> d")
    case True
    with main [of d] assms(1) show ?thesis by (simp add: ex to_int64_def)
  next
    case False
    have "f64 (of_int d * a) = - f64 (of_int (- d) * a)" using f64.odd [of "of_int d * a"] by simp
    with main [of "- d"] False assms(1) show ?thesis by (simp add: ex to_int64_def trunc_minus)
  qed
qed

definition free_running :: "int \<Rightarrow> int \<Rightarrow> smooth_time \<Rightarrow> int" where
  "free_running now x s = x + (now - sm_snap s)"

text \<open>
  The smooth clock never overshoots. Between two corrections its reading lies between the time
  that runs on from the last reading and the time that runs on from the target, whatever the
  adjust speeds and however long nothing was corrected; at the moment of a correction it does not jump.
\<close>

theorem smooth_clock_between:
  assumes "sm_snap s \<le> now" and "0 \<le> sm_adjust0 s" and "0 \<le> sm_adjust1 s"
    and "\<bar>sm_target s - sm_current s\<bar> \<le> 2 ^ 53"
  shows "min (free_running now (sm_current s) s) (free_running now (sm_target s) s) \<le> smooth_Get now s \<and>
    smooth_Get now s \<le> max (free_running now (sm_current s) s) (free_running now (sm_target s) s) \<and>
    smooth_Get (sm_snap s) s = sm_current s \<and> smooth_Get now (smooth_UpdateInt now target s) = smooth_Get now s"
proof -
  define adj where "adj = (if sm_target s > sm_current s then sm_adjust1 s else sm_adjust0 s)"
  define a where "a = f64 (f64 (f64 (of_int (now - sm_snap s)) / f64 (of_int timeFreq)) * adj)"
  have "0 \<le> f64 (of_int timeFreq)" by (intro f64.nonneg) (simp add: timeFreq_def)
  then have "0 \<le> a"
    unfolding a_def using assms(1-3) by (intro f64.nonneg mult_nonneg_nonneg divide_nonneg_nonneg) (auto simp: adj_def timeFreq_def)
  then have "0 \<le> (if a > 1 then 1 else a)" "(if a > 1 then 1 else a) \<le> 1" by auto
  note step = scaled_step [OF assms(4) this]
  have g: "smooth_Get now s = sm_current s + (now - sm_snap s) +
      to_int64 (f64 (f64 (of_int (sm_target s - sm_current s)) * (if a > 1 then 1 else a)))"
    by (simp add: smooth_Get_def Let_def a_def adj_def)
  have at: "smooth_Get (sm_snap u) u = sm_current u" for u
    by (simp add: smooth_Get_def Let_def to_int64_def trunc_def)
  have "smooth_Get now (smooth_UpdateInt now target s) = smooth_Get now s"
    using at [of "smooth_UpdateInt now target s"] by (simp add: smooth_UpdateInt_def)
  with g step at [of s] show ?thesis by (auto simp: free_running_def min_def max_def)
qed

theorem smooth_clock_between_witness:
  "smooth_Get 500000000 (smooth_Init 0 1000 zero_smooth) = 500001000 \<and>
   min (free_running 500000000 1000 (smooth_Init 0 1000 zero_smooth)) (free_running 500000000 1000 (smooth_Init 0 1000 zero_smooth))
     \<le> smooth_Get 500000000 (smooth_Init 0 1000 zero_smooth)"
proof -
  have "0 \<le> f64 (3 / 10)" by (intro f64.nonneg) simp
  then show ?thesis
    using smooth_clock_between [of "smooth_Init 0 1000 zero_smooth" 500000000 0]
    by (simp add: smooth_Init_def free_running_def)
qed

section \<open>One input per tick\<close>

datatype time_op = POnSnapshot int int | PNextInput int | PAdjust int int int

definition time_step :: "time_op \<Rightarrow> predicted_time \<Rightarrow> (int \<times> int) list \<times> predicted_time" where
  "time_step x p =
     (case x of
        POnSnapshot now tick \<Rightarrow> ([], OnSnapshot now tick p)
      | PNextInput now \<Rightarrow> (case NextInput now p of (None, p') \<Rightarrow> ([], p') | (Some s, p') \<Rightarrow> ([s], p'))
      | PAdjust now tick left \<Rightarrow> ([], AdjustTime now tick left p))"

fun time_run :: "time_op list \<Rightarrow> predicted_time \<Rightarrow> (int \<times> int) list \<times> predicted_time" where
  "time_run [] p = ([], p)"
| "time_run (x # xs) p = (let (a, p1) = time_step x p; (b, p2) = time_run xs p1 in (a @ b, p2))"

lemma time_step_facts:
  assumes "time_step x p = (out, p')"
  shows "(pt_initialized p \<longrightarrow> pt_initialized p' \<and> pt_predTick p \<le> pt_predTick p') \<and> pt_ackTick p \<le> pt_ackTick p' \<and>
    (\<forall>s\<in>set out. pt_initialized p \<and> pt_predTick p < fst s \<and> fst s \<le> pt_predTick p' \<and> snd s = pt_ackTick p) \<and>
    length out \<le> 1"
  using assms
  by (cases x) (auto simp: time_step_def OnSnapshot_def NextInput_def AdjustTime_def ensure_time_ring_def Let_def
      split: if_splits option.splits)

lemma time_run_sends:
  "time_run xs p = (out, p') \<Longrightarrow> sorted_wrt (<) (map fst out) \<and> sorted (map snd out) \<and>
     (\<forall>s\<in>set out. (pt_initialized p \<longrightarrow> pt_predTick p < fst s) \<and> pt_ackTick p \<le> snd s)"
proof (induction xs arbitrary: p out)
  case (Cons x xs)
  obtain a p1 where a: "time_step x p = (a, p1)" by fastforce
  obtain b where b: "time_run xs p1 = (b, p')" "out = a @ b" using Cons.prems a by (auto simp: Let_def split: prod.splits)
  note f = time_step_facts [OF a]
  from f consider "a = []" | s where "a = [s]" by (cases a) auto
  then show ?case
    using Cons.IH [OF b(1)] f b(2) by cases fastforce+
qed simp

text \<open>
  C27: One input per tick. Over any interleaving of snapshots, input polls and timing feedback on a
  connection, and for any readings of the clock, the ticks for which inputs are sent strictly
  increase and the acknowledged ticks that go with them never decrease.
\<close>

theorem inputs_strictly_ordered:
  "sorted_wrt (<) (map fst (fst (time_run xs p))) \<and> sorted (map snd (fst (time_run xs p)))"
  using time_run_sends [of xs p] by (metis prod.collapse)

text \<open>
  Feedback for tick 0 matches an unused slot of the history: the clock is pulled towards the time
  since the start of the process.
\<close>

lemma feedback_for_tick_0:
  "find (\<lambda>r. ir_tick r = 0) (pt_inputs (configure_time 0 zero_predicted_time)) = Some zero_record"
  by (simp add: configure_time_def clampInputTimingRingSize_def DefaultInputTimingRingSize_def zero_record_def
      numeral_eq_Suc)

end
