(* ===== verification/PredWorld.thy ===== *)
theory PredWorld
  imports MapView PredTime ClientSnap
begin

text \<open>
  client/predicted_world.go and client/tuning.go: the world of cores that is seeded from a snapshot and
  ticked to the predicted tick, and what a client answers from it. Pointers to cores are their places
  in the world's map; \<open>math.Pow\<close> is \<open>pow\<close>, the library twmap \<open>lib\<close>, the order of a map loop \<open>rng\<close>.
\<close>

section \<open>Tuning\<close>

text \<open>One \<open>set\<close> call: a field keeps its value when the array is too short.\<close>

definition raw_or :: "int list \<Rightarrow> nat \<Rightarrow> rat \<Rightarrow> rat" where
  "raw_or raw i d = (if i \<ge> length raw then d else f32 (f32 (of_int (raw ! i)) / 100))"

definition tuningFromRaw :: "int list \<Rightarrow> tuning" where
  "tuningFromRaw raw =
     (let d = DefaultTuning in
      \<lparr>Gravity = raw_or raw 12 (Gravity d),
       GroundControlSpeed = raw_or raw 0 (GroundControlSpeed d),
       GroundControlAccel = raw_or raw 1 (GroundControlAccel d),
       GroundFriction = raw_or raw 2 (GroundFriction d),
       AirControlSpeed = raw_or raw 5 (AirControlSpeed d),
       AirControlAccel = raw_or raw 6 (AirControlAccel d),
       AirFriction = raw_or raw 7 (AirFriction d),
       GroundJumpImpulse = raw_or raw 3 (GroundJumpImpulse d),
       AirJumpImpulse = raw_or raw 4 (AirJumpImpulse d),
       HookLength = raw_or raw 8 (HookLength d),
       HookFireSpeed = raw_or raw 9 (HookFireSpeed d),
       HookDragAccel = raw_or raw 10 (HookDragAccel d),
       HookDragSpeed = raw_or raw 11 (HookDragSpeed d),
       VelrampStart = raw_or raw 13 (VelrampStart d),
       VelrampRange = raw_or raw 14 (VelrampRange d),
       VelrampCurvature = raw_or raw 15 (VelrampCurvature d),
       GrenadeSpeed = raw_or raw 24 (GrenadeSpeed d),
       GrenadeCurvature = raw_or raw 23 (GrenadeCurvature d),
       GrenadeLifetime = raw_or raw 25 (GrenadeLifetime d),
       ExplosionStrength = raw_or raw 35 (ExplosionStrength d),
       GunSpeed = raw_or raw 17 (GunSpeed d),
       GunCurvature = raw_or raw 16 (GunCurvature d),
       ShotgunSpeed = raw_or raw 20 (ShotgunSpeed d),
       ShotgunCurvature = raw_or raw 19 (ShotgunCurvature d)\<rparr>)"

section \<open>The predicted world\<close>

record predicted_world =
  pw_col :: collision
  pw_tun :: tuning
  pw_cfg :: world_config
  pw_cores :: "(int, core) fmap"
  pw_seed :: "(int, character) fmap"
  pw_baseTick :: int
  pw_tuneAt :: "(int \<Rightarrow> int \<Rightarrow> tuning) option"

definition applyZoneTuning :: "(int \<Rightarrow> int \<Rightarrow> tuning) option \<Rightarrow> core \<Rightarrow> core" where
  "applyZoneTuning tuneAt c =
     (case tuneAt of
        None \<Rightarrow> c
      | Some f \<Rightarrow> SetTuning (f (go_div (to_int64 (vx (Pos c))) TileSize) (go_div (to_int64 (vy (Pos c))) TileSize)) c)"

definition seedCore :: "collision \<Rightarrow> tuning \<Rightarrow> world_config \<Rightarrow> character \<Rightarrow> core" where
  "seedCore col tun cfg ch =
     (let c = SetWorldConfig cfg (SetTuning tun (NewCore col (mk (f32 (of_int (ch_X ch))) (f32 (of_int (ch_Y ch)))))) in
      c\<lparr>Vel := mk (f32 (f32 (of_int (ch_VelX ch)) / 256)) (f32 (f32 (of_int (ch_VelY ch)) / 256)),
        c_Direction := ch_Direction ch, c_Angle := ch_Angle ch, Jumped := ch_Jumped ch, HookState := ch_HookState ch\<rparr>)"

definition newPredictedWorld ::
    "collision \<Rightarrow> tuning \<Rightarrow> world_config \<Rightarrow> int \<Rightarrow> (int, character) fmap \<Rightarrow> predicted_world" where
  "newPredictedWorld col tun cfg baseTick chs =
     \<lparr>pw_col = col, pw_tun = tun, pw_cfg = cfg, pw_cores = fmmap (seedCore col tun cfg) chs, pw_seed = chs,
      pw_baseTick = baseTick, pw_tuneAt = None\<rparr>"

definition orderedCIDs :: "predicted_world \<Rightarrow> int \<Rightarrow> bool \<Rightarrow> int list" where
  "orderedCIDs w lid antiping =
     (if \<not> antiping then (if lid |\<in>| fmdom (pw_cores w) then [lid] else [])
      else sorted_list_of_fset (fmdom (pw_cores w)))"

text \<open>A missing key of a Go map is the zero value.\<close>

definition seed_of :: "predicted_world \<Rightarrow> int \<Rightarrow> character" where
  "seed_of w cid = (case fmlookup (pw_seed w) cid of None \<Rightarrow> zero_character | Some ch \<Rightarrow> ch)"

definition extrapolatedInput :: "character \<Rightarrow> phys_input" where
  "extrapolatedInput ch =
     \<lparr>in_Direction = ch_Direction ch, in_TargetX = ch_HookDx ch, in_TargetY = ch_HookDy ch, in_Jump = False,
      in_Hook = (ch_HookState ch = HookFlying \<or> ch_HookState ch = HookGrabbed), in_FireGrenade = False, in_JumpTick = 0\<rparr>"

definition inputToPhysics :: "player_input \<Rightarrow> phys_input" where
  "inputToPhysics i =
     \<lparr>in_Direction = Direction i, in_TargetX = TargetX i, in_TargetY = TargetY i, in_Jump = (Jump i = 1),
      in_Hook = (Hook i = 1), in_FireGrenade = (go_mod (Fire i) 2 = 1 \<and> WantedWeapon i = 4), in_JumpTick = 0\<rparr>"

text \<open>The inputs of one tick; the first tee with the local id is the local one.\<close>

definition tick_inputs :: "predicted_world \<Rightarrow> int list \<Rightarrow> int \<Rightarrow> phys_input \<Rightarrow> phys_input list" where
  "tick_inputs w cids lid localIn =
     map (\<lambda>cid. if cid = lid then localIn else extrapolatedInput (seed_of w cid)) cids"

definition zero_phys_input :: phys_input where
  "zero_phys_input = \<lparr>in_Direction = 0, in_TargetX = 0, in_TargetY = 0, in_Jump = False, in_Hook = False,
     in_FireGrenade = False, in_JumpTick = 0\<rparr>"

text \<open>
  The loop over the ticks: \<open>n\<close> ticks are left, the next one is \<open>tick\<close>. A missing local input leaves
  the loop.
\<close>

fun advance_ticks ::
    "(rat \<Rightarrow> rat \<Rightarrow> rat) \<Rightarrow> predicted_world \<Rightarrow> int list \<Rightarrow> int \<Rightarrow> nat \<Rightarrow> int \<Rightarrow> core list \<Rightarrow> (input_ring, core list) gost" where
  "advance_ticks pow w cids lid 0 tick cores = ret cores"
| "advance_ticks pow w cids lid (Suc n) tick cores =
     bnd (if lid \<in> set cids then get_input tick else ret (Some zero_input))
       (\<lambda>found. case found of
          None \<Rightarrow> ret cores
        | Some netIn \<Rightarrow>
            (let localIn = (if lid \<in> set cids then inputToPhysics netIn else zero_phys_input) in
             case WorldStep pow (map (applyZoneTuning (pw_tuneAt w)) cores) (tick_inputs w cids lid localIn) of
               Inl e \<Rightarrow> fail e
             | Inr cores1 \<Rightarrow> advance_ticks pow w cids lid n (tick + 1) cores1))"

definition cores_of :: "predicted_world \<Rightarrow> int list \<Rightarrow> core list" where
  "cores_of w cids = map (\<lambda>cid. the (fmlookup (pw_cores w) cid)) cids"

definition put_cores :: "int list \<Rightarrow> core list \<Rightarrow> predicted_world \<Rightarrow> predicted_world" where
  "put_cores cids cores w = w\<lparr>pw_cores := fold (\<lambda>(cid, c). fmupd cid c) (zip cids cores) (pw_cores w)\<rparr>"

definition advance ::
    "(rat \<Rightarrow> rat \<Rightarrow> rat) \<Rightarrow> int \<Rightarrow> int \<Rightarrow> bool \<Rightarrow> predicted_world \<Rightarrow> (input_ring, predicted_world) gost" where
  "advance pow lid predTick antiping w =
     (let cids = orderedCIDs w lid antiping in
      if cids = [] then ret w
      else
        bnd (advance_ticks pow w cids lid (nat (predTick - pw_baseTick w)) (pw_baseTick w + 1) (cores_of w cids))
          (\<lambda>cores. ret (put_cores cids cores w)))"

definition core_character :: "core \<Rightarrow> character" where
  "core_character c =
     (let (x, y) = QuantizedPos c in
      zero_character\<lparr>ch_X := x, ch_Y := y, ch_VelX := to_int64 (f32 (vx (Vel c) * 256)),
        ch_VelY := to_int64 (f32 (vy (Vel c) * 256)), ch_Direction := c_Direction c, ch_Angle := c_Angle c,
        ch_Jumped := Jumped c, ch_HookState := HookState c\<rparr>)"

definition world_character :: "predicted_world \<Rightarrow> int \<Rightarrow> character option" where
  "world_character w cid = map_option core_character (fmlookup (pw_cores w) cid)"

definition world_characters :: "predicted_world \<Rightarrow> (int, character) fmap" where
  "world_characters w = fmmap core_character (pw_cores w)"

section \<open>The prediction of a client\<close>

record prediction =
  predInputs :: input_ring
  predTime :: predicted_time
  predictEnabled :: bool
  p_antiping :: bool
  predWorld :: "predicted_world option"
  prevPredWorld :: "predicted_world option"
  predCol :: "collision option"
  predCfg :: world_config
  predTun :: tuning
  tunings :: "(int, tuning) fmap"
  p_mapView :: "map_view option"

text \<open>\<open>m\<close> is what \<open>c.Map()\<close> answers.\<close>

definition MapViewOf :: "tw_map option \<Rightarrow> prediction \<Rightarrow> map_view option \<times> prediction" where
  "MapViewOf m p =
     (case p_mapView p of
        Some mv \<Rightarrow> (Some mv, p)
      | None \<Rightarrow>
          (case m of
             None \<Rightarrow> (None, p)
           | Some _ \<Rightarrow> (let mv = NewMapView m in (Some mv, p\<lparr>p_mapView := Some mv\<rparr>))))"

definition setTuning :: "int list \<Rightarrow> prediction \<Rightarrow> prediction" where
  "setTuning raw p =
     (let tun = tuningFromRaw raw in p\<lparr>predTun := tun, tunings := fmupd 0 tun (tunings p)\<rparr>)"

definition tuningForZone :: "int \<Rightarrow> prediction \<Rightarrow> tuning" where
  "tuningForZone zone p = (case fmlookup (tunings p) zone of Some t \<Rightarrow> t | None \<Rightarrow> predTun p)"

definition TuningAt :: "tw_map option \<Rightarrow> int \<Rightarrow> int \<Rightarrow> prediction \<Rightarrow> tuning \<times> prediction" where
  "TuningAt m tx ty p =
     (let (mv, p1) = MapViewOf m p; zone = (case mv of None \<Rightarrow> 0 | Some v \<Rightarrow> TuneZone v tx ty) in
      (tuningForZone zone p1, p1))"

text \<open>The map part of \<open>reconcilePrediction\<close>: collision and configuration, built once.\<close>

definition ensure_collision :: "tw_lib \<Rightarrow> tw_map option \<Rightarrow> prediction \<Rightarrow> prediction" where
  "ensure_collision lib m p =
     (if predCol p \<noteq> None then p
      else
        (case m of
           None \<Rightarrow> p
         | Some _ \<Rightarrow>
             (let (mv, p1) = MapViewOf m p;
                  cfg = (case mv of Some v \<Rightarrow> if view_IsDDRace lib v then DDRaceWorldConfig else DefaultWorldConfig
                         | None \<Rightarrow> DefaultWorldConfig) in
              p1\<lparr>predCol := Some (NewCollision lib m), predCfg := cfg\<rparr>)))"

text \<open>The resolver of tune zones, \<open>None\<close> without a view or without tunings.\<close>

definition zone_tuning :: "map_view option \<Rightarrow> prediction \<Rightarrow> (int \<Rightarrow> int \<Rightarrow> tuning) option" where
  "zone_tuning mv p =
     (case mv of
        None \<Rightarrow> None
      | Some v \<Rightarrow>
          (if tunings p = fmempty then None
           else Some (\<lambda>tx ty. case fmlookup (tunings p) (TuneZone v tx ty) of Some t \<Rightarrow> t | None \<Rightarrow> predTun p)))"

definition reconcilePrediction ::
    "(rat \<Rightarrow> rat \<Rightarrow> rat) \<Rightarrow> tw_lib \<Rightarrow> int \<Rightarrow> tw_map option \<Rightarrow> snap_state \<Rightarrow> prediction \<Rightarrow> goerr + prediction" where
  "reconcilePrediction pow lib now m ss p0 =
     (if \<not> predictEnabled p0 then Inr p0
      else
        (let p1 = ensure_collision lib m p0;
             pt = PredTick now (predTime p1);
             (mv, p) = MapViewOf m p1 in
         case predCol p of
           None \<Rightarrow> Inr p
         | Some col \<Rightarrow>
             (if pt \<le> 0 then Inr p
              else
                (let w = (newPredictedWorld col (predTun p) (predCfg p) (lastTick ss) (characters ss))
                           \<lparr>pw_tuneAt := zone_tuning mv p\<rparr> in
                 case advance pow (localCID ss) pt (p_antiping p) w (predInputs p) of
                   (Inl e, _) \<Rightarrow> Inl e
                 | (Inr w1, ring) \<Rightarrow>
                     Inr (p\<lparr>predInputs := ring, prevPredWorld := predWorld p, predWorld := Some w1\<rparr>)))))"

definition PredictedCharacter :: "snap_state \<Rightarrow> prediction \<Rightarrow> character" where
  "PredictedCharacter ss p =
     (case predWorld p of
        Some w \<Rightarrow>
          (if predictEnabled p then
             (case world_character w (localCID ss) of Some st \<Rightarrow> st | None \<Rightarrow> own_character ss)
           else own_character ss)
      | None \<Rightarrow> own_character ss)"

definition PredictedCharacters :: "snap_state \<Rightarrow> prediction \<Rightarrow> (int, character) fmap" where
  "PredictedCharacters ss p =
     (case predWorld p of
        Some w \<Rightarrow>
          (if predictEnabled p then
             if p_antiping p then world_characters w
             else (case world_character w (localCID ss) of
                     Some st \<Rightarrow> fmupd (localCID ss) st (characters ss)
                   | None \<Rightarrow> characters ss)
           else characters ss)
      | None \<Rightarrow> characters ss)"

definition smoothed :: "int \<Rightarrow> int \<Rightarrow> rat \<Rightarrow> int" where
  "smoothed old cur intra = old + to_int64 (f32 (f32 (of_int (cur - old)) * intra))"

definition clamp_intra :: "rat \<Rightarrow> rat" where
  "clamp_intra intra = (if intra < 0 then 0 else if intra > 1 then 1 else intra)"

definition SmoothedCharacters :: "snap_state \<Rightarrow> rat \<Rightarrow> prediction \<Rightarrow> (int, character) fmap" where
  "SmoothedCharacters ss intra p =
     (case predWorld p of
        None \<Rightarrow> PredictedCharacters ss p
      | Some cur \<Rightarrow>
          (case prevPredWorld p of
             None \<Rightarrow> world_characters cur
           | Some prev \<Rightarrow>
               fmmap_keys (\<lambda>cid ch.
                 case world_character prev cid of
                   None \<Rightarrow> ch
                 | Some o0 \<Rightarrow> ch\<lparr>ch_X := smoothed (ch_X o0) (ch_X ch) (clamp_intra intra),
                                ch_Y := smoothed (ch_Y o0) (ch_Y ch) (clamp_intra intra)\<rparr>)
                 (world_characters cur)))"

text \<open>\<open>RangePlayers\<close>: the calls of the callback, up to the first that answers false.\<close>

fun until_false :: "('a \<Rightarrow> bool) \<Rightarrow> 'a list \<Rightarrow> 'a list" where
  "until_false f [] = []"
| "until_false f (x # xs) = x # (if f x then until_false f xs else [])"

definition RangePlayers :: "go_range \<Rightarrow> (int \<times> character \<Rightarrow> bool) \<Rightarrow> snap_state \<Rightarrow> (int \<times> character) list" where
  "RangePlayers rng fn ss = until_false fn (for_keys rng 9 (characters ss) (\<lambda>i ch. [(i, ch)]))"

definition predicted_projectile :: "tuning \<Rightarrow> int \<Rightarrow> projectile \<Rightarrow> projectile" where
  "predicted_projectile tun targetTick p =
     (let t0 = f32 (f32 (of_int (targetTick - pj_StartTick p)) / TickSpeed);
          t = (if t0 < 0 then 0 else t0);
          dir = mk (f32 (f32 (of_int (pj_VelX p)) / 100)) (f32 (f32 (of_int (pj_VelY p)) / 100));
          pos = ProjectilePos tun (mk (f32 (of_int (pj_X p))) (f32 (of_int (pj_Y p)))) dir (pj_Type p) t in
      p\<lparr>pj_X := to_int64 (vx pos), pj_Y := to_int64 (vy pos)\<rparr>)"

definition PredictedProjectiles :: "go_range \<Rightarrow> int \<Rightarrow> snap_state \<Rightarrow> prediction \<Rightarrow> projectile list" where
  "PredictedProjectiles rng now ss p =
     (let pt = PredTick now (predTime p);
          targetTick = (if predictEnabled p \<and> pt > 0 then pt else lastTick ss) in
      map (predicted_projectile (predTun p) targetTick) (for_keys rng 10 (projectiles ss) (\<lambda>_ q. [q])))"

definition ActiveTuning :: "tw_map option \<Rightarrow> snap_state \<Rightarrow> prediction \<Rightarrow> tuning \<times> prediction" where
  "ActiveTuning m ss p =
     (let ch = PredictedCharacter ss p in TuningAt m (go_div (ch_X ch) TileSize) (go_div (ch_Y ch) TileSize) p)"

section \<open>A missing input\<close>

lemma ensureRing_idem [simp]: "ensureRing (ensureRing r) = ensureRing r"
  by (simp add: ensureRing_def DefaultPredInputRingSize_def)

lemma get_input_ring: "get_input t (ensureRing r) = get_input t r" "snd (get_input t r) = ensureRing r"
  by (simp_all add: get_input_def Let_def)

lemma advance_ticks_stop:
  assumes "lid \<in> set cids" "fst (get_input (tick + int n) ring) = Inr None"
  shows "fst (advance_ticks pow w cids lid (n + Suc m) tick cores ring) = fst (advance_ticks pow w cids lid n tick cores ring)"
  using assms(2)
proof (induction n arbitrary: tick cores ring)
  case 0
  then obtain r where "get_input tick ring = (Inr None, r)" by (cases "get_input tick ring") simp
  then show ?case using assms(1) by (simp add: bnd_def ret_def)
next
  case (Suc n)
  obtain res where g: "get_input tick ring = (res, ensureRing ring)"
    using get_input_ring(2) [of tick ring] by (cases "get_input tick ring") simp
  have nxt: "fst (get_input (tick + 1 + int n) (ensureRing ring)) = Inr None"
    using Suc.prems by (simp add: get_input_ring add.commute add.left_commute)
  show ?case
  proof (cases res)
    case (Inl e)
    then show ?thesis using assms(1) g by (simp add: bnd_def)
  next
    case (Inr found)
    show ?thesis
    proof (cases found)
      case None
      then show ?thesis using assms(1) g Inr by (simp add: bnd_def ret_def)
    next
      case (Some netIn)
      then show ?thesis using assms(1) g Inr Suc.IH [OF nxt]
        by (cases "WorldStep pow (map (applyZoneTuning (pw_tuneAt w)) cores) (tick_inputs w cids lid (inputToPhysics netIn))")
          (simp_all add: bnd_def fail_def)
    qed
  qed
qed

text \<open>
  C12: A missing input stops the whole prediction. When the input of tick \<open>t\<close> of the local
  tee is not in the ring, predicting to any later tick gives the world predicted to the tick before
  \<open>t\<close>: no tee, predicted or extrapolated, runs past the last tick the local tee has an input for.
\<close>

theorem missing_input_stops:
  assumes "lid |\<in>| fmdom (pw_cores w)" "pw_baseTick w < t" "t \<le> predTick" "fst (get_input t ring) = Inr None"
  shows "fst (advance pow lid predTick antiping w ring) = fst (advance pow lid (t - 1) antiping w ring)"
proof -
  have l: "lid \<in> set (orderedCIDs w lid antiping)" using assms(1) by (simp add: orderedCIDs_def)
  let ?n = "nat (t - 1 - pw_baseTick w)"
  have n: "nat (predTick - pw_baseTick w) = ?n + Suc (nat (predTick - t))" using assms(2,3) by simp
  have "pw_baseTick w + 1 + int ?n = t" using assms(2) by simp
  then have "fst (advance_ticks pow w (orderedCIDs w lid antiping) lid (nat (predTick - pw_baseTick w)) (pw_baseTick w + 1)
        (cores_of w (orderedCIDs w lid antiping)) ring) =
      fst (advance_ticks pow w (orderedCIDs w lid antiping) lid ?n (pw_baseTick w + 1)
        (cores_of w (orderedCIDs w lid antiping)) ring)"
    using assms(4) unfolding n by (intro advance_ticks_stop [OF l]) simp
  then show ?thesis using l
    by (auto simp: advance_def Let_def bnd_def ret_def split: prod.splits sum.splits)
qed

text \<open>A world of one tee that has an input for tick 6 but none for tick 7.\<close>

definition one_tee :: predicted_world where
  "one_tee = newPredictedWorld room DefaultTuning DefaultWorldConfig 5
     (fmap_of_list [(3, zero_character\<lparr>ch_X := 50, ch_Y := -100\<rparr>)])"

lemma one_tee_input: "fst (get_input 7 (record_input 6 zero_input [])) = Inr None"
  by code_simp

theorem missing_input_stops_witness:
  "fst (advance (\<lambda>_ _. 1) 3 20 True one_tee (record_input 6 zero_input [])) =
   fst (advance (\<lambda>_ _. 1) 3 6 True one_tee (record_input 6 zero_input []))"
  using missing_input_stops [of 3 one_tee 7 20 "record_input 6 zero_input []" "\<lambda>_ _. 1" True] one_tee_input
  by (simp add: one_tee_def newPredictedWorld_def fmap_of_list.rep_eq fmlookup_dom_iff)

section \<open>Only the local tee\<close>

text \<open>Without antiping the tees of the others stay where the snapshot has them.\<close>

lemma put_cores_other: "cid \<noteq> lid \<Longrightarrow> fmlookup (pw_cores (put_cores [lid] cores w)) cid = fmlookup (pw_cores w) cid"
  by (cases cores) (simp_all add: put_cores_def)

lemma others_stay_raw:
  assumes "fst (advance pow lid predTick False w ring) = Inr w1" "cid \<noteq> lid"
  shows "fmlookup (pw_cores w1) cid = fmlookup (pw_cores w) cid"
  using assms
  by (auto simp: advance_def orderedCIDs_def Let_def bnd_def ret_def put_cores_other
      split: if_splits prod.splits sum.splits)

text \<open>A base tick below zero is a negative index of the ring.\<close>

lemma negative_tick_panics:
  assumes "lid |\<in>| fmdom (pw_cores w)" "pw_baseTick w < predTick" "length (ensureRing ring) = 256"
    "pw_baseTick w = -5"
  shows "fst (advance pow lid predTick antiping w ring) = Inl (Panic ''index out of range'')"
proof -
  have l: "lid \<in> set (orderedCIDs w lid antiping)" using assms(1) by (simp add: orderedCIDs_def)
  have "get_input (-4) ring = (Inl (Panic ''index out of range''), ensureRing ring)"
    using assms(3) by (simp add: get_input_def ring_index_def Let_def go_mod_def go_div_def)
  moreover obtain n where "nat (predTick - pw_baseTick w) = Suc n"
    using assms(2) by (metis Suc_pred diff_gt_0_iff_gt zero_less_nat_eq)
  ultimately show ?thesis using l assms(4) by (auto simp: advance_def Let_def bnd_def)
qed

section \<open>Prediction starts from the snapshot\<close>

lemma to_int64_trunc: "trunc x = n \<Longrightarrow> \<bar>n\<bar> < 2 ^ 62 \<Longrightarrow> to_int64 x = n"
  by (simp add: to_int64_def abs_less_iff; linarith)

lemma to_int64_up: "0 \<le> x \<Longrightarrow> x \<le> of_int n \<Longrightarrow> n < 2 ^ 62 \<Longrightarrow> 0 \<le> to_int64 x \<and> to_int64 x \<le> n"
proof -
  assume a: "0 \<le> x" "x \<le> of_int n" "n < 2 ^ 62"
  have "0 \<le> \<lfloor>x\<rfloor>" "\<lfloor>x\<rfloor> \<le> n" using a(1,2) by (simp, linarith)
  moreover have "to_int64 x = \<lfloor>x\<rfloor>"
    using a calculation by (intro to_int64_trunc) (simp_all add: trunc_def)
  ultimately show ?thesis by simp
qed

lemma to_int64_minus: "\<bar>trunc x\<bar> < 2 ^ 62 \<Longrightarrow> to_int64 (- x) = - to_int64 x"
proof -
  assume a: "\<bar>trunc x\<bar> < 2 ^ 62"
  have "trunc (- x) = - trunc x" by (auto simp: trunc_def ceiling_def)
  with a have "to_int64 (- x) = - trunc x" "to_int64 x = trunc x" by (auto intro!: to_int64_trunc)
  then show ?thesis by simp
qed

lemma to_int64_down: "x \<le> 0 \<Longrightarrow> of_int n \<le> x \<Longrightarrow> - (2 ^ 62) < n \<Longrightarrow> to_int64 x \<le> 0 \<and> n \<le> to_int64 x"
proof -
  assume a: "x \<le> 0" "of_int n \<le> x" "- (2 ^ 62) < n"
  have up: "0 \<le> to_int64 (- x) \<and> to_int64 (- x) \<le> - n" using a by (intro to_int64_up) auto
  have "0 \<le> \<lfloor>- x\<rfloor>" "\<lfloor>- x\<rfloor> \<le> - n" using a(1,2) by (simp, linarith)
  then have "\<bar>trunc (- x)\<bar> < 2 ^ 62" using a by (auto simp: trunc_def)
  from to_int64_minus [OF this] up show ?thesis by simp
qed

lemma f32_half: "\<bar>n\<bar> \<le> 2 ^ 23 \<Longrightarrow> f32 (of_int n / 2) = of_int n / 2"
  using rnd_scale [of 24 "of_int n" "-1"] rnd_of_int [of n 24] by (simp add: power_int_minus field_simps)

lemma trunc_half: "0 < n \<Longrightarrow> trunc (of_int n + 1 / 2) = n" "n \<le> 0 \<Longrightarrow> trunc (of_int n - 1 / 2) = n"
proof -
  assume "0 < n"
  then have "(0::rat) < of_int n" by simp
  then have "\<not> (of_int n + 1 / 2 :: rat) < 0" by linarith
  moreover have "\<lfloor>of_int n + 1 / 2 :: rat\<rfloor> = n" by (rule floor_unique) auto
  ultimately show "trunc (of_int n + 1 / 2) = n" by (simp add: trunc_def)
next
  assume "n \<le> 0"
  then have "(of_int n :: rat) \<le> 0" by simp
  then have "(of_int n - 1 / 2 :: rat) < 0" by linarith
  moreover have "\<lceil>of_int n - 1 / 2 :: rat\<rceil> = n" by (rule ceiling_unique) auto
  ultimately show "trunc (of_int n - 1 / 2) = n" by (simp add: trunc_def)
qed

lemma roundToInt_of_int:
  assumes "\<bar>n\<bar> \<le> 2 ^ 21"
  shows "roundToInt (of_int n) = n"
proof -
  have "f32 (of_int n + 1 / 2) = of_int n + 1 / 2" "f32 (of_int n - 1 / 2) = of_int n - 1 / 2"
    using f32_half [of "2 * n + 1"] f32_half [of "2 * n - 1"] assms by (simp_all add: field_simps)
  moreover have "\<bar>n\<bar> < 2 ^ 62" using assms by auto
  ultimately show ?thesis
    using trunc_half [of n] by (cases "0 < n") (simp_all add: roundToInt_def to_int64_trunc)
qed

lemma velocity_roundtrip:
  assumes "\<bar>n\<bar> \<le> 2 ^ 24"
  shows "to_int64 (f32 (f32 (f32 (of_int n) / 256) * 256)) = n"
proof -
  have i: "f32 (of_int n) = of_int n" using assms by (intro rnd_of_int) auto
  have "f32 (of_int n / 256) = of_int n / 256"
    using rnd_scale [of 24 "of_int n" "-8"] i by (simp add: power_int_minus)
  moreover have "to_int64 (of_int n) = n" using assms by (intro to_int64_trunc) (auto simp: trunc_def)
  ultimately show ?thesis using i by simp
qed

text \<open>
  Prediction starts from the snapshot. A world that is seeded from a snapshot and not
  yet advanced answers, for every visible tee, the position, velocity, direction, angle, jumps and
  hook state of the snapshot, for positions of up to \<open>2 ^ 21\<close> and velocities of up to \<open>2 ^ 24\<close>: the
  way through 32-bit floats and back loses nothing.
\<close>

theorem seed_roundtrip:
  assumes "fmlookup chs cid = Some ch" "\<bar>ch_X ch\<bar> \<le> 2 ^ 21" "\<bar>ch_Y ch\<bar> \<le> 2 ^ 21"
    "\<bar>ch_VelX ch\<bar> \<le> 2 ^ 24" "\<bar>ch_VelY ch\<bar> \<le> 2 ^ 24"
  shows "world_character (newPredictedWorld col tun cfg base chs) cid =
    Some (zero_character\<lparr>ch_X := ch_X ch, ch_Y := ch_Y ch, ch_VelX := ch_VelX ch, ch_VelY := ch_VelY ch,
      ch_Direction := ch_Direction ch, ch_Angle := ch_Angle ch, ch_Jumped := ch_Jumped ch,
      ch_HookState := ch_HookState ch\<rparr>)"
proof -
  have p: "f32 (of_int (ch_X ch)) = of_int (ch_X ch)" "f32 (of_int (ch_Y ch)) = of_int (ch_Y ch)"
    using assms(2,3) by (auto intro!: rnd_of_int)
  show ?thesis using assms(1) velocity_roundtrip [OF assms(4)] velocity_roundtrip [OF assms(5)]
    roundToInt_of_int [OF assms(2)] roundToInt_of_int [OF assms(3)]
    by (simp add: world_character_def newPredictedWorld_def core_character_def seedCore_def QuantizedPos_def
        SetTuning_def SetWorldConfig_def NewCore_def p Let_def)
qed

theorem seed_roundtrip_witness:
  "world_character one_tee 3 = Some (zero_character\<lparr>ch_X := 50, ch_Y := -100\<rparr>)"
proof -
  have z: "ch_VelX zero_character = 0" "ch_VelY zero_character = 0" "ch_Direction zero_character = 0"
    "ch_Angle zero_character = 0" "ch_Jumped zero_character = 0" "ch_HookState zero_character = 0"
    by (simp_all add: zero_character_def character6_def)
  show ?thesis unfolding one_tee_def
    using seed_roundtrip [of "fmap_of_list [(3, zero_character\<lparr>ch_X := 50, ch_Y := -100\<rparr>)]" 3
        "zero_character\<lparr>ch_X := 50, ch_Y := -100\<rparr>" room DefaultTuning DefaultWorldConfig 5]
    by (simp add: fmap_of_list.rep_eq z zero_character_def character6_def)
qed

lemma MapViewOf_keeps:
  "MapViewOf m p = (mv, q) \<Longrightarrow> predCol q = predCol p \<and> predTime q = predTime p"
  by (auto simp: MapViewOf_def Let_def split: option.splits)

text \<open>Two rings with the same inputs for the ticks to come advance a world alike.\<close>

lemma advance_ticks_agree:
  assumes "\<And>t. tick \<le> t \<Longrightarrow> t < tick + int n \<Longrightarrow> fst (get_input t ring) = fst (get_input t ring')"
  shows "fst (advance_ticks pow w cids lid n tick cores ring) = fst (advance_ticks pow w cids lid n tick cores ring')"
  using assms
proof (induction n arbitrary: tick cores ring ring')
  case 0
  then show ?case by (simp add: ret_def)
next
  case (Suc n)
  let ?step = "\<lambda>netIn. WorldStep pow (map (applyZoneTuning (pw_tuneAt w)) cores)
    (tick_inputs w cids lid (if lid \<in> set cids then inputToPhysics netIn else zero_phys_input))"
  have here: "fst (get_input tick ring) = fst (get_input tick ring')" using Suc.prems [of tick] by simp
  have g: "get_input tick r = (fst (get_input tick r), ensureRing r)" for r
    by (metis get_input_ring(2) prod.collapse)
  have later: "fst (advance_ticks pow w cids lid n (tick + 1) cs (ensureRing ring)) =
      fst (advance_ticks pow w cids lid n (tick + 1) cs (ensureRing ring'))"
    "fst (advance_ticks pow w cids lid n (tick + 1) cs ring) = fst (advance_ticks pow w cids lid n (tick + 1) cs ring')" for cs
    using Suc.prems by (intro Suc.IH; simp add: get_input_ring(1))+
  show ?case
  proof (cases "lid \<in> set cids")
    case True
    show ?thesis
    proof (cases "fst (get_input tick ring')")
      case (Inl e)
      with True here g [of ring] g [of ring'] show ?thesis by (simp add: bnd_def)
    next
      case (Inr found)
      with True here g [of ring] g [of ring'] later show ?thesis
        by (cases found; cases "?step (the found)") (simp_all add: bnd_def ret_def fail_def)
    qed
  next
    case False
    with later show ?thesis by (cases "?step zero_input") (simp_all add: bnd_def ret_def fail_def)
  qed
qed

lemma advance_agree:
  assumes "\<And>t. pw_baseTick w < t \<Longrightarrow> t \<le> predTick \<Longrightarrow> fst (get_input t ring) = fst (get_input t ring')"
  shows "fst (advance pow lid predTick antiping w ring) = fst (advance pow lid predTick antiping w ring')"
proof -
  let ?cids = "orderedCIDs w lid antiping"
  have "fst (advance_ticks pow w ?cids lid (nat (predTick - pw_baseTick w)) (pw_baseTick w + 1) (cores_of w ?cids) ring) =
      fst (advance_ticks pow w ?cids lid (nat (predTick - pw_baseTick w)) (pw_baseTick w + 1) (cores_of w ?cids) ring')"
    by (rule advance_ticks_agree, rule assms) (auto split: if_splits)
  then show ?thesis
    by (auto simp: advance_def Let_def bnd_def ret_def split: prod.splits sum.splits)
qed

text \<open>The world a reconciliation starts from, and the one it predicts.\<close>

definition base_world :: "tw_map option \<Rightarrow> snap_state \<Rightarrow> collision \<Rightarrow> prediction \<Rightarrow> predicted_world" where
  "base_world m ss col p =
     (let (mv, q) = MapViewOf m p in
      (newPredictedWorld col (predTun q) (predCfg q) (lastTick ss) (characters ss))\<lparr>pw_tuneAt := zone_tuning mv q\<rparr>)"

lemma reconcile_world:
  assumes "predictEnabled p" "predCol p = Some col" "0 < PredTick now (predTime p)"
  shows "map_sum id predWorld (reconcilePrediction pow lib now m ss p) =
    map_sum id Some (fst (advance pow (localCID ss) (PredTick now (predTime p)) (p_antiping p) (base_world m ss col p)
      (predInputs p)))"
proof -
  obtain mv q where q: "MapViewOf m p = (mv, q)" by fastforce
  then have k: "p_antiping q = p_antiping p" "predInputs q = predInputs p"
    by (auto simp: MapViewOf_def Let_def split: option.splits)
  have "ensure_collision lib m p = p" using assms(2) by (simp add: ensure_collision_def)
  then show ?thesis using assms MapViewOf_keeps [OF q] k
    by (simp add: reconcilePrediction_def base_world_def q Let_def split: prod.split sum.split)
qed

text \<open>
  What a prediction is made of besides the snapshot and the inputs: the map's collision, its
  configuration and view, the tunings, antiping and the predicted tick.
\<close>

definition same_basis :: "int \<Rightarrow> prediction \<Rightarrow> int \<Rightarrow> prediction \<Rightarrow> bool" where
  "same_basis now p now' p' \<longleftrightarrow> predictEnabled p' = predictEnabled p \<and> predCol p' = predCol p \<and> predCfg p' = predCfg p \<and>
     p_mapView p' = p_mapView p \<and> predTun p' = predTun p \<and> tunings p' = tunings p \<and> p_antiping p' = p_antiping p \<and>
     PredTick now' (predTime p') = PredTick now (predTime p)"

lemma base_world_agree:
  assumes "same_basis now p now' p'" "lastTick ss' = lastTick ss" "characters ss' = characters ss"
  shows "base_world m ss' col p' = base_world m ss col p"
proof -
  have "zone_tuning mv (q\<lparr>p_mapView := v\<rparr>) = zone_tuning mv q" for mv q v
    by (simp add: zone_tuning_def split: option.split cong: option.case_cong)
  moreover have "zone_tuning mv p' = zone_tuning mv p" for mv
    using assms(1) by (simp add: zone_tuning_def same_basis_def split: option.split cong: option.case_cong)
  ultimately show ?thesis
    using assms by (simp add: base_world_def MapViewOf_def same_basis_def Let_def split: option.split)
qed

text \<open>
  C18: Errors do not accumulate. The world predicted after a snapshot is determined by the tick, the
  tees and the local id of the snapshot, the collision, configuration and view of the map, the
  tunings, antiping, the predicted tick and the inputs of the ticks in between: two clients that
  agree on these predict the same world, whatever worlds they predicted before, and whatever else
  their input rings, their clocks and their snapshots hold.
\<close>

theorem reconcile_forgets:
  assumes "predictEnabled p" "predCol p = Some col" "0 < PredTick now (predTime p)"
    and "same_basis now p now' p'"
    and "lastTick ss' = lastTick ss" "characters ss' = characters ss" "localCID ss' = localCID ss"
    and "\<And>t. lastTick ss < t \<Longrightarrow> t \<le> PredTick now (predTime p) \<Longrightarrow>
      fst (get_input t (predInputs p)) = fst (get_input t (predInputs p'))"
  shows "map_sum id predWorld (reconcilePrediction pow lib now' m ss' p') =
    map_sum id predWorld (reconcilePrediction pow lib now m ss p)"
proof -
  have b: "pw_baseTick (base_world m ss col p) = lastTick ss"
    by (cases "MapViewOf m p") (simp add: base_world_def newPredictedWorld_def)
  have "fst (advance pow (localCID ss) (PredTick now (predTime p)) (p_antiping p) (base_world m ss col p) (predInputs p)) =
      fst (advance pow (localCID ss) (PredTick now (predTime p)) (p_antiping p) (base_world m ss col p) (predInputs p'))"
    by (rule advance_agree) (use assms(8) b in simp)
  moreover have "predictEnabled p'" "predCol p' = Some col" "0 < PredTick now' (predTime p')"
    using assms(1-4) by (simp_all add: same_basis_def)
  ultimately show ?thesis
    using reconcile_world [OF assms(1-3), of pow lib m ss] reconcile_world [of p' col now' pow lib m ss']
      base_world_agree [OF assms(4-6), of m col] assms(4,7)
    by (simp add: same_basis_def)
qed

definition ready :: prediction where
  "ready = \<lparr>predInputs = [], predTime = zero_predicted_time\<lparr>pt_initialized := True, pt_st := smooth_Init 0 (20 * timeFreq) zero_smooth\<rparr>,
     predictEnabled = True, p_antiping = True, predWorld = None, prevPredWorld = None, predCol = Some room,
     predCfg = DefaultWorldConfig, predTun = DefaultTuning, tunings = fmempty, p_mapView = None\<rparr>"

text \<open>A snapshot of tick 1000 with one tee, and two clients with its next two inputs and different pasts.\<close>

definition tee_snap :: snap_state where
  "tee_snap = zero_snap_state\<lparr>lastTick := 1000, localCID := 3, characters := pw_seed one_tee\<rparr>"

definition one_past :: prediction where
  "one_past = ready\<lparr>predInputs := record_input 1002 zero_input (record_input 1001 zero_input [])\<rparr>"

definition other_past :: prediction where
  "other_past = ready\<lparr>predWorld := Some one_tee,
     predInputs := record_input 1002 zero_input (record_input 1001 zero_input (record_input 40 zero_input []))\<rparr>"

lemma pasts_predict: "PredTick 0 (predTime one_past) = 1002"
  "fst (get_input 1001 (predInputs one_past)) = fst (get_input 1001 (predInputs other_past))"
  "fst (get_input 1002 (predInputs one_past)) = fst (get_input 1002 (predInputs other_past))"
  by code_simp+

theorem reconcile_forgets_witness:
  "map_sum id predWorld (reconcilePrediction (\<lambda>_ _. 1) small_lib 0 None (tee_snap\<lparr>lastSnapTime := 7\<rparr>) other_past) =
   map_sum id predWorld (reconcilePrediction (\<lambda>_ _. 1) small_lib 0 None tee_snap one_past)"
proof (rule reconcile_forgets [where now = 0 and p = one_past and col = room])
  fix t
  assume "lastTick tee_snap < t" "t \<le> PredTick 0 (predTime one_past)"
  then have "t = 1001 \<or> t = 1002" using pasts_predict(1) by (auto simp: tee_snap_def)
  with pasts_predict(2,3) show "fst (get_input t (predInputs one_past)) = fst (get_input t (predInputs other_past))"
    by blast
qed (simp_all add: ready_def one_past_def other_past_def same_basis_def pasts_predict(1) [unfolded one_past_def ready_def, simplified])

section \<open>Smoothing\<close>

lemma smoothed_between:
  assumes "\<bar>cur - old\<bar> \<le> 2 ^ 24" "0 \<le> k" "k \<le> 1"
  shows "min old cur \<le> smoothed old cur k \<and> smoothed old cur k \<le> max old cur"
proof -
  define n where "n = cur - old"
  let ?d = "of_int n :: rat"
  have d: "f32 ?d = ?d" using assms(1) unfolding n_def by (intro rnd_of_int) auto
  have s: "smoothed old cur k = old + to_int64 (f32 (?d * k))" by (simp add: smoothed_def n_def [symmetric] d)
  show ?thesis
  proof (cases "0 \<le> n")
    case True
    then have "0 \<le> ?d * k" "?d * k \<le> ?d" using assms by (auto intro: mult_left_le)
    then have "0 \<le> f32 (?d * k)" "f32 (?d * k) \<le> ?d"
      using rnd_mono [of "?d * k" ?d 24] rnd_nonneg [of 24 "?d * k"] d by auto
    then have "0 \<le> to_int64 (f32 (?d * k)) \<and> to_int64 (f32 (?d * k)) \<le> n"
      using assms(1) n_def by (intro to_int64_up) auto
    then show ?thesis using n_def unfolding s by auto
  next
    case False
    then have "?d * k \<le> 0" "?d \<le> ?d * k" using assms
      by (auto simp: mult_nonpos_nonneg mult_le_cancel_left2)
    then have "f32 (?d * k) \<le> 0" "?d \<le> f32 (?d * k)"
      using rnd_mono [of ?d "?d * k" 24] rnd_mono [of "?d * k" 0 24] d by auto
    then have "to_int64 (f32 (?d * k)) \<le> 0 \<and> n \<le> to_int64 (f32 (?d * k))"
      using assms(1) n_def by (intro to_int64_down) auto
    then show ?thesis using n_def unfolding s by auto
  qed
qed

section \<open>Projectiles\<close>

text \<open>
  The ids of weapons in a snapshot start at 0, those of the physics at 1: the grenade of a snapshot
  (\<open>weaponGrenade\<close> of the 0.7 decoder) flies on the curve of a shotgun.
\<close>

lemma snapshot_grenade_flies_as_shotgun:
  "ProjectilePos t start dir weaponGrenade time = ProjectilePos t start dir WeaponShotgun time"
  by (simp add: weaponGrenade_def WeaponShotgun_def)

end
