(* ===== verification/Client.thy ===== *)
theory Client
  imports PredWorld Registry Backoff Session
begin

text \<open>
  client/client.go, callbacks.go, action.go, rcon.go and the client part of reconnect.go: the client
  around a session. The interface \<open>Session\<close> (client/session.go) is the record of its methods, over
  any state of a session; the sessions of the two protocols are the theories Session6 and Session7.

  What a call does to the outside is the list \<open>cl_out\<close>: sessions dialled and closed, readers
  started and stopped, callbacks called, in order. The bodies of callbacks are the user's; one that
  calls the client is a further operation. The clock is read once per operation, \<open>now\<close>. Logging,
  mutexes and the progress callback are left out; a context is live or over.
\<close>

section \<open>Sessions\<close>

record 's session_api =
  se_Login :: "byte list \<Rightarrow> byte list \<Rightarrow> (login_config \<Rightarrow> login_config) option list \<Rightarrow> ('s, unit) gost"
  se_Capabilities :: "'s \<Rightarrow> server_capabilities"
  se_LocalID :: "'s \<Rightarrow> int"
  se_Close :: "('s, unit) gost"
  se_StartReader :: "'s \<Rightarrow> 's"
  se_DownloadMap :: "('s, unit) gost"
  se_Map :: "'s \<Rightarrow> tw_map option"
  se_MapName :: "'s \<Rightarrow> byte list"
  se_SendInput :: "int \<Rightarrow> int \<Rightarrow> int \<Rightarrow> byte list \<Rightarrow> ('s, unit) gost"
  se_SendChat :: "byte list \<Rightarrow> ('s, unit) gost"
  se_SendChatTeam :: "bool \<Rightarrow> byte list \<Rightarrow> ('s, unit) gost"
  se_SendWhisper :: "int \<Rightarrow> byte list \<Rightarrow> ('s, unit) gost"
  se_SendKill :: "('s, unit) gost"
  se_SendRconAuth :: "byte list \<Rightarrow> ('s, unit) gost"
  se_SendRconCmd :: "byte list \<Rightarrow> ('s, unit) gost"
  se_SendEmoticon :: "int \<Rightarrow> ('s, unit) gost"
  se_SendSetTeam :: "int \<Rightarrow> ('s, unit) gost"
  se_SendSpectate :: "int \<Rightarrow> ('s, unit) gost"
  se_SendVote :: "bool \<Rightarrow> ('s, unit) gost"
  se_SendCallVote :: "byte list \<Rightarrow> byte list \<Rightarrow> byte list \<Rightarrow> ('s, unit) gost"

text \<open>\<open>packet.Version\<close>.\<close>

definition VersionAuto :: int where "VersionAuto = 0"
definition Version06 :: int where "Version06 = 6"
definition Version07 :: int where "Version07 = 7"

section \<open>Errors\<close>

definition ErrNotConnected :: goerr where "ErrNotConnected = Err ''client: not connected'' []"
definition ErrServerClosed :: goerr where "ErrServerClosed = Err ''client: server sent CLOSE'' []"
definition ErrMapDownload :: goerr where "ErrMapDownload = Err ''client: map download failed'' []"
definition ErrNotAuthed :: goerr where "ErrNotAuthed = Err ''client: not rcon-authenticated'' []"

text \<open>\<open>errors.AsType[*packet.ServerClosedError]\<close>: the reason, through any number of wrappings.\<close>

fun as_server_closed :: "goerr \<Rightarrow> byte list option" where
  "as_server_closed (Err msg args) =
     (if msg = ''packet: server sent CTRL_CLOSE: %s'' then Some (map of_int args) else None)"
| "as_server_closed (Wrap msg args e) = as_server_closed e"
| "as_server_closed _ = None"

section \<open>Callbacks\<close>

text \<open>\<open>reflect.TypeOf\<close> of an event: a number for each struct.\<close>

fun chat_type :: "chat_event \<Rightarrow> int" where
  "chat_type (EventChat _ _ _) = 1"
| "chat_type (EventServerMsg _) = 2"
| "chat_type (EventWhisper _ _ _) = 3"
| "chat_type (EventBroadcast _) = 4"
| "chat_type (EventMotd _) = 5"
| "chat_type (EventKill _ _ _ _) = 6"
| "chat_type (EventEmoticon _ _) = 7"
| "chat_type (EventWeaponPickup _) = 8"
| "chat_type (EventSoundGlobal _) = 9"
| "chat_type (EventTuneParams _) = 10"
| "chat_type (EventVoteSet _ _ _) = 11"
| "chat_type (EventVoteStatus _ _ _ _) = 12"
| "chat_type (EventVoteOption _ _) = 13"
| "chat_type (EventYourVote _) = 14"

fun rcon_type :: "rcon_event \<Rightarrow> int" where
  "rcon_type (EventRconLine _) = 15"
| "rcon_type (EventRconAuth _ _) = 16"
| "rcon_type (EventRconCmd _ _ _ _) = 17"
| "rcon_type (EventServerError _) = 18"
| "rcon_type (EventTeamsState _) = 19"
| "rcon_type (EventKillMsgTeam _ _) = 20"
| "rcon_type (EventCommandInfo _ _ _) = 21"
| "rcon_type (EventCommandInfoRemove _) = 22"
| "rcon_type (EventChangeInfoCooldown _) = 23"
| "rcon_type (EventMapSoundGlobal _) = 24"

fun roster_type :: "roster_event \<Rightarrow> int" where
  "roster_type (EventPlayerJoin _ _ _ _ _ _) = 25"
| "roster_type (EventPlayerLeave _ _) = 26"
| "roster_type (EventSkinChange _ _) = 27"
| "roster_type (EventTeamSet _ _ _) = 28"
| "roster_type (EventGameInfo _ _ _ _) = 29"
| "roster_type (EventGameMsg _ _) = 30"
| "roster_type (EventServerSettings _ _ _ _ _ _) = 31"

fun motion_type :: "motion_event \<Rightarrow> int" where
  "motion_type (EventPlayerEnterSight _ _ _) = 32"
| "motion_type (EventPlayerLeaveSight _) = 33"
| "motion_type (EventHookedBy _) = 34"
| "motion_type (EventWeaponChange _) = 35"
| "motion_type (EventPlayerMove _ _ _) = 36"
| "motion_type (EventPlayerJump _) = 37"
| "motion_type (EventPlayerDir _ _) = 38"
| "motion_type (EventPlayerAttack _ _) = 39"
| "motion_type (EventPlayerWeapon _ _) = 40"
| "motion_type (EventPlayerHook _ _ _) = 41"
| "motion_type (EventPlayerEmote _ _) = 42"
| "motion_type (EventPlayerHP _ _ _) = 43"

fun world_type :: "world_event \<Rightarrow> int" where
  "world_type (EventExplosion _ _) = 44"
| "world_type (EventSpawn _ _) = 45"
| "world_type (EventDeath _ _ _) = 46"
| "world_type (EventHammerHit _ _) = 47"
| "world_type (EventSoundWorld _ _ _) = 48"
| "world_type (EventProjectileFired _ _ _ _ _ _) = 49"
| "world_type (EventLaserFired _ _ _ _ _) = 50"
| "world_type (EventDamageInd _ _ _) = 51"
| "world_type (EventFinish _) = 52"

fun ext_type :: "ext_event \<Rightarrow> int" where
  "ext_type (EventFreeze _ _ _) = 53"
| "ext_type (EventPlayerFlags _ _) = 54"
| "ext_type (EventJumpsChange _ _ _) = 55"
| "ext_type (EventPlayerAuth _ _) = 56"
| "ext_type (EventPlayerAfk _ _) = 57"
| "ext_type (EventSpecChar _ _ _) = 58"

fun game_type :: "game_event \<Rightarrow> int" where
  "game_type (EventRoundState _) = 59"
| "game_type (EventScoreChange _ _) = 60"
| "game_type (EventFlag _ _ _ _) = 61"
| "game_type (EventSpecTarget _ _) = 62"

fun core_type :: "core_event \<Rightarrow> int" where
  "core_type (EventSnapshot _) = 63"
| "core_type (EventMapChange _) = 64"
| "core_type (EventClose _) = 65"
| "core_type (EventRaceFinish _ _) = 66"
| "core_type (EventCheckpoint _) = 67"
| "core_type (EventRecord _ _) = 68"
| "core_type (EventInputTiming _ _) = 69"
| "core_type (EventServerCapabilities _) = 70"

fun event_type :: "event \<Rightarrow> int" where
  "event_type (Chat e) = chat_type e"
| "event_type (Rcon e) = rcon_type e"
| "event_type (Roster e) = roster_type e"
| "event_type (Motion e) = motion_type e"
| "event_type (World e) = world_type e"
| "event_type (Ext e) = ext_type e"
| "event_type (Game e) = game_type e"
| "event_type (Core e) = core_type e"

text \<open>The handlers of an event type are their ids.\<close>

record callback_registry =
  cb_nextID :: int
  cb_handlers :: "(int, int fset) fmap"

definition no_callbacks :: callback_registry where
  "no_callbacks = \<lparr>cb_nextID = 0, cb_handlers = fmempty\<rparr>"

definition handlers_of :: "int \<Rightarrow> callback_registry \<Rightarrow> int fset" where
  "handlers_of t r = (case fmlookup (cb_handlers r) t of None \<Rightarrow> {||} | Some hs \<Rightarrow> hs)"

definition register :: "int \<Rightarrow> callback_registry \<Rightarrow> int \<times> callback_registry" where
  "register t r =
     (cb_nextID r, r\<lparr>cb_nextID := cb_nextID r + 1,
        cb_handlers := fmupd t (finsert (cb_nextID r) (handlers_of t r)) (cb_handlers r)\<rparr>)"

text \<open>The closure \<open>register\<close> returns; a second call removes nothing more.\<close>

definition unregister :: "int \<Rightarrow> int \<Rightarrow> callback_registry \<Rightarrow> callback_registry" where
  "unregister t i r =
     (case fmlookup (cb_handlers r) t of
        None \<Rightarrow> r
      | Some hs \<Rightarrow> r\<lparr>cb_handlers := fmupd t (hs |-| {|i|}) (cb_handlers r)\<rparr>)"

section \<open>The client\<close>

datatype effect =
    Dialed
  | SessionClosed
  | ReaderStarted
  | ReaderStopped
  | Called int event
  | DisconnectCalled int disconnect_reason
  | ReconnectStarted

datatype ctx_state = NoCtx | CtxLive | CtxOver

record 's client =
  cl_sess :: "'s option"
  cl_name :: "byte list"
  cl_clan :: "byte list"
  cl_skin :: "byte list"
  cl_country :: int
  cl_password :: "byte list"
  cl_timeoutCode :: "byte list"
  cl_rconPassword :: "byte list"
  cl_rconAuthed :: bool
  cl_caps :: server_capabilities
  cl_version :: int
  cl_detectTimeout :: int
  cl_requireMap :: bool
  cl_mapDownloadURL :: "byte list"
  cl_snapStorageSize :: int
  cl_predInputRingLen :: int
  cl_inputTimingRingLen :: int
  cl_eventChanSize :: int
  cl_readBufferSize :: int
  cl_moveEventThreshold :: int
  cl_snap :: snap_state
  cl_players :: registry
  cl_reader :: bool
  cl_policy :: "backoff reconnect_policy"
  cl_ctx :: ctx_state
  cl_lifeCancel :: bool
  cl_connectTimeout :: int
  cl_closed :: bool
  cl_sessionFn :: bool
  cl_closing :: bool
  cl_lastErr :: "goerr option"
  cl_lastDisc :: disconnect_reason
  cl_pred :: prediction
  cl_callbacks :: callback_registry
  cl_disconnectID :: int
  cl_disconnectCbs :: "int fset"
  cl_tickEvents :: "event list"
  cl_out :: "effect list"

definition emit_effect :: "effect \<Rightarrow> 's client \<Rightarrow> 's client" where
  "emit_effect e c = c\<lparr>cl_out := cl_out c @ [e]\<rparr>"

section \<open>Options and construction\<close>

type_synonym 's client_option = "'s client \<Rightarrow> 's client"

definition WithVersion :: "int \<Rightarrow> 's client_option" where "WithVersion v c = c\<lparr>cl_version := v\<rparr>"
definition WithDetectTimeout :: "int \<Rightarrow> 's client_option" where "WithDetectTimeout d c = c\<lparr>cl_detectTimeout := d\<rparr>"
definition WithSnapStorageSize :: "int \<Rightarrow> 's client_option" where "WithSnapStorageSize n c = c\<lparr>cl_snapStorageSize := n\<rparr>"
definition WithPredInputRingSize :: "int \<Rightarrow> 's client_option" where "WithPredInputRingSize n c = c\<lparr>cl_predInputRingLen := n\<rparr>"
definition WithInputTimingRingSize :: "int \<Rightarrow> 's client_option" where "WithInputTimingRingSize n c = c\<lparr>cl_inputTimingRingLen := n\<rparr>"
definition WithEventChanSize :: "int \<Rightarrow> 's client_option" where "WithEventChanSize n c = c\<lparr>cl_eventChanSize := n\<rparr>"
definition WithReadBufferSize :: "int \<Rightarrow> 's client_option" where "WithReadBufferSize n c = c\<lparr>cl_readBufferSize := n\<rparr>"
definition WithMoveEventThreshold :: "int \<Rightarrow> 's client_option" where "WithMoveEventThreshold n c = c\<lparr>cl_moveEventThreshold := n\<rparr>"
definition WithPrediction :: "bool \<Rightarrow> 's client_option" where "WithPrediction on c = c\<lparr>cl_pred := (cl_pred c)\<lparr>predictEnabled := on\<rparr>\<rparr>"
definition WithAntiping :: "bool \<Rightarrow> 's client_option" where
  "WithAntiping on c =
     (let p = (cl_pred c)\<lparr>p_antiping := on\<rparr> in c\<lparr>cl_pred := if on then p\<lparr>predictEnabled := True\<rparr> else p\<rparr>)"
definition WithPlayerInfo :: "byte list \<Rightarrow> byte list \<Rightarrow> byte list \<Rightarrow> int \<Rightarrow> 's client_option" where
  "WithPlayerInfo nm clan skin country c = c\<lparr>cl_name := nm, cl_clan := clan, cl_skin := skin, cl_country := country\<rparr>"
definition WithPassword :: "byte list \<Rightarrow> 's client_option" where "WithPassword pw c = c\<lparr>cl_password := pw\<rparr>"
definition WithTimeoutCode :: "byte list \<Rightarrow> 's client_option" where "WithTimeoutCode code c = c\<lparr>cl_timeoutCode := code\<rparr>"
definition WithReconnectPolicy :: "backoff reconnect_policy \<Rightarrow> 's client_option" where "WithReconnectPolicy p c = c\<lparr>cl_policy := p\<rparr>"
definition WithConnectTimeout :: "int \<Rightarrow> 's client_option" where
  "WithConnectTimeout d c = (if d > 0 then c\<lparr>cl_connectTimeout := d\<rparr> else c)"
definition WithRequireMap :: "'s client_option" where "WithRequireMap c = c\<lparr>cl_requireMap := True\<rparr>"
definition DefaultMapDownloadURL :: "byte list" where "DefaultMapDownloadURL = bytes_of ''https://maps.ddnet.org''"
definition WithMapDownloadURL :: "byte list \<Rightarrow> 's client_option" where "WithMapDownloadURL base c = c\<lparr>cl_mapDownloadURL := base\<rparr>"
definition WithoutAutoReconnect :: "'s client_option" where
  "WithoutAutoReconnect c = c\<lparr>cl_policy := (cl_policy c)\<lparr>rp_enabled := False\<rparr>\<rparr>"
definition WithRconPassword :: "byte list \<Rightarrow> 's client_option" where "WithRconPassword pw c = c\<lparr>cl_rconPassword := pw\<rparr>"

definition DefaultDetectTimeout :: int where "DefaultDetectTimeout = 2 * second"

definition zero_prediction :: prediction where
  "zero_prediction = \<lparr>predInputs = [], predTime = zero_predicted_time, predictEnabled = False, p_antiping = False,
     predWorld = None, prevPredWorld = None, predCol = None, predCfg = DefaultWorldConfig, predTun = DefaultTuning,
     tunings = fmempty, p_mapView = None\<rparr>"

definition no_disconnect :: disconnect_reason where
  "no_disconnect = \<lparr>dr_Kind = DisconnectKindClosed, dr_Text = [], dr_BanDuration = 0\<rparr>"

definition base_client :: "'s client" where
  "base_client = \<lparr>cl_sess = None, cl_name = DefaultName, cl_clan = [], cl_skin = DefaultSkin, cl_country = DefaultCountry,
     cl_password = [], cl_timeoutCode = [], cl_rconPassword = [], cl_rconAuthed = False, cl_caps = no_capabilities,
     cl_version = VersionAuto, cl_detectTimeout = DefaultDetectTimeout, cl_requireMap = False,
     cl_mapDownloadURL = DefaultMapDownloadURL, cl_snapStorageSize = 0, cl_predInputRingLen = 0,
     cl_inputTimingRingLen = 0, cl_eventChanSize = 0, cl_readBufferSize = 0, cl_moveEventThreshold = 0,
     cl_snap = zero_snap_state, cl_players = fmempty, cl_reader = False, cl_policy = DefaultReconnectPolicy,
     cl_ctx = NoCtx, cl_lifeCancel = False, cl_connectTimeout = 0, cl_closed = False, cl_sessionFn = False,
     cl_closing = False, cl_lastErr = None, cl_lastDisc = no_disconnect, cl_pred = zero_prediction,
     cl_callbacks = no_callbacks, cl_disconnectID = 0, cl_disconnectCbs = {||}, cl_tickEvents = [], cl_out = []\<rparr>"

text \<open>\<open>New\<close>, with the random source of the timeout code; a nil option is ignored.\<close>

definition NewClient :: "byte list option \<Rightarrow> 's client_option option list \<Rightarrow> 's client" where
  "NewClient rnd16 opts =
     (let c0 = foldl (\<lambda>c opt. case opt of None \<Rightarrow> c | Some f \<Rightarrow> f c) base_client opts;
          c1 = (if cl_timeoutCode c0 = [] then c0\<lparr>cl_timeoutCode := generateTimeoutCode rnd16\<rparr> else c0);
          c2 = c1\<lparr>cl_pred := (cl_pred c1)\<lparr>predInputs := configure_ring (cl_predInputRingLen c1),
                 predTime := configure_time (cl_inputTimingRingLen c1) (predTime (cl_pred c1))\<rparr>\<rparr> in
      if cl_moveEventThreshold c2 \<le> 0 then c2\<lparr>cl_moveEventThreshold := DefaultMoveEventThreshold\<rparr> else c2)"

definition ResetTimeoutCode :: "byte list option \<Rightarrow> byte list list \<Rightarrow> 's client \<Rightarrow> 's client" where
  "ResetTimeoutCode rnd16 code c =
     (let given = (case code of [] \<Rightarrow> [] | x # _ \<Rightarrow> x) in
      c\<lparr>cl_timeoutCode := if given = [] then generateTimeoutCode rnd16 else given\<rparr>)"

section \<open>Talking to the session\<close>

definition with_sess :: "('s, unit) gost \<Rightarrow> ('s client, unit) gost" where
  "with_sess m c =
     (case cl_sess c of
        None \<Rightarrow> (Inl ErrNotConnected, c)
      | Some s \<Rightarrow> (let (r, s1) = m s in (r, c\<lparr>cl_sess := Some s1\<rparr>)))"

definition MapOf :: "'s session_api \<Rightarrow> 's client \<Rightarrow> tw_map option" where
  "MapOf api c = (case cl_sess c of None \<Rightarrow> None | Some s \<Rightarrow> se_Map api s)"

definition HasMap :: "'s session_api \<Rightarrow> 's client \<Rightarrow> bool" where
  "HasMap api c \<longleftrightarrow> MapOf api c \<noteq> None"

definition MapNameOf :: "'s session_api \<Rightarrow> 's client \<Rightarrow> byte list" where
  "MapNameOf api c = (case cl_sess c of None \<Rightarrow> [] | Some s \<Rightarrow> se_MapName api s)"

definition ClientMapView :: "'s session_api \<Rightarrow> 's client \<Rightarrow> map_view option \<times> 's client" where
  "ClientMapView api c = (let (mv, p) = MapViewOf (MapOf api c) (cl_pred c) in (mv, c\<lparr>cl_pred := p\<rparr>))"

definition IsConnected :: "'s client \<Rightarrow> bool" where
  "IsConnected c \<longleftrightarrow> cl_sess c \<noteq> None"

text \<open>\<open>LocalID\<close>. After a \<open>Connect\<close> and before a snapshot the character map is nil, here empty.\<close>

definition ClientLocalID :: "'s client \<Rightarrow> int" where
  "ClientLocalID c =
     (if characters (cl_snap c) = fmempty \<and> lastSnap (cl_snap c) = None then -1 else localCID (cl_snap c))"

definition ResetRace :: "'s client \<Rightarrow> 's client" where
  "ResetRace c = c\<lparr>cl_snap := (cl_snap c)\<lparr>raceTime := zero_race_time\<rparr>\<rparr>"

definition inputSize :: int where "inputSize = int InputFields * 4"

definition packInput :: "varint_lib \<Rightarrow> player_input \<Rightarrow> byte list" where
  "packInput L p = concat (map (PackInt L) (Raw p))"

definition record_of :: "int \<Rightarrow> player_input \<Rightarrow> 's client \<Rightarrow> 's client" where
  "record_of predTick inp c =
     c\<lparr>cl_pred := (cl_pred c)\<lparr>predInputs := record_input predTick inp (predInputs (cl_pred c))\<rparr>\<rparr>"

definition SendInput :: "varint_lib \<Rightarrow> 's session_api \<Rightarrow> int \<Rightarrow> player_input \<Rightarrow> ('s client, unit) gost" where
  "SendInput L api now inp c =
     (if cl_sess c = None then (Inl ErrNotConnected, c)
      else
        (let (nxt, t) = NextInput now (predTime (cl_pred c)); c1 = c\<lparr>cl_pred := (cl_pred c)\<lparr>predTime := t\<rparr>\<rparr> in
         case nxt of
           None \<Rightarrow> (Inr (), c1)
         | Some (predTick, ackTick) \<Rightarrow>
             with_sess (se_SendInput api ackTick predTick inputSize (packInput L inp)) (record_of predTick inp c1)))"

definition SendInputForTick :: "varint_lib \<Rightarrow> 's session_api \<Rightarrow> int \<Rightarrow> player_input \<Rightarrow> ('s client, unit) gost" where
  "SendInputForTick L api predTick inp c =
     (if cl_sess c = None then (Inl ErrNotConnected, c)
      else
        (let ackTick = AckTick (predTime (cl_pred c)) in
         if ackTick \<le> 0 \<or> predTick \<le> 0 then (Inr (), c)
         else with_sess (se_SendInput api ackTick predTick inputSize (packInput L inp)) (record_of predTick inp c)))"

definition SendChat :: "'s session_api \<Rightarrow> byte list \<Rightarrow> ('s client, unit) gost" where
  "SendChat api msg = with_sess (se_SendChat api msg)"

definition SendKill :: "'s session_api \<Rightarrow> ('s client, unit) gost" where
  "SendKill api = with_sess (se_SendKill api)"

section \<open>Accessors\<close>

definition VersionOf :: "'s client \<Rightarrow> int" where "VersionOf c = cl_version c"
definition ErrOf :: "'s client \<Rightarrow> goerr option" where "ErrOf c = cl_lastErr c"
definition LastDisconnect :: "'s client \<Rightarrow> disconnect_reason" where "LastDisconnect c = cl_lastDisc c"
definition CapabilitiesOf :: "'s client \<Rightarrow> server_capabilities" where "CapabilitiesOf c = cl_caps c"
definition CharacterOf :: "'s client \<Rightarrow> character" where "CharacterOf c = own_character (cl_snap c)"
definition RaceTimeOf :: "int \<Rightarrow> 's client \<Rightarrow> race_time" where "RaceTimeOf now c = raceTimeState now (cl_snap c)"
definition GameInfoOf :: "'s client \<Rightarrow> game_info_state" where "GameInfoOf c = gameInfo (cl_snap c)"
definition LastSnapTick :: "'s client \<Rightarrow> int" where "LastSnapTick c = lastTick (cl_snap c)"
definition LastSnapTime :: "'s client \<Rightarrow> int" where "LastSnapTime c = lastSnapTime (cl_snap c)"
definition ClientPredTick :: "int \<Rightarrow> 's client \<Rightarrow> int" where "ClientPredTick now c = PredTick now (predTime (cl_pred c))"
definition ClientAckTick :: "'s client \<Rightarrow> int" where "ClientAckTick c = AckTick (predTime (cl_pred c))"
definition RconAuthed :: "'s client \<Rightarrow> bool" where "RconAuthed c = cl_rconAuthed c"
definition TimeoutCode :: "'s client \<Rightarrow> byte list" where "TimeoutCode c = cl_timeoutCode c"

section \<open>Actions\<close>

datatype action =
    ActInput player_input
  | ActChat bool "byte list"
  | ActWhisper int "byte list"
  | ActEmoticon int
  | ActKill
  | ActVote bool
  | ActCallVote "byte list" "byte list" "byte list"
  | ActSetTeam int
  | ActSetSpectator int

definition sendInputDirect :: "varint_lib \<Rightarrow> 's session_api \<Rightarrow> int \<Rightarrow> player_input \<Rightarrow> ('s client, unit) gost" where
  "sendInputDirect L api now inp c =
     (let predTick = PredTick now (predTime (cl_pred c)); ackTick = AckTick (predTime (cl_pred c));
          c1 = (if predTick > 0 then record_of predTick inp c else c) in
      with_sess (se_SendInput api ackTick predTick inputSize (packInput L inp)) c1)"

definition Do :: "varint_lib \<Rightarrow> 's session_api \<Rightarrow> int \<Rightarrow> action \<Rightarrow> ('s client, unit) gost" where
  "Do L api now a c =
     (if cl_sess c = None then (Inl ErrNotConnected, c)
      else (case a of
          ActInput inp \<Rightarrow> sendInputDirect L api now inp c
        | ActChat tm msg \<Rightarrow> with_sess (se_SendChatTeam api tm msg) c
        | ActWhisper i msg \<Rightarrow> with_sess (se_SendWhisper api i msg) c
        | ActEmoticon e \<Rightarrow> with_sess (se_SendEmoticon api e) c
        | ActKill \<Rightarrow> with_sess (se_SendKill api) c
        | ActVote approve \<Rightarrow> with_sess (se_SendVote api approve) c
        | ActCallVote t v r \<Rightarrow> with_sess (se_SendCallVote api t v r) c
        | ActSetTeam tm \<Rightarrow> with_sess (se_SendSetTeam api tm) c
        | ActSetSpectator i \<Rightarrow> with_sess (se_SendSpectate api i) c))"

section \<open>Remote console\<close>

definition SendRcon :: "'s session_api \<Rightarrow> byte list \<Rightarrow> ('s client, unit) gost" where
  "SendRcon api cmd c =
     (if cl_sess c = None then (Inl ErrNotConnected, c)
      else if \<not> cl_rconAuthed c then (Inl ErrNotAuthed, c)
      else with_sess (se_SendRconCmd api cmd) c)"

definition autoRconLogin :: "'s session_api \<Rightarrow> 's client \<Rightarrow> 's client" where
  "autoRconLogin api c =
     (if cl_sess c = None \<or> cl_rconPassword c = [] then c
      else snd (with_sess (se_SendRconAuth api (cl_rconPassword c)) c))"

text \<open>
  The wait of \<open>RconLogin\<close>: at each poll the client is what the event loop has made of it, or the
  context is over. A script that is used up leaves it waiting, \<open>None\<close>.
\<close>

fun await_auth :: "('s client \<Rightarrow> 's client) option list \<Rightarrow> 's client \<Rightarrow> (goerr + unit) option \<times> 's client" where
  "await_auth polls c =
     (if cl_rconAuthed c then (Some (Inr ()), c)
      else (case polls of
          [] \<Rightarrow> (None, c)
        | None # _ \<Rightarrow> (Some (Inl (Err ''context over'' [])), c)
        | Some f # ps \<Rightarrow> await_auth ps (f c)))"

definition RconLogin ::
    "'s session_api \<Rightarrow> byte list \<Rightarrow> ('s client \<Rightarrow> 's client) option list \<Rightarrow> 's client \<Rightarrow> (goerr + unit) option \<times> 's client" where
  "RconLogin api password polls c =
     (if cl_sess c = None then (Some (Inl ErrNotConnected), c)
      else
        (case with_sess (se_SendRconAuth api password) (c\<lparr>cl_rconPassword := password, cl_rconAuthed := False\<rparr>) of
           (Inl e, c1) \<Rightarrow> (Some (Inl e), c1)
         | (Inr _, c1) \<Rightarrow> await_auth polls c1))"

section \<open>Dispatch\<close>

definition dispatch :: "go_range \<Rightarrow> event \<Rightarrow> 's client \<Rightarrow> 's client" where
  "dispatch rng ev c =
     c\<lparr>cl_out := cl_out c @ map (\<lambda>i. Called i ev) (rng 11 (handlers_of (event_type ev) (cl_callbacks c)))\<rparr>"

definition On :: "int \<Rightarrow> 's client \<Rightarrow> int \<times> 's client" where
  "On t c = (let (i, r) = register t (cl_callbacks c) in (i, c\<lparr>cl_callbacks := r\<rparr>))"

text \<open>The registrars of the common events.\<close>

definition OnChat :: "'s client \<Rightarrow> int \<times> 's client" where "OnChat = On (chat_type (EventChat 0 0 []))"
definition OnServerMsg :: "'s client \<Rightarrow> int \<times> 's client" where "OnServerMsg = On (chat_type (EventServerMsg []))"
definition OnWhisper :: "'s client \<Rightarrow> int \<times> 's client" where "OnWhisper = On (chat_type (EventWhisper 0 0 []))"
definition OnBroadcast :: "'s client \<Rightarrow> int \<times> 's client" where "OnBroadcast = On (chat_type (EventBroadcast []))"
definition OnVoteSet :: "'s client \<Rightarrow> int \<times> 's client" where "OnVoteSet = On (chat_type (EventVoteSet 0 [] []))"
definition OnVoteStatus :: "'s client \<Rightarrow> int \<times> 's client" where "OnVoteStatus = On (chat_type (EventVoteStatus 0 0 0 0))"
definition OnKill :: "'s client \<Rightarrow> int \<times> 's client" where "OnKill = On (chat_type (EventKill 0 0 0 0))"
definition OnEmoticon :: "'s client \<Rightarrow> int \<times> 's client" where "OnEmoticon = On (chat_type (EventEmoticon 0 0))"
definition OnHookedBy :: "'s client \<Rightarrow> int \<times> 's client" where "OnHookedBy = On (motion_type (EventHookedBy 0))"
definition OnWeaponChange :: "'s client \<Rightarrow> int \<times> 's client" where "OnWeaponChange = On (motion_type (EventWeaponChange 0))"
definition OnPlayerEnterSight :: "'s client \<Rightarrow> int \<times> 's client" where "OnPlayerEnterSight = On (motion_type (EventPlayerEnterSight 0 0 0))"
definition OnPlayerLeaveSight :: "'s client \<Rightarrow> int \<times> 's client" where "OnPlayerLeaveSight = On (motion_type (EventPlayerLeaveSight 0))"
definition OnPlayerMove :: "'s client \<Rightarrow> int \<times> 's client" where "OnPlayerMove = On (motion_type (EventPlayerMove 0 0 0))"
definition OnServerCapabilities :: "'s client \<Rightarrow> int \<times> 's client" where "OnServerCapabilities = On (core_type (EventServerCapabilities no_capabilities))"
definition OnRconLine :: "'s client \<Rightarrow> int \<times> 's client" where "OnRconLine = On (rcon_type (EventRconLine []))"
definition OnRconAuth :: "'s client \<Rightarrow> int \<times> 's client" where "OnRconAuth = On (rcon_type (EventRconAuth False 0))"
definition OnRconCmd :: "'s client \<Rightarrow> int \<times> 's client" where "OnRconCmd = On (rcon_type (EventRconCmd RconCmdAdd [] [] []))"

definition OnDisconnect :: "'s client \<Rightarrow> int \<times> 's client" where
  "OnDisconnect c =
     (cl_disconnectID c, c\<lparr>cl_disconnectID := cl_disconnectID c + 1,
        cl_disconnectCbs := finsert (cl_disconnectID c) (cl_disconnectCbs c)\<rparr>)"

definition remove_disconnect :: "int \<Rightarrow> 's client \<Rightarrow> 's client" where
  "remove_disconnect i c = c\<lparr>cl_disconnectCbs := cl_disconnectCbs c |-| {|i|}\<rparr>"

definition fireDisconnect :: "go_range \<Rightarrow> disconnect_reason \<Rightarrow> 's client \<Rightarrow> 's client" where
  "fireDisconnect rng reason c =
     c\<lparr>cl_out := cl_out c @ map (\<lambda>i. DisconnectCalled i reason) (rng 12 (cl_disconnectCbs c))\<rparr>"

section \<open>Events\<close>

record 's env =
  e_api :: "'s session_api"
  e_rng :: go_range
  e_md5 :: "byte list \<Rightarrow> byte list"
  e_pow :: "rat \<Rightarrow> rat \<Rightarrow> rat"
  e_lib :: tw_lib

definition setErr :: "goerr \<Rightarrow> 's client \<Rightarrow> 's client" where
  "setErr e c = c\<lparr>cl_lastErr := Some e\<rparr>"

definition apply_players :: "event \<Rightarrow> 's client \<Rightarrow> 's client" where
  "apply_players ev c = c\<lparr>cl_players := applyToRegistry (localCID (cl_snap c)) ev (cl_players c)\<rparr>"

text \<open>A derived event: applied to the registry, then dispatched.\<close>

definition derived_event :: "go_range \<Rightarrow> event \<Rightarrow> 's client \<Rightarrow> 's client" where
  "derived_event rng ev c = dispatch rng ev (apply_players ev c)"

text \<open>A snapshot; \<open>lid\<close> is what the session answers to \<open>LocalID\<close>.\<close>

definition on_snapshot :: "'s env \<Rightarrow> int \<Rightarrow> int \<Rightarrow> snapshot \<Rightarrow> ('s client, unit) gost" where
  "on_snapshot E now lid snap c =
     (let (derived, ss) = deriveEvents (e_rng E) (e_md5 E)
            (processSnapshot (e_rng E) now snap (learn_local lid (cl_snap c)));
          p = (cl_pred c)\<lparr>predTime := OnSnapshot now (SnapDelta.Tick snap) (predTime (cl_pred c))\<rparr>;
          c1 = c\<lparr>cl_snap := ss, cl_pred := p\<rparr> in
      case reconcilePrediction (e_pow E) (e_lib E) now (MapOf (e_api E) c) ss p of
        Inl e \<Rightarrow> (Inl e, c1)
      | Inr p1 \<Rightarrow> (Inr (), fold (derived_event (e_rng E)) derived (c1\<lparr>cl_pred := p1\<rparr>)))"

definition on_close :: "go_range \<Rightarrow> byte list \<Rightarrow> 's client \<Rightarrow> 's client" where
  "on_close rng raw c =
     (let reason = NewDisconnectReason raw in
      fireDisconnect rng reason
        (setErr ErrServerClosed
          (c\<lparr>cl_lastDisc := reason, cl_rconAuthed := False, cl_players := clearPlayers\<rparr>)))"

text \<open>The switch of \<open>handleEvent\<close>.\<close>

definition handle_case :: "'s env \<Rightarrow> int \<Rightarrow> int \<Rightarrow> event \<Rightarrow> ('s client, unit) gost" where
  "handle_case E now lid ev c = (case ev of
       Core (EventSnapshot snap) \<Rightarrow> on_snapshot E now lid snap c
     | Core (EventRaceFinish t finish) \<Rightarrow> (Inr (), c\<lparr>cl_snap := setDDRaceTime t 0 finish (cl_snap c)\<rparr>)
     | Core (EventCheckpoint diff) \<Rightarrow> (Inr (), c\<lparr>cl_snap := setDDRaceTime 0 diff False (cl_snap c)\<rparr>)
     | Core (EventInputTiming tick left) \<Rightarrow>
         (Inr (), c\<lparr>cl_pred := (cl_pred c)\<lparr>predTime := AdjustTime now tick left (predTime (cl_pred c))\<rparr>\<rparr>)
     | Chat (EventTuneParams raw) \<Rightarrow> (Inr (), c\<lparr>cl_pred := setTuning raw (cl_pred c)\<rparr>)
     | Core (EventServerCapabilities caps) \<Rightarrow> (Inr (), c\<lparr>cl_caps := caps\<rparr>)
     | Roster (EventPlayerJoin _ _ _ _ _ _) \<Rightarrow> (Inr (), apply_players ev c)
     | Roster (EventPlayerLeave _ _) \<Rightarrow> (Inr (), apply_players ev c)
     | Game (EventScoreChange _ _) \<Rightarrow> (Inr (), apply_players ev c)
     | Roster (EventTeamSet _ _ _) \<Rightarrow> (Inr (), apply_players ev c)
     | Roster (EventSkinChange _ _) \<Rightarrow> (Inr (), apply_players ev c)
     | Rcon (EventRconAuth authed _) \<Rightarrow> (Inr (), c\<lparr>cl_rconAuthed := authed\<rparr>)
     | Core (EventClose reason) \<Rightarrow> (Inr (), on_close (e_rng E) reason c)
     | _ \<Rightarrow> (Inr (), c))"

fun is_snapshot :: "event \<Rightarrow> bool" where
  "is_snapshot (Core (EventSnapshot _)) = True"
| "is_snapshot _ = False"

definition handleEvent :: "'s env \<Rightarrow> int \<Rightarrow> int \<Rightarrow> event \<Rightarrow> ('s client, unit) gost" where
  "handleEvent E now lid ev =
     bnd (handle_case E now lid ev)
       (\<lambda>_ c. let c1 = dispatch (e_rng E) ev c in
          (Inr (), if is_snapshot ev then c1 else c1\<lparr>cl_tickEvents := cl_tickEvents c1 @ [ev]\<rparr>))"

definition drainTickEvents :: "'s client \<Rightarrow> event list \<times> 's client" where
  "drainTickEvents c = (cl_tickEvents c, c\<lparr>cl_tickEvents := []\<rparr>)"

definition maybeAutoReconnect :: "'s client \<Rightarrow> 's client" where
  "maybeAutoReconnect c =
     (if \<not> rp_enabled (cl_policy c) \<or> cl_ctx c = NoCtx then c
      else if cl_closing c \<or> cl_ctx c = CtxOver then c
      else emit_effect ReconnectStarted c)"

text \<open>
  The turns of the event loop: the reader's context is over, an event comes, at its time and with
  the session's answer to \<open>LocalID\<close>, or the channel is closed. A script that is used up leaves the
  loop waiting, \<open>None\<close>.
\<close>

datatype loop_turn = LoopDone | LoopEvent int int event | LoopClosed

fun eventLoop :: "'s env \<Rightarrow> loop_turn list \<Rightarrow> 's client \<Rightarrow> (goerr + unit) option \<times> 's client" where
  "eventLoop E [] c = (None, c)"
| "eventLoop E (LoopDone # ts) c = (Some (Inr ()), c)"
| "eventLoop E (LoopClosed # ts) c = (Some (Inr ()), maybeAutoReconnect (setErr ErrServerClosed c))"
| "eventLoop E (LoopEvent now lid ev # ts) c =
     (case handleEvent E now lid ev c of
        (Inl e, c1) \<Rightarrow> (Some (Inl e), c1)
      | (Inr _, c1) \<Rightarrow> eventLoop E ts c1)"

section \<open>Connecting\<close>

text \<open>What the network gives a \<open>Connect\<close>: the outcome of the version probe, and the sessions.\<close>

record 's dialer =
  di_detect :: "goerr + int"
  di_sessionFn :: "goerr + 's"
  di_new06 :: "goerr + 's"
  di_new07 :: "goerr + 's"

definition newSession :: "'s dialer \<Rightarrow> 's client \<Rightarrow> goerr + 's" where
  "newSession D c =
     (if cl_version c = Version06 then di_new06 D
      else if cl_version c = Version07 then di_new07 D
      else Inl (Err ''unsupported protocol version: %d'' [cl_version c]))"

definition dialSession :: "'s dialer \<Rightarrow> 's client \<Rightarrow> goerr + 's" where
  "dialSession D c = (if cl_sessionFn c then di_sessionFn D else newSession D c)"

definition resolve_version :: "'s dialer \<Rightarrow> ('s client, unit) gost" where
  "resolve_version D c =
     (if cl_version c = VersionAuto \<and> \<not> cl_sessionFn c then
        (case di_detect D of Inl e \<Rightarrow> (Inl e, c) | Inr v \<Rightarrow> (Inr (), c\<lparr>cl_version := v\<rparr>))
      else (Inr (), c))"

definition start_life :: "'s client \<Rightarrow> 's client" where
  "start_life c = (if \<not> cl_lifeCancel c then c\<lparr>cl_ctx := CtxLive, cl_lifeCancel := True\<rparr> else c)"

definition login_options :: "'s client \<Rightarrow> (login_config \<Rightarrow> login_config) option list" where
  "login_options c =
     [Some (WithLoginSkin (cl_skin c)), Some (WithLoginCountry (cl_country c))] @
     (if cl_password c \<noteq> [] then [Some (WithLoginPassword (cl_password c))] else [])"

definition login_failed :: "goerr \<Rightarrow> ('s client, unit) gost" where
  "login_failed e c =
     (case as_server_closed e of
        Some raw \<Rightarrow>
          (Inl (Wrap ''client: login rejected (%s): %w'' [] ErrServerClosed),
           setErr ErrServerClosed (c\<lparr>cl_lastDisc := NewDisconnectReason raw\<rparr>))
      | None \<Rightarrow> (Inl (wrap_err ''client: login: %w'' [] e), c))"

text \<open>The state of a new connection.\<close>

definition fresh_state :: "'s session_api \<Rightarrow> int \<Rightarrow> 's \<Rightarrow> 's client \<Rightarrow> 's client" where
  "fresh_state api now s c =
     c\<lparr>cl_snap := connect_snap now (cl_version c = Version07) (cl_moveEventThreshold c), cl_players := clearPlayers,
       cl_caps := se_Capabilities api s, cl_lastErr := None,
       cl_pred := (cl_pred c)\<lparr>predTime := ResetTime (predTime (cl_pred c))\<rparr>\<rparr>"

definition sendTimeoutCode :: "'s session_api \<Rightarrow> 's client \<Rightarrow> 's client" where
  "sendTimeoutCode api c =
     (if cl_sess c = None \<or> cl_timeoutCode c = [] \<or> cl_version c \<noteq> Version06 \<or> \<not> sc_ChatTimeoutCode (cl_caps c) then c
      else snd (with_sess (se_SendChat api (bytes_of ''/timeout '' @ cl_timeoutCode c)) c))"

definition go_live :: "'s session_api \<Rightarrow> int \<Rightarrow> 's \<Rightarrow> 's client \<Rightarrow> 's client" where
  "go_live api now s c =
     (let c1 = fresh_state api now s c;
          c2 = emit_effect ReaderStarted (c1\<lparr>cl_sess := Some (se_StartReader api s), cl_reader := True\<rparr>) in
      autoRconLogin api (sendTimeoutCode api c2))"

text \<open>
  \<open>Connect\<close>. The deferred function closes the session when an error is returned; a panic passes it
  by with the error still nil.
\<close>

definition connect_session :: "'s session_api \<Rightarrow> int \<Rightarrow> 's \<Rightarrow> ('s client, unit) gost" where
  "connect_session api now s0 c =
     (case se_Login api (cl_name c) (cl_clan c) (login_options c) s0 of
        (Inl e, s1) \<Rightarrow> login_failed e c
      | (Inr _, s1) \<Rightarrow>
          (case se_DownloadMap api s1 of
             (Inl e, s2) \<Rightarrow>
               (if is_panic e then (Inl e, c)
                else if cl_requireMap c then (Inl (Wrap ''%w: %v'' [] ErrMapDownload), c)
                else (Inr (), go_live api now s2 c))
           | (Inr _, s2) \<Rightarrow> (Inr (), go_live api now s2 c)))"

definition Connect :: "'s session_api \<Rightarrow> 's dialer \<Rightarrow> int \<Rightarrow> ('s client, unit) gost" where
  "Connect api D now c0 =
     (case resolve_version D c0 of
        (Inl e, c) \<Rightarrow> (Inl e, c)
      | (Inr _, c1) \<Rightarrow>
          (let c2 = start_life c1 in
           case dialSession D c2 of
             Inl e \<Rightarrow> (Inl (wrap_err ''client: dial %s: %w'' [] e), c2)
           | Inr s0 \<Rightarrow>
               (case connect_session api now s0 (emit_effect Dialed c2) of
                  (Inl e, c3) \<Rightarrow> (Inl e, if is_panic e then c3 else emit_effect SessionClosed c3)
                | (Inr _, c3) \<Rightarrow> (Inr (), c3))))"

definition closeSession :: "'s session_api \<Rightarrow> ('s client, unit) gost" where
  "closeSession api c0 =
     (let c = (if cl_reader c0 then emit_effect ReaderStopped (c0\<lparr>cl_reader := False\<rparr>) else c0) in
      case cl_sess c of
        None \<Rightarrow> (Inr (), c)
      | Some s \<Rightarrow> (fst (se_Close api s), emit_effect SessionClosed (c\<lparr>cl_sess := None\<rparr>)))"

definition CloseClient :: "'s session_api \<Rightarrow> ('s client, unit) gost" where
  "CloseClient api c0 =
     (let (r, c) = closeSession api (c0\<lparr>cl_closing := True, cl_closed := True\<rparr>) in
      (r, if cl_lifeCancel c then c\<lparr>cl_ctx := CtxOver, cl_lifeCancel := False\<rparr> else c))"

definition Reconnect :: "'s session_api \<Rightarrow> 's dialer \<Rightarrow> int \<Rightarrow> ('s client, unit) gost" where
  "Reconnect api D now c = Connect api D now (snd (closeSession api c))"

text \<open>The reconnect loop of a client; attempt \<open>n\<close> finds the network \<open>D n\<close>.\<close>

definition reconnect_attempt ::
    "'s session_api \<Rightarrow> (nat \<Rightarrow> 's dialer) \<Rightarrow> int \<Rightarrow> ('s client \<times> nat, unit) gost" where
  "reconnect_attempt api D now = (\<lambda>(c, n). let (r, c1) = Reconnect api (D n) now c in (r, (c1, Suc n)))"

definition auto_reconnect ::
    "'s session_api \<Rightarrow> (nat \<Rightarrow> 's dialer) \<Rightarrow> int \<Rightarrow> byte list option \<Rightarrow> wake list \<Rightarrow> backoff \<Rightarrow> 's client \<Rightarrow>
     int list \<times> loop_end \<times> 's client \<times> nat" where
  "auto_reconnect api D now rnd16 ws b c =
     reconnectLoop NextDelay ResetDelay (cl_lastDisc \<circ> fst) (apfst (ResetTimeoutCode rnd16 []))
       (reconnect_attempt api D now) (cl_policy c) b ws (c, 0)"

end
