(* ===== verification/ClientRuns.thy ===== *)
theory ClientRuns
  imports Client Login6 Login7 MapDownload
begin

text \<open>
  The client over the sessions of the two protocols, and over its runs: what every call does to the
  session it holds, what every event does to callbacks, registry and errors.
\<close>

section \<open>The sessions of the two protocols\<close>

text \<open>A session shares the map cache of the client's configuration; its state is the pair of both.\<close>

definition on_session :: "('a, 'r) gost \<Rightarrow> ('a \<times> 'b, 'r) gost" where
  "on_session m = (\<lambda>(s, c). let (r, s1) = m s in (r, (s1, c)))"

definition forget :: "('s, 'a) gost \<Rightarrow> ('s, unit) gost" where
  "forget m s = (case m s of (Inl e, s1) \<Rightarrow> (Inl e, s1) | (Inr _, s1) \<Rightarrow> (Inr (), s1))"

record sess_env =
  sv_huff :: huff_lib
  sv_varint :: varint_lib
  sv_md5 :: "byte list \<Rightarrow> byte list"
  sv_rnd :: "byte list"
  sv_parse :: "byte list \<Rightarrow> goerr + tw_map"
  sv_wake :: "nat \<Rightarrow> tw_map map_cache \<Rightarrow> tw_map map_cache"
  sv_http :: "(map_info \<Rightarrow> goerr + byte list) option"
  sv_storage :: int
  sv_chan :: int

type_synonym sess6 = "tw_map session6 \<times> tw_map map_cache option"
type_synonym sess7 = "tw_map session7 \<times> tw_map map_cache option"

definition api6 :: "sess_env \<Rightarrow> sess6 session_api" where
  "api6 V = (let L = sv_varint V in
     \<lparr>se_Login = (\<lambda>nm clan opts. on_session (Login6 (sv_huff V) L (sv_md5 V) (sv_rnd V) nm clan opts)),
      se_Capabilities = s_caps \<circ> fst,
      se_LocalID = (\<lambda>_. -1),
      se_Close = on_session Close6,
      se_StartReader = apfst (StartReader6 (sv_storage V) (sv_chan V)),
      se_DownloadMap = forget (DownloadMap6 (sv_huff V) L (sv_parse V) (sv_wake V) (sv_http V)),
      se_Map = s_parsed \<circ> fst,
      se_MapName = Name \<circ> s_mapInfo \<circ> fst,
      se_SendInput = (\<lambda>t p n d. on_session (SendInput6 L t p n d)),
      se_SendChat = (\<lambda>msg. on_session (SendChat6 L msg)),
      se_SendChatTeam = (\<lambda>tm msg. on_session (SendChatTeam6 L tm msg)),
      se_SendWhisper = (\<lambda>i msg. on_session (SendWhisper6 L i msg)),
      se_SendKill = on_session (SendKill6 L),
      se_SendRconAuth = (\<lambda>pw. on_session (SendRconAuth6 L pw)),
      se_SendRconCmd = (\<lambda>cmd. on_session (SendRconCmd6 L cmd)),
      se_SendEmoticon = (\<lambda>e. on_session (SendEmoticon6 L e)),
      se_SendSetTeam = (\<lambda>tm. on_session (SendSetTeam6 L tm)),
      se_SendSpectate = (\<lambda>i. on_session (SendSpectate6 L i)),
      se_SendVote = (\<lambda>b. on_session (SendVote6 L b)),
      se_SendCallVote = (\<lambda>t v r. on_session (SendCallVote6 L t v r))\<rparr>)"

definition api7 :: "sess_env \<Rightarrow> sess7 session_api" where
  "api7 V = (let L = sv_varint V in
     \<lparr>se_Login = (\<lambda>nm clan opts. on_session (Login7 (sv_huff V) L (sv_md5 V) nm clan opts)),
      se_Capabilities = s_caps \<circ> fst,
      se_LocalID = s7_localClientID \<circ> fst,
      se_Close = on_session Close7,
      se_StartReader = apfst (StartReader7 (sv_storage V) (sv_chan V)),
      se_DownloadMap = forget (DownloadMap7 (sv_huff V) L (sv_parse V) (sv_wake V)),
      se_Map = s_parsed \<circ> fst,
      se_MapName = Name \<circ> s_mapInfo \<circ> fst,
      se_SendInput = (\<lambda>t p n d. on_session (SendInput7 L t p n d)),
      se_SendChat = (\<lambda>msg. on_session (SendChat7 L msg)),
      se_SendChatTeam = (\<lambda>tm msg. on_session (SendChatTeam7 L tm msg)),
      se_SendWhisper = (\<lambda>i msg. on_session (SendWhisper7 L i msg)),
      se_SendKill = on_session (SendKill7 L),
      se_SendRconAuth = (\<lambda>pw. on_session (SendRconAuth7 L pw)),
      se_SendRconCmd = (\<lambda>cmd. on_session (SendRconCmd7 L cmd)),
      se_SendEmoticon = (\<lambda>e. on_session (SendEmoticon7 L e)),
      se_SendSetTeam = (\<lambda>tm. on_session (SendSetTeam7 L tm)),
      se_SendSpectate = (\<lambda>i. on_session (SendSpectate7 L i)),
      se_SendVote = (\<lambda>b. on_session (SendVote7 L b)),
      se_SendCallVote = (\<lambda>t v r. on_session (SendCallVote7 L t v r))\<rparr>)"

section \<open>What a client relies on\<close>

text \<open>
  The contract of the interface \<open>Session\<close>: a download that succeeds leaves a map, and neither the
  start of the reader nor a message that is sent takes it away.
\<close>

locale session_contract =
  fixes api :: "'s session_api"
  assumes downloaded: "se_DownloadMap api s = (Inr u, s1) \<Longrightarrow> se_Map api s1 \<noteq> None"
    and reader_keeps: "se_Map api (se_StartReader api s) = se_Map api s"
    and chat_keeps: "se_Map api (snd (se_SendChat api msg s)) = se_Map api s"
    and auth_keeps: "se_Map api (snd (se_SendRconAuth api pw s)) = se_Map api s"
    and input_keeps: "se_Map api (snd (se_SendInput api t p n d s)) = se_Map api s"
begin

lemma with_sess_map:
  "(\<And>s. se_Map api (snd (m s)) = se_Map api s) \<Longrightarrow> MapOf api (snd (with_sess m c)) = MapOf api c"
  by (simp add: MapOf_def with_sess_def Let_def case_prod_beta split: option.split)

lemma MapOf_sess: "cl_sess c1 = cl_sess c \<Longrightarrow> MapOf api c1 = MapOf api c"
  by (simp add: MapOf_def)

text \<open>A connection that is live has the map the download left.\<close>

lemma go_live_map: "MapOf api (go_live api now s c) = se_Map api s"
proof -
  define c2 where "c2 = emit_effect ReaderStarted
    ((fresh_state api now s c)\<lparr>cl_sess := Some (se_StartReader api s), cl_reader := True\<rparr>)"
  have a: "MapOf api (autoRconLogin api x) = MapOf api x" for x
    by (simp add: autoRconLogin_def with_sess_map auth_keeps)
  have t: "MapOf api (sendTimeoutCode api x) = MapOf api x" for x
    by (simp add: sendTimeoutCode_def with_sess_map chat_keeps)
  have "MapOf api c2 = se_Map api s" by (simp add: c2_def MapOf_def emit_effect_def reader_keeps)
  then show ?thesis by (simp add: go_live_def Let_def a t c2_def [symmetric])
qed

lemma required_map:
  assumes "Connect api D now c = (Inr u, c1)" "cl_requireMap c"
  shows "HasMap api c1"
proof -
  obtain c2 where r: "resolve_version D c = (Inr (), c2)"
    using assms(1) by (auto simp: Connect_def split: prod.splits sum.splits)
  then have q: "cl_requireMap (emit_effect Dialed (start_life c2))"
    using assms(2) by (auto simp: resolve_version_def start_life_def emit_effect_def split: if_splits sum.splits)
  obtain s0 where "dialSession D (start_life c2) = Inr s0" "connect_session api now s0 (emit_effect Dialed (start_life c2)) = (Inr (), c1)"
    using assms(1) r by (auto simp: Connect_def Let_def split: prod.splits sum.splits)
  then show ?thesis using q
    by (auto simp: connect_session_def login_failed_def HasMap_def go_live_map
        dest: downloaded split: prod.splits sum.splits option.splits if_splits)
qed

end

lemma SendRaw_parsed: "s_parsed (snd (SendRaw d s)) = s_parsed s"
  by (simp add: SendRaw_def split: list.split option.split)

lemma NextSeq_parsed: "s_parsed (snd (NextSeq s)) = s_parsed s"
  by (simp add: NextSeq_def Let_def)

lemma SendVital_parsed: "s_parsed (snd (SendVitalMsg6 p s)) = s_parsed s" "s_parsed (snd (SendVitalMsg7 p s7)) = s_parsed s7"
  using NextSeq_parsed [of s] NextSeq_parsed [of s7]
  by (cases "NextSeq s"; cases "NextSeq s7";
      simp add: SendVitalMsg6_def SendVitalMsg7_def bnd_def SendChunks6_def SendChunks7_def SendRaw_parsed split: sum.split)+

lemma on_session_map: "s_parsed (fst (snd (on_session m (s, c)))) = s_parsed (snd (m s))"
  by (simp add: on_session_def Let_def case_prod_beta)

lemma finish_map_parsed: "finish_map msg parse info d (s, c) = (Inr m, x) \<Longrightarrow> s_parsed (fst x) \<noteq> None"
  by (auto simp: finish_map_def store_parsed_def split: prod.splits sum.splits)

interpretation s6: session_contract "api6 V" for V
proof
  fix s s1 :: sess6 and u
  show "se_DownloadMap (api6 V) s = (Inr u, s1) \<Longrightarrow> se_Map (api6 V) s1 \<noteq> None"
    by (cases s) (auto simp: api6_def forget_def DownloadMap6_def store_parsed_def Let_def
        dest!: finish_map_parsed split: prod.splits sum.splits if_splits option.splits)
next
  fix s :: sess6
  show "se_Map (api6 V) (se_StartReader (api6 V) s) = se_Map (api6 V) s"
    by (cases s) (simp add: api6_def StartReader6_def Let_def)
next
  fix s :: sess6 and msg
  show "se_Map (api6 V) (snd (se_SendChat (api6 V) msg s)) = se_Map (api6 V) s"
    by (cases s) (simp add: api6_def Let_def on_session_map SendChat6_def SendVital_parsed)
next
  fix s :: sess6 and pw
  show "se_Map (api6 V) (snd (se_SendRconAuth (api6 V) pw s)) = se_Map (api6 V) s"
    by (cases s) (simp add: api6_def Let_def on_session_map SendRconAuth6_def SendVital_parsed)
next
  fix s :: sess6 and t p n d
  show "se_Map (api6 V) (snd (se_SendInput (api6 V) t p n d s)) = se_Map (api6 V) s"
    by (cases s) (simp add: api6_def Let_def on_session_map SendInput6_def SendNonVitalMsg6_def SendChunks6_def SendRaw_parsed)
qed

interpretation s7: session_contract "api7 V" for V
proof
  fix s s1 :: sess7 and u
  show "se_DownloadMap (api7 V) s = (Inr u, s1) \<Longrightarrow> se_Map (api7 V) s1 \<noteq> None"
    by (cases s) (auto simp: api7_def forget_def DownloadMap7_def store_parsed_def Let_def
        dest!: finish_map_parsed split: prod.splits sum.splits if_splits option.splits)
next
  fix s :: sess7
  show "se_Map (api7 V) (se_StartReader (api7 V) s) = se_Map (api7 V) s"
    by (cases s) (simp add: api7_def StartReader7_def Let_def)
next
  fix s :: sess7 and msg
  show "se_Map (api7 V) (snd (se_SendChat (api7 V) msg s)) = se_Map (api7 V) s"
    by (cases s) (simp add: api7_def Let_def on_session_map SendChat7_def SendVital_parsed)
next
  fix s :: sess7 and pw
  show "se_Map (api7 V) (snd (se_SendRconAuth (api7 V) pw s)) = se_Map (api7 V) s"
    by (cases s) (simp add: api7_def Let_def on_session_map SendRconAuth7_def SendVital_parsed)
next
  fix s :: sess7 and t p n d
  show "se_Map (api7 V) (snd (se_SendInput (api7 V) t p n d s)) = se_Map (api7 V) s"
    by (cases s) (simp add: api7_def Let_def on_session_map SendInput7_def SendNonVitalMsg7_def SendChunks7_def SendRaw_parsed)
qed

section \<open>Connecting\<close>

text \<open>
  C8: A required map is there. When a client that requires a map connects to a 0.6 server
  without an error, it has the map, whether it came from the cache, over HTTP or over the
  connection.
\<close>

theorem required_map_present6:
  assumes "Connect (api6 V) D now c = (Inr u, c1)" "cl_requireMap c"
  shows "HasMap (api6 V) c1"
  using assms by (rule s6.required_map)

lemma required_map_present7:
  assumes "Connect (api7 V) D now c = (Inr u, c1)" "cl_requireMap c"
  shows "HasMap (api7 V) c1"
  using assms by (rule s7.required_map)

lemma as_server_closed_reason: "as_server_closed (server_closed_error reason) = Some reason"
  by (simp add: server_closed_error_def comp_def)

text \<open>An error of the login that carries the server's reason becomes the reason of the client.\<close>

lemma login_error_reported:
  assumes "resolve_version D c = (Inr u, c1)" "dialSession D (start_life c1) = Inr s0"
    and "se_Login api (cl_name c1) (cl_clan c1) (login_options c1) s0 = (Inl (server_closed_error raw), s1)"
  shows "\<exists>c2. Connect api D now c = (Inl (Wrap ''client: login rejected (%s): %w'' [] ErrServerClosed), c2) \<and>
    cl_lastErr c2 = Some ErrServerClosed \<and> cl_lastDisc c2 = NewDisconnectReason raw \<and>
    cl_sess c2 = cl_sess c \<and> cl_out c2 = cl_out c @ [Dialed, SessionClosed]"
proof -
  let ?c = "emit_effect Dialed (start_life c1)"
  have k: "cl_name ?c = cl_name c1" "cl_clan ?c = cl_clan c1" "login_options ?c = login_options c1"
    "cl_out ?c = cl_out c1 @ [Dialed]" "cl_sess ?c = cl_sess c1"
    by (simp_all add: emit_effect_def start_life_def login_options_def)
  have c1: "cl_out c1 = cl_out c" "cl_sess c1 = cl_sess c"
    using assms(1) by (auto simp: resolve_version_def split: if_splits sum.splits)
  have "connect_session api now s0 ?c = login_failed (server_closed_error raw) ?c"
    using assms(3) by (simp add: connect_session_def k)
  also have "\<dots> = (Inl (Wrap ''client: login rejected (%s): %w'' [] ErrServerClosed),
      setErr ErrServerClosed (?c\<lparr>cl_lastDisc := NewDisconnectReason raw\<rparr>))"
    by (simp add: login_failed_def as_server_closed_reason)
  finally show ?thesis using assms(1,2) k c1
    by (simp add: Connect_def Let_def setErr_def) (simp add: emit_effect_def)
qed

text \<open>
  C9: A rejected login says why. When a 0.6 server has accepted the connection and then, after any
  silence and any packets that neither close nor let the client in, the map change among them,
  sends a close packet, \<open>Connect\<close> returns an error that is \<open>ErrServerClosed\<close>, the client remembers the
  classified reason, keeps the session it had, if any, and closes the one it dialled; as long as the
  writes of the login succeed. A close that answers CONNECT itself is not reported so: the handshake
  fails with its own error.
\<close>

theorem rejected_login_reported:
  assumes "resolve_version D c = (Inr u, c1)" "dialSession D (start_life c1) = Inr (s0, cache)"
    and "Handshake6 s0 = (Inr (), s1)" "send_faults s1 = []"
    and "inbox s1 = pre @ (d, Arrive resp) # rest" "list_all (undecided (sv_huff V) s1) pre"
    and "close_of (sv_huff V) s1 resp = Some raw"
  shows "\<exists>c2. Connect (api6 V) D now c = (Inl (Wrap ''client: login rejected (%s): %w'' [] ErrServerClosed), c2) \<and>
    cl_lastErr c2 = Some ErrServerClosed \<and> cl_lastDisc c2 = NewDisconnectReason raw \<and>
    cl_sess c2 = cl_sess c \<and> cl_out c2 = cl_out c @ [Dialed, SessionClosed]"
proof -
  let ?l = "Login6 (sv_huff V) (sv_varint V) (sv_md5 V) (sv_rnd V) (cl_name c1) (cl_clan c1) (login_options c1) s0"
  have "fst ?l = Inl (server_closed_error raw)" using assms(3-7) by (rule Login6_closed)
  then obtain s where "?l = (Inl (server_closed_error raw), s)" by (metis prod.collapse)
  then have "se_Login (api6 V) (cl_name c1) (cl_clan c1) (login_options c1) (s0, cache) =
      (Inl (server_closed_error raw), (s, cache))"
    by (simp add: api6_def Let_def on_session_def)
  with assms(1,2) show ?thesis by (rule login_error_reported)
qed

section \<open>The ledger of sessions\<close>

text \<open>The effects on sessions, readers and the reconnect loop, and whether the client holds one.\<close>

definition lifecycle :: "effect \<Rightarrow> bool" where
  "lifecycle e \<longleftrightarrow> e \<in> {Dialed, SessionClosed, ReaderStarted, ReaderStopped, ReconnectStarted}"

definition life :: "'s client \<Rightarrow> bool \<times> bool \<times> effect list" where
  "life c = (cl_sess c \<noteq> None, cl_reader c, filter lifecycle (cl_out c))"

lemma lifecycle_simps [simp]:
  "lifecycle Dialed" "lifecycle SessionClosed" "lifecycle ReaderStarted" "lifecycle ReaderStopped"
  "lifecycle ReconnectStarted" "\<not> lifecycle (Called i ev)" "\<not> lifecycle (DisconnectCalled i r)"
  by (simp_all add: lifecycle_def)

lemma life_with_sess [simp]: "life (snd (with_sess m c)) = life c"
  by (simp add: life_def with_sess_def Let_def case_prod_beta split: option.split)

lemma life_dispatch [simp]: "life (dispatch rng ev c) = life c"
  by (simp add: life_def dispatch_def filter_map comp_def)

lemma life_players [simp]: "life (apply_players ev c) = life c"
  by (simp add: life_def apply_players_def)

lemma life_derived: "life (fold (derived_event rng) evs c) = life c"
  by (induction evs arbitrary: c) (simp_all add: derived_event_def)

lemma life_on_snapshot: "life (snd (on_snapshot E now lid snap c)) = life c"
proof -
  have "life (c\<lparr>cl_snap := ss, cl_pred := p\<rparr>) = life c" "life (c\<lparr>cl_snap := ss, cl_pred := q\<rparr>) = life c" for ss p q
    by (simp_all add: life_def)
  then show ?thesis by (simp add: on_snapshot_def Let_def life_derived split: prod.split sum.split)
qed

lemma life_on_close: "life (on_close rng raw c) = life c"
  by (simp add: life_def on_close_def fireDisconnect_def setErr_def Let_def filter_map comp_def)

lemma life_handle_case: "life (snd (handle_case E now lid ev c)) = life c"
proof -
  have k: "life (c\<lparr>cl_snap := ss\<rparr>) = life c" "life (c\<lparr>cl_pred := p\<rparr>) = life c" "life (c\<lparr>cl_caps := k\<rparr>) = life c"
    "life (c\<lparr>cl_rconAuthed := b\<rparr>) = life c" for ss p k b
    by (simp_all add: life_def)
  show ?thesis
    by (simp add: handle_case_def k life_on_snapshot life_on_close split: event.split core_event.split chat_event.split
        roster_event.split game_event.split rcon_event.split)
qed

lemma life_handleEvent: "life (snd (handleEvent E now lid ev c)) = life c"
proof -
  obtain r c1 where h: "handle_case E now lid ev c = (r, c1)" by fastforce
  have "life (x\<lparr>cl_tickEvents := evs\<rparr>) = life x" for x :: "'a client" and evs by (simp add: life_def)
  with h life_handle_case [of E now lid ev c] show ?thesis
    by (cases r) (simp_all add: handleEvent_def bnd_def Let_def)
qed

lemma life_record [simp]: "life (record_of t i c) = life c"
  by (simp add: life_def record_of_def)

lemma life_Do: "life (snd (Do L api now a c)) = life c"
  by (simp add: Do_def sendInputDirect_def Let_def split: action.split)

lemma life_SendInput: "life (snd (SendInput L api now inp c)) = life c"
proof -
  have "life (c\<lparr>cl_pred := p\<rparr>) = life c" for p by (simp add: life_def)
  then show ?thesis by (simp add: SendInput_def Let_def split: prod.split option.split)
qed

lemma life_RconSend: "life (snd (SendRcon api cmd c)) = life c"
  by (simp add: SendRcon_def)

lemma life_timeout [simp]: "life (sendTimeoutCode api c) = life c"
  by (simp add: sendTimeoutCode_def)

lemma life_auto [simp]: "life (autoRconLogin api c) = life c"
  by (simp add: autoRconLogin_def)

lemma life_go_live: "life (go_live api now s c) = (True, True, filter lifecycle (cl_out c) @ [ReaderStarted])"
proof -
  have "life (emit_effect ReaderStarted ((fresh_state api now s c)\<lparr>cl_sess := Some (se_StartReader api s), cl_reader := True\<rparr>)) =
    (True, True, filter lifecycle (cl_out c) @ [ReaderStarted])"
    by (simp add: life_def emit_effect_def fresh_state_def)
  then show ?thesis by (simp add: go_live_def Let_def)
qed

lemma life_start: "life (start_life c) = life c"
  by (simp add: life_def start_life_def)

lemma life_resolve: "life (snd (resolve_version D c)) = life c"
  by (auto simp: life_def resolve_version_def split: sum.split)

text \<open>A \<open>Connect\<close> that fails closes what it dialled.\<close>

lemma life_Connect:
  assumes "Connect api D now c = (r, c1)" "\<And>e. r = Inl e \<Longrightarrow> \<not> is_panic e"
  shows "(r = Inr () \<and> life c1 = (True, True, snd (snd (life c)) @ [Dialed, ReaderStarted])) \<or>
    life c1 = life c \<or> life c1 = (fst (life c), fst (snd (life c)), snd (snd (life c)) @ [Dialed, SessionClosed])"
proof -
  obtain v c2 where v: "resolve_version D c = (v, c2)" by fastforce
  have l2: "life c2 = life c" using life_resolve [of D c] v by simp
  show ?thesis
  proof (cases v)
    case (Inl e)
    then show ?thesis using assms(1) v l2 by (simp add: Connect_def)
  next
    case (Inr u)
    let ?c = "emit_effect Dialed (start_life c2)"
    have lc: "life ?c = (fst (life c), fst (snd (life c)), snd (snd (life c)) @ [Dialed])"
      using life_start [of c2] l2 by (simp add: life_def emit_effect_def)
    show ?thesis
    proof (cases "dialSession D (start_life c2)")
      case (Inl e)
      then show ?thesis using assms(1) v Inr l2 life_start [of c2] by (auto simp: Connect_def Let_def)
    next
      case (Inr s0)
      obtain r3 c3 where s: "connect_session api now s0 ?c = (r3, c3)" by fastforce
      have l3: "life c3 = (if r3 = Inr () then (True, True, snd (snd (life c)) @ [Dialed, ReaderStarted]) else life ?c)"
      proof -
        have f: "life (snd (login_failed e ?c)) = life ?c \<and> (\<exists>e'. fst (login_failed e ?c) = Inl e')" for e
          by (simp add: login_failed_def setErr_def life_def split: option.split)
        have g: "life (go_live api now s ?c) = (True, True, snd (snd (life c)) @ [Dialed, ReaderStarted])" for s
          using lc by (simp add: life_go_live) (simp add: life_def)
        show ?thesis using s f g
          by (auto simp: connect_session_def split: prod.splits sum.splits if_splits)
            (metis fst_conv snd_conv sum.distinct(1))+
      qed
      show ?thesis
      proof (cases r3)
        case (Inl e)
        then have "\<not> is_panic e" "r = Inl e" "c1 = emit_effect SessionClosed c3"
          using assms s v \<open>v = Inr u\<close> \<open>dialSession D (start_life c2) = Inr s0\<close>
          by (auto simp: Connect_def Let_def)
        then show ?thesis using l3 lc Inl by (simp add: life_def emit_effect_def)
      next
        case (Inr w)
        then show ?thesis using assms(1) s v \<open>v = Inr u\<close> \<open>dialSession D (start_life c2) = Inr s0\<close> l3
          by (simp add: Connect_def Let_def)
      qed
    qed
  qed
qed

lemma count_lifecycle: "lifecycle e \<Longrightarrow> count_list (filter lifecycle es) e = count_list es e"
  by (induction es) auto

text \<open>The calls of a client and the turns of its event loop.\<close>

datatype 's client_op =
    OpConnect "'s dialer" int
  | OpReconnect "'s dialer" int
  | OpClose
  | OpEvent "'s env" int int event
  | OpInput int player_input
  | OpAction int action
  | OpRcon "byte list"

fun run_op :: "varint_lib \<Rightarrow> 's session_api \<Rightarrow> 's client_op \<Rightarrow> ('s client, unit) gost" where
  "run_op L api (OpConnect D now) = Connect api D now"
| "run_op L api (OpReconnect D now) = Reconnect api D now"
| "run_op L api OpClose = CloseClient api"
| "run_op L api (OpEvent E now lid ev) = handleEvent E now lid ev"
| "run_op L api (OpInput now inp) = SendInput L api now inp"
| "run_op L api (OpAction now a) = Do L api now a"
| "run_op L api (OpRcon cmd) = SendRcon api cmd"

text \<open>
  A run of a client: it starts without a session, \<open>Connect\<close> is called only while there is none
  (\<open>Reconnect\<close> at any time), and no call panics.
\<close>

inductive client_run :: "varint_lib \<Rightarrow> 's session_api \<Rightarrow> 's client \<Rightarrow> bool" for L api where
  start: "cl_sess c = None \<Longrightarrow> \<not> cl_reader c \<Longrightarrow> cl_out c = [] \<Longrightarrow> client_run L api c"
| step: "client_run L api c \<Longrightarrow> run_op L api q c = (r, c1) \<Longrightarrow> (\<And>e. r = Inl e \<Longrightarrow> \<not> is_panic e) \<Longrightarrow>
    (\<And>D now. q = OpConnect D now \<Longrightarrow> cl_sess c = None) \<Longrightarrow> client_run L api c1"

inductive_cases client_runE: "client_run L api c"

definition balanced :: "bool \<times> bool \<times> effect list \<Rightarrow> bool" where
  "balanced = (\<lambda>(held, reading, es). reading = held \<and>
     count_list es Dialed = count_list es SessionClosed + of_bool held \<and>
     count_list es ReaderStarted = count_list es ReaderStopped + of_bool reading)"

lemma life_closeSession:
  "balanced (life c) \<Longrightarrow> balanced (life (snd (closeSession api c))) \<and> cl_sess (snd (closeSession api c)) = None"
  by (cases "cl_sess c") (auto simp: closeSession_def Let_def life_def emit_effect_def balanced_def)

lemma Connect_balanced:
  assumes "balanced (life c)" "cl_sess c = None" "Connect api D now c = (r, c1)" "\<And>e. r = Inl e \<Longrightarrow> \<not> is_panic e"
  shows "balanced (life c1)"
proof -
  have h: "fst (life c) = False" using assms(2) by (simp add: life_def)
  then have f: "fst (snd (life c)) = False" using assms(1) by (auto simp: balanced_def)
  have b: "balanced (False, False, snd (snd (life c)))" using assms(1) h f by (metis prod.collapse)
  have "(r = Inr () \<and> life c1 = (True, True, snd (snd (life c)) @ [Dialed, ReaderStarted])) \<or>
    life c1 = life c \<or> life c1 = (False, False, snd (snd (life c)) @ [Dialed, SessionClosed])"
    using life_Connect [OF assms(3)] assms(4) h f by metis
  then show ?thesis using b assms(1) by (elim disjE conjE) (simp_all add: balanced_def)
qed

lemma run_balanced: "client_run L api c \<Longrightarrow> balanced (life c)"
proof (induction rule: client_run.induct)
  case (start c)
  then show ?case by (simp add: life_def balanced_def)
next
  case (step c q r c1)
  note b = step.IH
  show ?case
  proof (cases q)
    case (OpConnect D now)
    then have "cl_sess c = None" "Connect api D now c = (r, c1)" using step.hyps(2,4) by simp_all
    from Connect_balanced [OF b this] step.hyps(3) show ?thesis by blast
  next
    case (OpReconnect D now)
    let ?x = "snd (closeSession api c)"
    note l = life_closeSession [OF b, of api]
    have "Connect api D now ?x = (r, c1)" using OpReconnect step.hyps(2) by (simp add: Reconnect_def)
    from Connect_balanced [OF conjunct1 [OF l] conjunct2 [OF l] this] step.hyps(3) show ?thesis by blast
  next
    case OpClose
    let ?x = "c\<lparr>cl_closing := True, cl_closed := True\<rparr>"
    have "life ?x = life c" by (simp add: life_def)
    with b have "balanced (life (snd (closeSession api ?x)))" using life_closeSession [of ?x] by simp
    moreover have "life c1 = life (snd (closeSession api ?x))"
      using step.hyps(2) OpClose by (auto simp: CloseClient_def Let_def life_def split: prod.splits if_splits)
    ultimately show ?thesis by simp
  next
    case (OpEvent E now lid ev)
    then show ?thesis using step.hyps(2) b life_handleEvent [of E now lid ev c] by simp
  next
    case (OpInput now inp)
    then show ?thesis using step.hyps(2) b life_SendInput [of L api now inp c] by simp
  next
    case (OpAction now a)
    then show ?thesis using step.hyps(2) b life_Do [of L api now a c] by simp
  next
    case (OpRcon cmd)
    then show ?thesis using step.hyps(2) b life_RconSend [of api cmd c] by simp
  qed
qed

text \<open>
  C5: No session leaks. In every run of a client in which \<open>Connect\<close> is only called without a
  session, whatever connects, reconnects, failures, closes, events and sends it holds, the sessions
  dialled are the sessions closed and the one the client has; a reader runs exactly when there is
  one, and every other that was started was stopped.
\<close>

theorem no_session_leaks:
  assumes "client_run L api c"
  shows "count_list (cl_out c) Dialed = count_list (cl_out c) SessionClosed + of_bool (cl_sess c \<noteq> None) \<and>
    count_list (cl_out c) ReaderStarted = count_list (cl_out c) ReaderStopped + of_bool (cl_sess c \<noteq> None) \<and>
    cl_reader c = (cl_sess c \<noteq> None)"
  using run_balanced [OF assms] by (simp add: life_def balanced_def count_lifecycle)

section \<open>What events leave alone\<close>

definition identity :: "'s client \<Rightarrow> byte list \<times> byte list \<times> byte list \<times> int \<times> byte list \<times> byte list" where
  "identity c = (cl_name c, cl_clan c, cl_skin c, cl_country c, cl_password c, cl_timeoutCode c)"

definition wiring ::
    "'s client \<Rightarrow> event list \<times> callback_registry \<times> int fset \<times> bool \<times> ctx_state \<times> backoff reconnect_policy" where
  "wiring c = (cl_tickEvents c, cl_callbacks c, cl_disconnectCbs c, cl_closing c, cl_ctx c, cl_policy c)"

lemma wiring_events [simp]:
  "wiring (dispatch rng ev c) = wiring c" "wiring (apply_players ev c) = wiring c" "wiring (setErr e c) = wiring c"
  "wiring (fireDisconnect rng rs c) = wiring c"
  "wiring (c\<lparr>cl_snap := ss\<rparr>) = wiring c" "wiring (c\<lparr>cl_pred := p\<rparr>) = wiring c" "wiring (c\<lparr>cl_caps := k\<rparr>) = wiring c"
  "wiring (c\<lparr>cl_rconAuthed := b\<rparr>) = wiring c" "wiring (c\<lparr>cl_lastDisc := d, cl_rconAuthed := b, cl_players := ps\<rparr>) = wiring c"
  "wiring (c\<lparr>cl_snap := ss, cl_pred := p\<rparr>) = wiring c"
  by (simp_all add: wiring_def dispatch_def apply_players_def setErr_def fireDisconnect_def)

lemma wiring_derived [simp]: "wiring (fold (derived_event rng) evs c) = wiring c"
  by (induction evs arbitrary: c) (simp_all add: derived_event_def)

lemma wiring_handle_case: "wiring (snd (handle_case E now lid ev c)) = wiring c"
  by (simp add: handle_case_def on_snapshot_def on_close_def Let_def split: event.split core_event.split chat_event.split
      roster_event.split game_event.split rcon_event.split prod.split sum.split)

lemma handleEvent_cases:
  assumes "handle_case E now lid ev c = (r, c0)"
  shows "handleEvent E now lid ev c = (case r of
      Inl e \<Rightarrow> (Inl e, c0)
    | Inr u \<Rightarrow> (Inr (), (dispatch (e_rng E) ev c0)\<lparr>cl_tickEvents := cl_tickEvents c @ (if is_snapshot ev then [] else [ev])\<rparr>))"
proof -
  have t: "cl_tickEvents c0 = cl_tickEvents c"
    using wiring_handle_case [of E now lid ev c] assms by (simp add: wiring_def)
  have d: "cl_tickEvents (dispatch (e_rng E) ev c0) = cl_tickEvents c0" by (simp add: dispatch_def)
  show ?thesis using assms t d by (cases r) (simp_all add: handleEvent_def bnd_def Let_def)
qed

lemma handleEvent_tick:
  "handleEvent E now lid ev c = (Inr u, c1) \<Longrightarrow>
     cl_tickEvents c1 = cl_tickEvents c @ filter (\<lambda>e. \<not> is_snapshot e) [ev]"
  by (cases "handle_case E now lid ev c") (auto simp: handleEvent_cases split: sum.splits)

text \<open>
  C6: A consumer misses no event. The events drained for a tick are exactly those the
  session delivered since the last drain, in order, without the snapshots themselves.
\<close>

theorem tick_events_complete:
  assumes "eventLoop E (map (\<lambda>(now, lid, ev). LoopEvent now lid ev) turns) c = (None, c1)"
  shows "fst (drainTickEvents c1) = cl_tickEvents c @ filter (\<lambda>ev. \<not> is_snapshot ev) (map (snd \<circ> snd) turns) \<and>
    cl_tickEvents (snd (drainTickEvents c1)) = []"
proof -
  have "cl_tickEvents c1 = cl_tickEvents c @ filter (\<lambda>ev. \<not> is_snapshot ev) (map (snd \<circ> snd) turns)"
    using assms
  proof (induction turns arbitrary: c)
    case (Cons t ts)
    obtain now lid ev where t: "t = (now, lid, ev)" by (metis prod_cases3)
    obtain r c0 where h: "handleEvent E now lid ev c = (r, c0)" by fastforce
    show ?case
    proof (cases r)
      case (Inr u)
      then have "eventLoop E (map (\<lambda>(now, lid, ev). LoopEvent now lid ev) ts) c0 = (None, c1)"
        using Cons.prems h t by simp
      from Cons.IH [OF this] handleEvent_tick [of E now lid ev c u c0] h Inr t show ?thesis by simp
    next
      case (Inl e)
      then show ?thesis using Cons.prems h t by simp
    qed
  qed simp
  then show ?thesis by (simp add: drainTickEvents_def)
qed

lemma handle_case_out:
  "\<not> is_snapshot ev \<Longrightarrow> \<exists>c1 ds. handle_case E now lid ev c = (Inr (), c1) \<and>
     cl_out c1 = cl_out c @ map (\<lambda>i. DisconnectCalled i (fst ds)) (snd ds)"
proof -
  assume s: "\<not> is_snapshot ev"
  show ?thesis
  proof (cases "\<exists>raw. ev = Core (EventClose raw)")
    case True
    then obtain raw where ev: "ev = Core (EventClose raw)" by blast
    have "handle_case E now lid ev c = (Inr (), on_close (e_rng E) raw c)" by (simp add: ev handle_case_def)
    moreover have "cl_out (on_close (e_rng E) raw c) = cl_out c @
        map (\<lambda>i. DisconnectCalled i (fst (NewDisconnectReason raw, e_rng E 12 (cl_disconnectCbs c))))
          (snd (NewDisconnectReason raw, e_rng E 12 (cl_disconnectCbs c)))"
      by (simp add: on_close_def fireDisconnect_def setErr_def Let_def)
    ultimately show ?thesis by blast
  next
    case False
    have "\<exists>c1. handle_case E now lid ev c = (Inr (), c1) \<and> cl_out c1 = cl_out c"
      using s False
      by (cases ev rule: is_snapshot.cases; simp add: handle_case_def apply_players_def split: core_event.split
          chat_event.split roster_event.split game_event.split rcon_event.split)
    then show ?thesis by (metis append_Nil2 list.map(1) snd_conv)
  qed
qed

lemma count_called: "distinct xs \<Longrightarrow> count_list (map (\<lambda>i. Called i ev) xs) (Called i e) = of_bool (e = ev \<and> i \<in> set xs)"
  by (induction xs) auto

lemma count_other: "count_list (map (\<lambda>i. DisconnectCalled i rs) xs) (Called i e) = 0"
  by (induction xs) auto

text \<open>
  C7: Every handler is called once. An event that is not a snapshot is given to each handler
  that is registered for its type exactly once, to no other handler, and no other event is given to
  anyone, in whatever order the map of handlers is visited.
\<close>

theorem callbacks_called_once:
  assumes "visits_all (e_rng E)" "\<not> is_snapshot ev"
  shows "\<exists>c1. handleEvent E now lid ev c = (Inr (), c1) \<and>
    (\<forall>i e. count_list (cl_out c1) (Called i e) = count_list (cl_out c) (Called i e) +
       of_bool (e = ev \<and> i |\<in>| handlers_of (event_type ev) (cl_callbacks c)))"
proof -
  from handle_case_out [OF assms(2)] obtain c0 ds where h: "handle_case E now lid ev c = (Inr (), c0)"
    and o0: "cl_out c0 = cl_out c @ map (\<lambda>i. DisconnectCalled i (fst ds)) (snd ds)" by blast
  have "cl_callbacks c0 = cl_callbacks c" using wiring_handle_case [of E now lid ev c] h by (simp add: wiring_def)
  then have "cl_out (dispatch (e_rng E) ev c0) = cl_out c0 @
      map (\<lambda>i. Called i ev) (e_rng E 11 (handlers_of (event_type ev) (cl_callbacks c)))"
    by (simp add: dispatch_def)
  then show ?thesis
    using h o0 by (simp add: handleEvent_cases count_other count_called visits_allD [OF assms(1)])
qed

section \<open>Closing is final\<close>

lemma closing_wiring: "wiring c1 = wiring c \<Longrightarrow> cl_closing c1 = cl_closing c"
  by (simp add: wiring_def)

lemma closing_handleEvent: "cl_closing (snd (handleEvent E now lid ev c)) = cl_closing c"
proof -
  obtain r c0 where h: "handle_case E now lid ev c = (r, c0)" by fastforce
  have "cl_closing c0 = cl_closing c" using wiring_handle_case [of E now lid ev c] h by (simp add: wiring_def)
  moreover have "cl_closing (dispatch (e_rng E) ev c0) = cl_closing c0" by (simp add: dispatch_def)
  ultimately show ?thesis by (cases r) (simp_all add: handleEvent_cases [OF h])
qed

lemma closing_with_sess [simp]: "cl_closing (snd (with_sess m c)) = cl_closing c"
  by (simp add: with_sess_def Let_def case_prod_beta split: option.split)

lemma closing_steps [simp]:
  "cl_closing (emit_effect e c) = cl_closing c" "cl_closing (start_life c) = cl_closing c"
  "cl_closing (autoRconLogin api c) = cl_closing c" "cl_closing (sendTimeoutCode api c) = cl_closing c"
  "cl_closing (fresh_state api now s c) = cl_closing c"
  by (simp_all add: emit_effect_def start_life_def autoRconLogin_def sendTimeoutCode_def fresh_state_def)

lemma closing_connect_session: "connect_session api now s c = (r, c1) \<Longrightarrow> cl_closing c1 = cl_closing c"
  by (auto simp: connect_session_def login_failed_def setErr_def go_live_def Let_def
      split: prod.splits sum.splits option.splits if_splits)

lemma closing_resolve: "resolve_version D c = (r, c1) \<Longrightarrow> cl_closing c1 = cl_closing c"
  by (auto simp: resolve_version_def split: if_splits sum.splits)

lemma closing_Connect: "Connect api D now c = (r, c1) \<Longrightarrow> cl_closing c1 = cl_closing c"
  by (auto simp: Connect_def Let_def dest!: closing_connect_session closing_resolve split: prod.splits sum.splits if_splits)

lemma closing_closeSession: "cl_closing (snd (closeSession api c)) = cl_closing c"
  by (simp add: closeSession_def Let_def split: option.split)

lemma closing_stays: "cl_closing c \<Longrightarrow> cl_closing (snd (run_op L api q c))"
proof (cases q)
  case (OpConnect D now)
  moreover assume "cl_closing c"
  ultimately show ?thesis using closing_Connect [of api D now c] by (cases "Connect api D now c") simp
next
  case (OpReconnect D now)
  moreover assume "cl_closing c"
  ultimately show ?thesis
    using closing_Connect [of api D now "snd (closeSession api c)"] closing_closeSession [of api c]
    by (cases "Connect api D now (snd (closeSession api c))") (simp add: Reconnect_def)
next
  case OpClose
  then show ?thesis
    using closing_closeSession [of api "c\<lparr>cl_closing := True, cl_closed := True\<rparr>"]
    by (simp add: CloseClient_def Let_def case_prod_beta)
qed (simp_all add: closing_handleEvent SendInput_def Do_def sendInputDirect_def SendRcon_def record_of_def Let_def
    split: prod.split option.split action.split)

lemma closing_no_reconnect:
  "cl_closing c \<Longrightarrow> life (snd (eventLoop E ts c)) = life c"
proof (induction ts arbitrary: c)
  case (Cons t ts)
  show ?case
  proof (cases t)
    case (LoopEvent now lid ev)
    obtain r c0 where h: "handleEvent E now lid ev c = (r, c0)" by fastforce
    then have "life c0 = life c" "cl_closing c0"
      using life_handleEvent [of E now lid ev c] closing_handleEvent [of E now lid ev c] Cons.prems by simp_all
    with h LoopEvent Cons.IH [of c0] show ?thesis by (cases r) simp_all
  next
    case LoopClosed
    with Cons.prems show ?thesis by (simp add: maybeAutoReconnect_def setErr_def life_def)
  qed simp
qed simp

lemma CloseClient_life:
  "cl_closing (snd (CloseClient api c)) \<and> life (snd (CloseClient api c)) =
     (False, False, filter lifecycle (cl_out c) @ (if cl_reader c then [ReaderStopped] else []) @
       (if cl_sess c \<noteq> None then [SessionClosed] else []))"
  by (simp add: CloseClient_def closeSession_def emit_effect_def life_def Let_def split_beta split: option.split)

text \<open>A client that was closed and connects again never starts the reconnect loop any more.\<close>

lemma reopened_never_reconnects:
  "count_list (cl_out (snd (eventLoop E ts (fold (\<lambda>q c. snd (run_op L api q c)) qs (snd (CloseClient api c)))))) ReconnectStarted =
   count_list (cl_out (fold (\<lambda>q c. snd (run_op L api q c)) qs (snd (CloseClient api c)))) ReconnectStarted"
proof -
  have f: "cl_closing x \<Longrightarrow> cl_closing (fold (\<lambda>q c. snd (run_op L api q c)) qs x)" for x
    by (induction qs arbitrary: x) (simp_all add: closing_stays)
  from closing_no_reconnect [OF f [OF conjunct1 [OF CloseClient_life]], of E ts] show ?thesis
    by (simp add: life_def) (metis count_lifecycle lifecycle_simps(5))
qed

fun connects_again :: "'s client_op \<Rightarrow> bool" where
  "connects_again (OpConnect D now) \<longleftrightarrow> True"
| "connects_again (OpReconnect D now) \<longleftrightarrow> True"
| "connects_again _ \<longleftrightarrow> False"

lemma closed_stays_closed:
  assumes "\<not> connects_again q" "life c = (False, False, es)"
  shows "life (snd (run_op L api q c)) = (False, False, es)"
proof (cases q)
  case OpClose
  then show ?thesis using assms(2) CloseClient_life [of api c] by (simp add: life_def)
qed (use assms in \<open>simp_all add: life_handleEvent life_SendInput life_Do life_RconSend\<close>)

text \<open>
  C11: Closing is final. \<open>Close\<close> stops the reader, if one runs, and closes the session, if there is
  one; whatever events, inputs, actions, rcon commands and further closes follow, and however the
  connection drops, from then on no session is dialled or closed, no reader starts or stops and no
  reconnect loop starts, until the user connects again.
\<close>

theorem close_is_final:
  assumes "list_all (\<lambda>q. \<not> connects_again q) qs"
  shows "life (snd (eventLoop E ts (fold (\<lambda>q c. snd (run_op L api q c)) qs (snd (CloseClient api c))))) =
    (False, False, filter lifecycle (cl_out c) @ (if cl_reader c then [ReaderStopped] else []) @
       (if cl_sess c \<noteq> None then [SessionClosed] else []))"
proof -
  have "cl_closing x \<and> life x = (False, False, es) \<Longrightarrow>
      cl_closing (fold (\<lambda>q c. snd (run_op L api q c)) qs x) \<and>
      life (fold (\<lambda>q c. snd (run_op L api q c)) qs x) = (False, False, es)" for x es
    using assms by (induction qs arbitrary: x) (simp_all add: closing_stays closed_stays_closed)
  from this [OF CloseClient_life] show ?thesis by (simp add: closing_no_reconnect)
qed

section \<open>Reconnecting\<close>

lemma identity_simps [simp]:
  "identity (emit_effect e c) = identity c" "identity (start_life c) = identity c" "identity (snd (with_sess m c)) = identity c"
  "identity (autoRconLogin api c) = identity c" "identity (sendTimeoutCode api c) = identity c"
  "identity (fresh_state api now s c) = identity c" "identity (setErr g c) = identity c"
  "identity (c\<lparr>cl_sess := x, cl_reader := b\<rparr>) = identity c" "identity (c\<lparr>cl_lastDisc := d\<rparr>) = identity c"
  "identity (c\<lparr>cl_version := v\<rparr>) = identity c" "identity (snd (closeSession api c)) = identity c"
  by (simp_all add: identity_def emit_effect_def start_life_def with_sess_def autoRconLogin_def sendTimeoutCode_def
      fresh_state_def setErr_def closeSession_def Let_def case_prod_beta split: option.split)

lemma identity_connect_session: "connect_session api now s c = (r, c1) \<Longrightarrow> identity c1 = identity c"
  by (auto simp: connect_session_def login_failed_def go_live_def Let_def
      split: prod.splits sum.splits option.splits if_splits)

lemma identity_resolve: "resolve_version D c = (r, c1) \<Longrightarrow> identity c1 = identity c"
  by (auto simp: resolve_version_def split: if_splits sum.splits)

lemma identity_Connect: "Connect api D now c = (r, c1) \<Longrightarrow> identity c1 = identity c"
  by (auto simp: Connect_def Let_def dest!: identity_connect_session identity_resolve
      split: prod.splits sum.splits if_splits)

lemma attempts_keep:
  assumes "\<And>s r s1. reconnect s = (r, s1) \<Longrightarrow> P s \<Longrightarrow> P s1"
  shows "reconnect_attempts nxt disc reconnect m n ws b s = (ds, e, s1) \<Longrightarrow> P s \<Longrightarrow> P s1"
proof (induction ws arbitrary: n b s ds e s1)
  case Nil
  then show ?case by (auto split: if_splits)
next
  case (Cons w ws)
  then show ?case using assms
    by (fastforce simp: Let_def split: if_splits prod.splits wake.splits sum.splits)
qed

text \<open>
  C10: A reconnect resumes the same player. Under a policy that resumes, the reconnect loop,
  however many attempts fail and whatever they meet, ends with the name, clan, skin, country,
  password and timeout code it began with, so that a server that kept the tee can give it back.
\<close>

theorem reconnect_keeps_identity:
  assumes "auto_reconnect api D now rnd16 ws b c = (ds, e, c1, n)" "rp_resumeWithTimeout (cl_policy c)"
  shows "identity c1 = identity c"
proof -
  have k: "reconnect_attempt api D now x = (r, y) \<Longrightarrow> identity (fst x) = identity c \<Longrightarrow> identity (fst y) = identity c" for x r y
    using identity_Connect by (cases x) (fastforce simp: reconnect_attempt_def Reconnect_def Let_def split: prod.splits)
  have "reconnect_attempts NextDelay (cl_lastDisc \<circ> fst) (reconnect_attempt api D now) (rp_maxAttempts (cl_policy c)) 0 ws
      (ResetDelay b) (c, 0) = (ds, e, c1, n)"
    using assms by (simp add: auto_reconnect_def reconnectLoop_def)
  from attempts_keep [where P = "\<lambda>x. identity (fst x) = identity c", OF k this] show ?thesis by simp
qed

section \<open>What a connection inherits\<close>

text \<open>A second \<open>Connect\<close> forgets the session the client had, with its reader.\<close>

lemma second_connect_leaks:
  assumes "balanced (life c)" "cl_sess c \<noteq> None" "Connect api D now c = (Inr u, c1)"
  shows "\<not> balanced (life c1) \<and>
    count_list (cl_out c1) Dialed = count_list (cl_out c1) SessionClosed + 2"
proof -
  have h: "fst (life c)" "count_list (snd (snd (life c))) Dialed = count_list (snd (snd (life c))) SessionClosed + 1"
    using assms(1,2) by (auto simp: life_def balanced_def)
  have "cl_sess c1 \<noteq> None \<and> snd (snd (life c1)) = snd (snd (life c)) @ [Dialed, ReaderStarted]"
  proof -
    have g: "life (go_live api now s x) = (True, True, filter lifecycle (cl_out x) @ [ReaderStarted])" for s x
      by (rule life_go_live)
    have r: "resolve_version D c = (v, c2) \<Longrightarrow> filter lifecycle (cl_out c2) = filter lifecycle (cl_out c)" for v c2
      using life_resolve [of D c] by (simp add: life_def)
    have s: "filter lifecycle (cl_out (emit_effect Dialed (start_life c2))) = filter lifecycle (cl_out c2) @ [Dialed]" for c2 :: "'a client"
      using life_start [of c2] by (simp add: life_def emit_effect_def)
    obtain c2 s0 where "resolve_version D c = (Inr (), c2)"
      "connect_session api now s0 (emit_effect Dialed (start_life c2)) = (Inr (), c1)"
      using assms(3) by (auto simp: Connect_def Let_def split: prod.splits sum.splits)
    moreover from this(2) obtain s2 where "c1 = go_live api now s2 (emit_effect Dialed (start_life c2))"
      by (auto simp: connect_session_def login_failed_def split: prod.splits sum.splits option.splits if_splits)
    ultimately have "life c1 = (True, True, (filter lifecycle (cl_out c) @ [Dialed]) @ [ReaderStarted])"
      using g r s by simp
    then show ?thesis by (simp add: life_def)
  qed
  moreover have "count_list (cl_out c1) e = count_list (snd (snd (life c1))) e" if "lifecycle e" for e
    using that by (simp add: life_def count_lifecycle)
  ultimately show ?thesis using h by (auto simp: balanced_def life_def)
qed

definition map_state :: "'s client \<Rightarrow> map_view option \<times> collision option \<times> predicted_world option" where
  "map_state c = (p_mapView (cl_pred c), predCol (cl_pred c), predWorld (cl_pred c))"

lemma map_state_simps [simp]:
  "map_state (emit_effect e c) = map_state c" "map_state (start_life c) = map_state c" "map_state (snd (with_sess m c)) = map_state c"
  "map_state (autoRconLogin api c) = map_state c" "map_state (sendTimeoutCode api c) = map_state c"
  "map_state (fresh_state api now s c) = map_state c" "map_state (setErr g c) = map_state c"
  "map_state (c\<lparr>cl_sess := x, cl_reader := b\<rparr>) = map_state c" "map_state (c\<lparr>cl_lastDisc := d\<rparr>) = map_state c"
  "map_state (c\<lparr>cl_version := v\<rparr>) = map_state c" "map_state (snd (closeSession api c)) = map_state c"
  by (simp_all add: map_state_def emit_effect_def start_life_def with_sess_def autoRconLogin_def sendTimeoutCode_def
      fresh_state_def setErr_def closeSession_def Let_def case_prod_beta split: option.split)

text \<open>
  A reconnect keeps the view, the collision and the predicted world of the connection before, also
  when the new session plays another map.
\<close>

lemma reconnect_keeps_old_map: "Reconnect api D now c = (r, c1) \<Longrightarrow> map_state c1 = map_state c"
proof -
  have s: "connect_session api now s x = (q, y) \<Longrightarrow> map_state y = map_state x" for s x q y
    by (auto simp: connect_session_def login_failed_def go_live_def Let_def
        split: prod.splits sum.splits option.splits if_splits)
  have v: "resolve_version D x = (q, y) \<Longrightarrow> map_state y = map_state x" for x q y
    by (auto simp: resolve_version_def split: if_splits sum.splits)
  have "Connect api D now x = (q, y) \<Longrightarrow> map_state y = map_state x" for x q y
    by (auto simp: Connect_def Let_def dest!: s v split: prod.splits sum.splits if_splits)
  then show "Reconnect api D now c = (r, c1) \<Longrightarrow> ?thesis" by (fastforce simp: Reconnect_def)
qed

text \<open>The events a snapshot derives are not among those a tick drains.\<close>

lemma derived_events_not_drained:
  "handleEvent E now lid (Core (EventSnapshot snap)) c = (r, c1) \<Longrightarrow> cl_tickEvents c1 = cl_tickEvents c"
  using wiring_handle_case [of E now lid "Core (EventSnapshot snap)" c]
  by (cases "handle_case E now lid (Core (EventSnapshot snap)) c")
    (auto simp: handleEvent_cases wiring_def split: sum.splits)

section \<open>Samples\<close>

text \<open>A session that answers everything, and a client that is given it.\<close>

definition quiet_api :: "unit session_api" where
  "quiet_api = \<lparr>se_Login = (\<lambda>_ _ _. ret ()), se_Capabilities = (\<lambda>_. no_capabilities), se_LocalID = (\<lambda>_. -1),
     se_Close = ret (), se_StartReader = (\<lambda>s. s), se_DownloadMap = ret (), se_Map = (\<lambda>_. Some []), se_MapName = (\<lambda>_. []),
     se_SendInput = (\<lambda>_ _ _ _. ret ()), se_SendChat = (\<lambda>_. ret ()), se_SendChatTeam = (\<lambda>_ _. ret ()),
     se_SendWhisper = (\<lambda>_ _. ret ()), se_SendKill = ret (), se_SendRconAuth = (\<lambda>_. ret ()), se_SendRconCmd = (\<lambda>_. ret ()),
     se_SendEmoticon = (\<lambda>_. ret ()), se_SendSetTeam = (\<lambda>_. ret ()), se_SendSpectate = (\<lambda>_. ret ()),
     se_SendVote = (\<lambda>_. ret ()), se_SendCallVote = (\<lambda>_ _ _. ret ())\<rparr>"

definition quiet_dialer :: "unit dialer" where
  "quiet_dialer = \<lparr>di_detect = Inr Version06, di_sessionFn = Inr (), di_new06 = Inr (), di_new07 = Inr ()\<rparr>"

definition ascending :: go_range where "ascending = (\<lambda>n S. sorted_list_of_fset S)"

lemma ascending_visits: "visits_all ascending"
  by (simp add: visits_all_def ascending_def sorted_list_of_fset.rep_eq)

definition quiet_env :: "unit env" where
  "quiet_env = \<lparr>e_api = quiet_api, e_rng = ascending, e_md5 = (\<lambda>b. b), e_pow = (\<lambda>_ _. 1), e_lib = small_lib\<rparr>"

definition fresh :: "unit client" where "fresh = base_client"

lemma quiet_connects: "fst (Connect quiet_api quiet_dialer 0 fresh) = Inr ()"
  by (simp add: Connect_def resolve_version_def fresh_def base_client_def quiet_dialer_def dialSession_def newSession_def
      start_life_def emit_effect_def connect_session_def quiet_api_def ret_def VersionAuto_def Version06_def Let_def)

lemma fresh_run: "client_run wire_lib quiet_api (snd (Connect quiet_api quiet_dialer 0 fresh))"
proof (rule client_run.step)
  show "client_run wire_lib quiet_api fresh"
    by (rule client_run.start) (simp_all add: fresh_def base_client_def)
  show "run_op wire_lib quiet_api (OpConnect quiet_dialer 0) fresh =
      (Inr (), snd (Connect quiet_api quiet_dialer 0 fresh))"
    using quiet_connects by (metis prod.collapse run_op.simps(1))
  show "cl_sess fresh = None" by (simp add: fresh_def base_client_def)
qed simp

lemma quiet_connect_life: "life (snd (Connect quiet_api quiet_dialer 0 fresh)) = (True, True, [Dialed, ReaderStarted])"
  by (simp add: Connect_def resolve_version_def fresh_def base_client_def quiet_dialer_def dialSession_def newSession_def
      start_life_def emit_effect_def connect_session_def quiet_api_def ret_def VersionAuto_def Version06_def Let_def life_go_live)

theorem close_is_final_witness:
  "life (snd (eventLoop quiet_env [LoopClosed] (fold (\<lambda>q c. snd (run_op wire_lib quiet_api q c)) [OpRcon [], OpClose]
      (snd (CloseClient quiet_api (snd (Connect quiet_api quiet_dialer 0 fresh))))))) =
   (False, False, [Dialed, ReaderStarted, ReaderStopped, SessionClosed])"
proof -
  let ?c = "snd (Connect quiet_api quiet_dialer 0 fresh)"
  have "list_all (\<lambda>q. \<not> connects_again q) [OpRcon [], OpClose]" by simp
  from close_is_final [OF this, of quiet_env "[LoopClosed]" wire_lib quiet_api ?c] quiet_connect_life
  show ?thesis by (simp add: life_def)
qed

theorem no_session_leaks_witness:
  "count_list (cl_out (snd (Connect quiet_api quiet_dialer 0 fresh))) Dialed =
   count_list (cl_out (snd (Connect quiet_api quiet_dialer 0 fresh))) SessionClosed +
   of_bool (cl_sess (snd (Connect quiet_api quiet_dialer 0 fresh)) \<noteq> None)"
  using no_session_leaks [OF fresh_run] by simp

theorem tick_events_complete_witness:
  "fst (drainTickEvents (snd (eventLoop quiet_env [LoopEvent 7 0 (Chat (EventBroadcast [65]))] fresh))) =
     [Chat (EventBroadcast [65])]"
proof -
  have "fst (eventLoop quiet_env [LoopEvent 7 0 (Chat (EventBroadcast [65]))] fresh) = None"
    by (simp add: handleEvent_def handle_case_def bnd_def Let_def)
  then have "eventLoop quiet_env (map (\<lambda>(now, lid, ev). LoopEvent now lid ev) [(7, 0, Chat (EventBroadcast [65]))]) fresh =
      (None, snd (eventLoop quiet_env [LoopEvent 7 0 (Chat (EventBroadcast [65]))] fresh))"
    by (simp add: prod_eq_iff)
  from tick_events_complete [OF this] show ?thesis by (simp add: fresh_def base_client_def)
qed

theorem callbacks_called_once_witness:
  "\<exists>c1. handleEvent quiet_env 0 0 (Chat (EventBroadcast [65])) (snd (On (event_type (Chat (EventBroadcast [65]))) fresh)) = (Inr (), c1) \<and>
     count_list (cl_out c1) (Called 0 (Chat (EventBroadcast [65]))) = 1"
proof -
  have v: "visits_all (e_rng quiet_env)" by (simp add: quiet_env_def ascending_visits)
  have "0 |\<in>| handlers_of (event_type (Chat (EventBroadcast [65]))) (cl_callbacks (snd (On (event_type (Chat (EventBroadcast [65]))) fresh)))"
    "cl_out (snd (On (event_type (Chat (EventBroadcast [65]))) fresh)) = []"
    by (simp_all add: On_def register_def handlers_of_def fresh_def base_client_def no_callbacks_def)
  with callbacks_called_once [OF v, of "Chat (EventBroadcast [65])" 0 0
      "snd (On (event_type (Chat (EventBroadcast [65]))) fresh)"] show ?thesis
    by auto
qed

theorem reconnect_keeps_identity_witness:
  "identity (fst (snd (snd (auto_reconnect quiet_api (\<lambda>_. quiet_dialer) 0 None [TimerFired False] DefaultBackoff fresh)))) =
   identity fresh"
proof -
  obtain ds e c1 n where a: "auto_reconnect quiet_api (\<lambda>_. quiet_dialer) 0 None [TimerFired False] DefaultBackoff fresh = (ds, e, c1, n)"
    by (metis prod_cases4)
  from reconnect_keeps_identity [OF a] show ?thesis
    by (simp add: a) (simp add: fresh_def base_client_def DefaultReconnectPolicy_def)
qed

text \<open>A 0.6 server that lets the client in, its map in the cache.\<close>

definition joining6 :: "tw_map session6" where
  "joining6 = \<lparr>inbox = inbox joining_session6, outbox = [], send_faults = [], clock = 0, s_clientToken = [1, 2, 3, 4],
      s_serverToken = [5, 6, 7, 8], s_ack = 0, s_sequence = 0, s_lastAckedSnap = 0,
      s_mapInfo = s_mapInfo joining_session6, s_parsed = None, s_caps = no_capabilities,
      s_snaps = NewSnapStorage (Some SnapItemSize6) [], s_dfbuf = [], s_snapAssembly = None,
      s_eventCh = [], s_chanCap = DefaultEventChanSize, s6_securityToken = SecurityTokenUnknown\<rparr>"

definition joining_env :: sess_env where
  "joining_env = \<lparr>sv_huff = plain_huffman, sv_varint = wire_lib, sv_md5 = (\<lambda>b. b), sv_rnd = [], sv_parse = (\<lambda>_. Inr []),
     sv_wake = (\<lambda>_ c. c), sv_http = None, sv_storage = 0, sv_chan = 0\<rparr>"

definition joiner :: "sess6 client" where
  "joiner = base_client\<lparr>cl_version := Version06, cl_requireMap := True, cl_name := [97]\<rparr>"

definition joined6 :: "(goerr + unit) \<times> tw_map session6" where
  "joined6 = Login6 plain_huffman wire_lib (\<lambda>b. b) [] [97] []
     [Some (WithLoginSkin DefaultSkin), Some (WithLoginCountry DefaultCountry)] joining6"

definition cached :: "tw_map map_cache" where
  "cached = PutMap (cache_key (s_mapInfo (snd joined6))) [] NewMapCache"

definition join_dialer :: "sess6 dialer" where
  "join_dialer = \<lparr>di_detect = Inr 0, di_sessionFn = Inr (joining6, Some cached), di_new06 = Inr (joining6, Some cached),
     di_new07 = Inr (joining6, None)\<rparr>"

lemma joined6_ok: "fst joined6 = Inr ()" "Name (s_mapInfo (snd joined6)) \<noteq> []"
  by code_simp+

lemma cached_hit: "cache_lookup (\<lambda>_ c. c) (cache_key (s_mapInfo (snd joined6))) (Some cached) = (Some [], Some cached)"
  by (simp add: cache_lookup_def GetOrWait_def cached_def PutMap_def NewMapCache_def close_pending_def)

lemma joiner_connects: "fst (Connect (api6 joining_env) join_dialer 0 joiner) = Inr ()"
proof -
  have l: "se_Login (api6 joining_env) [97] [] [Some (WithLoginSkin DefaultSkin), Some (WithLoginCountry DefaultCountry)]
      (joining6, Some cached) = (Inr (), (snd joined6, Some cached))"
    using joined6_ok(1) by (simp add: api6_def joining_env_def on_session_def joined6_def [symmetric] Let_def case_prod_beta)
  have d: "fst (se_DownloadMap (api6 joining_env) (snd joined6, Some cached)) = Inr ()"
    using joined6_ok(2) cached_hit by (simp add: api6_def joining_env_def forget_def DownloadMap6_def Let_def)
  have "login_options (emit_effect Dialed (start_life joiner)) =
      [Some (WithLoginSkin DefaultSkin), Some (WithLoginCountry DefaultCountry)]"
    by (simp add: login_options_def joiner_def base_client_def start_life_def emit_effect_def)
  moreover have "cl_name (emit_effect Dialed (start_life joiner)) = [97]" "cl_clan (emit_effect Dialed (start_life joiner)) = []"
    by (simp_all add: joiner_def base_client_def start_life_def emit_effect_def)
  ultimately have "fst (connect_session (api6 joining_env) 0 (joining6, Some cached) (emit_effect Dialed (start_life joiner))) = Inr ()"
    using l d by (cases "se_DownloadMap (api6 joining_env) (snd joined6, Some cached)") (simp add: connect_session_def)
  then show ?thesis
    by (cases "connect_session (api6 joining_env) 0 (joining6, Some cached) (emit_effect Dialed (start_life joiner))")
      (simp add: Connect_def resolve_version_def joiner_def base_client_def VersionAuto_def Version06_def dialSession_def
        newSession_def join_dialer_def start_life_def Let_def)
qed

theorem required_map_present6_witness:
  "HasMap (api6 joining_env) (snd (Connect (api6 joining_env) join_dialer 0 joiner))"
proof -
  have "Connect (api6 joining_env) join_dialer 0 joiner = (Inr (), snd (Connect (api6 joining_env) join_dialer 0 joiner))"
    using joiner_connects by (simp add: prod_eq_iff)
  from required_map_present6 [OF this] show ?thesis by (simp add: joiner_def)
qed

text \<open>A 0.6 server that accepts the connection, sends its map and then says it is full.\<close>

definition full_session6 :: "tw_map session6" where
  "full_session6 = joining6\<lparr>inbox := take 3 (inbox joining6) @
     [(3, Arrive (BuildCtrlPacketNoToken 0 (byte_of MsgCtrlClose6 # bytes_of ''full'' @ [9, 9, 9, 9])))]\<rparr>"

definition full_dialer :: "sess6 dialer" where
  "full_dialer = \<lparr>di_detect = Inr 0, di_sessionFn = Inr (full_session6, None), di_new06 = Inr (full_session6, None),
     di_new07 = Inr (full_session6, None)\<rparr>"

lemma full_accepts:
  "fst (Handshake6 full_session6) = Inr ()" "send_faults (snd (Handshake6 full_session6)) = []"
  "inbox (snd (Handshake6 full_session6)) = take 2 (drop 1 (inbox full_session6)) @
     (3, Arrive (BuildCtrlPacketNoToken 0 (byte_of MsgCtrlClose6 # bytes_of ''full'' @ [9, 9, 9, 9]))) # []"
  "list_all (undecided plain_huffman (snd (Handshake6 full_session6))) (take 2 (drop 1 (inbox full_session6)))"
  "close_of plain_huffman (snd (Handshake6 full_session6))
     (BuildCtrlPacketNoToken 0 (byte_of MsgCtrlClose6 # bytes_of ''full'' @ [9, 9, 9, 9])) = Some (bytes_of ''full'')"
  by code_simp+

theorem rejected_login_reported_witness:
  "cl_lastDisc (snd (Connect (api6 joining_env) full_dialer 0 joiner)) = NewDisconnectReason (bytes_of ''full'')"
proof -
  have h: "sv_huff joining_env = plain_huffman" by (simp add: joining_env_def)
  have r: "resolve_version full_dialer joiner = (Inr (), joiner)"
    by (simp add: resolve_version_def joiner_def base_client_def VersionAuto_def Version06_def)
  have d: "dialSession full_dialer (start_life joiner) = Inr (full_session6, None)"
    by (simp add: dialSession_def newSession_def full_dialer_def joiner_def base_client_def start_life_def)
  have s: "Handshake6 full_session6 = (Inr (), snd (Handshake6 full_session6))"
    using full_accepts(1) by (metis prod.collapse)
  from rejected_login_reported [OF r d s full_accepts(2,3), where V = joining_env and raw = "bytes_of ''full''" and now = 0,
      unfolded h, OF full_accepts(4,5)]
  show ?thesis by auto
qed

end
