(* ===== verification/Opening.thy ===== *)
theory Opening
  imports ClientRuns
begin

text \<open>
  How a session comes about: the dial options and \<open>Dial\<close> of network/conn.go, the session options and
  \<open>NewSession\<close> of net6/session.go and net7/session.go, and \<open>newSession\<close> of client/client.go, which turns
  a client's configuration into session options. Resolving and opening an address is the parameter
  \<open>udp\<close>, the random token an argument. Loggers and the progress callback are left out.
\<close>

section \<open>Dialling\<close>

definition DefaultReadTimeout :: int where "DefaultReadTimeout = 100 * second"
definition DefaultReadBufferSize :: int where "DefaultReadBufferSize = 2 * 1024 * 1024"

record conn_config =
  cc_readTimeout :: int
  cc_writeTimeout :: int
  cc_readBufferSize :: int

definition WithReadTimeout :: "int \<Rightarrow> conn_config \<Rightarrow> conn_config" where
  "WithReadTimeout d c = c\<lparr>cc_readTimeout := d\<rparr>"
definition WithWriteTimeout :: "int \<Rightarrow> conn_config \<Rightarrow> conn_config" where
  "WithWriteTimeout d c = c\<lparr>cc_writeTimeout := d\<rparr>"
definition WithSocketBufferSize :: "int \<Rightarrow> conn_config \<Rightarrow> conn_config" where
  "WithSocketBufferSize n c = (if n > 0 then c\<lparr>cc_readBufferSize := n\<rparr> else c)"

text \<open>Options are applied in order; a nil option is ignored.\<close>

definition apply_options :: "('o \<Rightarrow> 'o) option list \<Rightarrow> 'o \<Rightarrow> 'o" where
  "apply_options opts c = foldl (\<lambda>c opt. case opt of None \<Rightarrow> c | Some f \<Rightarrow> f c) c opts"

lemma apply_options_simps [simp]:
  "apply_options [] c = c"
  "apply_options (None # opts) c = apply_options opts c"
  "apply_options (Some f # opts) c = apply_options opts (f c)"
  by (simp_all add: apply_options_def)

text \<open>
  \<open>net.ResolveUDPAddr\<close> and \<open>net.DialUDP\<close>; the connection is the script of what will happen on it.
\<close>

record 'a udp =
  udp_resolve :: "byte list \<Rightarrow> goerr + 'a"
  udp_dial :: "'a \<Rightarrow> goerr + conn_state"

definition Dial ::
    "'a udp \<Rightarrow> byte list \<Rightarrow> (conn_config \<Rightarrow> conn_config) option list \<Rightarrow> goerr + conn_state \<times> conn_config" where
  "Dial net address opts =
     (case udp_resolve net address of
        Inl e \<Rightarrow> Inl (wrap_err ''dial: resolve %q: %w'' (map uint address) e)
      | Inr addr \<Rightarrow>
          (case udp_dial net addr of
             Inl e \<Rightarrow> Inl (wrap_err ''dial: dial %q: %w'' (map uint address) e)
           | Inr conn \<Rightarrow>
               Inr (conn, apply_options opts
                      \<lparr>cc_readTimeout = DefaultReadTimeout, cc_writeTimeout = DefaultReadTimeout,
                       cc_readBufferSize = DefaultReadBufferSize\<rparr>)))"

section \<open>Session options\<close>

text \<open>Only a 0.6 session can download maps over HTTP.\<close>

record 'm session_options =
  so_mapCache :: "'m map_cache"
  so_snapStorageSize :: int
  so_eventChanSize :: int
  so_readBufferSize :: int

record 'm session_options6 = "'m session_options" +
  so_mapDownloadURL :: "byte list"

definition WithSharedCache ::
    "'m map_cache option \<Rightarrow> ('m, 'z) session_options_scheme \<Rightarrow> ('m, 'z) session_options_scheme" where
  "WithSharedCache cache o1 = (case cache of None \<Rightarrow> o1 | Some c \<Rightarrow> o1\<lparr>so_mapCache := c\<rparr>)"
definition WithStorageSize ::
    "int \<Rightarrow> ('m, 'z) session_options_scheme \<Rightarrow> ('m, 'z) session_options_scheme" where
  "WithStorageSize n o1 = o1\<lparr>so_snapStorageSize := n\<rparr>"
definition WithChanSize ::
    "int \<Rightarrow> ('m, 'z) session_options_scheme \<Rightarrow> ('m, 'z) session_options_scheme" where
  "WithChanSize n o1 = o1\<lparr>so_eventChanSize := n\<rparr>"
definition WithBufferSize ::
    "int \<Rightarrow> ('m, 'z) session_options_scheme \<Rightarrow> ('m, 'z) session_options_scheme" where
  "WithBufferSize n o1 = o1\<lparr>so_readBufferSize := n\<rparr>"
definition WithDownloadURL :: "byte list \<Rightarrow> 'm session_options6 \<Rightarrow> 'm session_options6" where
  "WithDownloadURL base o1 = o1\<lparr>so_mapDownloadURL := base\<rparr>"

definition base_options :: "'m session_options" where
  "base_options = \<lparr>so_mapCache = NewMapCache, so_snapStorageSize = 0, so_eventChanSize = 0, so_readBufferSize = 0\<rparr>"

definition base_options6 :: "'m session_options6" where
  "base_options6 = session_options.extend base_options \<lparr>so_mapDownloadURL = []\<rparr>"

section \<open>New sessions\<close>

text \<open>
  The parts of a session that are zero at first. Before \<open>StartReader\<close> the reader has neither channel
  nor storage; the model holds an empty queue and an empty storage in their places.
\<close>

definition blank_session :: "conn_state \<Rightarrow> byte list \<Rightarrow> 'm session" where
  "blank_session conn token =
     conn_state.extend conn
       \<lparr>s_clientToken = token, s_serverToken = [0, 0, 0, 0], s_ack = 0, s_sequence = 0, s_lastAckedSnap = 0,
        s_mapInfo = \<lparr>Name = [], CRC = 0, MSize = 0, NumChunksPerRequest = 0, Sha256 = replicate 32 0\<rparr>, s_parsed = None,
        s_caps = no_capabilities, s_snaps = NewSnapStorage None [], s_dfbuf = [], s_snapAssembly = None,
        s_eventCh = [], s_chanCap = 0\<rparr>"

text \<open>
  The result is the session with the map cache it uses, and the options it keeps in its fields.
  \<open>token\<close> is \<open>packet.RandomToken()\<close>.
\<close>

definition NewSession6 ::
    "'a udp \<Rightarrow> byte list \<Rightarrow> byte list \<Rightarrow> ('m session_options6 \<Rightarrow> 'm session_options6) option list \<Rightarrow>
     goerr + ('m session6 \<times> 'm map_cache option) \<times> 'm session_options6" where
  "NewSession6 net token address opts =
     (let o1 = apply_options opts base_options6 in
      case Dial net address [Some (WithSocketBufferSize (so_readBufferSize o1))] of
        Inl e \<Rightarrow> Inl e
      | Inr (conn, _) \<Rightarrow>
          Inr ((session.extend (blank_session conn token) \<lparr>s6_securityToken = SecurityTokenUnknown\<rparr>,
                Some (so_mapCache o1)), o1))"

definition NewSession7 ::
    "'a udp \<Rightarrow> byte list \<Rightarrow> byte list \<Rightarrow> ('m session_options \<Rightarrow> 'm session_options) option list \<Rightarrow>
     goerr + ('m session7 \<times> 'm map_cache option) \<times> 'm session_options" where
  "NewSession7 net token address opts =
     (let o1 = apply_options opts base_options in
      case Dial net address [Some (WithSocketBufferSize (so_readBufferSize o1))] of
        Inl e \<Rightarrow> Inl e
      | Inr (conn, _) \<Rightarrow>
          Inr ((session.extend (blank_session conn token) \<lparr>s7_localClientID = -1, s7_loginMapData = []\<rparr>,
                Some (so_mapCache o1)), o1))"

section \<open>The session of a client\<close>

text \<open>\<open>newSession\<close>, by version; \<open>cache\<close> is \<open>c.mapCache\<close>. The 0.7 session is not given it.\<close>

definition client_options6 ::
    "'m map_cache option \<Rightarrow> 's client \<Rightarrow> ('m session_options6 \<Rightarrow> 'm session_options6) option list" where
  "client_options6 cache c =
     [Some (WithSharedCache cache), Some (WithStorageSize (cl_snapStorageSize c)),
      Some (WithChanSize (cl_eventChanSize c)), Some (WithBufferSize (cl_readBufferSize c)),
      Some (WithDownloadURL (cl_mapDownloadURL c))]"

definition client_options7 ::
    "'s client \<Rightarrow> ('m session_options \<Rightarrow> 'm session_options) option list" where
  "client_options7 c =
     [Some (WithStorageSize (cl_snapStorageSize c)), Some (WithChanSize (cl_eventChanSize c)),
      Some (WithBufferSize (cl_readBufferSize c))]"

section \<open>What a new session is\<close>

lemma NewSession6_Inr:
  "NewSession6 net token address opts = Inr ((s, c), o1) \<Longrightarrow>
     (\<exists>conn. s = session.extend (blank_session conn token) \<lparr>s6_securityToken = SecurityTokenUnknown\<rparr>) \<and>
     c = Some (so_mapCache o1) \<and> o1 = apply_options opts base_options6"
  by (auto simp: NewSession6_def Let_def split: sum.splits)

lemma NewSession7_Inr:
  "NewSession7 net token address opts = Inr ((s, c), o1) \<Longrightarrow>
     (\<exists>conn. s = session.extend (blank_session conn token) \<lparr>s7_localClientID = -1, s7_loginMapData = []\<rparr>) \<and>
     c = Some (so_mapCache o1) \<and> o1 = apply_options opts base_options"
  by (auto simp: NewSession7_def Let_def split: sum.splits)

lemmas new_session = blank_session_def session.defs conn_state.defs

text \<open>
  The base case of the sessions' type invariant: a new session is well typed, and stays so from then
  on; it owns no server token, no snapshot acknowledged, no security token.
\<close>

lemma new_session6_typed:
  assumes "NewSession6 net token address opts = Inr ((s, c), o1)" and "length token = 4"
  shows "typed s" and "\<not> HasSecurityToken s" and "s_lastAckedSnap s = 0"
  using NewSession6_Inr [OF assms(1)] assms(2)
  by (auto simp: typed_def new_session MaxSequence_def HasSecurityToken_def)

lemma new_session7_typed:
  assumes "NewSession7 net token address opts = Inr ((s, c), o1)" and "length token = 4"
  shows "typed s" and "s7_localClientID s = -1" and "s_lastAckedSnap s = 0"
  using NewSession7_Inr [OF assms(1)] assms(2)
  by (auto simp: typed_def new_session MaxSequence_def)

lemma new_session6_lives:
  assumes "NewSession6 net token address opts = Inr ((s, c), o1)" and "length token = 4"
    and "(live6 L H md5)\<^sup>*\<^sup>* (StartReader6 (so_snapStorageSize o1) (so_eventChanSize o1) s) s'"
  shows "typed s'"
proof (rule run6_typed [OF assms(3)])
  show "typed (StartReader6 (so_snapStorageSize o1) (so_eventChanSize o1) s)"
    using new_session6_typed(1) [OF assms(1,2)] by (simp add: typed_def StartReader6_def)
qed

text \<open>Whatever sizes the options ask for, the storage and the channel of the reader can hold something.\<close>

lemma reader_sizes:
  "MinMaxSnaps \<le> MaxSnaps (s_snaps (StartReader6 n k s))" "0 < s_chanCap (StartReader6 n k s)"
  "MinMaxSnaps \<le> MaxSnaps (s_snaps (StartReader7 n k s'))" "0 < s_chanCap (StartReader7 n k s')"
  by (simp_all add: StartReader6_def StartReader7_def NewSnapStorage_def WithMaxSnaps_def
      MinMaxSnaps_def DefaultMaxSnaps_def eventChanSizeOrDefault_def DefaultEventChanSize_def)

section \<open>What reaches the session of a client\<close>

lemma client_configures6:
  "apply_options (client_options6 cache c) base_options6 =
     \<lparr>so_mapCache = (case cache of None \<Rightarrow> NewMapCache | Some m \<Rightarrow> m), so_snapStorageSize = cl_snapStorageSize c,
      so_eventChanSize = cl_eventChanSize c, so_readBufferSize = cl_readBufferSize c,
      so_mapDownloadURL = cl_mapDownloadURL c\<rparr>"
  by (simp add: client_options6_def base_options6_def base_options_def session_options.defs WithSharedCache_def
      WithStorageSize_def WithChanSize_def WithBufferSize_def WithDownloadURL_def split: option.split)

lemma client_configures7:
  "apply_options (client_options7 c) base_options =
     \<lparr>so_mapCache = NewMapCache, so_snapStorageSize = cl_snapStorageSize c,
      so_eventChanSize = cl_eventChanSize c, so_readBufferSize = cl_readBufferSize c\<rparr>"
  by (simp add: client_options7_def base_options_def WithStorageSize_def WithChanSize_def WithBufferSize_def)

text \<open>
  A 0.6 session of a client shares the client's map cache. A 0.7 session has a cache of its own: what
  other clients downloaded it does not see.
\<close>

lemma client_cache6:
  assumes "NewSession6 net token address (client_options6 (Some m) c) = Inr ((s, cache), o1)"
  shows "cache = Some m"
  using NewSession6_Inr [OF assms] by (simp add: client_configures6)

lemma client_cache_unused7:
  assumes "NewSession7 net token address (client_options7 c) = Inr ((s, cache), o1)"
  shows "cache = Some NewMapCache" and "GetCached key NewMapCache = None"
  using NewSession7_Inr [OF assms]
  by (simp_all add: client_configures7 GetCached_def NewMapCache_def)

end
