(* ===== verification/ServerInfo.thy ===== *)
theory ServerInfo
  imports Packer Headers GoStrings
begin

text \<open>
  packet/serverinfo.go, net6/connless.go and net7/connless.go: the info a server tells without a
  session. A 0.6 reply holds every number as a decimal string, a 0.7 reply as a varint. The
  definitions of the two packages have the same names; the suffix is the protocol.
\<close>

section \<open>Results\<close>

definition ServerInfoFlagPassword :: int where "ServerInfoFlagPassword = 1"

record player_info =
  pl_Name :: "byte list"
  pl_Clan :: "byte list"
  pl_Country :: int
  pl_Score :: int
  pl_IsPlayer :: bool

record server_info =
  si_Name :: "byte list"
  si_GameType :: "byte list"
  si_MapName :: "byte list"
  si_Passworded :: bool
  si_NumPlayers :: int
  si_NumClients :: int
  si_MaxPlayers :: int
  si_MaxClients :: int
  si_Clients :: "player_info list"

definition ServerBrowseGetInfo :: "byte list" where
  "ServerBrowseGetInfo = [255, 255, 255, 255] @ bytes_of ''gie3''"

definition ServerBrowseInfo :: "byte list" where
  "ServerBrowseInfo = [255, 255, 255, 255] @ bytes_of ''inf3''"

section \<open>Framing\<close>

definition connlessPrefix :: nat where "connlessPrefix = 6"

definition BuildInfoRequestConnless6 :: "byte \<Rightarrow> byte list" where
  "BuildInfoRequestConnless6 reqToken = (replicate connlessPrefix 0xff @ ServerBrowseGetInfo) @ [reqToken]"

definition info_payload :: "nat \<Rightarrow> byte list \<Rightarrow> byte list option" where
  "info_payload n datagram =
     (if length datagram < n + length ServerBrowseInfo then None
      else
        (let body = drop n datagram in
         if take (length ServerBrowseInfo) body \<noteq> ServerBrowseInfo then None
         else Some (drop (length ServerBrowseInfo) body)))"

definition ConnlessInfoPayload6 :: "byte list \<Rightarrow> byte list option" where
  "ConnlessInfoPayload6 = info_payload connlessPrefix"

definition ConnlessInfoPayload7 :: "byte list \<Rightarrow> byte list option" where
  "ConnlessInfoPayload7 = info_payload HeaderSizeConnless7"

definition connless_header7 :: "byte list \<Rightarrow> byte list \<Rightarrow> header7" where
  "connless_header7 serverToken clientToken =
     \<lparr>h7_flags = \<lparr>f7_connless = True, f7_compression = False, f7_resend = False, f7_control = False\<rparr>,
      h7_ack = 0, h7_num_chunks = 0, h7_token = serverToken, h7_response_token = clientToken\<rparr>"

definition BuildInfoRequestConnless7 :: "varint_lib \<Rightarrow> byte list \<Rightarrow> byte list \<Rightarrow> int \<Rightarrow> byte list" where
  "BuildInfoRequestConnless7 L serverToken clientToken reqToken =
     (header7_pack (connless_header7 serverToken clientToken) @ ServerBrowseGetInfo) @ PackInt L reqToken"

text \<open>\<open>MsgCtrlToken\<close> is 5; the header the reply is unpacked into starts out zero.\<close>

definition ParseTokenResponse :: "byte list \<Rightarrow> byte list option" where
  "ParseTokenResponse datagram =
     (let hdr0 = \<lparr>h7_flags = \<lparr>f7_connless = False, f7_compression = False, f7_resend = False, f7_control = False\<rparr>,
                  h7_ack = 0, h7_num_chunks = 0, h7_token = replicate 4 0, h7_response_token = replicate 4 0\<rparr> in
      case header7_unpack hdr0 datagram of
        (Some e, hdr) \<Rightarrow> None
      | (None, hdr) \<Rightarrow>
          if \<not> f7_control (h7_flags hdr) \<or> length datagram < 12 \<or> datagram ! 7 \<noteq> 5 then None
          else Some (take 4 (drop 8 datagram)))"

section \<open>Bodies\<close>

text \<open>\<open>x, _ := f()\<close>: the zero value when the read fails.\<close>

definition ignoring :: "'a \<Rightarrow> ('s, 'a) gost \<Rightarrow> ('s, 'a) gost" where
  "ignoring z m u =
     (case m u of (Inl e, u') \<Rightarrow> (if is_panic e then Inl e else Inr z, u') | (Inr x, u') \<Rightarrow> (Inr x, u'))"

definition decStr :: "(unpacker, int) gost" where
  "decStr u =
     (case NextString u of
        (Inl e, u') \<Rightarrow> (if is_panic e then Inl e else Inr 0, u')
      | (Inr s, u') \<Rightarrow> (Inr (fst (atoi (trim_space s))), u'))"

definition client6 :: "byte list \<Rightarrow> (unpacker, player_info) gost" where
  "client6 cname =
     bnd (ignoring [] NextString) (\<lambda>cclan. bnd decStr (\<lambda>country. bnd decStr (\<lambda>score. bnd decStr (\<lambda>player.
       ret \<lparr>pl_Name = cname, pl_Clan = cclan, pl_Country = country, pl_Score = score, pl_IsPlayer = (player \<noteq> 0)\<rparr>))))"

definition client7 :: "varint_lib \<Rightarrow> byte list \<Rightarrow> (unpacker, player_info) gost" where
  "client7 L cname =
     bnd (ignoring [] NextString) (\<lambda>cclan. bnd (ignoring 0 (NextInt L)) (\<lambda>country.
       bnd (ignoring 0 (NextInt L)) (\<lambda>score. bnd (ignoring 0 (NextInt L)) (\<lambda>pflag.
       ret \<lparr>pl_Name = cname, pl_Clan = cclan, pl_Country = country, pl_Score = score, pl_IsPlayer = (pflag = 0)\<rparr>))))"

text \<open>Every read moves on, and a name takes at least one byte: the loop over the clients ends.\<close>

lemma NextString_fwd [mono_intros]: "keeps ufwd NextString"
  unfolding NextString_def by (rule NextStringSanitized_fwd)

lemma ignoring_fwd [mono_intros]: "keeps ufwd m \<Longrightarrow> keeps ufwd (ignoring z m)"
  by (rule keepsI) (auto simp: ignoring_def split: prod.splits sum.splits dest: keepsD)

lemma decStr_fwd [mono_intros]: "keeps ufwd decStr"
  by (rule keepsI) (auto simp: decStr_def split: prod.splits sum.splits dest: keepsD [OF NextString_fwd])

lemma client6_fwd: "keeps ufwd (client6 cname)"
  unfolding client6_def by (intro mono_intros)

lemma client7_fwd: "keeps ufwd (client7 L cname)"
  unfolding client7_def by (intro mono_intros)

lemma NextString_progress:
  "NextString u = (Inr s, u') \<Longrightarrow> udata u' = udata u \<and> uidx u < uidx u' \<and> uidx u < length (udata u)"
proof -
  assume run: "NextString u = (Inr s, u')"
  then have "drop (uidx u) (udata u) \<noteq> []"
    by (auto simp: NextString_def NextStringSanitized_def split: if_splits)
  with run show ?thesis
    by (auto simp: NextString_def NextStringSanitized_def Let_def split: if_splits option.splits)
qed

lemma clients_decrease:
  assumes "NextString u = (Inr cname, u1)" and "keeps ufwd m" and "m u1 = (r, u2)"
  shows "length (udata u2) - uidx u2 < length (udata u) - uidx u"
proof -
  have "ufwd u1 u2" using assms(2,3) by (rule keepsD)
  with NextString_progress [OF assms(1)] show ?thesis by (auto simp: ufwd_def)
qed

function clients6 :: "(unpacker, player_info list) gost" where
  "clients6 u =
     (case NextString u of
        (Inl e, u1) \<Rightarrow> (if is_panic e then Inl e else Inr [], u1)
      | (Inr cname, u1) \<Rightarrow>
          (case client6 cname u1 of
             (Inl e, u2) \<Rightarrow> (Inl e, u2)
           | (Inr p, u2) \<Rightarrow>
               (case clients6 u2 of (Inl e, u3) \<Rightarrow> (Inl e, u3) | (Inr ps, u3) \<Rightarrow> (Inr (p # ps), u3))))"
  by pat_completeness auto
termination
  by (relation "measure (\<lambda>u. length (udata u) - uidx u)")
    (auto dest!: clients_decrease [OF _ client6_fwd, OF sym sym])

function clients7 :: "varint_lib \<Rightarrow> (unpacker, player_info list) gost" where
  "clients7 L u =
     (case NextString u of
        (Inl e, u1) \<Rightarrow> (if is_panic e then Inl e else Inr [], u1)
      | (Inr cname, u1) \<Rightarrow>
          (case client7 L cname u1 of
             (Inl e, u2) \<Rightarrow> (Inl e, u2)
           | (Inr p, u2) \<Rightarrow>
               (case clients7 L u2 of (Inl e, u3) \<Rightarrow> (Inl e, u3) | (Inr ps, u3) \<Rightarrow> (Inr (p # ps), u3))))"
  by pat_completeness auto
termination
  by (relation "measure (\<lambda>(L, u). length (udata u) - uidx u)")
    (auto dest!: clients_decrease [OF _ client7_fwd, OF sym sym])

declare clients6.simps [simp del] clients7.simps [simp del]

definition ParseInfoResponse6 :: "byte list \<Rightarrow> goerr + server_info" where
  "ParseInfoResponse6 body =
     fst (bnd (wrapped ''net6: info token: %w'' [] NextString) (\<lambda>tok.
       bnd (wrapped ''net6: info version: %w'' [] NextString) (\<lambda>version.
       bnd (wrapped ''net6: info name: %w'' [] NextString) (\<lambda>nam.
       bnd (ignoring [] NextString) (\<lambda>mapName. bnd (ignoring [] NextString) (\<lambda>gameType.
       bnd decStr (\<lambda>flags. bnd decStr (\<lambda>numPlayers. bnd decStr (\<lambda>maxPlayers.
       bnd decStr (\<lambda>numClients. bnd decStr (\<lambda>maxClients. bnd clients6 (\<lambda>clients.
       ret \<lparr>si_Name = nam, si_GameType = gameType, si_MapName = mapName,
            si_Passworded = (flags AND ServerInfoFlagPassword \<noteq> 0),
            si_NumPlayers = numPlayers, si_NumClients = numClients, si_MaxPlayers = maxPlayers,
            si_MaxClients = maxClients, si_Clients = clients\<rparr>)))))))))))
       (NewUnpacker body))"

definition ParseInfoResponse7 :: "varint_lib \<Rightarrow> byte list \<Rightarrow> goerr + server_info" where
  "ParseInfoResponse7 L body =
     fst (bnd (wrapped ''net7: info token: %w'' [] (NextInt L)) (\<lambda>tok.
       bnd (wrapped ''net7: info version: %w'' [] NextString) (\<lambda>version.
       bnd (wrapped ''net7: info name: %w'' [] NextString) (\<lambda>nam.
       bnd (wrapped ''net7: info hostname: %w'' [] NextString) (\<lambda>hostname.
       bnd (ignoring [] NextString) (\<lambda>mapName. bnd (ignoring [] NextString) (\<lambda>gameType.
       bnd (ignoring 0 (NextInt L)) (\<lambda>flags.
       bnd (wrapped ''net7: info skill: %w'' [] (NextInt L)) (\<lambda>skill.
       bnd (ignoring 0 (NextInt L)) (\<lambda>numPlayers. bnd (ignoring 0 (NextInt L)) (\<lambda>maxPlayers.
       bnd (ignoring 0 (NextInt L)) (\<lambda>numClients. bnd (ignoring 0 (NextInt L)) (\<lambda>maxClients.
       bnd (clients7 L) (\<lambda>clients.
       ret \<lparr>si_Name = nam, si_GameType = gameType, si_MapName = mapName,
            si_Passworded = (flags AND ServerInfoFlagPassword \<noteq> 0),
            si_NumPlayers = numPlayers, si_NumClients = numClients, si_MaxPlayers = maxPlayers,
            si_MaxClients = maxClients, si_Clients = clients\<rparr>)))))))))))))
       (NewUnpacker body))"

section \<open>What a server writes\<close>

text \<open>
  A text no byte of which the unpacker replaces, and the body of a reply with these fields: the
  formats of the two protocols.
\<close>

definition clean :: "byte list \<Rightarrow> bool" where
  "clean s \<longleftrightarrow> 0 \<notin> set s \<and> \<not> needs_work SanitizeDefault s"

definition in_int :: "int \<Rightarrow> bool" where
  "in_int n \<longleftrightarrow> - (2 ^ 63) \<le> n \<and> n < 2 ^ 63"

definition text0 :: "byte list \<Rightarrow> byte list" where
  "text0 s = s @ [0]"

definition client_body6 :: "player_info \<Rightarrow> byte list" where
  "client_body6 p = text0 (pl_Name p) @ text0 (pl_Clan p) @ text0 (itoa (pl_Country p)) @ text0 (itoa (pl_Score p))
     @ text0 (itoa (if pl_IsPlayer p then 1 else 0))"

definition info_body6 :: "byte list \<Rightarrow> byte list \<Rightarrow> server_info \<Rightarrow> byte list" where
  "info_body6 tok version i =
     text0 tok @ text0 version @ text0 (si_Name i) @ text0 (si_MapName i) @ text0 (si_GameType i)
     @ text0 (itoa (if si_Passworded i then 1 else 0)) @ text0 (itoa (si_NumPlayers i)) @ text0 (itoa (si_MaxPlayers i))
     @ text0 (itoa (si_NumClients i)) @ text0 (itoa (si_MaxClients i)) @ concat (map client_body6 (si_Clients i))"

definition client_body7 :: "varint_lib \<Rightarrow> player_info \<Rightarrow> byte list" where
  "client_body7 L p = text0 (pl_Name p) @ text0 (pl_Clan p) @ encv L (pl_Country p) @ encv L (pl_Score p)
     @ encv L (if pl_IsPlayer p then 0 else 1)"

definition info_body7 :: "varint_lib \<Rightarrow> int \<Rightarrow> byte list \<Rightarrow> byte list \<Rightarrow> int \<Rightarrow> server_info \<Rightarrow> byte list" where
  "info_body7 L tok version host skill i =
     encv L tok @ text0 version @ text0 (si_Name i) @ text0 host @ text0 (si_MapName i) @ text0 (si_GameType i)
     @ encv L (if si_Passworded i then 1 else 0) @ encv L skill @ encv L (si_NumPlayers i) @ encv L (si_MaxPlayers i)
     @ encv L (si_NumClients i) @ encv L (si_MaxClients i) @ concat (map (client_body7 L) (si_Clients i))"

definition info_texts :: "server_info \<Rightarrow> bool" where
  "info_texts i \<longleftrightarrow> clean (si_Name i) \<and> clean (si_MapName i) \<and> clean (si_GameType i)
     \<and> list_all (\<lambda>p. clean (pl_Name p) \<and> clean (pl_Clan p)) (si_Clients i)"

definition info_numbers :: "(int \<Rightarrow> bool) \<Rightarrow> server_info \<Rightarrow> bool" where
  "info_numbers ok i \<longleftrightarrow> ok (si_NumPlayers i) \<and> ok (si_MaxPlayers i) \<and> ok (si_NumClients i) \<and> ok (si_MaxClients i)
     \<and> list_all (\<lambda>p. ok (pl_Country p) \<and> ok (pl_Score p)) (si_Clients i)"

lemma NextString_text0 [simp]:
  "clean s \<Longrightarrow> NextString (at_pos pre (text0 s @ post)) = (Inr s, at_pos (pre @ text0 s) post)"
  by (simp add: NextString_def NextStringSanitized_def at_pos_def clean_def text0_def has_flag_def
      SanitizeDefault_def SanitizeSkipWhitespaces_def Let_def)

lemma NextString_end [simp]: "\<exists>e. NextString (at_pos pre []) = (Inl e, at_pos pre []) \<and> \<not> is_panic e"
  by (simp add: NextString_def NextStringSanitized_def at_pos_def)

lemma clean_digits: "(\<And>c. c \<in> set s \<Longrightarrow> is_digit c \<or> c = 45) \<Longrightarrow> clean s"
proof (induction s)
  case (Cons c s)
  have c: "is_digit c \<or> c = 45" by (rule Cons.prems) simp
  then have "c \<noteq> 0" "\<not> c < 32" by (auto simp: is_digit_def word_le_def word_less_def)
  with Cons show ?case by (simp add: clean_def)
qed (simp add: clean_def)

lemma itoa_plain: "itoa n \<noteq> [] \<and> 33 \<le> hd (itoa n) \<and> hd (itoa n) < 128 \<and> 33 \<le> last (itoa n) \<and> last (itoa n) < 128"
proof -
  have ne: "itoa n \<noteq> []" using dec_digits by (simp add: itoa_def)
  have "33 \<le> c \<and> c < 128" if "c \<in> set (itoa n)" for c
    using itoa_chars [OF that] by (auto simp: is_digit_def word_le_def word_less_def)
  with ne show ?thesis by simp
qed

lemma decStr_at_pos [simp]:
  "in_int n \<Longrightarrow> decStr (at_pos pre (text0 (itoa n) @ post)) = (Inr n, at_pos (pre @ text0 (itoa n)) post)"
  using itoa_plain [of n]
  by (simp add: decStr_def clean_digits [OF itoa_chars] trim_space_plain atoi_itoa in_int_def)

lemma ignoring_Inr [simp]: "m u = (Inr x, u') \<Longrightarrow> ignoring z m u = (Inr x, u')"
  by (simp add: ignoring_def)

lemma client6_at_pos:
  assumes "clean (pl_Clan p)" and "in_int (pl_Country p)" "in_int (pl_Score p)"
  shows "client6 (pl_Name p) (at_pos pre (text0 (pl_Clan p) @ text0 (itoa (pl_Country p)) @ text0 (itoa (pl_Score p))
      @ text0 (itoa (if pl_IsPlayer p then 1 else 0)) @ post)) =
    (Inr p, at_pos (pre @ text0 (pl_Clan p) @ text0 (itoa (pl_Country p)) @ text0 (itoa (pl_Score p))
      @ text0 (itoa (if pl_IsPlayer p then 1 else 0))) post)"
proof -
  have "in_int (if pl_IsPlayer p then 1 else 0)" by (simp add: in_int_def)
  with assms show ?thesis by (simp add: client6_def)
qed

lemma clients6_at_pos:
  assumes "list_all (\<lambda>p. clean (pl_Name p) \<and> clean (pl_Clan p)) ps"
    and "list_all (\<lambda>p. in_int (pl_Country p) \<and> in_int (pl_Score p)) ps"
  shows "\<exists>u. clients6 (at_pos pre (concat (map client_body6 ps))) = (Inr ps, u)"
  using assms
proof (induction ps arbitrary: pre)
  case Nil
  obtain e where "NextString (at_pos pre []) = (Inl e, at_pos pre [])" "\<not> is_panic e" using NextString_end by blast
  then show ?case by (simp add: clients6.simps [of "at_pos pre []"])
next
  case (Cons p ps)
  let ?rest = "concat (map client_body6 ps)"
  have name: "NextString (at_pos pre (concat (map client_body6 (p # ps)))) =
      (Inr (pl_Name p), at_pos (pre @ text0 (pl_Name p)) (text0 (pl_Clan p) @ text0 (itoa (pl_Country p))
        @ text0 (itoa (pl_Score p)) @ text0 (itoa (if pl_IsPlayer p then 1 else 0)) @ ?rest))"
    using Cons.prems by (simp add: client_body6_def)
  have "client6 (pl_Name p) (at_pos (pre @ text0 (pl_Name p)) (text0 (pl_Clan p) @ text0 (itoa (pl_Country p))
        @ text0 (itoa (pl_Score p)) @ text0 (itoa (if pl_IsPlayer p then 1 else 0)) @ ?rest)) =
      (Inr p, at_pos (pre @ client_body6 p) ?rest)"
    using Cons.prems by (subst client6_at_pos) (simp_all add: client_body6_def)
  moreover obtain u where "clients6 (at_pos (pre @ client_body6 p) ?rest) = (Inr ps, u)"
    using Cons by auto
  ultimately have "clients6 (at_pos pre (concat (map client_body6 (p # ps)))) = (Inr (p # ps), u)"
    by (subst clients6.simps, subst name) simp
  then show ?case by blast
qed

lemma clients6_last:
  assumes "info_texts i" and "info_numbers in_int i"
  shows "fst (bnd clients6 (\<lambda>cs. ret (g cs)) (at_pos pre (concat (map client_body6 (si_Clients i))))) = Inr (g (si_Clients i))"
proof -
  obtain u where "clients6 (at_pos pre (concat (map client_body6 (si_Clients i)))) = (Inr (si_Clients i), u)"
    using clients6_at_pos [of "si_Clients i" pre] assms by (auto simp: info_texts_def info_numbers_def)
  then show ?thesis by simp
qed

lemma flag_bit [simp]: "((if b then 1 else 0) AND ServerInfoFlagPassword \<noteq> 0) = b" "in_int (if b then 1 else 0)"
  "in_s32 (if b then 1 else 0)" "in_s32 (if b then 0 else 1)"
  by (simp_all add: ServerInfoFlagPassword_def in_int_def in_s32_def)

lemma info_roundtrip6_holds:
  assumes "clean tok" and "clean version" and "info_texts i" and "info_numbers in_int i"
  shows "ParseInfoResponse6 (info_body6 tok version i) = Inr i"
proof -
  have "clean (si_Name i)" "clean (si_MapName i)" "clean (si_GameType i)"
    using assms(3) by (simp_all add: info_texts_def)
  moreover have "in_int (si_NumPlayers i)" "in_int (si_MaxPlayers i)" "in_int (si_NumClients i)" "in_int (si_MaxClients i)"
    using assms(4) by (simp_all add: info_numbers_def)
  ultimately show ?thesis
    using assms(1,2)
    by (simp add: ParseInfoResponse6_def info_body6_def NewUnpacker_at_pos clients6_last [OF assms(3,4)] del: if_split)
qed

text \<open>
  A 0.6 server info reply is read back exactly: for every server whose texts need no cleaning
  and whose numbers fit an int, parsing what the server writes (every field a terminated string,
  every number in decimal) gives that server, its clients in order, whatever token and version
  precede.
\<close>

theorem info_roundtrip6:
  assumes "clean tok" and "clean version" and "info_texts i" and "info_numbers in_int i"
  shows "ParseInfoResponse6 (info_body6 tok version i) = Inr i"
  using assms by (rule info_roundtrip6_holds)

text \<open>A server with two clients.\<close>

definition sample_info :: server_info where
  "sample_info = \<lparr>si_Name = bytes_of ''Block'', si_GameType = bytes_of ''DDraceNetwork'', si_MapName = bytes_of ''Tutorial'',
     si_Passworded = True, si_NumPlayers = 1, si_NumClients = 2, si_MaxPlayers = 16, si_MaxClients = 64,
     si_Clients = [\<lparr>pl_Name = bytes_of ''nameless tee'', pl_Clan = [], pl_Country = -1, pl_Score = -9999, pl_IsPlayer = True\<rparr>,
                   \<lparr>pl_Name = bytes_of ''spec'', pl_Clan = bytes_of ''x'', pl_Country = 276, pl_Score = 0, pl_IsPlayer = False\<rparr>]\<rparr>"

lemma sample_texts: "info_texts sample_info" "info_numbers in_int sample_info" "info_numbers in_s32 sample_info"
  "clean (bytes_of ''0.6.4'')" "clean (bytes_of ''7'')"
  by code_simp+

theorem info_roundtrip6_witness:
  "ParseInfoResponse6 (info_body6 (bytes_of ''7'') (bytes_of ''0.6.4'') sample_info) = Inr sample_info"
  by (rule info_roundtrip6) (rule sample_texts)+

context varint_contract begin

lemma client7_at_pos:
  assumes "clean (pl_Clan p)" and "in_s32 (pl_Country p)" "in_s32 (pl_Score p)"
  shows "client7 L (pl_Name p) (at_pos pre (text0 (pl_Clan p) @ encv L (pl_Country p) @ encv L (pl_Score p)
      @ encv L (if pl_IsPlayer p then 0 else 1) @ post)) =
    (Inr p, at_pos (pre @ text0 (pl_Clan p) @ encv L (pl_Country p) @ encv L (pl_Score p)
      @ encv L (if pl_IsPlayer p then 0 else 1)) post)"
  using assms by (simp add: client7_def del: if_split)

lemma clients7_at_pos:
  assumes "list_all (\<lambda>p. clean (pl_Name p) \<and> clean (pl_Clan p)) ps"
    and "list_all (\<lambda>p. in_s32 (pl_Country p) \<and> in_s32 (pl_Score p)) ps"
  shows "\<exists>u. clients7 L (at_pos pre (concat (map (client_body7 L) ps))) = (Inr ps, u)"
  using assms
proof (induction ps arbitrary: pre)
  case Nil
  obtain e where "NextString (at_pos pre []) = (Inl e, at_pos pre [])" "\<not> is_panic e" using NextString_end by blast
  then show ?case by (simp add: clients7.simps [of L "at_pos pre []"])
next
  case (Cons p ps)
  let ?rest = "concat (map (client_body7 L) ps)"
  let ?tail = "text0 (pl_Clan p) @ encv L (pl_Country p) @ encv L (pl_Score p) @ encv L (if pl_IsPlayer p then 0 else 1)"
  have name: "NextString (at_pos pre (concat (map (client_body7 L) (p # ps)))) =
      (Inr (pl_Name p), at_pos (pre @ text0 (pl_Name p)) (?tail @ ?rest))"
    using Cons.prems by (simp add: client_body7_def)
  have "client7 L (pl_Name p) (at_pos (pre @ text0 (pl_Name p)) (?tail @ ?rest)) = (Inr p, at_pos (pre @ client_body7 L p) ?rest)"
    unfolding append_assoc using Cons.prems by (subst client7_at_pos) (simp_all add: client_body7_def)
  moreover obtain u where "clients7 L (at_pos (pre @ client_body7 L p) ?rest) = (Inr ps, u)"
    using Cons by auto
  ultimately have "clients7 L (at_pos pre (concat (map (client_body7 L) (p # ps)))) = (Inr (p # ps), u)"
    by (subst clients7.simps, subst name) simp
  then show ?case by blast
qed

lemma clients7_last:
  assumes "info_texts i" and "info_numbers in_s32 i"
  shows "fst (bnd (clients7 L) (\<lambda>cs. ret (g cs)) (at_pos pre (concat (map (client_body7 L) (si_Clients i))))) = Inr (g (si_Clients i))"
proof -
  obtain u where "clients7 L (at_pos pre (concat (map (client_body7 L) (si_Clients i)))) = (Inr (si_Clients i), u)"
    using clients7_at_pos [of "si_Clients i" pre] assms by (auto simp: info_texts_def info_numbers_def)
  then show ?thesis by simp
qed

lemma info7_reads_back:
  assumes "in_s32 tok" and "clean version" and "clean host" and "in_s32 skill" and "info_texts i" and "info_numbers in_s32 i"
  shows "ParseInfoResponse7 L (info_body7 L tok version host skill i) = Inr i"
proof -
  have "clean (si_Name i)" "clean (si_MapName i)" "clean (si_GameType i)"
    using assms(5) by (simp_all add: info_texts_def)
  moreover have "in_s32 (si_NumPlayers i)" "in_s32 (si_MaxPlayers i)" "in_s32 (si_NumClients i)" "in_s32 (si_MaxClients i)"
    using assms(6) by (simp_all add: info_numbers_def)
  ultimately show ?thesis
    using assms(1-4)
    by (simp add: ParseInfoResponse7_def info_body7_def NewUnpacker_at_pos clients7_last [OF assms(5,6)] del: if_split)
qed

end

text \<open>The same for 0.7, for every varint codec that keeps the contract.\<close>

lemma info_roundtrip7:
  "varint_contract L \<Longrightarrow> in_s32 tok \<Longrightarrow> clean version \<Longrightarrow> clean host \<Longrightarrow> in_s32 skill \<Longrightarrow>
    info_texts i \<Longrightarrow> info_numbers in_s32 i \<Longrightarrow> ParseInfoResponse7 L (info_body7 L tok version host skill i) = Inr i"
  by (rule varint_contract.info7_reads_back)

section \<open>Replies are told apart\<close>

lemma magic_bytes: "ServerBrowseInfo = [255, 255, 255, 255, 105, 110, 102, 51]"
  by code_simp

lemma info_payload_append:
  "length pre = n \<Longrightarrow> info_payload n (pre @ ServerBrowseInfo @ body) = Some body"
  by (simp add: info_payload_def)

lemma info_payload_at:
  assumes "info_payload n d = Some body" and "j < 8"
  shows "n + j < length d" "d ! (n + j) = ServerBrowseInfo ! j"
proof -
  have len: "n + 8 \<le> length d" and "take 8 (drop n d) = ServerBrowseInfo"
    using assms(1) by (simp_all add: info_payload_def magic_bytes Let_def numeral_eq_Suc split: if_splits)
  with assms(2) show "n + j < length d" "d ! (n + j) = ServerBrowseInfo ! j"
    by (auto dest: arg_cong [of _ _ "\<lambda>xs. xs ! j"])
qed

text \<open>
  No datagram passes for an info reply of both protocols, whatever is in it: the six bytes 0.6 asks
  for and the nine of 0.7 put the magic at places that contradict each other.
\<close>

lemma never_both: "ConnlessInfoPayload6 d = None \<or> ConnlessInfoPayload7 d = None"
proof (rule ccontr)
  assume "\<not> ?thesis"
  then obtain a b where ab: "info_payload 6 d = Some a" "info_payload 9 d = Some b"
    by (auto simp: ConnlessInfoPayload6_def ConnlessInfoPayload7_def connlessPrefix_def HeaderSizeConnless7_def)
  show False
    using info_payload_at(2) [OF ab(1), of 4] info_payload_at(2) [OF ab(2), of 1] by (simp add: magic_bytes)
qed

text \<open>A reply as a server frames it is taken for what it is and for nothing else.\<close>

definition reply6 :: "byte list \<Rightarrow> byte list" where
  "reply6 body = replicate connlessPrefix 0xff @ ServerBrowseInfo @ body"

definition reply7 :: "byte list \<Rightarrow> byte list \<Rightarrow> byte list \<Rightarrow> byte list" where
  "reply7 clientToken serverToken body = header7_pack (connless_header7 clientToken serverToken) @ ServerBrowseInfo @ body"

lemma reply6_payload:
  "ConnlessInfoPayload6 (reply6 body) = Some body" "ConnlessInfoPayload7 (reply6 body) = None"
  "ParseTokenResponse (reply6 body) = None"
proof -
  show six: "ConnlessInfoPayload6 (reply6 body) = Some body"
    by (simp add: ConnlessInfoPayload6_def reply6_def connlessPrefix_def info_payload_append)
  show "ConnlessInfoPayload7 (reply6 body) = None" using never_both [of "reply6 body"] six by simp
  have "reply6 body ! 7 = 255" by (simp add: reply6_def connlessPrefix_def magic_bytes nth_append)
  then show "ParseTokenResponse (reply6 body) = None"
    by (auto simp: ParseTokenResponse_def Let_def split: prod.splits option.splits)
qed

lemma reply7_payload:
  assumes "length a = 4" "length b = 4"
  shows "ConnlessInfoPayload7 (reply7 a b body) = Some body" "ConnlessInfoPayload6 (reply7 a b body) = None"
    "ParseTokenResponse (reply7 a b body) = None"
proof -
  have hdr: "header7_pack (connless_header7 a b) = 0x21 # a @ b"
    using assms by (simp add: header7_pack_def connless_header7_def flagConnless7_def byte_of_def)
  show seven: "ConnlessInfoPayload7 (reply7 a b body) = Some body"
    using assms by (simp add: ConnlessInfoPayload7_def reply7_def hdr HeaderSizeConnless7_def info_payload_append
        del: append.simps)
  show "ConnlessInfoPayload6 (reply7 a b body) = None" using never_both [of "reply7 a b body"] seven by simp
  have "reply7 a b body ! 0 = 0x21" by (simp add: reply7_def hdr)
  then have "flags7_unpack (reply7 a b body) = Inr \<lparr>f7_connless = True, f7_compression = False, f7_resend = False, f7_control = False\<rparr>"
    by (simp add: flags7_unpack_def flagConnless7_def flagCompression7_def flagResend7_def flagControl7_def reply7_def hdr)
  then show "ParseTokenResponse (reply7 a b body) = None"
    by (auto simp: ParseTokenResponse_def header7_unpack_def Let_def split: prod.splits option.splits)
qed

text \<open>The number of clients is bounded by the size of the reply.\<close>

lemma clients6_bound: "clients6 u = (Inr ps, u') \<Longrightarrow> length ps \<le> length (udata u) - uidx u"
proof (induction u arbitrary: ps u' rule: clients6.induct)
  case (1 u)
  show ?case
  proof (cases "NextString u")
    case (Pair r u1)
    show ?thesis
    proof (cases r)
      case (Inl e)
      with 1(2) Pair show ?thesis by (simp add: clients6.simps [of u] split: if_splits)
    next
      case (Inr cname)
      obtain q u2 where q: "client6 cname u1 = (q, u2)" by fastforce
      have less: "length (udata u2) - uidx u2 < length (udata u) - uidx u"
        using clients_decrease [OF _ client6_fwd q] Pair Inr by simp
      from 1(2) Pair Inr q obtain p ps0 where p: "q = Inr p" "clients6 u2 = (Inr ps0, u')" "ps = p # ps0"
        by (simp add: clients6.simps [of u] split: sum.splits prod.splits)
      have "length ps0 \<le> length (udata u2) - uidx u2"
        using 1(1) [OF Pair [symmetric] Inr q [symmetric] p(1) p(2)] .
      with less p(3) show ?thesis by simp
    qed
  qed
qed

end
