(* ===== verification/Browser.thy ===== *)
theory Browser
  imports ServerInfo Session7 Client
begin

text \<open>
  client/detect.go, master/query.go and master/scanlan.go: asking servers for their info without a
  session. The network is the script of theory Conn; a receive bounded by a deadline gives up when
  the next event lies at or after it. The random numbers are arguments.
\<close>

definition RecvUntil :: "int \<Rightarrow> ('z conn_state_scheme, byte list) gost" where
  "RecvUntil deadline c =
     (case inbox c of
        [] \<Rightarrow> (Inl deadline_error, c)
      | (d, ev) # rest \<Rightarrow>
          if clock c + d < deadline then RecvContext c
          else
            (let t = max (clock c) deadline in
             (Inl deadline_error, c\<lparr>inbox := (clock c + d - t, ev) # rest, clock := t\<rparr>)))"

lemma RecvUntil_Inr:
  "RecvUntil dl c = (Inr bs, c') \<Longrightarrow>
    \<exists>d raw rest. inbox c = (d, Arrive raw) # rest \<and> clock c + d < dl \<and> bs = take MaxPacketSize raw \<and> c' = take_event d rest c"
  by (auto simp: RecvUntil_def Let_def dest!: RecvContext_Inr split: list.splits if_splits prod.splits)

lemma RecvUntil_shrinks: "RecvUntil dl c = (Inr bs, c') \<Longrightarrow> length (inbox c') < length (inbox c)"
  by (auto dest!: RecvUntil_Inr simp: take_event_def)

lemma SendRaw_keeps_inbox: "SendRaw p s = (r, s') \<Longrightarrow> inbox s' = inbox s \<and> clock s' = clock s"
  by (auto simp: SendRaw_def split: list.splits option.splits)

section \<open>detectVersion\<close>

definition detectGrace :: int where "detectGrace = 250000000"

definition ErrVersionDetectFailed :: goerr where
  "ErrVersionDetectFailed = Err ''client: protocol auto-detect failed: no connless reply from server'' []"

text \<open>\<open>rtok k\<close> is the request token of the \<open>k\<close>-th 0.7 request.\<close>

function detect_loop ::
    "varint_lib \<Rightarrow> byte list \<Rightarrow> (nat \<Rightarrow> int) \<Rightarrow> int \<Rightarrow> bool \<Rightarrow> nat \<Rightarrow> ('z conn_state_scheme, int) gost" where
  "detect_loop L clientToken rtok deadline saw07 k s =
     (case RecvUntil deadline s of
        (Inl e, s1) \<Rightarrow> (if saw07 then Inr Version07 else Inl (Wrap ''%w (%v)'' [] ErrVersionDetectFailed), s1)
      | (Inr datagram, s1) \<Rightarrow>
          if ConnlessInfoPayload6 datagram \<noteq> None then (Inr Version06, s1)
          else
            (case ParseTokenResponse datagram of
               Some tok \<Rightarrow>
                 (case SendRaw (BuildInfoRequestConnless7 L tok clientToken (rtok k)) s1 of
                    (Inl e, s2) \<Rightarrow> (Inl (wrap_err ''client: detect send 0.7 getinfo: %w'' [] e), s2)
                  | (Inr u, s2) \<Rightarrow> detect_loop L clientToken rtok deadline saw07 (k + 1) s2)
             | None \<Rightarrow>
                 if ConnlessInfoPayload7 datagram \<noteq> None \<and> \<not> saw07
                 then detect_loop L clientToken rtok (min deadline (clock s1 + detectGrace)) True k s1
                 else detect_loop L clientToken rtok deadline saw07 k s1))"
  by pat_completeness auto
termination
  by (relation "measure (\<lambda>(L, tok, rtok, dl, saw, k, s). length (inbox s))")
    (auto dest!: RecvUntil_shrinks [OF sym] SendRaw_keeps_inbox [OF sym])

declare detect_loop.simps [simp del]

definition detectVersion ::
    "varint_lib \<Rightarrow> goerr option \<Rightarrow> byte list \<Rightarrow> byte \<Rightarrow> (nat \<Rightarrow> int) \<Rightarrow> int \<Rightarrow> ('z conn_state_scheme, int) gost" where
  "detectVersion L dialError clientToken reqByte rtok timeout s =
     (let wait = (if timeout \<le> 0 then DefaultDetectTimeout else timeout) in
      case dialError of
        Some e \<Rightarrow> (Inl (wrap_err ''client: detect dial %s: %w'' [] e), s)
      | None \<Rightarrow>
          bnd (wrapped ''client: detect send 0.6 getinfo: %w'' [] (SendRaw (BuildInfoRequestConnless6 reqByte)))
            (\<lambda>_. bnd (wrapped ''client: detect send 0.7 token request: %w'' [] (SendRaw (BuildTokenRequest clientToken)))
            (\<lambda>_. detect_loop L clientToken rtok (clock s + wait) False 0)) s)"

section \<open>What the probe decides\<close>

text \<open>
  The datagrams that reach the probe, with their times: an error of a receive ends it.
\<close>

fun arrivals :: "int \<Rightarrow> (int \<times> net_event) list \<Rightarrow> (int \<times> byte list) list" where
  "arrivals t ((d, Arrive bs) # rest) = (t + d, take MaxPacketSize bs) # arrivals (t + d) rest"
| "arrivals t evs = []"

definition info6 :: "byte list \<Rightarrow> bool" where
  "info6 d \<longleftrightarrow> ConnlessInfoPayload6 d \<noteq> None"

definition info7 :: "byte list \<Rightarrow> bool" where
  "info7 d \<longleftrightarrow> ConnlessInfoPayload7 d \<noteq> None \<and> ParseTokenResponse d = None"

text \<open>The first 0.7 info cuts the time left for a 0.6 one to the grace.\<close>

definition detect_window :: "int \<Rightarrow> (int \<times> byte list) list \<Rightarrow> int" where
  "detect_window deadline as =
     (case find (\<lambda>(t, d). t < deadline \<and> info7 d) as of
        None \<Rightarrow> deadline
      | Some (t, d) \<Rightarrow> min deadline (t + detectGrace))"

definition delays_ok :: "'z conn_state_scheme \<Rightarrow> bool" where
  "delays_ok s \<longleftrightarrow> list_all (\<lambda>(d, ev). 0 \<le> d) (inbox s)"

lemma arrivals_later: "list_all (\<lambda>(d, ev). 0 \<le> d) evs \<Longrightarrow> x \<in> set (arrivals t evs) \<Longrightarrow> t \<le> fst x"
  by (induction t evs arbitrary: x rule: arrivals.induct) fastforce+

text \<open>One receive: it takes the first arrival, or there is none before the deadline.\<close>

lemma RecvUntil_cases:
  assumes "delays_ok s"
  obtains (end_of_probe) e s' where "RecvUntil dl s = (Inl e, s')" "\<forall>x \<in> set (arrivals (clock s) (inbox s)). dl \<le> fst x"
  | (arrival) datagram s' where "RecvUntil dl s = (Inr datagram, s')" "clock s' < dl" "clock s \<le> clock s'" "delays_ok s'"
      "send_faults s' = send_faults s"
      "arrivals (clock s) (inbox s) = (clock s', datagram) # arrivals (clock s') (inbox s')"
proof (cases "inbox s")
  case Nil
  then show ?thesis by (intro end_of_probe [of deadline_error s]) (simp_all add: RecvUntil_def)
next
  case (Cons x rest)
  obtain d ev where x: "x = (d, ev)" by fastforce
  have d: "0 \<le> d" and rest: "list_all (\<lambda>(d, ev). 0 \<le> d) rest" using assms Cons x by (simp_all add: delays_ok_def)
  show ?thesis
  proof (cases "clock s + d < dl")
    case False
    have "\<forall>y \<in> set (arrivals (clock s) (inbox s)). dl \<le> fst y"
      using False arrivals_later [OF rest] by (cases ev) (fastforce simp: Cons x)+
    with False show ?thesis by (intro end_of_probe) (auto simp: RecvUntil_def Cons x Let_def)
  next
    case True
    show ?thesis
    proof (cases ev)
      case (Arrive bs)
      with True d rest show ?thesis
        by (intro arrival [of "take MaxPacketSize bs" "take_event d rest s"])
          (simp_all add: RecvUntil_def RecvContext_def Cons x take_event_def delays_ok_def)
    next
      case Silence
      with True show ?thesis by (intro end_of_probe) (simp_all add: RecvUntil_def RecvContext_def Cons x)
    next
      case (IoFail e)
      with True show ?thesis by (intro end_of_probe) (simp_all add: RecvUntil_def RecvContext_def Cons x)
    next
      case (CtxEnd e)
      with True show ?thesis by (intro end_of_probe) (simp_all add: RecvUntil_def RecvContext_def Cons x)
    qed
  qed
qed

lemma SendRaw_ok: "send_faults s = [] \<Longrightarrow> SendRaw p s = (Inr (), s\<lparr>outbox := outbox s @ [p]\<rparr>)"
  by (simp add: SendRaw_def)

lemma detect_loop_saw07:
  assumes "delays_ok s" and "send_faults s = []"
  shows "fst (detect_loop L tok rtok dl True k s) =
    Inr (if \<exists>x \<in> set (arrivals (clock s) (inbox s)). fst x < dl \<and> info6 (snd x) then Version06 else Version07)"
  using assms
proof (induction "length (inbox s)" arbitrary: s k rule: less_induct)
  case less
  show ?case
  proof (cases rule: RecvUntil_cases [OF less.prems(1), of dl, case_names end_of_probe arrival])
    case (end_of_probe e s')
    then show ?thesis by (subst detect_loop.simps) fastforce
  next
    case (arrival d s')
    note shrink = RecvUntil_shrinks [OF arrival(1)]
    show ?thesis
    proof (cases "info6 d")
      case True
      then show ?thesis using arrival by (subst detect_loop.simps) (simp add: info6_def)
    next
      case False
      show ?thesis
      proof (cases "ParseTokenResponse d")
        case None
        have "fst (detect_loop L tok rtok dl True k s') = Inr (if \<exists>x \<in> set (arrivals (clock s') (inbox s')). fst x < dl \<and> info6 (snd x) then Version06 else Version07)"
          using less.hyps [OF shrink] arrival less.prems by simp
        then show ?thesis using arrival None False by (subst detect_loop.simps) (simp add: info6_def)
      next
        case (Some t)
        let ?s = "s'\<lparr>outbox := outbox s' @ [BuildInfoRequestConnless7 L t tok (rtok k)]\<rparr>"
        have "fst (detect_loop L tok rtok dl True (k + 1) ?s) = Inr (if \<exists>x \<in> set (arrivals (clock s') (inbox s')). fst x < dl \<and> info6 (snd x) then Version06 else Version07)"
          using less.hyps [of ?s] shrink arrival less.prems by (simp add: delays_ok_def)
        then show ?thesis using arrival Some False less.prems by (subst detect_loop.simps) (simp add: info6_def SendRaw_ok)
      qed
    qed
  qed
qed

lemma later_arrivals: "delays_ok s \<Longrightarrow> x \<in> set (arrivals (clock s) (inbox s)) \<Longrightarrow> clock s \<le> fst x"
  unfolding delays_ok_def by (rule arrivals_later)

definition verdict :: "int \<Rightarrow> (int \<times> byte list) list \<Rightarrow> goerr + int" where
  "verdict dl as =
     (if \<exists>x \<in> set as. fst x < detect_window dl as \<and> info6 (snd x) then Inr Version06
      else if \<exists>x \<in> set as. fst x < dl \<and> info7 (snd x) then Inr Version07
      else Inl (Wrap ''%w (%v)'' [] ErrVersionDetectFailed))"

lemma verdict_skip:
  assumes "\<not> info6 d" and "\<not> info7 d"
  shows "verdict dl ((t, d) # as) = verdict dl as"
proof -
  have w: "detect_window dl ((t, d) # as) = detect_window dl as" using assms(2) by (simp add: detect_window_def)
  have "(\<exists>x \<in> set ((t, d) # as). fst x < n \<and> info6 (snd x)) = (\<exists>x \<in> set as. fst x < n \<and> info6 (snd x))"
    "(\<exists>x \<in> set ((t, d) # as). fst x < n \<and> info7 (snd x)) = (\<exists>x \<in> set as. fst x < n \<and> info7 (snd x))" for n
    using assms by auto
  then show ?thesis unfolding verdict_def w by (simp only:)
qed

lemma verdict_06:
  assumes "info6 d" and "t < dl" and "\<forall>x \<in> set as. t \<le> fst x"
  shows "verdict dl ((t, d) # as) = Inr Version06"
proof -
  have "\<not> info7 d" using never_both [of d] assms(1) by (auto simp: info6_def info7_def)
  then have "t < detect_window dl ((t, d) # as)"
    using assms(2,3) by (auto simp: detect_window_def detectGrace_def find_Some_iff split: option.splits)
      (metis fst_conv less_add_same_cancel1 nth_mem order_le_less_trans zero_less_numeral)
  with assms(1) show ?thesis by (simp add: verdict_def)
qed

lemma verdict_07:
  assumes "info7 d" and "t < dl"
  shows "verdict dl ((t, d) # as) =
    Inr (if \<exists>x \<in> set as. fst x < min dl (t + detectGrace) \<and> info6 (snd x) then Version06 else Version07)"
proof -
  have "\<not> info6 d" using never_both [of d] assms(1) by (auto simp: info6_def info7_def)
  moreover have "detect_window dl ((t, d) # as) = min dl (t + detectGrace)" using assms by (simp add: detect_window_def)
  moreover have "(\<exists>x \<in> set ((t, d) # as). fst x < dl \<and> info7 (snd x)) = True" using assms by auto
  ultimately show ?thesis unfolding verdict_def by auto
qed

lemma verdict_none:
  assumes "\<forall>x \<in> set as. dl \<le> fst x"
  shows "verdict dl as = Inl (Wrap ''%w (%v)'' [] ErrVersionDetectFailed)"
proof -
  have "detect_window dl as \<le> dl" by (auto simp: detect_window_def split: option.splits)
  with assms show ?thesis by (fastforce simp: verdict_def)
qed

lemma detect_loop_verdict:
  assumes "delays_ok s" and "send_faults s = []"
  shows "fst (detect_loop L tok rtok dl False k s) = verdict dl (arrivals (clock s) (inbox s))"
  using assms
proof (induction "length (inbox s)" arbitrary: s k rule: less_induct)
  case less
  show ?case
  proof (cases rule: RecvUntil_cases [OF less.prems(1), of dl, case_names end_of_probe arrival])
    case (end_of_probe e s')
    then show ?thesis by (subst detect_loop.simps) (simp add: verdict_none)
  next
    case (arrival d s')
    note shrink = RecvUntil_shrinks [OF arrival(1)]
    let ?as = "arrivals (clock s') (inbox s')"
    have later: "\<forall>x \<in> set ?as. clock s' \<le> fst x" using later_arrivals [OF arrival(4)] by blast
    consider "info6 d" | t where "\<not> info6 d" "ParseTokenResponse d = Some t"
      | "\<not> info6 d" "ParseTokenResponse d = None" "info7 d" | "\<not> info6 d" "ParseTokenResponse d = None" "\<not> info7 d"
      by (cases "ParseTokenResponse d") auto
    then show ?thesis
    proof cases
      case 1
      then show ?thesis using arrival verdict_06 [OF 1 arrival(2) later]
        by (subst detect_loop.simps) (simp add: info6_def)
    next
      case (2 t)
      let ?s = "s'\<lparr>outbox := outbox s' @ [BuildInfoRequestConnless7 L t tok (rtok k)]\<rparr>"
      have "fst (detect_loop L tok rtok dl False (k + 1) ?s) = verdict dl ?as"
        using less.hyps [of ?s] shrink arrival less.prems by (simp add: delays_ok_def)
      moreover have "\<not> info7 d" using 2 by (simp add: info7_def)
      ultimately show ?thesis using 2 arrival less.prems
        by (subst detect_loop.simps) (simp add: info6_def SendRaw_ok verdict_skip)
    next
      case 3
      have "fst (detect_loop L tok rtok (min dl (clock s' + detectGrace)) True k s') = verdict dl ((clock s', d) # ?as)"
        using detect_loop_saw07 [OF arrival(4)] arrival less.prems verdict_07 [OF 3(3) arrival(2)] by simp
      then show ?thesis using 3 arrival by (subst detect_loop.simps) (simp add: info6_def info7_def)
    next
      case 4
      have "fst (detect_loop L tok rtok dl False k s') = verdict dl ?as"
        using less.hyps [OF shrink] arrival less.prems by simp
      then show ?thesis using 4 arrival
        by (subst detect_loop.simps) (simp add: info6_def info7_def verdict_skip)
    qed
  qed
qed

text \<open>
  C13: Version detection prefers 0.6 and is bounded. Whatever datagrams arrive, in whatever order,
  the probe answers 0.6 exactly if a 0.6 info arrives within the window, which is the timeout or, once
  a 0.7 info has come, a quarter of a second from then if that ends sooner; otherwise 0.7 if a 0.7
  info arrives within the timeout; otherwise the typed failure. Stray datagrams, token replies and
  the end of the caller's context change nothing else.
\<close>

theorem detection_verdict:
  assumes "delays_ok s" and "send_faults s = []" and "0 < timeout"
  shows "fst (detectVersion L None tok reqByte rtok timeout s) =
    (let as = arrivals (clock s) (inbox s); dl = clock s + timeout in
     if \<exists>x \<in> set as. fst x < detect_window dl as \<and> info6 (snd x) then Inr Version06
     else if \<exists>x \<in> set as. fst x < dl \<and> info7 (snd x) then Inr Version07
     else Inl (Wrap ''%w (%v)'' [] ErrVersionDetectFailed))"
proof -
  let ?s = "s\<lparr>outbox := (outbox s @ [BuildInfoRequestConnless6 reqByte]) @ [BuildTokenRequest tok]\<rparr>"
  have "detectVersion L None tok reqByte rtok timeout s = detect_loop L tok rtok (clock s + timeout) False 0 ?s"
    using assms(2,3) by (simp add: detectVersion_def Let_def SendRaw_ok)
  with detect_loop_verdict [of ?s] assms show ?thesis by (simp add: delays_ok_def verdict_def Let_def)
qed

text \<open>A 0.7 reply comes first and a 0.6 one 200 milliseconds later: 0.6.\<close>

definition both_protocols :: conn_state where
  "both_protocols = \<lparr>inbox = [(30000000, Arrive (reply7 [1, 2, 3, 4] [5, 6, 7, 8] [])), (200000000, Arrive (reply6 []))],
     outbox = [], send_faults = [], clock = 0\<rparr>"

theorem detection_verdict_witness:
  "fst (detectVersion wire_lib None [1, 2, 3, 4] 9 (\<lambda>_. 0) DefaultDetectTimeout both_protocols) = Inr Version06"
proof -
  have *: "delays_ok both_protocols" "send_faults both_protocols = []" "0 < DefaultDetectTimeout" by code_simp+
  have "\<exists>x \<in> set (arrivals (clock both_protocols) (inbox both_protocols)).
      fst x < detect_window (clock both_protocols + DefaultDetectTimeout) (arrivals (clock both_protocols) (inbox both_protocols))
      \<and> info6 (snd x)"
    by code_simp
  then show ?thesis unfolding detection_verdict [OF *] Let_def by simp
qed

end
