(* ===== verification/Query.thy ===== *)
theory Query
  imports Browser
begin

text \<open>
  master/query.go and master/scanlan.go: the info of one server, and the servers of the local
  network. \<open>net.ParseIP\<close> is a parameter; the reads of a scan are a script of sources and
  datagrams that ends with the window. The random numbers are arguments.
\<close>

section \<open>QueryServerInfo\<close>

definition DefaultQueryTimeout :: int where "DefaultQueryTimeout = 5 * second"

definition maxInfoReads :: nat where "maxInfoReads = 8"

text \<open>The loop all three waits have: the first datagram that is asked for among so many.\<close>

fun read_until ::
    "nat \<Rightarrow> (byte list \<Rightarrow> 'a option) \<Rightarrow> int \<Rightarrow> string \<Rightarrow> string \<Rightarrow> ('z conn_state_scheme, 'a) gost" where
  "read_until 0 pick deadline recvMsg noneMsg s = (Inl (Err noneMsg []), s)"
| "read_until (Suc n) pick deadline recvMsg noneMsg s =
     (case RecvUntil deadline s of
        (Inl e, s1) \<Rightarrow> (Inl (wrap_err recvMsg [] e), s1)
      | (Inr datagram, s1) \<Rightarrow>
          (case pick datagram of
             Some x \<Rightarrow> (Inr x, s1)
           | None \<Rightarrow> read_until n pick deadline recvMsg noneMsg s1))"

definition query6 :: "int \<Rightarrow> byte \<Rightarrow> ('z conn_state_scheme, server_info) gost" where
  "query6 deadline reqByte =
     bnd (wrapped ''master: 0.6 send getinfo: %w'' [] (SendRaw (BuildInfoRequestConnless6 reqByte))) (\<lambda>_.
     bnd (read_until maxInfoReads ConnlessInfoPayload6 deadline ''master: 0.6 recv info: %w'' ''master: 0.6 no info response'')
       (\<lambda>body s. (ParseInfoResponse6 body, s)))"

definition recvServerToken7 :: "int \<Rightarrow> ('z conn_state_scheme, byte list) gost" where
  "recvServerToken7 deadline =
     read_until maxInfoReads ParseTokenResponse deadline ''master: 0.7 recv token: %w'' ''master: 0.7 no token reply''"

definition query7 :: "varint_lib \<Rightarrow> int \<Rightarrow> byte list \<Rightarrow> int \<Rightarrow> ('z conn_state_scheme, server_info) gost" where
  "query7 L deadline clientToken reqToken =
     bnd (wrapped ''master: 0.7 send token request: %w'' [] (SendRaw (BuildTokenRequest clientToken))) (\<lambda>_.
     bnd (recvServerToken7 deadline) (\<lambda>serverToken.
     bnd (wrapped ''master: 0.7 send getinfo: %w'' []
            (SendRaw (BuildInfoRequestConnless7 L serverToken clientToken reqToken))) (\<lambda>_.
     bnd (read_until maxInfoReads ConnlessInfoPayload7 deadline ''master: 0.7 recv info: %w'' ''master: 0.7 no info response'')
       (\<lambda>body s. (ParseInfoResponse7 L body, s)))))"

definition QueryServerInfo ::
    "varint_lib \<Rightarrow> int \<Rightarrow> goerr option \<Rightarrow> int \<Rightarrow> byte \<Rightarrow> byte list \<Rightarrow> int \<Rightarrow> ('z conn_state_scheme, server_info) gost" where
  "QueryServerInfo L queryTimeout dialError version reqByte clientToken reqToken s =
     (let deadline = clock s + queryTimeout in
      case dialError of
        Some e \<Rightarrow> (Inl (wrap_err ''master: dial %s: %w'' [] e), s)
      | None \<Rightarrow>
          if version = Version06 then query6 deadline reqByte s
          else if version = Version07 then query7 L deadline clientToken reqToken s
          else (Inl (Err ''master: unsupported version %v'' [version]), s))"

section \<open>What a query reads\<close>

text \<open>Datagrams, one after another.\<close>

definition arriving :: "(int \<times> byte list) list \<Rightarrow> (int \<times> net_event) list" where
  "arriving ds = map (\<lambda>(d, bs). (d, Arrive bs)) ds"

definition total :: "(int \<times> byte list) list \<Rightarrow> int" where
  "total ds = sum_list (map fst ds)"

lemma total_nonneg: "list_all (\<lambda>x. 0 \<le> fst x) ds \<Longrightarrow> 0 \<le> total ds"
  by (induction ds) (simp_all add: total_def)

lemma read_until_finds:
  assumes "list_all (\<lambda>x. 0 \<le> fst x) strays" and "list_all (\<lambda>x. pick (take MaxPacketSize (snd x)) = None) strays"
    and "pick (take MaxPacketSize bs) = Some x" and "length strays < n"
    and "inbox s = arriving (strays @ [(d, bs)]) @ rest" and "0 \<le> d" and "clock s + total strays + d < dl"
  shows "read_until n pick dl m1 m2 s = (Inr x, s\<lparr>inbox := rest, clock := clock s + total strays + d\<rparr>)"
  using assms
proof (induction strays arbitrary: n s)
  case Nil
  then obtain k where "n = Suc k" by (cases n) auto
  with Nil show ?case
    by (simp add: arriving_def total_def RecvUntil_def RecvContext_def take_event_def)
next
  case (Cons y ys)
  obtain k where n: "n = Suc k" using Cons.prems(4) by (cases n) auto
  obtain e bs' where y: "y = (e, bs')" by fastforce
  let ?s = "take_event e (arriving (ys @ [(d, bs)]) @ rest) s"
  have "0 \<le> total ys" using Cons.prems(1) by (simp add: total_nonneg)
  then have "clock s + e < dl" using Cons.prems(6,7) y by (simp add: total_def)
  then have run: "RecvUntil dl s = (Inr (take MaxPacketSize bs'), ?s)"
    using Cons.prems(5) by (simp add: y arriving_def RecvUntil_def RecvContext_def)
  have "read_until k pick dl m1 m2 ?s = (Inr x, ?s\<lparr>inbox := rest, clock := clock ?s + total ys + d\<rparr>)"
    by (rule Cons.IH) (use Cons.prems n y in \<open>auto simp: take_event_def total_def\<close>)
  with run Cons.prems(2) y n show ?case by (simp add: take_event_def total_def add.assoc)
qed

lemma read_until_gives_up:
  assumes "list_all (\<lambda>x. 0 \<le> fst x) strays" and "list_all (\<lambda>x. pick (take MaxPacketSize (snd x)) = None) strays"
    and "inbox s = arriving strays @ rest" and "clock s + total strays < dl"
  shows "read_until (length strays) pick dl m1 m2 s =
    (Inl (Err m2 []), s\<lparr>inbox := rest, clock := clock s + total strays\<rparr>)"
  using assms
proof (induction strays arbitrary: s)
  case Nil
  then show ?case by (simp add: arriving_def total_def)
next
  case (Cons y ys)
  obtain e bs' where y: "y = (e, bs')" by fastforce
  let ?s = "take_event e (arriving ys @ rest) s"
  have "0 \<le> total ys" using Cons.prems(1) by (simp add: total_nonneg)
  then have "clock s + e < dl" using Cons.prems(4) y by (simp add: total_def)
  then have run: "RecvUntil dl s = (Inr (take MaxPacketSize bs'), ?s)"
    using Cons.prems(3) by (simp add: y arriving_def RecvUntil_def RecvContext_def)
  have "read_until (length ys) pick dl m1 m2 ?s = (Inl (Err m2 []), ?s\<lparr>inbox := rest, clock := clock ?s + total ys\<rparr>)"
    by (rule Cons.IH) (use Cons.prems y in \<open>auto simp: take_event_def total_def\<close>)
  with run Cons.prems(2) y show ?case by (simp add: take_event_def total_def add.assoc)
qed

text \<open>
  C15: A query tells the server's info. If a 0.6 server's reply is among the first eight datagrams
  and within the timeout, the query returns exactly the server it describes, whatever else arrived
  before it (as long as it is no info reply), and reads nothing after it.
\<close>

theorem query_finds_server6:
  assumes "list_all (\<lambda>x. 0 \<le> fst x) strays" and "list_all (\<lambda>x. \<not> info6 (take MaxPacketSize (snd x))) strays"
    and "length strays < maxInfoReads" and "0 \<le> d" and "total strays + d < timeout"
    and "inbox s = arriving (strays @ [(d, reply6 (info_body6 tok version i))]) @ rest" and "send_faults s = []"
    and "clean tok" and "clean version" and "info_texts i" and "info_numbers in_int i"
    and "length (reply6 (info_body6 tok version i)) \<le> MaxPacketSize"
  shows "QueryServerInfo L timeout None Version06 reqByte clientToken reqToken s =
    (Inr i, s\<lparr>inbox := rest, clock := clock s + total strays + d, outbox := outbox s @ [BuildInfoRequestConnless6 reqByte]\<rparr>)"
proof -
  let ?s = "s\<lparr>outbox := outbox s @ [BuildInfoRequestConnless6 reqByte]\<rparr>"
  have "read_until maxInfoReads ConnlessInfoPayload6 (clock s + timeout) m1 m2 ?s =
      (Inr (info_body6 tok version i), ?s\<lparr>inbox := rest, clock := clock ?s + total strays + d\<rparr>)" for m1 m2
    by (rule read_until_finds [where strays = strays])
      (use assms in \<open>simp_all add: info6_def reply6_payload\<close>)
  then show ?thesis
    using info_roundtrip6_holds [OF assms(8-11)] assms(7)
    by (simp add: QueryServerInfo_def query6_def SendRaw_ok Let_def)
qed

lemma sample_length: "length (reply6 (info_body6 (bytes_of ''7'') (bytes_of ''0.6.4'') sample_info)) \<le> 200"
  by (simp add: reply6_def info_body6_def client_body6_def text0_def sample_info_def bytes_of_def itoa_def dec.simps
      magic_bytes connlessPrefix_def)

definition asked_server :: conn_state where
  "asked_server = \<lparr>inbox = arriving ([(1000, [1, 2, 3])] @ [(20000000, reply6 (info_body6 (bytes_of ''7'') (bytes_of ''0.6.4'') sample_info))]) @ [],
     outbox = [], send_faults = [], clock = 0\<rparr>"

theorem query_finds_server6_witness:
  "QueryServerInfo wire_lib DefaultQueryTimeout None Version06 7 [1, 2, 3, 4] 0 asked_server =
    (Inr sample_info, asked_server\<lparr>inbox := [], clock := clock asked_server + total [(1000, [1, 2, 3])] + 20000000,
       outbox := outbox asked_server @ [BuildInfoRequestConnless6 7]\<rparr>)"
proof (rule query_finds_server6 [where tok = "bytes_of ''7''" and version = "bytes_of ''0.6.4''"])
  show "inbox asked_server = arriving ([(1000, [1, 2, 3])] @
      [(20000000, reply6 (info_body6 (bytes_of ''7'') (bytes_of ''0.6.4'') sample_info))]) @ []"
    by (simp only: asked_server_def conn_state.simps)
  show "send_faults asked_server = []" by (simp only: asked_server_def conn_state.simps)
  show "list_all (\<lambda>x. \<not> info6 (take MaxPacketSize (snd x))) [(1000 :: int, [1, 2, 3])]"
    by (simp add: info6_def ConnlessInfoPayload6_def info_payload_def magic_bytes)
  show "total [(1000, [1, 2, 3])] + 20000000 < DefaultQueryTimeout" by code_simp
  show "length (reply6 (info_body6 (bytes_of ''7'') (bytes_of ''0.6.4'') sample_info)) \<le> MaxPacketSize"
    using sample_length by (simp add: MaxPacketSize_def)
  show "length [(1000 :: int, [1 :: byte, 2, 3])] < maxInfoReads" by code_simp
qed (simp_all add: sample_texts)

text \<open>Eight datagrams that are no info end a query, however much time is left.\<close>

lemma query_gives_up6:
  assumes "list_all (\<lambda>x. 0 \<le> fst x) strays" and "list_all (\<lambda>x. \<not> info6 (take MaxPacketSize (snd x))) strays"
    and "length strays = maxInfoReads" and "total strays < timeout"
    and "inbox s = arriving strays @ rest" and "send_faults s = []"
  shows "fst (QueryServerInfo L timeout None Version06 reqByte clientToken reqToken s) =
    Inl (Err ''master: 0.6 no info response'' [])"
proof -
  let ?s = "s\<lparr>outbox := outbox s @ [BuildInfoRequestConnless6 reqByte]\<rparr>"
  have "read_until (length strays) ConnlessInfoPayload6 (clock s + timeout) m1 m2 ?s =
      (Inl (Err m2 []), ?s\<lparr>inbox := rest, clock := clock ?s + total strays\<rparr>)" for m1 m2
    by (rule read_until_gives_up) (use assms in \<open>simp_all add: info6_def\<close>)
  then show ?thesis using assms(3,6)
    by (simp add: QueryServerInfo_def query6_def SendRaw_ok Let_def)
qed

section \<open>ScanLAN\<close>

definition DefaultScanPortLo :: int where "DefaultScanPortLo = 8303"
definition DefaultScanPortHi :: int where "DefaultScanPortHi = 8310"
definition DefaultScanTimeout :: int where "DefaultScanTimeout = 2 * second"

record lan_server =
  ls_Addr :: "byte list"
  ls_Version :: int
  ls_Info :: server_info

record scan_config =
  sn_portLo :: int
  sn_portHi :: int
  sn_bcastAddrs :: "byte list list"
  sn_timeout :: int

definition WithScanPorts :: "int \<Rightarrow> int \<Rightarrow> scan_config \<Rightarrow> scan_config" where
  "WithScanPorts lo hi s = (if lo > 0 \<and> hi \<ge> lo \<and> hi < 65536 then s\<lparr>sn_portLo := lo, sn_portHi := hi\<rparr> else s)"

definition WithBroadcastAddrs :: "byte list list \<Rightarrow> scan_config \<Rightarrow> scan_config" where
  "WithBroadcastAddrs addrs s = (if addrs \<noteq> [] then s\<lparr>sn_bcastAddrs := addrs\<rparr> else s)"

definition WithScanTimeout :: "int \<Rightarrow> scan_config \<Rightarrow> scan_config" where
  "WithScanTimeout d s = (if d > 0 then s\<lparr>sn_timeout := d\<rparr> else s)"

definition scan_configured :: "(scan_config \<Rightarrow> scan_config) option list \<Rightarrow> scan_config" where
  "scan_configured opts =
     foldl (\<lambda>s opt. case opt of None \<Rightarrow> s | Some f \<Rightarrow> f s)
       \<lparr>sn_portLo = DefaultScanPortLo, sn_portHi = DefaultScanPortHi, sn_bcastAddrs = [bytes_of ''255.255.255.255''],
        sn_timeout = DefaultScanTimeout\<rparr> opts"

text \<open>The datagrams broadcast: destination address, port, bytes. \<open>rbyte n\<close> is the \<open>n\<close>-th random byte.\<close>

definition scan_targets :: "(byte list \<Rightarrow> 'ip option) \<Rightarrow> scan_config \<Rightarrow> ('ip \<times> int) list" where
  "scan_targets ParseIP cfg =
     concat (map (\<lambda>a. case ParseIP a of None \<Rightarrow> [] | Some ip \<Rightarrow> map (\<lambda>p. (ip, p)) [sn_portLo cfg .. sn_portHi cfg])
       (sn_bcastAddrs cfg))"

definition scan_requests ::
    "(byte list \<Rightarrow> 'ip option) \<Rightarrow> (nat \<Rightarrow> byte) \<Rightarrow> byte list \<Rightarrow> scan_config \<Rightarrow> (('ip \<times> int) \<times> byte list) list" where
  "scan_requests ParseIP rbyte clientToken cfg =
     concat (map (\<lambda>(n, dst). [(dst, BuildInfoRequestConnless6 (rbyte n)), (dst, BuildTokenRequest clientToken)])
       (enumerate 0 (scan_targets ParseIP cfg)))"

definition scan_key :: "byte list \<Rightarrow> int \<Rightarrow> byte list" where
  "scan_key addr v = addr @ 124 # itoa v"

text \<open>The servers found, and the token-routed requests sent back to their sources.\<close>

record scan_state =
  sn_found :: "(byte list, lan_server) fmap"
  sn_routed :: "(byte list \<times> byte list) list"

definition scan_found :: "byte list \<Rightarrow> int \<Rightarrow> goerr + server_info \<Rightarrow> scan_state \<Rightarrow> scan_state" where
  "scan_found addr v r st =
     (case r of
        Inl e \<Rightarrow> st
      | Inr info \<Rightarrow> st\<lparr>sn_found := fmupd (scan_key addr v) \<lparr>ls_Addr = addr, ls_Version = v, ls_Info = info\<rparr> (sn_found st)\<rparr>)"

definition scan_read ::
    "varint_lib \<Rightarrow> byte list \<Rightarrow> (nat \<Rightarrow> int) \<Rightarrow> scan_state \<Rightarrow> byte list \<times> byte list \<Rightarrow> scan_state" where
  "scan_read L clientToken rtok st x =
     (case x of (addr, raw) \<Rightarrow>
        let datagram = take 4096 raw in
        (case ConnlessInfoPayload6 datagram of
           Some body \<Rightarrow> scan_found addr Version06 (ParseInfoResponse6 body) st
         | None \<Rightarrow>
             (case ConnlessInfoPayload7 datagram of
                Some body \<Rightarrow> scan_found addr Version07 (ParseInfoResponse7 L body) st
              | None \<Rightarrow>
                  (case ParseTokenResponse datagram of
                     Some tok \<Rightarrow>
                       st\<lparr>sn_routed := sn_routed st @
                            [(addr, BuildInfoRequestConnless7 L tok clientToken (rtok (length (sn_routed st))))]\<rparr>
                   | None \<Rightarrow> st))))"

definition scan_reads ::
    "varint_lib \<Rightarrow> byte list \<Rightarrow> (nat \<Rightarrow> int) \<Rightarrow> (byte list \<times> byte list) list \<Rightarrow> scan_state" where
  "scan_reads L clientToken rtok reads =
     foldl (scan_read L clientToken rtok) \<lparr>sn_found = fmempty, sn_routed = []\<rparr> reads"

text \<open>
  The whole scan: the datagrams it sends and the servers it found. The order of the result is the
  order of Go's map iteration, the parameter \<open>rng\<close>.
\<close>

definition ScanLAN ::
    "varint_lib \<Rightarrow> (byte list \<Rightarrow> 'ip option) \<Rightarrow> (lan_server fset \<Rightarrow> lan_server list) \<Rightarrow> goerr option \<Rightarrow> (nat \<Rightarrow> byte) \<Rightarrow>
     (nat \<Rightarrow> int) \<Rightarrow> byte list \<Rightarrow> (scan_config \<Rightarrow> scan_config) option list \<Rightarrow> (byte list \<times> byte list) list \<Rightarrow>
     goerr + ((('ip \<times> int) \<times> byte list) list \<times> (byte list \<times> byte list) list \<times> lan_server list)" where
  "ScanLAN L ParseIP rng listenError rbyte rtok clientToken opts reads =
     (case listenError of
        Some e \<Rightarrow> Inl (wrap_err ''master: lan scan listen: %w'' [] e)
      | None \<Rightarrow>
          (let st = scan_reads L clientToken rtok reads in
           Inr (scan_requests ParseIP rbyte clientToken (scan_configured opts), sn_routed st, rng (fmran (sn_found st)))))"

section \<open>What a scan lists\<close>

text \<open>The info a datagram tells of an address, and all of them in order.\<close>

definition answer :: "varint_lib \<Rightarrow> int \<Rightarrow> byte list \<Rightarrow> byte list \<times> byte list \<Rightarrow> server_info option" where
  "answer L v a x =
     (if fst x \<noteq> a then None
      else
        (case (if v = Version06 then ConnlessInfoPayload6 else ConnlessInfoPayload7) (take 4096 (snd x)) of
           None \<Rightarrow> None
         | Some body \<Rightarrow>
             (case (if v = Version06 then ParseInfoResponse6 else ParseInfoResponse7 L) body of
                Inl e \<Rightarrow> None | Inr i \<Rightarrow> Some i)))"

definition answers :: "varint_lib \<Rightarrow> int \<Rightarrow> byte list \<Rightarrow> (byte list \<times> byte list) list \<Rightarrow> server_info list" where
  "answers L v a reads = List.map_filter (answer L v a) reads"

lemma versions_differ: "Version06 \<noteq> Version07" "Version07 \<noteq> Version06"
  by (simp_all add: Version06_def Version07_def)

lemma scan_key_inj:
  assumes "v \<in> {Version06, Version07}" "w \<in> {Version06, Version07}"
  shows "scan_key a v = scan_key b w \<longleftrightarrow> a = b \<and> v = w"
proof -
  have "itoa Version06 = [54]" "itoa Version07 = [55]" by code_simp+
  with assms show ?thesis by (auto simp: scan_key_def)
qed

lemma found_lookup:
  assumes "v \<in> {Version06, Version07}" "w \<in> {Version06, Version07}"
  shows "fmlookup (sn_found (scan_found addr w r st)) (scan_key a v) =
    (case r of
       Inl e \<Rightarrow> fmlookup (sn_found st) (scan_key a v)
     | Inr i \<Rightarrow> if addr = a \<and> w = v then Some \<lparr>ls_Addr = a, ls_Version = v, ls_Info = i\<rparr>
         else fmlookup (sn_found st) (scan_key a v))"
  using scan_key_inj [OF assms(2,1), of addr a] by (auto simp: scan_found_def split: sum.splits)

lemma read_lookup:
  assumes v: "v \<in> {Version06, Version07}"
  shows "fmlookup (sn_found (scan_read L tok rtok st x)) (scan_key a v) =
    (case answer L v a x of
       None \<Rightarrow> fmlookup (sn_found st) (scan_key a v)
     | Some i \<Rightarrow> Some \<lparr>ls_Addr = a, ls_Version = v, ls_Info = i\<rparr>)"
proof -
  obtain addr raw where x: "x = (addr, raw)" by fastforce
  let ?d = "take 4096 raw"
  show ?thesis
  proof (cases "ConnlessInfoPayload6 ?d")
    case (Some body)
    then have six: "ConnlessInfoPayload7 ?d = None" using never_both [of ?d] by simp
    have "fmlookup (sn_found (scan_read L tok rtok st x)) (scan_key a v) =
        fmlookup (sn_found (scan_found addr Version06 (ParseInfoResponse6 body) st)) (scan_key a v)"
      using Some by (simp add: scan_read_def x)
    also have "\<dots> = (case answer L v a x of None \<Rightarrow> fmlookup (sn_found st) (scan_key a v)
        | Some i \<Rightarrow> Some \<lparr>ls_Addr = a, ls_Version = v, ls_Info = i\<rparr>)"
      using v by (cases "ParseInfoResponse6 body") (auto simp: found_lookup answer_def x Some six versions_differ)
    finally show ?thesis .
  next
    case None
    show ?thesis
    proof (cases "ConnlessInfoPayload7 ?d")
      case (Some body)
      have "fmlookup (sn_found (scan_read L tok rtok st x)) (scan_key a v) =
          fmlookup (sn_found (scan_found addr Version07 (ParseInfoResponse7 L body) st)) (scan_key a v)"
        using Some None by (simp add: scan_read_def x)
      also have "\<dots> = (case answer L v a x of None \<Rightarrow> fmlookup (sn_found st) (scan_key a v)
          | Some i \<Rightarrow> Some \<lparr>ls_Addr = a, ls_Version = v, ls_Info = i\<rparr>)"
        using v by (cases "ParseInfoResponse7 L body") (auto simp: found_lookup answer_def x Some None versions_differ)
      finally show ?thesis .
    next
      case none7: None
      have "answer L v a x = None" using v by (auto simp: answer_def x None none7)
      then show ?thesis by (simp add: scan_read_def x None none7 split: option.splits)
    qed
  qed
qed

text \<open>
  C17: A scan lists every server that answered, once, as it answered last. For every address and
  protocol, the scan holds an entry exactly if a well-formed info reply of that protocol came from
  that address, and the entry is the address, the protocol and the info of the last such reply;
  no other datagram, malformed reply or answer of another host changes it.
\<close>

theorem scan_lists_last_answer:
  assumes "v \<in> {Version06, Version07}"
  shows "fmlookup (sn_found (scan_reads L tok rtok reads)) (scan_key a v) =
    (if answers L v a reads = [] then None
     else Some \<lparr>ls_Addr = a, ls_Version = v, ls_Info = last (answers L v a reads)\<rparr>)"
proof (induction reads rule: rev_induct)
  case Nil
  then show ?case by (simp add: scan_reads_def answers_def List.map_filter_def)
next
  case (snoc x reads)
  have st: "scan_reads L tok rtok (reads @ [x]) = scan_read L tok rtok (scan_reads L tok rtok reads) x"
    by (simp add: scan_reads_def)
  have "answers L v a (reads @ [x]) = answers L v a reads @ (case answer L v a x of None \<Rightarrow> [] | Some i \<Rightarrow> [i])"
    by (simp add: answers_def List.map_filter_def split: option.splits)
  with snoc show ?case unfolding st read_lookup [OF assms] by (simp split: option.splits)
qed

definition lan_reads :: "(byte list \<times> byte list) list" where
  "lan_reads = [(bytes_of ''10.0.0.2:8303'', reply6 (info_body6 (bytes_of ''7'') (bytes_of ''0.6.4'') sample_info)),
     (bytes_of ''10.0.0.2:8303'', [1, 2]),
     (bytes_of ''10.0.0.3:8303'', reply6 (bytes_of ''broken''))]"

theorem scan_lists_last_answer_witness:
  "fmlookup (sn_found (scan_reads wire_lib [1, 2, 3, 4] (\<lambda>_. 0) lan_reads)) (scan_key (bytes_of ''10.0.0.2:8303'') Version06) =
    Some \<lparr>ls_Addr = bytes_of ''10.0.0.2:8303'', ls_Version = Version06, ls_Info = sample_info\<rparr>"
proof -
  let ?b = "info_body6 (bytes_of ''7'') (bytes_of ''0.6.4'') sample_info"
  have "ParseInfoResponse6 ?b = Inr sample_info" by (rule info_roundtrip6_holds) (rule sample_texts)+
  moreover have "take 4096 (reply6 ?b) = reply6 ?b" using sample_length by simp
  ultimately have one: "answer wire_lib Version06 a (a, reply6 ?b) = Some sample_info" for a
    by (simp add: answer_def reply6_payload)
  have "answer wire_lib Version06 a (b, [1, 2]) = None" for a b
    by (simp add: answer_def ConnlessInfoPayload6_def info_payload_def magic_bytes)
  moreover have "answer wire_lib Version06 (bytes_of ''10.0.0.2:8303'') (bytes_of ''10.0.0.3:8303'', raw) = None" for raw
    by (simp add: answer_def bytes_of_def of_char_def)
  ultimately have "answers wire_lib Version06 (bytes_of ''10.0.0.2:8303'') lan_reads = [sample_info]"
    using one by (simp add: answers_def lan_reads_def List.map_filter_def)
  then show ?thesis
    using scan_lists_last_answer [of Version06 wire_lib "[1, 2, 3, 4]" "\<lambda>_. 0" lan_reads "bytes_of ''10.0.0.2:8303''"] by simp
qed

end
