(* ===== verification/Master.thy ===== *)
theory Master
  imports Query
begin

text \<open>
  master/policy.go and master/master.go: which master server a list is fetched from, and what
  becomes of it. The web server and encoding/json are parameters: \<open>http_do\<close> is the status and the
  body of a GET request, \<open>json_decode\<close> the decoded value. One fetch sees the outcomes of its calls
  as a function \<open>call k url\<close> of the number of the call and the master called; the order in which
  concurrent calls finish is a parameter.
\<close>

section \<open>Request policies\<close>

definition errNoMasters :: goerr where "errNoMasters = Err ''master: no masters configured'' []"

definition wrapAllFailed :: "goerr option \<Rightarrow> goerr" where
  "wrapAllFailed r = (case r of None \<Rightarrow> errNoMasters | Some e \<Rightarrow> Wrap ''master: all masters failed: %w'' [] e)"

type_synonym ('u, 'e) calls = "nat \<Rightarrow> 'u \<Rightarrow> goerr + 'e"

text \<open>The loop: the first success, or the last error. With a success comes the number of the call.\<close>

fun first_valid :: "('u, 'e) calls \<Rightarrow> nat \<Rightarrow> goerr option \<Rightarrow> 'u list \<Rightarrow> goerr + (nat \<times> 'e)" where
  "first_valid call k failed [] = Inl (wrapAllFailed failed)"
| "first_valid call k failed (m # ms) =
     (case call k m of Inr entries \<Rightarrow> Inr (k, entries) | Inl e \<Rightarrow> first_valid call (k + 1) (Some e) ms)"

definition failover :: "unit \<Rightarrow> 'u list \<Rightarrow> ('u, 'e) calls \<Rightarrow> (goerr + 'e) \<times> unit" where
  "failover st masters call =
     (case first_valid call 0 None masters of Inl e \<Rightarrow> (Inl e, st) | Inr (k, entries) \<Rightarrow> (Inr entries, st))"

text \<open>The cursor of \<open>roundRobin\<close> is a uint64.\<close>

definition roundRobin :: "64 word \<Rightarrow> 'u list \<Rightarrow> ('u, 'e) calls \<Rightarrow> (goerr + 'e) \<times> 64 word" where
  "roundRobin cursor masters call =
     (let n = length masters in
      if n = 0 then (Inl errNoMasters, cursor)
      else
        (let start = unat cursor mod n in
         case first_valid call 0 None (map (\<lambda>i. masters ! ((start + i) mod n)) [0..<n]) of
           Inl e \<Rightarrow> (Inl e, cursor + 1)
         | Inr (k, entries) \<Rightarrow> (Inr entries, cursor + 1)))"

text \<open>
  \<open>chooseFastest\<close>: the cached master first; else all at once. \<open>order\<close> lists the indices in the order
  in which the probes finish.
\<close>

definition probe_all :: "nat list \<Rightarrow> int \<Rightarrow> nat \<Rightarrow> 'u list \<Rightarrow> ('u, 'e) calls \<Rightarrow> (goerr + 'e) \<times> int" where
  "probe_all order best k masters call =
     (case first_valid call k None (map (\<lambda>i. masters ! i) order) of
        Inl e \<Rightarrow> (Inl e, best)
      | Inr (j, entries) \<Rightarrow> (Inr entries, int (order ! (j - k))))"

definition chooseFastest :: "nat list \<Rightarrow> int \<Rightarrow> 'u list \<Rightarrow> ('u, 'e) calls \<Rightarrow> (goerr + 'e) \<times> int" where
  "chooseFastest order best masters call =
     (let n = length masters in
      if n = 0 then (Inl errNoMasters, best)
      else if 0 \<le> best \<and> best < int n then
        (case call 0 (masters ! nat best) of
           Inr entries \<Rightarrow> (Inr entries, best)
         | Inl e \<Rightarrow> probe_all order best 1 masters call)
      else probe_all order best 0 masters call)"

section \<open>The interface RequestPolicy\<close>

text \<open>
  What a policy promises: a list is one that some master gave, an error means that every master
  was called and failed. \<open>ok\<close> is what the policy assumes of the masters configured.
\<close>

locale request_policy =
  fixes fetch :: "'st \<Rightarrow> 'u list \<Rightarrow> ('u, 'e) calls \<Rightarrow> (goerr + 'e) \<times> 'st"
    and ok :: "'u list \<Rightarrow> bool"
  assumes some_master: "ok masters \<Longrightarrow> fetch st masters call = (Inr entries, st') \<Longrightarrow>
      \<exists>k. \<exists>m \<in> set masters. call k m = Inr entries"
    and every_master: "ok masters \<Longrightarrow> fetch st masters call = (Inl e, st') \<Longrightarrow> m \<in> set masters \<Longrightarrow>
      \<exists>k e'. call k m = Inl e'"
begin

lemma healthy_master_found:
  assumes "ok masters" and "m \<in> set masters" and "\<And>k. \<exists>entries. call k m = Inr entries"
  shows "\<exists>entries st'. fetch st masters call = (Inr entries, st') \<and> (\<exists>k. \<exists>m' \<in> set masters. call k m' = Inr entries)"
proof -
  obtain r st' where run: "fetch st masters call = (r, st')" by fastforce
  show ?thesis
  proof (cases r)
    case (Inl e)
    with every_master [OF assms(1) _ assms(2)] run assms(3) show ?thesis by (metis sum.distinct(1))
  next
    case (Inr entries)
    with some_master [OF assms(1)] run show ?thesis by blast
  qed
qed

lemma all_dead_fails:
  assumes "ok masters" and "\<And>k m. m \<in> set masters \<Longrightarrow> \<exists>e. call k m = Inl e"
  shows "\<exists>e st'. fetch st masters call = (Inl e, st')"
proof -
  obtain r st' where run: "fetch st masters call = (r, st')" by fastforce
  show ?thesis
  proof (cases r)
    case (Inr entries)
    with some_master [OF assms(1)] run assms(2) show ?thesis by (metis sum.distinct(1))
  qed (use run in blast)
qed

end

lemma first_valid_Inr:
  "first_valid call k failed ms = Inr (j, entries) \<Longrightarrow>
    k \<le> j \<and> j - k < length ms \<and> call j (ms ! (j - k)) = Inr entries"
proof (induction call k failed ms rule: first_valid.induct)
  case (2 call k failed m ms)
  then show ?case by (auto split: sum.splits simp: Suc_diff_le dest!: "2.IH")
qed simp

lemma first_valid_Inl:
  "first_valid call k failed ms = Inl e \<Longrightarrow> m \<in> set ms \<Longrightarrow> \<exists>j e'. call j m = Inl e'"
  by (induction call k failed ms rule: first_valid.induct) (auto split: sum.splits)

lemma first_valid_some:
  "fst (case first_valid call k failed ms of Inl e \<Rightarrow> (Inl e, x) | Inr (j, entries) \<Rightarrow> (Inr entries, y j)) = Inr entries \<Longrightarrow>
    \<exists>k. \<exists>m \<in> set ms. call k m = Inr entries"
proof (cases "first_valid call k failed ms")
  case (Inr r)
  assume run: "fst (case first_valid call k failed ms of Inl e \<Rightarrow> (Inl e, x) | Inr (j, entries) \<Rightarrow> (Inr entries, y j)) = Inr entries"
  obtain j where r: "first_valid call k failed ms = Inr (j, entries)" using run Inr by (cases r) auto
  show ?thesis using first_valid_Inr [OF r] nth_mem by blast
qed simp

lemma first_valid_all:
  "fst (case first_valid call k failed ms of Inl e \<Rightarrow> (Inl e, x) | Inr (j, entries) \<Rightarrow> (Inr entries, y j)) = Inl e' \<Longrightarrow>
    m \<in> set ms \<Longrightarrow> \<exists>k e. call k m = Inl e"
  by (cases "first_valid call k failed ms") (auto dest!: first_valid_Inl)

text \<open>The masters in the order a rotation calls them.\<close>

definition rotation :: "nat \<Rightarrow> 'u list \<Rightarrow> 'u list" where
  "rotation c masters = map (\<lambda>i. masters ! ((c mod length masters + i) mod length masters)) [0..<length masters]"

lemma rotation_eq: "rotation c masters = rotate c masters"
proof (cases "masters = []")
  case False
  then show ?thesis
    by (intro nth_equalityI) (simp_all add: rotation_def nth_rotate mod_add_left_eq)
qed (simp add: rotation_def)

lemma roundRobin_eq:
  "masters \<noteq> [] \<Longrightarrow> roundRobin cursor masters call =
    (case first_valid call 0 None (rotate (unat cursor) masters) of
       Inl e \<Rightarrow> (Inl e, cursor + 1) | Inr (k, entries) \<Rightarrow> (Inr entries, cursor + 1))"
  by (simp add: roundRobin_def Let_def rotation_def [symmetric] rotation_eq)

interpretation failover: request_policy failover "\<lambda>_. True"
proof
  show "\<exists>k. \<exists>m \<in> set masters. call k m = Inr entries" if "failover st masters call = (Inr entries, st')"
    for st st' :: unit and masters :: "'a list" and call :: "('a, 'b) calls" and entries
    using first_valid_some [where call = call and k = 0 and failed = None and ms = masters and x = st and y = "\<lambda>_. st" and entries = entries]
      arg_cong [OF that, of fst] unfolding failover_def fst_conv by blast
  show "\<exists>k e'. call k m = Inl e'" if "failover st masters call = (Inl e, st')" "m \<in> set masters"
    for st st' :: unit and masters :: "'a list" and call :: "('a, 'b) calls" and e m
    using first_valid_all [where call = call and k = 0 and failed = None and ms = masters and x = st and y = "\<lambda>_. st" and e' = e]
      arg_cong [OF that(1), of fst] that(2) unfolding failover_def fst_conv by blast
qed

interpretation roundRobin: request_policy roundRobin "\<lambda>_. True"
proof
  fix st st' :: "64 word" and masters :: "'a list" and call :: "('a, 'b) calls"
  let ?ms = "rotate (unat st) masters"
  show "\<exists>k. \<exists>m \<in> set masters. call k m = Inr entries" if run: "roundRobin st masters call = (Inr entries, st')" for entries
  proof -
    have "masters \<noteq> []" using run by (auto simp: roundRobin_def)
    with run first_valid_some [where call = call and k = 0 and failed = None and ms = ?ms and x = "st + 1" and y = "\<lambda>_. st + 1"] show ?thesis by (simp add: roundRobin_eq)
  qed
  show "\<exists>k e'. call k m = Inl e'" if run: "roundRobin st masters call = (Inl e, st')" "m \<in> set masters" for e m
  proof -
    have "masters \<noteq> []" using run(2) by auto
    with run first_valid_all [where call = call and k = 0 and failed = None and ms = ?ms and x = "st + 1" and y = "\<lambda>_. st + 1"] show ?thesis by (simp add: roundRobin_eq)
  qed
qed

text \<open>The probes finish in some order, each once.\<close>

definition finishes :: "nat list \<Rightarrow> 'u list \<Rightarrow> bool" where
  "finishes order masters \<longleftrightarrow> distinct order \<and> set order = {0..<length masters}"

lemma finishes_set: "finishes order masters \<Longrightarrow> set (map (\<lambda>i. masters ! i) order) = set masters"
  by (simp add: finishes_def) (metis list.set_map map_nth set_upt)

interpretation chooseFastest: request_policy "chooseFastest order" "finishes order"
proof
  fix st st' :: int and masters :: "'a list" and call :: "('a, 'b) calls"
  assume "finishes order masters"
  then have set: "set (map (\<lambda>i. masters ! i) order) = set masters" by (rule finishes_set)
  have probe: "\<exists>k. \<exists>m \<in> set masters. call k m = Inr entries" if "fst (probe_all order st j masters call) = Inr entries"
    for j entries
    using first_valid_some [OF that [unfolded probe_all_def]] unfolding set .
  have dead: "\<exists>k e'. call k m = Inl e'" if "fst (probe_all order st j masters call) = Inl e" "m \<in> set masters" for j e m
    using first_valid_all [OF that(1) [unfolded probe_all_def]] that(2) unfolding set .
  show "\<exists>k. \<exists>m \<in> set masters. call k m = Inr entries" if run: "chooseFastest order st masters call = (Inr entries, st')" for entries
  proof (cases "call 0 (masters ! nat st) = Inr entries \<and> 0 \<le> st \<and> st < int (length masters)")
    case True
    then show ?thesis by (metis nat_less_iff nth_mem)
  next
    case False
    with run have "\<exists>j. fst (probe_all order st j masters call) = Inr entries"
      by (auto simp: chooseFastest_def Let_def split: if_splits sum.splits intro: exI [of _ 0] exI [of _ 1])
    with probe show ?thesis by blast
  qed
  show "\<exists>k e'. call k m = Inl e'" if run: "chooseFastest order st masters call = (Inl e, st')" "m \<in> set masters" for e m
  proof -
    have "\<exists>j. fst (probe_all order st j masters call) = Inl e"
      using run by (auto simp: chooseFastest_def Let_def split: if_splits sum.splits intro: exI [of _ 0] exI [of _ 1])
    with dead run(2) show ?thesis by blast
  qed
qed

lemma every_policy_finds:
  assumes "m \<in> set masters" and "\<And>k. \<exists>entries. call k m = Inr entries" and "finishes order masters"
  shows "(\<exists>entries u. failover u0 masters call = (Inr entries, u) \<and> (\<exists>k. \<exists>m' \<in> set masters. call k m' = Inr entries))
    \<and> (\<exists>entries c. roundRobin cursor masters call = (Inr entries, c) \<and> (\<exists>k. \<exists>m' \<in> set masters. call k m' = Inr entries))
    \<and> (\<exists>entries b. chooseFastest order best masters call = (Inr entries, b) \<and> (\<exists>k. \<exists>m' \<in> set masters. call k m' = Inr entries))"
  using failover.healthy_master_found [OF TrueI assms(1), of call u0] roundRobin.healthy_master_found [OF TrueI assms(1), of call cursor]
    chooseFastest.healthy_master_found [OF assms(3,1), of call best] assms(2) by blast

text \<open>The cached master is the one asked while it works; a probe caches the one that answered.\<close>

lemma cached_master_kept:
  "0 \<le> best \<Longrightarrow> best < int (length masters) \<Longrightarrow> call 0 (masters ! nat best) = Inr entries \<Longrightarrow>
    chooseFastest order best masters call = (Inr entries, best)"
  by (auto simp: chooseFastest_def)

lemma probed_master_cached:
  assumes "finishes order masters" and "probe_all order best k masters call = (Inr entries, best')"
  shows "0 \<le> best' \<and> best' < int (length masters) \<and> (\<exists>j. call j (masters ! nat best') = Inr entries)"
proof -
  obtain j where j: "first_valid call k None (map (\<lambda>i. masters ! i) order) = Inr (j, entries)" "best' = int (order ! (j - k))"
    using assms(2) by (auto simp: probe_all_def split: sum.splits)
  have *: "j - k < length order" "call j (masters ! (order ! (j - k))) = Inr entries"
    using first_valid_Inr [OF j(1)] by auto
  moreover have "order ! (j - k) \<in> set order" using *(1) by simp
  ultimately show ?thesis using j(2) assms(1) by (auto simp: finishes_def)
qed

text \<open>So many fetches, one after another.\<close>

fun fetches :: "nat \<Rightarrow> 64 word \<Rightarrow> 'u list \<Rightarrow> ('u, 'e) calls \<Rightarrow> (goerr + 'e) list" where
  "fetches 0 cursor masters call = []"
| "fetches (Suc n) cursor masters call =
     (case roundRobin cursor masters call of (r, cursor') \<Rightarrow> r # fetches n cursor' masters call)"

lemma fetches_rotate:
  assumes "masters \<noteq> []" and "\<And>m. m \<in> set masters \<Longrightarrow> call 0 m = Inr (list_of m)" and "unat cursor + n \<le> 2 ^ 64"
  shows "fetches n cursor masters call = map (\<lambda>j. Inr (list_of (masters ! ((unat cursor + j) mod length masters)))) [0..<n]"
  using assms(3)
proof (induction n arbitrary: cursor)
  case (Suc n)
  obtain m ms where m: "rotate (unat cursor) masters = m # ms" using assms(1) by (cases "rotate (unat cursor) masters") auto
  then have "m \<in> set masters" by (metis list.set_intros(1) set_rotate)
  then have "roundRobin cursor masters call = (Inr (list_of m), cursor + 1)"
    using assms(1,2) m by (simp add: roundRobin_eq)
  moreover have "m = masters ! (unat cursor mod length masters)"
    using m assms(1) nth_rotate [of 0 masters "unat cursor"] by simp
  moreover have "fetches n (cursor + 1) masters call =
      map (\<lambda>j. Inr (list_of (masters ! ((unat cursor + Suc j) mod length masters)))) [0..<n]"
  proof (cases "n = 0")
    case False
    then have "unat (cursor + 1) = unat cursor + 1"
      using Suc.prems by (intro unat_plus_simple [THEN iffD1, THEN trans]) (simp_all add: word_le_nat_alt unat_word_ariths)
    with Suc show ?thesis by simp
  qed simp
  ultimately show ?case by (simp add: upt_rec [of 0 "Suc n"] map_Suc_upt [symmetric] del: upt_Suc)
qed simp

text \<open>
  Round robin spreads the load. While the masters work, as many fetches in a row as there are
  masters ask every one of them exactly once: the lists they return are those of the masters, in
  configuration order from where the cursor stands (as long as the cursor does not wrap).
\<close>

theorem round_robin_spreads:
  assumes "masters \<noteq> []" and "\<And>m. m \<in> set masters \<Longrightarrow> call 0 m = Inr (list_of m)"
    and "unat cursor + length masters \<le> 2 ^ 64"
  shows "fetches (length masters) cursor masters call = map (\<lambda>m. Inr (list_of m)) (rotate (unat cursor) masters)"
proof -
  have "fetches (length masters) cursor masters call =
      map (\<lambda>j. Inr (list_of (masters ! ((unat cursor + j) mod length masters)))) [0..<length masters]"
    by (rule fetches_rotate) (use assms in auto)
  also have "\<dots> = map (\<lambda>m. Inr (list_of m)) (rotate (unat cursor) masters)"
    by (rule nth_equalityI) (simp_all add: nth_rotate)
  finally show ?thesis .
qed

theorem round_robin_spreads_witness:
  "fetches (length [10, 20, 30 :: nat]) 7 [10, 20, 30] (\<lambda>k m. Inr (m + k)) = map (\<lambda>m. Inr m) (rotate (unat (7 :: 64 word)) [10, 20, 30])"
  by (rule round_robin_spreads) simp_all

section \<open>Addresses\<close>

record address =
  ad_Version :: int
  ad_Host :: "byte list"
  ad_Port :: int

definition address_string :: "address \<Rightarrow> byte list" where
  "address_string a = JoinHostPort (ad_Host a) (itoa (ad_Port a))"

definition scheme06 :: "byte list" where "scheme06 = bytes_of ''tw-0.6+udp://''"
definition scheme07 :: "byte list" where "scheme07 = bytes_of ''tw-0.7+udp://''"

definition ParseAddress :: "byte list \<Rightarrow> address option" where
  "ParseAddress s0 =
     (case (if starts_with scheme06 s0 then Some (Version06, drop (length scheme06) s0)
            else if starts_with scheme07 s0 then Some (Version07, drop (length scheme07) s0)
            else None) of
        None \<Rightarrow> None
      | Some (version, s) \<Rightarrow>
          (case SplitHostPort s of
             None \<Rightarrow> None
           | Some (host, portStr) \<Rightarrow>
               (case atoi portStr of
                  (port, err) \<Rightarrow>
                    if err \<noteq> None \<or> port \<le> 0 \<or> port > 65535 then None
                    else Some \<lparr>ad_Version = version, ad_Host = host, ad_Port = port\<rparr>)))"

section \<open>The list\<close>

record json_client =
  jc_name :: "byte list"
  jc_clan :: "byte list"
  jc_country :: int
  jc_score :: int
  jc_is_player :: bool

record json_info =
  ji_name :: "byte list"
  ji_game_type :: "byte list"
  ji_map_name :: "byte list"
  ji_passworded :: bool
  ji_max_clients :: int
  ji_max_players :: int
  ji_clients :: "json_client list"

record json_server =
  js_addresses :: "byte list list"
  js_location :: "byte list"
  js_info :: json_info

record server_entry =
  en_Addresses :: "address list"
  en_Location :: "byte list"
  en_Info :: server_info

definition player_of :: "json_client \<Rightarrow> player_info" where
  "player_of c = \<lparr>pl_Name = jc_name c, pl_Clan = jc_clan c, pl_Country = jc_country c, pl_Score = jc_score c,
     pl_IsPlayer = jc_is_player c\<rparr>"

text \<open>The loop that counts the players and collects the clients.\<close>

definition toServerInfo :: "json_info \<Rightarrow> server_info" where
  "toServerInfo ji =
     (let (numPlayers, clients) =
        foldl (\<lambda>(n, cs) c. (if jc_is_player c then n + 1 else n, cs @ [player_of c])) (0, []) (ji_clients ji) in
      \<lparr>si_Name = ji_name ji, si_GameType = ji_game_type ji, si_MapName = ji_map_name ji, si_Passworded = ji_passworded ji,
       si_NumPlayers = numPlayers, si_NumClients = int (length (ji_clients ji)), si_MaxPlayers = ji_max_players ji,
       si_MaxClients = ji_max_clients ji, si_Clients = clients\<rparr>)"

definition decodeEntries :: "json_server list \<Rightarrow> server_entry list" where
  "decodeEntries raw =
     map (\<lambda>s. \<lparr>en_Addresses = List.map_filter ParseAddress (js_addresses s), en_Location = js_location s,
       en_Info = toServerInfo (js_info s)\<rparr>) raw"

definition StatusOK :: int where "StatusOK = 200"

definition fetchFrom ::
    "('u \<Rightarrow> goerr option) \<Rightarrow> (nat \<Rightarrow> 'u \<Rightarrow> goerr + (int \<times> byte list)) \<Rightarrow> (byte list \<Rightarrow> goerr + json_server list) \<Rightarrow>
     ('u, server_entry list) calls" where
  "fetchFrom bad_request http_do json_decode k url =
     (case bad_request url of
        Some e \<Rightarrow> Inl (Wrap ''master: build request %q: %w'' [] e)
      | None \<Rightarrow>
          (case http_do k url of
             Inl e \<Rightarrow> Inl (Wrap ''master: get %q: %w'' [] e)
           | Inr (status, body) \<Rightarrow>
               if status \<noteq> StatusOK then Inl (Err ''master: get %q: status %d'' [status])
               else
                 (case json_decode body of
                    Inl e \<Rightarrow> Inl (Wrap ''master: decode %q: %w'' [] e)
                  | Inr raw \<Rightarrow> Inr (decodeEntries raw))))"

text \<open>
  The client of package master. A policy is its \<open>Fetch\<close> with its state; the http client is a value of
  net/http.
\<close>

record ('u, 'p, 'h) master_client =
  ml_masters :: "'u list"
  ml_http :: 'h
  ml_policy :: 'p
  ml_queryTimeout :: int

definition DefaultMasters :: "byte list list" where
  "DefaultMasters = map bytes_of
     [''https://master1.ddnet.org/ddnet/15/servers.json'', ''https://master2.ddnet.org/ddnet/15/servers.json'',
      ''https://master3.ddnet.org/ddnet/15/servers.json'', ''https://master4.ddnet.org/ddnet/15/servers.json'']"

definition WithMasters :: "'u list \<Rightarrow> ('u, 'p, 'h) master_client \<Rightarrow> ('u, 'p, 'h) master_client" where
  "WithMasters urls c = (if urls \<noteq> [] then c\<lparr>ml_masters := urls\<rparr> else c)"

definition WithHTTPClient :: "'h option \<Rightarrow> ('u, 'p, 'h) master_client \<Rightarrow> ('u, 'p, 'h) master_client" where
  "WithHTTPClient hc c = (case hc of None \<Rightarrow> c | Some h \<Rightarrow> c\<lparr>ml_http := h\<rparr>)"

definition WithRequestPolicy :: "'p option \<Rightarrow> ('u, 'p, 'h) master_client \<Rightarrow> ('u, 'p, 'h) master_client" where
  "WithRequestPolicy p c = (case p of None \<Rightarrow> c | Some q \<Rightarrow> c\<lparr>ml_policy := q\<rparr>)"

definition WithQueryTimeout :: "int \<Rightarrow> ('u, 'p, 'h) master_client \<Rightarrow> ('u, 'p, 'h) master_client" where
  "WithQueryTimeout d c = (if d > 0 then c\<lparr>ml_queryTimeout := d\<rparr> else c)"

definition NewMaster ::
    "'h \<Rightarrow> 'p \<Rightarrow> ((byte list, 'p, 'h) master_client \<Rightarrow> (byte list, 'p, 'h) master_client) option list \<Rightarrow>
     (byte list, 'p, 'h) master_client" where
  "NewMaster defaultHTTP fastest opts =
     foldl (\<lambda>c opt. case opt of None \<Rightarrow> c | Some f \<Rightarrow> f c)
       \<lparr>ml_masters = DefaultMasters, ml_http = defaultHTTP, ml_policy = fastest, ml_queryTimeout = DefaultQueryTimeout\<rparr> opts"

definition FetchServerList ::
    "('p \<Rightarrow> 'u list \<Rightarrow> ('u, server_entry list) calls \<Rightarrow> (goerr + server_entry list) \<times> 'p) \<Rightarrow>
     ('h \<Rightarrow> ('u, server_entry list) calls) \<Rightarrow> ('u, 'p, 'h) master_client \<Rightarrow>
     (goerr + server_entry list) \<times> ('u, 'p, 'h) master_client" where
  "FetchServerList fetch fetch_from c =
     (case fetch (ml_policy c) (ml_masters c) (fetch_from (ml_http c)) of (r, p) \<Rightarrow> (r, c\<lparr>ml_policy := p\<rparr>))"

section \<open>What a list holds\<close>

lemma scheme_append:
  "starts_with scheme06 (scheme06 @ s)" "\<not> starts_with scheme06 (scheme07 @ s)" "starts_with scheme07 (scheme07 @ s)"
proof -
  show "starts_with scheme06 (scheme06 @ s)" "starts_with scheme07 (scheme07 @ s)" by simp_all
  have len: "length scheme06 = length scheme07" "scheme06 \<noteq> scheme07" by code_simp+
  then show "\<not> starts_with scheme06 (scheme07 @ s)" by (simp add: starts_with_def)
qed

text \<open>
  A printed address is parsed back: for either protocol, every port and every host without
  brackets (an IPv6 address gets its own), the URL of the address yields that address.
\<close>

theorem address_roundtrip:
  assumes "ad_Version a \<in> {Version06, Version07}" and "91 \<notin> set (ad_Host a)" and "93 \<notin> set (ad_Host a)"
    and "1 \<le> ad_Port a" and "ad_Port a \<le> 65535"
  shows "ParseAddress ((if ad_Version a = Version06 then scheme06 else scheme07) @ address_string a) = Some a"
proof -
  have c: "c \<noteq> 58 \<and> c \<noteq> 91 \<and> c \<noteq> 93" if "c \<in> set (itoa (ad_Port a))" for c
    using itoa_chars [OF that] by (auto simp: is_digit_def)
  have sh: "SplitHostPort (address_string a) = Some (ad_Host a, itoa (ad_Port a))"
    unfolding address_string_def by (rule split_join) (use assms c in auto)
  have "atoi (itoa (ad_Port a)) = (ad_Port a, None)" by (rule atoi_itoa) (use assms in simp_all)
  with sh assms show ?thesis
    by (cases a) (auto simp: ParseAddress_def scheme_append versions_differ)
qed

theorem address_roundtrip_witness:
  "ParseAddress ((if ad_Version \<lparr>ad_Version = Version07, ad_Host = bytes_of ''2001:db8::1'', ad_Port = 8303\<rparr> = Version06
      then scheme06 else scheme07) @ address_string \<lparr>ad_Version = Version07, ad_Host = bytes_of ''2001:db8::1'', ad_Port = 8303\<rparr>) =
    Some \<lparr>ad_Version = Version07, ad_Host = bytes_of ''2001:db8::1'', ad_Port = 8303\<rparr>"
  by (rule address_roundtrip) (simp_all add: bytes_of_def of_char_def)

lemma parsed_address:
  "ParseAddress s = Some a \<Longrightarrow> ad_Version a \<in> {Version06, Version07} \<and> 1 \<le> ad_Port a \<and> ad_Port a \<le> 65535"
  by (auto simp: ParseAddress_def split: option.splits if_splits prod.splits)

text \<open>The counts of a decoded entry are those of its client list.\<close>

lemma counted_clients:
  "foldl (\<lambda>(n, cs) c. (if jc_is_player c then n + 1 else n, cs @ [player_of c])) (n0, cs0) cs =
    (n0 + int (length (filter jc_is_player cs)), cs0 @ map player_of cs)"
  by (induction cs arbitrary: n0 cs0) auto

lemma toServerInfo_counts:
  "si_NumPlayers (toServerInfo ji) = int (length (filter pl_IsPlayer (si_Clients (toServerInfo ji))))
    \<and> si_NumClients (toServerInfo ji) = int (length (si_Clients (toServerInfo ji)))"
proof -
  have "filter jc_is_player cs = filter (pl_IsPlayer \<circ> player_of) cs" for cs by (simp add: player_of_def comp_def)
  then show ?thesis by (simp add: toServerInfo_def counted_clients filter_map)
qed

text \<open>An address that does not parse is skipped; the others are there, in order, and the list is complete.\<close>

lemma decoded_entries:
  "length (decodeEntries raw) = length raw \<and>
    (\<forall>e \<in> set (decodeEntries raw). \<forall>a \<in> set (en_Addresses e). 1 \<le> ad_Port a \<and> ad_Port a \<le> 65535)"
  by (auto simp: decodeEntries_def List.map_filter_def dest: parsed_address)

section \<open>Fetching\<close>

lemma fetchFrom_Inr:
  "fetchFrom bad http_do json_decode k m = Inr entries \<longleftrightarrow>
    (\<exists>body raw. bad m = None \<and> http_do k m = Inr (StatusOK, body) \<and> json_decode body = Inr raw \<and> entries = decodeEntries raw)"
  by (auto simp: fetchFrom_def split: option.splits sum.splits prod.splits)

text \<open>A list that a master of the configuration served.\<close>

definition served_list ::
    "('u \<Rightarrow> goerr option) \<Rightarrow> (nat \<Rightarrow> 'u \<Rightarrow> goerr + (int \<times> byte list)) \<Rightarrow> (byte list \<Rightarrow> goerr + json_server list) \<Rightarrow>
     'u list \<Rightarrow> server_entry list \<Rightarrow> bool" where
  "served_list bad http_do json_decode masters entries \<longleftrightarrow>
     (\<exists>k. \<exists>m \<in> set masters. \<exists>body raw. bad m = None \<and> http_do k m = Inr (StatusOK, body) \<and>
        json_decode body = Inr raw \<and> entries = decodeEntries raw)"

text \<open>
  C16: One healthy master is enough. Under every policy, if one of the masters configured answers
  with a list that decodes whenever it is called, a fetch returns a list, whatever the other masters
  do, whatever was cached or counted before, and in whatever order concurrent probes finish. The
  list is the decoded answer of a master of the configuration; it is empty only if that master
  served an empty list, which the code takes for a valid one.
\<close>

theorem healthy_master_suffices:
  assumes "m \<in> set masters" and "bad m = None"
    and "\<And>k. \<exists>body raw. http_do k m = Inr (StatusOK, body) \<and> json_decode body = Inr raw"
    and "finishes order masters"
  shows "(\<exists>entries u. failover u0 masters (fetchFrom bad http_do json_decode) = (Inr entries, u) \<and> served_list bad http_do json_decode masters entries)
    \<and> (\<exists>entries c. roundRobin cursor masters (fetchFrom bad http_do json_decode) = (Inr entries, c) \<and> served_list bad http_do json_decode masters entries)
    \<and> (\<exists>entries b. chooseFastest order best masters (fetchFrom bad http_do json_decode) = (Inr entries, b) \<and> served_list bad http_do json_decode masters entries)
    \<and> (\<forall>entries. served_list bad http_do json_decode masters entries \<longrightarrow>
         (\<forall>k m' body. m' \<in> set masters \<longrightarrow> http_do k m' = Inr (StatusOK, body) \<longrightarrow> json_decode body \<noteq> Inr []) \<longrightarrow>
         entries \<noteq> [])"
proof -
  let ?call = "fetchFrom bad http_do json_decode"
  have "\<exists>entries. ?call k m = Inr entries" for k
    using assms(3) [of k] assms(2) unfolding fetchFrom_Inr by blast
  then have found: "(\<exists>entries u. failover u0 masters ?call = (Inr entries, u) \<and> (\<exists>k. \<exists>m' \<in> set masters. ?call k m' = Inr entries))
    \<and> (\<exists>entries c. roundRobin cursor masters ?call = (Inr entries, c) \<and> (\<exists>k. \<exists>m' \<in> set masters. ?call k m' = Inr entries))
    \<and> (\<exists>entries b. chooseFastest order best masters ?call = (Inr entries, b) \<and> (\<exists>k. \<exists>m' \<in> set masters. ?call k m' = Inr entries))"
    using assms(1,4) by (intro every_policy_finds)
  have served: "(\<exists>k. \<exists>m' \<in> set masters. ?call k m' = Inr entries) \<longleftrightarrow> served_list bad http_do json_decode masters entries" for entries
    unfolding fetchFrom_Inr served_list_def ..
  have "entries \<noteq> []" if "served_list bad http_do json_decode masters entries"
    "\<forall>k m' body. m' \<in> set masters \<longrightarrow> http_do k m' = Inr (StatusOK, body) \<longrightarrow> json_decode body \<noteq> Inr []" for entries
    using that by (auto simp: served_list_def decodeEntries_def)
  with found [unfolded served] show ?thesis by (intro conjI allI impI) blast+
qed

text \<open>Three masters, of which the second works; the third was cached.\<close>

definition a_server :: json_server where
  "a_server = \<lparr>js_addresses = [], js_location = [101, 117], js_info = \<lparr>ji_name = [], ji_game_type = [], ji_map_name = [],
     ji_passworded = False, ji_max_clients = 64, ji_max_players = 64, ji_clients = []\<rparr>\<rparr>"

definition second_works :: "nat \<Rightarrow> nat \<Rightarrow> goerr + (int \<times> byte list)" where
  "second_works k m = (if m = 1 then Inr (StatusOK, [1]) else Inl deadline_error)"

definition decode_sample :: "byte list \<Rightarrow> goerr + json_server list" where
  "decode_sample body = (if body = [1] then Inr [a_server] else Inr [])"

theorem healthy_master_suffices_witness:
  "(\<exists>entries b. chooseFastest [2, 0, 1] 2 [0, 1, 2] (fetchFrom (\<lambda>_. None) second_works decode_sample) = (Inr entries, b) \<and>
      served_list (\<lambda>_. None) second_works decode_sample [0, 1, 2] entries)"
proof -
  have "finishes [2, 0, 1] [0, 1, 2 :: nat]" by (auto simp: finishes_def)
  moreover have "\<exists>body raw. second_works k 1 = Inr (StatusOK, body) \<and> decode_sample body = Inr raw" for k
    by (simp add: second_works_def decode_sample_def)
  ultimately show ?thesis
    using healthy_master_suffices [of 1 "[0, 1, 2]" "\<lambda>_. None" second_works decode_sample "[2, 0, 1]"] by simp
qed

text \<open>An empty list from the first master wins over the servers of the second.\<close>

lemma empty_list_accepted:
  "fst (failover () [0 :: nat, 1] (fetchFrom (\<lambda>_. None) (\<lambda>k m. Inr (StatusOK, if m = 0 then [] else [1])) decode_sample)) = Inr []"
  by (simp add: failover_def fetchFrom_def decode_sample_def decodeEntries_def)

end
