(* ===== verification/Frontend.thy ===== *)
theory Frontend
  imports ClientRuns
begin

text \<open>
  client/tickstate.go, client/driver.go and client/frontend.go: the state a consumer sees, the
  registered consumers and the loop that drives them. An observer only looks, so that it is the id it
  was registered under; a controller is the function from the states it has seen to its actions.
  \<open>fe_seen\<close> records who was shown what, in order. What other goroutines do to the client between two
  turns of the loop is part of its script. The zero time of the last snapshot is 0.
\<close>

section \<open>Consumers\<close>

datatype tick_mode = TickModeFixed | TickModeFrame

record tick_state =
  ts_Tick :: int
  ts_IntraTick :: rat
  ts_LocalID :: int
  ts_Players :: "(int, character) fmap"
  ts_Projectiles :: "projectile list"
  ts_Lasers :: "(int \<times> int \<times> int \<times> int \<times> int) list"
  ts_Pickups :: "(int \<times> int \<times> int \<times> int) list"
  ts_Flags :: "(int \<times> int \<times> int) list"
  ts_Map :: "map_view option"
  ts_Tuning :: tuning
  ts_ActiveTuning :: tuning
  ts_SelfTuneZone :: int
  ts_GameInfo :: game_info_state
  ts_RaceTime :: race_time
  ts_Roster :: registry
  ts_Events :: "event list"

datatype consumer = ObserverOf int | TheController

type_synonym controller = "tick_mode \<times> (tick_state list \<Rightarrow> action list)"

record frontends =
  fe_observers :: "(int, tick_mode) fmap"
  fe_obsNextID :: int
  fe_controller :: "controller option"
  fe_seen :: "(consumer \<times> tick_state) list"

definition no_frontends :: frontends where
  "no_frontends = \<lparr>fe_observers = fmempty, fe_obsNextID = 0, fe_controller = None, fe_seen = []\<rparr>"

text \<open>The id stands for the closure that removes the observer, \<open>RemoveObserver\<close>; a second call finds nothing.\<close>

definition AddObserver :: "tick_mode \<Rightarrow> frontends \<Rightarrow> int \<times> frontends" where
  "AddObserver m fe =
     (fe_obsNextID fe, fe\<lparr>fe_observers := fmupd (fe_obsNextID fe) m (fe_observers fe), fe_obsNextID := fe_obsNextID fe + 1\<rparr>)"

definition RemoveObserver :: "int \<Rightarrow> frontends \<Rightarrow> frontends" where
  "RemoveObserver i fe = fe\<lparr>fe_observers := fmdrop i (fe_observers fe)\<rparr>"

definition SetController :: "controller option \<Rightarrow> frontends \<Rightarrow> frontends" where
  "SetController ctrl fe = fe\<lparr>fe_controller := ctrl\<rparr>"

definition WithObserver :: "tick_mode \<Rightarrow> frontends \<Rightarrow> frontends" where
  "WithObserver m fe = snd (AddObserver m fe)"

definition WithController :: "controller \<Rightarrow> frontends \<Rightarrow> frontends" where
  "WithController ctrl fe = fe\<lparr>fe_controller := Some ctrl\<rparr>"

definition observerList :: "go_range \<Rightarrow> frontends \<Rightarrow> (int \<times> tick_mode) list" where
  "observerList rng fe = for_keys rng 20 (fe_observers fe) (\<lambda>i m. [(i, m)])"

definition hasConsumers :: "frontends \<Rightarrow> bool" where
  "hasConsumers fe \<longleftrightarrow> fe_observers fe \<noteq> fmempty \<or> fe_controller fe \<noteq> None"

section \<open>The state of a tick\<close>

text \<open>\<open>MapView\<close> caches the view it builds: the client is threaded through.\<close>

definition buildTickState :: "'s session_api \<Rightarrow> go_range \<Rightarrow> int \<Rightarrow> 's client \<Rightarrow> tick_state \<times> 's client" where
  "buildTickState api rng now c0 =
     (let ss = cl_snap c0;
          os = objs ss;
          players = PredictedCharacters ss (cl_pred c0);
          (mv, c1) = ClientMapView api c0;
          selfZone =
            (case mv of
               None \<Rightarrow> 0
             | Some v \<Rightarrow>
                 (case fmlookup players (localCID ss) of
                    None \<Rightarrow> 0
                  | Some ch \<Rightarrow> TuneZone v (go_div (ch_X ch) TileSize) (go_div (ch_Y ch) TileSize)));
          (activeTuning, p) = ActiveTuning (MapOf api c1) ss (cl_pred c1);
          (evs, c2) = drainTickEvents (c1\<lparr>cl_pred := p\<rparr>) in
      (\<lparr>ts_Tick = lastTick ss, ts_IntraTick = 0, ts_LocalID = localCID ss, ts_Players = players,
        ts_Projectiles = PredictedProjectiles rng now ss (cl_pred c1),
        ts_Lasers = map (\<lambda>l. (la_X l, la_Y l, la_FromX l, la_FromY l, la_StartTick l)) (so_Lasers os),
        ts_Pickups = map (\<lambda>k. (pk_X k, pk_Y k, pk_Type k, pk_Subtype k)) (so_Pickups os),
        ts_Flags = map (\<lambda>f. (fl_X f, fl_Y f, fl_Team f)) (so_Flags os),
        ts_Map = mv, ts_Tuning = predTun (cl_pred c0), ts_ActiveTuning = activeTuning, ts_SelfTuneZone = selfZone,
        ts_GameInfo = gameInfo ss, ts_RaceTime = raceTimeState now ss, ts_Roster = cl_players c0, ts_Events = evs\<rparr>, c2))"

definition buildFrameState :: "'s session_api \<Rightarrow> go_range \<Rightarrow> int \<Rightarrow> rat \<Rightarrow> 's client \<Rightarrow> tick_state \<times> 's client" where
  "buildFrameState api rng now intra c =
     (let (st, c1) = buildTickState api rng now c in
      (st\<lparr>ts_IntraTick := intra, ts_Players := SmoothedCharacters (cl_snap c1) intra (cl_pred c1)\<rparr>, c1))"

definition frameIntra :: "int \<Rightarrow> 's client \<Rightarrow> rat" where
  "frameIntra now c =
     (if lastSnapTime (cl_snap c) = 0 then 0
      else
        (let q = f32 (f32 (of_int (now - lastSnapTime (cl_snap c))) / f32 (of_int tickDuration)); top = f32 (999 / 1000) in
         if q < 0 then 0 else if q > top then top else q))"

section \<open>Dispatching\<close>

definition seen_by :: "consumer \<Rightarrow> frontends \<Rightarrow> tick_state list" where
  "seen_by k fe = map snd (filter (\<lambda>x. fst x = k) (fe_seen fe))"

text \<open>The errors of the actions are dropped.\<close>

definition do_actions :: "varint_lib \<Rightarrow> 's session_api \<Rightarrow> int \<Rightarrow> action list \<Rightarrow> 's client \<Rightarrow> 's client" where
  "do_actions L api now acts c = foldl (\<lambda>c a. snd (Do L api now a c)) c acts"

text \<open>\<open>dispatchFixed\<close> and \<open>dispatchFrame\<close> differ in the mode only.\<close>

definition dispatch_mode ::
    "varint_lib \<Rightarrow> 's session_api \<Rightarrow> go_range \<Rightarrow> int \<Rightarrow> tick_mode \<Rightarrow> tick_state \<Rightarrow> 's client \<times> frontends \<Rightarrow> 's client \<times> frontends" where
  "dispatch_mode L api rng now mode st x =
     (case x of (c, fe) \<Rightarrow>
        let fe1 = fe\<lparr>fe_seen := fe_seen fe @ map (\<lambda>(i, m). (ObserverOf i, st)) (filter (\<lambda>(i, m). m = mode) (observerList rng fe))\<rparr> in
        (case fe_controller fe of
           None \<Rightarrow> (c, fe1)
         | Some (m, onTick) \<Rightarrow>
             if m \<noteq> mode then (c, fe1)
             else
               (let fe2 = fe1\<lparr>fe_seen := fe_seen fe1 @ [(TheController, st)]\<rparr> in
                (do_actions L api now (onTick (seen_by TheController fe2)) c, fe2))))"

definition dispatchFixed where "dispatchFixed L api rng now = dispatch_mode L api rng now TickModeFixed"
definition dispatchFrame where "dispatchFrame L api rng now = dispatch_mode L api rng now TickModeFrame"

definition anyFrame :: "go_range \<Rightarrow> frontends \<Rightarrow> bool" where
  "anyFrame rng fe \<longleftrightarrow>
     list_ex (\<lambda>(i, m). m = TickModeFrame) (observerList rng fe) \<or>
     (case fe_controller fe of None \<Rightarrow> False | Some (m, f) \<Rightarrow> m = TickModeFrame)"

section \<open>RunFrontends\<close>

text \<open>
  One turn of the ticker at time \<open>now\<close>; \<open>lastTick\<close> is a variable of the loop, not of the client.
\<close>

definition front_tick ::
    "varint_lib \<Rightarrow> 's session_api \<Rightarrow> go_range \<Rightarrow> int \<Rightarrow> int \<times> 's client \<times> frontends \<Rightarrow> int \<times> 's client \<times> frontends" where
  "front_tick L api rng now x =
     (case x of (lastT, c, fe) \<Rightarrow>
        let pt = PredTick now (predTime (cl_pred c));
            (last1, c1, fe1) =
              (if pt > lastT then
                 (let (st, c1) = buildTickState api rng now c in (pt, dispatchFixed L api rng now st (c1, fe)))
               else (lastT, c, fe)) in
        if anyFrame rng fe1 then
          (let (st, c2) = buildFrameState api rng now (frameIntra now c1) c1 in
           (last1, dispatchFrame L api rng now st (c2, fe1)))
        else (last1, c1, fe1))"

text \<open>The script: what happens to the client, then a tick at a time. It ends with the context.\<close>

type_synonym 's front_turn = "('s client \<Rightarrow> 's client) \<times> int"

fun front_loop ::
    "varint_lib \<Rightarrow> 's session_api \<Rightarrow> go_range \<Rightarrow> 's front_turn list \<Rightarrow> int \<times> 's client \<times> frontends \<Rightarrow> int \<times> 's client \<times> frontends" where
  "front_loop L api rng [] x = x"
| "front_loop L api rng ((w, now) # turns) (lastT, c, fe) =
     front_loop L api rng turns (front_tick L api rng now (lastT, w c, fe))"

definition RunFrontends ::
    "varint_lib \<Rightarrow> 's session_api \<Rightarrow> go_range \<Rightarrow> 's front_turn list \<Rightarrow> 's client \<times> frontends \<Rightarrow> 's client \<times> frontends" where
  "RunFrontends L api rng turns x =
     (if \<not> hasConsumers (snd x) then x else snd (front_loop L api rng turns (0, x)))"

section \<open>Who sees which events\<close>

lemma buildTickState_events:
  "buildTickState api rng now c = (st, c1) \<Longrightarrow> ts_Events st = cl_tickEvents c \<and> cl_tickEvents c1 = []"
  by (auto simp: buildTickState_def ClientMapView_def drainTickEvents_def Let_def split: prod.splits)

lemma buildFrameState_events:
  "buildFrameState api rng now q c = (st, c1) \<Longrightarrow> ts_Events st = cl_tickEvents c \<and> cl_tickEvents c1 = []"
  by (auto simp: buildFrameState_def Let_def split: prod.splits dest: buildTickState_events)

lemma with_sess_events [simp]: "cl_tickEvents (snd (with_sess m c)) = cl_tickEvents c"
  by (auto simp: with_sess_def split: option.splits prod.splits)

lemma Do_events [simp]: "cl_tickEvents (snd (Do L api now a c)) = cl_tickEvents c"
  by (auto simp: Do_def sendInputDirect_def record_of_def Let_def split: action.splits)

lemma do_actions_events [simp]: "cl_tickEvents (do_actions L api now acts c) = cl_tickEvents c"
  by (induction acts arbitrary: c) (simp_all add: do_actions_def)

lemma dispatch_mode_events:
  "dispatch_mode L api rng now mode st (c, fe) = (c1, fe1) \<Longrightarrow>
    cl_tickEvents c1 = cl_tickEvents c \<and> fe_observers fe1 = fe_observers fe \<and> fe_controller fe1 = fe_controller fe"
  by (auto simp: dispatch_mode_def Let_def split: option.splits prod.splits if_splits)

text \<open>Ranging over the observers meets every one of them once.\<close>

lemma filter_concat_key:
  assumes "distinct ks" and "\<And>k x. x \<in> set (f k) \<Longrightarrow> fst x = k"
  shows "filter (\<lambda>x. fst x = i) (concat (map f ks)) = (if i \<in> set ks then f i else [])"
  using assms(1)
proof (induction ks)
  case (Cons k ks)
  have "filter (\<lambda>x. fst x = i) (f k) = (if i = k then f k else [])"
    using assms(2) [of _ k] by (auto simp: filter_id_conv filter_empty_conv)
  with Cons show ?case by auto
qed simp

lemma observerList_once:
  assumes "visits_all rng" and "fmlookup (fe_observers fe) i = Some m"
  shows "filter (\<lambda>x. fst x = i) (observerList rng fe) = [(i, m)]"
proof -
  let ?f = "\<lambda>k. case fmlookup (fe_observers fe) k of None \<Rightarrow> [] | Some v \<Rightarrow> [(k, v)]"
  have "i \<in> fset (fmdom (fe_observers fe))" using assms(2) by (simp add: fmdomI)
  then have "i \<in> set (rng 20 (fmdom (fe_observers fe)))" "distinct (rng 20 (fmdom (fe_observers fe)))"
    using assms(1) by (simp_all add: visits_all_def)
  moreover have "fst x = k" if "x \<in> set (?f k)" for x k using that by (auto split: option.splits)
  ultimately show ?thesis
    using filter_concat_key [of "rng 20 (fmdom (fe_observers fe))" ?f i] assms(2)
    by (simp add: observerList_def for_keys_def)
qed

lemma seen_by_append: "seen_by k (fe\<lparr>fe_seen := xs @ ys\<rparr>) = map snd (filter (\<lambda>x. fst x = k) xs) @ map snd (filter (\<lambda>x. fst x = k) ys)"
  by (simp add: seen_by_def)

lemma filter_shown:
  "filter (\<lambda>x. fst x = ObserverOf i) (map (\<lambda>(i, m). (ObserverOf i, st)) (filter (\<lambda>(i, m). m = mode) xs)) =
    map (\<lambda>(i, m). (ObserverOf i, st)) (filter (\<lambda>(i, m). m = mode) (filter (\<lambda>x. fst x = i) xs))"
  by (induction xs) auto

lemma dispatch_mode_observer:
  assumes "visits_all rng" and "fmlookup (fe_observers fe) i = Some m"
    and "dispatch_mode L api rng now mode st (c, fe) = (c1, fe1)"
  shows "seen_by (ObserverOf i) fe1 = seen_by (ObserverOf i) fe @ (if m = mode then [st] else [])"
proof -
  have "filter (\<lambda>x. fst x = ObserverOf i) (map (\<lambda>(i, m). (ObserverOf i, st)) (filter (\<lambda>(i, m). m = mode) (observerList rng fe))) =
      (if m = mode then [(ObserverOf i, st)] else [])"
    unfolding filter_shown observerList_once [OF assms(1,2)] by simp
  with assms(3) show ?thesis
    by (auto simp: dispatch_mode_def seen_by_def Let_def split: option.splits prod.splits if_splits)
qed

lemma front_tick_fixed:
  assumes "visits_all rng" and "fmlookup (fe_observers fe) i = Some TickModeFixed" and "\<not> anyFrame rng fe"
    and "front_tick L api rng now (lt, c, fe) = (lt1, c1, fe1)"
  shows "concat (map ts_Events (seen_by (ObserverOf i) fe1)) @ cl_tickEvents c1 =
      concat (map ts_Events (seen_by (ObserverOf i) fe)) @ cl_tickEvents c
    \<and> fe_observers fe1 = fe_observers fe \<and> fe_controller fe1 = fe_controller fe"
proof (cases "PredTick now (predTime (cl_pred c)) > lt")
  case False
  with assms(3,4) show ?thesis by (simp add: front_tick_def)
next
  case True
  obtain st c0 where b: "buildTickState api rng now c = (st, c0)" by fastforce
  obtain c2 fe2 where d: "dispatch_mode L api rng now TickModeFixed st (c0, fe) = (c2, fe2)" by fastforce
  note ev = dispatch_mode_events [OF d]
  have "\<not> anyFrame rng fe2" using assms(3) ev by (simp add: anyFrame_def observerList_def)
  with True b d assms(4) have "c1 = c2" "fe1 = fe2" by (simp_all add: front_tick_def dispatchFixed_def)
  with ev dispatch_mode_observer [OF assms(1,2) d] buildTickState_events [OF b] show ?thesis by simp
qed

lemma front_loop_fixed:
  assumes "visits_all rng" and "\<And>w now c. (w, now) \<in> set turns \<Longrightarrow> cl_tickEvents (w c) = cl_tickEvents c @ added w"
    and "fmlookup (fe_observers fe) i = Some TickModeFixed" and "\<not> anyFrame rng fe"
    and "front_loop L api rng turns (lt, c, fe) = (lt1, c1, fe1)"
  shows "concat (map ts_Events (seen_by (ObserverOf i) fe1)) @ cl_tickEvents c1 =
    concat (map ts_Events (seen_by (ObserverOf i) fe)) @ cl_tickEvents c @ concat (map (added \<circ> fst) turns)"
  using assms(2-)
proof (induction turns arbitrary: lt c fe)
  case (Cons t ts)
  obtain w now where t: "t = (w, now)" by fastforce
  obtain lt2 c2 fe2 where ft: "front_tick L api rng now (lt, w c, fe) = (lt2, c2, fe2)" by (metis prod_cases3)
  note step = front_tick_fixed [OF assms(1) Cons.prems(2,3) ft]
  have nf: "\<not> anyFrame rng fe2" using Cons.prems(3) step by (simp add: anyFrame_def observerList_def)
  have "front_loop L api rng ts (lt2, c2, fe2) = (lt1, c1, fe1)" using Cons.prems(4) t ft by simp
  then have "concat (map ts_Events (seen_by (ObserverOf i) fe1)) @ cl_tickEvents c1 =
      concat (map ts_Events (seen_by (ObserverOf i) fe2)) @ cl_tickEvents c2 @ concat (map (added \<circ> fst) ts)"
    using Cons.prems step nf by (intro Cons.IH) auto
  moreover have "cl_tickEvents (w c) = cl_tickEvents c @ added w" by (rule Cons.prems(1) [of w now]) (simp add: t)
  ultimately show ?case using step t by (metis append.assoc comp_apply concat.simps(2) fst_conv list.simps(9))
qed simp

text \<open>
  C14: A consumer at the fixed cadence misses no event. When no consumer runs at frame cadence, the
  events in the states an observer was shown, in order, and those still waiting are together exactly
  the events there were before and those the client took in since, each once, whatever the loop's
  timing, the other consumers and the actions of the controller.
\<close>

theorem fixed_consumers_miss_nothing:
  assumes "visits_all rng" and "\<And>w now c. (w, now) \<in> set turns \<Longrightarrow> cl_tickEvents (w c) = cl_tickEvents c @ added w"
    and "fmlookup (fe_observers fe) i = Some TickModeFixed" and "\<not> anyFrame rng fe"
    and "seen_by (ObserverOf i) fe = []" and "RunFrontends L api rng turns (c, fe) = (c1, fe1)"
  shows "concat (map ts_Events (seen_by (ObserverOf i) fe1)) @ cl_tickEvents c1 =
    cl_tickEvents c @ concat (map (added \<circ> fst) turns)"
proof -
  have "hasConsumers fe" using assms(3) by (auto simp: hasConsumers_def)
  then obtain lt where "front_loop L api rng turns (0, c, fe) = (lt, c1, fe1)"
    using assms(6) by (cases "front_loop L api rng turns (0, c, fe)") (auto simp: RunFrontends_def)
  from front_loop_fixed [OF assms(1,2,3,4) this] assms(5) show ?thesis by simp
qed

definition watching :: frontends where
  "watching = snd (AddObserver TickModeFixed no_frontends)"

definition broadcast_comes :: "'s client \<Rightarrow> 's client" where
  "broadcast_comes c = c\<lparr>cl_tickEvents := cl_tickEvents c @ [Chat (EventBroadcast [65])]\<rparr>"

definition quiet_turns :: "unit front_turn list" where
  "quiet_turns = [(broadcast_comes, 20000000), (broadcast_comes, 40000000)]"

definition clocked :: "unit client" where
  "clocked = fresh\<lparr>cl_pred := (cl_pred fresh)\<lparr>predTime := OnSnapshot 0 10 (predTime (cl_pred fresh))\<rparr>\<rparr>"

theorem fixed_consumers_miss_nothing_witness:
  "concat (map ts_Events (seen_by (ObserverOf 0) (snd (RunFrontends wire_lib quiet_api ascending quiet_turns (clocked, watching))))) @
     cl_tickEvents (fst (RunFrontends wire_lib quiet_api ascending quiet_turns (clocked, watching))) =
   cl_tickEvents clocked @ concat (map ((\<lambda>_. [Chat (EventBroadcast [65])]) \<circ> fst) quiet_turns)"
proof (rule fixed_consumers_miss_nothing [OF ascending_visits])
  show "cl_tickEvents (w c) = cl_tickEvents c @ [Chat (EventBroadcast [65])]"
    if "(w, now) \<in> set quiet_turns" for w now c
    using that by (auto simp: quiet_turns_def broadcast_comes_def)
  show "fmlookup (fe_observers watching) 0 = Some TickModeFixed" "seen_by (ObserverOf 0) watching = []"
    by (simp_all add: watching_def AddObserver_def no_frontends_def seen_by_def)
  have "x = (0, TickModeFixed)" if "x \<in> set (observerList ascending watching)" for x
    using that by (auto simp: observerList_def for_keys_def watching_def AddObserver_def no_frontends_def split: if_splits)
  then show "\<not> anyFrame ascending watching"
    by (auto simp: anyFrame_def list_ex_iff) (auto simp: watching_def AddObserver_def no_frontends_def)
qed simp

text \<open>
  A frame consumer loses events: with every new predicted tick the state for the fixed cadence is
  built, and drains the events, also when no consumer has that cadence; the state of the frame is
  built after it. When the predicted tick has advanced, the frame shows no event, however many there were.
\<close>

lemma frame_consumer_loses_events:
  assumes "PredTick now (predTime (cl_pred c)) > lt" and "list_all (\<lambda>(i, m). m = TickModeFrame) (observerList rng fe)"
    and "fe_controller fe = None" and "observerList rng fe \<noteq> []"
    and "front_tick L api rng now (lt, c, fe) = (lt1, c1, fe1)"
  shows "cl_tickEvents c1 = [] \<and> (\<exists>st. ts_Events st = [] \<and>
    fe_seen fe1 = fe_seen fe @ map (\<lambda>(i, m). (ObserverOf i, st)) (observerList rng fe))"
proof -
  obtain st c0 where b: "buildTickState api rng now c = (st, c0)" by fastforce
  obtain st2 c2 where f: "buildFrameState api rng now (frameIntra now c0) c0 = (st2, c2)" by fastforce
  have fixed: "dispatch_mode L api rng now TickModeFixed st (c0, fe) = (c0, fe)"
  proof -
    have "filter (\<lambda>(i, m). m = TickModeFixed) (observerList rng fe) = []"
      using assms(2) by (auto simp: filter_empty_conv list_all_iff)
    then show ?thesis using assms(3) by (simp add: dispatch_mode_def)
  qed
  have "filter (\<lambda>(i, m). m = TickModeFrame) (observerList rng fe) = observerList rng fe"
    using assms(2) by (auto simp: filter_id_conv list_all_iff)
  then have frame: "dispatch_mode L api rng now TickModeFrame st2 (c2, fe) =
      (c2, fe\<lparr>fe_seen := fe_seen fe @ map (\<lambda>(i, m). (ObserverOf i, st2)) (observerList rng fe)\<rparr>)"
    using assms(3) by (simp add: dispatch_mode_def)
  have "anyFrame rng fe" using assms(2,4) by (cases "observerList rng fe") (auto simp: anyFrame_def)
  with assms(1,5) b f fixed frame
  have "c1 = c2" "fe1 = fe\<lparr>fe_seen := fe_seen fe @ map (\<lambda>(i, m). (ObserverOf i, st2)) (observerList rng fe)\<rparr>"
    by (simp_all add: front_tick_def dispatchFixed_def dispatchFrame_def)
  with buildTickState_events [OF b] buildFrameState_events [OF f] show ?thesis by auto
qed

text \<open>
  The loop remembers the last predicted tick across a reconnect: until the new server's tick passes the
  old one, no consumer at the fixed cadence is called.
\<close>

lemma fixed_starved:
  "PredTick now (predTime (cl_pred c)) \<le> lt \<Longrightarrow> \<not> anyFrame rng fe \<Longrightarrow> front_tick L api rng now (lt, c, fe) = (lt, c, fe)"
  by (simp add: front_tick_def)

end
