(* ===== verification/Spec2Isabelle.thy ===== *)
theory Spec2Isabelle
  imports Chunk Headers Input SnapDelta TeeTicks Ghost Demo Helpers Roster MapDownload Backoff ClientRuns Opening
    Master Frontend
begin

text \<open>
  A verification development for twclient, a headless client library for Teeworlds (protocol 0.7)
  and DDNet (protocol 0.6) in Go.

  \<^bold>\<open>The program.\<close> A program that uses the library creates a client (package \<open>client\<close>) for a server.
  The client finds out which protocol the server speaks, opens a UDP connection (\<open>network\<close>) and logs
  a session in (\<open>net6\<close> or \<open>net7\<close>). The session's reader takes packets apart into chunks and messages
  (\<open>packet\<close>, \<open>packer\<close>), rebuilds snapshots from deltas and delivers events over a bounded channel.
  The client folds snapshots into its own state, derives further events from consecutive snapshots,
  keeps a registry of players, calls callbacks, feeds frontends, predicts the world ahead of the
  server (\<open>physics\<close>) and reconnects when the connection is lost. Beside this stand the master list and
  the server queries (\<open>master\<close>) and the file formats of recordings (\<open>record\<close>).

  \<^bold>\<open>The theories and the code.\<close> A definition has the name of the function, method or type it
  translates; where \<open>net6\<close> and \<open>net7\<close> declare the same name, the suffix 6 or 7 tells them apart, and
  a prefix tells fields of records apart.

  \<^item> Foundations. Prelude: Go's byte slices, errors, slices with bounds, and the error-and-state monad
    \<open>gost\<close>. GoStrings: what is used of strings, strconv and net on byte strings. Floats: float32 and
    float64 as rationals that every operation rounds.
  \<^item> Bytes. Varint (\<open>packer/varint.go\<close> and the contract of the third-party codec), Packer
    (\<open>packer/\<close>), Stream (the parts of io and bufio that the streaming decoders use), Huffman (contract
    of the third-party codec), Chunk (\<open>packet/chunk.go\<close>), Headers (\<open>net6/header.go\<close>,
    \<open>net7/header.go\<close>), Helpers (\<open>packet/helpers.go\<close>), Input (\<open>packet/input.go\<close>).
  \<^item> Messages. MsgFields, Messages6, Messages7 (\<open>constants.go\<close>, \<open>messages.go\<close>, \<open>builder.go\<close> of the two
    packages), Events (\<open>packet/event.go\<close>, \<open>events_server.go\<close>, \<open>capabilities.go\<close>), ServerEvents6,
    ServerEvents7 (what each server message emits).
  \<^item> Snapshots. SnapDelta (\<open>packet/snap.go\<close>), SnapObjs (\<open>packet/snapobj.go\<close> and the two
    \<open>snap_decode.go\<close>), SnapWire (both decoders against one reference).
  \<^item> Sessions. Conn (\<open>network/conn.go\<close>), Session (what both packages have in common), Session6 and
    Session7 (\<open>session.go\<close>, \<open>reader.go\<close>: senders, packet parser, dispatch, reader loop), Reader, Acks,
    Delivery, Dispatch, Assembly, Typed (properties of sessions and readers), Login6, Login7, Drain
    (handshakes, logins and the map drain of the 0.7 login), MapCache (\<open>packet/mapcache.go\<close>),
    MapDownload (the downloads of both packages and \<open>net6/maphttp.go\<close>), Opening (dialling, session
    options, \<open>NewSession\<close>).
  \<^item> Client. ClientSnap (\<open>client/snap.go\<close>), Registry and Roster (\<open>client/players.go\<close>), Backoff
    (\<open>client/backoff.go\<close>, \<open>client/reconnect.go\<close>), Client (\<open>client.go\<close>, \<open>callbacks.go\<close>, \<open>action.go\<close>,
    \<open>rcon.go\<close>, the client part of \<open>reconnect.go\<close>), ClientRuns (the client over both sessions and over
    whole runs), Frontend (\<open>tickstate.go\<close>, \<open>driver.go\<close>, \<open>frontend.go\<close>).
  \<^item> Prediction. Physics (\<open>physics/\<close>), MapView (\<open>client/mapview.go\<close>, \<open>physics/collision_map.go\<close>),
    PredTime (\<open>client/prediction.go\<close>, \<open>client/predicted_time.go\<close>), PredWorld
    (\<open>client/predicted_world.go\<close>, \<open>client/tuning.go\<close>).
  \<^item> Servers. ServerInfo (\<open>packet/serverinfo.go\<close> and both \<open>connless.go\<close>), Browser
    (\<open>client/detect.go\<close>), Query (\<open>master/query.go\<close>, \<open>master/scanlan.go\<close>), Master
    (\<open>master/policy.go\<close>, \<open>master/master.go\<close>).
  \<^item> Recordings. Teehistorian and TeeTicks (\<open>record/teehistorian\<close>), Ghost (\<open>record/ghost\<close>), Demo
    (\<open>record/demo\<close>).
\<close>

text \<open>
  \<^bold>\<open>How the code is read.\<close>

  \<^item> Integers. A byte is an \<open>8 word\<close>, an \<open>int32\<close> or \<open>uint32\<close> a \<open>32 word\<close> where it may wrap; a Go
    \<open>int\<close> (64 bits) is \<open>int\<close> where the values it takes are bounded far below the wrap.
  \<^item> Errors. A function that returns an error returns a sum, the error on the left. A panic (an index
    or a slice out of range, a call on a nil interface) is a left value of its own, so that no run of
    the model is better defined than the run of the code.
  \<^item> State. Methods with a pointer receiver return the record updated. Readers and decoders that fail
    after partial progress are in \<open>gost\<close>, where the state survives the failure, as in Go.
  \<^item> Time and network. The outside world is a script: what the next receive meets and how long that
    takes, and which sends fail. What the session writes is recorded in order. A deadline is compared
    with the clock that the script advances.
  \<^item> Goroutines. The body of a method that holds a mutex is one step. Where the interleaving matters
    (MapCache, Frontend, the event channel) the other goroutines are an argument or a step
    relation, and the properties hold for every one of them.
  \<^item> Maps. Go leaves the order of a loop over a map open: the order is an argument, and a property
    holds for all orders.
  \<^item> The client's effects on the outside (callbacks called, sessions opened and closed, reconnect loops
    started) are a list in its state, in order. The interface \<open>Session\<close> is a record of functions,
    \<open>session_api\<close>, of which \<open>api6\<close> and \<open>api7\<close> are the values the two packages provide.

  \<^bold>\<open>Parameters.\<close> Code that is outside the repository is an argument: the varint and the huffman codec,
  the map library twmap, crypto/md5, crypto/sha256 and crypto/rand, net/http, encoding/json,
  \<open>net.ParseIP\<close> and \<open>math.Pow\<close>. What a property needs of them is a named hypothesis, shown to hold
  for a concrete function by the property's witness.

  \<^bold>\<open>Interfaces.\<close> \<open>varint_contract\<close> says what the readers rely on in a varint codec, \<open>varint_mirror\<close>
  adds that it agrees with the stream reader, \<open>varint_short\<close> bounds its encodings; all are interpreted
  on the codec of \<open>packer/varint.go\<close>. \<open>sink\<close> is the writer of the encoders. \<open>snap_reader\<close> is what the
  snapshot path needs of the session that owns it, interpreted on both sessions. \<open>event_rel\<close>, with its
  extensions \<open>reader_rel6\<close> and \<open>reader_rel7\<close>, carries a relation on the consumer's view of a session
  through all handlers; \<open>session_contract\<close> is what the client relies on in a session, interpreted on
  \<open>api6\<close> and \<open>api7\<close>. \<open>backoff_schedule\<close>, \<open>rounding\<close>, \<open>input_window\<close> and \<open>request_policy\<close> are the
  contracts of the retry schedule, of a float format, of the ring of sent inputs and of the choice of a
  master server.

  \<^bold>\<open>What the lemmas show.\<close> The codecs of chunks, headers, packed names, server infos and the three file
  formats have their round trips, and their errors on malformed input. The streaming decoders agree
  with the in-memory parsers on every input. Delta decoding meets its specification whatever the
  pooled buffers held; the snapshot storage stays bounded. The two snapshot decoders are checked
  against one reference that is written from the numbers of the protocols. The sessions keep a type
  invariant; their acknowledgements go backwards only after an input that ran ahead of every
  acknowledged snapshot; the reader ends only with notice, the logins write the login dialogue over
  any lossy network and report a server that closes them, downloads reassemble the map and leave no
  registered key and no open channel behind, the cache loses no waiter. The client leaks no session,
  loses and repeats no event, calls each handler once, keeps its identity over reconnects and, once
  closed, does nothing to its sessions until it connects again. A tee never moves into a wall and
  jumps once in the air; a new prediction takes nothing over from the one before.

  \<^bold>\<open>Bounds and termination.\<close> Decoders recurse on the bytes that are left, and each round consumes one
  at least. Receiving loops recurse on the script, of which every round consumes an event, and a
  deadline or an empty script ends them. Loops over sequence numbers and ticks recurse on the
  distance that is left. Every recursion of the development is proved to terminate; there is no fuel,
  and no function is partial. A float overflows at magnitudes that no value of the
  game reaches; overflow, subnormal numbers and NaN are outside the model.

  \<^bold>\<open>What is not modelled.\<close> Logging and tracing, which change no state that is read again; the
  resolving and opening of addresses; mutexes and atomics, apart from the steps they delimit; the bodies
  of callbacks, observers and controllers, which belong to the program that uses the library; the
  progress report of a map download; the test code and its lossy proxy.
\<close>

end
